(* ===== verification/Prelude.thy ===== *)
theory Prelude
  imports Complex_Main "HOL-Library.Word" "HOL-Library.Multiset"
begin

section \<open>Shared vocabulary of the development\<close>

text \<open>
  What every component theory uses: the errors of the C++ code as values, the result type of a
  fallible operation with its sequencing operators, vectors edited at a position, and the lemma
  collections the component proofs draw on.

  The application is built with assertions enabled (\<^verbatim>\<open>meson.build\<close> leaves \<^verbatim>\<open>b_ndebug\<close> at its
  default), so a failing \<^verbatim>\<open>assert\<close> stops the program: it is an error value, like a thrown exception.
\<close>

datatype exec_error =
    AssertionFailed \<comment> \<open>\<^verbatim>\<open>assert(false)\<close>\<close>
  | ActionExecutionException string \<comment> \<open>\<^verbatim>\<open>throw ActionExecutionException(msg)\<close>\<close>
  | BadOptionalAccess \<comment> \<open>\<^verbatim>\<open>std::optional::value()\<close> on an empty optional\<close>
  | OutOfRange \<comment> \<open>\<^verbatim>\<open>std::out_of_range\<close>, thrown by \<^verbatim>\<open>at\<close>\<close>
  | RuntimeError string \<comment> \<open>\<^verbatim>\<open>throw std::runtime_error(msg)\<close>\<close>
  | UndefinedBehaviour \<comment> \<open>a read of an uninitialised field, an index or iterator out of range\<close>
  | InvalidArgument \<comment> \<open>\<^verbatim>\<open>throw std::invalid_argument(...)\<close>\<close>
  | Diverges \<comment> \<open>the call does not return: a generator that never finds a fresh identifier\<close>
  | OutOfFuel \<comment> \<open>only of the model: the bound on nested calls was too small\<close>

type_synonym 'a result = "exec_error + 'a"

named_theorems store_simps \<open>unfolding rules of the accessors and updaters of the stores\<close>
named_theorems action_defs \<open>definitions of the redo and undo operations of the actions\<close>
named_theorems inv_intros \<open>preservation of the component invariants\<close>

subsection \<open>Sequencing fallible operations\<close>

definition bindE :: "'a result \<Rightarrow> ('a \<Rightarrow> 'b result) \<Rightarrow> 'b result" where
  "bindE r f = (case r of Inl e \<Rightarrow> Inl e | Inr x \<Rightarrow> f x)"

definition assertE :: "bool \<Rightarrow> 'a result \<Rightarrow> 'a result" where
  "assertE b k = (if b then k else Inl AssertionFailed)"

definition valueE :: "'a option \<Rightarrow> 'a result" where
  "valueE x = (case x of None \<Rightarrow> Inl BadOptionalAccess | Some v \<Rightarrow> Inr v)"

definition nthE :: "'a list \<Rightarrow> nat \<Rightarrow> 'a result" where
  "nthE xs i = (if i < length xs then Inr (xs ! i) else Inl UndefinedBehaviour)"

fun foldE :: "('a \<Rightarrow> 's \<Rightarrow> 's result) \<Rightarrow> 'a list \<Rightarrow> 's \<Rightarrow> 's result" where
  "foldE f [] s = Inr s"
| "foldE f (x # xs) s = bindE (f x s) (foldE f xs)"

lemma bindE_simps [simp]:
  "bindE (Inl e) f = Inl e"
  "bindE (Inr x) f = f x"
  by (simp_all add: bindE_def)

lemma bindE_eq_Inr: "bindE r f = Inr y \<longleftrightarrow> (\<exists>x. r = Inr x \<and> f x = Inr y)"
  by (cases r) auto

lemma bindE_Inr_E [elim!]:
  assumes "bindE r f = Inr y"
  obtains x where "r = Inr x" and "f x = Inr y"
  using assms by (auto simp: bindE_eq_Inr)

lemma bindE_eq_Inl: "bindE r f = Inl e \<longleftrightarrow> r = Inl e \<or> (\<exists>x. r = Inr x \<and> f x = Inl e)"
  by (cases r) auto

lemma bindE_assoc: "bindE (bindE r f) g = bindE r (\<lambda>x. bindE (f x) g)"
  by (cases r) auto

lemma bindE_Inr_right [simp]: "bindE r Inr = r"
  by (cases r) auto

lemma bindE_cong [fundef_cong]:
  "r = r' \<Longrightarrow> (\<And>x. r' = Inr x \<Longrightarrow> f x = f' x) \<Longrightarrow> bindE r f = bindE r' f'"
  by (cases r') auto

lemma assertE_simps [simp]:
  "assertE True k = k"
  "assertE False k = Inl AssertionFailed"
  by (simp_all add: assertE_def)

lemma assertE_eq_Inr [simp]: "assertE b k = Inr y \<longleftrightarrow> b \<and> k = Inr y"
  by (simp add: assertE_def)

lemma valueE_simps [simp]:
  "valueE None = Inl BadOptionalAccess"
  "valueE (Some v) = Inr v"
  by (simp_all add: valueE_def)

lemma valueE_eq_Inr [simp]: "valueE x = Inr v \<longleftrightarrow> x = Some v"
  by (cases x) auto

lemma nthE_eq_Inr [simp]: "nthE xs i = Inr v \<longleftrightarrow> i < length xs \<and> v = xs ! i"
  by (auto simp: nthE_def)

lemma nthE_Inr: "i < length xs \<Longrightarrow> nthE xs i = Inr (xs ! i)"
  by simp

lemma foldE_append: "foldE f (xs @ ys) s = bindE (foldE f xs s) (foldE f ys)"
  by (induction xs arbitrary: s) (auto simp: bindE_assoc intro: bindE_cong)

lemma foldE_cong [fundef_cong]:
  "xs = ys \<Longrightarrow> s = s' \<Longrightarrow> (\<And>x t. x \<in> set ys \<Longrightarrow> f x t = g x t) \<Longrightarrow> foldE f xs s = foldE g ys s'"
proof (induction ys arbitrary: xs s s')
  case (Cons y ys)
  then show ?case by (auto intro!: bindE_cong)
qed simp

text \<open>An invariant of the loop body is an invariant of the loop.\<close>

lemma foldE_invariant:
  assumes "foldE f xs s = Inr s'" and "P s"
    and "\<And>x t t'. x \<in> set xs \<Longrightarrow> P t \<Longrightarrow> f x t = Inr t' \<Longrightarrow> P t'"
  shows "P s'"
  using assms
proof (induction xs arbitrary: s)
  case (Cons x xs)
  from Cons.prems(1) obtain t where "f x s = Inr t" and "foldE f xs t = Inr s'" by auto
  with Cons show ?case by (auto intro: Cons.IH[of t])
qed simp

text \<open>A loop whose body succeeds under an invariant that it keeps succeeds.\<close>

lemma foldE_total:
  assumes "P s" and "\<And>x t. x \<in> set xs \<Longrightarrow> P t \<Longrightarrow> \<exists>t'. f x t = Inr t' \<and> P t'"
  shows "\<exists>s'. foldE f xs s = Inr s' \<and> P s'"
  using assms
proof (induction xs arbitrary: s)
  case (Cons x xs)
  from Cons.prems obtain t where "f x s = Inr t" and "P t" by force
  moreover from Cons.IH[OF this(2)] Cons.prems(2) obtain s' where "foldE f xs t = Inr s'" and "P s'"
    by (meson list.set_intros(2))
  ultimately show ?case by auto
qed simp

text \<open>A loop whose body cannot fail is an ordinary fold.\<close>

lemma foldE_pure: "(\<And>x t. x \<in> set xs \<Longrightarrow> f x t = Inr (g x t)) \<Longrightarrow> foldE f xs s = Inr (fold g xs s)"
  by (induction xs arbitrary: s) auto

subsection \<open>Vectors\<close>

text \<open>\<^verbatim>\<open>v.insert(v.begin() + i, x)\<close> and \<^verbatim>\<open>v.erase(v.begin() + i)\<close>, for positions in range.\<close>

definition insert_at :: "nat \<Rightarrow> 'a \<Rightarrow> 'a list \<Rightarrow> 'a list" where
  "insert_at i x xs = take i xs @ x # drop i xs"

definition erase_at :: "nat \<Rightarrow> 'a list \<Rightarrow> 'a list" where
  "erase_at i xs = take i xs @ drop (Suc i) xs"

text \<open>\<^verbatim>\<open>std::distance(v.begin(), std::find(v.begin(), v.end(), x))\<close>; the length when \<^verbatim>\<open>x\<close> is absent.\<close>

fun index_of :: "'a \<Rightarrow> 'a list \<Rightarrow> nat" where
  "index_of x [] = 0"
| "index_of x (y # ys) = (if x = y then 0 else Suc (index_of x ys))"

lemma length_insert_at [simp]: "length (insert_at i x xs) = Suc (length xs)"
  by (simp add: insert_at_def)

lemma set_insert_at [simp]: "set (insert_at i x xs) = insert x (set xs)"
  unfolding insert_at_def by (metis append_take_drop_id insert_is_Un list.simps(15) set_append sup_left_commute)

lemma mset_insert_at [simp]: "mset (insert_at i x xs) = add_mset x (mset xs)"
  unfolding insert_at_def
  by (metis append_take_drop_id mset.simps(2) mset_append union_mset_add_mset_right)

lemma distinct_insert_at [simp]: "distinct (insert_at i x xs) \<longleftrightarrow> x \<notin> set xs \<and> distinct xs"
  by (metis distinct.simps(2) mset.simps(2) mset_eq_imp_distinct_iff mset_insert_at)

lemma erase_insert_at [simp]: "i \<le> length xs \<Longrightarrow> erase_at i (insert_at i x xs) = xs"
  by (simp add: erase_at_def insert_at_def)

lemma insert_erase_at: "i < length xs \<Longrightarrow> insert_at i (xs ! i) (erase_at i xs) = xs"
  by (simp add: erase_at_def insert_at_def id_take_nth_drop[symmetric])

lemma remove1_insert_at [simp]: "x \<notin> set xs \<Longrightarrow> remove1 x (insert_at i x xs) = xs"
  unfolding insert_at_def
  by (metis append_take_drop_id in_set_takeD remove1.simps(2) remove1_append)

lemma nth_insert_at_self [simp]: "i \<le> length xs \<Longrightarrow> insert_at i x xs ! i = x"
  by (simp add: insert_at_def nth_append)

lemma index_of_less [simp]: "index_of x xs < length xs \<longleftrightarrow> x \<in> set xs"
  by (induction xs) auto

lemma index_of_notin: "x \<notin> set xs \<Longrightarrow> index_of x xs = length xs"
  by (induction xs) auto

lemma nth_index_of [simp]: "x \<in> set xs \<Longrightarrow> xs ! index_of x xs = x"
  by (induction xs) auto

lemma index_of_nth [simp]: "distinct xs \<Longrightarrow> i < length xs \<Longrightarrow> index_of (xs ! i) xs = i"
  by (metis index_of_less nth_eq_iff_index_eq nth_index_of nth_mem)

lemma remove1_eq_erase_at: "x \<in> set xs \<Longrightarrow> remove1 x xs = erase_at (index_of x xs) xs"
  by (induction xs) (auto simp: erase_at_def)

lemma insert_at_remove1: "x \<in> set xs \<Longrightarrow> insert_at (index_of x xs) x (remove1 x xs) = xs"
  by (metis index_of_less insert_erase_at nth_index_of remove1_eq_erase_at)

subsection \<open>Stores with keys\<close>

text \<open>
  The interface of a store that owns objects under keys: \<open>lookup\<close> returns a reference (it fails for a missing
  key), \<open>put\<close> assigns through it. Matches of a category, players and categories of a tournament provide it;
  the actions that change one object and later restore it are its clients.
\<close>

locale keyed_store =
  fixes inv :: "'s \<Rightarrow> bool" and lookup :: "'k \<Rightarrow> 's \<Rightarrow> 'v result" and put :: "'k \<Rightarrow> 'v \<Rightarrow> 's \<Rightarrow> 's result"
  assumes put_same: "inv s \<Longrightarrow> put k v s = Inr s' \<Longrightarrow> lookup k s' = Inr v"
    and put_other: "inv s \<Longrightarrow> put k v s = Inr s' \<Longrightarrow> k' \<noteq> k \<Longrightarrow> lookup k' s' = lookup k' s"
    and put_total: "inv s \<Longrightarrow> lookup k s = Inr w \<Longrightarrow> \<exists>s'. put k v s = Inr s'"
    and put_back: "inv s \<Longrightarrow> lookup k s = Inr w \<Longrightarrow> put k v s = Inr s' \<Longrightarrow> put k w s' = Inr s"
begin

lemma modify_frame:
  assumes "inv s" and "bindE (lookup k s) (\<lambda>v. bindE (f v) (\<lambda>w. put k w s)) = Inr s'"
  shows "\<exists>v w. lookup k s = Inr v \<and> f v = Inr w \<and> lookup k s' = Inr w \<and>
    (\<forall>k'. k' \<noteq> k \<longrightarrow> lookup k' s' = lookup k' s)"
  using assms by (auto simp: put_same put_other)

lemma modify_restore:
  assumes "inv s" and "bindE (lookup k s) (\<lambda>v. bindE (f v) (\<lambda>w. put k w s)) = Inr s'"
  shows "\<exists>v. lookup k s = Inr v \<and> put k v s' = Inr s"
  using assms by (auto intro: put_back)

lemma modify_total:
  assumes "inv s" and "lookup k s = Inr v" and "f v = Inr w"
  shows "\<exists>s'. bindE (lookup k s) (\<lambda>v. bindE (f v) (\<lambda>w. put k w s)) = Inr s'"
  using assms put_total[of s k v w] by simp

end

end
