(* ===== verification/Random_Engine.thy ===== *)
theory Random_Engine
  imports Prelude
begin

section \<open>The random engine and the platform independent shuffle\<close>

text \<open>
  The draws are seeded: every client that replays an action with the same seed has to compute the same
  draw. The code uses \<^verbatim>\<open>std::mt19937\<close>, whose output the C++ standard fixes, and its own
  \<^verbatim>\<open>shuffle\<close> (\<^verbatim>\<open>src/core/shuffle.hpp\<close>), because \<^verbatim>\<open>std::shuffle\<close> is not consistent across platforms.
  Both are executable here: \<open>mt19937\<close> is the engine of the standard (32 bit words, 624 words of
  state), \<open>shuffle\<close> the loop of the repository.
\<close>

unbundle bit_operations_syntax

type_synonym u32 = "32 word"

subsection \<open>std::mt19937\<close>

record mt19937 =
  mt_words :: "u32 list"
  mt_index :: nat

fun mt_seed_words :: "nat \<Rightarrow> u32 \<Rightarrow> nat \<Rightarrow> u32 list" where
  "mt_seed_words 0 prev i = []"
| "mt_seed_words (Suc n) prev i =
     (let w = 1812433253 * (prev XOR drop_bit 30 prev) + of_nat i in w # mt_seed_words n w (Suc i))"

definition mt_seed :: "u32 \<Rightarrow> mt19937" where
  "mt_seed s = \<lparr>mt_words = s # mt_seed_words 623 s 1, mt_index = 624\<rparr>"

definition mt_twist_word :: "u32 list \<Rightarrow> nat \<Rightarrow> u32 list" where
  "mt_twist_word xs i =
     (let y = (xs ! i AND 0x80000000) OR (xs ! (Suc i mod 624) AND 0x7fffffff)
      in xs[i := xs ! ((i + 397) mod 624) XOR drop_bit 1 y XOR (if bit y 0 then 0x9908b0df else 0)])"

definition mt_temper :: "u32 \<Rightarrow> u32" where
  "mt_temper y0 =
     (let y1 = y0 XOR drop_bit 11 y0;
          y2 = y1 XOR (push_bit 7 y1 AND 0x9d2c5680);
          y3 = y2 XOR (push_bit 15 y2 AND 0xefc60000)
      in y3 XOR drop_bit 18 y3)"

text \<open>\<open>mt_next\<close> is \<^verbatim>\<open>eng()\<close>: the next output and the advanced engine.\<close>

definition mt_next :: "mt19937 \<Rightarrow> u32 \<times> mt19937" where
  "mt_next e =
     (let ws = (if mt_index e < 624 then mt_words e
                else fold (\<lambda>i xs. mt_twist_word xs i) [0..<624] (mt_words e));
          i = (if mt_index e < 624 then mt_index e else 0)
      in (mt_temper (ws ! i), \<lparr>mt_words = ws, mt_index = Suc i\<rparr>))"

subsection \<open>shuffle\<close>

text \<open>
  \<open>iter_swap xs i j\<close> is \<^verbatim>\<open>std::swap(*i, *j)\<close>. The loop of \<open>shuffle\<close> visits every position once
  and swaps it with a position drawn modulo the length; the engine is passed by reference, so the
  advanced engine is part of the result.
\<close>

definition iter_swap :: "'a list \<Rightarrow> nat \<Rightarrow> nat \<Rightarrow> 'a list" where
  "iter_swap xs i j = xs[i := xs ! j, j := xs ! i]"

fun shuffle_loop :: "nat list \<Rightarrow> 'a list \<Rightarrow> mt19937 \<Rightarrow> 'a list \<times> mt19937" where
  "shuffle_loop [] xs e = (xs, e)"
| "shuffle_loop (i # is) xs e =
     (let (r, e') = mt_next e; j = unat r mod length xs
      in shuffle_loop is (if i \<noteq> j then iter_swap xs i j else xs) e')"

definition shuffle :: "'a list \<Rightarrow> mt19937 \<Rightarrow> 'a list \<times> mt19937" where
  "shuffle xs e =
     (if length xs \<le> 1 then (xs, e) else shuffle_loop [0..<length xs] xs e)"

lemma length_iter_swap [simp]: "length (iter_swap xs i j) = length xs"
  by (simp add: iter_swap_def)

lemma mset_iter_swap: "i < length xs \<Longrightarrow> j < length xs \<Longrightarrow> mset (iter_swap xs i j) = mset xs"
  unfolding iter_swap_def by (metis mset_swap)

lemma mset_shuffle_loop:
  assumes "\<forall>i \<in> set is. i < length xs"
  shows "mset (fst (shuffle_loop is xs e)) = mset xs"
  using assms
proof (induction "is" arbitrary: xs e)
  case (Cons i "is")
  obtain r e' where r: "mt_next e = (r, e')" by force
  let ?j = "unat r mod length xs"
  let ?ys = "if i \<noteq> ?j then iter_swap xs i ?j else xs"
  from Cons.prems have "i < length xs" by simp
  then have "?j < length xs" by (intro mod_less_divisor) linarith
  with \<open>i < length xs\<close> have "mset ?ys = mset xs" by (simp add: mset_iter_swap)
  moreover have "mset (fst (shuffle_loop is ?ys e')) = mset ?ys"
    using Cons.prems by (intro Cons.IH) simp
  ultimately show ?case using r by (simp add: Let_def)
qed simp

lemma mset_shuffle [simp]: "mset (fst (shuffle xs e)) = mset xs"
  by (simp add: shuffle_def mset_shuffle_loop)

lemma length_shuffle [simp]: "length (fst (shuffle xs e)) = length xs"
  by (metis mset_shuffle size_mset)

lemma set_shuffle [simp]: "set (fst (shuffle xs e)) = set xs"
  by (metis mset_shuffle set_mset_mset)

lemma distinct_shuffle [simp]: "distinct (fst (shuffle xs e)) \<longleftrightarrow> distinct xs"
  by (metis mset_shuffle mset_eq_imp_distinct_iff)

end
