(* ===== verification/Ids.thy ===== *)
theory Ids
  imports Random_Engine "HOL-Library.Char_ord"
begin

section \<open>Identifiers\<close>

text \<open>
  Models \<^verbatim>\<open>src/core/id.hpp\<close> and \<^verbatim>\<open>src/core/id.cpp\<close>. An \<^verbatim>\<open>Id<CRTP>\<close> wraps a
  \<^verbatim>\<open>uint32_t\<close>; the wrapper classes differ only in their C++ type. \<open>CombinedId\<close> and
  \<open>ClientActionId\<close> are pairs ordered lexicographically. The rejection loops that draw a fresh
  identifier need not end for every engine, so they are partial functions (\<open>None\<close>: no return).
\<close>

type_synonym MatchId = u32
type_synonym CategoryId = u32
type_synonym PlayerId = u32
type_synonym PositionId = u32
type_synonym ActionId = u32
type_synonym ClientId = u32
type_synonym TournamentId = u32

subsection \<open>Pairs of identifiers\<close>

datatype CombinedId = CombinedId (getCategoryId: CategoryId) (getMatchId: MatchId)

definition CombinedId_less :: "CombinedId \<Rightarrow> CombinedId \<Rightarrow> bool" where
  "CombinedId_less a b =
     (if getCategoryId a \<noteq> getCategoryId b then getCategoryId a < getCategoryId b
      else getMatchId a < getMatchId b)"

instantiation CombinedId :: linorder
begin

definition less_CombinedId_alt: "a < b \<longleftrightarrow> CombinedId_less a b"

definition less_eq_CombinedId_alt: "a \<le> b \<longleftrightarrow> CombinedId_less a b \<or> a = b"

instance
  by standard
    (auto simp: less_CombinedId_alt less_eq_CombinedId_alt CombinedId_less_def split: if_splits,
     metis CombinedId.expand linorder_neqE)

end

datatype ClientActionId = ClientActionId (getClientId: ClientId) (getActionId: ActionId)

definition ClientActionId_less :: "ClientActionId \<Rightarrow> ClientActionId \<Rightarrow> bool" where
  "ClientActionId_less a b =
     (if getClientId a \<noteq> getClientId b then getClientId a < getClientId b
      else getActionId a < getActionId b)"

instantiation ClientActionId :: linorder
begin

definition less_ClientActionId_alt: "a < b \<longleftrightarrow> ClientActionId_less a b"

definition less_eq_ClientActionId_alt: "a \<le> b \<longleftrightarrow> ClientActionId_less a b \<or> a = b"

instance
  by standard
    (auto simp: less_ClientActionId_alt less_eq_ClientActionId_alt ClientActionId_less_def split: if_splits,
     metis ClientActionId.expand linorder_neqE)

end

subsection \<open>Fresh identifiers\<close>

text \<open>
  \<open>generate contains eng\<close> is the \<^verbatim>\<open>do ... while\<close> loop shared by \<^verbatim>\<open>MatchId::generate\<close>,
  \<^verbatim>\<open>PlayerId::generate\<close>, \<^verbatim>\<open>CategoryId::generate\<close> and \<^verbatim>\<open>PositionId::generate\<close>; they differ in the
  container they ask. \<open>generateMultiple\<close> collects \<open>num\<close> of them in a \<^verbatim>\<open>std::set\<close>, which returns them
  in increasing order.
\<close>

partial_function (option) generate :: "(u32 \<Rightarrow> bool) \<Rightarrow> mt19937 \<Rightarrow> (u32 \<times> mt19937) option" where
  "generate contains eng =
     (case mt_next eng of (r, eng') \<Rightarrow> if contains r then generate contains eng' else Some (r, eng'))"

partial_function (option) generateMultiple_loop ::
  "(u32 \<Rightarrow> bool) \<Rightarrow> nat \<Rightarrow> u32 list \<Rightarrow> mt19937 \<Rightarrow> (u32 list \<times> mt19937) option" where
  "generateMultiple_loop contains num ids eng =
     (if length ids < num then
        (case generate contains eng of
           None \<Rightarrow> None
         | Some (r, eng') \<Rightarrow>
             generateMultiple_loop contains num (if r \<in> set ids then ids else insort r ids) eng')
      else Some (ids, eng))"

definition generateMultiple :: "(u32 \<Rightarrow> bool) \<Rightarrow> nat \<Rightarrow> mt19937 \<Rightarrow> (u32 list \<times> mt19937) option" where
  "generateMultiple contains num eng = generateMultiple_loop contains num [] eng"

declare generate.simps [code] generateMultiple_loop.simps [code]

lemma generate_fresh:
  assumes "generate contains eng = Some (r, eng')"
  shows "\<not> contains r"
proof -
  let ?P = "\<lambda>contains (eng :: mt19937) res. \<not> contains (fst res :: u32)"
  have "?P contains eng (r, eng')"
  proof (rule generate.raw_induct [where P = ?P, OF _ assms])
    fix gen :: "(u32 \<Rightarrow> bool) \<Rightarrow> mt19937 \<Rightarrow> (u32 \<times> mt19937) option" and c e y
    assume "\<And>c e y. gen c e = Some y \<Longrightarrow> ?P c e y"
      and "(case mt_next e of (r, eng') \<Rightarrow> if c r then gen c eng' else Some (r, eng')) = Some y"
    then show "?P c e y" by (cases "mt_next e"; cases y) (force split: if_splits)
  qed
  then show ?thesis by simp
qed

text \<open>With nothing to avoid, the loop ends in its first iteration.\<close>

lemma generate_unconstrained: "(\<And>r. \<not> contains r) \<Longrightarrow> generate contains eng = Some (mt_next eng)"
  by (subst generate.simps) (simp split: prod.split)

definition fresh_ids :: "(u32 \<Rightarrow> bool) \<Rightarrow> u32 list \<Rightarrow> bool" where
  "fresh_ids contains ids \<longleftrightarrow> sorted ids \<and> distinct ids \<and> list_all (\<lambda>r. \<not> contains r) ids"

lemma fresh_ids_insort:
  "fresh_ids contains ids \<Longrightarrow> \<not> contains r \<Longrightarrow> r \<notin> set ids \<Longrightarrow> fresh_ids contains (insort r ids)"
  by (auto simp: fresh_ids_def sorted_insort distinct_insort set_insort_key list_all_iff)

lemma generateMultiple_loop_fresh:
  assumes "generateMultiple_loop contains num ids eng = Some (rs, eng')"
    and "fresh_ids contains ids" and "length ids \<le> num"
  shows "fresh_ids contains rs \<and> length rs = num"
proof -
  let ?P = "\<lambda>contains num ids eng (rs, eng'). fresh_ids contains ids \<longrightarrow> length ids \<le> num \<longrightarrow>
    fresh_ids contains rs \<and> length rs = num"
  have "?P contains num ids eng (rs, eng')"
  proof (rule generateMultiple_loop.raw_induct [where P = ?P, OF _ assms(1)])
    fix loop :: "(u32 \<Rightarrow> bool) \<Rightarrow> nat \<Rightarrow> u32 list \<Rightarrow> mt19937 \<Rightarrow> (u32 list \<times> mt19937) option"
      and c n xs e y
    assume IH: "\<And>c n xs e y. loop c n xs e = Some y \<Longrightarrow> ?P c n xs e y"
      and eq: "(if length xs < n then
        (case generate c e of None \<Rightarrow> None
         | Some (r, e') \<Rightarrow> loop c n (if r \<in> set xs then xs else insort r xs) e')
        else Some (xs, e)) = Some y"
    show "?P c n xs e y"
    proof (cases "length xs < n")
      case True
      with eq obtain r e' where g: "generate c e = Some (r, e')"
        and l: "loop c n (if r \<in> set xs then xs else insort r xs) e' = Some y"
        by (auto split: option.splits)
      from generate_fresh[OF g] IH[OF l] True show ?thesis
        by (auto simp: fresh_ids_insort split: if_splits)
    next
      case False
      with eq show ?thesis by auto
    qed
  qed
  with assms(2,3) show ?thesis by simp
qed

end
