(* ===== verification/Match_Store.thy ===== *)
theory Match_Store
  imports Ids
begin

section \<open>The match store\<close>

text \<open>
  Models \<^verbatim>\<open>src/core/stores/match_store.hpp\<close> and \<^verbatim>\<open>match_store.cpp\<close>: the data of one match (scores, clock,
  osaekomi, events, players) and the accessors the rulesets and actions use.

  A \<^verbatim>\<open>std::array<T, 2>\<close> indexed by an enumeration is a function from the enumeration. Durations and
  clock readings (\<^verbatim>\<open>std::chrono::milliseconds\<close>) are integers counting milliseconds. The counters
  \<^verbatim>\<open>wazari\<close> and \<^verbatim>\<open>shido\<close> are \<^verbatim>\<open>unsigned int\<close>; they are natural numbers here, and the score invariant
  of the theory \<open>Match_Events\<close> bounds them by 1 and 3, so that the width never matters. \<^verbatim>\<open>State::State\<close>
  leaves \<^verbatim>\<open>resumeTime\<close> uninitialised; it is read in \<open>currentDuration\<close> only, in status \<open>UNPAUSED\<close>, which is
  entered through an assignment to it, and the model starts it at 0.
\<close>

datatype MatchType = ELIMINATION | FINAL

datatype MatchStatus = NOT_STARTED | PAUSED | UNPAUSED | FINISHED

datatype PlayerIndex = WHITE | BLUE

record Score =
  wazari :: nat
  shido :: nat
  ippon :: bool
  directIppon :: bool
  hansokuMake :: bool
  directHansokuMake :: bool

record State =
  status :: MatchStatus
  goldenScore :: bool
  resumeTime :: int
  duration :: int
  scores :: "PlayerIndex \<Rightarrow> Score"
  osaekomi :: "(PlayerIndex \<times> int) option"
  osaekomiWazari :: bool

datatype MatchEventType =
    IPPON | WAZARI | SHIDO | HANSOKU_MAKE | IPPON_OSAEKOMI | WAZARI_OSAEKOMI
  | CANCEL_IPPON | CANCEL_WAZARI | CANCEL_SHIDO | CANCEL_HANSOKU_MAKE

datatype MatchEvent = MatchEvent (event_type: MatchEventType) (event_player: PlayerIndex) (event_duration: int)

record MatchStore =
  mCombinedId :: CombinedId
  mType :: MatchType
  mTitle :: string
  mPermanentBye :: bool
  mBye :: bool
  mMatchPlayers :: "PlayerIndex \<Rightarrow> PlayerId option"
  mState :: State
  mEvents :: "MatchEvent list"

subsection \<open>Constructors\<close>

definition newScore :: Score where
  "newScore = \<lparr>wazari = 0, shido = 0, ippon = False, directIppon = False,
     hansokuMake = False, directHansokuMake = False\<rparr>"

definition newState :: "bool \<Rightarrow> State" where
  "newState finished =
     \<lparr>status = (if finished then FINISHED else NOT_STARTED), goldenScore = False, resumeTime = 0,
      duration = 0, scores = (\<lambda>_. newScore), osaekomi = None, osaekomiWazari = False\<rparr>"

definition newMatchStore ::
  "CombinedId \<Rightarrow> MatchType \<Rightarrow> string \<Rightarrow> bool \<Rightarrow> PlayerId option \<Rightarrow> PlayerId option \<Rightarrow> MatchStore" where
  "newMatchStore cid ty title permanentBye whitePlayer bluePlayer =
     \<lparr>mCombinedId = cid, mType = ty, mTitle = title, mPermanentBye = permanentBye, mBye = permanentBye,
      mMatchPlayers = (\<lambda>p. case p of WHITE \<Rightarrow> whitePlayer | BLUE \<Rightarrow> bluePlayer),
      mState = newState permanentBye, mEvents = []\<rparr>"

subsection \<open>Accessors\<close>

definition isGoldenScore :: "MatchStore \<Rightarrow> bool" where
  [store_simps]: "isGoldenScore m = goldenScore (mState m)"

definition setGoldenScore :: "bool \<Rightarrow> MatchStore \<Rightarrow> MatchStore" where
  [store_simps]: "setGoldenScore b m = m\<lparr>mState := (mState m)\<lparr>goldenScore := b\<rparr>\<rparr>"

definition getPlayer :: "MatchStore \<Rightarrow> PlayerIndex \<Rightarrow> PlayerId option" where
  [store_simps]: "getPlayer m p = mMatchPlayers m p"

definition setPlayer :: "PlayerIndex \<Rightarrow> PlayerId option \<Rightarrow> MatchStore \<Rightarrow> MatchStore" where
  [store_simps]: "setPlayer p v m = m\<lparr>mMatchPlayers := (mMatchPlayers m)(p := v)\<rparr>"

definition getWhitePlayer :: "MatchStore \<Rightarrow> PlayerId option" where
  [store_simps]: "getWhitePlayer m = getPlayer m WHITE"

definition getBluePlayer :: "MatchStore \<Rightarrow> PlayerId option" where
  [store_simps]: "getBluePlayer m = getPlayer m BLUE"

definition pushEvent :: "MatchEvent \<Rightarrow> MatchStore \<Rightarrow> MatchStore" where
  [store_simps]: "pushEvent e m = m\<lparr>mEvents := mEvents m @ [e]\<rparr>"

text \<open>\<^verbatim>\<open>pop_back\<close> on an empty vector is undefined behaviour.\<close>

definition popEvent :: "MatchStore \<Rightarrow> MatchStore result" where
  "popEvent m = (if mEvents m = [] then Inl UndefinedBehaviour
                 else Inr (m\<lparr>mEvents := butlast (mEvents m)\<rparr>))"

definition clearEvents :: "MatchStore \<Rightarrow> MatchStore" where
  [store_simps]: "clearEvents m = m\<lparr>mEvents := []\<rparr>"

definition setEvents :: "MatchEvent list \<Rightarrow> MatchStore \<Rightarrow> MatchStore" where
  [store_simps]: "setEvents es m = m\<lparr>mEvents := es\<rparr>"

definition getScore :: "MatchStore \<Rightarrow> PlayerIndex \<Rightarrow> Score" where
  [store_simps]: "getScore m p = scores (mState m) p"

text \<open>Mutation through the reference that the non-const \<^verbatim>\<open>getScore\<close> returns.\<close>

definition updateScore :: "PlayerIndex \<Rightarrow> (Score \<Rightarrow> Score) \<Rightarrow> MatchStore \<Rightarrow> MatchStore" where
  [store_simps]: "updateScore p f m =
     m\<lparr>mState := (mState m)\<lparr>scores := (scores (mState m))(p := f (scores (mState m) p))\<rparr>\<rparr>"

definition getWhiteScore :: "MatchStore \<Rightarrow> Score" where
  [store_simps]: "getWhiteScore m = getScore m WHITE"

definition getBlueScore :: "MatchStore \<Rightarrow> Score" where
  [store_simps]: "getBlueScore m = getScore m BLUE"

definition isBye :: "MatchStore \<Rightarrow> bool" where
  [store_simps]: "isBye m = mBye m"

definition setBye :: "bool \<Rightarrow> MatchStore \<Rightarrow> MatchStore result" where
  "setBye b m = assertE (\<not> mPermanentBye m) (Inr (m\<lparr>mBye := b\<rparr>))"

definition isPermanentBye :: "MatchStore \<Rightarrow> bool" where
  [store_simps]: "isPermanentBye m = mPermanentBye m"

definition getStatus :: "MatchStore \<Rightarrow> MatchStatus" where
  [store_simps]: "getStatus m = status (mState m)"

definition setStatus :: "MatchStatus \<Rightarrow> MatchStore \<Rightarrow> MatchStore" where
  [store_simps]: "setStatus s m = m\<lparr>mState := (mState m)\<lparr>status := s\<rparr>\<rparr>"

definition getDuration :: "MatchStore \<Rightarrow> int" where
  [store_simps]: "getDuration m = duration (mState m)"

definition setDuration :: "int \<Rightarrow> MatchStore \<Rightarrow> MatchStore" where
  [store_simps]: "setDuration d m = m\<lparr>mState := (mState m)\<lparr>duration := d\<rparr>\<rparr>"

definition setResumeTime :: "int \<Rightarrow> MatchStore \<Rightarrow> MatchStore" where
  [store_simps]: "setResumeTime t m = m\<lparr>mState := (mState m)\<lparr>resumeTime := t\<rparr>\<rparr>"

definition currentDuration :: "MatchStore \<Rightarrow> int \<Rightarrow> int" where
  "currentDuration m masterTime =
     (if status (mState m) \<noteq> UNPAUSED then duration (mState m)
      else (masterTime - resumeTime (mState m)) + duration (mState m))"

definition getOsaekomi :: "MatchStore \<Rightarrow> (PlayerIndex \<times> int) option" where
  [store_simps]: "getOsaekomi m = osaekomi (mState m)"

definition setOsaekomi :: "(PlayerIndex \<times> int) option \<Rightarrow> MatchStore \<Rightarrow> MatchStore" where
  [store_simps]: "setOsaekomi x m = m\<lparr>mState := (mState m)\<lparr>osaekomi := x\<rparr>\<rparr>"

definition isOsaekomiWazari :: "MatchStore \<Rightarrow> bool" where
  [store_simps]: "isOsaekomiWazari m = osaekomiWazari (mState m)"

definition setOsaekomiWazari :: "bool \<Rightarrow> MatchStore \<Rightarrow> MatchStore" where
  [store_simps]: "setOsaekomiWazari b m = m\<lparr>mState := (mState m)\<lparr>osaekomiWazari := b\<rparr>\<rparr>"

definition currentOsaekomiTime :: "MatchStore \<Rightarrow> int \<Rightarrow> int result" where
  "currentOsaekomiTime m masterTime =
     (case osaekomi (mState m) of None \<Rightarrow> Inl AssertionFailed | Some (_, t) \<Rightarrow> Inr (masterTime - t))"

definition setState :: "State \<Rightarrow> MatchStore \<Rightarrow> MatchStore" where
  [store_simps]: "setState s m = m\<lparr>mState := s\<rparr>"

definition clearState :: "MatchStore \<Rightarrow> MatchStore" where
  [store_simps]: "clearState m = m\<lparr>mState := newState (mBye m)\<rparr>"

definition other :: "PlayerIndex \<Rightarrow> PlayerIndex" where
  "other p = (if p = WHITE then BLUE else WHITE)"

lemma other_simps [simp]: "other WHITE = BLUE" "other BLUE = WHITE" "other p \<noteq> p" "p \<noteq> other p"
  by (cases p; simp add: other_def)+

lemma other_other [simp]: "other (other p) = p"
  by (cases p) simp_all

lemma eq_other_iff: "q = other p \<longleftrightarrow> q \<noteq> p"
  by (cases p; cases q) simp_all

lemma All_PlayerIndex: "(\<forall>p. P p) \<longleftrightarrow> P WHITE \<and> P BLUE"
  by (metis PlayerIndex.exhaust)

lemma Ex_PlayerIndex: "(\<exists>p. P p) \<longleftrightarrow> P WHITE \<or> P BLUE"
  by (metis PlayerIndex.exhaust)

lemma All_MatchType: "(\<forall>p. P p) \<longleftrightarrow> P ELIMINATION \<and> P FINAL"
  by (metis MatchType.exhaust)

lemma currentDuration_stopped [simp]:
  "status (mState m) \<noteq> UNPAUSED \<Longrightarrow> currentDuration m t = duration (mState m)"
  by (simp add: currentDuration_def)

end
