(* ===== verification/Rulesets.thy ===== *)
theory Rulesets
  imports Match_Store
begin

section \<open>Rulesets\<close>

text \<open>
  Models \<^verbatim>\<open>src/core/rulesets\<close>: the abstract class \<^verbatim>\<open>Ruleset\<close> with its clock and osaekomi operations, and the
  IJF ruleset \<^verbatim>\<open>TwentyEighteenRuleset\<close> with its two and three minute variants. A ruleset object has no
  data, so it is its identifier; the virtual methods dispatch on it. The variants override the name, the
  identifier and the durations only. The mutating methods begin with an \<^verbatim>\<open>assert\<close> of their guard, so they
  return a \<open>result\<close>.
\<close>

datatype RulesetIdentifier =
    TWENTY_EIGHTEEN | TWENTY_EIGHTEEN_TWO_MINUTE | TWENTY_EIGHTEEN_THREE_MINUTE

type_synonym Ruleset = RulesetIdentifier

subsection \<open>Durations\<close>

fun getNormalTime :: "Ruleset \<Rightarrow> int" where
  "getNormalTime TWENTY_EIGHTEEN = 4 * 60000"
| "getNormalTime TWENTY_EIGHTEEN_TWO_MINUTE = 2 * 60000"
| "getNormalTime TWENTY_EIGHTEEN_THREE_MINUTE = 3 * 60000"

fun getExpectedTime :: "Ruleset \<Rightarrow> int" where
  "getExpectedTime TWENTY_EIGHTEEN = 4 * 60000"
| "getExpectedTime TWENTY_EIGHTEEN_TWO_MINUTE = 2 * 60000"
| "getExpectedTime TWENTY_EIGHTEEN_THREE_MINUTE = 3 * 60000"

definition getOsaekomiIpponTime :: "Ruleset \<Rightarrow> int" where
  "getOsaekomiIpponTime r = 20 * 1000"

definition getOsaekomiWazariTime :: "Ruleset \<Rightarrow> int" where
  "getOsaekomiWazariTime r = 10 * 1000"

fun getRulesetName :: "Ruleset \<Rightarrow> string" where
  "getRulesetName TWENTY_EIGHTEEN = ''Current''"
| "getRulesetName TWENTY_EIGHTEEN_TWO_MINUTE = ''Current (2 minutes)''"
| "getRulesetName TWENTY_EIGHTEEN_THREE_MINUTE = ''Current (3 minutes)''"

lemma getNormalTime_pos [simp]: "0 < getNormalTime r" "0 \<le> getNormalTime r"
  by (cases r; simp)+

subsection \<open>Winner and end of a match\<close>

text \<open>The two overloads of \<^verbatim>\<open>getWinner\<close>: at a clock reading, and for a finished match.\<close>

definition getWinnerAt :: "Ruleset \<Rightarrow> MatchStore \<Rightarrow> int \<Rightarrow> PlayerIndex option" where
  "getWinnerAt r m masterTime =
     (if getWhitePlayer m = None then Some BLUE
      else if getBluePlayer m = None then Some WHITE
      else if hansokuMake (getBlueScore m) then Some WHITE
      else if hansokuMake (getWhiteScore m) then Some BLUE
      else if ippon (getWhiteScore m) then Some WHITE
      else if ippon (getBlueScore m) then Some BLUE
      else if currentDuration m masterTime \<ge> getNormalTime r \<and>
        wazari (getWhiteScore m) > wazari (getBlueScore m) then Some WHITE
      else if currentDuration m masterTime \<ge> getNormalTime r \<and>
        wazari (getBlueScore m) > wazari (getWhiteScore m) then Some BLUE
      else None)"

definition getWinner :: "Ruleset \<Rightarrow> MatchStore \<Rightarrow> PlayerIndex option result" where
  "getWinner r m =
     (if getWhitePlayer m = None then Inr (Some BLUE)
      else if getBluePlayer m = None then Inr (Some WHITE)
      else assertE (getStatus m = FINISHED) (Inr
        (if hansokuMake (getBlueScore m) then Some WHITE
         else if hansokuMake (getWhiteScore m) then Some BLUE
         else if ippon (getWhiteScore m) then Some WHITE
         else if ippon (getBlueScore m) then Some BLUE
         else if wazari (getWhiteScore m) > wazari (getBlueScore m) then Some WHITE
         else if wazari (getBlueScore m) > wazari (getWhiteScore m) then Some BLUE
         else None)))"

definition isFinished :: "Ruleset \<Rightarrow> MatchStore \<Rightarrow> int \<Rightarrow> bool" where
  "isFinished r m masterTime =
     (if isBye m then True
      else if getWhitePlayer m = None then False
      else if getBluePlayer m = None then False
      else if getStatus m = UNPAUSED then False
      else if getOsaekomi m \<noteq> None then False
      else if hansokuMake (getWhiteScore m) \<or> hansokuMake (getBlueScore m) then True
      else getWinnerAt r m masterTime \<noteq> None)"

subsection \<open>Pausing and resuming\<close>

definition shouldPause :: "Ruleset \<Rightarrow> MatchStore \<Rightarrow> int \<Rightarrow> bool" where
  "shouldPause r m masterTime =
     (if getStatus m \<noteq> UNPAUSED then False
      else if currentDuration m masterTime > getNormalTime r \<and> \<not> isGoldenScore m then True
      else getWinnerAt r m masterTime \<noteq> None)"

definition canPause :: "Ruleset \<Rightarrow> MatchStore \<Rightarrow> int \<Rightarrow> bool" where
  "canPause r m masterTime \<longleftrightarrow> getStatus m = UNPAUSED"

definition pause :: "Ruleset \<Rightarrow> MatchStore \<Rightarrow> int \<Rightarrow> MatchStore result" where
  "pause r m masterTime = assertE (canPause r m masterTime) (Inr
     (let cd = currentDuration m masterTime;
          cd' = (if cd > getNormalTime r \<and> \<not> isGoldenScore m then getNormalTime r else cd);
          m1 = setStatus PAUSED (setDuration cd' m)
      in if isFinished r m1 masterTime then setStatus FINISHED m1
         else if cd' \<ge> getNormalTime r then setGoldenScore True m1
         else m1))"

definition canResume :: "Ruleset \<Rightarrow> MatchStore \<Rightarrow> int \<Rightarrow> bool" where
  "canResume r m masterTime \<longleftrightarrow> getStatus m \<noteq> UNPAUSED \<and> \<not> isFinished r m masterTime"

definition resume :: "Ruleset \<Rightarrow> MatchStore \<Rightarrow> int \<Rightarrow> MatchStore result" where
  "resume r m masterTime = assertE (canResume r m masterTime)
     (Inr (setStatus UNPAUSED (setResumeTime masterTime m)))"

definition updateStatus :: "Ruleset \<Rightarrow> MatchStore \<Rightarrow> int \<Rightarrow> MatchStore" where
  "updateStatus r m masterTime =
     (if getStatus m = UNPAUSED then m
      else if isFinished r m masterTime then
        (let m1 = setStatus FINISHED m
         in if currentDuration m1 masterTime \<le> getNormalTime r then setGoldenScore False m1 else m1)
      else
        (let m1 = setStatus PAUSED m
         in if currentDuration m1 masterTime \<ge> getNormalTime r then setGoldenScore True m1 else m1))"

subsection \<open>Osaekomi\<close>

definition canStartOsaekomi :: "Ruleset \<Rightarrow> MatchStore \<Rightarrow> PlayerIndex \<Rightarrow> bool" where
  "canStartOsaekomi r m p \<longleftrightarrow> \<not> ippon (getScore m p) \<and> \<not> ippon (getScore m (other p))"

definition startOsaekomi :: "Ruleset \<Rightarrow> MatchStore \<Rightarrow> PlayerIndex \<Rightarrow> int \<Rightarrow> MatchStore result" where
  "startOsaekomi r m p masterTime = assertE (canStartOsaekomi r m p)
     (Inr (setOsaekomiWazari False (setOsaekomi (Some (p, masterTime)) m)))"

definition canStopOsaekomi :: "Ruleset \<Rightarrow> MatchStore \<Rightarrow> int \<Rightarrow> bool" where
  "canStopOsaekomi r m masterTime \<longleftrightarrow> getOsaekomi m \<noteq> None"

definition stopOsaekomi :: "Ruleset \<Rightarrow> MatchStore \<Rightarrow> int \<Rightarrow> MatchStore" where
  "stopOsaekomi r m masterTime =
     (let m1 = setOsaekomiWazari False (setOsaekomi None m)
      in if getStatus m1 = PAUSED \<and> isFinished r m1 masterTime then setStatus FINISHED m1 else m1)"

definition shouldAwardOsaekomiWazari :: "Ruleset \<Rightarrow> MatchStore \<Rightarrow> int \<Rightarrow> bool result" where
  "shouldAwardOsaekomiWazari r m masterTime =
     (if getOsaekomi m = None then Inr False
      else bindE (currentOsaekomiTime m masterTime)
        (\<lambda>t. Inr (t > getOsaekomiWazariTime r \<and> \<not> isOsaekomiWazari m)))"

definition shouldAwardOsaekomiIppon :: "Ruleset \<Rightarrow> MatchStore \<Rightarrow> int \<Rightarrow> bool result" where
  "shouldAwardOsaekomiIppon r m masterTime =
     (if getOsaekomi m = None then Inr False
      else bindE (currentOsaekomiTime m masterTime) (\<lambda>t. Inr (t > getOsaekomiIpponTime r)))"

definition shouldStopOsaekomi :: "Ruleset \<Rightarrow> MatchStore \<Rightarrow> int \<Rightarrow> bool" where
  "shouldStopOsaekomi r m masterTime \<longleftrightarrow>
     getOsaekomi m \<noteq> None \<and> (ippon (getWhiteScore m) \<or> ippon (getBlueScore m))"

subsection \<open>Scores\<close>

definition canAwardIppon :: "Ruleset \<Rightarrow> MatchStore \<Rightarrow> PlayerIndex \<Rightarrow> bool" where
  "canAwardIppon r m p \<longleftrightarrow> \<not> ippon (getScore m (other p)) \<and> \<not> ippon (getScore m p)"

definition awardIppon :: "Ruleset \<Rightarrow> MatchStore \<Rightarrow> PlayerIndex \<Rightarrow> int \<Rightarrow> MatchStore result" where
  "awardIppon r m p masterTime = assertE (canAwardIppon r m p)
     (Inr (updateStatus r (updateScore p (\<lambda>s. s\<lparr>ippon := True, directIppon := True\<rparr>) m) masterTime))"

definition canCancelIppon :: "Ruleset \<Rightarrow> MatchStore \<Rightarrow> PlayerIndex \<Rightarrow> bool" where
  "canCancelIppon r m p \<longleftrightarrow> directIppon (getScore m p)"

definition cancelIppon :: "Ruleset \<Rightarrow> MatchStore \<Rightarrow> PlayerIndex \<Rightarrow> int \<Rightarrow> MatchStore result" where
  "cancelIppon r m p masterTime = assertE (canCancelIppon r m p)
     (Inr (updateStatus r (updateScore p (\<lambda>s. s\<lparr>directIppon := False, ippon := False\<rparr>) m) masterTime))"

definition canAwardWazari :: "Ruleset \<Rightarrow> MatchStore \<Rightarrow> PlayerIndex \<Rightarrow> bool" where
  "canAwardWazari r m p \<longleftrightarrow> \<not> ippon (getScore m (other p)) \<and> \<not> ippon (getScore m p)"

definition addWazari :: "Score \<Rightarrow> Score" where
  "addWazari s = (let s1 = s\<lparr>wazari := wazari s + 1\<rparr>
     in if wazari s1 = 2 then s1\<lparr>ippon := True, wazari := 0\<rparr> else s1)"

definition awardWazari :: "Ruleset \<Rightarrow> MatchStore \<Rightarrow> PlayerIndex \<Rightarrow> int \<Rightarrow> MatchStore result" where
  "awardWazari r m p masterTime = assertE (canAwardWazari r m p)
     (Inr (updateStatus r (updateScore p addWazari m) masterTime))"

definition canCancelWazari :: "Ruleset \<Rightarrow> MatchStore \<Rightarrow> PlayerIndex \<Rightarrow> bool" where
  "canCancelWazari r m p \<longleftrightarrow>
     wazari (getScore m p) > 0 \<or> (ippon (getScore m p) \<and> \<not> directIppon (getScore m p))"

definition removeWazari :: "Score \<Rightarrow> Score" where
  "removeWazari s =
     (if wazari s = 1 then s\<lparr>wazari := 0\<rparr>
      else if ippon s then s\<lparr>wazari := 1, ippon := False\<rparr>
      else s)"

definition cancelWazari :: "Ruleset \<Rightarrow> MatchStore \<Rightarrow> PlayerIndex \<Rightarrow> int \<Rightarrow> MatchStore result" where
  "cancelWazari r m p masterTime = assertE (canCancelWazari r m p)
     (Inr (updateStatus r (updateScore p removeWazari m) masterTime))"

definition canAwardShido :: "Ruleset \<Rightarrow> MatchStore \<Rightarrow> PlayerIndex \<Rightarrow> bool" where
  "canAwardShido r m p \<longleftrightarrow> \<not> hansokuMake (getScore m p) \<and> \<not> hansokuMake (getScore m (other p))"

definition addShido :: "Score \<Rightarrow> Score" where
  "addShido s = (let s1 = s\<lparr>shido := shido s + 1\<rparr>
     in if shido s1 = 3 then s1\<lparr>hansokuMake := True\<rparr> else s1)"

definition awardShido :: "Ruleset \<Rightarrow> MatchStore \<Rightarrow> PlayerIndex \<Rightarrow> int \<Rightarrow> MatchStore result" where
  "awardShido r m p masterTime = assertE (canAwardShido r m p)
     (Inr (updateStatus r (updateScore p addShido m) masterTime))"

definition canCancelShido :: "Ruleset \<Rightarrow> MatchStore \<Rightarrow> PlayerIndex \<Rightarrow> bool" where
  "canCancelShido r m p \<longleftrightarrow> shido (getScore m p) > 0"

definition removeShido :: "Score \<Rightarrow> Score" where
  "removeShido s = (let s1 = s\<lparr>shido := shido s - 1\<rparr>
     in if hansokuMake s1 \<and> \<not> directHansokuMake s1 then s1\<lparr>hansokuMake := False\<rparr> else s1)"

definition cancelShido :: "Ruleset \<Rightarrow> MatchStore \<Rightarrow> PlayerIndex \<Rightarrow> int \<Rightarrow> MatchStore result" where
  "cancelShido r m p masterTime = assertE (canCancelShido r m p)
     (Inr (updateStatus r (updateScore p removeShido m) masterTime))"

definition canAwardHansokuMake :: "Ruleset \<Rightarrow> MatchStore \<Rightarrow> PlayerIndex \<Rightarrow> bool" where
  "canAwardHansokuMake r m p \<longleftrightarrow>
     \<not> directHansokuMake (getScore m p) \<and> \<not> hansokuMake (getScore m (other p))"

definition awardHansokuMake :: "Ruleset \<Rightarrow> MatchStore \<Rightarrow> PlayerIndex \<Rightarrow> int \<Rightarrow> MatchStore result" where
  "awardHansokuMake r m p masterTime = assertE (canAwardHansokuMake r m p)
     (Inr (updateStatus r
       (updateScore p (\<lambda>s. s\<lparr>hansokuMake := True, directHansokuMake := True\<rparr>) m) masterTime))"

definition canCancelHansokuMake :: "Ruleset \<Rightarrow> MatchStore \<Rightarrow> PlayerIndex \<Rightarrow> bool" where
  "canCancelHansokuMake r m p \<longleftrightarrow> directHansokuMake (getScore m p)"

definition removeHansokuMake :: "Score \<Rightarrow> Score" where
  "removeHansokuMake s = (let s1 = s\<lparr>directHansokuMake := False\<rparr>
     in if shido s1 < 3 then s1\<lparr>hansokuMake := False\<rparr> else s1)"

definition cancelHansokuMake :: "Ruleset \<Rightarrow> MatchStore \<Rightarrow> PlayerIndex \<Rightarrow> int \<Rightarrow> MatchStore result" where
  "cancelHansokuMake r m p masterTime = assertE (canCancelHansokuMake r m p)
     (Inr (updateStatus r (updateScore p removeHansokuMake m) masterTime))"

subsection \<open>The registry of rulesets\<close>

definition getRulesets :: "Ruleset list" where
  "getRulesets = [TWENTY_EIGHTEEN, TWENTY_EIGHTEEN_TWO_MINUTE, TWENTY_EIGHTEEN_THREE_MINUTE]"

text \<open>
  \<^verbatim>\<open>getRuleset\<close> indexes the list through a map from identifier to position, filled in list order;
  \<^verbatim>\<open>at\<close> throws for an unknown identifier.
\<close>

definition rulesetIndex :: "RulesetIdentifier \<rightharpoonup> nat" where
  "rulesetIndex = map_of (rev (zip getRulesets [0..<length getRulesets]))"

definition getRuleset :: "RulesetIdentifier \<Rightarrow> Ruleset result" where
  "getRuleset i = (case rulesetIndex i of None \<Rightarrow> Inl OutOfRange | Some k \<Rightarrow> nthE getRulesets k)"

definition getDefaultRuleset :: "Ruleset result" where
  "getDefaultRuleset = getRuleset TWENTY_EIGHTEEN"

lemma getRuleset_identity [simp]: "getRuleset i = Inr i"
  by (cases i) (simp_all add: getRuleset_def rulesetIndex_def getRulesets_def upt_rec nthE_def)

end
