(* ===== verification/Match_Events.thy ===== *)
theory Match_Events
  imports Rulesets
begin

section \<open>Commands on one match\<close>

text \<open>
  The part of every match event action (\<^verbatim>\<open>src/core/actions/award_*_action.cpp\<close>, \<^verbatim>\<open>cancel_*\<close>, \<^verbatim>\<open>pause\<close>,
  \<^verbatim>\<open>resume\<close>, \<^verbatim>\<open>start_osaekomi\<close>, \<^verbatim>\<open>stop_osaekomi\<close>) that reads and writes the match: its guard, whose failure
  makes \<^verbatim>\<open>redoImpl\<close> return early, and its body, between \<^verbatim>\<open>save\<close> and \<^verbatim>\<open>notify\<close>. The theory \<open>Match_Actions\<close>
  wraps them into the actions on the tournament. The step relation \<open>match_step\<close> collects everything that
  happens to a match, and the invariant \<open>match_inv\<close> is proved for every reachable match.
\<close>

datatype MatchCommand =
    AwardIppon PlayerIndex bool
  | AwardWazari PlayerIndex bool
  | AwardShido PlayerIndex
  | AwardHansokuMake PlayerIndex
  | CancelIppon PlayerIndex
  | CancelWazari PlayerIndex
  | CancelShido PlayerIndex
  | CancelHansokuMake PlayerIndex
  | PauseMatch
  | ResumeMatch
  | StartOsaekomi PlayerIndex
  | StopOsaekomi

text \<open>The common end of the bodies: pause the clock when the ruleset says so.\<close>

definition pauseIfNeeded :: "Ruleset \<Rightarrow> int \<Rightarrow> MatchStore \<Rightarrow> MatchStore result" where
  "pauseIfNeeded r t m = (if shouldPause r m t then pause r m t else Inr m)"

definition logAndPause ::
  "Ruleset \<Rightarrow> MatchEventType \<Rightarrow> PlayerIndex \<Rightarrow> int \<Rightarrow> MatchStore \<Rightarrow> MatchStore result" where
  "logAndPause r ty p t m = pauseIfNeeded r t (pushEvent (MatchEvent ty p (currentDuration m t)) m)"

definition AwardIpponAction_body :: "Ruleset \<Rightarrow> PlayerIndex \<Rightarrow> bool \<Rightarrow> int \<Rightarrow> MatchStore \<Rightarrow> MatchStore result" where
  "AwardIpponAction_body r p osae t m =
     bindE (if isOsaekomiWazari m \<and> canCancelWazari r m p then cancelWazari r m p t else Inr m) (\<lambda>m1.
     bindE (awardIppon r m1 p t)
       (logAndPause r (if osae then IPPON_OSAEKOMI else IPPON) p t))"

definition AwardWazariAction_body :: "Ruleset \<Rightarrow> PlayerIndex \<Rightarrow> bool \<Rightarrow> int \<Rightarrow> MatchStore \<Rightarrow> MatchStore result" where
  "AwardWazariAction_body r p osae t m =
     bindE (awardWazari r m p t) (\<lambda>m1.
       logAndPause r (if osae then WAZARI_OSAEKOMI else WAZARI) p t
         (if osae then setOsaekomiWazari True m1 else m1))"

definition AwardShidoAction_body :: "Ruleset \<Rightarrow> PlayerIndex \<Rightarrow> int \<Rightarrow> MatchStore \<Rightarrow> MatchStore result" where
  "AwardShidoAction_body r p t m = bindE (awardShido r m p t) (logAndPause r SHIDO p t)"

definition AwardHansokuMakeAction_body :: "Ruleset \<Rightarrow> PlayerIndex \<Rightarrow> int \<Rightarrow> MatchStore \<Rightarrow> MatchStore result" where
  "AwardHansokuMakeAction_body r p t m = bindE (awardHansokuMake r m p t) (logAndPause r HANSOKU_MAKE p t)"

definition CancelIpponAction_body :: "Ruleset \<Rightarrow> PlayerIndex \<Rightarrow> int \<Rightarrow> MatchStore \<Rightarrow> MatchStore result" where
  "CancelIpponAction_body r p t m = bindE (cancelIppon r m p t) (logAndPause r CANCEL_IPPON p t)"

definition CancelWazariAction_body :: "Ruleset \<Rightarrow> PlayerIndex \<Rightarrow> int \<Rightarrow> MatchStore \<Rightarrow> MatchStore result" where
  "CancelWazariAction_body r p t m = bindE (cancelWazari r m p t) (logAndPause r CANCEL_WAZARI p t)"

definition CancelShidoAction_body :: "Ruleset \<Rightarrow> PlayerIndex \<Rightarrow> int \<Rightarrow> MatchStore \<Rightarrow> MatchStore result" where
  "CancelShidoAction_body r p t m = bindE (cancelShido r m p t) (logAndPause r CANCEL_SHIDO p t)"

definition CancelHansokuMakeAction_body :: "Ruleset \<Rightarrow> PlayerIndex \<Rightarrow> int \<Rightarrow> MatchStore \<Rightarrow> MatchStore result" where
  "CancelHansokuMakeAction_body r p t m =
     bindE (cancelHansokuMake r m p t) (logAndPause r CANCEL_HANSOKU_MAKE p t)"

definition StartOsaekomiAction_body :: "Ruleset \<Rightarrow> PlayerIndex \<Rightarrow> int \<Rightarrow> MatchStore \<Rightarrow> MatchStore result" where
  "StartOsaekomiAction_body r p t m =
     bindE (startOsaekomi r m p t) (\<lambda>m1.
       if getStatus m1 \<noteq> UNPAUSED \<and> (getDuration m1 < getNormalTime r \<or> isGoldenScore m1)
       then resume r m1 t else Inr m1)"

definition StopOsaekomiAction_body :: "Ruleset \<Rightarrow> int \<Rightarrow> MatchStore \<Rightarrow> MatchStore result" where
  "StopOsaekomiAction_body r t m = pauseIfNeeded r t (stopOsaekomi r m t)"

fun commandGuard :: "Ruleset \<Rightarrow> MatchCommand \<Rightarrow> int \<Rightarrow> MatchStore \<Rightarrow> bool" where
  "commandGuard r (AwardIppon p osae) t m = canAwardIppon r m p"
| "commandGuard r (AwardWazari p osae) t m = (\<not> (osae \<and> isOsaekomiWazari m) \<and> canAwardWazari r m p)"
| "commandGuard r (AwardShido p) t m = canAwardShido r m p"
| "commandGuard r (AwardHansokuMake p) t m = canAwardHansokuMake r m p"
| "commandGuard r (CancelIppon p) t m = canCancelIppon r m p"
| "commandGuard r (CancelWazari p) t m = canCancelWazari r m p"
| "commandGuard r (CancelShido p) t m = canCancelShido r m p"
| "commandGuard r (CancelHansokuMake p) t m = canCancelHansokuMake r m p"
| "commandGuard r PauseMatch t m = canPause r m t"
| "commandGuard r ResumeMatch t m = canResume r m t"
| "commandGuard r (StartOsaekomi p) t m = canStartOsaekomi r m p"
| "commandGuard r StopOsaekomi t m = canStopOsaekomi r m t"

fun commandBody :: "Ruleset \<Rightarrow> MatchCommand \<Rightarrow> int \<Rightarrow> MatchStore \<Rightarrow> MatchStore result" where
  "commandBody r (AwardIppon p osae) t m = AwardIpponAction_body r p osae t m"
| "commandBody r (AwardWazari p osae) t m = AwardWazariAction_body r p osae t m"
| "commandBody r (AwardShido p) t m = AwardShidoAction_body r p t m"
| "commandBody r (AwardHansokuMake p) t m = AwardHansokuMakeAction_body r p t m"
| "commandBody r (CancelIppon p) t m = CancelIpponAction_body r p t m"
| "commandBody r (CancelWazari p) t m = CancelWazariAction_body r p t m"
| "commandBody r (CancelShido p) t m = CancelShidoAction_body r p t m"
| "commandBody r (CancelHansokuMake p) t m = CancelHansokuMakeAction_body r p t m"
| "commandBody r PauseMatch t m = pause r m t"
| "commandBody r ResumeMatch t m = resume r m t"
| "commandBody r (StartOsaekomi p) t m = StartOsaekomiAction_body r p t m"
| "commandBody r StopOsaekomi t m = StopOsaekomiAction_body r t m"

text \<open>The part of \<^verbatim>\<open>SetMatchByeAction::redoImpl\<close> that concerns the match.\<close>

definition SetMatchByeAction_guard :: "bool \<Rightarrow> MatchStore \<Rightarrow> bool" where
  "SetMatchByeAction_guard bye m \<longleftrightarrow> isBye m \<noteq> bye \<and> \<not> (bye \<and> getStatus m \<noteq> NOT_STARTED)"

definition SetMatchByeAction_body :: "bool \<Rightarrow> MatchStore \<Rightarrow> MatchStore result" where
  "SetMatchByeAction_body bye m = setBye bye (setStatus (if bye then FINISHED else NOT_STARTED) m)"

lemmas body_defs =
  AwardIpponAction_body_def AwardWazariAction_body_def AwardShidoAction_body_def
  AwardHansokuMakeAction_body_def CancelIpponAction_body_def CancelWazariAction_body_def
  CancelShidoAction_body_def CancelHansokuMakeAction_body_def StartOsaekomiAction_body_def
  StopOsaekomiAction_body_def

lemmas ruleset_op_defs =
  awardIppon_def awardWazari_def awardShido_def awardHansokuMake_def
  cancelIppon_def cancelWazari_def cancelShido_def cancelHansokuMake_def

lemmas ruleset_guard_defs =
  canAwardIppon_def canAwardWazari_def canAwardShido_def canAwardHansokuMake_def
  canCancelIppon_def canCancelWazari_def canCancelShido_def canCancelHansokuMake_def
  canPause_def canResume_def canStartOsaekomi_def canStopOsaekomi_def

lemmas score_defs = addWazari_def removeWazari_def addShido_def removeShido_def removeHansokuMake_def

subsection \<open>The invariant\<close>

text \<open>
  \<open>wf_score\<close> says which combinations of the six fields of a score can occur: at most one open wazari, at most
  three shidos, disqualification exactly when it was given directly or by the third shido, an ippon that
  is not direct stems from two wazaris, which were converted.
\<close>

definition wf_score :: "Score \<Rightarrow> bool" where
  "wf_score s \<longleftrightarrow> wazari s \<le> 1 \<and> shido s \<le> 3 \<and>
     (hansokuMake s \<longleftrightarrow> directHansokuMake s \<or> shido s = 3) \<and>
     (directIppon s \<longrightarrow> ippon s) \<and> (ippon s \<and> \<not> directIppon s \<longrightarrow> wazari s = 0)"

definition scores_inv :: "MatchStore \<Rightarrow> bool" where
  "scores_inv m \<longleftrightarrow> (\<forall>p. wf_score (getScore m p)) \<and>
     (\<forall>p. ippon (getScore m p) \<longrightarrow> \<not> ippon (getScore m (other p))) \<and>
     (\<forall>p. hansokuMake (getScore m p) \<longrightarrow> \<not> hansokuMake (getScore m (other p)))"

text \<open>A match is decided when a rule of the IJF names a winner for the scores on the board.\<close>

definition decided :: "Ruleset \<Rightarrow> MatchStore \<Rightarrow> bool" where
  "decided r m \<longleftrightarrow> (\<exists>p. hansokuMake (getScore m p)) \<or> (\<exists>p. ippon (getScore m p)) \<or>
     (getNormalTime r \<le> getDuration m \<and> wazari (getScore m WHITE) \<noteq> wazari (getScore m BLUE))"

definition finish_inv :: "Ruleset \<Rightarrow> MatchStore \<Rightarrow> bool" where
  "finish_inv r m \<longleftrightarrow> (getStatus m = FINISHED \<longrightarrow> isBye m \<or> decided r m)"

text \<open>Outside golden score the stored clock never exceeds the regular time.\<close>

definition clock_inv :: "Ruleset \<Rightarrow> MatchStore \<Rightarrow> bool" where
  "clock_inv r m \<longleftrightarrow> (isGoldenScore m \<or> getDuration m \<le> getNormalTime r)"

text \<open>
  The invariant. With \<open>fin\<close> it contains the condition on finished matches, which the undo of some actions violates;
  the other two conditions do not need it.
\<close>

definition match_inv :: "bool \<Rightarrow> Ruleset \<Rightarrow> MatchStore \<Rightarrow> bool" where
  "match_inv fin r m \<longleftrightarrow> scores_inv m \<and> (fin \<longrightarrow> finish_inv r m) \<and> clock_inv r m"

subsection \<open>Preservation\<close>

lemma scores_inv_cong: "scores (mState m) = scores (mState m') \<Longrightarrow> scores_inv m \<longleftrightarrow> scores_inv m'"
  by (simp add: scores_inv_def getScore_def)

lemma scores_updateStatus [simp]:
  "scores (mState (updateStatus r m t)) = scores (mState m)"
  "mMatchPlayers (updateStatus r m t) = mMatchPlayers m"
  "mBye (updateStatus r m t) = mBye m"
  "osaekomi (mState (updateStatus r m t)) = osaekomi (mState m)"
  "duration (mState (updateStatus r m t)) = duration (mState m)"
  "osaekomiWazari (mState (updateStatus r m t)) = osaekomiWazari (mState m)"
  by (simp_all add: updateStatus_def store_simps Let_def)

lemma isFinished_decided:
  assumes "isFinished r m t" and "getStatus m \<noteq> UNPAUSED"
  shows "isBye m \<or> decided r m"
  using assms
  by (auto simp: isFinished_def decided_def getWinnerAt_def store_simps split: if_splits)

lemma decided_setters [simp]:
  "decided r (setStatus s m) = decided r m"
  "decided r (setGoldenScore b m) = decided r m"
  by (simp_all add: decided_def store_simps)

lemma finish_inv_updateStatus: "finish_inv r (updateStatus r m t)"
  using isFinished_decided[of r m t]
  by (auto simp: finish_inv_def updateStatus_def Let_def decided_def store_simps split: if_splits)

lemma clock_inv_updateStatus: "clock_inv r m \<Longrightarrow> clock_inv r (updateStatus r m t)"
  by (auto simp: clock_inv_def updateStatus_def Let_def currentDuration_def store_simps)

lemma scores_pause:
  "pause r m t = Inr m' \<Longrightarrow> scores (mState m') = scores (mState m)"
  by (auto simp: pause_def store_simps Let_def)

text \<open>The duration \<open>pause\<close> stores: the clock, capped at the regular time outside golden score.\<close>

definition pauseDuration :: "Ruleset \<Rightarrow> MatchStore \<Rightarrow> int \<Rightarrow> int" where
  "pauseDuration r m t = (if currentDuration m t > getNormalTime r \<and> \<not> isGoldenScore m
     then getNormalTime r else currentDuration m t)"

lemma pause_InrE:
  assumes "pause r m t = Inr m'"
  obtains (finished) m1 where "m1 = setStatus PAUSED (setDuration (pauseDuration r m t) m)"
      "isFinished r m1 t" "m' = setStatus FINISHED m1"
  | (golden) m1 where "m1 = setStatus PAUSED (setDuration (pauseDuration r m t) m)"
      "\<not> isFinished r m1 t" "getNormalTime r \<le> pauseDuration r m t" "m' = setGoldenScore True m1"
  | (regular) "\<not> isFinished r m' t" "pauseDuration r m t < getNormalTime r"
      "m' = setStatus PAUSED (setDuration (pauseDuration r m t) m)"
  using assms unfolding pause_def Let_def pauseDuration_def[symmetric]
  by (auto split: if_splits)

lemma pauseDuration_golden: "isGoldenScore m \<or> pauseDuration r m t \<le> getNormalTime r"
  by (auto simp: pauseDuration_def)

lemma match_inv_pause: "scores_inv m \<Longrightarrow> clock_inv r m \<Longrightarrow> pause r m t = Inr m' \<Longrightarrow> match_inv fin r m'"
proof -
  assume s: "scores_inv m" and c: "clock_inv r m" and p: "pause r m t = Inr m'"
  have "scores_inv m'" using s scores_inv_cong[OF scores_pause[OF p]] by simp
  moreover have "finish_inv r m'" using p
  proof (cases rule: pause_InrE)
    case (finished m1)
    then show ?thesis using isFinished_decided[of r m1 t] by (auto simp: finish_inv_def store_simps decided_def)
  qed (auto simp: finish_inv_def store_simps)
  moreover have "clock_inv r m'" using p pauseDuration_golden[of m r t]
    by (cases rule: pause_InrE) (auto simp: clock_inv_def store_simps)
  ultimately show ?thesis by (simp add: match_inv_def)
qed

lemma match_inv_pauseIfNeeded:
  "match_inv fin r m \<Longrightarrow> pauseIfNeeded r t m = Inr m' \<Longrightarrow> match_inv fin r m'"
  unfolding pauseIfNeeded_def
  by (metis match_inv_pause match_inv_def sum.inject(2))

lemma match_inv_pushEvent [simp]: "match_inv fin r (pushEvent e m) = match_inv fin r m"
  by (simp add: match_inv_def scores_inv_def finish_inv_def clock_inv_def decided_def store_simps)

lemma match_inv_setOsaekomiWazari [simp]: "match_inv fin r (setOsaekomiWazari b m) = match_inv fin r m"
  by (simp add: match_inv_def scores_inv_def finish_inv_def clock_inv_def decided_def store_simps)

lemma match_inv_setOsaekomi [simp]: "match_inv fin r (setOsaekomi b m) = match_inv fin r m"
  by (simp add: match_inv_def scores_inv_def finish_inv_def clock_inv_def decided_def store_simps)

lemma match_inv_logAndPause:
  "match_inv fin r m \<Longrightarrow> logAndPause r ty p t m = Inr m' \<Longrightarrow> match_inv fin r m'"
  by (auto simp: logAndPause_def dest!: match_inv_pauseIfNeeded[rotated])

text \<open>Every score operation is an update of one score followed by \<open>updateStatus\<close>.\<close>

lemma match_inv_scoreUpdate:
  assumes "clock_inv r m" and "scores_inv (updateScore p f m)"
  shows "match_inv fin r (updateStatus r (updateScore p f m) t)"
proof -
  have "clock_inv r (updateScore p f m)" using assms(1) by (simp add: clock_inv_def store_simps)
  moreover have "scores_inv (updateStatus r (updateScore p f m) t)"
    using assms(2) by (simp cong: scores_inv_cong)
  ultimately show ?thesis
    by (simp add: match_inv_def finish_inv_updateStatus clock_inv_updateStatus)
qed

lemma scores_inv_updateScore:
  assumes "scores_inv m" and "wf_score (f (getScore m p))"
    and "ippon (f (getScore m p)) \<Longrightarrow> \<not> ippon (getScore m (other p))"
    and "hansokuMake (f (getScore m p)) \<Longrightarrow> \<not> hansokuMake (getScore m (other p))"
  shows "scores_inv (updateScore p f m)"
  using assms by (cases p) (auto simp: scores_inv_def All_PlayerIndex store_simps)

lemma wf_score_updates:
  assumes "wf_score s"
  shows "\<not> ippon s \<Longrightarrow> wf_score (s\<lparr>ippon := True, directIppon := True\<rparr>)"
    and "directIppon s \<Longrightarrow> wf_score (s\<lparr>directIppon := False, ippon := False\<rparr>)"
    and "\<not> ippon s \<Longrightarrow> wf_score (addWazari s)"
    and "0 < wazari s \<or> ippon s \<and> \<not> directIppon s \<Longrightarrow> wf_score (removeWazari s)"
    and "\<not> hansokuMake s \<Longrightarrow> wf_score (addShido s)"
    and "0 < shido s \<Longrightarrow> wf_score (removeShido s)"
    and "wf_score (s\<lparr>hansokuMake := True, directHansokuMake := True\<rparr>)"
    and "wf_score (removeHansokuMake s)"
  using assms by (auto simp: wf_score_def score_defs Let_def)

text \<open>What the updates do to the two flags that exclude each other between the players.\<close>

lemma score_flags [simp]:
  "hansokuMake (addWazari s) = hansokuMake s"
  "hansokuMake (removeWazari s) = hansokuMake s"
  "ippon (addShido s) = ippon s"
  "ippon (removeShido s) = ippon s"
  "ippon (removeHansokuMake s) = ippon s"
  by (simp_all add: score_defs Let_def)

lemma score_flags_mono:
  "ippon (removeWazari s) \<Longrightarrow> ippon s"
  "hansokuMake (removeShido s) \<Longrightarrow> hansokuMake s"
  "hansokuMake (removeHansokuMake s) \<Longrightarrow> hansokuMake s"
  by (auto simp: score_defs Let_def split: if_splits)

lemma wf_scoreD: "scores_inv m \<Longrightarrow> wf_score (getScore m p)"
  by (simp add: scores_inv_def)

lemma scores_invD:
  assumes "scores_inv m"
  shows "ippon (getScore m p) \<Longrightarrow> \<not> ippon (getScore m (other p))"
    and "hansokuMake (getScore m p) \<Longrightarrow> \<not> hansokuMake (getScore m (other p))"
  using assms by (simp_all add: scores_inv_def)

lemma match_inv_score_ops [inv_intros]:
  assumes inv: "match_inv fin r m"
  shows "awardIppon r m p t = Inr m' \<Longrightarrow> match_inv fin r m'"
    and "cancelIppon r m p t = Inr m' \<Longrightarrow> match_inv fin r m'"
    and "awardWazari r m p t = Inr m' \<Longrightarrow> match_inv fin r m'"
    and "cancelWazari r m p t = Inr m' \<Longrightarrow> match_inv fin r m'"
    and "awardShido r m p t = Inr m' \<Longrightarrow> match_inv fin r m'"
    and "cancelShido r m p t = Inr m' \<Longrightarrow> match_inv fin r m'"
    and "awardHansokuMake r m p t = Inr m' \<Longrightarrow> match_inv fin r m'"
    and "cancelHansokuMake r m p t = Inr m' \<Longrightarrow> match_inv fin r m'"
proof -
  have s: "scores_inv m" and c: "clock_inv r m" using inv by (simp_all add: match_inv_def)
  note w = wf_score_updates[OF wf_scoreD[OF s, of p]] and x = scores_invD[OF s, of p]
  have up: "match_inv fin r (updateStatus r (updateScore p f m) t)"
    if "wf_score (f (getScore m p))"
      and "ippon (f (getScore m p)) \<Longrightarrow> \<not> ippon (getScore m (other p))"
      and "hansokuMake (f (getScore m p)) \<Longrightarrow> \<not> hansokuMake (getScore m (other p))" for f
    using that by (intro match_inv_scoreUpdate c scores_inv_updateScore s)
  show "awardIppon r m p t = Inr m' \<Longrightarrow> match_inv fin r m'"
    using w x by (auto simp: awardIppon_def canAwardIppon_def intro!: up dest: score_flags_mono)
  show "cancelIppon r m p t = Inr m' \<Longrightarrow> match_inv fin r m'"
    using w x by (auto simp: cancelIppon_def canCancelIppon_def intro!: up dest: score_flags_mono)
  show "awardWazari r m p t = Inr m' \<Longrightarrow> match_inv fin r m'"
    using w x by (auto simp: awardWazari_def canAwardWazari_def intro!: up dest: score_flags_mono)
  show "cancelWazari r m p t = Inr m' \<Longrightarrow> match_inv fin r m'"
    using w x by (auto simp: cancelWazari_def canCancelWazari_def intro!: up dest: score_flags_mono)
  show "awardShido r m p t = Inr m' \<Longrightarrow> match_inv fin r m'"
    using w x by (auto simp: awardShido_def canAwardShido_def intro!: up dest: score_flags_mono)
  show "cancelShido r m p t = Inr m' \<Longrightarrow> match_inv fin r m'"
    using w x by (auto simp: cancelShido_def canCancelShido_def intro!: up dest: score_flags_mono)
  show "awardHansokuMake r m p t = Inr m' \<Longrightarrow> match_inv fin r m'"
    using w x by (auto simp: awardHansokuMake_def canAwardHansokuMake_def intro!: up dest: score_flags_mono)
  show "cancelHansokuMake r m p t = Inr m' \<Longrightarrow> match_inv fin r m'"
    using w x by (auto simp: cancelHansokuMake_def canCancelHansokuMake_def intro!: up dest: score_flags_mono)
qed

lemma scores_inv_setters [simp]:
  "scores_inv (setStatus s m) = scores_inv m"
  "scores_inv (setResumeTime t m) = scores_inv m"
  by (simp_all add: scores_inv_def store_simps)

lemma match_inv_resume [inv_intros]: "match_inv fin r m \<Longrightarrow> resume r m t = Inr m' \<Longrightarrow> match_inv fin r m'"
  by (auto simp: match_inv_def resume_def finish_inv_def clock_inv_def store_simps scores_inv_def)

lemma match_inv_startOsaekomi [inv_intros]:
  "match_inv fin r m \<Longrightarrow> startOsaekomi r m p t = Inr m' \<Longrightarrow> match_inv fin r m'"
  by (auto simp: startOsaekomi_def)

lemma match_inv_stopOsaekomi [inv_intros]: "match_inv fin r m \<Longrightarrow> match_inv fin r (stopOsaekomi r m t)"
proof -
  assume inv: "match_inv fin r m"
  let ?m = "setOsaekomiWazari False (setOsaekomi None m)"
  have "match_inv fin r ?m" using inv by simp
  moreover have "match_inv fin r (setStatus FINISHED ?m)" if "getStatus ?m = PAUSED" "isFinished r ?m t"
    using isFinished_decided[OF that(2)] that(1) \<open>match_inv fin r ?m\<close>
    by (auto simp: match_inv_def finish_inv_def clock_inv_def isGoldenScore_def getDuration_def
        getStatus_def isBye_def setStatus_def scores_inv_def getScore_def decided_def)
  ultimately show ?thesis by (simp add: stopOsaekomi_def Let_def)
qed

lemma match_inv_bind_log:
  "bindE oper (logAndPause r ty p t) = Inr m' \<Longrightarrow> (\<And>m1. oper = Inr m1 \<Longrightarrow> match_inv fin r m1) \<Longrightarrow> match_inv fin r m'"
  by (erule bindE_Inr_E) (rule match_inv_logAndPause)

lemma match_inv_commandBody:
  assumes "match_inv fin r m" and "commandBody r c t m = Inr m'"
  shows "match_inv fin r m'"
  using assms
proof (cases c)
  case (AwardIppon p osae)
  with assms obtain m1 m2 where
    1: "(if isOsaekomiWazari m \<and> canCancelWazari r m p then cancelWazari r m p t else Inr m) = Inr m1"
    and 2: "awardIppon r m1 p t = Inr m2"
    and 3: "logAndPause r (if osae then IPPON_OSAEKOMI else IPPON) p t m2 = Inr m'"
    by (auto simp: AwardIpponAction_body_def)
  have "match_inv fin r m1" using 1 assms(1) by (auto split: if_splits intro: inv_intros)
  then have "match_inv fin r m2" using 2 by (rule inv_intros)
  then show ?thesis using 3 by (rule match_inv_logAndPause)
next
  case (AwardWazari p osae)
  with assms obtain m1 where 1: "awardWazari r m p t = Inr m1"
    and 2: "logAndPause r (if osae then WAZARI_OSAEKOMI else WAZARI) p t
      (if osae then setOsaekomiWazari True m1 else m1) = Inr m'"
    by (auto simp: AwardWazariAction_body_def)
  have "match_inv fin r (if osae then setOsaekomiWazari True m1 else m1)"
    using assms(1) 1 by (auto intro: inv_intros)
  then show ?thesis using 2 by (rule match_inv_logAndPause)
next
  case (StartOsaekomi p)
  with assms obtain m1 where "startOsaekomi r m p t = Inr m1"
    and "(if getStatus m1 \<noteq> UNPAUSED \<and> (getDuration m1 < getNormalTime r \<or> isGoldenScore m1)
      then resume r m1 t else Inr m1) = Inr m'"
    by (auto simp: StartOsaekomiAction_body_def)
  with assms(1) show ?thesis by (auto split: if_splits intro: inv_intros)
next
  case StopOsaekomi
  with assms have "pauseIfNeeded r t (stopOsaekomi r m t) = Inr m'"
    by (simp add: StopOsaekomiAction_body_def)
  with match_inv_stopOsaekomi[OF assms(1)] show ?thesis by (rule match_inv_pauseIfNeeded)
next
  case PauseMatch
  with assms show ?thesis by (auto simp: match_inv_def dest: match_inv_pause)
next
  case ResumeMatch
  with assms show ?thesis by (simp add: match_inv_resume)
qed (simp_all add: body_defs match_inv_bind_log[OF _ match_inv_score_ops(2)[OF assms(1)]]
    match_inv_bind_log[OF _ match_inv_score_ops(4)[OF assms(1)]]
    match_inv_bind_log[OF _ match_inv_score_ops(5)[OF assms(1)]]
    match_inv_bind_log[OF _ match_inv_score_ops(6)[OF assms(1)]]
    match_inv_bind_log[OF _ match_inv_score_ops(7)[OF assms(1)]]
    match_inv_bind_log[OF _ match_inv_score_ops(8)[OF assms(1)]])

subsection \<open>Reachable matches\<close>

text \<open>
  Everything the actions do to a match when they are executed: a command whose guard holds, a change of a player
  (\<^verbatim>\<open>SetMatchPlayerAction\<close>), a change of the bye flag (\<^verbatim>\<open>SetMatchByeAction\<close>) and a reset
  (\<^verbatim>\<open>ResetMatchesAction\<close>). The clock reading of a step is arbitrary: readings need not increase, since the
  master time of two devices may differ.
\<close>

inductive match_step :: "Ruleset \<Rightarrow> MatchStore \<Rightarrow> MatchStore \<Rightarrow> bool" for r where
  command: "commandGuard r c t m \<Longrightarrow> commandBody r c t m = Inr m' \<Longrightarrow> match_step r m m'"
| set_player: "match_step r m (setPlayer p v m)"
| set_bye: "SetMatchByeAction_guard b m \<Longrightarrow> SetMatchByeAction_body b m = Inr m' \<Longrightarrow> match_step r m m'"
| reset: "match_step r m (clearState (clearEvents m))"

inductive_cases match_stepE: "match_step r m m'"

text \<open>
  Undo. A match event action saves the state and the number of events before its body (\<^verbatim>\<open>save\<close>) and writes the
  state back when it is undone, cutting the events to the saved number (\<^verbatim>\<open>recover\<close>); so does
  \<^verbatim>\<open>SetMatchByeAction\<close>, whose undo leaves the bye flag as it is. \<^verbatim>\<open>ResetMatchesAction\<close> saves the events themselves.
\<close>

fun popEvents :: "nat \<Rightarrow> MatchStore \<Rightarrow> MatchStore result" where
  "popEvents 0 m = Inr m"
| "popEvents (Suc n) m = bindE (popEvent m) (popEvents n)"

definition recoverState :: "State \<Rightarrow> nat \<Rightarrow> MatchStore \<Rightarrow> MatchStore result" where
  "recoverState prev n m =
     (let m1 = setState prev m
      in assertE (length (mEvents m1) \<ge> n) (popEvents (length (mEvents m1) - n) m1))"

definition unresetMatch :: "State \<Rightarrow> MatchEvent list \<Rightarrow> MatchStore \<Rightarrow> MatchStore" where
  "unresetMatch prev es m = setEvents es (setState prev m)"

text \<open>
  A run of a match, with the list of all that its actions have saved: the state, the events and the bye flag
  before the action. Undoing an action writes back one of the saved states, in any order; this covers the order of
  the store managers, which undo the newest action first, and an action that is undone, executed and undone again.
  Undoing \<^verbatim>\<open>SetMatchPlayerAction\<close> changes a player, as executing it does. In a run with \<open>sameBye\<close> an undo only
  writes back a state that was saved under the bye flag which the match has at that time; in a run without it every
  undo is possible, also that of \<^verbatim>\<open>SetMatchByeAction\<close>.
\<close>

record SavedMatch =
  savedState :: State
  savedEvents :: "MatchEvent list"
  savedBye :: bool

definition savedMatch :: "MatchStore \<Rightarrow> SavedMatch" where
  "savedMatch m = \<lparr>savedState = mState m, savedEvents = mEvents m, savedBye = isBye m\<rparr>"

inductive match_run :: "Ruleset \<Rightarrow> bool \<Rightarrow> MatchStore \<Rightarrow> SavedMatch list \<Rightarrow> bool" for r sameBye where
  new: "match_run r sameBye (newMatchStore cid ty title permanentBye w b) []"
| step: "match_run r sameBye m h \<Longrightarrow> match_step r m m' \<Longrightarrow> match_run r sameBye m' (savedMatch m # h)"
| undo_event: "match_run r sameBye m h \<Longrightarrow> x \<in> set h \<Longrightarrow> (sameBye \<Longrightarrow> savedBye x = isBye m) \<Longrightarrow>
    recoverState (savedState x) (length (savedEvents x)) m = Inr m' \<Longrightarrow> match_run r sameBye m' h"
| undo_reset: "match_run r sameBye m h \<Longrightarrow> x \<in> set h \<Longrightarrow> (sameBye \<Longrightarrow> savedBye x = isBye m) \<Longrightarrow>
    match_run r sameBye (unresetMatch (savedState x) (savedEvents x) m) h"

definition match_reachable :: "Ruleset \<Rightarrow> MatchStore \<Rightarrow> bool" where
  "match_reachable r m \<longleftrightarrow> (\<exists>h. match_run r True m h)"

lemma match_reachable_new: "match_reachable r (newMatchStore cid ty title permanentBye w b)"
  unfolding match_reachable_def by (blast intro: match_run.new)

lemma match_reachable_step: "match_reachable r m \<Longrightarrow> match_step r m m' \<Longrightarrow> match_reachable r m'"
  unfolding match_reachable_def by (blast intro: match_run.step)

lemma match_inv_fresh:
  "scores (mState m) = (\<lambda>_. newScore) \<Longrightarrow> duration (mState m) = 0 \<Longrightarrow>
   (status (mState m) = FINISHED \<Longrightarrow> mBye m) \<Longrightarrow> match_inv fin r m"
  by (auto simp: match_inv_def scores_inv_def finish_inv_def clock_inv_def wf_score_def newScore_def
      getScore_def getStatus_def getDuration_def isBye_def)

lemma match_inv_setPlayer: "match_inv fin r (setPlayer p v m) = match_inv fin r m"
  by (simp add: match_inv_def scores_inv_def finish_inv_def clock_inv_def decided_def store_simps)

lemma match_inv_setBye:
  "match_inv fin r m \<Longrightarrow> SetMatchByeAction_body b m = Inr m' \<Longrightarrow> match_inv fin r m'"
  by (auto simp: SetMatchByeAction_body_def setBye_def match_inv_def scores_inv_def finish_inv_def
      clock_inv_def store_simps split: if_splits)

lemma match_inv_step: "match_step r m m' \<Longrightarrow> match_inv fin r m \<Longrightarrow> match_inv fin r m'"
proof (induction rule: match_step.induct)
  case (reset m)
  show ?case by (rule match_inv_fresh) (auto simp: store_simps newState_def split: if_splits)
qed (auto simp: match_inv_setPlayer intro: match_inv_commandBody match_inv_setBye)

text \<open>
  The invariant depends on the state and, for finished matches, on the bye flag. What an action has saved satisfies
  it under the flag saved with it.
\<close>

definition saved_inv :: "bool \<Rightarrow> Ruleset \<Rightarrow> MatchStore \<Rightarrow> SavedMatch \<Rightarrow> bool" where
  "saved_inv fin r m x \<longleftrightarrow> match_inv fin r (m\<lparr>mState := savedState x, mBye := savedBye x\<rparr>)"

lemma match_inv_cong:
  "mState m = mState m' \<Longrightarrow> (fin \<Longrightarrow> mBye m = mBye m') \<Longrightarrow> match_inv fin r m = match_inv fin r m'"
  by (auto simp: match_inv_def scores_inv_def finish_inv_def clock_inv_def decided_def store_simps)

lemma saved_inv_any: "saved_inv fin r m x = saved_inv fin r m' x"
  unfolding saved_inv_def by (rule match_inv_cong) simp_all

lemma saved_inv_savedMatch: "match_inv fin r m \<Longrightarrow> saved_inv fin r m' (savedMatch m)"
  unfolding saved_inv_def savedMatch_def isBye_def by (erule match_inv_cong[THEN iffD1, rotated -1]) simp_all

lemma popEvents_keeps: "popEvents n m = Inr m' \<Longrightarrow> mState m' = mState m \<and> mBye m' = mBye m"
  by (induction n arbitrary: m) (auto simp: popEvent_def split: if_splits)

lemma recoverState_keeps:
  "recoverState prev n m = Inr m' \<Longrightarrow> mState m' = prev \<and> mBye m' = mBye m"
  by (auto simp: recoverState_def Let_def store_simps dest: popEvents_keeps)

lemma popEvents_total: "n \<le> length (mEvents m) \<Longrightarrow> \<exists>m'. popEvents n m = Inr m'"
  by (induction n arbitrary: m) (auto simp: popEvent_def)

lemma recoverState_total: "n \<le> length (mEvents m) \<Longrightarrow> \<exists>m'. recoverState prev n m = Inr m'"
  by (simp add: recoverState_def Let_def popEvents_total setState_def)

lemma saved_inv_restored:
  assumes "saved_inv fin r m x" and "fin \<Longrightarrow> savedBye x = isBye m"
    and "mState m' = savedState x" and "mBye m' = mBye m"
  shows "match_inv fin r m'"
  using assms(1) unfolding saved_inv_def
  by (rule match_inv_cong[THEN iffD1, rotated -1]) (use assms(2-) in \<open>simp_all add: isBye_def\<close>)

lemma match_run_inv:
  "match_run r sameBye m h \<Longrightarrow> match_inv sameBye r m \<and> (\<forall>x\<in>set h. saved_inv sameBye r m x)"
proof (induction rule: match_run.induct)
  case (new cid ty title permanentBye w b)
  have "match_inv sameBye r (newMatchStore cid ty title permanentBye w b)"
    by (rule match_inv_fresh) (auto simp: newMatchStore_def newState_def split: if_splits)
  then show ?case by simp
next
  case (step m h m')
  then show ?case
    using match_inv_step saved_inv_savedMatch saved_inv_any[of sameBye r m' _ m] by auto
next
  case (undo_event m h x m')
  from recoverState_keeps[OF undo_event.hyps(4)] have "match_inv sameBye r m'"
    using undo_event by (intro saved_inv_restored[of _ _ m x]) auto
  then show ?case using undo_event.IH saved_inv_any[of sameBye r m' _ m] by auto
next
  case (undo_reset m h x)
  let ?m = "unresetMatch (savedState x) (savedEvents x) m"
  have "match_inv sameBye r ?m"
    using undo_reset by (intro saved_inv_restored[of _ _ m x]) (auto simp: unresetMatch_def store_simps)
  then show ?case using undo_reset.IH saved_inv_any[of sameBye r ?m _ m] by auto
qed

lemma match_reachable_inv: "match_reachable r m \<Longrightarrow> match_inv True r m"
  unfolding match_reachable_def using match_run_inv by blast

end
