(* ===== verification/Match_Correctness.thy ===== *)
theory Match_Correctness
  imports Match_Events
begin

section \<open>Correctness of matches\<close>

text \<open>
  The properties of the rulesets and of the match commands: what is true of every reachable match, what
  each award does, that the assertions of the code hold, and how the clock advances.
\<close>

subsection \<open>Auxiliary facts\<close>

text \<open>When the scores name a winner at once, pausing ends the match and keeps the scores.\<close>

definition scoreWinner :: "MatchStore \<Rightarrow> PlayerIndex option" where
  "scoreWinner m =
     (if hansokuMake (getBlueScore m) then Some WHITE
      else if hansokuMake (getWhiteScore m) then Some BLUE
      else if ippon (getWhiteScore m) then Some WHITE
      else if ippon (getBlueScore m) then Some BLUE
      else None)"

definition bothPlayers :: "MatchStore \<Rightarrow> bool" where
  "bothPlayers m \<longleftrightarrow> getWhitePlayer m \<noteq> None \<and> getBluePlayer m \<noteq> None"

lemma scoreWinner_cong: "scores (mState m) = scores (mState m') \<Longrightarrow> scoreWinner m = scoreWinner m'"
  by (simp add: scoreWinner_def store_simps)

lemma bothPlayers_cong: "mMatchPlayers m = mMatchPlayers m' \<Longrightarrow> bothPlayers m = bothPlayers m'"
  by (simp add: bothPlayers_def store_simps)

lemma status_setters [simp]:
  "getStatus (setStatus s m) = s"
  "getStatus (setDuration d m) = getStatus m"
  "getOsaekomi (setStatus s m) = getOsaekomi m"
  "getOsaekomi (setDuration d m) = getOsaekomi m"
  by (simp_all add: store_simps)

lemma scoreWinner_setters [simp]:
  "scoreWinner (setStatus s m) = scoreWinner m"
  "scoreWinner (setDuration d m) = scoreWinner m"
  "bothPlayers (setStatus s m) = bothPlayers m"
  "bothPlayers (setDuration d m) = bothPlayers m"
  "bothPlayers (updateScore p f m) = bothPlayers m"
  by (auto intro!: scoreWinner_cong bothPlayers_cong simp: store_simps)

lemma getWinnerAt_scoreWinner:
  "bothPlayers m \<Longrightarrow> scoreWinner m = Some p \<Longrightarrow> getWinnerAt r m t = Some p"
  by (auto simp: bothPlayers_def scoreWinner_def getWinnerAt_def split: if_splits)

lemma getWinner_scoreWinner:
  "bothPlayers m \<Longrightarrow> getStatus m = FINISHED \<Longrightarrow> scoreWinner m = Some p \<Longrightarrow> getWinner r m = Inr (Some p)"
  by (auto simp: bothPlayers_def scoreWinner_def getWinner_def split: if_splits)

lemma isFinished_scoreWinner:
  "bothPlayers m \<Longrightarrow> scoreWinner m = Some p \<Longrightarrow> getOsaekomi m = None \<Longrightarrow> getStatus m \<noteq> UNPAUSED \<Longrightarrow>
   isFinished r m t"
  using getWinnerAt_scoreWinner[of m p r t] by (auto simp: isFinished_def bothPlayers_def)

lemma updateStatus_decided:
  assumes "bothPlayers m" and "scoreWinner m = Some p" and "getOsaekomi m = None"
  shows "getStatus (updateStatus r m t) = (if getStatus m = UNPAUSED then UNPAUSED else FINISHED)"
  using isFinished_scoreWinner[OF assms, of r t]
  by (simp add: updateStatus_def Let_def store_simps)

lemma pause_decided:
  assumes "bothPlayers m" and "scoreWinner m = Some p" and "getOsaekomi m = None" and "getStatus m = UNPAUSED"
  shows "\<exists>d. pause r m t = Inr (setStatus FINISHED (setStatus PAUSED (setDuration d m)))"
proof -
  let ?d = "if currentDuration m t > getNormalTime r \<and> \<not> isGoldenScore m
    then getNormalTime r else currentDuration m t"
  let ?m = "setStatus PAUSED (setDuration ?d m)"
  have "isFinished r ?m t"
    using assms(1-3) by (intro isFinished_scoreWinner[of _ p]) simp_all
  then show ?thesis using assms(4) by (auto simp: pause_def canPause_def Let_def)
qed

lemma updateStatus_eq_UNPAUSED [simp]:
  "getStatus (updateStatus r m t) = UNPAUSED \<longleftrightarrow> getStatus m = UNPAUSED"
  by (auto simp: updateStatus_def Let_def store_simps)

text \<open>A deciding score stops the clock, finishes the match and names the winner.\<close>

lemma logAndPause_decides:
  assumes "bothPlayers m" and "scoreWinner (updateScore p f m) = Some w" and "getOsaekomi m = None"
  shows "\<exists>m'. logAndPause r ty q t (updateStatus r (updateScore p f m) t) = Inr m' \<and>
    getStatus m' = FINISHED \<and> getWinner r m' = Inr (Some w) \<and>
    scores (mState m') = scores (mState (updateScore p f m))"
proof -
  define n where "n = updateStatus r (updateScore p f m) t"
  define e where "e = pushEvent (MatchEvent ty q (currentDuration n t)) n"
  have b: "bothPlayers e" using assms(1) by (simp add: bothPlayers_def e_def n_def store_simps)
  have s: "scores (mState e) = scores (mState (updateScore p f m))" by (simp add: e_def n_def store_simps)
  have w: "scoreWinner e = Some w" using assms(2) scoreWinner_cong[OF s] by simp
  have o: "getOsaekomi e = None" using assms(3) by (simp add: e_def n_def store_simps)
  have st: "getStatus e = (if getStatus m = UNPAUSED then UNPAUSED else FINISHED)"
    using updateStatus_decided[of "updateScore p f m" w r t] assms
    by (simp add: e_def n_def bothPlayers_def store_simps)
  have l: "logAndPause r ty q t n = pauseIfNeeded r t e" by (simp add: logAndPause_def e_def)
  show ?thesis
  proof (cases "getStatus m = UNPAUSED")
    case True
    with st have u: "getStatus e = UNPAUSED" by simp
    obtain d where d: "pause r e t = Inr (setStatus FINISHED (setStatus PAUSED (setDuration d e)))"
      using pause_decided[OF b w o u] by blast
    have "shouldPause r e t" using u getWinnerAt_scoreWinner[OF b w] by (simp add: shouldPause_def)
    moreover have "getWinner r (setStatus FINISHED (setStatus PAUSED (setDuration d e))) = Inr (Some w)"
      using b w by (intro getWinner_scoreWinner) simp_all
    ultimately show ?thesis using l d s by (simp add: pauseIfNeeded_def n_def store_simps)
  next
    case False
    with st have "getStatus e = FINISHED" by simp
    moreover from this have "getWinner r e = Inr (Some w)" using b w by (intro getWinner_scoreWinner)
    ultimately show ?thesis using l s by (simp add: pauseIfNeeded_def shouldPause_def n_def)
  qed
qed

subsection \<open>Every reachable match\<close>

text \<open>
  C1. In every run of a match, that is after any commands whose guards hold, changes of its players and its bye flag,
  resets and undos of all of these while the ruleset of the category stays the same, the scores are consistent (one
  open wazari and three shidos at most, an indirect ippon is two converted wazaris, disqualification exactly when direct
  or by the third shido), at most one player has an ippon and at most one is disqualified, and outside golden score the
  clock has not passed the regular time. A finished match is a bye or is decided by a rule, as long as no undo has
  written back a state that was saved under the other value of the bye flag.
\<close>
theorem reachable_match_consistent:
  assumes "match_run r sameBye m h"
  shows "(\<forall>p. wf_score (getScore m p) \<and>
      \<not> (ippon (getScore m p) \<and> ippon (getScore m (other p))) \<and>
      \<not> (hansokuMake (getScore m p) \<and> hansokuMake (getScore m (other p)))) \<and>
    (isGoldenScore m \<or> getDuration m \<le> getNormalTime r) \<and>
    (sameBye \<and> getStatus m = FINISHED \<longrightarrow> isBye m \<or> decided r m)"
  using conjunct1[OF match_run_inv[OF assms]]
  by (auto simp: match_inv_def scores_inv_def finish_inv_def clock_inv_def)

definition exampleMatch :: MatchStore where
  "exampleMatch = newMatchStore (CombinedId 1 2) FINAL ''Final'' False (Some 10) (Some 11)"

lemma exampleMatch_run: "match_run r sameBye exampleMatch []"
  unfolding exampleMatch_def by (rule match_run.new)

lemma exampleMatch_reachable: "match_reachable r exampleMatch"
  unfolding match_reachable_def using exampleMatch_run by blast

definition finishedMatch :: "Ruleset \<Rightarrow> MatchStore result" where
  "finishedMatch r = commandBody r (AwardIppon WHITE False) 500 exampleMatch"

lemma finishedMatch_value:
  "\<exists>m. finishedMatch TWENTY_EIGHTEEN = Inr m \<and> match_run TWENTY_EIGHTEEN sameBye m [savedMatch exampleMatch] \<and>
     getStatus m = FINISHED \<and> \<not> isBye m"
proof -
  have g: "commandGuard TWENTY_EIGHTEEN (AwardIppon WHITE False) 500 exampleMatch"
    by code_simp
  obtain m where m: "commandBody TWENTY_EIGHTEEN (AwardIppon WHITE False) 500 exampleMatch = Inr m"
    "getStatus m = FINISHED" "\<not> isBye m"
    by (simp add: AwardIpponAction_body_def awardIppon_def canAwardIppon_def logAndPause_def
        pauseIfNeeded_def shouldPause_def updateStatus_def isFinished_def getWinnerAt_def
        exampleMatch_def newMatchStore_def newState_def newScore_def store_simps Let_def)
  with match_run.step[OF exampleMatch_run match_step.command[OF g m(1)]]
  show ?thesis by (auto simp: finishedMatch_def)
qed

text \<open>The run of the witness: an ippon ends the match, and undoing the award opens it again.\<close>

theorem reachable_match_consistent_witness:
  "\<exists>m m'. finishedMatch TWENTY_EIGHTEEN = Inr m \<and> getStatus m = FINISHED \<and> (isBye m \<or> decided TWENTY_EIGHTEEN m) \<and>
     recoverState (mState exampleMatch) 0 m = Inr m' \<and>
     (isGoldenScore m' \<or> getDuration m' \<le> getNormalTime TWENTY_EIGHTEEN)"
proof -
  obtain m where m: "finishedMatch TWENTY_EIGHTEEN = Inr m" "getStatus m = FINISHED" "\<not> isBye m"
    "match_run TWENTY_EIGHTEEN True m [savedMatch exampleMatch]"
    using finishedMatch_value by blast
  have x: "savedState (savedMatch exampleMatch) = mState exampleMatch"
    "length (savedEvents (savedMatch exampleMatch)) = 0" "savedBye (savedMatch exampleMatch) = isBye m"
    using m(3) by (simp_all add: savedMatch_def exampleMatch_def newMatchStore_def store_simps)
  obtain m' where m': "recoverState (mState exampleMatch) 0 m = Inr m'"
    using recoverState_total by blast
  then have "match_run TWENTY_EIGHTEEN True m' [savedMatch exampleMatch]"
    using match_run.undo_event[OF m(4), of "savedMatch exampleMatch" m'] x by simp
  from reachable_match_consistent[OF m(4)] reachable_match_consistent[OF this] show ?thesis
    using m m' by blast
qed

text \<open>
  The restriction is needed: undoing the \<^verbatim>\<open>SetMatchByeAction\<close> that made a bye an ordinary match (which happens to the third
  match of a best of three when the result of one of the first two is undone) leaves a finished match that
  is neither a bye nor decided.
\<close>

theorem undone_bye_is_undecided:
  "\<exists>m h. match_run r False m h \<and> getStatus m = FINISHED \<and> \<not> isBye m \<and> \<not> decided r m"
proof -
  let ?bye = "exampleMatch\<lparr>mState := (mState exampleMatch)\<lparr>status := FINISHED\<rparr>, mBye := True\<rparr>"
  have 1: "match_run r False ?bye [savedMatch exampleMatch]"
    by (rule match_run.step[OF exampleMatch_run match_step.set_bye[of True]])
      (simp_all add: SetMatchByeAction_guard_def SetMatchByeAction_body_def setBye_def exampleMatch_def newMatchStore_def
        newState_def store_simps)
  have 2: "match_run r False exampleMatch [savedMatch ?bye, savedMatch exampleMatch]"
    by (rule match_run.step[OF 1 match_step.set_bye[of False]])
      (simp_all add: SetMatchByeAction_guard_def SetMatchByeAction_body_def setBye_def exampleMatch_def newMatchStore_def
        newState_def store_simps)
  let ?m = "exampleMatch\<lparr>mState := (mState exampleMatch)\<lparr>status := FINISHED\<rparr>\<rparr>"
  have "match_run r False ?m [savedMatch ?bye, savedMatch exampleMatch]"
    by (rule match_run.undo_event[OF 2, of "savedMatch ?bye"])
      (simp_all add: savedMatch_def recoverState_def exampleMatch_def newMatchStore_def newState_def store_simps)
  moreover have "getStatus ?m = FINISHED" "\<not> isBye ?m" "\<not> decided r ?m"
    by (cases r; simp add: decided_def exampleMatch_def newMatchStore_def newState_def newScore_def store_simps)+
  ultimately show ?thesis by blast
qed

text \<open>
  A finished match that is not a bye has a winner: \<open>getWinner\<close> passes its assertion and returns a
  player, and it agrees with the winner \<open>getWinnerAt\<close> computes for every clock reading.
\<close>
theorem finished_match_has_winner:
  assumes "match_reachable r m" and "getStatus m = FINISHED" and "\<not> isBye m"
  shows "\<exists>p. getWinner r m = Inr (Some p) \<and> (\<forall>t. getWinnerAt r m t = Some p)"
proof -
  from match_reachable_inv[OF assms(1)] assms(2,3) have d: "decided r m"
    by (simp add: match_inv_def finish_inv_def)
  have c: "currentDuration m t = getDuration m" for t
    using assms(2) by (simp add: currentDuration_def store_simps)
  show ?thesis
  proof (cases "bothPlayers m")
    case True
    then show ?thesis using d assms(2)
      by (auto simp: getWinner_def getWinnerAt_def c decided_def bothPlayers_def getWhiteScore_def
          getBlueScore_def Ex_PlayerIndex)
  qed (auto simp: getWinner_def getWinnerAt_def bothPlayers_def)
qed

theorem finished_match_has_winner_witness:
  "\<exists>m p. finishedMatch TWENTY_EIGHTEEN = Inr m \<and> getWinner TWENTY_EIGHTEEN m = Inr (Some p)"
  using finishedMatch_value[of True] finished_match_has_winner unfolding match_reachable_def by blast

subsection \<open>The assertions of the code\<close>

lemma pauseIfNeeded_total: "\<exists>m'. pauseIfNeeded r t m = Inr m'"
  by (auto simp: pauseIfNeeded_def shouldPause_def pause_def canPause_def)

lemma logAndPause_total: "\<exists>m'. logAndPause r ty p t m = Inr m'"
  by (simp add: logAndPause_def pauseIfNeeded_total)

lemma canAwardIppon_after_cancelWazari:
  "canAwardIppon r m p \<Longrightarrow> cancelWazari r m p t = Inr m' \<Longrightarrow> canAwardIppon r m' p"
  by (auto simp: canAwardIppon_def cancelWazari_def getScore_def updateScore_def
      dest: score_flags_mono)

text \<open>
  C34. No command fails once its guard has been checked: the \<^verbatim>\<open>assert\<close>s at the start of the ruleset
  operations that the body calls, also those it calls after the match has changed, hold. The exception is
  \<^verbatim>\<open>StartOsaekomiAction\<close> on a bye match.
\<close>
theorem guarded_command_succeeds:
  assumes "commandGuard r c t m" and "\<forall>p. c = StartOsaekomi p \<longrightarrow> \<not> isBye m"
  shows "\<exists>m'. commandBody r c t m = Inr m'"
proof (cases c)
  case (AwardIppon p osae)
  have "\<exists>m1. (if isOsaekomiWazari m \<and> canCancelWazari r m p then cancelWazari r m p t else Inr m) = Inr m1
      \<and> canAwardIppon r m1 p"
    using assms(1) AwardIppon canAwardIppon_after_cancelWazari[of r m p t]
    by (auto simp: cancelWazari_def)
  then obtain m1 where
    "(if isOsaekomiWazari m \<and> canCancelWazari r m p then cancelWazari r m p t else Inr m) = Inr m1"
    "canAwardIppon r m1 p" by blast
  then show ?thesis using AwardIppon logAndPause_total
    by (simp add: AwardIpponAction_body_def awardIppon_def)
next
  case (StartOsaekomi p)
  then show ?thesis using assms
    by (auto simp: StartOsaekomiAction_body_def startOsaekomi_def resume_def canResume_def
        isFinished_def store_simps)
qed (use assms in \<open>simp_all add: body_defs ruleset_op_defs logAndPause_total pauseIfNeeded_total
    pause_def resume_def\<close>)

theorem guarded_command_succeeds_witness:
  "\<exists>m'. commandBody TWENTY_EIGHTEEN (AwardShido BLUE) 500 exampleMatch = Inr m'"
proof (rule guarded_command_succeeds)
  show "commandGuard TWENTY_EIGHTEEN (AwardShido BLUE) 500 exampleMatch" by code_simp
qed simp

text \<open>
  The exception is real: starting an osaekomi on a fresh bye match passes the guard of
  \<^verbatim>\<open>StartOsaekomiAction\<close> and then violates the assertion of \<^verbatim>\<open>resume\<close>.
\<close>
theorem start_osaekomi_on_bye_asserts:
  "commandGuard r (StartOsaekomi p) t (newMatchStore cid ty title True w b) \<and>
   commandBody r (StartOsaekomi p) t (newMatchStore cid ty title True w b) = Inl AssertionFailed"
  by (cases p) (simp_all add: StartOsaekomiAction_body_def startOsaekomi_def canStartOsaekomi_def resume_def
      canResume_def isFinished_def newMatchStore_def newState_def newScore_def store_simps)

subsection \<open>Deciding awards\<close>

text \<open>Nobody is disqualified and nobody has an ippon.\<close>

definition openFight :: "MatchStore \<Rightarrow> bool" where
  "openFight m \<longleftrightarrow> bothPlayers m \<and> getOsaekomi m = None \<and> scoreWinner m = None"

lemma scoreWinner_None:
  "scoreWinner m = None \<longleftrightarrow> (\<forall>p. \<not> hansokuMake (getScore m p) \<and> \<not> ippon (getScore m p))"
  by (auto simp: scoreWinner_def All_PlayerIndex store_simps)

lemma scoreWinner_updateScore_ippon:
  assumes "scoreWinner m = None" and "ippon (f (getScore m p))" and "\<not> hansokuMake (f (getScore m p))"
  shows "scoreWinner (updateScore p f m) = Some p"
  using assms(2-) assms(1)[unfolded scoreWinner_None]
  by (cases p) (auto simp: scoreWinner_def All_PlayerIndex store_simps)

lemma scoreWinner_updateScore_hansokuMake:
  assumes "scoreWinner m = None" and "hansokuMake (f (getScore m p))"
  shows "scoreWinner (updateScore p f m) = Some (other p)"
  using assms(2-) assms(1)[unfolded scoreWinner_None]
  by (cases p) (auto simp: scoreWinner_def All_PlayerIndex store_simps)

lemma openFightD:
  assumes "openFight m"
  shows "bothPlayers m" and "getOsaekomi m = None" and "scoreWinner m = None"
    and "\<not> hansokuMake (getScore m p)" and "\<not> ippon (getScore m p)"
  using assms by (auto simp: openFight_def scoreWinner_None)

text \<open>
  Awarding an ippon in an open fight, running or not, ends the match with that player as winner
  (when no wazari of a running osaekomi has to be withdrawn first).
\<close>
theorem ippon_wins:
  assumes "openFight m" and "\<not> isOsaekomiWazari m"
  shows "\<exists>m'. commandBody r (AwardIppon p osae) t m = Inr m' \<and> getStatus m' = FINISHED \<and>
    getWinner r m' = Inr (Some p)"
proof -
  note o = openFightD[OF assms(1)]
  have "scoreWinner (updateScore p (\<lambda>s. s\<lparr>ippon := True, directIppon := True\<rparr>) m) = Some p"
    by (rule scoreWinner_updateScore_ippon) (use o in simp_all)
  from logAndPause_decides[OF o(1) this o(2)] show ?thesis
    using assms(2) o(4,5) by (fastforce simp: AwardIpponAction_body_def awardIppon_def canAwardIppon_def)
qed

theorem ippon_wins_witness:
  "\<exists>m'. commandBody TWENTY_EIGHTEEN (AwardIppon BLUE False) 7 exampleMatch = Inr m' \<and>
    getStatus m' = FINISHED \<and> getWinner TWENTY_EIGHTEEN m' = Inr (Some BLUE)"
  by (rule ippon_wins) code_simp+

text \<open>
  The second wazari of a player in an open fight is converted to an ippon and ends the match with
  that player as winner.
\<close>
theorem second_wazari_wins:
  assumes "openFight m" and "wazari (getScore m p) = 1"
  shows "\<exists>m'. commandBody r (AwardWazari p False) t m = Inr m' \<and> getStatus m' = FINISHED \<and>
    getWinner r m' = Inr (Some p) \<and> wazari (getScore m' p) = 0 \<and> ippon (getScore m' p) \<and>
    getScore m' (other p) = getScore m (other p)"
proof -
  note o = openFightD[OF assms(1)]
  have "scoreWinner (updateScore p addWazari m) = Some p"
    by (rule scoreWinner_updateScore_ippon) (use o assms(2) in \<open>simp_all add: addWazari_def\<close>)
  from logAndPause_decides[OF o(1) this o(2), of r WAZARI p t] obtain m' where
    "logAndPause r WAZARI p t (updateStatus r (updateScore p addWazari m) t) = Inr m'"
    "getStatus m' = FINISHED" "getWinner r m' = Inr (Some p)"
    "scores (mState m') = scores (mState (updateScore p addWazari m))" by blast
  then show ?thesis using assms(2) o(5)
    by (auto simp: AwardWazariAction_body_def awardWazari_def canAwardWazari_def store_simps addWazari_def)
qed

definition oneWazari :: MatchStore where
  "oneWazari = updateScore WHITE addWazari exampleMatch"

theorem second_wazari_wins_witness:
  "\<exists>m'. commandBody TWENTY_EIGHTEEN (AwardWazari WHITE False) 7 oneWazari = Inr m' \<and>
    getStatus m' = FINISHED \<and> getWinner TWENTY_EIGHTEEN m' = Inr (Some WHITE) \<and>
    wazari (getScore m' WHITE) = 0 \<and> ippon (getScore m' WHITE) \<and>
    getScore m' (other WHITE) = getScore oneWazari (other WHITE)"
  by (rule second_wazari_wins) code_simp+

text \<open>
  The third shido of a player in an open fight disqualifies the player: the match ends and the
  opponent wins.
\<close>
theorem third_shido_disqualifies:
  assumes "openFight m" and "shido (getScore m p) = 2"
  shows "\<exists>m'. commandBody r (AwardShido p) t m = Inr m' \<and> getStatus m' = FINISHED \<and>
    getWinner r m' = Inr (Some (other p)) \<and> shido (getScore m' p) = 3 \<and> hansokuMake (getScore m' p)"
proof -
  note o = openFightD[OF assms(1)]
  have "scoreWinner (updateScore p addShido m) = Some (other p)"
    by (rule scoreWinner_updateScore_hansokuMake) (use o assms(2) in \<open>simp_all add: addShido_def\<close>)
  from logAndPause_decides[OF o(1) this o(2), of r SHIDO p t] obtain m' where
    "logAndPause r SHIDO p t (updateStatus r (updateScore p addShido m) t) = Inr m'"
    "getStatus m' = FINISHED" "getWinner r m' = Inr (Some (other p))"
    "scores (mState m') = scores (mState (updateScore p addShido m))" by blast
  then show ?thesis using assms(2) o(4)
    by (auto simp: AwardShidoAction_body_def awardShido_def canAwardShido_def store_simps addShido_def)
qed

theorem third_shido_disqualifies_witness:
  "\<exists>m'. commandBody TWENTY_EIGHTEEN (AwardShido WHITE) 7
      (updateScore WHITE addShido (updateScore WHITE addShido exampleMatch)) = Inr m' \<and>
    getStatus m' = FINISHED \<and> getWinner TWENTY_EIGHTEEN m' = Inr (Some (other WHITE)) \<and>
    shido (getScore m' WHITE) = 3 \<and> hansokuMake (getScore m' WHITE)"
  by (rule third_shido_disqualifies) code_simp+

subsection \<open>Cancelling\<close>

fun awardCommand :: "MatchCommand \<Rightarrow> MatchCommand option" where
  "awardCommand (CancelIppon p) = Some (AwardIppon p False)"
| "awardCommand (CancelWazari p) = Some (AwardWazari p False)"
| "awardCommand (CancelShido p) = Some (AwardShido p)"
| "awardCommand (CancelHansokuMake p) = Some (AwardHansokuMake p)"
| "awardCommand _ = None"

lemma scores_pauseIfNeeded: "pauseIfNeeded r t m = Inr m' \<Longrightarrow> scores (mState m') = scores (mState m)"
  by (auto simp: pauseIfNeeded_def scores_pause split: if_splits)

lemma scores_logAndPause: "logAndPause r ty p t m = Inr m' \<Longrightarrow> scores (mState m') = scores (mState m)"
  unfolding logAndPause_def by (drule scores_pauseIfNeeded) (simp add: store_simps)

text \<open>The effect of the award and cancel commands on the scores.\<close>

fun scoreEffect :: "MatchCommand \<Rightarrow> Score \<Rightarrow> Score" where
  "scoreEffect (AwardIppon p osae) s = s\<lparr>ippon := True, directIppon := True\<rparr>"
| "scoreEffect (AwardWazari p osae) s = addWazari s"
| "scoreEffect (AwardShido p) s = addShido s"
| "scoreEffect (AwardHansokuMake p) s = s\<lparr>hansokuMake := True, directHansokuMake := True\<rparr>"
| "scoreEffect (CancelIppon p) s = s\<lparr>directIppon := False, ippon := False\<rparr>"
| "scoreEffect (CancelWazari p) s = removeWazari s"
| "scoreEffect (CancelShido p) s = removeShido s"
| "scoreEffect (CancelHansokuMake p) s = removeHansokuMake s"
| "scoreEffect _ s = s"

fun commandPlayer :: "MatchCommand \<Rightarrow> PlayerIndex option" where
  "commandPlayer (AwardIppon p osae) = Some p"
| "commandPlayer (AwardWazari p osae) = Some p"
| "commandPlayer (AwardShido p) = Some p"
| "commandPlayer (AwardHansokuMake p) = Some p"
| "commandPlayer (CancelIppon p) = Some p"
| "commandPlayer (CancelWazari p) = Some p"
| "commandPlayer (CancelShido p) = Some p"
| "commandPlayer (CancelHansokuMake p) = Some p"
| "commandPlayer _ = None"

lemma commandBody_scores:
  assumes "commandPlayer c = Some p" and "commandBody r c t m = Inr m'" and "\<not> isOsaekomiWazari m"
  shows "scores (mState m') = (scores (mState m))(p := scoreEffect c (scores (mState m) p))"
  using assms by (cases c) (auto simp: body_defs ruleset_op_defs updateScore_def setOsaekomiWazari_def
      dest!: scores_logAndPause split: if_splits)

lemma scoreEffect_cancel_award:
  assumes "awardCommand c = Some a" and "wf_score s"
    and "case a of AwardIppon _ _ \<Rightarrow> \<not> ippon s | AwardWazari _ _ \<Rightarrow> \<not> ippon s
      | AwardShido _ \<Rightarrow> \<not> hansokuMake s | _ \<Rightarrow> \<not> directHansokuMake s"
  shows "scoreEffect c (scoreEffect a s) = s"
  using assms by (cases c; cases s) (auto simp: wf_score_def score_defs Let_def split: if_splits)

lemma osaekomiWazari_logAndPause:
  "logAndPause r ty p t m = Inr m' \<Longrightarrow> osaekomiWazari (mState m') = osaekomiWazari (mState m)"
  by (auto simp: logAndPause_def pauseIfNeeded_def pause_def Let_def store_simps split: if_splits)

lemma osaekomiWazari_award:
  assumes "awardCommand c = Some a" and "commandBody r a t m = Inr m'" and "\<not> isOsaekomiWazari m"
  shows "\<not> isOsaekomiWazari m'"
  using assms by (cases c) (auto simp: body_defs ruleset_op_defs isOsaekomiWazari_def updateScore_def
      dest!: osaekomiWazari_logAndPause split: if_splits)

text \<open>
  Cancelling what was just awarded restores both scores, whatever the award turned into (an ippon made
  of two wazaris, a disqualification by the third shido). A wazari given by a running osaekomi is
  excluded, which the award of an ippon withdraws.
\<close>
theorem cancel_undoes_award:
  assumes "match_reachable r m" and "awardCommand c = Some a" and "\<not> isOsaekomiWazari m"
    and "commandGuard r a t m" and "commandBody r a t m = Inr m1" and "commandBody r c t' m1 = Inr m2"
  shows "\<forall>p. getScore m2 p = getScore m p"
proof -
  from assms(2) obtain p where p: "commandPlayer c = Some p" "commandPlayer a = Some p" by (cases c) auto
  have "scores (mState m2) = (scores (mState m1))(p := scoreEffect c (scores (mState m1) p))"
    using commandBody_scores[OF p(1) assms(6) osaekomiWazari_award[OF assms(2,5,3)]] .
  moreover have "scores (mState m1) = (scores (mState m))(p := scoreEffect a (scores (mState m) p))"
    using commandBody_scores[OF p(2) assms(5,3)] .
  moreover have "scoreEffect c (scoreEffect a (scores (mState m) p)) = scores (mState m) p"
  proof (rule scoreEffect_cancel_award[OF assms(2)])
    show "wf_score (scores (mState m) p)"
      using match_reachable_inv[OF assms(1)] by (simp add: match_inv_def scores_inv_def getScore_def)
  qed (use assms(2,4) p in \<open>cases c; auto simp: ruleset_guard_defs getScore_def\<close>)
  ultimately show ?thesis by (simp add: getScore_def)
qed

lemma award_cancel_example:
  "\<exists>m1 m2. commandBody TWENTY_EIGHTEEN (AwardWazari BLUE False) 3 exampleMatch = Inr m1 \<and>
     commandBody TWENTY_EIGHTEEN (CancelWazari BLUE) 4 m1 = Inr m2"
  by (simp add: body_defs awardWazari_def cancelWazari_def canAwardWazari_def canCancelWazari_def
      logAndPause_def pauseIfNeeded_def shouldPause_def updateStatus_def isFinished_def getWinnerAt_def
      exampleMatch_def newMatchStore_def newState_def newScore_def store_simps Let_def addWazari_def)

theorem cancel_undoes_award_witness:
  "\<exists>m1 m2. commandBody TWENTY_EIGHTEEN (AwardWazari BLUE False) 3 exampleMatch = Inr m1 \<and>
     commandBody TWENTY_EIGHTEEN (CancelWazari BLUE) 4 m1 = Inr m2 \<and>
     (\<forall>p. getScore m2 p = getScore exampleMatch p)"
proof -
  obtain m1 m2 where m: "commandBody TWENTY_EIGHTEEN (AwardWazari BLUE False) 3 exampleMatch = Inr m1"
    "commandBody TWENTY_EIGHTEEN (CancelWazari BLUE) 4 m1 = Inr m2"
    using award_cancel_example by blast
  have "\<forall>p. getScore m2 p = getScore exampleMatch p"
    by (rule cancel_undoes_award[OF exampleMatch_reachable _ _ _ m]) (simp, code_simp, code_simp)
  with m show ?thesis by blast
qed

subsection \<open>The clock\<close>

text \<open>
  C39. Resuming at one clock reading and pausing at a later one advances the stored duration by the time in
  between, capped at the regular time unless the match is in golden score. A pause that reaches the
  regular time without a winner enters golden score.
\<close>
theorem resume_pause_clock:
  assumes "resume r m t0 = Inr m1" and "pause r m1 t1 = Inr m2"
  shows "getDuration m2 = (let d = getDuration m + (t1 - t0)
      in if isGoldenScore m then d else min (getNormalTime r) d) \<and>
    (getStatus m2 = PAUSED \<and> getNormalTime r \<le> getDuration m2 \<longrightarrow> isGoldenScore m2) \<and>
    getStatus m2 \<in> {PAUSED, FINISHED}"
proof -
  define n where "n = setStatus UNPAUSED (setResumeTime t0 m)"
  have m1: "m1 = n" using assms(1) by (simp add: resume_def n_def)
  have cd: "currentDuration n t1 = getDuration m + (t1 - t0)"
    by (simp add: n_def currentDuration_def store_simps)
  have g: "isGoldenScore n = isGoldenScore m" by (simp add: n_def store_simps)
  have pd: "pauseDuration r m1 t1 = (let d = getDuration m + (t1 - t0)
      in if isGoldenScore m then d else min (getNormalTime r) d)"
    by (simp add: pauseDuration_def m1 cd g Let_def)
  show ?thesis unfolding pd[symmetric] using assms(2)
    by (cases rule: pause_InrE) (auto simp: store_simps)
qed

theorem resume_pause_clock_witness:
  "\<exists>m1 m2. resume TWENTY_EIGHTEEN exampleMatch 1000 = Inr m1 \<and> pause TWENTY_EIGHTEEN m1 5000 = Inr m2 \<and>
    getDuration m2 = 4000"
proof -
  obtain m1 m2 where m: "resume TWENTY_EIGHTEEN exampleMatch 1000 = Inr m1"
    "pause TWENTY_EIGHTEEN m1 5000 = Inr m2"
    by (simp add: resume_def canResume_def pause_def canPause_def isFinished_def getWinnerAt_def
        exampleMatch_def newMatchStore_def newState_def newScore_def store_simps)
  have "getDuration exampleMatch = 0" "\<not> isGoldenScore exampleMatch" by code_simp+
  with resume_pause_clock[OF m] m show ?thesis by auto
qed

end
