(* ===== verification/Position_Manager.thy ===== *)
theory Position_Manager
  imports Ids
begin

section \<open>The position manager\<close>

text \<open>
  Models \<^verbatim>\<open>src/core/position_manager.hpp\<close>: a container whose elements have a stable identifier and a
  position. \<^verbatim>\<open>mIds\<close> holds the identifiers in order, \<^verbatim>\<open>mElements\<close> the elements. A handle carries an
  identifier and the position at which the element is inserted when it is missing; equality of handles
  compares identifiers only.

  The abstraction \<open>entries\<close> reads a position manager as the list of its elements with their identifiers; the
  operations are list operations on it.
\<close>

datatype PositionHandle = PositionHandle (handle_id: PositionId) (handle_index: nat)

record 'a PositionManager =
  mIds :: "PositionId list"
  mElements :: "PositionId \<rightharpoonup> 'a"

definition handle_eq :: "PositionHandle \<Rightarrow> PositionHandle \<Rightarrow> bool" where
  "handle_eq h h' \<longleftrightarrow> handle_id h = handle_id h'"

definition pm_new :: "'a PositionManager" where
  "pm_new = \<lparr>mIds = [], mElements = Map.empty\<rparr>"

definition pm_contains :: "PositionId \<Rightarrow> 'a PositionManager \<Rightarrow> bool" where
  "pm_contains i pm \<longleftrightarrow> mElements pm i \<noteq> None"

definition pm_containsHandle :: "PositionHandle \<Rightarrow> 'a PositionManager \<Rightarrow> bool" where
  "pm_containsHandle h pm \<longleftrightarrow> pm_contains (handle_id h) pm"

text \<open>\<open>pm_insert\<close> is \<^verbatim>\<open>insert\<close>, with the default value \<^verbatim>\<open>T()\<close> as an argument.\<close>

definition pm_insert :: "'a \<Rightarrow> PositionHandle \<Rightarrow> 'a PositionManager \<Rightarrow> 'a PositionManager" where
  "pm_insert dflt h pm =
     (if mElements pm (handle_id h) \<noteq> None then pm
      else pm\<lparr>mIds := insert_at (min (length (mIds pm)) (handle_index h)) (handle_id h) (mIds pm),
              mElements := (mElements pm)(handle_id h \<mapsto> dflt)\<rparr>)"

text \<open>
  \<^verbatim>\<open>operator[]\<close> creates the element when it is missing and returns a reference: the element read through
  it, and the container in which it exists. An assignment through a reference is \<open>pm_put\<close>.
\<close>

definition pm_subscript :: "'a \<Rightarrow> PositionHandle \<Rightarrow> 'a PositionManager \<Rightarrow> 'a \<times> 'a PositionManager" where
  "pm_subscript dflt h pm =
     (case mElements pm (handle_id h) of
        Some v \<Rightarrow> (v, pm)
      | None \<Rightarrow>
          (dflt, pm\<lparr>mIds := insert_at (min (length (mIds pm)) (handle_index h)) (handle_id h) (mIds pm),
                    mElements := (mElements pm)(handle_id h \<mapsto> dflt)\<rparr>))"

definition pm_put :: "PositionHandle \<Rightarrow> 'a \<Rightarrow> 'a PositionManager \<Rightarrow> 'a PositionManager" where
  "pm_put h v pm = pm\<lparr>mElements := (mElements pm)(handle_id h \<mapsto> v)\<rparr>"

definition pm_at :: "PositionHandle \<Rightarrow> 'a PositionManager \<Rightarrow> 'a result" where
  "pm_at h pm = (case mElements pm (handle_id h) of None \<Rightarrow> Inl AssertionFailed | Some v \<Rightarrow> Inr v)"

text \<open>\<^verbatim>\<open>at(size_t)\<close> compares with the size of the hash map, then looks the identifier up with \<^verbatim>\<open>at\<close>.\<close>

definition pm_atIndex :: "nat \<Rightarrow> 'a PositionManager \<Rightarrow> 'a result" where
  "pm_atIndex i pm = assertE (i < card (dom (mElements pm)))
     (bindE (nthE (mIds pm) i) (\<lambda>k. case mElements pm k of None \<Rightarrow> Inl OutOfRange | Some v \<Rightarrow> Inr v))"

definition pm_erase :: "PositionHandle \<Rightarrow> 'a PositionManager \<Rightarrow> 'a PositionManager" where
  "pm_erase h pm =
     (if handle_id h \<in> set (mIds pm)
      then pm\<lparr>mIds := remove1 (handle_id h) (mIds pm), mElements := (mElements pm)(handle_id h := None)\<rparr>
      else pm)"

definition pm_getHandle :: "nat \<Rightarrow> 'a PositionManager \<Rightarrow> PositionHandle result" where
  "pm_getHandle i pm = assertE (i < length (mIds pm))
     (bindE (nthE (mIds pm) i) (\<lambda>k. Inr (PositionHandle k i)))"

definition pm_getIndex :: "PositionHandle \<Rightarrow> 'a PositionManager \<Rightarrow> nat result" where
  "pm_getIndex h pm = assertE (handle_id h \<in> set (mIds pm)) (Inr (index_of (handle_id h) (mIds pm)))"

definition pm_size :: "'a PositionManager \<Rightarrow> nat" where
  "pm_size pm = length (mIds pm)"

text \<open>\<^verbatim>\<open>PositionId::generate\<close> on a position manager; \<open>None\<close> when the loop does not end.\<close>

definition pm_generateId :: "'a PositionManager \<Rightarrow> mt19937 \<Rightarrow> (PositionId \<times> mt19937) option" where
  "pm_generateId pm eng = generate (\<lambda>i. pm_contains i pm) eng"

subsection \<open>Invariant\<close>

definition pm_inv :: "'a PositionManager \<Rightarrow> bool" where
  "pm_inv pm \<longleftrightarrow> distinct (mIds pm) \<and> set (mIds pm) = dom (mElements pm)"

lemma pm_inv_new [inv_intros, simp]: "pm_inv pm_new"
  by (simp add: pm_inv_def pm_new_def)

lemma pm_inv_insert [inv_intros]: "pm_inv pm \<Longrightarrow> pm_inv (pm_insert dflt h pm)"
  by (auto simp: pm_inv_def pm_insert_def)

lemma pm_subscript_insert: "snd (pm_subscript dflt h pm) = pm_insert dflt h pm"
  by (simp add: pm_subscript_def pm_insert_def split: option.split)

lemma fst_pm_subscript: "fst (pm_subscript dflt h pm) =
    (case mElements pm (handle_id h) of None \<Rightarrow> dflt | Some v \<Rightarrow> v)"
  by (simp add: pm_subscript_def split: option.split)

lemma pm_inv_put [inv_intros]: "pm_inv pm \<Longrightarrow> pm_contains (handle_id h) pm \<Longrightarrow> pm_inv (pm_put h v pm)"
  by (auto simp: pm_inv_def pm_put_def pm_contains_def)

lemma pm_inv_erase [inv_intros]: "pm_inv pm \<Longrightarrow> pm_inv (pm_erase h pm)"
  by (auto simp: pm_inv_def pm_erase_def dom_def)

lemma pm_inv_card: "pm_inv pm \<Longrightarrow> card (dom (mElements pm)) = length (mIds pm)"
  by (metis pm_inv_def distinct_card)

subsection \<open>Refinement to a list of entries\<close>

definition entries :: "'a PositionManager \<Rightarrow> (PositionId \<times> 'a) list" where
  "entries pm = map (\<lambda>i. (i, the (mElements pm i))) (mIds pm)"

lemma map_insert_at: "map f (insert_at i x xs) = insert_at i (f x) (map f xs)"
  by (simp add: insert_at_def take_map drop_map)

lemma entries_insert:
  assumes "pm_inv pm" and "\<not> pm_containsHandle h pm"
  shows "entries (pm_insert dflt h pm) =
    insert_at (min (length (entries pm)) (handle_index h)) (handle_id h, dflt) (entries pm)"
proof -
  have h: "handle_id h \<notin> set (mIds pm)"
    using assms by (auto simp: pm_inv_def pm_containsHandle_def pm_contains_def)
  then have "map (\<lambda>i. (i, the (((mElements pm)(handle_id h \<mapsto> dflt)) i))) (mIds pm) = entries pm"
    by (auto simp: entries_def)
  moreover have "entries (pm_insert dflt h pm) =
    insert_at (min (length (mIds pm)) (handle_index h)) (handle_id h, dflt)
      (map (\<lambda>i. (i, the (((mElements pm)(handle_id h \<mapsto> dflt)) i))) (mIds pm))"
    using assms(2) by (simp add: pm_insert_def pm_containsHandle_def pm_contains_def entries_def map_insert_at)
  moreover have "length (mIds pm) = length (entries pm)" by (simp add: entries_def)
  ultimately show ?thesis by (simp only:)
qed

lemma entries_erase:
  assumes "pm_inv pm"
  shows "entries (pm_erase h pm) = filter (\<lambda>(i, _). i \<noteq> handle_id h) (entries pm)"
proof (cases "handle_id h \<in> set (mIds pm)")
  case True
  have "remove1 (handle_id h) (mIds pm) = filter (\<lambda>i. i \<noteq> handle_id h) (mIds pm)"
    using assms by (simp add: pm_inv_def distinct_remove1_removeAll removeAll_filter_not_eq eq_commute)
  with True show ?thesis by (auto simp: pm_erase_def entries_def filter_map o_def)
next
  case False
  then have "filter (\<lambda>i. i \<noteq> handle_id h) (mIds pm) = mIds pm" by (induction "mIds pm") (auto intro!: filter_True)
  with False show ?thesis by (simp add: pm_erase_def entries_def filter_map o_def)
qed

lemma pm_atIndex_entries:
  assumes "pm_inv pm"
  shows "pm_atIndex i pm = (if i < length (entries pm) then Inr (snd (entries pm ! i)) else Inl AssertionFailed)"
proof (cases "i < length (mIds pm)")
  case True
  with assms have "mIds pm ! i \<in> dom (mElements pm)" by (metis pm_inv_def nth_mem)
  with True assms show ?thesis
    by (auto simp: pm_atIndex_def pm_inv_card entries_def nthE_def)
qed (simp add: pm_atIndex_def pm_inv_card[OF assms] entries_def)

lemma pm_at_entries:
  assumes "pm_inv pm"
  shows "pm_at h pm = (case map_of (entries pm) (handle_id h) of None \<Rightarrow> Inl AssertionFailed | Some v \<Rightarrow> Inr v)"
proof -
  have "map_of (entries pm) = mElements pm"
    using assms by (auto simp: entries_def pm_inv_def map_of_map_keys)
  then show ?thesis by (simp add: pm_at_def)
qed

subsection \<open>Properties\<close>


definition examplePositions :: "nat PositionManager" where
  "examplePositions = pm_insert 5 (PositionHandle 8 0) (pm_insert 7 (PositionHandle 9 3) pm_new)"

lemma examplePositions_inv: "pm_inv examplePositions"
  by (simp add: examplePositions_def pm_inv_insert)


text \<open>
  Undo of a change of the container restores it: erasing a handle that was inserted, and putting an erased
  element back at the position its handle had.
\<close>
theorem position_manager_undo:
  assumes "pm_inv pm"
  shows "(\<not> pm_containsHandle h pm \<longrightarrow> pm_erase h (pm_insert dflt h pm) = pm) \<and>
    (\<forall>v i. pm_at h pm = Inr v \<and> pm_getIndex h pm = Inr i \<longrightarrow>
      pm_put h v (pm_insert dflt (PositionHandle (handle_id h) i) (pm_erase h pm)) = pm)"
proof -
  have "pm_erase h (pm_insert dflt h pm) = pm" if "\<not> pm_containsHandle h pm"
  proof -
    from that have n: "mElements pm (handle_id h) = None" "handle_id h \<notin> set (mIds pm)"
      using assms by (auto simp: pm_containsHandle_def pm_contains_def pm_inv_def)
    then have "(mElements pm)(handle_id h := None) = mElements pm" by auto
    with n show ?thesis by (simp add: pm_erase_def pm_insert_def)
  qed
  moreover have "pm_put h v (pm_insert dflt (PositionHandle (handle_id h) i) (pm_erase h pm)) = pm"
    if "pm_at h pm = Inr v" "pm_getIndex h pm = Inr i" for v i
  proof -
    from that(2) have m: "handle_id h \<in> set (mIds pm)" and i: "i = index_of (handle_id h) (mIds pm)"
      by (simp_all add: pm_getIndex_def)
    from that(1) have "mElements pm (handle_id h) = Some v" by (simp add: pm_at_def split: option.splits)
    then have "(mElements pm)(handle_id h \<mapsto> v) = mElements pm" by auto
    moreover from m i have "i < length (mIds pm)" by simp
    then have "min (length (remove1 (handle_id h) (mIds pm))) i = i"
      using m by (simp add: length_remove1 del: index_of_less)
    ultimately show ?thesis using m i
      by (simp add: pm_put_def pm_insert_def pm_erase_def insert_at_remove1)
  qed
  ultimately show ?thesis by blast
qed

theorem position_manager_undo_witness:
  "pm_erase (PositionHandle 3 1) (pm_insert 0 (PositionHandle 3 1) examplePositions) = examplePositions"
proof -
  have "\<not> pm_containsHandle (PositionHandle 3 1) examplePositions" by code_simp
  then show ?thesis using position_manager_undo[OF examplePositions_inv, of "PositionHandle 3 1" 0] by blast
qed

end
