(* ===== verification/Preferences_Store.thy ===== *)
theory Preferences_Store
  imports Prelude
begin

section \<open>The preferences store and its actions\<close>

text \<open>
  Models \<^verbatim>\<open>src/core/stores/preferences_store.hpp\<close>, \<^verbatim>\<open>preferences_store.cpp\<close> and the six actions that change
  the preferences. The preferred draw systems are a table of rows, each with the least number of players for
  which its draw system is used, ordered by that limit.

  An action object keeps the members it needs for undoing; \<open>redoImpl\<close> and \<open>undoImpl\<close> return the action
  with its members updated and the store. Members that the constructor leaves uninitialised are options.
  Sizes and limits (\<^verbatim>\<open>size_t\<close>) are natural numbers: the code only compares and copies them.
\<close>

datatype DrawSystemIdentifier = BEST_OF_THREE | POOL | DOUBLE_POOL

record DrawSystemPreference =
  playerLowerLimit :: nat
  drawSystem :: DrawSystemIdentifier

datatype ScoreboardStylePreference = SCOREBOARD_NATIONAL | SCOREBOARD_INTERNATIONAL

datatype MatchCardStylePreference = MATCH_CARD_NATIONAL

record PreferencesStore =
  mPreferredDrawSystems :: "DrawSystemPreference list"
  mScoreboardStyle :: ScoreboardStylePreference
  mMatchCardStyle :: MatchCardStylePreference

definition newDrawSystemPreference :: "nat \<Rightarrow> DrawSystemIdentifier \<Rightarrow> DrawSystemPreference" where
  "newDrawSystemPreference limit system = \<lparr>playerLowerLimit = limit, drawSystem = system\<rparr>"

definition newPreferencesStore :: PreferencesStore where
  "newPreferencesStore =
     \<lparr>mPreferredDrawSystems = [newDrawSystemPreference 1 BEST_OF_THREE, newDrawSystemPreference 3 POOL,
        newDrawSystemPreference 6 DOUBLE_POOL],
      mScoreboardStyle = SCOREBOARD_NATIONAL, mMatchCardStyle = MATCH_CARD_NATIONAL\<rparr>"

definition setScoreboardStyle :: "ScoreboardStylePreference \<Rightarrow> PreferencesStore \<Rightarrow> PreferencesStore" where
  [store_simps]: "setScoreboardStyle s p = p\<lparr>mScoreboardStyle := s\<rparr>"

definition setMatchCardStyle :: "MatchCardStylePreference \<Rightarrow> PreferencesStore \<Rightarrow> PreferencesStore" where
  [store_simps]: "setMatchCardStyle s p = p\<lparr>mMatchCardStyle := s\<rparr>"

text \<open>
  The loop of \<^verbatim>\<open>getPreferredDrawSystem\<close> runs down from the last row. On an empty table \<^verbatim>\<open>size() - 1\<close> wraps
  around and the first access is out of bounds.
\<close>

fun preferredRow :: "DrawSystemPreference list \<Rightarrow> nat \<Rightarrow> nat \<Rightarrow> nat" where
  "preferredRow rows num 0 = 0"
| "preferredRow rows num (Suc i) =
     (if playerLowerLimit (rows ! Suc i) > num then preferredRow rows num i else Suc i)"

definition getPreferredDrawSystem :: "PreferencesStore \<Rightarrow> nat \<Rightarrow> DrawSystemIdentifier result" where
  "getPreferredDrawSystem p num =
     (let rows = mPreferredDrawSystems p
      in if rows = [] then Inl UndefinedBehaviour
         else Inr (drawSystem (rows ! preferredRow rows num (length rows - 1))))"

subsection \<open>AddDrawSystemPreferenceRow and EraseDrawSystemPreferenceRow\<close>

definition updateRows ::
  "(DrawSystemPreference list \<Rightarrow> DrawSystemPreference list) \<Rightarrow> PreferencesStore \<Rightarrow> PreferencesStore" where
  "updateRows f p = p\<lparr>mPreferredDrawSystems := f (mPreferredDrawSystems p)\<rparr>"

definition AddDrawSystemPreferenceRow_redo :: "nat \<Rightarrow> PreferencesStore \<Rightarrow> PreferencesStore" where
  "AddDrawSystemPreferenceRow_redo row p =
     (let rows = mPreferredDrawSystems p
      in if row = 0 then p
         else if row > length rows then p
         else updateRows (insert_at row (if row = length rows then rows ! (row - 1) else rows ! row)) p)"

text \<open>Erasing at the end iterator, when the row is the size of the table, is undefined.\<close>

definition AddDrawSystemPreferenceRow_undo :: "nat \<Rightarrow> PreferencesStore \<Rightarrow> PreferencesStore result" where
  "AddDrawSystemPreferenceRow_undo row p =
     (let rows = mPreferredDrawSystems p
      in if row = 0 then Inr p
         else if row > length rows then Inr p
         else if row = length rows then Inl UndefinedBehaviour
         else Inr (updateRows (erase_at row) p))"

record EraseDrawSystemPreferenceRow =
  mEraseRow :: nat
  mPrevValue :: "DrawSystemPreference option"

definition EraseDrawSystemPreferenceRow_redo ::
  "EraseDrawSystemPreferenceRow \<Rightarrow> PreferencesStore \<Rightarrow> EraseDrawSystemPreferenceRow \<times> PreferencesStore" where
  "EraseDrawSystemPreferenceRow_redo a p =
     (let rows = mPreferredDrawSystems p; row = mEraseRow a
      in if row = 0 then (a, p)
         else if row \<ge> length rows then (a, p)
         else (a\<lparr>mPrevValue := Some (rows ! row)\<rparr>, updateRows (erase_at row) p))"

definition EraseDrawSystemPreferenceRow_undo ::
  "EraseDrawSystemPreferenceRow \<Rightarrow> PreferencesStore \<Rightarrow> PreferencesStore result" where
  "EraseDrawSystemPreferenceRow_undo a p =
     (let rows = mPreferredDrawSystems p; row = mEraseRow a
      in if row = 0 then Inr p
         else if row > length rows then Inr p
         else case mPrevValue a of
             None \<Rightarrow> Inl UndefinedBehaviour
           | Some v \<Rightarrow> Inr (updateRows (insert_at row v) p))"

subsection \<open>ChangeDrawSystemPreferenceIdentifierAction\<close>

record ChangeDrawSystemPreferenceIdentifierAction =
  mIdentifierRow :: nat
  mIdentifier :: DrawSystemIdentifier
  mPrevIdentifier :: "DrawSystemIdentifier option"

definition setRowSystem :: "nat \<Rightarrow> DrawSystemIdentifier \<Rightarrow> DrawSystemPreference list \<Rightarrow> DrawSystemPreference list" where
  "setRowSystem i s rows = rows[i := (rows ! i)\<lparr>drawSystem := s\<rparr>]"

definition ChangeDrawSystemPreferenceIdentifierAction_redo ::
  "ChangeDrawSystemPreferenceIdentifierAction \<Rightarrow> PreferencesStore \<Rightarrow>
   ChangeDrawSystemPreferenceIdentifierAction \<times> PreferencesStore" where
  "ChangeDrawSystemPreferenceIdentifierAction_redo a p =
     (let rows = mPreferredDrawSystems p; row = mIdentifierRow a
      in if row \<ge> length rows then (a, p)
         else (a\<lparr>mPrevIdentifier := Some (drawSystem (rows ! row))\<rparr>,
               updateRows (setRowSystem row (mIdentifier a)) p))"

definition ChangeDrawSystemPreferenceIdentifierAction_undo ::
  "ChangeDrawSystemPreferenceIdentifierAction \<Rightarrow> PreferencesStore \<Rightarrow> PreferencesStore" where
  "ChangeDrawSystemPreferenceIdentifierAction_undo a p =
     (let rows = mPreferredDrawSystems p; row = mIdentifierRow a
      in if row \<ge> length rows then p else updateRows (setRowSystem row (mIdentifier a)) p)"

subsection \<open>ChangeDrawSystemPreferenceLimitAction\<close>

record ChangeDrawSystemPreferenceLimitAction =
  mLimitRow :: nat
  mLimit :: nat
  mPrevAboveLimits :: "nat list"
  mPrevBelowLimits :: "nat list"

definition setRowLimit :: "nat \<Rightarrow> nat \<Rightarrow> DrawSystemPreference list \<Rightarrow> DrawSystemPreference list" where
  "setRowLimit i n rows = rows[i := (rows ! i)\<lparr>playerLowerLimit := n\<rparr>]"

text \<open>
  The first loop caps the rows above the changed one, from \<open>i - 1\<close> down; the second the rows below, from \<open>i\<close>
  up. Both remember the limits they overwrite.
\<close>

fun capAbove :: "nat \<Rightarrow> nat \<Rightarrow> DrawSystemPreference list \<times> nat list \<Rightarrow> DrawSystemPreference list \<times> nat list" where
  "capAbove limit 0 (rows, prev) = (rows, prev)"
| "capAbove limit (Suc i) (rows, prev) =
     (if playerLowerLimit (rows ! i) \<le> limit then (rows, prev)
      else capAbove limit i (setRowLimit i limit rows, prev @ [playerLowerLimit (rows ! i)]))"

function capBelow :: "nat \<Rightarrow> nat \<Rightarrow> DrawSystemPreference list \<times> nat list \<Rightarrow> DrawSystemPreference list \<times> nat list" where
  "capBelow limit i (rows, prev) =
     (if i < length rows then
        if playerLowerLimit (rows ! i) \<ge> limit then (rows, prev)
        else capBelow limit (Suc i) (setRowLimit i limit rows, prev @ [playerLowerLimit (rows ! i)])
      else (rows, prev))"
  by pat_completeness auto
termination by (relation "measure (\<lambda>(limit, i, rows, prev). length rows - i)") (auto simp: setRowLimit_def)

definition ChangeDrawSystemPreferenceLimitAction_redo ::
  "ChangeDrawSystemPreferenceLimitAction \<Rightarrow> PreferencesStore \<Rightarrow>
   ChangeDrawSystemPreferenceLimitAction \<times> PreferencesStore" where
  "ChangeDrawSystemPreferenceLimitAction_redo a p =
     (let rows = mPreferredDrawSystems p; row = mLimitRow a; limit = mLimit a
      in if row \<ge> length rows then (a, p)
         else if row = 0 then (a, p)
         else
           let below = mPrevBelowLimits a @ [playerLowerLimit (rows ! row)];
               (rows1, above) = capAbove limit row (setRowLimit row limit rows, mPrevAboveLimits a);
               (rows2, below1) = capBelow limit (row + 1) (rows1, below)
           in (a\<lparr>mPrevAboveLimits := above, mPrevBelowLimits := below1\<rparr>, updateRows (\<lambda>_. rows2) p))"

fun restoreAbove :: "nat \<Rightarrow> nat list \<Rightarrow> DrawSystemPreference list \<Rightarrow> DrawSystemPreference list result" where
  "restoreAbove i [] rows = Inr rows"
| "restoreAbove 0 (v # vs) rows = Inl UndefinedBehaviour"
| "restoreAbove (Suc i) (v # vs) rows =
     (if i < length rows then restoreAbove i vs (setRowLimit i v rows) else Inl UndefinedBehaviour)"

fun restoreBelow :: "nat \<Rightarrow> nat list \<Rightarrow> DrawSystemPreference list \<Rightarrow> DrawSystemPreference list result" where
  "restoreBelow i [] rows = Inr rows"
| "restoreBelow i (v # vs) rows =
     (if i < length rows then restoreBelow (Suc i) vs (setRowLimit i v rows) else Inl UndefinedBehaviour)"

definition ChangeDrawSystemPreferenceLimitAction_undo ::
  "ChangeDrawSystemPreferenceLimitAction \<Rightarrow> PreferencesStore \<Rightarrow> PreferencesStore result" where
  "ChangeDrawSystemPreferenceLimitAction_undo a p =
     (let rows = mPreferredDrawSystems p; row = mLimitRow a
      in if row \<ge> length rows then Inr p
         else if row = 0 then Inr p
         else bindE (restoreAbove row (mPrevAboveLimits a) rows) (\<lambda>rows1.
              bindE (restoreBelow row (mPrevBelowLimits a) rows1) (\<lambda>rows2.
              Inr (updateRows (\<lambda>_. rows2) p))))"

subsection \<open>The style actions\<close>

record 'v StyleAction =
  mStyleValue :: 'v
  mOldStyleValue :: "'v option"

definition ChangeMatchCardStylePreferenceAction_redo ::
  "MatchCardStylePreference StyleAction \<Rightarrow> PreferencesStore \<Rightarrow>
   MatchCardStylePreference StyleAction \<times> PreferencesStore" where
  "ChangeMatchCardStylePreferenceAction_redo a p =
     (let old = mMatchCardStyle p; a1 = a\<lparr>mOldStyleValue := Some old\<rparr>
      in if old = mStyleValue a then (a1, p) else (a1, setMatchCardStyle (mStyleValue a) p))"

definition ChangeMatchCardStylePreferenceAction_undo ::
  "MatchCardStylePreference StyleAction \<Rightarrow> PreferencesStore \<Rightarrow> PreferencesStore result" where
  "ChangeMatchCardStylePreferenceAction_undo a p =
     (case mOldStyleValue a of None \<Rightarrow> Inl UndefinedBehaviour
      | Some old \<Rightarrow> Inr (if mMatchCardStyle p = old then p else setMatchCardStyle old p))"

definition ChangeScoreboardStylePreferenceAction_redo ::
  "ScoreboardStylePreference StyleAction \<Rightarrow> PreferencesStore \<Rightarrow>
   ScoreboardStylePreference StyleAction \<times> PreferencesStore" where
  "ChangeScoreboardStylePreferenceAction_redo a p =
     (let old = mScoreboardStyle p; a1 = a\<lparr>mOldStyleValue := Some old\<rparr>
      in if old = mStyleValue a then (a1, p) else (a1, setScoreboardStyle (mStyleValue a) p))"

definition ChangeScoreboardStylePreferenceAction_undo ::
  "ScoreboardStylePreference StyleAction \<Rightarrow> PreferencesStore \<Rightarrow> PreferencesStore result" where
  "ChangeScoreboardStylePreferenceAction_undo a p =
     (case mOldStyleValue a of None \<Rightarrow> Inl UndefinedBehaviour
      | Some old \<Rightarrow> Inr (if mScoreboardStyle p = old then p else setScoreboardStyle old p))"

subsection \<open>Invariant: the table is not empty and ordered by its limits\<close>

definition limits :: "DrawSystemPreference list \<Rightarrow> nat list" where
  "limits rows = map playerLowerLimit rows"

definition preferences_inv :: "PreferencesStore \<Rightarrow> bool" where
  "preferences_inv p \<longleftrightarrow> mPreferredDrawSystems p \<noteq> [] \<and> sorted (limits (mPreferredDrawSystems p))"

lemma updateRows_simps [simp]:
  "mPreferredDrawSystems (updateRows f p) = f (mPreferredDrawSystems p)"
  "updateRows f (updateRows g p) = updateRows (f \<circ> g) p"
  by (simp_all add: updateRows_def)

lemma updateRows_id: "f (mPreferredDrawSystems p) = mPreferredDrawSystems p \<Longrightarrow> updateRows f p = p"
  by (simp add: updateRows_def)

lemma length_setRowLimit [simp]: "length (setRowLimit i n rows) = length rows"
  by (simp add: setRowLimit_def)

lemma nth_setRowLimit:
  "k < length rows \<Longrightarrow> setRowLimit i n rows ! k = (if k = i then (rows ! k)\<lparr>playerLowerLimit := n\<rparr> else rows ! k)"
  by (auto simp: setRowLimit_def nth_list_update)

lemma length_capAbove [simp]: "length (fst (capAbove limit i (rows, prev))) = length rows"
  by (induction limit i "(rows, prev)" arbitrary: rows prev rule: capAbove.induct) auto

lemma length_capBelow [simp]: "length (fst (capBelow limit i (rows, prev))) = length rows"
proof (induction limit i "(rows, prev)" arbitrary: rows prev rule: capBelow.induct)
  case (1 limit i rows prev)
  then show ?case by (subst capBelow.simps) (simp del: capBelow.simps)
qed

text \<open>On a sorted table the two loops compute a minimum and a maximum.\<close>

lemma capAbove_limits:
  assumes "k < length rows" and "i \<le> length rows"
    and "\<And>j k. k \<le> j \<Longrightarrow> j < i \<Longrightarrow> playerLowerLimit (rows ! k) \<le> playerLowerLimit (rows ! j)"
  shows "playerLowerLimit (fst (capAbove limit i (rows, prev)) ! k) =
    (if k < i then min (playerLowerLimit (rows ! k)) limit else playerLowerLimit (rows ! k))"
  using assms
proof (induction limit i "(rows, prev)" arbitrary: rows prev rule: capAbove.induct)
  case (2 limit i rows prev)
  show ?case
  proof (cases "playerLowerLimit (rows ! i) \<le> limit")
    case True
    have "playerLowerLimit (rows ! k) \<le> limit" if "k < Suc i"
      using True "2.prems"(3)[of k i] that by simp
    then show ?thesis using True by auto
  next
    case False
    have s: "playerLowerLimit (setRowLimit i limit rows ! a) \<le> playerLowerLimit (setRowLimit i limit rows ! b)"
      if "a \<le> b" "b < i" for a b
      using "2.prems"(2) "2.prems"(3)[of a b] that by (simp add: nth_setRowLimit)
    show ?thesis
      using "2.hyps"[OF False] "2.prems" s False by (auto simp: nth_setRowLimit less_Suc_eq)
  qed
qed simp

lemma capBelow_limits:
  assumes "k < length rows"
    and "\<And>j k. i \<le> j \<Longrightarrow> j \<le> k \<Longrightarrow> k < length rows \<Longrightarrow> playerLowerLimit (rows ! j) \<le> playerLowerLimit (rows ! k)"
  shows "playerLowerLimit (fst (capBelow limit i (rows, prev)) ! k) =
    (if i \<le> k then max (playerLowerLimit (rows ! k)) limit else playerLowerLimit (rows ! k))"
  using assms
proof (induction limit i "(rows, prev)" arbitrary: rows prev rule: capBelow.induct)
  case (1 limit i rows prev)
  show ?case
  proof (cases "i < length rows \<and> playerLowerLimit (rows ! i) < limit")
    case True
    have s: "playerLowerLimit (setRowLimit i limit rows ! a) \<le> playerLowerLimit (setRowLimit i limit rows ! b)"
      if "Suc i \<le> a" "a \<le> b" "b < length (setRowLimit i limit rows)" for a b
      using "1.prems"(2)[of a b] that by (simp add: nth_setRowLimit)
    have "\<not> limit \<le> playerLowerLimit (rows ! i)" using True by simp
    from "1.hyps"[OF _ this _ s] True "1.prems"(1) show ?thesis
      by (subst capBelow.simps) (auto simp: nth_setRowLimit not_less_eq_eq le_antisym max_def simp del: capBelow.simps)
  next
    case False
    have "limit \<le> playerLowerLimit (rows ! k)" if "i \<le> k"
      using False "1.prems"(1) "1.prems"(2)[of i k] that by force
    then show ?thesis using False by (subst capBelow.simps) (auto simp del: capBelow.simps)
  qed
qed

lemma sorted_limits_nth:
  "sorted (limits rows) \<longleftrightarrow>
     (\<forall>j k. j \<le> k \<longrightarrow> k < length rows \<longrightarrow> playerLowerLimit (rows ! j) \<le> playerLowerLimit (rows ! k))"
  by (auto simp: limits_def sorted_iff_nth_mono)

lemma preferences_inv_limit:
  assumes "preferences_inv p"
  shows "preferences_inv (snd (ChangeDrawSystemPreferenceLimitAction_redo a p))"
proof -
  define rows where "rows = mPreferredDrawSystems p"
  define row where "row = mLimitRow a"
  have s: "j \<le> k \<Longrightarrow> k < length rows \<Longrightarrow> playerLowerLimit (rows ! j) \<le> playerLowerLimit (rows ! k)" for j k
    using assms by (auto simp: preferences_inv_def sorted_limits_nth rows_def)
  obtain rows1 above where c1: "capAbove (mLimit a) row (setRowLimit row (mLimit a) rows, mPrevAboveLimits a) = (rows1, above)"
    by (cases "capAbove (mLimit a) row (setRowLimit row (mLimit a) rows, mPrevAboveLimits a)")
  obtain rows2 below where c2: "capBelow (mLimit a) (row + 1)
      (rows1, mPrevBelowLimits a @ [playerLowerLimit (rows ! row)]) = (rows2, below)"
    by (cases "capBelow (mLimit a) (row + 1) (rows1, mPrevBelowLimits a @ [playerLowerLimit (rows ! row)])")
  show ?thesis
  proof (cases "row < length rows \<and> row \<noteq> 0")
    case True
    have l1: "length rows1 = length rows"
      using arg_cong[OF c1, of "length \<circ> fst"] by simp
    have l2: "length rows2 = length rows"
      using arg_cong[OF c2, of "length \<circ> fst"] l1 by (simp del: capBelow.simps)
    have r1: "playerLowerLimit (rows1 ! k) = (if k < row then min (playerLowerLimit (rows ! k)) (mLimit a)
        else if k = row then mLimit a else playerLowerLimit (rows ! k))" if "k < length rows" for k
      using capAbove_limits[of k "setRowLimit row (mLimit a) rows" row "mLimit a" "mPrevAboveLimits a"] c1 True s that
      by (simp add: nth_setRowLimit)
    have r2: "playerLowerLimit (rows2 ! k) = (if k < row then min (playerLowerLimit (rows ! k)) (mLimit a)
        else max (if k = row then 0 else playerLowerLimit (rows ! k)) (mLimit a))" if "k < length rows" for k
    proof -
      have "playerLowerLimit (rows1 ! i) \<le> playerLowerLimit (rows1 ! j)" if "row + 1 \<le> i" "i \<le> j" "j < length rows1" for i j
        using that s[of i j] by (simp add: r1 l1)
      then show ?thesis
        using capBelow_limits[of k rows1 "row + 1" "mLimit a" "mPrevBelowLimits a @ [playerLowerLimit (rows ! row)]"]
          c2 l1 that by (auto simp: r1 simp del: capBelow.simps)
    qed
    have "sorted (limits rows2)"
      unfolding sorted_limits_nth
    proof (intro allI impI)
      fix j k assume jk: "j \<le> k" "k < length rows2"
      show "playerLowerLimit (rows2 ! j) \<le> playerLowerLimit (rows2 ! k)"
        using jk s[of j k] l2 by (auto simp: r2 min_def max_def)
    qed
    then show ?thesis
      using assms True l2 c1 c2
      by (auto simp: ChangeDrawSystemPreferenceLimitAction_redo_def Let_def preferences_inv_def
          rows_def row_def simp del: capBelow.simps)
  qed (use assms in \<open>auto simp: ChangeDrawSystemPreferenceLimitAction_redo_def rows_def row_def Let_def\<close>)
qed

lemma sorted_insert_at:
  assumes "sorted xs" and "i \<le> length xs" and "\<forall>y \<in> set (take i xs). y \<le> x" and "\<forall>y \<in> set (drop i xs). x \<le> y"
  shows "sorted (insert_at i x xs)"
proof -
  have "sorted (take i xs @ drop i xs)" using assms(1) by simp
  then have "sorted (take i xs)" "sorted (drop i xs)" by (simp_all add: sorted_append)
  with assms(3,4) show ?thesis by (auto simp: insert_at_def sorted_append intro: order_trans)
qed

lemma preferences_inv_add: "preferences_inv p \<Longrightarrow> preferences_inv (AddDrawSystemPreferenceRow_redo row p)"
proof -
  assume inv: "preferences_inv p"
  define rows where "rows = mPreferredDrawSystems p"
  define x where "x = (if row = length rows then rows ! (row - 1) else rows ! row)"
  have "sorted (insert_at row (playerLowerLimit x) (limits rows))" if "row \<noteq> 0" "row \<le> length rows"
  proof (rule sorted_insert_at)
    have s: "sorted (limits rows)" using inv by (simp add: preferences_inv_def rows_def)
    then show "sorted (limits rows)" .
    show "row \<le> length (limits rows)" using that by (simp add: limits_def)
    note n = s[unfolded sorted_limits_nth, rule_format]
    show "\<forall>y\<in>set (take row (limits rows)). y \<le> playerLowerLimit x"
      using that by (auto simp: in_set_conv_nth limits_def x_def intro!: n)
    show "\<forall>y\<in>set (drop row (limits rows)). playerLowerLimit x \<le> y"
      using that by (auto simp: in_set_conv_nth limits_def x_def less_diff_conv add.commute intro!: n)
  qed
  moreover have "limits (insert_at row x rows) = insert_at row (playerLowerLimit x) (limits rows)"
    by (simp add: limits_def insert_at_def take_map drop_map)
  ultimately show ?thesis using inv
    by (auto simp: AddDrawSystemPreferenceRow_redo_def Let_def preferences_inv_def rows_def x_def insert_at_def)
qed

lemma sorted_erase_at: "sorted xs \<Longrightarrow> sorted (erase_at i xs)"
proof -
  assume "sorted xs"
  moreover have "sorted (take i xs @ drop i xs)" using calculation by simp
  ultimately show ?thesis
    unfolding erase_at_def sorted_append
    by (meson set_drop_subset_set_drop le_SucI order_refl sorted_wrt_drop sorted_wrt_take subsetD)
qed

lemma erase_at_eq_Nil: "0 < i \<Longrightarrow> i < length xs \<Longrightarrow> erase_at i xs \<noteq> []"
  by (auto simp: erase_at_def)

lemma preferences_inv_erase:
  "preferences_inv p \<Longrightarrow> preferences_inv (snd (EraseDrawSystemPreferenceRow_redo a p))"
proof -
  assume inv: "preferences_inv p"
  have "limits (erase_at i rows) = erase_at i (limits rows)" for i rows
    by (simp add: limits_def erase_at_def take_map drop_map)
  with inv show ?thesis
    by (auto simp: EraseDrawSystemPreferenceRow_redo_def Let_def erase_at_eq_Nil preferences_inv_def sorted_erase_at)
qed

lemma preferences_inv_identifier:
  "preferences_inv p \<Longrightarrow> preferences_inv (snd (ChangeDrawSystemPreferenceIdentifierAction_redo a p))"
proof -
  assume inv: "preferences_inv p"
  have "limits (setRowSystem i v rows) = limits rows" for i v rows
    by (cases "i < length rows")
      (auto simp: limits_def setRowSystem_def map_update intro!: nth_equalityI simp: nth_list_update)
  with inv show ?thesis
    by (auto simp: ChangeDrawSystemPreferenceIdentifierAction_redo_def Let_def preferences_inv_def setRowSystem_def)
qed

subsection \<open>Undo of a change of a limit\<close>

lemma setRowLimit_commute:
  "i \<noteq> j \<Longrightarrow> setRowLimit i n (setRowLimit j m rows) = setRowLimit j m (setRowLimit i n rows)"
  by (cases "i < length rows"; cases "j < length rows") (auto simp: setRowLimit_def list_update_swap)

lemma setRowLimit_restore: "i < length rows \<Longrightarrow> setRowLimit i (playerLowerLimit (rows ! i)) (setRowLimit i n rows) = rows"
  by (simp add: setRowLimit_def)

lemma restoreAbove_commute:
  "i \<le> j \<Longrightarrow> restoreAbove i vs (setRowLimit j n rows) = bindE (restoreAbove i vs rows) (\<lambda>r. Inr (setRowLimit j n r))"
  by (induction i vs rows rule: restoreAbove.induct) (auto simp: setRowLimit_commute)

lemma capAbove_restore:
  assumes "capAbove limit i (rows, prev) = (rows', prev')" and "i \<le> length rows"
  shows "\<exists>vs. prev' = prev @ vs \<and> restoreAbove i vs rows' = Inr rows"
  using assms
proof (induction limit i "(rows, prev)" arbitrary: rows prev rule: capAbove.induct)
  case (2 limit i rows prev)
  show ?case
  proof (cases "playerLowerLimit (rows ! i) \<le> limit")
    case False
    then obtain vs where vs: "prev' = (prev @ [playerLowerLimit (rows ! i)]) @ vs"
      "restoreAbove i vs rows' = Inr (setRowLimit i limit rows)"
      using "2.hyps"[OF False] "2.prems" by auto
    have "length rows' = length rows"
      using length_capAbove[of limit "Suc i" rows prev] "2.prems" by simp
    then have "restoreAbove (Suc i) (playerLowerLimit (rows ! i) # vs) rows' = Inr rows"
      using "2.prems"(2) vs(2) by (simp add: restoreAbove_commute setRowLimit_restore)
    with vs(1) show ?thesis by (metis append.assoc append_Cons append_Nil)
  qed (use "2.prems" in auto)
qed auto

lemma restoreBelow_commute:
  "j < i \<Longrightarrow> restoreBelow i vs (setRowLimit j n rows) = bindE (restoreBelow i vs rows) (\<lambda>r. Inr (setRowLimit j n r))"
  by (induction i vs rows rule: restoreBelow.induct) (auto simp: setRowLimit_commute)

lemma capBelow_restore:
  assumes "capBelow limit i (rows, prev) = (rows', prev')"
  shows "\<exists>vs. prev' = prev @ vs \<and> restoreBelow i vs rows' = Inr rows"
  using assms
proof (induction limit i "(rows, prev)" arbitrary: rows prev rule: capBelow.induct)
  case (1 limit i rows prev)
  show ?case
  proof (cases "i < length rows \<and> playerLowerLimit (rows ! i) < limit")
    case True
    then obtain vs where vs: "prev' = (prev @ [playerLowerLimit (rows ! i)]) @ vs"
      "restoreBelow (Suc i) vs rows' = Inr (setRowLimit i limit rows)"
      using "1.hyps" "1.prems" by (subst (asm) capBelow.simps) (auto simp del: capBelow.simps)
    have "length rows' = length rows"
      using length_capBelow[of limit i rows prev] "1.prems" by simp
    then have "restoreBelow i (playerLowerLimit (rows ! i) # vs) rows' = Inr rows"
      using True vs(2) by (simp add: restoreBelow_commute setRowLimit_restore)
    with vs(1) show ?thesis by (metis append.assoc append_Cons append_Nil)
  next
    case False
    with "1.prems" show ?thesis by (subst (asm) capBelow.simps) (auto split: if_splits simp del: capBelow.simps)
  qed
qed

lemma length_restoreBelow: "restoreBelow i vs rows = Inr rows' \<Longrightarrow> length rows' = length rows"
  by (induction i vs rows rule: restoreBelow.induct) (auto split: if_splits)

lemma restore_swap:
  assumes "restoreBelow j vs rows = Inr r1" and "restoreAbove i us r1 = Inr r2" and "i \<le> j"
  shows "\<exists>r. restoreAbove i us rows = Inr r \<and> restoreBelow j vs r = Inr r2"
  using assms
proof (induction i us rows arbitrary: r1 rule: restoreAbove.induct)
  case (3 i v us rows)
  have "i < length r1" using "3.prems"(2) by (auto split: if_splits)
  then have i: "i < length rows" using length_restoreBelow[OF "3.prems"(1)] by simp
  have "restoreBelow j vs (setRowLimit i v rows) = Inr (setRowLimit i v r1)"
    using "3.prems" by (simp add: restoreBelow_commute)
  from "3.IH"[OF i this] show ?case using "3.prems" i \<open>i < length r1\<close> by simp
qed auto

lemma limit_action_undo_redo:
  assumes fresh: "mPrevAboveLimits a = []" "mPrevBelowLimits a = []"
    and redo: "ChangeDrawSystemPreferenceLimitAction_redo a p = (a', p')"
  shows "ChangeDrawSystemPreferenceLimitAction_undo a' p' = Inr p"
proof (cases "mLimitRow a < length (mPreferredDrawSystems p) \<and> mLimitRow a \<noteq> 0")
  case True
  define rows where "rows = mPreferredDrawSystems p"
  define row where "row = mLimitRow a"
  have row: "row < length rows" "row \<noteq> 0" using True by (auto simp: rows_def row_def)
  obtain rows1 above where c1: "capAbove (mLimit a) row (setRowLimit row (mLimit a) rows, []) = (rows1, above)"
    by (cases "capAbove (mLimit a) row (setRowLimit row (mLimit a) rows, [])")
  obtain rows2 below where c2: "capBelow (mLimit a) (row + 1) (rows1, [playerLowerLimit (rows ! row)]) = (rows2, below)"
    by (cases "capBelow (mLimit a) (row + 1) (rows1, [playerLowerLimit (rows ! row)])")
  have len: "length rows1 = length rows" "length rows2 = length rows"
    using length_capAbove[of "mLimit a" row "setRowLimit row (mLimit a) rows" "[]"]
      length_capBelow[of "mLimit a" "row + 1" rows1 "[playerLowerLimit (rows ! row)]"] c1 c2 by simp_all
  from capAbove_restore[OF c1] row have above: "restoreAbove row above rows1 = Inr (setRowLimit row (mLimit a) rows)"
    by simp
  from capBelow_restore[OF c2] obtain vs where below: "below = playerLowerLimit (rows ! row) # vs"
    "restoreBelow (row + 1) vs rows2 = Inr rows1" by auto
  have a': "mLimitRow a' = row" "mPrevAboveLimits a' = above" "mPrevBelowLimits a' = below"
    and p': "p' = updateRows (\<lambda>_. rows2) p"
    using redo row fresh c1 c2
    by (auto simp: ChangeDrawSystemPreferenceLimitAction_redo_def Let_def rows_def row_def simp del: capBelow.simps)
  from restore_swap[OF below(2) above] obtain r where r: "restoreAbove row above rows2 = Inr r"
    "restoreBelow (row + 1) vs r = Inr (setRowLimit row (mLimit a) rows)" by auto
  have "length r = length rows" using length_restoreBelow[OF r(2)] by simp
  then have "restoreBelow row below r = Inr rows"
    using row below(1) r(2) by (simp add: restoreBelow_commute setRowLimit_restore)
  then show ?thesis using row a' p' len r(1)
    by (simp add: ChangeDrawSystemPreferenceLimitAction_undo_def Let_def)
      (simp add: updateRows_def rows_def)
next
  case False
  then have "a' = a \<and> p' = p" using redo
    by (cases "mLimitRow a = 0") (auto simp: ChangeDrawSystemPreferenceLimitAction_redo_def Let_def split: if_splits)
  with False show ?thesis by (auto simp: ChangeDrawSystemPreferenceLimitAction_undo_def Let_def)
qed

subsection \<open>Properties\<close>

text \<open>
  On a table ordered by its limits, \<open>getPreferredDrawSystem\<close> returns the system of the last row whose limit
  does not exceed the number of players, and of the first row when there is none.
\<close>
theorem preferred_draw_system:
  assumes "preferences_inv p"
  shows "getPreferredDrawSystem p n = Inr (drawSystem (last (hd (mPreferredDrawSystems p) #
    filter (\<lambda>row. playerLowerLimit row \<le> n) (mPreferredDrawSystems p))))"
proof -
  define rows where "rows = mPreferredDrawSystems p"
  have "rows ! preferredRow rows n i = last (hd rows # filter (\<lambda>row. playerLowerLimit row \<le> n) (take (Suc i) rows))"
    if "i < length rows" for i
    using that
  proof (induction i)
    case 0
    then show ?case by (cases rows) auto
  next
    case (Suc i)
    then have "take (Suc (Suc i)) rows = take (Suc i) rows @ [rows ! Suc i]" by (simp add: take_Suc_conv_app_nth)
    with Suc show ?case by auto
  qed
  from this[of "length rows - 1"] assms show ?thesis
    by (cases "rows = []") (auto simp: getPreferredDrawSystem_def Let_def preferences_inv_def rows_def)
qed

lemma preferences_inv_new: "preferences_inv newPreferencesStore"
  by (simp add: preferences_inv_def newPreferencesStore_def limits_def newDrawSystemPreference_def)

theorem preferred_draw_system_witness:
  "getPreferredDrawSystem newPreferencesStore 5 = Inr POOL"
  unfolding preferred_draw_system[OF preferences_inv_new]
  by (simp add: newPreferencesStore_def newDrawSystemPreference_def)

text \<open>
  Every action on the table keeps it non-empty and ordered by its limits, the change of a limit by
  capping the rows above and below.
\<close>
theorem preference_actions_keep_order:
  assumes "preferences_inv p"
  shows "preferences_inv (AddDrawSystemPreferenceRow_redo row p) \<and>
    preferences_inv (snd (EraseDrawSystemPreferenceRow_redo a p)) \<and>
    preferences_inv (snd (ChangeDrawSystemPreferenceIdentifierAction_redo b p)) \<and>
    preferences_inv (snd (ChangeDrawSystemPreferenceLimitAction_redo c p))"
  using assms preferences_inv_add preferences_inv_erase preferences_inv_identifier preferences_inv_limit
  by blast

theorem preference_actions_keep_order_witness:
  "preferences_inv (AddDrawSystemPreferenceRow_redo 2 newPreferencesStore)"
  using preference_actions_keep_order[OF preferences_inv_new] by blast

text \<open>
  Undoing an added row, an erased row (that existed), a change of a limit (by a fresh action) and a
  change of the scoreboard style restores the preferences.
\<close>
theorem preference_actions_undo:
  "(row \<noteq> 0 \<and> row \<le> length (mPreferredDrawSystems p) \<longrightarrow>
      AddDrawSystemPreferenceRow_undo row (AddDrawSystemPreferenceRow_redo row p) = Inr p) \<and>
   (mEraseRow a < length (mPreferredDrawSystems p) \<longrightarrow>
      (case EraseDrawSystemPreferenceRow_redo a p of (a', p') \<Rightarrow> EraseDrawSystemPreferenceRow_undo a' p') = Inr p) \<and>
   (mPrevAboveLimits c = [] \<and> mPrevBelowLimits c = [] \<longrightarrow>
      (case ChangeDrawSystemPreferenceLimitAction_redo c p of
         (c', p') \<Rightarrow> ChangeDrawSystemPreferenceLimitAction_undo c' p') = Inr p) \<and>
   (case ChangeScoreboardStylePreferenceAction_redo d p of
      (d', p') \<Rightarrow> ChangeScoreboardStylePreferenceAction_undo d' p') = Inr p"
proof -
  have "AddDrawSystemPreferenceRow_undo row (AddDrawSystemPreferenceRow_redo row p) = Inr p"
    if "row \<noteq> 0 \<and> row \<le> length (mPreferredDrawSystems p)"
    using that by (auto simp: AddDrawSystemPreferenceRow_undo_def AddDrawSystemPreferenceRow_redo_def Let_def
        intro!: updateRows_id)
  moreover have "(case EraseDrawSystemPreferenceRow_redo a p of (a', p') \<Rightarrow> EraseDrawSystemPreferenceRow_undo a' p') = Inr p"
    if "mEraseRow a < length (mPreferredDrawSystems p)"
    using that by (auto simp: EraseDrawSystemPreferenceRow_undo_def EraseDrawSystemPreferenceRow_redo_def Let_def
        erase_at_def insert_at_def updateRows_def id_take_nth_drop[symmetric])
  moreover have "(case ChangeDrawSystemPreferenceLimitAction_redo c p of
         (c', p') \<Rightarrow> ChangeDrawSystemPreferenceLimitAction_undo c' p') = Inr p"
    if "mPrevAboveLimits c = [] \<and> mPrevBelowLimits c = []"
    using that limit_action_undo_redo[of c p] by (auto split: prod.split)
  moreover have "(case ChangeScoreboardStylePreferenceAction_redo d p of
      (d', p') \<Rightarrow> ChangeScoreboardStylePreferenceAction_undo d' p') = Inr p"
    by (auto simp: ChangeScoreboardStylePreferenceAction_redo_def ChangeScoreboardStylePreferenceAction_undo_def
        Let_def store_simps)
  ultimately show ?thesis by blast
qed

theorem preference_actions_undo_witness:
  "AddDrawSystemPreferenceRow_undo 3 (AddDrawSystemPreferenceRow_redo 3 newPreferencesStore) = Inr newPreferencesStore"
proof -
  have "3 \<noteq> (0::nat) \<and> 3 \<le> length (mPreferredDrawSystems newPreferencesStore)"
    by (simp add: newPreferencesStore_def)
  then show ?thesis using preference_actions_undo by blast
qed

text \<open>
  Undoing a change of a draw system does not restore it: \<^verbatim>\<open>undoImpl\<close> writes the new identifier again
  instead of \<^verbatim>\<open>mPrevIdentifier\<close>, so the table keeps the change.
\<close>
theorem identifier_undo_keeps_change:
  assumes "ChangeDrawSystemPreferenceIdentifierAction_redo a p = (a', p')"
  shows "ChangeDrawSystemPreferenceIdentifierAction_undo a' p' = p'"
  using assms
  by (auto simp: ChangeDrawSystemPreferenceIdentifierAction_redo_def ChangeDrawSystemPreferenceIdentifierAction_undo_def
      Let_def setRowSystem_def intro!: updateRows_id split: if_splits)

theorem identifier_undo_keeps_change_witness:
  "\<exists>a' p'. ChangeDrawSystemPreferenceIdentifierAction_redo
      \<lparr>mIdentifierRow = 1, mIdentifier = DOUBLE_POOL, mPrevIdentifier = None\<rparr> newPreferencesStore = (a', p') \<and>
    ChangeDrawSystemPreferenceIdentifierAction_undo a' p' = p' \<and> p' \<noteq> newPreferencesStore"
proof -
  obtain a' p' where r: "ChangeDrawSystemPreferenceIdentifierAction_redo
      \<lparr>mIdentifierRow = 1, mIdentifier = DOUBLE_POOL, mPrevIdentifier = None\<rparr> newPreferencesStore = (a', p')"
    by (cases "ChangeDrawSystemPreferenceIdentifierAction_redo
      \<lparr>mIdentifierRow = 1, mIdentifier = DOUBLE_POOL, mPrevIdentifier = None\<rparr> newPreferencesStore")
  then have "p' \<noteq> newPreferencesStore"
    by (auto simp: ChangeDrawSystemPreferenceIdentifierAction_redo_def newPreferencesStore_def Let_def
        updateRows_def setRowSystem_def newDrawSystemPreference_def)
  with r identifier_undo_keeps_change[OF r] show ?thesis by blast
qed

text \<open>
  The limit of the first row does not stay 1, as the comment in \<^verbatim>\<open>redoImpl\<close> says it should: lowering
  the limit of the second row below 1 lowers the first one with it.
\<close>
theorem first_limit_can_change:
  "map playerLowerLimit (mPreferredDrawSystems (snd (ChangeDrawSystemPreferenceLimitAction_redo
     \<lparr>mLimitRow = 1, mLimit = 0, mPrevAboveLimits = [], mPrevBelowLimits = []\<rparr> newPreferencesStore))) = [0, 0, 6]"
  by (simp add: ChangeDrawSystemPreferenceLimitAction_redo_def newPreferencesStore_def Let_def
      newDrawSystemPreference_def setRowLimit_def updateRows_def)

end
