(* ===== verification/Player_Store.thy ===== *)
theory Player_Store
  imports Ids
begin

section \<open>The player store\<close>

text \<open>
  Models \<^verbatim>\<open>src/core/stores/player_store.hpp\<close>, \<^verbatim>\<open>player_store.cpp\<close> and the value classes of the fields
  (\<^verbatim>\<open>player_age\<close>, \<^verbatim>\<open>player_rank\<close>, \<^verbatim>\<open>player_sex\<close>, \<^verbatim>\<open>player_country\<close>, \<^verbatim>\<open>player_weight\<close>). The constructors of
  the value classes throw \<^verbatim>\<open>std::invalid_argument\<close> out of range. A weight (\<^verbatim>\<open>float\<close>) is an exact rational: the
  code stores, copies and compares weights and subtracts two of them once, where rounding is below the
  tolerance of the comparison. The hash sets of categories and matches are sets.
\<close>

subsection \<open>Value classes\<close>

datatype PlayerAge = PlayerAge (age_toInt: int)

definition newPlayerAge :: "int \<Rightarrow> PlayerAge result" where
  "newPlayerAge v = (if v < 0 \<or> v > 255 then Inl InvalidArgument else Inr (PlayerAge v))"

datatype PlayerWeight = PlayerWeight (weight_toFloat: rat)

definition newPlayerWeight :: "rat \<Rightarrow> PlayerWeight result" where
  "newPlayerWeight v = (if v < 0 \<or> v > 400 then Inl InvalidArgument else Inr (PlayerWeight v))"

datatype PlayerRank =
    KYU_6 | KYU_5 | KYU_4 | KYU_3 | KYU_2 | KYU_1 | DAN_1 | DAN_2 | DAN_3 | DAN_4
  | DAN_5 | DAN_6 | DAN_7 | DAN_8 | DAN_9 | DAN_10

definition rank_enum :: "PlayerRank list" where
  "rank_enum = [KYU_6, KYU_5, KYU_4, KYU_3, KYU_2, KYU_1, DAN_1, DAN_2, DAN_3, DAN_4,
     DAN_5, DAN_6, DAN_7, DAN_8, DAN_9, DAN_10]"

definition rank_toInt :: "PlayerRank \<Rightarrow> int" where
  "rank_toInt r = int (index_of r rank_enum)"

definition newPlayerRank :: "int \<Rightarrow> PlayerRank result" where
  "newPlayerRank v = (if v < 0 \<or> v \<ge> 16 then Inl InvalidArgument else nthE rank_enum (nat v))"

definition rank_values :: "PlayerRank result list" where
  "rank_values = map (\<lambda>i. nthE rank_enum i) [0..<16]"

fun rank_toString :: "PlayerRank \<Rightarrow> string" where
  "rank_toString KYU_6 = ''KYU_6''"
| "rank_toString KYU_5 = ''KYU_5''"
| "rank_toString KYU_4 = ''KYU_4''"
| "rank_toString KYU_3 = ''KYU_3''"
| "rank_toString KYU_2 = ''KYU_2''"
| "rank_toString KYU_1 = ''KYU_1''"
| "rank_toString DAN_1 = ''DAN_1''"
| "rank_toString DAN_2 = ''DAN_2''"
| "rank_toString DAN_3 = ''DAN_3''"
| "rank_toString DAN_4 = ''DAN_4''"
| "rank_toString DAN_5 = ''DAN_5''"
| "rank_toString DAN_6 = ''DAN_6''"
| "rank_toString DAN_7 = ''DAN_7''"
| "rank_toString DAN_8 = ''DAN_8''"
| "rank_toString DAN_9 = ''DAN_9''"
| "rank_toString DAN_10 = ''DAN_10''"

datatype PlayerSex = MALE | FEMALE

definition sex_toInt :: "PlayerSex \<Rightarrow> int" where
  "sex_toInt s = (case s of MALE \<Rightarrow> 0 | FEMALE \<Rightarrow> 1)"

definition newPlayerSex :: "int \<Rightarrow> PlayerSex result" where
  "newPlayerSex v = (if v < 0 \<or> v > 1 then Inl InvalidArgument else Inr (if v = 0 then MALE else FEMALE))"

datatype PlayerCountry = DENMARK | FRANCE

definition country_toInt :: "PlayerCountry \<Rightarrow> int" where
  "country_toInt c = (case c of DENMARK \<Rightarrow> 0 | FRANCE \<Rightarrow> 1)"

definition newPlayerCountry :: "int \<Rightarrow> PlayerCountry result" where
  "newPlayerCountry v = (if v < 0 \<or> v \<ge> 2 then Inl InvalidArgument else Inr (if v = 0 then DENMARK else FRANCE))"

subsection \<open>Players\<close>

record PlayerFields =
  firstName :: string
  lastName :: string
  age :: "PlayerAge option"
  rank :: "PlayerRank option"
  club :: string
  weight :: "PlayerWeight option"
  country :: "PlayerCountry option"
  sex :: "PlayerSex option"
  blueJudogiHint :: bool

record PlayerStore =
  mPlayerId :: PlayerId
  mFields :: PlayerFields
  mPlayerCategories :: "CategoryId set"
  mPlayerMatches :: "CombinedId set"

definition newPlayerStore :: "PlayerId \<Rightarrow> PlayerFields \<Rightarrow> PlayerStore" where
  "newPlayerStore i fs = \<lparr>mPlayerId = i, mFields = fs, mPlayerCategories = {}, mPlayerMatches = {}\<rparr>"

definition getFirstName :: "PlayerStore \<Rightarrow> string" where
  [store_simps]: "getFirstName p = firstName (mFields p)"

definition getLastName :: "PlayerStore \<Rightarrow> string" where
  [store_simps]: "getLastName p = lastName (mFields p)"

definition getAge :: "PlayerStore \<Rightarrow> PlayerAge option" where
  [store_simps]: "getAge p = age (mFields p)"

definition getWeight :: "PlayerStore \<Rightarrow> PlayerWeight option" where
  [store_simps]: "getWeight p = weight (mFields p)"

definition getRank :: "PlayerStore \<Rightarrow> PlayerRank option" where
  [store_simps]: "getRank p = rank (mFields p)"

definition getCountry :: "PlayerStore \<Rightarrow> PlayerCountry option" where
  [store_simps]: "getCountry p = country (mFields p)"

definition getClub :: "PlayerStore \<Rightarrow> string" where
  [store_simps]: "getClub p = club (mFields p)"

definition getSex :: "PlayerStore \<Rightarrow> PlayerSex option" where
  [store_simps]: "getSex p = sex (mFields p)"

definition getBlueJudogiHint :: "PlayerStore \<Rightarrow> bool" where
  [store_simps]: "getBlueJudogiHint p = blueJudogiHint (mFields p)"

definition setFirstName :: "string \<Rightarrow> PlayerStore \<Rightarrow> PlayerStore" where
  [store_simps]: "setFirstName v p = p\<lparr>mFields := (mFields p)\<lparr>firstName := v\<rparr>\<rparr>"

definition setLastName :: "string \<Rightarrow> PlayerStore \<Rightarrow> PlayerStore" where
  [store_simps]: "setLastName v p = p\<lparr>mFields := (mFields p)\<lparr>lastName := v\<rparr>\<rparr>"

definition setAge :: "PlayerAge option \<Rightarrow> PlayerStore \<Rightarrow> PlayerStore" where
  [store_simps]: "setAge v p = p\<lparr>mFields := (mFields p)\<lparr>age := v\<rparr>\<rparr>"

definition setWeight :: "PlayerWeight option \<Rightarrow> PlayerStore \<Rightarrow> PlayerStore" where
  [store_simps]: "setWeight v p = p\<lparr>mFields := (mFields p)\<lparr>weight := v\<rparr>\<rparr>"

definition setRank :: "PlayerRank option \<Rightarrow> PlayerStore \<Rightarrow> PlayerStore" where
  [store_simps]: "setRank v p = p\<lparr>mFields := (mFields p)\<lparr>rank := v\<rparr>\<rparr>"

definition setCountry :: "PlayerCountry option \<Rightarrow> PlayerStore \<Rightarrow> PlayerStore" where
  [store_simps]: "setCountry v p = p\<lparr>mFields := (mFields p)\<lparr>country := v\<rparr>\<rparr>"

definition setClub :: "string \<Rightarrow> PlayerStore \<Rightarrow> PlayerStore" where
  [store_simps]: "setClub v p = p\<lparr>mFields := (mFields p)\<lparr>club := v\<rparr>\<rparr>"

definition setSex :: "PlayerSex option \<Rightarrow> PlayerStore \<Rightarrow> PlayerStore" where
  [store_simps]: "setSex v p = p\<lparr>mFields := (mFields p)\<lparr>sex := v\<rparr>\<rparr>"

definition setBlueJudogiHint :: "bool \<Rightarrow> PlayerStore \<Rightarrow> PlayerStore" where
  [store_simps]: "setBlueJudogiHint v p = p\<lparr>mFields := (mFields p)\<lparr>blueJudogiHint := v\<rparr>\<rparr>"

text \<open>The references of a player to the categories and matches it takes part in.\<close>

definition player_containsCategory :: "CategoryId \<Rightarrow> PlayerStore \<Rightarrow> bool" where
  [store_simps]: "player_containsCategory c p \<longleftrightarrow> c \<in> mPlayerCategories p"

definition player_addCategory :: "CategoryId \<Rightarrow> PlayerStore \<Rightarrow> PlayerStore result" where
  "player_addCategory c p =
     assertE (c \<notin> mPlayerCategories p) (Inr (p\<lparr>mPlayerCategories := insert c (mPlayerCategories p)\<rparr>))"

definition player_eraseCategory :: "CategoryId \<Rightarrow> PlayerStore \<Rightarrow> PlayerStore result" where
  "player_eraseCategory c p =
     assertE (c \<in> mPlayerCategories p) (Inr (p\<lparr>mPlayerCategories := mPlayerCategories p - {c}\<rparr>))"

definition player_containsMatch :: "CombinedId \<Rightarrow> PlayerStore \<Rightarrow> bool" where
  [store_simps]: "player_containsMatch m p \<longleftrightarrow> m \<in> mPlayerMatches p"

definition player_addMatch :: "CombinedId \<Rightarrow> PlayerStore \<Rightarrow> PlayerStore result" where
  "player_addMatch m p =
     assertE (m \<notin> mPlayerMatches p) (Inr (p\<lparr>mPlayerMatches := insert m (mPlayerMatches p)\<rparr>))"

definition player_eraseMatch :: "CombinedId \<Rightarrow> PlayerStore \<Rightarrow> PlayerStore" where
  "player_eraseMatch m p = p\<lparr>mPlayerMatches := mPlayerMatches p - {m}\<rparr>"

subsection \<open>Fields as lenses\<close>

text \<open>
  A field of a store is a getter and a setter with the usual three laws. The actions that change one field of
  several players or categories rely on nothing else.
\<close>

locale store_field =
  fixes get :: "'s \<Rightarrow> 'v" and put :: "'v \<Rightarrow> 's \<Rightarrow> 's"
  assumes get_put [simp]: "get (put v s) = v"
    and put_get [simp]: "put (get s) s = s"
    and put_put [simp]: "put v (put w s) = put v s"
begin

lemma restore: "put (get s) (put v s) = s"
  by simp

end

interpretation first_name: store_field getFirstName setFirstName by unfold_locales (simp_all add: store_simps)
interpretation last_name: store_field getLastName setLastName by unfold_locales (simp_all add: store_simps)
interpretation player_age: store_field getAge setAge by unfold_locales (simp_all add: store_simps)
interpretation player_weight: store_field getWeight setWeight by unfold_locales (simp_all add: store_simps)
interpretation player_rank: store_field getRank setRank by unfold_locales (simp_all add: store_simps)
interpretation player_country: store_field getCountry setCountry by unfold_locales (simp_all add: store_simps)
interpretation player_club: store_field getClub setClub by unfold_locales (simp_all add: store_simps)
interpretation player_sex: store_field getSex setSex by unfold_locales (simp_all add: store_simps)
interpretation blue_judogi: store_field getBlueJudogiHint setBlueJudogiHint by unfold_locales (simp_all add: store_simps)

subsection \<open>Properties of the value classes\<close>

lemma index_rank_enum: "index_of r rank_enum < 16 \<and> rank_enum ! index_of r rank_enum = r"
  by (cases r) (simp_all add: rank_enum_def)

text \<open>
  The conversions of ranks, sexes and countries to integers are inverted by the constructors, which reject
  exactly the integers that no value has.
\<close>
theorem player_enums_roundtrip:
  "newPlayerRank (rank_toInt r) = Inr r \<and> newPlayerSex (sex_toInt s) = Inr s \<and>
   newPlayerCountry (country_toInt c) = Inr c \<and>
   (newPlayerRank v = Inl InvalidArgument \<longleftrightarrow> v \<notin> range rank_toInt) \<and>
   (newPlayerSex v = Inl InvalidArgument \<longleftrightarrow> v \<notin> range sex_toInt) \<and>
   (newPlayerCountry v = Inl InvalidArgument \<longleftrightarrow> v \<notin> range country_toInt)"
proof -
  have rank: "newPlayerRank (rank_toInt r) = Inr r" for r
    using index_rank_enum[of r] by (simp add: newPlayerRank_def rank_toInt_def nthE_def rank_enum_def)
  have sex: "newPlayerSex (sex_toInt s) = Inr s" for s by (cases s) (simp_all add: newPlayerSex_def sex_toInt_def)
  have country: "newPlayerCountry (country_toInt c) = Inr c" for c
    by (cases c) (simp_all add: newPlayerCountry_def country_toInt_def)
  have rr: "v \<in> range rank_toInt" if "0 \<le> v" "v < 16"
  proof -
    have "rank_toInt (rank_enum ! nat v) = v"
      using that index_of_nth[of rank_enum "nat v"] by (simp add: rank_toInt_def rank_enum_def)
    then show ?thesis by (metis rangeI)
  qed
  have rs: "v \<in> range sex_toInt" if "0 \<le> v" "v < 2"
    using that by (intro range_eqI[of _ _ "if v = 0 then MALE else FEMALE"]) (auto simp: sex_toInt_def)
  have rc: "v \<in> range country_toInt" if "0 \<le> v" "v < 2"
    using that by (intro range_eqI[of _ _ "if v = 0 then DENMARK else FRANCE"]) (auto simp: country_toInt_def)
  have "newPlayerRank v = Inl InvalidArgument \<longleftrightarrow> v \<notin> range rank_toInt"
  proof (cases "v \<in> range rank_toInt")
    case True
    then show ?thesis using rank by force
  qed (use rr in \<open>auto simp: newPlayerRank_def\<close>)
  moreover have "newPlayerSex v = Inl InvalidArgument \<longleftrightarrow> v \<notin> range sex_toInt"
  proof (cases "v \<in> range sex_toInt")
    case True
    then show ?thesis using sex by force
  qed (use rs in \<open>auto simp: newPlayerSex_def\<close>)
  moreover have "newPlayerCountry v = Inl InvalidArgument \<longleftrightarrow> v \<notin> range country_toInt"
  proof (cases "v \<in> range country_toInt")
    case True
    then show ?thesis using country by force
  qed (use rc in \<open>auto simp: newPlayerCountry_def\<close>)
  ultimately show ?thesis using rank sex country by simp
qed

end
