(* ===== verification/Category_Store.thy ===== *)
theory Category_Store
  imports Rulesets Position_Manager Preferences_Store Player_Store
begin

section \<open>The category store\<close>

text \<open>
  Models \<^verbatim>\<open>src/core/stores/category_store.hpp\<close> and \<^verbatim>\<open>category_store.cpp\<close>, the locations of
  \<^verbatim>\<open>src/core/stores/tatami/location.hpp\<close>, and the data members of the draw systems
  (\<^verbatim>\<open>src/core/draw_systems\<close>), of which a category owns one; their operations are in the theory \<open>Draw_Systems\<close>.

  The counters are unsigned: increments are additions (a counter never exceeds the number of matches in
  memory), decrements wrap around at zero and are written \<open>decr\<close>.
\<close>

subsection \<open>Locations\<close>

datatype TatamiLocation = TatamiLocation (tatami_handle: PositionHandle)

datatype ConcurrentGroupLocation =
  ConcurrentGroupLocation (loc_tatami: TatamiLocation) (concurrent_handle: PositionHandle)

datatype SequentialGroupLocation =
  SequentialGroupLocation (concurrentGroup: ConcurrentGroupLocation) (sequential_handle: PositionHandle)

datatype BlockLocation = BlockLocation (sequentialGroup: SequentialGroupLocation) (pos: nat)

text \<open>The comparison operators, which ignore the indices in the handles.\<close>

definition TatamiLocation_eq :: "TatamiLocation \<Rightarrow> TatamiLocation \<Rightarrow> bool" where
  "TatamiLocation_eq a b \<longleftrightarrow> handle_eq (tatami_handle a) (tatami_handle b)"

definition ConcurrentGroupLocation_eq :: "ConcurrentGroupLocation \<Rightarrow> ConcurrentGroupLocation \<Rightarrow> bool" where
  "ConcurrentGroupLocation_eq a b \<longleftrightarrow>
     handle_eq (concurrent_handle a) (concurrent_handle b) \<and> TatamiLocation_eq (loc_tatami a) (loc_tatami b)"

definition SequentialGroupLocation_eq :: "SequentialGroupLocation \<Rightarrow> SequentialGroupLocation \<Rightarrow> bool" where
  "SequentialGroupLocation_eq a b \<longleftrightarrow>
     handle_eq (sequential_handle a) (sequential_handle b) \<and>
     ConcurrentGroupLocation_eq (concurrentGroup a) (concurrentGroup b)"

definition BlockLocation_eq :: "BlockLocation \<Rightarrow> BlockLocation \<Rightarrow> bool" where
  "BlockLocation_eq a b \<longleftrightarrow>
     pos a = pos b \<and> SequentialGroupLocation_eq (sequentialGroup a) (sequentialGroup b)"

definition getTatamiHandle :: "BlockLocation \<Rightarrow> PositionHandle" where
  "getTatamiHandle l = tatami_handle (loc_tatami (concurrentGroup (sequentialGroup l)))"

definition getConcurrentGroupHandle :: "BlockLocation \<Rightarrow> PositionHandle" where
  "getConcurrentGroupHandle l = concurrent_handle (concurrentGroup (sequentialGroup l))"

definition getSequentialGroupHandle :: "BlockLocation \<Rightarrow> PositionHandle" where
  "getSequentialGroupHandle l = sequential_handle (sequentialGroup l)"

subsection \<open>Data of the draw systems\<close>

record PoolDrawSystem =
  mPoolMatches :: "MatchId list"
  mPoolPlayers :: "PlayerId list"
  mComposited :: bool

record DoublePoolDrawSystem =
  mDoublePoolMatches :: "MatchId list"
  mDoublePoolPlayers :: "PlayerId list"
  mFirstPool :: "PoolDrawSystem option"
  mSecondPool :: "PoolDrawSystem option"

record BestOfThreeDrawSystem =
  mBestOfThreeMatches :: "MatchId list"
  mBestOfThreePlayers :: "PlayerId list"

datatype DrawSystem =
    PoolSystem PoolDrawSystem
  | DoublePoolSystem DoublePoolDrawSystem
  | BestOfThreeSystem BestOfThreeDrawSystem

subsection \<open>The status of a block of a category\<close>

record CategoryStatus =
  notStartedMatches :: nat
  startedMatches :: nat
  finishedMatches :: nat

definition newCategoryStatus :: CategoryStatus where
  "newCategoryStatus = \<lparr>notStartedMatches = 0, startedMatches = 0, finishedMatches = 0\<rparr>"

definition CategoryStatus_plus :: "CategoryStatus \<Rightarrow> CategoryStatus \<Rightarrow> CategoryStatus" where
  "CategoryStatus_plus a b = \<lparr>notStartedMatches = notStartedMatches a + notStartedMatches b,
     startedMatches = startedMatches a + startedMatches b,
     finishedMatches = finishedMatches a + finishedMatches b\<rparr>"

definition status_isFinished :: "CategoryStatus \<Rightarrow> bool" where
  "status_isFinished s \<longleftrightarrow> notStartedMatches s = 0 \<and> startedMatches s = 0"

definition status_isStarted :: "CategoryStatus \<Rightarrow> bool" where
  "status_isStarted s \<longleftrightarrow> startedMatches s > 0 \<or> finishedMatches s > 0"

text \<open>\<^verbatim>\<open>--x\<close> on an unsigned integer of \<open>w\<close> bits.\<close>

definition decr :: "nat \<Rightarrow> nat \<Rightarrow> nat" where
  "decr w x = (if x = 0 then 2 ^ w - 1 else x - 1)"

lemma decr_pos [simp]: "0 < x \<Longrightarrow> decr w x = x - 1"
  by (simp add: decr_def)

subsection \<open>Categories\<close>

record CategoryStore =
  mCategoryId :: CategoryId
  mCategoryName :: string
  mCategoryPlayers :: "PlayerId set"
  mMatches :: "MatchStore list"
  mMatchMap :: "MatchId \<rightharpoonup> nat"
  mMatchCount :: "MatchType \<Rightarrow> nat"
  mStatus :: "MatchType \<Rightarrow> CategoryStatus"
  mLocation :: "MatchType \<Rightarrow> BlockLocation option"
  mRuleset :: Ruleset
  mDrawSystem :: DrawSystem
  mMatchesHidden :: bool

definition MIN_EXPECTED_DURATION :: int where
  "MIN_EXPECTED_DURATION = 6 * 60000"

definition newCategoryStore :: "CategoryId \<Rightarrow> string \<Rightarrow> Ruleset \<Rightarrow> DrawSystem \<Rightarrow> CategoryStore" where
  "newCategoryStore i name r d =
     \<lparr>mCategoryId = i, mCategoryName = name, mCategoryPlayers = {}, mMatches = [], mMatchMap = Map.empty,
      mMatchCount = (\<lambda>_. 0), mStatus = (\<lambda>_. newCategoryStatus), mLocation = (\<lambda>_. None),
      mRuleset = r, mDrawSystem = d, mMatchesHidden = False\<rparr>"

definition match_getId :: "MatchStore \<Rightarrow> MatchId" where
  "match_getId m = getMatchId (mCombinedId m)"

definition category_erasePlayer :: "PlayerId \<Rightarrow> CategoryStore \<Rightarrow> CategoryStore result" where
  "category_erasePlayer p c =
     assertE (p \<in> mCategoryPlayers c) (Inr (c\<lparr>mCategoryPlayers := mCategoryPlayers c - {p}\<rparr>))"

definition category_addPlayer :: "PlayerId \<Rightarrow> CategoryStore \<Rightarrow> CategoryStore result" where
  "category_addPlayer p c =
     assertE (p \<notin> mCategoryPlayers c) (Inr (c\<lparr>mCategoryPlayers := insert p (mCategoryPlayers c)\<rparr>))"

definition category_containsPlayer :: "PlayerId \<Rightarrow> CategoryStore \<Rightarrow> bool" where
  [store_simps]: "category_containsPlayer p c \<longleftrightarrow> p \<in> mCategoryPlayers c"

definition category_getName :: "CategoryStore \<Rightarrow> string" where
  [store_simps]: "category_getName c = mCategoryName c"

definition category_setName :: "string \<Rightarrow> CategoryStore \<Rightarrow> CategoryStore" where
  [store_simps]: "category_setName n c = c\<lparr>mCategoryName := n\<rparr>"

text \<open>The setters of the owned objects return the old object.\<close>

definition category_setRuleset :: "Ruleset \<Rightarrow> CategoryStore \<Rightarrow> Ruleset \<times> CategoryStore" where
  "category_setRuleset r c = (mRuleset c, c\<lparr>mRuleset := r\<rparr>)"

definition category_setDrawSystem :: "DrawSystem \<Rightarrow> CategoryStore \<Rightarrow> DrawSystem \<times> CategoryStore" where
  "category_setDrawSystem d c = (mDrawSystem c, c\<lparr>mDrawSystem := d\<rparr>)"

definition containsMatch :: "MatchId \<Rightarrow> CategoryStore \<Rightarrow> bool" where
  "containsMatch i c \<longleftrightarrow> mMatchMap c i \<noteq> None"

definition getMatch :: "MatchId \<Rightarrow> CategoryStore \<Rightarrow> MatchStore result" where
  "getMatch i c = (case mMatchMap c i of None \<Rightarrow> Inl AssertionFailed | Some k \<Rightarrow> nthE (mMatches c) k)"

text \<open>Assignment through the reference that the non-const \<^verbatim>\<open>getMatch\<close> returns.\<close>

definition putMatch :: "MatchId \<Rightarrow> MatchStore \<Rightarrow> CategoryStore \<Rightarrow> CategoryStore result" where
  "putMatch i m c =
     (case mMatchMap c i of
        None \<Rightarrow> Inl AssertionFailed
      | Some k \<Rightarrow> if k < length (mMatches c) then Inr (c\<lparr>mMatches := (mMatches c)[k := m]\<rparr>)
                  else Inl UndefinedBehaviour)"

definition getMatchPosition :: "MatchId \<Rightarrow> CategoryStore \<Rightarrow> nat result" where
  "getMatchPosition i c = (case mMatchMap c i of None \<Rightarrow> Inl AssertionFailed | Some k \<Rightarrow> Inr k)"

definition pushMatch :: "MatchStore \<Rightarrow> CategoryStore \<Rightarrow> CategoryStore result" where
  "pushMatch m c =
     (let c1 = (if \<not> isPermanentBye m
                then c\<lparr>mMatchCount := (mMatchCount c)(mType m := mMatchCount c (mType m) + 1)\<rparr> else c);
          c2 = c1\<lparr>mMatches := mMatches c1 @ [m]\<rparr>
      in assertE (mMatchMap c2 (match_getId m) = None)
           (Inr (c2\<lparr>mMatchMap := (mMatchMap c2)(match_getId m \<mapsto> length (mMatches c2) - 1)\<rparr>)))"

definition popMatch :: "CategoryStore \<Rightarrow> (MatchStore \<times> CategoryStore) result" where
  "popMatch c =
     (if mMatches c = [] then Inl UndefinedBehaviour
      else let m = last (mMatches c)
           in Inr (m, c\<lparr>mMatches := butlast (mMatches c), mMatchMap := (mMatchMap c)(match_getId m := None),
                mMatchCount := (mMatchCount c)(mType m := decr 64 (mMatchCount c (mType m)))\<rparr>))"

definition clearMatches :: "CategoryStore \<Rightarrow> MatchStore list \<times> CategoryStore" where
  "clearMatches c = (mMatches c, c\<lparr>mMatches := [], mMatchMap := Map.empty, mMatchCount := (\<lambda>_. 0)\<rparr>)"

definition getMatchCount :: "CategoryStore \<Rightarrow> MatchType \<Rightarrow> nat" where
  [store_simps]: "getMatchCount c t = mMatchCount c t"

definition category_getLocation :: "CategoryStore \<Rightarrow> MatchType \<Rightarrow> BlockLocation option" where
  [store_simps]: "category_getLocation c t = mLocation c t"

definition category_setLocation :: "MatchType \<Rightarrow> BlockLocation option \<Rightarrow> CategoryStore \<Rightarrow> CategoryStore" where
  [store_simps]: "category_setLocation t l c = c\<lparr>mLocation := (mLocation c)(t := l)\<rparr>"

definition category_getStatus :: "CategoryStore \<Rightarrow> MatchType \<Rightarrow> CategoryStatus" where
  [store_simps]: "category_getStatus c t = mStatus c t"

definition category_setStatus :: "MatchType \<Rightarrow> CategoryStatus \<Rightarrow> CategoryStore \<Rightarrow> CategoryStore" where
  [store_simps]: "category_setStatus t s c = c\<lparr>mStatus := (mStatus c)(t := s)\<rparr>"

definition expectedDuration :: "CategoryStore \<Rightarrow> MatchType \<Rightarrow> int" where
  "expectedDuration c t =
     (let d = getExpectedTime (mRuleset c) * int (getMatchCount c t)
      in if d < MIN_EXPECTED_DURATION then MIN_EXPECTED_DURATION else d)"

definition setMatchesHidden :: "bool \<Rightarrow> CategoryStore \<Rightarrow> CategoryStore" where
  [store_simps]: "setMatchesHidden b c = c\<lparr>mMatchesHidden := b\<rparr>"

definition areMatchesHidden :: "CategoryStore \<Rightarrow> bool" where
  [store_simps]: "areMatchesHidden c = mMatchesHidden c"

definition category_isStarted :: "CategoryStore \<Rightarrow> bool" where
  "category_isStarted c \<longleftrightarrow> status_isStarted (category_getStatus c FINAL) \<or> status_isStarted (category_getStatus c ELIMINATION)"

subsection \<open>Invariant of the list of matches\<close>

text \<open>
  The map locates every match, and the counters count the matches of each type that are not permanent byes.
\<close>

definition countMatches :: "MatchType \<Rightarrow> MatchStore list \<Rightarrow> nat" where
  "countMatches t ms = length (filter (\<lambda>m. mType m = t \<and> \<not> isPermanentBye m) ms)"

definition matches_inv :: "CategoryStore \<Rightarrow> bool" where
  "matches_inv c \<longleftrightarrow> distinct (map match_getId (mMatches c)) \<and>
     (\<forall>i k. mMatchMap c i = Some k \<longleftrightarrow> k < length (mMatches c) \<and> match_getId (mMatches c ! k) = i) \<and>
     (\<forall>t. mMatchCount c t = countMatches t (mMatches c))"

lemma matches_inv_new: "matches_inv (newCategoryStore i n r d)"
  by (simp add: matches_inv_def newCategoryStore_def countMatches_def)

lemma matches_inv_ids: "matches_inv c \<Longrightarrow> mMatchMap c i = Some k \<Longrightarrow> k < length (mMatches c) \<and> match_getId (mMatches c ! k) = i"
  by (simp add: matches_inv_def)

lemma getMatch_eq_Inr:
  assumes "matches_inv c"
  shows "getMatch i c = Inr m \<longleftrightarrow> m \<in> set (mMatches c) \<and> match_getId m = i"
proof
  assume "getMatch i c = Inr m"
  then show "m \<in> set (mMatches c) \<and> match_getId m = i"
    using matches_inv_ids[OF assms] by (auto simp: getMatch_def split: option.splits)
next
  assume m: "m \<in> set (mMatches c) \<and> match_getId m = i"
  then obtain k where "k < length (mMatches c)" "mMatches c ! k = m" by (auto simp: in_set_conv_nth)
  with m have "mMatchMap c i = Some k" using assms by (auto simp: matches_inv_def)
  then show "getMatch i c = Inr m" using \<open>k < length (mMatches c)\<close> \<open>mMatches c ! k = m\<close>
    by (simp add: getMatch_def nthE_def)
qed

lemma putMatch_eq_Inr:
  "putMatch i m c = Inr c' \<longleftrightarrow> (\<exists>k. mMatchMap c i = Some k \<and> k < length (mMatches c) \<and>
     c' = c\<lparr>mMatches := (mMatches c)[k := m]\<rparr>)"
  by (auto simp: putMatch_def split: option.splits if_splits)

interpretation matches: keyed_store matches_inv getMatch putMatch
proof
  fix c c' k k' m
  assume inv: "matches_inv c" and put: "putMatch k m c = Inr c'"
  show "getMatch k c' = Inr m"
    using put by (auto simp: putMatch_eq_Inr getMatch_def nthE_def)
  assume "k' \<noteq> k"
  then show "getMatch k' c' = getMatch k' c"
    using put matches_inv_ids[OF inv, of k] matches_inv_ids[OF inv, of k']
    by (fastforce simp: putMatch_eq_Inr getMatch_def nthE_def nth_list_update split: option.splits)
next
  fix c k w and v :: MatchStore
  assume "matches_inv c" and "getMatch k c = Inr w"
  then show "\<exists>c'. putMatch k v c = Inr c'"
    by (auto simp: putMatch_def getMatch_def split: option.splits)
next
  fix c c' k w and v :: MatchStore
  assume "matches_inv c" and "getMatch k c = Inr w" and "putMatch k v c = Inr c'"
  then show "putMatch k w c' = Inr c"
    by (auto simp: putMatch_eq_Inr getMatch_def split: option.splits)
qed

lemma countMatches_middle:
  "countMatches t (xs @ m # ys) =
     countMatches t xs + (if mType m = t \<and> \<not> isPermanentBye m then 1 else 0) + countMatches t ys"
  by (simp add: countMatches_def)

lemma countMatches_update:
  assumes "k < length ms" and "mType m = mType (ms ! k)" and "mPermanentBye m = mPermanentBye (ms ! k)"
  shows "countMatches t (ms[k := m]) = countMatches t ms"
proof -
  have "countMatches t ms = countMatches t (take k ms @ ms ! k # drop (Suc k) ms)"
    using id_take_nth_drop[OF assms(1)] by simp
  moreover have "countMatches t (ms[k := m]) = countMatches t (take k ms @ m # drop (Suc k) ms)"
    using upd_conv_take_nth_drop[OF assms(1)] by simp
  ultimately show ?thesis using assms(2,3) by (simp add: countMatches_middle isPermanentBye_def)
qed

text \<open>Updating a match in place keeps the invariant when identifier, type and permanent bye are kept.\<close>

lemma matches_inv_putMatch [inv_intros]:
  assumes "matches_inv c" and "getMatch i c = Inr m" and "putMatch i m' c = Inr c'"
    and "mCombinedId m' = mCombinedId m" "mType m' = mType m" "mPermanentBye m' = mPermanentBye m"
  shows "matches_inv c'"
proof -
  from assms(2,3) obtain k where k: "mMatchMap c i = Some k" "k < length (mMatches c)" "m = mMatches c ! k"
    "c' = c\<lparr>mMatches := (mMatches c)[k := m']\<rparr>"
    by (auto simp: putMatch_eq_Inr getMatch_def)
  have "map match_getId ((mMatches c)[k := m']) = map match_getId (mMatches c)"
    using k assms(4) by (simp add: map_update match_getId_def) (metis length_map list_update_id match_getId_def nth_map)
  moreover from this have "match_getId ((mMatches c)[k := m'] ! j) = match_getId (mMatches c ! j)" if "j < length (mMatches c)" for j
    using that by (metis length_list_update nth_map)
  ultimately show ?thesis
    using assms(1,5,6) k by (auto simp: matches_inv_def countMatches_update)
qed

lemma pushMatch_eq_Inr:
  "pushMatch m c = Inr c' \<longleftrightarrow> mMatchMap c (match_getId m) = None \<and>
     c' = c\<lparr>mMatches := mMatches c @ [m], mMatchMap := (mMatchMap c)(match_getId m \<mapsto> length (mMatches c)),
       mMatchCount := (mMatchCount c)(mType m := mMatchCount c (mType m) + (if isPermanentBye m then 0 else 1))\<rparr>"
  by (auto simp: pushMatch_def Let_def)

lemma matches_inv_pushMatch [inv_intros]:
  assumes "matches_inv c" and "pushMatch m c = Inr c'"
  shows "matches_inv c'"
proof -
  have n: "mMatchMap c (match_getId m) = None" using assms(2) by (simp add: pushMatch_eq_Inr)
  have new: "match_getId m \<notin> match_getId ` set (mMatches c)"
  proof
    assume "match_getId m \<in> match_getId ` set (mMatches c)"
    then obtain k where "k < length (mMatches c)" "match_getId (mMatches c ! k) = match_getId m"
      by (metis imageE in_set_conv_nth)
    with n assms(1) show False by (metis matches_inv_def option.distinct(1))
  qed
  have "match_getId (mMatches c ! k) \<noteq> match_getId m" if "k < length (mMatches c)" for k
    using new that by (metis image_eqI nth_mem)
  moreover have "k < length (mMatches c)" if "mMatchMap c i = Some k" for i k
    using assms(1) that by (simp add: matches_inv_def)
  ultimately show ?thesis
    using assms new by (auto simp: matches_inv_def pushMatch_eq_Inr nth_append countMatches_def less_Suc_eq)
qed

lemma matches_inv_clearMatches [inv_intros]: "matches_inv (snd (clearMatches c))"
  by (simp add: matches_inv_def clearMatches_def countMatches_def)

text \<open>
  Popping the match that was just pushed restores the category, if the match is not a permanent bye.
\<close>
theorem popMatch_pushMatch:
  assumes "matches_inv c" and "pushMatch m c = Inr c'" and "\<not> isPermanentBye m"
  shows "matches_inv c' \<and> popMatch c' = Inr (m, c)"
proof -
  have "(mMatchMap c)(match_getId m := None) = mMatchMap c"
    using assms(2) by (auto simp: pushMatch_eq_Inr)
  then show ?thesis using matches_inv_pushMatch[OF assms(1,2)] assms(2,3)
    by (auto simp: pushMatch_eq_Inr popMatch_def Let_def)
qed

definition exampleCategory :: CategoryStore where
  "exampleCategory = newCategoryStore 7 ''U18'' TWENTY_EIGHTEEN
     (PoolSystem \<lparr>mPoolMatches = [], mPoolPlayers = [], mComposited = False\<rparr>)"

theorem popMatch_pushMatch_witness:
  "\<exists>c'. pushMatch (newMatchStore (CombinedId 7 1) FINAL ''Final'' False None None) exampleCategory = Inr c' \<and>
     popMatch c' = Inr (newMatchStore (CombinedId 7 1) FINAL ''Final'' False None None, exampleCategory)"
proof -
  have i: "matches_inv exampleCategory" unfolding exampleCategory_def by (rule matches_inv_new)
  obtain c' where "pushMatch (newMatchStore (CombinedId 7 1) FINAL ''Final'' False None None) exampleCategory = Inr c'"
    by (simp add: pushMatch_eq_Inr exampleCategory_def newCategoryStore_def)
  with popMatch_pushMatch[OF i this] show ?thesis by (simp add: newMatchStore_def isPermanentBye_def)
qed

text \<open>
  For a permanent bye the restored counter is wrong: \<^verbatim>\<open>pushMatch\<close> does not count it but \<^verbatim>\<open>popMatch\<close>
  decrements, and on an empty category the counter wraps around.
\<close>
theorem popMatch_permanent_bye_wraps:
  "bindE (pushMatch (newMatchStore (CombinedId i k) ty title True w b) (newCategoryStore i n r d)) popMatch =
     Inr (newMatchStore (CombinedId i k) ty title True w b,
       (newCategoryStore i n r d)\<lparr>mMatchCount := (\<lambda>_. 0)(ty := 2 ^ 64 - 1)\<rparr>)"
  by (simp add: pushMatch_def popMatch_def newMatchStore_def newCategoryStore_def isPermanentBye_def decr_def
      match_getId_def Let_def)

interpretation category_name: store_field category_getName category_setName
  by unfold_locales (simp_all add: store_simps)

end
