(* ===== verification/Draw_Order.thy ===== *)
theory Draw_Order
  imports Ids
begin

section \<open>The order of the matches of a pool\<close>

text \<open>
  Models \<^verbatim>\<open>PoolDrawSystem::createMatchOrderForEvenNumber\<close> and \<^verbatim>\<open>createMatchOrderForOddNumber\<close>
  (\<^verbatim>\<open>src/core/draw_systems/pool_draw_system.cpp\<close>) and the merge of the matches of two pools in
  \<^verbatim>\<open>DoublePoolDrawSystem::initCategory\<close> with its \<^verbatim>\<open>MergeQueueElement\<close>. The main result is that the even
  schedule lets every two players meet exactly once.
\<close>

subsection \<open>An even number of players\<close>

text \<open>The loop that permutes: every position but the first takes the value of its predecessor.\<close>

fun permuteLoop :: "nat list \<Rightarrow> 'a list \<Rightarrow> 'a \<Rightarrow> 'a list" where
  "permuteLoop [] ids temp = ids"
| "permuteLoop (i # is) ids temp = permuteLoop is (ids[i := temp]) (ids ! i)"

definition permuteIds :: "'a list \<Rightarrow> 'a list" where
  "permuteIds ids = permuteLoop [1..<length ids] ids (last ids)"

definition roundMatches :: "'a list \<Rightarrow> ('a \<times> 'a) list" where
  "roundMatches ids = map (\<lambda>i. (ids ! i, ids ! (length ids - i - 1))) [0..<length ids div 2]"

fun evenRounds :: "nat \<Rightarrow> 'a list \<Rightarrow> ('a \<times> 'a) list" where
  "evenRounds 0 ids = []"
| "evenRounds (Suc r) ids = roundMatches ids @ evenRounds r (permuteIds ids)"

text \<open>
  With no players \<^verbatim>\<open>size() - 1\<close> wraps around and the loop reads \<^verbatim>\<open>back()\<close> of an empty vector; the callers pass
  at least two players.
\<close>

definition createMatchOrderForEvenNumber :: "'a list \<Rightarrow> ('a \<times> 'a) list result" where
  "createMatchOrderForEvenNumber ids =
     assertE (length ids mod 2 = 0)
       (if ids = [] then Inl UndefinedBehaviour else Inr (evenRounds (length ids - 1) ids))"

subsection \<open>An odd number of players\<close>

definition slotOfLast :: "nat \<Rightarrow> nat \<Rightarrow> nat \<times> nat" where
  "slotOfLast k rnd = ((rnd div 2) mod (k + 1), 2 * k + 1 - 1)"

definition slotOfOdd :: "nat \<Rightarrow> nat \<Rightarrow> nat \<Rightarrow> nat \<times> nat" where
  "slotOfOdd k rnd i = ((if rnd \<le> 2 * i then i else i + (rnd - 2 * i)) mod (k + 1), 2 * i - 1 - 1)"

definition slotOfEven :: "nat \<Rightarrow> nat \<Rightarrow> nat \<Rightarrow> nat \<times> nat" where
  "slotOfEven k rnd i = ((i + min rnd (2 * k + 3 - 2 * i) - 1) mod (k + 1), 2 * i - 1)"

definition matchSlots :: "nat \<Rightarrow> nat \<Rightarrow> (nat \<times> nat) list" where
  "matchSlots k rnd = slotOfLast k rnd # map (slotOfOdd k rnd) [1..<k + 1] @ map (slotOfEven k rnd) [1..<k + 1]"

text \<open>
  \<^verbatim>\<open>std::sort\<close> on pairs compares lexicographically; the pairs are distinct, so the result is unique. The
  code pairs the sorted entries 1 and 2, 3 and 4, and so on.
\<close>

fun pairUp :: "'a list \<Rightarrow> ('a \<times> 'a) list" where
  "pairUp (x # y # zs) = (x, y) # pairUp zs"
| "pairUp _ = []"

definition pairLess :: "nat \<times> nat \<Rightarrow> nat \<times> nat \<Rightarrow> bool" where
  "pairLess a b \<longleftrightarrow> fst a < fst b \<or> (fst a = fst b \<and> snd a < snd b)"

fun insertSlot :: "nat \<times> nat \<Rightarrow> (nat \<times> nat) list \<Rightarrow> (nat \<times> nat) list" where
  "insertSlot x [] = [x]"
| "insertSlot x (y # ys) = (if pairLess y x then y # insertSlot x ys else x # y # ys)"

definition sortSlots :: "(nat \<times> nat) list \<Rightarrow> (nat \<times> nat) list" where
  "sortSlots xs = foldr insertSlot xs []"

definition createMatchOrderForOddNumber :: "'a list \<Rightarrow> ('a \<times> 'a) list result" where
  "createMatchOrderForOddNumber ids =
     assertE (length ids mod 2 = 1)
       (let k = length ids div 2
        in Inr (concat (map (\<lambda>rnd. map (\<lambda>(a, b). (ids ! snd a, ids ! snd b))
             (pairUp (tl (sortSlots (matchSlots k rnd))))) [1..<length ids + 1])))"

subsection \<open>The merge of two pools\<close>

text \<open>
  The queue never holds more than two elements. \<open>pq_push\<close> is what \<^verbatim>\<open>std::push_heap\<close> does to a heap
  of at most one element: the new element becomes the top if the old top is less. \<^verbatim>\<open>size_t\<close> products are
  products of naturals: the numbers of matches of a pool are small.
\<close>

record MergeQueueElement =
  merge_index :: nat
  matchCount :: nat
  totalMatchCount :: nat

definition MergeQueueElement_less :: "MergeQueueElement \<Rightarrow> MergeQueueElement \<Rightarrow> bool" where
  "MergeQueueElement_less a b =
     (if matchCount a * totalMatchCount b \<noteq> matchCount b * totalMatchCount a
      then matchCount a * totalMatchCount b > matchCount b * totalMatchCount a
      else if totalMatchCount a < totalMatchCount b then totalMatchCount a < totalMatchCount b
      else merge_index a < merge_index b)"

fun pq_push :: "MergeQueueElement \<Rightarrow> MergeQueueElement list \<Rightarrow> MergeQueueElement list" where
  "pq_push e [] = [e]"
| "pq_push e (a # q) = (if MergeQueueElement_less a e then e # a # q else a # e # q)"

text \<open>
  The loop of \<^verbatim>\<open>initCategory\<close>: \<open>xs\<close> and \<open>ys\<close> are what the two iterators have left. Dereferencing an
  exhausted iterator is undefined; it happens when a pool has no matches.
\<close>

function mergeLoop :: "MergeQueueElement list \<Rightarrow> 'a list \<Rightarrow> 'a list \<Rightarrow> 'a list \<Rightarrow> 'a list result" where
  "mergeLoop [] xs ys acc = Inr acc"
| "mergeLoop (e # q) xs ys acc =
     (let e' = e\<lparr>matchCount := matchCount e + 1\<rparr>;
          q' = (if matchCount e' = totalMatchCount e' then q else pq_push e' q)
      in if merge_index e = 0
         then (case xs of [] \<Rightarrow> Inl UndefinedBehaviour | x # xs' \<Rightarrow> mergeLoop q' xs' ys (acc @ [x]))
         else (case ys of [] \<Rightarrow> Inl UndefinedBehaviour | y # ys' \<Rightarrow> mergeLoop q' xs ys' (acc @ [y])))"
  by pat_completeness auto
termination by (relation "measure (\<lambda>(q, xs, ys, acc). length xs + length ys)") auto

definition mergePools :: "'a list \<Rightarrow> 'a list \<Rightarrow> 'a list result" where
  "mergePools xs ys =
     mergeLoop (pq_push \<lparr>merge_index = 1, matchCount = 0, totalMatchCount = length ys\<rparr>
       (pq_push \<lparr>merge_index = 0, matchCount = 0, totalMatchCount = length xs\<rparr> [])) xs ys []"

subsection \<open>Every two players meet exactly once\<close>

lemma permuteLoop_eq:
  "i \<le> length ids \<Longrightarrow> permuteLoop [i..<length ids] ids t = take i ids @ take (length ids - i) (t # drop i ids)"
proof (induction "length ids - i" arbitrary: i ids t)
  case (Suc d)
  then have i: "i < length ids" by simp
  have "permuteLoop [i..<length ids] ids t = permuteLoop [Suc i..<length (ids[i := t])] (ids[i := t]) (ids ! i)"
    using i by (simp add: upt_conv_Cons)
  also have "\<dots> = take (Suc i) (ids[i := t]) @ take (length ids - Suc i) (ids ! i # drop (Suc i) (ids[i := t]))"
    using Suc by (subst Suc(1)) auto
  also have "\<dots> = take i ids @ t # take (length ids - Suc i) (drop i ids)"
    using i by (simp add: take_Suc_conv_app_nth Cons_nth_drop_Suc)
  also have "\<dots> = take i ids @ take (length ids - i) (t # drop i ids)"
  proof -
    have "length ids - i = Suc (length ids - Suc i)" using i by simp
    then show ?thesis by simp
  qed
  finally show ?case .
qed simp

lemma length_permuteLoop [simp]: "length (permuteLoop is ids t) = length ids"
  by (induction "is" ids t rule: permuteLoop.induct) auto

lemma length_permuteIds [simp]: "length (permuteIds ids) = length ids"
  by (simp add: permuteIds_def)

lemma permuteIds_Cons: "permuteIds (x # xs) = x # take (length xs) (last (x # xs) # xs)"
  using permuteLoop_eq[of 1 "x # xs" "last (x # xs)"] by (simp add: permuteIds_def del: upt_Suc)

lemma permuteIds_nth_0: "ids \<noteq> [] \<Longrightarrow> permuteIds ids ! 0 = ids ! 0"
  by (cases ids) (simp_all add: permuteIds_Cons)

lemma permuteIds_nth_Suc:
  assumes "length ids = Suc m" and "j < m"
  shows "permuteIds ids ! Suc j = ids ! Suc ((j + (m - 1)) mod m)"
proof (cases j)
  case 0
  with assms show ?thesis
    by (cases ids) (auto simp: permuteIds_Cons last_conv_nth)
next
  case (Suc l)
  have "(j + (m - 1)) mod m = l"
    using Suc assms(2) by (simp add: mod_if)
  with Suc assms show ?thesis
    by (cases ids) (auto simp: permuteIds_Cons)
qed

lemma length_permuteIds_funpow [simp]: "length ((permuteIds ^^ r) ids) = length ids"
  by (induction r) simp_all

lemma permuteIds_funpow_0: "ids \<noteq> [] \<Longrightarrow> (permuteIds ^^ r) ids ! 0 = ids ! 0"
proof (induction r)
  case (Suc r)
  have "(permuteIds ^^ r) ids \<noteq> []" using Suc.prems by (metis length_permuteIds_funpow length_0_conv)
  with Suc show ?case by (simp add: permuteIds_nth_0)
qed simp

lemma permuteIds_funpow_Suc:
  assumes "length ids = Suc m" and "j < m"
  shows "(permuteIds ^^ r) ids ! Suc j = ids ! Suc ((j + r * (m - 1)) mod m)"
  using assms(2)
proof (induction r arbitrary: j)
  case (Suc r)
  have "(permuteIds ^^ Suc r) ids ! Suc j = (permuteIds ^^ r) ids ! Suc ((j + (m - 1)) mod m)"
    using assms(1) Suc.prems by (simp add: permuteIds_nth_Suc)
  also have "\<dots> = ids ! Suc (((j + (m - 1)) mod m + r * (m - 1)) mod m)"
    using Suc.prems by (subst Suc.IH) auto
  also have "((j + (m - 1)) mod m + r * (m - 1)) mod m = (j + Suc r * (m - 1)) mod m"
    by (metis mod_add_left_eq add.assoc mult_Suc)
  finally show ?case .
qed simp

lemma evenRounds_eq: "evenRounds n ids = concat (map (\<lambda>r. roundMatches ((permuteIds ^^ r) ids)) [0..<n])"
proof (induction n arbitrary: ids)
  case (Suc n)
  have "[0..<Suc n] = 0 # map Suc [0..<n]" by (simp add: map_Suc_upt upt_conv_Cons del: upt_Suc)
  then show ?case using Suc by (simp add: funpow_swap1 o_def del: upt_Suc)
qed simp

lemma evenRounds_round: "r < n \<Longrightarrow> set (roundMatches ((permuteIds ^^ r) ids)) \<subseteq> set (evenRounds n ids)"
  by (auto simp: evenRounds_eq)

lemma length_evenRounds: "length (evenRounds n ids) = n * (length ids div 2)"
  by (induction n arbitrary: ids) (auto simp: roundMatches_def)

text \<open>The round in which the players at the positions \<open>a + 1\<close> and \<open>b + 1\<close> meet.\<close>

lemma meeting_round:
  fixes m a b :: nat
  assumes m: "odd m" and ab: "a < m" "b < m" "a \<noteq> b"
  shows "\<exists>r<m. \<exists>j<m. \<exists>j'<m. j + j' = m - 2 \<and> (j + r * (m - 1)) mod m = a \<and> (j' + r * (m - 1)) mod m = b"
proof -
  define k where "k = Suc m div 2"
  have k: "2 * k = m + 1" using m by (simp add: k_def)
  define c where "c = 2 * m - 2 - a - b"
  have c: "a + b + c = 2 * m - 2" using ab by (simp add: c_def)
  define r where "r = (k * c) mod m"
  have r: "r < m" using ab by (simp add: r_def)
  have inv: "((x + r) mod m + r * (m - 1)) mod m = x" if "x < m" for x
  proof -
    have "((x + r) mod m + r * (m - 1)) mod m = (x + (r + r * (m - 1))) mod m" by (simp add: mod_simps add.assoc)
    also have "r + r * (m - 1) = r * m" using ab(1) by (cases m) (auto simp: algebra_simps)
    finally show ?thesis using that by simp
  qed
  define j where "j = (a + r) mod m"
  define j' where "j' = (b + r) mod m"
  have "(j + j') mod m = (a + b + 2 * r) mod m" 
    using mod_add_eq[of "a + r" m "b + r"] by (simp add: j_def j'_def ac_simps mult_2_right)
  also have "\<dots> = (a + b + 2 * k * c) mod m"
    by (metis (no_types, lifting) mod_add_right_eq mod_mult_right_eq mult.assoc r_def)
  also have "2 * k * c = c + c * m" unfolding k by (simp add: algebra_simps)
  also have "a + b + (c + c * m) = (2 * m - 2) + c * m" using c by simp
  also have "((2 * m - 2) + c * m) mod m = (2 * m - 2) mod m" by simp
  also have "(2 * m - 2) mod m = m - 2"
    using ab by (cases "m \<le> 1") (auto simp: mod_if[of "2 * m - 2" m])
  finally have sum: "(j + j') mod m = m - 2" .
  have jm: "j < m" "j' < m" using ab by (simp_all add: j_def j'_def)
  have "j \<noteq> j'" using inv[OF ab(1)] inv[OF ab(2)] ab(3) by (auto simp: j_def j'_def)
  then have "j + j' \<noteq> m - 2 + m" using jm ab by arith
  moreover have "j + j' = m - 2 \<or> j + j' = m - 2 + m"
    using sum jm by (cases "j + j' < m") (auto simp: mod_if[of "j + j'" m] split: if_splits)
  ultimately have "j + j' = m - 2" by simp
  then show ?thesis using r jm inv[OF ab(1)] inv[OF ab(2)] unfolding j_def j'_def by blast
qed

lemma roundMatches_pair:
  assumes "i < length ids div 2" and "i + i' = length ids - 1"
  shows "{ids ! i, ids ! i'} \<in> (\<lambda>(x, y). {x, y}) ` set (roundMatches ids)"
proof -
  have "i' = length ids - i - 1" using assms by simp
  then have "(ids ! i, ids ! i') \<in> set (roundMatches ids)" using assms(1) by (auto simp: roundMatches_def)
  then show ?thesis by force
qed

lemma roundMatches_pair_sym:
  assumes "i \<noteq> i'" and "i + i' = length ids - 1" and "even (length ids)"
  shows "{ids ! i, ids ! i'} \<in> (\<lambda>(x, y). {x, y}) ` set (roundMatches ids)"
proof (cases "i < i'")
  case True
  then show ?thesis using assms by (intro roundMatches_pair) auto
next
  case False
  then have "{ids ! i', ids ! i} \<in> (\<lambda>(x, y). {x, y}) ` set (roundMatches ids)"
    using assms by (intro roundMatches_pair) auto
  then show ?thesis by (simp add: insert_commute)
qed

lemma evenRounds_meet_first:
  assumes "length ids = Suc m" and "odd m" and "b < m"
  shows "{ids ! 0, ids ! Suc b} \<in> (\<lambda>(x, y). {x, y}) ` set (evenRounds m ids)"
proof -
  obtain r where m: "m = Suc (b + r)" using assms(3) less_imp_Suc_add by blast
  then have r: "r < m" by simp
  have "m - 1 + r * (m - 1) = b + r * m" by (simp add: m algebra_simps)
  then have "(m - 1 + r * (m - 1)) mod m = b" using assms(3) by simp
  then have "(permuteIds ^^ r) ids ! Suc (m - 1) = ids ! Suc b"
    using permuteIds_funpow_Suc[OF assms(1), of "m - 1" r] assms(3) by simp
  moreover have "(permuteIds ^^ r) ids ! 0 = ids ! 0" using assms(1) by (intro permuteIds_funpow_0) auto
  moreover have "{(permuteIds ^^ r) ids ! 0, (permuteIds ^^ r) ids ! Suc (m - 1)} \<in>
      (\<lambda>(x, y). {x, y}) ` set (roundMatches ((permuteIds ^^ r) ids))"
    using assms by (intro roundMatches_pair_sym) auto
  ultimately show ?thesis
    using subsetD[OF image_mono[OF evenRounds_round[OF r, of ids]]] by (metis (no_types, lifting))
qed

lemma evenRounds_meet:
  assumes "length ids = Suc m" and "odd m" and "a < m" "b < m" "a \<noteq> b"
  shows "{ids ! Suc a, ids ! Suc b} \<in> (\<lambda>(x, y). {x, y}) ` set (evenRounds m ids)"
proof -
  obtain r j j' where r: "r < m" "j < m" "j' < m" "j + j' = m - 2"
    "(j + r * (m - 1)) mod m = a" "(j' + r * (m - 1)) mod m = b"
    using meeting_round[OF assms(2-5)] by blast
  have jj: "Suc j \<noteq> Suc j'" using r(5,6) assms(5) by auto
  have "{(permuteIds ^^ r) ids ! Suc j, (permuteIds ^^ r) ids ! Suc j'} \<in>
      (\<lambda>(x, y). {x, y}) ` set (roundMatches ((permuteIds ^^ r) ids))"
    using assms r(2-4) jj by (intro roundMatches_pair_sym) auto
  then have "{(permuteIds ^^ r) ids ! Suc j, (permuteIds ^^ r) ids ! Suc j'} \<in> (\<lambda>(x, y). {x, y}) ` set (evenRounds m ids)"
    by (rule subsetD[OF image_mono[OF evenRounds_round[OF r(1)]]])
  then show ?thesis
    using permuteIds_funpow_Suc[OF assms(1) r(2), of r] permuteIds_funpow_Suc[OF assms(1) r(3), of r] r(5,6)
    by simp
qed

lemma even_schedule:
  assumes "distinct ids" and "even (length ids)" and "ids \<noteq> []"
  shows "\<exists>order. createMatchOrderForEvenNumber ids = Inr order \<and>
    distinct (map (\<lambda>(x, y). {x, y}) order) \<and>
    set (map (\<lambda>(x, y). {x, y}) order) = {s. s \<subseteq> set ids \<and> card s = 2}"
proof -
  obtain m where m: "length ids = Suc m" using assms(3) by (cases ids) auto
  then have odd: "odd m" using assms(2) by simp
  define order where "order = evenRounds m ids"
  define pairs where "pairs = map (\<lambda>(x, y). {x, y}) order"
  define all where "all = {s. s \<subseteq> set ids \<and> card s = 2}"
  have card: "card all = length pairs"
    using n_subsets[of "set ids" 2] assms(1) m odd
    by (simp add: all_def pairs_def order_def length_evenRounds distinct_card choose_two)
      (auto elim!: oddE)
  have "all \<subseteq> set pairs"
  proof
    fix s assume "s \<in> all"
    then obtain x y where s: "s = {x, y}" "x \<noteq> y" "x \<in> set ids" "y \<in> set ids"
      by (auto simp: all_def card_2_iff)
    then obtain u v where uv: "u < Suc m" "v < Suc m" "x = ids ! u" "y = ids ! v" "u \<noteq> v"
      by (metis in_set_conv_nth m)
    show "s \<in> set pairs"
      using s uv evenRounds_meet_first[OF m odd] evenRounds_meet[OF m odd]
      by (cases u; cases v) (auto simp: pairs_def order_def insert_commute)
  qed
  moreover have "finite (set pairs)" "card (set pairs) \<le> card all" using card card_length[of pairs] by auto
  ultimately have "set pairs = all" by (metis card_seteq)
  moreover from this card have "distinct pairs" by (metis card_distinct)
  moreover have "createMatchOrderForEvenNumber ids = Inr order"
    using assms m by (simp add: createMatchOrderForEvenNumber_def order_def even_iff_mod_2_eq_zero)
  ultimately show ?thesis unfolding pairs_def all_def by blast
qed

text \<open>
  C10. For every even number of distinct players the schedule contains each pair of players exactly once.
\<close>
theorem even_round_robin:
  assumes "distinct ids" and "even (length ids)" and "ids \<noteq> []"
  shows "\<exists>order. createMatchOrderForEvenNumber ids = Inr order \<and>
    distinct (map (\<lambda>(x, y). {x, y}) order) \<and>
    set (map (\<lambda>(x, y). {x, y}) order) = {s. s \<subseteq> set ids \<and> card s = 2}"
  using assms by (rule even_schedule)

theorem even_round_robin_witness:
  "\<exists>order. createMatchOrderForEvenNumber [10, 20, 30, 40 :: PlayerId] = Inr order \<and>
    distinct (map (\<lambda>(x, y). {x, y}) order) \<and>
    set (map (\<lambda>(x, y). {x, y}) order) = {s. s \<subseteq> set [10, 20, 30, 40] \<and> card s = 2}"
  by (rule even_round_robin) simp_all

subsection \<open>The merge keeps both orders\<close>

definition queue_ok :: "MergeQueueElement list \<Rightarrow> 'a list \<Rightarrow> 'a list \<Rightarrow> bool" where
  "queue_ok q xs ys \<longleftrightarrow> distinct (map merge_index q) \<and>
     (\<forall>e \<in> set q. merge_index e = 0 \<and> xs \<noteq> [] \<and> matchCount e + length xs = totalMatchCount e \<or>
       merge_index e = 1 \<and> ys \<noteq> [] \<and> matchCount e + length ys = totalMatchCount e) \<and>
     (xs \<noteq> [] \<longrightarrow> 0 \<in> merge_index ` set q) \<and> (ys \<noteq> [] \<longrightarrow> 1 \<in> merge_index ` set q)"

lemma pq_push_perm: "mset (pq_push e q) = add_mset e (mset q)"
  by (cases q) auto

lemma queue_ok_mset: "mset q = mset q' \<Longrightarrow> queue_ok q xs ys \<longleftrightarrow> queue_ok q' xs ys"
proof -
  assume m: "mset q = mset q'"
  then have "set q = set q'" by (rule mset_eq_setD)
  moreover have "distinct (map merge_index q) \<longleftrightarrow> distinct (map merge_index q')"
    using m by (intro mset_eq_imp_distinct_iff) simp
  ultimately show ?thesis by (simp add: queue_ok_def)
qed

lemma queue_ok_push: "queue_ok (pq_push e q) xs ys = queue_ok (e # q) xs ys"
  by (rule queue_ok_mset) (simp add: pq_push_perm)

text \<open>After the head of a pool is taken, its element goes back exactly when the pool has matches left.\<close>

lemma queue_ok_step0:
  assumes "queue_ok (e # q) (x # xs) ys" and "merge_index e = 0"
  shows "queue_ok (if matchCount e + 1 = totalMatchCount e then q
    else pq_push (e\<lparr>matchCount := matchCount e + 1\<rparr>) q) xs ys"
proof -
  have q: "distinct (map merge_index q)" "0 \<notin> merge_index ` set q" "ys \<noteq> [] \<Longrightarrow> 1 \<in> merge_index ` set q"
    and e: "matchCount e + Suc (length xs) = totalMatchCount e"
    using assms by (auto simp: queue_ok_def)
  have f: "merge_index f = 1 \<and> ys \<noteq> [] \<and> matchCount f + length ys = totalMatchCount f" if "f \<in> set q" for f
  proof -
    have "merge_index f \<notin> {c. c \<notin> merge_index ` set q}" using that by simp
    moreover note assms(1)[unfolded queue_ok_def, THEN conjunct2, THEN conjunct1, rule_format, of f]
    ultimately show ?thesis using that q(2) by (simp only: list.set insert_iff mem_Collect_eq) metis
  qed
  have "queue_ok (e\<lparr>matchCount := matchCount e + 1\<rparr> # q) xs ys" if "matchCount e + 1 \<noteq> totalMatchCount e"
    using q e f assms(2) that unfolding queue_ok_def by auto
  moreover have "queue_ok q xs ys" if "matchCount e + 1 = totalMatchCount e"
  proof -
    have "length xs = 0" using e(1) that by linarith
    then have "xs = []" by simp
    then show ?thesis using q f unfolding queue_ok_def by auto
  qed
  ultimately show ?thesis by (simp add: queue_ok_push)
qed

lemma queue_ok_step1:
  assumes "queue_ok (e # q) xs (y # ys)" and "merge_index e \<noteq> 0"
  shows "queue_ok (if matchCount e + 1 = totalMatchCount e then q
    else pq_push (e\<lparr>matchCount := matchCount e + 1\<rparr>) q) xs ys"
proof -
  note ok = assms(1)[unfolded queue_ok_def]
  have e: "matchCount e + Suc (length ys) = totalMatchCount e" "merge_index e = 1"
    using assms(2) ok[THEN conjunct2, THEN conjunct1, rule_format, of e] by auto
  have q: "distinct (map merge_index q)" "1 \<notin> merge_index ` set q" "xs \<noteq> [] \<Longrightarrow> 0 \<in> merge_index ` set q"
    using ok[THEN conjunct1] ok[THEN conjunct2, THEN conjunct2, THEN conjunct1] e(2) by simp_all
  have f: "merge_index f = 0 \<and> xs \<noteq> [] \<and> matchCount f + length xs = totalMatchCount f" if "f \<in> set q" for f
  proof -
    have "merge_index f \<notin> {c. c \<notin> merge_index ` set q}" using that by simp
    moreover note assms(1)[unfolded queue_ok_def, THEN conjunct2, THEN conjunct1, rule_format, of f]
    ultimately show ?thesis using that q(2) by (simp only: list.set insert_iff mem_Collect_eq) metis
  qed
  have "queue_ok (e\<lparr>matchCount := matchCount e + 1\<rparr> # q) xs ys" if "matchCount e + 1 \<noteq> totalMatchCount e"
    using q e f that unfolding queue_ok_def by auto
  moreover have "queue_ok q xs ys" if "matchCount e + 1 = totalMatchCount e"
  proof -
    have "length ys = 0" using e(1) that by linarith
    then have "ys = []" by simp
    then show ?thesis using q f unfolding queue_ok_def by auto
  qed
  ultimately show ?thesis by (simp add: queue_ok_push)
qed

lemma mergeLoop_shuffles:
  "queue_ok q xs ys \<Longrightarrow> \<exists>zs. mergeLoop q xs ys acc = Inr (acc @ zs) \<and> zs \<in> shuffles xs ys"
proof (induction q xs ys acc rule: mergeLoop.induct)
  case (1 xs ys acc)
  then show ?case by (auto simp: queue_ok_def)
next
  case (2 e q xs ys acc)
  show ?case
  proof (cases "merge_index e = 0")
    case True
    with "2.prems" obtain x xs' where xs: "xs = x # xs'" by (cases xs) (auto simp: queue_ok_def)
    from "2.IH"(1)[OF refl refl True xs] queue_ok_step0[OF "2.prems"[unfolded xs] True]
    obtain zs where "mergeLoop (if matchCount e + 1 = totalMatchCount e then q
        else pq_push (e\<lparr>matchCount := matchCount e + 1\<rparr>) q) xs' ys (acc @ [x]) = Inr ((acc @ [x]) @ zs)"
      "zs \<in> shuffles xs' ys" by auto
    then show ?thesis using True xs by (auto simp: Let_def intro: Cons_in_shuffles_leftI)
  next
    case False
    with "2.prems" obtain y ys' where ys: "ys = y # ys'" by (cases ys) (auto simp: queue_ok_def)
    from "2.IH"(2)[OF refl refl False ys] queue_ok_step1[OF "2.prems"[unfolded ys] False]
    obtain zs where "mergeLoop (if matchCount e + 1 = totalMatchCount e then q
        else pq_push (e\<lparr>matchCount := matchCount e + 1\<rparr>) q) xs ys' (acc @ [y]) = Inr ((acc @ [y]) @ zs)"
      "zs \<in> shuffles xs ys'" by auto
    then show ?thesis using False ys by (auto simp: Let_def intro: Cons_in_shuffles_rightI)
  qed
qed

text \<open>
  C37. Merging the matches of two pools that both have matches ends, keeps every match of both and keeps the
  order within each pool.
\<close>
theorem mergePools_interleaves:
  assumes "xs \<noteq> []" and "ys \<noteq> []"
  shows "\<exists>zs. mergePools xs ys = Inr zs \<and> zs \<in> shuffles xs ys"
proof -
  have "queue_ok (pq_push \<lparr>merge_index = 1, matchCount = 0, totalMatchCount = length ys\<rparr>
       (pq_push \<lparr>merge_index = 0, matchCount = 0, totalMatchCount = length xs\<rparr> [])) xs ys"
    using assms by (auto simp: queue_ok_def)
  from mergeLoop_shuffles[OF this, of "[]"] show ?thesis by (simp add: mergePools_def)
qed

theorem mergePools_interleaves_witness:
  "\<exists>zs. mergePools [1 :: nat, 2, 3] [10, 20] = Inr zs \<and> zs \<in> shuffles [1, 2, 3] [10, 20]"
  by (rule mergePools_interleaves) simp_all

text \<open>
  \<^verbatim>\<open>operator<\<close> of \<^verbatim>\<open>MergeQueueElement\<close> is not a strict weak ordering, as \<^verbatim>\<open>std::priority_queue\<close>
  requires: there are two elements of which each is less than the other.
\<close>
theorem merge_order_not_asymmetric:
  "\<exists>a b. MergeQueueElement_less a b \<and> MergeQueueElement_less b a"
  by (rule exI[of _ "\<lparr>merge_index = 1, matchCount = 0, totalMatchCount = 3\<rparr>"],
      rule exI[of _ "\<lparr>merge_index = 0, matchCount = 0, totalMatchCount = 6\<rparr>"])
    (simp add: MergeQueueElement_less_def)

end
