(* ===== verification/Draw_Systems.thy ===== *)
theory Draw_Systems
  imports Category_Store Draw_Order
begin

section \<open>Draw systems\<close>

text \<open>
  Models \<^verbatim>\<open>src/core/draw_systems\<close>: \<^verbatim>\<open>PoolDrawSystem\<close>, \<^verbatim>\<open>DoublePoolDrawSystem\<close>, \<^verbatim>\<open>BestOfThreeDrawSystem\<close> and
  the registry \<^verbatim>\<open>DrawSystem\<close>. Of the tournament a draw system only reads the players, which are an argument
  here. \<^verbatim>\<open>initCategory\<close> returns the actions that add the matches, \<^verbatim>\<open>updateCategory\<close> the actions that follow
  from finished matches; the theory \<open>Match_Actions\<close> executes them.

  \<^verbatim>\<open>std::sort\<close> leaves the order of equivalent elements open; the model uses a stable insertion sort. Of
  the two calls, the first only feeds groups of equivalent elements to the second, whose comparator ends
  with the identifier of the player. Loops over \<^verbatim>\<open>std::unordered_set\<close> of players follow the list from which
  the set was filled.
\<close>

type_synonym Players = "PlayerId \<rightharpoonup> PlayerStore"

definition players_get :: "PlayerId \<Rightarrow> Players \<Rightarrow> PlayerStore result" where
  "players_get p ps = (case ps p of None \<Rightarrow> Inl AssertionFailed | Some v \<Rightarrow> Inr v)"

type_synonym ResultList = "(PlayerId \<times> nat option) list"

record AddMatchAction =
  add_combinedId :: CombinedId
  add_type :: MatchType
  add_title :: string
  add_bye :: bool
  add_white :: "PlayerId option"
  add_blue :: "PlayerId option"

definition addMatch_getMatchId :: "AddMatchAction \<Rightarrow> MatchId" where
  "addMatch_getMatchId a = getMatchId (add_combinedId a)"

text \<open>The actions that \<^verbatim>\<open>updateCategory\<close> creates.\<close>

datatype DrawAction =
    SetMatchPlayer CombinedId PlayerIndex "PlayerId option"
  | SetMatchBye CombinedId bool

subsection \<open>Sorting a segment of the results\<close>

fun std_insert :: "('a \<Rightarrow> 'a \<Rightarrow> bool) \<Rightarrow> 'a \<Rightarrow> 'a list \<Rightarrow> 'a list" where
  "std_insert lt x [] = [x]"
| "std_insert lt x (y # ys) = (if lt y x then y # std_insert lt x ys else x # y # ys)"

definition std_sort :: "('a \<Rightarrow> 'a \<Rightarrow> bool) \<Rightarrow> 'a list \<Rightarrow> 'a list" where
  "std_sort lt xs = foldr (std_insert lt) xs []"

definition onSegment :: "nat \<Rightarrow> nat \<Rightarrow> ('a list \<Rightarrow> 'a list) \<Rightarrow> 'a list \<Rightarrow> 'a list" where
  "onSegment b e f xs = take b xs @ f (take (e - b) (drop b xs)) @ drop e xs"

subsection \<open>The winners of the matches of a pool\<close>

definition matchWinner :: "Ruleset \<Rightarrow> MatchStore \<Rightarrow> (PlayerIndex \<times> PlayerId) result" where
  "matchWinner r m =
     bindE (getWinner r m) (\<lambda>w. bindE (valueE w) (\<lambda>idx. bindE (valueE (getPlayer m idx)) (\<lambda>p. Inr (idx, p))))"

definition countWin ::
  "CategoryStore \<Rightarrow> PlayerId list \<Rightarrow> MatchId \<Rightarrow> (PlayerId \<Rightarrow> nat) \<Rightarrow> (PlayerId \<Rightarrow> nat) result" where
  "countWin c grp i won =
     bindE (getMatch i c) (\<lambda>m.
     bindE (valueE (getWhitePlayer m)) (\<lambda>white.
     bindE (if white \<in> set grp then bindE (valueE (getBluePlayer m)) (\<lambda>blue. Inr (blue \<in> set grp)) else Inr False)
     (\<lambda>mutual. if \<not> mutual then Inr won
       else bindE (matchWinner (mRuleset c) m) (\<lambda>(idx, p). Inr (won(p := won p + 1))))))"

fun tiedRanks :: "(PlayerId \<Rightarrow> nat) \<Rightarrow> nat \<Rightarrow> PlayerId \<Rightarrow> nat \<Rightarrow> ResultList \<Rightarrow> ResultList" where
  "tiedRanks won i prev rk [] = []"
| "tiedRanks won i prev rk ((p, _) # xs) =
     (let r = (if won p = won prev then rk else i + 1) in (p, Some r) # tiedRanks won (i + 1) p r xs)"

fun rankSegment :: "(PlayerId \<Rightarrow> nat) \<Rightarrow> nat \<Rightarrow> ResultList \<Rightarrow> ResultList" where
  "rankSegment won b [] = []"
| "rankSegment won b ((p, _) # xs) = (p, Some (b + 1)) # tiedRanks won (b + 1) p (b + 1) xs"

definition orderByWinsWithinGroup ::
  "PoolDrawSystem \<Rightarrow> CategoryStore \<Rightarrow> nat \<Rightarrow> nat \<Rightarrow> ResultList \<Rightarrow> ResultList result" where
  "orderByWinsWithinGroup s c b e results =
     (if e - b < 2 then Inr results
      else let grp = map fst (take (e - b) (drop b results))
           in bindE (foldE (countWin c grp) (mPoolMatches s) (\<lambda>_. 0)) (\<lambda>won.
                Inr (onSegment b e (rankSegment won b \<circ> std_sort (\<lambda>x y. won (fst x) > won (fst y))) results)))"

subsection \<open>The remaining criteria\<close>

record PoolTotals =
  totalWinDuration :: "PlayerId \<Rightarrow> int"
  totalIppons :: "PlayerId \<Rightarrow> nat"
  totalWazaris :: "PlayerId \<Rightarrow> nat"

definition countTotals :: "CategoryStore \<Rightarrow> MatchId \<Rightarrow> PoolTotals \<Rightarrow> PoolTotals result" where
  "countTotals c i t =
     bindE (getMatch i c) (\<lambda>m.
     bindE (matchWinner (mRuleset c) m) (\<lambda>(idx, p).
       let t1 = t\<lparr>totalWinDuration := (totalWinDuration t)(p := totalWinDuration t p + getDuration m)\<rparr>
       in Inr (if ippon (getScore m idx)
               then t1\<lparr>totalIppons := (totalIppons t1)(p := totalIppons t1 p + 1)\<rparr>
               else t1\<lparr>totalWazaris := (totalWazaris t1)(p := totalWazaris t1 p + 1)\<rparr>)))"

text \<open>The weights of the players of a group; \<open>None\<close> when one of them has no weight, where the loop breaks.\<close>

fun groupWeights :: "Players \<Rightarrow> PlayerId list \<Rightarrow> (PlayerId \<Rightarrow> rat) \<Rightarrow> (PlayerId \<Rightarrow> rat) option result" where
  "groupWeights ps [] ws = Inr (Some ws)"
| "groupWeights ps (p # grp) ws =
     bindE (players_get p ps) (\<lambda>player.
       case getWeight player of
         None \<Rightarrow> Inr None
       | Some w \<Rightarrow> groupWeights ps grp (ws(p := weight_toFloat w)))"

definition remainingLess ::
  "PoolTotals \<Rightarrow> (PlayerId \<Rightarrow> rat) option \<Rightarrow> PlayerId \<times> nat option \<Rightarrow> PlayerId \<times> nat option \<Rightarrow> bool" where
  "remainingLess t weights x y =
     (let a = fst x; b = fst y
      in if totalIppons t a \<noteq> totalIppons t b then totalIppons t a > totalIppons t b
         else if totalWazaris t a \<noteq> totalWazaris t b then totalWazaris t a > totalWazaris t b
         else if totalWinDuration t a \<noteq> totalWinDuration t b then totalWinDuration t a < totalWinDuration t b
         else case weights of
             Some w \<Rightarrow> if \<not> \<bar>w a - w b\<bar> < 5 / 1000 then w a < w b else a < b
           | None \<Rightarrow> a < b)"

definition orderByRemainingCriteria ::
  "PoolDrawSystem \<Rightarrow> Players \<Rightarrow> CategoryStore \<Rightarrow> nat \<Rightarrow> nat \<Rightarrow> ResultList \<Rightarrow> ResultList result" where
  "orderByRemainingCriteria s ps c b e results =
     (if e - b < 2 then Inr results
      else let grp = map fst (take (e - b) (drop b results))
           in bindE (groupWeights ps grp (\<lambda>_. 0)) (\<lambda>weights.
              bindE (foldE (countTotals c) (mPoolMatches s)
                \<lparr>totalWinDuration = (\<lambda>_. 0), totalIppons = (\<lambda>_. 0), totalWazaris = (\<lambda>_. 0)\<rparr>) (\<lambda>t.
              Inr (onSegment b e (\<lambda>xs. map (\<lambda>(k, p, _). (p, Some (b + k + 1)))
                (enumerate 0 (std_sort (remainingLess t weights) xs))) results))))"

subsection \<open>The results of a pool\<close>

text \<open>The loop over the groups of equal rank; \<open>i\<close> is the start of the current group.\<close>

fun groupLoop ::
  "(nat \<Rightarrow> nat \<Rightarrow> ResultList \<Rightarrow> ResultList result) \<Rightarrow> nat list \<Rightarrow> nat \<Rightarrow> ResultList \<Rightarrow> ResultList result" where
  "groupLoop f [] i results = Inr results"
| "groupLoop f (j # js) i results =
     (if j \<noteq> length results \<and> snd (results ! j) = snd (results ! (j - 1)) then groupLoop f js i results
      else bindE (f i j results) (groupLoop f js j))"

definition pool_getResults :: "PoolDrawSystem \<Rightarrow> Players \<Rightarrow> CategoryStore \<Rightarrow> ResultList result" where
  "pool_getResults s ps c =
     (if length (mPoolPlayers s) \<le> 1 then Inr []
      else if \<not> status_isFinished (category_getStatus c ELIMINATION) then Inr []
      else let n = length (mPoolPlayers s);
               results = map (\<lambda>(i, p). (p, Some (i + 1))) (enumerate 0 (mPoolPlayers s))
           in bindE (orderByWinsWithinGroup s c 0 n results) (\<lambda>r1.
              bindE (groupLoop (orderByWinsWithinGroup s c) [1..<n + 1] 0 r1) (\<lambda>r2.
              groupLoop (orderByRemainingCriteria s ps c) [1..<n + 1] 0 r2)))"

subsection \<open>Drawing a pool\<close>

definition newPoolDrawSystem :: "bool \<Rightarrow> PoolDrawSystem" where
  "newPoolDrawSystem composited = \<lparr>mPoolMatches = [], mPoolPlayers = [], mComposited = composited\<rparr>"

definition generateMatchId :: "CategoryStore \<Rightarrow> mt19937 \<Rightarrow> (MatchId \<times> mt19937) result" where
  "generateMatchId c gen =
     (case generate (\<lambda>i. containsMatch i c) gen of None \<Rightarrow> Inl Diverges | Some r \<Rightarrow> Inr r)"

definition pool_createMatch ::
  "PoolDrawSystem \<Rightarrow> Players \<Rightarrow> CategoryStore \<Rightarrow> PlayerId \<times> PlayerId \<Rightarrow> mt19937 \<Rightarrow> (AddMatchAction \<times> mt19937) result" where
  "pool_createMatch s ps c pair gen =
     (case pair of (firstPlayer, secondPlayer) \<Rightarrow>
       bindE (generateMatchId c gen) (\<lambda>(i, gen').
       bindE (players_get firstPlayer ps) (\<lambda>player.
         let isFirstBlue = getBlueJudogiHint player
         in Inr (\<lparr>add_combinedId = CombinedId (mCategoryId c) i, add_type = ELIMINATION,
              add_title = (if mComposited s then ''Elimination'' else ''Pool''), add_bye = False,
              add_white = Some (if isFirstBlue then secondPlayer else firstPlayer),
              add_blue = Some (if isFirstBlue then firstPlayer else secondPlayer)\<rparr>, gen'))))"

fun pool_createMatches ::
  "PoolDrawSystem \<Rightarrow> Players \<Rightarrow> CategoryStore \<Rightarrow> (PlayerId \<times> PlayerId) list \<Rightarrow> mt19937 \<Rightarrow> AddMatchAction list result" where
  "pool_createMatches s ps c [] gen = Inr []"
| "pool_createMatches s ps c (pair # pairs) gen =
     bindE (pool_createMatch s ps c pair gen) (\<lambda>(a, gen').
     bindE (pool_createMatches s ps c pairs gen') (\<lambda>as. Inr (a # as)))"

definition pool_matchOrder :: "PlayerId list \<Rightarrow> (PlayerId \<times> PlayerId) list result" where
  "pool_matchOrder ids =
     (if length ids mod 2 = 0 then createMatchOrderForEvenNumber ids else createMatchOrderForOddNumber ids)"

definition pool_initCategory ::
  "PoolDrawSystem \<Rightarrow> Players \<Rightarrow> CategoryStore \<Rightarrow> PlayerId list \<Rightarrow> u32 \<Rightarrow> (PoolDrawSystem \<times> AddMatchAction list) result" where
  "pool_initCategory s ps c playerIds seed =
     (let s1 = s\<lparr>mPoolPlayers := playerIds, mPoolMatches := []\<rparr>
      in if length playerIds \<le> 1 then Inr (s1, [])
         else let s2 = s1\<lparr>mPoolPlayers := fst (shuffle playerIds (mt_seed seed))\<rparr>
              in bindE (pool_matchOrder (mPoolPlayers s2)) (\<lambda>order.
                 bindE (pool_createMatches s2 ps c order (mt_seed seed)) (\<lambda>actions.
                 Inr (s2\<lparr>mPoolMatches := map addMatch_getMatchId actions\<rparr>, actions))))"

subsection \<open>Double pool\<close>

definition newDoublePoolDrawSystem :: DoublePoolDrawSystem where
  "newDoublePoolDrawSystem =
     \<lparr>mDoublePoolMatches = [], mDoublePoolPlayers = [], mFirstPool = None, mSecondPool = None\<rparr>"

definition finalAction :: "CategoryStore \<Rightarrow> string \<Rightarrow> MatchId \<Rightarrow> AddMatchAction" where
  "finalAction c title i = \<lparr>add_combinedId = CombinedId (mCategoryId c) i, add_type = FINAL, add_title = title,
     add_bye = False, add_white = None, add_blue = None\<rparr>"

text \<open>
  \<^verbatim>\<open>initCategory\<close> asserts that it is called with all players of the category; \<^verbatim>\<open>getPlayers().size()\<close> is the
  cardinality of the set.
\<close>

definition doublePool_initCategory ::
  "DoublePoolDrawSystem \<Rightarrow> Players \<Rightarrow> CategoryStore \<Rightarrow> PlayerId list \<Rightarrow> u32 \<Rightarrow>
   (DoublePoolDrawSystem \<times> AddMatchAction list) result" where
  "doublePool_initCategory s ps c playerIds seed =
     assertE (length playerIds = card (mCategoryPlayers c))
       (let s1 = s\<lparr>mDoublePoolMatches := [], mDoublePoolPlayers := playerIds\<rparr>
        in if length playerIds < 4 then Inr (s1, [])
           else
             let (shuffled, eng) = shuffle playerIds (mt_seed seed);
                 middle = length shuffled div 2;
                 (seed1, eng1) = mt_next eng;
                 (seed2, eng2) = mt_next eng1
             in bindE (pool_initCategory (newPoolDrawSystem True) ps c (take middle shuffled) seed1) (\<lambda>(pool1, actions1).
                bindE (pool_initCategory (newPoolDrawSystem True) ps c (drop middle shuffled) seed2) (\<lambda>(pool2, actions2).
                bindE (mergePools actions1 actions2) (\<lambda>merged.
                bindE (generateMatchId c (mt_seed seed)) (\<lambda>(i1, gen1).
                bindE (generateMatchId c gen1) (\<lambda>(i2, gen2).
                bindE (generateMatchId c gen2) (\<lambda>(i3, gen3).
                  let actions = merged @ [finalAction c ''Semi-Final'' i1, finalAction c ''Semi-Final'' i2,
                        finalAction c ''Final'' i3]
                  in Inr (s1\<lparr>mDoublePoolPlayers := shuffled, mFirstPool := Some pool1, mSecondPool := Some pool2,
                       mDoublePoolMatches := map addMatch_getMatchId actions\<rparr>, actions))))))))"

text \<open>The matches with index \<open>k\<close> from the back of \<^verbatim>\<open>mMatches\<close>: 1 is the final, 2 and 3 are the semi-finals.\<close>

definition matchFromBack :: "DoublePoolDrawSystem \<Rightarrow> CategoryStore \<Rightarrow> nat \<Rightarrow> MatchStore result" where
  "matchFromBack s c k =
     (let ms = mDoublePoolMatches s
      in if length ms < k then Inl UndefinedBehaviour else getMatch (ms ! (length ms - k)) c)"

definition clearPlayer :: "MatchStore \<Rightarrow> PlayerIndex \<Rightarrow> DrawAction list" where
  "clearPlayer m idx = (if getPlayer m idx \<noteq> None then [SetMatchPlayer (mCombinedId m) idx None] else [])"

definition assignPlayer :: "MatchStore \<Rightarrow> PlayerIndex \<Rightarrow> PlayerId \<Rightarrow> DrawAction list" where
  "assignPlayer m idx p = (if getPlayer m idx \<noteq> Some p then [SetMatchPlayer (mCombinedId m) idx (Some p)] else [])"

text \<open>Assigns two players to a match, swapped when the first one has the hint for a blue judogi.\<close>

definition assignPlayers :: "Players \<Rightarrow> MatchStore \<Rightarrow> PlayerId \<Rightarrow> PlayerId \<Rightarrow> DrawAction list result" where
  "assignPlayers ps m white blue =
     bindE (players_get white ps) (\<lambda>player.
       let (w, b) = (if getBlueJudogiHint player then (blue, white) else (white, blue))
       in Inr (assignPlayer m WHITE w @ assignPlayer m BLUE b))"

definition winnerOf :: "CategoryStore \<Rightarrow> MatchStore \<Rightarrow> PlayerId result" where
  "winnerOf c m = bindE (matchWinner (mRuleset c) m) (\<lambda>(idx, p). Inr p)"

definition poolResultsOf :: "PoolDrawSystem option \<Rightarrow> Players \<Rightarrow> CategoryStore \<Rightarrow> ResultList result" where
  "poolResultsOf pool ps c = (case pool of None \<Rightarrow> Inl UndefinedBehaviour | Some s \<Rightarrow> pool_getResults s ps c)"

definition doublePool_updateCategory ::
  "DoublePoolDrawSystem \<Rightarrow> Players \<Rightarrow> CategoryStore \<Rightarrow> DrawAction list result" where
  "doublePool_updateCategory s ps c =
     (if length (mDoublePoolPlayers s) < 4 then Inr []
      else
        bindE (matchFromBack s c 3) (\<lambda>firstSemiFinal.
        bindE (matchFromBack s c 2) (\<lambda>secondSemiFinal.
        bindE (matchFromBack s c 1) (\<lambda>finals.
          if \<not> status_isFinished (category_getStatus c ELIMINATION) then
            Inr (clearPlayer firstSemiFinal WHITE @ clearPlayer firstSemiFinal BLUE @
                 clearPlayer secondSemiFinal WHITE @ clearPlayer secondSemiFinal BLUE @
                 clearPlayer finals WHITE @ clearPlayer finals BLUE)
          else
            bindE (poolResultsOf (mFirstPool s) ps c) (\<lambda>results1.
            bindE (poolResultsOf (mSecondPool s) ps c) (\<lambda>results2.
            bindE (nthE results1 0) (\<lambda>first1. bindE (nthE results2 1) (\<lambda>second2.
            bindE (assignPlayers ps firstSemiFinal (fst first1) (fst second2)) (\<lambda>actions1.
            bindE (nthE results2 0) (\<lambda>first2. bindE (nthE results1 1) (\<lambda>second1.
            bindE (assignPlayers ps secondSemiFinal (fst first2) (fst second1)) (\<lambda>actions2.
              if \<not> (getStatus firstSemiFinal = FINISHED \<and> getStatus secondSemiFinal = FINISHED) then
                Inr (actions1 @ actions2 @ clearPlayer finals WHITE @ clearPlayer finals BLUE)
              else
                bindE (winnerOf c firstSemiFinal) (\<lambda>white.
                bindE (winnerOf c secondSemiFinal) (\<lambda>blue.
                bindE (assignPlayers ps finals white blue) (\<lambda>actions3.
                Inr (actions1 @ actions2 @ actions3))))))))))))))))"

definition loserOf :: "CategoryStore \<Rightarrow> MatchStore \<Rightarrow> PlayerId result" where
  "loserOf c m =
     bindE (getWinner (mRuleset c) m) (\<lambda>w. bindE (valueE w) (\<lambda>idx. valueE (getPlayer m (other idx))))"

definition doublePool_getResults :: "DoublePoolDrawSystem \<Rightarrow> CategoryStore \<Rightarrow> ResultList result" where
  "doublePool_getResults s c =
     (if length (mDoublePoolPlayers s) < 4 then Inr []
      else if \<not> status_isFinished (CategoryStatus_plus (category_getStatus c ELIMINATION) (category_getStatus c FINAL))
      then Inr []
      else
        bindE (matchFromBack s c 1) (\<lambda>finals.
        bindE (matchFromBack s c 3) (\<lambda>firstSemiFinal.
        bindE (matchFromBack s c 2) (\<lambda>secondSemiFinal.
        bindE (winnerOf c finals) (\<lambda>finalWinner.
        bindE (loserOf c finals) (\<lambda>finalLoser.
        bindE (loserOf c firstSemiFinal) (\<lambda>firstLoser.
        bindE (loserOf c secondSemiFinal) (\<lambda>secondLoser.
          let finalists = {finalWinner, finalLoser, firstLoser, secondLoser}
          in Inr ([(finalWinner, Some 1), (finalLoser, Some 2), (firstLoser, Some 3), (secondLoser, Some 3)] @
               map (\<lambda>p. (p, None)) (filter (\<lambda>p. p \<notin> finalists) (mDoublePoolPlayers s)))))))))))"

subsection \<open>Best of three\<close>

definition newBestOfThreeDrawSystem :: BestOfThreeDrawSystem where
  "newBestOfThreeDrawSystem = \<lparr>mBestOfThreeMatches = [], mBestOfThreePlayers = []\<rparr>"

fun bestOfThree_createMatches ::
  "nat \<Rightarrow> CategoryStore \<Rightarrow> PlayerId \<Rightarrow> PlayerId \<Rightarrow> mt19937 \<Rightarrow> AddMatchAction list result" where
  "bestOfThree_createMatches 0 c white blue gen = Inr []"
| "bestOfThree_createMatches (Suc n) c white blue gen =
     bindE (generateMatchId c gen) (\<lambda>(i, gen').
     bindE (bestOfThree_createMatches n c white blue gen') (\<lambda>as.
     Inr (\<lparr>add_combinedId = CombinedId (mCategoryId c) i, add_type = ELIMINATION, add_title = ''Best-of-Three'',
        add_bye = False, add_white = Some white, add_blue = Some blue\<rparr> # as)))"

definition bestOfThree_initCategory ::
  "BestOfThreeDrawSystem \<Rightarrow> Players \<Rightarrow> CategoryStore \<Rightarrow> PlayerId list \<Rightarrow> u32 \<Rightarrow>
   (BestOfThreeDrawSystem \<times> AddMatchAction list) result" where
  "bestOfThree_initCategory s ps c playerIds seed =
     assertE (length playerIds = card (mCategoryPlayers c))
       (let s1 = s\<lparr>mBestOfThreeMatches := [], mBestOfThreePlayers := playerIds\<rparr>
        in if length playerIds \<noteq> 2 then Inr (s1, [])
           else
             let randomIndex = unat (fst (mt_next (mt_seed seed)) mod 2);
                 white = playerIds ! randomIndex;
                 blue = playerIds ! (1 - randomIndex)
             in bindE (players_get white ps) (\<lambda>player.
                let (w, b) = (if getBlueJudogiHint player then (blue, white) else (white, blue))
                in bindE (bestOfThree_createMatches 3 c w b (mt_seed seed)) (\<lambda>actions.
                   Inr (s1\<lparr>mBestOfThreeMatches := map addMatch_getMatchId actions\<rparr>, actions))))"

definition bestOfThreeMatch :: "BestOfThreeDrawSystem \<Rightarrow> CategoryStore \<Rightarrow> nat \<Rightarrow> MatchStore result" where
  "bestOfThreeMatch s c k = bindE (nthE (mBestOfThreeMatches s) k) (\<lambda>i. getMatch i c)"

definition bestOfThree_updateCategory :: "BestOfThreeDrawSystem \<Rightarrow> CategoryStore \<Rightarrow> DrawAction list result" where
  "bestOfThree_updateCategory s c =
     (if length (mBestOfThreePlayers s) \<noteq> 2 then Inr []
      else
        bindE (bestOfThreeMatch s c 0) (\<lambda>firstMatch.
        bindE (bestOfThreeMatch s c 1) (\<lambda>secondMatch.
        bindE (if getStatus firstMatch = FINISHED \<and> getStatus secondMatch = FINISHED
               then bindE (getWinner (mRuleset c) firstMatch) (\<lambda>firstWinner.
                    bindE (getWinner (mRuleset c) secondMatch) (\<lambda>secondWinner.
                    Inr (firstWinner \<noteq> None \<and> secondWinner \<noteq> None \<and> firstWinner = secondWinner)))
               else Inr False) (\<lambda>bye.
        bindE (nthE (mBestOfThreeMatches s) 2) (\<lambda>i3.
        bindE (getMatch i3 c) (\<lambda>thirdMatch.
        Inr (if isBye thirdMatch \<noteq> bye then [SetMatchBye (CombinedId (mCategoryId c) i3) bye] else [])))))))"

definition whiteWins :: "CategoryStore \<Rightarrow> MatchStore \<Rightarrow> nat result" where
  "whiteWins c m = bindE (getWinner (mRuleset c) m) (\<lambda>w. Inr (if w = Some WHITE then 1 else 0))"

definition bestOfThree_getResults :: "BestOfThreeDrawSystem \<Rightarrow> CategoryStore \<Rightarrow> ResultList result" where
  "bestOfThree_getResults s c =
     (if length (mBestOfThreePlayers s) \<noteq> 2 then Inr []
      else if \<not> status_isFinished (category_getStatus c ELIMINATION) then Inr []
      else
        bindE (bestOfThreeMatch s c 0) (\<lambda>firstMatch.
        assertE (getStatus firstMatch = FINISHED) (
        bindE (whiteWins c firstMatch) (\<lambda>n1.
        bindE (bestOfThreeMatch s c 1) (\<lambda>secondMatch.
        bindE (whiteWins c secondMatch) (\<lambda>n2.
        bindE (if n1 + n2 = 1 then bindE (bestOfThreeMatch s c 2) (whiteWins c) else Inr 0) (\<lambda>n3.
        bindE (valueE (getWhitePlayer firstMatch)) (\<lambda>white.
        bindE (valueE (getBluePlayer firstMatch)) (\<lambda>blue.
        Inr (if n1 + n2 + n3 > 1 then [(white, Some 1), (blue, Some 2)]
             else [(blue, Some 1), (white, Some 2)]))))))))))"

subsection \<open>The class DrawSystem\<close>

fun hasFinalBlock :: "DrawSystem \<Rightarrow> bool" where
  "hasFinalBlock (PoolSystem s) = False"
| "hasFinalBlock (DoublePoolSystem s) = True"
| "hasFinalBlock (BestOfThreeSystem s) = False"

fun drawSystem_getIdentifier :: "DrawSystem \<Rightarrow> DrawSystemIdentifier" where
  "drawSystem_getIdentifier (PoolSystem s) = POOL"
| "drawSystem_getIdentifier (DoublePoolSystem s) = DOUBLE_POOL"
| "drawSystem_getIdentifier (BestOfThreeSystem s) = BEST_OF_THREE"

fun drawSystem_getName :: "DrawSystem \<Rightarrow> string" where
  "drawSystem_getName (PoolSystem s) = ''Pool''"
| "drawSystem_getName (DoublePoolSystem s) = ''Double Pool''"
| "drawSystem_getName (BestOfThreeSystem s) = ''Best-of-Three''"

fun initCategory ::
  "DrawSystem \<Rightarrow> Players \<Rightarrow> CategoryStore \<Rightarrow> PlayerId list \<Rightarrow> u32 \<Rightarrow> (DrawSystem \<times> AddMatchAction list) result" where
  "initCategory (PoolSystem s) ps c ids seed =
     bindE (pool_initCategory s ps c ids seed) (\<lambda>(s', as). Inr (PoolSystem s', as))"
| "initCategory (DoublePoolSystem s) ps c ids seed =
     bindE (doublePool_initCategory s ps c ids seed) (\<lambda>(s', as). Inr (DoublePoolSystem s', as))"
| "initCategory (BestOfThreeSystem s) ps c ids seed =
     bindE (bestOfThree_initCategory s ps c ids seed) (\<lambda>(s', as). Inr (BestOfThreeSystem s', as))"

fun updateCategory :: "DrawSystem \<Rightarrow> Players \<Rightarrow> CategoryStore \<Rightarrow> DrawAction list result" where
  "updateCategory (PoolSystem s) ps c = Inr []"
| "updateCategory (DoublePoolSystem s) ps c = doublePool_updateCategory s ps c"
| "updateCategory (BestOfThreeSystem s) ps c = bestOfThree_updateCategory s c"

fun getResults :: "DrawSystem \<Rightarrow> Players \<Rightarrow> CategoryStore \<Rightarrow> ResultList result" where
  "getResults (PoolSystem s) ps c = pool_getResults s ps c"
| "getResults (DoublePoolSystem s) ps c = doublePool_getResults s c"
| "getResults (BestOfThreeSystem s) ps c = bestOfThree_getResults s c"

definition getDrawSystems :: "DrawSystem list" where
  "getDrawSystems = [PoolSystem (newPoolDrawSystem False), DoublePoolSystem newDoublePoolDrawSystem,
     BestOfThreeSystem newBestOfThreeDrawSystem]"

definition getDrawSystemIndex :: "DrawSystemIdentifier \<Rightarrow> nat result" where
  "getDrawSystemIndex i =
     (case map_of (rev (zip (map drawSystem_getIdentifier getDrawSystems) [0..<length getDrawSystems])) i of
        None \<Rightarrow> Inl OutOfRange | Some k \<Rightarrow> Inr k)"

definition getDrawSystem :: "DrawSystemIdentifier \<Rightarrow> DrawSystem result" where
  "getDrawSystem i = bindE (getDrawSystemIndex i) (nthE getDrawSystems)"

lemma getDrawSystem_identifier: "\<exists>d. getDrawSystem i = Inr d \<and> drawSystem_getIdentifier d = i"
  by (cases i) (simp_all add: getDrawSystem_def getDrawSystemIndex_def getDrawSystems_def upt_rec nthE_def)

end
