(* ===== verification/Pool_Results.thy ===== *)
theory Pool_Results
  imports Draw_Systems
begin

section \<open>The ranking of a pool\<close>

text \<open>
  Correctness of \<^verbatim>\<open>PoolDrawSystem::getResults\<close>: the three passes over the list of results only permute the
  players, end with the ranks 1, 2, ..., n, and never put a player with fewer wins before one with more.
\<close>

subsection \<open>Sorting\<close>

lemma mset_std_insert: "mset (std_insert lt x ys) = add_mset x (mset ys)"
  by (induction ys) auto

lemma mset_std_sort [simp]: "mset (std_sort lt xs) = mset xs"
  by (induction xs) (auto simp: std_sort_def mset_std_insert)

lemma length_std_sort [simp]: "length (std_sort lt xs) = length xs"
  by (metis mset_std_sort size_mset)

lemma set_std_sort [simp]: "set (std_sort lt xs) = set xs"
  by (metis mset_std_sort set_mset_mset)

text \<open>Sorting by a key in descending order.\<close>

lemma sorted_std_insert:
  "sorted_wrt (\<lambda>x y. key x \<ge> (key y :: nat)) ys \<Longrightarrow>
   sorted_wrt (\<lambda>x y. key x \<ge> key y) (std_insert (\<lambda>x y. key x > key y) z ys)"
proof (induction ys)
  case (Cons y ys)
  have "set (std_insert (\<lambda>x y. key x > key y) z ys) = insert z (set ys)"
    by (metis mset_std_insert set_mset_add_mset_insert set_mset_mset)
  with Cons show ?case by auto
qed simp

lemma sorted_std_sort: "sorted_wrt (\<lambda>x y. key x \<ge> (key y :: nat)) (std_sort (\<lambda>x y. key x > key y) xs)"
  by (induction xs) (simp_all add: std_sort_def sorted_std_insert)

subsection \<open>Segments\<close>

lemma onSegment_nth:
  assumes "b \<le> e" "e \<le> length xs" "\<And>ys. length (f ys) = length ys"
  shows "length (onSegment b e f xs) = length xs"
    and "k < b \<Longrightarrow> onSegment b e f xs ! k = xs ! k"
    and "e \<le> k \<Longrightarrow> k < length xs \<Longrightarrow> onSegment b e f xs ! k = xs ! k"
    and "b \<le> k \<Longrightarrow> k < e \<Longrightarrow> onSegment b e f xs ! k = f (take (e - b) (drop b xs)) ! (k - b)"
  using assms by (auto simp: onSegment_def nth_append min_def)

lemma onSegment_mset:
  assumes "b \<le> e" "e \<le> length xs" "\<And>ys. mset (map g (f ys)) = mset (map g ys)"
  shows "mset (map g (onSegment b e f xs)) = mset (map g xs)"
proof -
  have "mset (map g xs) = mset (map g (take b xs @ take (e - b) (drop b xs) @ drop e xs))"
    using assms(1) by (metis append_take_drop_id drop_drop le_add_diff_inverse2)
  then show ?thesis using assms(3)[of "take (e - b) (drop b xs)"] by (simp add: onSegment_def)
qed

subsection \<open>Ranks with ties\<close>

definition tie :: "ResultList \<Rightarrow> nat \<Rightarrow> bool" where
  "tie rs k \<longleftrightarrow> 0 < k \<and> snd (rs ! k) = snd (rs ! (k - 1))"

text \<open>Every entry is ranked by its position or tied with the entry before it.\<close>

definition tie_ranks :: "ResultList \<Rightarrow> bool" where
  "tie_ranks rs \<longleftrightarrow> (\<forall>k < length rs. snd (rs ! k) = Some (k + 1) \<or> tie rs k)"

lemma tie_ranks_bound:
  assumes "tie_ranks rs" and "k < length rs"
  shows "\<exists>r \<le> k + 1. snd (rs ! k) = Some r"
  using assms(2)
proof (induction k)
  case 0
  then show ?case using assms(1) by (auto simp: tie_ranks_def tie_def)
next
  case (Suc k)
  then obtain r where r: "r \<le> k + 1" "snd (rs ! k) = Some r" by auto
  from Suc.prems assms(1) have "snd (rs ! Suc k) = Some (Suc k + 1) \<or> tie rs (Suc k)"
    unfolding tie_ranks_def by blast
  with r show ?case by (auto simp: tie_def intro: exI[of _ r])
qed

lemma tie_ranks_start: "tie_ranks rs \<Longrightarrow> k < length rs \<Longrightarrow> snd (rs ! k) = Some (k + 1) \<Longrightarrow> \<not> tie rs k"
  using tie_ranks_bound[of rs "k - 1"] by (cases k) (auto simp: tie_def)

lemma map_fst_tiedRanks [simp]: "map fst (tiedRanks won i p rk xs) = map fst xs"
  by (induction won i p rk xs rule: tiedRanks.induct) (auto simp: Let_def)

lemma length_tiedRanks [simp]: "length (tiedRanks won i p rk xs) = length xs"
  using map_fst_tiedRanks[of won i p rk xs] by (metis length_map)

lemma tiedRanks_nth:
  assumes "rk \<le> i" and "0 < k" and "k \<le> length xs"
  shows "let zs = (prev, Some rk) # tiedRanks won i prev rk xs
    in if won (fst (zs ! k)) = won (fst (zs ! (k - 1))) then snd (zs ! k) = snd (zs ! (k - 1))
       else snd (zs ! k) = Some (i + k)"
  using assms
proof (induction won i prev rk xs arbitrary: k rule: tiedRanks.induct)
  case (2 won i prev rk p v xs)
  define r where "r = (if won p = won prev then rk else i + 1)"
  show ?case
  proof (cases "k = 1")
    case True
    then show ?thesis by (simp add: Let_def)
  next
    case False
    then obtain l where l: "k = Suc l" "0 < l" using "2.prems" by (cases k) auto
    have "r \<le> i + 1" using "2.prems"(1) by (simp add: r_def)
    define ws where "ws = (p, Some r) # tiedRanks won (i + 1) p r xs"
    have zs: "(prev, Some rk) # tiedRanks won i prev rk ((p, v) # xs) = (prev, Some rk) # ws"
      by (simp add: ws_def r_def Let_def)
    have "if won (fst (ws ! l)) = won (fst (ws ! (l - 1))) then snd (ws ! l) = snd (ws ! (l - 1))
        else snd (ws ! l) = Some (i + 1 + l)"
      using "2.IH"[OF r_def \<open>r \<le> i + 1\<close> l(2)] "2.prems" l by (simp only: Let_def ws_def) simp
    then show ?thesis unfolding zs l using l(2) by (cases l) (auto simp: Let_def)
  qed
qed simp

lemma length_rankSegment [simp]: "length (rankSegment won b xs) = length xs"
  by (cases "(won, b, xs)" rule: rankSegment.cases) auto

lemma map_fst_rankSegment [simp]: "map fst (rankSegment won b xs) = map fst xs"
  by (cases "(won, b, xs)" rule: rankSegment.cases) auto

lemma rankSegment_nth:
  assumes "k < length xs"
  shows "if k = 0 then snd (rankSegment won b xs ! k) = Some (b + 1)
    else if won (fst (xs ! k)) = won (fst (xs ! (k - 1)))
    then snd (rankSegment won b xs ! k) = snd (rankSegment won b xs ! (k - 1))
    else snd (rankSegment won b xs ! k) = Some (b + k + 1)"
proof (cases xs)
  case (Cons x ys)
  obtain p v where x: "x = (p, v)" by (cases x)
  have f: "fst (rankSegment won b xs ! j) = fst (xs ! j)" if "j < length xs" for j
    using that by (metis length_rankSegment map_fst_rankSegment nth_map)
  show ?thesis
  proof (cases "k = 0")
    case False
    with tiedRanks_nth[of "b + 1" "b + 1" k ys p won] f[of k] f[of "k - 1"] assms Cons x show ?thesis
      by (auto simp: Let_def split: if_splits)
  qed (simp add: Cons x)
qed (use assms in simp)

subsection \<open>One pass on one group\<close>

text \<open>What both ordering operations do to the entries \<open>i\<close> to \<open>j - 1\<close>: permute their players.\<close>

definition segment_change :: "nat \<Rightarrow> nat \<Rightarrow> ResultList \<Rightarrow> ResultList \<Rightarrow> bool" where
  "segment_change i j rs rs' \<longleftrightarrow> length rs' = length rs \<and>
     mset (map fst rs') = mset (map fst rs) \<and>
     fst ` {rs' ! k |k. i \<le> k \<and> k < j} \<subseteq> fst ` {rs ! k |k. i \<le> k \<and> k < j} \<and>
     (\<forall>k < length rs. k < i \<or> j \<le> k \<longrightarrow> rs' ! k = rs ! k)"

lemma segment_change_refl: "segment_change i j rs rs"
  by (simp add: segment_change_def)

lemma segment_change_onSegment:
  assumes "i \<le> j" "j \<le> length rs"
    and g: "\<And>ys. length (g ys) = length ys" "\<And>ys. mset (map fst (g ys)) = mset (map fst ys)"
  shows "segment_change i j rs (onSegment i j g rs)"
proof -
  let ?seg = "take (j - i) (drop i rs)"
  have "fst (onSegment i j g rs ! k) \<in> fst ` {rs ! k |k. i \<le> k \<and> k < j}" if k: "i \<le> k" "k < j" for k
  proof -
    have "fst (g ?seg ! (k - i)) \<in> set (map fst (g ?seg))" using k assms(2) g(1) by auto
    also have "set (map fst (g ?seg)) = set (map fst ?seg)" using g(2) by (rule mset_eq_setD)
    finally obtain l where l: "l < length ?seg" "fst (g ?seg ! (k - i)) = fst (?seg ! l)"
      by (auto simp: in_set_conv_nth)
    then have "?seg ! l = rs ! (i + l)" "i \<le> i + l" "i + l < j" using assms(1,2) by auto
    with l onSegment_nth(4)[of i j rs g, OF assms(1,2) g(1) k] show ?thesis by (auto intro!: image_eqI[of _ _ "rs ! (i + l)"])
  qed
  then show ?thesis
    using onSegment_nth[of i j rs g, OF assms(1,2) g(1)] onSegment_mset[of i j rs fst g, OF assms(1,2) g(2)]
    by (auto simp: segment_change_def)
qed

lemma orderByWins_change:
  assumes "orderByWinsWithinGroup s c i j rs = Inr rs'" and "i < j" "j \<le> length rs" and "snd (rs ! i) = Some (i + 1)"
  shows "segment_change i j rs rs' \<and> snd (rs' ! i) = Some (i + 1) \<and>
    (\<forall>k. i < k \<and> k < j \<longrightarrow> snd (rs' ! k) = Some (k + 1) \<or> tie rs' k)"
proof (cases "j - i < 2")
  case True
  then have "rs' = rs" "j = i + 1" using assms by (auto simp: orderByWinsWithinGroup_def)
  then show ?thesis using assms(4) segment_change_refl by auto
next
  case False
  then obtain won where rs': "rs' = onSegment i j (rankSegment won i \<circ> std_sort (\<lambda>x y. won (fst x) > won (fst y))) rs"
    using assms(1) by (auto simp: orderByWinsWithinGroup_def Let_def)
  define g where "g = rankSegment won i \<circ> std_sort (\<lambda>x y. won (fst x) > won (fst y))"
  have g: "length (g ys) = length ys" "mset (map fst (g ys)) = mset (map fst ys)" for ys
    by (simp_all add: g_def)
  define seg where "seg = take (j - i) (drop i rs)"
  have nth: "rs' ! k = g seg ! (k - i)" if "i \<le> k" "k < j" for k
    using that assms(2,3) onSegment_nth(4)[of i j rs g k] g(1) by (simp add: rs' g_def[symmetric] seg_def)
  have len: "length (std_sort (\<lambda>x y. won (fst x) > won (fst y)) seg) = j - i"
    using assms(2,3) by (simp add: seg_def)
  have "snd (rs' ! k) = Some (k + 1) \<or> tie rs' k" if "i < k" "k < j" for k
  proof -
    have k: "k - i < length (std_sort (\<lambda>x y. won (fst x) > won (fst y)) seg)" "k - i \<noteq> 0" "i + (k - i) = k"
      using that len by simp_all
    have prev: "rs' ! (k - 1) = g seg ! (k - i - 1)" using nth[of "k - 1"] that by (simp add: Suc_diff_Suc)
    from rankSegment_nth[OF k(1), of won i] k(2,3)
    have "snd (g seg ! (k - i)) = snd (g seg ! (k - i - 1)) \<or> snd (g seg ! (k - i)) = Some (k + 1)"
      unfolding g_def o_apply by (simp only: if_False split: if_splits) simp_all
    then show ?thesis using prev nth[of k] that by (auto simp: tie_def)
  qed
  moreover have "snd (rs' ! i) = Some (i + 1)"
    using rankSegment_nth[of 0 "std_sort (\<lambda>x y. won (fst x) > won (fst y)) seg" won i] nth[of i] assms(2) len
    by (cases seg) (simp_all add: g_def)
  ultimately show ?thesis
    using segment_change_onSegment[of i j rs g] assms(2,3) g by (simp add: rs' g_def[symmetric])
qed

lemma orderByRemaining_change:
  assumes "orderByRemainingCriteria s ps c i j rs = Inr rs'" and "i < j" "j \<le> length rs" and "snd (rs ! i) = Some (i + 1)"
  shows "segment_change i j rs rs' \<and> (\<forall>k. i \<le> k \<and> k < j \<longrightarrow> snd (rs' ! k) = Some (k + 1))"
proof (cases "j - i < 2")
  case True
  then have "rs' = rs" "j = i + 1" using assms by (auto simp: orderByRemainingCriteria_def)
  then show ?thesis using assms(4) segment_change_refl by (auto simp: less_Suc_eq)
next
  case False
  then obtain t w where rs': "rs' = onSegment i j (\<lambda>xs. map (\<lambda>(k, p, _). (p, Some (i + k + 1)))
      (enumerate 0 (std_sort (remainingLess t w) xs))) rs"
    using assms(1) by (auto simp: orderByRemainingCriteria_def Let_def)
  define g where "g = (\<lambda>xs. map (\<lambda>(k, p, _ :: nat option). (p, Some (i + k + 1)))
      (enumerate 0 (std_sort (remainingLess t w) xs)))"
  have fst_g: "map fst (g ys) = map fst (std_sort (remainingLess t w) ys)" for ys
    by (auto simp: g_def intro!: nth_equalityI simp: nth_enumerate_eq split: prod.splits)
  have g: "length (g ys) = length ys" "mset (map fst (g ys)) = mset (map fst ys)" for ys
    using fst_g[of ys] by (simp_all add: g_def)
  have "snd (rs' ! k) = Some (k + 1)" if "i \<le> k" "k < j" for k
    using that assms(2,3) onSegment_nth(4)[of i j rs g k] g(1)
    by (simp add: rs' g_def[symmetric]) (auto simp: g_def nth_enumerate_eq split: prod.splits)
  moreover have "rs' = onSegment i j g rs" unfolding rs' g_def ..
  ultimately show ?thesis
    using segment_change_onSegment[of i j rs g] assms(2,3) g by simp
qed

subsection \<open>The loop over the groups\<close>

lemma groupLoop_invariant:
  assumes f: "\<And>i j rs rs'. I i j rs \<Longrightarrow> i < j \<Longrightarrow> j \<le> n \<Longrightarrow> j = n \<or> snd (rs ! j) \<noteq> snd (rs ! (j - 1)) \<Longrightarrow>
      f i j rs = Inr rs' \<Longrightarrow> I j (j + 1) rs'"
    and skip: "\<And>i j rs. I i j rs \<Longrightarrow> i < j \<Longrightarrow> j < n \<Longrightarrow> snd (rs ! j) = snd (rs ! (j - 1)) \<Longrightarrow> I i (j + 1) rs"
    and len: "\<And>i j rs. I i j rs \<Longrightarrow> length rs = n"
    and "I i j rs" "i < j" "j \<le> n" "groupLoop f [j..<n + 1] i rs = Inr rs'"
  shows "I n (n + 1) rs'"
  using assms(4-)
proof (induction "n - j" arbitrary: i j rs)
  case 0
  then have "j = n" by simp
  with 0 len[OF 0(2)] obtain r where "f i n rs = Inr r" "r = rs'" by auto
  with f[OF 0(2,3)] \<open>j = n\<close> show ?case by auto
next
  case (Suc d)
  then have j: "[j..<n + 1] = j # [j + 1..<n + 1]" "j < n" by (auto simp: upt_rec)
  note l = len[OF Suc.prems(1)]
  show ?case
  proof (cases "snd (rs ! j) = snd (rs ! (j - 1))")
    case True
    then have "groupLoop f [j + 1..<n + 1] i rs = Inr rs'" using Suc.prems(4) j l by simp
    with Suc.hyps(1)[of "j + 1" i rs] skip[OF Suc.prems(1,2) j(2) True] Suc.hyps(2) Suc.prems(2) j show ?thesis by simp
  next
    case False
    then obtain r where r: "f i j rs = Inr r" "groupLoop f [j + 1..<n + 1] j r = Inr rs'"
      using Suc.prems(4) unfolding j(1) by (auto split: if_splits)
    have "I j (j + 1) r" using f[OF Suc.prems(1,2) _ _ r(1)] False j by simp
    with Suc.hyps(1)[of "j + 1" j r] Suc.hyps(2) r(2) j show ?thesis by simp
  qed
qed

subsection \<open>The invariant of the passes\<close>

text \<open>
  \<open>Ws\<close> is the list of the numbers of wins along the ranking after the first pass. Entries of equal rank have equal
  numbers of wins, so permuting them does not change it.
\<close>

definition passes_inv :: "(PlayerId \<Rightarrow> nat) \<Rightarrow> nat list \<Rightarrow> PlayerId list \<Rightarrow> nat \<Rightarrow> nat \<Rightarrow> ResultList \<Rightarrow> bool" where
  "passes_inv won Ws ids i j rs \<longleftrightarrow> length rs = length ids \<and> mset (map fst rs) = mset ids \<and> tie_ranks rs \<and>
     map (won \<circ> fst) rs = Ws \<and> (i < length rs \<longrightarrow> snd (rs ! i) = Some (i + 1)) \<and>
     (\<forall>k. i < k \<and> k < j \<longrightarrow> tie rs k) \<and>
     (\<forall>k < length rs. tie rs k \<longrightarrow> Ws ! k = Ws ! (k - 1))"

lemma passes_inv_length: "passes_inv won Ws ids i j rs \<Longrightarrow> length rs = length ids"
  by (simp add: passes_inv_def)

lemma passes_inv_restart:
  assumes "passes_inv won Ws ids i j rs" and "ids \<noteq> []"
  shows "passes_inv won Ws ids 0 1 rs"
proof -
  have "tie_ranks rs" "rs \<noteq> []" using assms by (auto simp: passes_inv_def)
  then have "snd (rs ! 0) = Some 1" using tie_ranks_def[of rs] by (auto simp: tie_def)
  with assms(1) show ?thesis by (simp add: passes_inv_def)
qed

lemma passes_inv_skip:
  "passes_inv won Ws ids i j rs \<Longrightarrow> i < j \<Longrightarrow> snd (rs ! j) = snd (rs ! (j - 1)) \<Longrightarrow> passes_inv won Ws ids i (j + 1) rs"
  by (auto simp: passes_inv_def tie_def less_Suc_eq)

lemma passes_inv_segment_const:
  assumes "passes_inv won Ws ids i j rs" and "i < j" "j \<le> length rs" and "i \<le> k" "k < j"
  shows "won (fst (rs ! k)) = Ws ! i"
proof -
  have w: "won (fst (rs ! l)) = Ws ! l" if "l < length rs" for l
    using assms(1) that by (auto simp: passes_inv_def)
  show ?thesis using assms(4,5)
proof (induction k)
  case 0
  have "0 < length rs" using assms(2,3) by linarith
  then show ?case using w[of 0] 0 by simp
next
  case (Suc k)
  show ?case
  proof (cases "i = Suc k")
    case True
    then show ?thesis using w[of i] assms(2,3) by simp
  next
    case False
    then have "tie rs (Suc k)" using Suc.prems assms(1) by (auto simp: passes_inv_def)
    then have "Ws ! Suc k = Ws ! k" using assms(1,3) Suc.prems by (auto simp: passes_inv_def)
    with Suc False w[of k] w[of "Suc k"] assms(3) show ?thesis by simp
  qed
qed
qed

lemma passes_inv_change:
  assumes inv: "passes_inv won Ws ids i j rs" and ij: "i < j" "j \<le> length ids"
    and stop: "j = length ids \<or> snd (rs ! j) \<noteq> snd (rs ! (j - 1))"
    and change: "segment_change i j rs rs'"
    and start: "snd (rs' ! i) = Some (i + 1)"
    and ranks: "\<And>k. i < k \<Longrightarrow> k < j \<Longrightarrow> snd (rs' ! k) = Some (k + 1) \<or> tie rs' k"
  shows "passes_inv won Ws ids j (j + 1) rs'"
proof -
  have len: "length rs = length ids" "length rs' = length ids"
    using inv change by (auto simp: passes_inv_def segment_change_def)
  have same: "rs' ! k = rs ! k" if "k < length rs" "k < i \<or> j \<le> k" for k
    using change that by (auto simp: segment_change_def)
  have same1: "rs' ! (k - 1) = rs ! (k - 1)" if "k < length rs" "k < i \<or> j < k" for k
  proof (rule same)
    show "k - 1 < length rs" "k - 1 < i \<or> j \<le> k - 1" using that by auto
  qed
  have jth: "snd (rs ! j) = Some (j + 1)" if "j < length ids"
    using inv stop that ij len by (auto simp: passes_inv_def tie_ranks_def tie_def)
  have tr: "tie_ranks rs'"
    unfolding tie_ranks_def
  proof (intro allI impI)
    fix k assume k: "k < length rs'"
    consider "k < i" | "k = i" | "i < k" "k < j" | "k = j" | "j < k" by linarith
    then show "snd (rs' ! k) = Some (k + 1) \<or> tie rs' k"
      using inv k len same[of k] same1[of k] start ranks jth
      by cases (auto simp: passes_inv_def tie_ranks_def tie_def)
  qed
  have wins: "won (fst (rs' ! k)) = Ws ! k" if "k < length rs" for k
  proof (cases "i \<le> k \<and> k < j")
    case True
    then have "fst (rs' ! k) \<in> fst ` {rs ! l |l. i \<le> l \<and> l < j}" using change by (auto simp: segment_change_def)
    then obtain l where "i \<le> l" "l < j" "fst (rs' ! k) = fst (rs ! l)" by auto
    then have "won (fst (rs' ! k)) = Ws ! i" using passes_inv_segment_const[OF inv ij(1), of l] ij len by simp
    moreover have "Ws ! k = won (fst (rs ! k))" using inv that by (auto simp: passes_inv_def)
    ultimately show ?thesis using passes_inv_segment_const[OF inv ij(1), of k] True ij len by simp
  next
    case False
    then show ?thesis using inv that same[of k] by (auto simp: passes_inv_def)
  qed
  have ties: "Ws ! k = Ws ! (k - 1)" if "k < length rs'" "tie rs' k" for k
  proof -
    have "k \<noteq> i" using tie_ranks_start[OF tr that(1)] start that(2) by auto
    moreover have "k \<noteq> j" using tie_ranks_start[OF tr that(1)] jth same[of j] that len by auto
    ultimately consider "i < k" "k < j" | "k < i \<or> j < k" by linarith
    then show ?thesis
    proof cases
      case 1
      have "tie rs k" using inv 1 by (auto simp: passes_inv_def)
      then show ?thesis using inv that(1) len by (auto simp: passes_inv_def)
    next
      case 2
      then have "tie rs k" using that same[of k] same1[of k] len by (auto simp: tie_def)
      then show ?thesis using inv that(1) len by (auto simp: passes_inv_def)
    qed
  qed
  have "map (won \<circ> fst) rs' = Ws"
    using wins inv len by (intro nth_equalityI) (auto simp: passes_inv_def)
  moreover have "mset (map fst rs') = mset ids" using inv change by (simp add: passes_inv_def segment_change_def)
  moreover have "j < length rs' \<longrightarrow> snd (rs' ! j) = Some (j + 1)" using jth same[of j] len by simp
  moreover have "\<forall>k. j < k \<and> k < j + 1 \<longrightarrow> tie rs' k" by auto
  ultimately show ?thesis unfolding passes_inv_def using len tr ties by blast
qed

subsection \<open>The result\<close>

text \<open>The number of matches of the pool that a player has won.\<close>

definition poolWins :: "PoolDrawSystem \<Rightarrow> CategoryStore \<Rightarrow> (PlayerId \<Rightarrow> nat) result" where
  "poolWins s c = foldE (countWin c (mPoolPlayers s)) (mPoolMatches s) (\<lambda>_. 0)"

lemma passes_inv_first:
  assumes "2 \<le> length ids"
    and rs: "rs = rankSegment won 0 (std_sort (\<lambda>x y. won (fst x) > won (fst y)) (map (\<lambda>(i, p). (p, Some (i + 1))) (enumerate 0 ids)))"
  shows "\<exists>Ws. passes_inv won Ws ids 0 1 rs \<and> sorted_wrt (\<ge>) Ws"
proof -
  define init where "init = map (\<lambda>(i, p). (p :: PlayerId, Some (i + 1))) (enumerate 0 ids)"
  define srt where "srt = std_sort (\<lambda>x y. won (fst x) > won (fst y)) init"
  have init: "map fst init = ids"
    by (auto simp: init_def intro!: nth_equalityI simp: nth_enumerate_eq)
  have rs': "rs = rankSegment won 0 srt" by (simp add: rs srt_def init_def)
  have len: "length srt = length ids" using init by (simp add: srt_def) (metis length_map)
  have fsts: "map fst rs = map fst srt" by (simp add: rs')
  then have f: "fst (rs ! k) = fst (srt ! k)" if "k < length ids" for k
    using that len by (metis length_map nth_map)
  have mset: "mset (map fst rs) = mset ids" unfolding fsts using init by (simp add: srt_def) (metis mset_map)
  have r: "if k = 0 then snd (rs ! k) = Some 1
      else if won (fst (srt ! k)) = won (fst (srt ! (k - 1))) then tie rs k else snd (rs ! k) = Some (k + 1)"
    if "k < length ids" for k
    using rankSegment_nth[of k srt won 0] that len by (auto simp: rs' tie_def split: if_splits)
  define Ws where "Ws = map (won \<circ> fst) rs"
  have "sorted_wrt (\<ge>) (map (won \<circ> fst) srt)"
    unfolding srt_def sorted_wrt_map using sorted_std_sort[of "won \<circ> fst" init] by simp
  then have "sorted_wrt (\<ge>) Ws" unfolding Ws_def by (metis fsts map_map)
  moreover have tr: "tie_ranks rs" 
    unfolding tie_ranks_def
  proof (intro allI impI)
    fix k assume "k < length rs"
    then show "snd (rs ! k) = Some (k + 1) \<or> tie rs k"
      using r[of k] len by (cases "k = 0") (auto simp: rs' split: if_splits)
  qed
  moreover have "Ws ! k = Ws ! (k - 1)" if "k < length ids" "tie rs k" for k
  proof -
    have "k \<noteq> 0" using that(2) by (simp add: tie_def)
    moreover have "snd (rs ! k) \<noteq> Some (k + 1)" using tie_ranks_start[OF tr] that len by (auto simp: rs')
    ultimately have "won (fst (srt ! k)) = won (fst (srt ! (k - 1)))" using r[OF that(1)] by (auto split: if_splits)
    with f[of k] f[of "k - 1"] that(1) len show ?thesis by (simp add: Ws_def rs')
  qed
  ultimately show ?thesis
    using mset r[of 0] assms(1) len by (intro exI[of _ Ws]) (auto simp: passes_inv_def Ws_def rs')
qed

text \<open>
  C11. When a pool with at least two players is finished and its results can be computed, they list every
  player of the pool exactly once, the ranks are 1 to n in this order, and the number of won matches never
  increases along the ranking.
\<close>
theorem pool_results_ranked:
  assumes "pool_getResults s ps c = Inr results" and "results \<noteq> []"
  shows "mset (map fst results) = mset (mPoolPlayers s) \<and>
    map snd results = map Some [1..<length (mPoolPlayers s) + 1] \<and>
    (\<exists>won. poolWins s c = Inr won \<and> sorted_wrt (\<ge>) (map (won \<circ> fst) results))"
proof -
  define ids where "ids = mPoolPlayers s"
  define n where "n = length ids"
  define init where "init = map (\<lambda>(i, p). (p :: PlayerId, Some (i + 1))) (enumerate 0 ids)"
  have n: "2 \<le> n" using assms by (auto simp: pool_getResults_def n_def ids_def split: if_splits)
  from assms n obtain r1 r2 where r1: "orderByWinsWithinGroup s c 0 n init = Inr r1"
    and r2: "groupLoop (orderByWinsWithinGroup s c) [1..<n + 1] 0 r1 = Inr r2"
    and r3: "groupLoop (orderByRemainingCriteria s ps c) [1..<n + 1] 0 r2 = Inr results"
    by (auto simp: pool_getResults_def n_def ids_def init_def Let_def split: if_splits)
  have fst_init: "map fst init = ids" and len_init: "length init = n"
    by (auto simp: init_def n_def intro!: nth_equalityI simp: nth_enumerate_eq)
  from r1 n obtain won where won: "poolWins s c = Inr won"
    and r1_eq: "r1 = rankSegment won 0 (std_sort (\<lambda>x y. won (fst x) > won (fst y)) init)"
    by (auto simp: orderByWinsWithinGroup_def Let_def fst_init len_init poolWins_def onSegment_def ids_def)
  obtain Ws where first: "passes_inv won Ws ids 0 1 r1" and sorted: "sorted_wrt (\<ge>) Ws"
    using passes_inv_first[of ids r1 won] n r1_eq by (auto simp: init_def n_def)
  have "passes_inv won Ws ids n (n + 1) r2"
  proof (rule groupLoop_invariant[of "passes_inv won Ws ids" n, OF _ _ _ first _ _ r2])
    fix i j rs rs'
    assume inv: "passes_inv won Ws ids i j rs" and ij: "i < j" "j \<le> n"
      and stop: "j = n \<or> snd (rs ! j) \<noteq> snd (rs ! (j - 1))" and f: "orderByWinsWithinGroup s c i j rs = Inr rs'"
    have "snd (rs ! i) = Some (i + 1)" "j \<le> length rs" using inv ij by (auto simp: passes_inv_def n_def)
    with orderByWins_change[OF f ij(1)] show "passes_inv won Ws ids j (j + 1) rs'"
      using passes_inv_change[OF inv ij(1)] ij(2) stop by (simp add: n_def)
  qed (use n in \<open>auto simp: n_def passes_inv_length intro: passes_inv_skip[simplified]\<close>)
  then have second: "passes_inv won Ws ids 0 1 r2 \<and> (\<forall>k < 0. snd (r2 ! k) = Some (k + 1))"
    using n passes_inv_restart[of won Ws ids n "n + 1" r2] by (cases ids) (simp_all add: n_def)
  have "passes_inv won Ws ids n (n + 1) results \<and> (\<forall>k < n. snd (results ! k) = Some (k + 1))"
  proof (rule groupLoop_invariant[of "\<lambda>i j rs. passes_inv won Ws ids i j rs \<and> (\<forall>k < i. snd (rs ! k) = Some (k + 1))" n,
        OF _ _ _ second _ _ r3])
    fix i j rs rs'
    assume inv: "passes_inv won Ws ids i j rs \<and> (\<forall>k < i. snd (rs ! k) = Some (k + 1))" and ij: "i < j" "j \<le> n"
      and stop: "j = n \<or> snd (rs ! j) \<noteq> snd (rs ! (j - 1))" and f: "orderByRemainingCriteria s ps c i j rs = Inr rs'"
    have *: "snd (rs ! i) = Some (i + 1)" "j \<le> length rs" using inv ij by (auto simp: passes_inv_def n_def)
    note ch = orderByRemaining_change[OF f ij(1) *(2,1)]
    have "snd (rs' ! k) = Some (k + 1)" if "k < j" for k
      using ch inv that ij *(2) by (cases "k < i") (auto simp: segment_change_def)
    with ch show "passes_inv won Ws ids j (j + 1) rs' \<and> (\<forall>k < j. snd (rs' ! k) = Some (k + 1))"
      using passes_inv_change[of won Ws ids i j rs rs'] inv ij stop by (simp add: n_def)
  qed (use n in \<open>auto simp: n_def passes_inv_length intro: passes_inv_skip[simplified]\<close>)
  then have inv: "passes_inv won Ws ids n (n + 1) results" and ranks: "k < n \<Longrightarrow> snd (results ! k) = Some (k + 1)" for k
    by auto
  then have "map snd results = map Some [1..<n + 1]"
    by (intro nth_equalityI) (auto simp: passes_inv_def n_def simp del: upt_Suc)
  then show ?thesis using inv won sorted by (auto simp: passes_inv_def n_def ids_def)
qed

definition finishedPoolMatch :: MatchStore where
  "finishedPoolMatch = setStatus FINISHED (updateScore BLUE (\<lambda>s. s\<lparr>ippon := True\<rparr>)
     (newMatchStore (CombinedId 7 1) ELIMINATION ''Pool'' False (Some 10) (Some 11)))"

definition finishedPool :: PoolDrawSystem where
  "finishedPool = \<lparr>mPoolMatches = [1], mPoolPlayers = [10, 11], mComposited = False\<rparr>"

definition finishedPoolCategory :: CategoryStore where
  "finishedPoolCategory = exampleCategory\<lparr>mMatches := [finishedPoolMatch], mMatchMap := [1 \<mapsto> 0]\<rparr>"

lemma finishedPool_results:
  "pool_getResults finishedPool Map.empty finishedPoolCategory = Inr [(11, Some 1), (10, Some 2)]"
  by (simp add: pool_getResults_def finishedPool_def finishedPoolCategory_def exampleCategory_def
      newCategoryStore_def newCategoryStatus_def status_isFinished_def category_getStatus_def
      orderByWinsWithinGroup_def countWin_def getMatch_def nthE_def finishedPoolMatch_def newMatchStore_def
      matchWinner_def getWinner_def store_simps newState_def newScore_def onSegment_def std_sort_def Let_def
      orderByRemainingCriteria_def upt_rec)

theorem pool_results_ranked_witness:
  "mset (map fst [(11 :: PlayerId, Some (1 :: nat)), (10, Some 2)]) = mset (mPoolPlayers finishedPool)"
  using pool_results_ranked[OF finishedPool_results] by simp

end
