(* ===== verification/Draw_Correctness.thy ===== *)
theory Draw_Correctness
  imports Pool_Results
begin

section \<open>Correctness of the draws\<close>

text \<open>
  What a draw adds to a category that has no matches yet (the state in which \<^verbatim>\<open>DrawCategoriesAction\<close> calls
  \<^verbatim>\<open>initCategory\<close>), and what the best-of-three system decides.
\<close>

subsection \<open>Drawing a pool\<close>

definition no_matches :: "CategoryStore \<Rightarrow> bool" where
  "no_matches c \<longleftrightarrow> mMatchMap c = Map.empty"

lemma generateMatchId_empty: "no_matches c \<Longrightarrow> generateMatchId c gen = Inr (mt_next gen)"
  by (simp add: generateMatchId_def no_matches_def containsMatch_def generate_unconstrained)

text \<open>The match an action adds is between the two players of a pair of the schedule.\<close>

definition plays :: "CategoryStore \<Rightarrow> AddMatchAction \<Rightarrow> PlayerId \<times> PlayerId \<Rightarrow> bool" where
  "plays c a pair \<longleftrightarrow> getCategoryId (add_combinedId a) = mCategoryId c \<and> add_type a = ELIMINATION \<and> \<not> add_bye a \<and>
     (\<exists>w b. add_white a = Some w \<and> add_blue a = Some b \<and> (w, b) \<in> {pair, (snd pair, fst pair)})"

lemma pool_createMatch_plays:
  assumes "no_matches c" and "ps (fst pair) \<noteq> None"
  shows "\<exists>a gen'. pool_createMatch s ps c pair gen = Inr (a, gen') \<and> plays c a pair"
  using assms
  by (cases pair; cases "mt_next gen")
    (auto simp: pool_createMatch_def generateMatchId_empty players_get_def plays_def Let_def)

lemma pool_createMatches_plays:
  assumes "no_matches c" and "\<forall>pair \<in> set pairs. ps (fst pair) \<noteq> None"
  shows "\<exists>as. pool_createMatches s ps c pairs gen = Inr as \<and> list_all2 (plays c) as pairs"
  using assms(2)
proof (induction pairs arbitrary: gen)
  case (Cons pair pairs)
  then obtain a gen' where a: "pool_createMatch s ps c pair gen = Inr (a, gen')" "plays c a pair"
    using pool_createMatch_plays[OF assms(1)] by (meson list.set_intros(1))
  obtain as where "pool_createMatches s ps c pairs gen' = Inr as" "list_all2 (plays c) as pairs"
    using Cons by (meson list.set_intros(2))
  with a show ?case by simp
qed simp

definition opponents :: "AddMatchAction \<Rightarrow> PlayerId set" where
  "opponents a = set_option (add_white a) \<union> set_option (add_blue a)"

lemma plays_opponents: "list_all2 (plays c) as pairs \<Longrightarrow> map opponents as = map (\<lambda>(x, y). {x, y}) pairs"
  by (induction rule: list_all2_induct) (auto simp: plays_def opponents_def)

lemma pool_initCategory_eq:
  assumes "no_matches c" and "\<forall>p \<in> set ids. ps p \<noteq> None" and "2 \<le> length ids"
    and order: "pool_matchOrder (fst (shuffle ids (mt_seed seed))) = Inr order"
    and members: "\<forall>pair \<in> set order. fst pair \<in> set ids"
  shows "\<exists>s' as. pool_initCategory s ps c ids seed = Inr (s', as) \<and>
    mset (mPoolPlayers s') = mset ids \<and> mPoolMatches s' = map addMatch_getMatchId as \<and>
    list_all2 (plays c) as order"
proof -
  have "\<forall>pair \<in> set order. ps (fst pair) \<noteq> None" using assms(2) members by blast
  from pool_createMatches_plays[OF assms(1) this,
    of "s\<lparr>mPoolPlayers := ids, mPoolMatches := [], mPoolPlayers := fst (shuffle ids (mt_seed seed))\<rparr>" "mt_seed seed"]
  obtain as where "pool_createMatches (s\<lparr>mPoolPlayers := ids, mPoolMatches := [],
      mPoolPlayers := fst (shuffle ids (mt_seed seed))\<rparr>) ps c order (mt_seed seed) = Inr as" "list_all2 (plays c) as order"
    by blast
  then show ?thesis using assms(3) order by (simp add: pool_initCategory_def Let_def)
qed

text \<open>
  C36. Drawing a pool with an even number of players, in a category without matches, succeeds, keeps the players
  and adds exactly one match between every two of them.
\<close>
theorem even_pool_draw:
  assumes "no_matches c" and "\<forall>p \<in> set ids. ps p \<noteq> None" and "distinct ids" and "even (length ids)" and "ids \<noteq> []"
  shows "\<exists>s' as. pool_initCategory s ps c ids seed = Inr (s', as) \<and>
    mset (mPoolPlayers s') = mset ids \<and> mPoolMatches s' = map addMatch_getMatchId as \<and>
    distinct (map opponents as) \<and> set (map opponents as) = {p. p \<subseteq> set ids \<and> card p = 2}"
proof -
  define shuffled where "shuffled = fst (shuffle ids (mt_seed seed))"
  have sh: "distinct shuffled" "even (length shuffled)" "set shuffled = set ids"
    using assms(3,4) by (simp_all add: shuffled_def)
  have ne: "shuffled \<noteq> []" using sh(3) assms(5) by auto
  obtain order where order: "createMatchOrderForEvenNumber shuffled = Inr order"
    "distinct (map (\<lambda>(x, y). {x, y}) order)"
    "set (map (\<lambda>(x, y). {x, y}) order) = {s. s \<subseteq> set ids \<and> card s = 2}"
    using even_schedule[OF sh(1,2) ne] sh(3) by auto
  have "fst pair \<in> set ids" if "pair \<in> set order" for pair
  proof -
    have "(\<lambda>(x, y). {x, y}) pair \<in> set (map (\<lambda>(x, y). {x, y}) order)" unfolding set_map by (rule imageI) (fact that)
    then have "(\<lambda>(x, y). {x, y}) pair \<in> {s. s \<subseteq> set ids \<and> card s = 2}" unfolding order(3) .
    then show ?thesis by (cases pair) auto
  qed
  moreover have "pool_matchOrder shuffled = Inr order"
    using order(1) sh(2)[unfolded even_iff_mod_2_eq_zero] by (simp add: pool_matchOrder_def)
  moreover have "2 \<le> length ids" using assms(4,5) by (cases ids; cases "tl ids") auto
  ultimately obtain s' as where "pool_initCategory s ps c ids seed = Inr (s', as)"
    "mset (mPoolPlayers s') = mset ids" "mPoolMatches s' = map addMatch_getMatchId as" "list_all2 (plays c) as order"
    using pool_initCategory_eq[OF assms(1,2), of seed order s] by (auto simp: shuffled_def)
  moreover from this have "map opponents as = map (\<lambda>(x, y). {x, y}) order" by (simp add: plays_opponents)
  ultimately show ?thesis using order(2,3) by (intro exI[of _ s'] exI[of _ as]) (simp del: set_map)
qed

definition twoPlayers :: Players where
  "twoPlayers = (\<lambda>p. if p \<in> {10, 11} then Some (newPlayerStore p
     \<lparr>firstName = ''A'', lastName = ''B'', age = None, rank = None, club = ''C'', weight = None,
      country = None, sex = None, blueJudogiHint = False\<rparr>) else None)"

theorem even_pool_draw_witness:
  "\<exists>s' as. pool_initCategory finishedPool twoPlayers exampleCategory [10, 11] 5 = Inr (s', as) \<and>
    mset (mPoolPlayers s') = mset [10, 11] \<and> mPoolMatches s' = map addMatch_getMatchId as \<and>
    distinct (map opponents as) \<and> set (map opponents as) = {p. p \<subseteq> set [10, 11] \<and> card p = 2}"
  by (rule even_pool_draw)
    (simp_all add: no_matches_def exampleCategory_def newCategoryStore_def twoPlayers_def)

end
