(* ===== verification/Tatami_Groups.thy ===== *)
theory Tatami_Groups
  imports Category_Store
begin

section \<open>Block groups of a tatami\<close>

text \<open>
  Models \<^verbatim>\<open>src/core/stores/tatami\<close>: \<^verbatim>\<open>SequentialBlockGroup\<close>, the iterator \<^verbatim>\<open>ConstMatchIterator\<close> over the
  matches of such a group, and \<^verbatim>\<open>ConcurrentBlockGroup\<close> with \<^verbatim>\<open>mergeMatchIterators\<close>. Of the tournament these
  classes only read the categories, which are an argument here.

  The abstract specification of an iterator is the list of matches it still visits (\<open>remaining\<close>), that of
  the merge loop is the concatenation of the transposed lists.
\<close>

type_synonym Categories = "CategoryId \<rightharpoonup> CategoryStore"
type_synonym Block = "CategoryId \<times> MatchType"

definition categories_get :: "CategoryId \<Rightarrow> Categories \<Rightarrow> CategoryStore result" where
  "categories_get i cs = (case cs i of None \<Rightarrow> Inl AssertionFailed | Some c \<Rightarrow> Inr c)"

subsection \<open>Sequential groups\<close>

record SequentialBlockGroup =
  mBlocks :: "Block list"
  mSequentialDuration :: int

definition newSequentialBlockGroup :: SequentialBlockGroup where
  "newSequentialBlockGroup = \<lparr>mBlocks = [], mSequentialDuration = 0\<rparr>"

definition eraseBlock :: "Block \<Rightarrow> SequentialBlockGroup \<Rightarrow> SequentialBlockGroup result" where
  "eraseBlock b g = assertE (b \<in> set (mBlocks g)) (Inr (g\<lparr>mBlocks := remove1 b (mBlocks g)\<rparr>))"

definition addBlock :: "nat \<Rightarrow> Block \<Rightarrow> SequentialBlockGroup \<Rightarrow> SequentialBlockGroup result" where
  "addBlock i b g = assertE (i \<le> length (mBlocks g)) (Inr (g\<lparr>mBlocks := insert_at i b (mBlocks g)\<rparr>))"

definition blockCount :: "SequentialBlockGroup \<Rightarrow> nat" where
  [store_simps]: "blockCount g = length (mBlocks g)"

definition block_at :: "nat \<Rightarrow> SequentialBlockGroup \<Rightarrow> Block result" where
  "block_at i g = assertE (blockCount g > i) (nthE (mBlocks g) i)"

definition block_getIndex :: "Block \<Rightarrow> SequentialBlockGroup \<Rightarrow> nat result" where
  "block_getIndex b g = assertE (b \<in> set (mBlocks g)) (Inr (index_of b (mBlocks g)))"

definition sequential_recompute :: "Categories \<Rightarrow> SequentialBlockGroup \<Rightarrow> SequentialBlockGroup result" where
  "sequential_recompute cs g = foldE (\<lambda>block g. bindE (categories_get (fst block) cs) (\<lambda>category.
     Inr (g\<lparr>mSequentialDuration := mSequentialDuration g + expectedDuration category (snd block)\<rparr>)))
     (mBlocks g) (g\<lparr>mSequentialDuration := 0\<rparr>)"

subsection \<open>The iterator over the matches of a sequential group\<close>

text \<open>
  \<^verbatim>\<open>mCurrentCategory\<close> and \<^verbatim>\<open>mCurrentType\<close> are set together and reset together (the type is only read while the
  pointer is not null): they are one optional pair. An index past the matches is out of range.
\<close>

record ConstMatchIterator =
  mCurrent :: "(CategoryStore \<times> MatchType) option"
  mCurrentBlock :: nat
  mCurrentMatch :: nat

definition loadCategory :: "Categories \<Rightarrow> SequentialBlockGroup \<Rightarrow> ConstMatchIterator \<Rightarrow> (CategoryStore \<times> MatchType) result" where
  "loadCategory cs g it =
     (case mCurrent it of
        Some cur \<Rightarrow> Inr cur
      | None \<Rightarrow> bindE (block_at (mCurrentBlock it) g) (\<lambda>block.
                bindE (categories_get (fst block) cs) (\<lambda>category. Inr (category, snd block))))"

function loadMatch :: "Categories \<Rightarrow> SequentialBlockGroup \<Rightarrow> ConstMatchIterator \<Rightarrow> ConstMatchIterator result" where
  "loadMatch cs g it =
     (if mCurrentBlock it = blockCount g then Inr it
      else bindE (loadCategory cs g it) (\<lambda>(category, type).
        if mCurrentMatch it = length (mMatches category) \<or> areMatchesHidden category
        then loadMatch cs g (it\<lparr>mCurrent := None, mCurrentBlock := mCurrentBlock it + 1, mCurrentMatch := 0\<rparr>)
        else bindE (nthE (mMatches category) (mCurrentMatch it)) (\<lambda>match.
          if isPermanentBye match
          then loadMatch cs g (it\<lparr>mCurrent := Some (category, type), mCurrentMatch := mCurrentMatch it + 1\<rparr>)
          else if type \<noteq> mType match
          then loadMatch cs g (it\<lparr>mCurrent := Some (category, type), mCurrentMatch := mCurrentMatch it + 1\<rparr>)
          else Inr (it\<lparr>mCurrent := Some (category, type)\<rparr>))))"
  by pat_completeness auto

definition blocksLeft :: "SequentialBlockGroup \<Rightarrow> ConstMatchIterator \<Rightarrow> nat" where
  "blocksLeft g it =
     (if mCurrentBlock it < blockCount g then 2 * (blockCount g - mCurrentBlock it) + (if mCurrent it = None then 2 else 1)
      else if mCurrent it = None then 0 else 1)"

definition matchesLeft :: "ConstMatchIterator \<Rightarrow> nat" where
  "matchesLeft it = (case mCurrent it of None \<Rightarrow> 0 | Some (c, t) \<Rightarrow> length (mMatches c) - mCurrentMatch it)"

lemma loadCategory_eq_Inr:
  "loadCategory cs g it = Inr cur \<longleftrightarrow> mCurrent it = Some cur \<or>
     mCurrent it = None \<and> mCurrentBlock it < blockCount g \<and>
     (\<exists>c. cs (fst (mBlocks g ! mCurrentBlock it)) = Some c \<and> cur = (c, snd (mBlocks g ! mCurrentBlock it)))"
  by (auto simp: loadCategory_def block_at_def categories_get_def store_simps nthE_Inr split: option.splits)

termination loadMatch
proof (relation "measures [\<lambda>(cs, g, it). blocksLeft g it, \<lambda>(cs, g, it). matchesLeft it]", goal_cases)
  case (2 cs g it cur category type)
  then show ?case by (auto simp: blocksLeft_def loadCategory_eq_Inr)
next
  case (3 cs g it cur category type match)
  then show ?case by (auto simp: blocksLeft_def matchesLeft_def loadCategory_eq_Inr)
next
  case (4 cs g it cur category type match)
  then show ?case by (auto simp: blocksLeft_def matchesLeft_def loadCategory_eq_Inr)
qed simp

declare loadMatch.simps [simp del]

definition newConstMatchIterator :: "Categories \<Rightarrow> SequentialBlockGroup \<Rightarrow> nat \<Rightarrow> nat \<Rightarrow> ConstMatchIterator result" where
  "newConstMatchIterator cs g block match =
     loadMatch cs g \<lparr>mCurrent = None, mCurrentBlock = block, mCurrentMatch = match\<rparr>"

definition iterator_next :: "Categories \<Rightarrow> SequentialBlockGroup \<Rightarrow> ConstMatchIterator \<Rightarrow> ConstMatchIterator result" where
  "iterator_next cs g it = loadMatch cs g (it\<lparr>mCurrentMatch := mCurrentMatch it + 1\<rparr>)"

definition iterator_deref :: "ConstMatchIterator \<Rightarrow> CombinedId result" where
  "iterator_deref it =
     (case mCurrent it of
        None \<Rightarrow> Inl AssertionFailed
      | Some (category, _) \<Rightarrow> bindE (nthE (mMatches category) (mCurrentMatch it)) (\<lambda>match.
          Inr (CombinedId (mCategoryId category) (match_getId match))))"

definition iterator_eq :: "ConstMatchIterator \<Rightarrow> ConstMatchIterator \<Rightarrow> bool" where
  "iterator_eq a b \<longleftrightarrow> mCurrentBlock a = mCurrentBlock b \<and> mCurrentMatch a = mCurrentMatch b"

definition matchesBegin :: "Categories \<Rightarrow> SequentialBlockGroup \<Rightarrow> ConstMatchIterator result" where
  "matchesBegin cs g = newConstMatchIterator cs g 0 0"

definition matchesEnd :: "Categories \<Rightarrow> SequentialBlockGroup \<Rightarrow> ConstMatchIterator result" where
  "matchesEnd cs g = newConstMatchIterator cs g (length (mBlocks g)) 0"

subsection \<open>What the iterator visits\<close>

definition visibleMatches :: "CategoryStore \<Rightarrow> MatchType \<Rightarrow> MatchStore list \<Rightarrow> CombinedId list" where
  "visibleMatches c t ms =
     (if areMatchesHidden c then []
      else map (\<lambda>m. CombinedId (mCategoryId c) (match_getId m)) (filter (\<lambda>m. \<not> isPermanentBye m \<and> mType m = t) ms))"

definition blockMatches :: "Categories \<Rightarrow> Block \<Rightarrow> CombinedId list" where
  "blockMatches cs b = (case cs (fst b) of None \<Rightarrow> [] | Some c \<Rightarrow> visibleMatches c (snd b) (mMatches c))"

definition groupMatches :: "Categories \<Rightarrow> Block list \<Rightarrow> CombinedId list" where
  "groupMatches cs bs = concat (map (blockMatches cs) bs)"

definition remaining :: "Categories \<Rightarrow> SequentialBlockGroup \<Rightarrow> ConstMatchIterator \<Rightarrow> CombinedId list" where
  "remaining cs g it =
     (case mCurrent it of
        None \<Rightarrow> groupMatches cs (drop (mCurrentBlock it) (mBlocks g))
      | Some (c, t) \<Rightarrow> visibleMatches c t (drop (mCurrentMatch it) (mMatches c)) @
          groupMatches cs (drop (Suc (mCurrentBlock it)) (mBlocks g)))"

definition blocks_exist :: "Categories \<Rightarrow> SequentialBlockGroup \<Rightarrow> bool" where
  "blocks_exist cs g \<longleftrightarrow> (\<forall>b \<in> set (mBlocks g). cs (fst b) \<noteq> None)"

definition iter_ok :: "Categories \<Rightarrow> SequentialBlockGroup \<Rightarrow> ConstMatchIterator \<Rightarrow> bool" where
  "iter_ok cs g it \<longleftrightarrow> mCurrentBlock it \<le> blockCount g \<and>
     (case mCurrent it of
        None \<Rightarrow> mCurrentMatch it = 0
      | Some (c, t) \<Rightarrow> mCurrentBlock it < blockCount g \<and> mCurrentMatch it \<le> length (mMatches c))"

definition loaded :: "SequentialBlockGroup \<Rightarrow> ConstMatchIterator \<Rightarrow> bool" where
  "loaded g it \<longleftrightarrow>
     (case mCurrent it of
        None \<Rightarrow> mCurrentBlock it = blockCount g
      | Some (c, t) \<Rightarrow> mCurrentMatch it < length (mMatches c) \<and> \<not> areMatchesHidden c \<and>
          \<not> isPermanentBye (mMatches c ! mCurrentMatch it) \<and> mType (mMatches c ! mCurrentMatch it) = t)"

lemma visibleMatches_simps [simp]:
  "visibleMatches c t [] = []"
  "areMatchesHidden c \<Longrightarrow> visibleMatches c t ms = []"
  "visibleMatches c t (m # ms) = (if areMatchesHidden c \<or> isPermanentBye m \<or> mType m \<noteq> t then visibleMatches c t ms
     else CombinedId (mCategoryId c) (match_getId m) # visibleMatches c t ms)"
  by (simp_all add: visibleMatches_def)

lemma visibleMatches_drop:
  "k < length ms \<Longrightarrow> visibleMatches c t (drop k ms) = visibleMatches c t (ms ! k # drop (Suc k) ms)"
  by (simp add: Cons_nth_drop_Suc)

lemma remaining_loadCategory:
  assumes "iter_ok cs g it" and "mCurrentBlock it \<noteq> blockCount g" and "loadCategory cs g it = Inr (c, t)"
  shows "remaining cs g it = visibleMatches c t (drop (mCurrentMatch it) (mMatches c)) @
      groupMatches cs (drop (Suc (mCurrentBlock it)) (mBlocks g))"
    and "mCurrentMatch it \<le> length (mMatches c)" and "mCurrentBlock it < blockCount g"
proof -
  show lt: "mCurrentBlock it < blockCount g" using assms(1,2) by (auto simp: iter_ok_def)
  show "mCurrentMatch it \<le> length (mMatches c)"
    using assms by (auto simp: iter_ok_def loadCategory_eq_Inr split: option.splits)
  show "remaining cs g it = visibleMatches c t (drop (mCurrentMatch it) (mMatches c)) @
      groupMatches cs (drop (Suc (mCurrentBlock it)) (mBlocks g))"
  proof (cases "mCurrent it")
    case None
    have "drop (mCurrentBlock it) (mBlocks g) = mBlocks g ! mCurrentBlock it # drop (Suc (mCurrentBlock it)) (mBlocks g)"
      using lt by (simp add: Cons_nth_drop_Suc store_simps)
    with None assms(1,3) show ?thesis
      by (auto simp: remaining_def groupMatches_def blockMatches_def loadCategory_eq_Inr iter_ok_def)
  next
    case (Some cur)
    with assms(3) show ?thesis by (auto simp: remaining_def loadCategory_eq_Inr)
  qed
qed

lemma loadCategory_total:
  assumes "iter_ok cs g it" and "blocks_exist cs g" and "mCurrentBlock it \<noteq> blockCount g"
  shows "\<exists>c t. loadCategory cs g it = Inr (c, t)"
proof (cases "mCurrent it")
  case None
  have lt: "mCurrentBlock it < blockCount g" using assms(1,3) by (auto simp: iter_ok_def)
  then have "mBlocks g ! mCurrentBlock it \<in> set (mBlocks g)" by (simp add: store_simps)
  with assms(2) obtain c where "cs (fst (mBlocks g ! mCurrentBlock it)) = Some c"
    unfolding blocks_exist_def by blast
  with None lt show ?thesis by (auto simp: loadCategory_eq_Inr)
qed (auto simp: loadCategory_eq_Inr)

text \<open>Loading keeps what remains and stops at a visible match or at the end.\<close>

lemma loadMatch_remaining:
  assumes "iter_ok cs g it" and "blocks_exist cs g"
  shows "\<exists>it'. loadMatch cs g it = Inr it' \<and> iter_ok cs g it' \<and> loaded g it' \<and> remaining cs g it' = remaining cs g it"
  using assms
proof (induction cs g it rule: loadMatch.induct)
  case (1 cs g it)
  show ?case
  proof (cases "mCurrentBlock it = blockCount g")
    case True
    then show ?thesis using 1(4) by (auto simp: loadMatch.simps[of cs g it] loaded_def iter_ok_def split: option.splits)
  next
    case False
    from loadCategory_total[OF 1(4,5) False] obtain c t where ct: "loadCategory cs g it = Inr (c, t)" by blast
    note rem = remaining_loadCategory[OF 1(4) False ct]
    let ?skip = "it\<lparr>mCurrent := None, mCurrentBlock := mCurrentBlock it + 1, mCurrentMatch := 0\<rparr>"
    let ?step = "it\<lparr>mCurrent := Some (c, t), mCurrentMatch := mCurrentMatch it + 1\<rparr>"
    show ?thesis
    proof (cases "mCurrentMatch it = length (mMatches c) \<or> areMatchesHidden c")
      case True
      then have "remaining cs g ?skip = remaining cs g it" using rem(1) by (auto simp: remaining_def)
      moreover have "iter_ok cs g ?skip" using rem(3) by (simp add: iter_ok_def)
      ultimately show ?thesis using 1(1)[OF False ct refl True] 1(5) ct False True
        by (simp add: loadMatch.simps[of cs g it])
    next
      case open': False
      then have lt: "mCurrentMatch it < length (mMatches c)" using rem(2) by simp
      let ?m = "mMatches c ! mCurrentMatch it"
      have m: "nthE (mMatches c) (mCurrentMatch it) = Inr ?m" using lt by simp
      have ok: "iter_ok cs g ?step" using rem(3) lt by (simp add: iter_ok_def)
      show ?thesis
      proof (cases "isPermanentBye ?m \<or> t \<noteq> mType ?m")
        case True
        then have "remaining cs g ?step = remaining cs g it"
          using rem(1) lt by (auto simp: remaining_def visibleMatches_drop)
        with True show ?thesis using 1(2)[OF False ct refl open' m] 1(3)[OF False ct refl open' m] 1(5) ct False open' m ok
          by (cases "isPermanentBye ?m") (simp_all add: loadMatch.simps[of cs g it] nthE_Inr)
      next
        case False': False
        then show ?thesis using rem ct False open' m lt
          by (simp add: loadMatch.simps[of cs g it] nthE_Inr loaded_def iter_ok_def remaining_def)
      qed
    qed
  qed
qed

lemma loaded_remaining:
  assumes "iter_ok cs g it" and "loaded g it"
  shows "remaining cs g it = [] \<longleftrightarrow> mCurrentBlock it = blockCount g"
    and "mCurrentBlock it = blockCount g \<longleftrightarrow> mCurrentBlock it = blockCount g \<and> mCurrentMatch it = 0"
    and "mCurrentBlock it \<noteq> blockCount g \<Longrightarrow> iterator_deref it = Inr (hd (remaining cs g it)) \<and>
      iter_ok cs g (it\<lparr>mCurrentMatch := mCurrentMatch it + 1\<rparr>) \<and>
      remaining cs g (it\<lparr>mCurrentMatch := mCurrentMatch it + 1\<rparr>) = tl (remaining cs g it)"
  using assms
  by (auto simp: loaded_def iter_ok_def remaining_def iterator_deref_def groupMatches_def visibleMatches_drop
      store_simps nthE_Inr split: option.splits)

text \<open>An iterator stands for a list when it is loaded and the list remains.\<close>

definition iter_rel :: "Categories \<Rightarrow> SequentialBlockGroup \<Rightarrow> ConstMatchIterator \<Rightarrow> CombinedId list \<Rightarrow> bool" where
  "iter_rel cs g it xs \<longleftrightarrow> iter_ok cs g it \<and> loaded g it \<and> blocks_exist cs g \<and> remaining cs g it = xs"

lemma iter_rel_begin:
  assumes "blocks_exist cs g"
  shows "\<exists>it. matchesBegin cs g = Inr it \<and> iter_rel cs g it (groupMatches cs (mBlocks g))"
  using loadMatch_remaining[of cs g "\<lparr>mCurrent = None, mCurrentBlock = 0, mCurrentMatch = 0\<rparr>"] assms
  by (auto simp: matchesBegin_def newConstMatchIterator_def iter_rel_def iter_ok_def remaining_def)

lemma matchesEnd_eq: "matchesEnd cs g = Inr \<lparr>mCurrent = None, mCurrentBlock = blockCount g, mCurrentMatch = 0\<rparr>"
  by (simp add: matchesEnd_def newConstMatchIterator_def loadMatch.simps store_simps)

lemma iter_rel_Nil:
  assumes "iter_rel cs g it xs"
  shows "iterator_eq it \<lparr>mCurrent = None, mCurrentBlock = blockCount g, mCurrentMatch = 0\<rparr> \<longleftrightarrow> xs = []"
  using assms loaded_remaining[of cs g it] by (auto simp: iter_rel_def iterator_eq_def)

lemma iter_rel_Cons:
  assumes "iter_rel cs g it (x # xs)"
  shows "iterator_deref it = Inr x \<and> (\<exists>it'. iterator_next cs g it = Inr it' \<and> iter_rel cs g it' xs)"
proof -
  from assms have *: "iter_ok cs g it" "loaded g it" "blocks_exist cs g" "remaining cs g it = x # xs"
    by (auto simp: iter_rel_def)
  with loaded_remaining[OF *(1,2)] have "mCurrentBlock it \<noteq> blockCount g" by auto
  with loaded_remaining(3)[OF *(1,2)] *(4) show ?thesis
    using loadMatch_remaining[OF _ *(3), of "it\<lparr>mCurrentMatch := mCurrentMatch it + 1\<rparr>"] *(3)
    by (auto simp: iterator_next_def iter_rel_def)
qed

subsection \<open>Merging iterators\<close>

text \<open>
  The loop of \<^verbatim>\<open>mergeMatchIterators\<close> over a queue of indices. Each turn drops an index or advances an
  iterator, so the number of iterators and of matches of their blocks bounds the turns; the fuel is one more.
  An iterator refers to its group, which is passed beside it.
\<close>

fun mergeIterators_loop ::
  "nat \<Rightarrow> Categories \<Rightarrow> SequentialBlockGroup list \<Rightarrow> ConstMatchIterator list \<Rightarrow> ConstMatchIterator list \<Rightarrow>
   nat list \<Rightarrow> CombinedId list \<Rightarrow> CombinedId list result" where
  "mergeIterators_loop 0 cs gs its ends queue matches = Inl OutOfFuel"
| "mergeIterators_loop (Suc n) cs gs its ends [] matches = Inr matches"
| "mergeIterators_loop (Suc n) cs gs its ends (index # queue) matches =
     bindE (nthE gs index) (\<lambda>g. bindE (nthE its index) (\<lambda>it. bindE (nthE ends index) (\<lambda>end_it.
       if iterator_eq it end_it then mergeIterators_loop n cs gs its ends queue matches
       else bindE (iterator_deref it) (\<lambda>m. bindE (iterator_next cs g it) (\<lambda>it'.
         mergeIterators_loop n cs gs (its[index := it']) ends (queue @ [index]) (matches @ [m]))))))"

definition mergeFuel :: "Categories \<Rightarrow> SequentialBlockGroup list \<Rightarrow> nat" where
  "mergeFuel cs gs = Suc (sum_list (map (\<lambda>g. Suc (sum_list (map (\<lambda>b. case cs (fst b) of
     None \<Rightarrow> 0 | Some c \<Rightarrow> length (mMatches c)) (mBlocks g)))) gs))"

definition mergeMatchIterators ::
  "Categories \<Rightarrow> SequentialBlockGroup list \<Rightarrow> ConstMatchIterator list \<Rightarrow> ConstMatchIterator list \<Rightarrow> CombinedId list result" where
  "mergeMatchIterators cs gs its ends =
     mergeIterators_loop (mergeFuel cs gs) cs gs its ends [0..<length its] []"

text \<open>The same queue of lists instead of iterators.\<close>

function roundRobin :: "'a list list \<Rightarrow> 'a list" where
  "roundRobin [] = []"
| "roundRobin ([] # q) = roundRobin q"
| "roundRobin ((x # xs) # q) = x # roundRobin (q @ [xs])"
  by pat_completeness auto
termination by (relation "measure (\<lambda>q. sum_list (map (\<lambda>xs. Suc (length xs)) q))") auto

lemma roundRobin_round:
  "roundRobin (q @ r) = [h. (h # t) \<leftarrow> q] @ roundRobin (r @ [t. (h # t) \<leftarrow> q])"
proof (induction q arbitrary: r)
  case (Cons xs q)
  then show ?case by (cases xs) simp_all
qed simp

lemma roundRobin_transpose: "roundRobin q = concat (transpose q)"
proof (induction q rule: transpose.induct)
  case (3 x xs xss)
  have "roundRobin ((x # xs) # xss) = x # [h. (h # t) \<leftarrow> xss] @ roundRobin (xs # [t. (h # t) \<leftarrow> xss])"
    using roundRobin_round[of xss "[xs]"] by simp
  with 3 show ?case by simp
qed simp_all

lemma mergeIterators_loop_roundRobin:
  assumes "distinct queue" and "set queue \<subseteq> {..<length gs}" and "length its = length gs" and "length ls = length gs"
    and "\<forall>i \<in> set queue. iter_rel cs (gs ! i) (its ! i) (ls ! i)"
    and "ends = map (\<lambda>g. \<lparr>mCurrent = None, mCurrentBlock = blockCount g, mCurrentMatch = 0\<rparr>) gs"
    and "sum_list (map (\<lambda>i. Suc (length (ls ! i))) queue) < n"
  shows "mergeIterators_loop n cs gs its ends queue acc = Inr (acc @ roundRobin (map ((!) ls) queue))"
  using assms
proof (induction n arbitrary: its ls queue acc)
  case (Suc n)
  show ?case
  proof (cases queue)
    case (Cons i q)
    then have i: "i < length gs" and rel: "iter_rel cs (gs ! i) (its ! i) (ls ! i)" and q: "i \<notin> set q" "distinct q"
      using Suc.prems by auto
    note eq = iter_rel_Nil[OF rel]
    show ?thesis
    proof (cases "ls ! i")
      case Nil
      have "mergeIterators_loop n cs gs its ends q acc = Inr (acc @ roundRobin (map ((!) ls) q))"
        by (rule Suc.IH) (use Suc.prems Cons in auto)
      with Nil Cons i eq Suc.prems(3,6) show ?thesis by (simp add: nthE_Inr)
    next
      case (Cons x xs)
      with rel iter_rel_Cons obtain it' where it': "iterator_deref (its ! i) = Inr x"
        "iterator_next cs (gs ! i) (its ! i) = Inr it'" "iter_rel cs (gs ! i) it' xs" by metis
      have upd: "ls[i := xs] ! j = ls ! j" if "j \<in> set q" for j using q that by (metis nth_list_update_neq)
      then have new: "map ((!) ls) q @ [xs] = map ((!) (ls[i := xs])) (q @ [i])" using Suc.prems(4) i by simp
      have "mergeIterators_loop n cs gs (its[i := it']) ends (q @ [i]) (acc @ [x]) =
        Inr ((acc @ [x]) @ roundRobin (map ((!) ls) q @ [xs]))"
        unfolding new
      proof (rule Suc.IH)
        have "sum_list (map (\<lambda>j. Suc (length (ls[i := xs] ! j))) q) = sum_list (map (\<lambda>j. Suc (length (ls ! j))) q)"
          by (rule arg_cong[where f = sum_list]) (simp add: upd)
        then show "sum_list (map (\<lambda>j. Suc (length (ls[i := xs] ! j))) (q @ [i])) < n"
          using Suc.prems(4,7) \<open>queue = i # q\<close> Cons i by (simp add: o_def)
      qed (use Suc.prems \<open>queue = i # q\<close> it'(3) q i in \<open>auto simp: nth_list_update\<close>)
      then show ?thesis using \<open>queue = i # q\<close> Cons i eq it' Suc.prems(3,4,6) by (simp add: nthE_Inr)
    qed
  qed simp
qed simp

lemma groupMatches_length:
  "length (groupMatches cs bs) \<le> sum_list (map (\<lambda>b. case cs (fst b) of None \<Rightarrow> 0 | Some c \<Rightarrow> length (mMatches c)) bs)"
proof (induction bs)
  case (Cons b bs)
  have "length (blockMatches cs b) \<le> (case cs (fst b) of None \<Rightarrow> 0 | Some c \<Rightarrow> length (mMatches c))"
    by (auto simp: blockMatches_def visibleMatches_def split: option.splits)
  with Cons show ?case by (simp add: groupMatches_def)
qed (simp add: groupMatches_def)

lemma mergeMatchIterators_transpose:
  assumes "list_all2 (\<lambda>g it. iter_rel cs g it (groupMatches cs (mBlocks g))) gs its"
    and "ends = map (\<lambda>g. \<lparr>mCurrent = None, mCurrentBlock = blockCount g, mCurrentMatch = 0\<rparr>) gs"
  shows "mergeMatchIterators cs gs its ends = Inr (concat (transpose (map (\<lambda>g. groupMatches cs (mBlocks g)) gs)))"
proof -
  let ?ls = "map (\<lambda>g. groupMatches cs (mBlocks g)) gs"
  have len: "length its = length gs" using assms(1) by (simp add: list_all2_lengthD)
  have "map ((!) ?ls) [0..<length its] = ?ls" using len by (metis length_map map_nth)
  moreover have "mergeIterators_loop (mergeFuel cs gs) cs gs its ends [0..<length its] [] =
    Inr ([] @ roundRobin (map ((!) ?ls) [0..<length its]))"
  proof (rule mergeIterators_loop_roundRobin)
    have "map (\<lambda>i. Suc (length (?ls ! i))) [0..<length its] = map (\<lambda>l. Suc (length l)) ?ls"
      unfolding len by (rule nth_equalityI) simp_all
    then have "sum_list (map (\<lambda>i. Suc (length (?ls ! i))) [0..<length its]) =
      sum_list (map (\<lambda>g. Suc (length (groupMatches cs (mBlocks g)))) gs)" by (simp add: o_def)
    also have "\<dots> < mergeFuel cs gs"
      unfolding mergeFuel_def by (rule le_imp_less_Suc) (rule sum_list_mono, simp add: groupMatches_length)
    finally show "sum_list (map (\<lambda>i. Suc (length (?ls ! i))) [0..<length its]) < mergeFuel cs gs" .
  qed (use assms len in \<open>auto simp: list_all2_conv_all_nth\<close>)
  ultimately show ?thesis by (simp add: mergeMatchIterators_def roundRobin_transpose)
qed

subsection \<open>Concurrent groups\<close>

datatype GroupStatus = GROUP_NOT_STARTED | GROUP_STARTED | GROUP_FINISHED

record ConcurrentBlockGroup =
  mSequentialGroups :: "SequentialBlockGroup PositionManager"
  mGroupMatches :: "CombinedId list"
  mGroupStatus :: GroupStatus
  mGroupMatchMap :: "CombinedId \<rightharpoonup> nat"
  mConcurrentDuration :: int
  mStartedMatches :: "CombinedId set"
  mFinishedMatches :: "CombinedId set"

definition newConcurrentBlockGroup :: ConcurrentBlockGroup where
  "newConcurrentBlockGroup =
     \<lparr>mSequentialGroups = pm_new, mGroupMatches = [], mGroupStatus = GROUP_NOT_STARTED, mGroupMatchMap = Map.empty,
      mConcurrentDuration = 0, mStartedMatches = {}, mFinishedMatches = {}\<rparr>"

definition concurrent_eraseGroup :: "PositionHandle \<Rightarrow> ConcurrentBlockGroup \<Rightarrow> ConcurrentBlockGroup" where
  "concurrent_eraseGroup h g = g\<lparr>mSequentialGroups := pm_erase h (mSequentialGroups g)\<rparr>"

definition concurrent_containsGroup :: "PositionHandle \<Rightarrow> ConcurrentBlockGroup \<Rightarrow> bool" where
  "concurrent_containsGroup h g \<longleftrightarrow> pm_containsHandle h (mSequentialGroups g)"

definition concurrent_getHandle :: "nat \<Rightarrow> ConcurrentBlockGroup \<Rightarrow> PositionHandle result" where
  "concurrent_getHandle i g = assertE (i < pm_size (mSequentialGroups g)) (pm_getHandle i (mSequentialGroups g))"

definition concurrent_getIndex :: "PositionHandle \<Rightarrow> ConcurrentBlockGroup \<Rightarrow> nat result" where
  "concurrent_getIndex h g = pm_getIndex h (mSequentialGroups g)"

definition concurrent_groupCount :: "ConcurrentBlockGroup \<Rightarrow> nat" where
  "concurrent_groupCount g = pm_size (mSequentialGroups g)"

definition concurrent_setStatus :: "GroupStatus \<Rightarrow> ConcurrentBlockGroup \<Rightarrow> ConcurrentBlockGroup" where
  "concurrent_setStatus s g = g\<lparr>mGroupStatus := s\<rparr>"

definition concurrent_generateLocation ::
  "ConcurrentGroupLocation \<Rightarrow> nat \<Rightarrow> ConcurrentBlockGroup \<Rightarrow> mt19937 \<Rightarrow> (SequentialGroupLocation \<times> mt19937) result" where
  "concurrent_generateLocation l index g eng =
     (case pm_generateId (mSequentialGroups g) eng of
        None \<Rightarrow> Inl Diverges
      | Some (i, eng') \<Rightarrow> Inr (SequentialGroupLocation l (PositionHandle i index), eng'))"

definition concurrent_at :: "PositionHandle \<Rightarrow> ConcurrentBlockGroup \<Rightarrow> SequentialBlockGroup result" where
  "concurrent_at h g = pm_at h (mSequentialGroups g)"

definition concurrent_atIndex :: "nat \<Rightarrow> ConcurrentBlockGroup \<Rightarrow> SequentialBlockGroup result" where
  "concurrent_atIndex i g = pm_atIndex i (mSequentialGroups g)"

text \<open>\<^verbatim>\<open>operator[]\<close>, and the assignment through the reference that it and \<^verbatim>\<open>at\<close> return.\<close>

definition concurrent_subscript :: "PositionHandle \<Rightarrow> ConcurrentBlockGroup \<Rightarrow> SequentialBlockGroup \<times> ConcurrentBlockGroup" where
  "concurrent_subscript h g =
     (let (s, pm) = pm_subscript newSequentialBlockGroup h (mSequentialGroups g) in (s, g\<lparr>mSequentialGroups := pm\<rparr>))"

definition concurrent_put :: "PositionHandle \<Rightarrow> SequentialBlockGroup \<Rightarrow> ConcurrentBlockGroup \<Rightarrow> ConcurrentBlockGroup" where
  "concurrent_put h s g = g\<lparr>mSequentialGroups := pm_put h s (mSequentialGroups g)\<rparr>"

definition recomputeStatus :: "ConcurrentBlockGroup \<Rightarrow> ConcurrentBlockGroup" where
  "recomputeStatus g =
     (if length (mGroupMatches g) = card (mFinishedMatches g) then g\<lparr>mGroupStatus := GROUP_FINISHED\<rparr>
      else if mStartedMatches g \<noteq> {} \<or> mFinishedMatches g \<noteq> {} then g\<lparr>mGroupStatus := GROUP_STARTED\<rparr>
      else g\<lparr>mGroupStatus := GROUP_NOT_STARTED\<rparr>)"

text \<open>The loop that collects the groups with their iterators, and the loop over the merged matches.\<close>

definition collectIterators ::
  "Categories \<Rightarrow> ConcurrentBlockGroup \<Rightarrow>
   (int \<times> SequentialBlockGroup list \<times> ConstMatchIterator list \<times> ConstMatchIterator list) result" where
  "collectIterators cs g = foldE (\<lambda>i (d, gs, begins, ends).
     bindE (concurrent_atIndex i g) (\<lambda>s.
     bindE (matchesBegin cs s) (\<lambda>b. bindE (matchesEnd cs s) (\<lambda>e.
       Inr (d + mSequentialDuration s, gs @ [s], begins @ [b], ends @ [e])))))
     [0..<concurrent_groupCount g] (0, [], [], [])"

definition insertMatch :: "Categories \<Rightarrow> CombinedId \<Rightarrow> ConcurrentBlockGroup \<Rightarrow> ConcurrentBlockGroup result" where
  "insertMatch cs i g =
     (let g1 = g\<lparr>mGroupMatchMap := (mGroupMatchMap g)(i \<mapsto> length (mGroupMatches g)),
                 mGroupMatches := mGroupMatches g @ [i]\<rparr>
      in bindE (categories_get (getCategoryId i) cs) (\<lambda>category.
         bindE (getMatch (getMatchId i) category) (\<lambda>match.
           Inr (if getStatus match = FINISHED then g1\<lparr>mFinishedMatches := insert i (mFinishedMatches g1)\<rparr>
                else if getStatus match \<noteq> NOT_STARTED then g1\<lparr>mStartedMatches := insert i (mStartedMatches g1)\<rparr>
                else g1))))"

definition concurrent_recompute :: "Categories \<Rightarrow> ConcurrentBlockGroup \<Rightarrow> ConcurrentBlockGroup result" where
  "concurrent_recompute cs g =
     bindE (collectIterators cs g) (\<lambda>(d, gs, begins, ends).
     bindE (mergeMatchIterators cs gs begins ends) (\<lambda>ids.
     bindE (foldE (insertMatch cs) ids
       (g\<lparr>mGroupMatches := [], mGroupMatchMap := Map.empty, mStartedMatches := {}, mFinishedMatches := {},
          mConcurrentDuration := d\<rparr>)) (\<lambda>g'.
     Inr (recomputeStatus g'))))"

definition concurrent_updateStatus :: "MatchStore \<Rightarrow> ConcurrentBlockGroup \<Rightarrow> ConcurrentBlockGroup" where
  "concurrent_updateStatus match g =
     (let i = mCombinedId match;
          g1 = (if getStatus match = FINISHED
                then if i \<notin> mFinishedMatches g
                     then g\<lparr>mFinishedMatches := insert i (mFinishedMatches g), mStartedMatches := mStartedMatches g - {i}\<rparr>
                     else g
                else if getStatus match \<noteq> NOT_STARTED
                then if i \<notin> mStartedMatches g
                     then g\<lparr>mStartedMatches := insert i (mStartedMatches g), mFinishedMatches := mFinishedMatches g - {i}\<rparr>
                     else g
                else g\<lparr>mStartedMatches := mStartedMatches g - {i}, mFinishedMatches := mFinishedMatches g - {i}\<rparr>)
      in recomputeStatus g1)"

end
