(* ===== verification/Tatami_Schedule.thy ===== *)
theory Tatami_Schedule
  imports Tatami_Groups
begin

section \<open>The schedule of a concurrent group\<close>

text \<open>
  What \<^verbatim>\<open>ConcurrentBlockGroup::recompute\<close> and \<^verbatim>\<open>updateStatus\<close> compute: the matches of the sequential groups in
  turns, the started and finished ones among them, and the status. The incremental update agrees with
  recomputing the group from the changed category.
\<close>

definition sequentialGroups :: "ConcurrentBlockGroup \<Rightarrow> SequentialBlockGroup list" where
  "sequentialGroups g = map snd (entries (mSequentialGroups g))"

definition categories_wf :: "Categories \<Rightarrow> bool" where
  "categories_wf cs \<longleftrightarrow> (\<forall>i c. cs i = Some c \<longrightarrow> mCategoryId c = i \<and> matches_inv c)"

definition group_wf :: "Categories \<Rightarrow> ConcurrentBlockGroup \<Rightarrow> bool" where
  "group_wf cs g \<longleftrightarrow> pm_inv (mSequentialGroups g) \<and> (\<forall>s \<in> set (sequentialGroups g). blocks_exist cs s)"

definition scheduledMatches :: "Categories \<Rightarrow> ConcurrentBlockGroup \<Rightarrow> CombinedId list" where
  "scheduledMatches cs g = concat (transpose (map (\<lambda>s. groupMatches cs (mBlocks s)) (sequentialGroups g)))"

definition statusOf :: "Categories \<Rightarrow> CombinedId \<Rightarrow> MatchStatus option" where
  "statusOf cs i =
     (case cs (getCategoryId i) of
        None \<Rightarrow> None
      | Some c \<Rightarrow> (case getMatch (getMatchId i) c of Inl _ \<Rightarrow> None | Inr m \<Rightarrow> Some (getStatus m)))"

definition finishedOf :: "Categories \<Rightarrow> CombinedId list \<Rightarrow> CombinedId set" where
  "finishedOf cs ids = {i \<in> set ids. statusOf cs i = Some FINISHED}"

definition startedOf :: "Categories \<Rightarrow> CombinedId list \<Rightarrow> CombinedId set" where
  "startedOf cs ids = {i \<in> set ids. \<exists>s. statusOf cs i = Some s \<and> s \<noteq> FINISHED \<and> s \<noteq> NOT_STARTED}"

definition withMatches :: "Categories \<Rightarrow> CombinedId list \<Rightarrow> ConcurrentBlockGroup \<Rightarrow> ConcurrentBlockGroup" where
  "withMatches cs ids g = g\<lparr>mGroupMatches := ids, mGroupMatchMap := map_of (rev (zip ids [0..<length ids])),
     mStartedMatches := startedOf cs ids, mFinishedMatches := finishedOf cs ids,
     mConcurrentDuration := sum_list (map mSequentialDuration (sequentialGroups g))\<rparr>"

lemma sequentialGroups_length: "length (sequentialGroups g) = concurrent_groupCount g"
  by (simp add: sequentialGroups_def entries_def concurrent_groupCount_def pm_size_def)

lemma concurrent_atIndex_eq:
  "pm_inv (mSequentialGroups g) \<Longrightarrow> i < length (sequentialGroups g) \<Longrightarrow> concurrent_atIndex i g = Inr (sequentialGroups g ! i)"
  by (simp add: concurrent_atIndex_def pm_atIndex_entries sequentialGroups_def)

lemma collectIterators_eq:
  assumes "group_wf cs g"
  shows "\<exists>begins. collectIterators cs g = Inr (sum_list (map mSequentialDuration (sequentialGroups g)), sequentialGroups g, begins,
      map (\<lambda>s. \<lparr>mCurrent = None, mCurrentBlock = blockCount s, mCurrentMatch = 0\<rparr>) (sequentialGroups g)) \<and>
    list_all2 (\<lambda>s it. iter_rel cs s it (groupMatches cs (mBlocks s))) (sequentialGroups g) begins"
proof -
  let ?gs = "sequentialGroups g"
  let ?atEnd = "\<lambda>s. \<lparr>mCurrent = None, mCurrentBlock = blockCount s, mCurrentMatch = 0\<rparr>"
  let ?f = "\<lambda>i (d, gs, begins, ends). bindE (concurrent_atIndex i g) (\<lambda>s.
     bindE (matchesBegin cs s) (\<lambda>b. bindE (matchesEnd cs s) (\<lambda>e.
       Inr (d + mSequentialDuration s, gs @ [s], begins @ [b], ends @ [e]))))"
  have "\<exists>begins. foldE ?f [0..<k] (0, [], [], []) =
      Inr (sum_list (map mSequentialDuration (take k ?gs)), take k ?gs, begins, map ?atEnd (take k ?gs)) \<and>
    list_all2 (\<lambda>s it. iter_rel cs s it (groupMatches cs (mBlocks s))) (take k ?gs) begins" if "k \<le> length ?gs" for k
    using that
  proof (induction k)
    case (Suc k)
    then have k: "k < length ?gs" by simp
    then have at: "concurrent_atIndex k g = Inr (?gs ! k)"
      using concurrent_atIndex_eq assms by (simp add: group_wf_def)
    have "blocks_exist cs (?gs ! k)" using assms k by (simp add: group_wf_def)
    with iter_rel_begin obtain it where it: "matchesBegin cs (?gs ! k) = Inr it"
      "iter_rel cs (?gs ! k) it (groupMatches cs (mBlocks (?gs ! k)))" by blast
    from Suc obtain begins where b: "foldE ?f [0..<k] (0, [], [], []) =
      Inr (sum_list (map mSequentialDuration (take k ?gs)), take k ?gs, begins, map ?atEnd (take k ?gs))"
      "list_all2 (\<lambda>s it. iter_rel cs s it (groupMatches cs (mBlocks s))) (take k ?gs) begins" by auto
    show ?case
      by (rule exI[of _ "begins @ [it]"])
        (use at it b k in \<open>simp add: foldE_append matchesEnd_eq take_Suc_conv_app_nth list_all2_appendI\<close>)
  qed simp
  from this[of "length ?gs"] show ?thesis by (simp add: collectIterators_def sequentialGroups_length)
qed

lemma groupMatches_found:
  assumes "categories_wf cs" and "i \<in> set (groupMatches cs bs)"
  shows "\<exists>c m. cs (getCategoryId i) = Some c \<and> getMatch (getMatchId i) c = Inr m"
proof -
  from assms(2) obtain b where "i \<in> set (blockMatches cs b)" by (auto simp: groupMatches_def)
  then obtain c m where "cs (fst b) = Some c" "m \<in> set (mMatches c)" "i = CombinedId (mCategoryId c) (match_getId m)"
    by (cases "cs (fst b)") (auto simp: blockMatches_def visibleMatches_def split: if_splits)
  with assms(1) show ?thesis by (auto simp: categories_wf_def getMatch_eq_Inr)
qed

lemma set_concat_transpose: "set (concat (transpose xss)) = set (concat xss)"
proof -
  have "mset (roundRobin q) = mset (concat q)" for q :: "'a list list"
    by (induction q rule: roundRobin.induct) simp_all
  then show ?thesis by (metis roundRobin_transpose set_mset_mset)
qed

lemma scheduledMatches_found:
  assumes "categories_wf cs" and "i \<in> set (scheduledMatches cs g)"
  shows "\<exists>c m. cs (getCategoryId i) = Some c \<and> getMatch (getMatchId i) c = Inr m"
  using assms(2) groupMatches_found[OF assms(1)] unfolding scheduledMatches_def set_concat_transpose by auto

lemma insertMatches_eq:
  assumes "\<forall>i \<in> set ids. \<exists>c m. cs (getCategoryId i) = Some c \<and> getMatch (getMatchId i) c = Inr m"
  shows "foldE (insertMatch cs) ids (withMatches cs [] g) = Inr (withMatches cs ids g)"
  using assms
proof (induction ids rule: rev_induct)
  case (snoc i ids)
  from snoc.prems obtain c m where "cs (getCategoryId i) = Some c" "getMatch (getMatchId i) c = Inr m" by auto
  moreover from this have "statusOf cs i = Some (getStatus m)" by (simp add: statusOf_def)
  moreover have "finishedOf cs (ids @ [i]) = finishedOf cs ids \<union> (if statusOf cs i = Some FINISHED then {i} else {})"
    by (auto simp: finishedOf_def)
  moreover have "startedOf cs (ids @ [i]) = startedOf cs ids \<union>
    (if \<exists>s. statusOf cs i = Some s \<and> s \<noteq> FINISHED \<and> s \<noteq> NOT_STARTED then {i} else {})"
    by (auto simp: startedOf_def)
  ultimately show ?case using snoc
    by (simp add: foldE_append insertMatch_def categories_get_def withMatches_def Let_def)
qed simp

lemma concurrent_recompute_eq:
  assumes "categories_wf cs" and "group_wf cs g"
  shows "concurrent_recompute cs g = Inr (recomputeStatus (withMatches cs (scheduledMatches cs g) g))"
proof -
  obtain begins where b: "collectIterators cs g = Inr (sum_list (map mSequentialDuration (sequentialGroups g)), sequentialGroups g, begins,
      map (\<lambda>s. \<lparr>mCurrent = None, mCurrentBlock = blockCount s, mCurrentMatch = 0\<rparr>) (sequentialGroups g))"
    "list_all2 (\<lambda>s it. iter_rel cs s it (groupMatches cs (mBlocks s))) (sequentialGroups g) begins"
    using collectIterators_eq[OF assms(2)] by blast
  have "\<forall>i \<in> set (scheduledMatches cs g). \<exists>c m. cs (getCategoryId i) = Some c \<and> getMatch (getMatchId i) c = Inr m"
    using scheduledMatches_found[OF assms(1)] by blast
  from insertMatches_eq[OF this, of g]
  show ?thesis using b(1) mergeMatchIterators_transpose[OF b(2) refl]
    by (simp add: concurrent_recompute_def scheduledMatches_def withMatches_def startedOf_def finishedOf_def)
qed

subsection \<open>Properties\<close>

lemma distinct_concat_transpose: "distinct (concat (transpose xss)) = distinct (concat xss)"
proof -
  have "mset (roundRobin q) = mset (concat q)" for q :: "'a list list"
    by (induction q rule: roundRobin.induct) simp_all
  then show ?thesis by (metis roundRobin_transpose mset_eq_imp_distinct_iff)
qed

lemma finished_all:
  assumes "distinct ids"
  shows "length ids = card (finishedOf cs ids) \<longleftrightarrow> (\<forall>i \<in> set ids. statusOf cs i = Some FINISHED)"
proof -
  have "finishedOf cs ids \<subseteq> set ids" by (auto simp: finishedOf_def)
  then have "card (set ids) = card (finishedOf cs ids) \<longleftrightarrow> finishedOf cs ids = set ids"
    by (metis List.finite_set card_subset_eq)
  then show ?thesis using assms by (auto simp: distinct_card finishedOf_def)
qed

text \<open>
  C12. Recomputing a concurrent group whose blocks belong to existing categories succeeds. The schedule takes one
  visible match of each sequential group in turn; the started and finished matches are those whose status says
  so; and, when no match is scheduled twice, the group is finished exactly if every match is, and not started
  exactly if there is a match and none is started or finished.
\<close>
theorem recompute_schedule:
  assumes "categories_wf cs" and "group_wf cs g" and "distinct (concat (map (\<lambda>s. groupMatches cs (mBlocks s)) (sequentialGroups g)))"
  shows "\<exists>g'. concurrent_recompute cs g = Inr g' \<and> mSequentialGroups g' = mSequentialGroups g \<and>
    mGroupMatches g' = concat (transpose (map (\<lambda>s. groupMatches cs (mBlocks s)) (sequentialGroups g))) \<and>
    mStartedMatches g' = startedOf cs (mGroupMatches g') \<and> mFinishedMatches g' = finishedOf cs (mGroupMatches g') \<and>
    (mGroupStatus g' = GROUP_FINISHED \<longleftrightarrow> (\<forall>i \<in> set (mGroupMatches g'). statusOf cs i = Some FINISHED)) \<and>
    (mGroupStatus g' = GROUP_NOT_STARTED \<longleftrightarrow>
      mGroupMatches g' \<noteq> [] \<and> (\<forall>i \<in> set (mGroupMatches g'). statusOf cs i = Some NOT_STARTED))"
proof -
  let ?ids = "scheduledMatches cs g"
  have d: "distinct ?ids" using assms(3) by (simp only: scheduledMatches_def distinct_concat_transpose)
  have "statusOf cs i \<noteq> None" if "i \<in> set ?ids" for i
    using scheduledMatches_found[OF assms(1) that] by (auto simp: statusOf_def)
  then have "finishedOf cs ?ids = {} \<and> startedOf cs ?ids = {} \<longleftrightarrow> (\<forall>i \<in> set ?ids. statusOf cs i = Some NOT_STARTED)"
    by (auto simp: finishedOf_def startedOf_def)
  then show ?thesis
    using concurrent_recompute_eq[OF assms(1,2)] finished_all[OF d, of cs] unfolding scheduledMatches_def[symmetric]
    by (auto simp: recomputeStatus_def withMatches_def)
qed

definition exampleMatches :: CategoryStore where
  "exampleMatches = exampleCategory\<lparr>mMatches := [newMatchStore (CombinedId 7 1) FINAL ''Final'' False None None],
     mMatchMap := [1 \<mapsto> 0], mMatchCount := (\<lambda>_. 0)(FINAL := 1)\<rparr>"

definition exampleGroup :: ConcurrentBlockGroup where
  "exampleGroup = newConcurrentBlockGroup\<lparr>mSequentialGroups :=
     \<lparr>mIds = [4], mElements = [4 \<mapsto> \<lparr>mBlocks = [(7, FINAL)], mSequentialDuration = 0\<rparr>]\<rparr>\<rparr>"

lemma exampleMatches_inv: "matches_inv exampleMatches"
  by (auto simp: exampleMatches_def exampleCategory_def newCategoryStore_def matches_inv_def countMatches_def
      match_getId_def newMatchStore_def isPermanentBye_def)

lemma exampleGroup_wf:
  "categories_wf [7 \<mapsto> exampleMatches]" "group_wf [7 \<mapsto> exampleMatches] exampleGroup"
  "scheduledMatches [7 \<mapsto> exampleMatches] exampleGroup = [CombinedId 7 1]"
  "distinct (concat (map (\<lambda>s. groupMatches [7 \<mapsto> exampleMatches] (mBlocks s)) (sequentialGroups exampleGroup)))"
proof -
  have g: "sequentialGroups exampleGroup = [\<lparr>mBlocks = [(7, FINAL)], mSequentialDuration = 0\<rparr>]"
    by (simp add: sequentialGroups_def exampleGroup_def entries_def)
  show "categories_wf [7 \<mapsto> exampleMatches]"
    using exampleMatches_inv by (auto simp: categories_wf_def exampleMatches_def exampleCategory_def newCategoryStore_def)
  show "group_wf [7 \<mapsto> exampleMatches] exampleGroup"
    by (simp add: group_wf_def g blocks_exist_def) (simp add: exampleGroup_def pm_inv_def)
  have m: "groupMatches [7 \<mapsto> exampleMatches] [(7, FINAL)] = [CombinedId 7 1]" by code_simp
  then show "scheduledMatches [7 \<mapsto> exampleMatches] exampleGroup = [CombinedId 7 1]"
    "distinct (concat (map (\<lambda>s. groupMatches [7 \<mapsto> exampleMatches] (mBlocks s)) (sequentialGroups exampleGroup)))"
    by (simp_all add: scheduledMatches_def g)
qed

theorem recompute_schedule_witness:
  "\<exists>g'. concurrent_recompute [7 \<mapsto> exampleMatches] exampleGroup = Inr g' \<and> mGroupMatches g' = [CombinedId 7 1]"
  using recompute_schedule[OF exampleGroup_wf(1,2,4)] exampleGroup_wf(3) unfolding scheduledMatches_def by auto

text \<open>Writing a match back that keeps identifier, type and permanent bye keeps the schedule.\<close>

lemma visibleMatches_update:
  assumes "k < length ms" and "mType m = mType (ms ! k)" and "mPermanentBye m = mPermanentBye (ms ! k)"
    and "match_getId m = match_getId (ms ! k)" and "mCategoryId c' = mCategoryId c" and "mMatchesHidden c' = mMatchesHidden c"
  shows "visibleMatches c' t (ms[k := m]) = visibleMatches c t ms"
proof -
  have "visibleMatches c' t (xs @ m # ys) = visibleMatches c t (xs @ ms ! k # ys)" for xs ys
    using assms(2-6) by (simp add: visibleMatches_def isPermanentBye_def areMatchesHidden_def)
  then show ?thesis
    using upd_conv_take_nth_drop[OF assms(1), of m] id_take_nth_drop[OF assms(1)] by metis
qed

lemma putMatch_blockMatches:
  assumes "cs j = Some c" and "getMatch k c = Inr m" and "putMatch k m' c = Inr c'"
    and "mCombinedId m' = mCombinedId m" "mType m' = mType m" "mPermanentBye m' = mPermanentBye m"
  shows "blockMatches (cs(j \<mapsto> c')) b = blockMatches cs b"
  using assms
  by (auto simp: blockMatches_def putMatch_eq_Inr getMatch_def visibleMatches_update match_getId_def)

lemma putMatch_statusOf:
  assumes "matches_inv c" and "cs j = Some c" and "getMatch k c = Inr m" and "putMatch k m' c = Inr c'"
  shows "statusOf (cs(j \<mapsto> c')) = (statusOf cs)(CombinedId j k \<mapsto> getStatus m')"
proof
  fix i
  show "statusOf (cs(j \<mapsto> c')) i = ((statusOf cs)(CombinedId j k \<mapsto> getStatus m')) i"
    using assms(2) matches.put_same[OF assms(1,4)] matches.put_other[OF assms(1,4), of "getMatchId i"]
    by (cases i) (auto simp: statusOf_def)
qed

lemma putMatch_scheduled:
  assumes "cs j = Some c" and "getMatch k c = Inr m" and "putMatch k m' c = Inr c'"
    and "mCombinedId m' = mCombinedId m" "mType m' = mType m" "mPermanentBye m' = mPermanentBye m"
  shows "scheduledMatches (cs(j \<mapsto> c')) g = scheduledMatches cs g"
proof -
  have "blockMatches (cs(j \<mapsto> c')) = blockMatches cs" by (rule ext) (rule putMatch_blockMatches[of cs j, OF assms])
  then show ?thesis by (simp add: scheduledMatches_def groupMatches_def)
qed

lemma putMatch_wf:
  assumes "categories_wf cs" and "cs j = Some c" and "getMatch k c = Inr m" and "putMatch k m' c = Inr c'"
    and "mCombinedId m' = mCombinedId m" "mType m' = mType m" "mPermanentBye m' = mPermanentBye m"
  shows "categories_wf (cs(j \<mapsto> c'))" and "group_wf cs g \<Longrightarrow> group_wf (cs(j \<mapsto> c')) g"
proof -
  have "mCategoryId c' = mCategoryId c" using assms(4) by (auto simp: putMatch_eq_Inr)
  moreover have "matches_inv c" using assms(1,2) by (auto simp: categories_wf_def)
  ultimately show "categories_wf (cs(j \<mapsto> c'))"
    using matches_inv_putMatch[OF _ assms(3-7)] assms(1,2) by (auto simp: categories_wf_def)
  show "group_wf cs g \<Longrightarrow> group_wf (cs(j \<mapsto> c')) g" by (auto simp: group_wf_def blocks_exist_def)
qed

lemma recomputeStatus_status:
  "recomputeStatus (g\<lparr>mGroupStatus := st\<rparr>) = recomputeStatus g"
  "recomputeStatus (g\<lparr>mGroupStatus := st, mStartedMatches := s\<rparr>) = recomputeStatus (g\<lparr>mStartedMatches := s\<rparr>)"
  "recomputeStatus (g\<lparr>mGroupStatus := st, mFinishedMatches := f\<rparr>) = recomputeStatus (g\<lparr>mFinishedMatches := f\<rparr>)"
  "recomputeStatus (g\<lparr>mGroupStatus := st, mFinishedMatches := f, mStartedMatches := s\<rparr>) =
     recomputeStatus (g\<lparr>mFinishedMatches := f, mStartedMatches := s\<rparr>)"
  "recomputeStatus (g\<lparr>mGroupStatus := st, mStartedMatches := s, mFinishedMatches := f\<rparr>) =
     recomputeStatus (g\<lparr>mStartedMatches := s, mFinishedMatches := f\<rparr>)"
  by (simp_all add: recomputeStatus_def)

lemma updateStatus_withMatches:
  assumes "i \<in> set ids" and "statusOf cs' = (statusOf cs)(i \<mapsto> getStatus m)" and "mCombinedId m = i"
  shows "concurrent_updateStatus m (recomputeStatus (withMatches cs ids g)) = recomputeStatus (withMatches cs' ids g)"
proof -
  have f: "finishedOf cs' ids = (if getStatus m = FINISHED then insert i (finishedOf cs ids) else finishedOf cs ids - {i})"
    using assms(1,2) by (auto simp: finishedOf_def)
  have s: "startedOf cs' ids = (if getStatus m \<noteq> FINISHED \<and> getStatus m \<noteq> NOT_STARTED
      then insert i (startedOf cs ids) else startedOf cs ids - {i})"
    using assms(1,2) by (auto simp: startedOf_def)
  have d: "i \<in> finishedOf cs ids \<Longrightarrow> i \<notin> startedOf cs ids" by (auto simp: finishedOf_def startedOf_def)
  have set': "concurrent_updateStatus m (g'\<lparr>mGroupStatus := st\<rparr>) = concurrent_updateStatus m g'" for g' st
  proof (cases "mCombinedId m \<in> mFinishedMatches g'"; cases "mCombinedId m \<in> mStartedMatches g'"; cases "getStatus m")
  qed (simp_all add: concurrent_updateStatus_def recomputeStatus_status)
  have "concurrent_updateStatus m (recomputeStatus g') = concurrent_updateStatus m g'" for g'
    by (simp add: recomputeStatus_def set')
  moreover have "concurrent_updateStatus m (withMatches cs ids g) = recomputeStatus (withMatches cs' ids g)"
    using d by (cases g) (simp add: concurrent_updateStatus_def assms(3) withMatches_def f s insert_absorb Let_def)
  ultimately show ?thesis by simp
qed



end
