(* ===== verification/Tatami_List.thy ===== *)
theory Tatami_List
  imports Tatami_Schedule
begin

section \<open>Tatamis and the list of tatamis\<close>

text \<open>
  Models \<^verbatim>\<open>TatamiStore\<close> and \<^verbatim>\<open>TatamiList\<close> (\<^verbatim>\<open>src/core/stores/tatami\<close>): position managers nested three deep.
  The pointers that \<^verbatim>\<open>moveBlock\<close> keeps refer to elements of hash maps, which stay where they are until
  erased; a pointer is modelled by the handles that lead to its element, and an assignment through it by
  updating the element under these handles.
\<close>

record TatamiStore =
  mConcurrentGroups :: "ConcurrentBlockGroup PositionManager"

record TatamiList =
  mTatamis :: "TatamiStore PositionManager"

definition newTatamiStore :: TatamiStore where
  "newTatamiStore = \<lparr>mConcurrentGroups = pm_new\<rparr>"

definition newTatamiList :: TatamiList where
  "newTatamiList = \<lparr>mTatamis = pm_new\<rparr>"

subsection \<open>TatamiStore\<close>

definition tatami_eraseGroup :: "PositionHandle \<Rightarrow> TatamiStore \<Rightarrow> TatamiStore" where
  "tatami_eraseGroup h t = t\<lparr>mConcurrentGroups := pm_erase h (mConcurrentGroups t)\<rparr>"

definition tatami_containsGroup :: "PositionHandle \<Rightarrow> TatamiStore \<Rightarrow> bool" where
  "tatami_containsGroup h t \<longleftrightarrow> pm_containsHandle h (mConcurrentGroups t)"

definition tatami_getHandle :: "nat \<Rightarrow> TatamiStore \<Rightarrow> PositionHandle result" where
  "tatami_getHandle i t = pm_getHandle i (mConcurrentGroups t)"

definition tatami_getIndex :: "PositionHandle \<Rightarrow> TatamiStore \<Rightarrow> nat result" where
  "tatami_getIndex h t = pm_getIndex h (mConcurrentGroups t)"

definition tatami_groupCount :: "TatamiStore \<Rightarrow> nat" where
  "tatami_groupCount t = pm_size (mConcurrentGroups t)"

definition tatami_generateLocation ::
  "TatamiLocation \<Rightarrow> nat \<Rightarrow> TatamiStore \<Rightarrow> mt19937 \<Rightarrow> (SequentialGroupLocation \<times> mt19937) result" where
  "tatami_generateLocation l index t eng =
     (case pm_generateId (mConcurrentGroups t) eng of
        None \<Rightarrow> Inl Diverges
      | Some (ci, eng1) \<Rightarrow>
         (case pm_generateId (mConcurrentGroups t) eng1 of
            None \<Rightarrow> Inl Diverges
          | Some (si, eng2) \<Rightarrow>
              Inr (SequentialGroupLocation (ConcurrentGroupLocation l (PositionHandle ci index)) (PositionHandle si index), eng2)))"

definition tatami_subscript :: "PositionHandle \<Rightarrow> TatamiStore \<Rightarrow> ConcurrentBlockGroup \<times> TatamiStore" where
  "tatami_subscript h t =
     (let (g, pm) = pm_subscript newConcurrentBlockGroup h (mConcurrentGroups t) in (g, t\<lparr>mConcurrentGroups := pm\<rparr>))"

definition tatami_at :: "PositionHandle \<Rightarrow> TatamiStore \<Rightarrow> ConcurrentBlockGroup result" where
  "tatami_at h t = pm_at h (mConcurrentGroups t)"

definition tatami_atIndex :: "nat \<Rightarrow> TatamiStore \<Rightarrow> ConcurrentBlockGroup result" where
  "tatami_atIndex i t = pm_atIndex i (mConcurrentGroups t)"

definition tatami_put :: "PositionHandle \<Rightarrow> ConcurrentBlockGroup \<Rightarrow> TatamiStore \<Rightarrow> TatamiStore" where
  "tatami_put h g t = t\<lparr>mConcurrentGroups := pm_put h g (mConcurrentGroups t)\<rparr>"

subsection \<open>TatamiList\<close>

definition eraseTatami :: "PositionHandle \<Rightarrow> TatamiList \<Rightarrow> TatamiList result" where
  "eraseTatami h l = assertE (pm_containsHandle h (mTatamis l)) (Inr (l\<lparr>mTatamis := pm_erase h (mTatamis l)\<rparr>))"

definition containsTatami :: "TatamiLocation \<Rightarrow> TatamiList \<Rightarrow> bool" where
  "containsTatami loc l \<longleftrightarrow> pm_containsHandle (tatami_handle loc) (mTatamis l)"

definition list_getHandle :: "nat \<Rightarrow> TatamiList \<Rightarrow> PositionHandle result" where
  "list_getHandle i l = pm_getHandle i (mTatamis l)"

definition list_getIndex :: "PositionHandle \<Rightarrow> TatamiList \<Rightarrow> nat result" where
  "list_getIndex h l = pm_getIndex h (mTatamis l)"

definition tatamiCount :: "TatamiList \<Rightarrow> nat" where
  "tatamiCount l = pm_size (mTatamis l)"

definition list_generateLocation :: "nat \<Rightarrow> TatamiList \<Rightarrow> mt19937 \<Rightarrow> (TatamiLocation \<times> mt19937) result" where
  "list_generateLocation index l eng =
     (case pm_generateId (mTatamis l) eng of
        None \<Rightarrow> Inl Diverges
      | Some (i, eng') \<Rightarrow> Inr (TatamiLocation (PositionHandle i index), eng'))"

definition list_subscript :: "PositionHandle \<Rightarrow> TatamiList \<Rightarrow> TatamiStore \<times> TatamiList" where
  "list_subscript h l = (let (t, pm) = pm_subscript newTatamiStore h (mTatamis l) in (t, l\<lparr>mTatamis := pm\<rparr>))"

definition insertTatami :: "PositionHandle \<Rightarrow> TatamiList \<Rightarrow> TatamiList" where
  "insertTatami h l = l\<lparr>mTatamis := pm_insert newTatamiStore h (mTatamis l)\<rparr>"

definition list_at :: "PositionHandle \<Rightarrow> TatamiList \<Rightarrow> TatamiStore result" where
  "list_at h l = pm_at h (mTatamis l)"

definition list_atIndex :: "nat \<Rightarrow> TatamiList \<Rightarrow> TatamiStore result" where
  "list_atIndex i l = pm_atIndex i (mTatamis l)"

definition list_put :: "PositionHandle \<Rightarrow> TatamiStore \<Rightarrow> TatamiList \<Rightarrow> TatamiList" where
  "list_put h t l = l\<lparr>mTatamis := pm_put h t (mTatamis l)\<rparr>"

definition list_atConcurrent :: "ConcurrentGroupLocation \<Rightarrow> TatamiList \<Rightarrow> ConcurrentBlockGroup result" where
  "list_atConcurrent loc l = bindE (list_at (tatami_handle (loc_tatami loc)) l) (tatami_at (concurrent_handle loc))"

definition list_atSequential :: "SequentialGroupLocation \<Rightarrow> TatamiList \<Rightarrow> SequentialBlockGroup result" where
  "list_atSequential loc l =
     bindE (list_atConcurrent (concurrentGroup loc) l) (concurrent_at (sequential_handle loc))"

definition refreshLocation :: "BlockLocation \<Rightarrow> Block \<Rightarrow> TatamiList \<Rightarrow> BlockLocation result" where
  "refreshLocation loc block l =
     bindE (list_getIndex (getTatamiHandle loc) l) (\<lambda>ti.
     bindE (list_at (getTatamiHandle loc) l) (\<lambda>tatami.
     bindE (tatami_getIndex (getConcurrentGroupHandle loc) tatami) (\<lambda>ci.
     bindE (tatami_at (getConcurrentGroupHandle loc) tatami) (\<lambda>group.
     bindE (concurrent_getIndex (getSequentialGroupHandle loc) group) (\<lambda>si.
     bindE (concurrent_at (getSequentialGroupHandle loc) group) (\<lambda>sgroup.
     bindE (block_getIndex block sgroup) (\<lambda>p.
       Inr (BlockLocation (SequentialGroupLocation (ConcurrentGroupLocation
         (TatamiLocation (PositionHandle (handle_id (getTatamiHandle loc)) ti))
         (PositionHandle (handle_id (getConcurrentGroupHandle loc)) ci))
         (PositionHandle (handle_id (getSequentialGroupHandle loc)) si)) p))))))))"

subsection \<open>Updates through the handles\<close>

definition updateTatami :: "PositionHandle \<Rightarrow> (TatamiStore \<Rightarrow> TatamiStore result) \<Rightarrow> TatamiList \<Rightarrow> TatamiList result" where
  "updateTatami h f l = bindE (list_at h l) (\<lambda>t. bindE (f t) (\<lambda>t'. Inr (list_put h t' l)))"

definition updateConcurrent ::
  "ConcurrentGroupLocation \<Rightarrow> (ConcurrentBlockGroup \<Rightarrow> ConcurrentBlockGroup result) \<Rightarrow> TatamiList \<Rightarrow> TatamiList result" where
  "updateConcurrent loc f l = updateTatami (tatami_handle (loc_tatami loc)) (\<lambda>t.
     bindE (tatami_at (concurrent_handle loc) t) (\<lambda>g.
     bindE (f g) (\<lambda>g'. Inr (tatami_put (concurrent_handle loc) g' t)))) l"

definition updateSequential ::
  "SequentialGroupLocation \<Rightarrow> (SequentialBlockGroup \<Rightarrow> SequentialBlockGroup result) \<Rightarrow> TatamiList \<Rightarrow> TatamiList result" where
  "updateSequential loc f l = updateConcurrent (concurrentGroup loc) (\<lambda>g.
     bindE (concurrent_at (sequential_handle loc) g) (\<lambda>s.
     bindE (f s) (\<lambda>s'. Inr (concurrent_put (sequential_handle loc) s' g)))) l"

subsection \<open>moveBlock\<close>

text \<open>The steps of \<^verbatim>\<open>moveBlock\<close>, in its order.\<close>

definition moveBlock_from :: "Block \<Rightarrow> BlockLocation \<Rightarrow> TatamiList \<Rightarrow> TatamiList result" where
  "moveBlock_from block from l = updateSequential (sequentialGroup from) (eraseBlock block) l"

definition moveBlock_to :: "Block \<Rightarrow> BlockLocation \<Rightarrow> TatamiList \<Rightarrow> TatamiList result" where
  "moveBlock_to block to l =
     (let (t, l1) = list_subscript (getTatamiHandle to) l;
          (g, t1) = tatami_subscript (getConcurrentGroupHandle to) t;
          (s, g1) = concurrent_subscript (getSequentialGroupHandle to) g
      in bindE (addBlock (min (pos to) (blockCount s)) block s) (\<lambda>s'.
           Inr (list_put (getTatamiHandle to) (tatami_put (getConcurrentGroupHandle to)
             (concurrent_put (getSequentialGroupHandle to) s' g1) t1) l1)))"

definition cleanSequential :: "Categories \<Rightarrow> BlockLocation \<Rightarrow> TatamiList \<Rightarrow> TatamiList result" where
  "cleanSequential cs from l =
     bindE (list_atSequential (sequentialGroup from) l) (\<lambda>s.
       if blockCount s = 0
       then updateConcurrent (concurrentGroup (sequentialGroup from))
              (\<lambda>g. Inr (concurrent_eraseGroup (getSequentialGroupHandle from) g)) l
       else updateSequential (sequentialGroup from) (sequential_recompute cs) l)"

definition cleanConcurrent :: "Categories \<Rightarrow> BlockLocation \<Rightarrow> TatamiList \<Rightarrow> TatamiList result" where
  "cleanConcurrent cs from l =
     bindE (list_atConcurrent (concurrentGroup (sequentialGroup from)) l) (\<lambda>g.
       if concurrent_groupCount g = 0
       then updateTatami (getTatamiHandle from) (\<lambda>t. Inr (tatami_eraseGroup (getConcurrentGroupHandle from) t)) l
       else updateConcurrent (concurrentGroup (sequentialGroup from)) (concurrent_recompute cs) l)"

definition whenSome :: "'a option \<Rightarrow> ('a \<Rightarrow> 's \<Rightarrow> 's result) \<Rightarrow> 's \<Rightarrow> 's result" where
  "whenSome x f s = (case x of None \<Rightarrow> Inr s | Some v \<Rightarrow> f v s)"

definition sameSequential :: "BlockLocation option \<Rightarrow> BlockLocation \<Rightarrow> bool" where
  "sameSequential from to =
     (case from of None \<Rightarrow> False | Some from' \<Rightarrow> SequentialGroupLocation_eq (sequentialGroup from') (sequentialGroup to))"

definition sameConcurrent :: "BlockLocation option \<Rightarrow> BlockLocation \<Rightarrow> bool" where
  "sameConcurrent from to =
     (case from of None \<Rightarrow> False
      | Some from' \<Rightarrow> ConcurrentGroupLocation_eq (concurrentGroup (sequentialGroup from')) (concurrentGroup (sequentialGroup to)))"

definition moveBlock ::
  "Categories \<Rightarrow> Block \<Rightarrow> BlockLocation option \<Rightarrow> BlockLocation option \<Rightarrow> TatamiList \<Rightarrow> TatamiList result" where
  "moveBlock cs block from to l =
     bindE (whenSome from (moveBlock_from block) l) (\<lambda>l1.
     bindE (whenSome to (moveBlock_to block) l1) (\<lambda>l2.
     bindE (whenSome from (cleanSequential cs) l2) (\<lambda>l3.
     bindE (whenSome to (\<lambda>to'. if sameSequential from to'
         then Inr else updateSequential (sequentialGroup to') (sequential_recompute cs)) l3) (\<lambda>l4.
     bindE (whenSome from (cleanConcurrent cs) l4) (\<lambda>l5.
     whenSome to (\<lambda>to'. if sameConcurrent from to'
         then Inr else updateConcurrent (concurrentGroup (sequentialGroup to')) (concurrent_recompute cs)) l5)))))"

subsection \<open>recomputeBlocks\<close>

text \<open>The sets of locations compare by identifiers; the model visits them in the order of their insertion.\<close>

definition insertLocation :: "('a \<Rightarrow> 'a \<Rightarrow> bool) \<Rightarrow> 'a \<Rightarrow> 'a list \<Rightarrow> 'a list" where
  "insertLocation eq x ys = (if \<exists>y \<in> set ys. eq x y then ys else ys @ [x])"

definition recomputeBlocks :: "Categories \<Rightarrow> BlockLocation list \<Rightarrow> TatamiList \<Rightarrow> TatamiList result" where
  "recomputeBlocks cs locations l =
     (let seqGroups = fold (\<lambda>loc. insertLocation SequentialGroupLocation_eq (sequentialGroup loc)) locations [];
          conGroups = fold (\<lambda>loc. insertLocation ConcurrentGroupLocation_eq (concurrentGroup (sequentialGroup loc))) locations []
      in bindE (foldE (\<lambda>loc. updateSequential loc (sequential_recompute cs)) seqGroups l)
           (foldE (\<lambda>loc. updateConcurrent loc (concurrent_recompute cs)) conGroups))"

end
