(* ===== verification/Tatami_Moves.thy ===== *)
theory Tatami_Moves
  imports Tatami_List
begin

section \<open>Moving blocks between tatamis\<close>

text \<open>
  The blocks of every sequential group as a function of the identifiers that lead to it, the invariant of the
  tatamis (no empty group, every cache as recomputing gives it), and \<^verbatim>\<open>TatamiList::moveBlock\<close> as an update of
  that function which keeps the invariant.
\<close>

subsection \<open>Lookup along a path of identifiers\<close>

type_synonym ConcurrentPath = "PositionId \<times> PositionId"
type_synonym SequentialPath = "ConcurrentPath \<times> PositionId"

definition conc :: "TatamiList \<Rightarrow> ConcurrentPath \<rightharpoonup> ConcurrentBlockGroup" where
  "conc l p = Option.bind (mElements (mTatamis l) (fst p)) (\<lambda>t. mElements (mConcurrentGroups t) (snd p))"

definition seqg :: "TatamiList \<Rightarrow> SequentialPath \<rightharpoonup> SequentialBlockGroup" where
  "seqg l p = Option.bind (conc l (fst p)) (\<lambda>g. mElements (mSequentialGroups g) (snd p))"

definition blocksAt :: "TatamiList \<Rightarrow> SequentialPath \<Rightarrow> Block list" where
  "blocksAt l p = (case seqg l p of None \<Rightarrow> [] | Some s \<Rightarrow> mBlocks s)"

definition concPath :: "ConcurrentGroupLocation \<Rightarrow> ConcurrentPath" where
  "concPath loc = (handle_id (tatami_handle (loc_tatami loc)), handle_id (concurrent_handle loc))"

definition seqPath :: "SequentialGroupLocation \<Rightarrow> SequentialPath" where
  "seqPath loc = (concPath (concurrentGroup loc), handle_id (sequential_handle loc))"

abbreviation blockPath :: "BlockLocation \<Rightarrow> SequentialPath" where
  "blockPath loc \<equiv> seqPath (sequentialGroup loc)"

lemma location_eq_path:
  "ConcurrentGroupLocation_eq x y \<longleftrightarrow> concPath x = concPath y"
  "SequentialGroupLocation_eq s t \<longleftrightarrow> seqPath s = seqPath t"
  by (auto simp: ConcurrentGroupLocation_eq_def SequentialGroupLocation_eq_def TatamiLocation_eq_def handle_eq_def
      concPath_def seqPath_def)

definition tatamis_wf :: "TatamiList \<Rightarrow> bool" where
  "tatamis_wf l \<longleftrightarrow> pm_inv (mTatamis l) \<and>
     (\<forall>a t. mElements (mTatamis l) a = Some t \<longrightarrow> pm_inv (mConcurrentGroups t)) \<and>
     (\<forall>p g. conc l p = Some g \<longrightarrow> pm_inv (mSequentialGroups g))"

lemma tatamis_wf_seq: "tatamis_wf l \<Longrightarrow> conc l p = Some g \<Longrightarrow> pm_inv (mSequentialGroups g)"
  unfolding tatamis_wf_def by blast

lemma pm_at_eq_Inr [simp]: "pm_at h pm = Inr v \<longleftrightarrow> mElements pm (handle_id h) = Some v"
  by (auto simp: pm_at_def split: option.splits)

lemma mElements_pm_put [simp]: "mElements (pm_put h v pm) = (mElements pm)(handle_id h \<mapsto> v)"
  by (simp add: pm_put_def)

lemma mIds_pm_put [simp]: "mIds (pm_put h v pm) = mIds pm"
  by (simp add: pm_put_def)

lemma pm_inv_put_some: "pm_inv pm \<Longrightarrow> mElements pm (handle_id h) = Some w \<Longrightarrow> pm_inv (pm_put h v pm)"
  by (auto simp: pm_inv_def)

lemma list_atConcurrent_eq: "list_atConcurrent loc l = Inr g \<longleftrightarrow> conc l (concPath loc) = Some g"
  by (auto simp: list_atConcurrent_def list_at_def tatami_at_def conc_def concPath_def bindE_eq_Inr bind_eq_Some_conv)

lemma list_atSequential_eq: "list_atSequential loc l = Inr s \<longleftrightarrow> seqg l (seqPath loc) = Some s"
  by (auto simp: list_atSequential_def concurrent_at_def seqg_def seqPath_def bindE_eq_Inr bind_eq_Some_conv list_atConcurrent_eq)

subsection \<open>Updates along a path\<close>

lemma conc_list_put:
  "conc (list_put h t l) = (\<lambda>p. if fst p = handle_id h then mElements (mConcurrentGroups t) (snd p) else conc l p)"
  by (auto simp: conc_def list_put_def)

lemma updateConcurrent_conc:
  assumes "conc l (concPath loc) = Some g" and "f g = Inr g'"
  shows "\<exists>l'. updateConcurrent loc f l = Inr l' \<and> conc l' = (conc l)(concPath loc \<mapsto> g') \<and>
    (tatamis_wf l \<longrightarrow> pm_inv (mSequentialGroups g') \<longrightarrow> tatamis_wf l')"
proof -
  let ?h = "tatami_handle (loc_tatami loc)"
  from assms(1) obtain t where t: "mElements (mTatamis l) (handle_id ?h) = Some t"
    "mElements (mConcurrentGroups t) (handle_id (concurrent_handle loc)) = Some g"
    by (auto simp: conc_def concPath_def bind_eq_Some_conv)
  let ?t' = "tatami_put (concurrent_handle loc) g' t"
  have u: "updateConcurrent loc f l = Inr (list_put ?h ?t' l)"
    using t assms(2) by (simp add: updateConcurrent_def updateTatami_def list_at_def tatami_at_def pm_at_def)
  have c: "conc (list_put ?h ?t' l) = (conc l)(concPath loc \<mapsto> g')"
    using t by (auto simp: conc_list_put concPath_def tatami_put_def fun_eq_iff) (auto simp: conc_def)
  have "tatamis_wf (list_put ?h ?t' l)" if "tatamis_wf l" "pm_inv (mSequentialGroups g')"
    using that t unfolding tatamis_wf_def c
    by (auto simp: list_put_def tatami_put_def intro: pm_inv_put_some)
  with u c show ?thesis by blast
qed

lemma updateSequential_seqg:
  assumes "seqg l (seqPath loc) = Some s" and "f s = Inr s'" and "tatamis_wf l"
  shows "\<exists>l' g. updateSequential loc f l = Inr l' \<and> seqg l' = (seqg l)(seqPath loc \<mapsto> s') \<and> tatamis_wf l' \<and>
    conc l (fst (seqPath loc)) = Some g \<and> conc l' = (conc l)(fst (seqPath loc) \<mapsto> concurrent_put (sequential_handle loc) s' g)"
proof -
  from assms(1) obtain g where g: "conc l (concPath (concurrentGroup loc)) = Some g"
    "mElements (mSequentialGroups g) (handle_id (sequential_handle loc)) = Some s"
    by (auto simp: seqg_def seqPath_def bind_eq_Some_conv)
  let ?g' = "concurrent_put (sequential_handle loc) s' g"
  have "pm_inv (mSequentialGroups ?g')"
    using tatamis_wf_seq[OF assms(3) g(1)] g(2) by (simp add: concurrent_put_def pm_inv_put_some)
  moreover have "bindE (concurrent_at (sequential_handle loc) g) (\<lambda>s.
      bindE (f s) (\<lambda>s'. Inr (concurrent_put (sequential_handle loc) s' g))) = Inr ?g'"
    using g(2) assms(2) by (simp add: concurrent_at_def pm_at_def)
  from updateConcurrent_conc[OF g(1), of "\<lambda>g. bindE (concurrent_at (sequential_handle loc) g) (\<lambda>s.
      bindE (f s) (\<lambda>s'. Inr (concurrent_put (sequential_handle loc) s' g)))", OF this]
  obtain l' where l': "updateSequential loc f l = Inr l'" "conc l' = (conc l)(concPath (concurrentGroup loc) \<mapsto> ?g')"
    "tatamis_wf l \<longrightarrow> pm_inv (mSequentialGroups ?g') \<longrightarrow> tatamis_wf l'"
    unfolding updateSequential_def by blast
  moreover have "seqg l' = (seqg l)(seqPath loc \<mapsto> s')"
    using l'(2) g by (auto simp: seqg_def fun_eq_iff seqPath_def concurrent_put_def)
  ultimately show ?thesis using assms(3) g(1) by (auto simp: seqPath_def)
qed

subsection \<open>Invariant of the tatamis\<close>

definition seq_ok :: "Categories \<Rightarrow> SequentialBlockGroup \<Rightarrow> bool" where
  "seq_ok cs s \<longleftrightarrow> mBlocks s \<noteq> [] \<and> sequential_recompute cs s = Inr s"

definition conc_ok :: "Categories \<Rightarrow> ConcurrentBlockGroup \<Rightarrow> bool" where
  "conc_ok cs g \<longleftrightarrow> mIds (mSequentialGroups g) \<noteq> [] \<and> concurrent_recompute cs g = Inr g"

text \<open>
  No group is empty, every block belongs to a category, and the cached durations, schedules and statuses are
  those that recomputing gives; except for the sequential groups in \<open>S\<close> and the concurrent groups in \<open>C\<close>.
\<close>

definition tatamis_inv_except :: "Categories \<Rightarrow> SequentialPath set \<Rightarrow> ConcurrentPath set \<Rightarrow> TatamiList \<Rightarrow> bool" where
  "tatamis_inv_except cs S C l \<longleftrightarrow> tatamis_wf l \<and>
     (\<forall>p s. seqg l p = Some s \<longrightarrow> blocks_exist cs s \<and> (p \<notin> S \<longrightarrow> seq_ok cs s)) \<and>
     (\<forall>p g. conc l p = Some g \<longrightarrow> p \<notin> C \<longrightarrow> conc_ok cs g)"

definition tatamis_inv :: "Categories \<Rightarrow> TatamiList \<Rightarrow> bool" where
  "tatamis_inv cs = tatamis_inv_except cs {} {}"

lemma inv_exceptD:
  assumes "tatamis_inv_except cs S C l"
  shows "tatamis_wf l" "seqg l p = Some s \<Longrightarrow> blocks_exist cs s" "seqg l p = Some s \<Longrightarrow> p \<notin> S \<Longrightarrow> seq_ok cs s"
    "conc l q = Some g \<Longrightarrow> q \<notin> C \<Longrightarrow> conc_ok cs g"
  using assms unfolding tatamis_inv_except_def by blast+

lemma inv_except_seq:
  assumes "tatamis_inv_except cs S C l" and "tatamis_wf l'" and "seqg l' = (seqg l)(p := x)" and "conc l' = (conc l)(fst p \<mapsto> g)"
    and "\<And>s. x = Some s \<Longrightarrow> blocks_exist cs s" and "\<And>s. x = Some s \<Longrightarrow> p \<notin> S' \<Longrightarrow> seq_ok cs s"
    and "S \<subseteq> insert p S'"
  shows "tatamis_inv_except cs S' (insert (fst p) C) l'"
  unfolding tatamis_inv_except_def
proof (intro conjI allI impI assms(2))
  fix q s
  assume "seqg l' q = Some s"
  then show "blocks_exist cs s" using assms(5) inv_exceptD(2)[OF assms(1)] by (auto simp: assms(3) split: if_splits)
  assume "q \<notin> S'"
  with \<open>seqg l' q = Some s\<close> show "seq_ok cs s"
    using assms(6,7) inv_exceptD(3)[OF assms(1), of q s] by (cases "q = p") (auto simp: assms(3))
next
  fix q h
  assume "conc l' q = Some h" and "q \<notin> insert (fst p) C"
  then show "conc_ok cs h" using inv_exceptD(4)[OF assms(1), of q h] by (auto simp: assms(4))
qed

lemma seqg_group:
  assumes "conc l p = Some g" and "mElements (mSequentialGroups g) c = Some s"
  shows "seqg l (p, c) = Some s"
  using assms by (simp add: seqg_def)

lemma inv_except_group_wf:
  assumes "tatamis_inv_except cs S C l" and "conc l p = Some g"
  shows "group_wf cs g"
proof -
  have inv: "pm_inv (mSequentialGroups g)" using inv_exceptD(1)[OF assms(1)] assms(2) by (rule tatamis_wf_seq)
  have "blocks_exist cs s" if "s \<in> set (sequentialGroups g)" for s
  proof -
    from that obtain c where "mElements (mSequentialGroups g) c = Some s"
      using inv by (auto simp: sequentialGroups_def entries_def pm_inv_def dom_def)
    with assms show ?thesis using seqg_group inv_exceptD(2) by metis
  qed
  with inv show ?thesis by (simp add: group_wf_def)
qed

lemma sequential_recompute_eq:
  assumes "blocks_exist cs s"
  shows "\<exists>d. sequential_recompute cs s = Inr (s\<lparr>mSequentialDuration := d\<rparr>)"
    and "sequential_recompute cs (s\<lparr>mSequentialDuration := e\<rparr>) = sequential_recompute cs s"
proof -
  have "foldE (\<lambda>block g. bindE (categories_get (fst block) cs) (\<lambda>category.
     Inr (g\<lparr>mSequentialDuration := mSequentialDuration g + expectedDuration category (snd block)\<rparr>))) bs (s\<lparr>mSequentialDuration := n\<rparr>)
     \<in> {Inr (s\<lparr>mSequentialDuration := d\<rparr>) | d. True}" if "set bs \<subseteq> set (mBlocks s)" for bs n
    using that
  proof (induction bs arbitrary: n)
    case (Cons b bs)
    then obtain c where "cs (fst b) = Some c" using assms unfolding blocks_exist_def by auto
    with Cons show ?case by (simp add: categories_get_def)
  qed auto
  from this[of "mBlocks s" 0] show "\<exists>d. sequential_recompute cs s = Inr (s\<lparr>mSequentialDuration := d\<rparr>)"
    unfolding sequential_recompute_def by auto
  show "sequential_recompute cs (s\<lparr>mSequentialDuration := e\<rparr>) = sequential_recompute cs s"
    by (simp add: sequential_recompute_def)
qed

lemma sequential_recompute_ok:
  assumes "blocks_exist cs s"
  shows "\<exists>s'. sequential_recompute cs s = Inr s' \<and> mBlocks s' = mBlocks s \<and> blocks_exist cs s' \<and>
    (mBlocks s \<noteq> [] \<longrightarrow> seq_ok cs s')"
  using sequential_recompute_eq[OF assms] assms by (auto simp: seq_ok_def blocks_exist_def)

lemma concurrent_recompute_ok:
  assumes "categories_wf cs" and "group_wf cs g"
  shows "\<exists>g'. concurrent_recompute cs g = Inr g' \<and> mSequentialGroups g' = mSequentialGroups g \<and>
    (mIds (mSequentialGroups g) \<noteq> [] \<longrightarrow> conc_ok cs g')"
proof -
  let ?g' = "recomputeStatus (withMatches cs (scheduledMatches cs g) g)"
  have same: "mSequentialGroups ?g' = mSequentialGroups g" by (simp add: recomputeStatus_def withMatches_def)
  then have s: "sequentialGroups ?g' = sequentialGroups g" by (simp add: sequentialGroups_def)
  then have "scheduledMatches cs ?g' = scheduledMatches cs g" "group_wf cs ?g'"
    using assms(2) same by (simp_all add: scheduledMatches_def group_wf_def)
  then have "concurrent_recompute cs ?g' = Inr (recomputeStatus (withMatches cs (scheduledMatches cs g) ?g'))"
    using concurrent_recompute_eq[OF assms(1)] by simp
  also have "recomputeStatus (withMatches cs (scheduledMatches cs g) ?g') = ?g'"
    using s by (cases g) (simp add: recomputeStatus_def withMatches_def sequentialGroups_def)
  finally have "concurrent_recompute cs ?g' = Inr ?g'" .
  then show ?thesis using concurrent_recompute_eq[OF assms] same by (simp add: conc_ok_def)
qed

subsection \<open>The steps of moveBlock\<close>

lemma blocksAt_upd:
  "seqg l' = (seqg l)(p := x) \<Longrightarrow> blocksAt l' = (blocksAt l)(p := (case x of None \<Rightarrow> [] | Some s \<Rightarrow> mBlocks s))"
  by (auto simp: blocksAt_def)

lemma blocksAt_Some: "block \<in> set (blocksAt l p) \<Longrightarrow> \<exists>s. seqg l p = Some s \<and> block \<in> set (mBlocks s)"
  by (cases "seqg l p") (auto simp: blocksAt_def)

lemma moveBlock_from_step:
  assumes "tatamis_inv cs l" and "block \<in> set (blocksAt l (blockPath from))"
  shows "\<exists>l'. moveBlock_from block from l = Inr l' \<and>
    tatamis_inv_except cs {blockPath from} {fst (blockPath from)} l' \<and>
    blocksAt l' = (blocksAt l)(blockPath from := remove1 block (blocksAt l (blockPath from))) \<and>
    dom (seqg l') = dom (seqg l) \<and> seqg l' (blockPath from) \<noteq> None"
proof -
  have inv: "tatamis_inv_except cs {} {} l" using assms(1) by (simp add: tatamis_inv_def)
  from assms(2) blocksAt_Some obtain s where s: "seqg l (blockPath from) = Some s" "block \<in> set (mBlocks s)" by metis
  let ?s' = "s\<lparr>mBlocks := remove1 block (mBlocks s)\<rparr>"
  have "eraseBlock block s = Inr ?s'" using s(2) by (simp add: eraseBlock_def)
  from updateSequential_seqg[OF s(1), of "eraseBlock block", OF this inv_exceptD(1)[OF inv]] obtain l' g where l':
    "moveBlock_from block from l = Inr l'" "seqg l' = (seqg l)(blockPath from \<mapsto> ?s')" "tatamis_wf l'"
    "conc l' = (conc l)(fst (blockPath from) \<mapsto> g)" unfolding moveBlock_from_def by blast
  have "blocks_exist cs ?s'"
    using inv_exceptD(2)[OF inv s(1)] by (auto simp: blocks_exist_def dest: notin_set_remove1)
  then have "tatamis_inv_except cs {blockPath from} {fst (blockPath from)} l'"
    using inv_except_seq[OF inv l'(3,2,4), of "{blockPath from}"] by simp
  moreover have "blocksAt l (blockPath from) = mBlocks s" using s(1) by (simp add: blocksAt_def)
  ultimately show ?thesis using l' blocksAt_upd[OF l'(2)] s(1) by auto
qed

lemma sequential_recompute_step:
  assumes "tatamis_inv_except cs S C l" and "seqg l (seqPath loc) = Some s" and "mBlocks s \<noteq> []"
  shows "\<exists>l'. updateSequential loc (sequential_recompute cs) l = Inr l' \<and>
    tatamis_inv_except cs (S - {seqPath loc}) (insert (fst (seqPath loc)) C) l' \<and> blocksAt l' = blocksAt l \<and>
    dom (seqg l') = dom (seqg l) \<and> dom (conc l') = dom (conc l)"
proof -
  from sequential_recompute_ok[OF inv_exceptD(2)[OF assms(1,2)]] assms(3)
  obtain s' where s': "sequential_recompute cs s = Inr s'" "mBlocks s' = mBlocks s" "blocks_exist cs s'" "seq_ok cs s'" by blast
  from updateSequential_seqg[OF assms(2), of "sequential_recompute cs", OF s'(1) inv_exceptD(1)[OF assms(1)]] obtain l' g h where l':
    "updateSequential loc (sequential_recompute cs) l = Inr l'" "seqg l' = (seqg l)(seqPath loc \<mapsto> s')" "tatamis_wf l'"
    "conc l (fst (seqPath loc)) = Some h" "conc l' = (conc l)(fst (seqPath loc) \<mapsto> g)" by blast
  have "tatamis_inv_except cs (S - {seqPath loc}) (insert (fst (seqPath loc)) C) l'"
    using inv_except_seq[OF assms(1) l'(3,2,5), of "S - {seqPath loc}"] s'(3,4) by auto
  moreover have "blocksAt l' = blocksAt l"
    using blocksAt_upd[OF l'(2)] s'(2) assms(2) by (auto simp: blocksAt_def)
  ultimately show ?thesis using l' assms(2) by auto
qed

lemma cleanSequential_step:
  assumes "tatamis_inv_except cs S C l" and "seqg l (blockPath from) = Some s"
  shows "\<exists>l'. cleanSequential cs from l = Inr l' \<and>
    tatamis_inv_except cs (S - {blockPath from}) (insert (fst (blockPath from)) C) l' \<and> blocksAt l' = blocksAt l \<and>
    dom (seqg l) \<subseteq> insert (blockPath from) (dom (seqg l')) \<and> dom (conc l') = dom (conc l)"
proof (cases "mBlocks s = []")
  case True
  let ?e = "\<lambda>g. concurrent_eraseGroup (getSequentialGroupHandle from) g"
  obtain g where g: "conc l (concPath (concurrentGroup (sequentialGroup from))) = Some g"
    using assms(2) by (auto simp: seqg_def seqPath_def bind_eq_Some_conv)
  note inv = tatamis_wf_seq[OF inv_exceptD(1)[OF assms(1)] g]
  have "pm_inv (mSequentialGroups (?e g))"
    using inv by (simp add: concurrent_eraseGroup_def pm_inv_erase)
  with updateConcurrent_conc[OF g, of "\<lambda>g. Inr (?e g)" "?e g"] inv_exceptD(1)[OF assms(1)] obtain l' where l':
    "updateConcurrent (concurrentGroup (sequentialGroup from)) (\<lambda>g. Inr (?e g)) l = Inr l'"
    "conc l' = (conc l)(concPath (concurrentGroup (sequentialGroup from)) \<mapsto> ?e g)" "tatamis_wf l'" by auto
  have "mElements (mSequentialGroups (?e g)) = (mElements (mSequentialGroups g))(handle_id (getSequentialGroupHandle from) := None)"
    using inv by (auto simp: concurrent_eraseGroup_def pm_erase_def pm_inv_def)
  then have sq: "seqg l' = (seqg l)(blockPath from := None)"
    using l'(2) g by (auto simp: seqg_def fun_eq_iff seqPath_def getSequentialGroupHandle_def)
  have c: "conc l' = (conc l)(fst (blockPath from) \<mapsto> ?e g)" using l'(2) by (simp add: seqPath_def)
  have "tatamis_inv_except cs (S - {blockPath from}) (insert (fst (blockPath from)) C) l'"
    using inv_except_seq[OF assms(1) l'(3) sq c, of "S - {blockPath from}"] by auto
  moreover have "cleanSequential cs from l = Inr l'"
    using True assms(2) l'(1) list_atSequential_eq[of "sequentialGroup from" l s] by (simp add: cleanSequential_def store_simps)
  moreover have "blocksAt l' = blocksAt l" using blocksAt_upd[OF sq] True assms(2) by (auto simp: blocksAt_def)
  ultimately show ?thesis using sq l'(2) g by auto
next
  case False
  with sequential_recompute_step[OF assms(1,2)] list_atSequential_eq[of "sequentialGroup from" l s] assms(2) show ?thesis
    by (auto simp: cleanSequential_def store_simps)
qed

lemma mElements_pm_insert:
  "mElements (pm_insert d h pm) k = (if k = handle_id h \<and> mElements pm k = None then Some d else mElements pm k)"
  by (auto simp: pm_insert_def)

lemma pm_inv_put_insert: "pm_inv pm \<Longrightarrow> pm_inv (pm_put h v (pm_insert d h pm))"
  by (auto simp: pm_insert_def pm_inv_def)

lemma moveBlock_to_eq:
  assumes "tatamis_wf l"
  shows "\<exists>l' g. moveBlock_to block to l = Inr l' \<and> tatamis_wf l' \<and> conc l' = (conc l)(fst (blockPath to) \<mapsto> g) \<and>
    seqg l' = (seqg l)(blockPath to \<mapsto> (case seqg l (blockPath to) of None \<Rightarrow> newSequentialBlockGroup | Some s \<Rightarrow> s)
      \<lparr>mBlocks := insert_at (min (pos to) (length (blocksAt l (blockPath to)))) block (blocksAt l (blockPath to))\<rparr>)"
proof -
  define t where "t = (case mElements (mTatamis l) (handle_id (getTatamiHandle to)) of None \<Rightarrow> newTatamiStore | Some t \<Rightarrow> t)"
  define g where "g = (case mElements (mConcurrentGroups t) (handle_id (getConcurrentGroupHandle to)) of
    None \<Rightarrow> newConcurrentBlockGroup | Some g \<Rightarrow> g)"
  define s where "s = (case mElements (mSequentialGroups g) (handle_id (getSequentialGroupHandle to)) of
    None \<Rightarrow> newSequentialBlockGroup | Some s \<Rightarrow> s)"
  let ?s' = "s\<lparr>mBlocks := insert_at (min (pos to) (length (mBlocks s))) block (mBlocks s)\<rparr>"
  let ?g' = "g\<lparr>mSequentialGroups := pm_put (getSequentialGroupHandle to) ?s'
    (pm_insert newSequentialBlockGroup (getSequentialGroupHandle to) (mSequentialGroups g))\<rparr>"
  let ?t' = "t\<lparr>mConcurrentGroups := pm_put (getConcurrentGroupHandle to) ?g'
    (pm_insert newConcurrentBlockGroup (getConcurrentGroupHandle to) (mConcurrentGroups t))\<rparr>"
  let ?l' = "l\<lparr>mTatamis := pm_put (getTatamiHandle to) ?t' (pm_insert newTatamiStore (getTatamiHandle to) (mTatamis l))\<rparr>"
  have sub: "pm_subscript d h pm = (case mElements pm (handle_id h) of None \<Rightarrow> d | Some v \<Rightarrow> v, pm_insert d h pm)"
    for d :: 'x and h pm by (simp add: prod_eq_iff pm_subscript_insert fst_pm_subscript)
  have e: "moveBlock_to block to l = Inr ?l'"
    by (simp add: moveBlock_to_def list_subscript_def tatami_subscript_def concurrent_subscript_def sub t_def[symmetric]
        g_def[symmetric] s_def[symmetric] addBlock_def store_simps concurrent_put_def tatami_put_def list_put_def)
  have path: "blockPath to = ((handle_id (getTatamiHandle to), handle_id (getConcurrentGroupHandle to)), handle_id (getSequentialGroupHandle to))"
    by (simp add: seqPath_def concPath_def getTatamiHandle_def getConcurrentGroupHandle_def getSequentialGroupHandle_def)
  have ct: "mElements (mConcurrentGroups t) b = conc l (handle_id (getTatamiHandle to), b)" for b
    by (simp add: t_def conc_def newTatamiStore_def pm_new_def split: option.split)
  have sg: "mElements (mSequentialGroups g) c = seqg l (fst (blockPath to), c)" for c
    by (simp add: g_def ct seqg_def path newConcurrentBlockGroup_def pm_new_def split: option.split)
  have c: "conc ?l' = (conc l)(fst (blockPath to) \<mapsto> ?g')"
    by (auto simp: conc_def mElements_pm_insert path fun_eq_iff ct[unfolded conc_def])
  have sq: "seqg ?l' = (seqg l)(blockPath to \<mapsto> ?s')"
    using sg by (auto simp: seqg_def c mElements_pm_insert fun_eq_iff path)
  have inv: "pm_inv (mConcurrentGroups t)"
    using assms by (auto simp: t_def tatamis_wf_def newTatamiStore_def split: option.split)
  have inv': "pm_inv (mSequentialGroups g)"
    using tatamis_wf_seq[OF assms] by (simp add: g_def ct newConcurrentBlockGroup_def split: option.split)
  have "tatamis_wf ?l'"
    using assms inv inv' tatamis_wf_seq[OF assms] unfolding tatamis_wf_def c
    by (auto simp: mElements_pm_insert pm_inv_put_insert)
  moreover have "s = (case seqg l (blockPath to) of None \<Rightarrow> newSequentialBlockGroup | Some s \<Rightarrow> s)"
    using sg by (simp add: s_def path)
  moreover from this have "mBlocks s = blocksAt l (blockPath to)"
    by (simp add: blocksAt_def newSequentialBlockGroup_def split: option.split)
  ultimately show ?thesis using e c sq by metis
qed

lemma moveBlock_to_step:
  assumes "tatamis_inv_except cs S C l" and "cs (fst block) \<noteq> None"
  shows "\<exists>l'. moveBlock_to block to l = Inr l' \<and>
    tatamis_inv_except cs (insert (blockPath to) S) (insert (fst (blockPath to)) C) l' \<and>
    blocksAt l' = (blocksAt l)(blockPath to :=
      insert_at (min (pos to) (length (blocksAt l (blockPath to)))) block (blocksAt l (blockPath to))) \<and>
    dom (seqg l') = insert (blockPath to) (dom (seqg l)) \<and> dom (conc l') = insert (fst (blockPath to)) (dom (conc l))"
proof -
  obtain l' g where l': "moveBlock_to block to l = Inr l'" "tatamis_wf l'" "conc l' = (conc l)(fst (blockPath to) \<mapsto> g)"
    "seqg l' = (seqg l)(blockPath to \<mapsto> (case seqg l (blockPath to) of None \<Rightarrow> newSequentialBlockGroup | Some s \<Rightarrow> s)
      \<lparr>mBlocks := insert_at (min (pos to) (length (blocksAt l (blockPath to)))) block (blocksAt l (blockPath to))\<rparr>)"
    using moveBlock_to_eq[OF inv_exceptD(1)[OF assms(1)]] by blast
  have "blocks_exist cs (s\<lparr>mBlocks := insert_at i block (blocksAt l (blockPath to))\<rparr>)" for s i
    using assms(2) inv_exceptD(2)[OF assms(1), of "blockPath to"]
    by (cases "seqg l (blockPath to)") (auto simp: blocks_exist_def blocksAt_def)
  then have "tatamis_inv_except cs (insert (blockPath to) S) (insert (fst (blockPath to)) C) l'"
    using inv_except_seq[OF assms(1) l'(2,4,3), of "insert (blockPath to) S"] by auto
  with l' blocksAt_upd[OF l'(4)] show ?thesis by auto
qed

lemma seqg_upd_conc:
  assumes "conc l p = Some g" and "conc l' = (conc l)(p \<mapsto> g')" and "mSequentialGroups g' = mSequentialGroups g"
  shows "seqg l' = seqg l"
  using assms by (auto simp: seqg_def fun_eq_iff)

lemma concurrent_recompute_step:
  assumes "tatamis_inv_except cs {} C l" and "categories_wf cs" and "conc l (concPath loc) = Some g"
    and "mIds (mSequentialGroups g) \<noteq> []"
  shows "\<exists>l'. updateConcurrent loc (concurrent_recompute cs) l = Inr l' \<and>
    tatamis_inv_except cs {} (C - {concPath loc}) l' \<and> seqg l' = seqg l \<and> dom (conc l') = dom (conc l)"
proof -
  obtain g' where g': "concurrent_recompute cs g = Inr g'" "mSequentialGroups g' = mSequentialGroups g" "conc_ok cs g'"
    using concurrent_recompute_ok[OF assms(2) inv_except_group_wf[OF assms(1,3)]] assms(4) by blast
  have "pm_inv (mSequentialGroups g')" using tatamis_wf_seq[OF inv_exceptD(1)[OF assms(1)] assms(3)] g'(2) by simp
  with updateConcurrent_conc[OF assms(3), of "concurrent_recompute cs", OF g'(1)] inv_exceptD(1)[OF assms(1)] obtain l' where l':
    "updateConcurrent loc (concurrent_recompute cs) l = Inr l'" "conc l' = (conc l)(concPath loc \<mapsto> g')" "tatamis_wf l'" by blast
  have sq: "seqg l' = seqg l" by (rule seqg_upd_conc[OF assms(3) l'(2) g'(2)])
  have "tatamis_inv_except cs {} (C - {concPath loc}) l'"
    unfolding tatamis_inv_except_def sq l'(2)
    using l'(3) g'(3) inv_exceptD[OF assms(1)] by (auto simp del: split_paired_All)
  with l' sq assms(3) show ?thesis by auto
qed

lemma updateTatami_erase:
  assumes "conc l (fst (blockPath from)) = Some g" and "mIds (mSequentialGroups g) = []" and "tatamis_wf l"
  shows "\<exists>l'. updateTatami (getTatamiHandle from) (\<lambda>t. Inr (tatami_eraseGroup (getConcurrentGroupHandle from) t)) l = Inr l' \<and>
    conc l' = (conc l)(fst (blockPath from) := None) \<and> seqg l' = seqg l \<and> tatamis_wf l'"
proof -
  let ?h = "getTatamiHandle from" and ?k = "getConcurrentGroupHandle from"
  have path: "fst (blockPath from) = (handle_id ?h, handle_id ?k)"
    by (simp add: seqPath_def concPath_def getTatamiHandle_def getConcurrentGroupHandle_def)
  obtain t where t: "mElements (mTatamis l) (handle_id ?h) = Some t" "mElements (mConcurrentGroups t) (handle_id ?k) = Some g"
    using assms(1) by (auto simp: conc_def path bind_eq_Some_conv)
  have inv: "pm_inv (mConcurrentGroups t)" "pm_inv (mTatamis l)" using assms(3) t(1) by (auto simp: tatamis_wf_def)
  let ?t' = "tatami_eraseGroup ?k t" and ?l' = "list_put ?h (tatami_eraseGroup ?k t) l"
  have e: "mElements (mConcurrentGroups ?t') = (mElements (mConcurrentGroups t))(handle_id ?k := None)"
    using inv(1) by (auto simp: tatami_eraseGroup_def pm_erase_def pm_inv_def)
  have c: "conc ?l' = (conc l)(fst (blockPath from) := None)"
    using t by (auto simp: conc_list_put e path fun_eq_iff) (auto simp: conc_def)
  have "mElements (mSequentialGroups g) = Map.empty"
    using tatamis_wf_seq[OF assms(3,1)] assms(2) by (simp add: pm_inv_def eq_commute[of "{}"])
  then have sq: "seqg ?l' = seqg l" using assms(1) by (auto simp: seqg_def c fun_eq_iff)
  have "pm_inv (mConcurrentGroups ?t')" using inv(1) by (simp add: tatami_eraseGroup_def pm_inv_erase)
  moreover have "pm_inv (pm_put ?h ?t' (mTatamis l))" using inv(2) t(1) by (rule pm_inv_put_some)
  ultimately have "tatamis_wf ?l'" using assms(3) unfolding tatamis_wf_def c by (auto simp: list_put_def)
  with c sq t(1) show ?thesis by (auto simp: updateTatami_def list_at_def pm_at_def)
qed

lemma cleanConcurrent_step:
  assumes "tatamis_inv_except cs {} C l" and "categories_wf cs" and "conc l (fst (blockPath from)) = Some g"
  shows "\<exists>l'. cleanConcurrent cs from l = Inr l' \<and> tatamis_inv_except cs {} (C - {fst (blockPath from)}) l' \<and>
    seqg l' = seqg l \<and> dom (conc l) \<subseteq> insert (fst (blockPath from)) (dom (conc l'))"
proof -
  let ?loc = "concurrentGroup (sequentialGroup from)"
  have path: "fst (blockPath from) = concPath ?loc" by (simp add: seqPath_def)
  have at: "list_atConcurrent ?loc l = Inr g" using assms(3) by (simp add: list_atConcurrent_eq path)
  show ?thesis
  proof (cases "mIds (mSequentialGroups g) = []")
    case True
    from updateTatami_erase[OF assms(3) this inv_exceptD(1)[OF assms(1)]] obtain l' where l':
      "updateTatami (getTatamiHandle from) (\<lambda>t. Inr (tatami_eraseGroup (getConcurrentGroupHandle from) t)) l = Inr l'"
      "conc l' = (conc l)(fst (blockPath from) := None)" "seqg l' = seqg l" "tatamis_wf l'" by blast
    have "tatamis_inv_except cs {} (C - {fst (blockPath from)}) l'"
      unfolding tatamis_inv_except_def l'(2,3) using l'(4) inv_exceptD[OF assms(1)] by (auto simp del: split_paired_All)
    with l' True at show ?thesis
      by (auto simp: cleanConcurrent_def concurrent_groupCount_def pm_size_def)
  next
    case False
    from concurrent_recompute_step[OF assms(1,2) assms(3)[unfolded path] this] at False show ?thesis
      by (auto simp: cleanConcurrent_def concurrent_groupCount_def pm_size_def path)
  qed
qed

subsection \<open>Properties\<close>

text \<open>What a move does to the blocks of the groups.\<close>

definition removeFrom :: "Block \<Rightarrow> BlockLocation option \<Rightarrow> (SequentialPath \<Rightarrow> Block list) \<Rightarrow> SequentialPath \<Rightarrow> Block list" where
  "removeFrom block from a = (case from of None \<Rightarrow> a | Some f \<Rightarrow> a(blockPath f := remove1 block (a (blockPath f))))"

definition insertInto :: "Block \<Rightarrow> BlockLocation option \<Rightarrow> (SequentialPath \<Rightarrow> Block list) \<Rightarrow> SequentialPath \<Rightarrow> Block list" where
  "insertInto block to a =
     (case to of None \<Rightarrow> a
      | Some t \<Rightarrow> a(blockPath t := insert_at (min (pos t) (length (a (blockPath t)))) block (a (blockPath t))))"

lemma moveBlock_phase1:
  assumes "tatamis_inv cs l" and "\<forall>f. from = Some f \<longrightarrow> block \<in> set (blocksAt l (blockPath f))"
    and "\<forall>t. to = Some t \<longrightarrow> cs (fst block) \<noteq> None"
  shows "\<exists>l1 l2. whenSome from (moveBlock_from block) l = Inr l1 \<and> whenSome to (moveBlock_to block) l1 = Inr l2 \<and>
    tatamis_inv_except cs (blockPath ` set_option to \<union> blockPath ` set_option from)
      ((fst \<circ> blockPath) ` set_option to \<union> (fst \<circ> blockPath) ` set_option from) l2 \<and>
    blocksAt l2 = insertInto block to (removeFrom block from (blocksAt l)) \<and>
    blockPath ` set_option from \<union> blockPath ` set_option to \<subseteq> dom (seqg l2)"
proof -
  have "\<exists>l1. whenSome from (moveBlock_from block) l = Inr l1 \<and>
    tatamis_inv_except cs (blockPath ` set_option from) ((fst \<circ> blockPath) ` set_option from) l1 \<and>
    blocksAt l1 = removeFrom block from (blocksAt l) \<and> blockPath ` set_option from \<subseteq> dom (seqg l1)"
  proof (cases "from")
    case (Some f)
    with assms(1,2) moveBlock_from_step[of cs l block f] show ?thesis by (auto simp: whenSome_def removeFrom_def)
  qed (use assms(1) in \<open>auto simp: whenSome_def removeFrom_def tatamis_inv_def\<close>)
  then obtain l1 where l1: "whenSome from (moveBlock_from block) l = Inr l1"
    "tatamis_inv_except cs (blockPath ` set_option from) ((fst \<circ> blockPath) ` set_option from) l1"
    "blocksAt l1 = removeFrom block from (blocksAt l)" "blockPath ` set_option from \<subseteq> dom (seqg l1)" by blast
  show ?thesis
  proof (cases to)
    case (Some t)
    from moveBlock_to_step[OF l1(2), of block t] assms(3) Some obtain l2 where "moveBlock_to block t l1 = Inr l2"
      "tatamis_inv_except cs (insert (blockPath t) (blockPath ` set_option from))
        (insert (fst (blockPath t)) ((fst \<circ> blockPath) ` set_option from)) l2"
      "blocksAt l2 = insertInto block to (removeFrom block from (blocksAt l))"
      "dom (seqg l2) = insert (blockPath t) (dom (seqg l1))"
      unfolding l1(3) by (auto simp: insertInto_def)
    with l1(1,4) Some show ?thesis by (intro exI[of _ l1] exI[of _ l2]) (auto simp: whenSome_def)
  next
    case None
    with l1 show ?thesis by (intro exI[of _ l1]) (simp add: whenSome_def insertInto_def)
  qed
qed

lemma seqg_conc: "seqg l p = Some s \<Longrightarrow> fst p \<in> dom (conc l)"
  by (auto simp: seqg_def bind_eq_Some_conv)

lemma moveBlock_phase2:
  assumes "tatamis_inv_except cs (blockPath ` set_option to \<union> blockPath ` set_option from) C l"
    and "blockPath ` set_option from \<union> blockPath ` set_option to \<subseteq> dom (seqg l)"
    and "(fst \<circ> blockPath) ` set_option to \<union> (fst \<circ> blockPath) ` set_option from = C"
    and "\<forall>t. to = Some t \<longrightarrow> blocksAt l (blockPath t) \<noteq> []"
  shows "\<exists>l3 l4. whenSome from (cleanSequential cs) l = Inr l3 \<and>
    whenSome to (\<lambda>to'. if sameSequential from to' then Inr
      else updateSequential (sequentialGroup to') (sequential_recompute cs)) l3 = Inr l4 \<and>
    tatamis_inv_except cs {} C l4 \<and> blocksAt l4 = blocksAt l \<and> C \<subseteq> dom (conc l4)"
proof -
  have C: "C \<subseteq> dom (conc l)"
  proof -
    have "C = fst ` (blockPath ` set_option from \<union> blockPath ` set_option to)" using assms(3) by (auto simp: image_Un image_comp)
    moreover have "fst ` dom (seqg l) \<subseteq> dom (conc l)" using seqg_conc by (metis domD image_subsetI)
    ultimately show ?thesis using image_mono[OF assms(2), of fst] by simp
  qed
  have "\<exists>l3. whenSome from (cleanSequential cs) l = Inr l3 \<and>
    tatamis_inv_except cs (blockPath ` set_option to - blockPath ` set_option from) C l3 \<and> blocksAt l3 = blocksAt l \<and>
    dom (seqg l) \<subseteq> blockPath ` set_option from \<union> dom (seqg l3) \<and> dom (conc l3) = dom (conc l)"
  proof (cases "from")
    case (Some f)
    then obtain s where s: "seqg l (blockPath f) = Some s" using assms(2) by auto
    have "insert (fst (blockPath f)) C = C" using assms(3) Some by auto
    with cleanSequential_step[OF assms(1) s] Some show ?thesis by (auto simp: whenSome_def insert_Diff_if)
  qed (use assms(1) in \<open>simp add: whenSome_def\<close>)
  then obtain l3 where l3: "whenSome from (cleanSequential cs) l = Inr l3"
    "tatamis_inv_except cs (blockPath ` set_option to - blockPath ` set_option from) C l3" "blocksAt l3 = blocksAt l"
    "dom (seqg l) \<subseteq> blockPath ` set_option from \<union> dom (seqg l3)" "dom (conc l3) = dom (conc l)" by blast
  show ?thesis
  proof (cases "\<exists>t. to = Some t \<and> \<not> sameSequential from t")
    case True
    then obtain t where t: "to = Some t" "\<not> sameSequential from t" by blast
    then have "blockPath t \<notin> blockPath ` set_option from"
      by (cases "from") (auto simp: sameSequential_def location_eq_path)
    with l3(4) assms(2) t(1) obtain s where s: "seqg l3 (blockPath t) = Some s" by auto
    have "mBlocks s = blocksAt l (blockPath t)" unfolding l3(3)[symmetric] using s by (simp add: blocksAt_def)
    then have "mBlocks s \<noteq> []" using assms(4) t(1) by simp
    moreover have "insert (fst (blockPath t)) C = C" using assms(3) t(1) by auto
    ultimately obtain l4 where l4: "updateSequential (sequentialGroup t) (sequential_recompute cs) l3 = Inr l4"
      "tatamis_inv_except cs (blockPath ` set_option to - blockPath ` set_option from - {blockPath t}) C l4"
      "blocksAt l4 = blocksAt l3" "dom (conc l4) = dom (conc l3)"
      using sequential_recompute_step[OF l3(2) s] by auto
    have "blockPath ` set_option to - blockPath ` set_option from - {blockPath t} = {}" using t(1) by auto
    with l4(2) have inv: "tatamis_inv_except cs {} C l4" by (simp only:)
    show ?thesis
      by (rule exI[of _ l3], rule exI[of _ l4]) (use inv l4(1,3,4) t l3(1,3,5) C in \<open>simp add: whenSome_def\<close>)
  next
    case False
    then have "blockPath ` set_option to - blockPath ` set_option from = {}"
      by (cases "from"; cases to) (auto simp: sameSequential_def location_eq_path)
    with l3(2) have "tatamis_inv_except cs {} C l3" by (simp only:)
    with False l3(1,3,5) C show ?thesis by (intro exI[of _ l3]) (auto simp: whenSome_def split: option.split)
  qed
qed

lemma moveBlock_phase3:
  assumes "tatamis_inv_except cs {} C l" and "categories_wf cs" and "C \<subseteq> dom (conc l)"
    and "(fst \<circ> blockPath) ` set_option to \<union> (fst \<circ> blockPath) ` set_option from = C"
    and "\<forall>t. to = Some t \<longrightarrow> blocksAt l (blockPath t) \<noteq> []"
  shows "\<exists>l5 l6. whenSome from (cleanConcurrent cs) l = Inr l5 \<and>
    whenSome to (\<lambda>to'. if sameConcurrent from to' then Inr
      else updateConcurrent (concurrentGroup (sequentialGroup to')) (concurrent_recompute cs)) l5 = Inr l6 \<and>
    tatamis_inv cs l6 \<and> blocksAt l6 = blocksAt l"
proof -
  have "\<exists>l5. whenSome from (cleanConcurrent cs) l = Inr l5 \<and>
    tatamis_inv_except cs {} (C - (fst \<circ> blockPath) ` set_option from) l5 \<and> seqg l5 = seqg l"
  proof (cases "from")
    case (Some f)
    then obtain g where "conc l (fst (blockPath f)) = Some g" using assms(3,4) by auto
    from cleanConcurrent_step[OF assms(1,2) this] Some show ?thesis by (auto simp: whenSome_def)
  qed (use assms(1) in \<open>simp add: whenSome_def\<close>)
  then obtain l5 where l5: "whenSome from (cleanConcurrent cs) l = Inr l5"
    "tatamis_inv_except cs {} (C - (fst \<circ> blockPath) ` set_option from) l5" "seqg l5 = seqg l" by blast
  have bl: "blocksAt l5 = blocksAt l" using l5(3) by (simp add: blocksAt_def fun_eq_iff)
  show ?thesis
  proof (cases "\<exists>t. to = Some t \<and> \<not> sameConcurrent from t")
    case True
    then obtain t where t: "to = Some t" "\<not> sameConcurrent from t" by blast
    let ?loc = "concurrentGroup (sequentialGroup t)"
    from assms(5) t(1) bl have "blocksAt l5 (blockPath t) \<noteq> []" by simp
    then obtain g s where g: "conc l5 (concPath ?loc) = Some g" "mElements (mSequentialGroups g) (snd (blockPath t)) = Some s"
      by (auto simp: blocksAt_def seqg_def seqPath_def bind_eq_Some_conv split: option.splits)
    then have "mIds (mSequentialGroups g) \<noteq> []"
      using tatamis_wf_seq[OF inv_exceptD(1)[OF l5(2)] g(1)] by (auto simp: pm_inv_def)
    from concurrent_recompute_step[OF l5(2) assms(2) g(1) this] obtain l6 where l6:
      "updateConcurrent ?loc (concurrent_recompute cs) l5 = Inr l6" "seqg l6 = seqg l5"
      "tatamis_inv_except cs {} (C - (fst \<circ> blockPath) ` set_option from - {concPath ?loc}) l6" by blast
    have "C - (fst \<circ> blockPath) ` set_option from - {concPath ?loc} = {}" using assms(4) t(1) by (auto simp: seqPath_def)
    then have "tatamis_inv cs l6" using l6(3) by (simp only: tatamis_inv_def)
    moreover have "blocksAt l6 = blocksAt l5" using l6(2) by (intro ext) (simp add: blocksAt_def)
    ultimately show ?thesis using l5(1) l6(1) t bl by (intro exI[of _ l5] exI[of _ l6]) (simp add: whenSome_def)
  next
    case False
    then have "C - (fst \<circ> blockPath) ` set_option from = {}"
      using assms(4) by (cases "from"; cases to) (auto simp: sameConcurrent_def location_eq_path seqPath_def)
    with l5(2) have "tatamis_inv cs l5" by (simp only: tatamis_inv_def)
    with False l5(1) bl show ?thesis by (intro exI[of _ l5]) (auto simp: whenSome_def split: option.split)
  qed
qed

text \<open>
  C4. Moving a block. In tatamis without empty groups and with up to date caches, moving a block that is where
  \<^verbatim>\<open>from\<close> says succeeds, takes it out of the group of \<^verbatim>\<open>from\<close> and puts it into the group of \<^verbatim>\<open>to\<close> at the
  position of \<^verbatim>\<open>to\<close> (or at the end), changes the blocks of no other group, leaves no empty group behind and
  leaves every cached duration, schedule and status as recomputing would give it.
\<close>
theorem moveBlock_correct:
  assumes "categories_wf cs" and "tatamis_inv cs l"
    and "\<forall>f. from = Some f \<longrightarrow> block \<in> set (blocksAt l (blockPath f))" and "\<forall>t. to = Some t \<longrightarrow> cs (fst block) \<noteq> None"
  shows "\<exists>l'. moveBlock cs block from to l = Inr l' \<and> tatamis_inv cs l' \<and>
    blocksAt l' = insertInto block to (removeFrom block from (blocksAt l))"
proof -
  obtain l1 l2 where l2: "whenSome from (moveBlock_from block) l = Inr l1" "whenSome to (moveBlock_to block) l1 = Inr l2"
    "tatamis_inv_except cs (blockPath ` set_option to \<union> blockPath ` set_option from)
      ((fst \<circ> blockPath) ` set_option to \<union> (fst \<circ> blockPath) ` set_option from) l2"
    "blocksAt l2 = insertInto block to (removeFrom block from (blocksAt l))"
    "blockPath ` set_option from \<union> blockPath ` set_option to \<subseteq> dom (seqg l2)"
    using moveBlock_phase1[OF assms(2-4)] by blast
  have ne: "\<forall>t. to = Some t \<longrightarrow> blocksAt l2 (blockPath t) \<noteq> []" by (auto simp: l2(4) insertInto_def insert_at_def)
  obtain l3 l4 where l4: "whenSome from (cleanSequential cs) l2 = Inr l3"
    "whenSome to (\<lambda>to'. if sameSequential from to' then Inr
      else updateSequential (sequentialGroup to') (sequential_recompute cs)) l3 = Inr l4"
    "tatamis_inv_except cs {} ((fst \<circ> blockPath) ` set_option to \<union> (fst \<circ> blockPath) ` set_option from) l4"
    "blocksAt l4 = blocksAt l2" "(fst \<circ> blockPath) ` set_option to \<union> (fst \<circ> blockPath) ` set_option from \<subseteq> dom (conc l4)"
    using moveBlock_phase2[OF l2(3,5) refl ne] by blast
  from moveBlock_phase3[OF l4(3) assms(1) l4(5) refl] ne l4(4) obtain l5 l6 where
    "whenSome from (cleanConcurrent cs) l4 = Inr l5"
    "whenSome to (\<lambda>to'. if sameConcurrent from to' then Inr
      else updateConcurrent (concurrentGroup (sequentialGroup to')) (concurrent_recompute cs)) l5 = Inr l6"
    "tatamis_inv cs l6" "blocksAt l6 = blocksAt l4" by auto
  with l2 l4 show ?thesis by (simp add: moveBlock_def)
qed

definition exampleLocation :: BlockLocation where
  "exampleLocation = BlockLocation (SequentialGroupLocation (ConcurrentGroupLocation
     (TatamiLocation (PositionHandle 1 0)) (PositionHandle 2 0)) (PositionHandle 3 0)) 4"

lemma tatamis_inv_new: "tatamis_inv cs newTatamiList"
  by (auto simp: tatamis_inv_def tatamis_inv_except_def tatamis_wf_def conc_def seqg_def newTatamiList_def pm_inv_def pm_new_def)

theorem moveBlock_correct_witness:
  "\<exists>l'. moveBlock [7 \<mapsto> exampleMatches] (7, FINAL) None (Some exampleLocation) newTatamiList = Inr l' \<and>
     blocksAt l' ((1, 2), 3) = [(7, FINAL)] \<and> tatamis_inv [7 \<mapsto> exampleMatches] l'"
proof -
  have "blocksAt newTatamiList p = []" for p
    by (simp add: blocksAt_def seqg_def conc_def newTatamiList_def pm_new_def)
  with moveBlock_correct[OF exampleGroup_wf(1) tatamis_inv_new, of None "(7, FINAL)" "Some exampleLocation"] show ?thesis
    by (auto simp: insertInto_def removeFrom_def exampleLocation_def seqPath_def concPath_def insert_at_def)
qed

end
