(* ===== verification/Tournament_Store.thy ===== *)
theory Tournament_Store
  imports Tatami_Moves Draw_Systems
begin

section \<open>The tournament store\<close>

text \<open>
  Models \<^verbatim>\<open>src/core/stores/tournament_store.hpp\<close> and \<^verbatim>\<open>tournament_store.cpp\<close>. The virtual signal functions
  (\<^verbatim>\<open>changePlayers\<close>, \<^verbatim>\<open>beginAddPlayers\<close>, ...) are empty in this class and only notify user interfaces in its
  subclasses, so calls of them are left out of the actions.

  Players and categories are objects owned by hash maps; \<open>putPlayer\<close> and \<open>putCategory\<close> are assignments
  through the references that \<^verbatim>\<open>getPlayer\<close> and \<^verbatim>\<open>getCategory\<close> return. Loops over such a hash map visit the
  keys in increasing order.
\<close>

record TournamentStore =
  mId :: TournamentId
  mName :: string
  mWebName :: string
  mTournamentLocation :: string
  mDate :: string
  mPlayers :: Players
  mCategories :: Categories
  mTatamiList :: TatamiList
  mPreferences :: PreferencesStore

definition newTournamentStore :: "TournamentId \<Rightarrow> TournamentStore" where
  "newTournamentStore i =
     \<lparr>mId = i, mName = [], mWebName = [], mTournamentLocation = [], mDate = [], mPlayers = Map.empty,
      mCategories = Map.empty, mTatamiList = newTatamiList, mPreferences = newPreferencesStore\<rparr>"

definition getName :: "TournamentStore \<Rightarrow> string" where
  [store_simps]: "getName t = mName t"

definition setName :: "string \<Rightarrow> TournamentStore \<Rightarrow> TournamentStore" where
  [store_simps]: "setName v t = t\<lparr>mName := v\<rparr>"

definition getLocation :: "TournamentStore \<Rightarrow> string" where
  [store_simps]: "getLocation t = mTournamentLocation t"

definition setLocation :: "string \<Rightarrow> TournamentStore \<Rightarrow> TournamentStore" where
  [store_simps]: "setLocation v t = t\<lparr>mTournamentLocation := v\<rparr>"

definition getDate :: "TournamentStore \<Rightarrow> string" where
  [store_simps]: "getDate t = mDate t"

definition setDate :: "string \<Rightarrow> TournamentStore \<Rightarrow> TournamentStore" where
  [store_simps]: "setDate v t = t\<lparr>mDate := v\<rparr>"

definition getWebName :: "TournamentStore \<Rightarrow> string" where
  [store_simps]: "getWebName t = mWebName t"

definition setWebName :: "string \<Rightarrow> TournamentStore \<Rightarrow> TournamentStore" where
  [store_simps]: "setWebName v t = t\<lparr>mWebName := v\<rparr>"

definition setId :: "TournamentId \<Rightarrow> TournamentStore \<Rightarrow> TournamentStore" where
  [store_simps]: "setId v t = t\<lparr>mId := v\<rparr>"

subsection \<open>Players and categories\<close>

definition addPlayer :: "PlayerStore \<Rightarrow> TournamentStore \<Rightarrow> TournamentStore result" where
  "addPlayer p t = assertE (mPlayers t (mPlayerId p) = None) (Inr (t\<lparr>mPlayers := (mPlayers t)(mPlayerId p \<mapsto> p)\<rparr>))"

definition tournament_getPlayer :: "PlayerId \<Rightarrow> TournamentStore \<Rightarrow> PlayerStore result" where
  "tournament_getPlayer i t = players_get i (mPlayers t)"

definition putPlayer :: "PlayerId \<Rightarrow> PlayerStore \<Rightarrow> TournamentStore \<Rightarrow> TournamentStore result" where
  "putPlayer i p t = assertE (mPlayers t i \<noteq> None) (Inr (t\<lparr>mPlayers := (mPlayers t)(i \<mapsto> p)\<rparr>))"

definition erasePlayer :: "PlayerId \<Rightarrow> TournamentStore \<Rightarrow> (PlayerStore \<times> TournamentStore) result" where
  "erasePlayer i t = bindE (tournament_getPlayer i t) (\<lambda>p. Inr (p, t\<lparr>mPlayers := (mPlayers t)(i := None)\<rparr>))"

definition containsPlayer :: "PlayerId \<Rightarrow> TournamentStore \<Rightarrow> bool" where
  "containsPlayer i t \<longleftrightarrow> mPlayers t i \<noteq> None"

definition addCategory :: "CategoryStore \<Rightarrow> TournamentStore \<Rightarrow> TournamentStore result" where
  "addCategory c t =
     assertE (mCategories t (mCategoryId c) = None) (Inr (t\<lparr>mCategories := (mCategories t)(mCategoryId c \<mapsto> c)\<rparr>))"

definition getCategory :: "CategoryId \<Rightarrow> TournamentStore \<Rightarrow> CategoryStore result" where
  "getCategory i t = categories_get i (mCategories t)"

definition putCategory :: "CategoryId \<Rightarrow> CategoryStore \<Rightarrow> TournamentStore \<Rightarrow> TournamentStore result" where
  "putCategory i c t = assertE (mCategories t i \<noteq> None) (Inr (t\<lparr>mCategories := (mCategories t)(i \<mapsto> c)\<rparr>))"

definition eraseCategory :: "CategoryId \<Rightarrow> TournamentStore \<Rightarrow> (CategoryStore \<times> TournamentStore) result" where
  "eraseCategory i t = bindE (getCategory i t) (\<lambda>c. Inr (c, t\<lparr>mCategories := (mCategories t)(i := None)\<rparr>))"

definition containsCategory :: "CategoryId \<Rightarrow> TournamentStore \<Rightarrow> bool" where
  "containsCategory i t \<longleftrightarrow> mCategories t i \<noteq> None"

definition tournament_containsMatch :: "CategoryId \<Rightarrow> MatchId \<Rightarrow> TournamentStore \<Rightarrow> bool" where
  "tournament_containsMatch c m t = (case mCategories t c of None \<Rightarrow> False | Some category \<Rightarrow> containsMatch m category)"

text \<open>\<^verbatim>\<open>matchedId < categoryId\<close> compares an optional: the empty one is below every identifier.\<close>

definition matchedBelow :: "CategoryId option \<Rightarrow> CategoryId \<Rightarrow> bool" where
  "matchedBelow m i = (case m of None \<Rightarrow> True | Some j \<Rightarrow> j < i)"

definition getCategoryByName :: "string \<Rightarrow> TournamentStore \<Rightarrow> CategoryId option" where
  "getCategoryByName name t = fold (\<lambda>i m.
       case mCategories t i of
         None \<Rightarrow> m
       | Some c \<Rightarrow> if category_getName c \<noteq> name then m else if matchedBelow m i then Some i else m)
     (sorted_list_of_set (dom (mCategories t))) None"

text \<open>Assignment through the non-const \<^verbatim>\<open>getTatamis\<close> and \<^verbatim>\<open>getPreferences\<close>.\<close>

definition updateTatamis :: "(TatamiList \<Rightarrow> TatamiList result) \<Rightarrow> TournamentStore \<Rightarrow> TournamentStore result" where
  "updateTatamis f t = bindE (f (mTatamiList t)) (\<lambda>l. Inr (t\<lparr>mTatamiList := l\<rparr>))"

definition modifyPlayer :: "PlayerId \<Rightarrow> (PlayerStore \<Rightarrow> PlayerStore result) \<Rightarrow> TournamentStore \<Rightarrow> TournamentStore result" where
  "modifyPlayer i f t = bindE (tournament_getPlayer i t) (\<lambda>p. bindE (f p) (\<lambda>p'. putPlayer i p' t))"

definition modifyCategory :: "CategoryId \<Rightarrow> (CategoryStore \<Rightarrow> CategoryStore result) \<Rightarrow> TournamentStore \<Rightarrow> TournamentStore result" where
  "modifyCategory i f t = bindE (getCategory i t) (\<lambda>c. bindE (f c) (\<lambda>c'. putCategory i c' t))"

subsection \<open>Laws\<close>

lemma tournament_getPlayer_eq_Inr [simp]: "tournament_getPlayer i t = Inr p \<longleftrightarrow> mPlayers t i = Some p"
  by (auto simp: tournament_getPlayer_def players_get_def split: option.splits)

lemma getCategory_eq_Inr [simp]: "getCategory i t = Inr c \<longleftrightarrow> mCategories t i = Some c"
  by (auto simp: getCategory_def categories_get_def split: option.splits)

lemma putPlayer_eq_Inr: "putPlayer i p t = Inr t' \<longleftrightarrow> mPlayers t i \<noteq> None \<and> t' = t\<lparr>mPlayers := (mPlayers t)(i \<mapsto> p)\<rparr>"
  by (auto simp: putPlayer_def)

lemma putCategory_eq_Inr:
  "putCategory i c t = Inr t' \<longleftrightarrow> mCategories t i \<noteq> None \<and> t' = t\<lparr>mCategories := (mCategories t)(i \<mapsto> c)\<rparr>"
  by (auto simp: putCategory_def)

lemma map_upd_same: "m k = Some v \<Longrightarrow> m(k \<mapsto> v) = m"
  by (auto simp: fun_eq_iff)

lemma map_upd_none: "m k = None \<Longrightarrow> m(k := None) = m"
  by (auto simp: fun_eq_iff)

interpretation players: keyed_store "\<lambda>_. True" tournament_getPlayer putPlayer
  by unfold_locales (auto simp: putPlayer_eq_Inr map_upd_same, auto simp: tournament_getPlayer_def players_get_def)

interpretation categories: keyed_store "\<lambda>_. True" getCategory putCategory
  by unfold_locales (auto simp: putCategory_eq_Inr map_upd_same, auto simp: getCategory_def categories_get_def)

interpretation tournament_name: store_field getName setName by unfold_locales (simp_all add: store_simps)
interpretation tournament_location: store_field getLocation setLocation by unfold_locales (simp_all add: store_simps)
interpretation tournament_date: store_field getDate setDate by unfold_locales (simp_all add: store_simps)
interpretation tournament_web_name: store_field getWebName setWebName by unfold_locales (simp_all add: store_simps)

lemma modifyPlayer_eq_Inr:
  "modifyPlayer i f t = Inr t' \<longleftrightarrow> (\<exists>p p'. mPlayers t i = Some p \<and> f p = Inr p' \<and> t' = t\<lparr>mPlayers := (mPlayers t)(i \<mapsto> p')\<rparr>)"
  by (auto simp: modifyPlayer_def bindE_eq_Inr putPlayer_eq_Inr)

lemma modifyCategory_eq_Inr:
  "modifyCategory i f t = Inr t' \<longleftrightarrow>
     (\<exists>c c'. mCategories t i = Some c \<and> f c = Inr c' \<and> t' = t\<lparr>mCategories := (mCategories t)(i \<mapsto> c')\<rparr>)"
  by (auto simp: modifyCategory_def bindE_eq_Inr putCategory_eq_Inr)

lemma addPlayer_erasePlayer: "addPlayer p t = Inr t' \<Longrightarrow> erasePlayer (mPlayerId p) t' = Inr (p, t)"
  by (auto simp: addPlayer_def erasePlayer_def tournament_getPlayer_def players_get_def map_upd_none)

lemma erasePlayer_addPlayer:
  "erasePlayer i t = Inr (p, t') \<Longrightarrow> mPlayerId p = i \<Longrightarrow> addPlayer p t' = Inr t"
  by (auto simp: addPlayer_def erasePlayer_def map_upd_same)

lemma fold_matched_Max:
  "fold (\<lambda>i m. if P i \<and> matchedBelow m i then Some i else m) xs None =
     (if {i \<in> set xs. P i} = {} then None else Some (Max {i \<in> set xs. P i}))"
proof (induction xs rule: rev_induct)
  case (snoc i xs)
  define A where "A = {i \<in> set xs. P i}"
  have fin: "finite A" by (simp add: A_def)
  have "{j \<in> set (xs @ [i]). P j} = (if P i then insert i A else A)" by (auto simp: A_def)
  with snoc fin show ?case
    unfolding A_def[symmetric] by (auto simp: matchedBelow_def max_def simp del: Max_less_iff Max_ge_iff)
qed simp

text \<open>
  \<^verbatim>\<open>getCategoryByName\<close> does not depend on the order in which the hash map is traversed: it returns the largest
  identifier of a category with that name, and nothing when there is none.
\<close>
theorem category_by_name:
  assumes "finite (dom (mCategories t))"
  shows "getCategoryByName name t =
    (let ids = {i. \<exists>c. mCategories t i = Some c \<and> mCategoryName c = name} in if ids = {} then None else Some (Max ids))"
proof -
  define P where "P i \<longleftrightarrow> (\<exists>c. mCategories t i = Some c \<and> mCategoryName c = name)" for i
  have "(case mCategories t i of None \<Rightarrow> m
    | Some c \<Rightarrow> if category_getName c \<noteq> name then m else if matchedBelow m i then Some i else m) =
    (if P i \<and> matchedBelow m i then Some i else m)" for i m
    by (simp add: P_def store_simps split: option.split)
  then have "getCategoryByName name t = (if {i \<in> dom (mCategories t). P i} = {} then None else Some (Max {i \<in> dom (mCategories t). P i}))"
    using fold_matched_Max[of P "sorted_list_of_set (dom (mCategories t))"] assms
    by (simp only: getCategoryByName_def set_sorted_list_of_set)
  moreover have "{i \<in> dom (mCategories t). P i} = {i. P i}" by (auto simp: P_def)
  ultimately show ?thesis unfolding P_def[symmetric] by (simp only: Let_def)
qed

theorem category_by_name_witness:
  "getCategoryByName ''U18'' ((newTournamentStore 0)\<lparr>mCategories := [7 \<mapsto> exampleCategory, 3 \<mapsto> exampleCategory]\<rparr>) = Some 7"
proof -
  let ?t = "(newTournamentStore 0)\<lparr>mCategories := [7 \<mapsto> exampleCategory, 3 \<mapsto> exampleCategory]\<rparr>"
  have ids: "{i. \<exists>c. mCategories ?t i = Some c \<and> mCategoryName c = ''U18''} = {3, 7}"
    by (auto simp: exampleCategory_def newCategoryStore_def split: if_splits)
  have "finite (dom (mCategories ?t))" by simp
  from category_by_name[OF this, of "''U18''"] show ?thesis unfolding ids by (simp add: Let_def)
qed

end
