(* ===== verification/Match_Actions.thy ===== *)
theory Match_Actions
  imports Tournament_Store Match_Events
begin

section \<open>Actions on matches\<close>

text \<open>
  Models \<^verbatim>\<open>src/core/actions/match_event_action.cpp\<close>, the twelve match event actions that derive from it
  (\<^verbatim>\<open>award_*\<close>, \<^verbatim>\<open>cancel_*\<close>, \<^verbatim>\<open>pause_match\<close>, \<^verbatim>\<open>resume_match\<close>, \<^verbatim>\<open>start_osaekomi\<close>, \<^verbatim>\<open>stop_osaekomi\<close>),
  \<^verbatim>\<open>set_match_bye_action.cpp\<close>, \<^verbatim>\<open>set_match_player_action.cpp\<close>, \<^verbatim>\<open>add_match_action.cpp\<close> and
  \<^verbatim>\<open>reset_matches_action.cpp\<close>.

  The fields that \<^verbatim>\<open>redoImpl\<close> fills for \<^verbatim>\<open>undoImpl\<close> are the result of the redo. An action that returned
  early has \<open>NotSaved\<close>: its \<^verbatim>\<open>mDidSave\<close> was never initialised. When a match finishes, \<^verbatim>\<open>notify\<close> executes the
  actions the draw system asks for; setting a bye is such an action and calls \<^verbatim>\<open>notify\<close> again. The depth of
  this nesting is bounded by fuel; \<open>notifyDepth\<close> is enough (theory \<open>Draw_Updates\<close>).
\<close>

subsection \<open>Undo data\<close>

datatype DrawUndo =
    UndoSetMatchPlayer CombinedId PlayerIndex "PlayerId option" "PlayerId option" \<comment> \<open>new and old player\<close>
  | UndoSetMatchByeEarly CombinedId bool \<comment> \<open>redo returned early\<close>
  | UndoSetMatchBye CombinedId bool State nat "DrawUndo list"

datatype MatchUndo =
    NotSaved
  | Saved (mPrevState: State) (mPrevEventSize: nat) (mDrawActions: "DrawUndo list") \<comment> \<open>top of the stack first\<close>

subsection \<open>SetMatchPlayerAction\<close>

definition whenPlayer :: "PlayerId option \<Rightarrow> (PlayerStore \<Rightarrow> PlayerStore result) \<Rightarrow> TournamentStore \<Rightarrow> TournamentStore result" where
  "whenPlayer p f t = (case p of None \<Rightarrow> Inr t | Some i \<Rightarrow> modifyPlayer i f t)"

definition putMatchOf :: "CombinedId \<Rightarrow> MatchStore \<Rightarrow> TournamentStore \<Rightarrow> TournamentStore result" where
  "putMatchOf i m t = modifyCategory (getCategoryId i) (putMatch (getMatchId i) m) t"

definition matchOf :: "CombinedId \<Rightarrow> TournamentStore \<Rightarrow> MatchStore result" where
  "matchOf i t = bindE (getCategory (getCategoryId i) t) (getMatch (getMatchId i))"

text \<open>The first lines of every match action: the match, unless the category or the match is missing.\<close>

definition findMatch :: "CombinedId \<Rightarrow> TournamentStore \<Rightarrow> (CategoryStore \<times> MatchStore) option result" where
  "findMatch i t =
     (if \<not> containsCategory (getCategoryId i) t then Inr None
      else bindE (getCategory (getCategoryId i) t) (\<lambda>c.
        if \<not> containsMatch (getMatchId i) c then Inr None
        else bindE (getMatch (getMatchId i) c) (\<lambda>m. Inr (Some (c, m)))))"

definition missingPlayer :: "PlayerId option \<Rightarrow> TournamentStore \<Rightarrow> bool" where
  "missingPlayer p t = (case p of None \<Rightarrow> False | Some i \<Rightarrow> \<not> containsPlayer i t)"

definition SetMatchPlayerAction_redo ::
  "CombinedId \<Rightarrow> PlayerIndex \<Rightarrow> PlayerId option \<Rightarrow> TournamentStore \<Rightarrow> (DrawUndo \<times> TournamentStore) result" where
  "SetMatchPlayerAction_redo i idx p t =
     bindE (findMatch i t) (\<lambda>found.
       case found of
         None \<Rightarrow> Inr (UndoSetMatchPlayer i idx p None, t)
       | Some (c, m) \<Rightarrow>
           if missingPlayer p t then Inr (UndoSetMatchPlayer i idx p None, t)
           else
             let old = getPlayer m idx
             in bindE (putMatchOf i (setPlayer idx p m) t) (\<lambda>t1.
                bindE (whenPlayer p (player_addMatch i) t1) (\<lambda>t2.
                bindE (whenPlayer old (\<lambda>pl. Inr (player_eraseMatch i pl)) t2) (\<lambda>t3.
                  if old \<noteq> None \<and> p = None then Inl UndefinedBehaviour \<comment> \<open>\<^verbatim>\<open>*mPlayerId\<close> in the last signal\<close>
                  else Inr (UndoSetMatchPlayer i idx p old, t3)))))"

text \<open>
  The last lines of \<^verbatim>\<open>redoImpl\<close> and \<^verbatim>\<open>undoImpl\<close> pass \<^verbatim>\<open>*mPlayerId\<close> to a signal where \<^verbatim>\<open>*mOldPlayerId\<close> is
  meant, which reads an empty optional when a player is removed.
\<close>

definition SetMatchPlayerAction_undo ::
  "CombinedId \<Rightarrow> PlayerIndex \<Rightarrow> PlayerId option \<Rightarrow> PlayerId option \<Rightarrow> TournamentStore \<Rightarrow> TournamentStore result" where
  "SetMatchPlayerAction_undo i idx p old t =
     bindE (findMatch i t) (\<lambda>found.
       case found of
         None \<Rightarrow> Inr t
       | Some (c, m) \<Rightarrow>
           if missingPlayer p t then Inr t
           else
             bindE (putMatchOf i (setPlayer idx old m) t) (\<lambda>t1.
             bindE (whenPlayer old (player_addMatch i) t1) (\<lambda>t2.
             bindE (whenPlayer p (\<lambda>pl. Inr (player_eraseMatch i pl)) t2) (\<lambda>t3.
               if old \<noteq> None \<and> p = None then Inl UndefinedBehaviour else Inr t3))))"

subsection \<open>MatchEventAction\<close>

definition decrStatus :: "MatchStatus \<Rightarrow> CategoryStatus \<Rightarrow> CategoryStatus result" where
  "decrStatus st s =
     (case st of
        NOT_STARTED \<Rightarrow> assertE (notStartedMatches s > 0) (Inr (s\<lparr>notStartedMatches := notStartedMatches s - 1\<rparr>))
      | FINISHED \<Rightarrow> assertE (finishedMatches s > 0) (Inr (s\<lparr>finishedMatches := finishedMatches s - 1\<rparr>))
      | _ \<Rightarrow> assertE (startedMatches s > 0) (Inr (s\<lparr>startedMatches := startedMatches s - 1\<rparr>)))"

definition incrStatus :: "MatchStatus \<Rightarrow> CategoryStatus \<Rightarrow> CategoryStatus" where
  "incrStatus st s =
     (case st of
        NOT_STARTED \<Rightarrow> s\<lparr>notStartedMatches := notStartedMatches s + 1\<rparr>
      | FINISHED \<Rightarrow> s\<lparr>finishedMatches := finishedMatches s + 1\<rparr>
      | _ \<Rightarrow> s\<lparr>startedMatches := startedMatches s + 1\<rparr>)"

definition moveStatus :: "MatchType \<Rightarrow> MatchStatus \<Rightarrow> MatchStatus \<Rightarrow> CategoryStore \<Rightarrow> CategoryStore result" where
  "moveStatus ty from_st to_st c =
     bindE (decrStatus from_st (category_getStatus c ty)) (\<lambda>s. Inr (category_setStatus ty (incrStatus to_st s) c))"

definition updateTatamiStatus :: "MatchStore \<Rightarrow> BlockLocation option \<Rightarrow> TournamentStore \<Rightarrow> TournamentStore result" where
  "updateTatamiStatus m loc t =
     (case loc of
        None \<Rightarrow> Inr t
      | Some l \<Rightarrow> updateTatamis (updateConcurrent (concurrentGroup (sequentialGroup l)) (\<lambda>g. Inr (concurrent_updateStatus m g))) t)"

definition crossesBoundary :: "MatchStatus \<Rightarrow> MatchStatus \<Rightarrow> bool" where
  "crossesBoundary prev upd \<longleftrightarrow> upd \<noteq> prev \<and>
     (prev = NOT_STARTED \<or> prev = FINISHED \<or> upd = NOT_STARTED \<or> upd = FINISHED)"

text \<open>
  The counters of the category and the status of the tatami group, when the match went from one status to
  another: the common part of \<^verbatim>\<open>notify\<close> and \<^verbatim>\<open>recover\<close>.
\<close>

definition changeCounters :: "MatchStatus \<Rightarrow> MatchStore \<Rightarrow> TournamentStore \<Rightarrow> TournamentStore result" where
  "changeCounters prev m t =
     (if crossesBoundary prev (getStatus m)
      then bindE (modifyCategory (getCategoryId (mCombinedId m)) (moveStatus (mType m) prev (getStatus m)) t) (\<lambda>t1.
           bindE (getCategory (getCategoryId (mCombinedId m)) t1) (\<lambda>c.
             updateTatamiStatus m (category_getLocation c (mType m)) t1))
      else Inr t)"

type_synonym DrawExec = "DrawAction \<Rightarrow> TournamentStore \<Rightarrow> (DrawUndo \<times> TournamentStore) result"

fun execDraws :: "DrawExec \<Rightarrow> DrawAction list \<Rightarrow> DrawUndo list \<Rightarrow> TournamentStore \<Rightarrow> (DrawUndo list \<times> TournamentStore) result" where
  "execDraws ex [] stack t = Inr (stack, t)"
| "execDraws ex (a # as) stack t = bindE (ex a t) (\<lambda>(u, t'). execDraws ex as (u # stack) t')"

definition notify :: "DrawExec \<Rightarrow> MatchStatus \<Rightarrow> MatchStore \<Rightarrow> TournamentStore \<Rightarrow> (DrawUndo list \<times> TournamentStore) result" where
  "notify ex prev m t =
     bindE (changeCounters prev m t) (\<lambda>t1.
       if prev = FINISHED \<or> getStatus m = FINISHED
       then bindE (getCategory (getCategoryId (mCombinedId m)) t1) (\<lambda>c.
            bindE (updateCategory (mDrawSystem c) (mPlayers t1) c) (\<lambda>drawActions.
              execDraws ex drawActions [] t1))
       else Inr ([], t1))"

text \<open>
  \<^verbatim>\<open>redoImpl\<close> of a match event action with its guard and its body; \<^verbatim>\<open>save\<close> stores the state and the number of
  events before the body runs.
\<close>

definition matchEvent_redo ::
  "DrawExec \<Rightarrow> (Ruleset \<Rightarrow> MatchStore \<Rightarrow> bool) \<Rightarrow> (Ruleset \<Rightarrow> MatchStore \<Rightarrow> MatchStore result) \<Rightarrow> CombinedId \<Rightarrow>
   TournamentStore \<Rightarrow> (MatchUndo \<times> TournamentStore) result" where
  "matchEvent_redo ex grd body i t =
     bindE (findMatch i t) (\<lambda>found.
       case found of
         None \<Rightarrow> Inr (NotSaved, t)
       | Some (c, m) \<Rightarrow>
           if \<not> grd (mRuleset c) m then Inr (NotSaved, t)
           else bindE (body (mRuleset c) m) (\<lambda>m'.
                bindE (putMatchOf i m' t) (\<lambda>t1.
                bindE (notify ex (getStatus m) m' t1) (\<lambda>(draws, t2).
                  Inr (Saved (mState m) (length (mEvents m)) draws, t2)))))"

text \<open>\<^verbatim>\<open>recover\<close>, after the draw actions have been undone.\<close>

definition recoverMatch :: "State \<Rightarrow> nat \<Rightarrow> CombinedId \<Rightarrow> TournamentStore \<Rightarrow> TournamentStore result" where
  "recoverMatch prev n i t =
     bindE (matchOf i t) (\<lambda>m.
       bindE (recoverState prev n m) (\<lambda>m2.
       bindE (putMatchOf i m2 t) (\<lambda>t1.
         changeCounters (getStatus m) m2 t1)))"

fun undoDraw :: "DrawUndo \<Rightarrow> TournamentStore \<Rightarrow> TournamentStore result"
  and undoDraws :: "DrawUndo list \<Rightarrow> TournamentStore \<Rightarrow> TournamentStore result" where
  "undoDraw (UndoSetMatchPlayer i idx p old) t = SetMatchPlayerAction_undo i idx p old t"
| "undoDraw (UndoSetMatchByeEarly i bye) t = Inl UndefinedBehaviour"
| "undoDraw (UndoSetMatchBye i bye prev n draws) t = bindE (undoDraws draws t) (recoverMatch prev n i)"
| "undoDraws [] t = Inr t"
| "undoDraws (u # us) t = bindE (undoDraw u t) (undoDraws us)"

text \<open>\<^verbatim>\<open>undoImpl\<close>: \<^verbatim>\<open>shouldRecover\<close> reads \<^verbatim>\<open>mDidSave\<close>, which only \<^verbatim>\<open>save\<close> sets.\<close>

definition matchEvent_undo :: "MatchUndo \<Rightarrow> CombinedId \<Rightarrow> TournamentStore \<Rightarrow> TournamentStore result" where
  "matchEvent_undo u i t =
     (case u of
        NotSaved \<Rightarrow> Inl UndefinedBehaviour
      | Saved prev n draws \<Rightarrow> bindE (undoDraws draws t) (recoverMatch prev n i))"

subsection \<open>SetMatchByeAction and the nesting of draw actions\<close>

definition SetMatchByeAction_redo :: "DrawExec \<Rightarrow> CombinedId \<Rightarrow> bool \<Rightarrow> TournamentStore \<Rightarrow> (DrawUndo \<times> TournamentStore) result" where
  "SetMatchByeAction_redo ex i bye t =
     bindE (matchEvent_redo ex (\<lambda>r. SetMatchByeAction_guard bye) (\<lambda>r. SetMatchByeAction_body bye) i t) (\<lambda>(u, t').
       Inr (case u of NotSaved \<Rightarrow> UndoSetMatchByeEarly i bye | Saved prev n draws \<Rightarrow> UndoSetMatchBye i bye prev n draws, t'))"

primrec execDraw :: "nat \<Rightarrow> DrawExec" where
  "execDraw 0 = (\<lambda>a t. case a of
       SetMatchPlayer i idx p \<Rightarrow> SetMatchPlayerAction_redo i idx p t
     | SetMatchBye i bye \<Rightarrow> Inl OutOfFuel)"
| "execDraw (Suc n) = (\<lambda>a t. case a of
       SetMatchPlayer i idx p \<Rightarrow> SetMatchPlayerAction_redo i idx p t
     | SetMatchBye i bye \<Rightarrow> SetMatchByeAction_redo (execDraw n) i bye t)"

definition notifyDepth :: nat where
  "notifyDepth = 2"

subsection \<open>The match event actions\<close>

definition AwardIpponAction_redo :: "CombinedId \<Rightarrow> PlayerIndex \<Rightarrow> int \<Rightarrow> bool \<Rightarrow> TournamentStore \<Rightarrow> (MatchUndo \<times> TournamentStore) result" where
  "AwardIpponAction_redo i p time osae =
     matchEvent_redo (execDraw notifyDepth) (\<lambda>r m. canAwardIppon r m p) (\<lambda>r. AwardIpponAction_body r p osae time) i"

definition AwardWazariAction_redo :: "CombinedId \<Rightarrow> PlayerIndex \<Rightarrow> int \<Rightarrow> bool \<Rightarrow> TournamentStore \<Rightarrow> (MatchUndo \<times> TournamentStore) result" where
  "AwardWazariAction_redo i p time osae =
     matchEvent_redo (execDraw notifyDepth) (\<lambda>r m. \<not> (osae \<and> isOsaekomiWazari m) \<and> canAwardWazari r m p)
       (\<lambda>r. AwardWazariAction_body r p osae time) i"

definition AwardShidoAction_redo :: "CombinedId \<Rightarrow> PlayerIndex \<Rightarrow> int \<Rightarrow> TournamentStore \<Rightarrow> (MatchUndo \<times> TournamentStore) result" where
  "AwardShidoAction_redo i p time =
     matchEvent_redo (execDraw notifyDepth) (\<lambda>r m. canAwardShido r m p) (\<lambda>r. AwardShidoAction_body r p time) i"

definition AwardHansokuMakeAction_redo :: "CombinedId \<Rightarrow> PlayerIndex \<Rightarrow> int \<Rightarrow> TournamentStore \<Rightarrow> (MatchUndo \<times> TournamentStore) result" where
  "AwardHansokuMakeAction_redo i p time =
     matchEvent_redo (execDraw notifyDepth) (\<lambda>r m. canAwardHansokuMake r m p) (\<lambda>r. AwardHansokuMakeAction_body r p time) i"

definition CancelIpponAction_redo :: "CombinedId \<Rightarrow> PlayerIndex \<Rightarrow> int \<Rightarrow> TournamentStore \<Rightarrow> (MatchUndo \<times> TournamentStore) result" where
  "CancelIpponAction_redo i p time =
     matchEvent_redo (execDraw notifyDepth) (\<lambda>r m. canCancelIppon r m p) (\<lambda>r. CancelIpponAction_body r p time) i"

definition CancelWazariAction_redo :: "CombinedId \<Rightarrow> PlayerIndex \<Rightarrow> int \<Rightarrow> TournamentStore \<Rightarrow> (MatchUndo \<times> TournamentStore) result" where
  "CancelWazariAction_redo i p time =
     matchEvent_redo (execDraw notifyDepth) (\<lambda>r m. canCancelWazari r m p) (\<lambda>r. CancelWazariAction_body r p time) i"

definition CancelShidoAction_redo :: "CombinedId \<Rightarrow> PlayerIndex \<Rightarrow> int \<Rightarrow> TournamentStore \<Rightarrow> (MatchUndo \<times> TournamentStore) result" where
  "CancelShidoAction_redo i p time =
     matchEvent_redo (execDraw notifyDepth) (\<lambda>r m. canCancelShido r m p) (\<lambda>r. CancelShidoAction_body r p time) i"

definition CancelHansokuMakeAction_redo :: "CombinedId \<Rightarrow> PlayerIndex \<Rightarrow> int \<Rightarrow> TournamentStore \<Rightarrow> (MatchUndo \<times> TournamentStore) result" where
  "CancelHansokuMakeAction_redo i p time =
     matchEvent_redo (execDraw notifyDepth) (\<lambda>r m. canCancelHansokuMake r m p) (\<lambda>r. CancelHansokuMakeAction_body r p time) i"

definition PauseMatchAction_redo :: "CombinedId \<Rightarrow> int \<Rightarrow> TournamentStore \<Rightarrow> (MatchUndo \<times> TournamentStore) result" where
  "PauseMatchAction_redo i time =
     matchEvent_redo (execDraw notifyDepth) (\<lambda>r m. canPause r m time) (\<lambda>r m. pause r m time) i"

definition ResumeMatchAction_redo :: "CombinedId \<Rightarrow> int \<Rightarrow> TournamentStore \<Rightarrow> (MatchUndo \<times> TournamentStore) result" where
  "ResumeMatchAction_redo i time =
     matchEvent_redo (execDraw notifyDepth) (\<lambda>r m. canResume r m time) (\<lambda>r m. resume r m time) i"

definition StartOsaekomiAction_redo :: "CombinedId \<Rightarrow> PlayerIndex \<Rightarrow> int \<Rightarrow> TournamentStore \<Rightarrow> (MatchUndo \<times> TournamentStore) result" where
  "StartOsaekomiAction_redo i p time =
     matchEvent_redo (execDraw notifyDepth) (\<lambda>r m. canStartOsaekomi r m p) (\<lambda>r. StartOsaekomiAction_body r p time) i"

definition StopOsaekomiAction_redo :: "CombinedId \<Rightarrow> int \<Rightarrow> TournamentStore \<Rightarrow> (MatchUndo \<times> TournamentStore) result" where
  "StopOsaekomiAction_redo i time =
     matchEvent_redo (execDraw notifyDepth) (\<lambda>r m. canStopOsaekomi r m time) (\<lambda>r. StopOsaekomiAction_body r time) i"

text \<open>The action that a command of the theory \<open>Match_Events\<close> stands for.\<close>

fun matchCommand_redo :: "MatchCommand \<Rightarrow> CombinedId \<Rightarrow> int \<Rightarrow> TournamentStore \<Rightarrow> (MatchUndo \<times> TournamentStore) result" where
  "matchCommand_redo (AwardIppon p osae) i time = AwardIpponAction_redo i p time osae"
| "matchCommand_redo (AwardWazari p osae) i time = AwardWazariAction_redo i p time osae"
| "matchCommand_redo (AwardShido p) i time = AwardShidoAction_redo i p time"
| "matchCommand_redo (AwardHansokuMake p) i time = AwardHansokuMakeAction_redo i p time"
| "matchCommand_redo (CancelIppon p) i time = CancelIpponAction_redo i p time"
| "matchCommand_redo (CancelWazari p) i time = CancelWazariAction_redo i p time"
| "matchCommand_redo (CancelShido p) i time = CancelShidoAction_redo i p time"
| "matchCommand_redo (CancelHansokuMake p) i time = CancelHansokuMakeAction_redo i p time"
| "matchCommand_redo PauseMatch i time = PauseMatchAction_redo i time"
| "matchCommand_redo ResumeMatch i time = ResumeMatchAction_redo i time"
| "matchCommand_redo (StartOsaekomi p) i time = StartOsaekomiAction_redo i p time"
| "matchCommand_redo StopOsaekomi i time = StopOsaekomiAction_redo i time"

lemmas matchAction_defs =
  AwardIpponAction_redo_def AwardWazariAction_redo_def AwardShidoAction_redo_def AwardHansokuMakeAction_redo_def
  CancelIpponAction_redo_def CancelWazariAction_redo_def CancelShidoAction_redo_def CancelHansokuMakeAction_redo_def
  PauseMatchAction_redo_def ResumeMatchAction_redo_def StartOsaekomiAction_redo_def StopOsaekomiAction_redo_def

lemma matchEvent_redo_cong:
  "(\<And>r m. g r m = g' r m) \<Longrightarrow> (\<And>r m. b r m = b' r m) \<Longrightarrow> matchEvent_redo ex g b i = matchEvent_redo ex g' b' i"
  by (rule arg_cong2[where f = "\<lambda>g b. matchEvent_redo ex g b i"]) (simp_all add: fun_eq_iff)

lemma matchCommand_redo_eq:
  "matchCommand_redo c i time =
     matchEvent_redo (execDraw notifyDepth) (\<lambda>r m. commandGuard r c time m) (\<lambda>r. commandBody r c time) i"
  by (cases c) (simp_all add: matchAction_defs, (rule matchEvent_redo_cong; simp)+)

subsection \<open>AddMatchAction\<close>

definition presentPlayer :: "PlayerId option \<Rightarrow> TournamentStore \<Rightarrow> PlayerId option" where
  "presentPlayer p t = (case p of None \<Rightarrow> None | Some i \<Rightarrow> if containsPlayer i t then Some i else None)"

definition AddMatchAction_redo :: "AddMatchAction \<Rightarrow> TournamentStore \<Rightarrow> TournamentStore result" where
  "AddMatchAction_redo a t =
     (let i = add_combinedId a in
      if \<not> containsCategory (getCategoryId i) t then Inr t
      else bindE (getCategory (getCategoryId i) t) (\<lambda>c.
        if containsMatch (getMatchId i) c
        then Inl (ActionExecutionException ''Failed to redo AddMatchAction. Match already exists.'')
        else let white = presentPlayer (add_white a) t; blue = presentPlayer (add_blue a) t
             in bindE (whenPlayer white (player_addMatch i) t) (\<lambda>t1.
                bindE (whenPlayer blue (player_addMatch i) t1) (\<lambda>t2.
                modifyCategory (getCategoryId i) (pushMatch
                  (newMatchStore i (add_type a) (add_title a) (add_bye a) white blue)) t2))))"

definition AddMatchAction_undo :: "AddMatchAction \<Rightarrow> TournamentStore \<Rightarrow> TournamentStore result" where
  "AddMatchAction_undo a t =
     (let i = add_combinedId a in
      if \<not> containsCategory (getCategoryId i) t then Inr t
      else bindE (whenPlayer (presentPlayer (add_white a) t) (\<lambda>p. Inr (player_eraseMatch i p)) t) (\<lambda>t1.
           bindE (whenPlayer (presentPlayer (add_blue a) t) (\<lambda>p. Inr (player_eraseMatch i p)) t1) (\<lambda>t2.
           modifyCategory (getCategoryId i) (\<lambda>c. bindE (popMatch c) (\<lambda>(m, c'). Inr c')) t2)))"

subsection \<open>ResetMatchesAction\<close>

record ResetMatchesAction =
  mResetCategoryIds :: "CategoryId list"
  mResetMatchId :: "MatchId option"
  mChangedMatches :: "CombinedId list"
  mPrevStates :: "State list" \<comment> \<open>top of the stack first\<close>
  mPrevEvents :: "MatchEvent list list"
  mResetDrawActions :: "DrawUndo list"

definition newResetMatchesAction :: "CategoryId list \<Rightarrow> MatchId option \<Rightarrow> ResetMatchesAction result" where
  "newResetMatchesAction ids matchId = assertE (matchId = None \<or> length ids = 1)
     (Inr \<lparr>mResetCategoryIds = ids, mResetMatchId = matchId, mChangedMatches = [], mPrevStates = [], mPrevEvents = [],
           mResetDrawActions = []\<rparr>)"

definition startedOfCategory :: "TournamentStore \<Rightarrow> CategoryId \<Rightarrow> CombinedId list" where
  "startedOfCategory t i =
     (case mCategories t i of
        None \<Rightarrow> []
      | Some c \<Rightarrow> map mCombinedId (filter (\<lambda>m. getStatus m \<noteq> NOT_STARTED) (mMatches c)))"

definition matchesToReset :: "ResetMatchesAction \<Rightarrow> TournamentStore \<Rightarrow> CombinedId list result" where
  "matchesToReset a t =
     (case mResetMatchId a of
        Some m \<Rightarrow> assertE (length (mResetCategoryIds a) = 1)
          (bindE (findMatch (CombinedId (hd (mResetCategoryIds a)) m) t) (\<lambda>found.
             case found of
               None \<Rightarrow> Inr []
             | Some (c, match) \<Rightarrow> Inr (if getStatus match = NOT_STARTED then [] else [mCombinedId match])))
      | None \<Rightarrow> Inr (concat (map (startedOfCategory t) (mResetCategoryIds a))))"

definition resetStep ::
  "CombinedId \<Rightarrow> ResetMatchesAction \<times> CategoryId list \<times> TournamentStore \<Rightarrow> (ResetMatchesAction \<times> CategoryId list \<times> TournamentStore) result" where
  "resetStep i = (\<lambda>(a, drawUpdates, t).
     bindE (matchOf i t) (\<lambda>m.
       let a' = a\<lparr>mPrevStates := mState m # mPrevStates a, mPrevEvents := mEvents m # mPrevEvents a\<rparr>;
           m' = clearEvents (clearState m)
       in bindE (putMatchOf i m' t) (\<lambda>t1.
          if getStatus m' = getStatus m then Inr (a', drawUpdates, t1)
          else bindE (modifyCategory (getCategoryId i) (moveStatus (mType m) (getStatus m) NOT_STARTED) t1) (\<lambda>t2.
               bindE (getCategory (getCategoryId i) t2) (\<lambda>c.
               bindE (updateTatamiStatus m' (category_getLocation c (mType m)) t2) (\<lambda>t3.
                 Inr (a', if getStatus m = FINISHED then insertLocation (=) (mCategoryId c) drawUpdates else drawUpdates, t3)))))))"

definition resetDraws ::
  "CategoryId \<Rightarrow> ResetMatchesAction \<times> TournamentStore \<Rightarrow> (ResetMatchesAction \<times> TournamentStore) result" where
  "resetDraws i = (\<lambda>(a, t).
     bindE (getCategory i t) (\<lambda>c.
     bindE (updateCategory (mDrawSystem c) (mPlayers t) c) (\<lambda>drawActions.
     bindE (execDraws (execDraw notifyDepth) drawActions (mResetDrawActions a) t) (\<lambda>(draws, t').
       Inr (a\<lparr>mResetDrawActions := draws\<rparr>, t')))))"

definition ResetMatchesAction_redo :: "ResetMatchesAction \<Rightarrow> TournamentStore \<Rightarrow> (ResetMatchesAction \<times> TournamentStore) result" where
  "ResetMatchesAction_redo a t =
     bindE (matchesToReset a t) (\<lambda>ids.
       let a1 = a\<lparr>mChangedMatches := mChangedMatches a @ ids\<rparr>
       in if mChangedMatches a1 = [] then Inr (a1, t)
          else bindE (foldE resetStep (mChangedMatches a1) (a1, [], t)) (\<lambda>(a2, drawUpdates, t2).
               foldE resetDraws drawUpdates (a2, t2)))"

definition restoreStep ::
  "CombinedId \<Rightarrow> ResetMatchesAction \<times> TournamentStore \<Rightarrow> (ResetMatchesAction \<times> TournamentStore) result" where
  "restoreStep i = (\<lambda>(a, t).
     bindE (matchOf i t) (\<lambda>m.
     bindE (nthE (mPrevStates a) 0) (\<lambda>st. bindE (nthE (mPrevEvents a) 0) (\<lambda>evs.
       let m' = unresetMatch st evs m;
           a' = a\<lparr>mPrevStates := tl (mPrevStates a), mPrevEvents := tl (mPrevEvents a)\<rparr>
       in bindE (putMatchOf i m' t) (\<lambda>t1.
          if getStatus m = status st then Inr (a', t1)
          else bindE (modifyCategory (getCategoryId i) (moveStatus (mType m) NOT_STARTED (status st)) t1) (\<lambda>t2.
               bindE (getCategory (getCategoryId i) t2) (\<lambda>c.
               bindE (updateTatamiStatus m' (category_getLocation c (mType m)) t2) (\<lambda>t3.
                 Inr (a', t3)))))))))"

definition ResetMatchesAction_undo :: "ResetMatchesAction \<Rightarrow> TournamentStore \<Rightarrow> (ResetMatchesAction \<times> TournamentStore) result" where
  "ResetMatchesAction_undo a t =
     (if mChangedMatches a = [] then Inr (a, t)
      else bindE (undoDraws (mResetDrawActions a) t) (\<lambda>t1.
           bindE (foldE restoreStep (rev (mChangedMatches a)) (a\<lparr>mResetDrawActions := []\<rparr>, t1)) (\<lambda>(a', t').
             Inr (a'\<lparr>mChangedMatches := []\<rparr>, t'))))"

definition ResetMatchesAction_doesRequireConfirmation :: "ResetMatchesAction \<Rightarrow> TournamentStore \<Rightarrow> bool result" where
  "ResetMatchesAction_doesRequireConfirmation a t =
     (case mResetMatchId a of
        Some m \<Rightarrow> bindE (nthE (mResetCategoryIds a) 0) (\<lambda>categoryId.
          bindE (findMatch (CombinedId categoryId m) t) (\<lambda>found.
            Inr (case found of None \<Rightarrow> False | Some (c, match) \<Rightarrow> getStatus match \<noteq> NOT_STARTED)))
      | None \<Rightarrow> Inr (\<exists>i \<in> set (mResetCategoryIds a).
          case mCategories t i of None \<Rightarrow> False | Some c \<Rightarrow> category_isStarted c))"

end
