(* ===== verification/Draw_Updates.thy ===== *)
theory Draw_Updates
  imports Match_Actions
begin

section \<open>The updates of draws settle\<close>

text \<open>
  When a match finishes, \<^verbatim>\<open>MatchEventAction::notify\<close> executes the actions that the draw system asks for, and these may call
  \<^verbatim>\<open>notify\<close> again. The definitions of the theory \<open>Match_Actions\<close> bound the nesting by \<open>notifyDepth\<close>. Here it is shown that the bound is never
  reached: an action that \<^verbatim>\<open>updateCategory\<close> asked for leaves nothing to update.
\<close>

text \<open>The executor of draw actions with another one, \<open>ex\<close>, for the draw actions that these ask for in turn.\<close>

definition nestedDraw :: "DrawExec \<Rightarrow> DrawExec" where
  "nestedDraw ex a t = (case a of
     SetMatchPlayer i idx p \<Rightarrow> SetMatchPlayerAction_redo i idx p t
   | SetMatchBye i bye \<Rightarrow> SetMatchByeAction_redo ex i bye t)"

lemma execDraw_Suc: "execDraw (Suc n) = nestedDraw (execDraw n)"
  by (simp add: nestedDraw_def fun_eq_iff)

text \<open>
  A category under its identifier, whose matches carry it, and whose third match of a best-of-three draw is not one of the first two.
\<close>

definition draw_wf :: "CategoryId \<Rightarrow> CategoryStore \<Rightarrow> bool" where
  "draw_wf i c \<longleftrightarrow> mCategoryId c = i \<and> matches_inv c \<and> (\<forall>m \<in> set (mMatches c). getCategoryId (mCombinedId m) = i) \<and>
     (case mDrawSystem c of
        BestOfThreeSystem s \<Rightarrow> (case mBestOfThreeMatches s of [i1, i2, i3] \<Rightarrow> i3 \<noteq> i1 \<and> i3 \<noteq> i2 | _ \<Rightarrow> length (mBestOfThreePlayers s) \<noteq> 2)
      | _ \<Rightarrow> True)"

definition draws_wf :: "TournamentStore \<Rightarrow> bool" where
  "draws_wf t \<longleftrightarrow> (\<forall>i c. mCategories t i = Some c \<longrightarrow> draw_wf i c)"

subsection \<open>The update of a draw\<close>

lemma draw_wf_status [simp]: "draw_wf i (c\<lparr>mStatus := x\<rparr>) = draw_wf i c"
  by (simp add: draw_wf_def matches_inv_def)

lemma getMatch_status [simp]: "getMatch k (c\<lparr>mStatus := x\<rparr>) = getMatch k c"
  by (simp add: getMatch_def split: option.split)

lemma bestOfThree_update_status [simp]: "bestOfThree_updateCategory s (c\<lparr>mStatus := x\<rparr>) = bestOfThree_updateCategory s c"
  by (simp add: bestOfThree_updateCategory_def bestOfThreeMatch_def cong: if_cong)

lemma player_actions_no_bye:
  "SetMatchBye i bye \<notin> set (clearPlayer m idx)" "SetMatchBye i bye \<notin> set (assignPlayer m idx p)"
  "assignPlayers ps m w b = Inr as \<Longrightarrow> SetMatchBye i bye \<notin> set as"
  by (auto simp: clearPlayer_def assignPlayer_def assignPlayers_def Let_def split: if_splits)

definition noBye :: "DrawAction list result \<Rightarrow> bool" where
  "noBye r \<longleftrightarrow> (\<forall>as i bye. r = Inr as \<longrightarrow> SetMatchBye i bye \<notin> set as)"

lemma noBye_intros:
  "(\<And>x. r = Inr x \<Longrightarrow> noBye (f x)) \<Longrightarrow> noBye (bindE r f)"
  "(b \<Longrightarrow> noBye x) \<Longrightarrow> (\<not> b \<Longrightarrow> noBye y) \<Longrightarrow> noBye (if b then x else y)"
  "(\<And>i bye. SetMatchBye i bye \<notin> set as) \<Longrightarrow> noBye (Inr as)"
  by (auto simp: noBye_def)

lemma doublePool_update_no_bye: "noBye (doublePool_updateCategory s ps c)"
  unfolding doublePool_updateCategory_def by (intro noBye_intros) (simp_all add: player_actions_no_bye)

text \<open>The update of a best-of-three draw in terms of its matches.\<close>

definition thirdBye :: "Ruleset \<Rightarrow> MatchStore \<Rightarrow> MatchStore \<Rightarrow> bool result" where
  "thirdBye r firstMatch secondMatch =
     (if getStatus firstMatch = FINISHED \<and> getStatus secondMatch = FINISHED
      then bindE (getWinner r firstMatch) (\<lambda>firstWinner. bindE (getWinner r secondMatch) (\<lambda>secondWinner.
             Inr (firstWinner \<noteq> None \<and> secondWinner \<noteq> None \<and> firstWinner = secondWinner)))
      else Inr False)"

lemma bestOfThree_update_eq:
  assumes "length (mBestOfThreePlayers s) = 2" and "mBestOfThreeMatches s = [i1, i2, i3]"
  shows "bestOfThree_updateCategory s c =
    bindE (getMatch i1 c) (\<lambda>m1. bindE (getMatch i2 c) (\<lambda>m2. bindE (thirdBye (mRuleset c) m1 m2) (\<lambda>bye. bindE (getMatch i3 c) (\<lambda>m3.
      Inr (if isBye m3 \<noteq> bye then [SetMatchBye (CombinedId (mCategoryId c) i3) bye] else [])))))"
  using assms by (simp add: bestOfThree_updateCategory_def bestOfThreeMatch_def thirdBye_def nthE_def)

text \<open>Once the third match is a bye or not, as the draw system asked for, there is nothing more to update.\<close>

lemma bestOfThree_update_settles:
  assumes "length (mBestOfThreePlayers s) = 2" and "mBestOfThreeMatches s = [i1, i2, i3]" and "i3 \<noteq> i1" "i3 \<noteq> i2" and "matches_inv c"
    and "bestOfThree_updateCategory s c = Inr as" and "SetMatchBye i bye \<in> set as"
    and "putMatch (getMatchId i) m' c = Inr c'" and "isBye m' = bye"
  shows "bestOfThree_updateCategory s c' = Inr []"
proof -
  from assms(6,7) obtain m1 m2 where m: "getMatch i1 c = Inr m1" "getMatch i2 c = Inr m2" "thirdBye (mRuleset c) m1 m2 = Inr bye"
    and i: "i = CombinedId (mCategoryId c) i3"
    unfolding bestOfThree_update_eq[OF assms(1,2)] by (auto split: if_splits)
  have c': "mRuleset c' = mRuleset c" using assms(8) by (auto simp: putMatch_eq_Inr)
  have "getMatch i1 c' = Inr m1" "getMatch i2 c' = Inr m2" "getMatch i3 c' = Inr m'"
    using matches.put_other[OF assms(5,8), of i1] matches.put_other[OF assms(5,8), of i2] matches.put_same[OF assms(5,8)] assms(3,4) m i by auto
  with m(3) assms(9) c' show ?thesis unfolding bestOfThree_update_eq[OF assms(1,2)] by simp
qed

subsection \<open>The nesting of updates\<close>

lemma status_kept: "\<exists>x. c = c\<lparr>mStatus := x\<rparr>"
  by (rule exI[of _ "mStatus c"]) simp

lemma changeCounters_category:
  assumes "changeCounters prev m t = Inr t1" and "mCategories t1 i = Some c1"
  obtains c x where "mCategories t i = Some c" and "c1 = c\<lparr>mStatus := x\<rparr>"
proof -
  have "\<exists>c x. mCategories t i = Some c \<and> c1 = c\<lparr>mStatus := x\<rparr>"
  proof (cases "crossesBoundary prev (getStatus m)")
    case True
    with assms show ?thesis
      by (auto simp: changeCounters_def modifyCategory_def putCategory_eq_Inr updateTatamiStatus_def updateTatamis_def moveStatus_def
          category_setStatus_def split: if_splits option.splits) (blast intro: status_kept)+
  next
    case False
    with assms have "mCategories t i = Some c1" by (simp add: changeCounters_def)
    then show ?thesis using status_kept[of c1] by blast
  qed
  then show thesis using that by blast
qed

lemma execDraws_cong: "(\<And>a t. a \<in> set as \<Longrightarrow> ex a t = ex' a t) \<Longrightarrow> execDraws ex as stack t = execDraws ex' as stack t"
proof (induction as arbitrary: stack t)
  case (Cons a as)
  have "ex a t = ex' a t" by (rule Cons.prems) simp
  moreover have "execDraws ex as stack' t' = execDraws ex' as stack' t'" for stack' t' by (rule Cons.IH) (simp add: Cons.prems)
  ultimately show ?case by (simp add: split_def)
qed simp

text \<open>\<^verbatim>\<open>notify\<close> depends on the executor only through the actions that the draw system asks for after the counters have changed.\<close>

lemma notify_cong:
  assumes "\<And>t1 c as. changeCounters prev m t = Inr t1 \<Longrightarrow> mCategories t1 (getCategoryId (mCombinedId m)) = Some c \<Longrightarrow>
      updateCategory (mDrawSystem c) (mPlayers t1) c = Inr as \<Longrightarrow> execDraws ex as [] t1 = execDraws ex' as [] t1"
  shows "notify ex prev m t = notify ex' prev m t"
  unfolding notify_def by (intro bindE_cong refl if_cong) (use assms in auto)

lemma update_bye_cases:
  assumes "updateCategory (mDrawSystem c) ps c = Inr as" and "draw_wf i c"
  obtains (players) "\<And>j bye. SetMatchBye j bye \<notin> set as"
    | (bye) s i1 i2 i3 b m where "mDrawSystem c = BestOfThreeSystem s" and "length (mBestOfThreePlayers s) = 2"
        and "mBestOfThreeMatches s = [i1, i2, i3]" and "i3 \<noteq> i1" and "i3 \<noteq> i2" and "as = [SetMatchBye (CombinedId i i3) b]"
        and "getMatch i3 c = Inr m"
proof (cases "mDrawSystem c")
  case (PoolSystem s)
  with assms(1) show thesis by (intro players) simp
next
  case (DoublePoolSystem s)
  with assms(1) doublePool_update_no_bye[of s ps c] show thesis by (intro players) (simp add: noBye_def)
next
  case (BestOfThreeSystem s)
  show thesis
  proof (cases "as = []")
    case True
    then show thesis by (intro players) simp
  next
    case False
    with assms(1) BestOfThreeSystem have two: "length (mBestOfThreePlayers s) = 2"
      by (auto simp: bestOfThree_updateCategory_def split: if_splits)
    with assms(2) BestOfThreeSystem obtain i1 i2 i3 where ids: "mBestOfThreeMatches s = [i1, i2, i3]" "i3 \<noteq> i1" "i3 \<noteq> i2"
      by (auto simp: draw_wf_def split: list.splits)
    have "bestOfThree_updateCategory s c = Inr as" using assms(1) BestOfThreeSystem by simp
    then obtain b m where "as = (if isBye m \<noteq> b then [SetMatchBye (CombinedId (mCategoryId c) i3) b] else [])" and m: "getMatch i3 c = Inr m"
      unfolding bestOfThree_update_eq[OF two ids(1)] by (elim bindE_Inr_E) (metis Inr_inject)
    with False have "as = [SetMatchBye (CombinedId i i3) b]" using assms(2) by (simp add: draw_wf_def split: if_splits)
    from BestOfThreeSystem two ids this m show thesis by (rule bye)
  qed
qed

lemma putMatchOf_category:
  assumes "putMatchOf (CombinedId i k) m' t = Inr t1" and "mCategories t i = Some c"
  obtains c' where "putMatch k m' c = Inr c'" and "t1 = t\<lparr>mCategories := (mCategories t)(i \<mapsto> c')\<rparr>"
  using assms by (auto simp: putMatchOf_def modifyCategory_def putCategory_eq_Inr)

text \<open>An action on the bye of a match that the draw system asked for asks for nothing more, so the executor for its draw actions is not used.\<close>

lemma SetMatchBye_settles:
  assumes "mCategories t i = Some c" and "draw_wf i c" and "updateCategory (mDrawSystem c) (mPlayers t) c = Inr as" and "SetMatchBye j bye \<in> set as"
  shows "SetMatchByeAction_redo ex j bye t = SetMatchByeAction_redo ex' j bye t"
proof -
  from assms(3,2) show ?thesis
  proof (cases rule: update_bye_cases)
    case players
    with assms(4) show ?thesis by simp
  next
    case (bye s i1 i2 i3 b m)
    then have j: "j = CombinedId i i3" "b = bye" using assms(4) by simp_all
    have inv: "matches_inv c" using assms(2) by (simp add: draw_wf_def)
    have found: "findMatch j t = Inr (Some (c, m))"
      using bye(7) assms(1) j(1) by (cases "mMatchMap c i3") (simp_all add: findMatch_def containsCategory_def containsMatch_def getMatch_def
        getCategory_def categories_get_def nthE_def)
    have quiet: "notify ex prev m' t1 = notify ex' prev m' t1"
      if body: "SetMatchByeAction_body bye m = Inr m'" and put: "putMatchOf j m' t = Inr t1" for prev m' t1
    proof (rule notify_cong)
      fix t2 c2 as2
      assume counters: "changeCounters prev m' t1 = Inr t2" and c2: "mCategories t2 (getCategoryId (mCombinedId m')) = Some c2"
        and as2: "updateCategory (mDrawSystem c2) (mPlayers t2) c2 = Inr as2"
      obtain c' where c': "putMatch i3 m' c = Inr c'" and t1: "t1 = t\<lparr>mCategories := (mCategories t)(i \<mapsto> c')\<rparr>"
        by (rule putMatchOf_category[OF _ assms(1)]) (use put j in auto)
      have m': "mCombinedId m' = mCombinedId m" "isBye m' = bye" using body by (auto simp: SetMatchByeAction_body_def setBye_def store_simps)
      have "m \<in> set (mMatches c)" using bye(7) getMatch_eq_Inr[OF inv] by blast
      then have "getCategoryId (mCombinedId m') = i" using assms(2) m' by (simp add: draw_wf_def)
      with changeCounters_category[OF counters c2] t1 obtain x where c2': "c2 = c'\<lparr>mStatus := x\<rparr>" by auto
      have "mDrawSystem c' = mDrawSystem c" using c' by (auto simp: putMatch_eq_Inr)
      moreover have "bestOfThree_updateCategory s c' = Inr []"
        by (rule bestOfThree_update_settles[OF bye(2-5) inv, of as j bye m']) (use assms(3,4) bye(1) c' m' j in auto)
      ultimately have "as2 = []" using as2 bye(1) c2' by simp
      then show "execDraws ex as2 [] t2 = execDraws ex' as2 [] t2" by simp
    qed
    have "bindE (SetMatchByeAction_body bye m) (\<lambda>m'. bindE (putMatchOf j m' t) (\<lambda>t1. bindE (notify ex (getStatus m) m' t1) k)) =
        bindE (SetMatchByeAction_body bye m) (\<lambda>m'. bindE (putMatchOf j m' t) (\<lambda>t1. bindE (notify ex' (getStatus m) m' t1) k))"
        for k :: "DrawUndo list \<times> TournamentStore \<Rightarrow> (MatchUndo \<times> TournamentStore) result"
      by (intro bindE_cong refl quiet)
    then have "matchEvent_redo ex (\<lambda>r. SetMatchByeAction_guard bye) (\<lambda>r. SetMatchByeAction_body bye) j t =
        matchEvent_redo ex' (\<lambda>r. SetMatchByeAction_guard bye) (\<lambda>r. SetMatchByeAction_body bye) j t"
      by (simp add: matchEvent_redo_def found)
    then show ?thesis by (simp add: SetMatchByeAction_redo_def)
  qed
qed

lemma execDraws_settles:
  assumes "mCategories t i = Some c" and "draw_wf i c" and "updateCategory (mDrawSystem c) (mPlayers t) c = Inr as"
  shows "execDraws (nestedDraw ex) as stack t = execDraws (nestedDraw ex') as stack t"
  using assms(3,2)
proof (cases rule: update_bye_cases)
  case players
  have "nestedDraw ex a u = nestedDraw ex' a u" if "a \<in> set as" for a u
    using players that by (cases a) (auto simp: nestedDraw_def)
  then show ?thesis by (rule execDraws_cong)
next
  case (bye s i1 i2 i3 b m3)
  have "SetMatchByeAction_redo ex (CombinedId i i3) b t = SetMatchByeAction_redo ex' (CombinedId i i3) b t"
    by (rule SetMatchBye_settles[OF assms]) (simp add: bye(6))
  with bye(6) show ?thesis by (simp add: nestedDraw_def split_def)
qed

text \<open>
  The results of \<^verbatim>\<open>notify\<close> and of the updates after a reset of matches are the same with every executor for nested draw actions.
\<close>

lemma notify_settles:
  assumes "draws_wf t"
  shows "notify (nestedDraw ex) prev m t = notify (nestedDraw ex') prev m t"
proof (rule notify_cong)
  fix t1 c as
  assume counters: "changeCounters prev m t = Inr t1" and c: "mCategories t1 (getCategoryId (mCombinedId m)) = Some c"
    and as: "updateCategory (mDrawSystem c) (mPlayers t1) c = Inr as"
  have "draw_wf (getCategoryId (mCombinedId m)) c"
    by (rule changeCounters_category[OF counters c]) (use assms in \<open>auto simp: draws_wf_def\<close>)
  then show "execDraws (nestedDraw ex) as [] t1 = execDraws (nestedDraw ex') as [] t1" by (rule execDraws_settles[OF c _ as])
qed

lemma execDraw_notifyDepth: "execDraw notifyDepth = nestedDraw (execDraw 1)"
  by (simp add: notifyDepth_def numeral_2_eq_2 execDraw_Suc del: execDraw.simps)

lemma resetDraws_settles:
  assumes "draws_wf t"
  shows "resetDraws i (a, t) = bindE (getCategory i t) (\<lambda>c. bindE (updateCategory (mDrawSystem c) (mPlayers t) c) (\<lambda>drawActions.
    bindE (execDraws (nestedDraw ex) drawActions (mResetDrawActions a) t) (\<lambda>(draws, t'). Inr (a\<lparr>mResetDrawActions := draws\<rparr>, t'))))"
  unfolding resetDraws_def execDraw_notifyDepth prod.case
  by (intro bindE_cong refl execDraws_settles) (use assms in \<open>auto simp: draws_wf_def\<close>)

subsection \<open>Commands keep the draws well-formed\<close>

definition sameIdentity :: "MatchStore \<Rightarrow> MatchStore \<Rightarrow> bool" where
  "sameIdentity m m' \<longleftrightarrow> mCombinedId m' = mCombinedId m \<and> mType m' = mType m \<and> mPermanentBye m' = mPermanentBye m"

lemma draws_wf_cong: "mCategories t1 = mCategories t \<Longrightarrow> draws_wf t1 = draws_wf t"
  by (simp add: draws_wf_def)

lemma findMatch_found:
  "findMatch i t = Inr (Some (c, m)) \<Longrightarrow> mCategories t (getCategoryId i) = Some c \<and> getMatch (getMatchId i) c = Inr m"
  by (auto simp: findMatch_def split: if_splits)

lemma draw_wf_put:
  assumes "draw_wf i c" and "getMatch k c = Inr m" and "putMatch k m' c = Inr c'" and "sameIdentity m m'"
  shows "draw_wf i c'"
proof -
  have inv: "matches_inv c" using assms(1) by (simp add: draw_wf_def)
  then have "m \<in> set (mMatches c)" using assms(2) getMatch_eq_Inr by blast
  then have "getCategoryId (mCombinedId m') = i" using assms(1,4) by (simp add: draw_wf_def sameIdentity_def)
  moreover have "matches_inv c'" using matches_inv_putMatch[OF inv assms(2,3)] assms(4) by (simp add: sameIdentity_def)
  ultimately show ?thesis
    using assms(1,3) set_update_subset_insert by (fastforce simp: draw_wf_def putMatch_eq_Inr)
qed

lemma draws_wf_put:
  assumes "draws_wf t" and "findMatch i t = Inr (Some (c, m))" and "sameIdentity m m'" and "putMatchOf i m' t = Inr t1"
  shows "draws_wf t1"
proof -
  have c: "mCategories t (getCategoryId i) = Some c" "getMatch (getMatchId i) c = Inr m" using findMatch_found[OF assms(2)] by simp_all
  with assms(4) obtain c' where c': "putMatch (getMatchId i) m' c = Inr c'" and t1: "t1 = t\<lparr>mCategories := (mCategories t)(getCategoryId i \<mapsto> c')\<rparr>"
    by (auto simp: putMatchOf_def modifyCategory_def putCategory_eq_Inr)
  have "draw_wf (getCategoryId i) c'" by (rule draw_wf_put[OF _ c(2) c' assms(3)]) (use assms(1) c(1) in \<open>simp add: draws_wf_def\<close>)
  with assms(1) t1 show ?thesis by (simp add: draws_wf_def)
qed

lemma draws_wf_counters: "draws_wf t \<Longrightarrow> changeCounters prev m t = Inr t1 \<Longrightarrow> draws_wf t1"
  unfolding draws_wf_def by (metis changeCounters_category draw_wf_status)

lemma draws_wf_setPlayer:
  assumes "draws_wf t" and "SetMatchPlayerAction_redo i idx p t = Inr (u, t')"
  shows "draws_wf t'"
proof -
  have players: "mCategories t2 = mCategories t1" if "whenPlayer q f t1 = Inr t2" for q f t1 t2
    using that by (auto simp: whenPlayer_def modifyPlayer_def putPlayer_eq_Inr split: option.splits)
  have "sameIdentity m (setPlayer idx p m)" for m by (simp add: sameIdentity_def store_simps)
  with assms show ?thesis
    by (auto simp: SetMatchPlayerAction_redo_def Let_def split: option.splits if_splits
        dest!: players) (metis draws_wf_put draws_wf_cong)+
qed

definition keepsDraws :: "DrawExec \<Rightarrow> bool" where
  "keepsDraws ex \<longleftrightarrow> (\<forall>a t u t'. draws_wf t \<longrightarrow> ex a t = Inr (u, t') \<longrightarrow> draws_wf t')"

lemma draws_wf_execDraws: "keepsDraws ex \<Longrightarrow> draws_wf t \<Longrightarrow> execDraws ex as stack t = Inr (us, t') \<Longrightarrow> draws_wf t'"
  by (induction as arbitrary: stack t) (auto simp: keepsDraws_def, blast)

lemma draws_wf_notify:
  assumes "keepsDraws ex" and "draws_wf t" and "notify ex prev m t = Inr (us, t')"
  shows "draws_wf t'"
proof -
  from assms(3) obtain t1 where t1: "changeCounters prev m t = Inr t1" and "t' = t1 \<or> (\<exists>as. execDraws ex as [] t1 = Inr (us, t'))"
    unfolding notify_def by (elim bindE_Inr_E) (auto split: if_splits)
  then show ?thesis using draws_wf_counters[OF assms(2) t1] draws_wf_execDraws[OF assms(1)] by blast
qed

lemma draws_wf_event:
  assumes "keepsDraws ex" and "\<And>r m m'. body r m = Inr m' \<Longrightarrow> sameIdentity m m'"
    and "draws_wf t" and "matchEvent_redo ex grd body i t = Inr (u, t')"
  shows "draws_wf t'"
proof (cases "t' = t")
  case False
  with assms(4) obtain c m m' t1 us where "findMatch i t = Inr (Some (c, m))" "body (mRuleset c) m = Inr m'" "putMatchOf i m' t = Inr t1"
    and notified: "notify ex (getStatus m) m' t1 = Inr (us, t')"
    by (auto simp: matchEvent_redo_def split: option.splits if_splits)
  then have "draws_wf t1" using draws_wf_put[OF assms(3)] assms(2) by blast
  then show ?thesis using draws_wf_notify[OF assms(1) _ notified] by blast
qed (use assms(3) in simp)

lemma setBye_identity: "SetMatchByeAction_body bye m = Inr m' \<Longrightarrow> sameIdentity m m'"
  by (auto simp: SetMatchByeAction_body_def setBye_def sameIdentity_def store_simps)

lemma keepsDraws_execDraw: "keepsDraws (execDraw n)"
proof (induction n)
  case 0
  have "draws_wf t'" if "draws_wf t" and "execDraw 0 a t = Inr (u, t')" for a t u t'
    using that by (cases a) (simp_all add: draws_wf_setPlayer)
  then show ?case unfolding keepsDraws_def by blast
next
  case (Suc n)
  have bye: "draws_wf t'" if "draws_wf t" and "SetMatchByeAction_redo (execDraw n) i bye t = Inr (u, t')" for i bye t u t'
  proof -
    from that(2) obtain w where w: "matchEvent_redo (execDraw n) (\<lambda>r. SetMatchByeAction_guard bye) (\<lambda>r. SetMatchByeAction_body bye) i t = Inr (w, t')"
      by (auto simp: SetMatchByeAction_redo_def)
    show ?thesis by (rule draws_wf_event[OF Suc.IH _ that(1) w]) (rule setBye_identity)
  qed
  have "draws_wf t'" if "draws_wf t" and "execDraw (Suc n) a t = Inr (u, t')" for a t u t'
  proof (cases a)
    case (SetMatchPlayer i idx p)
    with that show ?thesis using draws_wf_setPlayer[of t i idx p u t'] by simp
  next
    case (SetMatchBye i b)
    with that show ?thesis using bye[of t i b u t'] by simp
  qed
  then show ?case unfolding keepsDraws_def by blast
qed

lemma identity_ops [simp]:
  "sameIdentity m m" "sameIdentity m (setStatus s m') = sameIdentity m m'" "sameIdentity m (setDuration d m') = sameIdentity m m'"
  "sameIdentity m (setGoldenScore b m') = sameIdentity m m'" "sameIdentity m (setResumeTime t m') = sameIdentity m m'"
  "sameIdentity m (setOsaekomi o' m') = sameIdentity m m'" "sameIdentity m (setOsaekomiWazari b m') = sameIdentity m m'"
  "sameIdentity m (updateScore p f m') = sameIdentity m m'" "sameIdentity m (pushEvent e m') = sameIdentity m m'"
  by (simp_all add: sameIdentity_def store_simps)

lemma identity_rules [simp]:
  "sameIdentity m (updateStatus r m' t) = sameIdentity m m'" "sameIdentity m (stopOsaekomi r m' t) = sameIdentity m m'"
  by (simp_all add: updateStatus_def stopOsaekomi_def Let_def)

lemma clock_identity:
  "pause r m1 t = Inr m' \<Longrightarrow> sameIdentity m m1 \<Longrightarrow> sameIdentity m m'" "resume r m1 t = Inr m' \<Longrightarrow> sameIdentity m m1 \<Longrightarrow> sameIdentity m m'"
  "pauseIfNeeded r t m1 = Inr m' \<Longrightarrow> sameIdentity m m1 \<Longrightarrow> sameIdentity m m'"
  by (auto simp: pause_def resume_def pauseIfNeeded_def Let_def split: if_splits)

lemma commandBody_identity: "commandBody r c time m = Inr m' \<Longrightarrow> sameIdentity m m'"
  by (cases c) (auto simp: body_defs ruleset_op_defs logAndPause_def startOsaekomi_def split: if_splits elim!: clock_identity)

subsection \<open>Commands on matches\<close>

lemma matchEvent_settles:
  assumes "draws_wf t" and "\<And>r m m'. body r m = Inr m' \<Longrightarrow> sameIdentity m m'"
  shows "matchEvent_redo (nestedDraw ex) grd body i t = matchEvent_redo (nestedDraw ex') grd body i t"
proof -
  have "notify (nestedDraw ex) prev m' t1 = notify (nestedDraw ex') prev m' t1"
    if "findMatch i t = Inr (Some (c, m))" and "body (mRuleset c) m = Inr m'" and "putMatchOf i m' t = Inr t1" for c m m' t1 prev
    by (rule notify_settles, rule draws_wf_put[OF assms(1) that(1) assms(2)[OF that(2)] that(3)])
  then show ?thesis unfolding matchEvent_redo_def by (auto intro!: bindE_cong split: option.splits)
qed

text \<open>
  C15. The updates of draws settle: in a tournament whose categories are well-formed, a command on a match executes the actions that the draw
  system asks for, and these never ask for further ones. The bound on their nesting is thus never reached: the result of the command is
  the same whatever would be done for actions nested more deeply. The categories are well-formed again afterwards.
\<close>
theorem draw_updates_settle:
  assumes "draws_wf t"
  shows "matchCommand_redo command i time t =
      matchEvent_redo (nestedDraw ex) (\<lambda>r m. commandGuard r command time m) (\<lambda>r. commandBody r command time) i t \<and>
    (\<forall>u t'. matchCommand_redo command i time t = Inr (u, t') \<longrightarrow> draws_wf t')"
proof
  show "matchCommand_redo command i time t =
      matchEvent_redo (nestedDraw ex) (\<lambda>r m. commandGuard r command time m) (\<lambda>r. commandBody r command time) i t"
    unfolding matchCommand_redo_eq execDraw_notifyDepth by (rule matchEvent_settles[OF assms commandBody_identity])
  show "\<forall>u t'. matchCommand_redo command i time t = Inr (u, t') \<longrightarrow> draws_wf t'"
    unfolding matchCommand_redo_eq
    by (intro allI impI, rule draws_wf_event[OF keepsDraws_execDraw _ assms, where body = "\<lambda>r. commandBody r command time"]) (erule commandBody_identity)
qed

text \<open>A best-of-three draw of two players whose first match has been won, and the command that ends the second one.\<close>

definition exampleBestOfThree :: "MatchStore list" where
  "exampleBestOfThree =
     (let m = (\<lambda>k. newMatchStore (CombinedId 7 k) ELIMINATION ''Best-of-Three'' False (Some 10) (Some 11))
      in [updateStatus TWENTY_EIGHTEEN (updateScore WHITE (\<lambda>s. s\<lparr>ippon := True, directIppon := True\<rparr>) (m 1)) 0, m 2, m 3])"

definition exampleDraw :: TournamentStore where
  "exampleDraw = (newTournamentStore 0)\<lparr>mCategories :=
     [7 \<mapsto> (newCategoryStore 7 ''U18'' TWENTY_EIGHTEEN
        (BestOfThreeSystem \<lparr>mBestOfThreeMatches = [1, 2, 3], mBestOfThreePlayers = [10, 11]\<rparr>))
        \<lparr>mMatches := exampleBestOfThree, mMatchMap := [1 \<mapsto> 0, 2 \<mapsto> 1, 3 \<mapsto> 2], mMatchCount := (\<lambda>ty. countMatches ty exampleBestOfThree),
         mStatus := (\<lambda>ty. \<lparr>notStartedMatches = 2, startedMatches = 0, finishedMatches = 1\<rparr>)\<rparr>]\<rparr>"

lemma exampleBestOfThree_ids: "map mCombinedId exampleBestOfThree = [CombinedId 7 1, CombinedId 7 2, CombinedId 7 3]"
  by code_simp

lemma exampleDraw_wf: "draws_wf exampleDraw"
proof -
  have len: "length exampleBestOfThree = 3" using arg_cong[OF exampleBestOfThree_ids, of length] by simp
  have ids: "mCombinedId (exampleBestOfThree ! k) = [CombinedId 7 1, CombinedId 7 2, CombinedId 7 3] ! k" if "k < 3" for k
    using that len nth_map[of k exampleBestOfThree mCombinedId] exampleBestOfThree_ids by simp
  have key: "([1 \<mapsto> 0, 2 \<mapsto> 1, 3 \<mapsto> 2] :: MatchId \<rightharpoonup> nat) i = Some k \<longleftrightarrow> k < 3 \<and> getMatchId (mCombinedId (exampleBestOfThree ! k)) = i" for i k
  proof -
    have "k = 0 \<or> k = 1 \<or> k = 2 \<or> 3 \<le> k" by arith
    then show ?thesis using ids[of 0] ids[of 1] ids[of 2] by (elim disjE) (auto split: if_splits)
  qed
  have "map match_getId exampleBestOfThree = map getMatchId (map mCombinedId exampleBestOfThree)" by (simp add: match_getId_def)
  then have "distinct (map match_getId exampleBestOfThree)" by (simp add: exampleBestOfThree_ids)
  moreover have "\<forall>m \<in> set exampleBestOfThree. getCategoryId (mCombinedId m) = 7"
    using ids len by (auto simp: in_set_conv_nth less_Suc_eq numeral_3_eq_3)
  ultimately show ?thesis
    using key len by (auto simp: draws_wf_def exampleDraw_def newCategoryStore_def newTournamentStore_def draw_wf_def matches_inv_def match_getId_def)
qed

lemma exampleDraw_result:
  "map_sum id (\<lambda>(u, t'). map_option (map isBye \<circ> mMatches) (mCategories t' 7)) (matchCommand_redo (AwardIppon WHITE False) (CombinedId 7 2) 0 exampleDraw) =
   Inr (Some [False, False, True])"
  by code_simp

theorem draw_updates_settle_witness:
  "\<exists>u t'. matchCommand_redo (AwardIppon WHITE False) (CombinedId 7 2) 0 exampleDraw = Inr (u, t') \<and> draws_wf t' \<and>
     map_option (map isBye \<circ> mMatches) (mCategories t' 7) = Some [False, False, True]"
  using exampleDraw_result draw_updates_settle[OF exampleDraw_wf, of "AwardIppon WHITE False" "CombinedId 7 2" 0 "execDraw 0"]
  by (cases "matchCommand_redo (AwardIppon WHITE False) (CombinedId 7 2) 0 exampleDraw") auto

end
