(* ===== verification/Tatami_Actions.thy ===== *)
theory Tatami_Actions
  imports Match_Actions
begin

section \<open>Actions on tatamis\<close>

text \<open>
  Models \<^verbatim>\<open>set_tatami_location_action.cpp\<close>, \<^verbatim>\<open>set_tatami_count_action.cpp\<close> and
  \<^verbatim>\<open>set_categories_matches_hidden_action.cpp\<close> of \<^verbatim>\<open>src/core/actions\<close>. An action is a record of its arguments
  and its undo members; redo and undo return it updated, beside the tournament.
\<close>

subsection \<open>SetTatamiLocationAction\<close>

definition MAX_GROUP_COUNT :: nat where
  "MAX_GROUP_COUNT = 3"

record SetTatamiLocationAction =
  mBlock :: Block
  mNewLocation :: "BlockLocation option"
  mOldLocation :: "BlockLocation option"
  mPositionSet :: bool

definition newSetTatamiLocationAction :: "Block \<Rightarrow> BlockLocation option \<Rightarrow> SetTatamiLocationAction" where
  "newSetTatamiLocationAction b l = \<lparr>mBlock = b, mNewLocation = l, mOldLocation = None, mPositionSet = False\<rparr>"

text \<open>The sanity checks on a location.\<close>

definition locationAllowed :: "Block \<Rightarrow> CategoryStore \<Rightarrow> BlockLocation \<Rightarrow> TatamiList \<Rightarrow> bool result" where
  "locationAllowed block category loc tatamis =
     (if \<not> pm_containsHandle (getTatamiHandle loc) (mTatamis tatamis) then Inr False
      else if snd block = FINAL \<and> \<not> hasFinalBlock (mDrawSystem category) then Inr False
      else bindE (list_at (getTatamiHandle loc) tatamis) (\<lambda>tatami.
        if tatami_containsGroup (getConcurrentGroupHandle loc) tatami
        then bindE (tatami_at (getConcurrentGroupHandle loc) tatami) (\<lambda>group.
          Inr (\<not> (\<not> concurrent_containsGroup (getSequentialGroupHandle loc) group \<and>
                 concurrent_groupCount group = MAX_GROUP_COUNT)))
        else Inr True))"

definition setBlockLocation :: "Block \<Rightarrow> BlockLocation option \<Rightarrow> TournamentStore \<Rightarrow> TournamentStore result" where
  "setBlockLocation block loc t = modifyCategory (fst block) (\<lambda>c. Inr (category_setLocation (snd block) loc c)) t"

definition moveBlockOf :: "Block \<Rightarrow> BlockLocation option \<Rightarrow> BlockLocation option \<Rightarrow> TournamentStore \<Rightarrow> TournamentStore result" where
  "moveBlockOf block from_loc to_loc t = updateTatamis (moveBlock (mCategories t) block from_loc to_loc) t"

definition SetTatamiLocationAction_redo ::
  "SetTatamiLocationAction \<Rightarrow> TournamentStore \<Rightarrow> (SetTatamiLocationAction \<times> TournamentStore) result" where
  "SetTatamiLocationAction_redo a t =
     (let a0 = a\<lparr>mPositionSet := False\<rparr>; i = fst (mBlock a) in
      if \<not> containsCategory i t then Inr (a0, t)
      else bindE (getCategory i t) (\<lambda>category.
           bindE (case mNewLocation a of None \<Rightarrow> Inr True | Some loc \<Rightarrow> locationAllowed (mBlock a) category loc (mTatamiList t)) (\<lambda>ok.
             if \<not> ok then Inr (a0, t)
             else let old = category_getLocation category (snd (mBlock a)) in
                  bindE (moveBlockOf (mBlock a) old (mNewLocation a) t) (\<lambda>t1.
                  bindE (setBlockLocation (mBlock a) (mNewLocation a) t1) (\<lambda>t2.
                    Inr (a0\<lparr>mOldLocation := old, mPositionSet := True\<rparr>, t2))))))"

definition SetTatamiLocationAction_undo :: "SetTatamiLocationAction \<Rightarrow> TournamentStore \<Rightarrow> TournamentStore result" where
  "SetTatamiLocationAction_undo a t =
     (if \<not> mPositionSet a then Inr t
      else bindE (getCategory (fst (mBlock a)) t) (\<lambda>_.
           bindE (moveBlockOf (mBlock a) (mNewLocation a) (mOldLocation a) t) (\<lambda>t1.
             setBlockLocation (mBlock a) (mOldLocation a) t1)))"

subsection \<open>SetTatamiCountAction\<close>

record SetTatamiCountAction =
  mCountLocations :: "TatamiLocation list"
  mOldCount :: nat
  mErasedTatamis :: "(TatamiLocation \<times> TatamiStore) list"

text \<open>The constructor from a count generates that many locations; the generator may not return.\<close>

definition newSetTatamiCountAction :: "nat \<Rightarrow> TatamiList \<Rightarrow> mt19937 \<Rightarrow> (SetTatamiCountAction \<times> mt19937) result" where
  "newSetTatamiCountAction n tatamis eng =
     bindE (foldE (\<lambda>i (locs, e). bindE (list_generateLocation i tatamis e) (\<lambda>(loc, e'). Inr (locs @ [loc], e'))) [0..<n] ([], eng))
       (\<lambda>(locs, e). Inr (\<lparr>mCountLocations = locs, mOldCount = 0, mErasedTatamis = []\<rparr>, e))"

text \<open>
  The loops over the blocks of a tatami: the redo goes through the groups by index (\<open>tatamiBlocks\<close>), the undo
  through the handles of the indices, which also gives the locations (\<open>blocksOfTatami\<close>).
\<close>

definition tatamiBlocks :: "TatamiStore \<Rightarrow> Block list result" where
  "tatamiBlocks t = foldE (\<lambda>i acc. bindE (tatami_atIndex i t) (\<lambda>g.
     foldE (\<lambda>j acc. bindE (concurrent_atIndex j g) (\<lambda>s. Inr (acc @ mBlocks s))) [0..<concurrent_groupCount g] acc))
     [0..<tatami_groupCount t] []"

definition blocksOfSequential :: "SequentialGroupLocation \<Rightarrow> SequentialBlockGroup \<Rightarrow> (Block \<times> BlockLocation) list" where
  "blocksOfSequential loc s = map (\<lambda>k. (mBlocks s ! k, BlockLocation loc k)) [0..<blockCount s]"

definition blocksOfConcurrent :: "ConcurrentGroupLocation \<Rightarrow> ConcurrentBlockGroup \<Rightarrow> (Block \<times> BlockLocation) list result" where
  "blocksOfConcurrent loc g = foldE (\<lambda>j acc.
     bindE (concurrent_getHandle j g) (\<lambda>h. bindE (concurrent_at h g) (\<lambda>s.
       Inr (acc @ blocksOfSequential (SequentialGroupLocation loc h) s)))) [0..<concurrent_groupCount g] []"

definition blocksOfTatami :: "TatamiLocation \<Rightarrow> TatamiStore \<Rightarrow> (Block \<times> BlockLocation) list result" where
  "blocksOfTatami loc t = foldE (\<lambda>i acc.
     bindE (tatami_getHandle i t) (\<lambda>h. bindE (tatami_at h t) (\<lambda>g.
     bindE (blocksOfConcurrent (ConcurrentGroupLocation loc h) g) (\<lambda>bs. Inr (acc @ bs))))) [0..<tatami_groupCount t] []"

definition eraseTatamiStep ::
  "TatamiLocation \<Rightarrow> SetTatamiCountAction \<times> TournamentStore \<Rightarrow> (SetTatamiCountAction \<times> TournamentStore) result" where
  "eraseTatamiStep loc = (\<lambda>(a, t).
     bindE (list_at (tatami_handle loc) (mTatamiList t)) (\<lambda>tatami.
     bindE (updateTatamis (eraseTatami (tatami_handle loc)) t) (\<lambda>t1.
     bindE (tatamiBlocks tatami) (\<lambda>bs.
     bindE (foldE (\<lambda>b. setBlockLocation b None) bs t1) (\<lambda>t2.
       Inr (a\<lparr>mErasedTatamis := mErasedTatamis a @ [(loc, tatami)]\<rparr>, t2))))))"

definition handlesFrom :: "nat \<Rightarrow> TatamiList \<Rightarrow> TatamiLocation list result" where
  "handlesFrom n tatamis =
     foldE (\<lambda>i acc. bindE (list_getHandle i tatamis) (\<lambda>h. Inr (acc @ [TatamiLocation h]))) [n..<tatamiCount tatamis] []"

definition SetTatamiCountAction_redo :: "SetTatamiCountAction \<Rightarrow> TournamentStore \<Rightarrow> (SetTatamiCountAction \<times> TournamentStore) result" where
  "SetTatamiCountAction_redo a t =
     (let tatamis = mTatamiList t; n = tatamiCount tatamis; a0 = a\<lparr>mOldCount := n\<rparr> in
      if n < length (mCountLocations a)
      then Inr (a0, t\<lparr>mTatamiList := fold (\<lambda>loc. insertTatami (tatami_handle loc)) (drop n (mCountLocations a)) tatamis\<rparr>)
      else if n > length (mCountLocations a)
      then bindE (handlesFrom (length (mCountLocations a)) tatamis) (\<lambda>locs. foldE eraseTatamiStep locs (a0, t))
      else Inr (a0, t))"

text \<open>\<^verbatim>\<open>tatamis[handle] = std::move(tatami)\<close>\<close>

definition restoreTatami :: "TatamiLocation \<times> TatamiStore \<Rightarrow> TatamiList \<Rightarrow> TatamiList" where
  "restoreTatami = (\<lambda>(loc, tatami) l. list_put (tatami_handle loc) tatami (snd (list_subscript (tatami_handle loc) l)))"

definition SetTatamiCountAction_undo :: "SetTatamiCountAction \<Rightarrow> TournamentStore \<Rightarrow> (SetTatamiCountAction \<times> TournamentStore) result" where
  "SetTatamiCountAction_undo a t =
     (let tatamis = mTatamiList t; n = tatamiCount tatamis in
      if n > mOldCount a
      then bindE (handlesFrom (mOldCount a) tatamis) (\<lambda>locs.
           bindE (foldE (\<lambda>loc. eraseTatami (tatami_handle loc)) locs tatamis) (\<lambda>l. Inr (a, t\<lparr>mTatamiList := l\<rparr>)))
      else if n < mOldCount a
      then bindE (foldE (\<lambda>(loc, tatami) t. bindE (blocksOfTatami loc tatami) (\<lambda>bs.
             foldE (\<lambda>(b, l). setBlockLocation b (Some l)) bs t)) (mErasedTatamis a) t) (\<lambda>t1.
             Inr (a\<lparr>mErasedTatamis := []\<rparr>, t1\<lparr>mTatamiList := fold restoreTatami (mErasedTatamis a) (mTatamiList t1)\<rparr>))
      else Inr (a, t))"

subsection \<open>SetCategoriesMatchesHiddenAction\<close>

record SetCategoriesMatchesHiddenAction =
  mHiddenCategoryIds :: "CategoryId list"
  mHidden :: bool
  mHiddenChanged :: "CategoryId list"

definition hidden_getCategoriesThatChange :: "SetCategoriesMatchesHiddenAction \<Rightarrow> TournamentStore \<Rightarrow> CategoryId list" where
  "hidden_getCategoriesThatChange a t = filter (\<lambda>i.
     case mCategories t i of None \<Rightarrow> False | Some c \<Rightarrow> areMatchesHidden c \<noteq> mHidden a) (mHiddenCategoryIds a)"

text \<open>The locations of the blocks of some categories, without duplicates.\<close>

definition collectLocations :: "CategoryId \<Rightarrow> BlockLocation list \<Rightarrow> TournamentStore \<Rightarrow> BlockLocation list result" where
  "collectLocations i locs t = bindE (getCategory i t) (\<lambda>c.
     Inr (fold (\<lambda>ty locs. case category_getLocation c ty of None \<Rightarrow> locs | Some l \<Rightarrow> insertLocation BlockLocation_eq l locs)
       [FINAL, ELIMINATION] locs))"

definition getLocationsThatChange :: "CategoryId list \<Rightarrow> TournamentStore \<Rightarrow> BlockLocation list result" where
  "getLocationsThatChange ids t = foldE (\<lambda>i locs. collectLocations i locs t) ids []"

definition recomputeOf :: "BlockLocation list \<Rightarrow> TournamentStore \<Rightarrow> TournamentStore result" where
  "recomputeOf locs t = (if locs = [] then Inr t else updateTatamis (recomputeBlocks (mCategories t) locs) t)"

definition signalChanges :: "CategoryId list \<Rightarrow> TournamentStore \<Rightarrow> TournamentStore result" where
  "signalChanges ids t = (if ids = [] then Inr t else bindE (getLocationsThatChange ids t) (\<lambda>locs. recomputeOf locs t))"

definition setHidden :: "bool \<Rightarrow> CategoryId \<Rightarrow> TournamentStore \<Rightarrow> TournamentStore result" where
  "setHidden b i t = modifyCategory i (\<lambda>c. Inr (setMatchesHidden b c)) t"

definition SetCategoriesMatchesHiddenAction_redo ::
  "SetCategoriesMatchesHiddenAction \<Rightarrow> TournamentStore \<Rightarrow> (SetCategoriesMatchesHiddenAction \<times> TournamentStore) result" where
  "SetCategoriesMatchesHiddenAction_redo a t =
     (let ids = hidden_getCategoriesThatChange a t
      in bindE (foldE (setHidden (mHidden a)) ids t) (\<lambda>t1.
         bindE (signalChanges ids t1) (\<lambda>t2. Inr (a\<lparr>mHiddenChanged := ids\<rparr>, t2))))"

definition SetCategoriesMatchesHiddenAction_undo ::
  "SetCategoriesMatchesHiddenAction \<Rightarrow> TournamentStore \<Rightarrow> (SetCategoriesMatchesHiddenAction \<times> TournamentStore) result" where
  "SetCategoriesMatchesHiddenAction_undo a t =
     bindE (foldE (setHidden (\<not> mHidden a)) (rev (mHiddenChanged a)) t) (\<lambda>t1.
     bindE (signalChanges (mHiddenChanged a) t1) (\<lambda>t2. Inr (a\<lparr>mHiddenChanged := []\<rparr>, t2)))"

definition SetCategoriesMatchesHiddenAction_doesRequireConfirmation ::
  "SetCategoriesMatchesHiddenAction \<Rightarrow> TournamentStore \<Rightarrow> bool" where
  "SetCategoriesMatchesHiddenAction_doesRequireConfirmation a t \<longleftrightarrow> mHidden a \<and>
     (\<exists>i \<in> set (mHiddenCategoryIds a). case mCategories t i of
        None \<Rightarrow> False | Some c \<Rightarrow> areMatchesHidden c \<noteq> mHidden a \<and> category_isStarted c)"

end
