(* ===== verification/Field_Actions.thy ===== *)
theory Field_Actions
  imports Tournament_Store
begin

section \<open>Actions that change one field\<close>

text \<open>
  Models the actions \<^verbatim>\<open>change_players_*_action.cpp\<close> for the fields that have no influence on draws,
  \<^verbatim>\<open>change_categories_name_action.cpp\<close> and \<^verbatim>\<open>change_tournament_*_action.cpp\<close> of \<^verbatim>\<open>src/core/actions\<close>. All
  actions of the first two kinds have the same code up to the field, so they are instances of
  \<open>changeField_redo\<close> and \<open>changeField_undo\<close>. (The weight and the blue judogi hint also touch the draws: theory
  \<open>Draw_Actions\<close>.)

  The locale \<open>field_store\<close> is what these actions rely on: a store of objects under keys, and a field of the
  objects. It is interpreted for the fields of players and categories.
\<close>

subsection \<open>The common code\<close>

record ('k, 'v) FieldAction =
  mIdsToChange :: "'k list"
  mValue :: 'v
  mChanged :: "'k list"
  mOldValues :: "'v list"

definition newFieldAction :: "'k list \<Rightarrow> 'v \<Rightarrow> ('k, 'v) FieldAction" where
  "newFieldAction ids v = \<lparr>mIdsToChange = ids, mValue = v, mChanged = [], mOldValues = []\<rparr>"

definition changeField_step ::
  "('k \<Rightarrow> 's \<Rightarrow> bool) \<Rightarrow> ('k \<Rightarrow> 's \<Rightarrow> 'o result) \<Rightarrow> ('k \<Rightarrow> 'o \<Rightarrow> 's \<Rightarrow> 's result) \<Rightarrow> ('o \<Rightarrow> 'v) \<Rightarrow> ('v \<Rightarrow> 'o \<Rightarrow> 'o) \<Rightarrow>
   'k \<Rightarrow> ('k, 'v) FieldAction \<times> 's \<Rightarrow> (('k, 'v) FieldAction \<times> 's) result" where
  "changeField_step contains lookup put get upd k = (\<lambda>(a, s).
     if \<not> contains k s then Inr (a, s)
     else bindE (lookup k s) (\<lambda>x.
       if get x = mValue a then Inr (a, s)
       else bindE (put k (upd (mValue a) x) s) (\<lambda>s'.
         Inr (a\<lparr>mChanged := mChanged a @ [k], mOldValues := mOldValues a @ [get x]\<rparr>, s'))))"

definition changeField_redo ::
  "('k \<Rightarrow> 's \<Rightarrow> bool) \<Rightarrow> ('k \<Rightarrow> 's \<Rightarrow> 'o result) \<Rightarrow> ('k \<Rightarrow> 'o \<Rightarrow> 's \<Rightarrow> 's result) \<Rightarrow> ('o \<Rightarrow> 'v) \<Rightarrow> ('v \<Rightarrow> 'o \<Rightarrow> 'o) \<Rightarrow>
   ('k, 'v) FieldAction \<Rightarrow> 's \<Rightarrow> (('k, 'v) FieldAction \<times> 's) result" where
  "changeField_redo contains lookup put get upd a s =
     foldE (changeField_step contains lookup put get upd) (mIdsToChange a) (a, s)"

text \<open>The iterator over \<^verbatim>\<open>mOldValues\<close> is the list of the values that are left.\<close>

definition restoreField_step ::
  "('k \<Rightarrow> 's \<Rightarrow> 'o result) \<Rightarrow> ('k \<Rightarrow> 'o \<Rightarrow> 's \<Rightarrow> 's result) \<Rightarrow> ('v \<Rightarrow> 'o \<Rightarrow> 'o) \<Rightarrow>
   'k \<Rightarrow> 'v list \<times> 's \<Rightarrow> ('v list \<times> 's) result" where
  "restoreField_step lookup put upd k = (\<lambda>(vs, s).
     case vs of
       [] \<Rightarrow> Inl AssertionFailed
     | v # vs' \<Rightarrow> bindE (lookup k s) (\<lambda>x. bindE (put k (upd v x) s) (\<lambda>s'. Inr (vs', s'))))"

definition changeField_undo ::
  "('k \<Rightarrow> 's \<Rightarrow> 'o result) \<Rightarrow> ('k \<Rightarrow> 'o \<Rightarrow> 's \<Rightarrow> 's result) \<Rightarrow> ('v \<Rightarrow> 'o \<Rightarrow> 'o) \<Rightarrow>
   ('k, 'v) FieldAction \<Rightarrow> 's \<Rightarrow> (('k, 'v) FieldAction \<times> 's) result" where
  "changeField_undo lookup put upd a s =
     bindE (foldE (restoreField_step lookup put upd) (mChanged a) (mOldValues a, s)) (\<lambda>(vs, s').
       Inr (a\<lparr>mChanged := [], mOldValues := []\<rparr>, s'))"

subsection \<open>The interface\<close>

lemma foldE_single: "foldE f [x] = f x"
  by (rule ext) (metis bindE_Inr_right ext foldE.simps)

locale field_store = keyed_store inv lookup put + store_field get set_field
  for inv :: "'s \<Rightarrow> bool" and lookup :: "'k \<Rightarrow> 's \<Rightarrow> 'o result" and put :: "'k \<Rightarrow> 'o \<Rightarrow> 's \<Rightarrow> 's result"
    and get :: "'o \<Rightarrow> 'v" and set_field :: "'v \<Rightarrow> 'o \<Rightarrow> 'o" +
  fixes contains :: "'k \<Rightarrow> 's \<Rightarrow> bool"
  assumes contains_iff: "contains k s \<longleftrightarrow> (\<exists>x. lookup k s = Inr x)"
    and put_inv: "inv s \<Longrightarrow> put k x s = Inr s' \<Longrightarrow> inv s'"
    and put_commute: "put k x s = Inr s1 \<Longrightarrow> put k' x' s1 = Inr s2 \<Longrightarrow> k \<noteq> k' \<Longrightarrow>
      \<exists>s3. put k' x' s = Inr s3 \<and> put k x s3 = Inr s2"
begin

text \<open>Writing the value \<open>v\<close> under all keys of a list.\<close>

definition writeAll :: "'v \<Rightarrow> 'k list \<Rightarrow> 's \<Rightarrow> 's result" where
  "writeAll v ks s = foldE (\<lambda>k s. bindE (lookup k s) (\<lambda>x. put k (set_field v x) s)) ks s"

lemma writeAll_simps [simp]:
  "writeAll v [] s = Inr s"
  "writeAll v (k # ks) s = bindE (bindE (lookup k s) (\<lambda>x. put k (set_field v x) s)) (writeAll v ks)"
  by (simp_all add: writeAll_def[abs_def])

lemma writeAll_snoc: "writeAll v (ks @ [k]) s = bindE (writeAll v ks s) (\<lambda>s'. bindE (lookup k s') (\<lambda>x. put k (set_field v x) s'))"
  by (simp add: writeAll_def foldE_append foldE_single)

lemma writeAll_inv: "writeAll v ks s = Inr s' \<Longrightarrow> inv s \<Longrightarrow> inv s'"
  by (induction ks arbitrary: s) (auto dest: put_inv)

lemma writeAll_frame: "writeAll v ks s = Inr s' \<Longrightarrow> inv s \<Longrightarrow> k \<notin> set ks \<Longrightarrow> lookup k s' = lookup k s"
proof (induction ks arbitrary: s)
  case (Cons j ks)
  then obtain x s1 where "lookup j s = Inr x" "put j (set_field v x) s = Inr s1" "writeAll v ks s1 = Inr s'" by auto
  with Cons put_inv[of s j _ s1] put_other[of s j _ s1 k] show ?case by simp
qed simp

lemma writeAll_commute:
  assumes "writeAll v ks s1 = Inr s2" and "inv s" and "inv s1" and "put k x s1 = Inr s" and "k \<notin> set ks"
  shows "\<exists>s3. put k x s2 = Inr s3 \<and> writeAll v ks s = Inr s3"
  using assms
proof (induction ks arbitrary: s s1)
  case (Cons j ks)
  then obtain y s1' where y: "lookup j s1 = Inr y" "put j (set_field v y) s1 = Inr s1'" "writeAll v ks s1' = Inr s2" by auto
  have kj: "k \<noteq> j" "j \<noteq> k" using Cons.prems(5) by auto
  have ly: "lookup j s = Inr y" using put_other[OF Cons.prems(3,4) kj(2)] y(1) by simp
  obtain s' where s': "put j (set_field v y) s = Inr s'" using put_total[OF Cons.prems(2) ly] by blast
  from put_commute[OF Cons.prems(4) s' kj(1)] y(2) have "put k x s1' = Inr s'" by auto
  from Cons.IH[OF y(3) _ _ this] Cons.prems put_inv[OF Cons.prems(2) s'] put_inv[OF Cons.prems(3) y(2)]
  show ?case using ly s' by auto
qed auto

lemma restoreAll:
  assumes "writeAll v ks s = Inr s'" and "inv s" and "distinct ks"
    and "list_all2 (\<lambda>k w. \<exists>x. lookup k s = Inr x \<and> get x = w) ks ws"
  shows "foldE (restoreField_step lookup put set_field) ks (ws, s') = Inr ([], s)"
  using assms
proof (induction ks arbitrary: s s' ws)
  case (Cons k ks)
  then obtain x s1 where x: "lookup k s = Inr x" "put k (set_field v x) s = Inr s1" "writeAll v ks s1 = Inr s'" by auto
  obtain ws' where ws: "ws = get x # ws'" "list_all2 (\<lambda>k w. \<exists>x. lookup k s = Inr x \<and> get x = w) ks ws'"
    using Cons.prems(4) x(1) by (auto simp: list_all2_Cons1)
  have inv1: "inv s1" using put_inv[OF Cons.prems(2) x(2)] .
  have undo_put: "put k x s1 = Inr s" using put_back[OF Cons.prems(2) x(1,2)] .
  have look: "lookup k s' = Inr (set_field v x)"
    using writeAll_frame[OF x(3) inv1] put_same[OF Cons.prems(2) x(2)] Cons.prems(3) by simp
  obtain s3 where s3: "put k x s' = Inr s3" "writeAll v ks s = Inr s3"
    using writeAll_commute[OF x(3) Cons.prems(2) inv1 undo_put] Cons.prems(3) by auto
  have "foldE (restoreField_step lookup put set_field) ks (ws', s3) = Inr ([], s)"
    using Cons.IH[OF s3(2) Cons.prems(2)] Cons.prems(3) ws(2) by simp
  moreover have "restoreField_step lookup put set_field k (ws, s') = Inr (ws', s3)"
    using look s3(1) ws(1) by (simp add: restoreField_step_def)
  ultimately show ?case by simp
qed simp

lemma redo_writes:
  assumes "inv s"
  shows "\<exists>a' s' ks ws. foldE (changeField_step contains lookup put get set_field) ids (a, s) = Inr (a', s') \<and>
    a' = a\<lparr>mChanged := mChanged a @ ks, mOldValues := mOldValues a @ ws\<rparr> \<and> writeAll (mValue a) ks s = Inr s' \<and> distinct ks \<and>
    list_all2 (\<lambda>k w. \<exists>x. lookup k s = Inr x \<and> get x = w) ks ws \<and> set ks \<subseteq> set ids \<and>
    (\<forall>k \<in> set ks \<union> set ids. \<forall>x. lookup k s' = Inr x \<longrightarrow> get x = mValue a)"
proof (induction ids rule: rev_induct)
  case Nil
  show ?case by (intro exI[of _ a] exI[of _ s] exI[of _ "[]"]) simp
next
  case (snoc k ids)
  then obtain a' s' ks ws where IH: "foldE (changeField_step contains lookup put get set_field) ids (a, s) = Inr (a', s')"
    "a' = a\<lparr>mChanged := mChanged a @ ks, mOldValues := mOldValues a @ ws\<rparr>" "writeAll (mValue a) ks s = Inr s'" "distinct ks"
    "list_all2 (\<lambda>k w. \<exists>x. lookup k s = Inr x \<and> get x = w) ks ws" "set ks \<subseteq> set ids"
    "\<forall>k \<in> set ks \<union> set ids. \<forall>x. lookup k s' = Inr x \<longrightarrow> get x = mValue a" by blast
  show ?case
  proof (cases "\<exists>x. lookup k s' = Inr x \<and> get x \<noteq> mValue a")
    case False
    then have "changeField_step contains lookup put get set_field k (a', s') = Inr (a', s')"
      using IH(2) by (auto simp: changeField_step_def contains_iff)
    with IH False show ?thesis
      by (intro exI[of _ a'] exI[of _ s'] exI[of _ ks] exI[of _ ws]) (auto simp: foldE_append)
  next
    case True
    then obtain x where x: "lookup k s' = Inr x" "get x \<noteq> mValue a" by blast
    have inv': "inv s'" using writeAll_inv[OF IH(3) assms] .
    obtain s2 where s2: "put k (set_field (mValue a) x) s' = Inr s2" using put_total[OF inv' x(1)] by blast
    have nk: "k \<notin> set ks" "k \<notin> set ids" using IH(6,7) x by auto
    let ?a2 = "a\<lparr>mChanged := mChanged a @ (ks @ [k]), mOldValues := mOldValues a @ (ws @ [get x])\<rparr>"
    have "foldE (changeField_step contains lookup put get set_field) (ids @ [k]) (a, s) = Inr (?a2, s2)"
      using IH(1,2) x s2 by (simp add: foldE_append changeField_step_def contains_iff)
    moreover have "writeAll (mValue a) (ks @ [k]) s = Inr s2" using IH(3) x(1) s2 by (simp add: writeAll_snoc)
    moreover have "lookup k s = Inr x" using writeAll_frame[OF IH(3) assms nk(1)] x(1) by simp
    then have "list_all2 (\<lambda>k w. \<exists>x. lookup k s = Inr x \<and> get x = w) (ks @ [k]) (ws @ [get x])"
      using IH(5) by (auto intro: list_all2_appendI)
    moreover have "\<forall>j \<in> set (ks @ [k]) \<union> set (ids @ [k]). \<forall>y. lookup j s2 = Inr y \<longrightarrow> get y = mValue a"
      using IH(7) put_same[OF inv' s2] put_other[OF inv' s2] by (metis Inr_inject Un_iff append_is_Nil_conv
        get_put in_set_conv_decomp set_ConsD set_append empty_iff list.set(1))
    ultimately show ?thesis using IH(4,6) nk
      by (intro exI[of _ ?a2] exI[of _ s2] exI[of _ "ks @ [k]"] exI[of _ "ws @ [get x]"]) auto
  qed
qed

text \<open>Redo of a fresh action succeeds, and undo restores store and action.\<close>

lemma change_undo:
  assumes "inv s"
  shows "\<exists>a s'. changeField_redo contains lookup put get set_field (newFieldAction ids v) s = Inr (a, s') \<and>
    changeField_undo lookup put set_field a s' = Inr (newFieldAction ids v, s) \<and>
    (\<forall>k \<in> set ids. \<forall>x. lookup k s' = Inr x \<longrightarrow> get x = v)"
proof -
  let ?a = "newFieldAction ids v"
  obtain a' s' ks ws where *: "foldE (changeField_step contains lookup put get set_field) ids (?a, s) = Inr (a', s')"
    "a' = ?a\<lparr>mChanged := mChanged ?a @ ks, mOldValues := mOldValues ?a @ ws\<rparr>" "writeAll (mValue ?a) ks s = Inr s'" "distinct ks"
    "list_all2 (\<lambda>k w. \<exists>x. lookup k s = Inr x \<and> get x = w) ks ws"
    "\<forall>k \<in> set ks \<union> set ids. \<forall>x. lookup k s' = Inr x \<longrightarrow> get x = mValue ?a"
    using redo_writes[OF assms, of ids ?a] by blast
  show ?thesis
    by (intro exI[of _ a'] exI[of _ s'])
      (use * restoreAll[OF *(3) assms *(4,5)] in \<open>auto simp: changeField_redo_def changeField_undo_def newFieldAction_def\<close>)
qed

end

subsection \<open>The actions\<close>

definition ChangePlayersFirstNameAction_redo :: "(PlayerId, string) FieldAction \<Rightarrow> TournamentStore \<Rightarrow> ((PlayerId, string) FieldAction \<times> TournamentStore) result" where
  "ChangePlayersFirstNameAction_redo = changeField_redo containsPlayer tournament_getPlayer putPlayer getFirstName setFirstName"

definition ChangePlayersFirstNameAction_undo :: "(PlayerId, string) FieldAction \<Rightarrow> TournamentStore \<Rightarrow> ((PlayerId, string) FieldAction \<times> TournamentStore) result" where
  "ChangePlayersFirstNameAction_undo = changeField_undo tournament_getPlayer putPlayer setFirstName"

definition ChangePlayersLastNameAction_redo :: "(PlayerId, string) FieldAction \<Rightarrow> TournamentStore \<Rightarrow> ((PlayerId, string) FieldAction \<times> TournamentStore) result" where
  "ChangePlayersLastNameAction_redo = changeField_redo containsPlayer tournament_getPlayer putPlayer getLastName setLastName"

definition ChangePlayersLastNameAction_undo :: "(PlayerId, string) FieldAction \<Rightarrow> TournamentStore \<Rightarrow> ((PlayerId, string) FieldAction \<times> TournamentStore) result" where
  "ChangePlayersLastNameAction_undo = changeField_undo tournament_getPlayer putPlayer setLastName"

definition ChangePlayersAgeAction_redo :: "(PlayerId, PlayerAge option) FieldAction \<Rightarrow> TournamentStore \<Rightarrow> ((PlayerId, PlayerAge option) FieldAction \<times> TournamentStore) result" where
  "ChangePlayersAgeAction_redo = changeField_redo containsPlayer tournament_getPlayer putPlayer getAge setAge"

definition ChangePlayersAgeAction_undo :: "(PlayerId, PlayerAge option) FieldAction \<Rightarrow> TournamentStore \<Rightarrow> ((PlayerId, PlayerAge option) FieldAction \<times> TournamentStore) result" where
  "ChangePlayersAgeAction_undo = changeField_undo tournament_getPlayer putPlayer setAge"

definition ChangePlayersRankAction_redo :: "(PlayerId, PlayerRank option) FieldAction \<Rightarrow> TournamentStore \<Rightarrow> ((PlayerId, PlayerRank option) FieldAction \<times> TournamentStore) result" where
  "ChangePlayersRankAction_redo = changeField_redo containsPlayer tournament_getPlayer putPlayer getRank setRank"

definition ChangePlayersRankAction_undo :: "(PlayerId, PlayerRank option) FieldAction \<Rightarrow> TournamentStore \<Rightarrow> ((PlayerId, PlayerRank option) FieldAction \<times> TournamentStore) result" where
  "ChangePlayersRankAction_undo = changeField_undo tournament_getPlayer putPlayer setRank"

definition ChangePlayersCountryAction_redo :: "(PlayerId, PlayerCountry option) FieldAction \<Rightarrow> TournamentStore \<Rightarrow> ((PlayerId, PlayerCountry option) FieldAction \<times> TournamentStore) result" where
  "ChangePlayersCountryAction_redo = changeField_redo containsPlayer tournament_getPlayer putPlayer getCountry setCountry"

definition ChangePlayersCountryAction_undo :: "(PlayerId, PlayerCountry option) FieldAction \<Rightarrow> TournamentStore \<Rightarrow> ((PlayerId, PlayerCountry option) FieldAction \<times> TournamentStore) result" where
  "ChangePlayersCountryAction_undo = changeField_undo tournament_getPlayer putPlayer setCountry"

definition ChangePlayersClubAction_redo :: "(PlayerId, string) FieldAction \<Rightarrow> TournamentStore \<Rightarrow> ((PlayerId, string) FieldAction \<times> TournamentStore) result" where
  "ChangePlayersClubAction_redo = changeField_redo containsPlayer tournament_getPlayer putPlayer getClub setClub"

definition ChangePlayersClubAction_undo :: "(PlayerId, string) FieldAction \<Rightarrow> TournamentStore \<Rightarrow> ((PlayerId, string) FieldAction \<times> TournamentStore) result" where
  "ChangePlayersClubAction_undo = changeField_undo tournament_getPlayer putPlayer setClub"

definition ChangePlayersSexAction_redo :: "(PlayerId, PlayerSex option) FieldAction \<Rightarrow> TournamentStore \<Rightarrow> ((PlayerId, PlayerSex option) FieldAction \<times> TournamentStore) result" where
  "ChangePlayersSexAction_redo = changeField_redo containsPlayer tournament_getPlayer putPlayer getSex setSex"

definition ChangePlayersSexAction_undo :: "(PlayerId, PlayerSex option) FieldAction \<Rightarrow> TournamentStore \<Rightarrow> ((PlayerId, PlayerSex option) FieldAction \<times> TournamentStore) result" where
  "ChangePlayersSexAction_undo = changeField_undo tournament_getPlayer putPlayer setSex"

definition ChangeCategoriesNameAction_redo :: "(CategoryId, string) FieldAction \<Rightarrow> TournamentStore \<Rightarrow> ((CategoryId, string) FieldAction \<times> TournamentStore) result" where
  "ChangeCategoriesNameAction_redo = changeField_redo containsCategory getCategory putCategory category_getName category_setName"

definition ChangeCategoriesNameAction_undo :: "(CategoryId, string) FieldAction \<Rightarrow> TournamentStore \<Rightarrow> ((CategoryId, string) FieldAction \<times> TournamentStore) result" where
  "ChangeCategoriesNameAction_undo = changeField_undo getCategory putCategory category_setName"

record 'v TournamentFieldAction =
  mNewField :: 'v
  mOldField :: 'v

definition ChangeTournamentNameAction_redo :: "string TournamentFieldAction \<Rightarrow> TournamentStore \<Rightarrow> string TournamentFieldAction \<times> TournamentStore" where
  "ChangeTournamentNameAction_redo a t = (a\<lparr>mOldField := getName t\<rparr>, setName (mNewField a) t)"

definition ChangeTournamentNameAction_undo :: "string TournamentFieldAction \<Rightarrow> TournamentStore \<Rightarrow> TournamentStore" where
  "ChangeTournamentNameAction_undo a t = setName (mOldField a) t"

definition ChangeTournamentLocationAction_redo :: "string TournamentFieldAction \<Rightarrow> TournamentStore \<Rightarrow> string TournamentFieldAction \<times> TournamentStore" where
  "ChangeTournamentLocationAction_redo a t = (a\<lparr>mOldField := getLocation t\<rparr>, setLocation (mNewField a) t)"

definition ChangeTournamentLocationAction_undo :: "string TournamentFieldAction \<Rightarrow> TournamentStore \<Rightarrow> TournamentStore" where
  "ChangeTournamentLocationAction_undo a t = setLocation (mOldField a) t"

definition ChangeTournamentDateAction_redo :: "string TournamentFieldAction \<Rightarrow> TournamentStore \<Rightarrow> string TournamentFieldAction \<times> TournamentStore" where
  "ChangeTournamentDateAction_redo a t = (a\<lparr>mOldField := getDate t\<rparr>, setDate (mNewField a) t)"

definition ChangeTournamentDateAction_undo :: "string TournamentFieldAction \<Rightarrow> TournamentStore \<Rightarrow> TournamentStore" where
  "ChangeTournamentDateAction_undo a t = setDate (mOldField a) t"

definition ChangeTournamentWebNameAction_redo :: "string TournamentFieldAction \<Rightarrow> TournamentStore \<Rightarrow> string TournamentFieldAction \<times> TournamentStore" where
  "ChangeTournamentWebNameAction_redo a t = (a\<lparr>mOldField := getWebName t\<rparr>, setWebName (mNewField a) t)"

definition ChangeTournamentWebNameAction_undo :: "string TournamentFieldAction \<Rightarrow> TournamentStore \<Rightarrow> TournamentStore" where
  "ChangeTournamentWebNameAction_undo a t = setWebName (mOldField a) t"

subsection \<open>Interpretations\<close>

lemma putPlayer_commute:
  assumes "putPlayer k x s = Inr s1" and "putPlayer k' x' s1 = Inr s2" and "k \<noteq> k'"
  shows "\<exists>s3. putPlayer k' x' s = Inr s3 \<and> putPlayer k x s3 = Inr s2"
  using assms by (auto simp: putPlayer_eq_Inr fun_upd_twist split: if_splits)

lemma putCategory_commute:
  assumes "putCategory k x s = Inr s1" and "putCategory k' x' s1 = Inr s2" and "k \<noteq> k'"
  shows "\<exists>s3. putCategory k' x' s = Inr s3 \<and> putCategory k x s3 = Inr s2"
  using assms by (auto simp: putCategory_eq_Inr fun_upd_twist split: if_splits)

interpretation first_name_players: field_store "\<lambda>_. True" tournament_getPlayer putPlayer getFirstName setFirstName containsPlayer
  by unfold_locales (auto simp: containsPlayer_def dest: putPlayer_commute)

interpretation last_name_players: field_store "\<lambda>_. True" tournament_getPlayer putPlayer getLastName setLastName containsPlayer
  by unfold_locales (auto simp: containsPlayer_def dest: putPlayer_commute)

interpretation age_players: field_store "\<lambda>_. True" tournament_getPlayer putPlayer getAge setAge containsPlayer
  by unfold_locales (auto simp: containsPlayer_def dest: putPlayer_commute)

interpretation rank_players: field_store "\<lambda>_. True" tournament_getPlayer putPlayer getRank setRank containsPlayer
  by unfold_locales (auto simp: containsPlayer_def dest: putPlayer_commute)

interpretation country_players: field_store "\<lambda>_. True" tournament_getPlayer putPlayer getCountry setCountry containsPlayer
  by unfold_locales (auto simp: containsPlayer_def dest: putPlayer_commute)

interpretation club_players: field_store "\<lambda>_. True" tournament_getPlayer putPlayer getClub setClub containsPlayer
  by unfold_locales (auto simp: containsPlayer_def dest: putPlayer_commute)

interpretation sex_players: field_store "\<lambda>_. True" tournament_getPlayer putPlayer getSex setSex containsPlayer
  by unfold_locales (auto simp: containsPlayer_def dest: putPlayer_commute)

interpretation name_categories: field_store "\<lambda>_. True" getCategory putCategory category_getName category_setName containsCategory
  by unfold_locales (auto simp: containsCategory_def dest: putCategory_commute)

subsection \<open>Properties\<close>

text \<open>
  What a redo of a field action promises: it succeeds, the named objects that exist have the new value
  afterwards, and undo gives back the store and the fresh action.
\<close>

definition revertible_change ::
  "(('k, 'v) FieldAction \<Rightarrow> TournamentStore \<Rightarrow> (('k, 'v) FieldAction \<times> TournamentStore) result) \<Rightarrow>
   (('k, 'v) FieldAction \<Rightarrow> TournamentStore \<Rightarrow> (('k, 'v) FieldAction \<times> TournamentStore) result) \<Rightarrow>
   (TournamentStore \<Rightarrow> 'k \<rightharpoonup> 'o) \<Rightarrow> ('o \<Rightarrow> 'v) \<Rightarrow> bool" where
  "revertible_change redo undo objects get \<longleftrightarrow> (\<forall>ids v t. \<exists>a t'.
     redo (newFieldAction ids v) t = Inr (a, t') \<and> undo a t' = Inr (newFieldAction ids v, t) \<and>
     (\<forall>k \<in> set ids. \<forall>x. objects t' k = Some x \<longrightarrow> get x = v))"

text \<open>
  C35. Each of the eight actions that only write a field, the first name, last name, age, rank, country, club or sex of players or the name of
  categories (not those that change the weight, the hint for the blue judogi, the ruleset or the draw system, which do more),
  always succeeds, gives every existing player or category on its list the new value, and its undo restores
  the tournament exactly, even when a player is listed twice or missing.
\<close>
theorem field_actions_revertible:
  "revertible_change ChangePlayersFirstNameAction_redo ChangePlayersFirstNameAction_undo mPlayers getFirstName \<and>
   revertible_change ChangePlayersLastNameAction_redo ChangePlayersLastNameAction_undo mPlayers getLastName \<and>
   revertible_change ChangePlayersAgeAction_redo ChangePlayersAgeAction_undo mPlayers getAge \<and>
   revertible_change ChangePlayersRankAction_redo ChangePlayersRankAction_undo mPlayers getRank \<and>
   revertible_change ChangePlayersCountryAction_redo ChangePlayersCountryAction_undo mPlayers getCountry \<and>
   revertible_change ChangePlayersClubAction_redo ChangePlayersClubAction_undo mPlayers getClub \<and>
   revertible_change ChangePlayersSexAction_redo ChangePlayersSexAction_undo mPlayers getSex \<and>
   revertible_change ChangeCategoriesNameAction_redo ChangeCategoriesNameAction_undo mCategories category_getName"
  using first_name_players.change_undo last_name_players.change_undo age_players.change_undo rank_players.change_undo
    country_players.change_undo club_players.change_undo sex_players.change_undo name_categories.change_undo
  unfolding revertible_change_def ChangePlayersFirstNameAction_redo_def ChangePlayersFirstNameAction_undo_def
    ChangePlayersLastNameAction_redo_def ChangePlayersLastNameAction_undo_def ChangePlayersAgeAction_redo_def
    ChangePlayersAgeAction_undo_def ChangePlayersRankAction_redo_def ChangePlayersRankAction_undo_def
    ChangePlayersCountryAction_redo_def ChangePlayersCountryAction_undo_def ChangePlayersClubAction_redo_def
    ChangePlayersClubAction_undo_def ChangePlayersSexAction_redo_def ChangePlayersSexAction_undo_def
    ChangeCategoriesNameAction_redo_def ChangeCategoriesNameAction_undo_def
    tournament_getPlayer_eq_Inr getCategory_eq_Inr
  by (intro conjI allI) simp_all

text \<open>
  The actions on the name, place, date and web name of the tournament: redo sets the field and undo restores
  the tournament.
\<close>
theorem tournament_field_actions_undo:
  "(\<lambda>(a', t'). ChangeTournamentNameAction_undo a' t') (ChangeTournamentNameAction_redo a t) = t \<and>
   (\<lambda>(a', t'). ChangeTournamentLocationAction_undo a' t') (ChangeTournamentLocationAction_redo a t) = t \<and>
   (\<lambda>(a', t'). ChangeTournamentDateAction_undo a' t') (ChangeTournamentDateAction_redo a t) = t \<and>
   (\<lambda>(a', t'). ChangeTournamentWebNameAction_undo a' t') (ChangeTournamentWebNameAction_redo a t) = t \<and>
   getName (snd (ChangeTournamentNameAction_redo a t)) = mNewField a \<and>
   getLocation (snd (ChangeTournamentLocationAction_redo a t)) = mNewField a \<and>
   getDate (snd (ChangeTournamentDateAction_redo a t)) = mNewField a \<and>
   getWebName (snd (ChangeTournamentWebNameAction_redo a t)) = mNewField a"
  by (simp add: ChangeTournamentNameAction_undo_def ChangeTournamentNameAction_redo_def
      ChangeTournamentLocationAction_undo_def ChangeTournamentLocationAction_redo_def
      ChangeTournamentDateAction_undo_def ChangeTournamentDateAction_redo_def
      ChangeTournamentWebNameAction_undo_def ChangeTournamentWebNameAction_redo_def)

end
