(* ===== verification/Draw_Actions.thy ===== *)
theory Draw_Actions
  imports Tatami_Actions Field_Actions
begin

section \<open>Actions that draw categories\<close>

text \<open>
  Models \<^verbatim>\<open>draw_categories_action.cpp\<close>, \<^verbatim>\<open>change_categories_draw_system_action.cpp\<close>,
  \<^verbatim>\<open>change_categories_ruleset_action.cpp\<close>, \<^verbatim>\<open>change_players_weight_action.cpp\<close> and
  \<^verbatim>\<open>change_players_blue_judogi_hint_action.cpp\<close> of \<^verbatim>\<open>src/core/actions\<close>. The seed of an action is an argument of
  its constructor (\<^verbatim>\<open>getSeed()\<close> reads a random device). The vectors of undo members are used as stacks.
\<close>

subsection \<open>DrawCategoriesAction\<close>

record DrawCategoriesAction =
  mDrawCategoryIds :: "CategoryId list"
  mDrawSeed :: u32
  mDrawChanged :: "CategoryId list"
  mOldMatches :: "MatchStore list list"
  mOldDrawSystems :: "DrawSystem list"
  mOldStati :: "(MatchType \<Rightarrow> CategoryStatus) list"
  mActions :: "AddMatchAction list list"

definition newDrawCategoriesAction :: "CategoryId list \<Rightarrow> u32 \<Rightarrow> DrawCategoriesAction" where
  "newDrawCategoriesAction ids seed = \<lparr>mDrawCategoryIds = ids, mDrawSeed = seed, mDrawChanged = [], mOldMatches = [],
     mOldDrawSystems = [], mOldStati = [], mActions = []\<rparr>"

definition draw_getCategoriesThatChange :: "DrawCategoriesAction \<Rightarrow> TournamentStore \<Rightarrow> CategoryId list" where
  "draw_getCategoriesThatChange a t = filter (\<lambda>i. containsCategory i t) (mDrawCategoryIds a)"

definition eraseMatchFromPlayers :: "CategoryId \<Rightarrow> MatchStore \<Rightarrow> TournamentStore \<Rightarrow> TournamentStore result" where
  "eraseMatchFromPlayers i m t =
     bindE (whenPlayer (presentPlayer (getPlayer m WHITE) t) (\<lambda>p. Inr (player_eraseMatch (CombinedId i (match_getId m)) p)) t) (\<lambda>t1.
     whenPlayer (presentPlayer (getPlayer m BLUE) t1) (\<lambda>p. Inr (player_eraseMatch (CombinedId i (match_getId m)) p)) t1)"

text \<open>The counters of a category, computed from its matches.\<close>

definition computeStatus :: "CategoryStore \<Rightarrow> CategoryStore" where
  "computeStatus c = fold (\<lambda>m c. category_setStatus (mType m) (incrStatus (getStatus m) (category_getStatus c (mType m))) c)
     (mMatches c) (category_setStatus FINAL newCategoryStatus (category_setStatus ELIMINATION newCategoryStatus c))"

definition drawStep ::
  "CategoryId \<Rightarrow> DrawCategoriesAction \<times> BlockLocation list \<times> TournamentStore \<Rightarrow>
   (DrawCategoriesAction \<times> BlockLocation list \<times> TournamentStore) result" where
  "drawStep i = (\<lambda>(a, locs, t).
     bindE (getCategory i t) (\<lambda>c.
     bindE (foldE (eraseMatchFromPlayers i) (mMatches c) t) (\<lambda>t1.
       let (matches, c1) = clearMatches c;
           a1 = a\<lparr>mOldMatches := mOldMatches a @ [matches], mOldDrawSystems := mOldDrawSystems a @ [mDrawSystem c],
                  mOldStati := mOldStati a @ [mStatus c]\<rparr>;
           playerIds = sorted_list_of_set (mCategoryPlayers c)
       in bindE (initCategory (mDrawSystem c1) (mPlayers t1) c1 playerIds (mDrawSeed a)) (\<lambda>(d, actions).
          bindE (putCategory i (snd (category_setDrawSystem d c1)) t1) (\<lambda>t2.
          bindE (foldE AddMatchAction_redo actions t2) (\<lambda>t3.
          bindE (modifyCategory i (\<lambda>c. Inr (computeStatus c)) t3) (\<lambda>t4.
          bindE (collectLocations i locs t4) (\<lambda>locs'.
            Inr (a1\<lparr>mActions := mActions a @ [actions]\<rparr>, locs', t4)))))))))"

definition DrawCategoriesAction_redo :: "DrawCategoriesAction \<Rightarrow> TournamentStore \<Rightarrow> (DrawCategoriesAction \<times> TournamentStore) result" where
  "DrawCategoriesAction_redo a t =
     (let ids = draw_getCategoriesThatChange a t
      in bindE (foldE drawStep ids (a\<lparr>mDrawChanged := ids\<rparr>, [], t)) (\<lambda>(a', locs, t1).
         bindE (recomputeOf locs t1) (\<lambda>t2. Inr (a', t2))))"

text \<open>\<^verbatim>\<open>back\<close> and \<^verbatim>\<open>pop_back\<close>, undefined on an empty vector.\<close>

definition backE :: "'a list \<Rightarrow> 'a result" where
  "backE xs = (if xs = [] then Inl UndefinedBehaviour else Inr (last xs))"

definition addMatchToPlayers :: "MatchStore \<Rightarrow> TournamentStore \<Rightarrow> TournamentStore result" where
  "addMatchToPlayers m t =
     bindE (whenPlayer (presentPlayer (getPlayer m WHITE) t) (player_addMatch (mCombinedId m)) t) (\<lambda>t1.
     whenPlayer (presentPlayer (getPlayer m BLUE) t1) (player_addMatch (mCombinedId m)) t1)"

definition undrawStep ::
  "CategoryId \<Rightarrow> DrawCategoriesAction \<times> BlockLocation list \<times> TournamentStore \<Rightarrow>
   (DrawCategoriesAction \<times> BlockLocation list \<times> TournamentStore) result" where
  "undrawStep i = (\<lambda>(a, locs, t).
     bindE (backE (mActions a)) (\<lambda>actions.
     bindE (foldE AddMatchAction_undo (rev actions) t) (\<lambda>t1.
     bindE (backE (mOldDrawSystems a)) (\<lambda>d. bindE (backE (mOldStati a)) (\<lambda>st. bindE (backE (mOldMatches a)) (\<lambda>matches.
     bindE (modifyCategory i (\<lambda>c. Inr ((snd (category_setDrawSystem d c))\<lparr>mStatus := st\<rparr>)) t1) (\<lambda>t2.
     bindE (foldE (\<lambda>m t. bindE (addMatchToPlayers m t) (modifyCategory i (pushMatch m))) matches t2) (\<lambda>t3.
     bindE (collectLocations i locs t3) (\<lambda>locs'.
       Inr (a\<lparr>mActions := butlast (mActions a), mOldDrawSystems := butlast (mOldDrawSystems a), mOldStati := butlast (mOldStati a),
              mOldMatches := butlast (mOldMatches a)\<rparr>, locs', t3))))))))))"

definition DrawCategoriesAction_undo :: "DrawCategoriesAction \<Rightarrow> TournamentStore \<Rightarrow> (DrawCategoriesAction \<times> TournamentStore) result" where
  "DrawCategoriesAction_undo a t =
     bindE (foldE undrawStep (rev (mDrawChanged a)) (a, [], t)) (\<lambda>(a', locs, t1).
     bindE (recomputeOf locs t1) (\<lambda>t2. Inr (a'\<lparr>mDrawChanged := []\<rparr>, t2)))"

definition anyStarted :: "CategoryId list \<Rightarrow> TournamentStore \<Rightarrow> bool result" where
  "anyStarted ids t = foldE (\<lambda>i b. if b then Inr True else bindE (getCategory i t) (\<lambda>c. Inr (category_isStarted c))) ids False"

definition DrawCategoriesAction_doesRequireConfirmation :: "DrawCategoriesAction \<Rightarrow> TournamentStore \<Rightarrow> bool result" where
  "DrawCategoriesAction_doesRequireConfirmation a t = anyStarted (draw_getCategoriesThatChange a t) t"

subsection \<open>ChangeCategoriesDrawSystemAction\<close>

record ChangeCategoriesDrawSystemAction =
  mSystemCategoryIds :: "CategoryId list"
  mNewDrawSystem :: DrawSystemIdentifier
  mSystemSeed :: u32
  mSystemChanged :: "CategoryId list"
  mPrevDrawSystems :: "DrawSystem list"
  mSystemDrawAction :: "DrawCategoriesAction option"
  mLocationActions :: "SetTatamiLocationAction list"

definition newChangeCategoriesDrawSystemAction :: "CategoryId list \<Rightarrow> DrawSystemIdentifier \<Rightarrow> u32 \<Rightarrow> ChangeCategoriesDrawSystemAction" where
  "newChangeCategoriesDrawSystemAction ids d seed = \<lparr>mSystemCategoryIds = ids, mNewDrawSystem = d, mSystemSeed = seed,
     mSystemChanged = [], mPrevDrawSystems = [], mSystemDrawAction = None, mLocationActions = []\<rparr>"

definition system_getCategoriesThatChange :: "ChangeCategoriesDrawSystemAction \<Rightarrow> TournamentStore \<Rightarrow> CategoryId list" where
  "system_getCategoriesThatChange a t = filter (\<lambda>i. case mCategories t i of None \<Rightarrow> False
     | Some c \<Rightarrow> drawSystem_getIdentifier (mDrawSystem c) \<noteq> mNewDrawSystem a) (mSystemCategoryIds a)"

definition removeFinalBlock ::
  "CategoryId \<Rightarrow> ChangeCategoriesDrawSystemAction \<times> TournamentStore \<Rightarrow> (ChangeCategoriesDrawSystemAction \<times> TournamentStore) result" where
  "removeFinalBlock i = (\<lambda>(a, t). bindE (getCategory i t) (\<lambda>c.
     if category_getLocation c FINAL \<noteq> None
     then bindE (SetTatamiLocationAction_redo (newSetTatamiLocationAction (mCategoryId c, FINAL) None) t) (\<lambda>(u, t').
            Inr (a\<lparr>mLocationActions := mLocationActions a @ [u]\<rparr>, t'))
     else Inr (a, t)))"

definition replaceDrawSystem ::
  "DrawSystem \<Rightarrow> CategoryId \<Rightarrow> ChangeCategoriesDrawSystemAction \<times> TournamentStore \<Rightarrow> (ChangeCategoriesDrawSystemAction \<times> TournamentStore) result" where
  "replaceDrawSystem d i = (\<lambda>(a, t). bindE (getCategory i t) (\<lambda>c.
     let (old, c') = category_setDrawSystem d c
     in bindE (putCategory i c' t) (\<lambda>t'. Inr (a\<lparr>mPrevDrawSystems := mPrevDrawSystems a @ [old]\<rparr>, t'))))"

definition ChangeCategoriesDrawSystemAction_redo ::
  "ChangeCategoriesDrawSystemAction \<Rightarrow> TournamentStore \<Rightarrow> (ChangeCategoriesDrawSystemAction \<times> TournamentStore) result" where
  "ChangeCategoriesDrawSystemAction_redo a t =
     bindE (getDrawSystem (mNewDrawSystem a)) (\<lambda>d.
       let ids = system_getCategoriesThatChange a t; a0 = a\<lparr>mSystemChanged := ids\<rparr>
       in bindE (if \<not> hasFinalBlock d then foldE removeFinalBlock ids (a0, t) else Inr (a0, t)) (\<lambda>s1.
          bindE (foldE (replaceDrawSystem d) ids s1) (\<lambda>(a2, t2).
          bindE (DrawCategoriesAction_redo (newDrawCategoriesAction ids (mSystemSeed a)) t2) (\<lambda>(u, t3).
            Inr (a2\<lparr>mSystemDrawAction := Some u\<rparr>, t3)))))"

definition restoreDrawSystem ::
  "CategoryId \<Rightarrow> ChangeCategoriesDrawSystemAction \<times> TournamentStore \<Rightarrow> (ChangeCategoriesDrawSystemAction \<times> TournamentStore) result" where
  "restoreDrawSystem i = (\<lambda>(a, t). bindE (backE (mPrevDrawSystems a)) (\<lambda>d.
     bindE (modifyCategory i (\<lambda>c. Inr (snd (category_setDrawSystem d c))) t) (\<lambda>t'.
       Inr (a\<lparr>mPrevDrawSystems := butlast (mPrevDrawSystems a)\<rparr>, t'))))"

definition ChangeCategoriesDrawSystemAction_undo ::
  "ChangeCategoriesDrawSystemAction \<Rightarrow> TournamentStore \<Rightarrow> (ChangeCategoriesDrawSystemAction \<times> TournamentStore) result" where
  "ChangeCategoriesDrawSystemAction_undo a t =
     (case mSystemDrawAction a of
        None \<Rightarrow> Inl UndefinedBehaviour
      | Some u \<Rightarrow> bindE (DrawCategoriesAction_undo u t) (\<lambda>(_, t1).
          bindE (foldE restoreDrawSystem (rev (mSystemChanged a)) (a\<lparr>mSystemDrawAction := None\<rparr>, t1)) (\<lambda>(a2, t2).
          bindE (foldE SetTatamiLocationAction_undo (rev (mLocationActions a2)) t2) (\<lambda>t3.
            Inr (a2\<lparr>mLocationActions := [], mSystemChanged := []\<rparr>, t3)))))"

definition ChangeCategoriesDrawSystemAction_doesRequireConfirmation :: "ChangeCategoriesDrawSystemAction \<Rightarrow> TournamentStore \<Rightarrow> bool result" where
  "ChangeCategoriesDrawSystemAction_doesRequireConfirmation a t = anyStarted (system_getCategoriesThatChange a t) t"

subsection \<open>ChangeCategoriesRulesetAction\<close>

record ChangeCategoriesRulesetAction =
  mRulesetCategoryIds :: "CategoryId list"
  mNewRuleset :: RulesetIdentifier
  mRulesetChanged :: "CategoryId list"
  mOldRulesets :: "Ruleset list"
  mResetAction :: "ResetMatchesAction option"

definition ruleset_getCategoriesThatChange :: "ChangeCategoriesRulesetAction \<Rightarrow> TournamentStore \<Rightarrow> CategoryId list" where
  "ruleset_getCategoriesThatChange a t = filter (\<lambda>i. case mCategories t i of None \<Rightarrow> False
     | Some c \<Rightarrow> mRuleset c \<noteq> mNewRuleset a) (mRulesetCategoryIds a)"

definition replaceRuleset ::
  "Ruleset \<Rightarrow> CategoryId \<Rightarrow> ChangeCategoriesRulesetAction \<times> TournamentStore \<Rightarrow> (ChangeCategoriesRulesetAction \<times> TournamentStore) result" where
  "replaceRuleset r i = (\<lambda>(a, t). bindE (getCategory i t) (\<lambda>c.
     let (old, c') = category_setRuleset r c
     in bindE (putCategory i c' t) (\<lambda>t'. Inr (a\<lparr>mOldRulesets := mOldRulesets a @ [old]\<rparr>, t'))))"

definition ChangeCategoriesRulesetAction_redo ::
  "ChangeCategoriesRulesetAction \<Rightarrow> TournamentStore \<Rightarrow> (ChangeCategoriesRulesetAction \<times> TournamentStore) result" where
  "ChangeCategoriesRulesetAction_redo a t =
     (let ids = ruleset_getCategoriesThatChange a t
      in bindE (getRuleset (mNewRuleset a)) (\<lambda>r.
         bindE (foldE (replaceRuleset r) ids (a\<lparr>mRulesetChanged := ids\<rparr>, t)) (\<lambda>(a1, t1).
         bindE (newResetMatchesAction ids None) (\<lambda>reset.
         bindE (ResetMatchesAction_redo reset t1) (\<lambda>(u, t2).
           Inr (a1\<lparr>mResetAction := Some u\<rparr>, t2))))))"

definition restoreRuleset ::
  "CategoryId \<Rightarrow> ChangeCategoriesRulesetAction \<times> TournamentStore \<Rightarrow> (ChangeCategoriesRulesetAction \<times> TournamentStore) result" where
  "restoreRuleset i = (\<lambda>(a, t). bindE (backE (mOldRulesets a)) (\<lambda>r.
     bindE (modifyCategory i (\<lambda>c. Inr (snd (category_setRuleset r c))) t) (\<lambda>t'.
       Inr (a\<lparr>mOldRulesets := butlast (mOldRulesets a)\<rparr>, t'))))"

definition ChangeCategoriesRulesetAction_undo ::
  "ChangeCategoriesRulesetAction \<Rightarrow> TournamentStore \<Rightarrow> (ChangeCategoriesRulesetAction \<times> TournamentStore) result" where
  "ChangeCategoriesRulesetAction_undo a t =
     (case mResetAction a of
        None \<Rightarrow> Inl UndefinedBehaviour
      | Some u \<Rightarrow> bindE (ResetMatchesAction_undo u t) (\<lambda>(_, t1).
          bindE (foldE restoreRuleset (rev (mRulesetChanged a)) (a\<lparr>mResetAction := None\<rparr>, t1)) (\<lambda>(a2, t2).
            Inr (a2\<lparr>mRulesetChanged := []\<rparr>, t2))))"

definition ChangeCategoriesRulesetAction_doesRequireConfirmation :: "ChangeCategoriesRulesetAction \<Rightarrow> TournamentStore \<Rightarrow> bool result" where
  "ChangeCategoriesRulesetAction_doesRequireConfirmation a t = anyStarted (ruleset_getCategoriesThatChange a t) t"

subsection \<open>ChangePlayersWeightAction\<close>

record ChangePlayersWeightAction =
  mWeightFields :: "(PlayerId, PlayerWeight option) FieldAction"
  mWeightCategories :: "CategoryId list"
  mWeightDrawActions :: "DrawUndo list"

text \<open>The categories of some players, as the sorted \<^verbatim>\<open>std::set\<close> of the code.\<close>

definition categoriesOfPlayers :: "PlayerId list \<Rightarrow> TournamentStore \<Rightarrow> CategoryId list result" where
  "categoriesOfPlayers ps t =
     bindE (foldE (\<lambda>p ids. bindE (tournament_getPlayer p t) (\<lambda>player. Inr (ids \<union> mPlayerCategories player))) ps {}) (\<lambda>ids.
       Inr (sorted_list_of_set ids))"

definition weightDraws ::
  "CategoryId \<Rightarrow> DrawUndo list \<times> TournamentStore \<Rightarrow> (DrawUndo list \<times> TournamentStore) result" where
  "weightDraws i = (\<lambda>(stack, t). bindE (getCategory i t) (\<lambda>c.
     bindE (updateCategory (mDrawSystem c) (mPlayers t) c) (\<lambda>drawActions.
       execDraws (execDraw notifyDepth) drawActions stack t)))"

definition ChangePlayersWeightAction_redo ::
  "ChangePlayersWeightAction \<Rightarrow> TournamentStore \<Rightarrow> (ChangePlayersWeightAction \<times> TournamentStore) result" where
  "ChangePlayersWeightAction_redo a t =
     bindE (changeField_redo containsPlayer tournament_getPlayer putPlayer getWeight setWeight (mWeightFields a) t) (\<lambda>(f, t1).
     bindE (categoriesOfPlayers (mChanged f) t1) (\<lambda>ids.
     bindE (foldE weightDraws ids (mWeightDrawActions a, t1)) (\<lambda>(draws, t2).
       Inr (\<lparr>mWeightFields = f, mWeightCategories = ids, mWeightDrawActions = draws\<rparr>, t2))))"

definition ChangePlayersWeightAction_undo ::
  "ChangePlayersWeightAction \<Rightarrow> TournamentStore \<Rightarrow> (ChangePlayersWeightAction \<times> TournamentStore) result" where
  "ChangePlayersWeightAction_undo a t =
     bindE (undoDraws (mWeightDrawActions a) t) (\<lambda>t1.
     bindE (changeField_undo tournament_getPlayer putPlayer setWeight (mWeightFields a) t1) (\<lambda>(f, t2).
       Inr (\<lparr>mWeightFields = f, mWeightCategories = [], mWeightDrawActions = []\<rparr>, t2)))"

subsection \<open>ChangePlayersBlueJudogiHintAction\<close>

record ChangePlayersBlueJudogiHintAction =
  mHintFields :: "(PlayerId, bool) FieldAction"
  mHintSeed :: u32
  mHintDrawAction :: "DrawCategoriesAction option"

text \<open>
  The categories are read in the same loop that sets the hints. Setting a hint does not change the categories
  of a player, so they are collected from the changed players after the loop.
\<close>

definition ChangePlayersBlueJudogiHintAction_redo ::
  "ChangePlayersBlueJudogiHintAction \<Rightarrow> TournamentStore \<Rightarrow> (ChangePlayersBlueJudogiHintAction \<times> TournamentStore) result" where
  "ChangePlayersBlueJudogiHintAction_redo a t =
     bindE (changeField_redo containsPlayer tournament_getPlayer putPlayer getBlueJudogiHint setBlueJudogiHint (mHintFields a) t) (\<lambda>(f, t1).
     bindE (categoriesOfPlayers (drop (length (mChanged (mHintFields a))) (mChanged f)) t1) (\<lambda>ids.
       if ids \<noteq> []
       then bindE (DrawCategoriesAction_redo (newDrawCategoriesAction ids (mHintSeed a)) t1) (\<lambda>(u, t2).
              Inr (a\<lparr>mHintFields := f, mHintDrawAction := Some u\<rparr>, t2))
       else Inr (a\<lparr>mHintFields := f, mHintDrawAction := None\<rparr>, t1)))"

definition ChangePlayersBlueJudogiHintAction_undo ::
  "ChangePlayersBlueJudogiHintAction \<Rightarrow> TournamentStore \<Rightarrow> (ChangePlayersBlueJudogiHintAction \<times> TournamentStore) result" where
  "ChangePlayersBlueJudogiHintAction_undo a t =
     bindE (changeField_undo tournament_getPlayer putPlayer setBlueJudogiHint (mHintFields a) t) (\<lambda>(f, t1).
     bindE (case mHintDrawAction a of None \<Rightarrow> Inr t1 | Some u \<Rightarrow> bindE (DrawCategoriesAction_undo u t1) (\<lambda>(_, t2). Inr t2)) (\<lambda>t2.
       Inr (a\<lparr>mHintFields := f, mHintDrawAction := None\<rparr>, t2)))"

definition hint_changes :: "ChangePlayersBlueJudogiHintAction \<Rightarrow> TournamentStore \<Rightarrow> PlayerId list" where
  "hint_changes a t = filter (\<lambda>p. case mPlayers t p of None \<Rightarrow> False
     | Some player \<Rightarrow> getBlueJudogiHint player \<noteq> mValue (mHintFields a)) (mIdsToChange (mHintFields a))"

definition ChangePlayersBlueJudogiHintAction_doesRequireConfirmation :: "ChangePlayersBlueJudogiHintAction \<Rightarrow> TournamentStore \<Rightarrow> bool result" where
  "ChangePlayersBlueJudogiHintAction_doesRequireConfirmation a t =
     bindE (categoriesOfPlayers (hint_changes a t) t) (\<lambda>ids. anyStarted ids t)"

end
