(* ===== verification/Membership_Actions.thy ===== *)
theory Membership_Actions
  imports Draw_Actions
begin

section \<open>Actions on players and categories\<close>

text \<open>
  Models the actions of \<^verbatim>\<open>src/core/actions\<close> that add and erase players and categories and put players into
  categories: \<^verbatim>\<open>add_players\<close>, \<^verbatim>\<open>add_category\<close>, \<^verbatim>\<open>add_players_to_category\<close>, \<^verbatim>\<open>erase_players_from_category\<close>,
  \<^verbatim>\<open>erase_players\<close>, \<^verbatim>\<open>erase_players_from_all_categories\<close>, \<^verbatim>\<open>erase_categories\<close>, \<^verbatim>\<open>add_category_with_players\<close>
  and \<^verbatim>\<open>add_players_with_categories\<close>.
\<close>

subsection \<open>AddPlayersAction\<close>

record AddPlayersAction =
  mNewPlayerIds :: "PlayerId list"
  mNewPlayerFields :: "PlayerFields list"

definition newAddPlayersAction :: "PlayerId list \<Rightarrow> PlayerFields list \<Rightarrow> AddPlayersAction result" where
  "newAddPlayersAction ids fs = assertE (length ids = length fs) (Inr \<lparr>mNewPlayerIds = ids, mNewPlayerFields = fs\<rparr>)"

definition AddPlayersAction_redo :: "AddPlayersAction \<Rightarrow> TournamentStore \<Rightarrow> TournamentStore result" where
  "AddPlayersAction_redo a t =
     (if \<exists>i \<in> set (mNewPlayerIds a). containsPlayer i t
      then Inl (ActionExecutionException ''Failed to redo AddPlayersAction. Player already exists.'')
      else foldE (\<lambda>(i, fs). addPlayer (newPlayerStore i fs)) (zip (mNewPlayerIds a) (mNewPlayerFields a)) t)"

definition AddPlayersAction_undo :: "AddPlayersAction \<Rightarrow> TournamentStore \<Rightarrow> TournamentStore result" where
  "AddPlayersAction_undo a t = foldE (\<lambda>i t. bindE (erasePlayer i t) (\<lambda>(_, t'). Inr t')) (mNewPlayerIds a) t"

subsection \<open>AddCategoryAction\<close>

record AddCategoryAction =
  mNewCategoryId :: CategoryId
  mNewCategoryName :: string
  mNewCategoryRuleset :: RulesetIdentifier
  mNewCategoryDrawSystem :: DrawSystemIdentifier

definition AddCategoryAction_redo :: "AddCategoryAction \<Rightarrow> TournamentStore \<Rightarrow> TournamentStore result" where
  "AddCategoryAction_redo a t =
     (if containsCategory (mNewCategoryId a) t
      then Inl (ActionExecutionException ''Failed to redo AddCategoryAction. Category already exists.'')
      else bindE (getRuleset (mNewCategoryRuleset a)) (\<lambda>r.
           bindE (getDrawSystem (mNewCategoryDrawSystem a)) (\<lambda>d.
             addCategory (newCategoryStore (mNewCategoryId a) (mNewCategoryName a) r d) t)))"

definition AddCategoryAction_undo :: "AddCategoryAction \<Rightarrow> TournamentStore \<Rightarrow> TournamentStore result" where
  "AddCategoryAction_undo a t = bindE (eraseCategory (mNewCategoryId a) t) (\<lambda>(_, t'). Inr t')"

subsection \<open>AddPlayersToCategoryAction and ErasePlayersFromCategoryAction\<close>

text \<open>After the membership has changed, the category is drawn again, with the draw system preferred for its new size.\<close>

datatype RedrawAction =
    RedrawSystem ChangeCategoriesDrawSystemAction
  | Redraw DrawCategoriesAction

definition redraw :: "CategoryId \<Rightarrow> u32 \<Rightarrow> TournamentStore \<Rightarrow> (RedrawAction \<times> TournamentStore) result" where
  "redraw i seed t =
     bindE (getCategory i t) (\<lambda>c.
     bindE (getPreferredDrawSystem (mPreferences t) (card (mCategoryPlayers c))) (\<lambda>preferred.
       if drawSystem_getIdentifier (mDrawSystem c) \<noteq> preferred
       then bindE (ChangeCategoriesDrawSystemAction_redo (newChangeCategoriesDrawSystemAction [i] preferred seed) t) (\<lambda>(u, t').
              Inr (RedrawSystem u, t'))
       else bindE (DrawCategoriesAction_redo (newDrawCategoriesAction [i] seed) t) (\<lambda>(u, t'). Inr (Redraw u, t'))))"

definition redraw_undo :: "RedrawAction option \<Rightarrow> TournamentStore \<Rightarrow> TournamentStore result" where
  "redraw_undo u t =
     (case u of
        None \<Rightarrow> Inr t
      | Some (RedrawSystem a) \<Rightarrow> bindE (ChangeCategoriesDrawSystemAction_undo a t) (\<lambda>(_, t'). Inr t')
      | Some (Redraw a) \<Rightarrow> bindE (DrawCategoriesAction_undo a t) (\<lambda>(_, t'). Inr t'))"

record MembershipAction =
  mMemberCategoryId :: CategoryId
  mMemberPlayerIds :: "PlayerId list"
  mMemberSeed :: u32
  mMovedPlayerIds :: "PlayerId list" \<comment> \<open>\<^verbatim>\<open>mAddedPlayerIds\<close>, \<^verbatim>\<open>mErasedPlayerIds\<close>\<close>
  mRedrawAction :: "RedrawAction option"

definition newMembershipAction :: "CategoryId \<Rightarrow> PlayerId list \<Rightarrow> u32 \<Rightarrow> MembershipAction" where
  "newMembershipAction i ps seed = \<lparr>mMemberCategoryId = i, mMemberPlayerIds = ps, mMemberSeed = seed,
     mMovedPlayerIds = [], mRedrawAction = None\<rparr>"

definition joinCategory :: "CategoryId \<Rightarrow> PlayerId \<Rightarrow> TournamentStore \<Rightarrow> TournamentStore result" where
  "joinCategory i p t = bindE (modifyPlayer p (player_addCategory i) t) (modifyCategory i (category_addPlayer p))"

definition leaveCategory :: "CategoryId \<Rightarrow> PlayerId \<Rightarrow> TournamentStore \<Rightarrow> TournamentStore result" where
  "leaveCategory i p t = bindE (modifyPlayer p (player_eraseCategory i) t) (modifyCategory i (category_erasePlayer p))"

text \<open>The loop of both actions: players that exist and are (not) yet members are moved.\<close>

definition moveMembers ::
  "(CategoryId \<Rightarrow> PlayerId \<Rightarrow> TournamentStore \<Rightarrow> TournamentStore result) \<Rightarrow> bool \<Rightarrow> MembershipAction \<Rightarrow> TournamentStore \<Rightarrow>
   (MembershipAction \<times> TournamentStore) result" where
  "moveMembers move joining a t = foldE (\<lambda>p (a, t).
     if \<not> containsPlayer p t then Inr (a, t)
     else bindE (tournament_getPlayer p t) (\<lambda>player.
       if player_containsCategory (mMemberCategoryId a) player = joining then Inr (a, t)
       else bindE (move (mMemberCategoryId a) p t) (\<lambda>t'. Inr (a\<lparr>mMovedPlayerIds := mMovedPlayerIds a @ [p]\<rparr>, t'))))
     (mMemberPlayerIds a) (a, t)"

definition redrawIfMoved :: "MembershipAction \<times> TournamentStore \<Rightarrow> (MembershipAction \<times> TournamentStore) result" where
  "redrawIfMoved = (\<lambda>(a, t).
     if mMovedPlayerIds a = [] then Inr (a, t)
     else bindE (redraw (mMemberCategoryId a) (mMemberSeed a) t) (\<lambda>(u, t'). Inr (a\<lparr>mRedrawAction := Some u\<rparr>, t')))"

definition AddPlayersToCategoryAction_redo :: "MembershipAction \<Rightarrow> TournamentStore \<Rightarrow> (MembershipAction \<times> TournamentStore) result" where
  "AddPlayersToCategoryAction_redo a t =
     (if \<not> containsCategory (mMemberCategoryId a) t then Inr (a, t)
      else bindE (moveMembers joinCategory True a t) redrawIfMoved)"

definition ErasePlayersFromCategoryAction_redo :: "MembershipAction \<Rightarrow> TournamentStore \<Rightarrow> (MembershipAction \<times> TournamentStore) result" where
  "ErasePlayersFromCategoryAction_redo a t =
     (if \<not> containsCategory (mMemberCategoryId a) t then Inr (a, t)
      else bindE (moveMembers leaveCategory False a t) redrawIfMoved)"

definition AddPlayersToCategoryAction_undo :: "MembershipAction \<Rightarrow> TournamentStore \<Rightarrow> (MembershipAction \<times> TournamentStore) result" where
  "AddPlayersToCategoryAction_undo a t =
     (if \<not> containsCategory (mMemberCategoryId a) t then Inr (a, t)
      else bindE (foldE (leaveCategory (mMemberCategoryId a)) (mMovedPlayerIds a) t) (\<lambda>t1.
           bindE (redraw_undo (mRedrawAction a) t1) (\<lambda>t2.
             Inr (a\<lparr>mMovedPlayerIds := [], mRedrawAction := None\<rparr>, t2))))"

definition ErasePlayersFromCategoryAction_undo :: "MembershipAction \<Rightarrow> TournamentStore \<Rightarrow> (MembershipAction \<times> TournamentStore) result" where
  "ErasePlayersFromCategoryAction_undo a t =
     (if \<not> containsCategory (mMemberCategoryId a) t then Inr (a, t)
      else bindE (foldE (joinCategory (mMemberCategoryId a)) (mMovedPlayerIds a) t) (\<lambda>t1.
           bindE (redraw_undo (mRedrawAction a) t1) (\<lambda>t2.
             Inr (a\<lparr>mMovedPlayerIds := [], mRedrawAction := None\<rparr>, t2))))"

definition AddPlayersToCategoryAction_doesRequireConfirmation :: "MembershipAction \<Rightarrow> TournamentStore \<Rightarrow> bool" where
  "AddPlayersToCategoryAction_doesRequireConfirmation a t =
     (case mCategories t (mMemberCategoryId a) of None \<Rightarrow> False | Some c \<Rightarrow> category_isStarted c)"

definition ErasePlayersFromCategoryAction_doesRequireConfirmation :: "MembershipAction \<Rightarrow> TournamentStore \<Rightarrow> bool result" where
  "ErasePlayersFromCategoryAction_doesRequireConfirmation a t =
     (if \<not> (\<exists>p \<in> set (mMemberPlayerIds a). containsPlayer p t) then Inr False
      else bindE (getCategory (mMemberCategoryId a) t) (\<lambda>c. Inr (category_isStarted c)))"

subsection \<open>ErasePlayersFromAllCategoriesAction and ErasePlayersAction\<close>

record ErasePlayersAction =
  mEraseIds :: "PlayerId list"
  mEraseSeed :: u32
  mErasedPlayerIds :: "PlayerId list"
  mErasedPlayers :: "PlayerStore list" \<comment> \<open>top of the stack first\<close>
  mEraseActions :: "MembershipAction list" \<comment> \<open>top of the stack first\<close>

definition eraseFromCategory ::
  "PlayerId list \<Rightarrow> CategoryId \<Rightarrow> ErasePlayersAction \<times> TournamentStore \<Rightarrow> (ErasePlayersAction \<times> TournamentStore) result" where
  "eraseFromCategory ps i = (\<lambda>(a, t).
     bindE (ErasePlayersFromCategoryAction_redo (newMembershipAction i ps (mEraseSeed a)) t) (\<lambda>(u, t').
       Inr (a\<lparr>mEraseActions := u # mEraseActions a\<rparr>, t')))"

definition undoErasures :: "MembershipAction list \<Rightarrow> TournamentStore \<Rightarrow> TournamentStore result" where
  "undoErasures us t = foldE (\<lambda>u t. bindE (ErasePlayersFromCategoryAction_undo u t) (\<lambda>(_, t'). Inr t')) us t"

definition ErasePlayersFromAllCategoriesAction_redo :: "ErasePlayersAction \<Rightarrow> TournamentStore \<Rightarrow> (ErasePlayersAction \<times> TournamentStore) result" where
  "ErasePlayersFromAllCategoriesAction_redo a t =
     (let ps = filter (\<lambda>p. containsPlayer p t) (mEraseIds a)
      in bindE (categoriesOfPlayers ps t) (\<lambda>ids. foldE (eraseFromCategory ps) ids (a, t)))"

definition ErasePlayersFromAllCategoriesAction_undo :: "ErasePlayersAction \<Rightarrow> TournamentStore \<Rightarrow> (ErasePlayersAction \<times> TournamentStore) result" where
  "ErasePlayersFromAllCategoriesAction_undo a t =
     bindE (undoErasures (mEraseActions a) t) (\<lambda>t'. Inr (a\<lparr>mEraseActions := []\<rparr>, t'))"

definition erasePlayerStep :: "PlayerId \<Rightarrow> ErasePlayersAction \<times> TournamentStore \<Rightarrow> (ErasePlayersAction \<times> TournamentStore) result" where
  "erasePlayerStep p = (\<lambda>(a, t). bindE (erasePlayer p t) (\<lambda>(player, t').
     Inr (a\<lparr>mErasedPlayers := player # mErasedPlayers a\<rparr>, t')))"

definition ErasePlayersAction_redo :: "ErasePlayersAction \<Rightarrow> TournamentStore \<Rightarrow> (ErasePlayersAction \<times> TournamentStore) result" where
  "ErasePlayersAction_redo a t =
     (let ps = filter (\<lambda>p. containsPlayer p t) (mEraseIds a);
          a0 = a\<lparr>mErasedPlayerIds := mErasedPlayerIds a @ ps\<rparr>
      in bindE (categoriesOfPlayers ps t) (\<lambda>ids.
         bindE (foldE (eraseFromCategory (mErasedPlayerIds a0)) ids (a0, t)) (\<lambda>s.
           foldE erasePlayerStep (mErasedPlayerIds a0) s)))"

definition ErasePlayersAction_undo :: "ErasePlayersAction \<Rightarrow> TournamentStore \<Rightarrow> (ErasePlayersAction \<times> TournamentStore) result" where
  "ErasePlayersAction_undo a t =
     bindE (foldE addPlayer (mErasedPlayers a) t) (\<lambda>t1.
     bindE (undoErasures (mEraseActions a) t1) (\<lambda>t2.
       Inr (a\<lparr>mErasedPlayers := [], mErasedPlayerIds := [], mEraseActions := []\<rparr>, t2)))"

definition ErasePlayersAction_doesRequireConfirmation :: "ErasePlayersAction \<Rightarrow> TournamentStore \<Rightarrow> bool result" where
  "ErasePlayersAction_doesRequireConfirmation a t =
     bindE (categoriesOfPlayers (filter (\<lambda>p. containsPlayer p t) (mEraseIds a)) t) (\<lambda>ids. anyStarted ids t)"

subsection \<open>EraseCategoriesAction\<close>

record EraseCategoriesAction =
  mEraseCategoryIds :: "CategoryId list"
  mErasedCategoryIds :: "CategoryId list"
  mErasedCategories :: "CategoryStore list" \<comment> \<open>top of the stack first\<close>
  mErasedBlocks :: "(Block \<times> BlockLocation) list"

definition newEraseCategoriesAction :: "CategoryId list \<Rightarrow> EraseCategoriesAction" where
  "newEraseCategoriesAction ids =
     \<lparr>mEraseCategoryIds = ids, mErasedCategoryIds = [], mErasedCategories = [], mErasedBlocks = []\<rparr>"

definition locationIndices :: "BlockLocation \<Rightarrow> nat list" where
  "locationIndices l = [handle_index (getTatamiHandle l), handle_index (getConcurrentGroupHandle l),
     handle_index (getSequentialGroupHandle l), pos l]"

fun indicesLess :: "nat list \<Rightarrow> nat list \<Rightarrow> bool" where
  "indicesLess (x # xs) (y # ys) = (if x \<noteq> y then x < y else indicesLess xs ys)"
| "indicesLess _ _ = False"

definition BlockLocationIndexComp :: "Block \<times> BlockLocation \<Rightarrow> Block \<times> BlockLocation \<Rightarrow> bool" where
  "BlockLocationIndexComp a b = indicesLess (locationIndices (snd a)) (locationIndices (snd b))"

text \<open>\<^verbatim>\<open>std::set::insert\<close> with a comparator: an element that is equivalent to one of the set is not inserted.\<close>

fun std_set_insert :: "('a \<Rightarrow> 'a \<Rightarrow> bool) \<Rightarrow> 'a \<Rightarrow> 'a list \<Rightarrow> 'a list" where
  "std_set_insert lt x [] = [x]"
| "std_set_insert lt x (y # ys) = (if lt x y then x # y # ys else if lt y x then y # std_set_insert lt x ys else y # ys)"

definition locationsOfCategory ::
  "CategoryId \<Rightarrow> TournamentStore \<Rightarrow> (Block \<times> BlockLocation) list \<Rightarrow> (Block \<times> BlockLocation) list result" where
  "locationsOfCategory i t = (\<lambda>locs. bindE (getCategory i t) (\<lambda>c. foldE (\<lambda>ty locs.
     case category_getLocation c ty of
       None \<Rightarrow> Inr locs
     | Some l \<Rightarrow> bindE (refreshLocation l (i, ty) (mTatamiList t)) (\<lambda>l'.
         Inr (std_set_insert BlockLocationIndexComp ((i, ty), l') locs))) [ELIMINATION, FINAL] locs))"

definition forMatchPlayers :: "(CombinedId \<Rightarrow> PlayerStore \<Rightarrow> PlayerStore result) \<Rightarrow> MatchStore \<Rightarrow> TournamentStore \<Rightarrow> TournamentStore result" where
  "forMatchPlayers f m t =
     bindE (whenPlayer (getPlayer m WHITE) (f (mCombinedId m)) t) (whenPlayer (getPlayer m BLUE) (f (mCombinedId m)))"

definition eraseCategoryStep ::
  "CategoryId \<Rightarrow> EraseCategoriesAction \<times> TournamentStore \<Rightarrow> (EraseCategoriesAction \<times> TournamentStore) result" where
  "eraseCategoryStep i = (\<lambda>(a, t).
     bindE (getCategory i t) (\<lambda>c.
     bindE (foldE (\<lambda>p. modifyPlayer p (player_eraseCategory i)) (sorted_list_of_set (mCategoryPlayers c)) t) (\<lambda>t1.
     bindE (foldE (forMatchPlayers (\<lambda>m p. Inr (player_eraseMatch m p))) (mMatches c) t1) (\<lambda>t2.
     bindE (eraseCategory i t2) (\<lambda>(category, t3).
       Inr (a\<lparr>mErasedCategories := category # mErasedCategories a\<rparr>, t3))))))"

definition EraseCategoriesAction_redo :: "EraseCategoriesAction \<Rightarrow> TournamentStore \<Rightarrow> (EraseCategoriesAction \<times> TournamentStore) result" where
  "EraseCategoriesAction_redo a t =
     (let ids = mErasedCategoryIds a @ filter (\<lambda>i. containsCategory i t) (mEraseCategoryIds a)
      in bindE (foldE (\<lambda>i. locationsOfCategory i t) ids []) (\<lambda>locs.
         bindE (foldE (\<lambda>(block, l). moveBlockOf block (Some l) None) locs t) (\<lambda>t1.
         bindE (foldE eraseCategoryStep ids (a\<lparr>mErasedCategoryIds := ids\<rparr>, t1)) (\<lambda>(a2, t2).
           Inr (a2\<lparr>mErasedBlocks := mErasedBlocks a @ locs\<rparr>, t2)))))"

definition restoreCategoryStep :: "CategoryStore \<Rightarrow> TournamentStore \<Rightarrow> TournamentStore result" where
  "restoreCategoryStep c t =
     bindE (foldE (\<lambda>p. modifyPlayer p (player_addCategory (mCategoryId c))) (sorted_list_of_set (mCategoryPlayers c)) t) (\<lambda>t1.
     bindE (foldE (forMatchPlayers player_addMatch) (mMatches c) t1) (addCategory c))"

definition EraseCategoriesAction_undo :: "EraseCategoriesAction \<Rightarrow> TournamentStore \<Rightarrow> (EraseCategoriesAction \<times> TournamentStore) result" where
  "EraseCategoriesAction_undo a t =
     bindE (foldE restoreCategoryStep (mErasedCategories a) t) (\<lambda>t1.
     bindE (foldE (\<lambda>(block, l). moveBlockOf block None (Some l)) (mErasedBlocks a) t1) (\<lambda>t2.
       Inr (a\<lparr>mErasedCategories := [], mErasedCategoryIds := [], mErasedBlocks := []\<rparr>, t2)))"

definition EraseCategoriesAction_doesRequireConfirmation :: "EraseCategoriesAction \<Rightarrow> TournamentStore \<Rightarrow> bool" where
  "EraseCategoriesAction_doesRequireConfirmation a t \<longleftrightarrow>
     (\<exists>i \<in> set (mEraseCategoryIds a). case mCategories t i of None \<Rightarrow> False | Some c \<Rightarrow> category_isStarted c)"

subsection \<open>AddCategoryWithPlayersAction\<close>

record AddCategoryWithPlayersAction =
  mWithCategory :: AddCategoryAction
  mWithPlayerIds :: "PlayerId list"
  mWithSeed :: u32
  mWithPlayersAction :: "MembershipAction option"

definition AddCategoryWithPlayersAction_redo ::
  "AddCategoryWithPlayersAction \<Rightarrow> TournamentStore \<Rightarrow> (AddCategoryWithPlayersAction \<times> TournamentStore) result" where
  "AddCategoryWithPlayersAction_redo a t =
     bindE (AddCategoryAction_redo (mWithCategory a) t) (\<lambda>t1.
       if mWithPlayerIds a = [] then Inr (a, t1)
       else bindE (AddPlayersToCategoryAction_redo
              (newMembershipAction (mNewCategoryId (mWithCategory a)) (mWithPlayerIds a) (mWithSeed a)) t1) (\<lambda>(u, t2).
              Inr (a\<lparr>mWithPlayersAction := Some u\<rparr>, t2)))"

definition AddCategoryWithPlayersAction_undo ::
  "AddCategoryWithPlayersAction \<Rightarrow> TournamentStore \<Rightarrow> (AddCategoryWithPlayersAction \<times> TournamentStore) result" where
  "AddCategoryWithPlayersAction_undo a t =
     bindE (if mWithPlayerIds a = [] then Inr t
            else case mWithPlayersAction a of
                   None \<Rightarrow> Inl UndefinedBehaviour
                 | Some u \<Rightarrow> bindE (AddPlayersToCategoryAction_undo u t) (\<lambda>(_, t'). Inr t')) (\<lambda>t1.
     bindE (AddCategoryAction_undo (mWithCategory a) t1) (\<lambda>t2. Inr (a\<lparr>mWithPlayersAction := None\<rparr>, t2)))"

subsection \<open>AddPlayersWithCategoriesAction\<close>

record AddPlayersWithCategoriesAction =
  mImportPlayers :: AddPlayersAction
  mPlayerCategoryIds :: "CategoryId option list"
  mNewCategories :: "(CategoryId \<times> string) list"
  mImportSeed :: u32
  mAddCategoryActions :: "AddCategoryAction list" \<comment> \<open>top of the stack first\<close>
  mAddPlayersToCategoryActions :: "MembershipAction list" \<comment> \<open>top of the stack first\<close>

text \<open>The sorted map from categories to the players that are put into them.\<close>

definition categoryPlayers :: "AddPlayersWithCategoriesAction \<Rightarrow> (CategoryId \<times> PlayerId list) list" where
  "categoryPlayers a =
     (let ps = zip (mPlayerCategoryIds a) (mNewPlayerIds (mImportPlayers a))
      in map (\<lambda>i. (i, map snd (filter (\<lambda>(c, p). c = Some i) ps)))
           (sorted_list_of_set {i. (Some i) \<in> fst ` set ps}))"

definition AddPlayersWithCategoriesAction_redo ::
  "AddPlayersWithCategoriesAction \<Rightarrow> TournamentStore \<Rightarrow> (AddPlayersWithCategoriesAction \<times> TournamentStore) result" where
  "AddPlayersWithCategoriesAction_redo a t =
     bindE (AddPlayersAction_redo (mImportPlayers a) t) (\<lambda>t1.
     bindE (foldE (\<lambda>(i, name) (a, t). bindE getDefaultRuleset (\<lambda>r.
       let ac = \<lparr>mNewCategoryId = i, mNewCategoryName = name, mNewCategoryRuleset = r, mNewCategoryDrawSystem = POOL\<rparr>
       in bindE (AddCategoryAction_redo ac t) (\<lambda>t'. Inr (a\<lparr>mAddCategoryActions := ac # mAddCategoryActions a\<rparr>, t'))))
       (mNewCategories a) (a, t1)) (\<lambda>s2.
     if length (mPlayerCategoryIds a) < length (mNewPlayerIds (mImportPlayers a)) then Inl UndefinedBehaviour
     else foldE (\<lambda>(i, ps) (a, t). bindE (AddPlayersToCategoryAction_redo (newMembershipAction i ps (mImportSeed a)) t) (\<lambda>(u, t').
       Inr (a\<lparr>mAddPlayersToCategoryActions := u # mAddPlayersToCategoryActions a\<rparr>, t'))) (categoryPlayers a) s2))"

definition AddPlayersWithCategoriesAction_undo ::
  "AddPlayersWithCategoriesAction \<Rightarrow> TournamentStore \<Rightarrow> (AddPlayersWithCategoriesAction \<times> TournamentStore) result" where
  "AddPlayersWithCategoriesAction_undo a t =
     bindE (foldE (\<lambda>u t. bindE (AddPlayersToCategoryAction_undo u t) (\<lambda>(_, t'). Inr t')) (mAddPlayersToCategoryActions a) t) (\<lambda>t1.
     bindE (foldE AddCategoryAction_undo (mAddCategoryActions a) t1) (\<lambda>t2.
     bindE (AddPlayersAction_undo (mImportPlayers a) t2) (\<lambda>t3.
       Inr (a\<lparr>mAddPlayersToCategoryActions := [], mAddCategoryActions := []\<rparr>, t3))))"

end
