(* ===== verification/Auto_Categories.thy ===== *)
theory Auto_Categories
  imports Membership_Actions "HOL-Library.Product_Lexorder" "HOL-Library.Extended_Nat"
begin

section \<open>Adding categories automatically\<close>

text \<open>
  Models \<^verbatim>\<open>src/core/actions/auto_add_categories_action.cpp\<close>: players are ordered by weight and split into
  consecutive groups of a bounded size and a bounded difference of weight. A dynamic program over the suffixes
  of the ordered players chooses the groups so that small groups are avoided. Weights are rational numbers:
  the rounding of \<^verbatim>\<open>float\<close> is not modelled. A \<^verbatim>\<open>std::multiset\<close> of sizes is a sorted list.

  The abstract specification is the set of admissible splits, compared by their sizes in increasing order, the fifty
  smallest ones; the program finds a split whenever there is one, and no other split is better.
\<close>

subsection \<open>The dynamic program\<close>

record Solution =
  possible :: bool
  sizes :: "nat list"
  next_start :: nat

fun sizesBetter :: "nat list \<Rightarrow> nat list \<Rightarrow> bool" where
  "sizesBetter (x # xs) (y # ys) = (if x \<noteq> y then x > y else sizesBetter xs ys)"
| "sizesBetter _ _ = False"

definition Solution_less :: "Solution \<Rightarrow> Solution \<Rightarrow> bool" where
  "Solution_less a b = (if possible a \<noteq> possible b then possible a else sizesBetter (sizes a) (sizes b))"

text \<open>The weights are not negative and ordered: a division by zero is 0/0, which compares false.\<close>

definition tooDifferent :: "rat \<Rightarrow> rat \<Rightarrow> rat \<Rightarrow> bool" where
  "tooDifferent maxDifference wi wj =
     (if wj = 0 then wj - wi > 0 else 100 * (wj - wi) / wj > maxDifference)"

definition extendSolution :: "Solution \<Rightarrow> nat \<Rightarrow> nat \<Rightarrow> Solution" where
  "extendSolution nxt n k =
     (let s = insort n (sizes nxt)
      in \<lparr>possible = possible nxt,
          sizes = (if \<not> possible nxt then [] else if length s > 50 then butlast s else s),
          next_start = k\<rparr>)"

definition noSolution :: Solution where
  "noSolution = \<lparr>possible = False, sizes = [], next_start = 0\<rparr>"

fun bestSplit ::
  "(rat \<times> PlayerId) list \<Rightarrow> rat \<Rightarrow> nat \<Rightarrow> Solution list \<Rightarrow> nat \<Rightarrow> nat list \<Rightarrow> Solution \<Rightarrow> Solution" where
  "bestSplit ws maxDifference maxSize dp i [] best = best"
| "bestSplit ws maxDifference maxSize dp i (j # js) best =
     (let n = j - i + 1
      in if n > maxSize then best
         else if tooDifferent maxDifference (fst (ws ! i)) (fst (ws ! j)) then best
         else let current = extendSolution (dp ! (j + 1)) n (j + 1)
              in bestSplit ws maxDifference maxSize dp i js (if Solution_less current best then current else best))"

definition solveSplits :: "(rat \<times> PlayerId) list \<Rightarrow> rat \<Rightarrow> nat \<Rightarrow> Solution list" where
  "solveSplits ws maxDifference maxSize =
     fold (\<lambda>i dp. dp[i := bestSplit ws maxDifference maxSize dp i [i..<length ws] noSolution])
       (rev [0..<length ws]) (replicate (length ws) noSolution @ [noSolution\<lparr>possible := True\<rparr>])"

text \<open>
  The loop that reads the groups off the table. Each turn moves to a later start, so one more turn than there
  are players is enough fuel.
\<close>

fun readGroups :: "nat \<Rightarrow> (rat \<times> PlayerId) list \<Rightarrow> Solution list \<Rightarrow> nat \<Rightarrow> PlayerId list list result" where
  "readGroups 0 ws dp i = Inl OutOfFuel"
| "readGroups (Suc fuel) ws dp i =
     (if i = length ws then Inr []
      else bindE (nthE dp i) (\<lambda>sol.
        if next_start sol > length ws then Inl UndefinedBehaviour
        else bindE (readGroups fuel ws dp (next_start sol)) (\<lambda>groups.
          Inr (map snd (drop i (take (next_start sol) ws)) # groups))))"

definition autoGroups :: "(rat \<times> PlayerId) list \<Rightarrow> rat \<Rightarrow> nat \<Rightarrow> PlayerId list list result" where
  "autoGroups ws maxDifference maxSize =
     (if ws = [] then Inr []
      else let dp = solveSplits ws maxDifference maxSize
           in if \<not> possible (dp ! 0) then Inr [] else readGroups (Suc (length ws)) ws dp 0)"

subsection \<open>The action\<close>

record AutoAddCategoriesAction =
  mAutoPlayerIds :: "PlayerId list list"
  mAutoCategoryIds :: "CategoryId list"
  mBaseName :: string
  mAutoSeed :: u32

definition collectWeights :: "PlayerId list \<Rightarrow> TournamentStore \<Rightarrow> (rat \<times> PlayerId) list result" where
  "collectWeights ids t = foldE (\<lambda>p ws.
     if \<not> containsPlayer p t then Inr ws
     else bindE (tournament_getPlayer p t) (\<lambda>player.
       case getWeight player of None \<Rightarrow> Inr ws | Some w \<Rightarrow> Inr (ws @ [(weight_toFloat w, p)]))) ids []"

fun generateCategoryIds :: "nat \<Rightarrow> TournamentStore \<Rightarrow> mt19937 \<Rightarrow> (CategoryId list \<times> mt19937) result" where
  "generateCategoryIds 0 t eng = Inr ([], eng)"
| "generateCategoryIds (Suc n) t eng =
     (case generate (\<lambda>i. containsCategory i t) eng of
        None \<Rightarrow> Inl Diverges
      | Some (i, eng') \<Rightarrow> bindE (generateCategoryIds n t eng') (\<lambda>(ids, eng''). Inr (i # ids, eng'')))"

definition newAutoAddCategoriesAction ::
  "PlayerId list \<Rightarrow> string \<Rightarrow> rat \<Rightarrow> nat \<Rightarrow> u32 \<Rightarrow> TournamentStore \<Rightarrow> mt19937 \<Rightarrow> (AutoAddCategoriesAction \<times> mt19937) result" where
  "newAutoAddCategoriesAction playerIds baseName maxDifference maxSize seed t eng =
     bindE (collectWeights playerIds t) (\<lambda>ws.
     bindE (autoGroups (sort ws) maxDifference maxSize) (\<lambda>groups.
     bindE (generateCategoryIds (length groups) t eng) (\<lambda>(ids, eng').
       Inr (\<lparr>mAutoPlayerIds = groups, mAutoCategoryIds = ids, mBaseName = baseName, mAutoSeed = seed\<rparr>, eng'))))"

text \<open>\<^verbatim>\<open>std::to_string\<close> on an unsigned integer.\<close>

fun to_string :: "nat \<Rightarrow> string" where
  "to_string n = (if n < 10 then [char_of (n + 48)] else to_string (n div 10) @ [char_of (n mod 10 + 48)])"

definition AutoAddCategoriesAction_redo :: "AutoAddCategoriesAction \<Rightarrow> TournamentStore \<Rightarrow> TournamentStore result" where
  "AutoAddCategoriesAction_redo a t =
     (if \<exists>i \<in> set (mAutoCategoryIds a). containsCategory i t
      then Inl (ActionExecutionException ''Failed to redo AutoAddCategoriesAction. Category already exists.'')
      else bindE (foldE (\<lambda>k t.
             bindE getDefaultRuleset (\<lambda>ruleset.
             bindE (nthE (mAutoPlayerIds a) k) (\<lambda>ps.
             bindE (getPreferredDrawSystem (mPreferences t) (length ps)) (\<lambda>identifier.
             bindE (getDrawSystem identifier) (\<lambda>drawSystem.
               addCategory (newCategoryStore (mAutoCategoryIds a ! k) (mBaseName a @ '' '' @ to_string (k + 1)) ruleset drawSystem) t)))))
             [0..<length (mAutoCategoryIds a)] t)
           (foldE (\<lambda>k t. bindE (nthE (mAutoPlayerIds a) k) (\<lambda>ps.
             bindE (AddPlayersToCategoryAction_redo (newMembershipAction (mAutoCategoryIds a ! k) ps (mAutoSeed a)) t) (\<lambda>(_, t').
               Inr t'))) [0..<length (mAutoCategoryIds a)]))"

definition AutoAddCategoriesAction_undo :: "AutoAddCategoriesAction \<Rightarrow> TournamentStore \<Rightarrow> TournamentStore result" where
  "AutoAddCategoriesAction_undo a t =
     bindE (EraseCategoriesAction_redo (newEraseCategoriesAction (mAutoCategoryIds a)) t) (\<lambda>(_, t'). Inr t')"

declare to_string.simps [simp del]

subsection \<open>Admissible splits\<close>

text \<open>A group from \<open>i\<close> up to \<open>k\<close>, and the sizes of the groups of a split of the players from \<open>i\<close> on.\<close>

definition groupAllowed :: "(rat \<times> PlayerId) list \<Rightarrow> rat \<Rightarrow> nat \<Rightarrow> nat \<Rightarrow> nat \<Rightarrow> bool" where
  "groupAllowed ws maxDifference maxSize i k \<longleftrightarrow> i < k \<and> k \<le> length ws \<and>
     (\<forall>j \<in> {i..<k}. j - i + 1 \<le> maxSize \<and> \<not> tooDifferent maxDifference (fst (ws ! i)) (fst (ws ! j)))"

fun admissible :: "(rat \<times> PlayerId) list \<Rightarrow> rat \<Rightarrow> nat \<Rightarrow> nat \<Rightarrow> nat list \<Rightarrow> bool" where
  "admissible ws maxDifference maxSize i [] \<longleftrightarrow> i = length ws"
| "admissible ws maxDifference maxSize i (n # ns) \<longleftrightarrow>
     groupAllowed ws maxDifference maxSize i (i + n) \<and> admissible ws maxDifference maxSize (i + n) ns"

fun minSize :: "nat list \<Rightarrow> enat" where
  "minSize [] = \<infinity>"
| "minSize (n # ns) = min (enat n) (minSize ns)"

lemma minSize_insort [simp]: "minSize (insort n ns) = min (enat n) (minSize ns)"
  by (induction ns) (auto simp: min.left_commute)

lemma minSize_sorted: "sorted ns \<Longrightarrow> ns \<noteq> [] \<Longrightarrow> minSize ns = enat (hd ns)"
proof (induction ns)
  case (Cons n ns)
  then show ?case by (cases ns) (auto simp: min_def)
qed simp

lemma minSize_sort [simp]: "minSize (sort ns) = minSize ns"
  by (induction ns) simp_all

lemma minSize_take:
  assumes "sorted ns"
  shows "minSize (take (Suc k) ns) = minSize ns"
proof (cases ns)
  case (Cons n ns')
  have "sorted (take (Suc k) ns)" using assms by (rule sorted_wrt_take)
  from minSize_sorted[OF this] minSize_sorted[OF assms] Cons show ?thesis by (simp del: minSize.simps)
qed simp

subsection \<open>Comparing the sizes\<close>

text \<open>
  What the program keeps of the sizes of a split, and the order on it: the sizes compare lexicographically, and a list is
  better than its extensions. For two splits of the same players the last case does not arise, and the order is the one of
  \<open>sizesBetter\<close>.
\<close>

definition smallest :: "nat list \<Rightarrow> nat list" where
  "smallest ns = take 50 (sort ns)"

fun noBetter :: "nat list \<Rightarrow> nat list \<Rightarrow> bool" where
  "noBetter xs [] = True"
| "noBetter [] (y # ys) = False"
| "noBetter (x # xs) (y # ys) = (x < y \<or> x = y \<and> noBetter xs ys)"

lemma noBetter_refl [simp]: "noBetter xs xs"
  by (induction xs) simp_all

lemma noBetter_trans: "noBetter xs ys \<Longrightarrow> noBetter ys zs \<Longrightarrow> noBetter xs zs"
  by (induction xs zs arbitrary: ys rule: noBetter.induct) (auto elim: noBetter.elims)

lemma sizesBetter_noBetter: "sizesBetter xs ys \<Longrightarrow> noBetter ys xs"
  by (induction xs ys rule: sizesBetter.induct) (auto split: if_splits)

lemma not_sizesBetter: "\<not> sizesBetter xs ys \<Longrightarrow> noBetter xs ys \<or> (\<exists>zs. zs \<noteq> [] \<and> ys = xs @ zs)"
proof (induction xs arbitrary: ys)
  case Nil
  show ?case by (cases ys) simp_all
next
  case (Cons x xs)
  then show ?case by (cases ys) (auto split: if_splits)
qed

lemma noBetter_insort: "noBetter xs ys \<Longrightarrow> noBetter (insort n xs) (insort n ys)"
proof (induction xs ys rule: noBetter.induct)
  case (1 xs)
  show ?case by (cases xs) auto
qed auto

lemma noBetter_take: "noBetter xs ys \<Longrightarrow> noBetter (take k xs) (take k ys)"
  by (induction xs ys arbitrary: k rule: noBetter.induct) (auto simp: take_Cons split: nat.splits)

lemma noBetter_minSize: "sorted xs \<Longrightarrow> sorted ys \<Longrightarrow> noBetter xs ys \<Longrightarrow> minSize xs \<le> minSize ys"
  by (cases xs; cases ys) (auto simp: minSize_sorted simp del: minSize.simps(2))

lemma noBetter_difference:
  assumes "noBetter xs ys"
  shows "xs = ys \<or> (\<exists>zs. zs \<noteq> [] \<and> xs = ys @ zs) \<or> (\<exists>k. k < length xs \<and> k < length ys \<and> take k xs = take k ys \<and> xs ! k < ys ! k)"
  using assms
proof (induction xs ys rule: noBetter.induct)
  case (3 x xs y ys)
  show ?case
  proof (cases "x < y")
    case True
    then show ?thesis by (intro disjI2 exI[of _ 0]) simp
  next
    case False
    with "3.prems" have "x = y" "noBetter xs ys" by auto
    with "3.IH" consider "xs = ys" | zs where "zs \<noteq> []" "xs = ys @ zs"
      | k where "k < length xs" "k < length ys" "take k xs = take k ys" "xs ! k < ys ! k" by blast
    then show ?thesis
    proof cases
      case (3 k)
      with \<open>x = y\<close> show ?thesis by (intro disjI2 exI[of _ "Suc k"]) simp
    qed (use \<open>x = y\<close> in auto)
  qed
qed auto

lemma take_insort_take: "take k (insort n (take k xs)) = take k (insort n (xs :: nat list))"
  by (induction xs arbitrary: k) (auto simp: take_Cons split: nat.splits)

lemma smallest_Cons: "smallest (n # ns) = take 50 (insort n (smallest ns))"
  by (simp add: smallest_def take_insort_take)

lemma smallest_facts [simp]:
  "sorted (smallest ns)" "length (smallest ns) \<le> 50" "minSize (smallest ns) = minSize ns" "smallest [] = []"
  using minSize_take[of "sort ns" 49] by (simp_all add: smallest_def sorted_wrt_take)

text \<open>Of two splits of the same number of players neither is an extension of the other.\<close>

lemma smallest_no_extension:
  assumes "smallest ms = smallest ns @ zs" and "sum_list ms = sum_list ns" and "\<forall>m \<in> set ms. 0 < m"
  shows "zs = []"
proof (rule ccontr)
  assume zs: "zs \<noteq> []"
  have "length (smallest ns) < length (smallest ms)" using assms(1) zs by simp
  with smallest_facts(2)[of ms] have "length (smallest ns) < 50" by linarith
  then have "length ns < 50" by (simp add: smallest_def min_less_iff_disj)
  then have "smallest ns = sort ns" by (simp add: smallest_def)
  then have n: "sum_list (smallest ns) = sum_list ns" by (metis mset_sort sum_mset_sum_list)
  have "sum_list (sort ms) = sum_list (smallest ms) + sum_list (drop 50 (sort ms))"
    unfolding smallest_def by (metis append_take_drop_id sum_list_append)
  moreover have "sum_list (sort ms) = sum_list ms" by (metis mset_sort sum_mset_sum_list)
  ultimately have "sum_list zs = 0" using assms(1,2) n by simp
  moreover have "set zs \<subseteq> set ms" using assms(1) set_take_subset[of 50 "sort ms"] unfolding smallest_def by (metis Un_subset_iff set_append set_sort)
  ultimately show False using zs assms(3) by (cases zs) auto
qed

lemma admissible_total:
  "admissible ws D S i ns \<Longrightarrow> i + sum_list ns = length ws \<and> (\<forall>n \<in> set ns. 0 < n)"
  by (induction ns arbitrary: i) (fastforce simp: groupAllowed_def)+

lemma smallest_compare:
  assumes "admissible ws D S i ms" and "admissible ws D S i ns" and "\<not> sizesBetter (smallest ms) (smallest ns)"
  shows "noBetter (smallest ms) (smallest ns)"
  using not_sizesBetter[OF assms(3)] smallest_no_extension[of ns ms] admissible_total[OF assms(1)] admissible_total[OF assms(2)] by auto

subsection \<open>One row of the table\<close>

text \<open>
  A solution for the players from \<open>i\<close> on is good when its first group is allowed, the rest is possible and its
  sizes are those of the first group and the rest. \<open>split_of\<close> says that the sizes are those of an admissible split.
\<close>

definition good :: "(rat \<times> PlayerId) list \<Rightarrow> rat \<Rightarrow> nat \<Rightarrow> Solution list \<Rightarrow> nat \<Rightarrow> Solution \<Rightarrow> bool" where
  "good ws D S dp i sol \<longleftrightarrow> (possible sol \<longrightarrow>
     groupAllowed ws D S i (next_start sol) \<and> possible (dp ! next_start sol) \<and>
     sizes sol = take 50 (insort (next_start sol - i) (sizes (dp ! next_start sol))))"

definition split_of :: "(rat \<times> PlayerId) list \<Rightarrow> rat \<Rightarrow> nat \<Rightarrow> nat \<Rightarrow> Solution \<Rightarrow> bool" where
  "split_of ws D S i sol \<longleftrightarrow> (possible sol \<longrightarrow> (\<exists>ns. admissible ws D S i ns \<and> sizes sol = smallest ns))"

definition best_upto :: "(rat \<times> PlayerId) list \<Rightarrow> rat \<Rightarrow> nat \<Rightarrow> Solution list \<Rightarrow> nat \<Rightarrow> nat \<Rightarrow> Solution \<Rightarrow> bool" where
  "best_upto ws D S dp i j sol \<longleftrightarrow> good ws D S dp i sol \<and>
     (\<forall>k \<le> j. groupAllowed ws D S i k \<and> possible (dp ! k) \<longrightarrow>
        possible sol \<and> noBetter (take 50 (insort (k - i) (sizes (dp ! k)))) (sizes sol))"

lemma good_split_of:
  assumes "good ws D S dp i sol" and "\<And>k. i < k \<Longrightarrow> k \<le> length ws \<Longrightarrow> split_of ws D S k (dp ! k)"
  shows "split_of ws D S i sol"
  unfolding split_of_def
proof
  assume "possible sol"
  with assms(1) have g: "groupAllowed ws D S i (next_start sol)" "possible (dp ! next_start sol)"
    "sizes sol = take 50 (insort (next_start sol - i) (sizes (dp ! next_start sol)))" by (simp_all add: good_def)
  then have lt: "i < next_start sol" "next_start sol \<le> length ws" by (simp_all add: groupAllowed_def)
  with assms(2) g(2) obtain ns where "admissible ws D S (next_start sol) ns" "sizes (dp ! next_start sol) = smallest ns"
    unfolding split_of_def by blast
  with g lt have "admissible ws D S i ((next_start sol - i) # ns)" "sizes sol = smallest ((next_start sol - i) # ns)"
    by (simp_all add: smallest_Cons)
  then show "\<exists>ns. admissible ws D S i ns \<and> sizes sol = smallest ns" by blast
qed

lemma good_extend:
  assumes "groupAllowed ws D S i k" and "split_of ws D S k (dp ! k)"
  shows "good ws D S dp i (extendSolution (dp ! k) (k - i) k)"
proof (cases "possible (dp ! k)")
  case True
  let ?s = "insort (k - i) (sizes (dp ! k))"
  have "length ?s \<le> 51" using True assms(2) by (auto simp: split_of_def)
  then have "(if length ?s > 50 then butlast ?s else ?s) = take 50 ?s"
    by (cases "length ?s = 51") (simp_all add: butlast_conv_take)
  with True assms(1) show ?thesis by (simp add: good_def extendSolution_def Let_def)
qed (simp add: good_def extendSolution_def Let_def)

lemma best_upto_choose:
  assumes "best_upto ws D S dp i j best" and "groupAllowed ws D S i (Suc j)"
    and rows: "\<And>k. i < k \<Longrightarrow> k \<le> length ws \<Longrightarrow> split_of ws D S k (dp ! k)"
    and "cur = extendSolution (dp ! Suc j) (Suc j - i) (Suc j)"
  shows "best_upto ws D S dp i (Suc j) (if Solution_less cur best then cur else best)"
proof -
  have "split_of ws D S (Suc j) (dp ! Suc j)" using assms(2) by (intro rows) (simp_all add: groupAllowed_def)
  then have g: "good ws D S dp i cur" using good_extend[OF assms(2)] assms(4) by simp
  have cur: "possible cur = possible (dp ! Suc j)" "next_start cur = Suc j" using assms(4)
    by (simp_all add: extendSolution_def Let_def)
  from assms(1) have b: "good ws D S dp i best" by (simp add: best_upto_def)
  have curSizes: "possible cur \<Longrightarrow> take 50 (insort (Suc j - i) (sizes (dp ! Suc j))) = sizes cur" using g cur(2) by (simp add: good_def)
  show ?thesis
  proof (cases "possible cur \<and> possible best")
    case True
    from good_split_of[OF g rows] good_split_of[OF b rows] True obtain ms ns where
      "admissible ws D S i ms" "sizes cur = smallest ms" "admissible ws D S i ns" "sizes best = smallest ns"
      unfolding split_of_def by blast
    then have "\<not> sizesBetter (sizes cur) (sizes best) \<Longrightarrow> noBetter (sizes cur) (sizes best)" using smallest_compare by metis
    with True assms(1) g b cur curSizes show ?thesis
      by (auto simp: best_upto_def Solution_less_def le_Suc_eq intro: noBetter_trans sizesBetter_noBetter)
  next
    case False
    with assms(1) g b cur curSizes show ?thesis
      by (auto simp: best_upto_def Solution_less_def le_Suc_eq)
  qed
qed

lemma bestSplit_best:
  assumes "best_upto ws D S dp i j best" and "i \<le> j" and "j \<le> length ws"
    and "\<And>k. i < k \<Longrightarrow> k \<le> length ws \<Longrightarrow> split_of ws D S k (dp ! k)"
    and "\<forall>l \<in> {i..<j}. l - i + 1 \<le> S \<and> \<not> tooDifferent D (fst (ws ! i)) (fst (ws ! l))"
  shows "best_upto ws D S dp i (length ws) (bestSplit ws D S dp i [j..<length ws] best)"
  using assms
proof (induction "length ws - j" arbitrary: j best)
  case (Suc d)
  then have j: "j < length ws" by simp
  then have upt: "[j..<length ws] = j # [Suc j..<length ws]" by (simp add: upt_rec)
  show ?case
  proof (cases "j - i + 1 > S \<or> tooDifferent D (fst (ws ! i)) (fst (ws ! j))")
    case True
    then have "\<not> groupAllowed ws D S i k" if "k > j" for k
      using that Suc.prems(2) by (auto simp: groupAllowed_def intro!: bexI[of _ j])
    then have "best_upto ws D S dp i (length ws) best" using Suc.prems(1)
      unfolding best_upto_def by (metis not_le_imp_less)
    with True upt show ?thesis by (auto simp: Let_def)
  next
    case False
    then have lim: "\<forall>l \<in> {i..<Suc j}. l - i + 1 \<le> S \<and> \<not> tooDifferent D (fst (ws ! i)) (fst (ws ! l))"
      using Suc.prems(5) by (auto simp: less_Suc_eq)
    then have allowed: "groupAllowed ws D S i (Suc j)" using j Suc.prems(2) by (auto simp: groupAllowed_def)
    have n: "Suc j - i = j - i + 1" using Suc.prems(2) by simp
    let ?cur = "extendSolution (dp ! Suc j) (j - i + 1) (Suc j)"
    have "best_upto ws D S dp i (Suc j) (if Solution_less ?cur best then ?cur else best)"
      using best_upto_choose[OF Suc.prems(1) allowed Suc.prems(4) refl] unfolding n by simp
    from Suc.hyps(1)[OF _ this _ _ Suc.prems(4) lim] Suc.hyps(2) Suc.prems(2) j have
      "best_upto ws D S dp i (length ws) (bestSplit ws D S dp i [Suc j..<length ws]
        (if Solution_less ?cur best then ?cur else best))" by simp
    with False upt show ?thesis by (simp only: bestSplit.simps Let_def if_False not_less Suc_eq_plus1) simp
  qed
qed simp

subsection \<open>The table\<close>

definition row_ok :: "(rat \<times> PlayerId) list \<Rightarrow> rat \<Rightarrow> nat \<Rightarrow> Solution list \<Rightarrow> nat \<Rightarrow> bool" where
  "row_ok ws D S dp i \<longleftrightarrow> split_of ws D S i (dp ! i) \<and>
     (if i = length ws then possible (dp ! i) \<and> sizes (dp ! i) = [] else good ws D S dp i (dp ! i)) \<and>
     (\<forall>ns. admissible ws D S i ns \<longrightarrow> possible (dp ! i) \<and> noBetter (smallest ns) (sizes (dp ! i)))"

definition table_ok :: "(rat \<times> PlayerId) list \<Rightarrow> rat \<Rightarrow> nat \<Rightarrow> Solution list \<Rightarrow> nat \<Rightarrow> bool" where
  "table_ok ws D S dp i \<longleftrightarrow> length dp = Suc (length ws) \<and> (\<forall>k \<in> {i..length ws}. row_ok ws D S dp k)"

lemma row_ok_cong:
  assumes "\<And>j. j \<ge> i \<Longrightarrow> dp' ! j = dp ! j" and "row_ok ws D S dp i"
  shows "row_ok ws D S dp' i"
proof -
  have "possible (dp ! i) \<Longrightarrow> i \<noteq> length ws \<Longrightarrow> next_start (dp ! i) \<ge> i"
    using assms(2) by (simp add: row_ok_def good_def groupAllowed_def)
  with assms show ?thesis by (auto simp: row_ok_def good_def)
qed

lemma table_ok_step:
  assumes "table_ok ws D S dp (Suc i)" and "i < length ws"
  shows "table_ok ws D S (dp[i := bestSplit ws D S dp i [i..<length ws] noSolution]) i"
proof -
  let ?best = "bestSplit ws D S dp i [i..<length ws] noSolution"
  let ?dp = "dp[i := ?best]"
  have rows: "row_ok ws D S dp k" if "i < k" "k \<le> length ws" for k
    using assms(1) that by (simp add: table_ok_def)
  have same: "?dp ! k = dp ! k" if "k > i" for k using that by simp
  have "best_upto ws D S dp i i noSolution"
    by (auto simp: best_upto_def good_def noSolution_def groupAllowed_def)
  then have best: "best_upto ws D S dp i (length ws) ?best"
    using assms(2) rows by (intro bestSplit_best) (auto simp: row_ok_def)
  have "row_ok ws D S ?dp i"
  proof -
    have "split_of ws D S i ?best" by (rule good_split_of[of ws D S dp]) (use best rows in \<open>auto simp: best_upto_def row_ok_def\<close>)
    moreover have "possible ?best \<and> noBetter (smallest ns) (sizes ?best)" if "admissible ws D S i ns" for ns
    proof (cases ns)
      case (Cons n ns')
      with that have a: "groupAllowed ws D S i (i + n)" "admissible ws D S (i + n) ns'" by simp_all
      then have rest: "possible (dp ! (i + n))" "noBetter (smallest ns') (sizes (dp ! (i + n)))"
        using rows[of "i + n"] by (auto simp: row_ok_def groupAllowed_def)
      have "i + n \<le> length ws" using a(1) by (simp add: groupAllowed_def)
      with best a(1) rest(1) have "possible ?best" "noBetter (take 50 (insort n (sizes (dp ! (i + n))))) (sizes ?best)"
        by (auto simp: best_upto_def dest!: spec[of _ "i + n"])
      moreover have "noBetter (smallest ns) (take 50 (insort n (sizes (dp ! (i + n)))))"
        unfolding Cons smallest_Cons by (intro noBetter_take noBetter_insort rest(2))
      ultimately show ?thesis using noBetter_trans by blast
    qed (use that assms(2) in simp)
    ultimately show ?thesis using assms best same
      by (auto simp: row_ok_def table_ok_def best_upto_def good_def groupAllowed_def)
  qed
  moreover have "row_ok ws D S ?dp k" if "i < k" "k \<le> length ws" for k
    using rows[OF that] by (rule row_ok_cong[rotated]) (use that in simp)
  ultimately show ?thesis using assms(1) by (auto simp: table_ok_def le_less)
qed

lemma table_ok_solve: "table_ok ws D S (solveSplits ws D S) 0"
proof -
  let ?f = "\<lambda>i dp. dp[i := bestSplit ws D S dp i [i..<length ws] noSolution]"
  have "table_ok ws D S (fold ?f (rev [0..<k]) dp) 0" if "table_ok ws D S dp k" "k \<le> length ws" for k dp
    using that
  proof (induction k arbitrary: dp)
    case (Suc k)
    then show ?case using table_ok_step[OF Suc.prems(1)] by simp
  qed simp
  moreover have "table_ok ws D S (replicate (length ws) noSolution @ [noSolution\<lparr>possible := True\<rparr>]) (length ws)"
  proof -
    have "ns = []" if "admissible ws D S (length ws) ns" for ns
      using that by (cases ns) (auto simp: groupAllowed_def)
    moreover have "admissible ws D S (length ws) []" by simp
    ultimately show ?thesis by (auto simp: table_ok_def row_ok_def nth_append noSolution_def split_of_def intro: exI[of _ "[]"])
  qed
  ultimately show ?thesis by (simp add: solveSplits_def)
qed

lemma readGroups_admissible:
  assumes "table_ok ws D S dp 0" and "i \<le> length ws" and "possible (dp ! i)" and "length ws - i < fuel"
  shows "\<exists>gs. readGroups fuel ws dp i = Inr gs \<and> admissible ws D S i (map length gs) \<and>
    concat gs = map snd (drop i ws) \<and> smallest (map length gs) = sizes (dp ! i)"
  using assms
proof (induction fuel arbitrary: i)
  case (Suc fuel)
  from Suc.prems have row: "row_ok ws D S dp i" and len: "length dp = Suc (length ws)" by (simp_all add: table_ok_def)
  show ?case
  proof (cases "i = length ws")
    case True
    with row show ?thesis by (simp add: row_ok_def)
  next
    case False
    let ?k = "next_start (dp ! i)"
    from row False Suc.prems(3) have k: "groupAllowed ws D S i ?k" "possible (dp ! ?k)"
      "sizes (dp ! i) = take 50 (insort (?k - i) (sizes (dp ! ?k)))"
      by (simp_all add: row_ok_def good_def)
    then have lt: "i < ?k" "?k \<le> length ws" by (simp_all add: groupAllowed_def)
    then have "length ws - ?k < fuel" using Suc.prems(4) by simp
    with lt Suc.IH[OF Suc.prems(1) _ k(2)] obtain gs where gs: "readGroups fuel ws dp ?k = Inr gs"
      "admissible ws D S ?k (map length gs)" "concat gs = map snd (drop ?k ws)"
      "smallest (map length gs) = sizes (dp ! ?k)" by auto
    have "drop i (take ?k ws) @ drop ?k ws = drop i ws"
      using lt append_take_drop_id[of "?k - i" "drop i ws"] by (simp add: drop_take add.commute)
    then have "map snd (drop i (take ?k ws)) @ map snd (drop ?k ws) = map snd (drop i ws)"
      by (metis map_append)
    with gs k lt len Suc.prems(2) False show ?thesis by (simp add: nthE_Inr smallest_Cons)
  qed
qed simp

lemma singletons_admissible:
  assumes "0 < S" and "0 \<le> D" and "i \<le> length ws"
  shows "admissible ws D S i (replicate (length ws - i) 1)"
  using assms(3)
proof (induction "length ws - i" arbitrary: i)
  case (Suc n)
  then have "groupAllowed ws D S i (i + 1)" using assms(1,2) by (auto simp: groupAllowed_def tooDifferent_def)
  moreover have "length ws - i = Suc (length ws - Suc i)" using Suc.hyps(2) by simp
  ultimately show ?case using Suc.hyps(1)[of "Suc i"] Suc.hyps(2) by simp
qed simp

text \<open>
  C14. With a positive maximal size and a maximal difference that is not negative, every player with a weight is
  put into exactly one group, in the order of the weights; every group has at most the maximal size and no
  member of it is heavier than its lightest member by more than the maximal difference; and the split is the best one:
  compared with any other such split by the sizes of the groups in increasing order, of which the fifty smallest count, the
  sizes are the same or the first one that differs is larger. In particular the smallest group is as large as possible.
\<close>

theorem autoGroups_optimal:
  assumes "0 < maxSize" and "0 \<le> maxDifference"
  shows "\<exists>groups. autoGroups ws maxDifference maxSize = Inr groups \<and> concat groups = map snd ws \<and>
    admissible ws maxDifference maxSize 0 (map length groups) \<and>
    (\<forall>ns. admissible ws maxDifference maxSize 0 ns \<longrightarrow> minSize ns \<le> minSize (map length groups) \<and>
      (let others = smallest ns; ours = smallest (map length groups)
       in others = ours \<or> (\<exists>k. k < length others \<and> k < length ours \<and> take k others = take k ours \<and> others ! k < ours ! k)))"
proof (cases "ws = []")
  case True
  have "ns = []" if "admissible [] maxDifference maxSize 0 ns" for ns
    using that by (cases ns) (auto simp: groupAllowed_def)
  with True show ?thesis by (fastforce simp: autoGroups_def Let_def)
next
  case False
  let ?dp = "solveSplits ws maxDifference maxSize"
  note table = table_ok_solve[of ws maxDifference maxSize]
  then have row: "row_ok ws maxDifference maxSize ?dp 0" by (simp add: table_ok_def)
  with singletons_admissible[OF assms, of 0 ws] have p: "possible (?dp ! 0)" unfolding row_ok_def by blast
  with False have "autoGroups ws maxDifference maxSize = readGroups (Suc (length ws)) ws ?dp 0"
    by (simp add: autoGroups_def Let_def)
  moreover obtain gs where gs: "readGroups (Suc (length ws)) ws ?dp 0 = Inr gs" "admissible ws maxDifference maxSize 0 (map length gs)"
    "concat gs = map snd ws" "smallest (map length gs) = sizes (?dp ! 0)"
    using readGroups_admissible[OF table _ p, of "Suc (length ws)"] by auto
  moreover have "minSize ns \<le> minSize (map length gs) \<and> (smallest ns = smallest (map length gs) \<or>
      (\<exists>k. k < length (smallest ns) \<and> k < length (smallest (map length gs)) \<and> take k (smallest ns) = take k (smallest (map length gs)) \<and>
         smallest ns ! k < smallest (map length gs) ! k))" if ns: "admissible ws maxDifference maxSize 0 ns" for ns
  proof -
    have le: "noBetter (smallest ns) (smallest (map length gs))" using row ns gs(4) by (simp add: row_ok_def)
    moreover have "smallest ns = smallest (map length gs) @ zs \<Longrightarrow> zs = []" for zs
      using smallest_no_extension[of ns "map length gs" zs] admissible_total[OF ns] admissible_total[OF gs(2)] by simp
    ultimately show ?thesis
      using noBetter_difference[OF le] noBetter_minSize[OF smallest_facts(1) smallest_facts(1) le] unfolding smallest_facts(3) by blast
  qed
  ultimately show ?thesis unfolding Let_def by auto
qed

text \<open>Five players of nearly the same weight in groups of at most three: two and three is better than one, one and three.\<close>

theorem autoGroups_optimal_witness:
  "\<exists>groups. autoGroups [(20, 1), (20, 2), (20, 3), (21, 4), (21, 5)] 10 3 = Inr groups \<and> concat groups = [1, 2, 3, 4, 5] \<and>
    minSize [2, 3] \<le> minSize (map length groups)"
proof -
  have "admissible [(20, 1), (20, 2), (20, 3), (21, 4), (21, 5)] 10 3 0 [2, 3]"
    by (auto simp: groupAllowed_def tooDifferent_def less_Suc_eq numeral_2_eq_2 numeral_3_eq_3)
  with autoGroups_optimal[of 3 10 "[(20, 1), (20, 2), (20, 3), (21, 4), (21, 5)]"] show ?thesis by fastforce
qed

end
