(* ===== verification/Player_Import.thy ===== *)
theory Player_Import
  imports Auto_Categories
begin

section \<open>Importing players from tables\<close>

text \<open>
  Models \<^verbatim>\<open>src/ui/import_helpers\<close> (\<^verbatim>\<open>CSVReader\<close>, \<^verbatim>\<open>PlayerTableImporter\<close>), the texts of the fields of players in
  \<^verbatim>\<open>src/ui/stores/qplayer_*.cpp\<close> and the first constructor of \<^verbatim>\<open>AddPlayersWithCategoriesAction\<close>, with which an import ends.

  A \<^verbatim>\<open>QString\<close> is its UTF-8 text. What the code takes from Qt and from the environment is the record \<open>Qt\<close>: lower case, trimming and
  translation of texts, the numbers of the system locale and of the C locale, dates in a given format, and the current date.
  A number that Qt reads and that is no finite one is \<open>NotFinite\<close>.
\<close>

type_synonym QString = string
type_synonym QChar = char

datatype QFloat = Finite rat | NotFinite

datatype QDate = QDate (date_year: int) (date_month: int) (date_day: int)

record Qt =
  toLower :: "QString \<Rightarrow> QString"
  trimmed :: "QString \<Rightarrow> QString"
  tr :: "QString \<Rightarrow> QString"
  systemToFloat :: "QString \<Rightarrow> QFloat option"
  cToFloat :: "QString \<Rightarrow> QFloat option"
  dateFromString :: "QString \<Rightarrow> QString \<Rightarrow> QDate option"
  currentDate :: QDate

subsection \<open>Texts of ranks, sexes and countries\<close>

fun rank_strings :: "Qt \<Rightarrow> PlayerRank \<Rightarrow> QString list" where
  "rank_strings Q KYU_6 = map (tr Q) [''6th kyu'', ''6. kyu'', ''white'', ''6 kyu'']"
| "rank_strings Q KYU_5 = map (tr Q) [''5th kyu'', ''5. kyu'', ''yellow'', ''5 kyu'']"
| "rank_strings Q KYU_4 = map (tr Q) [''5th kyu'', ''4. kyu'', ''orange'', ''4 kyu'']"
| "rank_strings Q KYU_3 = map (tr Q) [''3rd kyu'', ''3. kyu'', ''green'', ''3 kyu'']"
| "rank_strings Q KYU_2 = map (tr Q) [''2nd kyu'', ''2. kyu'', ''blue'', ''2 kyu'']"
| "rank_strings Q KYU_1 = map (tr Q) [''1st kyu'', ''1. kyu'', ''brown'', ''1 kyu'']"
| "rank_strings Q DAN_1 = map (tr Q) [''1st dan'', ''1. dan'', ''black'', ''1 dan'']"
| "rank_strings Q DAN_2 = map (tr Q) [''2nd dan'', ''2. dan'', ''2 dan'']"
| "rank_strings Q DAN_3 = map (tr Q) [''3rd dan'', ''3. dan'', ''3 dan'']"
| "rank_strings Q DAN_4 = map (tr Q) [''4th dan'', ''4. dan'', ''4 dan'']"
| "rank_strings Q DAN_5 = map (tr Q) [''5th dan'', ''5. dan'', ''5 dan'']"
| "rank_strings Q DAN_6 = map (tr Q) [''6th dan'', ''6. dan'', ''6 dan'']"
| "rank_strings Q DAN_7 = map (tr Q) [''7th dan'', ''7. dan'', ''7 dan'']"
| "rank_strings Q DAN_8 = map (tr Q) [''8th dan'', ''8. dan'', ''8 dan'']"
| "rank_strings Q DAN_9 = map (tr Q) [''9th dan'', ''9. dan'', ''9 dan'']"
| "rank_strings Q DAN_10 = map (tr Q) [''10th dan'', ''10. dan'', ''10 dan'']"

text \<open>The loop over the values and their texts that the three \<^verbatim>\<open>fromHumanString\<close> share.\<close>

fun firstNamed :: "Qt \<Rightarrow> ('v \<Rightarrow> QString list) \<Rightarrow> QString \<Rightarrow> 'v list \<Rightarrow> 'v result" where
  "firstNamed Q strings str [] = Inl InvalidArgument"
| "firstNamed Q strings str (v # vs) =
     (if list_ex (\<lambda>repr. toLower Q repr = toLower Q str) (strings v) then Inr v else firstNamed Q strings str vs)"

definition rank_fromHumanString :: "Qt \<Rightarrow> QString \<Rightarrow> PlayerRank result" where
  "rank_fromHumanString Q str = firstNamed Q (rank_strings Q) str rank_enum"

fun rank_toHumanString :: "Qt \<Rightarrow> PlayerRank \<Rightarrow> QString" where
  "rank_toHumanString Q KYU_6 = tr Q ''6th kyu''"
| "rank_toHumanString Q KYU_5 = tr Q ''5th kyu''"
| "rank_toHumanString Q KYU_4 = tr Q ''4th kyu''"
| "rank_toHumanString Q KYU_3 = tr Q ''3rd kyu''"
| "rank_toHumanString Q KYU_2 = tr Q ''2nd kyu''"
| "rank_toHumanString Q KYU_1 = tr Q ''1st kyu''"
| "rank_toHumanString Q DAN_1 = tr Q ''1st dan''"
| "rank_toHumanString Q DAN_2 = tr Q ''2nd dan''"
| "rank_toHumanString Q DAN_3 = tr Q ''3rd dan''"
| "rank_toHumanString Q DAN_4 = tr Q ''4th dan''"
| "rank_toHumanString Q DAN_5 = tr Q ''5th dan''"
| "rank_toHumanString Q DAN_6 = tr Q ''6th dan''"
| "rank_toHumanString Q DAN_7 = tr Q ''7th dan''"
| "rank_toHumanString Q DAN_8 = tr Q ''8th dan''"
| "rank_toHumanString Q DAN_9 = tr Q ''9th dan''"
| "rank_toHumanString Q DAN_10 = tr Q ''10th dan''"

fun sex_strings :: "Qt \<Rightarrow> PlayerSex \<Rightarrow> QString list" where
  "sex_strings Q MALE = map (tr Q) [''male'', ''man'', ''m'', ''boy'', ''herrer'', ''herre'']"
| "sex_strings Q FEMALE = map (tr Q) [''female'', ''woman'', ''w'', ''f'', ''girl'', ''damer'', ''dame'']"

definition sex_fromHumanString :: "Qt \<Rightarrow> QString \<Rightarrow> PlayerSex result" where
  "sex_fromHumanString Q str = firstNamed Q (sex_strings Q) str [MALE, FEMALE]"

fun sex_toHumanString :: "Qt \<Rightarrow> PlayerSex \<Rightarrow> QString" where
  "sex_toHumanString Q MALE = tr Q ''Male''"
| "sex_toHumanString Q FEMALE = tr Q ''Female''"

fun country_strings :: "Qt \<Rightarrow> PlayerCountry \<Rightarrow> QString list" where
  "country_strings Q DENMARK = map (tr Q) [''Denmark'', ''DEN'', ''DK'', ''Danmark'']"
| "country_strings Q FRANCE = map (tr Q) [''France'', ''FRA'', ''FR'']"

definition country_fromHumanString :: "Qt \<Rightarrow> QString \<Rightarrow> PlayerCountry result" where
  "country_fromHumanString Q str = firstNamed Q (country_strings Q) str [DENMARK, FRANCE]"

fun country_toHumanString :: "Qt \<Rightarrow> PlayerCountry \<Rightarrow> QString" where
  "country_toHumanString Q DENMARK = tr Q ''Denmark''"
| "country_toHumanString Q FRANCE = tr Q ''France''"

fun countryCode :: "Qt \<Rightarrow> PlayerCountry \<Rightarrow> QString" where
  "countryCode Q DENMARK = tr Q ''DEN''"
| "countryCode Q FRANCE = tr Q ''FRA''"

subsection \<open>Texts of ages\<close>

text \<open>
  The conversion of a \<^verbatim>\<open>float\<close> to an \<^verbatim>\<open>int\<close> cuts off the fraction; outside the range of \<^verbatim>\<open>int\<close> it is undefined. The pairs of a
  value and the flag \<^verbatim>\<open>ok\<close> are options.
\<close>

definition float_to_int :: "QFloat \<Rightarrow> int result" where
  "float_to_int x = (case x of
     NotFinite \<Rightarrow> Inl UndefinedBehaviour
   | Finite v \<Rightarrow> let i = (if v < 0 then \<lceil>v\<rceil> else \<lfloor>v\<rfloor>)
                 in if - (2 ^ 31) \<le> i \<and> i < 2 ^ 31 then Inr i else Inl UndefinedBehaviour)"

definition stringToInt :: "Qt \<Rightarrow> QString \<Rightarrow> int option result" where
  "stringToInt Q str =
     (case systemToFloat Q str of
        Some v \<Rightarrow> bindE (float_to_int v) (\<lambda>i. Inr (Some i))
      | None \<Rightarrow> (case cToFloat Q str of
                   Some v \<Rightarrow> bindE (float_to_int v) (\<lambda>i. Inr (Some i))
                 | None \<Rightarrow> Inr None))"

definition stringToDate :: "Qt \<Rightarrow> QString \<Rightarrow> QDate option" where
  "stringToDate Q str =
     (case dateFromString Q (trimmed Q str) ''dd-MM-yyyy'' of
        Some date \<Rightarrow> Some date
      | None \<Rightarrow> dateFromString Q (trimmed Q str) ''yyyy-MM-dd'')"

definition date_less :: "QDate \<Rightarrow> QDate \<Rightarrow> bool" where
  "date_less a b \<longleftrightarrow> date_year a < date_year b \<or>
     date_year a = date_year b \<and> (date_month a < date_month b \<or> date_month a = date_month b \<and> date_day a < date_day b)"

lemma date_less_asym: "date_less a b \<Longrightarrow> \<not> date_less b a"
  by (auto simp: date_less_def)

function getYearsPassed :: "QDate \<Rightarrow> QDate \<Rightarrow> int" where
  "getYearsPassed from_date to_date =
     (if date_less to_date from_date then - getYearsPassed to_date from_date
      else let years = date_year to_date - date_year from_date
           in if date_month to_date > date_month from_date \<or>
                 date_month to_date = date_month from_date \<and> date_day to_date \<ge> date_day from_date
              then years else years - 1)"
  by pat_completeness auto
termination
  by (relation "measure (\<lambda>(a, b). if date_less b a then 1 else 0)") (auto dest: date_less_asym)

declare getYearsPassed.simps [simp del]

definition MIN_BIRTH_YEAR :: int where
  "MIN_BIRTH_YEAR = 1900"

definition numberStringToAge :: "Qt \<Rightarrow> QString \<Rightarrow> int option result" where
  "numberStringToAge Q str =
     bindE (stringToInt Q str) (\<lambda>r.
     case r of
       None \<Rightarrow> Inr None
     | Some value \<Rightarrow> Inr (Some (if value > MIN_BIRTH_YEAR then getYearsPassed (QDate value 12 31) (currentDate Q) else value)))"

definition dateStringToAge :: "Qt \<Rightarrow> QString \<Rightarrow> int option" where
  "dateStringToAge Q str = map_option (\<lambda>date. getYearsPassed date (currentDate Q)) (stringToDate Q str)"

definition age_fromHumanString :: "Qt \<Rightarrow> QString \<Rightarrow> PlayerAge result" where
  "age_fromHumanString Q str =
     bindE (numberStringToAge Q str) (\<lambda>number.
     case (case number of Some value \<Rightarrow> Some value | None \<Rightarrow> dateStringToAge Q str) of
       None \<Rightarrow> Inl InvalidArgument
     | Some value \<Rightarrow> if value < 0 \<or> value > 255 then Inl InvalidArgument else newPlayerAge value)"

subsection \<open>Texts of weights\<close>

text \<open>
  \<open>matchString\<close> is the leftmost longest match of the expression \<^verbatim>\<open>(\d+([,\.]\d\d?)?)\<close>. A number out of range of \<^verbatim>\<open>float\<close> is above every bound.
\<close>

definition isDigitChar :: "char \<Rightarrow> bool" where
  "isDigitChar c \<longleftrightarrow> CHR ''0'' \<le> c \<and> c \<le> CHR ''9''"

fun decimals :: "QString \<Rightarrow> QString" where
  "decimals (c # d1 # d2 # s) =
     (if (c = CHR '','' \<or> c = CHR ''.'') \<and> isDigitChar d1 then (if isDigitChar d2 then [c, d1, d2] else [c, d1]) else [])"
| "decimals [c, d1] = (if (c = CHR '','' \<or> c = CHR ''.'') \<and> isDigitChar d1 then [c, d1] else [])"
| "decimals s = []"

definition matchString :: "QString \<Rightarrow> QString result" where
  "matchString str =
     (let rest = dropWhile (\<lambda>c. \<not> isDigitChar c) str
      in if rest = [] then Inl InvalidArgument
         else Inr (takeWhile isDigitChar rest @ decimals (dropWhile isDigitChar rest)))"

definition StringToFloat :: "Qt \<Rightarrow> QString \<Rightarrow> QFloat result" where
  "StringToFloat Q str =
     (case systemToFloat Q str of
        Some v \<Rightarrow> Inr v
      | None \<Rightarrow> (case cToFloat Q str of Some v \<Rightarrow> Inr v | None \<Rightarrow> Inl InvalidArgument))"

definition weight_fromHumanString :: "Qt \<Rightarrow> QString \<Rightarrow> PlayerWeight result" where
  "weight_fromHumanString Q str =
     bindE (matchString str) (\<lambda>m.
     bindE (StringToFloat Q m) (\<lambda>v.
     case v of
       NotFinite \<Rightarrow> Inl InvalidArgument
     | Finite value \<Rightarrow> if value < 0 \<or> value > 400 then Inl InvalidArgument else newPlayerWeight value))"

subsection \<open>The reader of tables\<close>

text \<open>
  The content of the file is \<open>None\<close> when it cannot be opened; the delimiter and the number of columns are then not initialised, and
  no caller uses them. \<open>getlines\<close> is the loop around \<^verbatim>\<open>std::getline\<close>: the text after the last line feed is a line unless it is empty.
\<close>

record CSVReader =
  mColumnCount :: nat
  mLines :: "QString list"
  mTable :: "QString list list"
  mDelimiter :: QChar
  mOpen :: bool

definition newline :: char where
  "newline = CHR 0x0A"

fun getlines :: "string \<Rightarrow> string \<Rightarrow> string list" where
  "getlines acc [] = (if acc = [] then [] else [acc])"
| "getlines acc (c # s) = (if c = newline then acc # getlines [] s else getlines (acc @ [c]) s)"

definition listDelimiters :: "QChar list" where
  "listDelimiters = [CHR '','', CHR '';'', CHR 0x09]"

definition guessDelimiter :: "QString \<Rightarrow> QChar" where
  "guessDelimiter line =
     fst (fold (\<lambda>a (del, delCount).
       let occurrences = count_list line a in if occurrences \<ge> delCount then (a, occurrences) else (del, delCount))
       listDelimiters (CHR '','', 0))"

definition quote :: QChar where
  "quote = CHR 0x22"

text \<open>The loop over the characters of a line, with the current field and whether a quotation is open.\<close>

fun parseLine :: "Qt \<Rightarrow> QChar \<Rightarrow> QString \<Rightarrow> bool \<Rightarrow> QString \<Rightarrow> QString list" where
  "parseLine Q del curField inQuotes [] = [trimmed Q curField]"
| "parseLine Q del curField inQuotes (c # line) =
     (if c = quote \<and> del \<noteq> quote then parseLine Q del curField (\<not> inQuotes) line
      else if c = del \<and> \<not> inQuotes then trimmed Q curField # parseLine Q del [] inQuotes line
      else parseLine Q del (curField @ [c]) inQuotes line)"

definition csv_parse :: "Qt \<Rightarrow> CSVReader \<Rightarrow> CSVReader" where
  "csv_parse Q r =
     (let table = map (parseLine Q (mDelimiter r) [] False) (mLines r)
      in r\<lparr>mTable := table, mColumnCount := fold (\<lambda>row m. max m (length row)) table 0\<rparr>)"

definition newCSVReader :: "Qt \<Rightarrow> string option \<Rightarrow> CSVReader" where
  "newCSVReader Q content =
     (case content of
        None \<Rightarrow> \<lparr>mColumnCount = 0, mLines = [], mTable = [], mDelimiter = CHR 0x00, mOpen = False\<rparr>
      | Some text \<Rightarrow>
          let csvLines = getlines [] text
          in csv_parse Q \<lparr>mColumnCount = 0, mLines = csvLines, mTable = [],
               mDelimiter = (if csvLines \<noteq> [] then guessDelimiter (hd csvLines) else CHR '',''), mOpen = True\<rparr>)"

definition csv_setDelimiter :: "Qt \<Rightarrow> QChar \<Rightarrow> CSVReader \<Rightarrow> CSVReader" where
  "csv_setDelimiter Q del r = csv_parse Q (r\<lparr>mDelimiter := del\<rparr>)"

definition rowCount :: "CSVReader \<Rightarrow> nat" where
  "rowCount r = length (mTable r)"

definition columnCount :: "CSVReader \<Rightarrow> nat" where
  "columnCount r = mColumnCount r"

definition csv_get :: "CSVReader \<Rightarrow> nat \<Rightarrow> nat \<Rightarrow> QString result" where
  "csv_get r row column =
     assertE (row < rowCount r) (assertE (column < columnCount r)
       (let vec = mTable r ! row in Inr (if column < length vec then vec ! column else '''')))"

subsection \<open>The importer\<close>

record PlayerTableImporter =
  mReader :: CSVReader
  mHasHeaderRow :: bool
  mColumnsManuallySet :: bool
  mFirstNameColumn :: "nat option"
  mLastNameColumn :: "nat option"
  mAgeColumn :: "nat option"
  mRankColumn :: "nat option"
  mClubColumn :: "nat option"
  mWeightColumn :: "nat option"
  mCountryColumn :: "nat option"
  mSexColumn :: "nat option"
  mCategoryColumn :: "nat option"

definition isFirstNameHeader :: "Qt \<Rightarrow> QString \<Rightarrow> bool" where
  "isFirstNameHeader Q cell \<longleftrightarrow> toLower Q cell = ''first name'' \<or> toLower Q cell = ''firstname''"

definition isLastNameHeader :: "Qt \<Rightarrow> QString \<Rightarrow> bool" where
  "isLastNameHeader Q cell \<longleftrightarrow> toLower Q cell = ''last name'' \<or> toLower Q cell = ''lastname''"

definition isAgeHeader :: "Qt \<Rightarrow> QString \<Rightarrow> bool" where
  "isAgeHeader Q cell \<longleftrightarrow> toLower Q cell = ''age''"

definition isRankHeader :: "Qt \<Rightarrow> QString \<Rightarrow> bool" where
  "isRankHeader Q cell \<longleftrightarrow> toLower Q cell = ''rank'' \<or> toLower Q cell = ''belt''"

definition isClubHeader :: "Qt \<Rightarrow> QString \<Rightarrow> bool" where
  "isClubHeader Q cell \<longleftrightarrow> toLower Q cell = ''club''"

definition isWeightHeader :: "Qt \<Rightarrow> QString \<Rightarrow> bool" where
  "isWeightHeader Q cell \<longleftrightarrow> toLower Q cell = ''weight''"

definition isCountryHeader :: "Qt \<Rightarrow> QString \<Rightarrow> bool" where
  "isCountryHeader Q cell \<longleftrightarrow> toLower Q cell = ''country'' \<or> toLower Q cell = ''nation''"

definition isSexHeader :: "Qt \<Rightarrow> QString \<Rightarrow> bool" where
  "isSexHeader Q cell \<longleftrightarrow> toLower Q cell = ''sex'' \<or> toLower Q cell = ''gender''"

definition isCategoryHeader :: "Qt \<Rightarrow> QString \<Rightarrow> bool" where
  "isCategoryHeader Q cell \<longleftrightarrow> toLower Q cell = ''category''"

definition HEADER_MATCH_ACTION :: nat where
  "HEADER_MATCH_ACTION = 2"

definition isGuessedHeader :: "Qt \<Rightarrow> QString \<Rightarrow> bool" where
  "isGuessedHeader Q cell \<longleftrightarrow> isFirstNameHeader Q cell \<or> isLastNameHeader Q cell \<or> isSexHeader Q cell \<or> isAgeHeader Q cell \<or>
     isWeightHeader Q cell \<or> isCountryHeader Q cell \<or> isClubHeader Q cell"

definition guessHasHeaderRow :: "Qt \<Rightarrow> PlayerTableImporter \<Rightarrow> PlayerTableImporter result" where
  "guessHasHeaderRow Q m =
     (if rowCount (mReader m) = 0 \<or> columnCount (mReader m) = 0 then Inr (m\<lparr>mHasHeaderRow := False\<rparr>)
      else bindE (foldE (\<lambda>column cellMatches.
             bindE (csv_get (mReader m) 0 column) (\<lambda>cell.
               Inr (if isGuessedHeader Q cell then cellMatches + 1 else cellMatches)))
             [0..<columnCount (mReader m)] 0) (\<lambda>cellMatches.
           Inr (m\<lparr>mHasHeaderRow := (cellMatches \<ge> HEADER_MATCH_ACTION)\<rparr>)))"

definition guessColumn :: "Qt \<Rightarrow> nat \<Rightarrow> QString \<Rightarrow> PlayerTableImporter \<Rightarrow> PlayerTableImporter" where
  "guessColumn Q column cell m =
     (if mFirstNameColumn m = None \<and> isFirstNameHeader Q cell then m\<lparr>mFirstNameColumn := Some column\<rparr>
      else if mLastNameColumn m = None \<and> isLastNameHeader Q cell then m\<lparr>mLastNameColumn := Some column\<rparr>
      else if mAgeColumn m = None \<and> isAgeHeader Q cell then m\<lparr>mAgeColumn := Some column\<rparr>
      else if mRankColumn m = None \<and> isRankHeader Q cell then m\<lparr>mRankColumn := Some column\<rparr>
      else if mClubColumn m = None \<and> isClubHeader Q cell then m\<lparr>mClubColumn := Some column\<rparr>
      else if mWeightColumn m = None \<and> isWeightHeader Q cell then m\<lparr>mWeightColumn := Some column\<rparr>
      else if mCountryColumn m = None \<and> isCountryHeader Q cell then m\<lparr>mCountryColumn := Some column\<rparr>
      else if mSexColumn m = None \<and> isSexHeader Q cell then m\<lparr>mSexColumn := Some column\<rparr>
      else if mCategoryColumn m = None \<and> isCategoryHeader Q cell then m\<lparr>mCategoryColumn := Some column\<rparr>
      else m)"

definition resetColumns :: "PlayerTableImporter \<Rightarrow> PlayerTableImporter" where
  "resetColumns m = m\<lparr>mFirstNameColumn := None, mLastNameColumn := None, mAgeColumn := None, mRankColumn := None,
     mClubColumn := None, mWeightColumn := None, mCountryColumn := None, mSexColumn := None, mCategoryColumn := None\<rparr>"

definition guessColumns :: "Qt \<Rightarrow> PlayerTableImporter \<Rightarrow> PlayerTableImporter result" where
  "guessColumns Q m0 =
     (let m = resetColumns m0 in
      if \<not> mHasHeaderRow m \<or> columnCount (mReader m) = 0 \<or> rowCount (mReader m) = 0 then Inr m
      else foldE (\<lambda>column m. bindE (csv_get (mReader m) 0 column) (\<lambda>cell. Inr (guessColumn Q column cell m)))
             [0..<columnCount (mReader m)] m)"

text \<open>The constructor leaves \<^verbatim>\<open>mHasHeaderRow\<close> uninitialised when the file was not opened; no caller goes on then.\<close>

definition newPlayerTableImporter :: "Qt \<Rightarrow> CSVReader \<Rightarrow> PlayerTableImporter result" where
  "newPlayerTableImporter Q reader =
     (let m = \<lparr>mReader = reader, mHasHeaderRow = False, mColumnsManuallySet = False, mFirstNameColumn = None,
               mLastNameColumn = None, mAgeColumn = None, mRankColumn = None, mClubColumn = None, mWeightColumn = None,
               mCountryColumn = None, mSexColumn = None, mCategoryColumn = None\<rparr>
      in if \<not> mOpen reader then Inr m else bindE (guessHasHeaderRow Q m) (guessColumns Q))"

definition setHasHeaderRow :: "Qt \<Rightarrow> bool \<Rightarrow> PlayerTableImporter \<Rightarrow> PlayerTableImporter result" where
  "setHasHeaderRow Q val m =
     (if mHasHeaderRow m = val then Inr m
      else let m1 = m\<lparr>mHasHeaderRow := val\<rparr>
           in if \<not> mColumnsManuallySet m1 then guessColumns Q m1 else Inr m1)"

definition importer_setDelimiter :: "Qt \<Rightarrow> QChar \<Rightarrow> PlayerTableImporter \<Rightarrow> PlayerTableImporter result" where
  "importer_setDelimiter Q del m =
     (let m1 = m\<lparr>mReader := csv_setDelimiter Q del (mReader m)\<rparr>
      in if \<not> mColumnsManuallySet m1 then bindE (guessHasHeaderRow Q m1) (guessColumns Q) else Inr m1)"

definition setFirstNameColumn :: "nat option \<Rightarrow> PlayerTableImporter \<Rightarrow> PlayerTableImporter" where
  "setFirstNameColumn val m = m\<lparr>mFirstNameColumn := val, mColumnsManuallySet := True\<rparr>"

definition setLastNameColumn :: "nat option \<Rightarrow> PlayerTableImporter \<Rightarrow> PlayerTableImporter" where
  "setLastNameColumn val m = m\<lparr>mLastNameColumn := val, mColumnsManuallySet := True\<rparr>"

definition setAgeColumn :: "nat option \<Rightarrow> PlayerTableImporter \<Rightarrow> PlayerTableImporter" where
  "setAgeColumn val m = m\<lparr>mAgeColumn := val, mColumnsManuallySet := True\<rparr>"

definition setRankColumn :: "nat option \<Rightarrow> PlayerTableImporter \<Rightarrow> PlayerTableImporter" where
  "setRankColumn val m = m\<lparr>mRankColumn := val, mColumnsManuallySet := True\<rparr>"

definition setClubColumn :: "nat option \<Rightarrow> PlayerTableImporter \<Rightarrow> PlayerTableImporter" where
  "setClubColumn val m = m\<lparr>mClubColumn := val, mColumnsManuallySet := True\<rparr>"

definition setWeightColumn :: "nat option \<Rightarrow> PlayerTableImporter \<Rightarrow> PlayerTableImporter" where
  "setWeightColumn val m = m\<lparr>mWeightColumn := val, mColumnsManuallySet := True\<rparr>"

definition setCountryColumn :: "nat option \<Rightarrow> PlayerTableImporter \<Rightarrow> PlayerTableImporter" where
  "setCountryColumn val m = m\<lparr>mCountryColumn := val, mColumnsManuallySet := True\<rparr>"

definition setSexColumn :: "nat option \<Rightarrow> PlayerTableImporter \<Rightarrow> PlayerTableImporter" where
  "setSexColumn val m = m\<lparr>mSexColumn := val, mColumnsManuallySet := True\<rparr>"

definition setCategoryColumn :: "nat option \<Rightarrow> PlayerTableImporter \<Rightarrow> PlayerTableImporter" where
  "setCategoryColumn val m = m\<lparr>mCategoryColumn := val, mColumnsManuallySet := True\<rparr>"

text \<open>
  A \<^verbatim>\<open>try\<close> block around a parser: \<open>tryE\<close> is \<open>None\<close> for the exceptions that \<^verbatim>\<open>catch (const std::exception &)\<close> stops, the others
  of the errors of the model are no exceptions.
\<close>

definition tryE :: "'a result \<Rightarrow> 'a option result" where
  "tryE r = (case r of
     Inr x \<Rightarrow> Inr (Some x)
   | Inl InvalidArgument \<Rightarrow> Inr None
   | Inl e \<Rightarrow> Inl e)"

definition checkColumn :: "nat option \<Rightarrow> nat \<Rightarrow> 'v result \<Rightarrow> bool result \<Rightarrow> bool result" where
  "checkColumn c column parsed k =
     (if c = Some column then bindE (tryE parsed) (\<lambda>x. if x = None then Inr False else k) else k)"

definition isValid :: "Qt \<Rightarrow> PlayerTableImporter \<Rightarrow> nat \<Rightarrow> nat \<Rightarrow> bool result" where
  "isValid Q m row column =
     bindE (csv_get (mReader m) row column) (\<lambda>val.
       if val = [] then Inr True
       else checkColumn (mAgeColumn m) column (age_fromHumanString Q val)
           (checkColumn (mRankColumn m) column (rank_fromHumanString Q val)
           (checkColumn (mWeightColumn m) column (weight_fromHumanString Q val)
           (checkColumn (mCountryColumn m) column (country_fromHumanString Q val)
           (checkColumn (mSexColumn m) column (sex_fromHumanString Q val) (Inr True))))))"

definition parseValue :: "(QString \<Rightarrow> 'v result) \<Rightarrow> PlayerTableImporter \<Rightarrow> nat \<Rightarrow> nat option \<Rightarrow> 'v option result" where
  "parseValue fromHumanString m row column =
     (case column of
        None \<Rightarrow> Inr None
      | Some c \<Rightarrow> bindE (csv_get (mReader m) row c) (\<lambda>str. tryE (fromHumanString str)))"

definition parseText :: "PlayerTableImporter \<Rightarrow> nat \<Rightarrow> nat option \<Rightarrow> string result" where
  "parseText m row column = (case column of None \<Rightarrow> Inr '''' | Some c \<Rightarrow> csv_get (mReader m) row c)"

definition parseRow :: "Qt \<Rightarrow> PlayerTableImporter \<Rightarrow> nat \<Rightarrow> (PlayerFields \<times> string option) result" where
  "parseRow Q m row =
     bindE (parseText m row (mFirstNameColumn m)) (\<lambda>first.
     bindE (parseText m row (mLastNameColumn m)) (\<lambda>family.
     bindE (parseValue (age_fromHumanString Q) m row (mAgeColumn m)) (\<lambda>a.
     bindE (parseValue (rank_fromHumanString Q) m row (mRankColumn m)) (\<lambda>r.
     bindE (parseText m row (mClubColumn m)) (\<lambda>cl.
     bindE (parseValue (weight_fromHumanString Q) m row (mWeightColumn m)) (\<lambda>w.
     bindE (parseValue (country_fromHumanString Q) m row (mCountryColumn m)) (\<lambda>co.
     bindE (parseValue (sex_fromHumanString Q) m row (mSexColumn m)) (\<lambda>s.
     bindE (parseText m row (mCategoryColumn m)) (\<lambda>categoryName.
       Inr (\<lparr>firstName = first, lastName = family, age = a, rank = r, club = cl, weight = w, country = co, sex = s,
              blueJudogiHint = False\<rparr>,
            if categoryName = [] then None else Some categoryName))))))))))"

fun collectE :: "('x \<Rightarrow> 'y result) \<Rightarrow> 'x list \<Rightarrow> 'y list result" where
  "collectE f [] = Inr []"
| "collectE f (x # xs) = bindE (f x) (\<lambda>y. bindE (collectE f xs) (\<lambda>ys. Inr (y # ys)))"

definition parseRows :: "Qt \<Rightarrow> PlayerTableImporter \<Rightarrow> (PlayerFields \<times> string option) list result" where
  "parseRows Q m = collectE (parseRow Q m) [(if mHasHeaderRow m then 1 else 0)..<rowCount (mReader m)]"

fun intercalate :: "QString \<Rightarrow> QString list \<Rightarrow> QString" where
  "intercalate sep [] = []"
| "intercalate sep [s] = s"
| "intercalate sep (s # t # ss) = s @ sep @ intercalate sep (t # ss)"

text \<open>The arrow in the header of a column is three bytes of UTF-8.\<close>

definition getHeader :: "Qt \<Rightarrow> PlayerTableImporter \<Rightarrow> nat \<Rightarrow> QString result" where
  "getHeader Q m column =
     bindE (if mHasHeaderRow m \<and> rowCount (mReader m) > 0 then csv_get (mReader m) 0 column else Inr '''') (\<lambda>fileColumnHeader.
     let header = to_string (column + 1) @ (if fileColumnHeader = [] then '''' else '' ('' @ fileColumnHeader @ '')'');
         named = (\<lambda>c name. if c = Some column then [tr Q name] else []);
         names = named (mFirstNameColumn m) ''First Name'' @ named (mLastNameColumn m) ''Last Name'' @ named (mAgeColumn m) ''Age'' @
                 named (mRankColumn m) ''Rank'' @ named (mClubColumn m) ''Club'' @ named (mWeightColumn m) ''Weight'' @
                 named (mCountryColumn m) ''Country'' @ named (mSexColumn m) ''Sex'' @ named (mCategoryColumn m) ''Category''
     in Inr (if names = [] then header
             else header @ tr Q ('' '' @ [CHR 0xE2, CHR 0x86, CHR 0x92] @ '' '') @ intercalate '', '' names))"

subsection \<open>The action of an import\<close>

text \<open>
  \<open>order\<close> is the order in which the hash set of names is traversed. Identifiers of new categories are drawn one by one, each against
  the tournament without the others.
\<close>

definition getUniqueCategoryNames :: "string option list \<Rightarrow> string list" where
  "getUniqueCategoryNames names = remdups (List.map_filter id names)"

fun createOrGetCategoryIds ::
  "TournamentStore \<Rightarrow> string list \<Rightarrow> mt19937 \<Rightarrow> ((string \<times> CategoryId) list \<times> (CategoryId \<times> string) list \<times> mt19937) result" where
  "createOrGetCategoryIds t [] eng = Inr ([], [], eng)"
| "createOrGetCategoryIds t (name # names) eng =
     (case getCategoryByName name t of
        Some i \<Rightarrow> bindE (createOrGetCategoryIds t names eng) (\<lambda>(ids, new, eng'). Inr ((name, i) # ids, new, eng'))
      | None \<Rightarrow>
          (case generate (\<lambda>i. containsCategory i t) eng of
             None \<Rightarrow> Inl Diverges
           | Some (i, eng1) \<Rightarrow>
               bindE (createOrGetCategoryIds t names eng1) (\<lambda>(ids, new, eng'). Inr ((name, i) # ids, (i, name) # new, eng'))))"

definition newAddPlayersWithCategoriesAction ::
  "(string list \<Rightarrow> string list) \<Rightarrow> u32 \<Rightarrow> TournamentStore \<Rightarrow> PlayerFields list \<Rightarrow> string option list \<Rightarrow> mt19937 \<Rightarrow>
   (AddPlayersWithCategoriesAction \<times> mt19937) result" where
  "newAddPlayersWithCategoriesAction order seed t fs categories eng =
     (case generateMultiple (\<lambda>i. containsPlayer i t) (length fs) eng of
        None \<Rightarrow> Inl Diverges
      | Some (ids, eng1) \<Rightarrow>
          bindE (createOrGetCategoryIds t (order (getUniqueCategoryNames categories)) eng1) (\<lambda>(categoryIds, new, eng2).
          bindE (collectE (\<lambda>i. bindE (nthE categories i) (\<lambda>c.
                   case c of
                     None \<Rightarrow> Inr None
                   | Some name \<Rightarrow> (case map_of categoryIds name of None \<Rightarrow> Inl OutOfRange | Some j \<Rightarrow> Inr (Some j))))
                 [0..<length fs]) (\<lambda>playerCategories.
          bindE (newAddPlayersAction ids fs) (\<lambda>ap.
            Inr (\<lparr>mImportPlayers = ap, mPlayerCategoryIds = playerCategories, mNewCategories = new, mImportSeed = seed,
                   mAddCategoryActions = [], mAddPlayersToCategoryActions = []\<rparr>, eng2)))))"

definition importAction ::
  "Qt \<Rightarrow> (string list \<Rightarrow> string list) \<Rightarrow> u32 \<Rightarrow> TournamentStore \<Rightarrow> PlayerTableImporter \<Rightarrow> mt19937 \<Rightarrow>
   (AddPlayersWithCategoriesAction \<times> mt19937) result" where
  "importAction Q order seed t m eng =
     bindE (parseRows Q m) (\<lambda>rows.
       newAddPlayersWithCategoriesAction order seed t (map fst rows) (map snd rows) eng)"

end
