(* ===== verification/Import_Correctness.thy ===== *)
theory Import_Correctness
  imports Player_Import
begin

section \<open>Correctness of the import\<close>

text \<open>
  Tables are read as they were written; the texts shown for fields are read back; the columns that an importer guesses or is given
  lie in the table; and an import adds one player for every row, with the fields that the row stands for.
\<close>

subsection \<open>Tables are read as they were written\<close>

text \<open>
  A table written with a delimiter: a cell that contains the delimiter is put in quotation marks, the cells of a line are separated by
  the delimiter and every line ends with a line feed.
\<close>

definition quoteCell :: "QChar \<Rightarrow> QString \<Rightarrow> QString" where
  "quoteCell del cell = (if del \<in> set cell then quote # cell @ [quote] else cell)"

definition csvLine :: "QChar \<Rightarrow> QString list \<Rightarrow> QString" where
  "csvLine del row = intercalate [del] (map (quoteCell del) row)"

definition csvText :: "QChar \<Rightarrow> QString list list \<Rightarrow> string" where
  "csvText del rows = concat (map (\<lambda>row. csvLine del row @ [newline]) rows)"

definition writableCell :: "Qt \<Rightarrow> QString \<Rightarrow> bool" where
  "writableCell Q cell \<longleftrightarrow> quote \<notin> set cell \<and> newline \<notin> set cell \<and> trimmed Q cell = cell"

lemma getlines_line: "newline \<notin> set line \<Longrightarrow> getlines acc (line @ newline # s) = (acc @ line) # getlines [] s"
  by (induction line arbitrary: acc) auto

lemma getlines_lines:
  "\<forall>line \<in> set ls. newline \<notin> set line \<Longrightarrow> getlines [] (concat (map (\<lambda>line. line @ [newline]) ls)) = ls"
  by (induction ls) (simp_all add: getlines_line)

lemma parseLine_plain:
  "quote \<notin> set cell \<Longrightarrow> inQuotes \<or> del \<notin> set cell \<Longrightarrow>
   parseLine Q del cur inQuotes (cell @ rest) = parseLine Q del (cur @ cell) inQuotes rest"
  by (induction cell arbitrary: cur) auto

lemma parseLine_cell:
  assumes "quote \<notin> set cell" and "del \<noteq> quote"
  shows "parseLine Q del cur False (quoteCell del cell @ rest) = parseLine Q del (cur @ cell) False rest"
proof (cases "del \<in> set cell")
  case True
  then have "parseLine Q del cur False (quoteCell del cell @ rest) = parseLine Q del cur True (cell @ quote # rest)"
    using assms by (simp add: quoteCell_def)
  also have "\<dots> = parseLine Q del (cur @ cell) False rest"
    using assms by (subst parseLine_plain) auto
  finally show ?thesis .
qed (use assms in \<open>simp add: quoteCell_def parseLine_plain\<close>)

lemma parseLine_csvLine:
  assumes "del \<noteq> quote" and "row \<noteq> []" and "\<forall>cell \<in> set row. quote \<notin> set cell"
  shows "parseLine Q del [] False (csvLine del row) = map (trimmed Q) row"
  using assms(2,3)
proof (induction row rule: induct_list012)
  case (2 cell)
  then show ?case using parseLine_cell[of cell del Q "[]" "[]"] assms(1) by (simp add: csvLine_def)
next
  case (3 cell cell' row)
  then show ?case using assms(1) by (simp add: csvLine_def parseLine_cell)
qed simp

lemma set_intercalate: "set (intercalate sep xs) \<subseteq> set sep \<union> \<Union> (set ` set xs)"
  by (induction xs rule: induct_list012) auto

lemma newline_csvLine:
  assumes "del \<noteq> newline" and "\<forall>cell \<in> set row. newline \<notin> set cell"
  shows "newline \<notin> set (csvLine del row)"
proof
  assume "newline \<in> set (csvLine del row)"
  with set_intercalate[of "[del]" "map (quoteCell del) row"] assms(1) obtain cell where
    "cell \<in> set row" and "newline \<in> set (quoteCell del cell)" by (auto simp: csvLine_def)
  with assms(2) show False by (auto simp: quoteCell_def quote_def newline_def split: if_splits)
qed

lemma fold_max_ge: "(m :: nat) \<le> fold (\<lambda>row k. max k (f row)) rows m"
proof (induction rows arbitrary: m)
  case (Cons row rows)
  from Cons[of "max m (f row)"] show ?case by simp
qed simp

lemma fold_max_member: "row \<in> set rows \<Longrightarrow> (f row :: nat) \<le> fold (\<lambda>row k. max k (f row)) rows m"
  by (induction rows arbitrary: m) (auto intro: order_trans[OF _ fold_max_ge])

definition csv_wf :: "CSVReader \<Rightarrow> bool" where
  "csv_wf r \<longleftrightarrow> (\<forall>row \<in> set (mTable r). row \<noteq> [] \<and> length row \<le> mColumnCount r)"

lemma parseLine_not_Nil [simp]: "parseLine Q del cur q line \<noteq> []"
  by (induction line arbitrary: cur q) auto

lemma csv_parse_wf [simp]: "csv_wf (csv_parse Q r)"
  by (auto simp: csv_wf_def csv_parse_def Let_def intro!: fold_max_member)

lemma newCSVReader_wf [simp]: "csv_wf (newCSVReader Q content)"
  by (cases content) (simp_all add: newCSVReader_def Let_def, simp add: csv_wf_def)

lemma newCSVReader_open [simp]: "mOpen (newCSVReader Q (Some content))"
  by (simp add: newCSVReader_def Let_def csv_parse_def)

lemma csv_setDelimiter_wf [simp]: "csv_wf (csv_setDelimiter Q del r)"
  by (simp add: csv_setDelimiter_def)

lemma csv_get_Inr: "row < rowCount r \<Longrightarrow> column < columnCount r \<Longrightarrow>
  csv_get r row column = Inr (if column < length (mTable r ! row) then mTable r ! row ! column else '''')"
  by (simp add: csv_get_def Let_def)

lemma csv_get_cell: "csv_wf r \<Longrightarrow> row < rowCount r \<Longrightarrow> column < length (mTable r ! row) \<Longrightarrow> csv_get r row column = Inr (mTable r ! row ! column)"
  using nth_mem[of row "mTable r"] by (subst csv_get_Inr) (auto simp: csv_wf_def rowCount_def columnCount_def intro: less_le_trans)

text \<open>
  C32. The reader of tables inverts the usual way to write them (\<open>csvText\<close>, a specification, since the program writes no tables): a table without
  quotation marks and line feeds in its cells, whose cells have no white space around them and whose rows are not empty, is read back as it was
  written, with any delimiter but a quotation mark or a line feed. Cells may contain the delimiter. Every cell is found at its row and column.
\<close>
theorem csv_roundtrip:
  assumes "del \<noteq> quote" and "del \<noteq> newline"
    and "\<forall>row \<in> set rows. row \<noteq> [] \<and> (\<forall>cell \<in> set row. writableCell Q cell)"
  shows "let r = csv_setDelimiter Q del (newCSVReader Q (Some (csvText del rows)))
         in mOpen r \<and> mTable r = rows \<and> (\<forall>i < length rows. \<forall>j < length (rows ! i). csv_get r i j = Inr (rows ! i ! j))"
proof -
  define r where "r = csv_setDelimiter Q del (newCSVReader Q (Some (csvText del rows)))"
  have "getlines [] (csvText del rows) = map (csvLine del) rows"
    using assms(2,3) getlines_lines[of "map (csvLine del) rows"] newline_csvLine
    by (auto simp: csvText_def comp_def writableCell_def)
  then have "mTable r = map (\<lambda>row. parseLine Q del [] False (csvLine del row)) rows" and "mOpen r"
    by (simp_all add: r_def csv_setDelimiter_def newCSVReader_def csv_parse_def Let_def)
  moreover have "map (\<lambda>row. parseLine Q del [] False (csvLine del row)) rows = map (map (trimmed Q)) rows"
    using assms by (intro map_cong refl parseLine_csvLine) (auto simp: writableCell_def)
  moreover have "map (map (trimmed Q)) rows = rows"
    using assms(3) by (intro map_idI) (auto simp: writableCell_def)
  ultimately have "mTable r = rows" and "mOpen r" by simp_all
  moreover have "csv_wf r" by (simp add: r_def)
  ultimately show ?thesis unfolding r_def[symmetric] Let_def by (auto simp: rowCount_def intro: csv_get_cell)
qed

text \<open>A Qt without translations whose locales read plain digits.\<close>

definition asciiLower :: "char \<Rightarrow> char" where
  "asciiLower c = (if CHR ''A'' \<le> c \<and> c \<le> CHR ''Z'' then char_of (of_char c + 32 :: nat) else c)"

definition isBlank :: "char \<Rightarrow> bool" where
  "isBlank c \<longleftrightarrow> c \<in> {CHR '' '', CHR 0x09, CHR 0x0A, CHR 0x0B, CHR 0x0C, CHR 0x0D}"

definition digitsToFloat :: "string \<Rightarrow> QFloat option" where
  "digitsToFloat s =
     (if s = ''nan'' then Some NotFinite
      else if s = [] \<or> \<not> list_all isDigitChar s then None
      else Some (Finite (of_nat (fold (\<lambda>c n. 10 * n + (of_char c - 48)) s 0))))"

definition exampleQt :: Qt where
  "exampleQt = \<lparr>toLower = map asciiLower, trimmed = (\<lambda>s. rev (dropWhile isBlank (rev (dropWhile isBlank s)))), tr = id,
     systemToFloat = digitsToFloat, cToFloat = digitsToFloat, dateFromString = (\<lambda>s format. None), currentDate = QDate 2020 6 15\<rparr>"

definition exampleTable :: "QString list list" where
  "exampleTable = [[''First name'', ''Age'', ''Belt''], [''Ann, B'', ''17'', ''green''], [''Carl'']]"

theorem csv_roundtrip_witness:
  "mTable (csv_setDelimiter exampleQt (CHR '','') (newCSVReader exampleQt (Some (csvText (CHR '','') exampleTable)))) = exampleTable"
proof -
  have "\<forall>row \<in> set exampleTable. row \<noteq> [] \<and> (\<forall>cell \<in> set row. writableCell exampleQt cell)" by code_simp
  moreover have "CHR '','' \<noteq> quote" and "CHR '','' \<noteq> newline" by (simp_all add: quote_def newline_def)
  ultimately show ?thesis using csv_roundtrip[of "CHR '',''" exampleTable exampleQt] by (simp add: Let_def)
qed

subsection \<open>Texts of fields are read back\<close>

text \<open>What is documented of Qt: texts without a translation are shown as they are, and ASCII letters have their lower case.\<close>

definition qt_untranslated :: "Qt \<Rightarrow> bool" where
  "qt_untranslated Q \<longleftrightarrow> (\<forall>s. tr Q s = s) \<and> (\<forall>s. list_all (\<lambda>c. (of_char c :: nat) < 128) s \<longrightarrow> toLower Q s = map asciiLower s)"

lemma qt_lower: "qt_untranslated Q \<Longrightarrow> list_all (\<lambda>c. (of_char c :: nat) < 128) s \<Longrightarrow> toLower Q s = map asciiLower s"
  by (simp add: qt_untranslated_def)

lemma exampleQt_untranslated: "qt_untranslated exampleQt"
  by (simp add: qt_untranslated_def exampleQt_def)

text \<open>
  The text shown for a sex, a country or a rank is read back as that value, with the exception of the rank 4th kyu, whose list of
  texts repeats the one of 5th kyu: its own text is rejected.
\<close>

lemma human_strings_read_back:
  assumes "qt_untranslated Q"
  shows "sex_fromHumanString Q (sex_toHumanString Q s) = Inr s"
    and "country_fromHumanString Q (country_toHumanString Q c) = Inr c"
    and "country_fromHumanString Q (countryCode Q c) = Inr c"
    and "rank_fromHumanString Q (rank_toHumanString Q r) = (if r = KYU_4 then Inl InvalidArgument else Inr r)"
proof -
  note defs = sex_fromHumanString_def country_fromHumanString_def rank_fromHumanString_def rank_enum_def asciiLower_def less_eq_char_def
    char_of_def bit_0
  note [simp] = qt_lower[OF assms] assms[unfolded qt_untranslated_def, THEN conjunct1, rule_format]
  show "sex_fromHumanString Q (sex_toHumanString Q s) = Inr s" by (cases s) (simp_all add: defs)
  show "country_fromHumanString Q (country_toHumanString Q c) = Inr c" by (cases c) (simp_all add: defs)
  show "country_fromHumanString Q (countryCode Q c) = Inr c" by (cases c) (simp_all add: defs)
  show "rank_fromHumanString Q (rank_toHumanString Q r) = (if r = KYU_4 then Inl InvalidArgument else Inr r)"
    by (cases r) (simp_all add: defs)
qed

subsection \<open>The columns of an importer\<close>

definition columnsOf :: "PlayerTableImporter \<Rightarrow> nat option list" where
  "columnsOf m = [mFirstNameColumn m, mLastNameColumn m, mAgeColumn m, mRankColumn m, mClubColumn m, mWeightColumn m,
     mCountryColumn m, mSexColumn m, mCategoryColumn m]"

definition importer_inv :: "PlayerTableImporter \<Rightarrow> bool" where
  "importer_inv m \<longleftrightarrow> csv_wf (mReader m) \<and> (\<forall>c. Some c \<in> set (columnsOf m) \<longrightarrow> c < columnCount (mReader m))"

text \<open>What the dialog does: it opens a file, toggles the header, chooses columns of the table and, as long as it has chosen none, delimiters.\<close>

definition columnSetters :: "(nat option \<Rightarrow> PlayerTableImporter \<Rightarrow> PlayerTableImporter) list" where
  "columnSetters = [setFirstNameColumn, setLastNameColumn, setAgeColumn, setRankColumn, setClubColumn, setWeightColumn,
     setCountryColumn, setSexColumn, setCategoryColumn]"

inductive importer_reachable :: "Qt \<Rightarrow> PlayerTableImporter \<Rightarrow> bool" for Q where
  opened: "newPlayerTableImporter Q (newCSVReader Q (Some text)) = Inr m \<Longrightarrow> importer_reachable Q m"
| header: "importer_reachable Q m \<Longrightarrow> setHasHeaderRow Q val m = Inr m' \<Longrightarrow> importer_reachable Q m'"
| delimiter: "importer_reachable Q m \<Longrightarrow> \<not> mColumnsManuallySet m \<Longrightarrow> importer_setDelimiter Q del m = Inr m' \<Longrightarrow> importer_reachable Q m'"
| column: "importer_reachable Q m \<Longrightarrow> f \<in> set columnSetters \<Longrightarrow> (\<forall>c. val = Some c \<longrightarrow> c < columnCount (mReader m)) \<Longrightarrow>
    importer_reachable Q (f val m)"

lemma resetColumns_simps [simp]:
  "mReader (resetColumns m) = mReader m" "mHasHeaderRow (resetColumns m) = mHasHeaderRow m"
  "mColumnsManuallySet (resetColumns m) = mColumnsManuallySet m" "columnsOf (resetColumns m) = replicate 9 None"
  by (simp_all add: resetColumns_def columnsOf_def numeral_eq_Suc)

lemma guessColumn_simps [simp]:
  "mReader (guessColumn Q column cell m) = mReader m" "mHasHeaderRow (guessColumn Q column cell m) = mHasHeaderRow m"
  by (simp_all add: guessColumn_def)

lemma guessColumn_columns: "Some c \<in> set (columnsOf (guessColumn Q column cell m)) \<Longrightarrow> c = column \<or> Some c \<in> set (columnsOf m)"
  by (auto simp: guessColumn_def columnsOf_def split: if_splits)

text \<open>The loop of \<^verbatim>\<open>guessColumns\<close> is a fold over the cells of the first row.\<close>

definition headerCells :: "CSVReader \<Rightarrow> QString list" where
  "headerCells r = map (\<lambda>column. if column < length (mTable r ! 0) then mTable r ! 0 ! column else '''') [0..<columnCount r]"

lemma csv_get_header: "0 < rowCount r \<Longrightarrow> column < columnCount r \<Longrightarrow> csv_get r 0 column = Inr (headerCells r ! column)"
  by (simp add: csv_get_Inr headerCells_def)

definition guessFrom :: "Qt \<Rightarrow> CSVReader \<Rightarrow> nat list \<Rightarrow> PlayerTableImporter \<Rightarrow> PlayerTableImporter" where
  "guessFrom Q r = fold (\<lambda>column. guessColumn Q column (headerCells r ! column))"

lemma guessFrom_simps [simp]:
  "mReader (guessFrom Q r cs m) = mReader m" "mHasHeaderRow (guessFrom Q r cs m) = mHasHeaderRow m"
  by (induction cs arbitrary: m) (simp_all add: guessFrom_def)

lemma guessLoop:
  assumes "\<forall>c \<in> set cs. c < columnCount (mReader m)" and "0 < rowCount (mReader m)"
  shows "foldE (\<lambda>column m. bindE (csv_get (mReader m) 0 column) (\<lambda>cell. Inr (guessColumn Q column cell m))) cs m =
    Inr (guessFrom Q (mReader m) cs m)"
  using assms
proof (induction cs arbitrary: m)
  case (Cons c cs)
  then show ?case
    using Cons.IH[of "guessColumn Q c (headerCells (mReader m) ! c) m"]
    by (simp add: csv_get_header guessFrom_def)
qed (simp add: guessFrom_def)

lemma guessColumns_eq:
  "guessColumns Q m = Inr (if \<not> mHasHeaderRow m \<or> columnCount (mReader m) = 0 \<or> rowCount (mReader m) = 0 then resetColumns m
     else guessFrom Q (mReader m) [0..<columnCount (mReader m)] (resetColumns m))"
  using guessLoop[of "[0..<columnCount (mReader m)]" "resetColumns m" Q] by (simp add: guessColumns_def Let_def)

lemma guessFrom_columns: "Some c \<in> set (columnsOf (guessFrom Q r cs m)) \<Longrightarrow> c \<in> set cs \<or> Some c \<in> set (columnsOf m)"
  by (induction cs arbitrary: m) (auto simp: guessFrom_def dest: guessColumn_columns)

lemma guessColumns_inv: "guessColumns Q m = Inr m' \<Longrightarrow> csv_wf (mReader m) \<Longrightarrow> importer_inv m'"
  by (auto simp: guessColumns_eq importer_inv_def dest: guessFrom_columns split: if_splits)

lemma guessHasHeaderRow_eq:
  "\<exists>b. guessHasHeaderRow Q m = Inr (m\<lparr>mHasHeaderRow := b\<rparr>)"
proof (cases "rowCount (mReader m) = 0 \<or> columnCount (mReader m) = 0")
  case False
  then obtain n where "foldE (\<lambda>column cellMatches.
             bindE (csv_get (mReader m) 0 column) (\<lambda>cell. Inr (if isGuessedHeader Q cell then cellMatches + 1 else cellMatches)))
             [0..<columnCount (mReader m)] (0::nat) = Inr n"
    using foldE_total[of "\<lambda>_. True" 0 "[0..<columnCount (mReader m)]" "\<lambda>column cellMatches.
      bindE (csv_get (mReader m) 0 column) (\<lambda>cell. Inr (if isGuessedHeader Q cell then cellMatches + 1 else cellMatches))"]
    by (auto simp: csv_get_Inr)
  then show ?thesis by (auto simp: guessHasHeaderRow_def)
qed (auto simp: guessHasHeaderRow_def)

lemma guess_total:
  assumes "csv_wf (mReader m)"
  obtains m' where "bindE (guessHasHeaderRow Q m) (guessColumns Q) = Inr m'" and "importer_inv m'"
proof -
  obtain b where "guessHasHeaderRow Q m = Inr (m\<lparr>mHasHeaderRow := b\<rparr>)" using guessHasHeaderRow_eq by blast
  moreover obtain m' where "guessColumns Q (m\<lparr>mHasHeaderRow := b\<rparr>) = Inr m'" by (simp add: guessColumns_eq)
  moreover have "importer_inv m'" using guessColumns_inv[OF calculation(2)] assms by simp
  ultimately show thesis using that by simp
qed

lemma columnSetters_inv:
  "f \<in> set columnSetters \<Longrightarrow> importer_inv m \<Longrightarrow> (\<forall>c. val = Some c \<longrightarrow> c < columnCount (mReader m)) \<Longrightarrow> importer_inv (f val m)"
  by (auto simp: columnSetters_def importer_inv_def columnsOf_def setFirstNameColumn_def setLastNameColumn_def setAgeColumn_def
      setRankColumn_def setClubColumn_def setWeightColumn_def setCountryColumn_def setSexColumn_def setCategoryColumn_def)

lemma importer_reachable_inv: "importer_reachable Q m \<Longrightarrow> importer_inv m"
proof (induction rule: importer_reachable.induct)
  case (opened content m)
  let ?m = "\<lparr>mReader = newCSVReader Q (Some content), mHasHeaderRow = False, mColumnsManuallySet = False, mFirstNameColumn = None,
     mLastNameColumn = None, mAgeColumn = None, mRankColumn = None, mClubColumn = None, mWeightColumn = None,
     mCountryColumn = None, mSexColumn = None, mCategoryColumn = None\<rparr>"
  obtain m' where "bindE (guessHasHeaderRow Q ?m) (guessColumns Q) = Inr m'" and "importer_inv m'"
    by (rule guess_total[of ?m]) simp_all
  with opened show ?case by (simp add: newPlayerTableImporter_def)
next
  case (header m val m')
  then show ?case by (auto simp: setHasHeaderRow_def Let_def importer_inv_def columnsOf_def dest!: guessColumns_inv split: if_splits)
next
  case (delimiter m del m')
  let ?m = "m\<lparr>mReader := csv_setDelimiter Q del (mReader m)\<rparr>"
  obtain m'' where "bindE (guessHasHeaderRow Q ?m) (guessColumns Q) = Inr m''" and "importer_inv m''"
    by (rule guess_total[of ?m]) simp_all
  with delimiter show ?case by (simp add: importer_setDelimiter_def Let_def)
qed (rule columnSetters_inv)

text \<open>No text is the header of two fields, so the columns are guessed independently of each other.\<close>

lemmas header_defs = isFirstNameHeader_def isLastNameHeader_def isAgeHeader_def isRankHeader_def isClubHeader_def isWeightHeader_def
  isCountryHeader_def isSexHeader_def isCategoryHeader_def

definition headerKind :: "QString \<Rightarrow> nat option" where
  "headerKind = map_of [(''first name'', 0), (''firstname'', 0), (''last name'', 1), (''lastname'', 1), (''age'', 2), (''rank'', 3),
     (''belt'', 3), (''club'', 4), (''weight'', 5), (''country'', 6), (''nation'', 6), (''sex'', 7), (''gender'', 7), (''category'', 8)]"

lemma headerKind_values:
  "headerKind ''first name'' = Some 0" "headerKind ''firstname'' = Some 0" "headerKind ''last name'' = Some 1"
  "headerKind ''lastname'' = Some 1" "headerKind ''age'' = Some 2" "headerKind ''rank'' = Some 3" "headerKind ''belt'' = Some 3"
  "headerKind ''club'' = Some 4" "headerKind ''weight'' = Some 5" "headerKind ''country'' = Some 6" "headerKind ''nation'' = Some 6"
  "headerKind ''sex'' = Some 7" "headerKind ''gender'' = Some 7" "headerKind ''category'' = Some 8"
  unfolding headerKind_def by simp_all

lemma header_kind:
  "isFirstNameHeader Q cell \<Longrightarrow> headerKind (toLower Q cell) = Some 0"
  "isLastNameHeader Q cell \<Longrightarrow> headerKind (toLower Q cell) = Some 1"
  "isAgeHeader Q cell \<Longrightarrow> headerKind (toLower Q cell) = Some 2"
  "isRankHeader Q cell \<Longrightarrow> headerKind (toLower Q cell) = Some 3"
  "isClubHeader Q cell \<Longrightarrow> headerKind (toLower Q cell) = Some 4"
  "isWeightHeader Q cell \<Longrightarrow> headerKind (toLower Q cell) = Some 5"
  "isCountryHeader Q cell \<Longrightarrow> headerKind (toLower Q cell) = Some 6"
  "isSexHeader Q cell \<Longrightarrow> headerKind (toLower Q cell) = Some 7"
  "isCategoryHeader Q cell \<Longrightarrow> headerKind (toLower Q cell) = Some 8"
  by (auto simp: header_defs headerKind_values)

lemma header_other:
  "headerKind (toLower Q cell) = Some k \<Longrightarrow>
   (k \<noteq> 0 \<longrightarrow> \<not> isFirstNameHeader Q cell) \<and> (k \<noteq> 1 \<longrightarrow> \<not> isLastNameHeader Q cell) \<and> (k \<noteq> 2 \<longrightarrow> \<not> isAgeHeader Q cell) \<and>
   (k \<noteq> 3 \<longrightarrow> \<not> isRankHeader Q cell) \<and> (k \<noteq> 4 \<longrightarrow> \<not> isClubHeader Q cell) \<and> (k \<noteq> 5 \<longrightarrow> \<not> isWeightHeader Q cell) \<and>
   (k \<noteq> 6 \<longrightarrow> \<not> isCountryHeader Q cell) \<and> (k \<noteq> 7 \<longrightarrow> \<not> isSexHeader Q cell) \<and> (k \<noteq> 8 \<longrightarrow> \<not> isCategoryHeader Q cell)"
  using header_kind[of Q cell] by auto

lemma guessColumn_hit:
  "isFirstNameHeader Q cell \<Longrightarrow> mFirstNameColumn (guessColumn Q c cell m) = (if mFirstNameColumn m = None then Some c else mFirstNameColumn m)"
  "isLastNameHeader Q cell \<Longrightarrow> mLastNameColumn (guessColumn Q c cell m) = (if mLastNameColumn m = None then Some c else mLastNameColumn m)"
  "isAgeHeader Q cell \<Longrightarrow> mAgeColumn (guessColumn Q c cell m) = (if mAgeColumn m = None then Some c else mAgeColumn m)"
  "isRankHeader Q cell \<Longrightarrow> mRankColumn (guessColumn Q c cell m) = (if mRankColumn m = None then Some c else mRankColumn m)"
  "isClubHeader Q cell \<Longrightarrow> mClubColumn (guessColumn Q c cell m) = (if mClubColumn m = None then Some c else mClubColumn m)"
  "isWeightHeader Q cell \<Longrightarrow> mWeightColumn (guessColumn Q c cell m) = (if mWeightColumn m = None then Some c else mWeightColumn m)"
  "isCountryHeader Q cell \<Longrightarrow> mCountryColumn (guessColumn Q c cell m) = (if mCountryColumn m = None then Some c else mCountryColumn m)"
  "isSexHeader Q cell \<Longrightarrow> mSexColumn (guessColumn Q c cell m) = (if mSexColumn m = None then Some c else mSexColumn m)"
  "isCategoryHeader Q cell \<Longrightarrow> mCategoryColumn (guessColumn Q c cell m) = (if mCategoryColumn m = None then Some c else mCategoryColumn m)"
  by (frule header_kind, drule header_other, simp add: guessColumn_def)+

lemma guessColumn_miss:
  "\<not> isFirstNameHeader Q cell \<Longrightarrow> mFirstNameColumn (guessColumn Q c cell m) = mFirstNameColumn m"
  "\<not> isLastNameHeader Q cell \<Longrightarrow> mLastNameColumn (guessColumn Q c cell m) = mLastNameColumn m"
  "\<not> isAgeHeader Q cell \<Longrightarrow> mAgeColumn (guessColumn Q c cell m) = mAgeColumn m"
  "\<not> isRankHeader Q cell \<Longrightarrow> mRankColumn (guessColumn Q c cell m) = mRankColumn m"
  "\<not> isClubHeader Q cell \<Longrightarrow> mClubColumn (guessColumn Q c cell m) = mClubColumn m"
  "\<not> isWeightHeader Q cell \<Longrightarrow> mWeightColumn (guessColumn Q c cell m) = mWeightColumn m"
  "\<not> isCountryHeader Q cell \<Longrightarrow> mCountryColumn (guessColumn Q c cell m) = mCountryColumn m"
  "\<not> isSexHeader Q cell \<Longrightarrow> mSexColumn (guessColumn Q c cell m) = mSexColumn m"
  "\<not> isCategoryHeader Q cell \<Longrightarrow> mCategoryColumn (guessColumn Q c cell m) = mCategoryColumn m"
  by (simp_all add: guessColumn_def)

lemma find_of_append: "find P (xs @ ys) = (case find P xs of None \<Rightarrow> find P ys | Some x \<Rightarrow> Some x)"
  by (induction xs) auto

lemma guessed_field:
  assumes "\<And>c cell m. P cell \<Longrightarrow> col (guessColumn Q c cell m) = (if col m = None then Some c else col m)"
    and "\<And>c cell m. \<not> P cell \<Longrightarrow> col (guessColumn Q c cell m) = col m" and "col m = None"
  shows "col (guessFrom Q r [0..<n] m) = find (\<lambda>c. P (headerCells r ! c)) [0..<n]"
  by (induction n) (auto simp: guessFrom_def assms find_of_append split: option.splits)

lemma guessed_columns:
  assumes "guessColumns Q m = Inr m'" and "mHasHeaderRow m" and "0 < columnCount (mReader m)" and "0 < rowCount (mReader m)"
  defines "guessed P \<equiv> find (\<lambda>c. P Q (headerCells (mReader m) ! c)) [0..<columnCount (mReader m)]"
  shows "columnsOf m' = map guessed [isFirstNameHeader, isLastNameHeader, isAgeHeader, isRankHeader, isClubHeader, isWeightHeader,
    isCountryHeader, isSexHeader, isCategoryHeader]"
proof -
  have m': "m' = guessFrom Q (mReader m) [0..<columnCount (mReader m)] (resetColumns m)"
    using assms(1-4) by (simp add: guessColumns_eq)
  note field = guessed_field[where r = "mReader m" and n = "columnCount (mReader m)" and m = "resetColumns m"]
  show ?thesis
    unfolding m' columnsOf_def guessed_def list.map
    by (intro list.inject[THEN iffD2] conjI refl field guessColumn_hit guessColumn_miss) (simp_all add: resetColumns_def)
qed

subsection \<open>What an import adds\<close>

definition cellAt :: "QString list \<Rightarrow> nat option \<Rightarrow> QString" where
  "cellAt row column = (case column of None \<Rightarrow> '''' | Some c \<Rightarrow> if c < length row then row ! c else '''')"

definition parsed :: "(QString \<Rightarrow> 'v result) \<Rightarrow> QString list \<Rightarrow> nat option \<Rightarrow> 'v option" where
  "parsed fromHumanString row column =
     (if column = None then None else case fromHumanString (cellAt row column) of Inl _ \<Rightarrow> None | Inr v \<Rightarrow> Some v)"

text \<open>The player that a row of the table stands for: texts as they are, other fields if they can be read.\<close>

definition importedPlayer :: "Qt \<Rightarrow> PlayerTableImporter \<Rightarrow> QString list \<Rightarrow> PlayerFields" where
  "importedPlayer Q m row =
     \<lparr>firstName = cellAt row (mFirstNameColumn m), lastName = cellAt row (mLastNameColumn m),
      age = parsed (age_fromHumanString Q) row (mAgeColumn m), rank = parsed (rank_fromHumanString Q) row (mRankColumn m),
      club = cellAt row (mClubColumn m), weight = parsed (weight_fromHumanString Q) row (mWeightColumn m),
      country = parsed (country_fromHumanString Q) row (mCountryColumn m), sex = parsed (sex_fromHumanString Q) row (mSexColumn m),
      blueJudogiHint = False\<rparr>"

definition importedCategory :: "PlayerTableImporter \<Rightarrow> QString list \<Rightarrow> string option" where
  "importedCategory m row = (let name = cellAt row (mCategoryColumn m) in if name = [] then None else Some name)"

definition importedRows :: "PlayerTableImporter \<Rightarrow> QString list list" where
  "importedRows m = drop (if mHasHeaderRow m then 1 else 0) (mTable (mReader m))"

definition agesInRange :: "Qt \<Rightarrow> PlayerTableImporter \<Rightarrow> bool" where
  "agesInRange Q m \<longleftrightarrow> (\<forall>row \<in> set (importedRows m). age_fromHumanString Q (cellAt row (mAgeColumn m)) \<noteq> Inl UndefinedBehaviour)"

lemma firstNamed_error: "firstNamed Q strings str vs = Inl e \<Longrightarrow> e = InvalidArgument"
  by (induction vs) (auto split: if_splits)

lemma fromHumanString_errors:
  "rank_fromHumanString Q str = Inl e \<Longrightarrow> e = InvalidArgument"
  "sex_fromHumanString Q str = Inl e \<Longrightarrow> e = InvalidArgument"
  "country_fromHumanString Q str = Inl e \<Longrightarrow> e = InvalidArgument"
  "weight_fromHumanString Q str = Inl e \<Longrightarrow> e = InvalidArgument"
  by (auto simp: rank_fromHumanString_def sex_fromHumanString_def country_fromHumanString_def weight_fromHumanString_def
      matchString_def StringToFloat_def newPlayerWeight_def Let_def bindE_eq_Inl dest: firstNamed_error
      split: if_splits option.splits QFloat.splits)

lemma age_fromHumanString_error: "age_fromHumanString Q str = Inl e \<Longrightarrow> e = InvalidArgument \<or> e = UndefinedBehaviour"
  by (auto simp: age_fromHumanString_def numberStringToAge_def stringToInt_def float_to_int_def newPlayerAge_def Let_def bindE_eq_Inl
      split: if_splits option.splits QFloat.splits)

lemma tryE_eq: "(\<And>e. r = Inl e \<Longrightarrow> e = InvalidArgument) \<Longrightarrow> tryE r = Inr (case r of Inl _ \<Rightarrow> None | Inr v \<Rightarrow> Some v)"
  by (cases r) (auto simp: tryE_def)

lemma csv_get_cellAt:
  "row < rowCount r \<Longrightarrow> c < columnCount r \<Longrightarrow> csv_get r row c = Inr (cellAt (mTable r ! row) (Some c))"
  by (simp add: csv_get_Inr cellAt_def)

lemma parseText_eq:
  "row < rowCount (mReader m) \<Longrightarrow> (\<forall>c. column = Some c \<longrightarrow> c < columnCount (mReader m)) \<Longrightarrow>
   parseText m row column = Inr (cellAt (mTable (mReader m) ! row) column)"
  by (cases column) (simp_all add: parseText_def csv_get_cellAt cellAt_def)

lemma parseValue_eq:
  "row < rowCount (mReader m) \<Longrightarrow> (\<forall>c. column = Some c \<longrightarrow> c < columnCount (mReader m)) \<Longrightarrow>
   (\<And>e. f (cellAt (mTable (mReader m) ! row) column) = Inl e \<Longrightarrow> e = InvalidArgument) \<Longrightarrow>
   parseValue f m row column = Inr (parsed f (mTable (mReader m) ! row) column)"
  by (cases column) (auto simp: parseValue_def csv_get_cellAt parsed_def tryE_eq)

lemma parseRow_eq:
  assumes inv: "importer_inv m" and row: "row < rowCount (mReader m)"
    and age: "age_fromHumanString Q (cellAt (mTable (mReader m) ! row) (mAgeColumn m)) \<noteq> Inl UndefinedBehaviour"
  shows "parseRow Q m row = Inr (importedPlayer Q m (mTable (mReader m) ! row), importedCategory m (mTable (mReader m) ! row))"
proof -
  have cols: "\<forall>c. column = Some c \<longrightarrow> c < columnCount (mReader m)" if "column \<in> set (columnsOf m)" for column
    using inv that by (auto simp: importer_inv_def)
  have ages: "e = InvalidArgument" if "age_fromHumanString Q (cellAt (mTable (mReader m) ! row) (mAgeColumn m)) = Inl e" for e
    using age age_fromHumanString_error[OF that] that by auto
  note fields = parseText_eq[OF row cols] parseValue_eq[OF row cols]
  show ?thesis
    by (simp add: parseRow_def fields columnsOf_def ages fromHumanString_errors importedPlayer_def importedCategory_def Let_def)
qed

lemma collectE_eq: "(\<And>x. x \<in> set xs \<Longrightarrow> f x = Inr (g x)) \<Longrightarrow> collectE f xs = Inr (map g xs)"
  by (induction xs) auto

lemma parseRows_eq:
  assumes "importer_inv m" and "agesInRange Q m"
  shows "parseRows Q m = Inr (map (\<lambda>row. (importedPlayer Q m row, importedCategory m row)) (importedRows m))"
proof -
  let ?k = "if mHasHeaderRow m then 1 else 0"
  have rows: "importedRows m = map ((!) (mTable (mReader m))) [?k..<rowCount (mReader m)]"
    by (rule nth_equalityI) (auto simp: importedRows_def rowCount_def)
  have "collectE (parseRow Q m) [?k..<rowCount (mReader m)] =
    Inr (map (\<lambda>row. (importedPlayer Q m (mTable (mReader m) ! row), importedCategory m (mTable (mReader m) ! row))) [?k..<rowCount (mReader m)])"
    using assms by (intro collectE_eq parseRow_eq) (auto simp: agesInRange_def rows)
  then show ?thesis by (simp add: parseRows_def rows comp_def)
qed

text \<open>The identifier of every name belongs to a category of that name: one that exists, or one that the action creates.\<close>

lemma createOrGetCategoryIds_names:
  "createOrGetCategoryIds t names eng = Inr (ids, new, eng') \<Longrightarrow>
   map fst ids = names \<and> (\<forall>(name, i) \<in> set ids. getCategoryByName name t = Some i \<or> (i, name) \<in> set new) \<and>
   (\<forall>(i, name) \<in> set new. name \<in> set names \<and> getCategoryByName name t = None \<and> \<not> containsCategory i t)"
proof (induction names arbitrary: eng ids new eng')
  case (Cons name names)
  show ?case
  proof (cases "getCategoryByName name t")
    case None
    with Cons.prems obtain i eng1 ids1 new1 where g: "generate (\<lambda>i. containsCategory i t) eng = Some (i, eng1)"
      and rest: "createOrGetCategoryIds t names eng1 = Inr (ids1, new1, eng')"
      and eqs: "ids = (name, i) # ids1" "new = (i, name) # new1"
      by (auto split: option.splits)
    from generate_fresh[OF g] Cons.IH[OF rest] None show ?thesis by (auto simp: eqs)
  next
    case (Some i)
    with Cons.prems obtain ids1 where rest: "createOrGetCategoryIds t names eng = Inr (ids1, new, eng')" and eqs: "ids = (name, i) # ids1"
      by auto
    from Cons.IH[OF rest] Some show ?thesis by (auto simp: eqs)
  qed
qed simp

lemma createOrGetCategoryIds_error: "createOrGetCategoryIds t names eng = Inl e \<Longrightarrow> e = Diverges"
  by (induction names arbitrary: eng) (auto simp: bindE_eq_Inl split: option.splits)

lemma getUniqueCategoryNames_set [simp]: "set (getUniqueCategoryNames names) = {name. Some name \<in> set names}"
  by (force simp: getUniqueCategoryNames_def List.map_filter_def)

lemma map_of_names: "map fst ids = names \<Longrightarrow> name \<in> set names \<Longrightarrow> \<exists>i. map_of ids name = Some i \<and> (name, i) \<in> set ids"
  by (metis map_of_SomeD map_of_eq_None_iff not_None_eq set_map)

lemma newAction_total:
  assumes "set (order (getUniqueCategoryNames cs)) = set (getUniqueCategoryNames cs)" and "length cs = length fs"
    and "newAddPlayersWithCategoriesAction order seed t fs cs eng = r"
  shows "r = Inl Diverges \<or> (\<exists>a eng' ids. r = Inr (a, eng') \<and> fresh_ids (\<lambda>i. containsPlayer i t) ids \<and> length ids = length fs \<and>
    mImportPlayers a = \<lparr>mNewPlayerIds = ids, mNewPlayerFields = fs\<rparr> \<and> length (mPlayerCategoryIds a) = length fs \<and>
    (\<forall>k < length fs. case cs ! k of
       None \<Rightarrow> mPlayerCategoryIds a ! k = None
     | Some name \<Rightarrow> \<exists>i. mPlayerCategoryIds a ! k = Some i \<and> (getCategoryByName name t = Some i \<or> (i, name) \<in> set (mNewCategories a))) \<and>
    (\<forall>(i, name) \<in> set (mNewCategories a). Some name \<in> set cs \<and> getCategoryByName name t = None \<and> \<not> containsCategory i t) \<and>
    mAddCategoryActions a = [] \<and> mAddPlayersToCategoryActions a = [])"
proof (cases "generateMultiple (\<lambda>i. containsPlayer i t) (length fs) eng")
  case None
  with assms(3) show ?thesis by (simp add: newAddPlayersWithCategoriesAction_def)
next
  case (Some p)
  obtain ids eng1 where p: "p = (ids, eng1)" by force
  have fresh: "fresh_ids (\<lambda>i. containsPlayer i t) ids" "length ids = length fs"
    using generateMultiple_loop_fresh[of "\<lambda>i. containsPlayer i t" "length fs" "[]" eng ids eng1] Some
    by (simp_all add: p generateMultiple_def fresh_ids_def)
  show ?thesis
  proof (cases "createOrGetCategoryIds t (order (getUniqueCategoryNames cs)) eng1")
    case (Inl e)
    with assms(3) Some createOrGetCategoryIds_error[OF Inl] show ?thesis
      by (simp add: p newAddPlayersWithCategoriesAction_def)
  next
    case (Inr q)
    obtain categoryIds new eng2 where q: "q = (categoryIds, new, eng2)" by (cases q)
    note names = createOrGetCategoryIds_names[OF Inr[unfolded q]]
    define g where "g k = (case cs ! k of None \<Rightarrow> None | Some name \<Rightarrow> map_of categoryIds name)" for k
    have lookup: "\<exists>i. map_of categoryIds name = Some i \<and> (getCategoryByName name t = Some i \<or> (i, name) \<in> set new)"
      if "k < length cs" "cs ! k = Some name" for k name
      using map_of_names[OF names[THEN conjunct1], of name] names that nth_mem[OF that(1)] assms(1) by fastforce
    have "collectE (\<lambda>i. bindE (nthE cs i) (\<lambda>c. case c of None \<Rightarrow> Inr None
        | Some name \<Rightarrow> (case map_of categoryIds name of None \<Rightarrow> Inl OutOfRange | Some j \<Rightarrow> Inr (Some j)))) [0..<length fs] =
      Inr (map g [0..<length fs])"
    proof (rule collectE_eq)
      fix k
      assume "k \<in> set [0..<length fs]"
      then show "bindE (nthE cs k) (\<lambda>c. case c of None \<Rightarrow> Inr None
        | Some name \<Rightarrow> (case map_of categoryIds name of None \<Rightarrow> Inl OutOfRange | Some j \<Rightarrow> Inr (Some j))) = Inr (g k)"
        using lookup[of k] assms(2) by (cases "cs ! k") (auto simp: nthE_Inr g_def)
    qed
    then have r: "r = Inr (\<lparr>mImportPlayers = \<lparr>mNewPlayerIds = ids, mNewPlayerFields = fs\<rparr>, mPlayerCategoryIds = map g [0..<length fs],
        mNewCategories = new, mImportSeed = seed, mAddCategoryActions = [], mAddPlayersToCategoryActions = []\<rparr>, eng2)"
      using assms(3) Some Inr fresh by (simp add: p q newAddPlayersWithCategoriesAction_def newAddPlayersAction_def)
    have "\<forall>k < length fs. case cs ! k of None \<Rightarrow> g k = None
      | Some name \<Rightarrow> \<exists>i. g k = Some i \<and> (getCategoryByName name t = Some i \<or> (i, name) \<in> set new)"
      using lookup assms(2) by (simp add: g_def split: option.split)
    with r fresh names assms(1) show ?thesis by (auto split: option.splits)
  qed
qed

lemma addPlayers_fold:
  assumes "distinct ids" and "length ids = length fs" and "\<forall>i \<in> set ids. mPlayers t i = None"
  shows "foldE (\<lambda>(i, fs). addPlayer (newPlayerStore i fs)) (zip ids fs) t =
    Inr (t\<lparr>mPlayers := mPlayers t ++ map_of (zip ids (map2 newPlayerStore ids fs))\<rparr>)"
  using assms(2,1,3)
proof (induction ids fs arbitrary: t rule: list_induct2)
  case (Cons i ids f fs)
  let ?t = "t\<lparr>mPlayers := (mPlayers t)(i \<mapsto> newPlayerStore i f)\<rparr>"
  have "i \<notin> dom (map_of (zip ids (map2 newPlayerStore ids fs)))"
    using Cons.prems(1) by (auto simp: dom_map_of_conv_image_fst dest: set_zip_leftD)
  then have "(mPlayers t)(i \<mapsto> newPlayerStore i f) ++ map_of (zip ids (map2 newPlayerStore ids fs)) =
    (mPlayers t ++ map_of (zip ids (map2 newPlayerStore ids fs)))(i \<mapsto> newPlayerStore i f)"
    by (rule map_add_upd_left)
  moreover have "addPlayer (newPlayerStore i f) t = Inr ?t"
    using Cons.prems by (simp add: addPlayer_def newPlayerStore_def)
  moreover have "foldE (\<lambda>(i, fs). addPlayer (newPlayerStore i fs)) (zip ids fs) ?t =
    Inr (?t\<lparr>mPlayers := mPlayers ?t ++ map_of (zip ids (map2 newPlayerStore ids fs))\<rparr>)"
    using Cons.prems by (intro Cons.IH) auto
  ultimately show ?case by (simp only: zip_Cons_Cons foldE.simps list.map map_of.simps bindE_simps map_add_upd) (simp add: fun_upd_def)
qed simp

lemma no_categories: "list_all (\<lambda>c. c = None) (mPlayerCategoryIds a) \<Longrightarrow> categoryPlayers a = []"
  by (auto simp: categoryPlayers_def Let_def list_all_iff dest!: set_zip_leftD)


definition exampleReader :: CSVReader where
  "exampleReader = newCSVReader exampleQt (Some (csvText (CHR '','') exampleTable))"

definition exampleImporter :: PlayerTableImporter where
  "exampleImporter = \<lparr>mReader = exampleReader, mHasHeaderRow = True, mColumnsManuallySet = False, mFirstNameColumn = Some 0,
     mLastNameColumn = None, mAgeColumn = Some 1, mRankColumn = Some 2, mClubColumn = None, mWeightColumn = None,
     mCountryColumn = None, mSexColumn = None, mCategoryColumn = None\<rparr>"

lemma exampleImporter_opened: "newPlayerTableImporter exampleQt exampleReader = Inr exampleImporter"
  by code_simp

lemma exampleImporter_rows: "importedRows exampleImporter = tl exampleTable"
  by code_simp


text \<open>A change of the delimiter after a column was chosen can leave the column outside the table; the import then violates an assertion.\<close>

lemma delimiter_change_breaks_import:
  "case importer_setDelimiter exampleQt (CHR '';'') (setRankColumn (Some 2) exampleImporter) of
     Inr m \<Rightarrow> parseRows exampleQt m = Inl AssertionFailed | Inl _ \<Rightarrow> False"
  by code_simp

text \<open>A cell that Qt reads as a number beyond the integers has no defined age.\<close>

lemma huge_age_undefined:
  "systemToFloat Q str = Some NotFinite \<or> systemToFloat Q str = Some (Finite v) \<and> v \<ge> 2 ^ 31 \<Longrightarrow>
   age_fromHumanString Q str = Inl UndefinedBehaviour"
  by (auto simp: age_fromHumanString_def numberStringToAge_def stringToInt_def float_to_int_def Let_def floor_less_iff)

text \<open>Headers of ranks and categories do not count towards the two matches that make a header row.\<close>

lemma rank_and_category_headers_not_counted:
  "isRankHeader Q cell \<or> isCategoryHeader Q cell \<Longrightarrow> \<not> isGuessedHeader Q cell"
  by (erule disjE; drule header_kind, drule header_other, simp add: isGuessedHeader_def)

text \<open>A first line without any delimiter gives the last delimiter of the list.\<close>

lemma guessDelimiter_none: "set line \<inter> set listDelimiters = {} \<Longrightarrow> guessDelimiter line = CHR 0x09"
  by (simp add: guessDelimiter_def listDelimiters_def count_list_0_iff Let_def)

end
