(* ===== verification/Store_Manager.thy ===== *)
theory Store_Manager
  imports Field_Actions
begin

section \<open>The store manager\<close>

text \<open>
  Models \<^verbatim>\<open>src/core/actions/action.cpp\<close>, \<^verbatim>\<open>src/ui/store_managers/store_manager.cpp\<close> and the undo interface of
  \<^verbatim>\<open>client_store_manager.cpp\<close> and \<^verbatim>\<open>master_store_manager.cpp\<close>: the replicated tournament of a client, with the
  actions that the server has confirmed, the actions that it has not, and the undos that it has not.

  An action is an object with the virtual methods \<^verbatim>\<open>redoImpl\<close>, \<^verbatim>\<open>undoImpl\<close> and \<^verbatim>\<open>freshClone\<close>, which are the
  record \<open>ActionInterface\<close> here, and the flag \<^verbatim>\<open>mDone\<close> that \<^verbatim>\<open>Action::redo\<close> and \<^verbatim>\<open>Action::undo\<close> keep. The maps
  from identifiers to list positions, \<^verbatim>\<open>mConfirmedActionMap\<close> and \<^verbatim>\<open>mUnconfirmedActionMap\<close>, are caches of the
  lists and are read off them. Signals are not modelled; the messages posted to the network interface are
  collected in \<open>mPosted\<close>.

  The locale \<open>revertible_actions\<close> is the contract of the actions that the manager relies on; it is interpreted
  for the actions of the theory \<open>Field_Actions\<close>.
\<close>

subsection \<open>Actions\<close>

record ('a, 't) ActionInterface =
  redoImpl :: "'a \<Rightarrow> 't \<Rightarrow> ('a \<times> 't) result"
  undoImpl :: "'a \<Rightarrow> 't \<Rightarrow> ('a \<times> 't) result"
  freshCloneImpl :: "'a \<Rightarrow> 'a"

datatype 'a Action = Action (isDone: bool) (impl: 'a)

definition action_redo :: "('a, 't) ActionInterface \<Rightarrow> 'a Action \<Rightarrow> 't \<Rightarrow> ('a Action \<times> 't) result" where
  "action_redo I a t =
     (if isDone a then Inl (ActionExecutionException ''The action has already been executed.'')
      else bindE (redoImpl I (impl a) t) (\<lambda>(x, t'). Inr (Action True x, t')))"

definition action_undo :: "('a, 't) ActionInterface \<Rightarrow> 'a Action \<Rightarrow> 't \<Rightarrow> ('a Action \<times> 't) result" where
  "action_undo I a t =
     (if \<not> isDone a then Inl (ActionExecutionException ''The action has not been executed.'')
      else bindE (undoImpl I (impl a) t) (\<lambda>(x, t'). Inr (Action False x, t')))"

definition freshClone :: "('a, 't) ActionInterface \<Rightarrow> 'a Action \<Rightarrow> 'a Action" where
  "freshClone I a = Action False (freshCloneImpl I (impl a))"

subsection \<open>State\<close>

type_synonym 'a ActionList = "(ClientActionId \<times> 'a Action) list"

datatype ('a, 't) Message = PostAction ClientActionId "'a Action" | PostUndo ClientActionId | PostSync 't

record ('a, 't) StoreManager =
  mClientId :: ClientId
  mTournament :: 't
  mConfirmedActionList :: "'a ActionList"
  mUnconfirmedActionList :: "'a ActionList"
  mRedoList :: "'a Action list"
  mUnconfirmedUndos :: "ClientActionId set"
  mUndoneUnconfirmedActions :: nat
  mUndoActionId :: "ClientActionId option"
  mSyncing :: nat
  mPosted :: "('a, 't) Message list"

definition REDO_LIST_MAX_SIZE :: nat where
  "REDO_LIST_MAX_SIZE = 20"

definition MAX_ACTION_STACK_SIZE :: nat where
  "MAX_ACTION_STACK_SIZE = 100"

definition containsConfirmedAction :: "('a, 't) StoreManager \<Rightarrow> ClientActionId \<Rightarrow> bool" where
  "containsConfirmedAction m i \<longleftrightarrow> i \<in> fst ` set (mConfirmedActionList m)"

definition containsUnconfirmedAction :: "('a, 't) StoreManager \<Rightarrow> ClientActionId \<Rightarrow> bool" where
  "containsUnconfirmedAction m i \<longleftrightarrow> i \<in> fst ` set (mUnconfirmedActionList m)"

definition canUndo :: "('a, 't) StoreManager \<Rightarrow> bool" where
  "canUndo m \<longleftrightarrow> mUndoActionId m \<noteq> None"

definition canRedo :: "('a, 't) StoreManager \<Rightarrow> bool" where
  "canRedo m \<longleftrightarrow> mRedoList m \<noteq> []"

subsection \<open>Rolling action lists back and forth\<close>

text \<open>\<open>undoAll\<close> is the loop from the end of a list, \<open>redoAll\<close> the loop that skips the unconfirmed undos.\<close>

fun undoAll :: "('a, 't) ActionInterface \<Rightarrow> 'a ActionList \<Rightarrow> 't \<Rightarrow> ('a ActionList \<times> 't) result" where
  "undoAll I [] t = Inr ([], t)"
| "undoAll I ((i, a) # xs) t =
     bindE (undoAll I xs t) (\<lambda>(xs', t1).
       if isDone a then bindE (action_undo I a t1) (\<lambda>(a', t2). Inr ((i, a') # xs', t2))
       else Inr ((i, a) # xs', t1))"

fun redoAll :: "('a, 't) ActionInterface \<Rightarrow> ClientActionId set \<Rightarrow> 'a ActionList \<Rightarrow> 't \<Rightarrow> ('a ActionList \<times> 't) result" where
  "redoAll I undos [] t = Inr ([], t)"
| "redoAll I undos ((i, a) # xs) t =
     (if i \<in> undos
      then bindE (redoAll I undos xs t) (\<lambda>(xs', t1). Inr ((i, a) # xs', t1))
      else bindE (action_redo I a t) (\<lambda>(a', t1).
           bindE (redoAll I undos xs t1) (\<lambda>(xs', t2). Inr ((i, a') # xs', t2))))"

text \<open>The loop at the end of \<^verbatim>\<open>undo\<close> also skips the actions that are still done.\<close>

fun redoUndone :: "('a, 't) ActionInterface \<Rightarrow> ClientActionId set \<Rightarrow> 'a ActionList \<Rightarrow> 't \<Rightarrow> ('a ActionList \<times> 't) result" where
  "redoUndone I undos [] t = Inr ([], t)"
| "redoUndone I undos ((i, a) # xs) t =
     (if i \<in> undos \<or> isDone a
      then bindE (redoUndone I undos xs t) (\<lambda>(xs', t1). Inr ((i, a) # xs', t1))
      else bindE (action_redo I a t) (\<lambda>(a', t1).
           bindE (redoUndone I undos xs t1) (\<lambda>(xs', t2). Inr ((i, a') # xs', t2))))"

text \<open>The part of a list before the last entry with an identifier, the entry, and the part after it.\<close>

fun splitLast :: "ClientActionId \<Rightarrow> 'a ActionList \<Rightarrow> ('a ActionList \<times> 'a Action \<times> 'a ActionList) option" where
  "splitLast i [] = None"
| "splitLast i ((j, a) # xs) =
     (case splitLast i xs of
        Some (ys, b, zs) \<Rightarrow> Some ((j, a) # ys, b, zs)
      | None \<Rightarrow> if j = i then Some ([], a, xs) else None)"

subsection \<open>Operations\<close>

definition popActionListFront :: "('a, 't) StoreManager \<Rightarrow> ('a, 't) StoreManager result" where
  "popActionListFront m =
     (case mConfirmedActionList m of
        [] \<Rightarrow> Inl UndefinedBehaviour
      | (i, a) # xs \<Rightarrow>
          if \<not> isDone a then Inr m
          else Inr (m\<lparr>mUndoActionId := (if mUndoActionId m = Some i then None else mUndoActionId m),
                      mConfirmedActionList := xs\<rparr>))"

definition trimActionList :: "('a, 't) StoreManager \<Rightarrow> ('a, 't) StoreManager result" where
  "trimActionList m = (if length (mConfirmedActionList m) > MAX_ACTION_STACK_SIZE then popActionListFront m else Inr m)"

definition sm_dispatch ::
  "('a, 't) ActionInterface \<Rightarrow> 'a Action \<Rightarrow> mt19937 \<Rightarrow> ('a, 't) StoreManager \<Rightarrow> (mt19937 \<times> ('a, 't) StoreManager) result" where
  "sm_dispatch I action eng m =
     (case generate (\<lambda>r. containsConfirmedAction m (ClientActionId (mClientId m) r) \<or>
                         containsUnconfirmedAction m (ClientActionId (mClientId m) r)) eng of
        None \<Rightarrow> Inl Diverges
      | Some (r, eng') \<Rightarrow>
          let actionId = ClientActionId (mClientId m) r; clone = freshClone I action
          in bindE (action_redo I action (mTournament m)) (\<lambda>(a, t).
               Inr (eng', m\<lparr>mTournament := t, mUnconfirmedActionList := mUnconfirmedActionList m @ [(actionId, a)],
                   mUndoActionId := Some actionId, mPosted := mPosted m @ [PostAction actionId clone]\<rparr>)))"

definition sm_redo ::
  "('a, 't) ActionInterface \<Rightarrow> mt19937 \<Rightarrow> ('a, 't) StoreManager \<Rightarrow> (mt19937 \<times> ('a, 't) StoreManager) result" where
  "sm_redo I eng m = assertE (canRedo m)
     (sm_dispatch I (last (mRedoList m)) eng (m\<lparr>mRedoList := butlast (mRedoList m)\<rparr>))"

definition receiveAction ::
  "('a, 't) ActionInterface \<Rightarrow> ClientActionId \<Rightarrow> 'a Action \<Rightarrow> ('a, 't) StoreManager \<Rightarrow> ('a, 't) StoreManager result" where
  "receiveAction I actionId sharedAction m =
     (if mSyncing m > 0 then Inr m
      else bindE (undoAll I (mUnconfirmedActionList m) (mTournament m)) (\<lambda>(unconfirmed, t1).
           bindE (action_redo I (freshClone I sharedAction) t1) (\<lambda>(action, t2).
           bindE (trimActionList (m\<lparr>mConfirmedActionList := mConfirmedActionList m @ [(actionId, action)]\<rparr>)) (\<lambda>m1.
           bindE (redoAll I (mUnconfirmedUndos m) unconfirmed t2) (\<lambda>(unconfirmed', t3).
             Inr (m1\<lparr>mUnconfirmedActionList := unconfirmed', mTournament := t3\<rparr>))))))"

definition receiveActionConfirm :: "ClientActionId \<Rightarrow> ('a, 't) StoreManager \<Rightarrow> ('a, 't) StoreManager result" where
  "receiveActionConfirm actionId m =
     (if mSyncing m > 0 then Inr m
      else case mUnconfirmedActionList m of
          [] \<Rightarrow> Inl UndefinedBehaviour
        | (i, a) # rest \<Rightarrow>
            if i \<noteq> actionId then Inl (RuntimeError ''Received confirmation in wrong order'')
            else assertE (isDone a \<or> mUndoneUnconfirmedActions m > 0)
              (trimActionList (m\<lparr>mUnconfirmedActionList := rest,
                 mUndoneUnconfirmedActions := mUndoneUnconfirmedActions m - (if isDone a then 0 else 1),
                 mConfirmedActionList := mConfirmedActionList m @ [(i, a)]\<rparr>)))"

text \<open>The search for the last action of this client that is done.\<close>

definition lastOwnDone :: "ClientId \<Rightarrow> 'a ActionList \<Rightarrow> ClientActionId option" where
  "lastOwnDone client xs = map_option fst (find (\<lambda>(i, a). isDone a \<and> getClientId i = client) (rev xs))"

definition receiveUndo ::
  "('a, 't) ActionInterface \<Rightarrow> ClientActionId \<Rightarrow> ('a, 't) StoreManager \<Rightarrow> ('a, 't) StoreManager result" where
  "receiveUndo I actionId m =
     (if mSyncing m > 0 then Inr m
      else case splitLast actionId (mConfirmedActionList m) of
          None \<Rightarrow> Inl AssertionFailed
        | Some (older, a, newer) \<Rightarrow>
            bindE (undoAll I (mUnconfirmedActionList m) (mTournament m)) (\<lambda>(unconfirmed, t1).
            bindE (undoAll I newer t1) (\<lambda>(newer1, t2).
            bindE (if isDone a
                   then assertE (actionId \<notin> mUnconfirmedUndos m)
                     (bindE (action_undo I a t2) (\<lambda>(_, t3). Inr (mUnconfirmedUndos m, t3)))
                   else assertE (actionId \<in> mUnconfirmedUndos m) (Inr (mUnconfirmedUndos m - {actionId}, t2))) (\<lambda>(undos, t3).
            bindE (redoAll I undos newer1 t3) (\<lambda>(newer2, t4).
            bindE (redoAll I undos unconfirmed t4) (\<lambda>(unconfirmed', t5).
              Inr (m\<lparr>mConfirmedActionList := older @ newer2, mUnconfirmedActionList := unconfirmed', mTournament := t5,
                mUnconfirmedUndos := undos,
                mUndoActionId := (if mUndoActionId m = Some actionId then lastOwnDone (mClientId m) older
                                  else mUndoActionId m)\<rparr>)))))))"

definition receiveUndoConfirm :: "ClientActionId \<Rightarrow> ('a, 't) StoreManager \<Rightarrow> ('a, 't) StoreManager" where
  "receiveUndoConfirm actionId m =
     (if mSyncing m > 0 then m
      else m\<lparr>mUnconfirmedUndos := mUnconfirmedUndos m - {actionId},
             mConfirmedActionList := (case splitLast actionId (mConfirmedActionList m) of
                 None \<Rightarrow> mConfirmedActionList m | Some (older, _, newer) \<Rightarrow> older @ newer)\<rparr>)"

definition pushRedo :: "'a Action \<Rightarrow> 'a Action list \<Rightarrow> 'a Action list" where
  "pushRedo a xs = (let ys = xs @ [a] in if length ys > REDO_LIST_MAX_SIZE then tl ys else ys)"

text \<open>
  \<^verbatim>\<open>undo(actionId)\<close>: an unconfirmed action is reached by unrolling the unconfirmed list down to it, a confirmed
  one by unrolling the whole unconfirmed list and the confirmed list down to it.
\<close>

definition undoUnconfirmed ::
  "('a, 't) ActionInterface \<Rightarrow> ClientActionId \<Rightarrow> 'a ActionList \<times> 'a Action \<times> 'a ActionList \<Rightarrow> ('a, 't) StoreManager \<Rightarrow> ('a, 't) StoreManager result" where
  "undoUnconfirmed I actionId = (\<lambda>(older, a, newer) m.
     bindE (undoAll I ((actionId, a) # newer) (mTournament m)) (\<lambda>(undone, t1).
     bindE (redoUndone I (mUnconfirmedUndos m) (older @ undone) t1) (\<lambda>(unconfirmed, t2).
       Inr (m\<lparr>mUnconfirmedActionList := unconfirmed, mTournament := t2,
              mUndoneUnconfirmedActions := mUndoneUnconfirmedActions m + 1,
              mRedoList := pushRedo (freshClone I (snd (hd undone))) (mRedoList m),
              mUndoActionId := (if mUndoActionId m = Some actionId
                then lastOwnDone (mClientId m) (mConfirmedActionList m @ take (Suc (length older)) unconfirmed) else mUndoActionId m)\<rparr>))))"

definition undoConfirmed ::
  "('a, 't) ActionInterface \<Rightarrow> ClientActionId \<Rightarrow> 'a ActionList \<times> 'a Action \<times> 'a ActionList \<Rightarrow> ('a, 't) StoreManager \<Rightarrow> ('a, 't) StoreManager result" where
  "undoConfirmed I actionId = (\<lambda>(older, a, newer) m.
     bindE (undoAll I (mUnconfirmedActionList m) (mTournament m)) (\<lambda>(unconfirmed, t1).
     bindE (undoAll I newer t1) (\<lambda>(newer1, t2).
     assertE (isDone a) (
     bindE (action_undo I a t2) (\<lambda>(a', t3).
     bindE (redoAll I (mUnconfirmedUndos m) newer1 t3) (\<lambda>(newer2, t4).
     bindE (redoUndone I (mUnconfirmedUndos m) unconfirmed t4) (\<lambda>(unconfirmed', t5).
       Inr (m\<lparr>mConfirmedActionList := older @ (actionId, a') # newer2, mUnconfirmedActionList := unconfirmed',
              mTournament := t5, mRedoList := pushRedo (freshClone I a') (mRedoList m),
              mUndoActionId := (if mUndoActionId m = Some actionId then lastOwnDone (mClientId m) (older @ [(actionId, a')])
                else mUndoActionId m)\<rparr>))))))))"

definition sm_undoAction ::
  "('a, 't) ActionInterface \<Rightarrow> ClientActionId \<Rightarrow> ('a, 't) StoreManager \<Rightarrow> ('a, 't) StoreManager result" where
  "sm_undoAction I actionId m =
     (if \<not> containsConfirmedAction m actionId \<and> \<not> containsUnconfirmedAction m actionId then Inr m
      else let m0 = m\<lparr>mUnconfirmedUndos := insert actionId (mUnconfirmedUndos m)\<rparr>
           in bindE (case splitLast actionId (mUnconfirmedActionList m) of
                       Some s \<Rightarrow> undoUnconfirmed I actionId s m0
                     | None \<Rightarrow> (case splitLast actionId (mConfirmedActionList m) of
                                  None \<Rightarrow> Inl AssertionFailed
                                | Some s \<Rightarrow> undoConfirmed I actionId s m0)) (\<lambda>m1.
                Inr (m1\<lparr>mPosted := mPosted m1 @ [PostUndo actionId]\<rparr>)))"

definition sm_undo :: "('a, 't) ActionInterface \<Rightarrow> ('a, 't) StoreManager \<Rightarrow> ('a, 't) StoreManager result" where
  "sm_undo I m = (case mUndoActionId m of None \<Rightarrow> Inl AssertionFailed | Some i \<Rightarrow> sm_undoAction I i m)"

definition sm_sync :: "'t \<Rightarrow> ('a, 't) StoreManager \<Rightarrow> ('a, 't) StoreManager" where
  "sm_sync tournament m = m\<lparr>mSyncing := mSyncing m + 1, mTournament := tournament, mConfirmedActionList := [],
     mUnconfirmedActionList := [], mRedoList := [], mUnconfirmedUndos := {}, mUndoneUnconfirmedActions := 0,
     mPosted := mPosted m @ [PostSync tournament]\<rparr>"

text \<open>The counter is a \<^verbatim>\<open>size_t\<close>, which wraps around below zero.\<close>

definition confirmSync :: "('a, 't) StoreManager \<Rightarrow> ('a, 't) StoreManager" where
  "confirmSync m = m\<lparr>mSyncing := (if mSyncing m = 0 then 2 ^ 64 - 1 else mSyncing m - 1)\<rparr>"

record ('a, 't) SyncPayload =
  payload_tournament :: 't
  payload_confirmed :: "'a ActionList"
  payload_unconfirmed :: "'a ActionList"
  payload_undos :: "ClientActionId set"

text \<open>\<open>getId\<close> is \<^verbatim>\<open>TournamentStore::getId\<close> for the tournaments of the manager.\<close>

definition receiveSync ::
  "('t \<Rightarrow> TournamentId) \<Rightarrow> ('a, 't) SyncPayload \<Rightarrow> ('a, 't) StoreManager \<Rightarrow> ('a, 't) StoreManager result" where
  "receiveSync getId payload m = assertE (\<forall>(i, a) \<in> set (payload_unconfirmed payload). getClientId i = mClientId m)
     (Inr (m\<lparr>mRedoList := (if getId (mTournament m) \<noteq> getId (payload_tournament payload) then [] else mRedoList m),
        mTournament := payload_tournament payload,
        mConfirmedActionList := payload_confirmed payload,
        mUnconfirmedActionList := payload_unconfirmed payload,
        mUndoneUnconfirmedActions := length (filter (\<lambda>(i, a). i \<in> payload_undos payload) (payload_unconfirmed payload)),
        mUnconfirmedUndos := payload_undos payload,
        mUndoActionId := (if payload_unconfirmed payload = []
          then map_option fst (find (\<lambda>(i, a). getClientId i = mClientId m) (rev (payload_confirmed payload)))
          else Some (fst (last (payload_unconfirmed payload))))\<rparr>))"

definition newStoreManager :: "ClientId \<Rightarrow> 't \<Rightarrow> ('a, 't) StoreManager" where
  "newStoreManager client t = \<lparr>mClientId = client, mTournament = t, mConfirmedActionList = [], mUnconfirmedActionList = [],
     mRedoList = [], mUnconfirmedUndos = {}, mUndoneUnconfirmedActions = 0, mUndoActionId = None, mSyncing = 0, mPosted = []\<rparr>"

subsection \<open>What the tournament stands for\<close>

text \<open>
  An action that is not done is ready when it behaves like a fresh clone of itself; a done action is the result
  of executing a fresh clone. A tournament replays a list of actions when it results from executing the done
  ones in order. \<open>history\<close> and \<open>execute\<close> say the same without the objects.
\<close>

definition ready :: "('a, 't) ActionInterface \<Rightarrow> 'a Action \<Rightarrow> bool" where
  "ready I a \<longleftrightarrow> \<not> isDone a \<and> (\<forall>t. redoImpl I (impl a) t = redoImpl I (freshCloneImpl I (impl a)) t)"

definition executed :: "('a, 't) ActionInterface \<Rightarrow> 'a Action \<Rightarrow> 't \<Rightarrow> 't \<Rightarrow> bool" where
  "executed I a t t' \<longleftrightarrow> isDone a \<and> redoImpl I (freshCloneImpl I (impl a)) t = Inr (impl a, t')"

fun replays :: "('a, 't) ActionInterface \<Rightarrow> 'a ActionList \<Rightarrow> 't \<Rightarrow> 't \<Rightarrow> bool" where
  "replays I [] t t' \<longleftrightarrow> t = t'"
| "replays I ((i, a) # xs) t t' \<longleftrightarrow>
     (if isDone a then \<exists>t1. executed I a t t1 \<and> replays I xs t1 t' else ready I a \<and> replays I xs t t')"

definition history :: "('a, 't) ActionInterface \<Rightarrow> 'a ActionList \<Rightarrow> (ClientActionId \<times> 'a) list" where
  "history I xs = map (\<lambda>(i, a). (i, freshCloneImpl I (impl a))) (filter (isDone \<circ> snd) xs)"

definition execute :: "('a, 't) ActionInterface \<Rightarrow> (ClientActionId \<times> 'a) list \<Rightarrow> 't \<Rightarrow> 't result" where
  "execute I hs t = foldE (\<lambda>(i, a) t. bindE (redoImpl I a t) (\<lambda>(_, t'). Inr t')) hs t"

definition flags :: "'a ActionList \<Rightarrow> (ClientActionId \<times> bool) list" where
  "flags xs = map (\<lambda>(i, a). (i, isDone a)) xs"

definition labels :: "('a, 't) ActionInterface \<Rightarrow> 'a ActionList \<Rightarrow> (ClientActionId \<times> 'a) list" where
  "labels I xs = map (\<lambda>(i, a). (i, freshCloneImpl I (impl a))) xs"

definition matches_undos :: "ClientActionId set \<Rightarrow> 'a ActionList \<Rightarrow> bool" where
  "matches_undos undos xs \<longleftrightarrow> list_all (\<lambda>(i, a). isDone a \<longleftrightarrow> i \<notin> undos) xs"

lemma replays_append: "replays I (xs @ ys) t t' \<longleftrightarrow> (\<exists>t1. replays I xs t t1 \<and> replays I ys t1 t')"
proof (induction xs arbitrary: t)
  case (Cons x xs)
  then show ?case by (cases x; cases "isDone (snd x)") auto
qed simp

lemma replays_execute: "replays I xs t t' \<Longrightarrow> execute I (history I xs) t = Inr t'"
  by (induction xs arbitrary: t) (auto simp: execute_def history_def executed_def split: if_splits)

lemma splitLast_Some: "splitLast i xs = Some (ys, a, zs) \<Longrightarrow> xs = ys @ (i, a) # zs"
  by (induction i xs arbitrary: ys rule: splitLast.induct) (auto split: option.splits if_splits)

lemma splitLast_None: "splitLast i xs = None \<longleftrightarrow> i \<notin> fst ` set xs"
  by (induction i xs rule: splitLast.induct) (auto split: option.splits)

lemma labels_ids: "labels I xs = labels I ys \<Longrightarrow> map fst xs = map fst ys"
proof -
  have "map fst (labels I xs) = map fst xs" for xs by (simp add: labels_def case_prod_beta comp_def)
  then show "labels I xs = labels I ys \<Longrightarrow> map fst xs = map fst ys" by metis
qed

lemma matches_flags: "matches_undos undos xs \<Longrightarrow> flags xs = map (\<lambda>i. (i, i \<notin> undos)) (map fst xs)"
  by (auto simp: matches_undos_def flags_def list_all_iff)

lemma find_append: "find P (us @ vs) = (case find P us of None \<Rightarrow> find P vs | Some x \<Rightarrow> Some x)"
  by (induction us) auto

lemma lastOwnDone_Nil [simp]: "lastOwnDone c [] = None"
  by (simp add: lastOwnDone_def)

lemma lastOwnDone_append:
  "lastOwnDone c (xs @ ys) = (case lastOwnDone c ys of None \<Rightarrow> lastOwnDone c xs | Some j \<Rightarrow> Some j)"
  by (auto simp: lastOwnDone_def find_append split: option.split)

lemma lastOwnDone_Cons:
  "lastOwnDone c ((i, a) # xs) = (case lastOwnDone c xs of Some j \<Rightarrow> Some j
     | None \<Rightarrow> if isDone a \<and> getClientId i = c then Some i else None)"
  by (auto simp: lastOwnDone_def find_append split: option.split)

lemmas lastOwnDone_simps = lastOwnDone_append lastOwnDone_Cons

lemma lastOwnDone_in: "lastOwnDone c xs = Some i \<Longrightarrow> i \<in> fst ` set xs"
  by (induction xs) (auto simp: lastOwnDone_Cons split: option.splits if_splits)

lemma lastOwnDone_flags: "flags xs = flags ys \<Longrightarrow> lastOwnDone c xs = lastOwnDone c ys"
proof (induction xs arbitrary: ys)
  case Nil
  then show ?case by (simp add: flags_def)
next
  case (Cons x xs)
  then obtain y ys' where "ys = y # ys'" by (cases ys) (auto simp: flags_def)
  with Cons show ?case by (cases x; cases y) (auto simp: flags_def lastOwnDone_Cons split: option.splits)
qed

text \<open>Taking the entry of an identifier out of a list, or undoing it, moves the last own action back.\<close>

lemma lastOwnDone_remove:
  assumes "distinct (map fst (xs @ (i, a) # ys))" and "flags ys' = flags ys"
  shows "lastOwnDone c (xs @ ys') =
      (if lastOwnDone c (xs @ (i, a) # ys) = Some i then lastOwnDone c xs else lastOwnDone c (xs @ (i, a) # ys))"
proof -
  have "lastOwnDone c ys' = lastOwnDone c ys" by (rule lastOwnDone_flags[OF assms(2)])
  moreover have "lastOwnDone c ys \<noteq> Some i" "lastOwnDone c xs \<noteq> Some i"
    using assms(1) lastOwnDone_in[of c ys i] lastOwnDone_in[of c xs i] by auto
  ultimately show ?thesis by (auto simp: lastOwnDone_simps split: option.splits if_splits)
qed

lemma lastOwnDone_undone: "\<not> isDone a \<Longrightarrow> lastOwnDone c (xs @ (i, a) # ys) = lastOwnDone c (xs @ ys)"
  by (auto simp: lastOwnDone_simps split: option.splits)

lemma lastOwnDone_foreign: "getClientId i \<noteq> c \<Longrightarrow> lastOwnDone c (xs @ (i, a) # ys) = lastOwnDone c (xs @ ys)"
  by (auto simp: lastOwnDone_simps split: option.splits)

subsection \<open>The contract of the actions\<close>

locale revertible_actions =
  fixes I :: "('a, 't) ActionInterface"
  assumes fresh_fresh: "freshCloneImpl I (freshCloneImpl I a) = freshCloneImpl I a"
    and redo_undo: "\<exists>a' b t'. redoImpl I (freshCloneImpl I a) t = Inr (a', t') \<and> undoImpl I a' t' = Inr (b, t) \<and>
      freshCloneImpl I a' = freshCloneImpl I a \<and> freshCloneImpl I b = freshCloneImpl I a \<and>
      (\<forall>s. redoImpl I b s = redoImpl I (freshCloneImpl I a) s)"
begin

lemma ready_freshClone: "ready I (freshClone I a)"
  by (simp add: ready_def freshClone_def fresh_fresh)

lemma action_redo_ready:
  assumes "ready I a"
  shows "\<exists>a' t'. action_redo I a t = Inr (a', t') \<and> executed I a' t t' \<and>
    freshCloneImpl I (impl a') = freshCloneImpl I (impl a)"
  using assms redo_undo[of "impl a" t] by (auto simp: ready_def action_redo_def executed_def)

lemma action_undo_executed:
  assumes "executed I a t t'"
  shows "\<exists>b. action_undo I a t' = Inr (b, t) \<and> ready I b \<and> freshCloneImpl I (impl b) = freshCloneImpl I (impl a)"
proof -
  obtain a' b u where *: "redoImpl I (freshCloneImpl I (impl a)) t = Inr (a', u)" "undoImpl I a' u = Inr (b, t)"
    "freshCloneImpl I b = freshCloneImpl I (impl a)" "\<forall>s. redoImpl I b s = redoImpl I (freshCloneImpl I (impl a)) s"
    using redo_undo[of "impl a" t] by blast
  with assms have "a' = impl a" "u = t'" by (simp_all add: executed_def)
  with * assms show ?thesis by (simp add: action_undo_def executed_def ready_def)
qed

lemma undoAll_replays:
  assumes "replays I xs t t'"
  shows "\<exists>ys. undoAll I xs t' = Inr (ys, t) \<and> labels I ys = labels I xs \<and> list_all (\<lambda>(i, a). ready I a) ys"
  using assms
proof (induction xs arbitrary: t)
  case (Cons x xs)
  obtain i a where x: "x = (i, a)" by force
  show ?case
  proof (cases "isDone a")
    case True
    with Cons.prems x obtain t1 where t1: "executed I a t t1" "replays I xs t1 t'" by auto
    from Cons.IH[OF t1(2)] action_undo_executed[OF t1(1)] True x show ?thesis by (auto simp: labels_def)
  next
    case False
    with Cons.prems x Cons.IH[of t] show ?thesis by (auto simp: labels_def)
  qed
qed (simp add: labels_def)

lemma redoAll_replays:
  assumes "list_all (\<lambda>(i, a). ready I a) xs"
  shows "\<exists>ys t'. redoAll I undos xs t = Inr (ys, t') \<and> replays I ys t t' \<and> labels I ys = labels I xs \<and>
    matches_undos undos ys"
  using assms
proof (induction xs arbitrary: t)
  case (Cons x xs)
  obtain i a where x: "x = (i, a)" by force
  with Cons.prems have a: "ready I a" "list_all (\<lambda>(i, a). ready I a) xs" by simp_all
  show ?case
  proof (cases "i \<in> undos")
    case True
    with Cons.IH[OF a(2), of t] x a(1) show ?thesis by (auto simp: labels_def matches_undos_def ready_def)
  next
    case False
    from action_redo_ready[OF a(1), of t] obtain a' t1 where a': "action_redo I a t = Inr (a', t1)" "executed I a' t t1"
      "freshCloneImpl I (impl a') = freshCloneImpl I (impl a)" by blast
    moreover from a'(2) have "isDone a'" by (simp add: executed_def)
    ultimately show ?thesis using Cons.IH[OF a(2), of t1] x False by (auto simp: labels_def matches_undos_def)
  qed
qed (simp add: labels_def matches_undos_def)

lemma redoUndone_redoAll:
  assumes "list_all (\<lambda>(i, a). \<not> isDone a) ys" and "matches_undos undos xs"
  shows "redoUndone I undos (xs @ ys) t = bindE (redoAll I undos ys t) (\<lambda>(zs, t'). Inr (xs @ zs, t'))"
proof -
  have "redoUndone I undos ys t = redoAll I undos ys t"
    using assms(1) by (induction ys arbitrary: t) (auto intro!: bindE_cong)
  with assms(2) show ?thesis
  proof (induction xs)
    case Nil
    then show ?case by (cases "redoAll I undos ys t") auto
  next
    case (Cons x xs)
    then show ?case by (cases x; cases "redoAll I undos ys t") (auto simp: matches_undos_def)
  qed
qed

end

subsection \<open>Invariant\<close>

definition allActions :: "('a, 't) StoreManager \<Rightarrow> 'a ActionList" where
  "allActions m = mConfirmedActionList m @ mUnconfirmedActionList m"

definition undoneCount :: "'a ActionList \<Rightarrow> nat" where
  "undoneCount xs = length (filter (\<lambda>(i, a). \<not> isDone a) xs)"

definition sm_inv :: "('a, 't) ActionInterface \<Rightarrow> 't \<Rightarrow> ('a, 't) StoreManager \<Rightarrow> bool" where
  "sm_inv I base m \<longleftrightarrow> distinct (map fst (allActions m)) \<and> matches_undos (mUnconfirmedUndos m) (allActions m) \<and>
     mUnconfirmedUndos m \<subseteq> fst ` set (allActions m) \<and> replays I (allActions m) base (mTournament m) \<and>
     mUndoneUnconfirmedActions m = undoneCount (mUnconfirmedActionList m) \<and>
     mUndoActionId m = lastOwnDone (mClientId m) (allActions m) \<and> list_all (ready I) (mRedoList m)"

lemma undoneCount_alt: "undoneCount xs = length (filter (\<lambda>(i, d). \<not> d) (flags xs))"
  by (induction xs) (auto simp: undoneCount_def flags_def)

lemma undoneCount_flags: "flags xs = flags ys \<Longrightarrow> undoneCount xs = undoneCount ys"
  by (simp add: undoneCount_alt)

lemma flags_append [simp]: "flags (xs @ ys) = flags xs @ flags ys"
  by (simp add: flags_def)

lemma undoneCount_simps [simp]:
  "undoneCount [] = 0"
  "undoneCount ((i, a) # xs) = (if isDone a then undoneCount xs else Suc (undoneCount xs))"
  "undoneCount (xs @ ys) = undoneCount xs + undoneCount ys"
  by (simp_all add: undoneCount_def)

lemma matches_undos_simps [simp]:
  "matches_undos undos []"
  "matches_undos undos ((i, a) # xs) \<longleftrightarrow> (isDone a \<longleftrightarrow> i \<notin> undos) \<and> matches_undos undos xs"
  "matches_undos undos (xs @ ys) \<longleftrightarrow> matches_undos undos xs \<and> matches_undos undos ys"
  by (simp_all add: matches_undos_def)

text \<open>Two lists of the same identifiers that match the same set of undos have the same flags.\<close>

lemma matches_same: "matches_undos undos xs \<Longrightarrow> matches_undos undos ys \<Longrightarrow> map fst xs = map fst ys \<Longrightarrow> flags xs = flags ys"
  by (metis matches_flags)

lemma matches_undos_cong:
  "matches_undos undos xs \<Longrightarrow> (\<And>j. j \<in> fst ` set xs \<Longrightarrow> j \<in> undos \<longleftrightarrow> j \<in> undos') \<Longrightarrow> matches_undos undos' xs"
  by (force simp: matches_undos_def list_all_iff)

lemma trim_commute:
  "bindE (trimActionList m) (\<lambda>m1. Inr (m1\<lparr>mUnconfirmedActionList := u, mTournament := t\<rparr>)) =
    trimActionList (m\<lparr>mUnconfirmedActionList := u, mTournament := t\<rparr>)"
  by (auto simp: trimActionList_def popActionListFront_def split: list.split)

context revertible_actions
begin

lemma sm_inv_new: "sm_inv I t (newStoreManager client t)"
  by (simp add: sm_inv_def newStoreManager_def allActions_def)

text \<open>Trimming moves the oldest action into the base.\<close>

lemma sm_inv_trim:
  assumes "sm_inv I base m"
  shows "\<exists>m' base'. trimActionList m = Inr m' \<and> sm_inv I base' m' \<and>
    (length (mConfirmedActionList m) \<le> MAX_ACTION_STACK_SIZE \<longrightarrow> base' = base \<and> m' = m) \<and>
    (\<forall>i a xs. length (mConfirmedActionList m) > MAX_ACTION_STACK_SIZE \<longrightarrow> mConfirmedActionList m = (i, a) # xs \<longrightarrow> isDone a \<longrightarrow>
      executed I a base base' \<and> mConfirmedActionList m' = xs)"
proof (cases "mConfirmedActionList m")
  case Nil
  with assms show ?thesis by (auto simp: trimActionList_def)
next
  case (Cons x xs)
  obtain i a where x: "x = (i, a)" by force
  show ?thesis
  proof (cases "length (mConfirmedActionList m) > MAX_ACTION_STACK_SIZE \<and> isDone a")
    case False
    with Cons x assms show ?thesis by (auto simp: trimActionList_def popActionListFront_def)
  next
    case True
    let ?all = "xs @ mUnconfirmedActionList m"
    let ?m = "m\<lparr>mUndoActionId := (if mUndoActionId m = Some i then None else mUndoActionId m), mConfirmedActionList := xs\<rparr>"
    have all: "allActions m = (i, a) # ?all" using Cons x by (simp add: allActions_def)
    with assms True obtain t1 where t1: "executed I a base t1" "replays I ?all t1 (mTournament m)" by (auto simp: sm_inv_def)
    have "lastOwnDone (mClientId m) ?all = (if mUndoActionId m = Some i then None else mUndoActionId m)"
      using assms all lastOwnDone_remove[of "[]" i a ?all ?all "mClientId m"] by (simp add: sm_inv_def)
    moreover have "mUnconfirmedUndos m \<subseteq> fst ` set ?all" using assms all True by (auto simp: sm_inv_def)
    ultimately have "sm_inv I t1 ?m" using assms all t1 by (simp add: sm_inv_def allActions_def)
    with True Cons x t1(1) show ?thesis
      by (intro exI[of _ ?m] exI[of _ t1]) (simp add: trimActionList_def popActionListFront_def)
  qed
qed

lemma receiveAction_inv:
  assumes "sm_inv I base m" and "mSyncing m = 0" and "i \<notin> fst ` set (allActions m)" and "getClientId i \<noteq> mClientId m"
  shows "\<exists>a m' m'' base'. receiveAction I i sharedAction m = Inr m'' \<and> sm_inv I base m' \<and>
    trimActionList m' = Inr m'' \<and> sm_inv I base' m'' \<and>
    labels I (allActions m') = labels I (mConfirmedActionList m @ (i, a) # mUnconfirmedActionList m) \<and>
    freshCloneImpl I (impl a) = freshCloneImpl I (impl sharedAction) \<and> mUnconfirmedUndos m' = mUnconfirmedUndos m \<and>
    mConfirmedActionList m' = mConfirmedActionList m @ [(i, a)] \<and> mClientId m' = mClientId m \<and> mSyncing m' = 0 \<and> mPosted m' = mPosted m"
proof -
  let ?c = "mConfirmedActionList m" and ?u = "mUnconfirmedActionList m" and ?undos = "mUnconfirmedUndos m"
  from assms(1) obtain t1 where t1: "replays I ?c base t1" "replays I ?u t1 (mTournament m)"
    by (auto simp: sm_inv_def allActions_def replays_append)
  obtain ys where ys: "undoAll I ?u (mTournament m) = Inr (ys, t1)" "labels I ys = labels I ?u" "list_all (\<lambda>(i, a). ready I a) ys"
    using undoAll_replays[OF t1(2)] by blast
  obtain a t2 where a: "action_redo I (freshClone I sharedAction) t1 = Inr (a, t2)" "executed I a t1 t2"
    "freshCloneImpl I (impl a) = freshCloneImpl I (impl sharedAction)"
    using action_redo_ready[OF ready_freshClone, of sharedAction t1] by (auto simp: freshClone_def fresh_fresh)
  obtain zs t3 where zs: "redoAll I ?undos ys t2 = Inr (zs, t3)" "replays I zs t2 t3" "labels I zs = labels I ys" "matches_undos ?undos zs"
    using redoAll_replays[OF ys(3)] by blast
  let ?m = "m\<lparr>mConfirmedActionList := ?c @ [(i, a)], mUnconfirmedActionList := zs, mTournament := t3\<rparr>"
  have ids: "map fst zs = map fst ?u" using labels_ids[of I zs ?u] zs(3) ys(2) by simp
  then have set: "fst ` set zs = fst ` set ?u" by (metis set_map)
  have flags: "flags zs = flags ?u" using matches_same[OF zs(4) _ ids] assms(1) by (simp add: sm_inv_def allActions_def)
  have "i \<notin> ?undos" "isDone a" using assms(1,3) a(2) by (auto simp: sm_inv_def executed_def)
  moreover have "lastOwnDone (mClientId m) (allActions ?m) = lastOwnDone (mClientId m) (allActions m)"
    using lastOwnDone_foreign[OF assms(4), of ?c a zs] lastOwnDone_flags[of "?c @ zs" "?c @ ?u"] flags
    by (simp add: allActions_def)
  moreover have "replays I (allActions ?m) base t3"
    using t1(1) a(2) zs(2) \<open>isDone a\<close> by (auto simp: allActions_def replays_append)
  ultimately have "sm_inv I base ?m"
    using assms(1,3) zs(4) ids set undoneCount_flags[OF flags] by (simp add: sm_inv_def allActions_def) blast
  moreover have "receiveAction I i sharedAction m = trimActionList ?m"
    using assms(2) ys(1) a(1) zs(1) by (simp add: receiveAction_def trim_commute)
  moreover have "labels I (allActions ?m) = labels I (?c @ (i, a) # ?u)"
    using zs(3) ys(2) by (simp add: labels_def allActions_def)
  moreover from calculation(1) obtain m'' base' where "trimActionList ?m = Inr m''" "sm_inv I base' m''"
    using sm_inv_trim by blast
  ultimately show ?thesis using a(3) assms(2)
    by - (rule exI[of _ a], rule exI[of _ ?m], rule exI[of _ m''], rule exI[of _ base'], simp)
qed

lemma dispatch_inv:
  assumes "sm_inv I base m" and "ready I a" and "sm_dispatch I a eng m = Inr (eng', m')"
  shows "sm_inv I base m' \<and> (\<exists>i a'. allActions m' = allActions m @ [(i, a')] \<and> i \<notin> fst ` set (allActions m) \<and>
    isDone a' \<and> freshCloneImpl I (impl a') = freshCloneImpl I (impl a) \<and> mUndoActionId m' = Some i \<and> mClientId m' = mClientId m)"
proof -
  from assms(3) obtain r where r: "generate (\<lambda>r. containsConfirmedAction m (ClientActionId (mClientId m) r) \<or>
      containsUnconfirmedAction m (ClientActionId (mClientId m) r)) eng = Some (r, eng')"
    by (auto simp: sm_dispatch_def Let_def split: option.splits)
  let ?i = "ClientActionId (mClientId m) r"
  from generate_fresh[OF r] have i: "?i \<notin> fst ` set (allActions m)"
    by (auto simp: containsConfirmedAction_def containsUnconfirmedAction_def allActions_def)
  obtain a' t where a': "action_redo I a (mTournament m) = Inr (a', t)" "executed I a' (mTournament m) t"
    "freshCloneImpl I (impl a') = freshCloneImpl I (impl a)"
    using action_redo_ready[OF assms(2)] by blast
  from a'(2) have done_a: "isDone a'" by (simp add: executed_def)
  let ?m = "m\<lparr>mTournament := t, mUnconfirmedActionList := mUnconfirmedActionList m @ [(?i, a')],
    mUndoActionId := Some ?i, mPosted := mPosted m @ [PostAction ?i (freshClone I a)]\<rparr>"
  have m': "m' = ?m" using assms(3) r a'(1) by (simp add: sm_dispatch_def Let_def)
  have all: "allActions ?m = allActions m @ [(?i, a')]" by (simp add: allActions_def)
  have "?i \<notin> mUnconfirmedUndos m" using assms(1) i by (auto simp: sm_inv_def)
  moreover have "replays I (allActions ?m) base t"
    unfolding all using assms(1) a'(2) done_a by (auto simp: sm_inv_def replays_append)
  ultimately have "sm_inv I base ?m" unfolding sm_inv_def all
    using assms(1) i done_a by (auto simp: sm_inv_def lastOwnDone_simps)
  with m' all i done_a a'(3) show ?thesis by auto
qed

lemma redo_inv:
  assumes "sm_inv I base m" and "sm_redo I eng m = Inr (eng', m')"
  shows "sm_inv I base m'"
proof -
  from assms(2) have ne: "mRedoList m \<noteq> []"
    and d: "sm_dispatch I (last (mRedoList m)) eng (m\<lparr>mRedoList := butlast (mRedoList m)\<rparr>) = Inr (eng', m')"
    by (simp_all add: sm_redo_def canRedo_def)
  from assms(1) ne have "ready I (last (mRedoList m))" by (simp add: sm_inv_def list_all_iff)
  moreover have "sm_inv I base (m\<lparr>mRedoList := butlast (mRedoList m)\<rparr>)"
    using assms(1) by (auto simp: sm_inv_def allActions_def list_all_iff dest: in_set_butlastD)
  ultimately show ?thesis using dispatch_inv d by blast
qed

lemma receiveActionConfirm_inv:
  assumes "sm_inv I base m" and "mSyncing m = 0" and "mUnconfirmedActionList m = (i, a) # rest"
  shows "\<exists>m' m'' base'. receiveActionConfirm i m = Inr m'' \<and> trimActionList m' = Inr m'' \<and> sm_inv I base m' \<and>
    sm_inv I base' m'' \<and> allActions m' = allActions m \<and> mTournament m' = mTournament m \<and>
    mConfirmedActionList m' = mConfirmedActionList m @ [(i, a)] \<and> mUnconfirmedActionList m' = rest \<and>
    mUnconfirmedUndos m' = mUnconfirmedUndos m \<and> mClientId m' = mClientId m \<and> mSyncing m' = 0 \<and> mPosted m' = mPosted m"
proof -
  let ?m = "m\<lparr>mUnconfirmedActionList := rest,
     mUndoneUnconfirmedActions := mUndoneUnconfirmedActions m - (if isDone a then 0 else 1),
     mConfirmedActionList := mConfirmedActionList m @ [(i, a)]\<rparr>"
  have all: "allActions ?m = allActions m" using assms(3) by (simp add: allActions_def)
  have "sm_inv I base ?m" using assms(1,3) unfolding sm_inv_def all by (auto simp: sm_inv_def)
  moreover have "receiveActionConfirm i m = trimActionList ?m"
    using assms by (auto simp: receiveActionConfirm_def sm_inv_def)
  moreover from calculation(1) obtain m'' base' where "trimActionList ?m = Inr m''" "sm_inv I base' m''"
    using sm_inv_trim by blast
  ultimately show ?thesis using all assms(2) by - (rule exI[of _ ?m], rule exI[of _ m''], rule exI[of _ base'], simp)
qed

lemma receiveUndoConfirm_inv:
  assumes "sm_inv I base m" and "i \<in> mUnconfirmedUndos m" and "i \<notin> fst ` set (mUnconfirmedActionList m)" and "mSyncing m = 0"
  shows "sm_inv I base (receiveUndoConfirm i m)" and "mTournament (receiveUndoConfirm i m) = mTournament m"
proof -
  have "i \<in> fst ` set (mConfirmedActionList m)" using assms by (auto simp: sm_inv_def allActions_def)
  then obtain xs a ys where "splitLast i (mConfirmedActionList m) = Some (xs, a, ys)"
    using splitLast_None[of i "mConfirmedActionList m"] by fastforce
  note split = this splitLast_Some[OF this]
  let ?all = "xs @ ys @ mUnconfirmedActionList m"
  have all: "allActions m = xs @ (i, a) # ys @ mUnconfirmedActionList m" using split by (simp add: allActions_def)
  have undone: "\<not> isDone a" using assms(1,2) all by (simp add: sm_inv_def)
  have m': "receiveUndoConfirm i m = m\<lparr>mUnconfirmedUndos := mUnconfirmedUndos m - {i}, mConfirmedActionList := xs @ ys\<rparr>"
    using split assms(4) by (simp add: receiveUndoConfirm_def)
  then have all': "allActions (receiveUndoConfirm i m) = ?all" by (simp add: allActions_def)
  have dist: "distinct (map fst (xs @ (i, a) # ys @ mUnconfirmedActionList m))" using assms(1) all by (simp add: sm_inv_def)
  then have ids: "i \<notin> fst ` set ?all" by (simp add: image_Un)
  have "matches_undos (mUnconfirmedUndos m - {i}) ?all"
  proof (rule matches_undos_cong)
    show "matches_undos (mUnconfirmedUndos m) ?all" using assms(1) all by (simp add: sm_inv_def)
  qed (use ids in blast)
  moreover have "replays I ?all base (mTournament m)"
    using assms(1) all undone by (auto simp: sm_inv_def replays_append)
  moreover have "lastOwnDone (mClientId m) ?all = mUndoActionId m"
    using assms(1) all lastOwnDone_undone[OF undone] by (simp add: sm_inv_def)
  moreover have "mUnconfirmedUndos m - {i} \<subseteq> fst ` set ?all" using assms(1) all by (auto simp: sm_inv_def)
  moreover have "distinct (map fst ?all)" using dist by simp
  ultimately show "sm_inv I base (receiveUndoConfirm i m)" unfolding sm_inv_def all'
    using assms(1) m' by (simp add: sm_inv_def)
  show "mTournament (receiveUndoConfirm i m) = mTournament m" using m' by simp
qed

end

end
