(* ===== verification/Store_Protocol.thy ===== *)
theory Store_Protocol
  imports Store_Manager
begin

section \<open>Undo in the store manager, and its state machine\<close>

text \<open>
  The operations of \<^verbatim>\<open>src/ui/store_managers/store_manager.cpp\<close> that take an action out of the middle of the lists:
  \<^verbatim>\<open>receiveUndo\<close> and \<^verbatim>\<open>undo\<close> keep the invariant \<open>sm_inv\<close>. All operations together are the steps of a state machine
  whose guards are what the network interface promises; its reachable states satisfy the invariant.
\<close>

lemma lastOwnDone_unchanged:
  "\<not> isDone b \<Longrightarrow> distinct (map fst (xs @ (i, a) # ys)) \<Longrightarrow> flags ys' = flags ys \<Longrightarrow>
    lastOwnDone c (xs @ (i, b) # ys') =
      (if lastOwnDone c (xs @ (i, a) # ys) = Some i then lastOwnDone c xs else lastOwnDone c (xs @ (i, a) # ys))"
  by (simp add: lastOwnDone_undone lastOwnDone_remove)

lemma pushRedo_ready: "ready I a \<Longrightarrow> list_all (ready I) xs \<Longrightarrow> list_all (ready I) (pushRedo a xs)"
  by (cases xs) (auto simp: pushRedo_def Let_def list_all_iff)

lemma labels_simps [simp]:
  "labels I [] = []"
  "labels I ((i, a) # xs) = (i, freshCloneImpl I (impl a)) # labels I xs"
  "labels I (xs @ ys) = labels I xs @ labels I ys"
  by (simp_all add: labels_def)

lemma labels_Cons_iff:
  "labels I xs = (i, a) # ls \<longleftrightarrow> (\<exists>b ys. xs = (i, b) # ys \<and> freshCloneImpl I (impl b) = a \<and> labels I ys = ls)"
  by (auto simp: labels_def map_eq_Cons_conv)

lemma map_fst_labels [simp]: "map fst (labels I xs) = map fst xs"
  by (simp add: labels_def case_prod_beta comp_def)

lemma fst_labels [simp]: "fst ` set (labels I xs) = fst ` set xs"
  by (metis list.set_map map_fst_labels)

lemma matches_undos_other:
  "matches_undos undos xs \<Longrightarrow> i \<notin> fst ` set xs \<Longrightarrow> matches_undos (undos - {i}) xs"
  "matches_undos undos xs \<Longrightarrow> i \<notin> fst ` set xs \<Longrightarrow> matches_undos (insert i undos) xs"
  by (auto elim!: matches_undos_cong)

lemma replays_middle:
  "replays I (xs @ (i, a) # zs) t t' \<longleftrightarrow> (\<exists>t0 t1. replays I xs t t0 \<and> replays I [(i, a)] t0 t1 \<and> replays I zs t1 t')"
proof -
  have "xs @ (i, a) # zs = xs @ [(i, a)] @ zs" by simp
  then show ?thesis by (simp only: replays_append) blast
qed

lemma labels_set: "labels I xs = labels I ys \<Longrightarrow> fst ` set xs = fst ` set ys"
  by (metis fst_labels)

text \<open>The entries of a list without one identifier.\<close>

definition without :: "ClientActionId \<Rightarrow> (ClientActionId \<times> 'b) list \<Rightarrow> (ClientActionId \<times> 'b) list" where
  "without i xs = filter (\<lambda>(j, _). j \<noteq> i) xs"

lemma without_id: "i \<notin> fst ` set xs \<Longrightarrow> without i xs = xs"
  by (force simp: without_def filter_id_conv)

lemma without_simps [simp]:
  "without i [] = []"
  "without i ((j, a) # xs) = (if j = i then without i xs else (j, a) # without i xs)"
  "without i (xs @ ys) = without i xs @ without i ys"
  by (simp_all add: without_def)

context revertible_actions
begin

text \<open>Rolling a list back and forth with the undos of the list gives a list of the same shape.\<close>

lemma undoAll_redoAll:
  assumes "replays I xs t t'" and "matches_undos undos xs" and "\<forall>j \<in> fst ` set xs. j \<in> undos' \<longleftrightarrow> j \<in> undos"
  obtains ys where "undoAll I xs t' = Inr (ys, t)" and "list_all (\<lambda>(i, a). \<not> isDone a) ys"
    and "\<forall>s. \<exists>zs s'. redoAll I undos' ys s = Inr (zs, s') \<and> replays I zs s s' \<and> labels I zs = labels I xs \<and>
        matches_undos undos' zs \<and> flags zs = flags xs"
proof -
  obtain ys where ys: "undoAll I xs t' = Inr (ys, t)" "labels I ys = labels I xs" "list_all (\<lambda>(i, a). ready I a) ys"
    using undoAll_replays[OF assms(1)] by blast
  have "\<exists>zs s'. redoAll I undos' ys s = Inr (zs, s') \<and> replays I zs s s' \<and> labels I zs = labels I xs \<and>
      matches_undos undos' zs \<and> flags zs = flags xs" for s
  proof -
    obtain zs s' where zs: "redoAll I undos' ys s = Inr (zs, s')" "replays I zs s s'" "labels I zs = labels I ys" "matches_undos undos' zs"
      using redoAll_replays[OF ys(3)] by blast
    have "matches_undos undos' xs" by (rule matches_undos_cong[OF assms(2)]) (use assms(3) in blast)
    from matches_same[OF zs(4) this] labels_ids[of I zs xs] zs ys(2) show ?thesis by auto
  qed
  moreover have "list_all (\<lambda>(i, a). \<not> isDone a) ys" using ys(3) by (auto simp: list_all_iff ready_def)
  ultimately show thesis using that ys(1) by blast
qed

lemma receiveUndo_inv:
  assumes "sm_inv I base m" and "mSyncing m = 0" and "i \<in> fst ` set (mConfirmedActionList m)"
  shows "\<exists>m'. receiveUndo I i m = Inr m' \<and> sm_inv I base m' \<and>
    labels I (mConfirmedActionList m') = without i (labels I (mConfirmedActionList m)) \<and>
    labels I (mUnconfirmedActionList m') = labels I (mUnconfirmedActionList m) \<and>
    mUnconfirmedUndos m' = mUnconfirmedUndos m - {i} \<and> mSyncing m' = 0 \<and> mClientId m' = mClientId m \<and> mPosted m' = mPosted m"
proof -
  let ?u = "mUnconfirmedActionList m" and ?undos = "mUnconfirmedUndos m"
  obtain xs a ys where split: "splitLast i (mConfirmedActionList m) = Some (xs, a, ys)"
    using assms(3) splitLast_None[of i "mConfirmedActionList m"] by fastforce
  note c = splitLast_Some[OF split]
  have all: "allActions m = xs @ (i, a) # ys @ ?u" using c by (simp add: allActions_def)
  have "replays I (xs @ (i, a) # ys @ ?u) base (mTournament m)" using assms(1) all by (simp add: sm_inv_def)
  then obtain t0 t1 t2 where t: "replays I xs base t0" "replays I [(i, a)] t0 t1"
    "replays I ys t1 t2" "replays I ?u t2 (mTournament m)" unfolding replays_middle replays_append[of I ys] by blast
  have dist: "distinct (map fst (xs @ (i, a) # ys @ ?u))" using assms(1) all by (simp add: sm_inv_def)
  have m: "matches_undos ?undos xs" "isDone a \<longleftrightarrow> i \<notin> ?undos" "matches_undos ?undos ys" "matches_undos ?undos ?u"
    using assms(1) all by (simp_all add: sm_inv_def)
  have other: "\<forall>j \<in> fst ` set ys. j \<in> ?undos - {i} \<longleftrightarrow> j \<in> ?undos" "\<forall>j \<in> fst ` set ?u. j \<in> ?undos - {i} \<longleftrightarrow> j \<in> ?undos"
    using dist by (auto simp: image_Un)
  obtain u1 where u1: "undoAll I ?u (mTournament m) = Inr (u1, t2)"
    "\<forall>s. \<exists>zs s'. redoAll I (?undos - {i}) u1 s = Inr (zs, s') \<and> replays I zs s s' \<and> labels I zs = labels I ?u \<and>
        matches_undos (?undos - {i}) zs \<and> flags zs = flags ?u"
    by (rule undoAll_redoAll[OF t(4) m(4) other(2)], rule that)
  obtain y1 where y1: "undoAll I ys t2 = Inr (y1, t1)"
    "\<forall>s. \<exists>zs s'. redoAll I (?undos - {i}) y1 s = Inr (zs, s') \<and> replays I zs s s' \<and> labels I zs = labels I ys \<and>
        matches_undos (?undos - {i}) zs \<and> flags zs = flags ys"
    by (rule undoAll_redoAll[OF t(3) m(3) other(1)], rule that)
  obtain y2 t4 where y2: "redoAll I (?undos - {i}) y1 t0 = Inr (y2, t4)" "replays I y2 t0 t4" "labels I y2 = labels I ys"
    "matches_undos (?undos - {i}) y2" "flags y2 = flags ys" using y1(2) by blast
  obtain u2 t5 where u2: "redoAll I (?undos - {i}) u1 t4 = Inr (u2, t5)" "replays I u2 t4 t5" "labels I u2 = labels I ?u"
    "matches_undos (?undos - {i}) u2" "flags u2 = flags ?u" using u1(2) by blast
  have undo: "(if isDone a then assertE (i \<notin> ?undos) (bindE (action_undo I a t1) (\<lambda>(_, t3). Inr (?undos, t3)))
      else assertE (i \<in> ?undos) (Inr (?undos - {i}, t1))) = Inr (?undos - {i}, t0)"
    using t(2) m(2) action_undo_executed[of a t0 t1] by (cases "isDone a") auto
  let ?m = "m\<lparr>mConfirmedActionList := xs @ y2, mUnconfirmedActionList := u2, mTournament := t5, mUnconfirmedUndos := ?undos - {i},
    mUndoActionId := (if mUndoActionId m = Some i then lastOwnDone (mClientId m) xs else mUndoActionId m)\<rparr>"
  have all': "allActions ?m = xs @ y2 @ u2" by (simp add: allActions_def)
  have ids: "map fst y2 = map fst ys" "map fst u2 = map fst ?u" using labels_ids y2(3) u2(3) by blast+
  have "matches_undos (?undos - {i}) (allActions ?m)" unfolding all'
    using y2(4) u2(4) matches_undos_other(1)[OF m(1)] dist by simp
  moreover have "mUndoActionId ?m = lastOwnDone (mClientId m) (allActions ?m)" unfolding all'
    using assms(1) all lastOwnDone_remove[OF dist, of "y2 @ u2"] y2(5) u2(5) by (simp add: sm_inv_def)
  moreover have "distinct (map fst (allActions ?m))" unfolding all' using dist ids by (simp del: distinct_map flip: set_map)
  moreover have "?undos - {i} \<subseteq> fst ` set (allActions ?m)"
  proof -
    have "fst ` set (allActions ?m) = fst ` set (xs @ ys @ ?u)" unfolding all'
      using labels_set[OF y2(3)] labels_set[OF u2(3)] by (simp add: image_Un)
    then show ?thesis using assms(1) all by (auto simp: sm_inv_def)
  qed
  moreover have "replays I (allActions ?m) base t5" unfolding all' using t(1) y2(2) u2(2) by (auto simp: replays_append)
  ultimately have "sm_inv I base ?m" using assms(1) undoneCount_flags[OF u2(5)] by (simp add: sm_inv_def)
  moreover have "receiveUndo I i m = Inr ?m"
    using assms(2) split u1(1) y1(1) undo y2(1) u2(1) by (simp add: receiveUndo_def)
  moreover have "i \<notin> fst ` set (xs @ ys)" using dist by auto
  ultimately show ?thesis using c y2(3) u2(3) assms(2) by (simp add: without_id image_Un)
qed

lemma undoUnconfirmed_inv:
  assumes "sm_inv I base m" and "splitLast i (mUnconfirmedActionList m) = Some (xs, a, ys)" and "isDone a"
  shows "\<exists>m'. undoUnconfirmed I i (xs, a, ys) (m\<lparr>mUnconfirmedUndos := insert i (mUnconfirmedUndos m)\<rparr>) = Inr m' \<and> sm_inv I base m' \<and>
    mConfirmedActionList m' = mConfirmedActionList m \<and> labels I (mUnconfirmedActionList m') = labels I (mUnconfirmedActionList m) \<and>
    mUnconfirmedUndos m' = insert i (mUnconfirmedUndos m) \<and> mSyncing m' = mSyncing m \<and> mClientId m' = mClientId m \<and> mPosted m' = mPosted m"
proof -
  let ?c = "mConfirmedActionList m" and ?undos = "insert i (mUnconfirmedUndos m)"
  note u = splitLast_Some[OF assms(2)]
  have all: "allActions m = (?c @ xs) @ (i, a) # ys" using u by (simp add: allActions_def)
  have "replays I ((?c @ xs) @ (i, a) # ys) base (mTournament m)" using assms(1) all by (simp add: sm_inv_def)
  then obtain t0 t1 where t: "replays I (?c @ xs) base t0" "replays I [(i, a)] t0 t1" "replays I ys t1 (mTournament m)"
    unfolding replays_middle by blast
  then have t': "replays I ((i, a) # ys) t0 (mTournament m)" using assms(3) by auto
  have dist: "distinct (map fst ((?c @ xs) @ (i, a) # ys))" using assms(1) all by (simp add: sm_inv_def)
  have m: "matches_undos (mUnconfirmedUndos m) (?c @ xs)" "matches_undos (mUnconfirmedUndos m) ys"
    using assms(1) all by (simp_all add: sm_inv_def)
  obtain us where us: "undoAll I ((i, a) # ys) (mTournament m) = Inr (us, t0)" "labels I us = labels I ((i, a) # ys)"
    "list_all (\<lambda>(i, a). ready I a) us" using undoAll_replays[OF t'] by blast
  then obtain a' ys1 where us': "us = (i, a') # ys1" by (auto simp: labels_Cons_iff)
  obtain zs t2 where zs: "redoAll I ?undos us t0 = Inr (zs, t2)" "replays I zs t0 t2" "labels I zs = labels I us" "matches_undos ?undos zs"
    using redoAll_replays[OF us(3)] by blast
  then obtain b ys2 where zs': "zs = (i, b) # ys2" using us us' by (auto simp: labels_Cons_iff)
  have b: "\<not> isDone b" and ys2: "matches_undos ?undos ys2" using zs(4) zs' by simp_all
  have mx: "matches_undos ?undos (?c @ xs)" "matches_undos ?undos ys"
    using matches_undos_other(2)[OF m(1), of i] matches_undos_other(2)[OF m(2), of i] dist by (simp_all add: image_Un)
  have lab: "labels I ys2 = labels I ys" using zs(3) us(2) zs' us' by simp
  have fl: "flags ys2 = flags ys" using matches_same[OF ys2 mx(2) labels_ids[OF lab]] .
  let ?m = "m\<lparr>mUnconfirmedUndos := ?undos, mUnconfirmedActionList := xs @ zs, mTournament := t2,
    mUndoneUnconfirmedActions := mUndoneUnconfirmedActions m + 1, mRedoList := pushRedo (freshClone I a') (mRedoList m),
    mUndoActionId := (if mUndoActionId m = Some i then lastOwnDone (mClientId m) (?c @ xs) else mUndoActionId m)\<rparr>"
  have all': "allActions ?m = (?c @ xs) @ (i, b) # ys2" using zs' by (simp add: allActions_def)
  have "list_all (\<lambda>(i, a). \<not> isDone a) us" using us(3) by (auto simp: list_all_iff ready_def)
  then have redo: "redoUndone I ?undos (xs @ us) t0 = Inr (xs @ zs, t2)"
    using redoUndone_redoAll[of us ?undos xs t0] mx(1) zs(1) by simp
  have "lastOwnDone (mClientId m) (allActions ?m) = mUndoActionId ?m" unfolding all'
    using lastOwnDone_unchanged[OF b dist fl] assms(1) all by (simp add: sm_inv_def)
  moreover have "distinct (map fst (allActions ?m))" unfolding all' using dist labels_ids[OF lab]
    by (simp del: distinct_map flip: set_map)
  moreover have "fst ` set (allActions ?m) = fst ` set (allActions m)" unfolding all all'
    using labels_set[OF lab] by (simp add: image_Un)
  then have "?undos \<subseteq> fst ` set (allActions ?m)" using assms(1) all by (auto simp: sm_inv_def)
  moreover have "replays I (allActions ?m) base t2" unfolding allActions_def
    using t(1) zs(2) by (auto simp: replays_append)
  moreover have "undoneCount (xs @ zs) = Suc (undoneCount (mUnconfirmedActionList m))"
    using undoneCount_flags[OF fl] u zs' b assms(3) by simp
  moreover have "list_all (ready I) (mRedoList ?m)" using assms(1) by (simp add: sm_inv_def pushRedo_ready ready_freshClone)
  ultimately have "sm_inv I base ?m" using assms(1) mx(1) zs(4) zs' all' by (simp add: sm_inv_def)
  moreover have "undoUnconfirmed I i (xs, a, ys) (m\<lparr>mUnconfirmedUndos := ?undos\<rparr>) = Inr ?m"
    using us(1) us' zs' redo b lastOwnDone_undone[OF b, of "mClientId m" "?c @ xs" i "[]"] by (simp add: undoUnconfirmed_def)
  ultimately show ?thesis using u lab zs(3) us(2) by simp
qed

lemma undoConfirmed_inv:
  assumes "sm_inv I base m" and "splitLast i (mConfirmedActionList m) = Some (xs, a, ys)" and "isDone a"
  shows "\<exists>m'. undoConfirmed I i (xs, a, ys) (m\<lparr>mUnconfirmedUndos := insert i (mUnconfirmedUndos m)\<rparr>) = Inr m' \<and> sm_inv I base m' \<and>
    labels I (mConfirmedActionList m') = labels I (mConfirmedActionList m) \<and>
    labels I (mUnconfirmedActionList m') = labels I (mUnconfirmedActionList m) \<and>
    mUnconfirmedUndos m' = insert i (mUnconfirmedUndos m) \<and> mSyncing m' = mSyncing m \<and> mClientId m' = mClientId m \<and> mPosted m' = mPosted m"
proof -
  let ?u = "mUnconfirmedActionList m" and ?old = "mUnconfirmedUndos m"
  let ?undos = "insert i ?old"
  note c = splitLast_Some[OF assms(2)]
  have all: "allActions m = xs @ (i, a) # ys @ ?u" using c by (simp add: allActions_def)
  have "replays I (xs @ (i, a) # ys @ ?u) base (mTournament m)" using assms(1) all by (simp add: sm_inv_def)
  then obtain t0 t1 t2 where t: "replays I xs base t0" "replays I [(i, a)] t0 t1"
    "replays I ys t1 t2" "replays I ?u t2 (mTournament m)" unfolding replays_middle replays_append[of I ys] by blast
  have dist: "distinct (map fst (xs @ (i, a) # ys @ ?u))" using assms(1) all by (simp add: sm_inv_def)
  have m: "matches_undos ?old xs" "matches_undos ?old ys" "matches_undos ?old ?u"
    using assms(1) all by (simp_all add: sm_inv_def)
  have mx: "matches_undos ?undos xs" using matches_undos_other(2)[OF m(1), of i] dist by simp
  have new: "\<forall>j \<in> fst ` set ys. j \<in> ?undos \<longleftrightarrow> j \<in> ?old" "\<forall>j \<in> fst ` set ?u. j \<in> ?undos \<longleftrightarrow> j \<in> ?old"
    using dist by (auto simp: image_Un)
  obtain u0 where u0: "undoAll I ?u (mTournament m) = Inr (u0, t2)" "list_all (\<lambda>(i, a). \<not> isDone a) u0"
    "\<forall>s. \<exists>zs s'. redoAll I ?undos u0 s = Inr (zs, s') \<and> replays I zs s s' \<and> labels I zs = labels I ?u \<and>
        matches_undos ?undos zs \<and> flags zs = flags ?u"
    by (rule undoAll_redoAll[OF t(4) m(3) new(2)], rule that)
  obtain y1 where y1: "undoAll I ys t2 = Inr (y1, t1)"
    "\<forall>s. \<exists>zs s'. redoAll I ?undos y1 s = Inr (zs, s') \<and> replays I zs s s' \<and> labels I zs = labels I ys \<and>
        matches_undos ?undos zs \<and> flags zs = flags ys"
    by (rule undoAll_redoAll[OF t(3) m(2) new(1)], rule that)
  obtain b where b: "action_undo I a t1 = Inr (b, t0)" "ready I b" "freshCloneImpl I (impl b) = freshCloneImpl I (impl a)"
    using t(2) assms(3) action_undo_executed[of a t0 t1] by auto
  then have undone: "\<not> isDone b" by (simp add: ready_def)
  obtain y2 t4 where y2: "redoAll I ?undos y1 t0 = Inr (y2, t4)" "replays I y2 t0 t4" "labels I y2 = labels I ys"
    "matches_undos ?undos y2" "flags y2 = flags ys" using y1(2) by blast
  obtain u2 t5 where u2: "redoAll I ?undos u0 t4 = Inr (u2, t5)" "replays I u2 t4 t5" "labels I u2 = labels I ?u"
    "matches_undos ?undos u2" "flags u2 = flags ?u" using u0(3) by blast
  have redo: "redoUndone I ?undos u0 t4 = Inr (u2, t5)" using redoUndone_redoAll[OF u0(2), of ?undos "[]" t4] u2(1) by simp
  let ?m = "m\<lparr>mUnconfirmedUndos := ?undos, mConfirmedActionList := xs @ (i, b) # y2, mUnconfirmedActionList := u2,
    mTournament := t5, mRedoList := pushRedo (freshClone I b) (mRedoList m),
    mUndoActionId := (if mUndoActionId m = Some i then lastOwnDone (mClientId m) xs else mUndoActionId m)\<rparr>"
  have all': "allActions ?m = xs @ (i, b) # y2 @ u2" by (simp add: allActions_def)
  have "lastOwnDone (mClientId m) (allActions ?m) = mUndoActionId ?m" unfolding all'
    using lastOwnDone_unchanged[OF undone dist, of "y2 @ u2"] y2(5) u2(5) assms(1) all by (simp add: sm_inv_def)
  moreover have "distinct (map fst (allActions ?m))" unfolding all' using dist labels_ids[OF y2(3)] labels_ids[OF u2(3)]
    by (simp del: distinct_map flip: set_map)
  moreover have "fst ` set (allActions ?m) = fst ` set (allActions m)" unfolding all all'
    using labels_set[OF y2(3)] labels_set[OF u2(3)] by (simp add: image_Un)
  then have "?undos \<subseteq> fst ` set (allActions ?m)" using assms(1) all by (auto simp: sm_inv_def)
  moreover have "replays I (allActions ?m) base t5" unfolding all' replays_middle
    using t(1) y2(2) u2(2) b(2) undone by (auto simp: replays_append)
  moreover have "list_all (ready I) (mRedoList ?m)" using assms(1) by (simp add: sm_inv_def pushRedo_ready ready_freshClone)
  ultimately have "sm_inv I base ?m" using assms(1) mx y2(4) u2(4) undone all' undoneCount_flags[OF u2(5)] by (simp add: sm_inv_def)
  moreover have "undoConfirmed I i (xs, a, ys) (m\<lparr>mUnconfirmedUndos := ?undos\<rparr>) = Inr ?m"
    using u0(1) y1(1) b(1) y2(1) redo assms(3) lastOwnDone_undone[OF undone, of "mClientId m" xs i "[]"]
    by (simp add: undoConfirmed_def)
  ultimately show ?thesis using c y2(3) u2(3) b(3) by simp
qed

lemma undoAction_inv:
  assumes "sm_inv I base m" and "i \<in> fst ` set (allActions m)" and "i \<notin> mUnconfirmedUndos m"
  shows "\<exists>m'. sm_undoAction I i m = Inr m' \<and> sm_inv I base m' \<and>
    labels I (mConfirmedActionList m') = labels I (mConfirmedActionList m) \<and>
    labels I (mUnconfirmedActionList m') = labels I (mUnconfirmedActionList m) \<and>
    mUnconfirmedUndos m' = insert i (mUnconfirmedUndos m) \<and> mSyncing m' = mSyncing m \<and> mClientId m' = mClientId m \<and>
    mPosted m' = mPosted m @ [PostUndo i]"
proof -
  have post: "sm_inv I base (n\<lparr>mPosted := p\<rparr>) = sm_inv I base n" for n p
    by (simp add: sm_inv_def allActions_def)
  have known: "containsConfirmedAction m i \<or> containsUnconfirmedAction m i"
    using assms(2) by (auto simp: containsConfirmedAction_def containsUnconfirmedAction_def allActions_def)
  have dn: "isDone a" if "(i, a) \<in> set (allActions m)" for a
    using assms(1,3) that by (auto simp: sm_inv_def matches_undos_def list_all_iff)
  show ?thesis
  proof (cases "splitLast i (mUnconfirmedActionList m)")
    case (Some s)
    obtain xs a ys where s: "s = (xs, a, ys)" by (cases s)
    with Some have s': "splitLast i (mUnconfirmedActionList m) = Some (xs, a, ys)" by simp
    from splitLast_Some[OF s'] have "isDone a" by (intro dn) (simp add: allActions_def)
    from undoUnconfirmed_inv[OF assms(1) s' this] s' known show ?thesis
      by (auto simp: sm_undoAction_def Let_def post)
  next
    case None
    then have "i \<in> fst ` set (mConfirmedActionList m)" using assms(2) by (auto simp: splitLast_None allActions_def)
    then obtain xs a ys where s: "splitLast i (mConfirmedActionList m) = Some (xs, a, ys)"
      using splitLast_None[of i "mConfirmedActionList m"] by fastforce
    from splitLast_Some[OF s] have "isDone a" by (intro dn) (simp add: allActions_def)
    from undoConfirmed_inv[OF assms(1) s this] s None known show ?thesis
      by (auto simp: sm_undoAction_def Let_def post)
  qed
qed

end

subsection \<open>The state machine\<close>

text \<open>
  The steps of a manager outside a synchronisation. Dispatched actions behave like fresh ones; what arrives from
  the network has an identifier that is not in use, of another client; an undo is only confirmed after the
  action itself; and the interface does not undo an action twice.
\<close>

inductive sm_reachable :: "('a, 't) ActionInterface \<Rightarrow> ('a, 't) StoreManager \<Rightarrow> bool" for I where
  sm_start: "sm_reachable I (newStoreManager client t)"
| sm_dispatched: "sm_reachable I m \<Longrightarrow> ready I a \<Longrightarrow> sm_dispatch I a eng m = Inr (eng', m') \<Longrightarrow> sm_reachable I m'"
| sm_redone: "sm_reachable I m \<Longrightarrow> sm_redo I eng m = Inr (eng', m') \<Longrightarrow> sm_reachable I m'"
| sm_undone: "sm_reachable I m \<Longrightarrow> i \<notin> mUnconfirmedUndos m \<Longrightarrow> sm_undoAction I i m = Inr m' \<Longrightarrow> sm_reachable I m'"
| sm_received: "sm_reachable I m \<Longrightarrow> i \<notin> fst ` set (allActions m) \<Longrightarrow> getClientId i \<noteq> mClientId m \<Longrightarrow>
    receiveAction I i a m = Inr m' \<Longrightarrow> sm_reachable I m'"
| sm_confirmed: "sm_reachable I m \<Longrightarrow> receiveActionConfirm i m = Inr m' \<Longrightarrow> sm_reachable I m'"
| sm_undo_received: "sm_reachable I m \<Longrightarrow> receiveUndo I i m = Inr m' \<Longrightarrow> sm_reachable I m'"
| sm_undo_confirmed: "sm_reachable I m \<Longrightarrow> i \<in> mUnconfirmedUndos m \<Longrightarrow> i \<notin> fst ` set (mUnconfirmedActionList m) \<Longrightarrow>
    sm_reachable I (receiveUndoConfirm i m)"

lemma trim_frame:
  "trimActionList m = Inr m' \<Longrightarrow> mSyncing m' = mSyncing m \<and> mClientId m' = mClientId m \<and> mTournament m' = mTournament m \<and>
    mUnconfirmedActionList m' = mUnconfirmedActionList m \<and> mUnconfirmedUndos m' = mUnconfirmedUndos m \<and> mPosted m' = mPosted m \<and> mRedoList m' = mRedoList m"
  by (auto simp: trimActionList_def popActionListFront_def split: if_splits list.splits)

lemma dispatch_syncing: "sm_dispatch I a eng m = Inr (eng', m') \<Longrightarrow> mSyncing m' = mSyncing m"
  by (auto simp: sm_dispatch_def Let_def split: option.splits)

lemma sm_reachable_syncing: "sm_reachable I m \<Longrightarrow> mSyncing m = 0"
proof (induction rule: sm_reachable.induct)
  case (sm_start client t)
  show ?case by (simp add: newStoreManager_def)
next
  case (sm_redone m eng eng' m')
  then show ?case by (auto simp: sm_redo_def dest: dispatch_syncing)
next
  case (sm_undone m i m')
  then show ?case
    by (auto simp: sm_undoAction_def undoUnconfirmed_def undoConfirmed_def Let_def split: if_splits option.splits)
next
  case (sm_received m i a m')
  then show ?case by (auto simp: receiveAction_def dest!: trim_frame)
next
  case (sm_confirmed m i m')
  then show ?case by (auto simp: receiveActionConfirm_def split: list.splits if_splits dest!: trim_frame)
next
  case (sm_undo_received m i m')
  then show ?case by (auto simp: receiveUndo_def split: option.splits if_splits)
qed (auto simp: receiveUndoConfirm_def dest: dispatch_syncing)

text \<open>The history of a manager: the actions in its lists that are not undone.\<close>

lemma history_labels: "matches_undos undos xs \<Longrightarrow> history I xs = filter (\<lambda>(i, _). i \<notin> undos) (labels I xs)"
  by (induction xs) (auto simp: history_def)

lemma sm_inv_history: "sm_inv I base m \<Longrightarrow> history I (allActions m) = filter (\<lambda>(i, _). i \<notin> mUnconfirmedUndos m) (labels I (allActions m))"
  by (simp add: sm_inv_def history_labels)

lemma sm_inv_execute: "sm_inv I base m \<Longrightarrow> execute I (history I (allActions m)) base = Inr (mTournament m)"
  by (simp add: sm_inv_def replays_execute)

context revertible_actions
begin

lemma sm_reachable_inv: "sm_reachable I m \<Longrightarrow> \<exists>base. sm_inv I base m"
proof (induction rule: sm_reachable.induct)
  case (sm_start client t)
  show ?case using sm_inv_new by blast
next
  case (sm_dispatched m a eng eng' m')
  then show ?case using dispatch_inv by blast
next
  case (sm_redone m eng eng' m')
  then show ?case using redo_inv by blast
next
  case (sm_undone m i m')
  then show ?case
  proof (cases "i \<in> fst ` set (allActions m)")
    case True
    with sm_undone show ?thesis using undoAction_inv[of _ m i] by force
  next
    case False
    with sm_undone show ?thesis
      by (auto simp: sm_undoAction_def containsConfirmedAction_def containsUnconfirmedAction_def allActions_def image_Un)
  qed
next
  case (sm_received m i a m')
  then show ?case using receiveAction_inv[of _ m i a] sm_reachable_syncing by force
next
  case (sm_confirmed m i m')
  note sync = sm_reachable_syncing[OF sm_confirmed.hyps(1)]
  from sm_confirmed.hyps(2) sync obtain a rest where "mUnconfirmedActionList m = (i, a) # rest"
    by (auto simp: receiveActionConfirm_def split: list.splits if_splits)
  with sm_confirmed sync show ?case using receiveActionConfirm_inv[of _ m i a rest] by force
next
  case (sm_undo_received m i m')
  note sync = sm_reachable_syncing[OF sm_undo_received.hyps(1)]
  from sm_undo_received.hyps(2) sync have "i \<in> fst ` set (mConfirmedActionList m)"
    by (cases "splitLast i (mConfirmedActionList m)") (auto simp: receiveUndo_def dest!: splitLast_Some)
  with sm_undo_received sync show ?case using receiveUndo_inv[of _ m i] by force
next
  case (sm_undo_confirmed m i)
  then show ?case using receiveUndoConfirm_inv(1) sm_reachable_syncing by blast
qed

lemma undo_as_if_never:
  assumes "sm_reachable I m" and "i \<in> fst ` set (history I (allActions m))"
  shows "\<exists>m' base. sm_undoAction I i m = Inr m' \<and> history I (allActions m') = without i (history I (allActions m)) \<and>
    execute I (history I (allActions m)) base = Inr (mTournament m) \<and>
    execute I (without i (history I (allActions m))) base = Inr (mTournament m')"
proof -
  obtain base where b: "sm_inv I base m" using sm_reachable_inv[OF assms(1)] by blast
  have "i \<notin> mUnconfirmedUndos m \<and> i \<in> fst ` set (labels I (allActions m))"
    using assms(2) unfolding sm_inv_history[OF b] by (auto simp del: fst_labels intro: rev_image_eqI)
  then have i: "i \<notin> mUnconfirmedUndos m" "i \<in> fst ` set (allActions m)" by simp_all
  obtain m' where m': "sm_undoAction I i m = Inr m'" "sm_inv I base m'"
    "labels I (mConfirmedActionList m') = labels I (mConfirmedActionList m)"
    "labels I (mUnconfirmedActionList m') = labels I (mUnconfirmedActionList m)"
    "mUnconfirmedUndos m' = insert i (mUnconfirmedUndos m)" using undoAction_inv[OF b i(2,1)] by blast
  have "labels I (allActions m') = labels I (allActions m)" using m'(3,4) by (simp add: allActions_def)
  then have "history I (allActions m') = without i (history I (allActions m))"
    unfolding sm_inv_history[OF b] sm_inv_history[OF m'(2)] m'(5) without_def filter_filter
    by (auto intro!: arg_cong2[of _ _ _ _ filter])
  with m'(1) sm_inv_execute[OF b] sm_inv_execute[OF m'(2)] show ?thesis by auto
qed

text \<open>An action from the network takes effect after the confirmed actions and before the unconfirmed ones.\<close>

lemma received_precedes_unconfirmed:
  assumes "sm_reachable I m" and "i \<notin> fst ` set (allActions m)" and "getClientId i \<noteq> mClientId m"
  shows "\<exists>m' base. receiveAction I i a m = Inr m' \<and> execute I (history I (allActions m)) base = Inr (mTournament m) \<and>
    execute I (history I (mConfirmedActionList m) @ (i, freshCloneImpl I (impl a)) # history I (mUnconfirmedActionList m)) base
      = Inr (mTournament m')"
proof -
  obtain base where b: "sm_inv I base m" using sm_reachable_inv[OF assms(1)] by blast
  obtain a' m1 m2 where m: "receiveAction I i a m = Inr m2" "sm_inv I base m1" "trimActionList m1 = Inr m2"
    "labels I (allActions m1) = labels I (mConfirmedActionList m @ (i, a') # mUnconfirmedActionList m)"
    "freshCloneImpl I (impl a') = freshCloneImpl I (impl a)" "mUnconfirmedUndos m1 = mUnconfirmedUndos m"
    using receiveAction_inv[OF b sm_reachable_syncing[OF assms(1)] assms(2,3), of a] by blast
  have i: "i \<notin> mUnconfirmedUndos m" using assms(2) b by (auto simp: sm_inv_def)
  have mu: "matches_undos (mUnconfirmedUndos m) (mConfirmedActionList m)" "matches_undos (mUnconfirmedUndos m) (mUnconfirmedActionList m)"
    using b by (simp_all add: sm_inv_def allActions_def)
  have "history I (allActions m1) = history I (mConfirmedActionList m) @ (i, freshCloneImpl I (impl a)) # history I (mUnconfirmedActionList m)"
    unfolding sm_inv_history[OF m(2)] m(4,6) using i m(5) history_labels[OF mu(1), of I] history_labels[OF mu(2), of I] by simp
  with sm_inv_execute[OF b] sm_inv_execute[OF m(2)] m(1) trim_frame[OF m(3)] show ?thesis by auto
qed

lemma dispatch_then_undo:
  assumes "sm_reachable I m" and "ready I a" and "sm_dispatch I a eng m = Inr (eng', m1)"
  shows "\<exists>m2. sm_undo I m1 = Inr m2 \<and> mTournament m2 = mTournament m \<and> mUndoActionId m2 = mUndoActionId m"
proof -
  obtain base where b: "sm_inv I base m" using sm_reachable_inv[OF assms(1)] by blast
  obtain i a' where d: "sm_inv I base m1" "allActions m1 = allActions m @ [(i, a')]" "i \<notin> fst ` set (allActions m)"
    "isDone a'" "mUndoActionId m1 = Some i" "mClientId m1 = mClientId m" using dispatch_inv[OF b assms(2,3)] by blast
  have i: "i \<notin> mUnconfirmedUndos m1" using d(1,2,4) by (simp add: sm_inv_def)
  have "i \<in> fst ` set (allActions m1)" using d(2) by simp
  from undoAction_inv[OF d(1) this i] obtain m2 where m2: "sm_undoAction I i m1 = Inr m2" "sm_inv I base m2"
    "labels I (allActions m2) = labels I (allActions m1)" "mUnconfirmedUndos m2 = insert i (mUnconfirmedUndos m1)" "mClientId m2 = mClientId m"
    using d(6) by (auto simp: allActions_def)
  obtain xs b' where all: "allActions m2 = xs @ [(i, b')]" "labels I xs = labels I (allActions m)"
    using m2(3) d(2) unfolding labels_def by (auto simp: map_eq_append_conv)
  have mx: "matches_undos (insert i (mUnconfirmedUndos m1)) xs" "\<not> isDone b'" using m2(2,4) all(1) by (simp_all add: sm_inv_def)
  have "matches_undos (mUnconfirmedUndos m1) (allActions m)" using d(1,2) by (simp add: sm_inv_def)
  then have my: "matches_undos (insert i (mUnconfirmedUndos m1)) (allActions m)" using matches_undos_other(2) d(3) by blast
  have fl: "flags xs = flags (allActions m)" using matches_same[OF mx(1) my labels_ids[OF all(2)]] .
  have "history I (allActions m2) = history I (allActions m)"
    using all mx(2) history_labels[OF mx(1), of I] history_labels[OF my, of I] by (simp add: history_def)
  then have "mTournament m2 = mTournament m" using sm_inv_execute[OF b] sm_inv_execute[OF m2(2)] by simp
  moreover have "lastOwnDone (mClientId m) (allActions m2) = lastOwnDone (mClientId m) (allActions m)"
    using lastOwnDone_undone[OF mx(2), of "mClientId m" xs i "[]"] lastOwnDone_flags[OF fl] all(1) by simp
  then have "mUndoActionId m2 = mUndoActionId m" using m2(2,5) b by (simp add: sm_inv_def)
  ultimately show ?thesis using m2(1) d(5) by (simp add: sm_undo_def)
qed

lemma undo_button:
  assumes "sm_reachable I m"
  shows "canUndo m \<longleftrightarrow> (\<exists>(i, a) \<in> set (allActions m). isDone a \<and> getClientId i = mClientId m)"
    and "canUndo m \<Longrightarrow> \<exists>m'. sm_undo I m = Inr m'"
proof -
  obtain base where b: "sm_inv I base m" using sm_reachable_inv[OF assms] by blast
  have none: "lastOwnDone c xs = None \<longleftrightarrow> \<not> (\<exists>(i, a) \<in> set xs. isDone a \<and> getClientId i = c)" for c and xs :: "'a ActionList"
    by (auto simp: lastOwnDone_def find_None_iff)
  show "canUndo m \<longleftrightarrow> (\<exists>(i, a) \<in> set (allActions m). isDone a \<and> getClientId i = mClientId m)"
    using b none[of "mClientId m" "allActions m"] by (auto simp: canUndo_def sm_inv_def)
  assume "canUndo m"
  then obtain i where i: "mUndoActionId m = Some i" by (auto simp: canUndo_def)
  then have "lastOwnDone (mClientId m) (allActions m) = Some i" using b by (simp add: sm_inv_def)
  then obtain a where "(i, a) \<in> set (allActions m)" "isDone a" by (auto simp: lastOwnDone_def find_Some_iff in_set_conv_nth rev_nth) (metis diff_Suc_less length_greater_0_conv length_pos_if_in_set nth_mem list.size(3) rev_nth)
  then have "i \<in> fst ` set (allActions m)" "i \<notin> mUnconfirmedUndos m"
    using b by (force simp: sm_inv_def matches_undos_def list_all_iff)+
  from undoAction_inv[OF b this] i show "\<exists>m'. sm_undo I m = Inr m'" by (auto simp: sm_undo_def)
qed

end

end
