(* ===== verification/Network_Server.thy ===== *)
theory Network_Server
  imports Store_Protocol
begin

section \<open>The server of the network\<close>

text \<open>
  Models \<^verbatim>\<open>src/ui/network/network_server.cpp\<close> and \<^verbatim>\<open>network_participant.cpp\<close>: the server orders the actions of all
  clients on one stack, keeps a tournament that lies behind the stack, and forwards every change to its
  participants. A message is its decoded content; its encoding is the theory \<open>Network_Message\<close>, sockets are not
  modelled. Every handler runs on one thread, so a handler is a step. \<open>mMessageQueue\<close> of a participant is the
  sequence of messages that its client has not read, \<open>mEmitted\<close> the signals to the store manager of the server
  and \<open>mWebDelivered\<close> what is passed to the web client.
\<close>

datatype ('a, 't) NetworkMessage =
    HANDSHAKE
  | SYNC 't "'a ActionList"
  | SYNC_ACK
  | ACTION ClientActionId "'a Action"
  | ACTION_ACK ClientActionId
  | UNDO ClientActionId
  | UNDO_ACK ClientActionId
  | QUIT
  | CLOCK_SYNC int
  | CLOCK_SYNC_REQUEST

datatype ('a, 't) NetworkSignal =
    ActionReceived ClientActionId "'a Action"
  | ActionConfirmReceived ClientActionId
  | UndoReceived ClientActionId
  | UndoConfirmReceived ClientActionId
  | SyncReceived "('a, 't) SyncPayload"
  | SyncConfirmed

datatype NetworkServerState = STOPPED | STARTED

record ('a, 't) NetworkParticipant =
  mIsSyncing :: bool
  mMessageQueue :: "('a, 't) NetworkMessage list"

record ('a, 't) NetworkServer =
  mServerState :: NetworkServerState
  mServerTournament :: 't
  mActionStack :: "'a ActionList"
  mParticipants :: "nat \<rightharpoonup> ('a, 't) NetworkParticipant"
  mEmitted :: "('a, 't) NetworkSignal list"
  mWebDelivered :: "('a, 't) NetworkMessage list"

definition newNetworkServer :: "'t \<Rightarrow> ('a, 't) NetworkServer" where
  "newNetworkServer t = \<lparr>mServerState = STOPPED, mServerTournament = t, mActionStack = [], mParticipants = Map.empty,
     mEmitted = [], mWebDelivered = []\<rparr>"

definition newNetworkParticipant :: "('a, 't) NetworkParticipant" where
  "newNetworkParticipant = \<lparr>mIsSyncing = True, mMessageQueue = []\<rparr>"

subsection \<open>Delivery\<close>

definition participant_deliver :: "('a, 't) NetworkMessage \<Rightarrow> ('a, 't) NetworkParticipant \<Rightarrow> ('a, 't) NetworkParticipant" where
  "participant_deliver msg q = q\<lparr>mMessageQueue := mMessageQueue q @ [msg]\<rparr>"

definition server_emit :: "('a, 't) NetworkSignal \<Rightarrow> ('a, 't) NetworkServer \<Rightarrow> ('a, 't) NetworkServer" where
  "server_emit sig s = s\<lparr>mEmitted := mEmitted s @ [sig]\<rparr>"

definition server_webDeliver :: "('a, 't) NetworkMessage \<Rightarrow> ('a, 't) NetworkServer \<Rightarrow> ('a, 't) NetworkServer" where
  "server_webDeliver msg s = s\<lparr>mWebDelivered := mWebDelivered s @ [msg]\<rparr>"

definition server_deliver :: "('a, 't) NetworkMessage \<Rightarrow> ('a, 't) NetworkServer \<Rightarrow> ('a, 't) NetworkServer" where
  "server_deliver msg s = server_webDeliver msg (s\<lparr>mParticipants := (\<lambda>p. map_option (participant_deliver msg) (mParticipants s p))\<rparr>)"

subsection \<open>The action stack\<close>

text \<open>The oldest action of a full stack is executed on the tournament of the server.\<close>

definition pushAction :: "('a, 't) ActionInterface \<Rightarrow> ClientActionId \<Rightarrow> 'a Action \<Rightarrow> ('a, 't) NetworkServer \<Rightarrow> ('a, 't) NetworkServer result" where
  "pushAction I actionId action s =
     (let stack = mActionStack s @ [(actionId, action)]
      in if length stack > MAX_ACTION_STACK_SIZE
         then bindE (action_redo I (snd (hd stack)) (mServerTournament s)) (\<lambda>(_, t).
                Inr (s\<lparr>mServerTournament := t, mActionStack := tl stack\<rparr>))
         else Inr (s\<lparr>mActionStack := stack\<rparr>))"

definition server_postSync :: "'t \<Rightarrow> ('a, 't) NetworkServer \<Rightarrow> ('a, 't) NetworkServer" where
  "server_postSync tournament s =
     (let msg = SYNC tournament [];
          s1 = s\<lparr>mServerTournament := tournament, mActionStack := [],
                 mParticipants := (\<lambda>p. map_option (\<lambda>q. participant_deliver msg (q\<lparr>mIsSyncing := True\<rparr>)) (mParticipants s p))\<rparr>
      in server_emit SyncConfirmed (server_webDeliver msg s1))"

definition server_postAction ::
  "('a, 't) ActionInterface \<Rightarrow> ClientActionId \<Rightarrow> 'a Action \<Rightarrow> ('a, 't) NetworkServer \<Rightarrow> ('a, 't) NetworkServer result" where
  "server_postAction I actionId action s =
     bindE (pushAction I actionId action s) (\<lambda>s1.
       Inr (server_emit (ActionConfirmReceived actionId) (server_deliver (ACTION actionId action) s1)))"

definition server_postUndo :: "ClientActionId \<Rightarrow> ('a, 't) NetworkServer \<Rightarrow> ('a, 't) NetworkServer" where
  "server_postUndo actionId s = server_emit (UndoConfirmReceived actionId)
     (case splitLast actionId (mActionStack s) of
        None \<Rightarrow> s
      | Some (older, _, newer) \<Rightarrow> server_deliver (UNDO actionId) (s\<lparr>mActionStack := older @ newer\<rparr>))"

definition server_join :: "nat \<Rightarrow> ('a, 't) NetworkParticipant \<Rightarrow> ('a, 't) NetworkServer \<Rightarrow> ('a, 't) NetworkServer" where
  "server_join p q s = s\<lparr>mParticipants := (mParticipants s)(p \<mapsto> q)\<rparr>"

definition server_leave :: "nat \<Rightarrow> ('a, 't) NetworkServer \<Rightarrow> ('a, 't) NetworkServer" where
  "server_leave p s = s\<lparr>mParticipants := (mParticipants s)(p := None)\<rparr>"

definition server_start :: "bool \<Rightarrow> ('a, 't) NetworkServer \<Rightarrow> ('a, 't) NetworkServer" where
  "server_start bound s = (if mServerState s \<noteq> STOPPED \<or> \<not> bound then s else s\<lparr>mServerState := STARTED\<rparr>)"

text \<open>\<open>server_stop\<close> also returns the participants with their farewell, which they still write.\<close>

definition server_stop :: "('a, 't) NetworkServer \<Rightarrow> (nat \<rightharpoonup> ('a, 't) NetworkParticipant) \<times> ('a, 't) NetworkServer" where
  "server_stop s =
     (if mServerState s \<noteq> STARTED then (Map.empty, s)
      else (\<lambda>p. map_option (participant_deliver QUIT) (mParticipants s p),
            s\<lparr>mParticipants := Map.empty, mServerState := STOPPED\<rparr>))"

definition deliverAction ::
  "('a, 't) ActionInterface \<Rightarrow> ClientActionId \<Rightarrow> 'a Action \<Rightarrow> nat \<Rightarrow> ('a, 't) NetworkServer \<Rightarrow> ('a, 't) NetworkServer result" where
  "deliverAction I actionId action sender s =
     bindE (pushAction I actionId action s) (\<lambda>s1.
       let s2 = server_emit (ActionReceived actionId (freshClone I action)) s1;
           s3 = s2\<lparr>mParticipants := (\<lambda>p. map_option
                  (participant_deliver (if p = sender then ACTION_ACK actionId else ACTION actionId action)) (mParticipants s2 p))\<rparr>
       in Inr (server_webDeliver (ACTION actionId action) s3))"

subsection \<open>Participants\<close>

definition participant_start :: "nat \<Rightarrow> int \<Rightarrow> ('a, 't) NetworkMessage \<Rightarrow> ('a, 't) NetworkServer \<Rightarrow> ('a, 't) NetworkServer" where
  "participant_start p time msg s =
     (case msg of
        CLOCK_SYNC_REQUEST \<Rightarrow>
          server_join p (participant_deliver (SYNC (mServerTournament s) (mActionStack s))
                          (participant_deliver (CLOCK_SYNC time) newNetworkParticipant)) s
      | _ \<Rightarrow> s)"

text \<open>A message of a joined participant; \<open>None\<close> is a read error.\<close>

definition participant_readMessage ::
  "('a, 't) ActionInterface \<Rightarrow> nat \<Rightarrow> ('a, 't) NetworkMessage option \<Rightarrow> ('a, 't) NetworkServer \<Rightarrow> ('a, 't) NetworkServer result" where
  "participant_readMessage I p received s =
     (case mParticipants s p of
        None \<Rightarrow> Inr s
      | Some q \<Rightarrow>
          (case received of
             None \<Rightarrow> Inr (server_leave p s)
           | Some msg \<Rightarrow>
               (case msg of
                  QUIT \<Rightarrow> Inr (server_leave p s)
                | SYNC_ACK \<Rightarrow>
                    Inr (if \<not> mIsSyncing q then s else s\<lparr>mParticipants := (mParticipants s)(p \<mapsto> q\<lparr>mIsSyncing := False\<rparr>)\<rparr>)
                | ACTION actionId action \<Rightarrow> if mIsSyncing q then Inr s else deliverAction I actionId action p s
                | _ \<Rightarrow> Inr s)))"

text \<open>The first message of the queue is written; a write error removes the participant.\<close>

definition participant_written :: "nat \<Rightarrow> bool \<Rightarrow> ('a, 't) NetworkServer \<Rightarrow> ('a, 't) NetworkServer" where
  "participant_written p ok s =
     (case mParticipants s p of
        None \<Rightarrow> s
      | Some q \<Rightarrow> if \<not> ok then server_leave p s
                  else s\<lparr>mParticipants := (mParticipants s)(p \<mapsto> q\<lparr>mMessageQueue := tl (mMessageQueue q)\<rparr>)\<rparr>)"

subsection \<open>The manager's side of the signals\<close>

text \<open>\<^verbatim>\<open>StoreManager::setInterface\<close> connects each signal with the operation of the manager.\<close>

definition handleSignal ::
  "('a, 't) ActionInterface \<Rightarrow> ('t \<Rightarrow> TournamentId) \<Rightarrow> ('a, 't) NetworkSignal \<Rightarrow> ('a, 't) StoreManager \<Rightarrow> ('a, 't) StoreManager result" where
  "handleSignal I getId sig m =
     (case sig of
        ActionReceived i a \<Rightarrow> receiveAction I i a m
      | ActionConfirmReceived i \<Rightarrow> receiveActionConfirm i m
      | UndoReceived i \<Rightarrow> receiveUndo I i m
      | UndoConfirmReceived i \<Rightarrow> Inr (receiveUndoConfirm i m)
      | SyncReceived payload \<Rightarrow> receiveSync getId payload m
      | SyncConfirmed \<Rightarrow> Inr (confirmSync m))"

end
