(* ===== verification/Network_Client.thy ===== *)
theory Network_Client
  imports Network_Server "HOL-Library.Signed_Division"
begin

section \<open>The client of the network\<close>

text \<open>
  Models \<^verbatim>\<open>src/ui/network/network_client.cpp\<close> and \<^verbatim>\<open>src/ui/store_managers/client_store_manager.cpp\<close>: the connection of a
  client, the actions it has not seen confirmed, which survive a lost connection and are sent again, and the
  signals to the store manager. As for the server, a message is its decoded content, \<open>Undecodable\<close> stands for a message
  that fails to decode and a handler of the thread is a step. Emitted signals are appended to \<open>mSignals\<close>, which
  the thread of the user interface handles in order.
\<close>

datatype NetworkClientState = NOT_CONNECTED | CONNECTED | CONNECTING | DISCONNECTING

datatype ConnectionSignal =
    ConnectionAttemptFailed
  | ConnectionLost
  | ConnectionShutdown
  | ConnectionAttemptSucceeded
  | StateChanged NetworkClientState
  | ClockSynchronized int

record ('a, 't) NetworkClient =
  mClientState :: NetworkClientState
  mConnected :: bool
  mQuitPosted :: bool
  mWriteQueue :: "('a, 't) NetworkMessage list"
  mUnconfirmed :: "'a ActionList"
  mSignals :: "('a, 't) NetworkSignal list"
  mConnectionSignals :: "ConnectionSignal list"

definition newNetworkClient :: "('a, 't) NetworkClient" where
  "newNetworkClient = \<lparr>mClientState = NOT_CONNECTED, mConnected = False, mQuitPosted = False, mWriteQueue = [],
     mUnconfirmed = [], mSignals = [], mConnectionSignals = []\<rparr>"

text \<open>What a read gives: an error, a message whose body does not decode, or a message.\<close>

datatype ('a, 't) Read = ReadError | Undecodable | Received "('a, 't) NetworkMessage"

subsection \<open>Helpers\<close>

definition client_emit :: "('a, 't) NetworkSignal \<Rightarrow> ('a, 't) NetworkClient \<Rightarrow> ('a, 't) NetworkClient" where
  "client_emit sig c = c\<lparr>mSignals := mSignals c @ [sig]\<rparr>"

definition connection_emit :: "ConnectionSignal list \<Rightarrow> ('a, 't) NetworkClient \<Rightarrow> ('a, 't) NetworkClient" where
  "connection_emit sigs c = c\<lparr>mConnectionSignals := mConnectionSignals c @ sigs\<rparr>"

definition client_setState :: "NetworkClientState \<Rightarrow> ('a, 't) NetworkClient \<Rightarrow> ('a, 't) NetworkClient" where
  "client_setState st c = connection_emit [StateChanged st] (c\<lparr>mClientState := st\<rparr>)"

definition client_deliver :: "('a, 't) NetworkMessage \<Rightarrow> ('a, 't) NetworkClient \<Rightarrow> ('a, 't) NetworkClient" where
  "client_deliver msg c = c\<lparr>mWriteQueue := mWriteQueue c @ [msg]\<rparr>"

definition killConnection :: "('a, 't) NetworkClient \<Rightarrow> ('a, 't) NetworkClient" where
  "killConnection c = c\<lparr>mConnected := False, mWriteQueue := []\<rparr>"

definition loseConnection :: "('a, 't) NetworkClient \<Rightarrow> ('a, 't) NetworkClient" where
  "loseConnection c = client_setState NOT_CONNECTED (connection_emit [ConnectionLost] (killConnection c))"

definition failConnection :: "('a, 't) NetworkClient \<Rightarrow> ('a, 't) NetworkClient" where
  "failConnection c = connection_emit [ConnectionAttemptFailed] (client_setState NOT_CONNECTED (killConnection c))"

subsection \<open>Requests of the manager\<close>

definition client_postSync :: "'t \<Rightarrow> ('a, 't) NetworkClient \<Rightarrow> ('a, 't) NetworkClient result" where
  "client_postSync t c = Inl (RuntimeError ''Attempted to postSync from network client'')"

definition client_postUndo :: "ClientActionId \<Rightarrow> ('a, 't) NetworkClient \<Rightarrow> ('a, 't) NetworkClient result" where
  "client_postUndo i c = Inl (RuntimeError ''Attempted to postUndo from network client'')"

definition client_postAction :: "ClientActionId \<Rightarrow> 'a Action \<Rightarrow> ('a, 't) NetworkClient \<Rightarrow> ('a, 't) NetworkClient" where
  "client_postAction actionId action c =
     (let c1 = c\<lparr>mUnconfirmed := mUnconfirmed c @ [(actionId, action)]\<rparr>
      in if \<not> mConnected c then c1 else client_deliver (ACTION actionId action) c1)"

definition client_connect :: "('a, 't) NetworkClient \<Rightarrow> ('a, 't) NetworkClient" where
  "client_connect c = (client_setState CONNECTING c)\<lparr>mQuitPosted := False\<rparr>"

definition client_disconnect :: "('a, 't) NetworkClient \<Rightarrow> ('a, 't) NetworkClient" where
  "client_disconnect c =
     (if mClientState c \<noteq> CONNECTED then c
      else client_deliver QUIT ((client_setState DISCONNECTING c)\<lparr>mQuitPosted := True\<rparr>))"

definition client_stop :: "('a, 't) NetworkClient \<Rightarrow> ('a, 't) NetworkClient" where
  "client_stop c = (if mClientState c = NOT_CONNECTED then c else client_disconnect c)"

subsection \<open>The stages of a connection\<close>

text \<open>The socket is connected, or not.\<close>

definition client_connectDone :: "bool \<Rightarrow> ('a, 't) NetworkClient \<Rightarrow> ('a, 't) NetworkClient" where
  "client_connectDone ok c = (if \<not> ok then failConnection c else c\<lparr>mConnected := True\<rparr>)"

definition client_connectJoin :: "bool \<Rightarrow> ('a, 't) NetworkClient \<Rightarrow> ('a, 't) NetworkClient" where
  "client_connectJoin ok c = (if \<not> ok then failConnection c else c)"

text \<open>The clock difference is the master's time less the middle of the request; the division truncates.\<close>

definition clockDiff :: "int \<Rightarrow> int \<Rightarrow> int \<Rightarrow> int" where
  "clockDiff p1 t1 t2 = p1 - (t1 + t2) sdiv 2"

definition client_connectSynchronizeClocks :: "bool \<Rightarrow> ('a, 't) Read \<Rightarrow> int \<Rightarrow> int \<Rightarrow> ('a, 't) NetworkClient \<Rightarrow> ('a, 't) NetworkClient" where
  "client_connectSynchronizeClocks written r t1 t2 c =
     (if \<not> written then failConnection c
      else case r of
          Received (CLOCK_SYNC p1) \<Rightarrow> connection_emit [ClockSynchronized (clockDiff p1 t1 t2)] c
        | _ \<Rightarrow> failConnection c)"

text \<open>Executing fresh clones of a list of actions, in order.\<close>

fun redoClones :: "('a, 't) ActionInterface \<Rightarrow> 'a ActionList \<Rightarrow> 't \<Rightarrow> ('a ActionList \<times> 't) result" where
  "redoClones I [] t = Inr ([], t)"
| "redoClones I ((i, a) # xs) t =
     bindE (action_redo I (freshClone I a) t) (\<lambda>(a', t1). bindE (redoClones I xs t1) (\<lambda>(xs', t2). Inr ((i, a') # xs', t2)))"

text \<open>The handler does not look at the error code, and the type of a message that was not read is indeterminate.\<close>

definition client_connectSync ::
  "('a, 't) ActionInterface \<Rightarrow> ('a, 't) Read \<Rightarrow> ('a, 't) NetworkClient \<Rightarrow> ('a, 't) NetworkClient result" where
  "client_connectSync I r c =
     (case r of
        Received (SYNC tournament sharedActions) \<Rightarrow>
          bindE (redoClones I sharedActions tournament) (\<lambda>(uniqueActions, t1).
          let missing = filter (\<lambda>(i, a). i \<notin> fst ` set sharedActions) (mUnconfirmed c);
              resent = map (\<lambda>(i, a). (i, freshClone I a)) missing
          in bindE (redoClones I missing t1) (\<lambda>(uniqueUnconfirmed, t2).
               let c1 = c\<lparr>mUnconfirmed := resent\<rparr>;
                   c2 = fold (\<lambda>(i, a). client_deliver (ACTION i a)) resent (client_deliver SYNC_ACK c1);
                   c3 = client_emit (SyncReceived \<lparr>payload_tournament = t2, payload_confirmed = uniqueActions,
                     payload_unconfirmed = uniqueUnconfirmed, payload_undos = {}\<rparr>) c2
               in Inr (connection_emit [ConnectionAttemptSucceeded] (client_setState CONNECTED c3))))
      | ReadError \<Rightarrow> Inl UndefinedBehaviour
      | _ \<Rightarrow> Inr (failConnection c))"

definition client_connectIdle ::
  "('a, 't) ActionInterface \<Rightarrow> ('a, 't) Read \<Rightarrow> ('a, 't) NetworkClient \<Rightarrow> ('a, 't) NetworkClient result" where
  "client_connectIdle I r c =
     (case r of
        ReadError \<Rightarrow> Inr (if mQuitPosted c then c else loseConnection c)
      | Undecodable \<Rightarrow> Inr (loseConnection c)
      | Received QUIT \<Rightarrow> Inr (client_setState NOT_CONNECTED (connection_emit [ConnectionShutdown] (killConnection c)))
      | Received (SYNC tournament sharedActions) \<Rightarrow>
          bindE (redoClones I sharedActions tournament) (\<lambda>(uniqueActions, t1).
            Inr ((client_emit (SyncReceived \<lparr>payload_tournament = t1, payload_confirmed = uniqueActions,
              payload_unconfirmed = [], payload_undos = {}\<rparr>) (client_deliver SYNC_ACK c))\<lparr>mUnconfirmed := []\<rparr>))
      | Received (ACTION i a) \<Rightarrow> Inr (client_emit (ActionReceived i a) c)
      | Received (ACTION_ACK i) \<Rightarrow>
          Inr (case splitLast i (mUnconfirmed c) of
                 None \<Rightarrow> c
               | Some (older, _, newer) \<Rightarrow> client_emit (ActionConfirmReceived i) (c\<lparr>mUnconfirmed := older @ newer\<rparr>))
      | Received (UNDO i) \<Rightarrow> Inr (client_emit (UndoReceived i) c)
      | Received _ \<Rightarrow> Inr c)"

text \<open>The end of a write: the next message follows, or the connection is closed after a farewell.\<close>

definition client_written :: "bool \<Rightarrow> ('a, 't) NetworkClient \<Rightarrow> ('a, 't) NetworkClient" where
  "client_written ok c =
     (if \<not> ok then (if \<not> mConnected c then c else loseConnection c)
      else let c1 = c\<lparr>mWriteQueue := tl (mWriteQueue c)\<rparr>
           in if mWriteQueue c1 \<noteq> [] \<or> \<not> mQuitPosted c then c1
              else (connection_emit [ConnectionShutdown] (client_setState NOT_CONNECTED (killConnection c1)))\<lparr>mQuitPosted := False\<rparr>)"

subsection \<open>The client's store manager\<close>

text \<open>The manager tracks the state of the connection and the clock of the master; it has no undo.\<close>

record ClientStoreManager =
  mNetworkClientState :: NetworkClientState
  mClockDiff :: int

definition newClientStoreManager :: ClientStoreManager where
  "newClientStoreManager = \<lparr>mNetworkClientState = NOT_CONNECTED, mClockDiff = 0\<rparr>"

text \<open>The operations that start or end a connection also say whether the network client is asked to.\<close>

definition csm_connect :: "ClientStoreManager \<Rightarrow> bool \<times> ClientStoreManager" where
  "csm_connect m = (if mNetworkClientState m \<noteq> NOT_CONNECTED then (False, m) else (True, m\<lparr>mNetworkClientState := CONNECTING\<rparr>))"

definition csm_disconnect :: "ClientStoreManager \<Rightarrow> bool \<times> ClientStoreManager" where
  "csm_disconnect m = (if mNetworkClientState m \<noteq> CONNECTED then (False, m) else (True, m\<lparr>mNetworkClientState := DISCONNECTING\<rparr>))"

text \<open>The slots of the signals that the manager connects; \<^verbatim>\<open>stateChanged\<close> is not one of them.\<close>

definition csm_handle :: "ConnectionSignal \<Rightarrow> ClientStoreManager \<Rightarrow> ClientStoreManager" where
  "csm_handle sig m =
     (case sig of
        ConnectionLost \<Rightarrow> m\<lparr>mNetworkClientState := NOT_CONNECTED\<rparr>
      | ConnectionShutdown \<Rightarrow> m\<lparr>mNetworkClientState := NOT_CONNECTED\<rparr>
      | ConnectionAttemptFailed \<Rightarrow> m\<lparr>mNetworkClientState := NOT_CONNECTED\<rparr>
      | ConnectionAttemptSucceeded \<Rightarrow> m\<lparr>mNetworkClientState := CONNECTED\<rparr>
      | ClockSynchronized d \<Rightarrow> m\<lparr>mClockDiff := d\<rparr>
      | StateChanged _ \<Rightarrow> m)"

definition masterTime :: "int \<Rightarrow> ClientStoreManager \<Rightarrow> int" where
  "masterTime localTime m = localTime + mClockDiff m"

definition csm_canUndo :: "ClientStoreManager \<Rightarrow> bool" where
  "csm_canUndo m = False"

definition csm_canRedo :: "ClientStoreManager \<Rightarrow> bool" where
  "csm_canRedo m = False"

definition csm_undo :: "ClientStoreManager \<Rightarrow> ClientStoreManager result" where
  "csm_undo m = Inl (RuntimeError ''Attempted to call undo from ClientStoreManager'')"

definition csm_redo :: "ClientStoreManager \<Rightarrow> ClientStoreManager result" where
  "csm_redo m = Inl (RuntimeError ''Attempted to call undo from ClientStoreManager'')"

end
