(* ===== verification/Dispatched_Actions.thy ===== *)
theory Dispatched_Actions
  imports Store_Protocol
begin

section \<open>Field actions as dispatched actions\<close>

text \<open>
  The objects that the store managers dispatch: the subclasses of \<^verbatim>\<open>Action\<close> of theory \<open>Field_Actions\<close> in one type,
  with their virtual methods. They meet the contract \<open>revertible_actions\<close> of the store manager for every
  tournament, so the invariant of the manager holds for them; the first properties of the manager are stated here.
\<close>

datatype FieldChange =
    PlayersFirstName "(PlayerId, string) FieldAction"
  | PlayersLastName "(PlayerId, string) FieldAction"
  | PlayersAge "(PlayerId, PlayerAge option) FieldAction"
  | PlayersRank "(PlayerId, PlayerRank option) FieldAction"
  | PlayersCountry "(PlayerId, PlayerCountry option) FieldAction"
  | PlayersClub "(PlayerId, string) FieldAction"
  | PlayersSex "(PlayerId, PlayerSex option) FieldAction"
  | CategoriesName "(CategoryId, string) FieldAction"
  | TournamentName "string TournamentFieldAction"
  | TournamentLocation "string TournamentFieldAction"
  | TournamentDate "string TournamentFieldAction"
  | TournamentWebName "string TournamentFieldAction"

definition freshFieldAction :: "('k, 'v) FieldAction \<Rightarrow> ('k, 'v) FieldAction" where
  "freshFieldAction a = newFieldAction (mIdsToChange a) (mValue a)"

definition freshTournamentField :: "string TournamentFieldAction \<Rightarrow> string TournamentFieldAction" where
  "freshTournamentField a = \<lparr>mNewField = mNewField a, mOldField = ''''\<rparr>"

definition mapAction :: "('x \<Rightarrow> 'y) \<Rightarrow> ('x \<times> 't) result \<Rightarrow> ('y \<times> 't) result" where
  "mapAction c r = bindE r (\<lambda>(a, t). Inr (c a, t))"

fun change_freshClone :: "FieldChange \<Rightarrow> FieldChange" where
  "change_freshClone (PlayersFirstName a) = PlayersFirstName (freshFieldAction a)"
| "change_freshClone (PlayersLastName a) = PlayersLastName (freshFieldAction a)"
| "change_freshClone (PlayersAge a) = PlayersAge (freshFieldAction a)"
| "change_freshClone (PlayersRank a) = PlayersRank (freshFieldAction a)"
| "change_freshClone (PlayersCountry a) = PlayersCountry (freshFieldAction a)"
| "change_freshClone (PlayersClub a) = PlayersClub (freshFieldAction a)"
| "change_freshClone (PlayersSex a) = PlayersSex (freshFieldAction a)"
| "change_freshClone (CategoriesName a) = CategoriesName (freshFieldAction a)"
| "change_freshClone (TournamentName a) = TournamentName (freshTournamentField a)"
| "change_freshClone (TournamentLocation a) = TournamentLocation (freshTournamentField a)"
| "change_freshClone (TournamentDate a) = TournamentDate (freshTournamentField a)"
| "change_freshClone (TournamentWebName a) = TournamentWebName (freshTournamentField a)"

fun change_redo :: "FieldChange \<Rightarrow> TournamentStore \<Rightarrow> (FieldChange \<times> TournamentStore) result" where
  "change_redo (PlayersFirstName a) t = mapAction PlayersFirstName (ChangePlayersFirstNameAction_redo a t)"
| "change_redo (PlayersLastName a) t = mapAction PlayersLastName (ChangePlayersLastNameAction_redo a t)"
| "change_redo (PlayersAge a) t = mapAction PlayersAge (ChangePlayersAgeAction_redo a t)"
| "change_redo (PlayersRank a) t = mapAction PlayersRank (ChangePlayersRankAction_redo a t)"
| "change_redo (PlayersCountry a) t = mapAction PlayersCountry (ChangePlayersCountryAction_redo a t)"
| "change_redo (PlayersClub a) t = mapAction PlayersClub (ChangePlayersClubAction_redo a t)"
| "change_redo (PlayersSex a) t = mapAction PlayersSex (ChangePlayersSexAction_redo a t)"
| "change_redo (CategoriesName a) t = mapAction CategoriesName (ChangeCategoriesNameAction_redo a t)"
| "change_redo (TournamentName a) t = mapAction TournamentName (Inr (ChangeTournamentNameAction_redo a t))"
| "change_redo (TournamentLocation a) t = mapAction TournamentLocation (Inr (ChangeTournamentLocationAction_redo a t))"
| "change_redo (TournamentDate a) t = mapAction TournamentDate (Inr (ChangeTournamentDateAction_redo a t))"
| "change_redo (TournamentWebName a) t = mapAction TournamentWebName (Inr (ChangeTournamentWebNameAction_redo a t))"

fun change_undo :: "FieldChange \<Rightarrow> TournamentStore \<Rightarrow> (FieldChange \<times> TournamentStore) result" where
  "change_undo (PlayersFirstName a) t = mapAction PlayersFirstName (ChangePlayersFirstNameAction_undo a t)"
| "change_undo (PlayersLastName a) t = mapAction PlayersLastName (ChangePlayersLastNameAction_undo a t)"
| "change_undo (PlayersAge a) t = mapAction PlayersAge (ChangePlayersAgeAction_undo a t)"
| "change_undo (PlayersRank a) t = mapAction PlayersRank (ChangePlayersRankAction_undo a t)"
| "change_undo (PlayersCountry a) t = mapAction PlayersCountry (ChangePlayersCountryAction_undo a t)"
| "change_undo (PlayersClub a) t = mapAction PlayersClub (ChangePlayersClubAction_undo a t)"
| "change_undo (PlayersSex a) t = mapAction PlayersSex (ChangePlayersSexAction_undo a t)"
| "change_undo (CategoriesName a) t = mapAction CategoriesName (ChangeCategoriesNameAction_undo a t)"
| "change_undo (TournamentName a) t = Inr (TournamentName a, ChangeTournamentNameAction_undo a t)"
| "change_undo (TournamentLocation a) t = Inr (TournamentLocation a, ChangeTournamentLocationAction_undo a t)"
| "change_undo (TournamentDate a) t = Inr (TournamentDate a, ChangeTournamentDateAction_undo a t)"
| "change_undo (TournamentWebName a) t = Inr (TournamentWebName a, ChangeTournamentWebNameAction_undo a t)"

definition fieldChanges :: "(FieldChange, TournamentStore) ActionInterface" where
  "fieldChanges = \<lparr>redoImpl = change_redo, undoImpl = change_undo, freshCloneImpl = change_freshClone\<rparr>"

subsection \<open>The contract\<close>

lemma freshFieldAction_simps [simp]:
  "freshFieldAction (newFieldAction ids v) = newFieldAction ids v"
  "mIdsToChange (newFieldAction ids v) = ids" "mValue (newFieldAction ids v) = v"
  by (simp_all add: freshFieldAction_def newFieldAction_def)

lemma fresh_fields [simp]: "freshFieldAction (freshFieldAction a) = freshFieldAction a"
  by (simp add: freshFieldAction_def)

lemma fresh_tournament_fields [simp]: "freshTournamentField (freshTournamentField a) = freshTournamentField a"
  by (simp add: freshTournamentField_def)

lemma changeField_step_keeps:
  "changeField_step c l p g u k (a, s) = Inr (a', s') \<Longrightarrow> freshFieldAction a' = freshFieldAction a"
  by (auto simp: changeField_step_def freshFieldAction_def split: if_splits)

lemma changeField_redo_keeps:
  assumes "changeField_redo c l p g u a s = Inr (a', s')"
  shows "freshFieldAction a' = freshFieldAction a"
proof -
  have "foldE (changeField_step c l p g u) ks (a, s) = Inr (a', s') \<Longrightarrow> freshFieldAction a' = freshFieldAction a" for ks a s
    by (induction ks arbitrary: a s) (auto dest: changeField_step_keeps)
  with assms show ?thesis by (simp add: changeField_redo_def)
qed

text \<open>What the contract asks of one action, for the two kinds of field actions.\<close>

definition meets_contract :: "FieldChange \<Rightarrow> TournamentStore \<Rightarrow> bool" where
  "meets_contract a t \<longleftrightarrow> (\<exists>a' b t'. change_redo (change_freshClone a) t = Inr (a', t') \<and> change_undo a' t' = Inr (b, t) \<and>
     change_freshClone a' = change_freshClone a \<and> change_freshClone b = change_freshClone a \<and>
     (\<forall>s. change_redo b s = change_redo (change_freshClone a) s))"

lemma field_action_contract:
  assumes "\<And>ids v t. \<exists>a t'. redo (newFieldAction ids v) t = Inr (a, t') \<and> undo a t' = Inr (newFieldAction ids v, t) \<and> P a t' ids v"
    and "\<And>a s a' s'. redo a s = Inr (a', s') \<Longrightarrow> freshFieldAction a' = freshFieldAction a"
    and "\<And>a s. change_redo (C a) s = mapAction C (redo a s)" and "\<And>a s. change_undo (C a) s = mapAction C (undo a s)"
    and "\<And>a. change_freshClone (C a) = C (freshFieldAction a)"
  shows "meets_contract (C a) t"
proof -
  obtain a' t' where *: "redo (freshFieldAction a) t = Inr (a', t')" "undo a' t' = Inr (freshFieldAction a, t)"
    using assms(1)[of "mIdsToChange a" "mValue a" t] by (auto simp: freshFieldAction_def)
  moreover from assms(2)[OF *(1)] have "freshFieldAction a' = freshFieldAction a" by simp
  ultimately show ?thesis using assms(3-5) by (simp add: meets_contract_def mapAction_def)
qed

lemma meets_contract: "meets_contract a t"
proof (cases a)
  case (PlayersFirstName b)
  show ?thesis unfolding PlayersFirstName by (rule field_action_contract[OF first_name_players.change_undo[OF TrueI] changeField_redo_keeps])
    (simp_all add: ChangePlayersFirstNameAction_redo_def ChangePlayersFirstNameAction_undo_def)
next
  case (PlayersLastName b)
  show ?thesis unfolding PlayersLastName by (rule field_action_contract[OF last_name_players.change_undo[OF TrueI] changeField_redo_keeps])
    (simp_all add: ChangePlayersLastNameAction_redo_def ChangePlayersLastNameAction_undo_def)
next
  case (PlayersAge b)
  show ?thesis unfolding PlayersAge by (rule field_action_contract[OF age_players.change_undo[OF TrueI] changeField_redo_keeps])
    (simp_all add: ChangePlayersAgeAction_redo_def ChangePlayersAgeAction_undo_def)
next
  case (PlayersRank b)
  show ?thesis unfolding PlayersRank by (rule field_action_contract[OF rank_players.change_undo[OF TrueI] changeField_redo_keeps])
    (simp_all add: ChangePlayersRankAction_redo_def ChangePlayersRankAction_undo_def)
next
  case (PlayersCountry b)
  show ?thesis unfolding PlayersCountry by (rule field_action_contract[OF country_players.change_undo[OF TrueI] changeField_redo_keeps])
    (simp_all add: ChangePlayersCountryAction_redo_def ChangePlayersCountryAction_undo_def)
next
  case (PlayersClub b)
  show ?thesis unfolding PlayersClub by (rule field_action_contract[OF club_players.change_undo[OF TrueI] changeField_redo_keeps])
    (simp_all add: ChangePlayersClubAction_redo_def ChangePlayersClubAction_undo_def)
next
  case (PlayersSex b)
  show ?thesis unfolding PlayersSex by (rule field_action_contract[OF sex_players.change_undo[OF TrueI] changeField_redo_keeps])
    (simp_all add: ChangePlayersSexAction_redo_def ChangePlayersSexAction_undo_def)
next
  case (CategoriesName b)
  show ?thesis unfolding CategoriesName by (rule field_action_contract[OF name_categories.change_undo[OF TrueI] changeField_redo_keeps])
    (simp_all add: ChangeCategoriesNameAction_redo_def ChangeCategoriesNameAction_undo_def)
qed (simp_all add: meets_contract_def mapAction_def freshTournamentField_def
  ChangeTournamentNameAction_redo_def ChangeTournamentNameAction_undo_def
  ChangeTournamentLocationAction_redo_def ChangeTournamentLocationAction_undo_def
  ChangeTournamentDateAction_redo_def ChangeTournamentDateAction_undo_def
  ChangeTournamentWebNameAction_redo_def ChangeTournamentWebNameAction_undo_def)

lemma change_fresh_fresh: "change_freshClone (change_freshClone a) = change_freshClone a"
  by (cases a) simp_all

interpretation field_changes: revertible_actions fieldChanges
  by unfold_locales (use meets_contract in \<open>simp_all add: fieldChanges_def change_fresh_fresh meets_contract_def\<close>)

subsection \<open>Examples\<close>

text \<open>A manager that has received a new name for the tournament from client 2, and one that has dispatched its own.\<close>

definition renaming :: "string \<Rightarrow> FieldChange Action" where
  "renaming v = Action False (TournamentName \<lparr>mNewField = v, mOldField = ''''\<rparr>)"

lemmas renaming_simps = renaming_def fieldChanges_def action_redo_def freshClone_def mapAction_def freshTournamentField_def
  ChangeTournamentNameAction_redo_def store_simps newStoreManager_def allActions_def trimActionList_def MAX_ACTION_STACK_SIZE_def

lemma renaming_ready: "ready fieldChanges (renaming v)"
  by (simp add: ready_def renaming_simps)

definition exampleManager :: "(FieldChange, TournamentStore) StoreManager" where
  "exampleManager = (newStoreManager 1 ((newTournamentStore 0)\<lparr>mName := ''Open''\<rparr>))
    \<lparr>mConfirmedActionList := [(ClientActionId 2 5, Action True (TournamentName \<lparr>mNewField = ''Open'', mOldField = mName (newTournamentStore 0)\<rparr>))]\<rparr>"

lemma receive_renaming:
  "receiveAction fieldChanges (ClientActionId 2 5) (renaming ''Open'') (newStoreManager 1 (newTournamentStore 0)) = Inr exampleManager"
  by (simp add: receiveAction_def renaming_simps exampleManager_def)

lemma exampleManager_reachable: "sm_reachable fieldChanges exampleManager"
  by (rule sm_received[OF sm_start _ _ receive_renaming]) (simp_all add: newStoreManager_def allActions_def)

lemma exampleManager_history: "history fieldChanges (allActions exampleManager) = [(ClientActionId 2 5, impl (renaming ''Open''))]"
  by (simp add: exampleManager_def history_def renaming_simps)

lemma dispatch_first:
  "\<exists>eng' m. sm_dispatch fieldChanges (renaming v) eng (newStoreManager 1 t) = Inr (eng', m) \<and> canUndo m"
  by (simp add: sm_dispatch_def containsConfirmedAction_def containsUnconfirmedAction_def newStoreManager_def
      generate_unconstrained renaming_simps canUndo_def Let_def split: prod.split)

subsection \<open>Properties\<close>

text \<open>
  C3. In a store manager that is used with actions on fields (the twelve classes of \<open>fieldChanges\<close>, which can be undone), undoing any action of
  its lists, own or foreign, confirmed or not, succeeds and leaves the
  tournament as if the action had never been executed: the tournament is what the remaining actions, in their
  order, make of the same base.
\<close>
theorem undo_as_if_never_dispatched:
  assumes "sm_reachable fieldChanges m" and "i \<in> fst ` set (history fieldChanges (allActions m))"
  shows "\<exists>m' base. sm_undoAction fieldChanges i m = Inr m' \<and>
    history fieldChanges (allActions m') = without i (history fieldChanges (allActions m)) \<and>
    execute fieldChanges (history fieldChanges (allActions m)) base = Inr (mTournament m) \<and>
    execute fieldChanges (without i (history fieldChanges (allActions m))) base = Inr (mTournament m')"
  using assms by (rule field_changes.undo_as_if_never)

theorem undo_as_if_never_dispatched_witness:
  "\<exists>m' base. sm_undoAction fieldChanges (ClientActionId 2 5) exampleManager = Inr m' \<and> history fieldChanges (allActions m') = [] \<and>
    execute fieldChanges [] base = Inr (mTournament m')"
  using undo_as_if_never_dispatched[OF exampleManager_reachable, of "ClientActionId 2 5"]
  unfolding exampleManager_history by auto



text \<open>
  Undo right after dispatching an action succeeds and restores the tournament and the action that the next
  undo would take back.
\<close>
theorem dispatch_undo_restores:
  assumes "sm_reachable fieldChanges m" and "ready fieldChanges a" and "sm_dispatch fieldChanges a eng m = Inr (eng', m1)"
  shows "\<exists>m2. sm_undo fieldChanges m1 = Inr m2 \<and> mTournament m2 = mTournament m \<and> mUndoActionId m2 = mUndoActionId m"
  using assms by (rule field_changes.dispatch_then_undo)

theorem dispatch_undo_restores_witness:
  "\<exists>eng' m1 m2. sm_dispatch fieldChanges (renaming ''Open'') (mt_seed 1) (newStoreManager 1 (newTournamentStore 0)) = Inr (eng', m1) \<and>
    sm_undo fieldChanges m1 = Inr m2 \<and> mTournament m2 = newTournamentStore 0"
proof -
  obtain eng' m1 where d: "sm_dispatch fieldChanges (renaming ''Open'') (mt_seed 1) (newStoreManager 1 (newTournamentStore 0)) = Inr (eng', m1)"
    using dispatch_first by blast
  from dispatch_undo_restores[OF sm_start renaming_ready d] d show ?thesis by (auto simp: newStoreManager_def)
qed

text \<open>
  In every reachable state the manager offers an undo exactly when one of its own actions in the lists is done,
  and the undo it offers never violates an assertion.
\<close>
theorem offered_undo_succeeds:
  assumes "sm_reachable fieldChanges m"
  shows "(canUndo m \<longleftrightarrow> (\<exists>(i, a) \<in> set (allActions m). isDone a \<and> getClientId i = mClientId m)) \<and>
    (canUndo m \<longrightarrow> (\<exists>m'. sm_undo fieldChanges m = Inr m'))"
  using field_changes.undo_button[OF assms] by blast

theorem offered_undo_succeeds_witness:
  "\<exists>eng' m m'. sm_dispatch fieldChanges (renaming ''Open'') (mt_seed 1) (newStoreManager 1 (newTournamentStore 0)) = Inr (eng', m) \<and>
    canUndo m \<and> sm_undo fieldChanges m = Inr m'"
proof -
  obtain eng' m where d: "sm_dispatch fieldChanges (renaming ''Open'') (mt_seed 1) (newStoreManager 1 (newTournamentStore 0)) = Inr (eng', m)" "canUndo m"
    using dispatch_first by blast
  from offered_undo_succeeds[OF sm_dispatched[OF sm_start renaming_ready d(1)]] d show ?thesis by blast
qed

end
