(* ===== verification/Network_System.thy ===== *)
theory Network_System
  imports Network_Client Dispatched_Actions
begin

section \<open>A client and the server together\<close>

text \<open>
  The composition of \<open>Network_Server\<close>, \<open>Network_Client\<close> and \<open>Store_Manager\<close>: the server with one observed participant,
  its network client and the store manager of its user interface, joined by four first-in-first-out queues.
  The other clients and the user of the server are arbitrary further actions and undos. The main result is
  that the replica of the client converges: once the queues are empty, its tournament is the one that the
  stack of the server describes.

  A replica is described by a base tournament, the confirmed and the pending actions; \<open>estep\<close> is the effect that one
  message of the server has on such a description.
\<close>

datatype 'x Event = EAct ClientActionId 'x | EAck ClientActionId | EUndo ClientActionId

type_synonym 'x Labels = "(ClientActionId \<times> 'x) list"

definition pushLabel :: "('x, 't) ActionInterface \<Rightarrow> ClientActionId \<times> 'x \<Rightarrow> 't \<times> 'x Labels \<Rightarrow> ('t \<times> 'x Labels) option" where
  "pushLabel I l = (\<lambda>(B, C).
     let C1 = C @ [l]
     in if length C1 > MAX_ACTION_STACK_SIZE
        then (case redoImpl I (snd (hd C1)) B of Inl e \<Rightarrow> None | Inr (_, B') \<Rightarrow> Some (B', tl C1))
        else Some (B, C1))"

fun estep :: "('x, 't) ActionInterface \<Rightarrow> ClientId \<Rightarrow> 'x Event \<Rightarrow> 't \<times> 'x Labels \<times> 'x Labels \<Rightarrow> ('t \<times> 'x Labels \<times> 'x Labels) option" where
  "estep I c (EAct i x) (B, C, P) =
     (if getClientId i \<noteq> c \<and> i \<notin> fst ` set C then map_option (\<lambda>(B', C'). (B', C', P)) (pushLabel I (i, x) (B, C)) else None)"
| "estep I c (EAck i) (B, C, P) =
     (case P of
        [] \<Rightarrow> None
      | (j, x) # P' \<Rightarrow> if j = i then map_option (\<lambda>(B', C'). (B', C', P')) (pushLabel I (i, x) (B, C)) else None)"
| "estep I c (EUndo i) (B, C, P) = (if i \<in> fst ` set C then Some (B, without i C, P) else None)"

fun run :: "('x, 't) ActionInterface \<Rightarrow> ClientId \<Rightarrow> 'x Event list \<Rightarrow> 't \<times> 'x Labels \<times> 'x Labels \<Rightarrow> ('t \<times> 'x Labels \<times> 'x Labels) option" where
  "run I c [] d = Some d"
| "run I c (e # es) d = Option.bind (estep I c e d) (run I c es)"

lemma run_append: "run I c (es @ fs) d = Option.bind (run I c es d) (run I c fs)"
  by (induction es arbitrary: d) (auto split: Option.bind_split)

lemma run_single: "run I c [e] d = estep I c e d"
  by (cases "estep I c e d") simp_all

fun ackOf :: "'x Event \<Rightarrow> ClientActionId list" where
  "ackOf (EAck i) = [i]"
| "ackOf _ = []"

text \<open>The acknowledgements consume the pending actions in order, and no identifier becomes ambiguous.\<close>

definition own_distinct :: "ClientId \<Rightarrow> 'x Labels \<Rightarrow> 'x Labels \<Rightarrow> bool" where
  "own_distinct c C P \<longleftrightarrow> distinct (map fst (C @ P)) \<and> (\<forall>i \<in> fst ` set P. getClientId i = c)"

lemma pushLabel_cases: "pushLabel I l (B, C) = Some (B', C') \<Longrightarrow> C' = C @ [l] \<or> C' = tl (C @ [l])"
  by (auto simp: pushLabel_def Let_def split: if_splits sum.splits prod.splits)

lemma own_distinct_mono:
  "own_distinct c C P \<Longrightarrow> distinct (map fst C') \<Longrightarrow> fst ` set C' \<subseteq> fst ` set C \<Longrightarrow> own_distinct c C' P"
  by (auto simp: own_distinct_def)

lemma pushLabel_own_distinct:
  assumes "pushLabel I (i, x) (B, C) = Some (B', C')" and "own_distinct c C P" and "i \<notin> fst ` set C" and "i \<notin> fst ` set P"
  shows "own_distinct c C' P"
proof (rule own_distinct_mono)
  show own: "own_distinct c (C @ [(i, x)]) P" using assms(2-4) by (auto simp: own_distinct_def)
  then have "distinct (map fst (C @ [(i, x)]))" by (simp add: own_distinct_def)
  then show "distinct (map fst C')" using pushLabel_cases[OF assms(1)] by (metis distinct_tl map_tl)
  show "fst ` set C' \<subseteq> fst ` set (C @ [(i, x)])"
    using pushLabel_cases[OF assms(1)] by (metis image_mono list.set_sel(2) order_refl subsetI tl_Nil)
qed

lemma estep_own:
  assumes "estep I c e (B, C, P) = Some (B', C', P')" and "own_distinct c C P"
  shows "own_distinct c C' P' \<and> map fst P = ackOf e @ map fst P'"
proof (cases e)
  case (EAct i x)
  with assms show ?thesis using pushLabel_own_distinct[of I i x B C B' C' c P]
    by (auto simp: own_distinct_def split: if_splits)
next
  case (EAck i)
  with assms(1) obtain x where P: "P = (i, x) # P'" "pushLabel I (i, x) (B, C) = Some (B', C')"
    by (auto split: list.splits if_splits)
  have "own_distinct c C P'" "i \<notin> fst ` set C" "i \<notin> fst ` set P'" using assms(2) P(1) by (auto simp: own_distinct_def)
  with pushLabel_own_distinct[OF P(2)] P(1) EAck show ?thesis by simp
next
  case (EUndo i)
  with assms(1) have "C' = without i C" "P' = P" by (auto split: if_splits)
  moreover have "own_distinct c (without i C) P"
    by (rule own_distinct_mono[OF assms(2)]) (use assms(2) in \<open>auto simp: without_def own_distinct_def distinct_map_filter\<close>)
  ultimately show ?thesis using EUndo by simp
qed

lemma run_own:
  "run I c es (B, C, P) = Some (B', C', P') \<Longrightarrow> own_distinct c C P \<Longrightarrow>
    own_distinct c C' P' \<and> map fst P = concat (map ackOf es) @ map fst P'"
proof (induction es arbitrary: B C P)
  case (Cons e es)
  then obtain d where d: "estep I c e (B, C, P) = Some d" "run I c es d = Some (B', C', P')" by (auto split: bind_splits)
  obtain B1 C1 P1 where "d = (B1, C1, P1)" by (cases d)
  with d estep_own[of I c e B C P B1 C1 P1] Cons show ?case by auto
qed simp

subsection \<open>The manager follows the events\<close>

definition in_step :: "('a, 't) ActionInterface \<Rightarrow> 't \<Rightarrow> 'a Labels \<Rightarrow> 'a Labels \<Rightarrow> ('a, 't) StoreManager \<Rightarrow> bool" where
  "in_step I B C P m \<longleftrightarrow> sm_inv I B m \<and> labels I (mConfirmedActionList m) = C \<and> labels I (mUnconfirmedActionList m) = P \<and>
     mUnconfirmedUndos m = {} \<and> mSyncing m = 0 \<and> (\<forall>i \<in> fst ` set P. getClientId i = mClientId m)"

lemma in_step_own: "in_step I B C P m \<Longrightarrow> own_distinct (mClientId m) C P"
  unfolding in_step_def sm_inv_def own_distinct_def allActions_def by (metis map_append map_fst_labels)

text \<open>What the manager's queue of requests to the network means: actions in order.\<close>

definition posts :: "'a ActionList \<Rightarrow> ('a, 't) Message list" where
  "posts xs = map (\<lambda>(i, a). PostAction i a) xs"

context revertible_actions
begin

lemma in_step_trim:
  assumes "sm_inv I B m1" and "mUnconfirmedUndos m1 = {}" and "labels I (mConfirmedActionList m1) = C @ [l]" and "trimActionList m1 = Inr m2"
  shows "\<exists>B' C'. pushLabel I l (B, C) = Some (B', C') \<and> sm_inv I B' m2 \<and> labels I (mConfirmedActionList m2) = C'"
proof -
  obtain B' where B': "sm_inv I B' m2"
    "length (mConfirmedActionList m1) \<le> MAX_ACTION_STACK_SIZE \<Longrightarrow> B' = B \<and> m2 = m1"
    "\<And>i a xs. length (mConfirmedActionList m1) > MAX_ACTION_STACK_SIZE \<Longrightarrow> mConfirmedActionList m1 = (i, a) # xs \<Longrightarrow> isDone a \<Longrightarrow>
      executed I a B B' \<and> mConfirmedActionList m2 = xs"
    using sm_inv_trim[OF assms(1)] assms(4) by (metis Inr_inject)
  obtain i a xs where c: "mConfirmedActionList m1 = (i, a) # xs"
    using assms(3) by (cases "mConfirmedActionList m1") auto
  have len: "length (mConfirmedActionList m1) = length (C @ [l])" using assms(3) by (metis labels_def length_map)
  have hd: "hd (C @ [l]) = (i, freshCloneImpl I (impl a))" "tl (C @ [l]) = labels I xs"
    using arg_cong[OF assms(3), of hd] arg_cong[OF assms(3), of tl] c by simp_all
  have dn: "isDone a" using assms(1,2) c by (simp add: sm_inv_def allActions_def)
  show ?thesis
  proof (cases "length (C @ [l]) > MAX_ACTION_STACK_SIZE")
    case True
    with B'(3)[OF _ c dn] len have "redoImpl I (snd (hd (C @ [l]))) B = Inr (impl a, B')" "mConfirmedActionList m2 = xs"
      by (simp_all add: hd(1) executed_def)
    with True B'(1) hd(2) show ?thesis by (simp add: pushLabel_def)
  next
    case False
    with B'(1,2) len assms(3) show ?thesis by (simp add: pushLabel_def)
  qed
qed

lemma in_step_action:
  assumes "in_step I B C P m" and "getClientId i \<noteq> mClientId m" and "i \<notin> fst ` set C"
  shows "\<exists>m' B' C'. receiveAction I i a m = Inr m' \<and> estep I (mClientId m) (EAct i (freshCloneImpl I (impl a))) (B, C, P) = Some (B', C', P) \<and>
    in_step I B' C' P m' \<and> mClientId m' = mClientId m \<and> mPosted m' = mPosted m"
proof -
  have inv: "sm_inv I B m" "mSyncing m = 0" "labels I (mConfirmedActionList m) = C" "labels I (mUnconfirmedActionList m) = P"
    "mUnconfirmedUndos m = {}" using assms(1) by (simp_all add: in_step_def)
  have "i \<notin> fst ` set P" using assms(1,2) by (auto simp: in_step_def)
  then have i: "i \<notin> fst ` set (allActions m)" using assms(3) inv(3,4) by (simp add: allActions_def image_Un flip: fst_labels[of I])
  obtain a' m1 m2 where m: "receiveAction I i a m = Inr m2" "sm_inv I B m1" "trimActionList m1 = Inr m2"
    "labels I (allActions m1) = labels I (mConfirmedActionList m @ (i, a') # mUnconfirmedActionList m)"
    "freshCloneImpl I (impl a') = freshCloneImpl I (impl a)" "mUnconfirmedUndos m1 = {}"
    "mConfirmedActionList m1 = mConfirmedActionList m @ [(i, a')]" "mClientId m1 = mClientId m" "mSyncing m1 = 0" "mPosted m1 = mPosted m"
    using receiveAction_inv[OF inv(1,2) i assms(2), of a] inv(5) by auto
  have c1: "labels I (mConfirmedActionList m1) = C @ [(i, freshCloneImpl I (impl a))]" using m(5,7) inv(3) by simp
  have "labels I (mUnconfirmedActionList m1) = P" using m(4,7) inv(4) by (simp add: allActions_def)
  moreover obtain B' C' where "pushLabel I (i, freshCloneImpl I (impl a)) (B, C) = Some (B', C')" "sm_inv I B' m2"
    "labels I (mConfirmedActionList m2) = C'" using in_step_trim[OF m(2,6) c1 m(3)] by blast
  ultimately show ?thesis using m trim_frame[OF m(3)] assms by (auto simp: in_step_def)
qed

lemma in_step_ack:
  assumes "in_step I B C ((i, x) # P) m"
  shows "\<exists>m' B' C'. receiveActionConfirm i m = Inr m' \<and> estep I (mClientId m) (EAck i) (B, C, (i, x) # P) = Some (B', C', P) \<and>
    in_step I B' C' P m' \<and> mClientId m' = mClientId m \<and> mPosted m' = mPosted m"
proof -
  have inv: "sm_inv I B m" "mSyncing m = 0" "labels I (mConfirmedActionList m) = C" "labels I (mUnconfirmedActionList m) = (i, x) # P"
    "mUnconfirmedUndos m = {}" using assms by (simp_all add: in_step_def)
  obtain a rest where u: "mUnconfirmedActionList m = (i, a) # rest" "freshCloneImpl I (impl a) = x" "labels I rest = P"
    using inv(4) by (auto simp: labels_Cons_iff)
  obtain m1 m2 where m: "receiveActionConfirm i m = Inr m2" "trimActionList m1 = Inr m2" "sm_inv I B m1"
    "mConfirmedActionList m1 = mConfirmedActionList m @ [(i, a)]" "mUnconfirmedActionList m1 = rest" "mUnconfirmedUndos m1 = {}"
    "mClientId m1 = mClientId m" "mSyncing m1 = 0" "mPosted m1 = mPosted m"
    using receiveActionConfirm_inv[OF inv(1,2) u(1)] inv(5) by auto
  have "labels I (mConfirmedActionList m1) = C @ [(i, x)]" using m(4) inv(3) u(2) by simp
  from in_step_trim[OF m(3,6) this m(2)] m trim_frame[OF m(2)] u assms show ?thesis by (auto simp: in_step_def)
qed

lemma in_step_undo:
  assumes "in_step I B C P m" and "i \<in> fst ` set C"
  shows "\<exists>m'. receiveUndo I i m = Inr m' \<and> in_step I B (without i C) P m' \<and> mClientId m' = mClientId m \<and> mPosted m' = mPosted m"
proof -
  have inv: "sm_inv I B m" "mSyncing m = 0" "labels I (mConfirmedActionList m) = C" using assms by (simp_all add: in_step_def)
  then have "i \<in> fst ` set (mConfirmedActionList m)" using assms(2) by (simp flip: fst_labels[of I])
  from receiveUndo_inv[OF inv(1,2) this] assms show ?thesis by (auto simp: in_step_def)
qed

lemma in_step_dispatch:
  assumes "in_step I B C P m" and "ready I a" and "sm_dispatch I a eng m = Inr (eng', m')"
  shows "\<exists>i. in_step I B C (P @ [(i, freshCloneImpl I (impl a))]) m' \<and> mClientId m' = mClientId m \<and>
    mPosted m' = mPosted m @ [PostAction i (freshClone I a)]"
proof -
  have inv: "sm_inv I B m" using assms(1) by (simp add: in_step_def)
  from assms(3) obtain r a' t where d: "action_redo I a (mTournament m) = Inr (a', t)"
    "m' = m\<lparr>mTournament := t, mUnconfirmedActionList := mUnconfirmedActionList m @ [(ClientActionId (mClientId m) r, a')],
       mUndoActionId := Some (ClientActionId (mClientId m) r), mPosted := mPosted m @ [PostAction (ClientActionId (mClientId m) r) (freshClone I a)]\<rparr>"
    by (auto simp: sm_dispatch_def Let_def split: option.splits)
  obtain b u where b: "action_redo I a (mTournament m) = Inr (b, u)" "freshCloneImpl I (impl b) = freshCloneImpl I (impl a)"
    using action_redo_ready[OF assms(2)] by blast
  then have "freshCloneImpl I (impl a') = freshCloneImpl I (impl a)" using d(1) by simp
  moreover have "sm_inv I B m'" using dispatch_inv[OF inv assms(2,3)] by blast
  ultimately show ?thesis using assms(1) d(2)
    by (intro exI[of _ "ClientActionId (mClientId m) r"]) (auto simp: in_step_def)
qed

end

subsection \<open>The system\<close>

record ('a, 't) System =
  sys_server :: "('a, 't) NetworkServer"
  sys_client :: "('a, 't) NetworkClient"
  sys_manager :: "('a, 't) StoreManager"

fun msgEvent :: "('a, 't) ActionInterface \<Rightarrow> ('a, 't) NetworkMessage \<Rightarrow> 'a Event list" where
  "msgEvent I (ACTION i a) = [EAct i (freshCloneImpl I (impl a))]"
| "msgEvent I (ACTION_ACK i) = [EAck i]"
| "msgEvent I (UNDO i) = [EUndo i]"
| "msgEvent I _ = []"

fun sigEvent :: "('a, 't) ActionInterface \<Rightarrow> ('a, 't) NetworkSignal \<Rightarrow> 'a Event list" where
  "sigEvent I (ActionReceived i a) = [EAct i (freshCloneImpl I (impl a))]"
| "sigEvent I (ActionConfirmReceived i) = [EAck i]"
| "sigEvent I (UndoReceived i) = [EUndo i]"
| "sigEvent I _ = []"

text \<open>
  The steps of the system. The observed client is participant \<open>p\<close>; \<open>getId\<close> reads the identifier of a tournament. The
  guards of \<open>other_action\<close> and \<open>master_action\<close> say that other clients do not use identifiers of the observed client
  or identifiers that are on the stack, and send actions that have not been executed. The steps are those of a connection that lasts, on one
  tournament: connecting is one step before them (\<open>connected\<close>), although the code takes several handlers for it; the loss of the connection
  (\<^verbatim>\<open>NetworkClient::killConnection\<close>) and the opening of another tournament at the server (\<^verbatim>\<open>NetworkServer::postSync\<close>) are not among them.
\<close>

inductive sys_step :: "('a, 't) ActionInterface \<Rightarrow> ('t \<Rightarrow> TournamentId) \<Rightarrow> nat \<Rightarrow> ('a, 't) System \<Rightarrow> ('a, 't) System \<Rightarrow> bool" for I getId p where
  dispatch: "ready I a \<Longrightarrow> sm_dispatch I a eng (sys_manager S) = Inr (eng', m) \<Longrightarrow> sys_step I getId p S (S\<lparr>sys_manager := m\<rparr>)"
| post: "mPosted (sys_manager S) = PostAction i a # rest \<Longrightarrow>
    sys_step I getId p S (S\<lparr>sys_manager := (sys_manager S)\<lparr>mPosted := rest\<rparr>, sys_client := client_postAction i a (sys_client S)\<rparr>)"
| upload: "mWriteQueue (sys_client S) = msg # rest \<Longrightarrow> participant_readMessage I p (Some msg) (sys_server S) = Inr srv \<Longrightarrow>
    sys_step I getId p S (S\<lparr>sys_server := srv, sys_client := client_written True (sys_client S)\<rparr>)"
| other_action: "q \<noteq> p \<Longrightarrow> ready I a \<Longrightarrow> getClientId i \<noteq> mClientId (sys_manager S) \<Longrightarrow> i \<notin> fst ` set (mActionStack (sys_server S)) \<Longrightarrow>
    participant_readMessage I q (Some (ACTION i a)) (sys_server S) = Inr srv \<Longrightarrow> sys_step I getId p S (S\<lparr>sys_server := srv\<rparr>)"
| other_starts: "q \<noteq> p \<Longrightarrow> sys_step I getId p S (S\<lparr>sys_server := participant_start q time msg (sys_server S)\<rparr>)"
| other_leaves: "q \<noteq> p \<Longrightarrow> sys_step I getId p S (S\<lparr>sys_server := server_leave q (sys_server S)\<rparr>)"
| master_action: "ready I a \<Longrightarrow> getClientId i \<noteq> mClientId (sys_manager S) \<Longrightarrow> i \<notin> fst ` set (mActionStack (sys_server S)) \<Longrightarrow>
    server_postAction I i a (sys_server S) = Inr srv \<Longrightarrow> sys_step I getId p S (S\<lparr>sys_server := srv\<rparr>)"
| master_undo: "sys_step I getId p S (S\<lparr>sys_server := server_postUndo i (sys_server S)\<rparr>)"
| download: "mParticipants (sys_server S) p = Some q \<Longrightarrow> mMessageQueue q = msg # rest \<Longrightarrow>
    client_connectIdle I (Received msg) (sys_client S) = Inr cl \<Longrightarrow>
    sys_step I getId p S (S\<lparr>sys_server := participant_written p True (sys_server S), sys_client := cl\<rparr>)"
| signal: "mSignals (sys_client S) = sig # rest \<Longrightarrow> handleSignal I getId sig (sys_manager S) = Inr m \<Longrightarrow>
    sys_step I getId p S (S\<lparr>sys_client := (sys_client S)\<lparr>mSignals := rest\<rparr>, sys_manager := m\<rparr>)"

text \<open>
  The state right after the observed client has connected: the server sent its tournament and stack, the client
  executed them and its own pending actions, and the manager took the result over.
\<close>

definition connected ::
  "('a, 't) ActionInterface \<Rightarrow> ('t \<Rightarrow> TournamentId) \<Rightarrow> nat \<Rightarrow> ('a, 't) NetworkServer \<Rightarrow> ('a, 't) NetworkClient \<Rightarrow> ('a, 't) StoreManager \<Rightarrow> ('a, 't) System result" where
  "connected I getId p srv cl m =
     bindE (client_connectSync I (Received (SYNC (mServerTournament srv) (mActionStack srv))) cl) (\<lambda>cl1.
     bindE (foldE (handleSignal I getId) (mSignals cl1) m) (\<lambda>m1.
       Inr \<lparr>sys_server = server_join p newNetworkParticipant srv, sys_client = cl1\<lparr>mSignals := []\<rparr>, sys_manager = m1\<rparr>))"

definition can_connect :: "('a, 't) ActionInterface \<Rightarrow> ('a, 't) NetworkServer \<Rightarrow> ('a, 't) NetworkClient \<Rightarrow> ('a, 't) StoreManager \<Rightarrow> bool" where
  "can_connect I srv cl m \<longleftrightarrow> distinct (map fst (mActionStack srv)) \<and> list_all (\<lambda>(i, a). ready I a) (mActionStack srv) \<and>
     mConnected cl \<and> \<not> mQuitPosted cl \<and> mWriteQueue cl = [] \<and> mSignals cl = [] \<and> distinct (map fst (mUnconfirmed cl)) \<and>
     (\<forall>i \<in> fst ` set (mUnconfirmed cl). getClientId i = mClientId m) \<and> mSyncing m = 0 \<and> mPosted m = [] \<and> list_all (ready I) (mRedoList m)"

inductive sys_reachable :: "('a, 't) ActionInterface \<Rightarrow> ('t \<Rightarrow> TournamentId) \<Rightarrow> nat \<Rightarrow> ('a, 't) System \<Rightarrow> bool" for I getId p where
  sys_connected: "can_connect I srv cl m \<Longrightarrow> connected I getId p srv cl m = Inr S \<Longrightarrow> sys_reachable I getId p S"
| sys_steps: "sys_reachable I getId p S \<Longrightarrow> sys_step I getId p S S' \<Longrightarrow> sys_reachable I getId p S'"

subsection \<open>The invariant of the system\<close>

definition uploads :: "'a ActionList \<Rightarrow> ('a, 't) NetworkMessage list" where
  "uploads xs = map (\<lambda>(i, a). ACTION i a) xs"

definition sigEvents :: "('a, 't) ActionInterface \<Rightarrow> ('a, 't) NetworkSignal list \<Rightarrow> 'a Event list" where
  "sigEvents I ss = concat (map (sigEvent I) ss)"

definition msgEvents :: "('a, 't) ActionInterface \<Rightarrow> ('a, 't) NetworkMessage list \<Rightarrow> 'a Event list" where
  "msgEvents I ms = concat (map (msgEvent I) ms)"

definition sys_view ::
  "('a, 't) ActionInterface \<Rightarrow> nat \<Rightarrow> ('a, 't) System \<Rightarrow> 't \<times> 'a Labels \<times> 'a Labels \<Rightarrow> ('a, 't) NetworkParticipant \<Rightarrow>
   'a ActionList \<Rightarrow> 'a ActionList \<Rightarrow> bool" where
  "sys_view I p S d q us vs \<longleftrightarrow> mParticipants (sys_server S) p = Some q \<and>
     in_step I (fst d) (fst (snd d)) (snd (snd d)) (sys_manager S) \<and>
     run I (mClientId (sys_manager S)) (sigEvents I (mSignals (sys_client S)) @ msgEvents I (mMessageQueue q)) d
       = Some (mServerTournament (sys_server S), labels I (mActionStack (sys_server S)), labels I (us @ vs)) \<and>
     list_all (\<lambda>(i, a). ready I a) (mActionStack (sys_server S)) \<and> list_all (\<lambda>(i, a). ready I a) (us @ vs) \<and>
     mWriteQueue (sys_client S) = (if mIsSyncing q then [SYNC_ACK] else []) @ uploads us \<and> mPosted (sys_manager S) = posts vs \<and>
     map fst (mUnconfirmed (sys_client S)) = concat (map ackOf (msgEvents I (mMessageQueue q))) @ map fst us \<and>
     mConnected (sys_client S) \<and> \<not> mQuitPosted (sys_client S) \<and>
     list_all (\<lambda>sig. sigEvent I sig \<noteq> []) (mSignals (sys_client S)) \<and> list_all (\<lambda>msg. msgEvent I msg \<noteq> []) (mMessageQueue q)"

definition sys_inv :: "('a, 't) ActionInterface \<Rightarrow> nat \<Rightarrow> ('a, 't) System \<Rightarrow> bool" where
  "sys_inv I p S \<longleftrightarrow> (\<exists>d q us vs. sys_view I p S d q us vs)"

definition quiet :: "nat \<Rightarrow> ('a, 't) System \<Rightarrow> bool" where
  "quiet p S \<longleftrightarrow> map_option mMessageQueue (mParticipants (sys_server S) p) = Some [] \<and> mSignals (sys_client S) = [] \<and>
     mWriteQueue (sys_client S) = [] \<and> mPosted (sys_manager S) = []"

text \<open>Every message is weighted with the number of queues it has before it.\<close>

definition pending :: "nat \<Rightarrow> ('a, 't) System \<Rightarrow> nat" where
  "pending p S = 4 * length (mPosted (sys_manager S)) + 3 * length (mWriteQueue (sys_client S)) +
     2 * (case mParticipants (sys_server S) p of None \<Rightarrow> 0 | Some q \<Rightarrow> length (mMessageQueue q)) + length (mSignals (sys_client S))"

lemma read_adds_one:
  assumes "participant_readMessage I p (Some msg) srv = Inr srv'" and "mParticipants srv p = Some q" and "msg \<noteq> QUIT"
  shows "\<exists>q'. mParticipants srv' p = Some q' \<and> length (mMessageQueue q') \<le> Suc (length (mMessageQueue q))"
  using assms by (cases msg) (auto simp: participant_readMessage_def deliverAction_def pushAction_def Let_def server_emit_def
      server_webDeliver_def participant_deliver_def split: if_splits)

lemma sys_invI: "sys_view I p S d q us vs \<Longrightarrow> sys_inv I p S"
  by (auto simp only: sys_inv_def)

text \<open>The identifiers of the pending actions, in the order of the queues, are distinct.\<close>

lemma view_ids:
  assumes "sys_view I p S (B, C, P) q us vs"
  shows "own_distinct (mClientId (sys_manager S)) (labels I (mActionStack (sys_server S))) (labels I (us @ vs))"
    and "map fst P = concat (map ackOf (sigEvents I (mSignals (sys_client S)) @ msgEvents I (mMessageQueue q))) @ map fst (us @ vs)"
    and "distinct (map fst P)"
proof -
  let ?es = "sigEvents I (mSignals (sys_client S)) @ msgEvents I (mMessageQueue q)"
  have r: "run I (mClientId (sys_manager S)) ?es (B, C, P) =
      Some (mServerTournament (sys_server S), labels I (mActionStack (sys_server S)), labels I (us @ vs))"
    and own: "own_distinct (mClientId (sys_manager S)) C P"
    using assms in_step_own[of I B C P] by (simp_all add: sys_view_def)
  from run_own[OF r own] show "own_distinct (mClientId (sys_manager S)) (labels I (mActionStack (sys_server S))) (labels I (us @ vs))"
    and "map fst P = concat (map ackOf ?es) @ map fst (us @ vs)" by (simp_all only: map_fst_labels)
  show "distinct (map fst P)" using own by (simp add: own_distinct_def)
qed

lemma events_simps [simp]:
  "sigEvents I [] = []" "sigEvents I (sig # sigs) = sigEvent I sig @ sigEvents I sigs"
  "sigEvents I (ss @ ss') = sigEvents I ss @ sigEvents I ss'"
  "msgEvents I [] = []" "msgEvents I (msg # msgs) = msgEvent I msg @ msgEvents I msgs"
  "msgEvents I (ms @ ms') = msgEvents I ms @ msgEvents I ms'"
  by (simp_all add: sigEvents_def msgEvents_def)

lemma uploads_simps [simp]:
  "uploads [] = []" "uploads ((i, a) # xs) = ACTION i a # uploads xs" "uploads (xs @ ys) = uploads xs @ uploads ys"
  "posts [] = []" "posts ((i, a) # xs) = PostAction i a # posts xs" "posts (xs @ ys) = posts xs @ posts ys"
  by (simp_all add: uploads_def posts_def)

lemma posts_Cons: "posts vs = PostAction i a # ps \<longleftrightarrow> (\<exists>vs'. vs = (i, a) # vs' \<and> ps = posts vs')"
  by (cases vs) (auto simp: posts_def)

lemma estep_extend: "estep I c e (B, C, P) = Some (B', C', P') \<Longrightarrow> estep I c e (B, C, P @ Q) = Some (B', C', P' @ Q)"
  by (cases e) (auto split: if_splits list.splits)

lemma run_extend: "run I c es (B, C, P) = Some (B', C', P') \<Longrightarrow> run I c es (B, C, P @ Q) = Some (B', C', P' @ Q)"
proof (induction es arbitrary: B C P)
  case (Cons e es)
  then obtain d where d: "estep I c e (B, C, P) = Some d" "run I c es d = Some (B', C', P')" by (auto split: bind_splits)
  obtain B1 C1 P1 where d': "d = (B1, C1, P1)" by (cases d)
  with d(1) have "estep I c e (B, C, P @ Q) = Some (B1, C1, P1 @ Q)" by (simp add: estep_extend)
  with Cons.IH d(2) d' show ?case by simp
qed simp

text \<open>The other end of a run: one more event at the end of the queues.\<close>

lemma run_snoc:
  "run I c es d = Some d' \<Longrightarrow> estep I c e d' = Some d'' \<Longrightarrow> run I c (es @ [e]) d = Some d''"
  by (simp add: run_append)

context revertible_actions
begin

lemma pushAction_label:
  assumes "list_all (\<lambda>(i, a). ready I a) (mActionStack s)" and "ready I a"
  shows "\<exists>s'. pushAction I i a s = Inr s' \<and>
    pushLabel I (i, freshCloneImpl I (impl a)) (mServerTournament s, labels I (mActionStack s)) = Some (mServerTournament s', labels I (mActionStack s')) \<and>
    list_all (\<lambda>(i, a). ready I a) (mActionStack s') \<and> mParticipants s' = mParticipants s"
proof -
  let ?st = "mActionStack s @ [(i, a)]"
  obtain j b rest where st: "?st = (j, b) # rest" by (cases ?st) auto
  have r: "list_all (\<lambda>(i, a). ready I a) ?st" using assms by simp
  then have b: "ready I b" "list_all (\<lambda>(i, a). ready I a) rest" unfolding st by simp_all
  obtain b' t where bt: "action_redo I b (mServerTournament s) = Inr (b', t)" "executed I b' (mServerTournament s) t"
    "freshCloneImpl I (impl b') = freshCloneImpl I (impl b)" using action_redo_ready[OF b(1)] by blast
  have lab: "labels I (mActionStack s) @ [(i, freshCloneImpl I (impl a))] = (j, freshCloneImpl I (impl b)) # labels I rest"
    using arg_cong[OF st, of "labels I"] by simp
  have len: "length (labels I (mActionStack s)) = length (mActionStack s)" "length (mActionStack s) = length rest"
    using arg_cong[OF st, of length] by (simp_all add: labels_def)
  show ?thesis
    using bt b(2) r st lab len by (auto simp: pushAction_def pushLabel_def Let_def executed_def)
qed

text \<open>What the server hands to participant \<open>p\<close> for an action of another client, an action of \<open>p\<close>, and an undo.\<close>

lemma view_server_event:
  assumes "sys_view I p S d q us vs" and "mParticipants srv p = Some (participant_deliver msg q)"
    and "msgEvent I msg = [e]"
    and "estep I (mClientId (sys_manager S)) e (mServerTournament (sys_server S), labels I (mActionStack (sys_server S)), labels I (us @ vs))
      = Some (mServerTournament srv, labels I (mActionStack srv), labels I (us' @ vs))"
    and "list_all (\<lambda>(i, a). ready I a) (mActionStack srv)" and "list_all (\<lambda>(i, a). ready I a) us'"
    and "mWriteQueue cl = (if mIsSyncing q then [SYNC_ACK] else []) @ uploads us'" and "map fst us = ackOf e @ map fst us'"
    and "cl = sys_client S\<lparr>mWriteQueue := mWriteQueue cl\<rparr>"
  shows "sys_inv I p (S\<lparr>sys_server := srv, sys_client := cl\<rparr>)"
proof -
  have "mSignals cl = mSignals (sys_client S)" "mUnconfirmed cl = mUnconfirmed (sys_client S)"
    "mConnected cl = mConnected (sys_client S)" "mQuitPosted cl = mQuitPosted (sys_client S)"
    by (subst assms(9), simp)+
  moreover have "mMessageQueue (participant_deliver msg q) = mMessageQueue q @ [msg]" "mIsSyncing (participant_deliver msg q) = mIsSyncing q"
    by (simp_all add: participant_deliver_def)
  ultimately have "sys_view I p (S\<lparr>sys_server := srv, sys_client := cl\<rparr>) d (participant_deliver msg q) us' vs"
    using assms(1-8) run_snoc[OF conjunct1[OF conjunct2[OF conjunct2[OF assms(1)[unfolded sys_view_def]]]] assms(4)] by (simp add: sys_view_def)
  then show ?thesis unfolding sys_inv_def by blast
qed

lemma view_push:
  assumes "sys_view I p S d q us vs" and "ready I a"
  obtains s' where "pushAction I i a (sys_server S) = Inr s'"
    and "pushLabel I (i, freshCloneImpl I (impl a)) (mServerTournament (sys_server S), labels I (mActionStack (sys_server S))) =
      Some (mServerTournament s', labels I (mActionStack s'))"
    and "list_all (\<lambda>(i, a). ready I a) (mActionStack s')" and "mParticipants s' p = Some q"
  using pushAction_label[of "sys_server S" a i] assms by (auto simp: sys_view_def)

lemma view_same_client: "mWriteQueue (sys_client S) = w \<Longrightarrow> S\<lparr>sys_server := srv, sys_client := sys_client S\<lparr>mWriteQueue := w\<rparr>\<rparr> = S\<lparr>sys_server := srv\<rparr>"
  by simp

lemma sys_other_action:
  assumes "sys_inv I p S" and "q' \<noteq> p" and "ready I a" and "getClientId i \<noteq> mClientId (sys_manager S)"
    and "i \<notin> fst ` set (mActionStack (sys_server S))"
  shows "\<exists>srv. participant_readMessage I q' (Some (ACTION i a)) (sys_server S) = Inr srv \<and> sys_inv I p (S\<lparr>sys_server := srv\<rparr>)"
    and "\<exists>srv. server_postAction I i a (sys_server S) = Inr srv \<and> sys_inv I p (S\<lparr>sys_server := srv\<rparr>)"
proof -
  obtain d q us vs where v: "sys_view I p S d q us vs" using assms(1) by (auto simp only: sys_inv_def)
  obtain s' where s': "pushAction I i a (sys_server S) = Inr s'"
    "pushLabel I (i, freshCloneImpl I (impl a)) (mServerTournament (sys_server S), labels I (mActionStack (sys_server S))) =
      Some (mServerTournament s', labels I (mActionStack s'))"
    "list_all (\<lambda>(i, a). ready I a) (mActionStack s')" "mParticipants s' p = Some q" by (rule view_push[OF v assms(3)])
  have keep: "sys_inv I p (S\<lparr>sys_server := srv\<rparr>)"
    if "mParticipants srv p = Some (participant_deliver (ACTION i a) q)" "mServerTournament srv = mServerTournament s'"
      "mActionStack srv = mActionStack s'" for srv
  proof -
    have "sys_inv I p (S\<lparr>sys_server := srv, sys_client := sys_client S\<rparr>)"
      by (rule view_server_event[OF v that(1), where us' = us and e = "EAct i (freshCloneImpl I (impl a))"]) (use s' that(2,3) assms(4,5) v in \<open>simp_all add: sys_view_def\<close>)
    then show ?thesis by simp
  qed
  show "\<exists>srv. server_postAction I i a (sys_server S) = Inr srv \<and> sys_inv I p (S\<lparr>sys_server := srv\<rparr>)"
    using s'(1) keep s'(4) by (simp add: server_postAction_def server_emit_def server_deliver_def server_webDeliver_def)
  show "\<exists>srv. participant_readMessage I q' (Some (ACTION i a)) (sys_server S) = Inr srv \<and> sys_inv I p (S\<lparr>sys_server := srv\<rparr>)"
    using s'(1) keep s'(4) assms(1,2)
    by (auto simp: participant_readMessage_def deliverAction_def Let_def server_emit_def server_webDeliver_def split: option.splits)
qed

lemma sys_master_undo:
  assumes "sys_inv I p S"
  shows "sys_inv I p (S\<lparr>sys_server := server_postUndo i (sys_server S)\<rparr>)"
proof (cases "splitLast i (mActionStack (sys_server S))")
  case None
  have "sys_view I p (S\<lparr>sys_server := server_postUndo i (sys_server S)\<rparr>) = sys_view I p S"
    by (intro ext) (simp add: sys_view_def server_postUndo_def server_emit_def None)
  with assms show ?thesis by (simp add: sys_inv_def)
next
  case (Some z)
  obtain xs a ys where z: "z = (xs, a, ys)" by (cases z)
  obtain B C P q us vs where v: "sys_view I p S (B, C, P) q us vs" using assms by (auto simp: sys_inv_def)
  let ?srv = "server_postUndo i (sys_server S)"
  from Some z have st: "mActionStack (sys_server S) = xs @ (i, a) # ys" by (simp add: splitLast_Some)
  have "own_distinct (mClientId (sys_manager S)) (labels I (mActionStack (sys_server S))) (labels I (us @ vs))"
    by (rule view_ids(1)[OF v])
  then have "i \<notin> fst ` set (labels I xs)" "i \<notin> fst ` set (labels I ys)" unfolding st own_distinct_def by auto
  then have w: "without i (labels I (mActionStack (sys_server S))) = labels I (xs @ ys)" unfolding st by (simp add: without_id)
  have "sys_inv I p (S\<lparr>sys_server := ?srv, sys_client := sys_client S\<rparr>)"
  proof (rule view_server_event[OF v, where us' = us and msg = "UNDO i" and e = "EUndo i"])
    show "estep I (mClientId (sys_manager S)) (EUndo i) (mServerTournament (sys_server S), labels I (mActionStack (sys_server S)), labels I (us @ vs)) =
      Some (mServerTournament ?srv, labels I (mActionStack ?srv), labels I (us @ vs))"
      using w Some z st by (simp add: server_postUndo_def server_emit_def server_deliver_def server_webDeliver_def)
  qed (use Some z v st in \<open>simp_all add: sys_view_def server_postUndo_def server_emit_def server_deliver_def server_webDeliver_def\<close>)
  then show ?thesis by simp
qed

lemma sys_upload:
  assumes "sys_inv I p S" and "mWriteQueue (sys_client S) = msg # rest"
  shows "\<exists>srv. participant_readMessage I p (Some msg) (sys_server S) = Inr srv \<and>
    sys_inv I p (S\<lparr>sys_server := srv, sys_client := client_written True (sys_client S)\<rparr>)"
proof -
  obtain d q us vs where v: "sys_view I p S d q us vs" using assms(1) by (auto simp only: sys_inv_def)
  have q: "mParticipants (sys_server S) p = Some q" "\<not> mQuitPosted (sys_client S)" using v by (simp_all add: sys_view_def)
  then have w: "client_written True (sys_client S) = (sys_client S)\<lparr>mWriteQueue := rest\<rparr>"
    using assms(2) by (simp add: client_written_def Let_def)
  show ?thesis
  proof (cases "mIsSyncing q")
    case True
    with v assms(2) have m: "msg = SYNC_ACK" "rest = uploads us" by (simp_all add: sys_view_def)
    let ?srv = "(sys_server S)\<lparr>mParticipants := (mParticipants (sys_server S))(p \<mapsto> q\<lparr>mIsSyncing := False\<rparr>)\<rparr>"
    have "sys_view I p (S\<lparr>sys_server := ?srv, sys_client := (sys_client S)\<lparr>mWriteQueue := rest\<rparr>\<rparr>) d (q\<lparr>mIsSyncing := False\<rparr>) us vs"
      using v m by (simp add: sys_view_def)
    from sys_invI[OF this] True q m w show ?thesis by (auto simp: participant_readMessage_def)
  next
    case False
    with v assms(2) obtain i a us' where m: "msg = ACTION i a" "us = (i, a) # us'" "rest = uploads us'"
      by (cases us) (auto simp: sys_view_def uploads_def)
    have "ready I a" using v m(2) by (simp add: sys_view_def)
    then obtain s' where s': "pushAction I i a (sys_server S) = Inr s'"
      "pushLabel I (i, freshCloneImpl I (impl a)) (mServerTournament (sys_server S), labels I (mActionStack (sys_server S))) =
        Some (mServerTournament s', labels I (mActionStack s'))"
      "list_all (\<lambda>(i, a). ready I a) (mActionStack s')" "mParticipants s' p = Some q" by (rule view_push[OF v])
    obtain srv where srv: "deliverAction I i a p (sys_server S) = Inr srv" "mParticipants srv p = Some (participant_deliver (ACTION_ACK i) q)"
      "mServerTournament srv = mServerTournament s'" "mActionStack srv = mActionStack s'"
      using s'(1,4) by (simp add: deliverAction_def Let_def server_emit_def server_webDeliver_def)
    have "sys_inv I p (S\<lparr>sys_server := srv, sys_client := (sys_client S)\<lparr>mWriteQueue := rest\<rparr>\<rparr>)"
      by (rule view_server_event[OF v srv(2), where us' = us' and e = "EAck i"])
        (use s'(2,3) srv(3,4) m v False in \<open>simp_all add: sys_view_def\<close>)
    with srv(1) q False m(1) w show ?thesis by (auto simp: participant_readMessage_def)
  qed
qed

lemma sys_dispatch:
  assumes "sys_inv I p S" and "ready I a" and "sm_dispatch I a eng (sys_manager S) = Inr (eng', m)"
  shows "sys_inv I p (S\<lparr>sys_manager := m\<rparr>)"
proof -
  obtain B C P q us vs where v: "sys_view I p S (B, C, P) q us vs" using assms(1) by (auto simp: sys_inv_def)
  then have "in_step I B C P (sys_manager S)" by (simp add: sys_view_def)
  from in_step_dispatch[OF this assms(2,3)] obtain i where i: "in_step I B C (P @ [(i, freshCloneImpl I (impl a))]) m"
    "mClientId m = mClientId (sys_manager S)" "mPosted m = mPosted (sys_manager S) @ [PostAction i (freshClone I a)]" by blast
  have "labels I [(i, freshClone I a)] = [(i, freshCloneImpl I (impl a))]" by (simp add: freshClone_def fresh_fresh)
  then have "sys_view I p (S\<lparr>sys_manager := m\<rparr>) (B, C, P @ [(i, freshCloneImpl I (impl a))]) q us (vs @ [(i, freshClone I a)])"
    using v i run_extend[of I "mClientId (sys_manager S)" _ B C P] by (simp add: sys_view_def ready_freshClone)
  then show ?thesis by (rule sys_invI)
qed

lemma sys_post:
  assumes "sys_inv I p S" and "mPosted (sys_manager S) = PostAction i a # rest"
  shows "sys_inv I p (S\<lparr>sys_manager := (sys_manager S)\<lparr>mPosted := rest\<rparr>, sys_client := client_postAction i a (sys_client S)\<rparr>)"
proof -
  obtain d q us vs where v: "sys_view I p S d q us vs" using assms(1) by (auto simp only: sys_inv_def)
  then have "posts vs = PostAction i a # rest" using assms(2) by (simp add: sys_view_def)
  then obtain vs' where vs: "vs = (i, a) # vs'" "rest = posts vs'" unfolding posts_Cons by blast
  have keep: "in_step I B C P (m\<lparr>mPosted := ps\<rparr>) = in_step I B C P m" for B C P m ps
    by (simp add: in_step_def sm_inv_def allActions_def)
  have "sys_view I p (S\<lparr>sys_manager := (sys_manager S)\<lparr>mPosted := rest\<rparr>, sys_client := client_postAction i a (sys_client S)\<rparr>) d q (us @ [(i, a)]) vs'"
    using v vs by (simp add: sys_view_def client_postAction_def client_deliver_def Let_def keep)
  then show ?thesis by (rule sys_invI)
qed

lemma splitLast_first: "i \<notin> fst ` set xs \<Longrightarrow> splitLast i ((i, a) # xs) = Some ([], a, xs)"
  by (simp add: splitLast_None[THEN iffD2])

lemma sys_download:
  assumes "sys_inv I p S" and "mParticipants (sys_server S) p = Some q" and "mMessageQueue q = msg # rest"
  shows "\<exists>cl. client_connectIdle I (Received msg) (sys_client S) = Inr cl \<and>
    sys_inv I p (S\<lparr>sys_server := participant_written p True (sys_server S), sys_client := cl\<rparr>)"
proof -
  obtain B C P us vs where v: "sys_view I p S (B, C, P) q us vs" using assms(1,2) by (auto simp: sys_inv_def sys_view_def)
  let ?cl = "sys_client S"
  let ?srv = "(sys_server S)\<lparr>mParticipants := (mParticipants (sys_server S))(p \<mapsto> q\<lparr>mMessageQueue := rest\<rparr>)\<rparr>"
  have w: "participant_written p True (sys_server S) = ?srv" using assms(2,3) by (simp add: participant_written_def)
  have keep: "sys_view I p (S\<lparr>sys_server := ?srv, sys_client := client_emit sig (?cl\<lparr>mUnconfirmed := un\<rparr>)\<rparr>) (B, C, P) (q\<lparr>mMessageQueue := rest\<rparr>) us vs"
    if "sigEvent I sig = msgEvent I msg" "map fst un = concat (map ackOf (msgEvents I rest)) @ map fst us" for sig un
    using v that assms(3) by (simp add: sys_view_def client_emit_def)
  show ?thesis
  proof (cases msg)
    case (ACTION i a)
    have "sys_inv I p (S\<lparr>sys_server := ?srv, sys_client := client_emit (ActionReceived i a) (?cl\<lparr>mUnconfirmed := mUnconfirmed ?cl\<rparr>)\<rparr>)"
      by (rule sys_invI, rule keep) (use v assms(3) ACTION in \<open>simp_all add: sys_view_def\<close>)
    with ACTION w show ?thesis by (simp add: client_connectIdle_def)
  next
    case (UNDO i)
    have "sys_inv I p (S\<lparr>sys_server := ?srv, sys_client := client_emit (UndoReceived i) (?cl\<lparr>mUnconfirmed := mUnconfirmed ?cl\<rparr>)\<rparr>)"
      by (rule sys_invI, rule keep) (use v assms(3) UNDO in \<open>simp_all add: sys_view_def\<close>)
    with UNDO w show ?thesis by (simp add: client_connectIdle_def)
  next
    case (ACTION_ACK i)
    with v assms(3) have ids: "map fst (mUnconfirmed ?cl) = i # concat (map ackOf (msgEvents I rest)) @ map fst us" by (simp add: sys_view_def)
    then obtain a un where un: "mUnconfirmed ?cl = (i, a) # un" "map fst un = concat (map ackOf (msgEvents I rest)) @ map fst us"
      by (auto simp: map_eq_Cons_conv)
    have "i \<notin> set (map fst un)" using view_ids(2,3)[OF v] assms(3) ACTION_ACK un(2) by simp
    then have "splitLast i (mUnconfirmed ?cl) = Some ([], a, un)" unfolding un(1) by (intro splitLast_first) simp
    moreover have "sys_inv I p (S\<lparr>sys_server := ?srv, sys_client := client_emit (ActionConfirmReceived i) (?cl\<lparr>mUnconfirmed := un\<rparr>)\<rparr>)"
      by (rule sys_invI, rule keep) (use ACTION_ACK un(2) in simp_all)
    ultimately show ?thesis using ACTION_ACK w by (simp add: client_connectIdle_def)
  qed (use v assms(3) in \<open>simp_all add: sys_view_def\<close>)
qed

lemma sys_signal:
  assumes "sys_inv I p S" and "mSignals (sys_client S) = sig # rest"
  shows "\<exists>m. handleSignal I getId sig (sys_manager S) = Inr m \<and> mPosted m = mPosted (sys_manager S) \<and>
    sys_inv I p (S\<lparr>sys_client := (sys_client S)\<lparr>mSignals := rest\<rparr>, sys_manager := m\<rparr>)"
proof -
  obtain B C P q us vs where v: "sys_view I p S (B, C, P) q us vs" using assms(1) by (auto simp: sys_inv_def)
  let ?c = "mClientId (sys_manager S)"
  have st: "in_step I B C P (sys_manager S)" using v by (simp add: sys_view_def)
  obtain e where e: "sigEvent I sig = [e]" using v assms(2) by (cases sig) (simp_all add: sys_view_def)
  then obtain B' C' P' where d: "estep I ?c e (B, C, P) = Some (B', C', P')"
    "run I ?c (sigEvents I rest @ msgEvents I (mMessageQueue q)) (B', C', P')
      = Some (mServerTournament (sys_server S), labels I (mActionStack (sys_server S)), labels I (us @ vs))"
    using v assms(2) by (auto simp: sys_view_def split: bind_splits)
  have keep: ?thesis if "handleSignal I getId sig (sys_manager S) = Inr m" "in_step I B' C' P' m" "mClientId m = ?c" "mPosted m = mPosted (sys_manager S)" for m
  proof -
    have "sys_view I p (S\<lparr>sys_client := (sys_client S)\<lparr>mSignals := rest\<rparr>, sys_manager := m\<rparr>) (B', C', P') q us vs"
      using v assms(2) d(2) that by (simp add: sys_view_def)
    from sys_invI[OF this] that(1,4) show ?thesis by blast
  qed
  show ?thesis
  proof (cases sig)
    case (ActionReceived i a)
    with e have ev: "e = EAct i (freshCloneImpl I (impl a))" by simp
    have "getClientId i \<noteq> ?c" "i \<notin> fst ` set C" using d(1) unfolding ev by (simp_all split: if_splits)
    from in_step_action[OF st this, of a] d(1) e ActionReceived keep show ?thesis by (auto simp: handleSignal_def)
  next
    case (ActionConfirmReceived i)
    with e d(1) obtain x where "P = (i, x) # P'" by (auto split: list.splits if_splits)
    with in_step_ack[of B C i x P' "sys_manager S"] st d(1) e ActionConfirmReceived keep show ?thesis by (auto simp: handleSignal_def)
  next
    case (UndoReceived i)
    with e d(1) have "i \<in> fst ` set C" "B' = B" "C' = without i C" "P' = P" by (auto split: if_splits)
    with in_step_undo[OF st] UndoReceived keep show ?thesis by (auto simp: handleSignal_def)
  qed (use e in simp_all)
qed

text \<open>Executing fresh clones gives done actions with the same labels.\<close>

lemma redoClones_replays:
  "\<exists>ys t'. redoClones I xs t = Inr (ys, t') \<and> replays I ys t t' \<and> labels I ys = labels I xs \<and> matches_undos {} ys"
proof (induction xs arbitrary: t)
  case (Cons x xs)
  obtain i a where x: "x = (i, a)" by (cases x)
  obtain a' t1 where a': "action_redo I (freshClone I a) t = Inr (a', t1)" "executed I a' t t1"
    "freshCloneImpl I (impl a') = freshCloneImpl I (impl a)"
    using action_redo_ready[OF ready_freshClone, of a t] by (auto simp: freshClone_def fresh_fresh)
  moreover have "isDone a'" using a'(2) by (simp add: executed_def)
  ultimately show ?case using Cons.IH[of t1] x by auto
qed simp

lemma fold_deliver: "fold (\<lambda>(i, a). client_deliver (ACTION i a)) xs c = c\<lparr>mWriteQueue := mWriteQueue c @ uploads xs\<rparr>"
  by (induction xs arbitrary: c) (auto simp: client_deliver_def)

lemma lastOwnDone_all_done:
  assumes "matches_undos {} (xs @ ys)" and "\<forall>i \<in> fst ` set ys. getClientId i = c"
  shows "lastOwnDone c (xs @ ys) = (if ys = [] then map_option fst (find (\<lambda>(i, a). getClientId i = c) (rev xs)) else Some (fst (last ys)))"
proof (cases ys rule: rev_cases)
  case Nil
  have "find (\<lambda>(i, a). isDone a \<and> getClientId i = c) (rev xs) = find (\<lambda>(i, a). getClientId i = c) (rev xs)"
    using assms(1) by (intro find_cong) (auto simp: matches_undos_def list_all_iff)
  with Nil show ?thesis by (simp add: lastOwnDone_def)
next
  case (snoc zs z)
  with assms show ?thesis by (cases z) (auto simp: lastOwnDone_def)
qed

lemma sys_connect:
  assumes "can_connect I srv cl m"
  shows "\<exists>S. connected I getId p srv cl m = Inr S \<and> sys_inv I p S"
proof -
  let ?st = "mActionStack srv"
  let ?missing = "filter (\<lambda>(i, a). i \<notin> fst ` set ?st) (mUnconfirmed cl)"
  let ?resent = "map (\<lambda>(i, a). (i, freshClone I a)) ?missing"
  obtain xs t1 where xs: "redoClones I ?st (mServerTournament srv) = Inr (xs, t1)" "replays I xs (mServerTournament srv) t1"
    "labels I xs = labels I ?st" "matches_undos {} xs" using redoClones_replays by blast
  obtain ys t2 where ys: "redoClones I ?missing t1 = Inr (ys, t2)" "replays I ys t1 t2"
    "labels I ys = labels I ?missing" "matches_undos {} ys" using redoClones_replays by blast
  let ?pay = "\<lparr>payload_tournament = t2, payload_confirmed = xs, payload_unconfirmed = ys, payload_undos = {}\<rparr>"
  have own: "\<forall>i \<in> fst ` set ys. getClientId i = mClientId m"
    using assms labels_set[OF ys(3)] by (auto simp: can_connect_def)
  let ?m1 = "m\<lparr>mRedoList := (if getId (mTournament m) \<noteq> getId t2 then [] else mRedoList m), mTournament := t2, mConfirmedActionList := xs,
    mUnconfirmedActionList := ys, mUndoneUnconfirmedActions := 0, mUnconfirmedUndos := {}, mUndoActionId := lastOwnDone (mClientId m) (xs @ ys)\<rparr>"
  have guard: "\<forall>(i, a) \<in> set ys. getClientId i = mClientId m" using own by auto
  have "matches_undos {} (xs @ ys)" using xs(4) ys(4) by simp
  note last = lastOwnDone_all_done[OF this own]
  have "receiveSync getId ?pay m = Inr ?m1" using guard by (simp add: receiveSync_def last)
  moreover have "mSyncing ?m1 = 0" "mPosted ?m1 = []" "list_all (ready I) (mRedoList ?m1)" using assms by (simp_all add: can_connect_def)
  ultimately obtain m1 where m1: "receiveSync getId ?pay m = Inr m1" "mClientId m1 = mClientId m" "mSyncing m1 = 0" "mPosted m1 = []"
    "mConfirmedActionList m1 = xs" "mUnconfirmedActionList m1 = ys" "mUnconfirmedUndos m1 = {}" "mTournament m1 = t2"
    "mUndoneUnconfirmedActions m1 = 0" "list_all (ready I) (mRedoList m1)" "mUndoActionId m1 = lastOwnDone (mClientId m) (xs @ ys)"
    by - (rule that[of ?m1], simp_all)
  have "distinct (map fst (xs @ ys))"
  proof -
    have "map fst (xs @ ys) = map fst (?st @ ?missing)" using labels_ids[OF xs(3)] labels_ids[OF ys(3)] by simp
    moreover have "distinct (map fst (?st @ ?missing))" using assms
      by (auto simp: can_connect_def distinct_map_filter) (metis fst_conv image_eqI)
    ultimately show ?thesis by (simp only:)
  qed
  moreover have "undoneCount ys = 0" using ys(4) by (induction ys) auto
  ultimately have "sm_inv I (mServerTournament srv) m1"
    using m1 xs ys by (auto simp: sm_inv_def allActions_def replays_append)
  then have st: "in_step I (mServerTournament srv) (labels I ?st) (labels I ?resent) m1"
    using m1 xs(3) ys(3) own labels_set[OF ys(3)] by (auto simp: in_step_def labels_def freshClone_def fresh_fresh)
  obtain cl1 where cl1: "client_connectSync I (Received (SYNC (mServerTournament srv) ?st)) cl = Inr cl1" "mSignals cl1 = [SyncReceived ?pay]"
    "mWriteQueue cl1 = SYNC_ACK # uploads ?resent" "mUnconfirmed cl1 = ?resent" "mConnected cl1" "\<not> mQuitPosted cl1"
    using assms xs(1) ys(1) by (simp add: client_connectSync_def Let_def fold_deliver client_deliver_def client_emit_def
        connection_emit_def client_setState_def can_connect_def)
  let ?S = "\<lparr>sys_server = server_join p newNetworkParticipant srv, sys_client = cl1\<lparr>mSignals := []\<rparr>, sys_manager = m1\<rparr>"
  have "sys_view I p ?S (mServerTournament srv, labels I ?st, labels I ?resent) newNetworkParticipant ?resent []"
    using st cl1 m1 assms by (auto simp: sys_view_def server_join_def newNetworkParticipant_def can_connect_def list_all_iff ready_freshClone)
  from sys_invI[OF this] show ?thesis using cl1 m1(1) by (simp add: connected_def handleSignal_def)
qed

lemma sys_step_inv:
  assumes "sys_step I getId p S S'" and "sys_inv I p S"
  shows "sys_inv I p S'"
  using assms
proof (cases rule: sys_step.cases)
  case (other_starts q time msg)
  have "sys_view I p (S\<lparr>sys_server := participant_start q time msg (sys_server S)\<rparr>) = sys_view I p S"
    by (intro ext) (use other_starts(2) in \<open>auto simp: sys_view_def participant_start_def server_join_def split: NetworkMessage.split\<close>)
  with other_starts assms(2) show ?thesis by (simp add: sys_inv_def)
next
  case (other_leaves q)
  have "sys_view I p (S\<lparr>sys_server := server_leave q (sys_server S)\<rparr>) = sys_view I p S"
    by (intro ext) (use other_leaves(2) in \<open>auto simp: sys_view_def server_leave_def\<close>)
  with other_leaves assms(2) show ?thesis by (simp add: sys_inv_def)
next
  case (upload msg rest srv)
  with sys_upload[OF assms(2) upload(2)] show ?thesis by auto
next
  case (other_action q a i srv)
  with sys_other_action(1)[OF assms(2) other_action(2-5)] show ?thesis by auto
next
  case (master_action a i srv)
  with sys_other_action(2)[OF assms(2) _ master_action(2-4), of "Suc p"] show ?thesis by auto
next
  case (download q msg rest cl)
  with sys_download[OF assms(2) download(2,3)] show ?thesis by auto
next
  case (signal sig rest m)
  with sys_signal[OF assms(2) signal(2), of getId] show ?thesis by auto
qed (auto intro: sys_dispatch sys_post sys_master_undo)

lemma sys_reachable_inv: "sys_reachable I getId p S \<Longrightarrow> sys_inv I p S"
proof (induction rule: sys_reachable.induct)
  case (sys_connected srv cl m S)
  then show ?case using sys_connect[of srv cl m getId p] by auto
qed (blast intro: sys_step_inv)

text \<open>With empty queues the replica is what the server's stack describes.\<close>

lemma sys_converged:
  assumes "sys_inv I p S" and "quiet p S"
  shows "execute I (labels I (mActionStack (sys_server S))) (mServerTournament (sys_server S)) = Inr (mTournament (sys_manager S)) \<and>
    labels I (mConfirmedActionList (sys_manager S)) = labels I (mActionStack (sys_server S)) \<and> mUnconfirmedActionList (sys_manager S) = []"
proof -
  obtain B C P q us vs where v: "sys_view I p S (B, C, P) q us vs" using assms(1) by (auto simp: sys_inv_def)
  then have e: "us = []" "vs = []" "mMessageQueue q = []" "mSignals (sys_client S) = []"
    using assms(2) by (auto simp: sys_view_def quiet_def uploads_def posts_def)
  with v have st: "in_step I (mServerTournament (sys_server S)) (labels I (mActionStack (sys_server S))) [] (sys_manager S)"
    by (auto simp: sys_view_def)
  then have inv: "sm_inv I (mServerTournament (sys_server S)) (sys_manager S)" and u: "mUnconfirmedUndos (sys_manager S) = {}"
    and c: "labels I (mConfirmedActionList (sys_manager S)) = labels I (mActionStack (sys_server S))"
      "mUnconfirmedActionList (sys_manager S) = []"
    by (simp_all add: in_step_def labels_def)
  have "history I (allActions (sys_manager S)) = labels I (mActionStack (sys_server S))"
    unfolding sm_inv_history[OF inv] u using c by (simp add: allActions_def)
  with sm_inv_execute[OF inv] c show ?thesis by simp
qed

text \<open>As long as a queue is not empty, some step takes a message one queue further.\<close>

lemma sys_progress:
  assumes "sys_inv I p S" and "\<not> quiet p S"
  shows "\<exists>S'. sys_step I getId p S S' \<and> sys_inv I p S' \<and> pending p S' < pending p S"
proof -
  obtain d q us vs where v: "sys_view I p S d q us vs" using assms(1) by (auto simp only: sys_inv_def)
  then have q: "mParticipants (sys_server S) p = Some q" by (simp add: sys_view_def)
  consider (sig) sg rest where "mSignals (sys_client S) = sg # rest" | (down) msg rest where "mMessageQueue q = msg # rest"
    | (up) msg rest where "mWriteQueue (sys_client S) = msg # rest" | (posted) pm rest where "mPosted (sys_manager S) = pm # rest"
    using assms(2) q by (auto simp: quiet_def neq_Nil_conv)
  then show ?thesis
  proof cases
    case sig
    from sys_signal[OF assms(1) sig, of getId] obtain m where m: "handleSignal I getId sg (sys_manager S) = Inr m"
      "mPosted m = mPosted (sys_manager S)" "sys_inv I p (S\<lparr>sys_client := (sys_client S)\<lparr>mSignals := rest\<rparr>, sys_manager := m\<rparr>)" by blast
    then have "pending p (S\<lparr>sys_client := (sys_client S)\<lparr>mSignals := rest\<rparr>, sys_manager := m\<rparr>) < pending p S"
      using q sig by (simp add: pending_def)
    with m signal[OF sig m(1), of p] show ?thesis by blast
  next
    case down
    from sys_download[OF assms(1) q down] obtain cl where cl: "client_connectIdle I (Received msg) (sys_client S) = Inr cl"
      "sys_inv I p (S\<lparr>sys_server := participant_written p True (sys_server S), sys_client := cl\<rparr>)" by blast
    have "length (mSignals cl) \<le> Suc (length (mSignals (sys_client S)))" "mWriteQueue cl = mWriteQueue (sys_client S)"
      using cl(1) v down by (cases msg; auto simp: client_connectIdle_def client_emit_def sys_view_def split: option.splits)+
    with down q have "pending p (S\<lparr>sys_server := participant_written p True (sys_server S), sys_client := cl\<rparr>) < pending p S"
      by (simp add: pending_def participant_written_def)
    with cl download[OF q down cl(1), of getId] show ?thesis by blast
  next
    case up
    from sys_upload[OF assms(1) up] obtain srv where srv: "participant_readMessage I p (Some msg) (sys_server S) = Inr srv"
      "sys_inv I p (S\<lparr>sys_server := srv, sys_client := client_written True (sys_client S)\<rparr>)" by blast
    have "\<not> mQuitPosted (sys_client S)" using v by (simp add: sys_view_def)
    then have "client_written True (sys_client S) = (sys_client S)\<lparr>mWriteQueue := rest\<rparr>" using up by (simp add: client_written_def Let_def)
    moreover have "msg \<noteq> QUIT" using v up by (cases us) (auto simp: sys_view_def uploads_def split: if_splits)
    then have "\<exists>q'. mParticipants srv p = Some q' \<and> length (mMessageQueue q') \<le> Suc (length (mMessageQueue q))"
      by (rule read_adds_one[OF srv(1) q])
    ultimately have "pending p (S\<lparr>sys_server := srv, sys_client := client_written True (sys_client S)\<rparr>) < pending p S"
      using up q by (auto simp: pending_def)
    with srv upload[OF up srv(1), of getId] show ?thesis by blast
  next
    case posted
    have "posts vs = pm # rest" using v posted by (simp add: sys_view_def)
    then obtain i a where "pm = PostAction i a" by (cases vs) (auto simp: posts_def)
    with posted have pm: "mPosted (sys_manager S) = PostAction i a # rest" by simp
    have "pending p (S\<lparr>sys_manager := (sys_manager S)\<lparr>mPosted := rest\<rparr>, sys_client := client_postAction i a (sys_client S)\<rparr>) < pending p S"
      using pm q by (simp add: pending_def client_postAction_def client_deliver_def Let_def)
    with sys_post[OF assms(1) pm] post[OF pm, of I getId p] show ?thesis by blast
  qed
qed

lemma sys_drains: "sys_inv I p S \<Longrightarrow> \<exists>S'. (sys_step I getId p)\<^sup>*\<^sup>* S S' \<and> sys_inv I p S' \<and> quiet p S'"
proof (induction "pending p S" arbitrary: S rule: less_induct)
  case less
  show ?case
  proof (cases "quiet p S")
    case False
    from sys_progress[OF less.prems False, of getId] obtain S1 where S1: "sys_step I getId p S S1" "sys_inv I p S1" "pending p S1 < pending p S"
      by blast
    from less.hyps[OF S1(3,2)] S1(1) show ?thesis by (meson converse_rtranclp_into_rtranclp)
  qed (use less.prems in blast)
qed

end

subsection \<open>An example\<close>

text \<open>A client with number 1 connects to a new server, and the user of the server renames the tournament.\<close>

lemmas network_simps = participant_readMessage_def server_postAction_def pushAction_def server_emit_def server_deliver_def
  server_webDeliver_def participant_deliver_def participant_written_def client_written_def client_connectIdle_def client_emit_def
  server_join_def newNetworkParticipant_def newNetworkServer_def newNetworkClient_def handleSignal_def

definition exampleStart :: "(FieldChange, TournamentStore) System" where
  "exampleStart =
     \<lparr>sys_server = (newNetworkServer (newTournamentStore 0))\<lparr>mParticipants := [0 \<mapsto> newNetworkParticipant]\<rparr>,
      sys_client = newNetworkClient\<lparr>mConnected := True, mClientState := CONNECTED, mWriteQueue := [SYNC_ACK],
        mConnectionSignals := [StateChanged CONNECTED, ConnectionAttemptSucceeded]\<rparr>,
      sys_manager = newStoreManager 1 (newTournamentStore 0)\<rparr>"

lemma example_connected:
  "connected fieldChanges mId 0 (newNetworkServer (newTournamentStore 0)) (newNetworkClient\<lparr>mConnected := True\<rparr>)
     (newStoreManager 1 (newTournamentStore 0)) = Inr exampleStart"
  by (simp add: connected_def exampleStart_def client_connectSync_def Let_def client_deliver_def connection_emit_def client_setState_def
      receiveSync_def newStoreManager_def network_simps)

lemma exampleStart_reachable: "sys_reachable fieldChanges mId 0 exampleStart"
  by (rule sys_connected[OF _ example_connected]) (simp add: can_connect_def newNetworkServer_def newNetworkClient_def newStoreManager_def)

definition exampleSystem :: "(FieldChange, TournamentStore) System" where
  "exampleSystem = exampleStart\<lparr>
     sys_server := \<lparr>mServerState = STOPPED, mServerTournament = newTournamentStore 0, mActionStack = [(ClientActionId 2 5, renaming ''Open'')],
       mParticipants = [0 \<mapsto> \<lparr>mIsSyncing = True, mMessageQueue = [ACTION (ClientActionId 2 5) (renaming ''Open'')]\<rparr>],
       mEmitted = [ActionConfirmReceived (ClientActionId 2 5)], mWebDelivered = [ACTION (ClientActionId 2 5) (renaming ''Open'')]\<rparr>\<rparr>"

lemma exampleSystem_reachable: "sys_reachable fieldChanges mId 0 exampleSystem"
proof (rule sys_steps[OF exampleStart_reachable])
  have "server_postAction fieldChanges (ClientActionId 2 5) (renaming ''Open'') (sys_server exampleStart) = Inr (sys_server exampleSystem)"
    by (simp add: exampleSystem_def exampleStart_def network_simps Let_def MAX_ACTION_STACK_SIZE_def fun_eq_iff)
  from master_action[OF renaming_ready _ _ this] show "sys_step fieldChanges mId 0 exampleStart exampleSystem"
    by (simp add: exampleSystem_def exampleStart_def newStoreManager_def newNetworkServer_def)
qed

lemma exampleSystem_pending: "\<not> quiet 0 exampleSystem"
  by (simp add: quiet_def exampleSystem_def)

subsection \<open>Properties\<close>

text \<open>
  C2. Replication of the actions on fields (the twelve classes of \<open>fieldChanges\<close>) converges while a connection lasts: after a client has
  connected, for every interleaving of its dispatches, requests, messages and signals with the
  actions and undos of all other clients and of the server's user, once the four queues between the client and
  the server are empty, the client has confirmed exactly the actions on the server's stack, has nothing pending,
  and its tournament is what these actions make of the server's tournament. This includes the trimming of the
  stacks at 100 actions and the actions that a reconnecting client sends again. Connecting is one step here, and the connection is not lost
  and no other tournament is opened meanwhile.
\<close>
theorem replica_converges:
  assumes "sys_reachable fieldChanges mId p S" and "quiet p S"
  shows "execute fieldChanges (labels fieldChanges (mActionStack (sys_server S))) (mServerTournament (sys_server S))
      = Inr (mTournament (sys_manager S)) \<and>
    labels fieldChanges (mConfirmedActionList (sys_manager S)) = labels fieldChanges (mActionStack (sys_server S)) \<and>
    mUnconfirmedActionList (sys_manager S) = []"
  using field_changes.sys_converged[OF field_changes.sys_reachable_inv[OF assms(1)] assms(2)] .

theorem replica_converges_witness:
  "\<exists>S. sys_reachable fieldChanges mId 0 S \<and> quiet 0 S \<and>
    execute fieldChanges (labels fieldChanges (mActionStack (sys_server S))) (mServerTournament (sys_server S)) = Inr (mTournament (sys_manager S))"
proof -
  obtain S where S: "(sys_step fieldChanges mId 0)\<^sup>*\<^sup>* exampleSystem S" "quiet 0 S"
    using field_changes.sys_drains[OF field_changes.sys_reachable_inv[OF exampleSystem_reachable], of mId] by blast
  from S(1) have "sys_reachable fieldChanges mId 0 S"
    by induction (use exampleSystem_reachable sys_steps in blast)+
  with replica_converges[OF this S(2)] S(2) show ?thesis by blast
qed

text \<open>
  C22. In the same setting (actions on fields, a connection that was made in one step and lasts, one tournament), from every reachable state of the
  system, whatever is in flight, the messages can be handled one after the
  other until the queues are empty and the client has converged: no order of messages blocks the protocol.
\<close>
theorem replica_can_always_converge:
  assumes "sys_reachable fieldChanges mId p S"
  shows "\<exists>S'. (sys_step fieldChanges mId p)\<^sup>*\<^sup>* S S' \<and> quiet p S' \<and>
    execute fieldChanges (labels fieldChanges (mActionStack (sys_server S'))) (mServerTournament (sys_server S')) = Inr (mTournament (sys_manager S'))"
  using field_changes.sys_drains[OF field_changes.sys_reachable_inv[OF assms], of mId] field_changes.sys_converged by blast

theorem replica_can_always_converge_witness:
  "\<not> quiet 0 exampleSystem \<and> (\<exists>S'. (sys_step fieldChanges mId 0)\<^sup>*\<^sup>* exampleSystem S' \<and> quiet 0 S' \<and>
    execute fieldChanges (labels fieldChanges (mActionStack (sys_server S'))) (mServerTournament (sys_server S')) = Inr (mTournament (sys_manager S')))"
  using replica_can_always_converge[OF exampleSystem_reachable] exampleSystem_pending by blast

text \<open>
  C23. In the same setting (actions on fields, a connection that was made in one step and lasts, one tournament) no message of the protocol
  makes a handler fail: in every reachable state the next signal to the manager, the
  next message of the server to the client and the next message of the client to the server are handled
  without a violated assertion, a confirmation in the wrong order or an exception of an action. That connecting is one step matters: a
  dispatch in the middle of it can lead to a failure.
\<close>
theorem protocol_handlers_succeed:
  assumes "sys_reachable fieldChanges mId p S"
  shows "(\<forall>sig rest. mSignals (sys_client S) = sig # rest \<longrightarrow> (\<exists>m. handleSignal fieldChanges mId sig (sys_manager S) = Inr m)) \<and>
    (\<forall>q msg rest. mParticipants (sys_server S) p = Some q \<longrightarrow> mMessageQueue q = msg # rest \<longrightarrow>
      (\<exists>cl. client_connectIdle fieldChanges (Received msg) (sys_client S) = Inr cl)) \<and>
    (\<forall>msg rest. mWriteQueue (sys_client S) = msg # rest \<longrightarrow>
      (\<exists>srv. participant_readMessage fieldChanges p (Some msg) (sys_server S) = Inr srv))"
proof -
  note inv = field_changes.sys_reachable_inv[OF assms]
  from field_changes.sys_signal[OF inv, of _ _ mId] field_changes.sys_download[OF inv] field_changes.sys_upload[OF inv]
  show ?thesis by meson
qed

theorem protocol_handlers_succeed_witness:
  "\<exists>cl. client_connectIdle fieldChanges (Received (ACTION (ClientActionId 2 5) (renaming ''Open''))) (sys_client exampleSystem) = Inr cl"
  using protocol_handlers_succeed[OF exampleSystem_reachable] by (simp add: exampleSystem_def)

text \<open>
  C40. A client that dispatches an action after its network thread has built the synchronised state and before its
  manager takes that state over loses the action: the manager forgets it, although the network client still
  sends it, and the acknowledgement of the server then takes the front of an empty list.
\<close>
theorem dispatch_during_connect_lost:
  assumes "can_connect fieldChanges srv cl m" and "mUnconfirmed cl = []"
    and "client_connectSync fieldChanges (Received (SYNC (mServerTournament srv) (mActionStack srv))) cl = Inr cl1"
    and "sm_dispatch fieldChanges a eng m = Inr (eng', m1)" and "foldE (handleSignal fieldChanges mId) (mSignals cl1) m1 = Inr m2"
  shows "\<exists>i b. mPosted m2 = [PostAction i b] \<and> mUnconfirmedActionList m2 = [] \<and>
    handleSignal fieldChanges mId (ActionConfirmReceived i) m2 = Inl UndefinedBehaviour"
proof -
  obtain i b where m1: "mPosted m1 = [PostAction i b]" "mSyncing m1 = 0"
    using assms(1,4) by (auto simp: sm_dispatch_def Let_def can_connect_def split: option.splits)
  obtain pay where pay: "mSignals cl1 = [SyncReceived pay]" "payload_unconfirmed pay = []"
    using assms(1-3) by (auto simp: client_connectSync_def Let_def client_deliver_def client_emit_def connection_emit_def
        client_setState_def can_connect_def)
  from assms(5) pay m1 have "mPosted m2 = [PostAction i b]" "mUnconfirmedActionList m2 = []" "mSyncing m2 = 0"
    by (auto simp: handleSignal_def receiveSync_def)
  then show ?thesis by (simp add: handleSignal_def receiveActionConfirm_def)
qed

theorem dispatch_during_connect_lost_witness:
  "\<exists>cl1 eng' m1 m2 i. client_connectSync fieldChanges (Received (SYNC (newTournamentStore 0) [])) (newNetworkClient\<lparr>mConnected := True\<rparr>) = Inr cl1 \<and>
    sm_dispatch fieldChanges (renaming ''Open'') (mt_seed 1) (newStoreManager 1 (newTournamentStore 0)) = Inr (eng', m1) \<and>
    foldE (handleSignal fieldChanges mId) (mSignals cl1) m1 = Inr m2 \<and>
    handleSignal fieldChanges mId (ActionConfirmReceived i) m2 = Inl UndefinedBehaviour"
proof -
  let ?srv = "newNetworkServer (newTournamentStore 0) :: (FieldChange, TournamentStore) NetworkServer"
  let ?cl = "newNetworkClient\<lparr>mConnected := True\<rparr> :: (FieldChange, TournamentStore) NetworkClient"
  let ?m = "newStoreManager 1 (newTournamentStore 0) :: (FieldChange, TournamentStore) StoreManager"
  obtain eng' m1 where d: "sm_dispatch fieldChanges (renaming ''Open'') (mt_seed 1) ?m = Inr (eng', m1)" using dispatch_first by blast
  obtain cl1 pay where c: "client_connectSync fieldChanges (Received (SYNC (newTournamentStore 0) [])) ?cl = Inr cl1"
    "mSignals cl1 = [SyncReceived pay]" "payload_unconfirmed pay = []"
    by (simp add: client_connectSync_def Let_def client_deliver_def connection_emit_def client_setState_def client_emit_def newNetworkClient_def)
  then obtain m2 where m2: "foldE (handleSignal fieldChanges mId) (mSignals cl1) m1 = Inr m2"
    by (simp add: handleSignal_def receiveSync_def)
  have "can_connect fieldChanges ?srv ?cl ?m" by (simp add: can_connect_def newNetworkServer_def newNetworkClient_def newStoreManager_def)
  moreover have "client_connectSync fieldChanges (Received (SYNC (mServerTournament ?srv) (mActionStack ?srv))) ?cl = Inr cl1"
    using c(1) by (simp add: newNetworkServer_def)
  ultimately show ?thesis using dispatch_during_connect_lost[OF _ _ _ d m2] c(1) d m2
    by (fastforce simp: newNetworkClient_def)
qed

end
