(* ===== verification/Web_Tatami_Model.thy ===== *)
theory Web_Tatami_Model
  imports Tournament_Store
begin

section \<open>The list of next matches that the web server shows for a tatami\<close>

text \<open>
  Models \<^verbatim>\<open>src/web/web_tatami_model.hpp\<close> and \<^verbatim>\<open>web_tatami_model.cpp\<close>. The model loads the concurrent groups of a
  tatami one after the other until five unfinished matches are known, and keeps the first of these in
  \<open>mNextMatches\<close> (\<^verbatim>\<open>mMatches\<close> in the source). It follows the tournament through \<open>changeMatches\<close> and
  \<open>changeTatamis\<close>, which the tournament store calls after a change, and through \<open>flush\<close>. The reference member
  \<^verbatim>\<open>mTournament\<close> is an argument: every operation reads the tournament as it is when it is called.

  The loop of \<open>loadBlocks\<close> counts the loaded groups by the size of the set of their identifiers, so it does not
  end when an identifier occurs twice in the tatami and all matches of that group are finished; it is a partial
  function, and that it ends on every tatami of the tournament store is proved.
\<close>

record WebTatamiModel =
  mTatami :: TatamiLocation
  mResetting :: bool
  mLoadedMatches :: "CombinedId \<rightharpoonup> nat"
  mLoadedGroups :: "PositionId set"
  mUnfinishedLoadedMatches :: "(CombinedId \<times> nat) list"
  mUnfinishedLoadedMatchesSet :: "CombinedId set"
  mMatchesChanged :: bool
  mTatamiChanged :: bool
  mNextMatches :: "CombinedId list"
  mInsertedMatches :: "CombinedId list"

definition DISPLAY_COUNT :: nat where
  "DISPLAY_COUNT = 5"

subsection \<open>Operations\<close>

definition model_getMatches :: "WebTatamiModel \<Rightarrow> CombinedId list result" where
  "model_getMatches m = assertE (\<not> mResetting m) (Inr (mNextMatches m))"

definition getInsertedMatches :: "WebTatamiModel \<Rightarrow> CombinedId list result" where
  "getInsertedMatches m = assertE (\<not> mResetting m) (Inr (mInsertedMatches m))"

definition matchesChanged :: "WebTatamiModel \<Rightarrow> bool result" where
  "matchesChanged m = assertE (\<not> mResetting m) (Inr (mMatchesChanged m))"

definition model_changed :: "WebTatamiModel \<Rightarrow> bool result" where
  "model_changed m = assertE (\<not> mResetting m) (Inr (mTatamiChanged m))"

text \<open>The two inner loops of \<open>changeMatches\<close>, on the list of unfinished matches.\<close>

fun eraseUnfinished :: "CombinedId \<Rightarrow> (CombinedId \<times> nat) list \<Rightarrow> (CombinedId \<times> nat) list" where
  "eraseUnfinished i [] = []"
| "eraseUnfinished i (x # xs) = (if fst x = i then xs else x # eraseUnfinished i xs)"

fun insertUnfinished :: "CombinedId \<times> nat \<Rightarrow> (CombinedId \<times> nat) list \<Rightarrow> (CombinedId \<times> nat) list" where
  "insertUnfinished e [] = [e]"
| "insertUnfinished e (x # xs) = (if snd x > snd e then e # x # xs else x # insertUnfinished e xs)"

definition changeLoadedMatch :: "CategoryId \<Rightarrow> CategoryStore \<Rightarrow> MatchId \<Rightarrow> WebTatamiModel \<Rightarrow> WebTatamiModel result" where
  "changeLoadedMatch c category matchId m =
     (let i = CombinedId c matchId in
      case mLoadedMatches m i of
        None \<Rightarrow> Inr m
      | Some loadingTime \<Rightarrow>
          bindE (getMatch matchId category) (\<lambda>match.
            let wasFinished = (i \<notin> mUnfinishedLoadedMatchesSet m);
                isFinished = (getStatus match = FINISHED)
            in Inr (if isFinished \<and> \<not> wasFinished
                    then m\<lparr>mUnfinishedLoadedMatches := eraseUnfinished i (mUnfinishedLoadedMatches m),
                           mUnfinishedLoadedMatchesSet := mUnfinishedLoadedMatchesSet m - {i}\<rparr>
                    else if \<not> isFinished \<and> wasFinished
                    then m\<lparr>mUnfinishedLoadedMatches := insertUnfinished (i, loadingTime) (mUnfinishedLoadedMatches m),
                           mUnfinishedLoadedMatchesSet := insert i (mUnfinishedLoadedMatchesSet m)\<rparr>
                    else m)))"

definition changeMatches :: "TournamentStore \<Rightarrow> CategoryId \<Rightarrow> MatchId list \<Rightarrow> WebTatamiModel \<Rightarrow> WebTatamiModel result" where
  "changeMatches t c ids m =
     (if mResetting m then Inr m
      else bindE (getCategory c t) (\<lambda>category. foldE (changeLoadedMatch c category) ids m))"

text \<open>\<open>changeLocations\<close> is the loop of \<open>changeTatamis\<close>; setting \<^verbatim>\<open>mResetting\<close> returns from it.\<close>

fun changeLocations :: "TatamiStore \<Rightarrow> BlockLocation list \<Rightarrow> WebTatamiModel \<Rightarrow> WebTatamiModel result" where
  "changeLocations tatami [] m = Inr m"
| "changeLocations tatami (l # ls) m =
     (if \<not> TatamiLocation_eq (mTatami m) (loc_tatami (concurrentGroup (sequentialGroup l)))
      then changeLocations tatami ls m
      else
        let m1 = m\<lparr>mTatamiChanged := True\<rparr>;
            handle = concurrent_handle (concurrentGroup (sequentialGroup l))
        in if handle_id handle \<in> mLoadedGroups m1 then Inr (m1\<lparr>mResetting := True\<rparr>)
           else if tatami_containsGroup handle tatami
           then bindE (tatami_getIndex handle tatami) (\<lambda>i.
                  if i < card (mLoadedGroups m1) then Inr (m1\<lparr>mResetting := True\<rparr>)
                  else changeLocations tatami ls m1)
           else changeLocations tatami ls m1)"

definition changeTatamis :: "TournamentStore \<Rightarrow> BlockLocation list \<Rightarrow> Block list \<Rightarrow> WebTatamiModel \<Rightarrow> WebTatamiModel result" where
  "changeTatamis t locations blocks m =
     (if mResetting m then Inr m
      else bindE (list_at (tatami_handle (mTatami m)) (mTatamiList t)) (\<lambda>tatami. changeLocations tatami locations m))"

definition clearChanges :: "WebTatamiModel \<Rightarrow> WebTatamiModel result" where
  "clearChanges m =
     assertE (\<not> mResetting m) (Inr (m\<lparr>mInsertedMatches := [], mMatchesChanged := False, mTatamiChanged := False\<rparr>))"

definition model_reset :: "WebTatamiModel \<Rightarrow> WebTatamiModel result" where
  "model_reset m = assertE (mResetting m)
     (Inr (m\<lparr>mLoadedMatches := Map.empty, mLoadedGroups := {}, mUnfinishedLoadedMatches := [],
             mUnfinishedLoadedMatchesSet := {}, mResetting := False, mMatchesChanged := True\<rparr>))"

definition loadGroupMatch :: "TournamentStore \<Rightarrow> CombinedId \<Rightarrow> WebTatamiModel \<Rightarrow> WebTatamiModel result" where
  "loadGroupMatch t i m =
     bindE (getCategory (getCategoryId i) t) (\<lambda>category.
     bindE (getMatch (getMatchId i) category) (\<lambda>match.
       let loadingTime = card (dom (mLoadedMatches m));
           m1 = m\<lparr>mLoadedMatches := (mLoadedMatches m)(i \<mapsto> loadingTime)\<rparr>
       in Inr (if getStatus match = FINISHED then m1
               else m1\<lparr>mUnfinishedLoadedMatches := mUnfinishedLoadedMatches m1 @ [(i, loadingTime)],
                       mUnfinishedLoadedMatchesSet := insert i (mUnfinishedLoadedMatchesSet m1)\<rparr>)))"

definition loadGroup :: "TournamentStore \<Rightarrow> TatamiStore \<Rightarrow> WebTatamiModel \<Rightarrow> WebTatamiModel result" where
  "loadGroup t tatami m =
     bindE (tatami_getHandle (card (mLoadedGroups m)) tatami) (\<lambda>handle.
     let m1 = m\<lparr>mLoadedGroups := insert (handle_id handle) (mLoadedGroups m)\<rparr>
     in bindE (tatami_at handle tatami) (\<lambda>group. foldE (loadGroupMatch t) (mGroupMatches group) m1))"

text \<open>\<open>loadGroups\<close> is the loop of \<open>loadBlocks\<close>; the value \<open>None\<close> is a loop that does not end.\<close>

partial_function (option) loadGroups :: "TournamentStore \<Rightarrow> TatamiStore \<Rightarrow> WebTatamiModel \<Rightarrow> WebTatamiModel result option" where
  [code]: "loadGroups t tatami m =
     (if length (mUnfinishedLoadedMatches m) < DISPLAY_COUNT \<and> card (mLoadedGroups m) \<noteq> tatami_groupCount tatami
      then case loadGroup t tatami m of Inl e \<Rightarrow> Some (Inl e) | Inr m' \<Rightarrow> loadGroups t tatami m'
      else Some (Inr m))"

definition loadBlocks :: "TournamentStore \<Rightarrow> WebTatamiModel \<Rightarrow> WebTatamiModel result" where
  "loadBlocks t m = assertE (\<not> mResetting m)
     (bindE (list_at (tatami_handle (mTatami m)) (mTatamiList t)) (\<lambda>tatami.
        case loadGroups t tatami m of None \<Rightarrow> Inl Diverges | Some r \<Rightarrow> r))"

text \<open>
  The loop of \<open>flush\<close>: \<open>kept\<close> and \<open>old\<close> are the parts of \<^verbatim>\<open>mMatches\<close> before and from the iterator \<^verbatim>\<open>it\<close>, \<open>js\<close> is the
  part of the unfinished matches from \<^verbatim>\<open>jt\<close>, \<open>n\<close> the counter \<^verbatim>\<open>i\<close>.
\<close>

fun flushMatches ::
  "CombinedId list \<Rightarrow> CombinedId list \<Rightarrow> (CombinedId \<times> nat) list \<Rightarrow> nat \<Rightarrow> CombinedId list \<Rightarrow> bool \<Rightarrow>
   CombinedId list \<times> CombinedId list \<times> bool" where
  "flushMatches kept [] [] n inserted ch = (kept, inserted, ch)"
| "flushMatches kept [] (j # js) n inserted ch =
     (if n = DISPLAY_COUNT then (kept, inserted, ch)
      else flushMatches (kept @ [fst j]) [] js (Suc n) (inserted @ [fst j]) True)"
| "flushMatches kept (x # old) js n inserted ch =
     (if js = [] \<or> n \<ge> DISPLAY_COUNT then flushMatches kept old js n inserted True
      else if x = fst (hd js) then flushMatches (kept @ [x]) old (tl js) (Suc n) inserted ch
      else flushMatches kept old js n inserted True)"

definition flush :: "TournamentStore \<Rightarrow> WebTatamiModel \<Rightarrow> WebTatamiModel result" where
  "flush t m =
     bindE (if mResetting m then model_reset m else Inr m) (\<lambda>m1.
     bindE (loadBlocks t m1) (\<lambda>m2.
       let (ms, ins, ch) =
             flushMatches [] (mNextMatches m2) (mUnfinishedLoadedMatches m2) 0 (mInsertedMatches m2) (mMatchesChanged m2)
       in Inr (m2\<lparr>mNextMatches := ms, mInsertedMatches := ins, mMatchesChanged := ch\<rparr>)))"

definition newWebTatamiModel :: "TournamentStore \<Rightarrow> TatamiLocation \<Rightarrow> WebTatamiModel result" where
  "newWebTatamiModel t tatami = flush t
     \<lparr>mTatami = tatami, mResetting = True, mLoadedMatches = Map.empty, mLoadedGroups = {}, mUnfinishedLoadedMatches = [],
      mUnfinishedLoadedMatchesSet = {}, mMatchesChanged = True, mTatamiChanged = True, mNextMatches = [], mInsertedMatches = []\<rparr>"

subsection \<open>What is to be shown\<close>

text \<open>
  The specification reads the tatami as the list of its groups: \<open>queue k\<close> are the matches of the first \<open>k\<close> groups.
\<close>

definition queue :: "TatamiStore \<Rightarrow> nat \<Rightarrow> CombinedId list" where
  "queue tatami k = concat (map (\<lambda>(i, g). mGroupMatches g) (take k (entries (mConcurrentGroups tatami))))"

definition wholeQueue :: "TatamiStore \<Rightarrow> CombinedId list" where
  "wholeQueue tatami = queue tatami (tatami_groupCount tatami)"

definition storedMatch :: "TournamentStore \<Rightarrow> CombinedId \<Rightarrow> MatchStore option" where
  "storedMatch t i =
     (case mCategories t (getCategoryId i) of
        None \<Rightarrow> None
      | Some c \<Rightarrow> (case getMatch (getMatchId i) c of Inl e \<Rightarrow> None | Inr match \<Rightarrow> Some match))"

definition matchFinished :: "TournamentStore \<Rightarrow> CombinedId \<Rightarrow> bool" where
  "matchFinished t i = (case storedMatch t i of None \<Rightarrow> False | Some match \<Rightarrow> getStatus match = FINISHED)"

text \<open>The matches of a tatami that are still to come, in the order of the tatami.\<close>

definition comingMatches :: "TournamentStore \<Rightarrow> TatamiStore \<Rightarrow> CombinedId list" where
  "comingMatches t tatami = filter (\<lambda>i. \<not> matchFinished t i) (wholeQueue tatami)"

definition tatamiOf :: "TournamentStore \<Rightarrow> TatamiLocation \<Rightarrow> TatamiStore option" where
  "tatamiOf t l = mElements (mTatamis (mTatamiList t)) (handle_id (tatami_handle l))"

definition tatami_wf :: "TournamentStore \<Rightarrow> TatamiStore \<Rightarrow> bool" where
  "tatami_wf t tatami \<longleftrightarrow> pm_inv (mConcurrentGroups tatami) \<and> distinct (wholeQueue tatami) \<and>
     (\<forall>i \<in> set (wholeQueue tatami). storedMatch t i \<noteq> None)"

text \<open>What the loaded fields hold when \<open>k\<close> groups are loaded and \<open>fin\<close> tells the finished matches.\<close>

definition stamped :: "'a list \<Rightarrow> ('a \<times> nat) list" where
  "stamped xs = zip xs [0..<length xs]"

definition loadedAs :: "(CombinedId \<Rightarrow> bool) \<Rightarrow> TatamiStore \<Rightarrow> nat \<Rightarrow> WebTatamiModel \<Rightarrow> bool" where
  "loadedAs fin tatami k m \<longleftrightarrow> k \<le> tatami_groupCount tatami \<and>
     mLoadedGroups m = set (take k (mIds (mConcurrentGroups tatami))) \<and>
     mLoadedMatches m = map_of (stamped (queue tatami k)) \<and>
     mUnfinishedLoadedMatches m = filter (\<lambda>e. \<not> fin (fst e)) (stamped (queue tatami k)) \<and>
     mUnfinishedLoadedMatchesSet m = {i \<in> set (queue tatami k). \<not> fin i}"

definition model_inv :: "TournamentStore \<Rightarrow> WebTatamiModel \<Rightarrow> bool" where
  "model_inv t m \<longleftrightarrow> (\<exists>tatami. tatamiOf t (mTatami m) = Some tatami \<and> tatami_wf t tatami \<and>
     (mResetting m \<or> loadedAs (matchFinished t) tatami (card (mLoadedGroups m)) m))"

subsection \<open>Time stamps\<close>

lemma map_fst_stamped [simp]: "map fst (stamped xs) = xs"
  by (simp add: stamped_def)

lemma stamped_append: "stamped (xs @ [x]) = stamped xs @ [(x, length xs)]"
  by (simp add: stamped_def)

lemma set_fst_stamped [simp]: "fst ` set (stamped xs) = set xs"
  by (metis map_fst_stamped set_map)

lemma sorted_stamped: "sorted_wrt (\<lambda>x y. snd x < snd y) (stamped xs)"
  by (simp add: stamped_def sorted_wrt_iff_nth_less)

lemma dom_stamped [simp]: "dom (map_of (stamped xs)) = set xs"
  by (simp add: dom_map_of_conv_image_fst)

lemma map_of_stamped_append: "x \<notin> set xs \<Longrightarrow> map_of (stamped (xs @ [x])) = (map_of (stamped xs))(x \<mapsto> length xs)"
  by (auto simp: stamped_append map_add_def fun_eq_iff split: option.split dest: map_of_SomeD)
    (metis dom_stamped domI)

lemma eraseUnfinished_filter:
  "distinct (map fst l) \<Longrightarrow> eraseUnfinished i (filter P l) = filter (\<lambda>e. P e \<and> fst e \<noteq> i) l"
proof (induction l)
  case (Cons x l)
  have "filter P l = filter (\<lambda>e. P e \<and> fst e \<noteq> i) l" if "fst x = i"
    using Cons.prems that by (auto intro!: filter_cong simp: rev_image_eqI)
  then show ?case using Cons by auto
qed simp

lemma insertUnfinished_filter:
  "sorted_wrt (\<lambda>x y. snd x < snd y) l \<Longrightarrow> e \<in> set l \<Longrightarrow> \<not> P e \<Longrightarrow>
   insertUnfinished e (filter P l) = filter (\<lambda>y. P y \<or> y = e) l"
proof (induction l)
  case (Cons x l)
  show ?case
  proof (cases "x = e")
    case True
    have tail: "filter (\<lambda>y. P y \<or> y = e) l = filter P l"
      using Cons.prems True by (auto intro!: filter_cong)
    have "insertUnfinished e ys = e # ys" if "\<forall>y \<in> set ys. snd e < snd y" for ys
      using that by (cases ys) auto
    with True Cons.prems tail show ?thesis by auto
  next
    case False
    with Cons.prems have "e \<in> set l" and "snd x < snd e" by auto
    with Cons show ?thesis by auto
  qed
qed simp

subsection \<open>Following the matches\<close>

abbreviation sameDisplay :: "WebTatamiModel \<Rightarrow> WebTatamiModel \<Rightarrow> bool" where
  "sameDisplay m m' \<equiv> mResetting m' = mResetting m \<and> mTatami m' = mTatami m \<and> mNextMatches m' = mNextMatches m \<and>
     mInsertedMatches m' = mInsertedMatches m \<and> mMatchesChanged m' = mMatchesChanged m"

lemma loadedAs_fin_cong:
  "loadedAs fin tatami k m \<Longrightarrow> (\<And>i. i \<in> set (queue tatami k) \<Longrightarrow> fin' i = fin i) \<Longrightarrow> loadedAs fin' tatami k m"
proof -
  assume m: "loadedAs fin tatami k m" and eq: "\<And>i. i \<in> set (queue tatami k) \<Longrightarrow> fin' i = fin i"
  have "fst e \<in> set (queue tatami k)" if "e \<in> set (stamped (queue tatami k))" for e
    using that by (metis imageI set_fst_stamped)
  with m eq show ?thesis by (auto simp: loadedAs_def intro!: filter_cong)
qed

lemma changeLoadedMatch_loadedAs:
  assumes m: "loadedAs fin tatami k m" and dist: "distinct (queue tatami k)"
    and c: "mCategories t c = Some category"
    and stored: "CombinedId c i \<in> set (queue tatami k) \<Longrightarrow> storedMatch t (CombinedId c i) \<noteq> None"
  shows "\<exists>m'. changeLoadedMatch c category i m = Inr m' \<and> sameDisplay m m' \<and>
    mLoadedGroups m' = mLoadedGroups m \<and> loadedAs (fin(CombinedId c i := matchFinished t (CombinedId c i))) tatami k m'"
proof -
  let ?i = "CombinedId c i" and ?q = "queue tatami k" and ?l = "stamped (queue tatami k)"
  have loaded: "mLoadedMatches m ?i = map_of ?l ?i" using m by (simp add: loadedAs_def)
  show ?thesis
  proof (cases "?i \<in> set ?q")
    case False
    then have "mLoadedMatches m ?i = None" using loaded dom_stamped[of ?q] by (metis domIff)
    moreover have "loadedAs (fin(?i := matchFinished t ?i)) tatami k m"
      using m by (rule loadedAs_fin_cong) (use False in auto)
    ultimately show ?thesis by (simp add: changeLoadedMatch_def)
  next
    case True
    then obtain n where n: "map_of ?l ?i = Some n" using dom_stamped[of ?q] by (metis domD)
    then have mem: "(?i, n) \<in> set ?l" by (rule map_of_SomeD)
    have uniq: "e = (?i, n)" if "e \<in> set ?l" and "fst e = ?i" for e
      using that mem dist by (metis eq_key_imp_eq_value map_fst_stamped prod.collapse)
    obtain match where match: "getMatch i category = Inr match" and fin: "matchFinished t ?i = (getStatus match = FINISHED)"
      using stored[OF True] c by (auto simp: storedMatch_def matchFinished_def split: sum.splits)
    have erase: "eraseUnfinished ?i (filter (\<lambda>e. \<not> fin (fst e)) ?l) = filter (\<lambda>e. \<not> (fin(?i := True)) (fst e)) ?l"
      using dist by (simp add: eraseUnfinished_filter) (rule filter_cong, auto)
    have insert: "insertUnfinished (?i, n) (filter (\<lambda>e. \<not> fin (fst e)) ?l) = filter (\<lambda>e. \<not> (fin(?i := False)) (fst e)) ?l"
      if "fin ?i"
      using that mem by (simp add: insertUnfinished_filter[OF sorted_stamped]) (rule filter_cong, auto dest: uniq)
    show ?thesis
      using m True loaded n match fin erase insert
      by (auto simp: changeLoadedMatch_def Let_def loadedAs_def fun_upd_idem intro!: filter_cong)
  qed
qed

lemma changeMatches_loadedAs:
  assumes "loadedAs fin tatami k m" and "distinct (queue tatami k)" and "mCategories t c = Some category"
    and "\<forall>i \<in> set (queue tatami k). storedMatch t i \<noteq> None"
  shows "\<exists>m'. foldE (changeLoadedMatch c category) ids m = Inr m' \<and> sameDisplay m m' \<and>
    mLoadedGroups m' = mLoadedGroups m \<and>
    loadedAs (\<lambda>i. if i \<in> CombinedId c ` set ids then matchFinished t i else fin i) tatami k m'"
  using assms
proof (induction ids arbitrary: fin m)
  case (Cons i ids)
  from changeLoadedMatch_loadedAs[OF Cons.prems(1-3), of i] Cons.prems(4) obtain m1 where
    m1: "changeLoadedMatch c category i m = Inr m1" "sameDisplay m m1"
      "mLoadedGroups m1 = mLoadedGroups m" and
    l1: "loadedAs (fin(CombinedId c i := matchFinished t (CombinedId c i))) tatami k m1"
    by blast
  from Cons.IH[OF l1 Cons.prems(2-4)] obtain m' where
    m': "foldE (changeLoadedMatch c category) ids m1 = Inr m'" "sameDisplay m1 m'"
      "mLoadedGroups m' = mLoadedGroups m1" and
    l': "loadedAs (\<lambda>j. if j \<in> CombinedId c ` set ids then matchFinished t j
           else (fin(CombinedId c i := matchFinished t (CombinedId c i))) j) tatami k m'"
    by blast
  have "loadedAs (\<lambda>j. if j \<in> CombinedId c ` set (i # ids) then matchFinished t j else fin j) tatami k m'"
    using l' by (rule loadedAs_fin_cong) auto
  with m1 m' show ?case by auto
qed auto

subsection \<open>Loading groups\<close>

lemma queue_Suc:
  assumes "k < tatami_groupCount tatami"
  shows "queue tatami (Suc k) = queue tatami k @
    mGroupMatches (the (mElements (mConcurrentGroups tatami) (mIds (mConcurrentGroups tatami) ! k)))"
  using assms by (simp add: queue_def entries_def tatami_groupCount_def pm_size_def take_Suc_conv_app_nth)

lemma queue_prefix: "k \<le> tatami_groupCount tatami \<Longrightarrow> \<exists>ys. wholeQueue tatami = queue tatami k @ ys"
  unfolding wholeQueue_def queue_def
  by (metis append_take_drop_id concat_append map_append take_take min.absorb1)

lemma loadGroupMatch_loaded:
  assumes "storedMatch t i = Some match"
    and "mLoadedMatches m = map_of (stamped xs)" and "distinct (xs @ [i])"
    and "mUnfinishedLoadedMatches m = filter (\<lambda>e. \<not> matchFinished t (fst e)) (stamped xs)"
    and "mUnfinishedLoadedMatchesSet m = {j \<in> set xs. \<not> matchFinished t j}"
  shows "\<exists>m'. loadGroupMatch t i m = Inr m' \<and> sameDisplay m m' \<and>
    mLoadedGroups m' = mLoadedGroups m \<and> mLoadedMatches m' = map_of (stamped (xs @ [i])) \<and>
    mUnfinishedLoadedMatches m' = filter (\<lambda>e. \<not> matchFinished t (fst e)) (stamped (xs @ [i])) \<and>
    mUnfinishedLoadedMatchesSet m' = {j \<in> set (xs @ [i]). \<not> matchFinished t j}"
proof -
  have n: "card (dom (mLoadedMatches m)) = length xs"
    using assms(2,3) by (simp add: distinct_card)
  have upd: "map_of (stamped (xs @ [i])) = (map_of (stamped xs))(i \<mapsto> length xs)"
    using assms(3) by (intro map_of_stamped_append) simp
  obtain c where c: "mCategories t (getCategoryId i) = Some c" "getMatch (getMatchId i) c = Inr match"
    using assms(1) by (auto simp: storedMatch_def split: option.splits sum.splits)
  have fin: "matchFinished t i = (getStatus match = FINISHED)" using assms(1) by (simp add: matchFinished_def)
  show ?thesis
    using assms(2,4,5) n upd c fin
    by (auto simp: loadGroupMatch_def getCategory_def categories_get_def Let_def stamped_append)
qed

lemma loadGroupMatches_loaded:
  assumes "\<forall>i \<in> set is. storedMatch t i \<noteq> None"
    and "mLoadedMatches m = map_of (stamped xs)" and "distinct (xs @ is)"
    and "mUnfinishedLoadedMatches m = filter (\<lambda>e. \<not> matchFinished t (fst e)) (stamped xs)"
    and "mUnfinishedLoadedMatchesSet m = {j \<in> set xs. \<not> matchFinished t j}"
  shows "\<exists>m'. foldE (loadGroupMatch t) is m = Inr m' \<and> sameDisplay m m' \<and>
    mLoadedGroups m' = mLoadedGroups m \<and> mLoadedMatches m' = map_of (stamped (xs @ is)) \<and>
    mUnfinishedLoadedMatches m' = filter (\<lambda>e. \<not> matchFinished t (fst e)) (stamped (xs @ is)) \<and>
    mUnfinishedLoadedMatchesSet m' = {j \<in> set (xs @ is). \<not> matchFinished t j}"
  using assms
proof (induction "is" arbitrary: m xs)
  case (Cons i "is")
  then obtain match where match: "storedMatch t i = Some match" by auto
  have "distinct (xs @ [i])" using Cons.prems(3) by auto
  from loadGroupMatch_loaded[OF match Cons.prems(2) this Cons.prems(4,5)] obtain m1 where m1:
    "loadGroupMatch t i m = Inr m1" "sameDisplay m m1"
    "mLoadedGroups m1 = mLoadedGroups m" "mLoadedMatches m1 = map_of (stamped (xs @ [i]))"
    "mUnfinishedLoadedMatches m1 = filter (\<lambda>e. \<not> matchFinished t (fst e)) (stamped (xs @ [i]))"
    "mUnfinishedLoadedMatchesSet m1 = {j \<in> set (xs @ [i]). \<not> matchFinished t j}"
    by blast
  from Cons.IH[of m1 "xs @ [i]"] Cons.prems(1,3) m1 show ?case by auto
qed auto


lemma loadedAs_card:
  assumes "tatami_wf t tatami" and "loadedAs fin tatami k m"
  shows "card (mLoadedGroups m) = k"
proof -
  have "mLoadedGroups m = set (take k (mIds (mConcurrentGroups tatami)))" and "distinct (mIds (mConcurrentGroups tatami))"
    and "k \<le> length (mIds (mConcurrentGroups tatami))"
    using assms by (auto simp: loadedAs_def tatami_wf_def pm_inv_def tatami_groupCount_def pm_size_def)
  then show ?thesis by (metis distinct_card distinct_take length_take min.absorb2)
qed

lemma loadGroup_loadedAs:
  assumes wf: "tatami_wf t tatami" and m: "loadedAs (matchFinished t) tatami k m" and k: "k < tatami_groupCount tatami"
  shows "\<exists>m'. loadGroup t tatami m = Inr m' \<and> sameDisplay m m' \<and>
    loadedAs (matchFinished t) tatami (Suc k) m'"
proof -
  let ?ids = "mIds (mConcurrentGroups tatami)" and ?es = "mElements (mConcurrentGroups tatami)"
  have inv: "distinct ?ids" "set ?ids = dom ?es" using wf by (auto simp: tatami_wf_def pm_inv_def)
  have len: "k < length ?ids" using k by (simp add: tatami_groupCount_def pm_size_def)
  then obtain g where g: "?es (?ids ! k) = Some g" using inv by (metis domD nth_mem)
  note card = loadedAs_card[OF wf m]
  have q: "queue tatami (Suc k) = queue tatami k @ mGroupMatches g" using k g by (simp add: queue_Suc)
  obtain ys where ys: "wholeQueue tatami = queue tatami (Suc k) @ ys" using queue_prefix[of "Suc k" tatami] k by auto
  have dist: "distinct (queue tatami k @ mGroupMatches g)" and "\<forall>i \<in> set (mGroupMatches g). storedMatch t i \<noteq> None"
    using wf ys q by (auto simp: tatami_wf_def)
  moreover have "mLoadedGroups m \<union> {?ids ! k} = set (take (Suc k) ?ids)"
    using m len by (auto simp: loadedAs_def take_Suc_conv_app_nth)
  ultimately show ?thesis
    using loadGroupMatches_loaded[of "mGroupMatches g" t "m\<lparr>mLoadedGroups := insert (?ids ! k) (mLoadedGroups m)\<rparr>" "queue tatami k"]
      m k card g len q
    by (auto simp: loadGroup_def tatami_getHandle_def pm_getHandle_def tatami_at_def pm_at_def nthE_Inr loadedAs_def)
qed

lemma loadGroups_loadedAs:
  assumes wf: "tatami_wf t tatami" and m: "loadedAs (matchFinished t) tatami k m"
  shows "\<exists>m' k'. loadGroups t tatami m = Some (Inr m') \<and> sameDisplay m m' \<and>
    loadedAs (matchFinished t) tatami k' m' \<and>
    (length (mUnfinishedLoadedMatches m') \<ge> DISPLAY_COUNT \<or> k' = tatami_groupCount tatami)"
  using m
proof (induction "tatami_groupCount tatami - k" arbitrary: k m)
  case 0
  then have "k = tatami_groupCount tatami" by (simp add: loadedAs_def)
  with 0 loadedAs_card[OF wf 0(2)] show ?case by (subst loadGroups.simps) auto
next
  case (Suc n)
  then have k: "k < tatami_groupCount tatami" by simp
  note card = loadedAs_card[OF wf Suc.prems]
  show ?case
  proof (cases "length (mUnfinishedLoadedMatches m) < DISPLAY_COUNT")
    case False
    with Suc.prems show ?thesis by (subst loadGroups.simps) auto
  next
    case True
    from loadGroup_loadedAs[OF wf Suc.prems k] obtain m1 where m1: "loadGroup t tatami m = Inr m1"
      "sameDisplay m m1" "loadedAs (matchFinished t) tatami (Suc k) m1" by blast
    have "n = tatami_groupCount tatami - Suc k" using Suc.hyps(2) by simp
    from Suc.hyps(1)[OF this m1(3)] m1 True k card show ?thesis by (subst loadGroups.simps) auto
  qed
qed

subsection \<open>Flushing\<close>

lemma flushMatches_result:
  "n \<le> DISPLAY_COUNT \<Longrightarrow> flushMatches kept old js n inserted ch = (ms, ins, ch') \<Longrightarrow>
   ms = kept @ map fst (take (DISPLAY_COUNT - n) js) \<and>
   (\<exists>new. ins = inserted @ new \<and> set ms \<subseteq> set kept \<union> set old \<union> set new) \<and> (\<not> ch' \<longrightarrow> \<not> ch \<and> ms = kept @ old)"
proof (induction kept old js n inserted ch arbitrary: ms ins ch' rule: flushMatches.induct)
  case (2 kept j js n inserted ch)
  show ?case
  proof (cases "n = DISPLAY_COUNT")
    case False
    with 2 have "Suc n \<le> DISPLAY_COUNT" by simp
    moreover from False 2 have "DISPLAY_COUNT - n = Suc (DISPLAY_COUNT - Suc n)" by simp
    ultimately show ?thesis using 2 False by fastforce
  qed (use 2 in auto)
next
  case (3 kept x old js n inserted ch)
  consider "js = [] \<or> n \<ge> DISPLAY_COUNT" | "js \<noteq> []" "n < DISPLAY_COUNT" "x = fst (hd js)"
    | "js \<noteq> []" "n < DISPLAY_COUNT" "x \<noteq> fst (hd js)"
    by linarith
  then show ?case
  proof cases
    case 1
    then show ?thesis using "3.IH"(1) "3.prems" by fastforce
  next
    case 2
    then obtain j js' where js: "js = j # js'" by (cases js) auto
    from 2 have "DISPLAY_COUNT - n = Suc (DISPLAY_COUNT - Suc n)" by simp
    then show ?thesis using "3.IH"(2) "3.prems" 2 js by fastforce
  next
    case 3
    then show ?thesis using "3.IH"(3) "3.prems" by fastforce
  qed
qed auto

lemma take_shown:
  assumes "loadedAs (matchFinished t) tatami k m"
    and "length (mUnfinishedLoadedMatches m) \<ge> DISPLAY_COUNT \<or> k = tatami_groupCount tatami"
  shows "map fst (take DISPLAY_COUNT (mUnfinishedLoadedMatches m)) = take DISPLAY_COUNT (comingMatches t tatami)"
proof -
  have u: "map fst (mUnfinishedLoadedMatches m) = filter (\<lambda>i. \<not> matchFinished t i) (queue tatami k)"
    using assms(1) filter_map[of "\<lambda>i. \<not> matchFinished t i" fst "stamped (queue tatami k)"]
    by (simp add: loadedAs_def comp_def)
  obtain ys where "wholeQueue tatami = queue tatami k @ ys"
    using queue_prefix[of k tatami] assms(1) by (auto simp: loadedAs_def)
  then have "comingMatches t tatami = map fst (mUnfinishedLoadedMatches m) @ filter (\<lambda>i. \<not> matchFinished t i) ys"
    by (simp add: comingMatches_def u)
  moreover have "ys = []" if "k = tatami_groupCount tatami"
    using that \<open>wholeQueue tatami = queue tatami k @ ys\<close> by (simp add: wholeQueue_def)
  ultimately show ?thesis using assms(2) by (auto simp: take_map)
qed

lemma loadedAs_display [simp]:
  "loadedAs fin tatami k (m\<lparr>mNextMatches := ms, mInsertedMatches := ins, mMatchesChanged := ch\<rparr>) = loadedAs fin tatami k m"
  by (simp add: loadedAs_def)

lemma flush_result:
  assumes "tatamiOf t (mTatami m) = Some tatami" and wf: "tatami_wf t tatami"
    and m: "mResetting m \<or> loadedAs (matchFinished t) tatami (card (mLoadedGroups m)) m"
  shows "\<exists>m'. flush t m = Inr m' \<and> \<not> mResetting m' \<and> mTatami m' = mTatami m \<and>
    loadedAs (matchFinished t) tatami (card (mLoadedGroups m')) m' \<and>
    mNextMatches m' = take DISPLAY_COUNT (comingMatches t tatami) \<and>
    (\<exists>new. mInsertedMatches m' = mInsertedMatches m @ new \<and> set (mNextMatches m') \<subseteq> set (mNextMatches m) \<union> set new) \<and>
    (\<not> mMatchesChanged m' \<longrightarrow> mNextMatches m' = mNextMatches m)"
proof -
  have "loadedAs (matchFinished t) tatami 0 (m\<lparr>mLoadedMatches := Map.empty, mLoadedGroups := {},
      mUnfinishedLoadedMatches := [], mUnfinishedLoadedMatchesSet := {}, mResetting := False, mMatchesChanged := True\<rparr>)"
    by (simp add: loadedAs_def queue_def stamped_def)
  then obtain m1 where m1: "(if mResetting m then model_reset m else Inr m) = Inr m1" and
    frame1: "\<not> mResetting m1" "mTatami m1 = mTatami m" "mNextMatches m1 = mNextMatches m" "mInsertedMatches m1 = mInsertedMatches m"
    and l1: "loadedAs (matchFinished t) tatami (card (mLoadedGroups m1)) m1"
    using m by (cases "mResetting m") (auto simp: model_reset_def)
  from loadGroups_loadedAs[OF wf l1] obtain m2 k where m2: "loadGroups t tatami m1 = Some (Inr m2)" "sameDisplay m1 m2"
    and l2: "loadedAs (matchFinished t) tatami k m2"
    and enough: "length (mUnfinishedLoadedMatches m2) \<ge> DISPLAY_COUNT \<or> k = tatami_groupCount tatami" by blast
  obtain ms ins ch where r: "flushMatches [] (mNextMatches m2) (mUnfinishedLoadedMatches m2) 0 (mInsertedMatches m2)
      (mMatchesChanged m2) = (ms, ins, ch)" by (rule prod_cases3)
  have "loadBlocks t m1 = Inr m2"
    using assms(1) frame1 m2 by (simp add: loadBlocks_def list_at_def pm_at_def tatamiOf_def)
  then have "flush t m = Inr (m2\<lparr>mNextMatches := ms, mInsertedMatches := ins, mMatchesChanged := ch\<rparr>)"
    using m1 r by (simp add: flush_def)
  moreover have "k = card (mLoadedGroups m2)" using loadedAs_card[OF wf l2] by simp
  ultimately show ?thesis
    using flushMatches_result[OF _ r] take_shown[OF l2 enough] m2 frame1 l2 by (auto simp: loadedAs_def)
qed

subsection \<open>Following the tatamis\<close>

text \<open>The groups of the model's tatami that a list of locations names.\<close>

definition touchedGroups :: "TatamiLocation \<Rightarrow> BlockLocation list \<Rightarrow> PositionId set" where
  "touchedGroups tatami ls = (\<lambda>l. handle_id (getConcurrentGroupHandle l)) `
     {l \<in> set ls. TatamiLocation_eq tatami (loc_tatami (concurrentGroup (sequentialGroup l)))}"

text \<open>
  A change of a tatami that \<open>touched\<close> describes: the other groups keep their matches and their order.
\<close>

definition changedWithin :: "PositionId set \<Rightarrow> TatamiStore \<Rightarrow> TatamiStore \<Rightarrow> bool" where
  "changedWithin touched a b \<longleftrightarrow>
     filter (\<lambda>i. i \<notin> touched) (mIds (mConcurrentGroups a)) = filter (\<lambda>i. i \<notin> touched) (mIds (mConcurrentGroups b)) \<and>
     (\<forall>i. i \<notin> touched \<longrightarrow> map_option mGroupMatches (mElements (mConcurrentGroups a) i) =
        map_option mGroupMatches (mElements (mConcurrentGroups b) i))"

lemma index_of_take: "y \<in> set (take n zs) \<Longrightarrow> index_of y zs < n"
proof (induction zs arbitrary: n)
  case (Cons z zs)
  then show ?case using Cons.IH[of "n - 1"] by (cases n) auto
qed simp

lemma take_unchanged:
  assumes eq: "filter (\<lambda>i. i \<notin> L) xs = filter (\<lambda>i. i \<notin> L) ys" and k: "k \<le> length xs"
    and xs: "\<forall>x \<in> set (take k xs). x \<notin> L" and ys: "\<forall>y \<in> set ys \<inter> L. k \<le> index_of y ys"
  shows "take k ys = take k xs \<and> k \<le> length ys"
proof -
  let ?F = "filter (\<lambda>i. i \<notin> L)"
  have "y \<notin> L" if "y \<in> set (take k ys)" for y
    using ys index_of_take[OF that] in_set_takeD[OF that] by (metis IntI not_le)
  then have "?F (take k ys) = take k ys" by (simp add: filter_id_conv)
  then have fy: "?F ys = take k ys @ ?F (drop k ys)" by (metis append_take_drop_id filter_append)
  have "?F (take k xs) = take k xs" using xs by (simp add: filter_id_conv)
  then have fx: "?F xs = take k xs @ ?F (drop k xs)" by (metis append_take_drop_id filter_append)
  have "k \<le> length ys"
  proof (rule ccontr)
    assume "\<not> k \<le> length ys"
    then have "length (?F ys) = length ys" using fy by simp
    moreover have "k \<le> length (?F xs)" using fx k by simp
    ultimately show False using eq \<open>\<not> k \<le> length ys\<close> by simp
  qed
  then show ?thesis using eq fx fy k by (metis append_eq_append_conv length_take min.absorb2)
qed

lemma changeLocations_result:
  assumes "pm_inv (mConcurrentGroups b)"
  shows "\<exists>m'. changeLocations b ls m = Inr m' \<and> mTatami m' = mTatami m \<and> mNextMatches m' = mNextMatches m \<and>
    mLoadedGroups m' = mLoadedGroups m \<and> (\<forall>fin a k. loadedAs fin a k m' = loadedAs fin a k m) \<and>
    (mResetting m' \<or> (\<forall>i \<in> touchedGroups (mTatami m) ls. i \<notin> mLoadedGroups m \<and>
        (i \<in> set (mIds (mConcurrentGroups b)) \<longrightarrow> card (mLoadedGroups m) \<le> index_of i (mIds (mConcurrentGroups b)))))"
proof (induction ls arbitrary: m)
  case Nil
  then show ?case by (simp add: touchedGroups_def)
next
  case (Cons l ls)
  let ?h = "getConcurrentGroupHandle l" and ?m = "m\<lparr>mTatamiChanged := True\<rparr>" and ?ids = "mIds (mConcurrentGroups b)"
  have frame: "loadedAs fin a k ?m = loadedAs fin a k m" "loadedAs fin a k (?m\<lparr>mResetting := True\<rparr>) = loadedAs fin a k m"
    for fin a k by (simp_all add: loadedAs_def)
  have contains: "tatami_containsGroup ?h b \<longleftrightarrow> handle_id ?h \<in> set ?ids"
    using assms by (auto simp: tatami_containsGroup_def pm_containsHandle_def pm_contains_def pm_inv_def)
  have touched: "touchedGroups (mTatami m) (l # ls) =
     (if TatamiLocation_eq (mTatami m) (loc_tatami (concurrentGroup (sequentialGroup l)))
      then insert (handle_id ?h) (touchedGroups (mTatami m) ls) else touchedGroups (mTatami m) ls)"
    by (auto simp: touchedGroups_def)
  show ?case
    using Cons.IH[of m] Cons.IH[of ?m] frame contains
    by (auto simp: touched getConcurrentGroupHandle_def Let_def tatami_getIndex_def pm_getIndex_def)
qed

lemma queue_unchanged:
  assumes ch: "changedWithin L a b" and inv: "pm_inv (mConcurrentGroups a)" "pm_inv (mConcurrentGroups b)"
    and k: "k \<le> tatami_groupCount a" and old: "\<forall>x \<in> set (take k (mIds (mConcurrentGroups a))). x \<notin> L"
    and new: "\<forall>y \<in> set (mIds (mConcurrentGroups b)) \<inter> L. k \<le> index_of y (mIds (mConcurrentGroups b))"
  shows "k \<le> tatami_groupCount b" and "take k (mIds (mConcurrentGroups b)) = take k (mIds (mConcurrentGroups a))"
    and "queue b k = queue a k"
proof -
  have same: "take k (mIds (mConcurrentGroups b)) = take k (mIds (mConcurrentGroups a)) \<and> k \<le> length (mIds (mConcurrentGroups b))"
    using ch k old new by (intro take_unchanged) (auto simp: changedWithin_def tatami_groupCount_def pm_size_def)
  then show "k \<le> tatami_groupCount b" and "take k (mIds (mConcurrentGroups b)) = take k (mIds (mConcurrentGroups a))"
    by (simp_all add: tatami_groupCount_def pm_size_def)
  have "mGroupMatches (the (mElements (mConcurrentGroups b) x)) = mGroupMatches (the (mElements (mConcurrentGroups a) x))"
    if x: "x \<in> set (take k (mIds (mConcurrentGroups a)))" for x
  proof -
    have "x \<notin> L" using old x by auto
    moreover have "x \<in> dom (mElements (mConcurrentGroups a))" "x \<in> dom (mElements (mConcurrentGroups b))"
      using x same inv by (metis in_set_takeD pm_inv_def)+
    ultimately show ?thesis using ch by (auto simp: changedWithin_def dest!: spec[of _ x])
  qed
  then show "queue b k = queue a k"
    unfolding queue_def entries_def take_map using same
    by (intro arg_cong[where f = concat]) (auto intro!: map_cong)
qed

subsection \<open>Runs\<close>

text \<open>
  The tournament changes and tells the model what changed. \<open>matchesChange c ids\<close> is a change of matches: the
  tatamis stay, no match of a tatami disappears, and only the matches \<open>ids\<close> of the category \<open>c\<close> become finished or
  unfinished. \<open>tatamisChange locations\<close> is a change of the tatamis within the groups that the locations name.
\<close>

definition matchesChange :: "TatamiLocation \<Rightarrow> CategoryId \<Rightarrow> MatchId list \<Rightarrow> TournamentStore \<Rightarrow> TournamentStore \<Rightarrow> bool" where
  "matchesChange l c ids t t' \<longleftrightarrow> mCategories t' c \<noteq> None \<and> tatamiOf t' l = tatamiOf t l \<and>
     (case tatamiOf t l of None \<Rightarrow> False | Some tatami \<Rightarrow>
        list_all (\<lambda>i. storedMatch t' i \<noteq> None \<and> (matchFinished t' i = matchFinished t i \<or> i \<in> CombinedId c ` set ids))
          (wholeQueue tatami))"

definition tatamisChange :: "TatamiLocation \<Rightarrow> BlockLocation list \<Rightarrow> TournamentStore \<Rightarrow> TournamentStore \<Rightarrow> bool" where
  "tatamisChange l ls t t' \<longleftrightarrow>
     (case (tatamiOf t l, tatamiOf t' l) of
        (Some a, Some b) \<Rightarrow> changedWithin (touchedGroups l ls) a b \<and> tatami_wf t' b \<and>
          list_all (\<lambda>i. matchFinished t' i = matchFinished t i) (wholeQueue a)
      | _ \<Rightarrow> False)"

inductive web_reachable :: "TournamentStore \<Rightarrow> WebTatamiModel \<Rightarrow> bool" where
  created: "tatamiOf t l = Some tatami \<Longrightarrow> tatami_wf t tatami \<Longrightarrow> newWebTatamiModel t l = Inr m \<Longrightarrow> web_reachable t m"
| matches: "web_reachable t m \<Longrightarrow> matchesChange (mTatami m) c ids t t' \<Longrightarrow> changeMatches t' c ids m = Inr m' \<Longrightarrow>
    web_reachable t' m'"
| tatamis: "web_reachable t m \<Longrightarrow> tatamisChange (mTatami m) ls t t' \<Longrightarrow> changeTatamis t' ls bs m = Inr m' \<Longrightarrow>
    web_reachable t' m'"
| flushed: "web_reachable t m \<Longrightarrow> flush t m = Inr m' \<Longrightarrow> web_reachable t m'"
| cleared: "web_reachable t m \<Longrightarrow> clearChanges m = Inr m' \<Longrightarrow> web_reachable t m'"

lemma changeMatches_inv:
  assumes "model_inv t m" and ch: "matchesChange (mTatami m) c ids t t'"
  shows "\<exists>m'. changeMatches t' c ids m = Inr m' \<and> model_inv t' m'"
proof -
  from assms(1) obtain tatami where tatami: "tatamiOf t (mTatami m) = Some tatami" and wf: "tatami_wf t tatami"
    and m: "mResetting m \<or> loadedAs (matchFinished t) tatami (card (mLoadedGroups m)) m" by (auto simp: model_inv_def)
  from ch tatami obtain category where c: "mCategories t' c = Some category" and tatami': "tatamiOf t' (mTatami m) = Some tatami"
    and all: "\<forall>i \<in> set (wholeQueue tatami). storedMatch t' i \<noteq> None \<and>
      (matchFinished t' i = matchFinished t i \<or> i \<in> CombinedId c ` set ids)"
    by (auto simp: matchesChange_def list_all_iff)
  have wf': "tatami_wf t' tatami" using wf all by (auto simp: tatami_wf_def)
  show ?thesis
  proof (cases "mResetting m")
    case True
    then show ?thesis using tatami' wf' by (auto simp: changeMatches_def model_inv_def)
  next
    case False
    let ?k = "card (mLoadedGroups m)"
    from False m have l: "loadedAs (matchFinished t) tatami ?k m" by simp
    then obtain ys where ys: "wholeQueue tatami = queue tatami ?k @ ys"
      using queue_prefix[of ?k tatami] by (auto simp: loadedAs_def)
    from ys wf' have "distinct (queue tatami ?k)" and "\<forall>i \<in> set (queue tatami ?k). storedMatch t' i \<noteq> None"
      by (auto simp: tatami_wf_def)
    from changeMatches_loadedAs[OF l this(1) c this(2), of ids] obtain m' where
      m': "foldE (changeLoadedMatch c category) ids m = Inr m'" "mTatami m' = mTatami m" "mLoadedGroups m' = mLoadedGroups m"
      and l': "loadedAs (\<lambda>i. if i \<in> CombinedId c ` set ids then matchFinished t' i else matchFinished t i) tatami ?k m'"
      by blast
    have "loadedAs (matchFinished t') tatami ?k m'"
      using l' by (rule loadedAs_fin_cong) (use all ys in auto)
    with m' c False tatami' wf' show ?thesis
      by (auto simp: changeMatches_def getCategory_def categories_get_def model_inv_def)
  qed
qed

lemma changeTatamis_inv:
  assumes "model_inv t m" and ch: "tatamisChange (mTatami m) ls t t'"
  shows "\<exists>m'. changeTatamis t' ls bs m = Inr m' \<and> model_inv t' m'"
proof -
  from assms(1) obtain a where a: "tatamiOf t (mTatami m) = Some a" and wf: "tatami_wf t a"
    and m: "mResetting m \<or> loadedAs (matchFinished t) a (card (mLoadedGroups m)) m" by (auto simp: model_inv_def)
  from ch a obtain b where b: "tatamiOf t' (mTatami m) = Some b" and wf': "tatami_wf t' b"
    and within: "changedWithin (touchedGroups (mTatami m) ls) a b"
    and fin: "\<forall>i \<in> set (wholeQueue a). matchFinished t' i = matchFinished t i"
    by (auto simp: tatamisChange_def list_all_iff split: option.splits)
  have inv: "pm_inv (mConcurrentGroups a)" "pm_inv (mConcurrentGroups b)" using wf wf' by (auto simp: tatami_wf_def)
  show ?thesis
  proof (cases "mResetting m")
    case True
    then show ?thesis using b wf' by (auto simp: changeTatamis_def model_inv_def)
  next
    case False
    let ?k = "card (mLoadedGroups m)"
    from False m have l: "loadedAs (matchFinished t) a ?k m" by simp
    from changeLocations_result[OF inv(2), of ls m] obtain m' where m': "changeLocations b ls m = Inr m'"
      "mTatami m' = mTatami m" "mLoadedGroups m' = mLoadedGroups m" "\<forall>fin a k. loadedAs fin a k m' = loadedAs fin a k m"
      and or: "mResetting m' \<or> (\<forall>i \<in> touchedGroups (mTatami m) ls. i \<notin> mLoadedGroups m \<and>
        (i \<in> set (mIds (mConcurrentGroups b)) \<longrightarrow> ?k \<le> index_of i (mIds (mConcurrentGroups b))))"
      by blast
    have "loadedAs (matchFinished t') b ?k m" if "\<not> mResetting m'"
    proof -
      have k: "?k \<le> tatami_groupCount a" using l by (simp add: loadedAs_def)
      have "\<forall>x \<in> set (take ?k (mIds (mConcurrentGroups a))). x \<notin> touchedGroups (mTatami m) ls"
        and "\<forall>y \<in> set (mIds (mConcurrentGroups b)) \<inter> touchedGroups (mTatami m) ls. ?k \<le> index_of y (mIds (mConcurrentGroups b))"
        using or that l by (auto simp: loadedAs_def)
      note same = queue_unchanged[OF within inv k this]
      obtain ys where "wholeQueue a = queue a ?k @ ys" using queue_prefix[OF k] by blast
      with fin have "loadedAs (matchFinished t') a ?k m" by (intro loadedAs_fin_cong[OF l]) auto
      with same show ?thesis by (simp add: loadedAs_def)
    qed
    with m' b wf' False show ?thesis
      by (auto simp: changeTatamis_def list_at_def pm_at_def tatamiOf_def model_inv_def)
  qed
qed

lemma newWebTatamiModel_inv:
  assumes "tatamiOf t l = Some tatami" and "tatami_wf t tatami"
  shows "\<exists>m. newWebTatamiModel t l = Inr m \<and> mTatami m = l \<and> model_inv t m"
  using flush_result[of t "\<lparr>mTatami = l, mResetting = True, mLoadedMatches = Map.empty, mLoadedGroups = {},
      mUnfinishedLoadedMatches = [], mUnfinishedLoadedMatchesSet = {}, mMatchesChanged = True, mTatamiChanged = True,
      mNextMatches = [], mInsertedMatches = []\<rparr>" tatami] assms
  by (auto simp: newWebTatamiModel_def model_inv_def)

lemma web_reachable_inv: "web_reachable t m \<Longrightarrow> model_inv t m"
proof (induction rule: web_reachable.induct)
  case (created t l tatami m)
  then show ?case using newWebTatamiModel_inv[of t l tatami] by auto
next
  case (matches t m c ids t' m')
  then show ?case using changeMatches_inv[OF matches.IH matches.hyps(2)] by auto
next
  case (tatamis t m ls t' bs m')
  then show ?case using changeTatamis_inv[OF tatamis.IH tatamis.hyps(2), of bs] by auto
next
  case (flushed t m m')
  then show ?case using flush_result[of t m] by (auto simp: model_inv_def)
next
  case (cleared t m m')
  then show ?case by (auto simp: model_inv_def clearChanges_def loadedAs_def)
qed

text \<open>A tournament with one tatami: two groups with the matches 11, 12 and 13 of a category, the first perhaps finished.\<close>

definition exampleMatch :: "MatchId \<Rightarrow> bool \<Rightarrow> MatchStore" where
  "exampleMatch i finished =
     (newMatchStore (CombinedId 7 i) ELIMINATION ''Match'' False (Some 1) (Some 2))\<lparr>mState := newState finished\<rparr>"

definition exampleGroup :: "MatchId list \<Rightarrow> ConcurrentBlockGroup" where
  "exampleGroup ids = newConcurrentBlockGroup\<lparr>mGroupMatches := map (CombinedId 7) ids\<rparr>"

definition exampleTatami :: TatamiStore where
  "exampleTatami = \<lparr>mConcurrentGroups = \<lparr>mIds = [3, 4], mElements = [3 \<mapsto> exampleGroup [11, 12], 4 \<mapsto> exampleGroup [13]]\<rparr>\<rparr>"

definition exampleTournament :: "bool \<Rightarrow> TournamentStore" where
  "exampleTournament finished = (newTournamentStore 1)
     \<lparr>mCategories := [7 \<mapsto> exampleCategory\<lparr>mMatches := [exampleMatch 11 finished, exampleMatch 12 False, exampleMatch 13 False],
                           mMatchMap := [11 \<mapsto> 0, 12 \<mapsto> 1, 13 \<mapsto> 2]\<rparr>],
      mTatamiList := \<lparr>mTatamis = \<lparr>mIds = [5], mElements = [5 \<mapsto> exampleTatami]\<rparr>\<rparr>\<rparr>"

lemma exampleTatami_queue: "wholeQueue exampleTatami = [CombinedId 7 11, CombinedId 7 12, CombinedId 7 13]"
  by (simp add: exampleTatami_def wholeQueue_def queue_def entries_def tatami_groupCount_def pm_size_def exampleGroup_def)

lemma exampleTatami_of: "tatamiOf (exampleTournament b) (TatamiLocation (PositionHandle 5 0)) = Some exampleTatami"
  by (simp add: tatamiOf_def exampleTournament_def)

lemma exampleTournament_storedMatch:
  "storedMatch (exampleTournament b) (CombinedId 7 11) = Some (exampleMatch 11 b)"
  "storedMatch (exampleTournament b) (CombinedId 7 12) = Some (exampleMatch 12 False)"
  "storedMatch (exampleTournament b) (CombinedId 7 13) = Some (exampleMatch 13 False)"
  by (simp_all add: storedMatch_def exampleTournament_def getMatch_def nthE_def)

lemma exampleTournament_wf: "tatami_wf (exampleTournament b) exampleTatami"
  by (simp add: tatami_wf_def exampleTatami_queue exampleTournament_storedMatch)
    (auto simp: pm_inv_def exampleTatami_def split: if_splits)

lemma exampleTournament_reachable: "\<exists>m. web_reachable (exampleTournament True) m \<and> mTatami m = TatamiLocation (PositionHandle 5 0)"
proof -
  let ?l = "TatamiLocation (PositionHandle 5 0)"
  obtain m where m: "newWebTatamiModel (exampleTournament False) ?l = Inr m" "mTatami m = ?l"
    using newWebTatamiModel_inv[OF exampleTatami_of exampleTournament_wf, of False] by blast
  from web_reachable.created[OF exampleTatami_of exampleTournament_wf this(1)] have r: "web_reachable (exampleTournament False) m" .
  have ch: "matchesChange (mTatami m) 7 [11] (exampleTournament False) (exampleTournament True)"
    by (simp add: matchesChange_def m exampleTatami_of exampleTatami_queue exampleTournament_storedMatch matchFinished_def)
      (simp add: exampleTournament_def exampleMatch_def newState_def getStatus_def newMatchStore_def)
  from changeMatches_inv[OF web_reachable_inv[OF r] ch] obtain m' where m': "changeMatches (exampleTournament True) 7 [11] m = Inr m'"
    by blast
  then have "mTatami m' = mTatami m"
    by (auto simp: changeMatches_def changeLoadedMatch_def Let_def split: if_splits option.splits)
  with web_reachable.matches[OF r ch m'] m show ?thesis by auto
qed

text \<open>
  C6. The web server shows the right matches of a tatami. For a tatami model in any state it can reach through the
  notifications of the tournament, the next flush succeeds (the loading loop ends) and leaves in the model exactly the first
  five unfinished matches of the tatami, in the order of the tatami; every match shown was shown before or is among the
  inserted ones that clients are sent, and without the changed flag the list is the same as before.
\<close>
theorem web_tatami_shows_next_matches:
  assumes "web_reachable t m"
  shows "\<exists>tatami m'. tatamiOf t (mTatami m) = Some tatami \<and> flush t m = Inr m' \<and>
      model_getMatches m' = Inr (take 5 (comingMatches t tatami)) \<and>
      (\<exists>new. mInsertedMatches m' = mInsertedMatches m @ new \<and> set (mNextMatches m') \<subseteq> set (mNextMatches m) \<union> set new) \<and>
      (matchesChanged m' = Inr False \<longrightarrow> mNextMatches m' = mNextMatches m)"
proof -
  from web_reachable_inv[OF assms] obtain tatami where tatami: "tatamiOf t (mTatami m) = Some tatami" "tatami_wf t tatami"
    "mResetting m \<or> loadedAs (matchFinished t) tatami (card (mLoadedGroups m)) m" by (auto simp: model_inv_def)
  from flush_result[OF this] tatami(1) show "\<exists>tatami m'. tatamiOf t (mTatami m) = Some tatami \<and> flush t m = Inr m' \<and>
      model_getMatches m' = Inr (take 5 (comingMatches t tatami)) \<and>
      (\<exists>new. mInsertedMatches m' = mInsertedMatches m @ new \<and> set (mNextMatches m') \<subseteq> set (mNextMatches m) \<union> set new) \<and>
      (matchesChanged m' = Inr False \<longrightarrow> mNextMatches m' = mNextMatches m)"
    by (auto simp: model_getMatches_def matchesChanged_def DISPLAY_COUNT_def)
qed

theorem web_tatami_shows_next_matches_witness:
  "\<exists>m m'. web_reachable (exampleTournament True) m \<and> flush (exampleTournament True) m = Inr m' \<and>
     model_getMatches m' = Inr [CombinedId 7 12, CombinedId 7 13]"
proof -
  obtain m where m: "web_reachable (exampleTournament True) m" "mTatami m = TatamiLocation (PositionHandle 5 0)"
    using exampleTournament_reachable by blast
  have "comingMatches (exampleTournament True) exampleTatami = [CombinedId 7 12, CombinedId 7 13]"
    by (simp add: comingMatches_def exampleTatami_queue matchFinished_def exampleTournament_storedMatch)
      (simp add: exampleMatch_def newState_def getStatus_def newMatchStore_def)
  with web_tatami_shows_next_matches[OF m(1)] m exampleTatami_of[of True] show ?thesis by auto
qed

text \<open>
  The notifications never fail an assertion: in every reachable state the model accepts the notification of any further
  change of matches or tatamis that the tournament reports.
\<close>
theorem web_tatami_accepts_changes:
  assumes "web_reachable t m"
    and "matchesChange (mTatami m) c ids t t' \<and> r = changeMatches t' c ids m \<or>
      tatamisChange (mTatami m) ls t t' \<and> r = changeTatamis t' ls bs m"
  shows "\<exists>m'. r = Inr m' \<and> web_reachable t' m'"
  using assms(2)
proof (elim disjE conjE)
  assume ch: "matchesChange (mTatami m) c ids t t'" and r: "r = changeMatches t' c ids m"
  from changeMatches_inv[OF web_reachable_inv[OF assms(1)] ch] web_reachable.matches[OF assms(1) ch] r
  show ?thesis by auto
next
  assume ch: "tatamisChange (mTatami m) ls t t'" and r: "r = changeTatamis t' ls bs m"
  from changeTatamis_inv[OF web_reachable_inv[OF assms(1)] ch, of bs] web_reachable.tatamis[OF assms(1) ch] r
  show ?thesis by auto
qed

theorem web_tatami_accepts_changes_witness:
  "\<exists>m m'. web_reachable (exampleTournament True) m \<and> changeTatamis (exampleTournament True) [] [] m = Inr m' \<and>
     web_reachable (exampleTournament True) m'"
proof -
  obtain m where m: "web_reachable (exampleTournament True) m" "mTatami m = TatamiLocation (PositionHandle 5 0)"
    using exampleTournament_reachable by blast
  have "tatamisChange (mTatami m) [] (exampleTournament True) (exampleTournament True)"
    using m by (simp add: tatamisChange_def exampleTatami_of exampleTournament_wf changedWithin_def list_all_iff)
  with web_tatami_accepts_changes[OF m(1), where r = "changeTatamis (exampleTournament True) [] [] m"] m(1)
  show ?thesis by blast
qed

text \<open>
  The loading loop of a tatami model ends: from every reachable state that is not being reset it returns a model, without an
  error, in which five unfinished matches are loaded or every group of the tatami is.
\<close>
theorem web_tatami_loading_terminates:
  assumes "web_reachable t m" and "\<not> mResetting m"
  shows "\<exists>tatami m'. tatamiOf t (mTatami m) = Some tatami \<and> loadGroups t tatami m = Some (Inr m') \<and>
    (length (mUnfinishedLoadedMatches m') \<ge> DISPLAY_COUNT \<or> card (mLoadedGroups m') = tatami_groupCount tatami)"
proof -
  from web_reachable_inv[OF assms(1)] assms(2) obtain tatami where tatami: "tatamiOf t (mTatami m) = Some tatami" "tatami_wf t tatami"
    and l: "loadedAs (matchFinished t) tatami (card (mLoadedGroups m)) m" by (auto simp: model_inv_def)
  from loadGroups_loadedAs[OF tatami(2) l] tatami(1) loadedAs_card[OF tatami(2)] show ?thesis by metis
qed

theorem web_tatami_loading_terminates_witness:
  "\<exists>m m'. web_reachable (exampleTournament True) m \<and> loadGroups (exampleTournament True) exampleTatami m = Some (Inr m')"
proof -
  obtain m where m: "web_reachable (exampleTournament True) m" "mTatami m = TatamiLocation (PositionHandle 5 0)"
    using exampleTournament_reachable by blast
  from web_reachable_inv[OF m(1)] obtain tatami where tatami: "tatamiOf (exampleTournament True) (mTatami m) = Some tatami"
    "tatami_wf (exampleTournament True) tatami"
    "mResetting m \<or> loadedAs (matchFinished (exampleTournament True)) tatami (card (mLoadedGroups m)) m" by (auto simp: model_inv_def)
  obtain m1 where m1: "flush (exampleTournament True) m = Inr m1" "\<not> mResetting m1" "mTatami m1 = mTatami m"
    using flush_result[OF tatami] by blast
  from web_tatami_loading_terminates[OF web_reachable.flushed[OF m(1) m1(1)] m1(2)] m1(3) m(2) web_reachable.flushed[OF m(1) m1(1)]
  show ?thesis by (auto simp: exampleTatami_of)
qed

end
