(* ===== verification/Web_Tournament_Store.thy ===== *)
theory Web_Tournament_Store
  imports Web_Tatami_Model
begin

section \<open>The change log of the web server's tournament\<close>

text \<open>
  Models \<^verbatim>\<open>src/web/web_tournament_store.hpp\<close> and \<^verbatim>\<open>web_tournament_store.cpp\<close>: the subclass of \<^verbatim>\<open>TournamentStore\<close>
  whose virtual signal functions record what changed since the last \<open>clearChanges\<close>, so that the web server sends its
  clients only the difference. \<open>webTournament\<close> is the base class part. The hash sets of changed, added and erased keys are
  sets; loops over the players of a category or over all players visit them in increasing order.

  Players and categories follow the same three-set protocol. The locale \<open>change_log\<close> states it once and shows that the log
  describes the difference between the tournament at the last \<open>clearChanges\<close> and now; it is interpreted for both.
\<close>

record WebTournamentStore =
  webTournament :: TournamentStore
  mTournamentChanged :: bool
  mChangedPlayers :: "PlayerId set"
  mAddedPlayers :: "PlayerId set"
  mErasedPlayers :: "PlayerId set"
  mPlayerMatchResets :: "PlayerId set"
  mChangedCategories :: "CategoryId set"
  mAddedCategories :: "CategoryId set"
  mErasedCategories :: "CategoryId set"
  mCategoryMatchResets :: "CategoryId set"
  mCategoryResultsResets :: "CategoryId set"
  mChangedMatches :: "CombinedId set"
  mTatamiModels :: "WebTatamiModel list"
  mResettingTatamis :: bool

definition newWebTournamentStore :: WebTournamentStore where
  "newWebTournamentStore =
     \<lparr>webTournament = newTournamentStore 0, mTournamentChanged = False, mChangedPlayers = {}, mAddedPlayers = {},
      mErasedPlayers = {}, mPlayerMatchResets = {}, mChangedCategories = {}, mAddedCategories = {}, mErasedCategories = {},
      mCategoryMatchResets = {}, mCategoryResultsResets = {}, mChangedMatches = {}, mTatamiModels = [], mResettingTatamis = True\<rparr>"

text \<open>The loop \<^verbatim>\<open>for (auto &model : mTatamiModels)\<close>.\<close>

fun mapE :: "('a \<Rightarrow> 'b result) \<Rightarrow> 'a list \<Rightarrow> 'b list result" where
  "mapE f [] = Inr []"
| "mapE f (x # xs) = bindE (f x) (\<lambda>y. bindE (mapE f xs) (\<lambda>ys. Inr (y # ys)))"

definition forModels :: "(WebTatamiModel \<Rightarrow> WebTatamiModel result) \<Rightarrow> WebTournamentStore \<Rightarrow> WebTournamentStore result" where
  "forModels f w = bindE (mapE f (mTatamiModels w)) (\<lambda>ms. Inr (w\<lparr>mTatamiModels := ms\<rparr>))"

definition store_clearChanges :: "WebTournamentStore \<Rightarrow> WebTournamentStore result" where
  "store_clearChanges w = forModels clearChanges
     (w\<lparr>mTournamentChanged := False, mChangedPlayers := {}, mAddedPlayers := {}, mErasedPlayers := {}, mPlayerMatchResets := {},
        mChangedCategories := {}, mAddedCategories := {}, mErasedCategories := {}, mCategoryMatchResets := {},
        mCategoryResultsResets := {}, mChangedMatches := {}\<rparr>)"

definition changeTournament :: "WebTournamentStore \<Rightarrow> WebTournamentStore" where
  "changeTournament w = w\<lparr>mTournamentChanged := True\<rparr>"

subsection \<open>Players\<close>

definition notePlayerChanged :: "PlayerId \<Rightarrow> WebTournamentStore \<Rightarrow> WebTournamentStore result" where
  "notePlayerChanged p w = assertE (p \<notin> mErasedPlayers w)
     (Inr (if p \<in> mAddedPlayers w then w else w\<lparr>mChangedPlayers := insert p (mChangedPlayers w)\<rparr>))"

definition changePlayers :: "PlayerId list \<Rightarrow> WebTournamentStore \<Rightarrow> WebTournamentStore result" where
  "changePlayers = foldE notePlayerChanged"

definition beginAddPlayers :: "PlayerId list \<Rightarrow> WebTournamentStore \<Rightarrow> WebTournamentStore" where
  "beginAddPlayers ids w = w"

definition notePlayerAdded :: "PlayerId \<Rightarrow> WebTournamentStore \<Rightarrow> WebTournamentStore result" where
  "notePlayerAdded p w = assertE (p \<notin> mChangedPlayers w)
     (let w1 = w\<lparr>mPlayerMatchResets := insert p (mPlayerMatchResets w)\<rparr>
      in Inr (if p \<in> mErasedPlayers w1
              then w1\<lparr>mErasedPlayers := mErasedPlayers w1 - {p}, mChangedPlayers := insert p (mChangedPlayers w1)\<rparr>
              else w1\<lparr>mAddedPlayers := insert p (mAddedPlayers w1)\<rparr>))"

definition endAddPlayers :: "PlayerId list \<Rightarrow> WebTournamentStore \<Rightarrow> WebTournamentStore result" where
  "endAddPlayers = foldE notePlayerAdded"

definition notePlayerErased :: "PlayerId \<Rightarrow> WebTournamentStore \<Rightarrow> WebTournamentStore result" where
  "notePlayerErased p w = assertE (p \<notin> mErasedPlayers w)
     (let w1 = w\<lparr>mPlayerMatchResets := mPlayerMatchResets w - {p}\<rparr>
      in Inr (if p \<in> mAddedPlayers w1
              then w1\<lparr>mAddedPlayers := mAddedPlayers w1 - {p}\<rparr>
              else w1\<lparr>mChangedPlayers := mChangedPlayers w1 - {p}, mErasedPlayers := insert p (mErasedPlayers w1)\<rparr>))"

definition beginErasePlayers :: "PlayerId list \<Rightarrow> WebTournamentStore \<Rightarrow> WebTournamentStore result" where
  "beginErasePlayers = foldE notePlayerErased"

definition endErasePlayers :: "PlayerId list \<Rightarrow> WebTournamentStore \<Rightarrow> WebTournamentStore" where
  "endErasePlayers ids w = w"

definition playerIds :: "WebTournamentStore \<Rightarrow> PlayerId list" where
  "playerIds w = sorted_list_of_set (dom (mPlayers (webTournament w)))"

definition beginResetPlayers :: "WebTournamentStore \<Rightarrow> WebTournamentStore result" where
  "beginResetPlayers w = beginErasePlayers (playerIds w) w"

definition endResetPlayers :: "WebTournamentStore \<Rightarrow> WebTournamentStore" where
  "endResetPlayers w = beginAddPlayers (playerIds w) w"

definition addPlayersToCategory :: "CategoryId \<Rightarrow> PlayerId list \<Rightarrow> WebTournamentStore \<Rightarrow> WebTournamentStore" where
  "addPlayersToCategory c ps w =
     w\<lparr>mPlayerMatchResets := mPlayerMatchResets w \<union> set ps, mCategoryMatchResets := insert c (mCategoryMatchResets w)\<rparr>"

definition erasePlayersFromCategory :: "CategoryId \<Rightarrow> PlayerId list \<Rightarrow> WebTournamentStore \<Rightarrow> WebTournamentStore" where
  "erasePlayersFromCategory c ps w =
     w\<lparr>mPlayerMatchResets := mPlayerMatchResets w \<union> set ps, mCategoryMatchResets := insert c (mCategoryMatchResets w)\<rparr>"

subsection \<open>Categories\<close>

definition noteCategoryChanged :: "CategoryId \<Rightarrow> WebTournamentStore \<Rightarrow> WebTournamentStore result" where
  "noteCategoryChanged c w = assertE (c \<notin> mErasedCategories w)
     (Inr (if c \<in> mAddedCategories w then w else w\<lparr>mChangedCategories := insert c (mChangedCategories w)\<rparr>))"

definition changeCategories :: "CategoryId list \<Rightarrow> WebTournamentStore \<Rightarrow> WebTournamentStore result" where
  "changeCategories = foldE noteCategoryChanged"

definition beginAddCategories :: "CategoryId list \<Rightarrow> WebTournamentStore \<Rightarrow> WebTournamentStore" where
  "beginAddCategories ids w = w"

definition resetPlayersOf :: "CategoryId \<Rightarrow> WebTournamentStore \<Rightarrow> WebTournamentStore result" where
  "resetPlayersOf c w = bindE (getCategory c (webTournament w)) (\<lambda>category.
     Inr (w\<lparr>mPlayerMatchResets := mPlayerMatchResets w \<union> mCategoryPlayers category\<rparr>))"

definition noteCategoryAdded :: "CategoryId \<Rightarrow> WebTournamentStore \<Rightarrow> WebTournamentStore result" where
  "noteCategoryAdded c w = assertE (c \<notin> mChangedCategories w)
     (let w1 = w\<lparr>mCategoryMatchResets := insert c (mCategoryMatchResets w)\<rparr>;
          w2 = (if c \<in> mErasedCategories w1
                then w1\<lparr>mErasedCategories := mErasedCategories w1 - {c}, mChangedCategories := insert c (mChangedCategories w1),
                        mCategoryResultsResets := insert c (mCategoryResultsResets w1),
                        mCategoryMatchResets := insert c (mCategoryMatchResets w1)\<rparr>
                else w1\<lparr>mAddedCategories := insert c (mAddedCategories w1),
                        mCategoryResultsResets := insert c (mCategoryResultsResets w1),
                        mCategoryMatchResets := insert c (mCategoryMatchResets w1)\<rparr>)
      in resetPlayersOf c w2)"

definition endAddCategories :: "CategoryId list \<Rightarrow> WebTournamentStore \<Rightarrow> WebTournamentStore result" where
  "endAddCategories = foldE noteCategoryAdded"

definition noteCategoryErased :: "CategoryId \<Rightarrow> WebTournamentStore \<Rightarrow> WebTournamentStore result" where
  "noteCategoryErased c w = assertE (c \<notin> mErasedCategories w)
     (let w1 = w\<lparr>mCategoryMatchResets := mCategoryMatchResets w - {c}\<rparr>;
          w2 = (if c \<in> mAddedCategories w1
                then w1\<lparr>mAddedCategories := mAddedCategories w1 - {c}\<rparr>
                else w1\<lparr>mChangedCategories := mChangedCategories w1 - {c}, mErasedCategories := insert c (mErasedCategories w1)\<rparr>)
      in resetPlayersOf c w2)"

definition beginEraseCategories :: "CategoryId list \<Rightarrow> WebTournamentStore \<Rightarrow> WebTournamentStore result" where
  "beginEraseCategories = foldE noteCategoryErased"

definition endEraseCategories :: "CategoryId list \<Rightarrow> WebTournamentStore \<Rightarrow> WebTournamentStore" where
  "endEraseCategories ids w = w"

definition categoryIds :: "WebTournamentStore \<Rightarrow> CategoryId list" where
  "categoryIds w = sorted_list_of_set (dom (mCategories (webTournament w)))"

definition beginResetCategories :: "WebTournamentStore \<Rightarrow> WebTournamentStore result" where
  "beginResetCategories w = beginEraseCategories (categoryIds w) w"

definition endResetCategories :: "WebTournamentStore \<Rightarrow> WebTournamentStore result" where
  "endResetCategories w = endAddCategories (categoryIds w) w"

subsection \<open>Matches and tatamis\<close>

definition store_changeMatches :: "CategoryId \<Rightarrow> MatchId list \<Rightarrow> WebTournamentStore \<Rightarrow> WebTournamentStore result" where
  "store_changeMatches c ids w =
     (let w1 = w\<lparr>mChangedMatches := mChangedMatches w \<union> CombinedId c ` set ids\<rparr>
      in if mResettingTatamis w1 then Inr w1 else forModels (changeMatches (webTournament w1) c ids) w1)"

definition beginResetMatches :: "CategoryId list \<Rightarrow> WebTournamentStore \<Rightarrow> WebTournamentStore" where
  "beginResetMatches ids w = w"

definition endResetMatches :: "CategoryId list \<Rightarrow> WebTournamentStore \<Rightarrow> WebTournamentStore result" where
  "endResetMatches = foldE (\<lambda>c w. resetPlayersOf c (w\<lparr>mCategoryMatchResets := insert c (mCategoryMatchResets w)\<rparr>))"

definition addMatchesToPlayer :: "PlayerId \<Rightarrow> CombinedId list \<Rightarrow> WebTournamentStore \<Rightarrow> WebTournamentStore" where
  "addMatchesToPlayer p ids w = w\<lparr>mPlayerMatchResets := insert p (mPlayerMatchResets w)\<rparr>"

definition eraseMatchesFromPlayer :: "PlayerId \<Rightarrow> CombinedId list \<Rightarrow> WebTournamentStore \<Rightarrow> WebTournamentStore" where
  "eraseMatchesFromPlayer p ids w = w\<lparr>mPlayerMatchResets := insert p (mPlayerMatchResets w)\<rparr>"

definition store_changeTatamis :: "BlockLocation list \<Rightarrow> Block list \<Rightarrow> WebTournamentStore \<Rightarrow> WebTournamentStore result" where
  "store_changeTatamis locations blocks w =
     (if mResettingTatamis w then Inr w else forModels (changeTatamis (webTournament w) locations blocks) w)"

definition beginAddTatamis :: "TatamiLocation list \<Rightarrow> WebTournamentStore \<Rightarrow> WebTournamentStore" where
  "beginAddTatamis ls w = w\<lparr>mResettingTatamis := True, mTournamentChanged := True\<rparr>"

definition endAddTatamis :: "TatamiLocation list \<Rightarrow> WebTournamentStore \<Rightarrow> WebTournamentStore" where
  "endAddTatamis ls w = w\<lparr>mResettingTatamis := True, mTournamentChanged := True\<rparr>"

definition beginEraseTatamis :: "TatamiLocation list \<Rightarrow> WebTournamentStore \<Rightarrow> WebTournamentStore" where
  "beginEraseTatamis ls w = w\<lparr>mResettingTatamis := True, mTournamentChanged := True\<rparr>"

definition endEraseTatamis :: "TatamiLocation list \<Rightarrow> WebTournamentStore \<Rightarrow> WebTournamentStore" where
  "endEraseTatamis ls w = w\<lparr>mResettingTatamis := True, mTournamentChanged := True\<rparr>"

definition resetCategoryResults :: "CategoryId list \<Rightarrow> WebTournamentStore \<Rightarrow> WebTournamentStore" where
  "resetCategoryResults ids w = w\<lparr>mCategoryResultsResets := mCategoryResultsResets w \<union> set ids\<rparr>"

definition newModelAt :: "TournamentStore \<Rightarrow> nat \<Rightarrow> WebTatamiModel result" where
  "newModelAt t i = bindE (list_getHandle i (mTatamiList t)) (\<lambda>h. newWebTatamiModel t (TatamiLocation h))"

definition flushWebTatamiModels :: "WebTournamentStore \<Rightarrow> WebTournamentStore result" where
  "flushWebTatamiModels w =
     (if mResettingTatamis w
      then bindE (mapE (newModelAt (webTournament w)) [0..<tatamiCount (mTatamiList (webTournament w))]) (\<lambda>ms.
             Inr (w\<lparr>mTatamiModels := ms, mResettingTatamis := False\<rparr>))
      else forModels (flush (webTournament w)) w)"

definition getWebTatamiModel :: "nat \<Rightarrow> WebTournamentStore \<Rightarrow> WebTatamiModel result" where
  "getWebTatamiModel i w = assertE (\<not> mResettingTatamis w)
     (if i < length (mTatamiModels w) then Inr (mTatamiModels w ! i) else Inl OutOfRange)"

subsection \<open>The three-set protocol\<close>

lemma foldE_keeps:
  assumes "foldE f xs s = Inr s'" and "\<And>x t t'. f x t = Inr t' \<Longrightarrow> g t' = g t"
  shows "g s' = g s"
  using foldE_invariant[OF assms(1), of "\<lambda>t. g t = g s"] assms(2) by simp

text \<open>
  The contract of a log: what a note does to the three sets, for a key that is \<open>present\<close> in the store when the note needs to
  look it up. \<open>logged old cur s\<close> says that the sets are the difference of the key sets \<open>old\<close> and \<open>cur\<close>.
\<close>

locale change_log =
  fixes changed added erased present :: "'s \<Rightarrow> 'k set"
    and noteChanged noteAdded noteErased :: "'k \<Rightarrow> 's \<Rightarrow> 's result"
  assumes noteChanged: "k \<notin> erased s \<Longrightarrow> \<exists>s'. noteChanged k s = Inr s' \<and> present s' = present s \<and>
      added s' = added s \<and> erased s' = erased s \<and> changed s' = changed s \<union> ({k} - added s)"
    and noteAdded: "k \<notin> changed s \<Longrightarrow> k \<in> present s \<Longrightarrow> \<exists>s'. noteAdded k s = Inr s' \<and> present s' = present s \<and>
      added s' = added s \<union> ({k} - erased s) \<and> erased s' = erased s - {k} \<and> changed s' = changed s \<union> ({k} \<inter> erased s)"
    and noteErased: "k \<notin> erased s \<Longrightarrow> k \<in> present s \<Longrightarrow> \<exists>s'. noteErased k s = Inr s' \<and> present s' = present s \<and>
      added s' = added s - {k} \<and> erased s' = erased s \<union> ({k} - added s) \<and> changed s' = changed s - ({k} - added s)"
begin

definition logged :: "'k set \<Rightarrow> 'k set \<Rightarrow> 's \<Rightarrow> bool" where
  "logged old cur s \<longleftrightarrow> added s = cur - old \<and> erased s = old - cur \<and> changed s \<subseteq> cur \<inter> old"

lemma changed_loop:
  assumes "logged old cur s" and "set ks \<subseteq> cur"
  shows "\<exists>s'. foldE noteChanged ks s = Inr s' \<and> logged old cur s' \<and> changed s' = changed s \<union> (set ks \<inter> old)"
  using assms
proof (induction ks arbitrary: s)
  case (Cons k ks)
  then have "k \<notin> erased s" by (auto simp: logged_def)
  from noteChanged[OF this] obtain s1 where s1: "noteChanged k s = Inr s1" "added s1 = added s" "erased s1 = erased s"
    "changed s1 = changed s \<union> ({k} - added s)" by blast
  then have "logged old cur s1" and "changed s1 = changed s \<union> ({k} \<inter> old)" using Cons.prems by (auto simp: logged_def)
  with Cons.IH[of s1] s1(1) Cons.prems(2) show ?case by auto
qed (simp add: logged_def)

lemma added_loop:
  assumes "logged old cur s" and "distinct ks" and "set ks \<inter> cur = {}" and "set ks \<subseteq> present s"
  shows "\<exists>s'. foldE noteAdded ks s = Inr s' \<and> logged old (cur \<union> set ks) s' \<and> changed s' = changed s \<union> (set ks \<inter> old)"
  using assms
proof (induction ks arbitrary: s cur)
  case (Cons k ks)
  then have "k \<notin> changed s" and "k \<in> present s" by (auto simp: logged_def)
  from noteAdded[OF this] obtain s1 where s1: "noteAdded k s = Inr s1" "present s1 = present s"
    "added s1 = added s \<union> ({k} - erased s)" "erased s1 = erased s - {k}" "changed s1 = changed s \<union> ({k} \<inter> erased s)" by blast
  then have l: "logged old (insert k cur) s1" and c: "changed s1 = changed s \<union> ({k} \<inter> old)"
    using Cons.prems by (auto simp: logged_def)
  have "set ks \<inter> insert k cur = {}" using Cons.prems by auto
  from Cons.IH[OF l _ this] Cons.prems s1(1,2) c show ?case by auto
qed simp

lemma erased_loop:
  assumes "logged old cur s" and "distinct ks" and "set ks \<subseteq> cur" and "set ks \<subseteq> present s"
  shows "\<exists>s'. foldE noteErased ks s = Inr s' \<and> logged old (cur - set ks) s' \<and> changed s' = changed s - set ks"
  using assms
proof (induction ks arbitrary: s cur)
  case (Cons k ks)
  then have "k \<notin> erased s" and "k \<in> present s" by (auto simp: logged_def)
  from noteErased[OF this] obtain s1 where s1: "noteErased k s = Inr s1" "present s1 = present s"
    "added s1 = added s - {k}" "erased s1 = erased s \<union> ({k} - added s)" "changed s1 = changed s - ({k} - added s)" by blast
  then have l: "logged old (cur - {k}) s1" and c: "changed s1 = changed s - {k}"
    using Cons.prems by (auto simp: logged_def)
  have "set ks \<subseteq> cur - {k}" using Cons.prems by auto
  from Cons.IH[OF l _ this] Cons.prems s1(2) obtain s' where
    "foldE noteErased ks s1 = Inr s'" "logged old (cur - {k} - set ks) s'" "changed s' = changed s1 - set ks" by auto
  moreover have "cur - set (k # ks) = cur - {k} - set ks" and "changed s - {k} - set ks = changed s - set (k # ks)" by auto
  ultimately show ?case using s1(1) c by simp
qed simp

lemma accepts:
  assumes "logged old cur s"
  shows "k \<in> cur \<Longrightarrow> \<not> isl (foldE noteChanged [k] s)"
    and "k \<in> cur \<Longrightarrow> k \<in> present s \<Longrightarrow> \<not> isl (foldE noteErased [k] s)"
    and "k \<notin> cur \<Longrightarrow> k \<in> present s \<Longrightarrow> \<not> isl (foldE noteAdded [k] s)"
  using changed_loop[OF assms, of "[k]"] erased_loop[OF assms, of "[k]"] added_loop[OF assms, of "[k]"] by fastforce+

end

interpretation player_log: change_log mChangedPlayers mAddedPlayers mErasedPlayers "\<lambda>_. UNIV"
  notePlayerChanged notePlayerAdded notePlayerErased
  by unfold_locales (auto simp: notePlayerChanged_def notePlayerAdded_def notePlayerErased_def Let_def)

lemma resetPlayersOf_present:
  "mCategories (webTournament w) c = Some category \<Longrightarrow>
   resetPlayersOf c w = Inr (w\<lparr>mPlayerMatchResets := mPlayerMatchResets w \<union> mCategoryPlayers category\<rparr>)"
  by (simp add: resetPlayersOf_def getCategory_def categories_get_def)

interpretation category_log: change_log mChangedCategories mAddedCategories mErasedCategories
  "\<lambda>w. dom (mCategories (webTournament w))" noteCategoryChanged noteCategoryAdded noteCategoryErased
  by unfold_locales
    (auto simp: noteCategoryChanged_def noteCategoryAdded_def noteCategoryErased_def Let_def resetPlayersOf_present)

subsection \<open>The log is the difference of two tournaments\<close>

text \<open>
  What the log says about a map of objects: \<open>old\<close> at the last \<open>clearChanges\<close>, \<open>cur\<close> now, compared by a view of the objects.
\<close>

definition differsBy :: "('v \<Rightarrow> 'd) \<Rightarrow> ('k \<rightharpoonup> 'v) \<Rightarrow> ('k \<rightharpoonup> 'v) \<Rightarrow> 'k set \<Rightarrow> 'k set \<Rightarrow> 'k set \<Rightarrow> bool" where
  "differsBy view old cur added changed erased \<longleftrightarrow>
     added = dom cur - dom old \<and> erased = dom old - dom cur \<and> changed \<subseteq> dom cur \<inter> dom old \<and>
     (\<forall>k. k \<in> dom cur \<inter> dom old - changed \<longrightarrow> map_option view (cur k) = map_option view (old k))"

text \<open>
  The fields of a player and of a category whose change is reported as a change of the player or category; the other ones
  (matches, members, locations) have signals of their own.
\<close>

definition playerHeader :: "PlayerStore \<Rightarrow> PlayerId \<times> PlayerFields" where
  "playerHeader p = (mPlayerId p, mFields p)"

definition categoryHeader :: "CategoryStore \<Rightarrow> CategoryId \<times> string \<times> bool \<times> Ruleset" where
  "categoryHeader c = (mCategoryId c, mCategoryName c, mMatchesHidden c, mRuleset c)"

definition sameOutside :: "('v \<Rightarrow> 'd) \<Rightarrow> 'k set \<Rightarrow> ('k \<rightharpoonup> 'v) \<Rightarrow> ('k \<rightharpoonup> 'v) \<Rightarrow> bool" where
  "sameOutside view ks a b \<longleftrightarrow> (\<forall>k. k \<notin> ks \<longrightarrow> map_option view (b k) = map_option view (a k))"

abbreviation players_same :: "TournamentStore \<Rightarrow> TournamentStore \<Rightarrow> bool" where
  "players_same t t' \<equiv> sameOutside playerHeader {} (mPlayers t) (mPlayers t')"

abbreviation headers_same :: "TournamentStore \<Rightarrow> TournamentStore \<Rightarrow> bool" where
  "headers_same t t' \<equiv> sameOutside categoryHeader {} (mCategories t) (mCategories t')"

text \<open>
  \<open>tracked t0 w\<close>: the store \<open>w\<close> has its log since the tournament was \<open>t0\<close>. In each step the tournament becomes \<open>t'\<close> and the
  matching signals are called around the change, in the order in which the actions call them.
\<close>

inductive tracked :: "TournamentStore \<Rightarrow> WebTournamentStore \<Rightarrow> bool" for t0 where
  cleared: "store_clearChanges w = Inr w' \<Longrightarrow> webTournament w' = t0 \<Longrightarrow> tracked t0 w'"
| playersChanged: "tracked t0 w \<Longrightarrow> set ids \<subseteq> dom (mPlayers (webTournament w)) \<Longrightarrow> dom (mPlayers t') = dom (mPlayers (webTournament w)) \<Longrightarrow>
    sameOutside playerHeader (set ids) (mPlayers (webTournament w)) (mPlayers t') \<Longrightarrow> headers_same (webTournament w) t' \<Longrightarrow>
    changePlayers ids (w\<lparr>webTournament := t'\<rparr>) = Inr w' \<Longrightarrow> tracked t0 w'"
| playersAdded: "tracked t0 w \<Longrightarrow> distinct ids \<Longrightarrow> set ids \<inter> dom (mPlayers (webTournament w)) = {} \<Longrightarrow>
    dom (mPlayers t') = dom (mPlayers (webTournament w)) \<union> set ids \<Longrightarrow>
    sameOutside playerHeader (set ids) (mPlayers (webTournament w)) (mPlayers t') \<Longrightarrow> headers_same (webTournament w) t' \<Longrightarrow>
    endAddPlayers ids ((beginAddPlayers ids w)\<lparr>webTournament := t'\<rparr>) = Inr w' \<Longrightarrow> tracked t0 w'"
| playersErased: "tracked t0 w \<Longrightarrow> distinct ids \<Longrightarrow> set ids \<subseteq> dom (mPlayers (webTournament w)) \<Longrightarrow>
    dom (mPlayers t') = dom (mPlayers (webTournament w)) - set ids \<Longrightarrow>
    sameOutside playerHeader (set ids) (mPlayers (webTournament w)) (mPlayers t') \<Longrightarrow> headers_same (webTournament w) t' \<Longrightarrow>
    beginErasePlayers ids w = Inr w1 \<Longrightarrow> tracked t0 (endErasePlayers ids (w1\<lparr>webTournament := t'\<rparr>))"
| categoriesChanged: "tracked t0 w \<Longrightarrow> set ids \<subseteq> dom (mCategories (webTournament w)) \<Longrightarrow>
    dom (mCategories t') = dom (mCategories (webTournament w)) \<Longrightarrow>
    sameOutside categoryHeader (set ids) (mCategories (webTournament w)) (mCategories t') \<Longrightarrow> players_same (webTournament w) t' \<Longrightarrow>
    changeCategories ids (w\<lparr>webTournament := t'\<rparr>) = Inr w' \<Longrightarrow> tracked t0 w'"
| categoriesAdded: "tracked t0 w \<Longrightarrow> distinct ids \<Longrightarrow> set ids \<inter> dom (mCategories (webTournament w)) = {} \<Longrightarrow>
    dom (mCategories t') = dom (mCategories (webTournament w)) \<union> set ids \<Longrightarrow>
    sameOutside categoryHeader (set ids) (mCategories (webTournament w)) (mCategories t') \<Longrightarrow> players_same (webTournament w) t' \<Longrightarrow>
    endAddCategories ids ((beginAddCategories ids w)\<lparr>webTournament := t'\<rparr>) = Inr w' \<Longrightarrow> tracked t0 w'"
| categoriesErased: "tracked t0 w \<Longrightarrow> distinct ids \<Longrightarrow> set ids \<subseteq> dom (mCategories (webTournament w)) \<Longrightarrow>
    dom (mCategories t') = dom (mCategories (webTournament w)) - set ids \<Longrightarrow>
    sameOutside categoryHeader (set ids) (mCategories (webTournament w)) (mCategories t') \<Longrightarrow> players_same (webTournament w) t' \<Longrightarrow>
    beginEraseCategories ids w = Inr w1 \<Longrightarrow> tracked t0 (endEraseCategories ids (w1\<lparr>webTournament := t'\<rparr>))"
| matchesChanged: "tracked t0 w \<Longrightarrow> players_same (webTournament w) t' \<Longrightarrow> headers_same (webTournament w) t' \<Longrightarrow>
    store_changeMatches c ms (w\<lparr>webTournament := t'\<rparr>) = Inr w' \<Longrightarrow> tracked t0 w'"
| matchesReset: "tracked t0 w \<Longrightarrow> players_same (webTournament w) t' \<Longrightarrow> headers_same (webTournament w) t' \<Longrightarrow>
    endResetMatches ids ((beginResetMatches ids w)\<lparr>webTournament := t'\<rparr>) = Inr w' \<Longrightarrow> tracked t0 w'"
| tatamisChanged: "tracked t0 w \<Longrightarrow> players_same (webTournament w) t' \<Longrightarrow> headers_same (webTournament w) t' \<Longrightarrow>
    store_changeTatamis ls bs (w\<lparr>webTournament := t'\<rparr>) = Inr w' \<Longrightarrow> tracked t0 w'"
| signalled: "tracked t0 w \<Longrightarrow> players_same (webTournament w) t' \<Longrightarrow> headers_same (webTournament w) t' \<Longrightarrow>
    f \<in> {changeTournament, addPlayersToCategory c ps, erasePlayersFromCategory c ps, addMatchesToPlayer p ms,
          eraseMatchesFromPlayer p ms, resetCategoryResults cs, endAddTatamis ls \<circ> beginAddTatamis ls,
          endEraseTatamis ls \<circ> beginEraseTatamis ls} \<Longrightarrow>
    tracked t0 (f (w\<lparr>webTournament := t'\<rparr>))"
| flushed: "tracked t0 w \<Longrightarrow> flushWebTatamiModels w = Inr w' \<Longrightarrow> tracked t0 w'"

definition store_inv :: "TournamentStore \<Rightarrow> WebTournamentStore \<Rightarrow> bool" where
  "store_inv t0 w \<longleftrightarrow>
     differsBy playerHeader (mPlayers t0) (mPlayers (webTournament w)) (mAddedPlayers w) (mChangedPlayers w) (mErasedPlayers w) \<and>
     differsBy categoryHeader (mCategories t0) (mCategories (webTournament w)) (mAddedCategories w) (mChangedCategories w)
       (mErasedCategories w)"

text \<open>The fields that each group of operations leaves alone.\<close>

abbreviation playerLog :: "WebTournamentStore \<Rightarrow> PlayerId set \<times> PlayerId set \<times> PlayerId set" where
  "playerLog w \<equiv> (mAddedPlayers w, mChangedPlayers w, mErasedPlayers w)"

abbreviation categoryLog :: "WebTournamentStore \<Rightarrow> CategoryId set \<times> CategoryId set \<times> CategoryId set" where
  "categoryLog w \<equiv> (mAddedCategories w, mChangedCategories w, mErasedCategories w)"

lemma players_keep:
  "changePlayers ids w = Inr w' \<Longrightarrow> (webTournament w', categoryLog w') = (webTournament w, categoryLog w)"
  "endAddPlayers ids w = Inr w' \<Longrightarrow> (webTournament w', categoryLog w') = (webTournament w, categoryLog w)"
  "beginErasePlayers ids w = Inr w' \<Longrightarrow> (webTournament w', categoryLog w') = (webTournament w, categoryLog w)"
  unfolding changePlayers_def endAddPlayers_def beginErasePlayers_def
  by (erule foldE_keeps, (auto simp: notePlayerChanged_def notePlayerAdded_def notePlayerErased_def Let_def)[1])+

lemma resetPlayersOf_keeps:
  "resetPlayersOf c w = Inr w' \<Longrightarrow> (webTournament w', playerLog w', categoryLog w') = (webTournament w, playerLog w, categoryLog w)"
  by (auto simp: resetPlayersOf_def)

lemma categories_keep:
  "changeCategories ids w = Inr w' \<Longrightarrow> (webTournament w', playerLog w') = (webTournament w, playerLog w)"
  "endAddCategories ids w = Inr w' \<Longrightarrow> (webTournament w', playerLog w') = (webTournament w, playerLog w)"
  "beginEraseCategories ids w = Inr w' \<Longrightarrow> (webTournament w', playerLog w') = (webTournament w, playerLog w)"
  unfolding changeCategories_def endAddCategories_def beginEraseCategories_def
  by (erule foldE_keeps,
      (auto simp: noteCategoryChanged_def noteCategoryAdded_def noteCategoryErased_def Let_def dest!: resetPlayersOf_keeps
        split: if_splits)[1])+

lemma others_keep:
  "forModels g w = Inr w' \<Longrightarrow> (webTournament w', playerLog w', categoryLog w') = (webTournament w, playerLog w, categoryLog w)"
  "store_changeMatches c ms w = Inr w' \<Longrightarrow> (webTournament w', playerLog w', categoryLog w') = (webTournament w, playerLog w, categoryLog w)"
  "endResetMatches ids w = Inr w' \<Longrightarrow> (webTournament w', playerLog w', categoryLog w') = (webTournament w, playerLog w, categoryLog w)"
  "store_changeTatamis ls bs w = Inr w' \<Longrightarrow> (webTournament w', playerLog w', categoryLog w') = (webTournament w, playerLog w, categoryLog w)"
  "flushWebTatamiModels w = Inr w' \<Longrightarrow> (webTournament w', playerLog w', categoryLog w') = (webTournament w, playerLog w, categoryLog w)"
proof -
  show models: "forModels g w = Inr w' \<Longrightarrow> (webTournament w', playerLog w', categoryLog w') = (webTournament w, playerLog w, categoryLog w)"
    for g w by (auto simp: forModels_def)
  show "store_changeMatches c ms w = Inr w' \<Longrightarrow> (webTournament w', playerLog w', categoryLog w') = (webTournament w, playerLog w, categoryLog w)"
    by (auto simp: store_changeMatches_def Let_def split: if_splits dest!: models)
  show "endResetMatches ids w = Inr w' \<Longrightarrow> (webTournament w', playerLog w', categoryLog w') = (webTournament w, playerLog w, categoryLog w)"
    unfolding endResetMatches_def by (erule foldE_keeps) (auto dest!: resetPlayersOf_keeps)
  show "store_changeTatamis ls bs w = Inr w' \<Longrightarrow> (webTournament w', playerLog w', categoryLog w') = (webTournament w, playerLog w, categoryLog w)"
    by (auto simp: store_changeTatamis_def split: if_splits dest!: models)
  show "flushWebTatamiModels w = Inr w' \<Longrightarrow> (webTournament w', playerLog w', categoryLog w') = (webTournament w, playerLog w, categoryLog w)"
    by (auto simp: flushWebTatamiModels_def split: if_splits dest!: models)
qed

lemma differsBy_logged:
  "differsBy view old cur (mAddedPlayers w) (mChangedPlayers w) (mErasedPlayers w) \<Longrightarrow>
   player_log.logged (dom old) (dom cur) w"
  "differsBy view' old' cur' (mAddedCategories w) (mChangedCategories w) (mErasedCategories w) \<Longrightarrow>
   category_log.logged (dom old') (dom cur') w"
  by (auto simp: differsBy_def player_log.logged_def category_log.logged_def)

text \<open>A note of the keys \<open>ks\<close> keeps the difference right when only the objects under \<open>ks\<close> change.\<close>

lemma differsBy_step:
  assumes "differsBy view old cur added changed erased" and "sameOutside view ks cur cur'"
    and "added' = dom cur' - dom old" and "erased' = dom old - dom cur'" and "changed' \<subseteq> dom cur' \<inter> dom old"
    and "changed - ks \<subseteq> changed'" and "ks \<inter> dom cur' \<inter> dom old \<subseteq> changed'"
  shows "differsBy view old cur' added' changed' erased'"
proof -
  have "map_option view (cur' k) = map_option view (old k)" if k: "k \<in> dom cur' \<inter> dom old - changed'" for k
  proof -
    have "k \<notin> ks" and "k \<notin> changed" using assms(6,7) k by auto
    moreover from \<open>k \<notin> ks\<close> have eq: "map_option view (cur' k) = map_option view (cur k)"
      using assms(2) by (simp add: sameOutside_def)
    moreover have "k \<in> dom cur" using k eq by (cases "cur k") auto
    ultimately show ?thesis using assms(1) k by (simp add: differsBy_def)
  qed
  with assms(3-5) show ?thesis by (simp add: differsBy_def)
qed

lemma differsBy_same:
  "differsBy view old cur added changed erased \<Longrightarrow> sameOutside view {} cur cur' \<Longrightarrow> differsBy view old cur' added changed erased"
proof (rule differsBy_step)
  assume d: "differsBy view old cur added changed erased" and same: "sameOutside view {} cur cur'"
  have "cur' k = None \<longleftrightarrow> cur k = None" for k using same unfolding sameOutside_def by (metis empty_iff option.map_disc_iff)
  then have "dom cur' = dom cur" by (simp add: dom_def)
  with d show "added = dom cur' - dom old" "erased = dom old - dom cur'" "changed \<subseteq> dom cur' \<inter> dom old"
    by (simp_all add: differsBy_def)
qed auto

lemma sameOutside_refl [simp]: "sameOutside view ks a a"
  by (simp add: sameOutside_def)

lemma store_inv_same:
  assumes "store_inv t0 w" and "players_same (webTournament w) (webTournament w')" and "headers_same (webTournament w) (webTournament w')"
    and "playerLog w' = playerLog w" and "categoryLog w' = categoryLog w"
  shows "store_inv t0 w'"
  using assms differsBy_same[of playerHeader "mPlayers t0" "mPlayers (webTournament w)" _ _ _ "mPlayers (webTournament w')"]
    differsBy_same[of categoryHeader "mCategories t0" "mCategories (webTournament w)" _ _ _ "mCategories (webTournament w')"]
  by (auto simp: store_inv_def)

lemma store_inv_players:
  assumes inv: "store_inv t0 w" and logged: "player_log.logged (dom (mPlayers t0)) (dom (mPlayers t')) w'"
    and "mChangedPlayers w - ks \<subseteq> mChangedPlayers w'" and "ks \<inter> dom (mPlayers t') \<inter> dom (mPlayers t0) \<subseteq> mChangedPlayers w'"
    and "sameOutside playerHeader ks (mPlayers (webTournament w)) (mPlayers t')" and headers: "headers_same (webTournament w) t'"
    and keep: "webTournament w' = t'" "categoryLog w' = categoryLog w"
  shows "store_inv t0 w'"
proof -
  have "differsBy playerHeader (mPlayers t0) (mPlayers t') (mAddedPlayers w') (mChangedPlayers w') (mErasedPlayers w')"
    using logged by (intro differsBy_step[OF conjunct1[OF inv[unfolded store_inv_def]] assms(5) _ _ _ assms(3,4)])
      (simp_all add: player_log.logged_def)
  moreover have "differsBy categoryHeader (mCategories t0) (mCategories t') (mAddedCategories w) (mChangedCategories w) (mErasedCategories w)"
    using inv headers by (auto simp: store_inv_def intro: differsBy_same)
  ultimately show ?thesis using keep by (simp add: store_inv_def)
qed

lemma store_inv_categories:
  assumes inv: "store_inv t0 w" and logged: "category_log.logged (dom (mCategories t0)) (dom (mCategories t')) w'"
    and "mChangedCategories w - ks \<subseteq> mChangedCategories w'"
    and "ks \<inter> dom (mCategories t') \<inter> dom (mCategories t0) \<subseteq> mChangedCategories w'"
    and "sameOutside categoryHeader ks (mCategories (webTournament w)) (mCategories t')"
    and players: "players_same (webTournament w) t'" and keep: "webTournament w' = t'" "playerLog w' = playerLog w"
  shows "store_inv t0 w'"
proof -
  have "differsBy categoryHeader (mCategories t0) (mCategories t') (mAddedCategories w') (mChangedCategories w') (mErasedCategories w')"
    using logged by (intro differsBy_step[OF conjunct2[OF inv[unfolded store_inv_def]] assms(5) _ _ _ assms(3,4)])
      (simp_all add: category_log.logged_def)
  moreover have "differsBy playerHeader (mPlayers t0) (mPlayers t') (mAddedPlayers w) (mChangedPlayers w) (mErasedPlayers w)"
    using inv players by (auto simp: store_inv_def intro: differsBy_same)
  ultimately show ?thesis using keep by (simp add: store_inv_def)
qed

lemma logged_frame [simp]:
  "player_log.logged old cur (w\<lparr>webTournament := t'\<rparr>) = player_log.logged old cur w"
  "category_log.logged old' cur' (w\<lparr>webTournament := t'\<rparr>) = category_log.logged old' cur' w"
  by (simp_all add: player_log.logged_def category_log.logged_def)

lemma store_inv_logged:
  assumes "store_inv t0 w"
  shows "player_log.logged (dom (mPlayers t0)) (dom (mPlayers (webTournament w))) w"
    and "category_log.logged (dom (mCategories t0)) (dom (mCategories (webTournament w))) w"
  using assms by (auto simp: store_inv_def intro: differsBy_logged)

lemma tracked_inv: "tracked t0 w \<Longrightarrow> store_inv t0 w"
proof (induction rule: tracked.induct)
  case (cleared w w')
  then show ?case by (auto simp: store_clearChanges_def store_inv_def differsBy_def forModels_def)
next
  case (playersChanged w ids t' w')
  have "player_log.logged (dom (mPlayers t0)) (dom (mPlayers t')) (w\<lparr>webTournament := t'\<rparr>)"
    using store_inv_logged[OF playersChanged.IH] playersChanged.hyps(3) by simp
  from player_log.changed_loop[OF this, of ids] playersChanged.hyps players_keep(1)[OF playersChanged.hyps(6)] show ?case
    by (intro store_inv_players[OF playersChanged.IH, where ks = "set ids" and t' = t']) (auto simp: changePlayers_def)
next
  case (playersAdded w ids t' w')
  have "player_log.logged (dom (mPlayers t0)) (dom (mPlayers (webTournament w))) (w\<lparr>webTournament := t'\<rparr>)"
    using store_inv_logged[OF playersAdded.IH] by simp
  from player_log.added_loop[OF this playersAdded.hyps(2,3)] playersAdded.hyps
    players_keep(2)[OF playersAdded.hyps(7)] show ?case
    by (intro store_inv_players[OF playersAdded.IH, where ks = "set ids" and t' = t'])
      (auto simp: endAddPlayers_def beginAddPlayers_def)
next
  case (playersErased w ids t' w1)
  from player_log.erased_loop[OF store_inv_logged(1)[OF playersErased.IH] playersErased.hyps(2,3)] playersErased.hyps
    players_keep(3)[OF playersErased.hyps(7)] show ?case
    by (intro store_inv_players[OF playersErased.IH, where ks = "set ids" and t' = t'])
      (auto simp: beginErasePlayers_def endErasePlayers_def)
next
  case (categoriesChanged w ids t' w')
  have "category_log.logged (dom (mCategories t0)) (dom (mCategories t')) (w\<lparr>webTournament := t'\<rparr>)"
    using store_inv_logged[OF categoriesChanged.IH] categoriesChanged.hyps(3) by simp
  from category_log.changed_loop[OF this, of ids] categoriesChanged.hyps categories_keep(1)[OF categoriesChanged.hyps(6)] show ?case
    by (intro store_inv_categories[OF categoriesChanged.IH, where ks = "set ids" and t' = t']) (auto simp: changeCategories_def)
next
  case (categoriesAdded w ids t' w')
  have "category_log.logged (dom (mCategories t0)) (dom (mCategories (webTournament w))) (w\<lparr>webTournament := t'\<rparr>)"
    using store_inv_logged[OF categoriesAdded.IH] by simp
  from category_log.added_loop[OF this categoriesAdded.hyps(2,3)] categoriesAdded.hyps
    categories_keep(2)[OF categoriesAdded.hyps(7)] show ?case
    by (intro store_inv_categories[OF categoriesAdded.IH, where ks = "set ids" and t' = t'])
      (auto simp: endAddCategories_def beginAddCategories_def)
next
  case (categoriesErased w ids t' w1)
  from category_log.erased_loop[OF store_inv_logged(2)[OF categoriesErased.IH] categoriesErased.hyps(2,3)] categoriesErased.hyps
    categories_keep(3)[OF categoriesErased.hyps(7)] show ?case
    by (intro store_inv_categories[OF categoriesErased.IH, where ks = "set ids" and t' = t'])
      (auto simp: beginEraseCategories_def endEraseCategories_def)
next
  case (matchesChanged w t' c ms w')
  then show ?case using others_keep(2)[OF matchesChanged.hyps(4)] by (intro store_inv_same[OF matchesChanged.IH]) auto
next
  case (matchesReset w t' ids w')
  then show ?case using others_keep(3)[OF matchesReset.hyps(4)]
    by (intro store_inv_same[OF matchesReset.IH]) (auto simp: beginResetMatches_def)
next
  case (tatamisChanged w t' ls bs w')
  then show ?case using others_keep(4)[OF tatamisChanged.hyps(4)] by (intro store_inv_same[OF tatamisChanged.IH]) auto
next
  case (signalled w t' f c ps p ms cs ls)
  then show ?case
    by (intro store_inv_same[OF signalled.IH])
      (auto simp: changeTournament_def addPlayersToCategory_def erasePlayersFromCategory_def addMatchesToPlayer_def
        eraseMatchesFromPlayer_def resetCategoryResults_def endAddTatamis_def beginAddTatamis_def endEraseTatamis_def
        beginEraseTatamis_def)
next
  case (flushed w w')
  then show ?case using others_keep(5)[OF flushed.hyps(2)] by (intro store_inv_same[OF flushed.IH]) auto
qed

lemma differsBy_sets:
  assumes "differsBy view old cur added changed erased"
  shows "added = dom cur - dom old" and "erased = dom old - dom cur" and "changed \<subseteq> dom old \<inter> dom cur"
    and "\<forall>k. k \<notin> added \<union> erased \<union> changed \<longrightarrow> map_option view (cur k) = map_option view (old k)"
proof -
  show "\<forall>k. k \<notin> added \<union> erased \<union> changed \<longrightarrow> map_option view (cur k) = map_option view (old k)"
  proof (intro allI impI)
    fix k
    assume "k \<notin> added \<union> erased \<union> changed"
    then show "map_option view (cur k) = map_option view (old k)"
      using assms by (cases "cur k"; cases "old k") (auto simp: differsBy_def)
  qed
qed (use assms in \<open>auto simp: differsBy_def\<close>)

text \<open>
  No assertion of the two logs fails: what is there may be changed or erased next, anything else may be added, where a category is noted after it
  has been put into the tournament.
\<close>

lemma log_accepts_players:
  assumes "player_log.logged old (dom (mPlayers (webTournament w))) w"
  shows "if containsPlayer p (webTournament w) then \<not> isl (changePlayers [p] w) \<and> \<not> isl (beginErasePlayers [p] w)
         else \<not> isl (endAddPlayers [p] w)"
proof (cases "p \<in> dom (mPlayers (webTournament w))")
  case True
  then show ?thesis using player_log.accepts(1,2)[OF assms True]
    unfolding containsPlayer_def changePlayers_def beginErasePlayers_def by auto
next
  case False
  then show ?thesis using player_log.accepts(3)[OF assms False] unfolding containsPlayer_def endAddPlayers_def by auto
qed

lemma log_accepts_categories:
  assumes "category_log.logged old (dom (mCategories (webTournament w))) w"
  shows "if containsCategory c (webTournament w) then \<not> isl (changeCategories [c] w) \<and> \<not> isl (beginEraseCategories [c] w)
         else \<not> isl (endAddCategories [c] (w\<lparr>webTournament := (webTournament w)\<lparr>mCategories := (mCategories (webTournament w))(c \<mapsto> category)\<rparr>\<rparr>))"
proof (cases "c \<in> dom (mCategories (webTournament w))")
  case True
  then show ?thesis using category_log.accepts(1,2)[OF assms True]
    unfolding containsCategory_def changeCategories_def beginEraseCategories_def by auto
next
  case False
  let ?w = "w\<lparr>webTournament := (webTournament w)\<lparr>mCategories := (mCategories (webTournament w))(c \<mapsto> category)\<rparr>\<rparr>"
  have "category_log.logged old (dom (mCategories (webTournament w))) ?w" using assms by simp
  from category_log.accepts(3)[OF this False] False show ?thesis unfolding containsCategory_def endAddCategories_def by auto
qed

text \<open>
  C7. The log of players and the log of categories are right. Whatever the tournament did since the last \<^verbatim>\<open>clearChanges\<close>, the added players
  are exactly those that are there now and were not, the erased ones exactly those that were there and are not, the changed ones were there
  before and still are, and every player that is in none of the three sets has the data (identifier and fields) it had. The same holds for the
  categories with their identifier, name, visibility and ruleset. And no assertion of the two logs can fail: every player and category
  that is there may be changed or erased next, every other one may be added. The logs of matches, results and resets are not the subject.
\<close>
theorem web_changes_describe_difference:
  assumes "tracked t0 w"
  shows "mAddedPlayers w = dom (mPlayers (webTournament w)) - dom (mPlayers t0) \<and>
    mErasedPlayers w = dom (mPlayers t0) - dom (mPlayers (webTournament w)) \<and>
    mChangedPlayers w \<subseteq> dom (mPlayers t0) \<inter> dom (mPlayers (webTournament w)) \<and>
    (\<forall>p. p \<notin> mAddedPlayers w \<union> mErasedPlayers w \<union> mChangedPlayers w \<longrightarrow>
      map_option playerHeader (mPlayers (webTournament w) p) = map_option playerHeader (mPlayers t0 p)) \<and>
    mAddedCategories w = dom (mCategories (webTournament w)) - dom (mCategories t0) \<and>
    mErasedCategories w = dom (mCategories t0) - dom (mCategories (webTournament w)) \<and>
    mChangedCategories w \<subseteq> dom (mCategories t0) \<inter> dom (mCategories (webTournament w)) \<and>
    (\<forall>c. c \<notin> mAddedCategories w \<union> mErasedCategories w \<union> mChangedCategories w \<longrightarrow>
      map_option categoryHeader (mCategories (webTournament w) c) = map_option categoryHeader (mCategories t0 c)) \<and>
    (\<forall>p. if containsPlayer p (webTournament w) then \<not> isl (changePlayers [p] w) \<and> \<not> isl (beginErasePlayers [p] w)
         else \<not> isl (endAddPlayers [p] w)) \<and>
    (\<forall>c. if containsCategory c (webTournament w) then \<not> isl (changeCategories [c] w) \<and> \<not> isl (beginEraseCategories [c] w)
         else (\<forall>category. \<not> isl (endAddCategories [c]
           (w\<lparr>webTournament := (webTournament w)\<lparr>mCategories := (mCategories (webTournament w))(c \<mapsto> category)\<rparr>\<rparr>))))"
proof -
  from tracked_inv[OF assms] have
    p: "differsBy playerHeader (mPlayers t0) (mPlayers (webTournament w)) (mAddedPlayers w) (mChangedPlayers w) (mErasedPlayers w)" and
    c: "differsBy categoryHeader (mCategories t0) (mCategories (webTournament w)) (mAddedCategories w) (mChangedCategories w)
       (mErasedCategories w)" by (auto simp: store_inv_def)
  note logged = store_inv_logged[OF tracked_inv[OF assms]]
  show ?thesis
    using differsBy_sets[OF p] differsBy_sets[OF c] log_accepts_players[OF logged(1)] log_accepts_categories[OF logged(2)] by meson
qed

text \<open>A player is there when the log is cleared; then another player is added and the first one erased.\<close>

definition examplePlayer :: "PlayerId \<Rightarrow> PlayerStore" where
  "examplePlayer i = newPlayerStore i \<lparr>firstName = ''Jigoro'', lastName = ''Kano'', age = None, rank = None, club = ''Kodokan'',
     weight = None, country = None, sex = None, blueJudogiHint = False\<rparr>"

definition exampleWebStore :: WebTournamentStore where
  "exampleWebStore = newWebTournamentStore\<lparr>webTournament := (newTournamentStore 0)\<lparr>mPlayers := [1 \<mapsto> examplePlayer 1]\<rparr>\<rparr>"

definition exampleWebStoreLater :: WebTournamentStore where
  "exampleWebStoreLater = exampleWebStore\<lparr>webTournament := (newTournamentStore 0)\<lparr>mPlayers := [2 \<mapsto> examplePlayer 2]\<rparr>,
     mPlayerMatchResets := {2}, mAddedPlayers := {2}, mErasedPlayers := {1}\<rparr>"

lemma exampleWebStoreLater_tracked: "tracked (webTournament exampleWebStore) exampleWebStoreLater"
proof -
  let ?w0 = exampleWebStore and ?t1 = "(newTournamentStore 0)\<lparr>mPlayers := [1 \<mapsto> examplePlayer 1, 2 \<mapsto> examplePlayer 2]\<rparr>"
  let ?w1 = "?w0\<lparr>webTournament := ?t1, mPlayerMatchResets := {2}, mAddedPlayers := {2}\<rparr>"
  note defs = exampleWebStore_def newWebTournamentStore_def newTournamentStore_def sameOutside_def
  have "store_clearChanges ?w0 = Inr ?w0" by (simp add: store_clearChanges_def forModels_def defs)
  then have "tracked (webTournament ?w0) ?w0" by (rule tracked.cleared) simp
  then have "tracked (webTournament ?w0) ?w1"
    by (rule tracked.playersAdded[where ids = "[2]" and t' = ?t1])
      (auto simp: defs endAddPlayers_def beginAddPlayers_def notePlayerAdded_def Let_def)
  then have "tracked (webTournament ?w0) (endErasePlayers [1] (?w1\<lparr>mErasedPlayers := {1},
      webTournament := (newTournamentStore 0)\<lparr>mPlayers := [2 \<mapsto> examplePlayer 2]\<rparr>\<rparr>))"
    by (rule tracked.playersErased[where ids = "[1]"])
      (auto simp: defs beginErasePlayers_def notePlayerErased_def Let_def)
  then show ?thesis by (simp add: endErasePlayers_def exampleWebStoreLater_def defs)
qed

theorem web_changes_describe_difference_witness:
  "mAddedPlayers exampleWebStoreLater = {2} \<and> mErasedPlayers exampleWebStoreLater = {1} \<and> mChangedPlayers exampleWebStoreLater \<subseteq> {} \<and>
   dom (mPlayers (webTournament exampleWebStoreLater)) - dom (mPlayers (webTournament exampleWebStore)) = {2}"
  using web_changes_describe_difference[OF exampleWebStoreLater_tracked]
  by (simp add: exampleWebStoreLater_def exampleWebStore_def)

subsection \<open>Tatami models\<close>

lemma mapE_total:
  assumes "\<And>x. x \<in> set xs \<Longrightarrow> \<exists>y. f x = Inr y \<and> R x y"
  shows "\<exists>ys. mapE f xs = Inr ys \<and> list_all2 R xs ys"
  using assms
proof (induction xs)
  case (Cons x xs)
  then obtain y ys where "f x = Inr y \<and> R x y" and "mapE f xs = Inr ys \<and> list_all2 R xs ys" by (meson list.set_intros)
  then show ?case by auto
qed simp

text \<open>There is one model per tatami, in order, and each is right about its tatami.\<close>

definition models_inv :: "WebTournamentStore \<Rightarrow> bool" where
  "models_inv w \<longleftrightarrow> pm_inv (mTatamis (mTatamiList (webTournament w))) \<and>
     (\<forall>i tatami. mElements (mTatamis (mTatamiList (webTournament w))) i = Some tatami \<longrightarrow> tatami_wf (webTournament w) tatami) \<and>
     (mResettingTatamis w \<or> list_all2 (\<lambda>i m. handle_id (tatami_handle (mTatami m)) = i \<and> model_inv (webTournament w) m)
       (mIds (mTatamis (mTatamiList (webTournament w)))) (mTatamiModels w))"

lemma flushWebTatamiModels_shows:
  assumes inv: "models_inv w"
  shows "\<exists>w'. flushWebTatamiModels w = Inr w' \<and> \<not> mResettingTatamis w' \<and> models_inv w' \<and>
    list_all2 (\<lambda>i m. \<exists>tatami. tatamiOf (webTournament w) (mTatami m) = Some tatami \<and> handle_id (tatami_handle (mTatami m)) = i \<and>
        model_getMatches m = Inr (take DISPLAY_COUNT (comingMatches (webTournament w) tatami)))
      (mIds (mTatamis (mTatamiList (webTournament w)))) (mTatamiModels w')"
proof -
  let ?t = "webTournament w" and ?ids = "mIds (mTatamis (mTatamiList (webTournament w)))"
  let ?shows = "\<lambda>i m. handle_id (tatami_handle (mTatami m)) = i \<and> model_inv ?t m \<and> (\<exists>tatami. tatamiOf ?t (mTatami m) = Some tatami \<and>
    model_getMatches m = Inr (take DISPLAY_COUNT (comingMatches ?t tatami)))"
  have shown: "\<exists>m'. flush ?t m = Inr m' \<and> ?shows (handle_id (tatami_handle (mTatami m))) m'" if "model_inv ?t m" for m
  proof -
    from that obtain tatami where tatami: "tatamiOf ?t (mTatami m) = Some tatami" "tatami_wf ?t tatami"
      "mResetting m \<or> loadedAs (matchFinished ?t) tatami (card (mLoadedGroups m)) m" by (auto simp: model_inv_def)
    from flush_result[OF this] obtain m' where "flush ?t m = Inr m'" "\<not> mResetting m'" "mTatami m' = mTatami m"
      "loadedAs (matchFinished ?t) tatami (card (mLoadedGroups m')) m'"
      "mNextMatches m' = take DISPLAY_COUNT (comingMatches ?t tatami)" by blast
    with tatami show ?thesis by (auto simp: model_inv_def model_getMatches_def)
  qed
  show ?thesis
  proof (cases "mResettingTatamis w")
    case True
    have new: "\<exists>m. newModelAt ?t i = Inr m \<and> ?shows (?ids ! i) m" if i: "i \<in> set [0..<tatamiCount (mTatamiList ?t)]" for i
    proof -
      let ?l = "TatamiLocation (PositionHandle (?ids ! i) i)"
      have len: "i < length ?ids" using i by (simp add: tatamiCount_def pm_size_def)
      then have "?ids ! i \<in> dom (mElements (mTatamis (mTatamiList ?t)))"
        using inv nth_mem[OF len] by (simp add: models_inv_def pm_inv_def)
      then obtain tatami where tatami: "tatamiOf ?t ?l = Some tatami" by (auto simp: tatamiOf_def)
      then have wf: "tatami_wf ?t tatami" using inv by (simp add: models_inv_def tatamiOf_def)
      let ?m = "\<lparr>mTatami = ?l, mResetting = True, mLoadedMatches = Map.empty, mLoadedGroups = {},
        mUnfinishedLoadedMatches = [], mUnfinishedLoadedMatchesSet = {}, mMatchesChanged = True, mTatamiChanged = True,
        mNextMatches = [], mInsertedMatches = []\<rparr>"
      have "model_inv ?t ?m" using tatami wf by (simp add: model_inv_def)
      from shown[OF this] len show ?thesis by (simp add: newModelAt_def newWebTatamiModel_def list_getHandle_def pm_getHandle_def nthE_Inr)
    qed
    from mapE_total[of "[0..<tatamiCount (mTatamiList ?t)]" "newModelAt ?t" "\<lambda>i. ?shows (?ids ! i)", OF new] obtain ms where
      "mapE (newModelAt ?t) [0..<tatamiCount (mTatamiList ?t)] = Inr ms"
      and "list_all2 (\<lambda>i. ?shows (?ids ! i)) [0..<tatamiCount (mTatamiList ?t)] ms" by blast
    moreover from this(2) have "list_all2 ?shows ?ids ms"
      by (auto simp: list_all2_conv_all_nth tatamiCount_def pm_size_def)
    ultimately show ?thesis using True inv
      by (auto simp: flushWebTatamiModels_def models_inv_def list_all2_conv_all_nth)
  next
    case False
    then have l: "list_all2 (\<lambda>i m. handle_id (tatami_handle (mTatami m)) = i \<and> model_inv ?t m) ?ids (mTatamiModels w)"
      using inv by (simp add: models_inv_def)
    have each: "\<exists>m'. flush ?t m = Inr m' \<and> ?shows (handle_id (tatami_handle (mTatami m))) m'" if "m \<in> set (mTatamiModels w)" for m
      using shown l that by (metis (no_types, lifting) in_set_conv_nth list_all2_conv_all_nth)
    from mapE_total[of "mTatamiModels w" "flush ?t" "\<lambda>m. ?shows (handle_id (tatami_handle (mTatami m)))", OF each] obtain ms where
      "mapE (flush ?t) (mTatamiModels w) = Inr ms"
      and "list_all2 (\<lambda>m. ?shows (handle_id (tatami_handle (mTatami m)))) (mTatamiModels w) ms" by blast
    moreover from this(2) l have "list_all2 ?shows ?ids ms" by (auto simp: list_all2_conv_all_nth)
    ultimately show ?thesis using False inv
      by (auto simp: flushWebTatamiModels_def forModels_def models_inv_def list_all2_conv_all_nth)
  qed
qed

text \<open>
  A reset of the players ends with \<^verbatim>\<open>beginAddPlayers\<close>, which does nothing, where \<^verbatim>\<open>endAddPlayers\<close> is meant: afterwards every
  player of the tournament is logged as erased.
\<close>

lemma resetPlayers_logs_all_erased:
  assumes "finite (dom (mPlayers (webTournament w)))" and "mErasedPlayers w = {}" and "mAddedPlayers w = {}"
    and "mChangedPlayers w \<subseteq> dom (mPlayers (webTournament w))"
  shows "\<exists>w'. beginResetPlayers w = Inr w' \<and> mErasedPlayers (endResetPlayers w') = dom (mPlayers (webTournament w)) \<and>
    webTournament (endResetPlayers w') = webTournament w"
proof -
  let ?d = "dom (mPlayers (webTournament w))"
  have "player_log.logged ?d ?d w" using assms by (simp add: player_log.logged_def)
  from player_log.erased_loop[OF this, of "playerIds w"] assms(1) obtain w' where
    w': "beginResetPlayers w = Inr w'" and "player_log.logged ?d (?d - set (playerIds w)) w'"
    by (auto simp: beginResetPlayers_def beginErasePlayers_def playerIds_def)
  then have "mErasedPlayers w' = ?d" using assms(1) by (simp add: player_log.logged_def playerIds_def)
  moreover have "webTournament w' = webTournament w"
    using players_keep(3)[of "playerIds w" w w'] w' by (simp add: beginResetPlayers_def)
  ultimately show ?thesis using w' by (simp add: endResetPlayers_def beginAddPlayers_def)
qed

end
