(* ===== verification/Json_Encoder.thy ===== *)
theory Json_Encoder
  imports Web_Tournament_Store
begin

section \<open>The messages to the web clients\<close>

text \<open>
  Models \<^verbatim>\<open>src/web/json_encoder.hpp\<close> and \<^verbatim>\<open>json_encoder.cpp\<close>: the documents that the web server sends to browsers. A
  document is a value of the type \<open>json\<close>; its printing by the \<^verbatim>\<open>Writer\<close> of rapidjson into the buffer that goes to the socket
  is not part of the model, so an encoding function returns the document. \<^verbatim>\<open>AddMember\<close> appends a member and \<^verbatim>\<open>PushBack\<close> an
  element. Loops over hash sets and hash maps visit the keys in increasing order.

  An encoder keeps the parts that several clients share: the common part of the subscription message, that of the changes
  message, and the encoded matches.
\<close>

datatype json =
    JNull
  | JBool bool
  | JInt int
  | JString string
  | JArray "json list"
  | JObject "(string \<times> json) list"

record JsonEncoder =
  mCachedSubscriptionObject :: "json option"
  mCachedChangesObject :: "json option"
  mCachedMatches :: "CombinedId \<rightharpoonup> json"

definition newJsonEncoder :: JsonEncoder where
  "newJsonEncoder = \<lparr>mCachedSubscriptionObject = None, mCachedChangesObject = None, mCachedMatches = Map.empty\<rparr>"

fun addMember :: "string \<Rightarrow> json \<Rightarrow> json \<Rightarrow> json" where
  "addMember k v (JObject ms) = JObject (ms @ [(k, v)])"
| "addMember k v document = document"

definition jsonId :: "u32 \<Rightarrow> json" where
  "jsonId i = JInt (uint i)"

definition jsonOption :: "('a \<Rightarrow> json) \<Rightarrow> 'a option \<Rightarrow> json" where
  "jsonOption f x = (case x of None \<Rightarrow> JNull | Some v \<Rightarrow> f v)"

definition sorted_keys :: "('k :: linorder \<rightharpoonup> 'v) \<Rightarrow> 'k list" where
  "sorted_keys m = sorted_list_of_set (dom m)"

subsection \<open>Values\<close>

definition encodeString :: "string \<Rightarrow> json" where
  "encodeString s = JString s"

definition country_toString :: "PlayerCountry \<Rightarrow> string" where
  "country_toString c = (case c of DENMARK \<Rightarrow> ''DENMARK'' | FRANCE \<Rightarrow> ''FRANCE'')"

definition encodePlayer :: "PlayerStore \<Rightarrow> json" where
  "encodePlayer p = JObject
     [(''id'', jsonId (mPlayerId p)),
      (''firstName'', encodeString (getFirstName p)),
      (''lastName'', encodeString (getLastName p)),
      (''country'', jsonOption (encodeString \<circ> country_toString) (getCountry p)),
      (''rank'', jsonOption (encodeString \<circ> rank_toString) (getRank p)),
      (''club'', encodeString (getClub p))]"

definition encodeCombinedId :: "CombinedId \<Rightarrow> json" where
  "encodeCombinedId i = JObject [(''categoryId'', jsonId (getCategoryId i)), (''matchId'', jsonId (getMatchId i))]"

definition encodeSubscribedPlayer :: "PlayerStore \<Rightarrow> json" where
  "encodeSubscribedPlayer p =
     addMember ''matches'' (JArray (map encodeCombinedId (sorted_list_of_set (mPlayerMatches p))))
       (addMember ''categories'' (JArray (map jsonId (sorted_list_of_set (mPlayerCategories p)))) (encodePlayer p))"

definition encodeCategory :: "CategoryStore \<Rightarrow> json" where
  "encodeCategory c = JObject
     [(''id'', jsonId (mCategoryId c)),
      (''name'', encodeString (category_getName c)),
      (''matchesHidden'', JBool (areMatchesHidden c))]"

definition encodeResult :: "PlayerId \<times> nat option \<Rightarrow> json" where
  "encodeResult row = JObject [(''player'', jsonId (fst row)), (''pos'', jsonOption (JInt \<circ> int) (snd row))]"

definition encodeCategoryResults :: "TournamentStore \<Rightarrow> CategoryStore \<Rightarrow> json result" where
  "encodeCategoryResults t c =
     bindE (getResults (mDrawSystem c) (mPlayers t) c) (\<lambda>results. Inr (JArray (map encodeResult results)))"

definition encodeSubscribedCategory :: "TournamentStore \<Rightarrow> CategoryStore \<Rightarrow> json result" where
  "encodeSubscribedCategory t c =
     bindE (encodeCategoryResults t c) (\<lambda>results.
       Inr (addMember ''results'' results
         (addMember ''players'' (JArray (map jsonId (sorted_list_of_set (mCategoryPlayers c))))
           (addMember ''matches'' (JArray (map (encodeCombinedId \<circ> mCombinedId) (mMatches c))) (encodeCategory c)))))"

definition encodeMatchScore :: "Score \<Rightarrow> json" where
  "encodeMatchScore s = JObject
     [(''ippon'', JBool (ippon s)), (''wazari'', JInt (int (wazari s))), (''shido'', JInt (int (shido s))),
      (''hansokuMake'', JBool (hansokuMake s))]"

definition encodeMatchStatus :: "MatchStatus \<Rightarrow> json" where
  "encodeMatchStatus s =
     (if s = NOT_STARTED then encodeString ''NOT_STARTED''
      else if s = PAUSED then encodeString ''PAUSED''
      else if s = UNPAUSED then encodeString ''UNPAUSED''
      else encodeString ''FINISHED'')"

definition encodeDuration :: "int \<Rightarrow> json" where
  "encodeDuration d = JInt d"

definition encodeTime :: "int \<Rightarrow> int \<Rightarrow> json" where
  "encodeTime time clockDiff = JInt (time - clockDiff)"

definition encodePlayerIndex :: "PlayerIndex \<Rightarrow> json" where
  "encodePlayerIndex p = encodeString (if p = WHITE then ''WHITE'' else ''BLUE'')"

definition encodeOsaekomi :: "(PlayerIndex \<times> int) option \<Rightarrow> int \<Rightarrow> json" where
  "encodeOsaekomi osae clockDiff =
     (case osae of
        None \<Rightarrow> JNull
      | Some (p, start) \<Rightarrow> JObject [(''player'', encodePlayerIndex p), (''start'', encodeTime start clockDiff)])"

fun encodeEventType :: "MatchEventType \<Rightarrow> json" where
  "encodeEventType IPPON = encodeString ''IPPON''"
| "encodeEventType WAZARI = encodeString ''WAZARI''"
| "encodeEventType SHIDO = encodeString ''SHIDO''"
| "encodeEventType HANSOKU_MAKE = encodeString ''HANSOKU_MAKE''"
| "encodeEventType IPPON_OSAEKOMI = encodeString ''IPPON_OSAEKOMI''"
| "encodeEventType WAZARI_OSAEKOMI = encodeString ''WAZARI_OSAEKOMI''"
| "encodeEventType CANCEL_IPPON = encodeString ''CANCEL_IPPON''"
| "encodeEventType CANCEL_WAZARI = encodeString ''CANCEL_WAZARI''"
| "encodeEventType CANCEL_SHIDO = encodeString ''CANCEL_SHIDO''"
| "encodeEventType CANCEL_HANSOKU_MAKE = encodeString ''CANCEL_HANSOKU_MAKE''"

definition encodeMatchEvent :: "MatchEvent \<Rightarrow> json" where
  "encodeMatchEvent e = JObject
     [(''type'', encodeEventType (event_type e)),
      (''playerIndex'', encodePlayerIndex (event_player e)),
      (''duration'', encodeDuration (event_duration e))]"

text \<open>The document that \<^verbatim>\<open>encodeMatch\<close> builds when the match is not cached, and \<^verbatim>\<open>encodeMatch\<close> itself.\<close>

definition buildMatch :: "CategoryStore \<Rightarrow> MatchStore \<Rightarrow> int \<Rightarrow> json result" where
  "buildMatch c m clockDiff =
     bindE (getMatchPosition (match_getId m) c) (\<lambda>position.
     bindE (if getStatus m = FINISHED then getWinner (mRuleset c) m else Inr None) (\<lambda>winner.
     Inr (JObject
       [(''combinedId'', encodeCombinedId (mCombinedId m)),
        (''bye'', JBool (isBye m)),
        (''title'', encodeString (mTitle m)),
        (''position'', JInt (int position)),
        (''whitePlayer'', jsonOption jsonId (getWhitePlayer m)),
        (''bluePlayer'', jsonOption jsonId (getBluePlayer m)),
        (''status'', encodeMatchStatus (getStatus m)),
        (''whiteScore'', encodeMatchScore (getWhiteScore m)),
        (''blueScore'', encodeMatchScore (getBlueScore m)),
        (''goldenScore'', JBool (isGoldenScore m)),
        (''resumeTime'', if getStatus m = UNPAUSED then encodeTime (resumeTime (mState m)) clockDiff else JNull),
        (''duration'', encodeDuration (getDuration m)),
        (''normalTime'', encodeDuration (getNormalTime (mRuleset c))),
        (''osaekomi'', encodeOsaekomi (getOsaekomi m) clockDiff),
        (''winner'', jsonOption encodePlayerIndex winner),
        (''events'', JArray (map encodeMatchEvent (mEvents m)))])))"

definition encodeMatch :: "CategoryStore \<Rightarrow> MatchStore \<Rightarrow> int \<Rightarrow> bool \<Rightarrow> JsonEncoder \<Rightarrow> (json \<times> JsonEncoder) result" where
  "encodeMatch c m clockDiff shouldCache e =
     (case mCachedMatches e (mCombinedId m) of
        Some v \<Rightarrow> Inr (v, e)
      | None \<Rightarrow> bindE (buildMatch c m clockDiff) (\<lambda>v.
          Inr (v, if shouldCache then e\<lparr>mCachedMatches := (mCachedMatches e)(mCombinedId m \<mapsto> v)\<rparr> else e)))"

definition encodeMeta :: "WebTournamentStore \<Rightarrow> json" where
  "encodeMeta w = JObject
     [(''name'', encodeString (getName (webTournament w))),
      (''location'', encodeString (getLocation (webTournament w))),
      (''date'', encodeString (getDate (webTournament w))),
      (''webName'', encodeString (getWebName (webTournament w))),
      (''tatamiCount'', JInt (int (tatamiCount (mTatamiList (webTournament w)))))]"

definition encodeTatami :: "nat \<Rightarrow> WebTatamiModel \<Rightarrow> json result" where
  "encodeTatami index m = bindE (model_getMatches m) (\<lambda>ms.
     Inr (JObject [(''index'', JInt (int index)), (''matches'', JArray (map encodeCombinedId ms))]))"

definition encodeMatchType :: "MatchType \<Rightarrow> json" where
  "encodeMatchType ty = (if ty = FINAL then encodeString ''FINAL'' else encodeString ''ELIMINATION'')"

definition encodeBlockStatus :: "CategoryStore \<Rightarrow> MatchType \<Rightarrow> json" where
  "encodeBlockStatus c ty =
     (let s = category_getStatus c ty in
      if notStartedMatches s > 0 \<and> startedMatches s = 0 \<and> finishedMatches s = 0 then encodeString ''NOT_STARTED''
      else if startedMatches s > 0 \<or> notStartedMatches s > 0 then encodeString ''STARTED''
      else encodeString ''FINISHED'')"

definition encodeBlock :: "TournamentStore \<Rightarrow> Block \<Rightarrow> json result" where
  "encodeBlock t p = bindE (getCategory (fst p) t) (\<lambda>c.
     Inr (JObject [(''categoryId'', jsonId (fst p)), (''type'', encodeMatchType (snd p)), (''status'', encodeBlockStatus c (snd p))]))"

definition encodeSubscribedTatami :: "nat \<Rightarrow> WebTournamentStore \<Rightarrow> json result" where
  "encodeSubscribedTatami index w =
     (let t = webTournament w in
      assertE (index < tatamiCount (mTatamiList t))
        (bindE (list_atIndex index (mTatamiList t)) (\<lambda>tatami.
         bindE (mapE (\<lambda>i. bindE (tatami_atIndex i tatami) (\<lambda>concurrentGroup.
             bindE (mapE (\<lambda>j. bindE (concurrent_atIndex j concurrentGroup) (\<lambda>sequentialGroup.
                 bindE (mapE (\<lambda>k. bindE (block_at k sequentialGroup) (encodeBlock t)) [0..<blockCount sequentialGroup]) (\<lambda>blocks.
                   Inr (JArray blocks))))
               [0..<concurrent_groupCount concurrentGroup]) (\<lambda>sequentialGroups. Inr (JArray sequentialGroups))))
           [0..<tatami_groupCount tatami]) (\<lambda>concurrentGroups.
         Inr (JObject [(''index'', JInt (int index)), (''blocks'', JArray concurrentGroups)])))))"

record TournamentListing =
  listing_webName :: string
  listing_name :: string
  listing_location :: string
  listing_date :: string

definition encodeTournamentListing :: "TournamentListing \<Rightarrow> json" where
  "encodeTournamentListing l = JObject
     [(''name'', encodeString (listing_name l)), (''webName'', encodeString (listing_webName l)),
      (''location'', encodeString (listing_location l)), (''date'', encodeString (listing_date l))]"

subsection \<open>Messages\<close>

definition failMessage :: "string \<Rightarrow> json" where
  "failMessage ty = addMember ''type'' (encodeString ty) (JObject [])"

definition encodeTournamentSubscriptionFailMessage :: json where
  "encodeTournamentSubscriptionFailMessage = failMessage ''tournamentSubscriptionFail''"

definition encodeCategorySubscriptionFailMessage :: json where
  "encodeCategorySubscriptionFailMessage = failMessage ''categorySubscriptionFail''"

definition encodeTatamiSubscriptionFailMessage :: json where
  "encodeTatamiSubscriptionFailMessage = failMessage ''tatamiSubscriptionFail''"

definition encodePlayerSubscriptionFailMessage :: json where
  "encodePlayerSubscriptionFailMessage = failMessage ''playerSubscriptionFail''"

definition encodeTournamentListingFailMessage :: json where
  "encodeTournamentListingFailMessage = failMessage ''tournamentListingFail''"

definition encodeTournamentListingMessage :: "TournamentListing list \<Rightarrow> TournamentListing list \<Rightarrow> json" where
  "encodeTournamentListingMessage past upcoming = JObject
     [(''type'', encodeString ''tournamentListing''),
      (''pastTournaments'', JArray (map encodeTournamentListing past)),
      (''upcomingTournaments'', JArray (map encodeTournamentListing upcoming))]"

definition encodeClockMessage :: "int \<Rightarrow> json" where
  "encodeClockMessage clock = JObject [(''type'', encodeString ''clock''), (''clock'', JInt clock)]"

text \<open>The loop over matches of the store that \<^verbatim>\<open>matchIds\<close> or a player names.\<close>

fun encodeMatches :: "TournamentStore \<Rightarrow> int \<Rightarrow> bool \<Rightarrow> CombinedId list \<Rightarrow> JsonEncoder \<Rightarrow> (json list \<times> JsonEncoder) result" where
  "encodeMatches t clockDiff shouldCache [] e = Inr ([], e)"
| "encodeMatches t clockDiff shouldCache (i # is) e =
     bindE (getCategory (getCategoryId i) t) (\<lambda>c.
     bindE (getMatch (getMatchId i) c) (\<lambda>m.
     bindE (encodeMatch c m clockDiff shouldCache e) (\<lambda>(v, e1).
     bindE (encodeMatches t clockDiff shouldCache is e1) (\<lambda>(vs, e2). Inr (v # vs, e2)))))"

text \<open>The loop over the matches of a category, without caching.\<close>

fun encodeMatchesOf :: "CategoryStore \<Rightarrow> int \<Rightarrow> MatchStore list \<Rightarrow> JsonEncoder \<Rightarrow> (json list \<times> JsonEncoder) result" where
  "encodeMatchesOf c clockDiff [] e = Inr ([], e)"
| "encodeMatchesOf c clockDiff (m # ms) e =
     bindE (encodeMatch c m clockDiff False e) (\<lambda>(v, e1).
     bindE (encodeMatchesOf c clockDiff ms e1) (\<lambda>(vs, e2). Inr (v # vs, e2)))"

definition encodeCategorySubscriptionMessage :: "WebTournamentStore \<Rightarrow> CategoryStore \<Rightarrow> int \<Rightarrow> JsonEncoder \<Rightarrow> (json \<times> JsonEncoder) result" where
  "encodeCategorySubscriptionMessage w c clockDiff e =
     bindE (encodeSubscribedCategory (webTournament w) c) (\<lambda>sub.
     bindE (encodeMatchesOf c clockDiff (mMatches c) e) (\<lambda>(ms, e1).
       Inr (JObject [(''type'', encodeString ''categorySubscription''), (''subscribedCategory'', sub), (''matches'', JArray ms)], e1)))"

definition encodePlayerSubscriptionMessage :: "WebTournamentStore \<Rightarrow> PlayerStore \<Rightarrow> int \<Rightarrow> JsonEncoder \<Rightarrow> (json \<times> JsonEncoder) result" where
  "encodePlayerSubscriptionMessage w p clockDiff e =
     bindE (encodeMatches (webTournament w) clockDiff False (sorted_list_of_set (mPlayerMatches p)) e) (\<lambda>(ms, e1).
       Inr (JObject [(''type'', encodeString ''playerSubscription''), (''subscribedPlayer'', encodeSubscribedPlayer p),
         (''matches'', JArray ms)], e1))"

definition encodeTatamiSubscriptionMessage :: "WebTournamentStore \<Rightarrow> nat \<Rightarrow> json result" where
  "encodeTatamiSubscriptionMessage w index =
     assertE (index < tatamiCount (mTatamiList (webTournament w)))
       (bindE (encodeSubscribedTatami index w) (\<lambda>sub.
          Inr (JObject [(''type'', encodeString ''tatamiSubscription''), (''subscribedTatami'', sub)])))"

text \<open>
  The subscription of a client, of which the code fills at most one: \<^verbatim>\<open>subscribedCategory\<close>, \<^verbatim>\<open>subscribedPlayer\<close> and
  \<^verbatim>\<open>subscribedTatami\<close>.
\<close>

record Subscription =
  subscribedCategory :: "CategoryId option"
  subscribedPlayer :: "PlayerId option"
  subscribedTatami :: "nat option"

text \<open>\<^verbatim>\<open>has_value\<close> and still present.\<close>

definition theCategory :: "Subscription \<Rightarrow> TournamentStore \<Rightarrow> CategoryStore option" where
  "theCategory s t = (case subscribedCategory s of None \<Rightarrow> None | Some c \<Rightarrow> mCategories t c)"

definition thePlayer :: "Subscription \<Rightarrow> TournamentStore \<Rightarrow> PlayerStore option" where
  "thePlayer s t = (case subscribedPlayer s of None \<Rightarrow> None | Some p \<Rightarrow> mPlayers t p)"

definition theTatami :: "Subscription \<Rightarrow> TournamentStore \<Rightarrow> nat option" where
  "theTatami s t = (case subscribedTatami s of None \<Rightarrow> None | Some i \<Rightarrow> if i < tatamiCount (mTatamiList t) then Some i else None)"

definition tatamiModelsE :: "WebTournamentStore \<Rightarrow> (nat \<times> WebTatamiModel) list result" where
  "tatamiModelsE w = mapE (\<lambda>i. bindE (getWebTatamiModel i w) (\<lambda>m. Inr (i, m))) [0..<tatamiCount (mTatamiList (webTournament w))]"

definition buildSubscriptionObject :: "WebTournamentStore \<Rightarrow> json result" where
  "buildSubscriptionObject w =
     (let t = webTournament w in
      bindE (tatamiModelsE w) (\<lambda>models.
      bindE (mapE (\<lambda>(i, m). encodeTatami i m) models) (\<lambda>tatamis.
      Inr (JObject
        [(''type'', encodeString ''tournamentSubscription''),
         (''tournament'', encodeMeta w),
         (''categories'', JArray (map (\<lambda>c. encodeCategory (the (mCategories t c))) (sorted_keys (mCategories t)))),
         (''players'', JArray (map (\<lambda>p. encodePlayer (the (mPlayers t p))) (sorted_keys (mPlayers t)))),
         (''tatamis'', JArray tatamis)]))))"

definition encodeOptionalCategory :: "TournamentStore \<Rightarrow> CategoryStore option \<Rightarrow> json result" where
  "encodeOptionalCategory t c = (case c of None \<Rightarrow> Inr JNull | Some category \<Rightarrow> encodeSubscribedCategory t category)"

definition encodeOptionalTatami :: "WebTournamentStore \<Rightarrow> nat option \<Rightarrow> json result" where
  "encodeOptionalTatami w i = (case i of None \<Rightarrow> Inr JNull | Some index \<Rightarrow> encodeSubscribedTatami index w)"

definition subscribedMatchIds :: "Subscription \<Rightarrow> TournamentStore \<Rightarrow> CombinedId set" where
  "subscribedMatchIds s t =
     (case theCategory s t of
        Some c \<Rightarrow> set (map mCombinedId (mMatches c))
      | None \<Rightarrow> (case thePlayer s t of Some p \<Rightarrow> mPlayerMatches p | None \<Rightarrow> {}))"

definition shownMatchIds :: "WebTournamentStore \<Rightarrow> CombinedId set result" where
  "shownMatchIds w = bindE (tatamiModelsE w) (\<lambda>models.
     bindE (mapE (\<lambda>(i, m). model_getMatches m) models) (\<lambda>mss. Inr (\<Union> (set (map set mss)))))"

definition encodeTournamentSubscriptionMessage ::
  "WebTournamentStore \<Rightarrow> Subscription \<Rightarrow> int \<Rightarrow> bool \<Rightarrow> JsonEncoder \<Rightarrow> (json \<times> JsonEncoder) result" where
  "encodeTournamentSubscriptionMessage w s clockDiff shouldCache e =
     (let t = webTournament w in
      bindE (case mCachedSubscriptionObject e of
               Some d \<Rightarrow> Inr (d, e)
             | None \<Rightarrow> bindE (buildSubscriptionObject w) (\<lambda>d.
                 Inr (d, if shouldCache then e\<lparr>mCachedSubscriptionObject := Some d\<rparr> else e))) (\<lambda>(d, e1).
      bindE (encodeOptionalCategory t (theCategory s t)) (\<lambda>category.
      bindE (encodeOptionalTatami w (theTatami s t)) (\<lambda>tatami.
      bindE (shownMatchIds w) (\<lambda>shown.
      bindE (encodeMatches t clockDiff shouldCache (sorted_list_of_set (subscribedMatchIds s t \<union> shown)) e1) (\<lambda>(ms, e2).
        Inr (addMember ''matches'' (JArray ms)
          (addMember ''subscribedTatami'' tatami
            (addMember ''subscribedCategory'' category
              (addMember ''subscribedPlayer'' (jsonOption encodeSubscribedPlayer (thePlayer s t)) d))), e2)))))))"

subsection \<open>Changes\<close>

fun anyE :: "('a \<Rightarrow> bool result) \<Rightarrow> 'a list \<Rightarrow> bool result" where
  "anyE f [] = Inr False"
| "anyE f (x # xs) = bindE (f x) (\<lambda>b. if b then Inr True else anyE f xs)"

definition logChanges :: "WebTournamentStore \<Rightarrow> bool" where
  "logChanges w \<longleftrightarrow> mChangedPlayers w \<noteq> {} \<or> mAddedPlayers w \<noteq> {} \<or> mErasedPlayers w \<noteq> {} \<or>
     mChangedCategories w \<noteq> {} \<or> mAddedCategories w \<noteq> {} \<or> mErasedCategories w \<noteq> {}"

definition subscriptionChanges :: "WebTournamentStore \<Rightarrow> Subscription \<Rightarrow> bool result" where
  "subscriptionChanges w s =
     (let t = webTournament w in
      case theCategory s t of
        Some c \<Rightarrow> Inr (the (subscribedCategory s) \<in> mCategoryMatchResets w \<or> the (subscribedCategory s) \<in> mCategoryResultsResets w \<or>
          list_ex (\<lambda>m. mCombinedId m \<in> mChangedMatches w) (mMatches c))
      | None \<Rightarrow>
         (case thePlayer s t of
            Some p \<Rightarrow> Inr (the (subscribedPlayer s) \<in> mPlayerMatchResets w \<or> mPlayerMatches p \<inter> mChangedMatches w \<noteq> {})
          | None \<Rightarrow>
             (case theTatami s t of
                Some i \<Rightarrow> bindE (getWebTatamiModel i w) model_changed
              | None \<Rightarrow> Inr False)))"

definition modelChanges :: "WebTournamentStore \<Rightarrow> nat \<Rightarrow> bool result" where
  "modelChanges w i =
     bindE (getWebTatamiModel i w) (\<lambda>m.
     bindE (getInsertedMatches m) (\<lambda>inserted.
     if inserted \<noteq> [] then Inr True
     else bindE (model_getMatches m) (\<lambda>ms. Inr (list_ex (\<lambda>j. j \<in> mChangedMatches w) ms))))"

definition hasTournamentChanges :: "WebTournamentStore \<Rightarrow> Subscription \<Rightarrow> bool result" where
  "hasTournamentChanges w s =
     (if mTournamentChanged w then Inr True
      else bindE (anyE matchesChanged (mTatamiModels w)) (\<lambda>b.
        if b \<or> logChanges w then Inr True
        else bindE (subscriptionChanges w s) (\<lambda>b.
          if b then Inr True
          else anyE (modelChanges w) [0..<tatamiCount (mTatamiList (webTournament w))])))"

definition changedTatamis :: "(nat \<times> WebTatamiModel) list \<Rightarrow> json list result" where
  "changedTatamis models =
     bindE (mapE (\<lambda>(i, m). bindE (matchesChanged m) (\<lambda>b. if b then bindE (encodeTatami i m) (\<lambda>v. Inr [v]) else Inr [])) models)
       (\<lambda>vss. Inr (concat vss))"

definition buildChangesObject :: "WebTournamentStore \<Rightarrow> json result" where
  "buildChangesObject w =
     (let t = webTournament w in
      bindE (mapE (\<lambda>c. bindE (getCategory c t) (\<lambda>category. Inr (encodeCategory category)))
        (sorted_list_of_set (mChangedCategories w) @ sorted_list_of_set (mAddedCategories w))) (\<lambda>categories.
      bindE (mapE (\<lambda>p. bindE (tournament_getPlayer p t) (\<lambda>player. Inr (encodePlayer player)))
        (sorted_list_of_set (mChangedPlayers w) @ sorted_list_of_set (mAddedPlayers w))) (\<lambda>players.
      bindE (tatamiModelsE w) (\<lambda>models.
      bindE (changedTatamis models) (\<lambda>tatamis.
      Inr (JObject
        ([(''type'', encodeString ''tournamentChanges'')] @
         (if mTournamentChanged w then [(''tournament'', encodeMeta w)] else []) @
         [(''categories'', JArray categories),
          (''erasedCategories'', JArray (map jsonId (sorted_list_of_set (mErasedCategories w)))),
          (''players'', JArray players),
          (''erasedPlayers'', JArray (map jsonId (sorted_list_of_set (mErasedPlayers w)))),
          (''tatamis'', JArray tatamis)])))))))"

text \<open>The member of the changes message about the client's subscription, if there is one.\<close>

definition changedSubscription :: "WebTournamentStore \<Rightarrow> Subscription \<Rightarrow> (string \<times> json) list result" where
  "changedSubscription w s =
     (let t = webTournament w in
      case subscribedCategory s of
        Some c \<Rightarrow>
          if c \<in> mErasedCategories w then Inr [(''subscribedCategory'', JNull)]
          else if c \<in> mChangedCategories w \<or> c \<in> mAddedCategories w \<or> c \<in> mCategoryMatchResets w \<or> c \<in> mCategoryResultsResets w
          then bindE (getCategory c t) (\<lambda>category. bindE (encodeSubscribedCategory t category) (\<lambda>v.
                 Inr [(''subscribedCategory'', v)]))
          else Inr []
      | None \<Rightarrow>
         (case subscribedPlayer s of
            Some p \<Rightarrow>
              if p \<in> mErasedPlayers w then Inr [(''subscribedPlayer'', JNull)]
              else if p \<in> mChangedPlayers w \<or> p \<in> mAddedPlayers w \<or> p \<in> mPlayerMatchResets w
              then bindE (tournament_getPlayer p t) (\<lambda>player. Inr [(''subscribedPlayer'', encodeSubscribedPlayer player)])
              else Inr []
          | None \<Rightarrow>
             (case theTatami s t of
                Some i \<Rightarrow> bindE (getWebTatamiModel i w) (\<lambda>m. bindE (model_changed m) (\<lambda>b.
                  if b then bindE (encodeSubscribedTatami i w) (\<lambda>v. Inr [(''subscribedTatami'', v)]) else Inr []))
              | None \<Rightarrow> Inr [])))"

definition changedSubscribedIds :: "WebTournamentStore \<Rightarrow> Subscription \<Rightarrow> CombinedId set" where
  "changedSubscribedIds w s =
     (let t = webTournament w in
      case theCategory s t of
        Some c \<Rightarrow> {i \<in> set (map mCombinedId (mMatches c)). the (subscribedCategory s) \<in> mCategoryMatchResets w \<or> i \<in> mChangedMatches w}
      | None \<Rightarrow>
         (case thePlayer s t of
            Some p \<Rightarrow> {i \<in> mPlayerMatches p. the (subscribedPlayer s) \<in> mPlayerMatchResets w \<or> i \<in> mChangedMatches w}
          | None \<Rightarrow> {}))"

definition changedShownIds :: "WebTournamentStore \<Rightarrow> CombinedId set result" where
  "changedShownIds w = bindE (tatamiModelsE w) (\<lambda>models.
     bindE (mapE (\<lambda>(i, m). bindE (getInsertedMatches m) (\<lambda>inserted. bindE (model_getMatches m) (\<lambda>ms.
       Inr (set inserted \<union> {j \<in> set ms. j \<in> mChangedMatches w})))) models) (\<lambda>sets. Inr (\<Union> (set sets))))"

definition encodeTournamentChangesMessage ::
  "WebTournamentStore \<Rightarrow> Subscription \<Rightarrow> int \<Rightarrow> JsonEncoder \<Rightarrow> (json \<times> JsonEncoder) result" where
  "encodeTournamentChangesMessage w s clockDiff e =
     bindE (case mCachedChangesObject e of
              Some d \<Rightarrow> Inr (d, e)
            | None \<Rightarrow> bindE (buildChangesObject w) (\<lambda>d. Inr (d, e\<lparr>mCachedChangesObject := Some d\<rparr>))) (\<lambda>(d, e1).
     bindE (changedSubscription w s) (\<lambda>sub.
     bindE (changedShownIds w) (\<lambda>shown.
     bindE (encodeMatches (webTournament w) clockDiff True (sorted_list_of_set (changedSubscribedIds w s \<union> shown)) e1) (\<lambda>(ms, e2).
       Inr (addMember ''matches'' (JArray ms) (fold (\<lambda>(k, v). addMember k v) sub d), e2)))))"

end
