(* ===== verification/Json_Messages.thy ===== *)
theory Json_Messages
  imports Json_Encoder
begin

section \<open>The messages keep the web clients up to date\<close>

text \<open>
  Two facts about the encoder of the web server. Its caches are transparent: an encoder that has already served other clients
  sends a client what a new encoder would send. And a client that was sent the tournament once and applies every changes
  message has the players and categories that a new client is sent.
\<close>

subsection \<open>Caching\<close>

text \<open>The key of a match in its category is its identifier.\<close>

definition matchesNamed :: "TournamentStore \<Rightarrow> bool" where
  "matchesNamed t \<longleftrightarrow> (\<forall>c category i m. mCategories t c = Some category \<longrightarrow> getMatch i category = Inr m \<longrightarrow> mCombinedId m = CombinedId c i)"

definition matchDocument :: "TournamentStore \<Rightarrow> int \<Rightarrow> CombinedId \<Rightarrow> json result" where
  "matchDocument t clockDiff i =
     bindE (getCategory (getCategoryId i) t) (\<lambda>c. bindE (getMatch (getMatchId i) c) (\<lambda>m. buildMatch c m clockDiff))"

definition cache_ok :: "WebTournamentStore \<Rightarrow> int \<Rightarrow> JsonEncoder \<Rightarrow> bool" where
  "cache_ok w clockDiff e \<longleftrightarrow>
     (\<forall>d. mCachedSubscriptionObject e = Some d \<longrightarrow> buildSubscriptionObject w = Inr d) \<and>
     (\<forall>d. mCachedChangesObject e = Some d \<longrightarrow> buildChangesObject w = Inr d) \<and>
     (\<forall>i v. mCachedMatches e i = Some v \<longrightarrow> matchDocument (webTournament w) clockDiff i = Inr v)"

lemma cache_ok_new [simp]: "cache_ok w clockDiff newJsonEncoder"
  by (simp add: cache_ok_def newJsonEncoder_def)

text \<open>What an encoding step returns, and what it leaves cached.\<close>

definition encodes :: "WebTournamentStore \<Rightarrow> int \<Rightarrow> 'a result \<Rightarrow> ('a \<times> JsonEncoder) result \<Rightarrow> bool" where
  "encodes w clockDiff r r' \<longleftrightarrow>
     (case r of Inl err \<Rightarrow> r' = Inl err | Inr v \<Rightarrow> (\<exists>e. r' = Inr (v, e) \<and> cache_ok w clockDiff e))"

lemma encodes_simps [simp]:
  "encodes w d (Inl err) r' \<longleftrightarrow> r' = Inl err"
  "encodes w d (Inr v) r' \<longleftrightarrow> (\<exists>e. r' = Inr (v, e) \<and> cache_ok w d e)"
  by (simp_all add: encodes_def)

lemma encodes_bind:
  assumes "encodes w d r r'" and "\<And>v e. r = Inr v \<Longrightarrow> cache_ok w d e \<Longrightarrow> encodes w d (f v) (g (v, e))"
  shows "encodes w d (bindE r f) (bindE r' g)"
  using assms by (cases r) auto

lemma encodes_pure: "(\<And>v. r = Inr v \<Longrightarrow> encodes w d (f v) (g v)) \<Longrightarrow> encodes w d (bindE r f) (bindE r g)"
  by (cases r) auto

lemma encodeMatches_encodes:
  assumes "matchesNamed (webTournament w)" and "cache_ok w d e"
  shows "encodes w d (mapE (matchDocument (webTournament w) d) is) (encodeMatches (webTournament w) d sc is e)"
  using assms(2)
proof (induction "is" arbitrary: e)
  case (Cons i "is")
  let ?t = "webTournament w"
  consider (bad) err where "bindE (getCategory (getCategoryId i) ?t) (getMatch (getMatchId i)) = Inl err"
    | (found) c m where "getCategory (getCategoryId i) ?t = Inr c" "getMatch (getMatchId i) c = Inr m"
    by (cases "bindE (getCategory (getCategoryId i) ?t) (getMatch (getMatchId i))") auto
  then show ?case
  proof cases
    case bad
    then have "matchDocument ?t d i = Inl err"
      and "encodeMatches ?t d sc (i # is) e = Inl err"
      by (auto simp: matchDocument_def bindE_eq_Inl)
    then show ?thesis by simp
  next
    case found
    have i: "mCombinedId m = i" using assms(1) found unfolding matchesNamed_def by (metis CombinedId.collapse getCategory_eq_Inr)
    have doc: "matchDocument ?t d i = buildMatch c m d" using found by (simp add: matchDocument_def del: getCategory_eq_Inr)
    have step: "encodes w d (matchDocument ?t d i) (encodeMatch c m d sc e)"
      using Cons.prems i doc
      by (cases "mCachedMatches e i"; cases "buildMatch c m d") (auto simp: encodeMatch_def cache_ok_def)
    have "encodes w d (mapE (matchDocument ?t d) (i # is))
        (bindE (encodeMatch c m d sc e) (\<lambda>(v, e1). bindE (encodeMatches ?t d sc is e1) (\<lambda>(vs, e2). Inr (v # vs, e2))))"
      unfolding mapE.simps by (rule encodes_bind[OF step]) (auto intro!: encodes_bind[OF Cons.IH])
    with found show ?thesis by (simp del: getCategory_eq_Inr mapE.simps)
  qed
qed simp

text \<open>The messages without caches.\<close>

definition changesMessage :: "WebTournamentStore \<Rightarrow> Subscription \<Rightarrow> int \<Rightarrow> json result" where
  "changesMessage w s clockDiff =
     bindE (buildChangesObject w) (\<lambda>d.
     bindE (changedSubscription w s) (\<lambda>sub.
     bindE (changedShownIds w) (\<lambda>shown.
     bindE (mapE (matchDocument (webTournament w) clockDiff) (sorted_list_of_set (changedSubscribedIds w s \<union> shown))) (\<lambda>ms.
       Inr (addMember ''matches'' (JArray ms) (fold (\<lambda>(k, v). addMember k v) sub d))))))"

definition subscriptionMessage :: "WebTournamentStore \<Rightarrow> Subscription \<Rightarrow> int \<Rightarrow> json result" where
  "subscriptionMessage w s clockDiff =
     (let t = webTournament w in
      bindE (buildSubscriptionObject w) (\<lambda>d.
      bindE (encodeOptionalCategory t (theCategory s t)) (\<lambda>category.
      bindE (encodeOptionalTatami w (theTatami s t)) (\<lambda>tatami.
      bindE (shownMatchIds w) (\<lambda>shown.
      bindE (mapE (matchDocument t clockDiff) (sorted_list_of_set (subscribedMatchIds s t \<union> shown))) (\<lambda>ms.
        Inr (addMember ''matches'' (JArray ms)
          (addMember ''subscribedTatami'' tatami
            (addMember ''subscribedCategory'' category
              (addMember ''subscribedPlayer'' (jsonOption encodeSubscribedPlayer (thePlayer s t)) d))))))))))"

lemma changesMessage_encodes:
  assumes "matchesNamed (webTournament w)" and "cache_ok w d e"
  shows "encodes w d (changesMessage w s d) (encodeTournamentChangesMessage w s d e)"
proof -
  have "encodes w d (buildChangesObject w) (case mCachedChangesObject e of Some v \<Rightarrow> Inr (v, e)
      | None \<Rightarrow> bindE (buildChangesObject w) (\<lambda>v. Inr (v, e\<lparr>mCachedChangesObject := Some v\<rparr>)))"
    using assms(2) by (cases "mCachedChangesObject e"; cases "buildChangesObject w") (auto simp: cache_ok_def)
  then show ?thesis
    unfolding changesMessage_def encodeTournamentChangesMessage_def
    by (rule encodes_bind) (auto intro!: encodes_pure encodes_bind[OF encodeMatches_encodes[OF assms(1)]])
qed

lemma subscriptionMessage_encodes:
  assumes "matchesNamed (webTournament w)" and "cache_ok w d e"
  shows "encodes w d (subscriptionMessage w s d) (encodeTournamentSubscriptionMessage w s d sc e)"
proof -
  have "encodes w d (buildSubscriptionObject w) (case mCachedSubscriptionObject e of Some v \<Rightarrow> Inr (v, e)
      | None \<Rightarrow> bindE (buildSubscriptionObject w) (\<lambda>v. Inr (v, if sc then e\<lparr>mCachedSubscriptionObject := Some v\<rparr> else e)))"
    using assms(2) by (cases "mCachedSubscriptionObject e"; cases "buildSubscriptionObject w") (auto simp: cache_ok_def)
  then show ?thesis
    unfolding subscriptionMessage_def encodeTournamentSubscriptionMessage_def Let_def
    by (rule encodes_bind) (auto intro!: encodes_pure encodes_bind[OF encodeMatches_encodes[OF assms(1)]])
qed

subsection \<open>Applying a changes message\<close>

text \<open>
  How a client reads the messages: the member of a document, the objects of an array under their \<open>id\<close>, the numbers of an
  array; and how it applies a changes message to the objects it has.
\<close>

fun member :: "string \<Rightarrow> json \<Rightarrow> json" where
  "member k (JObject ms) = (case map_of ms k of None \<Rightarrow> JNull | Some v \<Rightarrow> v)"
| "member k v = JNull"

fun elements :: "json \<Rightarrow> json list" where
  "elements (JArray vs) = vs"
| "elements v = []"

fun number :: "json \<Rightarrow> int" where
  "number (JInt n) = n"
| "number v = 0"

definition byId :: "json \<Rightarrow> int \<rightharpoonup> json" where
  "byId arr = map_of (map (\<lambda>v. (number (member ''id'' v), v)) (elements arr))"

definition applyChanges :: "string \<Rightarrow> string \<Rightarrow> json \<Rightarrow> (int \<rightharpoonup> json) \<Rightarrow> int \<rightharpoonup> json" where
  "applyChanges changedKey erasedKey message old = (\<lambda>n.
     if n \<in> set (map number (elements (member erasedKey message))) then None
     else (case byId (member changedKey message) n of Some v \<Rightarrow> Some v | None \<Rightarrow> old n))"

text \<open>Identifiers are the keys of the stores, and the stores are finite.\<close>

definition keysNamed :: "TournamentStore \<Rightarrow> bool" where
  "keysNamed t \<longleftrightarrow> finite (dom (mPlayers t)) \<and> finite (dom (mCategories t)) \<and>
     (\<forall>i p. mPlayers t i = Some p \<longrightarrow> mPlayerId p = i) \<and> (\<forall>i c. mCategories t i = Some c \<longrightarrow> mCategoryId c = i)"

lemma id_encodePlayer [simp]: "number (member ''id'' (encodePlayer p)) = uint (mPlayerId p)"
  by (simp add: encodePlayer_def jsonId_def)

lemma id_encodeCategory [simp]: "number (member ''id'' (encodeCategory c)) = uint (mCategoryId c)"
  by (simp add: encodeCategory_def jsonId_def)

lemma byId_array:
  fixes f :: "u32 \<Rightarrow> json"
  assumes "\<And>k. k \<in> set ks \<Longrightarrow> number (member ''id'' (f k)) = uint k"
  shows "byId (JArray (map f ks)) = (\<lambda>n. if n \<in> uint ` set ks then Some (f (word_of_int n)) else None)"
  using assms
proof (induction ks)
  case (Cons k ks)
  then have "byId (JArray (map f ks)) = (\<lambda>n. if n \<in> uint ` set ks then Some (f (word_of_int n)) else None)" by simp
  with Cons.prems[of k] show ?case by (auto simp: byId_def fun_eq_iff)
qed (simp add: byId_def)

text \<open>
  The array of the objects stored under the keys \<open>ks\<close>, and the update of such an array, for any encoding that depends on the
  header of an object only.
\<close>

definition storedObjects :: "('v \<Rightarrow> json) \<Rightarrow> (u32 \<rightharpoonup> 'v) \<Rightarrow> int \<rightharpoonup> json" where
  "storedObjects enc m = (\<lambda>n. if n \<in> uint ` dom m then map_option enc (m (word_of_int n)) else None)"

lemma byId_stored:
  assumes "set ks = dom m" and "\<And>k v. m k = Some v \<Longrightarrow> number (member ''id'' (enc v)) = uint k"
  shows "byId (JArray (map (\<lambda>k. enc (the (m k))) ks)) = storedObjects enc m"
proof -
  have "byId (JArray (map (\<lambda>k. enc (the (m k))) ks)) = (\<lambda>n. if n \<in> uint ` set ks then Some (enc (the (m (word_of_int n)))) else None)"
    using assms by (intro byId_array) (auto simp: domIff)
  then show ?thesis using assms(1) by (auto simp: storedObjects_def fun_eq_iff)
qed

lemma mapE_lookup:
  assumes "mapE (\<lambda>k. bindE (get k) (\<lambda>v. Inr (enc v))) ks = Inr vs" and "\<And>k v. get k = Inr v \<longleftrightarrow> m k = Some v"
  shows "set ks \<subseteq> dom m \<and> vs = map (\<lambda>k. enc (the (m k))) ks"
  using assms(1) by (induction ks arbitrary: vs) (auto simp: assms(2))

lemma applied_difference:
  fixes old cur :: "u32 \<rightharpoonup> 'v"
  assumes d: "differsBy view old cur added changed erased" and enc: "\<And>v v'. view v = view v' \<Longrightarrow> enc v = enc v'"
    and ks: "set ks = changed \<union> added" and erasedKs: "set es = erased"
    and named: "\<And>k v. cur k = Some v \<Longrightarrow> number (member ''id'' (enc v)) = uint k"
  shows "(\<lambda>n. if n \<in> set (map number (map jsonId es)) then None
       else (case byId (JArray (map (\<lambda>k. enc (the (cur k))) ks)) n of Some v \<Rightarrow> Some v | None \<Rightarrow> storedObjects enc old n)) =
     storedObjects enc cur"
proof
  fix n :: int
  have sub: "set ks \<subseteq> dom cur" using d ks by (auto simp: differsBy_def)
  have by_id: "byId (JArray (map (\<lambda>k. enc (the (cur k))) ks)) = (\<lambda>n. if n \<in> uint ` set ks then Some (enc (the (cur (word_of_int n)))) else None)"
    using sub named by (intro byId_array) (auto simp: domIff subset_iff)
  have es: "set (map number (map jsonId es)) = uint ` erased" using erasedKs by (auto simp: jsonId_def)
  show "(if n \<in> set (map number (map jsonId es)) then None
       else (case byId (JArray (map (\<lambda>k. enc (the (cur k))) ks)) n of Some v \<Rightarrow> Some v | None \<Rightarrow> storedObjects enc old n)) =
     storedObjects enc cur n"
  proof (cases "n \<in> range (uint :: u32 \<Rightarrow> int)")
    case False
    then show ?thesis unfolding es by_id by (auto simp: storedObjects_def)
  next
    case True
    then obtain k :: u32 where n: "n = uint k" by auto
    have mem: "uint k \<in> uint ` A \<longleftrightarrow> k \<in> A" for A :: "u32 set" by (auto simp flip: word_uint_eq_iff)
    have same: "map_option enc (cur k) = map_option enc (old k)" if "k \<notin> added \<union> changed \<union> erased"
    proof -
      have "map_option view (cur k) = map_option view (old k)" using d that by (auto simp: differsBy_def domIff)
      then show ?thesis by (cases "cur k"; cases "old k") (auto intro: enc)
    qed
    have dom: "k \<in> erased \<Longrightarrow> cur k = None" "k \<in> set ks \<Longrightarrow> cur k \<noteq> None"
      using d ks by (auto simp: differsBy_def domIff)
    have "(if k \<in> erased then None else if k \<in> set ks then Some (enc (the (cur k))) else map_option enc (old k)) = map_option enc (cur k)"
      using dom same ks by (auto simp: option.map_sel[symmetric])
    moreover have "storedObjects enc m (uint k) = map_option enc (m k)" for m :: "u32 \<rightharpoonup> 'v"
      by (simp add: storedObjects_def mem domIff)
    ultimately show ?thesis unfolding es by_id n mem by (simp add: mem split: if_splits)
  qed
qed

lemma encodePlayer_header: "playerHeader p = playerHeader q \<Longrightarrow> encodePlayer p = encodePlayer q"
  by (simp add: encodePlayer_def playerHeader_def store_simps)

lemma encodeCategory_header: "categoryHeader c = categoryHeader d \<Longrightarrow> encodeCategory c = encodeCategory d"
  by (simp add: encodeCategory_def categoryHeader_def store_simps)

lemma subscriptionObject_objects:
  assumes "buildSubscriptionObject w = Inr d" and "keysNamed (webTournament w)"
  shows "byId (member ''players'' d) = storedObjects encodePlayer (mPlayers (webTournament w))"
    and "byId (member ''categories'' d) = storedObjects encodeCategory (mCategories (webTournament w))"
proof -
  obtain tatamis where d: "d = JObject
        [(''type'', encodeString ''tournamentSubscription''), (''tournament'', encodeMeta w),
         (''categories'', JArray (map (\<lambda>c. encodeCategory (the (mCategories (webTournament w) c))) (sorted_keys (mCategories (webTournament w))))),
         (''players'', JArray (map (\<lambda>p. encodePlayer (the (mPlayers (webTournament w) p))) (sorted_keys (mPlayers (webTournament w))))),
         (''tatamis'', JArray tatamis)]"
    using assms(1) by (auto simp: buildSubscriptionObject_def Let_def)
  then show "byId (member ''players'' d) = storedObjects encodePlayer (mPlayers (webTournament w))"
    using assms(2) by (simp add: byId_stored sorted_keys_def keysNamed_def)
  from d show "byId (member ''categories'' d) = storedObjects encodeCategory (mCategories (webTournament w))"
    using assms(2) by (simp add: byId_stored sorted_keys_def keysNamed_def)
qed

lemma addMember_member: "k \<noteq> k' \<Longrightarrow> member k (addMember k' v d) = member k d"
  by (cases d) (auto split: option.splits simp: map_add_def)

lemma buildChangesObject_members:
  assumes "buildChangesObject w = Inr d" and "tracked t0 w" and "keysNamed t0" and "keysNamed (webTournament w)"
  shows "applyChanges ''players'' ''erasedPlayers'' d (storedObjects encodePlayer (mPlayers t0)) =
      storedObjects encodePlayer (mPlayers (webTournament w))"
    and "applyChanges ''categories'' ''erasedCategories'' d (storedObjects encodeCategory (mCategories t0)) =
      storedObjects encodeCategory (mCategories (webTournament w))"
proof -
  let ?t = "webTournament w"
  from assms(1) obtain cs ps ts where
    cs: "mapE (\<lambda>c. bindE (getCategory c ?t) (\<lambda>category. Inr (encodeCategory category)))
      (sorted_list_of_set (mChangedCategories w) @ sorted_list_of_set (mAddedCategories w)) = Inr cs" and
    ps: "mapE (\<lambda>p. bindE (tournament_getPlayer p ?t) (\<lambda>player. Inr (encodePlayer player)))
      (sorted_list_of_set (mChangedPlayers w) @ sorted_list_of_set (mAddedPlayers w)) = Inr ps" and
    d: "d = JObject ([(''type'', encodeString ''tournamentChanges'')] @
         (if mTournamentChanged w then [(''tournament'', encodeMeta w)] else []) @
         [(''categories'', JArray cs), (''erasedCategories'', JArray (map jsonId (sorted_list_of_set (mErasedCategories w)))),
          (''players'', JArray ps), (''erasedPlayers'', JArray (map jsonId (sorted_list_of_set (mErasedPlayers w)))),
          (''tatamis'', JArray ts)])"
    by (auto simp: buildChangesObject_def Let_def simp del: getCategory_eq_Inr tournament_getPlayer_eq_Inr)
  from tracked_inv[OF assms(2)] have
    p: "differsBy playerHeader (mPlayers t0) (mPlayers ?t) (mAddedPlayers w) (mChangedPlayers w) (mErasedPlayers w)" and
    c: "differsBy categoryHeader (mCategories t0) (mCategories ?t) (mAddedCategories w) (mChangedCategories w) (mErasedCategories w)"
    by (auto simp: store_inv_def)
  have fin: "finite (mChangedPlayers w)" "finite (mAddedPlayers w)" "finite (mErasedPlayers w)"
    "finite (mChangedCategories w)" "finite (mAddedCategories w)" "finite (mErasedCategories w)"
    using p c assms(3,4) by (auto simp: differsBy_def keysNamed_def intro: finite_subset)
  have ps': "ps = map (\<lambda>k. encodePlayer (the (mPlayers ?t k))) (sorted_list_of_set (mChangedPlayers w) @ sorted_list_of_set (mAddedPlayers w))"
    using mapE_lookup[OF ps, of "mPlayers ?t"] by simp
  have cs': "cs = map (\<lambda>k. encodeCategory (the (mCategories ?t k))) (sorted_list_of_set (mChangedCategories w) @ sorted_list_of_set (mAddedCategories w))"
    using mapE_lookup[OF cs, of "mCategories ?t"] by simp
  have "member ''players'' d = JArray ps" "member ''erasedPlayers'' d = JArray (map jsonId (sorted_list_of_set (mErasedPlayers w)))"
    by (simp_all add: d)
  then show "applyChanges ''players'' ''erasedPlayers'' d (storedObjects encodePlayer (mPlayers t0)) = storedObjects encodePlayer (mPlayers ?t)"
    using assms(4) fin unfolding applyChanges_def ps'
    by (simp only: elements.simps) (rule applied_difference[OF p encodePlayer_header], auto simp: keysNamed_def)
  have "member ''categories'' d = JArray cs" "member ''erasedCategories'' d = JArray (map jsonId (sorted_list_of_set (mErasedCategories w)))"
    by (simp_all add: d)
  then show "applyChanges ''categories'' ''erasedCategories'' d (storedObjects encodeCategory (mCategories t0)) = storedObjects encodeCategory (mCategories ?t)"
    using assms(4) fin unfolding applyChanges_def cs'
    by (simp only: elements.simps) (rule applied_difference[OF c encodeCategory_header], auto simp: keysNamed_def)
qed

lemma changesMessage_object:
  assumes "changesMessage w s clockDiff = Inr d"
  shows "\<exists>d0. buildChangesObject w = Inr d0 \<and>
    (\<forall>k \<in> {''players'', ''erasedPlayers'', ''categories'', ''erasedCategories''}. member k d = member k d0)"
proof -
  from assms obtain d0 sub ms where d0: "buildChangesObject w = Inr d0" and sub: "changedSubscription w s = Inr sub"
    and d: "d = addMember ''matches'' (JArray ms) (fold (\<lambda>(k, v). addMember k v) sub d0)"
    by (auto simp: changesMessage_def)
  have "fst ` set sub \<subseteq> {''subscribedCategory'', ''subscribedPlayer'', ''subscribedTatami''}"
    using sub by (auto simp: changedSubscription_def Let_def split: option.splits if_splits)
  then have "member k (fold (\<lambda>(k, v). addMember k v) sub e) = member k e"
    if "k \<notin> {''subscribedCategory'', ''subscribedPlayer'', ''subscribedTatami''}" for k e
    using that by (induction sub arbitrary: e) (auto simp: addMember_member split: prod.splits)
  with d d0 show ?thesis by (auto simp: addMember_member)
qed

text \<open>
  C8. A web client stays up to date by applying the changes messages. It was sent the tournament \<open>t0\<close> in a subscription message
  when the log was cleared; when it applies the changes message that is sent after any further changes, it has exactly the
  players and the categories that a client subscribing now is sent.
\<close>
theorem changes_message_updates_client:
  assumes "tracked (webTournament w0) w" and "keysNamed (webTournament w0)" and "keysNamed (webTournament w)"
    and "subscriptionMessage w0 s0 clockDiff = Inr d0" and "encodeTournamentChangesMessage w s clockDiff newJsonEncoder = Inr (d, e)"
    and "subscriptionMessage w s1 clockDiff = Inr d1" and "matchesNamed (webTournament w)"
  shows "applyChanges ''players'' ''erasedPlayers'' d (byId (member ''players'' d0)) = byId (member ''players'' d1) \<and>
    applyChanges ''categories'' ''erasedCategories'' d (byId (member ''categories'' d0)) = byId (member ''categories'' d1)"
proof -
  have object: "\<exists>o'. buildSubscriptionObject v = Inr o' \<and> member ''players'' c = member ''players'' o' \<and>
      member ''categories'' c = member ''categories'' o'" if "subscriptionMessage v z clockDiff = Inr c" for v z c
    using that by (auto simp: subscriptionMessage_def Let_def addMember_member)
  from object[OF assms(4)] obtain o0 where o0: "buildSubscriptionObject w0 = Inr o0" "member ''players'' d0 = member ''players'' o0"
    "member ''categories'' d0 = member ''categories'' o0" by blast
  from object[OF assms(6)] obtain o1 where o1: "buildSubscriptionObject w = Inr o1" "member ''players'' d1 = member ''players'' o1"
    "member ''categories'' d1 = member ''categories'' o1" by blast
  from changesMessage_encodes[OF assms(7) cache_ok_new, of clockDiff s] assms(5) have "changesMessage w s clockDiff = Inr d"
    by (cases "changesMessage w s clockDiff") auto
  from changesMessage_object[OF this] obtain o' where o': "buildChangesObject w = Inr o'"
    "\<forall>k \<in> {''players'', ''erasedPlayers'', ''categories'', ''erasedCategories''}. member k d = member k o'" by blast
  have "applyChanges ''players'' ''erasedPlayers'' d = applyChanges ''players'' ''erasedPlayers'' o'"
    and "applyChanges ''categories'' ''erasedCategories'' d = applyChanges ''categories'' ''erasedCategories'' o'"
    using o'(2) by (simp_all add: applyChanges_def fun_eq_iff)
  then show ?thesis
    using buildChangesObject_members[OF o'(1) assms(1-3)] subscriptionObject_objects[OF o0(1) assms(2)]
      subscriptionObject_objects[OF o1(1) assms(3)] o0 o1 by simp
qed

definition noSubscription :: Subscription where
  "noSubscription = \<lparr>subscribedCategory = None, subscribedPlayer = None, subscribedTatami = None\<rparr>"

lemmas example_defs = exampleWebStoreLater_def exampleWebStore_def newWebTournamentStore_def newTournamentStore_def
  newTatamiList_def pm_new_def noSubscription_def theCategory_def thePlayer_def theTatami_def tatamiModelsE_def
  tatamiCount_def pm_size_def

theorem changes_message_updates_client_witness:
  "\<exists>d0 d e d1. subscriptionMessage exampleWebStore noSubscription 0 = Inr d0 \<and>
     encodeTournamentChangesMessage exampleWebStoreLater noSubscription 0 newJsonEncoder = Inr (d, e) \<and>
     subscriptionMessage exampleWebStoreLater noSubscription 0 = Inr d1 \<and>
     applyChanges ''players'' ''erasedPlayers'' d (byId (member ''players'' d0)) = byId (member ''players'' d1)"
proof -
  have "\<exists>d0. subscriptionMessage exampleWebStore noSubscription 0 = Inr d0"
    by (simp add: subscriptionMessage_def buildSubscriptionObject_def shownMatchIds_def encodeOptionalCategory_def
        encodeOptionalTatami_def subscribedMatchIds_def Let_def example_defs)
  moreover have "\<exists>d1. subscriptionMessage exampleWebStoreLater noSubscription 0 = Inr d1"
    by (simp add: subscriptionMessage_def buildSubscriptionObject_def shownMatchIds_def encodeOptionalCategory_def
        encodeOptionalTatami_def subscribedMatchIds_def Let_def example_defs)
  moreover have "\<exists>d e. encodeTournamentChangesMessage exampleWebStoreLater noSubscription 0 newJsonEncoder = Inr (d, e)"
    by (simp add: encodeTournamentChangesMessage_def buildChangesObject_def changedTatamis_def changedSubscription_def
        changedShownIds_def changedSubscribedIds_def newJsonEncoder_def tournament_getPlayer_def players_get_def Let_def example_defs)
  moreover have "keysNamed (webTournament exampleWebStore)" "keysNamed (webTournament exampleWebStoreLater)"
    "matchesNamed (webTournament exampleWebStoreLater)"
    by (auto simp: keysNamed_def matchesNamed_def example_defs examplePlayer_def newPlayerStore_def split: if_splits)
  ultimately show ?thesis using changes_message_updates_client[OF exampleWebStoreLater_tracked] by blast
qed

text \<open>
  C30. The caches of the encoder are transparent: whatever messages it has encoded for other clients since the tournament
  last changed, it encodes a client's message as a new encoder does, and fails only where a new encoder fails.
\<close>
theorem encoder_cache_transparent:
  assumes "matchesNamed (webTournament w)"
    and "foldE (\<lambda>(subscribe, s) e. bindE (if subscribe then encodeTournamentSubscriptionMessage w s clockDiff True e
           else encodeTournamentChangesMessage w s clockDiff e) (\<lambda>(d, e'). Inr e')) clients newJsonEncoder = Inr e"
  shows "map_sum id fst (encodeTournamentSubscriptionMessage w s clockDiff True e) = subscriptionMessage w s clockDiff \<and>
    map_sum id fst (encodeTournamentChangesMessage w s clockDiff e) = changesMessage w s clockDiff"
proof -
  have keeps: "cache_ok w clockDiff e'" if "cache_ok w clockDiff e1" and
    "(if b then encodeTournamentSubscriptionMessage w z clockDiff True e1 else encodeTournamentChangesMessage w z clockDiff e1) = Inr (d, e')"
    for b z e1 d e'
    using subscriptionMessage_encodes[OF assms(1) that(1), of z True] changesMessage_encodes[OF assms(1) that(1), of z] that(2)
    by (cases "subscriptionMessage w z clockDiff"; cases "changesMessage w z clockDiff") (auto split: if_splits)
  have ok: "cache_ok w clockDiff e"
    using foldE_invariant[OF assms(2), of "cache_ok w clockDiff"] keeps by (force split: prod.splits)
  have "encodes w clockDiff r r' \<Longrightarrow> map_sum id fst r' = r" for r :: "json result" and r'
    by (cases r) auto
  with subscriptionMessage_encodes[OF assms(1) ok] changesMessage_encodes[OF assms(1) ok] show ?thesis by blast
qed

theorem encoder_cache_transparent_witness:
  "\<exists>e. foldE (\<lambda>(subscribe, s) e. bindE (if subscribe then encodeTournamentSubscriptionMessage exampleWebStore s 0 True e
           else encodeTournamentChangesMessage exampleWebStore s 0 e) (\<lambda>(d, e'). Inr e')) [(True, noSubscription)] newJsonEncoder = Inr e \<and>
     mCachedSubscriptionObject e \<noteq> None \<and>
     map_sum id fst (encodeTournamentSubscriptionMessage exampleWebStore noSubscription 0 True e) =
       subscriptionMessage exampleWebStore noSubscription 0"
proof -
  have "matchesNamed (webTournament exampleWebStore)" by (auto simp: matchesNamed_def example_defs)
  moreover have "\<exists>e. foldE (\<lambda>(subscribe, s) e. bindE (if subscribe then encodeTournamentSubscriptionMessage exampleWebStore s 0 True e
      else encodeTournamentChangesMessage exampleWebStore s 0 e) (\<lambda>(d, e'). Inr e')) [(True, noSubscription)] newJsonEncoder = Inr e \<and>
      mCachedSubscriptionObject e \<noteq> None"
    by (simp add: encodeTournamentSubscriptionMessage_def buildSubscriptionObject_def shownMatchIds_def encodeOptionalCategory_def
        encodeOptionalTatami_def subscribedMatchIds_def newJsonEncoder_def Let_def example_defs)
  ultimately show ?thesis using encoder_cache_transparent by blast
qed

subsection \<open>An undo can crash the encoder\<close>

text \<open>
  A category that is added and erased again between two deliveries (the undo of an action before its deletion does that) is in
  none of the three sets, but stays in \<^verbatim>\<open>mCategoryResultsResets\<close>. For a client that subscribed to it before it was erased, the
  changes message then looks the missing category up.
\<close>

lemma erased_again_crashes_subscriber:
  assumes "c \<notin> mAddedCategories w \<union> mChangedCategories w \<union> mErasedCategories w" and "mCategories t1 c = Some category"
    and "noteCategoryAdded c (w\<lparr>webTournament := t1\<rparr>) = Inr w1" and "noteCategoryErased c w1 = Inr w2"
    and "mCategories t2 c = None" and "subscribedCategory s = Some c"
  shows "changedSubscription (w2\<lparr>webTournament := t2\<rparr>) s = Inl AssertionFailed"
proof -
  have "c \<in> mCategoryResultsResets w1" "c \<in> mAddedCategories w1" "c \<notin> mErasedCategories w1"
    using assms(1-3) by (auto simp: noteCategoryAdded_def resetPlayersOf_def Let_def)
  then have "c \<in> mCategoryResultsResets w2" "c \<notin> mErasedCategories w2"
    using assms(4) by (auto simp: noteCategoryErased_def resetPlayersOf_def Let_def)
  then show ?thesis using assms(5,6) by (simp add: changedSubscription_def getCategory_def categories_get_def)
qed

end
