(* ===== verification/Loaded_Tournament.thy ===== *)
theory Loaded_Tournament
  imports Json_Messages Dispatched_Actions
begin

section \<open>A tournament on the web server\<close>

text \<open>
  Models \<^verbatim>\<open>src/web/loaded_tournament.hpp\<close> and \<^verbatim>\<open>loaded_tournament.cpp\<close>: the copy of a tournament that the web server keeps
  for its owner, with the actions dispatched to it and the browsers that watch it. All operations run on one strand, so each
  handler is one step; \<open>lt_save\<close> is split into the three handlers that the code posts one after the other.

  The null pointer \<^verbatim>\<open>mTournament\<close> before the first synchronisation is \<open>None\<close>, and its use undefined behaviour. Participants
  (\<^verbatim>\<open>std::shared_ptr<WebParticipant>\<close>) are numbers. What handlers hand over to other components is collected: messages to
  participants in \<open>mDelivered\<close>, updates for the data base in \<open>mDatabaseUpdates\<close> and \<open>mSaveTimes\<close>; the boolean that a callback
  is called with is returned. The file of the tournament is \<open>mFile\<close>, \<open>None\<close> when it cannot be opened; serialisation (cereal) and
  compression (zstd) are the parameters of the record \<open>Codec\<close>.

  An exception that an action throws is caught by the handlers. Here the action that throws leaves the tournament unchanged; in the code what it has changed
  before it throws stays. The properties of these handlers are about actions that do not throw.
\<close>

type_synonym Participant = nat

record Codec =
  serialize :: "int \<times> TournamentStore \<Rightarrow> string option"
  deserialize :: "string \<Rightarrow> (int \<times> TournamentStore) option"
  decodeClock :: "string \<Rightarrow> int option"
  compress :: "string \<Rightarrow> string option"
  decompress :: "nat \<Rightarrow> string \<Rightarrow> string option"
  encodeHeader :: "nat \<times> nat \<Rightarrow> string option"
  decodeHeader :: "string \<Rightarrow> (nat \<times> nat) option"

record 'a LoadedTournament =
  mLoadedName :: string
  mLoadedStore :: "WebTournamentStore option"
  mActionList :: "'a ActionList"
  mClockDiff :: int
  mActionIds :: "ClientActionId set"
  mWebParticipants :: "Participant set"
  mPlayerSubscriptions :: "Participant \<rightharpoonup> PlayerId"
  mCategorySubscriptions :: "Participant \<rightharpoonup> CategoryId"
  mTatamiSubscriptions :: "Participant \<rightharpoonup> nat"
  mOwner :: "Participant option"
  mFileInUse :: bool
  mFile :: "string option"
  mSynchronizationTime :: int
  mModificationTime :: int
  mDelivered :: "(Participant \<times> json) list"
  mDatabaseUpdates :: "(string \<times> string \<times> string \<times> string) list"
  mSaveTimes :: "int list"

definition FILE_HEADER_SIZE :: nat where
  "FILE_HEADER_SIZE = 17"

definition newLoadedTournament :: "string \<Rightarrow> string option \<Rightarrow> 'a LoadedTournament" where
  "newLoadedTournament webName file =
     \<lparr>mLoadedName = webName, mLoadedStore = None, mActionList = [], mClockDiff = 0, mActionIds = {}, mWebParticipants = {},
      mPlayerSubscriptions = Map.empty, mCategorySubscriptions = Map.empty, mTatamiSubscriptions = Map.empty, mOwner = None,
      mFileInUse = False, mFile = file, mSynchronizationTime = 0, mModificationTime = 0, mDelivered = [], mDatabaseUpdates = [],
      mSaveTimes = []\<rparr>"

text \<open>\<^verbatim>\<open>*mTournament\<close>.\<close>

definition theStore :: "'a LoadedTournament \<Rightarrow> WebTournamentStore result" where
  "theStore l = (case mLoadedStore l of None \<Rightarrow> Inl UndefinedBehaviour | Some w \<Rightarrow> Inr w)"

text \<open>The errors that are subclasses of \<^verbatim>\<open>std::exception\<close>; the other ones stop the program.\<close>

fun caught :: "exec_error \<Rightarrow> bool" where
  "caught (ActionExecutionException msg) = True"
| "caught BadOptionalAccess = True"
| "caught OutOfRange = True"
| "caught (RuntimeError msg) = True"
| "caught InvalidArgument = True"
| "caught e = False"

subsection \<open>Delivery\<close>

definition subscriptionOf :: "'a LoadedTournament \<Rightarrow> Participant \<Rightarrow> Subscription" where
  "subscriptionOf l p = \<lparr>subscribedCategory = mCategorySubscriptions l p, subscribedPlayer = mPlayerSubscriptions l p,
     subscribedTatami = mTatamiSubscriptions l p\<rparr>"

definition updateDatabase :: "WebTournamentStore \<Rightarrow> 'a LoadedTournament \<Rightarrow> 'a LoadedTournament" where
  "updateDatabase w l = l\<lparr>mDatabaseUpdates := mDatabaseUpdates l @
     [(mLoadedName l, getName (webTournament w), getLocation (webTournament w), getDate (webTournament w))]\<rparr>"

definition clearStoreChanges :: "WebTournamentStore \<Rightarrow> 'a LoadedTournament \<Rightarrow> 'a LoadedTournament result" where
  "clearStoreChanges w l = bindE (store_clearChanges w) (\<lambda>w'. Inr (l\<lparr>mLoadedStore := Some w'\<rparr>))"

definition deliverChangesTo ::
  "'a LoadedTournament \<Rightarrow> WebTournamentStore \<Rightarrow> Participant \<Rightarrow> (Participant \<times> json) list \<times> JsonEncoder \<Rightarrow>
   ((Participant \<times> json) list \<times> JsonEncoder) result" where
  "deliverChangesTo l w p = (\<lambda>(out, encoder).
     bindE (hasTournamentChanges w (subscriptionOf l p)) (\<lambda>b.
       if \<not> b then Inr (out, encoder)
       else bindE (encodeTournamentChangesMessage w (subscriptionOf l p) (mClockDiff l) encoder) (\<lambda>(d, encoder').
         Inr (out @ [(p, d)], encoder'))))"

definition deliverChanges :: "'a LoadedTournament \<Rightarrow> 'a LoadedTournament result" where
  "deliverChanges l =
     bindE (theStore l) (\<lambda>w.
     bindE (foldE (deliverChangesTo l w) (sorted_list_of_set (mWebParticipants l)) (mDelivered l, newJsonEncoder)) (\<lambda>(out, _).
     let l1 = l\<lparr>mDelivered := out\<rparr>;
         l2 = (if mTournamentChanged w then updateDatabase w l1 else l1)
     in clearStoreChanges w l2))"

definition deliverSyncTo ::
  "'a LoadedTournament \<Rightarrow> WebTournamentStore \<Rightarrow> Participant \<Rightarrow> (Participant \<times> json) list \<times> JsonEncoder \<Rightarrow>
   ((Participant \<times> json) list \<times> JsonEncoder) result" where
  "deliverSyncTo l w p = (\<lambda>(out, encoder).
     bindE (encodeTournamentSubscriptionMessage w (subscriptionOf l p) (mClockDiff l) True encoder) (\<lambda>(d, encoder').
       Inr (out @ [(p, d)], encoder')))"

definition deliverSync :: "'a LoadedTournament \<Rightarrow> 'a LoadedTournament result" where
  "deliverSync l =
     bindE (theStore l) (\<lambda>w.
     bindE (foldE (deliverSyncTo l w) (sorted_list_of_set (mWebParticipants l)) (mDelivered l, newJsonEncoder)) (\<lambda>(out, _).
     clearStoreChanges w (updateDatabase w (l\<lparr>mDelivered := out\<rparr>))))"

definition flushModels :: "'a LoadedTournament \<Rightarrow> 'a LoadedTournament result" where
  "flushModels l = bindE (theStore l) (\<lambda>w. bindE (flushWebTatamiModels w) (\<lambda>w'. Inr (l\<lparr>mLoadedStore := Some w'\<rparr>)))"

subsection \<open>Synchronisation, actions and undos\<close>

definition lt_sync :: "int \<Rightarrow> WebTournamentStore \<Rightarrow> 'a ActionList \<Rightarrow> int \<Rightarrow> 'a LoadedTournament \<Rightarrow> (bool \<times> 'a LoadedTournament) result" where
  "lt_sync now tournament actionList diff l =
     bindE (flushModels (l\<lparr>mLoadedStore := Some tournament, mActionList := actionList, mClockDiff := diff, mModificationTime := now\<rparr>)) (\<lambda>l1.
     bindE (deliverSync l1) (\<lambda>l2. Inr (True, l2)))"

definition lt_trim :: "'a LoadedTournament \<Rightarrow> 'a LoadedTournament" where
  "lt_trim l = (if length (mActionList l) > MAX_ACTION_STACK_SIZE
     then l\<lparr>mActionIds := mActionIds l - {fst (hd (mActionList l))}, mActionList := tl (mActionList l)\<rparr> else l)"

definition lt_dispatch ::
  "('a, WebTournamentStore) ActionInterface \<Rightarrow> int \<Rightarrow> ClientActionId \<Rightarrow> 'a Action \<Rightarrow> 'a LoadedTournament \<Rightarrow>
   (bool \<times> 'a LoadedTournament) result" where
  "lt_dispatch J now actionId action l =
     bindE (theStore l) (\<lambda>w.
     case action_redo J action w of
       Inl e \<Rightarrow> if caught e then Inr (False, l) else Inl e
     | Inr (action', w') \<Rightarrow>
         let l1 = lt_trim (l\<lparr>mLoadedStore := Some w', mActionList := mActionList l @ [(actionId, action')],
                             mActionIds := insert actionId (mActionIds l), mModificationTime := now\<rparr>)
         in bindE (flushModels l1) (\<lambda>l2. bindE (deliverChanges l2) (\<lambda>l3. Inr (True, l3))))"

text \<open>
  The loops of \<^verbatim>\<open>undo\<close>. \<open>unroll\<close> walks back from the end of the list, which it gets reversed, and stops at the action or at the
  first element; \<open>reroll\<close> executes the undone actions again. Both return how far they got and the exception that stopped them.
\<close>

fun unroll ::
  "('a, WebTournamentStore) ActionInterface \<Rightarrow> ClientActionId \<Rightarrow> 'a ActionList \<Rightarrow> 'a ActionList \<Rightarrow> WebTournamentStore \<Rightarrow>
   ('a ActionList \<times> 'a ActionList \<times> WebTournamentStore) \<times> exec_error option" where
  "unroll J i [] acc w = (([], acc, w), Some UndefinedBehaviour)"
| "unroll J i ((j, a) # older) acc w =
     (if older = [] \<or> j = i then (((j, a) # older, acc, w), None)
      else case action_undo J a w of
             Inl e \<Rightarrow> (((j, a) # older, acc, w), Some e)
           | Inr (a', w') \<Rightarrow> unroll J i older ((j, a') # acc) w')"

fun reroll ::
  "('a, WebTournamentStore) ActionInterface \<Rightarrow> 'a ActionList \<Rightarrow> WebTournamentStore \<Rightarrow>
   ('a ActionList \<times> WebTournamentStore) \<times> exec_error option" where
  "reroll J [] w = (([], w), None)"
| "reroll J ((j, a) # xs) w =
     (case action_redo J a w of
        Inl e \<Rightarrow> (((j, a) # xs, w), Some e)
      | Inr (a', w') \<Rightarrow> (case reroll J xs w' of ((ys, w''), r) \<Rightarrow> (((j, a') # ys, w''), r)))"

text \<open>\<open>finishUndo\<close> is what follows the removal: the rest of the list is executed again, and the result reported.\<close>

definition failUndo :: "exec_error \<Rightarrow> 'a LoadedTournament \<Rightarrow> (bool \<times> 'a LoadedTournament) result" where
  "failUndo e l = (if caught e then Inr (False, l) else Inl e)"

definition finishUndo ::
  "('a, WebTournamentStore) ActionInterface \<Rightarrow> int \<Rightarrow> ClientActionId \<Rightarrow> bool \<Rightarrow> 'a ActionList \<Rightarrow> 'a ActionList \<Rightarrow> WebTournamentStore \<Rightarrow>
   'a LoadedTournament \<Rightarrow> (bool \<times> 'a LoadedTournament) result" where
  "finishUndo J now actionId success older newer w l =
     (case reroll J newer w of
        ((newer', w'), r) \<Rightarrow>
          let l1 = l\<lparr>mActionList := older @ newer', mLoadedStore := Some w'\<rparr> in
          case r of
            Some e \<Rightarrow> failUndo e l1
          | None \<Rightarrow>
              if \<not> success then Inr (False, l1)
              else bindE (flushModels l1) (\<lambda>l2. bindE (deliverChanges l2) (\<lambda>l3.
                     Inr (True, l3\<lparr>mModificationTime := now, mActionIds := mActionIds l3 - {actionId}\<rparr>))))"

definition lt_undo ::
  "('a, WebTournamentStore) ActionInterface \<Rightarrow> int \<Rightarrow> ClientActionId \<Rightarrow> 'a LoadedTournament \<Rightarrow> (bool \<times> 'a LoadedTournament) result" where
  "lt_undo J now actionId l =
     (if actionId \<notin> mActionIds l then Inr (False, l)
      else bindE (theStore l) (\<lambda>w.
        case unroll J actionId (rev (mActionList l)) [] w of
          ((olderRev, newer, w1), Some e) \<Rightarrow> failUndo e (l\<lparr>mActionList := rev olderRev @ newer, mLoadedStore := Some w1\<rparr>)
        | ((olderRev, newer, w1), None) \<Rightarrow>
            (case olderRev of
               [] \<Rightarrow> Inl UndefinedBehaviour
             | (j, a) # older \<Rightarrow>
                 if j \<noteq> actionId then finishUndo J now actionId False (rev olderRev) newer w1 l
                 else case action_undo J a w1 of
                        Inl e \<Rightarrow> failUndo e (l\<lparr>mActionList := rev olderRev @ newer, mLoadedStore := Some w1\<rparr>)
                      | Inr (a', w2) \<Rightarrow> finishUndo J now actionId True (rev older) newer w2 l)))"

subsection \<open>Files\<close>

text \<open>
  The clock difference is read into the field before the tournament is, so a file with a damaged tournament still sets it;
  \<open>decodeClock\<close> is what the first part of the archive gives. Reading \<open>n\<close> bytes from a file fills a zero-filled buffer of that size; that a buffer of a size
  which a damaged header names cannot be allocated is not modelled.
\<close>

definition readBytes :: "nat \<Rightarrow> string \<Rightarrow> string" where
  "readBytes n s = take n (s @ replicate n (CHR 0x00))"

definition lt_load :: "Codec \<Rightarrow> int \<Rightarrow> 'a LoadedTournament \<Rightarrow> (bool \<times> 'a LoadedTournament) result" where
  "lt_load C now l =
     (if mFileInUse l then Inr (False, l)
      else case mFile l of
        None \<Rightarrow> Inr (False, l)
      | Some content \<Rightarrow>
          (case decodeHeader C (readBytes FILE_HEADER_SIZE content) of
             None \<Rightarrow> Inr (False, l)
           | Some (compressedSize, uncompressedSize) \<Rightarrow>
               (case decompress C uncompressedSize (readBytes compressedSize (drop FILE_HEADER_SIZE content)) of
                  None \<Rightarrow> Inr (False, l)
                | Some uncompressed \<Rightarrow>
                    (case deserialize C uncompressed of
                       None \<Rightarrow> Inr (False, case decodeClock C uncompressed of None \<Rightarrow> l | Some diff \<Rightarrow> l\<lparr>mClockDiff := diff\<rparr>)
                     | Some (diff, tournament) \<Rightarrow>
                         bindE (flushModels (l\<lparr>mClockDiff := diff,
                                  mLoadedStore := Some (newWebTournamentStore\<lparr>webTournament := tournament\<rparr>)\<rparr>)) (\<lambda>l1.
                           Inr (True, l1\<lparr>mActionIds := {}, mActionList := [], mSynchronizationTime := now\<rparr>))))))"

text \<open>
  \<open>lt_save\<close> runs on the strand and returns the serialised tournament when the operation continues; \<open>lt_write\<close> runs on the pool
  and returns whether the file was written; \<open>lt_saved\<close> runs on the strand after it. A file that can be opened takes all bytes: the code does not look at the
  state of the stream after writing, and a failure there is not modelled.
\<close>

definition lt_save :: "Codec \<Rightarrow> 'a LoadedTournament \<Rightarrow> (string option \<times> 'a LoadedTournament) result" where
  "lt_save C l =
     (if mFileInUse l then Inr (None, l)
      else bindE (theStore l) (\<lambda>w.
        case serialize C (mClockDiff l, webTournament w) of
          None \<Rightarrow> Inr (None, l)
        | Some uncompressed \<Rightarrow> Inr (Some uncompressed, l\<lparr>mFileInUse := True\<rparr>)))"

definition lt_write :: "Codec \<Rightarrow> bool \<Rightarrow> string \<Rightarrow> 'a LoadedTournament \<Rightarrow> (bool \<times> 'a LoadedTournament) result" where
  "lt_write C canOpen uncompressed l =
     (case compress C uncompressed of
        None \<Rightarrow> Inr (False, l\<lparr>mFileInUse := False\<rparr>)
      | Some compressed \<Rightarrow>
          (case encodeHeader C (length compressed, length uncompressed) of
             None \<Rightarrow> Inr (False, l\<lparr>mFileInUse := False\<rparr>)
           | Some header \<Rightarrow> assertE (length header = FILE_HEADER_SIZE)
               (Inr (if \<not> canOpen then (False, l\<lparr>mFileInUse := False\<rparr>) else (True, l\<lparr>mFile := Some (header @ compressed)\<rparr>)))))"

definition lt_saved :: "int \<Rightarrow> 'a LoadedTournament \<Rightarrow> bool \<times> 'a LoadedTournament" where
  "lt_saved now l = (True, l\<lparr>mFileInUse := False, mSynchronizationTime := now, mSaveTimes := mSaveTimes l @ [now]\<rparr>)"

definition lt_saveIfNeccesary :: "Codec \<Rightarrow> 'a LoadedTournament \<Rightarrow> (string option \<times> 'a LoadedTournament) result" where
  "lt_saveIfNeccesary C l = (if mModificationTime l > mSynchronizationTime l then lt_save C l else Inr (None, l))"

subsection \<open>Owner and participants\<close>

definition setOwner :: "Participant \<Rightarrow> 'a LoadedTournament \<Rightarrow> 'a LoadedTournament" where
  "setOwner p l = l\<lparr>mOwner := Some p\<rparr>"

definition clearOwner :: "'a LoadedTournament \<Rightarrow> 'a LoadedTournament" where
  "clearOwner l = l\<lparr>mOwner := None\<rparr>"

definition deliver :: "Participant \<Rightarrow> json \<Rightarrow> 'a LoadedTournament \<Rightarrow> 'a LoadedTournament" where
  "deliver p d l = l\<lparr>mDelivered := mDelivered l @ [(p, d)]\<rparr>"

definition addParticipant :: "Participant \<Rightarrow> 'a LoadedTournament \<Rightarrow> 'a LoadedTournament result" where
  "addParticipant p l =
     bindE (theStore l) (\<lambda>w.
     bindE (encodeTournamentSubscriptionMessage w noSubscription (mClockDiff l) False newJsonEncoder) (\<lambda>(d, _).
       Inr ((deliver p d l)\<lparr>mWebParticipants := insert p (mWebParticipants l)\<rparr>)))"

definition eraseParticipant :: "Participant \<Rightarrow> 'a LoadedTournament \<Rightarrow> 'a LoadedTournament" where
  "eraseParticipant p l = l\<lparr>mWebParticipants := mWebParticipants l - {p}, mPlayerSubscriptions := (mPlayerSubscriptions l)(p := None),
     mCategorySubscriptions := (mCategorySubscriptions l)(p := None), mTatamiSubscriptions := (mTatamiSubscriptions l)(p := None)\<rparr>"

definition subscribeCategory :: "Participant \<Rightarrow> CategoryId \<Rightarrow> 'a LoadedTournament \<Rightarrow> 'a LoadedTournament result" where
  "subscribeCategory p c l =
     (let l1 = l\<lparr>mCategorySubscriptions := (mCategorySubscriptions l)(p \<mapsto> c), mPlayerSubscriptions := (mPlayerSubscriptions l)(p := None),
                 mTatamiSubscriptions := (mTatamiSubscriptions l)(p := None)\<rparr>
      in bindE (theStore l) (\<lambda>w.
         bindE (case mCategories (webTournament w) c of
                  Some category \<Rightarrow> bindE (encodeCategorySubscriptionMessage w category (mClockDiff l) newJsonEncoder) (\<lambda>(d, _). Inr d)
                | None \<Rightarrow> Inr encodeCategorySubscriptionFailMessage) (\<lambda>d.
           Inr (deliver p d l1))))"

definition subscribePlayer :: "Participant \<Rightarrow> PlayerId \<Rightarrow> 'a LoadedTournament \<Rightarrow> 'a LoadedTournament result" where
  "subscribePlayer p i l =
     (let l1 = l\<lparr>mPlayerSubscriptions := (mPlayerSubscriptions l)(p \<mapsto> i), mCategorySubscriptions := (mCategorySubscriptions l)(p := None),
                 mTatamiSubscriptions := (mTatamiSubscriptions l)(p := None)\<rparr>
      in bindE (theStore l) (\<lambda>w.
         bindE (case mPlayers (webTournament w) i of
                  Some player \<Rightarrow> bindE (encodePlayerSubscriptionMessage w player (mClockDiff l) newJsonEncoder) (\<lambda>(d, _). Inr d)
                | None \<Rightarrow> Inr encodePlayerSubscriptionFailMessage) (\<lambda>d.
           Inr (deliver p d l1))))"

definition subscribeTatami :: "Participant \<Rightarrow> nat \<Rightarrow> 'a LoadedTournament \<Rightarrow> 'a LoadedTournament result" where
  "subscribeTatami p index l =
     (let l1 = l\<lparr>mTatamiSubscriptions := (mTatamiSubscriptions l)(p \<mapsto> index), mPlayerSubscriptions := (mPlayerSubscriptions l)(p := None),
                 mCategorySubscriptions := (mCategorySubscriptions l)(p := None)\<rparr>
      in bindE (theStore l) (\<lambda>w.
         bindE (if index < tatamiCount (mTatamiList (webTournament w)) then encodeTatamiSubscriptionMessage w index
                else Inr encodeTatamiSubscriptionFailMessage) (\<lambda>d.
           Inr (deliver p d l1))))"

end
