(* ===== verification/Loaded_Actions.thy ===== *)
theory Loaded_Actions
  imports Loaded_Tournament
begin

section \<open>Actions and undos on the web server\<close>

text \<open>
  The actions that the web server executes are those of the store managers, on a tournament whose signals keep the change log:
  \<open>onWeb\<close> executes an action on the base class part and calls its signals. The contract \<open>web_actions\<close> asks that the signals
  never fail; it is interpreted for the field actions. Under it the tournament that the server shows is the result of executing
  its list of actions, and an undo is as if the action had never been dispatched.
\<close>

definition onWeb ::
  "('a \<Rightarrow> WebTournamentStore \<Rightarrow> WebTournamentStore result) \<Rightarrow> ('a, TournamentStore) ActionInterface \<Rightarrow> ('a, WebTournamentStore) ActionInterface" where
  "onWeb signal I = \<lparr>
     redoImpl = (\<lambda>a w. bindE (redoImpl I a (webTournament w)) (\<lambda>(a', t).
       bindE (signal a' (w\<lparr>webTournament := t\<rparr>)) (\<lambda>w'. Inr (a', w')))),
     undoImpl = (\<lambda>a w. bindE (undoImpl I a (webTournament w)) (\<lambda>(a', t).
       bindE (signal a (w\<lparr>webTournament := t\<rparr>)) (\<lambda>w'. Inr (a', w')))),
     freshCloneImpl = freshCloneImpl I\<rparr>"

text \<open>Delivery changes neither the tournament nor the list of actions.\<close>

lemma flushModels_keeps:
  assumes "flushModels l = Inr l'"
  shows "\<exists>w w'. mLoadedStore l = Some w \<and> flushWebTatamiModels w = Inr w' \<and> l' = l\<lparr>mLoadedStore := Some w'\<rparr> \<and> webTournament w' = webTournament w"
  using assms others_keep(5) by (auto simp: flushModels_def theStore_def split: option.splits)

lemma deliverChanges_keeps:
  assumes "deliverChanges l = Inr l'"
  shows "\<exists>w w'. mLoadedStore l = Some w \<and> store_clearChanges w = Inr w' \<and> mLoadedStore l' = Some w' \<and> webTournament w' = webTournament w \<and>
    mActionList l' = mActionList l \<and> mActionIds l' = mActionIds l"
proof -
  from assms obtain w w' where w: "mLoadedStore l = Some w" "store_clearChanges w = Inr w'" "mLoadedStore l' = Some w'"
    "mActionList l' = mActionList l" "mActionIds l' = mActionIds l"
    by (auto simp: deliverChanges_def theStore_def clearStoreChanges_def updateDatabase_def Let_def split: option.splits if_splits)
  moreover have "webTournament w' = webTournament w"
    using others_keep(1)[of clearChanges] w(2) by (auto simp: store_clearChanges_def)
  ultimately show ?thesis by blast
qed

subsection \<open>The contract\<close>

locale web_actions = revertible_actions I
  for I :: "('a, TournamentStore) ActionInterface" +
  fixes signal :: "'a \<Rightarrow> WebTournamentStore \<Rightarrow> WebTournamentStore result" and wok :: "WebTournamentStore \<Rightarrow> bool"
  assumes signal_redo: "redoImpl I (freshCloneImpl I a) (webTournament w) = Inr (a', t) \<Longrightarrow> wok w \<Longrightarrow>
      \<exists>w'. signal a' (w\<lparr>webTournament := t\<rparr>) = Inr w' \<and> webTournament w' = t \<and> wok w'"
    and signal_undo: "redoImpl I (freshCloneImpl I a) t = Inr (a', webTournament w) \<Longrightarrow> wok w \<Longrightarrow>
      \<exists>w'. signal a' (w\<lparr>webTournament := t\<rparr>) = Inr w' \<and> webTournament w' = t \<and> wok w'"
    and wok_flush: "wok w \<Longrightarrow> flushWebTatamiModels w = Inr w' \<Longrightarrow> wok w'"
    and wok_clear: "store_clearChanges w = Inr w' \<Longrightarrow> wok w'"
begin

abbreviation J :: "('a, WebTournamentStore) ActionInterface" where
  "J \<equiv> onWeb signal I"

lemma web_redo:
  assumes "ready I a" and "wok w"
  shows "\<exists>a' w'. action_redo J a w = Inr (a', w') \<and> wok w' \<and> executed I a' (webTournament w) (webTournament w') \<and>
    freshCloneImpl I (impl a') = freshCloneImpl I (impl a)"
proof -
  obtain x t where x: "action_redo I a (webTournament w) = Inr (x, t)" "executed I x (webTournament w) t"
    "freshCloneImpl I (impl x) = freshCloneImpl I (impl a)" using action_redo_ready[OF assms(1)] by blast
  then have r: "redoImpl I (impl a) (webTournament w) = Inr (impl x, t)" and x': "x = Action True (impl x)"
    by (auto simp: action_redo_def executed_def split: if_splits)
  have "redoImpl I (freshCloneImpl I (impl a)) (webTournament w) = Inr (impl x, t)"
    using r assms(1) by (simp add: ready_def)
  from signal_redo[OF this assms(2)] obtain w' where "signal (impl x) (w\<lparr>webTournament := t\<rparr>) = Inr w'" "webTournament w' = t" "wok w'"
    by blast
  with r x x' assms(1) show ?thesis by (intro exI[of _ x] exI[of _ w']) (auto simp: action_redo_def onWeb_def ready_def)
qed

lemma web_undo:
  assumes "executed I a t (webTournament w)" and "wok w"
  shows "\<exists>b w'. action_undo J a w = Inr (b, w') \<and> wok w' \<and> webTournament w' = t \<and> ready I b \<and>
    freshCloneImpl I (impl b) = freshCloneImpl I (impl a)"
proof -
  obtain b where b: "action_undo I a (webTournament w) = Inr (b, t)" "ready I b" "freshCloneImpl I (impl b) = freshCloneImpl I (impl a)"
    using action_undo_executed[OF assms(1)] by blast
  then have u: "undoImpl I (impl a) (webTournament w) = Inr (impl b, t)" and b': "b = Action False (impl b)" "isDone a"
    by (auto simp: action_undo_def split: if_splits)
  have "redoImpl I (freshCloneImpl I (impl a)) t = Inr (impl a, webTournament w)" using assms(1) by (simp add: executed_def)
  from signal_undo[OF this assms(2)] obtain w' where "signal (impl a) (w\<lparr>webTournament := t\<rparr>) = Inr w'" "webTournament w' = t" "wok w'"
    by blast
  with u b b' show ?thesis by (intro exI[of _ b] exI[of _ w']) (auto simp: action_undo_def onWeb_def)
qed

lemma reroll_replays:
  assumes "list_all (\<lambda>(i, a). ready I a) xs" and "wok w"
  shows "\<exists>ys w'. reroll J xs w = ((ys, w'), None) \<and> wok w' \<and> replays I ys (webTournament w) (webTournament w') \<and>
    labels I ys = labels I xs \<and> list_all (isDone \<circ> snd) ys"
  using assms
proof (induction xs arbitrary: w)
  case (Cons x xs)
  obtain i a where x: "x = (i, a)" by force
  with Cons.prems have a: "ready I a" "list_all (\<lambda>(i, a). ready I a) xs" by simp_all
  from web_redo[OF a(1) Cons.prems(2)] obtain a' w1 where a': "action_redo J a w = Inr (a', w1)" "wok w1"
    "executed I a' (webTournament w) (webTournament w1)" "freshCloneImpl I (impl a') = freshCloneImpl I (impl a)" by blast
  from Cons.IH[OF a(2) a'(2)] a' x show ?case by (auto simp: labels_def executed_def)
qed (simp add: labels_def)

text \<open>Unrolling a list that holds the action stops at the action, with everything newer undone.\<close>

lemma unroll_replays:
  assumes "replays I (older @ (i, a) # newer) base (webTournament w)" and "wok w" and "list_all (isDone \<circ> snd) newer"
    and "i \<notin> fst ` set newer"
  shows "\<exists>newer' w'. unroll J i (rev (older @ (i, a) # newer)) acc w = (((i, a) # rev older, newer' @ acc, w'), None) \<and> wok w' \<and>
    replays I (older @ [(i, a)]) base (webTournament w') \<and> labels I newer' = labels I newer \<and> list_all (\<lambda>(i, a). ready I a) newer'"
  using assms
proof (induction newer arbitrary: w acc rule: rev_induct)
  case Nil
  then show ?case by (auto simp: labels_def)
next
  case (snoc x newer)
  obtain j b where x: "x = (j, b)" by force
  from snoc.prems(1) x obtain t1 where t1: "replays I (older @ (i, a) # newer) base t1" "replays I [(j, b)] t1 (webTournament w)"
    using replays_append[of I "older @ (i, a) # newer" "[(j, b)]"] by auto
  from snoc.prems(3) x t1(2) have b: "executed I b t1 (webTournament w)" by auto
  from web_undo[OF b snoc.prems(2)] obtain b' w1 where b': "action_undo J b w = Inr (b', w1)" "wok w1" "webTournament w1 = t1"
    "ready I b'" "freshCloneImpl I (impl b') = freshCloneImpl I (impl b)" by blast
  have "j \<noteq> i" using snoc.prems(4) x by auto
  with b' x have step: "unroll J i (rev (older @ (i, a) # newer @ [x])) acc w = unroll J i (rev (older @ (i, a) # newer)) ((j, b') # acc) w1"
    by (simp split: list.split)
  have "replays I (older @ (i, a) # newer) base (webTournament w1)" using t1(1) b'(3) by simp
  from snoc.IH[OF this b'(2), of "(j, b') # acc"] snoc.prems(3,4) obtain newer' w' where
    "unroll J i (rev (older @ (i, a) # newer)) ((j, b') # acc) w1 = (((i, a) # rev older, newer' @ (j, b') # acc, w'), None)" "wok w'"
    "replays I (older @ [(i, a)]) base (webTournament w')" "labels I newer' = labels I newer" "list_all (\<lambda>(i, a). ready I a) newer'"
    by auto
  with step b'(4,5) x show ?case
    by (intro exI[of _ "newer' @ [(j, b')]"] exI[of _ w']) (auto simp: labels_def)
qed

definition loaded_inv :: "TournamentStore \<Rightarrow> 'a LoadedTournament \<Rightarrow> bool" where
  "loaded_inv base l \<longleftrightarrow> (\<exists>w. mLoadedStore l = Some w \<and> wok w \<and> replays I (mActionList l) base (webTournament w)) \<and>
     list_all (isDone \<circ> snd) (mActionList l) \<and> distinct (map fst (mActionList l)) \<and> mActionIds l = fst ` set (mActionList l)"

lemma flush_deliver_inv:
  assumes "flushModels l = Inr l1" and "deliverChanges l1 = Inr l2" and "mLoadedStore l = Some w" and "wok w"
    and "replays I (mActionList l) base (webTournament w)"
  shows "(\<exists>w'. mLoadedStore l2 = Some w' \<and> wok w' \<and> webTournament w' = webTournament w \<and> replays I (mActionList l2) base (webTournament w')) \<and>
    mActionList l2 = mActionList l \<and> mActionIds l2 = mActionIds l"
  using flushModels_keeps[OF assms(1)] deliverChanges_keeps[OF assms(2)] assms(3-5) wok_clear by auto

lemma dispatch_loaded:
  assumes inv: "loaded_inv base l" and a: "ready I a" and i: "i \<notin> mActionIds l" and r: "lt_dispatch J now i a l = Inr (r, l')"
  shows "r \<and> (\<exists>base'. loaded_inv base' l' \<and> (length (mActionList l) < MAX_ACTION_STACK_SIZE \<longrightarrow> base' = base \<and>
    labels I (mActionList l') = labels I (mActionList l) @ [(i, freshCloneImpl I (impl a))]))"
proof -
  from inv obtain w where w: "mLoadedStore l = Some w" "wok w" "replays I (mActionList l) base (webTournament w)"
    by (auto simp: loaded_inv_def)
  from web_redo[OF a w(2)] obtain a' w' where a': "action_redo J a w = Inr (a', w')" "wok w'"
    "executed I a' (webTournament w) (webTournament w')" "freshCloneImpl I (impl a') = freshCloneImpl I (impl a)" by blast
  have isdone: "isDone a'" using a'(3) by (simp add: executed_def)
  let ?l = "l\<lparr>mLoadedStore := Some w', mActionList := mActionList l @ [(i, a')], mActionIds := insert i (mActionIds l), mModificationTime := now\<rparr>"
  from r w(1) a'(1) obtain l2 where l2: "flushModels (lt_trim ?l) = Inr l2" "deliverChanges l2 = Inr l'" and "r"
    by (auto simp: lt_dispatch_def theStore_def Let_def)
  have all: "replays I (mActionList l @ [(i, a')]) base (webTournament w')"
    using w(3) a'(3) isdone by (auto simp: replays_append)
  obtain base' where trim: "replays I (mActionList (lt_trim ?l)) base' (webTournament w')"
    "length (mActionList l) < MAX_ACTION_STACK_SIZE \<longrightarrow> base' = base \<and> mActionList (lt_trim ?l) = mActionList l @ [(i, a')]"
  proof (cases "length (mActionList l) < MAX_ACTION_STACK_SIZE")
    case True
    with all that[of base] show ?thesis by (simp add: lt_trim_def)
  next
    case False
    then obtain x xs where x: "mActionList l = x # xs" by (cases "mActionList l") (auto simp: MAX_ACTION_STACK_SIZE_def)
    moreover from inv x have "isDone (snd x)" by (simp add: loaded_inv_def)
    ultimately obtain t1 where "replays I (xs @ [(i, a')]) t1 (webTournament w')" using all by (cases x) auto
    with False x that[of t1] show ?thesis by (simp add: lt_trim_def)
  qed
  have lists: "list_all (isDone \<circ> snd) (mActionList (lt_trim ?l)) \<and> distinct (map fst (mActionList (lt_trim ?l))) \<and>
      mActionIds (lt_trim ?l) = fst ` set (mActionList (lt_trim ?l))"
    using inv i isdone by (cases "mActionList l") (force simp: loaded_inv_def lt_trim_def)+
  have "mLoadedStore (lt_trim ?l) = Some w'" by (simp add: lt_trim_def)
  from flush_deliver_inv[OF l2 this a'(2) trim(1)] lists have "loaded_inv base' l'" and list: "mActionList l' = mActionList (lt_trim ?l)"
    by (auto simp: loaded_inv_def)
  with trim(2) a'(4) \<open>r\<close> show ?thesis by (auto simp: labels_def)
qed

lemma undo_loaded:
  assumes inv: "loaded_inv base l" and i: "i \<in> mActionIds l" and r: "lt_undo J now i l = Inr (r, l')"
  shows "r \<and> loaded_inv base l' \<and> labels I (mActionList l') = without i (labels I (mActionList l))"
proof -
  from inv obtain w where w: "mLoadedStore l = Some w" "wok w" "replays I (mActionList l) base (webTournament w)"
    by (auto simp: loaded_inv_def)
  from inv i have "i \<in> fst ` set (mActionList l)" by (simp add: loaded_inv_def)
  then obtain older a newer where split: "mActionList l = older @ (i, a) # newer" by (auto dest: split_list)
  with inv have ids: "i \<notin> fst ` set newer" "i \<notin> fst ` set older" "isDone a" "list_all (isDone \<circ> snd) newer" "list_all (isDone \<circ> snd) older"
    "distinct (map fst (older @ newer))" by (auto simp: loaded_inv_def)
  from unroll_replays[OF w(3)[unfolded split] w(2) ids(4,1), of "[]"] obtain newer1 w1 where
    u: "unroll J i (rev (mActionList l)) [] w = (((i, a) # rev older, newer1, w1), None)" "wok w1"
      "replays I (older @ [(i, a)]) base (webTournament w1)" "labels I newer1 = labels I newer" "list_all (\<lambda>(i, a). ready I a) newer1"
    unfolding split by auto
  from u(3) ids(3) obtain t1 where t1: "replays I older base t1" "executed I a t1 (webTournament w1)" by (auto simp: replays_append)
  from web_undo[OF t1(2) u(2)] obtain b w2 where b: "action_undo J a w1 = Inr (b, w2)" "wok w2" "webTournament w2 = t1" by blast
  from reroll_replays[OF u(5) b(2)] obtain newer2 w3 where n2: "reroll J newer1 w2 = ((newer2, w3), None)" "wok w3"
    "replays I newer2 (webTournament w2) (webTournament w3)" "labels I newer2 = labels I newer1" "list_all (isDone \<circ> snd) newer2" by blast
  let ?l = "l\<lparr>mActionList := older @ newer2, mLoadedStore := Some w3\<rparr>"
  from r w(1) i u(1) b(1) n2(1) obtain l2 l3 where l2: "flushModels ?l = Inr l2" "deliverChanges l2 = Inr l3" and "r"
    and l': "l' = l3\<lparr>mModificationTime := now, mActionIds := mActionIds l3 - {i}\<rparr>"
    by (auto simp: lt_undo_def theStore_def finishUndo_def Let_def)
  have "replays I (mActionList ?l) base (webTournament w3)" using t1(1) b(3) n2(3) by (auto simp: replays_append)
  from flush_deliver_inv[OF l2 _ n2(2) this] have f: "\<exists>w'. mLoadedStore l3 = Some w' \<and> wok w' \<and> replays I (mActionList l3) base (webTournament w')"
    "mActionList l3 = older @ newer2" "mActionIds l3 = mActionIds l" by auto
  have names: "map fst newer2 = map fst newer" using labels_ids[of I newer2 newer] n2(4) u(4) by simp
  then have sets: "fst ` set newer2 = fst ` set newer" by (metis set_map)
  have "mActionIds l - {i} = fst ` set (older @ newer2)"
    using inv ids(1,2) sets by (auto simp: loaded_inv_def split)
  then have "loaded_inv base l'" using f l' n2(5) ids(5,6) names by (simp add: loaded_inv_def)
  moreover have "labels I (mActionList l') = without i (labels I (mActionList l))"
    using f(2) l' n2(4) u(4) ids(1,2) by (simp add: split without_id)
  ultimately show ?thesis using \<open>r\<close> by simp
qed

end

subsection \<open>Field actions\<close>

text \<open>The signals that the field actions call after redo, and with the same identifiers after undo.\<close>

fun change_signal :: "FieldChange \<Rightarrow> WebTournamentStore \<Rightarrow> WebTournamentStore result" where
  "change_signal (PlayersFirstName a) w = changePlayers (mChanged a) w"
| "change_signal (PlayersLastName a) w = changePlayers (mChanged a) w"
| "change_signal (PlayersAge a) w = changePlayers (mChanged a) w"
| "change_signal (PlayersRank a) w = changePlayers (mChanged a) w"
| "change_signal (PlayersCountry a) w = changePlayers (mChanged a) w"
| "change_signal (PlayersClub a) w = changePlayers (mChanged a) w"
| "change_signal (PlayersSex a) w = changePlayers (mChanged a) w"
| "change_signal (CategoriesName a) w = changeCategories (mChanged a) w"
| "change_signal (TournamentName a) w = Inr (changeTournament w)"
| "change_signal (TournamentLocation a) w = Inr (changeTournament w)"
| "change_signal (TournamentDate a) w = Inr (changeTournament w)"
| "change_signal (TournamentWebName a) w = Inr (changeTournament w)"

definition webFieldChanges :: "(FieldChange, WebTournamentStore) ActionInterface" where
  "webFieldChanges = onWeb change_signal fieldChanges"

text \<open>Nothing that is in the tournament is logged as erased.\<close>

definition nothingErased :: "WebTournamentStore \<Rightarrow> bool" where
  "nothingErased w \<longleftrightarrow> mErasedPlayers w \<inter> dom (mPlayers (webTournament w)) = {} \<and>
     mErasedCategories w \<inter> dom (mCategories (webTournament w)) = {}"

definition sameKeys :: "TournamentStore \<Rightarrow> TournamentStore \<Rightarrow> bool" where
  "sameKeys t t' \<longleftrightarrow> dom (mPlayers t') = dom (mPlayers t) \<and> dom (mCategories t') = dom (mCategories t)"

lemma changePlayers_total:
  assumes "set ids \<inter> mErasedPlayers w = {}"
  shows "\<exists>w'. changePlayers ids w = Inr w' \<and> webTournament w' = webTournament w \<and> mErasedPlayers w' = mErasedPlayers w \<and>
    mErasedCategories w' = mErasedCategories w"
  using assms unfolding changePlayers_def
proof (induction ids arbitrary: w)
  case (Cons p ids)
  let ?w = "if p \<in> mAddedPlayers w then w else w\<lparr>mChangedPlayers := insert p (mChangedPlayers w)\<rparr>"
  have keep: "webTournament ?w = webTournament w" "mErasedPlayers ?w = mErasedPlayers w" "mErasedCategories ?w = mErasedCategories w"
    by simp_all
  from Cons.prems have "notePlayerChanged p w = Inr ?w" by (simp add: notePlayerChanged_def)
  moreover from Cons.IH[of ?w] Cons.prems keep obtain w' where "foldE notePlayerChanged ids ?w = Inr w'" "webTournament w' = webTournament w"
    "mErasedPlayers w' = mErasedPlayers w" "mErasedCategories w' = mErasedCategories w" by auto
  ultimately show ?case by simp
qed simp

lemma changeCategories_total:
  assumes "set ids \<inter> mErasedCategories w = {}"
  shows "\<exists>w'. changeCategories ids w = Inr w' \<and> webTournament w' = webTournament w \<and> mErasedPlayers w' = mErasedPlayers w \<and>
    mErasedCategories w' = mErasedCategories w"
  using assms unfolding changeCategories_def
proof (induction ids arbitrary: w)
  case (Cons c ids)
  let ?w = "if c \<in> mAddedCategories w then w else w\<lparr>mChangedCategories := insert c (mChangedCategories w)\<rparr>"
  have keep: "webTournament ?w = webTournament w" "mErasedPlayers ?w = mErasedPlayers w" "mErasedCategories ?w = mErasedCategories w"
    by simp_all
  from Cons.prems have "noteCategoryChanged c w = Inr ?w" by (simp add: noteCategoryChanged_def)
  moreover from Cons.IH[of ?w] Cons.prems keep obtain w' where "foldE noteCategoryChanged ids ?w = Inr w'" "webTournament w' = webTournament w"
    "mErasedPlayers w' = mErasedPlayers w" "mErasedCategories w' = mErasedCategories w" by auto
  ultimately show ?case by simp
qed simp

lemma changeField_players:
  assumes "changeField_redo containsPlayer tournament_getPlayer putPlayer get upd a t = Inr (a', t')"
  shows "sameKeys t t' \<and> set (mChanged a') \<subseteq> set (mChanged a) \<union> dom (mPlayers t')"
proof -
  have "foldE (changeField_step containsPlayer tournament_getPlayer putPlayer get upd) ks (a, t) = Inr (a', t') \<Longrightarrow>
      sameKeys t t' \<and> set (mChanged a') \<subseteq> set (mChanged a) \<union> dom (mPlayers t')" for ks a t
  proof (induction ks arbitrary: a t)
    case (Cons k ks)
    then obtain a1 t1 where step: "changeField_step containsPlayer tournament_getPlayer putPlayer get upd k (a, t) = Inr (a1, t1)"
      and rest: "foldE (changeField_step containsPlayer tournament_getPlayer putPlayer get upd) ks (a1, t1) = Inr (a', t')" by auto
    have "sameKeys t t1 \<and> set (mChanged a1) \<subseteq> set (mChanged a) \<union> dom (mPlayers t1)"
      using step by (auto simp: changeField_step_def sameKeys_def putPlayer_def split: if_splits)
    with Cons.IH[OF rest] show ?case unfolding sameKeys_def by (elim conjE) (simp, blast)
  qed (simp add: sameKeys_def)
  with assms show ?thesis by (simp add: changeField_redo_def)
qed

lemma changeField_categories:
  assumes "changeField_redo containsCategory getCategory putCategory get upd a t = Inr (a', t')"
  shows "sameKeys t t' \<and> set (mChanged a') \<subseteq> set (mChanged a) \<union> dom (mCategories t')"
proof -
  have "foldE (changeField_step containsCategory getCategory putCategory get upd) ks (a, t) = Inr (a', t') \<Longrightarrow>
      sameKeys t t' \<and> set (mChanged a') \<subseteq> set (mChanged a) \<union> dom (mCategories t')" for ks a t
  proof (induction ks arbitrary: a t)
    case (Cons k ks)
    then obtain a1 t1 where step: "changeField_step containsCategory getCategory putCategory get upd k (a, t) = Inr (a1, t1)"
      and rest: "foldE (changeField_step containsCategory getCategory putCategory get upd) ks (a1, t1) = Inr (a', t')" by auto
    have "sameKeys t t1 \<and> set (mChanged a1) \<subseteq> set (mChanged a) \<union> dom (mCategories t1)"
      using step by (auto simp: changeField_step_def sameKeys_def putCategory_def split: if_splits)
    with Cons.IH[OF rest] show ?case unfolding sameKeys_def by (elim conjE) (simp, blast)
  qed (simp add: sameKeys_def)
  with assms show ?thesis by (simp add: changeField_redo_def)
qed

text \<open>The keys that a redo of a fresh action reports are those of the tournament, which the redo keeps.\<close>

fun changedKeys :: "FieldChange \<Rightarrow> PlayerId list \<times> CategoryId list" where
  "changedKeys (CategoriesName a) = ([], mChanged a)"
| "changedKeys (PlayersFirstName a) = (mChanged a, [])"
| "changedKeys (PlayersLastName a) = (mChanged a, [])"
| "changedKeys (PlayersAge a) = (mChanged a, [])"
| "changedKeys (PlayersRank a) = (mChanged a, [])"
| "changedKeys (PlayersCountry a) = (mChanged a, [])"
| "changedKeys (PlayersClub a) = (mChanged a, [])"
| "changedKeys (PlayersSex a) = (mChanged a, [])"
| "changedKeys a = ([], [])"

lemmas player_action_redo_defs = ChangePlayersFirstNameAction_redo_def ChangePlayersLastNameAction_redo_def
  ChangePlayersAgeAction_redo_def ChangePlayersRankAction_redo_def ChangePlayersCountryAction_redo_def
  ChangePlayersClubAction_redo_def ChangePlayersSexAction_redo_def

lemmas tournament_action_redo_defs = ChangeTournamentNameAction_redo_def ChangeTournamentLocationAction_redo_def
  ChangeTournamentDateAction_redo_def ChangeTournamentWebNameAction_redo_def

lemma sameKeys_fields:
  "sameKeys t (setName v t)" "sameKeys t (setLocation v t)" "sameKeys t (setDate v t)" "sameKeys t (setWebName v t)"
  by (simp_all add: sameKeys_def store_simps)

lemma change_redo_keys:
  assumes "change_redo (change_freshClone a) t = Inr (a', t')"
  shows "sameKeys t t' \<and> set (fst (changedKeys a')) \<subseteq> dom (mPlayers t') \<and> set (snd (changedKeys a')) \<subseteq> dom (mCategories t')"
  using assms
  by (cases a)
    (auto simp: mapAction_def player_action_redo_defs ChangeCategoriesNameAction_redo_def tournament_action_redo_defs
      sameKeys_fields freshFieldAction_def newFieldAction_def dest!: changeField_players changeField_categories)

lemma change_signal_total:
  assumes "nothingErased w" and "set (fst (changedKeys a)) \<subseteq> dom (mPlayers (webTournament w))"
    and "set (snd (changedKeys a)) \<subseteq> dom (mCategories (webTournament w))"
  shows "\<exists>w'. change_signal a w = Inr w' \<and> webTournament w' = webTournament w \<and> nothingErased w'"
proof -
  have "set (fst (changedKeys a)) \<inter> mErasedPlayers w = {}" "set (snd (changedKeys a)) \<inter> mErasedCategories w = {}"
    using assms by (auto simp: nothingErased_def)
  from changePlayers_total[OF this(1)] changeCategories_total[OF this(2)] assms(1) show ?thesis
    by (cases a) (auto simp: nothingErased_def changeTournament_def)
qed

interpretation web_field_changes: web_actions fieldChanges change_signal nothingErased
proof unfold_locales
  fix a a' w t
  assume ok: "nothingErased w"
  have total: "\<exists>w'. change_signal a' (w\<lparr>webTournament := t\<rparr>) = Inr w' \<and> webTournament w' = t \<and> nothingErased w'"
    if "sameKeys (webTournament w) t" and "set (fst (changedKeys a')) \<subseteq> dom (mPlayers t)" and "set (snd (changedKeys a')) \<subseteq> dom (mCategories t)"
    using change_signal_total[of "w\<lparr>webTournament := t\<rparr>" a'] ok that by (simp add: nothingErased_def sameKeys_def)
  show "\<exists>w'. change_signal a' (w\<lparr>webTournament := t\<rparr>) = Inr w' \<and> webTournament w' = t \<and> nothingErased w'"
    if "redoImpl fieldChanges (freshCloneImpl fieldChanges a) (webTournament w) = Inr (a', t)"
    using change_redo_keys[of a "webTournament w" a' t] that total by (simp add: fieldChanges_def)
  show "\<exists>w'. change_signal a' (w\<lparr>webTournament := t\<rparr>) = Inr w' \<and> webTournament w' = t \<and> nothingErased w'"
    if "redoImpl fieldChanges (freshCloneImpl fieldChanges a) t = Inr (a', webTournament w)"
  proof -
    have "sameKeys t (webTournament w) \<and> set (fst (changedKeys a')) \<subseteq> dom (mPlayers (webTournament w)) \<and>
        set (snd (changedKeys a')) \<subseteq> dom (mCategories (webTournament w))"
      using change_redo_keys[of a t a' "webTournament w"] that by (simp add: fieldChanges_def)
    then show ?thesis by (intro total) (auto simp: sameKeys_def)
  qed
next
  show "nothingErased w'" if "nothingErased w" and "flushWebTatamiModels w = Inr w'" for w w'
    using that others_keep(5)[OF that(2)] by (simp add: nothingErased_def)
  show "nothingErased w'" if "store_clearChanges w = Inr w'" for w w'
    using that by (auto simp: store_clearChanges_def forModels_def nothingErased_def)
qed

subsection \<open>Runs\<close>

text \<open>
  The handlers of a tournament that was loaded from its file, in any order: actions on fields with new identifiers, undos of any
  identifier, saving, and browsers that come, subscribe and go. A synchronisation (\<open>lt_sync\<close>) is not among them: the actions that come with it are listed
  without having been executed here and without their identifiers, as \<open>synced_actions_cannot_be_undone\<close> shows.
\<close>

inductive lt_reachable :: "Codec \<Rightarrow> FieldChange LoadedTournament \<Rightarrow> bool" for C where
  loaded: "lt_load C now (newLoadedTournament name content) = Inr (True, l) \<Longrightarrow> lt_reachable C l"
| dispatched: "lt_reachable C l \<Longrightarrow> ready fieldChanges a \<Longrightarrow> i \<notin> mActionIds l \<Longrightarrow>
    lt_dispatch webFieldChanges now i a l = Inr (r, l') \<Longrightarrow> lt_reachable C l'"
| undone: "lt_reachable C l \<Longrightarrow> lt_undo webFieldChanges now i l = Inr (r, l') \<Longrightarrow> lt_reachable C l'"
| saving: "lt_reachable C l \<Longrightarrow> lt_saveIfNeccesary C l = Inr (u, l') \<Longrightarrow> lt_reachable C l'"
| written: "lt_reachable C l \<Longrightarrow> lt_write C canOpen u l = Inr (r, l') \<Longrightarrow> lt_reachable C l'"
| saved: "lt_reachable C l \<Longrightarrow> lt_saved now l = (r, l') \<Longrightarrow> lt_reachable C l'"
| added: "lt_reachable C l \<Longrightarrow> addParticipant p l = Inr l' \<Longrightarrow> lt_reachable C l'"
| erased: "lt_reachable C l \<Longrightarrow> lt_reachable C (eraseParticipant p l)"
| category: "lt_reachable C l \<Longrightarrow> subscribeCategory p c l = Inr l' \<Longrightarrow> lt_reachable C l'"
| player: "lt_reachable C l \<Longrightarrow> subscribePlayer p i l = Inr l' \<Longrightarrow> lt_reachable C l'"
| tatami: "lt_reachable C l \<Longrightarrow> subscribeTatami p n l = Inr l' \<Longrightarrow> lt_reachable C l'"
| owned: "lt_reachable C l \<Longrightarrow> lt_reachable C (setOwner p l)"
| left: "lt_reachable C l \<Longrightarrow> lt_reachable C (clearOwner l)"

lemma participants_keep:
  "addParticipant p l = Inr l' \<Longrightarrow> (mLoadedStore l', mActionList l', mActionIds l') = (mLoadedStore l, mActionList l, mActionIds l)"
  "subscribeCategory p c l = Inr l' \<Longrightarrow> (mLoadedStore l', mActionList l', mActionIds l') = (mLoadedStore l, mActionList l, mActionIds l)"
  "subscribePlayer p i l = Inr l' \<Longrightarrow> (mLoadedStore l', mActionList l', mActionIds l') = (mLoadedStore l, mActionList l, mActionIds l)"
  "subscribeTatami p n l = Inr l' \<Longrightarrow> (mLoadedStore l', mActionList l', mActionIds l') = (mLoadedStore l, mActionList l, mActionIds l)"
  by (auto simp: addParticipant_def subscribeCategory_def subscribePlayer_def subscribeTatami_def deliver_def Let_def)

lemma saving_keeps:
  "lt_saveIfNeccesary C l = Inr (u, l') \<Longrightarrow> (mLoadedStore l', mActionList l', mActionIds l') = (mLoadedStore l, mActionList l, mActionIds l)"
  "lt_write C canOpen v l = Inr (r, l') \<Longrightarrow> (mLoadedStore l', mActionList l', mActionIds l') = (mLoadedStore l, mActionList l, mActionIds l)"
  by (auto simp: lt_saveIfNeccesary_def lt_save_def lt_write_def split: if_splits option.splits)

lemma loaded_inv_same:
  "\<exists>base. web_field_changes.loaded_inv base l \<Longrightarrow>
   (mLoadedStore l', mActionList l', mActionIds l') = (mLoadedStore l, mActionList l, mActionIds l) \<Longrightarrow>
   \<exists>base. web_field_changes.loaded_inv base l'"
  by (simp add: web_field_changes.loaded_inv_def)

lemma load_result:
  assumes "lt_load C now l = Inr (True, l')"
  shows "\<exists>diff t w. (\<exists>u. deserialize C u = Some (diff, t)) \<and> flushWebTatamiModels (newWebTournamentStore\<lparr>webTournament := t\<rparr>) = Inr w \<and>
    mLoadedStore l' = Some w \<and> webTournament w = t \<and> mClockDiff l' = diff \<and> mActionList l' = [] \<and> mActionIds l' = {}"
proof -
  from assms obtain diff t u l1 where u: "deserialize C u = Some (diff, t)"
    and l1: "flushModels (l\<lparr>mClockDiff := diff, mLoadedStore := Some (newWebTournamentStore\<lparr>webTournament := t\<rparr>)\<rparr>) = Inr l1"
    and l': "l' = l1\<lparr>mActionIds := {}, mActionList := [], mSynchronizationTime := now\<rparr>"
    by (auto simp: lt_load_def split: if_splits option.splits)
  from flushModels_keeps[OF l1] l' u show ?thesis by auto
qed

lemma lt_reachable_inv: "lt_reachable C l \<Longrightarrow> \<exists>base. web_field_changes.loaded_inv base l"
proof (induction rule: lt_reachable.induct)
  case (loaded now name content l)
  from load_result[OF loaded] obtain w t where w: "flushWebTatamiModels (newWebTournamentStore\<lparr>webTournament := t\<rparr>) = Inr w"
    "mLoadedStore l = Some w" "mActionList l = []" "mActionIds l = {}" by blast
  have "nothingErased (newWebTournamentStore\<lparr>webTournament := t\<rparr>)" by (simp add: nothingErased_def newWebTournamentStore_def)
  from web_field_changes.wok_flush[OF this w(1)] w(2-4) have "web_field_changes.loaded_inv (webTournament w) l"
    by (simp add: web_field_changes.loaded_inv_def)
  then show ?case by blast
next
  case (dispatched l a i now r l')
  then show ?case using web_field_changes.dispatch_loaded unfolding webFieldChanges_def by blast
next
  case (undone l now i r l')
  then obtain base where inv: "web_field_changes.loaded_inv base l" by blast
  show ?case
  proof (cases "i \<in> mActionIds l")
    case True
    then show ?thesis using web_field_changes.undo_loaded[OF inv True] undone.hyps(2) unfolding webFieldChanges_def by blast
  next
    case False
    then show ?thesis using inv undone.hyps(2) by (auto simp: lt_undo_def)
  qed
next
  case (saved l now r l')
  then show ?case by (intro loaded_inv_same[OF saved.IH]) (auto simp: lt_saved_def)
next
  case (erased l p)
  then show ?case by (intro loaded_inv_same[OF erased.IH]) (simp add: eraseParticipant_def)
next
  case (owned l p)
  then show ?case by (intro loaded_inv_same[OF owned.IH]) (simp add: setOwner_def)
next
  case (left l)
  then show ?case by (intro loaded_inv_same[OF left.IH]) (simp add: clearOwner_def)
qed (rule loaded_inv_same, assumption, erule participants_keep saving_keeps)+

lemma history_done: "list_all (isDone \<circ> snd) xs \<Longrightarrow> history I xs = labels I xs"
  by (induction xs) (auto simp: history_def labels_def)

definition tournamentOf :: "'a LoadedTournament \<Rightarrow> TournamentStore" where
  "tournamentOf l = webTournament (the (mLoadedStore l))"

text \<open>
  A codec that stores one tournament, with a header of two sizes below 256; the tournament it loads, and the same tournament after
  an action that renames it.
\<close>

definition exampleCodec :: Codec where
  "exampleCodec = \<lparr>
     serialize = (\<lambda>x. if x = (0, newTournamentStore 0) then Some ''empty'' else None),
     deserialize = (\<lambda>s. if s = ''empty'' then Some (0, newTournamentStore 0) else None),
     decodeClock = (\<lambda>s. if s = ''empty'' then Some 0 else None),
     compress = Some, decompress = (\<lambda>n. Some),
     encodeHeader = (\<lambda>(n, m). if n < 256 \<and> m < 256 then Some (char_of n # char_of m # replicate 15 CHR 0x00) else None),
     decodeHeader = (\<lambda>h. Some (of_char (h ! 0), of_char (h ! 1)))\<rparr>"

definition exampleFile :: string where
  "exampleFile = CHR 0x05 # CHR 0x05 # replicate 15 CHR 0x00 @ ''empty''"

definition exampleLoaded :: "FieldChange LoadedTournament" where
  "exampleLoaded = (newLoadedTournament ''open'' (Some exampleFile))
     \<lparr>mLoadedStore := Some (newWebTournamentStore\<lparr>mResettingTatamis := False\<rparr>)\<rparr>"

definition exampleDispatched :: "FieldChange LoadedTournament" where
  "exampleDispatched = exampleLoaded
     \<lparr>mLoadedStore := Some (newWebTournamentStore\<lparr>mResettingTatamis := False, webTournament := (newTournamentStore 0)\<lparr>mName := ''Open''\<rparr>\<rparr>),
      mActionList := [(ClientActionId 1 5, Action True (TournamentName \<lparr>mNewField = ''Open'', mOldField = ''''\<rparr>))],
      mActionIds := {ClientActionId 1 5}, mDatabaseUpdates := [(''open'', ''Open'', '''', '''')]\<rparr>"

lemmas loaded_defs = exampleLoaded_def exampleDispatched_def newLoadedTournament_def newWebTournamentStore_def newTournamentStore_def newTatamiList_def
  pm_new_def theStore_def flushModels_def flushWebTatamiModels_def tatamiCount_def pm_size_def deliverChanges_def clearStoreChanges_def
  store_clearChanges_def forModels_def updateDatabase_def changeTournament_def

lemma exampleLoaded_reachable: "lt_reachable exampleCodec exampleLoaded"
proof -
  have "lt_load exampleCodec 0 (newLoadedTournament ''open'' (Some exampleFile)) = Inr (True, exampleLoaded)"
    by (simp add: lt_load_def exampleCodec_def exampleFile_def readBytes_def FILE_HEADER_SIZE_def loaded_defs Let_def
        eval_nat_numeral)
  then show ?thesis by (rule lt_reachable.loaded)
qed

lemma exampleDispatched_reachable: "lt_reachable exampleCodec exampleDispatched"
proof -
  have "lt_dispatch webFieldChanges 0 (ClientActionId 1 5) (renaming ''Open'') exampleLoaded = Inr (True, exampleDispatched)"
    by (simp add: lt_dispatch_def webFieldChanges_def onWeb_def lt_trim_def loaded_defs renaming_simps Let_def)
  then show ?thesis by (rule lt_reachable.dispatched[OF exampleLoaded_reachable renaming_ready, rotated]) (simp add: loaded_defs)
qed

text \<open>
  C9. For a tournament that the web server has loaded from its file and that has not been synchronised since, and for actions on fields (the twelve classes of
  \<open>fieldChanges\<close>), an undo that the owner sends is as if the action had never been dispatched. Whatever such
  actions and undos the server has executed since it loaded the tournament, an undo of a listed action is accepted when its handler completes, and
  the tournament that browsers see afterwards is what the other actions of the list, in their order, make of the same base; an
  undo of any other identifier is refused and changes nothing.
\<close>
theorem web_undo_as_if_never_dispatched:
  assumes "lt_reachable C l" and "lt_undo webFieldChanges now i l = Inr (accepted, l')"
  shows "if i \<in> fst ` set (history fieldChanges (mActionList l))
    then accepted \<and> (\<exists>base. execute fieldChanges (history fieldChanges (mActionList l)) base = Inr (tournamentOf l) \<and>
      execute fieldChanges (without i (history fieldChanges (mActionList l))) base = Inr (tournamentOf l') \<and>
      history fieldChanges (mActionList l') = without i (history fieldChanges (mActionList l)))
    else \<not> accepted \<and> l' = l"
proof -
  from lt_reachable_inv[OF assms(1)] obtain base where inv: "web_field_changes.loaded_inv base l" by blast
  have exec: "execute fieldChanges (history fieldChanges (mActionList k)) base = Inr (tournamentOf k)"
    if "web_field_changes.loaded_inv base k" for k
    using that by (auto simp: web_field_changes.loaded_inv_def tournamentOf_def intro: replays_execute)
  have hist: "history fieldChanges (mActionList k) = labels fieldChanges (mActionList k)" if "web_field_changes.loaded_inv base k" for k
    using that by (simp add: web_field_changes.loaded_inv_def history_done)
  have ids: "i \<in> fst ` set (history fieldChanges (mActionList l)) \<longleftrightarrow> i \<in> mActionIds l"
    using inv hist[OF inv] by (simp add: web_field_changes.loaded_inv_def)
  show ?thesis
  proof (cases "i \<in> mActionIds l")
    case True
    from web_field_changes.undo_loaded[OF inv True] assms(2) have "accepted" and inv': "web_field_changes.loaded_inv base l'"
      and "labels fieldChanges (mActionList l') = without i (labels fieldChanges (mActionList l))"
      unfolding webFieldChanges_def by blast+
    then have "history fieldChanges (mActionList l') = without i (history fieldChanges (mActionList l))"
      using hist[OF inv] hist[OF inv'] by simp
    with \<open>accepted\<close> True ids exec[OF inv] exec[OF inv'] show ?thesis by auto
  next
    case False
    then show ?thesis using ids assms(2) by (auto simp: lt_undo_def)
  qed
qed

theorem web_undo_as_if_never_dispatched_witness:
  "\<exists>l'. lt_undo webFieldChanges 1 (ClientActionId 1 5) exampleDispatched = Inr (True, l') \<and>
     (\<exists>base. execute fieldChanges [] base = Inr (tournamentOf l')) \<and> history fieldChanges (mActionList l') = []"
proof -
  obtain r l' where r: "lt_undo webFieldChanges 1 (ClientActionId 1 5) exampleDispatched = Inr (r, l')"
    by (simp add: lt_undo_def finishUndo_def action_undo_def webFieldChanges_def onWeb_def loaded_defs fieldChanges_def
        ChangeTournamentNameAction_undo_def store_simps Let_def)
  have h: "history fieldChanges (mActionList exampleDispatched) = [(ClientActionId 1 5, impl (renaming ''Open''))]"
    by (simp add: exampleDispatched_def history_def renaming_simps)
  from web_undo_as_if_never_dispatched[OF exampleDispatched_reachable r] r show ?thesis unfolding h by auto
qed

text \<open>
  After a synchronisation the web server refuses the undo of every action it was synchronised with, since \<^verbatim>\<open>sync\<close> takes over
  the list of actions but not their identifiers.
\<close>
theorem synced_actions_cannot_be_undone:
  assumes "lt_sync now w actions diff (newLoadedTournament name file) = Inr (ok, l)" and "i \<in> fst ` set actions"
  shows "mActionList l = actions \<and> lt_undo webFieldChanges now' i l = Inr (False, l)"
proof -
  from assms(1) obtain l1 where f: "flushModels ((newLoadedTournament name file)\<lparr>mLoadedStore := Some w, mActionList := actions,
      mClockDiff := diff, mModificationTime := now\<rparr>) = Inr l1" and d: "deliverSync l1 = Inr l" by (auto simp: lt_sync_def)
  from flushModels_keeps[OF f] have "mActionIds l1 = {} \<and> mActionList l1 = actions" by (auto simp: newLoadedTournament_def)
  with d have "mActionIds l = {}" "mActionList l = actions"
    by (auto simp: deliverSync_def theStore_def clearStoreChanges_def updateDatabase_def split: option.splits)
  then show ?thesis by (simp add: lt_undo_def)
qed

theorem synced_actions_cannot_be_undone_witness:
  "\<exists>l. lt_sync 0 newWebTournamentStore [(ClientActionId 1 5, renaming ''Open'')] 0 (newLoadedTournament ''open'' None) = Inr (True, l) \<and>
     lt_undo webFieldChanges 1 (ClientActionId 1 5) l = Inr (False, l)"
proof -
  obtain l where l: "lt_sync 0 newWebTournamentStore [(ClientActionId 1 5, renaming ''Open'')] 0 (newLoadedTournament ''open'' None) = Inr (True, l)"
    by (simp add: lt_sync_def deliverSync_def loaded_defs)
  with synced_actions_cannot_be_undone[OF l, of "ClientActionId 1 5"] show ?thesis by auto
qed

subsection \<open>Saving and loading\<close>

text \<open>What is assumed of the serialisation and compression libraries: reading back what was written.\<close>

definition codec_ok :: "Codec \<Rightarrow> bool" where
  "codec_ok C \<longleftrightarrow> (\<forall>x s. serialize C x = Some s \<longrightarrow> deserialize C s = Some x) \<and>
     (\<forall>s c. compress C s = Some c \<longrightarrow> decompress C (length s) c = Some s) \<and>
     (\<forall>x h. encodeHeader C x = Some h \<longrightarrow> length h = FILE_HEADER_SIZE \<and> decodeHeader C h = Some x)"

text \<open>
  C31. A tournament that the web server saved is loaded as it was: when the three handlers of a save have succeeded, a server that
  opens the file later loads the same tournament with the same clock difference and an empty list of actions.
\<close>
theorem saved_tournament_loads:
  assumes "codec_ok C" and "lt_save C l = Inr (Some u, l1)" and "lt_write C True u l1 = Inr (True, l2)" and "lt_saved now l2 = (True, l3)"
    and "models_inv (newWebTournamentStore\<lparr>webTournament := tournamentOf l\<rparr>)"
  shows "\<exists>l'. lt_load C now' (newLoadedTournament name (mFile l3)) = Inr (True, l') \<and> tournamentOf l' = tournamentOf l \<and>
    mClockDiff l' = mClockDiff l \<and> mActionList l' = [] \<and> \<not> mFileInUse l3"
proof -
  from assms(2) obtain w where w: "mLoadedStore l = Some w" and u: "serialize C (mClockDiff l, webTournament w) = Some u"
    and l1: "l1 = l\<lparr>mFileInUse := True\<rparr>"
    by (auto simp: lt_save_def theStore_def split: if_splits option.splits)
  have t: "tournamentOf l = webTournament w" using w by (simp add: tournamentOf_def)
  from assms(3) obtain c h where c: "compress C u = Some c" and h: "encodeHeader C (length c, length u) = Some h"
    "length h = FILE_HEADER_SIZE" and l2: "l2 = l1\<lparr>mFile := Some (h @ c)\<rparr>"
    by (auto simp: lt_write_def split: option.splits)
  have stored: "mFile l3 = Some (h @ c)" "\<not> mFileInUse l3" using assms(4) l2 by (auto simp: lt_saved_def)
  have "readBytes FILE_HEADER_SIZE (h @ c) = h" "readBytes (length c) (drop FILE_HEADER_SIZE (h @ c)) = c"
    using h(2) by (simp_all add: readBytes_def)
  moreover have "decodeHeader C h = Some (length c, length u)" "decompress C (length u) c = Some u"
    "deserialize C u = Some (mClockDiff l, webTournament w)" using assms(1) u c h(1) by (auto simp: codec_ok_def)
  moreover from flushWebTatamiModels_shows[OF assms(5)] obtain w' where
    w': "flushWebTatamiModels (newWebTournamentStore\<lparr>webTournament := webTournament w\<rparr>) = Inr w'" unfolding t by blast
  moreover have "webTournament w' = webTournament w" using others_keep(5)[OF w'] by simp
  ultimately show ?thesis using stored t
    by (simp add: lt_load_def newLoadedTournament_def flushModels_def theStore_def tournamentOf_def)
qed

lemma exampleCodec_ok: "codec_ok exampleCodec"
  by (auto simp: codec_ok_def exampleCodec_def FILE_HEADER_SIZE_def split: if_splits)

theorem saved_tournament_loads_witness:
  "\<exists>u l1 l2 l3 l'. lt_save exampleCodec exampleLoaded = Inr (Some u, l1) \<and> lt_write exampleCodec True u l1 = Inr (True, l2) \<and>
     lt_saved 1 l2 = (True, l3) \<and> lt_load exampleCodec 2 (newLoadedTournament ''open'' (mFile l3)) = Inr (True, l') \<and>
     tournamentOf l' = newTournamentStore 0"
proof -
  have s: "lt_save exampleCodec exampleLoaded = Inr (Some ''empty'', exampleLoaded\<lparr>mFileInUse := True\<rparr>)"
    by (simp add: lt_save_def exampleCodec_def loaded_defs)
  obtain l2 where w: "lt_write exampleCodec True ''empty'' (exampleLoaded\<lparr>mFileInUse := True\<rparr>) = Inr (True, l2)"
    by (simp add: lt_write_def exampleCodec_def FILE_HEADER_SIZE_def)
  obtain l3 where l3: "lt_saved 1 l2 = (True, l3)" by (simp add: lt_saved_def)
  have "models_inv (newWebTournamentStore\<lparr>webTournament := tournamentOf exampleLoaded\<rparr>)"
    by (simp add: models_inv_def tournamentOf_def pm_inv_def loaded_defs)
  from saved_tournament_loads[OF exampleCodec_ok s w l3 this] s w l3 show ?thesis
    by (auto simp: tournamentOf_def loaded_defs)
qed

end
