(* ===== verification/Web_Database.thy ===== *)
theory Web_Database
  imports Json_Encoder
begin

section \<open>The database of the web server\<close>

text \<open>
  Models \<^verbatim>\<open>src/web/database.cpp\<close> and the response types of \<^verbatim>\<open>src/core/web/web_types.hpp\<close>. The two tables of the schema
  (\<^verbatim>\<open>alembic/versions\<close>) are lists of rows, and a query is what it means on them: \<^verbatim>\<open>select\<close> filters, \<^verbatim>\<open>update\<close> maps the rows it
  names, \<^verbatim>\<open>insert\<close> appends. The columns \<^verbatim>\<open>email\<close> and \<^verbatim>\<open>web_name\<close> are unique and \<^verbatim>\<open>owner\<close> refers to a user, as the schema says.

  PostgreSQL and Botan are arguments: \<open>ok n\<close> tells whether the \<open>n\<close>th transaction of a call goes through (an exception of
  \<^verbatim>\<open>pqxx\<close> otherwise), \<open>check_bcrypt\<close> and a generated hash stand for bcrypt, \<open>parseDate\<close> and \<open>showDate\<close> for the conversion of
  dates by the server of the database. Points in time are seconds of the universal clock, dates are days. The calls run on
  one strand, so each is a step on the tables; its result is what the callback gets.
\<close>

subsection \<open>Response types\<close>

type_synonym WebToken = "8 word list"

datatype UserRegistrationResponse = USER_SERVER_ERROR | USER_EMAIL_EXISTS | USER_INVALID_PASSWORD | USER_SUCCESSFUL

datatype WebTokenRequestResponse = TOKEN_SERVER_ERROR | TOKEN_INCORRECT_CREDENTIALS | TOKEN_SUCCESSFUL

datatype WebTokenValidationResponse = VALIDATION_SERVER_ERROR | VALIDATION_EXPIRED_TOKEN | VALIDATION_INVALID_TOKEN | VALIDATION_SUCCESSFUL

datatype WebNameCheckResponse =
  CHECK_SERVER_ERROR | CHECK_OCCUPIED_OTHER_USER | CHECK_OCCUPIED_SAME_TOURNAMENT | CHECK_OCCUPIED_OTHER_TOURNAMENT | CHECK_FREE

datatype WebNameRegistrationResponse = NAME_SERVER_ERROR | NAME_SUCCESSFUL | NAME_OCCUPIED_OTHER_USER

subsection \<open>Tables\<close>

record UserRow =
  user_id :: int
  user_email :: string
  password_hash :: string
  user_token :: "WebToken option"
  token_expiration :: "int option"

record TournamentRow =
  row_owner :: int
  row_tournament_id :: TournamentId
  row_web_name :: string
  row_synced :: bool
  row_save_time :: "int option"
  row_name :: "string option"
  row_location :: "string option"
  row_date :: "int option"

record Database =
  users :: "UserRow list"
  tournaments :: "TournamentRow list"
  next_user_id :: int

definition newDatabase :: Database where
  "newDatabase = \<lparr>users = [], tournaments = [], next_user_id = 1\<rparr>"

definition usersNamed :: "string \<Rightarrow> Database \<Rightarrow> UserRow list" where
  "usersNamed email db = filter (\<lambda>u. user_email u = email) (users db)"

definition tournamentsNamed :: "string \<Rightarrow> Database \<Rightarrow> TournamentRow list" where
  "tournamentsNamed webName db = filter (\<lambda>r. row_web_name r = webName) (tournaments db)"

definition updateNamed :: "string \<Rightarrow> (TournamentRow \<Rightarrow> TournamentRow) \<Rightarrow> Database \<Rightarrow> Database" where
  "updateNamed webName f db = db\<lparr>tournaments := map (\<lambda>r. if row_web_name r = webName then f r else r) (tournaments db)\<rparr>"

subsection \<open>Users\<close>

definition TOKEN_DURATION :: int where
  "TOKEN_DURATION = 30"

definition generateWebTokenExpiration :: "int \<Rightarrow> int" where
  "generateWebTokenExpiration now = now"

definition validateWebTokenExpiration :: "int \<Rightarrow> int \<Rightarrow> bool" where
  "validateWebTokenExpiration now expiration = (let max_time = now + TOKEN_DURATION * 86400 in expiration \<le> max_time)"

definition hasUser :: "string \<Rightarrow> Database \<Rightarrow> bool" where
  "hasUser email db = (length (usersNamed email db) > 0)"

definition checkPassword :: "(string \<Rightarrow> string \<Rightarrow> bool) \<Rightarrow> string \<Rightarrow> string \<Rightarrow> Database \<Rightarrow> bool" where
  "checkPassword check_bcrypt email password db =
     (case usersNamed email db of [] \<Rightarrow> False | u # _ \<Rightarrow> check_bcrypt password (password_hash u))"

text \<open>\<open>r[0][1].as<std::string>()\<close> throws on an empty expiration, which is reported as a server error.\<close>

definition validateWebToken ::
  "(nat \<Rightarrow> bool) \<Rightarrow> int \<Rightarrow> string \<Rightarrow> WebToken \<Rightarrow> Database \<Rightarrow> WebTokenValidationResponse \<times> int option" where
  "validateWebToken ok now email token db =
     (if \<not> ok 0 then (VALIDATION_SERVER_ERROR, None)
      else case filter (\<lambda>u. user_token u = Some token) (usersNamed email db) of
        [] \<Rightarrow> (VALIDATION_INVALID_TOKEN, None)
      | u # _ \<Rightarrow>
          (case token_expiration u of
             None \<Rightarrow> (VALIDATION_SERVER_ERROR, None)
           | Some expiration \<Rightarrow>
               if \<not> validateWebTokenExpiration now expiration then (VALIDATION_EXPIRED_TOKEN, Some (user_id u))
               else (VALIDATION_SUCCESSFUL, Some (user_id u))))"

definition registerUser ::
  "(nat \<Rightarrow> bool) \<Rightarrow> int \<Rightarrow> WebToken \<Rightarrow> string \<Rightarrow> string \<Rightarrow> Database \<Rightarrow>
   (UserRegistrationResponse \<times> WebToken option \<times> int option) \<times> Database" where
  "registerUser ok now token passwordHash email db =
     (if \<not> ok 0 then ((USER_SERVER_ERROR, None, None), db)
      else if hasUser email db then ((USER_EMAIL_EXISTS, None, None), db)
      else if \<not> ok 1 then ((USER_SERVER_ERROR, None, None), db)
      else ((USER_EMAIL_EXISTS, Some token, Some (next_user_id db)),
        db\<lparr>users := users db @ [\<lparr>user_id = next_user_id db, user_email = email, password_hash = passwordHash,
                                user_token = Some token, token_expiration = Some (generateWebTokenExpiration now)\<rparr>],
           next_user_id := next_user_id db + 1\<rparr>))"

definition setToken :: "WebToken \<Rightarrow> int \<Rightarrow> string \<Rightarrow> Database \<Rightarrow> Database" where
  "setToken token expiration email db =
     db\<lparr>users := map (\<lambda>u. if user_email u = email then u\<lparr>user_token := Some token, token_expiration := Some expiration\<rparr> else u) (users db)\<rparr>"

definition requestWebToken ::
  "(string \<Rightarrow> string \<Rightarrow> bool) \<Rightarrow> (nat \<Rightarrow> bool) \<Rightarrow> int \<Rightarrow> WebToken \<Rightarrow> string \<Rightarrow> string \<Rightarrow> Database \<Rightarrow>
   (WebTokenRequestResponse \<times> WebToken option \<times> int option) \<times> Database" where
  "requestWebToken check_bcrypt ok now token email password db =
     (if \<not> ok 0 then ((TOKEN_SERVER_ERROR, None, None), db)
      else if \<not> checkPassword check_bcrypt email password db then ((TOKEN_INCORRECT_CREDENTIALS, None, None), db)
      else if \<not> ok 1 then ((TOKEN_SERVER_ERROR, None, None), db)
      else let db' = setToken token (generateWebTokenExpiration now) email db
           in ((TOKEN_SUCCESSFUL, Some token, Some (user_id (hd (usersNamed email db')))), db'))"

subsection \<open>Tournaments\<close>

definition checkWebName :: "(nat \<Rightarrow> bool) \<Rightarrow> int \<Rightarrow> TournamentId \<Rightarrow> string \<Rightarrow> Database \<Rightarrow> WebNameCheckResponse" where
  "checkWebName ok userId i webName db =
     (if \<not> ok 0 then CHECK_SERVER_ERROR
      else case tournamentsNamed webName db of
        [] \<Rightarrow> CHECK_FREE
      | r # _ \<Rightarrow>
          if row_owner r \<noteq> userId then CHECK_OCCUPIED_OTHER_USER
          else if row_tournament_id r \<noteq> i then CHECK_OCCUPIED_OTHER_TOURNAMENT
          else CHECK_OCCUPIED_SAME_TOURNAMENT)"

text \<open>An insertion whose owner is no user violates the foreign key, which is an exception too.\<close>

definition insertTournament :: "int \<Rightarrow> TournamentId \<Rightarrow> string \<Rightarrow> Database \<Rightarrow> Database option" where
  "insertTournament userId i webName db =
     (if userId \<in> set (map user_id (users db))
      then Some (db\<lparr>tournaments := tournaments db @ [\<lparr>row_owner = userId, row_tournament_id = i, row_web_name = webName, row_synced = False,
             row_save_time = None, row_name = None, row_location = None, row_date = None\<rparr>]\<rparr>)
      else None)"

definition registerWebName ::
  "(nat \<Rightarrow> bool) \<Rightarrow> int \<Rightarrow> TournamentId \<Rightarrow> string \<Rightarrow> Database \<Rightarrow> WebNameRegistrationResponse \<times> Database" where
  "registerWebName ok userId i webName db =
     (if \<not> ok 0 then (NAME_SERVER_ERROR, db)
      else case tournamentsNamed webName db of
        [] \<Rightarrow>
          (if \<not> ok 1 then (NAME_SERVER_ERROR, db)
           else case insertTournament userId i webName db of
                  None \<Rightarrow> (NAME_SERVER_ERROR, db)
                | Some db' \<Rightarrow> (NAME_SUCCESSFUL, db'))
      | r # _ \<Rightarrow>
          if row_owner r \<noteq> userId then (NAME_OCCUPIED_OTHER_USER, db)
          else if row_tournament_id r = i then (NAME_SUCCESSFUL, db)
          else if \<not> ok 1 then (NAME_SERVER_ERROR, db)
          else (NAME_SUCCESSFUL, updateNamed webName (\<lambda>r. r\<lparr>row_synced := False, row_tournament_id := i\<rparr>) db))"

definition setSynced :: "(nat \<Rightarrow> bool) \<Rightarrow> string \<Rightarrow> Database \<Rightarrow> bool \<times> Database" where
  "setSynced ok webName db =
     (if \<not> ok 0 then (False, db)
      else (length (tournamentsNamed webName db) > 0, updateNamed webName (\<lambda>r. r\<lparr>row_synced := True\<rparr>) db))"

definition setSaveTime :: "(nat \<Rightarrow> bool) \<Rightarrow> string \<Rightarrow> int \<Rightarrow> Database \<Rightarrow> bool \<times> Database" where
  "setSaveTime ok webName time db =
     (if \<not> ok 0 then (False, db)
      else (length (tournamentsNamed webName db) > 0, updateNamed webName (\<lambda>r. r\<lparr>row_save_time := Some time\<rparr>) db))"

definition getSaveStatus :: "(nat \<Rightarrow> bool) \<Rightarrow> string \<Rightarrow> Database \<Rightarrow> bool" where
  "getSaveStatus ok webName db =
     (ok 0 \<and> filter (\<lambda>r. row_synced r \<and> row_save_time r \<noteq> None) (tournamentsNamed webName db) \<noteq> [])"

text \<open>A text that is no date makes the query fail.\<close>

definition updateTournament ::
  "(string \<Rightarrow> int option) \<Rightarrow> (nat \<Rightarrow> bool) \<Rightarrow> string \<Rightarrow> string \<Rightarrow> string \<Rightarrow> string \<Rightarrow> Database \<Rightarrow> bool \<times> Database" where
  "updateTournament parseDate ok webName name location date db =
     (if \<not> ok 0 then (False, db)
      else case parseDate date of
        None \<Rightarrow> (False, db)
      | Some day \<Rightarrow> (length (tournamentsNamed webName db) > 0,
          updateNamed webName (\<lambda>r. r\<lparr>row_name := Some name, row_location := Some location, row_date := Some day\<rparr>) db))"

text \<open>Reading an empty column as a string throws, so that the listing fails.\<close>

definition readListing :: "(int \<Rightarrow> string) \<Rightarrow> TournamentRow \<Rightarrow> TournamentListing option" where
  "readListing showDate r =
     (case (row_name r, row_location r, row_date r) of
        (Some name, Some location, Some day) \<Rightarrow>
          Some \<lparr>listing_webName = row_web_name r, listing_name = name, listing_location = location, listing_date = showDate day\<rparr>
      | _ \<Rightarrow> None)"

definition datedRows :: "(int \<Rightarrow> bool) \<Rightarrow> Database \<Rightarrow> TournamentRow list" where
  "datedRows P db = filter (\<lambda>r. case row_date r of None \<Rightarrow> False | Some day \<Rightarrow> P day) (tournaments db)"

fun readListings :: "(int \<Rightarrow> string) \<Rightarrow> TournamentRow list \<Rightarrow> TournamentListing list option" where
  "readListings showDate [] = Some []"
| "readListings showDate (r # rs) =
     (case readListing showDate r of
        None \<Rightarrow> None
      | Some l \<Rightarrow> (case readListings showDate rs of None \<Rightarrow> None | Some ls \<Rightarrow> Some (l # ls)))"

definition listTournaments ::
  "(int \<Rightarrow> string) \<Rightarrow> (nat \<Rightarrow> bool) \<Rightarrow> int \<Rightarrow> Database \<Rightarrow> (TournamentListing list \<times> TournamentListing list) option" where
  "listTournaments showDate ok current_date db =
     (if \<not> ok 0 then None
      else let upcomingResult = take 20 (sort_key (\<lambda>r. the (row_date r)) (datedRows (\<lambda>day. day \<ge> current_date) db));
               pastResult = take 20 (sort_key (\<lambda>r. - the (row_date r)) (datedRows (\<lambda>day. day < current_date) db))
           in case readListings showDate upcomingResult of
                None \<Rightarrow> None
              | Some upcoming \<Rightarrow> (case readListings showDate pastResult of None \<Rightarrow> None | Some past \<Rightarrow> Some (past, upcoming)))"

subsection \<open>Invariant of the tables\<close>

definition ownerOf :: "string \<Rightarrow> Database \<Rightarrow> int option" where
  "ownerOf webName db = map_of (map (\<lambda>r. (row_web_name r, row_owner r)) (tournaments db)) webName"

definition userOf :: "string \<Rightarrow> Database \<Rightarrow> int option" where
  "userOf email db = map_of (map (\<lambda>u. (user_email u, user_id u)) (users db)) email"

definition listable :: "TournamentRow \<Rightarrow> bool" where
  "listable r \<longleftrightarrow> row_date r \<noteq> None \<longrightarrow> row_name r \<noteq> None \<and> row_location r \<noteq> None"

definition db_inv :: "Database \<Rightarrow> bool" where
  "db_inv db \<longleftrightarrow>
     distinct (map user_email (users db)) \<and> distinct (map user_id (users db)) \<and> (\<forall>u \<in> set (users db). user_id u < next_user_id db) \<and>
     distinct (map row_web_name (tournaments db)) \<and> row_owner ` set (tournaments db) \<subseteq> user_id ` set (users db) \<and>
     (\<forall>r \<in> set (tournaments db). listable r)"

text \<open>The calls that change the tables, whatever their arguments and the fate of their transactions.\<close>

inductive db_step :: "Database \<Rightarrow> Database \<Rightarrow> bool" where
  step_registerUser: "db_step db (snd (registerUser ok now token passwordHash email db))"
| step_requestWebToken: "db_step db (snd (requestWebToken check_bcrypt ok now token email password db))"
| step_registerWebName: "db_step db (snd (registerWebName ok userId i webName db))"
| step_setSynced: "db_step db (snd (setSynced ok webName db))"
| step_setSaveTime: "db_step db (snd (setSaveTime ok webName time db))"
| step_updateTournament: "db_step db (snd (updateTournament parseDate ok webName name location date db))"

text \<open>What a step may do to the tables.\<close>

definition keepsRows :: "(TournamentRow \<Rightarrow> TournamentRow) \<Rightarrow> bool" where
  "keepsRows f \<longleftrightarrow> (\<forall>r. row_web_name (f r) = row_web_name r \<and> row_owner (f r) = row_owner r \<and> (listable r \<longrightarrow> listable (f r)))"

lemma map_of_update:
  assumes "\<And>r. k (f r) = k r" and "\<And>r. v (f r) = v r"
  shows "map (\<lambda>r. (k r, v r)) (map (\<lambda>r. if P r then f r else r) rs) = map (\<lambda>r. (k r, v r)) rs"
  using assms by simp

lemma updateNamed_keeps:
  assumes "keepsRows f"
  shows "ownerOf w (updateNamed webName f db) = ownerOf w db" and "users (updateNamed webName f db) = users db"
    and "next_user_id (updateNamed webName f db) = next_user_id db"
    and "db_inv db \<Longrightarrow> db_inv (updateNamed webName f db)"
proof -
  have f: "row_web_name (f r) = row_web_name r" "row_owner (f r) = row_owner r" "listable r \<Longrightarrow> listable (f r)" for r
    using assms by (auto simp: keepsRows_def)
  show "ownerOf w (updateNamed webName f db) = ownerOf w db"
    by (simp add: ownerOf_def updateNamed_def map_of_update f del: map_map)
  show "users (updateNamed webName f db) = users db" and "next_user_id (updateNamed webName f db) = next_user_id db"
    by (simp_all add: updateNamed_def)
  have names: "map (\<lambda>r. g (if row_web_name r = webName then f r else r)) rs = map g rs" if "\<And>r. g (f r) = g r" for g rs
    using that by simp
  show "db_inv (updateNamed webName f db)" if "db_inv db"
    using that by (auto simp: db_inv_def updateNamed_def comp_def f names image_subset_iff)
qed

lemma tournamentsNamed_Nil: "tournamentsNamed w db = [] \<longleftrightarrow> ownerOf w db = None"
  by (auto simp: tournamentsNamed_def ownerOf_def filter_empty_conv map_of_eq_None_iff image_iff)

lemma tournamentsNamed_Cons: "tournamentsNamed w db = r # rs \<Longrightarrow> ownerOf w db = Some (row_owner r)"
proof (unfold tournamentsNamed_def ownerOf_def, induction "tournaments db" arbitrary: db)
  case (Cons x xs)
  then show ?case using Cons.hyps(1)[of "db\<lparr>tournaments := xs\<rparr>"] by (auto split: if_splits simp flip: Cons.hyps(2))
qed simp

lemma keepsRows_intros:
  "keepsRows (\<lambda>r. r\<lparr>row_synced := b\<rparr>)"
  "keepsRows (\<lambda>r. r\<lparr>row_synced := b, row_tournament_id := i\<rparr>)"
  "keepsRows (\<lambda>r. r\<lparr>row_save_time := t\<rparr>)"
  "keepsRows (\<lambda>r. r\<lparr>row_name := Some n, row_location := Some l, row_date := d\<rparr>)"
  by (simp_all add: keepsRows_def listable_def)

lemma setToken_keeps:
  "map user_email (users (setToken token e email db)) = map user_email (users db)"
  "map user_id (users (setToken token e email db)) = map user_id (users db)"
  "tournaments (setToken token e email db) = tournaments db" "next_user_id (setToken token e email db) = next_user_id db"
  by (simp_all add: setToken_def)

lemma db_inv_cong:
  assumes "map user_email (users db') = map user_email (users db)" "map user_id (users db') = map user_id (users db)"
    "tournaments db' = tournaments db" "next_user_id db' = next_user_id db" "db_inv db"
  shows "db_inv db'"
proof -
  have ids: "user_id ` set (users db') = user_id ` set (users db)"
    using arg_cong[OF assms(2), of set] by simp
  have "(\<forall>u \<in> set (users db'). user_id u < n) \<longleftrightarrow> (\<forall>u \<in> set (users db). user_id u < n)" for n
    using arg_cong[OF ids, of "\<lambda>A. \<forall>i \<in> A. i < n"] by simp
  then show ?thesis using assms ids by (simp add: db_inv_def)
qed

lemma setToken_inv: "db_inv db \<Longrightarrow> db_inv (setToken token e email db)"
  by (rule db_inv_cong[of _ db]) (simp_all add: setToken_keeps)

lemma registerUser_inv: "db_inv db \<Longrightarrow> db_inv (snd (registerUser ok now token passwordHash email db))"
  by (fastforce simp: registerUser_def db_inv_def hasUser_def usersNamed_def filter_empty_conv image_iff)

lemma registerWebName_inv: "db_inv db \<Longrightarrow> db_inv (snd (registerWebName ok userId i webName db))"
  by (auto simp: registerWebName_def insertTournament_def updateNamed_keeps keepsRows_intros split: list.split)
    (auto simp: db_inv_def tournamentsNamed_def filter_empty_conv listable_def image_iff)

lemma db_step_inv: "db_step db db' \<Longrightarrow> db_inv db \<Longrightarrow> db_inv db'"
  by (induction rule: db_step.induct)
    (auto simp: registerUser_inv registerWebName_inv requestWebToken_def setSynced_def setSaveTime_def updateTournament_def Let_def
       updateNamed_keeps keepsRows_intros setToken_inv split: option.split)

lemma ownerOf_keeps:
  "ownerOf w (db\<lparr>users := us\<rparr>) = ownerOf w db" "ownerOf w (db\<lparr>users := us, next_user_id := n\<rparr>) = ownerOf w db"
  "ownerOf w (setToken token e email db) = ownerOf w db"
  "ownerOf w (db\<lparr>tournaments := tournaments db @ [r]\<rparr>) =
     (case ownerOf w db of Some u \<Rightarrow> Some u | None \<Rightarrow> if row_web_name r = w then Some (row_owner r) else None)"
  by (simp_all add: ownerOf_def setToken_keeps map_add_def split: option.split)

lemma db_step_ownerOf: "db_step db db' \<Longrightarrow> ownerOf w db = Some u \<Longrightarrow> ownerOf w db' = Some u"
  by (induction rule: db_step.induct)
    (auto simp: registerUser_def registerWebName_def insertTournament_def requestWebToken_def setSynced_def setSaveTime_def
       updateTournament_def Let_def updateNamed_keeps keepsRows_intros ownerOf_keeps split: option.split list.split)

lemma registerWebName_owner: "fst (registerWebName ok userId i w db) = NAME_SUCCESSFUL \<Longrightarrow> ownerOf w (snd (registerWebName ok userId i w db)) = Some userId"
  by (auto simp: registerWebName_def updateNamed_keeps keepsRows_intros tournamentsNamed_Cons split: if_splits list.splits option.splits)
    (auto simp: tournamentsNamed_Nil insertTournament_def ownerOf_keeps split: if_splits)

lemma db_steps_inv: "db_step\<^sup>*\<^sup>* db db' \<Longrightarrow> db_inv db \<Longrightarrow> db_inv db'"
  by (induction rule: rtranclp_induct) (auto intro: db_step_inv)

lemma db_steps_ownerOf: "db_step\<^sup>*\<^sup>* db db' \<Longrightarrow> ownerOf w db = Some u \<Longrightarrow> ownerOf w db' = Some u"
  by (induction rule: rtranclp_induct) (auto intro: db_step_ownerOf)

lemma newDatabase_inv: "db_inv newDatabase"
  by (simp add: db_inv_def newDatabase_def)

lemma registerWebName_other_user: "ownerOf w db = Some u \<Longrightarrow> v \<noteq> u \<Longrightarrow> fst (registerWebName ok v i w db) \<noteq> NAME_SUCCESSFUL"
  by (auto simp: registerWebName_def tournamentsNamed_Nil dest: tournamentsNamed_Cons split: list.split option.split)

lemma tournamentsNamed_updateNamed:
  assumes "keepsRows f"
  shows "tournamentsNamed w (updateNamed webName f db) = (if w = webName then map f else id) (tournamentsNamed w db)"
proof -
  have "filter (\<lambda>r. row_web_name r = w) (map (\<lambda>r. if row_web_name r = webName then f r else r) rs) =
      (if w = webName then map f else id) (filter (\<lambda>r. row_web_name r = w) rs)" for rs
    using assms by (induction rs) (auto simp: keepsRows_def)
  then show ?thesis by (simp add: tournamentsNamed_def updateNamed_def)
qed

lemma usersNamed_setToken:
  "usersNamed email (setToken token e email db) = map (\<lambda>u. u\<lparr>user_token := Some token, token_expiration := Some e\<rparr>) (usersNamed email db)"
proof -
  have "filter (\<lambda>u. user_email u = email) (map (\<lambda>u. if user_email u = email then u\<lparr>user_token := Some token, token_expiration := Some e\<rparr> else u) us) =
      map (\<lambda>u. u\<lparr>user_token := Some token, token_expiration := Some e\<rparr>) (filter (\<lambda>u. user_email u = email) us)" for us
    by (induction us) auto
  then show ?thesis by (simp add: usersNamed_def setToken_def)
qed

lemma usersNamed_Cons: "usersNamed email db = u # us \<Longrightarrow> userOf email db = Some (user_id u)"
proof (unfold usersNamed_def userOf_def, induction "users db" arbitrary: db)
  case (Cons x xs)
  then show ?case using Cons.hyps(1)[of "db\<lparr>users := xs\<rparr>"] by (auto split: if_splits simp flip: Cons.hyps(2))
qed simp

text \<open>With rows that the calls write, a listing is always complete.\<close>

lemma readListings_Some: "(\<And>r. r \<in> set rs \<Longrightarrow> listable r \<and> row_date r \<noteq> None) \<Longrightarrow> \<exists>ls. readListings showDate rs = Some ls \<and> length ls = length rs"
proof (induction rs)
  case (Cons r rs)
  have "listable r \<and> row_date r \<noteq> None" using Cons.prems by simp
  then obtain l where "readListing showDate r = Some l" by (auto simp: readListing_def listable_def)
  moreover obtain ls where "readListings showDate rs = Some ls" "length ls = length rs" using Cons by auto
  ultimately show ?case by simp
qed simp

lemma listTournaments_succeeds:
  assumes "db_inv db" and "ok 0"
  shows "\<exists>past upcoming. listTournaments showDate ok today db = Some (past, upcoming) \<and> length past \<le> 20 \<and> length upcoming \<le> 20"
proof -
  have rows: "listable r \<and> row_date r \<noteq> None" if "r \<in> set (take 20 (sort_key g (datedRows P db)))" for g :: "TournamentRow \<Rightarrow> int" and P r
  proof -
    have "r \<in> set (datedRows P db)" using in_set_takeD[OF that] by simp
    then show ?thesis using assms(1) by (auto simp: datedRows_def db_inv_def split: option.splits)
  qed
  define upcomingResult where "upcomingResult = take 20 (sort_key (\<lambda>r. the (row_date r)) (datedRows (\<lambda>day. day \<ge> today) db))"
  define pastResult where "pastResult = take 20 (sort_key (\<lambda>r. - the (row_date r)) (datedRows (\<lambda>day. day < today) db))"
  obtain upcoming past where "readListings showDate upcomingResult = Some upcoming" "length upcoming = length upcomingResult"
      and "readListings showDate pastResult = Some past" "length past = length pastResult"
    using readListings_Some[of upcomingResult showDate] readListings_Some[of pastResult showDate] rows
    unfolding upcomingResult_def pastResult_def by blast
  then show ?thesis using assms(2) by (auto simp: listTournaments_def upcomingResult_def pastResult_def)
qed

subsection \<open>Properties\<close>

definition exampleDatabase :: Database where
  "exampleDatabase = snd (registerUser (\<lambda>_. True) 0 [1] ''h'' ''a'' newDatabase)"

lemma exampleDatabase_reachable: "db_step\<^sup>*\<^sup>* newDatabase exampleDatabase"
  unfolding exampleDatabase_def by (intro r_into_rtranclp db_step.intros)

text \<open>
  C25. Web names have one owner forever. Once a user has registered a web name, its owner stays the same through every
  later sequence of calls of the database, and a registration of the name by another user never succeeds.
\<close>

theorem web_name_owner_permanent:
  assumes "db_step\<^sup>*\<^sup>* newDatabase db" and "registerWebName ok userId i webName db = (NAME_SUCCESSFUL, db1)" and "db_step\<^sup>*\<^sup>* db1 db2"
  shows "db_inv db2 \<and> ownerOf webName db2 = Some userId \<and>
    (\<forall>otherUser ok j. otherUser \<noteq> userId \<longrightarrow> fst (registerWebName ok otherUser j webName db2) \<noteq> NAME_SUCCESSFUL)"
proof -
  have db1: "db1 = snd (registerWebName ok userId i webName db)" by (simp add: assms(2))
  have "ownerOf webName db2 = Some userId"
    using registerWebName_owner[of ok userId i webName db] assms by (auto intro: db_steps_ownerOf)
  moreover have "db_inv db2"
    using db_steps_inv[OF assms(1) newDatabase_inv] registerWebName_inv[of db] db_steps_inv[OF assms(3)] unfolding db1 by blast
  ultimately show ?thesis by (auto dest: registerWebName_other_user)
qed

lemma exampleRegistration:
  "registerWebName (\<lambda>_. True) 1 7 ''cup'' exampleDatabase = (NAME_SUCCESSFUL, snd (registerWebName (\<lambda>_. True) 1 7 ''cup'' exampleDatabase))"
  by (simp add: registerWebName_def exampleDatabase_def tournamentsNamed_def insertTournament_def registerUser_def newDatabase_def hasUser_def usersNamed_def)

theorem web_name_owner_permanent_witness:
  "ownerOf ''cup'' (snd (setSynced (\<lambda>_. True) ''cup'' (snd (registerWebName (\<lambda>_. True) 1 7 ''cup'' exampleDatabase)))) = Some 1"
  using web_name_owner_permanent[OF exampleDatabase_reachable exampleRegistration, OF r_into_rtranclp, OF step_setSynced[of _ "\<lambda>_. True" "''cup''"]] by blast

text \<open>
  Checking a web name predicts its registration. With a working database a registration by a known user succeeds
  exactly when the check does not report another user; then the check reports that the name belongs to this tournament,
  and the rows of all other names are as before; otherwise nothing changes.
\<close>

theorem web_name_check_predicts_registration:
  assumes "ok 0" and "ok 1" and "userId \<in> user_id ` set (users db)" and "registerWebName ok userId i webName db = (response, db')"
  shows "(response = NAME_SUCCESSFUL \<longleftrightarrow> checkWebName ok userId i webName db \<noteq> CHECK_OCCUPIED_OTHER_USER) \<and>
    (if response = NAME_SUCCESSFUL
     then checkWebName ok userId i webName db' = CHECK_OCCUPIED_SAME_TOURNAMENT \<and>
       (\<forall>w. w \<noteq> webName \<longrightarrow> tournamentsNamed w db' = tournamentsNamed w db)
     else db' = db)"
proof -
  show ?thesis
  proof (cases "tournamentsNamed webName db")
    case Nil
    then show ?thesis using assms
      by (auto simp: registerWebName_def checkWebName_def insertTournament_def tournamentsNamed_def)
  next
    case (Cons r rs)
    then show ?thesis using assms
      by (auto simp: registerWebName_def checkWebName_def tournamentsNamed_updateNamed keepsRows_intros split: if_splits)
  qed
qed

theorem web_name_check_predicts_registration_witness:
  "checkWebName (\<lambda>_. True) 1 7 ''cup'' (snd (registerWebName (\<lambda>_. True) 1 7 ''cup'' exampleDatabase)) = CHECK_OCCUPIED_SAME_TOURNAMENT"
  using web_name_check_predicts_registration[of "\<lambda>_. True" 1 exampleDatabase 7 "''cup''", OF TrueI TrueI _ exampleRegistration]
  by (simp add: exampleDatabase_def registerUser_def newDatabase_def hasUser_def usersNamed_def)

text \<open>
  A web token never expires. The expiration that is stored with a token is the time of its creation, and a token
  counts as expired only if that time is more than thirty days in the future: every token that was handed out is
  accepted at every later time.
\<close>

theorem web_token_never_expires:
  assumes "requestWebToken check_bcrypt ok time token email password db = ((TOKEN_SUCCESSFUL, Some token', user), db')"
    and "time \<le> now" and "ok' 0"
  shows "validateWebToken ok' now email token' db' = (VALIDATION_SUCCESSFUL, user) \<and> user = userOf email db"
proof -
  have pw: "checkPassword check_bcrypt email password db" and token: "token' = token"
      and db': "db' = setToken token time email db" and user: "user = Some (user_id (hd (usersNamed email db')))"
    using assms(1) by (auto simp: requestWebToken_def generateWebTokenExpiration_def Let_def split: if_splits)
  obtain u us where us: "usersNamed email db = u # us" using pw by (auto simp: checkPassword_def split: list.splits)
  have us': "usersNamed email db' = map (\<lambda>u. u\<lparr>user_token := Some token, token_expiration := Some time\<rparr>) (u # us)"
    unfolding db' usersNamed_setToken us ..
  then have "user = Some (user_id u)" by (simp add: user)
  then show ?thesis using assms(2,3) usersNamed_Cons[OF us] us' token
    by (simp add: validateWebToken_def validateWebTokenExpiration_def TOKEN_DURATION_def)
qed

theorem web_token_never_expires_witness:
  "validateWebToken (\<lambda>_. True) 1000000000000 ''a'' [2] (snd (requestWebToken (\<lambda>p h. True) (\<lambda>_. True) 5 [2] ''a'' ''p'' exampleDatabase)) =
     (VALIDATION_SUCCESSFUL, Some 1)"
  using web_token_never_expires[of "\<lambda>p h. True" "\<lambda>_. True" 5 "[2]" "''a''" "''p''" exampleDatabase "[2]" "Some 1"
      "snd (requestWebToken (\<lambda>p h. True) (\<lambda>_. True) 5 [2] ''a'' ''p'' exampleDatabase)" 1000000000000 "\<lambda>_. True"]
  by (simp add: exampleDatabase_def registerUser_def newDatabase_def hasUser_def usersNamed_def requestWebToken_def checkPassword_def setToken_def Let_def)

end
