(* ===== verification/Tcp_Participant.thy ===== *)
theory Tcp_Participant
  imports Loaded_Actions Network_Client Web_Database
begin

section \<open>The connection of a tournament to the web server\<close>

text \<open>
  Models \<^verbatim>\<open>src/web/tcp_participant.hpp\<close> and \<^verbatim>\<open>tcp_participant.cpp\<close>: the protocol by which an application logs in, registers the
  web name of its tournament, synchronises the clocks and then sends the tournament and its actions.

  The class is a chain of asynchronous calls. \<open>mAwaiting\<close> is the call whose completion handler continues the chain, with what
  the handler captured; there is at most one. Beside the chain there are the write that is under way (\<open>mWriting\<close>), the
  deliveries that were posted on the strand (\<open>mPostedMessages\<close>) and a close that the server asks for. One function per handler
  gives the next state. A message is its decoded content, \<open>Garbled m\<close> a message with the type of \<open>m\<close> whose body does not decode.

  \<open>mTcpConnection\<close> tells whether \<^verbatim>\<open>mConnection\<close> is not null; a call through the null pointer is undefined behaviour. What the
  participant asks of the server and of the tournament at once, without waiting, is collected in \<open>mServerCalls\<close>.
\<close>

datatype 'a WebMessage =
    REQUEST_WEB_TOKEN string string
  | REQUEST_WEB_TOKEN_RESPONSE WebTokenRequestResponse "WebToken option"
  | VALIDATE_WEB_TOKEN string WebToken
  | VALIDATE_WEB_TOKEN_RESPONSE WebTokenValidationResponse
  | REGISTER_WEB_NAME TournamentId string
  | REGISTER_WEB_NAME_RESPONSE WebNameRegistrationResponse
  | CHECK_WEB_NAME TournamentId string
  | CHECK_WEB_NAME_RESPONSE WebNameCheckResponse
  | BASIC "('a, TournamentStore) NetworkMessage"

datatype 'a WebRead = ReadFailed | Garbled "'a WebMessage" | Decoded "'a WebMessage"

datatype TcpState = NOT_AUTHENTICATED | AUTHENTICATED | TOURNAMENT_SELECTED | CLOCK_SYNCED

datatype 'a Awaiting =
    NoCall
  | AuthRead
  | WebTokenCall string string
  | ValidationCall string WebToken
  | RegisterRead
  | RegistrationCall int TournamentId string
  | CheckCall int TournamentId string
  | ClockRead int
  | SyncRead
  | AcquireCall WebTournamentStore "'a ActionList"
  | FirstSyncCall WebTournamentStore "'a ActionList" int
  | ListenRead
  | UndoCall ClientActionId
  | DispatchCall ClientActionId "'a Action"
  | SyncCall WebTournamentStore "'a ActionList" int

datatype ServerCall = SetOwner string | ClearOwner string | SetSynced string | Leave bool

record 'a TCPParticipant =
  mTcpState :: TcpState
  mUserId :: "int option"
  mTcpWebName :: string
  mTcpTournament :: bool
  mTcpClockDiff :: int
  mClosePosted :: bool
  mTcpConnection :: bool
  mTcpQueue :: "'a WebMessage list"
  mPostedMessages :: "'a WebMessage list"
  mWriting :: bool
  mAwaiting :: "'a Awaiting"
  mServerCalls :: "ServerCall list"

definition newTCPParticipant :: "'a TCPParticipant" where
  "newTCPParticipant = \<lparr>mTcpState = NOT_AUTHENTICATED, mUserId = None, mTcpWebName = [], mTcpTournament = False, mTcpClockDiff = 0,
     mClosePosted = False, mTcpConnection = True, mTcpQueue = [], mPostedMessages = [], mWriting = False, mAwaiting = NoCall, mServerCalls = []\<rparr>"

subsection \<open>Reading, writing and closing\<close>

definition serverCall :: "ServerCall \<Rightarrow> 'a TCPParticipant \<Rightarrow> 'a TCPParticipant" where
  "serverCall c p = p\<lparr>mServerCalls := mServerCalls p @ [c]\<rparr>"

definition asyncRead :: "'a Awaiting \<Rightarrow> 'a TCPParticipant \<Rightarrow> 'a TCPParticipant result" where
  "asyncRead handler p = (if mTcpConnection p then Inr (p\<lparr>mAwaiting := handler\<rparr>) else Inl UndefinedBehaviour)"

definition releaseConnection :: "'a TCPParticipant \<Rightarrow> 'a TCPParticipant" where
  "releaseConnection p =
     (if mTcpTournament p then serverCall (ClearOwner (mTcpWebName p)) p else p)\<lparr>mTcpConnection := False\<rparr>"

text \<open>\<open>Leave\<close> tells whether the caller of \<^verbatim>\<open>asyncClose\<close> waits for a callback.\<close>

definition tcp_close :: "'a TCPParticipant \<Rightarrow> 'a TCPParticipant" where
  "tcp_close p = serverCall (Leave False) (releaseConnection p)"

definition tcp_asyncClose :: "'a TCPParticipant \<Rightarrow> 'a TCPParticipant" where
  "tcp_asyncClose p = serverCall (Leave True) (releaseConnection (p\<lparr>mClosePosted := True\<rparr>))"

definition tcp_write :: "'a TCPParticipant \<Rightarrow> 'a TCPParticipant result" where
  "tcp_write p = (if mTcpConnection p then Inr (p\<lparr>mWriting := True\<rparr>) else Inl UndefinedBehaviour)"

definition tcp_written :: "bool \<Rightarrow> 'a TCPParticipant \<Rightarrow> 'a TCPParticipant result" where
  "tcp_written ec p0 =
     (let p = p0\<lparr>mWriting := False\<rparr> in
      if mClosePosted p then Inr p
      else if ec then Inr (tcp_close p)
      else if mTcpQueue p = [] then Inl UndefinedBehaviour
      else let p1 = p\<lparr>mTcpQueue := tl (mTcpQueue p)\<rparr>
           in if mTcpQueue p1 \<noteq> [] then tcp_write p1 else Inr p1)"

definition tcp_deliver :: "'a WebMessage \<Rightarrow> 'a TCPParticipant \<Rightarrow> 'a TCPParticipant" where
  "tcp_deliver m p = p\<lparr>mPostedMessages := mPostedMessages p @ [m]\<rparr>"

text \<open>The task that \<^verbatim>\<open>deliver\<close> posts on the strand.\<close>

definition tcp_deliverPosted :: "'a WebMessage \<Rightarrow> 'a TCPParticipant \<Rightarrow> 'a TCPParticipant result" where
  "tcp_deliverPosted m p =
     (if mClosePosted p then Inr p
      else let writeInProgress = (mTcpQueue p \<noteq> []);
               p1 = p\<lparr>mTcpQueue := mTcpQueue p @ [m]\<rparr>
           in if \<not> writeInProgress then tcp_write p1 else Inr p1)"

subsection \<open>Logging in\<close>

definition asyncAuth :: "'a TCPParticipant \<Rightarrow> 'a TCPParticipant result" where
  "asyncAuth p = asyncRead AuthRead p"

definition onAuthRead :: "'a WebRead \<Rightarrow> 'a TCPParticipant \<Rightarrow> 'a TCPParticipant result" where
  "onAuthRead r p =
     assertE (mTcpState p = NOT_AUTHENTICATED)
       (if mClosePosted p then Inr p
        else case r of
            ReadFailed \<Rightarrow> Inr (tcp_close p)
          | Decoded (REQUEST_WEB_TOKEN email password) \<Rightarrow> Inr (p\<lparr>mAwaiting := WebTokenCall email password\<rparr>)
          | Garbled (REQUEST_WEB_TOKEN email password) \<Rightarrow> Inr (tcp_close p)
          | Decoded (VALIDATE_WEB_TOKEN email token) \<Rightarrow> Inr (p\<lparr>mAwaiting := ValidationCall email token\<rparr>)
          | Garbled (VALIDATE_WEB_TOKEN email token) \<Rightarrow> Inr (tcp_close p)
          | _ \<Rightarrow> Inr p)"

definition asyncTournamentRegister :: "'a TCPParticipant \<Rightarrow> 'a TCPParticipant result" where
  "asyncTournamentRegister p = assertE (mTcpState p = AUTHENTICATED) (asyncRead RegisterRead p)"

definition authenticated :: "bool \<Rightarrow> int option \<Rightarrow> 'a TCPParticipant \<Rightarrow> 'a TCPParticipant result" where
  "authenticated successful userId p =
     (if successful then asyncTournamentRegister (p\<lparr>mTcpState := AUTHENTICATED, mUserId := userId\<rparr>) else asyncAuth p)"

definition onWebToken :: "WebTokenRequestResponse \<Rightarrow> WebToken option \<Rightarrow> int option \<Rightarrow> 'a TCPParticipant \<Rightarrow> 'a TCPParticipant result" where
  "onWebToken response token userId p =
     assertE (mTcpState p = NOT_AUTHENTICATED)
       (if mClosePosted p then Inr p
        else authenticated (response = TOKEN_SUCCESSFUL) userId (tcp_deliver (REQUEST_WEB_TOKEN_RESPONSE response token) p))"

definition onValidation :: "WebTokenValidationResponse \<Rightarrow> int option \<Rightarrow> 'a TCPParticipant \<Rightarrow> 'a TCPParticipant result" where
  "onValidation response userId p =
     assertE (mTcpState p = NOT_AUTHENTICATED)
       (if mClosePosted p then Inr p
        else authenticated (response = VALIDATION_SUCCESSFUL) userId (tcp_deliver (VALIDATE_WEB_TOKEN_RESPONSE response) p))"

subsection \<open>Registering the web name\<close>

text \<open>\<^verbatim>\<open>*mUserId\<close> of an empty optional is undefined behaviour.\<close>

definition onRegisterRead :: "'a WebRead \<Rightarrow> 'a TCPParticipant \<Rightarrow> 'a TCPParticipant result" where
  "onRegisterRead r p =
     assertE (mTcpState p = AUTHENTICATED)
       (if mClosePosted p then Inr p
        else case r of
            ReadFailed \<Rightarrow> Inr (tcp_close p)
          | Decoded (REGISTER_WEB_NAME i webName) \<Rightarrow>
              (case mUserId p of
                 None \<Rightarrow> Inl UndefinedBehaviour
               | Some userId \<Rightarrow> Inr (p\<lparr>mAwaiting := RegistrationCall userId i webName\<rparr>))
          | Garbled (REGISTER_WEB_NAME i webName) \<Rightarrow> Inr (tcp_close p)
          | Decoded (CHECK_WEB_NAME i webName) \<Rightarrow>
              (case mUserId p of
                 None \<Rightarrow> Inl UndefinedBehaviour
               | Some userId \<Rightarrow> Inr (p\<lparr>mAwaiting := CheckCall userId i webName\<rparr>))
          | Garbled (CHECK_WEB_NAME i webName) \<Rightarrow> Inr (tcp_close p)
          | _ \<Rightarrow> Inr p)"

definition asyncClockSync :: "int \<Rightarrow> 'a TCPParticipant \<Rightarrow> 'a TCPParticipant result" where
  "asyncClockSync t1 p = asyncRead (ClockRead t1) (tcp_deliver (BASIC CLOCK_SYNC_REQUEST) p)"

definition onRegistration :: "int \<Rightarrow> string \<Rightarrow> WebNameRegistrationResponse \<Rightarrow> 'a TCPParticipant \<Rightarrow> 'a TCPParticipant result" where
  "onRegistration now webName response p =
     assertE (mTcpState p = AUTHENTICATED)
       (if mClosePosted p then Inr p
        else let p1 = tcp_deliver (REGISTER_WEB_NAME_RESPONSE response) p
             in if response = NAME_SUCCESSFUL
                then asyncClockSync now (p1\<lparr>mTcpState := TOURNAMENT_SELECTED, mTcpWebName := webName\<rparr>)
                else asyncTournamentRegister p1)"

definition onCheck :: "WebNameCheckResponse \<Rightarrow> 'a TCPParticipant \<Rightarrow> 'a TCPParticipant result" where
  "onCheck response p =
     assertE (mTcpState p = AUTHENTICATED)
       (if mClosePosted p then Inr p
        else asyncTournamentRegister (tcp_deliver (CHECK_WEB_NAME_RESPONSE response) p))"

subsection \<open>Synchronising the clocks and the tournament\<close>

definition asyncTournamentSync :: "'a TCPParticipant \<Rightarrow> 'a TCPParticipant result" where
  "asyncTournamentSync p = asyncRead SyncRead p"

text \<open>The handler does not look at its error code, and the type of a message that was not read is not initialised.\<close>

definition onClockRead :: "int \<Rightarrow> int \<Rightarrow> 'a WebRead \<Rightarrow> 'a TCPParticipant \<Rightarrow> 'a TCPParticipant result" where
  "onClockRead t1 t2 r p =
     (if mClosePosted p then Inr p
      else case r of
          ReadFailed \<Rightarrow> Inl UndefinedBehaviour
        | Decoded (BASIC (CLOCK_SYNC p1)) \<Rightarrow>
            asyncTournamentSync (p\<lparr>mTcpClockDiff := clockDiff p1 t1 t2, mTcpState := CLOCK_SYNCED\<rparr>)
        | _ \<Rightarrow> Inr (tcp_close p))"

fun redoActions :: "('a, WebTournamentStore) ActionInterface \<Rightarrow> 'a ActionList \<Rightarrow> WebTournamentStore \<Rightarrow> ('a ActionList \<times> WebTournamentStore) result" where
  "redoActions J [] w = Inr ([], w)"
| "redoActions J ((i, a) # xs) w =
     bindE (action_redo J a w) (\<lambda>(a', w1). bindE (redoActions J xs w1) (\<lambda>(xs', w2). Inr ((i, a') # xs', w2)))"

definition decodedStore :: "TournamentStore \<Rightarrow> WebTournamentStore" where
  "decodedStore t = newWebTournamentStore\<lparr>webTournament := t\<rparr>"

definition onSyncRead :: "('a, WebTournamentStore) ActionInterface \<Rightarrow> 'a WebRead \<Rightarrow> 'a TCPParticipant \<Rightarrow> 'a TCPParticipant result" where
  "onSyncRead J r p =
     assertE (mTcpState p = CLOCK_SYNCED)
       (if mClosePosted p then Inr p
        else case r of
            Decoded (BASIC (SYNC t actionList)) \<Rightarrow>
              bindE (redoActions J actionList (decodedStore t)) (\<lambda>(actionList', tournament).
                Inr (p\<lparr>mAwaiting := AcquireCall tournament actionList'\<rparr>))
          | _ \<Rightarrow> Inr (tcp_close p))"

definition onAcquired :: "WebTournamentStore \<Rightarrow> 'a ActionList \<Rightarrow> 'a TCPParticipant \<Rightarrow> 'a TCPParticipant result" where
  "onAcquired tournament actionList p =
     (if mClosePosted p then Inr p
      else Inr (serverCall (SetOwner (mTcpWebName p)) (p\<lparr>mTcpTournament := True, mAwaiting := FirstSyncCall tournament actionList (mTcpClockDiff p)\<rparr>)))"

definition asyncTournamentListen :: "'a TCPParticipant \<Rightarrow> 'a TCPParticipant result" where
  "asyncTournamentListen p = asyncRead ListenRead p"

definition onFirstSync :: "bool \<Rightarrow> 'a TCPParticipant \<Rightarrow> 'a TCPParticipant result" where
  "onFirstSync success p =
     (if mClosePosted p then Inr p
      else if \<not> success then Inr (tcp_close p)
      else asyncTournamentListen (serverCall (SetSynced (mTcpWebName p)) p))"

subsection \<open>Listening to the tournament\<close>

definition onTournament :: "'a Awaiting \<Rightarrow> 'a TCPParticipant \<Rightarrow> 'a TCPParticipant result" where
  "onTournament call p = (if mTcpTournament p then Inr (p\<lparr>mAwaiting := call\<rparr>) else Inl UndefinedBehaviour)"

definition onListenRead :: "'a WebRead \<Rightarrow> 'a TCPParticipant \<Rightarrow> 'a TCPParticipant result" where
  "onListenRead r p =
     assertE (mTcpState p = CLOCK_SYNCED)
       (if mClosePosted p then Inr p
        else case r of
            ReadFailed \<Rightarrow> Inr (tcp_close p)
          | Decoded (BASIC (UNDO actionId)) \<Rightarrow> onTournament (UndoCall actionId) p
          | Garbled (BASIC (UNDO actionId)) \<Rightarrow> Inr (tcp_close p)
          | Decoded (BASIC (ACTION actionId action)) \<Rightarrow> onTournament (DispatchCall actionId action) p
          | Garbled (BASIC (ACTION actionId action)) \<Rightarrow> Inr (tcp_close p)
          | Decoded (BASIC (SYNC t actionList)) \<Rightarrow> onTournament (SyncCall (decodedStore t) actionList (mTcpClockDiff p)) p
          | Garbled (BASIC (SYNC t actionList)) \<Rightarrow> Inr (tcp_close p)
          | _ \<Rightarrow> asyncTournamentListen p)"

definition onTournamentReply :: "bool \<Rightarrow> 'a TCPParticipant \<Rightarrow> 'a TCPParticipant result" where
  "onTournamentReply success p =
     (if mClosePosted p then Inr p
      else if success then asyncTournamentListen p
      else Inr (tcp_close p))"

subsection \<open>Runs\<close>

text \<open>
  A step completes one of the calls that are under way: its handler runs, with any result that the call can have. The handlers
  of \<open>tcp_local\<close> concern the connection only; the others get an answer of the database, of the server or of the tournament. A
  successful answer of the database names the user.
\<close>

definition idle :: "'a TCPParticipant \<Rightarrow> 'a TCPParticipant" where
  "idle p = p\<lparr>mAwaiting := NoCall\<rparr>"

inductive tcp_local :: "('a, WebTournamentStore) ActionInterface \<Rightarrow> 'a TCPParticipant \<Rightarrow> 'a TCPParticipant result \<Rightarrow> bool" for J where
  auth_read: "mAwaiting p = AuthRead \<Longrightarrow> tcp_local J p (onAuthRead r (idle p))"
| register_read: "mAwaiting p = RegisterRead \<Longrightarrow> tcp_local J p (onRegisterRead r (idle p))"
| clock_read: "mAwaiting p = ClockRead t1 \<Longrightarrow> tcp_local J p (onClockRead t1 t2 r (idle p))"
| sync_read: "mAwaiting p = SyncRead \<Longrightarrow> tcp_local J p (onSyncRead J r (idle p))"
| listen_read: "mAwaiting p = ListenRead \<Longrightarrow> tcp_local J p (onListenRead r (idle p))"
| message_written: "mWriting p \<Longrightarrow> tcp_local J p (tcp_written ec p)"
| message_posted: "mPostedMessages p = m # ms \<Longrightarrow> tcp_local J p (tcp_deliverPosted m (p\<lparr>mPostedMessages := ms\<rparr>))"

inductive tcp_step :: "('a, WebTournamentStore) ActionInterface \<Rightarrow> 'a TCPParticipant \<Rightarrow> 'a TCPParticipant result \<Rightarrow> bool" for J where
  local: "tcp_local J p r \<Longrightarrow> tcp_step J p r"
| web_token: "mAwaiting p = WebTokenCall email password \<Longrightarrow> (response = TOKEN_SUCCESSFUL \<Longrightarrow> userId \<noteq> None) \<Longrightarrow>
    tcp_step J p (onWebToken response token userId (idle p))"
| validation: "mAwaiting p = ValidationCall email token \<Longrightarrow> (response = VALIDATION_SUCCESSFUL \<Longrightarrow> userId \<noteq> None) \<Longrightarrow>
    tcp_step J p (onValidation response userId (idle p))"
| registration: "mAwaiting p = RegistrationCall userId i webName \<Longrightarrow> tcp_step J p (onRegistration now webName nameResponse (idle p))"
| name_check: "mAwaiting p = CheckCall userId i webName \<Longrightarrow> tcp_step J p (onCheck checkResponse (idle p))"
| acquired: "mAwaiting p = AcquireCall t xs \<Longrightarrow> tcp_step J p (onAcquired t xs (idle p))"
| first_sync: "mAwaiting p = FirstSyncCall t xs diff \<Longrightarrow> tcp_step J p (onFirstSync success (idle p))"
| tournament_reply: "mAwaiting p \<in> {UndoCall i, DispatchCall i a, SyncCall t xs diff} \<Longrightarrow> tcp_step J p (onTournamentReply success (idle p))"
| close_requested: "tcp_step J p (Inr (tcp_asyncClose p))"

inductive tcp_reachable :: "('a, WebTournamentStore) ActionInterface \<Rightarrow> 'a TCPParticipant \<Rightarrow> bool" for J where
  started: "asyncAuth newTCPParticipant = Inr p \<Longrightarrow> tcp_reachable J p"
| stepped: "tcp_reachable J p \<Longrightarrow> tcp_step J p (Inr p') \<Longrightarrow> tcp_reachable J p'"

text \<open>
  The state machine is consistent: the call that is under way fits the state, the user is known once the login has succeeded,
  and a write is under way exactly when the queue holds a message.
\<close>

fun stateOf :: "'a Awaiting \<Rightarrow> TcpState set" where
  "stateOf NoCall = UNIV"
| "stateOf AuthRead = {NOT_AUTHENTICATED}"
| "stateOf (WebTokenCall _ _) = {NOT_AUTHENTICATED}"
| "stateOf (ValidationCall _ _) = {NOT_AUTHENTICATED}"
| "stateOf RegisterRead = {AUTHENTICATED}"
| "stateOf (RegistrationCall _ _ _) = {AUTHENTICATED}"
| "stateOf (CheckCall _ _ _) = {AUTHENTICATED}"
| "stateOf (ClockRead _) = {TOURNAMENT_SELECTED}"
| "stateOf _ = {CLOCK_SYNCED}"

fun onOwnTournament :: "'a Awaiting \<Rightarrow> bool" where
  "onOwnTournament (FirstSyncCall _ _ _) = True"
| "onOwnTournament ListenRead = True"
| "onOwnTournament (UndoCall _) = True"
| "onOwnTournament (DispatchCall _ _) = True"
| "onOwnTournament (SyncCall _ _ _) = True"
| "onOwnTournament _ = False"

definition tcp_inv :: "'a TCPParticipant \<Rightarrow> bool" where
  "tcp_inv p \<longleftrightarrow> mTcpState p \<in> stateOf (mAwaiting p) \<and> (mTcpState p \<noteq> NOT_AUTHENTICATED \<longrightarrow> mUserId p \<noteq> None) \<and>
     (onOwnTournament (mAwaiting p) \<longrightarrow> mTcpTournament p) \<and> (\<forall>u i w. mAwaiting p = RegistrationCall u i w \<longrightarrow> mUserId p = Some u) \<and>
     (mClosePosted p \<longrightarrow> \<not> mTcpConnection p) \<and> (\<not> mClosePosted p \<and> mWriting p \<longrightarrow> mTcpQueue p \<noteq> [])"

lemma idle_inv: "tcp_inv p \<Longrightarrow> tcp_inv (idle p)"
  by (simp add: tcp_inv_def idle_def)

lemma idle_simps [simp]:
  "mTcpState (idle p) = mTcpState p" "mUserId (idle p) = mUserId p" "mTcpTournament (idle p) = mTcpTournament p"
  "mTcpConnection (idle p) = mTcpConnection p" "mClosePosted (idle p) = mClosePosted p" "mAwaiting (idle p) = NoCall"
  "mTcpWebName (idle p) = mTcpWebName p" "mPostedMessages (idle p) = mPostedMessages p" "mTcpQueue (idle p) = mTcpQueue p"
  by (simp_all add: idle_def)

lemma tcp_close_inv: "tcp_inv p \<Longrightarrow> tcp_inv (tcp_close p)"
  by (auto simp: tcp_inv_def tcp_close_def releaseConnection_def serverCall_def)

lemma serverCall_inv [simp]: "tcp_inv (serverCall c p) = tcp_inv p"
  by (simp add: tcp_inv_def serverCall_def)

lemma tcp_deliver_inv [simp]: "tcp_inv (tcp_deliver m p) = tcp_inv p"
  by (simp add: tcp_inv_def tcp_deliver_def)

lemma deliver_simps [simp]:
  "mTcpState (tcp_deliver m p) = mTcpState p" "mUserId (tcp_deliver m p) = mUserId p" "mTcpTournament (tcp_deliver m p) = mTcpTournament p"
  "mTcpConnection (tcp_deliver m p) = mTcpConnection p" "mTcpWebName (tcp_deliver m p) = mTcpWebName p" "mClosePosted (tcp_deliver m p) = mClosePosted p"
  "mAwaiting (tcp_deliver m p) = mAwaiting p" "mTcpQueue (tcp_deliver m p) = mTcpQueue p" "mWriting (tcp_deliver m p) = mWriting p"
  by (simp_all add: tcp_deliver_def)

lemma serverCall_simps [simp]:
  "mTcpState (serverCall m p) = mTcpState p" "mUserId (serverCall m p) = mUserId p" "mTcpTournament (serverCall m p) = mTcpTournament p"
  "mTcpConnection (serverCall m p) = mTcpConnection p" "mTcpWebName (serverCall m p) = mTcpWebName p" "mClosePosted (serverCall m p) = mClosePosted p"
  "mAwaiting (serverCall m p) = mAwaiting p"
  by (simp_all add: serverCall_def)

lemma await_inv:
  "tcp_inv p \<Longrightarrow> mTcpState p \<in> stateOf h \<Longrightarrow> (onOwnTournament h \<longrightarrow> mTcpTournament p) \<Longrightarrow>
   (\<forall>u i w. h = RegistrationCall u i w \<longrightarrow> mUserId p = Some u) \<Longrightarrow> tcp_inv (p\<lparr>mAwaiting := h\<rparr>)"
  by (simp add: tcp_inv_def)

lemma asyncRead_inv:
  "asyncRead h p = Inr p' \<Longrightarrow> tcp_inv p \<Longrightarrow> mTcpState p \<in> stateOf h \<Longrightarrow> (onOwnTournament h \<longrightarrow> mTcpTournament p) \<Longrightarrow>
   (\<forall>u i w. h \<noteq> RegistrationCall u i w) \<Longrightarrow> tcp_inv p'"
  by (auto simp: asyncRead_def intro: await_inv split: if_splits)

lemma onAuthRead_inv: "onAuthRead r p = Inr p' \<Longrightarrow> tcp_inv p \<Longrightarrow> tcp_inv p'"
  by (auto simp: onAuthRead_def intro: tcp_close_inv await_inv split: if_splits WebRead.splits WebMessage.splits)

lemma authenticated_inv:
  "authenticated b userId p = Inr p' \<Longrightarrow> tcp_inv p \<Longrightarrow> mTcpState p = NOT_AUTHENTICATED \<Longrightarrow> mAwaiting p = NoCall \<Longrightarrow> (b \<longrightarrow> userId \<noteq> None) \<Longrightarrow> tcp_inv p'"
  unfolding authenticated_def asyncTournamentRegister_def asyncAuth_def
  by (auto elim!: asyncRead_inv split: if_splits) (simp add: tcp_inv_def)

lemma onRegisterRead_inv: "onRegisterRead r p = Inr p' \<Longrightarrow> tcp_inv p \<Longrightarrow> tcp_inv p'"
  by (auto simp: onRegisterRead_def intro: tcp_close_inv await_inv split: if_splits WebRead.splits WebMessage.splits option.splits)

lemma onRegistration_inv: "onRegistration now w response p = Inr p' \<Longrightarrow> tcp_inv p \<Longrightarrow> mAwaiting p = NoCall \<Longrightarrow> tcp_inv p'"
  unfolding onRegistration_def asyncTournamentRegister_def asyncClockSync_def Let_def
  by (auto elim!: asyncRead_inv split: if_splits) (simp add: tcp_inv_def)

lemma onCheck_inv: "onCheck response p = Inr p' \<Longrightarrow> tcp_inv p \<Longrightarrow> tcp_inv p'"
  unfolding onCheck_def asyncTournamentRegister_def by (auto elim!: asyncRead_inv split: if_splits)

lemma onClockRead_inv: "onClockRead t1 t2 r p = Inr p' \<Longrightarrow> tcp_inv p \<Longrightarrow> mTcpState p = TOURNAMENT_SELECTED \<Longrightarrow> mAwaiting p = NoCall \<Longrightarrow> tcp_inv p'"
  unfolding onClockRead_def asyncTournamentSync_def
  by (auto elim!: asyncRead_inv intro: tcp_close_inv split: if_splits WebRead.splits WebMessage.splits NetworkMessage.splits) (simp add: tcp_inv_def)

lemma onSyncRead_inv: "onSyncRead J r p = Inr p' \<Longrightarrow> tcp_inv p \<Longrightarrow> tcp_inv p'"
  by (auto simp: onSyncRead_def intro: tcp_close_inv await_inv split: if_splits WebRead.splits WebMessage.splits NetworkMessage.splits)

lemma onAcquired_inv: "onAcquired t xs p = Inr p' \<Longrightarrow> tcp_inv p \<Longrightarrow> mTcpState p = CLOCK_SYNCED \<Longrightarrow> tcp_inv p'"
  by (auto simp: onAcquired_def split: if_splits) (simp add: tcp_inv_def)

lemma onFirstSync_inv: "onFirstSync b p = Inr p' \<Longrightarrow> tcp_inv p \<Longrightarrow> mTcpState p = CLOCK_SYNCED \<Longrightarrow> mTcpTournament p \<Longrightarrow> tcp_inv p'"
  unfolding onFirstSync_def asyncTournamentListen_def by (auto elim!: asyncRead_inv intro: tcp_close_inv split: if_splits)

lemma onTournamentReply_inv: "onTournamentReply b p = Inr p' \<Longrightarrow> tcp_inv p \<Longrightarrow> mTcpState p = CLOCK_SYNCED \<Longrightarrow> mTcpTournament p \<Longrightarrow> tcp_inv p'"
  unfolding onTournamentReply_def asyncTournamentListen_def by (auto elim!: asyncRead_inv intro: tcp_close_inv split: if_splits)

lemma onListenRead_inv: "onListenRead r p = Inr p' \<Longrightarrow> tcp_inv p \<Longrightarrow> mTcpTournament p \<Longrightarrow> tcp_inv p'"
  unfolding onListenRead_def asyncTournamentListen_def onTournament_def
  by (auto elim!: asyncRead_inv intro: tcp_close_inv await_inv split: if_splits WebRead.splits WebMessage.splits NetworkMessage.splits)

lemma tcp_written_inv: "tcp_written ec p = Inr p' \<Longrightarrow> tcp_inv p \<Longrightarrow> tcp_inv p'"
  by (auto simp: tcp_written_def tcp_write_def Let_def intro!: tcp_close_inv split: if_splits) (auto simp: tcp_inv_def)

lemma tcp_deliverPosted_inv: "tcp_deliverPosted m p = Inr p' \<Longrightarrow> tcp_inv p \<Longrightarrow> tcp_inv p'"
  by (auto simp: tcp_deliverPosted_def tcp_write_def Let_def tcp_inv_def split: if_splits)

lemmas tcp_handlers_inv = onAuthRead_inv onRegisterRead_inv onRegistration_inv onCheck_inv onClockRead_inv onSyncRead_inv
  onAcquired_inv onFirstSync_inv onTournamentReply_inv onListenRead_inv tcp_written_inv tcp_deliverPosted_inv

lemma onLogin_inv:
  "onWebToken response token userId p = Inr p' \<Longrightarrow> tcp_inv p \<Longrightarrow> mAwaiting p = NoCall \<Longrightarrow> (response = TOKEN_SUCCESSFUL \<longrightarrow> userId \<noteq> None) \<Longrightarrow> tcp_inv p'"
  "onValidation response' userId p = Inr p' \<Longrightarrow> tcp_inv p \<Longrightarrow> mAwaiting p = NoCall \<Longrightarrow> (response' = VALIDATION_SUCCESSFUL \<longrightarrow> userId \<noteq> None) \<Longrightarrow> tcp_inv p'"
  unfolding onWebToken_def onValidation_def by (auto elim!: authenticated_inv split: if_splits)

text \<open>What the invariant says of the call that is under way.\<close>

lemma tcp_inv_awaiting:
  assumes "tcp_inv p"
  shows "mAwaiting p = ClockRead t1 \<Longrightarrow> mTcpState p = TOURNAMENT_SELECTED" and "mAwaiting p = AcquireCall t xs \<Longrightarrow> mTcpState p = CLOCK_SYNCED"
    and "onOwnTournament (mAwaiting p) \<Longrightarrow> mTcpState p = CLOCK_SYNCED \<and> mTcpTournament p"
  using assms by (auto simp: tcp_inv_def elim!: onOwnTournament.elims)

lemma tcp_asyncClose_inv: "tcp_inv p \<Longrightarrow> tcp_inv (tcp_asyncClose p)"
  by (auto simp: tcp_asyncClose_def releaseConnection_def serverCall_def tcp_inv_def)

lemma tcp_local_inv:
  assumes "tcp_local J p (Inr p')" and "tcp_inv p"
  shows "tcp_inv p'"
  using assms(1)
proof cases
  case (message_posted m ms)
  then show ?thesis using tcp_deliverPosted_inv[of m "p\<lparr>mPostedMessages := ms\<rparr>" p'] assms(2) by (simp add: tcp_inv_def)
qed (insert assms(2), drule sym, erule tcp_handlers_inv; force simp: idle_inv dest: tcp_inv_awaiting)+

lemma tcp_step_inv:
  assumes "tcp_step J p (Inr p')" and "tcp_inv p"
  shows "tcp_inv p'"
  using assms(1)
proof cases
  case local
  then show ?thesis by (rule tcp_local_inv[OF _ assms(2)])
next
  case close_requested
  then show ?thesis by (simp add: tcp_asyncClose_inv[OF assms(2)])
qed (insert assms(2), drule sym, erule tcp_handlers_inv onLogin_inv; force simp: idle_inv dest: tcp_inv_awaiting)+

lemma tcp_reachable_inv: "tcp_reachable J p \<Longrightarrow> tcp_inv p"
proof (induction rule: tcp_reachable.induct)
  case (started p)
  then show ?case by (auto simp: tcp_inv_def asyncAuth_def asyncRead_def newTCPParticipant_def)
next
  case (stepped p p')
  then show ?case using tcp_step_inv by blast
qed

subsection \<open>Errors\<close>

lemma asyncRead_connected: "mTcpConnection p \<Longrightarrow> asyncRead h p = Inr (p\<lparr>mAwaiting := h\<rparr>)"
  by (simp add: asyncRead_def)

text \<open>While the connection is there, only two handlers can fail, in the way their code shows.\<close>

lemma login_succeeds:
  assumes "mTcpConnection p" and "mTcpState p = NOT_AUTHENTICATED"
  shows "onAuthRead r p \<noteq> Inl e" and "onWebToken response token userId p \<noteq> Inl e" and "onValidation response' userId p \<noteq> Inl e"
  using assms
  by (auto simp: onAuthRead_def onWebToken_def onValidation_def authenticated_def asyncTournamentRegister_def asyncAuth_def asyncRead_connected
    split: WebRead.split WebMessage.split)

lemma registration_succeeds:
  assumes "mTcpConnection p" and "mTcpState p = AUTHENTICATED" and "mUserId p \<noteq> None"
  shows "onRegisterRead r p \<noteq> Inl e" and "onRegistration now w response p \<noteq> Inl e" and "onCheck response' p \<noteq> Inl e"
  using assms
  by (auto simp: onRegisterRead_def onRegistration_def onCheck_def asyncTournamentRegister_def asyncClockSync_def asyncRead_connected Let_def
    split: WebRead.split WebMessage.split)

lemma listening_succeeds:
  assumes "mTcpConnection p" and "mTcpState p = CLOCK_SYNCED" and "mTcpTournament p"
  shows "onListenRead r p \<noteq> Inl e" and "onFirstSync b p \<noteq> Inl e" and "onTournamentReply b p \<noteq> Inl e"
proof -
  show "onListenRead r p \<noteq> Inl e"
    using assms by (auto simp: onListenRead_def asyncTournamentListen_def onTournament_def asyncRead_connected
      split: WebRead.split WebMessage.split NetworkMessage.split)
  show "onFirstSync b p \<noteq> Inl e" and "onTournamentReply b p \<noteq> Inl e"
    using assms by (auto simp: onFirstSync_def onTournamentReply_def asyncTournamentListen_def asyncRead_connected)
qed

lemma clock_read_fails: "onClockRead t1 t2 r p = Inl e \<Longrightarrow> mTcpConnection p \<Longrightarrow> r = ReadFailed \<and> e = UndefinedBehaviour"
  by (auto simp: onClockRead_def asyncTournamentSync_def asyncRead_connected split: if_splits WebRead.splits WebMessage.splits NetworkMessage.splits)

lemma sync_read_fails:
  "onSyncRead J r p = Inl e \<Longrightarrow> mTcpState p = CLOCK_SYNCED \<Longrightarrow> \<exists>t xs. r = Decoded (BASIC (SYNC t xs)) \<and> redoActions J xs (decodedStore t) = Inl e"
  by (auto simp: onSyncRead_def bindE_eq_Inl split: if_splits WebRead.splits WebMessage.splits NetworkMessage.splits)

lemma queue_succeeds:
  "mTcpConnection p \<Longrightarrow> tcp_deliverPosted m p \<noteq> Inl e"
  "mTcpConnection p \<Longrightarrow> mTcpQueue p \<noteq> [] \<Longrightarrow> tcp_written ec p \<noteq> Inl e"
  by (auto simp: tcp_deliverPosted_def tcp_written_def tcp_write_def Let_def)

text \<open>
  C29. As long as the web server has not closed the connection to an application, no assertion of its protocol fails and no
  handler uses a missing user, tournament or message; only two handlers can fail: the one that reads the answer to the clock
  request, when the read fails, and the one that receives the first tournament, when one of its actions cannot be executed.
\<close>

theorem tcp_handlers_succeed_while_connected:
  assumes "tcp_reachable J p" and "mTcpConnection p" and "tcp_step J p (Inl e)"
  shows "(\<exists>t1. mAwaiting p = ClockRead t1 \<and> e = UndefinedBehaviour) \<or>
    (mAwaiting p = SyncRead \<and> (\<exists>t actionList. redoActions J actionList (decodedStore t) = Inl e))"
proof -
  have inv: "tcp_inv p" by (rule tcp_reachable_inv[OF assms(1)])
  then have user: "mTcpState p \<noteq> NOT_AUTHENTICATED \<Longrightarrow> mUserId p \<noteq> None" by (simp add: tcp_inv_def)
  have state: "mTcpState p \<in> stateOf (mAwaiting p)" and queue: "mWriting p \<Longrightarrow> mTcpQueue p \<noteq> []"
    using inv assms(2) by (auto simp: tcp_inv_def)
  have own: "onOwnTournament (mAwaiting p) \<Longrightarrow> mTcpState p = CLOCK_SYNCED \<and> mTcpTournament p" by (rule tcp_inv_awaiting(3)[OF inv])
  have ?thesis if "tcp_local J p (Inl e)"
    using that
  proof cases
    case (clock_read t1 t2 r)
    then show ?thesis using clock_read_fails[of t1 t2 r "idle p" e] assms(2) by auto
  next
    case (sync_read r)
    then show ?thesis using sync_read_fails[of J r "idle p" e] state by auto
  next
    case (message_posted m ms)
    then show ?thesis using queue_succeeds(1)[of "p\<lparr>mPostedMessages := ms\<rparr>" m e] assms(2) by auto
  next
    case (message_written ec)
    then show ?thesis using queue_succeeds(2)[of p ec e] assms(2) queue by auto
  qed (drule sym, erule notE[rotated], rule login_succeeds registration_succeeds listening_succeeds; use assms(2) state user own in simp)+
  note locals = this
  show ?thesis
    using assms(3)
  proof cases
    case (acquired t xs)
    then show ?thesis by (simp add: onAcquired_def split: if_splits)
  next
    case (tournament_reply i a t xs diff success)
    then show ?thesis using listening_succeeds(3)[of "idle p" success e] assms(2) own by auto
  next
    case local
    then show ?thesis by (rule locals)
  qed (drule sym, erule notE[rotated], rule login_succeeds registration_succeeds listening_succeeds; use assms(2) state user own in simp)+
qed

text \<open>A participant that has logged in and registered a web name, and the answers that are on their way to it.\<close>

definition exampleRegistered :: "FieldChange TCPParticipant" where
  "exampleRegistered = newTCPParticipant\<lparr>mTcpState := TOURNAMENT_SELECTED, mUserId := Some 1, mTcpWebName := ''cup'',
     mPostedMessages := [REQUEST_WEB_TOKEN_RESPONSE TOKEN_SUCCESSFUL (Some [2]), REGISTER_WEB_NAME_RESPONSE NAME_SUCCESSFUL, BASIC CLOCK_SYNC_REQUEST],
     mAwaiting := ClockRead 0\<rparr>"

lemma step_to: "tcp_reachable J p \<Longrightarrow> tcp_step J p r \<Longrightarrow> r = Inr p' \<Longrightarrow> tcp_reachable J p'"
  using tcp_reachable.stepped by blast

lemma tcp_start: "tcp_reachable J (newTCPParticipant\<lparr>mAwaiting := AuthRead\<rparr>)"
  by (rule started) (simp add: asyncAuth_def asyncRead_def newTCPParticipant_def)

lemma exampleRegistered_reachable: "tcp_reachable webFieldChanges exampleRegistered"
proof -
  let ?p = "newTCPParticipant :: FieldChange TCPParticipant"
  let ?p3 = "?p\<lparr>mTcpState := AUTHENTICATED, mUserId := Some 1, mPostedMessages := [REQUEST_WEB_TOKEN_RESPONSE TOKEN_SUCCESSFUL (Some [2])]\<rparr>"
  have "tcp_reachable webFieldChanges (?p\<lparr>mAwaiting := WebTokenCall ''a'' ''p''\<rparr>)"
    by (rule step_to[OF tcp_start auth_read[where r = "Decoded (REQUEST_WEB_TOKEN ''a'' ''p'')", THEN tcp_step.local]])
      (simp_all add: onAuthRead_def newTCPParticipant_def idle_def)
  then have "tcp_reachable webFieldChanges (?p3\<lparr>mAwaiting := RegisterRead\<rparr>)"
    by (rule step_to[OF _ web_token[where response = TOKEN_SUCCESSFUL and userId = "Some 1" and token = "Some [2]"]])
      (simp_all add: onWebToken_def authenticated_def asyncTournamentRegister_def asyncRead_def tcp_deliver_def newTCPParticipant_def idle_def)
  then have "tcp_reachable webFieldChanges (?p3\<lparr>mAwaiting := RegistrationCall 1 7 ''cup''\<rparr>)"
    by (rule step_to[OF _ register_read[where r = "Decoded (REGISTER_WEB_NAME 7 ''cup'')", THEN tcp_step.local]])
      (simp_all add: onRegisterRead_def newTCPParticipant_def idle_def)
  then show ?thesis
    by (rule step_to[OF _ registration[where now = 0 and nameResponse = NAME_SUCCESSFUL]])
      (simp_all add: onRegistration_def asyncClockSync_def asyncRead_def tcp_deliver_def newTCPParticipant_def idle_def exampleRegistered_def Let_def)
qed

theorem tcp_handlers_succeed_while_connected_witness:
  "tcp_step webFieldChanges exampleRegistered (Inl UndefinedBehaviour) \<and> (\<exists>t1. mAwaiting exampleRegistered = ClockRead t1)"
proof -
  have step: "tcp_step webFieldChanges exampleRegistered (Inl UndefinedBehaviour)"
    using clock_read[of exampleRegistered 0 webFieldChanges 5 ReadFailed, THEN tcp_step.local] by (simp add: exampleRegistered_def onClockRead_def newTCPParticipant_def)
  have "mTcpConnection exampleRegistered" and "mAwaiting exampleRegistered \<noteq> SyncRead" by (simp_all add: exampleRegistered_def newTCPParticipant_def)
  then show ?thesis using tcp_handlers_succeed_while_connected[OF exampleRegistered_reachable _ step] step by blast
qed

text \<open>
  A client that has not logged in can stop the web server. Two failed logins whose answers are not yet written, followed by a
  message that does not decode, make the participant close its connection; when the handler of the first write then runs, it
  goes on to write the second one through the null pointer that the close has left behind.
\<close>

theorem closed_connection_is_written_to:
  "\<exists>p. tcp_reachable J p \<and> mTcpState p = NOT_AUTHENTICATED \<and> \<not> mTcpConnection p \<and> \<not> mClosePosted p \<and> tcp_step J p (Inl UndefinedBehaviour)"
proof -
  let ?p = "newTCPParticipant :: 'a TCPParticipant" and ?read = "Decoded (REQUEST_WEB_TOKEN ''a'' ''p'') :: 'a WebRead"
  let ?m = "REQUEST_WEB_TOKEN_RESPONSE TOKEN_INCORRECT_CREDENTIALS None :: 'a WebMessage"
  note defs = onAuthRead_def onWebToken_def authenticated_def asyncAuth_def asyncRead_def tcp_deliver_def tcp_deliverPosted_def tcp_write_def
    tcp_close_def releaseConnection_def serverCall_def newTCPParticipant_def idle_def Let_def
  have "tcp_reachable J (?p\<lparr>mAwaiting := WebTokenCall ''a'' ''p''\<rparr>)"
    by (rule step_to[OF tcp_start auth_read[where r = ?read, THEN tcp_step.local]]) (simp_all add: defs)
  then have "tcp_reachable J (?p\<lparr>mPostedMessages := [?m], mAwaiting := AuthRead\<rparr>)"
    by (rule step_to[OF _ web_token[where response = TOKEN_INCORRECT_CREDENTIALS and userId = None and token = None]]) (simp_all add: defs)
  then have "tcp_reachable J (?p\<lparr>mTcpQueue := [?m], mWriting := True, mAwaiting := AuthRead\<rparr>)"
    by (rule step_to[OF _ message_posted[where m = ?m and ms = "[]", THEN tcp_step.local]]) (simp_all add: defs)
  then have "tcp_reachable J (?p\<lparr>mTcpQueue := [?m], mWriting := True, mAwaiting := WebTokenCall ''a'' ''p''\<rparr>)"
    by (rule step_to[OF _ auth_read[where r = ?read, THEN tcp_step.local]]) (simp_all add: defs)
  then have "tcp_reachable J (?p\<lparr>mTcpQueue := [?m], mWriting := True, mPostedMessages := [?m], mAwaiting := AuthRead\<rparr>)"
    by (rule step_to[OF _ web_token[where response = TOKEN_INCORRECT_CREDENTIALS and userId = None and token = None]]) (simp_all add: defs)
  then have "tcp_reachable J (?p\<lparr>mTcpQueue := [?m, ?m], mWriting := True, mAwaiting := AuthRead\<rparr>)"
    by (rule step_to[OF _ message_posted[where m = ?m and ms = "[]", THEN tcp_step.local]]) (simp_all add: defs)
  then have r: "tcp_reachable J (?p\<lparr>mTcpQueue := [?m, ?m], mWriting := True, mTcpConnection := False, mServerCalls := [Leave False]\<rparr>)"
    by (rule step_to[OF _ auth_read[where r = "Garbled (REQUEST_WEB_TOKEN ''a'' ''p'')", THEN tcp_step.local]]) (simp_all add: defs)
  let ?q = "?p\<lparr>mTcpQueue := [?m, ?m], mWriting := True, mTcpConnection := False, mServerCalls := [Leave False]\<rparr>"
  have "tcp_step J ?q (Inl UndefinedBehaviour)"
    using message_written[of ?q J False, THEN tcp_step.local] by (simp add: tcp_written_def defs)
  then show ?thesis using r by (intro exI[of _ ?q]) (simp add: newTCPParticipant_def)
qed

end
