(* ===== verification/Network_Message.thy ===== *)
theory Network_Message
  imports Tcp_Participant
begin

section \<open>Messages on the wire\<close>

text \<open>
  Models \<^verbatim>\<open>src/core/network/network_message.hpp\<close>, \<^verbatim>\<open>network_message.cpp\<close>, \<^verbatim>\<open>network_connection.cpp\<close> and \<^verbatim>\<open>src/core/version.cpp\<close>: how
  messages become a header and a body, how these are written to and read from a connection, and the handshake that opens it. It
  justifies that the other theories of the network speak of the decoded content of messages only.

  The record \<open>Archives\<close> is what the code takes from cereal and zstd and from the allocator: the archive of the values that a body holds
  (\<open>Payload\<close>, one constructor for each combination that the code passes to an archive), which a reader opens expecting one of
  the \<open>Format\<close>s, compression, the archive of a header, and whether a string can have a size; an archive may throw (\<open>None\<close>). The action \<^verbatim>\<open>std::shared_ptr<Action>\<close> is
  its value, of which an archive keeps a part only: \<open>archived_impl\<close> is an action read from the archive of another. \<^verbatim>\<open>Action::serialize\<close> is empty and
  the classes of actions archive their parameters, so that the flag \<^verbatim>\<open>mDone\<close> and what was saved for the undo are lost. The version of the application is an argument; the build generates it. A number in a header that is no type of message
  is left out of \<open>MessageType\<close>.
\<close>

datatype MessageType =
    TYPE_HANDSHAKE | TYPE_SYNC | TYPE_SYNC_ACK | TYPE_ACTION | TYPE_ACTION_ACK | TYPE_UNDO | TYPE_UNDO_ACK | TYPE_QUIT
  | TYPE_CLOCK_SYNC | TYPE_CLOCK_SYNC_REQUEST | TYPE_REQUEST_WEB_TOKEN | TYPE_REQUEST_WEB_TOKEN_RESPONSE | TYPE_VALIDATE_WEB_TOKEN
  | TYPE_VALIDATE_WEB_TOKEN_RESPONSE | TYPE_REGISTER_WEB_NAME | TYPE_REGISTER_WEB_NAME_RESPONSE | TYPE_CHECK_WEB_NAME
  | TYPE_CHECK_WEB_NAME_RESPONSE

text \<open>The names of the types in the log.\<close>

fun type_text :: "MessageType \<Rightarrow> string" where
  "type_text TYPE_HANDSHAKE = ''HANDSHAKE''"
| "type_text TYPE_SYNC = ''SYNC''"
| "type_text TYPE_SYNC_ACK = ''SYNC_ACK''"
| "type_text TYPE_ACTION = ''ACTION''"
| "type_text TYPE_ACTION_ACK = ''ACTION_ACK''"
| "type_text TYPE_UNDO = ''UNDO''"
| "type_text TYPE_UNDO_ACK = ''UNDO_ACK''"
| "type_text TYPE_QUIT = ''QUIT''"
| "type_text TYPE_REQUEST_WEB_TOKEN = ''REQUEST_WEB_TOKEN''"
| "type_text TYPE_REQUEST_WEB_TOKEN_RESPONSE = ''REQUEST_WEB_TOKEN_RESPONSE''"
| "type_text TYPE_VALIDATE_WEB_TOKEN = ''VALIDATE_WEB_TOKEN''"
| "type_text TYPE_VALIDATE_WEB_TOKEN_RESPONSE = ''VALIDATE_WEB_TOKEN_RESPONSE''"
| "type_text TYPE_REGISTER_WEB_NAME = ''REGISTER_WEB_NAME''"
| "type_text TYPE_REGISTER_WEB_NAME_RESPONSE = ''REGISTER_WEB_NAME_RESPONSE''"
| "type_text TYPE_CHECK_WEB_NAME = ''CHECK_WEB_NAME''"
| "type_text TYPE_CHECK_WEB_NAME_RESPONSE = ''CHECK_WEB_NAME_RESPONSE''"
| "type_text TYPE_CLOCK_SYNC = ''CLOCK_SYNC''"
| "type_text TYPE_CLOCK_SYNC_REQUEST = ''CLOCK_SYNC_REQUEST''"

lemma type_text_inj: "type_text a = type_text b \<longleftrightarrow> a = b"
  by (cases a; cases b) simp_all

record ApplicationVersion =
  mVersionMajor :: int
  mVersionMinor :: int
  mVersionPatch :: int

definition isCompatible :: "ApplicationVersion \<Rightarrow> ApplicationVersion \<Rightarrow> bool" where
  "isCompatible v w \<longleftrightarrow> mVersionMajor v = mVersionMajor w \<and> mVersionMinor v = mVersionMinor w"

datatype 'a Payload =
    VersionBody ApplicationVersion
  | SyncBody TournamentStore "'a ActionList"
  | ActionBody ClientActionId "'a Action"
  | IdBody ClientActionId
  | CredentialsBody string string
  | TokenResponseBody WebTokenRequestResponse "WebToken option"
  | TokenBody string WebToken
  | ValidationBody WebTokenValidationResponse
  | NameBody TournamentId string
  | RegistrationBody WebNameRegistrationResponse
  | CheckBody WebNameCheckResponse
  | TimeBody int

datatype Format =
    VersionFormat | SyncFormat | ActionFormat | IdFormat | CredentialsFormat | TokenResponseFormat | TokenFormat | ValidationFormat
  | NameFormat | RegistrationFormat | CheckFormat | TimeFormat

fun formatOf :: "'a Payload \<Rightarrow> Format" where
  "formatOf (VersionBody v) = VersionFormat"
| "formatOf (SyncBody t xs) = SyncFormat"
| "formatOf (ActionBody i a) = ActionFormat"
| "formatOf (IdBody i) = IdFormat"
| "formatOf (CredentialsBody e p) = CredentialsFormat"
| "formatOf (TokenResponseBody r t) = TokenResponseFormat"
| "formatOf (TokenBody e t) = TokenFormat"
| "formatOf (ValidationBody r) = ValidationFormat"
| "formatOf (NameBody i w) = NameFormat"
| "formatOf (RegistrationBody r) = RegistrationFormat"
| "formatOf (CheckBody r) = CheckFormat"
| "formatOf (TimeBody p) = TimeFormat"

record 'a Archives =
  archive_out :: "'a Payload \<Rightarrow> string option"
  archive_in :: "Format \<Rightarrow> string \<Rightarrow> 'a Payload option"
  zstd_compress :: "string \<Rightarrow> string option"
  zstd_decompress :: "nat \<Rightarrow> string \<Rightarrow> string option"
  header_out :: "MessageType \<times> nat \<times> nat \<Rightarrow> string option"
  header_in :: "string \<Rightarrow> (MessageType \<times> nat \<times> nat) option"
  canResize :: "nat \<Rightarrow> bool"
  archived_impl :: "'a \<Rightarrow> 'a"

record RawMessage =
  rawType :: MessageType
  rawUncompressedSize :: nat
  rawHeader :: string
  rawBody :: string

definition HEADER_LENGTH :: nat where
  "HEADER_LENGTH = 21"

subsection \<open>Bodies and headers\<close>

definition serializeAndCompress :: "'a Archives \<Rightarrow> 'a Payload \<Rightarrow> (string \<times> nat) result" where
  "serializeAndCompress A p =
     (case archive_out A p of
        None \<Rightarrow> Inl (RuntimeError ''cereal'')
      | Some uncompressed \<Rightarrow>
          (case zstd_compress A uncompressed of
             None \<Rightarrow> Inl (RuntimeError ''ZSTD compress failed'')
           | Some compressed \<Rightarrow> Inr (compressed, length uncompressed)))"

text \<open>The buffer for the uncompressed body is allocated outside of the \<^verbatim>\<open>try\<close> block.\<close>

definition deserializeAndCompress :: "'a Archives \<Rightarrow> nat \<Rightarrow> string \<Rightarrow> Format \<Rightarrow> 'a Payload option result" where
  "deserializeAndCompress A uncompressedSize compressed f =
     (if \<not> canResize A uncompressedSize then Inl (RuntimeError ''std::bad_alloc'')
      else Inr (case zstd_decompress A uncompressedSize compressed of None \<Rightarrow> None | Some uncompressed \<Rightarrow> archive_in A f uncompressed))"

text \<open>The type and the size of a message are not initialised before its header is encoded or decoded.\<close>

definition newRawMessage :: RawMessage where
  "newRawMessage = \<lparr>rawType = TYPE_HANDSHAKE, rawUncompressedSize = 0, rawHeader = replicate HEADER_LENGTH (CHR 0x00), rawBody = []\<rparr>"

definition message_encodeHeader :: "'a Archives \<Rightarrow> RawMessage \<Rightarrow> RawMessage result" where
  "message_encodeHeader A m =
     (case header_out A (rawType m, rawUncompressedSize m, length (rawBody m)) of
        None \<Rightarrow> Inl (RuntimeError ''cereal'')
      | Some header \<Rightarrow> assertE (length header = HEADER_LENGTH) (Inr (m\<lparr>rawHeader := header\<rparr>)))"

definition message_decodeHeader :: "'a Archives \<Rightarrow> RawMessage \<Rightarrow> bool \<times> RawMessage" where
  "message_decodeHeader A m =
     (case header_in A (rawHeader m) of
        None \<Rightarrow> (False, m)
      | Some (ty, n, bodyLength) \<Rightarrow>
          let m1 = m\<lparr>rawType := ty, rawUncompressedSize := n\<rparr>
          in if canResize A bodyLength then (True, m1\<lparr>rawBody := readBytes bodyLength (rawBody m1)\<rparr>) else (False, m1))"

definition encodeBody :: "'a Archives \<Rightarrow> MessageType \<Rightarrow> 'a Payload \<Rightarrow> RawMessage result" where
  "encodeBody A ty p =
     bindE (serializeAndCompress A p) (\<lambda>(body, n).
       message_encodeHeader A (newRawMessage\<lparr>rawType := ty, rawBody := body, rawUncompressedSize := n\<rparr>))"

definition encodeEmpty :: "'a Archives \<Rightarrow> MessageType \<Rightarrow> RawMessage result" where
  "encodeEmpty A ty = message_encodeHeader A (newRawMessage\<lparr>rawType := ty, rawBody := [], rawUncompressedSize := 0\<rparr>)"

definition decodeBody :: "'a Archives \<Rightarrow> Format \<Rightarrow> RawMessage \<Rightarrow> 'a Payload option result" where
  "decodeBody A f m = deserializeAndCompress A (rawUncompressedSize m) (rawBody m) f"

subsection \<open>The messages\<close>

definition encodeHandshake :: "'a Archives \<Rightarrow> ApplicationVersion \<Rightarrow> RawMessage result" where
  "encodeHandshake A v = encodeBody A TYPE_HANDSHAKE (VersionBody v)"

definition encodeSync :: "'a Archives \<Rightarrow> TournamentStore \<Rightarrow> 'a ActionList \<Rightarrow> RawMessage result" where
  "encodeSync A t stack = encodeBody A TYPE_SYNC (SyncBody t stack)"

definition encodeAction :: "'a Archives \<Rightarrow> ClientActionId \<Rightarrow> 'a Action \<Rightarrow> RawMessage result" where
  "encodeAction A actionId action = encodeBody A TYPE_ACTION (ActionBody actionId action)"

definition encodeActionAck :: "'a Archives \<Rightarrow> ClientActionId \<Rightarrow> RawMessage result" where
  "encodeActionAck A actionId = encodeBody A TYPE_ACTION_ACK (IdBody actionId)"

definition encodeUndoAck :: "'a Archives \<Rightarrow> ClientActionId \<Rightarrow> RawMessage result" where
  "encodeUndoAck A actionId = encodeBody A TYPE_UNDO_ACK (IdBody actionId)"

definition encodeUndo :: "'a Archives \<Rightarrow> ClientActionId \<Rightarrow> RawMessage result" where
  "encodeUndo A actionId = encodeBody A TYPE_UNDO (IdBody actionId)"

definition encodeRequestWebToken :: "'a Archives \<Rightarrow> string \<Rightarrow> string \<Rightarrow> RawMessage result" where
  "encodeRequestWebToken A email password = encodeBody A TYPE_REQUEST_WEB_TOKEN (CredentialsBody email password)"

definition encodeRequestWebTokenResponse :: "'a Archives \<Rightarrow> WebTokenRequestResponse \<Rightarrow> WebToken option \<Rightarrow> RawMessage result" where
  "encodeRequestWebTokenResponse A response token = encodeBody A TYPE_REQUEST_WEB_TOKEN_RESPONSE (TokenResponseBody response token)"

definition encodeValidateWebToken :: "'a Archives \<Rightarrow> string \<Rightarrow> WebToken \<Rightarrow> RawMessage result" where
  "encodeValidateWebToken A email token = encodeBody A TYPE_VALIDATE_WEB_TOKEN (TokenBody email token)"

definition encodeValidateWebTokenResponse :: "'a Archives \<Rightarrow> WebTokenValidationResponse \<Rightarrow> RawMessage result" where
  "encodeValidateWebTokenResponse A response = encodeBody A TYPE_VALIDATE_WEB_TOKEN_RESPONSE (ValidationBody response)"

definition encodeRegisterWebName :: "'a Archives \<Rightarrow> TournamentId \<Rightarrow> string \<Rightarrow> RawMessage result" where
  "encodeRegisterWebName A i webName = encodeBody A TYPE_REGISTER_WEB_NAME (NameBody i webName)"

definition encodeRegisterWebNameResponse :: "'a Archives \<Rightarrow> WebNameRegistrationResponse \<Rightarrow> RawMessage result" where
  "encodeRegisterWebNameResponse A response = encodeBody A TYPE_REGISTER_WEB_NAME_RESPONSE (RegistrationBody response)"

definition encodeCheckWebName :: "'a Archives \<Rightarrow> TournamentId \<Rightarrow> string \<Rightarrow> RawMessage result" where
  "encodeCheckWebName A i webName = encodeBody A TYPE_CHECK_WEB_NAME (NameBody i webName)"

definition encodeCheckWebNameResponse :: "'a Archives \<Rightarrow> WebNameCheckResponse \<Rightarrow> RawMessage result" where
  "encodeCheckWebNameResponse A response = encodeBody A TYPE_CHECK_WEB_NAME_RESPONSE (CheckBody response)"

definition encodeClockSync :: "'a Archives \<Rightarrow> int \<Rightarrow> RawMessage result" where
  "encodeClockSync A time = encodeBody A TYPE_CLOCK_SYNC (TimeBody time)"

definition encodeSyncAck :: "'a Archives \<Rightarrow> RawMessage result" where
  "encodeSyncAck A = encodeEmpty A TYPE_SYNC_ACK"

definition encodeQuit :: "'a Archives \<Rightarrow> RawMessage result" where
  "encodeQuit A = encodeEmpty A TYPE_QUIT"

definition encodeClockSyncRequest :: "'a Archives \<Rightarrow> RawMessage result" where
  "encodeClockSyncRequest A = encodeEmpty A TYPE_CLOCK_SYNC_REQUEST"

definition decodeHandshake :: "'a Archives \<Rightarrow> RawMessage \<Rightarrow> ApplicationVersion option result" where
  "decodeHandshake A m = bindE (decodeBody A VersionFormat m) (\<lambda>b. Inr (case b of Some (VersionBody v) \<Rightarrow> Some v | _ \<Rightarrow> None))"

definition decodeSync :: "'a Archives \<Rightarrow> RawMessage \<Rightarrow> (TournamentStore \<times> ('a ActionList)) option result" where
  "decodeSync A m = bindE (decodeBody A SyncFormat m) (\<lambda>b. Inr (case b of Some (SyncBody t stack) \<Rightarrow> Some (t, stack) | _ \<Rightarrow> None))"

definition decodeAction :: "'a Archives \<Rightarrow> RawMessage \<Rightarrow> (ClientActionId \<times> ('a Action)) option result" where
  "decodeAction A m = bindE (decodeBody A ActionFormat m) (\<lambda>b. Inr (case b of Some (ActionBody actionId action) \<Rightarrow> Some (actionId, action) | _ \<Rightarrow> None))"

definition decodeActionAck :: "'a Archives \<Rightarrow> RawMessage \<Rightarrow> ClientActionId option result" where
  "decodeActionAck A m = bindE (decodeBody A IdFormat m) (\<lambda>b. Inr (case b of Some (IdBody actionId) \<Rightarrow> Some actionId | _ \<Rightarrow> None))"

definition decodeUndoAck :: "'a Archives \<Rightarrow> RawMessage \<Rightarrow> ClientActionId option result" where
  "decodeUndoAck A m = bindE (decodeBody A IdFormat m) (\<lambda>b. Inr (case b of Some (IdBody actionId) \<Rightarrow> Some actionId | _ \<Rightarrow> None))"

definition decodeUndo :: "'a Archives \<Rightarrow> RawMessage \<Rightarrow> ClientActionId option result" where
  "decodeUndo A m = bindE (decodeBody A IdFormat m) (\<lambda>b. Inr (case b of Some (IdBody actionId) \<Rightarrow> Some actionId | _ \<Rightarrow> None))"

definition decodeRequestWebToken :: "'a Archives \<Rightarrow> RawMessage \<Rightarrow> (string \<times> string) option result" where
  "decodeRequestWebToken A m = bindE (decodeBody A CredentialsFormat m) (\<lambda>b. Inr (case b of Some (CredentialsBody email password) \<Rightarrow> Some (email, password) | _ \<Rightarrow> None))"

definition decodeRequestWebTokenResponse :: "'a Archives \<Rightarrow> RawMessage \<Rightarrow> (WebTokenRequestResponse \<times> (WebToken option)) option result" where
  "decodeRequestWebTokenResponse A m = bindE (decodeBody A TokenResponseFormat m) (\<lambda>b. Inr (case b of Some (TokenResponseBody response token) \<Rightarrow> Some (response, token) | _ \<Rightarrow> None))"

definition decodeValidateWebToken :: "'a Archives \<Rightarrow> RawMessage \<Rightarrow> (string \<times> WebToken) option result" where
  "decodeValidateWebToken A m = bindE (decodeBody A TokenFormat m) (\<lambda>b. Inr (case b of Some (TokenBody email token) \<Rightarrow> Some (email, token) | _ \<Rightarrow> None))"

definition decodeValidateWebTokenResponse :: "'a Archives \<Rightarrow> RawMessage \<Rightarrow> WebTokenValidationResponse option result" where
  "decodeValidateWebTokenResponse A m = bindE (decodeBody A ValidationFormat m) (\<lambda>b. Inr (case b of Some (ValidationBody response) \<Rightarrow> Some response | _ \<Rightarrow> None))"

definition decodeRegisterWebName :: "'a Archives \<Rightarrow> RawMessage \<Rightarrow> (TournamentId \<times> string) option result" where
  "decodeRegisterWebName A m = bindE (decodeBody A NameFormat m) (\<lambda>b. Inr (case b of Some (NameBody i webName) \<Rightarrow> Some (i, webName) | _ \<Rightarrow> None))"

definition decodeRegisterWebNameResponse :: "'a Archives \<Rightarrow> RawMessage \<Rightarrow> WebNameRegistrationResponse option result" where
  "decodeRegisterWebNameResponse A m = bindE (decodeBody A RegistrationFormat m) (\<lambda>b. Inr (case b of Some (RegistrationBody response) \<Rightarrow> Some response | _ \<Rightarrow> None))"

definition decodeCheckWebName :: "'a Archives \<Rightarrow> RawMessage \<Rightarrow> (TournamentId \<times> string) option result" where
  "decodeCheckWebName A m = bindE (decodeBody A NameFormat m) (\<lambda>b. Inr (case b of Some (NameBody i webName) \<Rightarrow> Some (i, webName) | _ \<Rightarrow> None))"

definition decodeCheckWebNameResponse :: "'a Archives \<Rightarrow> RawMessage \<Rightarrow> WebNameCheckResponse option result" where
  "decodeCheckWebNameResponse A m = bindE (decodeBody A CheckFormat m) (\<lambda>b. Inr (case b of Some (CheckBody response) \<Rightarrow> Some response | _ \<Rightarrow> None))"

definition decodeClockSync :: "'a Archives \<Rightarrow> RawMessage \<Rightarrow> int option result" where
  "decodeClockSync A m = bindE (decodeBody A TimeFormat m) (\<lambda>b. Inr (case b of Some (TimeBody time) \<Rightarrow> Some time | _ \<Rightarrow> None))"

lemmas encode_defs = encodeHandshake_def encodeSync_def encodeAction_def encodeActionAck_def encodeUndoAck_def encodeUndo_def encodeRequestWebToken_def encodeRequestWebTokenResponse_def encodeValidateWebToken_def encodeValidateWebTokenResponse_def encodeRegisterWebName_def encodeRegisterWebNameResponse_def encodeCheckWebName_def encodeCheckWebNameResponse_def encodeClockSync_def encodeSyncAck_def encodeQuit_def encodeClockSyncRequest_def

lemmas decode_defs = decodeHandshake_def decodeSync_def decodeAction_def decodeActionAck_def decodeUndoAck_def decodeUndo_def decodeRequestWebToken_def decodeRequestWebTokenResponse_def decodeValidateWebToken_def decodeValidateWebTokenResponse_def decodeRegisterWebName_def decodeRegisterWebNameResponse_def decodeCheckWebName_def decodeCheckWebNameResponse_def decodeClockSync_def

text \<open>Which encoder the code calls for a message, and what a handler that looks at the type and calls the decoder for it gets (\<open>None\<close>: the body does not decode).\<close>

fun encodeMessage :: "'a Archives \<Rightarrow> ApplicationVersion \<Rightarrow> 'a WebMessage \<Rightarrow> RawMessage result" where
  "encodeMessage A v (BASIC HANDSHAKE) = encodeHandshake A v"
| "encodeMessage A v (BASIC (SYNC t xs)) = encodeSync A t xs"
| "encodeMessage A v (BASIC SYNC_ACK) = encodeSyncAck A"
| "encodeMessage A v (BASIC (ACTION i a)) = encodeAction A i a"
| "encodeMessage A v (BASIC (ACTION_ACK i)) = encodeActionAck A i"
| "encodeMessage A v (BASIC (UNDO i)) = encodeUndo A i"
| "encodeMessage A v (BASIC (UNDO_ACK i)) = encodeUndoAck A i"
| "encodeMessage A v (BASIC QUIT) = encodeQuit A"
| "encodeMessage A v (BASIC (CLOCK_SYNC p)) = encodeClockSync A p"
| "encodeMessage A v (BASIC CLOCK_SYNC_REQUEST) = encodeClockSyncRequest A"
| "encodeMessage A v (REQUEST_WEB_TOKEN e p) = encodeRequestWebToken A e p"
| "encodeMessage A v (REQUEST_WEB_TOKEN_RESPONSE r t) = encodeRequestWebTokenResponse A r t"
| "encodeMessage A v (VALIDATE_WEB_TOKEN e t) = encodeValidateWebToken A e t"
| "encodeMessage A v (VALIDATE_WEB_TOKEN_RESPONSE r') = encodeValidateWebTokenResponse A r'"
| "encodeMessage A v (REGISTER_WEB_NAME j w) = encodeRegisterWebName A j w"
| "encodeMessage A v (REGISTER_WEB_NAME_RESPONSE r'') = encodeRegisterWebNameResponse A r''"
| "encodeMessage A v (CHECK_WEB_NAME j w) = encodeCheckWebName A j w"
| "encodeMessage A v (CHECK_WEB_NAME_RESPONSE c) = encodeCheckWebNameResponse A c"

definition decodedAs :: "('p \<Rightarrow> 'a WebMessage) \<Rightarrow> 'p option result \<Rightarrow> 'a WebMessage option result" where
  "decodedAs msg r = bindE r (\<lambda>x. Inr (map_option msg x))"

definition decodeMessage :: "'a Archives \<Rightarrow> RawMessage \<Rightarrow> 'a WebMessage option result" where
  "decodeMessage A m = (case rawType m of
     TYPE_HANDSHAKE \<Rightarrow> decodedAs (\<lambda>v. BASIC HANDSHAKE) (decodeHandshake A m)
   | TYPE_SYNC \<Rightarrow> decodedAs (\<lambda>(t, xs). BASIC (SYNC t xs)) (decodeSync A m)
   | TYPE_SYNC_ACK \<Rightarrow> Inr (Some (BASIC SYNC_ACK))
   | TYPE_ACTION \<Rightarrow> decodedAs (\<lambda>(i, a). BASIC (ACTION i a)) (decodeAction A m)
   | TYPE_ACTION_ACK \<Rightarrow> decodedAs (\<lambda>i. BASIC (ACTION_ACK i)) (decodeActionAck A m)
   | TYPE_UNDO \<Rightarrow> decodedAs (\<lambda>i. BASIC (UNDO i)) (decodeUndo A m)
   | TYPE_UNDO_ACK \<Rightarrow> decodedAs (\<lambda>i. BASIC (UNDO_ACK i)) (decodeUndoAck A m)
   | TYPE_QUIT \<Rightarrow> Inr (Some (BASIC QUIT))
   | TYPE_CLOCK_SYNC \<Rightarrow> decodedAs (\<lambda>p. BASIC (CLOCK_SYNC p)) (decodeClockSync A m)
   | TYPE_CLOCK_SYNC_REQUEST \<Rightarrow> Inr (Some (BASIC CLOCK_SYNC_REQUEST))
   | TYPE_REQUEST_WEB_TOKEN \<Rightarrow> decodedAs (\<lambda>(e, p). REQUEST_WEB_TOKEN e p) (decodeRequestWebToken A m)
   | TYPE_REQUEST_WEB_TOKEN_RESPONSE \<Rightarrow> decodedAs (\<lambda>(r, t). REQUEST_WEB_TOKEN_RESPONSE r t) (decodeRequestWebTokenResponse A m)
   | TYPE_VALIDATE_WEB_TOKEN \<Rightarrow> decodedAs (\<lambda>(e, t). VALIDATE_WEB_TOKEN e t) (decodeValidateWebToken A m)
   | TYPE_VALIDATE_WEB_TOKEN_RESPONSE \<Rightarrow> decodedAs VALIDATE_WEB_TOKEN_RESPONSE (decodeValidateWebTokenResponse A m)
   | TYPE_REGISTER_WEB_NAME \<Rightarrow> decodedAs (\<lambda>(j, w). REGISTER_WEB_NAME j w) (decodeRegisterWebName A m)
   | TYPE_REGISTER_WEB_NAME_RESPONSE \<Rightarrow> decodedAs REGISTER_WEB_NAME_RESPONSE (decodeRegisterWebNameResponse A m)
   | TYPE_CHECK_WEB_NAME \<Rightarrow> decodedAs (\<lambda>(j, w). CHECK_WEB_NAME j w) (decodeCheckWebName A m)
   | TYPE_CHECK_WEB_NAME_RESPONSE \<Rightarrow> decodedAs CHECK_WEB_NAME_RESPONSE (decodeCheckWebNameResponse A m))"

subsection \<open>Connections\<close>

text \<open>What \<^verbatim>\<open>writeHeader\<close> and \<^verbatim>\<open>writeBody\<close> put on a connection. A body of size zero is not written, which leaves the same bytes.\<close>

definition wire :: "RawMessage \<Rightarrow> string" where
  "wire m = rawHeader m @ rawBody m"

text \<open>
  \<^verbatim>\<open>readHeader\<close> and \<^verbatim>\<open>readBody\<close> on the bytes that arrive. A connection that ends early, or a header that does not decode, is an
  error (\<open>None\<close>); otherwise the message and the bytes after it.
\<close>

definition connection_read :: "'a Archives \<Rightarrow> string \<Rightarrow> (RawMessage \<times> string) option" where
  "connection_read A bytes =
     (if length bytes < HEADER_LENGTH then None
      else case message_decodeHeader A (newRawMessage\<lparr>rawHeader := take HEADER_LENGTH bytes\<rparr>) of
             (False, m) \<Rightarrow> None
           | (True, m) \<Rightarrow>
               let rest = drop HEADER_LENGTH bytes; n = length (rawBody m)
               in if length rest < n then None else Some (m\<lparr>rawBody := take n rest\<rparr>, drop n rest))"

lemma connection_read_shrinks: "connection_read A bytes = Some (m, rest) \<Longrightarrow> length rest < length bytes"
  by (auto simp: connection_read_def HEADER_LENGTH_def Let_def split: if_splits prod.splits bool.splits)

text \<open>A connection that is read until it ends: the messages, and whether the end came between two messages.\<close>

function readAll :: "'a Archives \<Rightarrow> string \<Rightarrow> RawMessage list \<times> bool" where
  "readAll A bytes =
     (case connection_read A bytes of
        None \<Rightarrow> ([], bytes = [])
      | Some (m, rest) \<Rightarrow> (case readAll A rest of (ms, atEnd) \<Rightarrow> (m # ms, atEnd)))"
  by pat_completeness auto
termination by (relation "measure (\<lambda>(A, bytes). length bytes)") (auto dest: connection_read_shrinks)

declare readAll.simps [simp del]

subsection \<open>The handshake\<close>

datatype HandshakeError = IoError | ProtocolError | ProtocolNotSupported

text \<open>
  The handlers of \<^verbatim>\<open>asyncJoin\<close> and \<^verbatim>\<open>asyncAccept\<close>; \<open>None\<close> as the message that was read is a failed read. The
  version of the application itself is the first argument.
\<close>

definition join_onRead :: "'a Archives \<Rightarrow> ApplicationVersion \<Rightarrow> RawMessage option \<Rightarrow> (HandshakeError + RawMessage) result" where
  "join_onRead A current r = (case r of
     None \<Rightarrow> Inr (Inl IoError)
   | Some m \<Rightarrow>
       if rawType m \<noteq> TYPE_HANDSHAKE then Inr (Inl ProtocolError)
       else bindE (decodeHandshake A m) (\<lambda>x. case x of
              None \<Rightarrow> Inr (Inl ProtocolError)
            | Some version \<Rightarrow> if \<not> isCompatible version current then Inr (Inl ProtocolNotSupported)
                              else bindE (encodeHandshake A current) (\<lambda>reply. Inr (Inr reply))))"

definition accept_onRead :: "'a Archives \<Rightarrow> ApplicationVersion \<Rightarrow> RawMessage option \<Rightarrow> HandshakeError option result" where
  "accept_onRead A current r = (case r of
     None \<Rightarrow> Inr (Some IoError)
   | Some m \<Rightarrow>
       if rawType m \<noteq> TYPE_HANDSHAKE then Inr (Some ProtocolError)
       else bindE (decodeHandshake A m) (\<lambda>x. case x of
              None \<Rightarrow> Inr (Some ProtocolError)
            | Some version \<Rightarrow> Inr (if isCompatible current version then None else Some ProtocolNotSupported)))"

subsection \<open>Messages arrive as they were sent\<close>

text \<open>What is left of an action, of the content of a body and of a message when they have been archived and read back: an action that is not done.\<close>

definition archivedAction :: "'a Archives \<Rightarrow> 'a Action \<Rightarrow> 'a Action" where
  "archivedAction A a = Action False (archived_impl A (impl a))"

definition archivedList :: "'a Archives \<Rightarrow> 'a ActionList \<Rightarrow> 'a ActionList" where
  "archivedList A = map (map_prod id (archivedAction A))"

definition archivedPayload :: "'a Archives \<Rightarrow> 'a Payload \<Rightarrow> 'a Payload" where
  "archivedPayload A p = (case p of SyncBody t xs \<Rightarrow> SyncBody t (archivedList A xs) | ActionBody i a \<Rightarrow> ActionBody i (archivedAction A a) | _ \<Rightarrow> p)"

definition archivedMessage :: "'a Archives \<Rightarrow> 'a WebMessage \<Rightarrow> 'a WebMessage" where
  "archivedMessage A msg = (case msg of BASIC (SYNC t xs) \<Rightarrow> BASIC (SYNC t (archivedList A xs)) | BASIC (ACTION i a) \<Rightarrow> BASIC (ACTION i (archivedAction A a)) | _ \<Rightarrow> msg)"

text \<open>
  What is assumed of the libraries: an archive gives back the archived part of what was written, compression and the archive of the header give back what was written.
  That the sizes of a message can be allocated where it is read is a condition on the message.
\<close>

definition archives_ok :: "'a Archives \<Rightarrow> bool" where
  "archives_ok A \<longleftrightarrow> (\<forall>p s. archive_out A p = Some s \<longrightarrow> archive_in A (formatOf p) s = Some (archivedPayload A p)) \<and>
     (\<forall>s c. zstd_compress A s = Some c \<longrightarrow> zstd_decompress A (length s) c = Some s) \<and>
     (\<forall>ty n k h. header_out A (ty, n, k) = Some h \<longrightarrow> header_in A h = Some (ty, n, k))"

definition allocated :: "'a Archives \<Rightarrow> RawMessage \<Rightarrow> bool" where
  "allocated A m \<longleftrightarrow> canResize A (rawUncompressedSize m) \<and> canResize A (length (rawBody m))"

lemma encodeBody_decodes:
  assumes "archives_ok A" and "allocated A m" and "encodeBody A ty p = Inr m"
  shows "rawType m = ty \<and> (\<forall>f. f = formatOf p \<longrightarrow> decodeBody A f m = Inr (Some (archivedPayload A p)))"
  using assms by (auto simp: encodeBody_def serializeAndCompress_def message_encodeHeader_def decodeBody_def deserializeAndCompress_def archives_ok_def
      allocated_def Let_def newRawMessage_def split: option.splits)

lemma encodeEmpty_type: "encodeEmpty A ty = Inr m \<Longrightarrow> rawType m = ty"
  by (auto simp: encodeEmpty_def message_encodeHeader_def newRawMessage_def split: option.splits)

lemma encodeMessage_decodes:
  assumes "archives_ok A" and "allocated A m" and "encodeMessage A v msg = Inr m"
  shows "decodeMessage A m = Inr (Some (archivedMessage A msg))"
  using assms(3)
  by (cases "(A, v, msg)" rule: encodeMessage.cases)
    (auto simp: encode_defs decode_defs decodeMessage_def decodedAs_def archivedPayload_def archivedMessage_def
      dest!: encodeBody_decodes[OF assms(1,2)] encodeEmpty_type)

text \<open>Every encoder writes the size of the body into the header, so the message can be cut out of the bytes that follow.\<close>

definition framed :: "'a Archives \<Rightarrow> RawMessage \<Rightarrow> bool" where
  "framed A m \<longleftrightarrow> length (rawHeader m) = HEADER_LENGTH \<and>
     header_out A (rawType m, rawUncompressedSize m, length (rawBody m)) = Some (rawHeader m)"

lemma encoders_framed: "encodeBody A ty p = Inr m \<Longrightarrow> framed A m" "encodeEmpty A ty = Inr m \<Longrightarrow> framed A m"
  by (auto simp: encodeBody_def encodeEmpty_def serializeAndCompress_def message_encodeHeader_def framed_def Let_def split: option.splits)

lemma encodeMessage_framed: "encodeMessage A v msg = Inr m \<Longrightarrow> framed A m"
  by (cases "(A, v, msg)" rule: encodeMessage.cases) (auto simp: encode_defs dest: encoders_framed)

lemma readBytes_length [simp]: "length (readBytes n s) = n"
  by (simp add: readBytes_def)

lemma connection_read_wire:
  assumes "archives_ok A" and "allocated A m" and "framed A m"
  shows "connection_read A (wire m @ rest) = Some (m, rest)"
proof -
  have "length (rawHeader m) = HEADER_LENGTH" "header_in A (rawHeader m) = Some (rawType m, rawUncompressedSize m, length (rawBody m))"
    "canResize A (length (rawBody m))" using assms by (auto simp: archives_ok_def allocated_def framed_def)
  then show ?thesis
    by (cases m) (simp add: connection_read_def message_decodeHeader_def wire_def newRawMessage_def Let_def)
qed

text \<open>
  C16. A connection carries every sequence of messages: the bytes that the encoders of any messages put on a connection, one after
  the other, are read as exactly these messages in the same order, and nothing is left over, provided that the reader can allocate the sizes of
  these messages. Each decodes to the content it was made of; of the actions in it, what an archive keeps: they arrive as actions that have not
  been executed, without the data for their undo. Assumed of the libraries is that they read back what they have written.
\<close>
theorem network_stream_roundtrip:
  assumes "archives_ok A" and "list_all2 (\<lambda>msg m. encodeMessage A v msg = Inr m) msgs ms" and "\<forall>m \<in> set ms. allocated A m"
  shows "readAll A (concat (map wire ms)) = (ms, True) \<and> map (decodeMessage A) ms = map (\<lambda>msg. Inr (Some (archivedMessage A msg))) msgs"
  using assms(2,3)
proof (induction rule: list_all2_induct)
  case Nil
  show ?case by (subst readAll.simps) (simp add: connection_read_def HEADER_LENGTH_def)
next
  case (Cons msg msgs m ms)
  then have "allocated A m" by simp
  from encodeMessage_decodes[OF assms(1) this Cons.hyps(1)] connection_read_wire[OF assms(1) this encodeMessage_framed[OF Cons.hyps(1)]] Cons
  show ?case by (subst readAll.simps) simp
qed

text \<open>
  Archives for a few messages: logins, the version of the application, and actions that change the name of the tournament, of which the new name is archived.
\<close>

definition exampleArchives :: "FieldChange Archives" where
  "exampleArchives = \<lparr>
     archive_out = (\<lambda>p. case p of CredentialsBody e q \<Rightarrow> if length e < 256 then Some (char_of (length e) # e @ q) else None
       | VersionBody v \<Rightarrow> if v = \<lparr>mVersionMajor = 0, mVersionMinor = 7, mVersionPatch = 1\<rparr> then Some '''' else None
       | ActionBody i a \<Rightarrow> if i = ClientActionId 4 2 then (case impl a of TournamentName x \<Rightarrow> Some (mNewField x) | _ \<Rightarrow> None) else None
       | _ \<Rightarrow> None),
     archive_in = (\<lambda>f s. case f of CredentialsFormat \<Rightarrow> (case s of c # r \<Rightarrow> Some (CredentialsBody (take (of_char c) r) (drop (of_char c) r)) | [] \<Rightarrow> None)
       | VersionFormat \<Rightarrow> Some (VersionBody \<lparr>mVersionMajor = 0, mVersionMinor = 7, mVersionPatch = 1\<rparr>)
       | ActionFormat \<Rightarrow> Some (ActionBody (ClientActionId 4 2) (Action False (TournamentName \<lparr>mNewField = s, mOldField = ''''\<rparr>)))
       | _ \<Rightarrow> None),
     zstd_compress = Some, zstd_decompress = (\<lambda>n. Some),
     header_out = (\<lambda>(ty, n, k). if n < 256 \<and> k < 256 \<and> ty \<in> {TYPE_REQUEST_WEB_TOKEN, TYPE_ACTION, TYPE_HANDSHAKE}
       then Some ((if ty = TYPE_ACTION then CHR ''a'' else if ty = TYPE_HANDSHAKE then CHR ''h'' else CHR ''r'') # char_of n # char_of k # replicate 18 CHR 0x00)
       else None),
     header_in = (\<lambda>h. Some (if h ! 0 = CHR ''a'' then TYPE_ACTION else if h ! 0 = CHR ''h'' then TYPE_HANDSHAKE else TYPE_REQUEST_WEB_TOKEN,
       of_char (h ! 1), of_char (h ! 2))),
     canResize = (\<lambda>n. n \<le> 1000),
     archived_impl = change_freshClone\<rparr>"

lemma exampleArchives_ok: "archives_ok exampleArchives"
  by (auto simp: archives_ok_def exampleArchives_def archivedPayload_def archivedAction_def freshTournamentField_def split: if_splits Payload.splits FieldChange.splits)

text \<open>A login and an action that was executed, and has saved the old name, arrive; the action is not executed and has no old name.\<close>

theorem network_stream_roundtrip_witness:
  "\<exists>ms. readAll exampleArchives (concat (map wire ms)) = (ms, True) \<and>
     map (decodeMessage exampleArchives) ms = [Inr (Some (REQUEST_WEB_TOKEN ''ann'' ''secret'')),
       Inr (Some (BASIC (ACTION (ClientActionId 4 2) (Action False (TournamentName \<lparr>mNewField = ''Open'', mOldField = ''''\<rparr>)))))]"
proof -
  let ?v = "\<lparr>mVersionMajor = 0, mVersionMinor = 7, mVersionPatch = 1\<rparr>"
  let ?action = "BASIC (ACTION (ClientActionId 4 2) (Action True (TournamentName \<lparr>mNewField = ''Open'', mOldField = ''Cup''\<rparr>)))"
  obtain m n where mn: "encodeMessage exampleArchives ?v (REQUEST_WEB_TOKEN ''ann'' ''secret'') = Inr m" "encodeMessage exampleArchives ?v ?action = Inr n"
    "allocated exampleArchives m" "allocated exampleArchives n"
    by (simp add: encode_defs encodeBody_def serializeAndCompress_def message_encodeHeader_def exampleArchives_def newRawMessage_def HEADER_LENGTH_def allocated_def)
  have "archivedMessage exampleArchives ?action = BASIC (ACTION (ClientActionId 4 2) (Action False (TournamentName \<lparr>mNewField = ''Open'', mOldField = ''''\<rparr>)))"
    by (simp add: archivedMessage_def archivedAction_def exampleArchives_def freshTournamentField_def)
  with network_stream_roundtrip[OF exampleArchives_ok, of ?v "[REQUEST_WEB_TOKEN ''ann'' ''secret'', ?action]" "[m, n]"] mn show ?thesis
    by (intro exI[of _ "[m, n]"]) (simp add: archivedMessage_def)
qed

text \<open>
  The handshake opens a connection exactly between applications whose versions agree in the major and the minor number; the side that
  joins is the one that notices a difference.
\<close>

lemma handshake_iff_compatible:
  assumes "archives_ok A" and "allocated A ha" and "allocated A hb" and "encodeHandshake A a = Inr ha" and "encodeHandshake A b = Inr hb"
  shows "join_onRead A b (Some ha) = Inr (if isCompatible a b then Inr hb else Inl ProtocolNotSupported)"
    and "isCompatible a b \<Longrightarrow> accept_onRead A a (Some hb) = Inr None"
  using encodeBody_decodes[OF assms(1,2), of TYPE_HANDSHAKE "VersionBody a"] encodeBody_decodes[OF assms(1,3), of TYPE_HANDSHAKE "VersionBody b"] assms(4,5)
  by (simp_all add: archivedPayload_def join_onRead_def accept_onRead_def encodeHandshake_def decodeHandshake_def isCompatible_def)

text \<open>
  The size in a header is believed: a message whose header names a size that cannot be allocated throws from the decoder, whatever its body is,
  and no handler catches it.
\<close>

lemma huge_size_throws:
  "\<not> canResize A (rawUncompressedSize m) \<Longrightarrow> rawType m \<notin> {TYPE_SYNC_ACK, TYPE_QUIT, TYPE_CLOCK_SYNC_REQUEST} \<Longrightarrow>
   decodeMessage A m = Inl (RuntimeError ''std::bad_alloc'')"
  by (cases "rawType m") (simp_all add: decodeMessage_def decodedAs_def decode_defs decodeBody_def deserializeAndCompress_def)

end
