(* ===== verification/Web_Participant.thy ===== *)
theory Web_Participant
  imports Loaded_Actions Auto_Categories Web_Database
begin

section \<open>The connection of a browser to the web server\<close>

text \<open>
  Models \<^verbatim>\<open>src/web/web_participant.hpp\<close> and \<^verbatim>\<open>web_participant.cpp\<close>, and the conversions between identifiers and strings of
  \<^verbatim>\<open>src/core/id.hpp\<close>. A browser sends requests as lines of text over a websocket and gets JSON documents.

  \<open>mWsConnection\<close> tells whether \<^verbatim>\<open>mConnection\<close> is not null, \<open>mWsTournament\<close> is the web name of the tournament that \<^verbatim>\<open>mTournament\<close>
  points to. What the participant asks of the server and of tournaments is collected in \<open>mWsCalls\<close>; a call of
  \<^verbatim>\<open>getTournament\<close> or \<^verbatim>\<open>asyncListTournaments\<close> is answered later by \<open>onTournamentFound\<close> or \<open>onListing\<close>.
\<close>

subsection \<open>Numbers in strings\<close>

definition isSpace :: "char \<Rightarrow> bool" where
  "isSpace c \<longleftrightarrow> (of_char c :: nat) \<in> {9, 10, 11, 12, 13, 32}"

definition isDigit :: "char \<Rightarrow> bool" where
  "isDigit c \<longleftrightarrow> 48 \<le> (of_char c :: nat) \<and> (of_char c :: nat) \<le> 57"

definition digitsValue :: "string \<Rightarrow> nat" where
  "digitsValue ds = foldl (\<lambda>n c. 10 * n + (of_char c - 48)) 0 ds"

text \<open>\<^verbatim>\<open>std::stoul\<close>: white space, a sign, digits; the rest is ignored. A negative number wraps around.\<close>

definition stoul :: "string \<Rightarrow> 64 word result" where
  "stoul s =
     (let s1 = dropWhile isSpace s;
          negative = (s1 \<noteq> [] \<and> hd s1 = CHR ''-'');
          s2 = (if s1 \<noteq> [] \<and> (hd s1 = CHR ''-'' \<or> hd s1 = CHR ''+'') then tl s1 else s1);
          ds = takeWhile isDigit s2
      in if ds = [] then Inl InvalidArgument
         else if digitsValue ds > 2 ^ 64 - 1 then Inl OutOfRange
         else Inr (if negative then - of_nat (digitsValue ds) else of_nat (digitsValue ds)))"

definition Id_of_string :: "string \<Rightarrow> u32 result" where
  "Id_of_string s = (case stoul s of Inl e \<Rightarrow> Inl InvalidArgument | Inr v \<Rightarrow> Inr (ucast v))"

definition Id_toString :: "u32 \<Rightarrow> string" where
  "Id_toString i = to_string (unat i)"

subsection \<open>State\<close>

datatype WsCall =
    GetTournament string
  | ListTournaments
  | AddParticipant string
  | EraseParticipant string
  | SubscribeCategory string CategoryId
  | SubscribePlayer string PlayerId
  | SubscribeTatami string nat
  | WsLeave bool

record WebParticipant =
  mWsConnection :: bool
  mWsTournament :: "string option"
  mWsWriteQueue :: "json list"
  mWsClosePosted :: bool
  mWsPosted :: "json list"
  mWsListening :: bool
  mWsWriting :: bool
  mWsCalls :: "WsCall list"

definition newWebParticipant :: WebParticipant where
  "newWebParticipant = \<lparr>mWsConnection = True, mWsTournament = None, mWsWriteQueue = [], mWsClosePosted = False, mWsPosted = [],
     mWsListening = False, mWsWriting = False, mWsCalls = []\<rparr>"

definition wsCall :: "WsCall \<Rightarrow> WebParticipant \<Rightarrow> WebParticipant" where
  "wsCall c p = p\<lparr>mWsCalls := mWsCalls p @ [c]\<rparr>"

subsection \<open>Writing and closing\<close>

definition ws_deliver :: "json \<Rightarrow> WebParticipant \<Rightarrow> WebParticipant" where
  "ws_deliver m p = p\<lparr>mWsPosted := mWsPosted p @ [m]\<rparr>"

definition ws_write :: "WebParticipant \<Rightarrow> WebParticipant result" where
  "ws_write p = (if mWsConnection p then Inr (p\<lparr>mWsWriting := True\<rparr>) else Inl UndefinedBehaviour)"

definition ws_deliverPosted :: "json \<Rightarrow> WebParticipant \<Rightarrow> WebParticipant result" where
  "ws_deliverPosted m p =
     (if mWsClosePosted p then Inr p
      else let writeInProgress = (mWsWriteQueue p \<noteq> []);
               p1 = p\<lparr>mWsWriteQueue := mWsWriteQueue p @ [m]\<rparr>
           in if \<not> writeInProgress then ws_write p1 else Inr p1)"

definition leaveTournament :: "WebParticipant \<Rightarrow> WebParticipant" where
  "leaveTournament p =
     (case mWsTournament p of
        None \<Rightarrow> p
      | Some webName \<Rightarrow> wsCall (EraseParticipant webName) (p\<lparr>mWsTournament := None\<rparr>))"

definition forceClose :: "WebParticipant \<Rightarrow> WebParticipant" where
  "forceClose p = wsCall (WsLeave False) ((leaveTournament p)\<lparr>mWsConnection := False\<rparr>)"

definition ws_written :: "bool \<Rightarrow> WebParticipant \<Rightarrow> WebParticipant result" where
  "ws_written ec p0 =
     (let p = p0\<lparr>mWsWriting := False\<rparr> in
      if mWsClosePosted p then Inr p
      else if ec then Inr (forceClose p)
      else if mWsWriteQueue p = [] then Inl UndefinedBehaviour
      else let p1 = p\<lparr>mWsWriteQueue := tl (mWsWriteQueue p)\<rparr>
           in if mWsWriteQueue p1 \<noteq> [] then ws_write p1 else Inr p1)"

text \<open>\<^verbatim>\<open>asyncClose\<close> sends the close frame; its handler releases the connection and leaves with the callback of the caller.\<close>

definition ws_asyncClose :: "WebParticipant \<Rightarrow> WebParticipant result" where
  "ws_asyncClose p = (if mWsConnection p then Inr (p\<lparr>mWsClosePosted := True\<rparr>) else Inl UndefinedBehaviour)"

definition ws_closed :: "WebParticipant \<Rightarrow> WebParticipant" where
  "ws_closed p = wsCall (WsLeave True) ((leaveTournament p)\<lparr>mWsConnection := False\<rparr>)"

subsection \<open>Requests\<close>

definition allowedChar :: "char \<Rightarrow> bool" where
  "allowedChar c \<longleftrightarrow> (CHR ''a'' \<le> c \<and> c \<le> CHR ''z'') \<or> (CHR ''A'' \<le> c \<and> c \<le> CHR ''Z'') \<or>
     (CHR ''0'' \<le> c \<and> c \<le> CHR ''9'') \<or> c = CHR ''-'' \<or> c = CHR '' ''"

definition validateMessage :: "string \<Rightarrow> bool" where
  "validateMessage message \<longleftrightarrow> \<not> (message = [] \<or> length message > 200) \<and> list_all allowedChar message"

text \<open>\<^verbatim>\<open>boost::split\<close> at spaces: one part more than there are spaces.\<close>

fun splitSpaces :: "string \<Rightarrow> string list" where
  "splitSpaces [] = [[]]"
| "splitSpaces (c # cs) =
     (if c = CHR '' '' then [] # splitSpaces cs
      else case splitSpaces cs of [] \<Rightarrow> [[c]] | w # ws \<Rightarrow> (c # w) # ws)"

definition ws_subscribeTournament :: "string \<Rightarrow> WebParticipant \<Rightarrow> bool \<times> WebParticipant" where
  "ws_subscribeTournament webName p = (True, wsCall (GetTournament webName) p)"

text \<open>The exceptions of the conversion are caught; a null pointer is only tested for categories and players.\<close>

definition ws_subscribeCategory :: "string \<Rightarrow> WebParticipant \<Rightarrow> bool \<times> WebParticipant" where
  "ws_subscribeCategory str p =
     (case mWsTournament p of
        None \<Rightarrow> (False, p)
      | Some webName \<Rightarrow>
          (case Id_of_string str of
             Inl e \<Rightarrow> (False, p)
           | Inr i \<Rightarrow> (True, wsCall (SubscribeCategory webName i) p)))"

definition ws_subscribePlayer :: "string \<Rightarrow> WebParticipant \<Rightarrow> bool \<times> WebParticipant" where
  "ws_subscribePlayer str p =
     (case mWsTournament p of
        None \<Rightarrow> (False, p)
      | Some webName \<Rightarrow>
          (case Id_of_string str of
             Inl e \<Rightarrow> (False, p)
           | Inr i \<Rightarrow> (True, wsCall (SubscribePlayer webName i) p)))"

definition ws_subscribeTatami :: "string \<Rightarrow> WebParticipant \<Rightarrow> (bool \<times> WebParticipant) result" where
  "ws_subscribeTatami str p =
     (case stoul str of
        Inl e \<Rightarrow> Inr (False, p)
      | Inr v \<Rightarrow>
          (case mWsTournament p of
             None \<Rightarrow> Inl UndefinedBehaviour
           | Some webName \<Rightarrow> Inr (True, wsCall (SubscribeTatami webName (unat (ucast v :: u32))) p)))"

definition ws_listTournaments :: "WebParticipant \<Rightarrow> bool \<times> WebParticipant" where
  "ws_listTournaments p = (True, wsCall ListTournaments p)"

definition ws_clock :: "int \<Rightarrow> WebParticipant \<Rightarrow> bool \<times> WebParticipant" where
  "ws_clock now p = (True, ws_deliver (encodeClockMessage now) p)"

definition parseMessage :: "int \<Rightarrow> string \<Rightarrow> WebParticipant \<Rightarrow> (bool \<times> WebParticipant) result" where
  "parseMessage now message p =
     (if \<not> validateMessage message then Inr (False, p)
      else let parts = splitSpaces message in
        if parts ! 0 = ''subscribeTournament'' then
          (if length parts \<noteq> 2 then Inr (False, p) else Inr (ws_subscribeTournament (parts ! 1) p))
        else if parts ! 0 = ''subscribeCategory'' then
          (if length parts \<noteq> 2 then Inr (False, p) else Inr (ws_subscribeCategory (parts ! 1) p))
        else if parts ! 0 = ''subscribePlayer'' then
          (if length parts \<noteq> 2 then Inr (False, p) else Inr (ws_subscribePlayer (parts ! 1) p))
        else if parts ! 0 = ''subscribeTatami'' then
          (if length parts \<noteq> 2 then Inr (False, p) else ws_subscribeTatami (parts ! 1) p)
        else if parts ! 0 = ''listTournaments'' then
          (if length parts \<noteq> 1 then Inr (False, p) else Inr (ws_listTournaments p))
        else if parts ! 0 = ''clock'' then
          (if length parts \<noteq> 1 then Inr (False, p) else Inr (ws_clock now p))
        else Inr (False, p))"

definition ws_listen :: "WebParticipant \<Rightarrow> WebParticipant result" where
  "ws_listen p = (if mWsConnection p then Inr (p\<lparr>mWsListening := True\<rparr>) else Inl UndefinedBehaviour)"

text \<open>The handler of a read: \<open>None\<close> is an error code. A request that is not understood is only logged.\<close>

definition ws_read :: "int \<Rightarrow> string option \<Rightarrow> WebParticipant \<Rightarrow> WebParticipant result" where
  "ws_read now message p0 =
     (let p = p0\<lparr>mWsListening := False\<rparr> in
      if mWsClosePosted p then Inr p
      else case message of
          None \<Rightarrow> Inr (forceClose p)
        | Some m \<Rightarrow> bindE (parseMessage now m p) (\<lambda>(_, p1). ws_listen p1))"

subsection \<open>Answers\<close>

definition onTournamentFound :: "string option \<Rightarrow> WebParticipant \<Rightarrow> WebParticipant" where
  "onTournamentFound found p =
     (if mWsClosePosted p then p
      else case found of
          None \<Rightarrow> ws_deliver encodeTournamentSubscriptionFailMessage p
        | Some webName \<Rightarrow> (wsCall (AddParticipant webName) p)\<lparr>mWsTournament := Some webName\<rparr>)"

definition onListing :: "(TournamentListing list \<times> TournamentListing list) option \<Rightarrow> WebParticipant \<Rightarrow> WebParticipant" where
  "onListing result p =
     (if mWsClosePosted p then p
      else case result of
          None \<Rightarrow> ws_deliver encodeTournamentListingFailMessage p
        | Some (past, upcoming) \<Rightarrow> ws_deliver (encodeTournamentListingMessage past upcoming) p)"

subsection \<open>Identifiers as strings\<close>

lemma digit_char: "d < 10 \<Longrightarrow> (of_char (char_of (d + 48)) :: nat) = d + 48"
  by (simp add: of_char_of)

lemma digitsValue_snoc: "digitsValue (ds @ [c]) = 10 * digitsValue ds + (of_char c - 48)"
  by (simp add: digitsValue_def)

lemma to_string_digits: "list_all isDigit (to_string n) \<and> to_string n \<noteq> [] \<and> digitsValue (to_string n) = n"
proof (induction n rule: to_string.induct)
  case (1 n)
  show ?case
  proof (cases "n < 10")
    case True
    then show ?thesis using digit_char[of n] by (simp add: to_string.simps[of n] isDigit_def digitsValue_def add.commute)
  next
    case False
    moreover have "(of_char (char_of (n mod 10 + 48)) :: nat) = n mod 10 + 48" by (rule digit_char) simp
    ultimately show ?thesis using 1 by (simp add: to_string.simps[of n] isDigit_def digitsValue_snoc)
  qed
qed

lemma to_string_length: "n < 10 ^ k \<Longrightarrow> 0 < k \<Longrightarrow> length (to_string n) \<le> k"
proof (induction k arbitrary: n)
  case (Suc k)
  show ?case
  proof (cases "n < 10")
    case False
    then have "0 < k" using Suc.prems by (cases k) auto
    moreover have "n div 10 < 10 ^ k" using Suc.prems(1) by (auto intro: less_mult_imp_div_less simp: mult.commute)
    ultimately show ?thesis using Suc.IH[of "n div 10"] False by (simp add: to_string.simps[of n])
  qed (simp add: to_string.simps)
qed simp

lemma digit_bounds: "isDigit c \<Longrightarrow> \<not> isSpace c \<and> c \<noteq> CHR ''-'' \<and> c \<noteq> CHR ''+'' \<and> c \<noteq> CHR '' ''"
  by (auto simp: isDigit_def isSpace_def)

lemma digit_allowed: "isDigit c \<Longrightarrow> allowedChar c"
  by (simp add: isDigit_def allowedChar_def less_eq_char_def)

lemma stoul_to_string: "n < 2 ^ 64 \<Longrightarrow> stoul (to_string n) = Inr (of_nat n)"
proof -
  assume n: "n < 2 ^ 64"
  obtain c cs where s: "to_string n = c # cs" using to_string_digits[of n] by (cases "to_string n") auto
  have digits: "isDigit c" "list_all isDigit (c # cs)" and v: "digitsValue (c # cs) = n" using to_string_digits[of n] s by auto
  then have "takeWhile isDigit (c # cs) = c # cs" by (simp add: takeWhile_eq_all_conv list_all_iff)
  then show ?thesis using digit_bounds[OF digits(1)] v n s by (simp add: stoul_def Let_def)
qed

lemma unat_u32: "unat (i :: u32) < 2 ^ 32"
  using unsigned_less[of i, where ?'a = nat] by simp

lemma ucast_ucast_u32: "ucast (ucast i :: 64 word) = (i :: u32)"
  by (rule bit_word_eqI) (simp add: bit_ucast_iff)

lemma Id_of_string_toString: "Id_of_string (Id_toString i) = Inr i"
proof -
  have "unat i < 2 ^ 64" using unat_u32[of i] by simp
  then show ?thesis by (simp add: Id_of_string_def Id_toString_def stoul_to_string ucast_ucast_u32)
qed

subsection \<open>Requests are understood\<close>

lemma splitSpaces_word: "list_all (\<lambda>c. c \<noteq> CHR '' '') w \<Longrightarrow> splitSpaces w = [w]"
  by (induction w) auto

lemma splitSpaces_two:
  "list_all (\<lambda>c. c \<noteq> CHR '' '') v \<Longrightarrow> list_all (\<lambda>c. c \<noteq> CHR '' '') w \<Longrightarrow> splitSpaces (v @ CHR '' '' # w) = [v, w]"
  by (induction v) (auto simp: splitSpaces_word)

definition webNameChar :: "char \<Rightarrow> bool" where
  "webNameChar c \<longleftrightarrow> allowedChar c \<and> c \<noteq> CHR '' ''"

lemma validate_request:
  "list_all webNameChar v \<Longrightarrow> list_all webNameChar w \<Longrightarrow> length v + length w < 200 \<Longrightarrow> validateMessage (v @ CHR '' '' # w)"
  by (auto simp: validateMessage_def list_all_iff webNameChar_def allowedChar_def)

lemma split_request: "list_all webNameChar v \<Longrightarrow> list_all webNameChar w \<Longrightarrow> splitSpaces (v @ CHR '' '' # w) = [v, w]"
  by (rule splitSpaces_two) (auto simp: list_all_iff webNameChar_def)

lemma commands_allowed:
  "list_all webNameChar ''subscribeTournament''" "list_all webNameChar ''subscribeCategory''"
  "list_all webNameChar ''subscribePlayer''" "list_all webNameChar ''subscribeTatami''"
  by (simp_all add: webNameChar_def allowedChar_def less_eq_char_def)

lemma digits_allowed: "list_all isDigit ds \<Longrightarrow> list_all webNameChar ds"
  by (auto simp: list_all_iff webNameChar_def digit_allowed dest: digit_bounds)

lemma Id_toString_allowed: "list_all webNameChar (Id_toString i) \<and> length (Id_toString i) \<le> 10"
proof -
  have "unat i < 10 ^ 10" using unat_u32[of i] by simp
  then show ?thesis using to_string_length[of "unat i" 10] to_string_digits[of "unat i"] by (simp add: Id_toString_def digits_allowed)
qed

text \<open>
  The web server understands the requests of browsers: with the command, a space and the decimal form of any 32-bit identifier it
  subscribes to exactly that category, player or tatami of the current tournament, and with a web name of letters, digits and
  hyphens (up to 180 of them) it asks for that tournament.
\<close>

theorem browser_requests_understood:
  assumes "mWsTournament p = Some webName" and "list_all webNameChar name" and "length name \<le> 180"
  shows "parseMessage now (''subscribeTournament'' @ CHR '' '' # name) p = Inr (True, wsCall (GetTournament name) p) \<and>
    parseMessage now (''subscribeCategory'' @ CHR '' '' # Id_toString i) p = Inr (True, wsCall (SubscribeCategory webName i) p) \<and>
    parseMessage now (''subscribePlayer'' @ CHR '' '' # Id_toString j) p = Inr (True, wsCall (SubscribePlayer webName j) p) \<and>
    parseMessage now (''subscribeTatami'' @ CHR '' '' # Id_toString k) p = Inr (True, wsCall (SubscribeTatami webName (unat k)) p)"
proof -
  have ids: "list_all webNameChar (Id_toString i)" "length (Id_toString i) \<le> 10" for i using Id_toString_allowed by auto
  have k: "stoul (Id_toString k) = Inr (of_nat (unat k))"
    using unat_u32[of k] by (simp add: Id_toString_def stoul_to_string)
  have "parseMessage now (''subscribeTournament'' @ CHR '' '' # name) p = Inr (True, wsCall (GetTournament name) p)"
    using validate_request[OF commands_allowed(1) assms(2)] split_request[OF commands_allowed(1) assms(2)] assms(3)
    by (simp add: parseMessage_def ws_subscribeTournament_def)
  moreover have "parseMessage now (''subscribeCategory'' @ CHR '' '' # Id_toString i) p = Inr (True, wsCall (SubscribeCategory webName i) p)"
    using validate_request[OF commands_allowed(2) ids(1)[of i]] split_request[OF commands_allowed(2) ids(1)[of i]] ids(2)[of i] assms(1)
    by (simp add: parseMessage_def ws_subscribeCategory_def Id_of_string_toString)
  moreover have "parseMessage now (''subscribePlayer'' @ CHR '' '' # Id_toString j) p = Inr (True, wsCall (SubscribePlayer webName j) p)"
    using validate_request[OF commands_allowed(3) ids(1)[of j]] split_request[OF commands_allowed(3) ids(1)[of j]] ids(2)[of j] assms(1)
    by (simp add: parseMessage_def ws_subscribePlayer_def Id_of_string_toString)
  moreover have "parseMessage now (''subscribeTatami'' @ CHR '' '' # Id_toString k) p = Inr (True, wsCall (SubscribeTatami webName (unat k)) p)"
    using validate_request[OF commands_allowed(4) ids(1)[of k]] split_request[OF commands_allowed(4) ids(1)[of k]] ids(2)[of k] assms(1) k
    by (simp add: parseMessage_def ws_subscribeTatami_def ucast_ucast_u32)
  ultimately show ?thesis by blast
qed

theorem browser_requests_understood_witness:
  "parseMessage 0 (''subscribeCategory'' @ CHR '' '' # Id_toString 4294967295) (newWebParticipant\<lparr>mWsTournament := Some ''cup''\<rparr>) =
     Inr (True, wsCall (SubscribeCategory ''cup'' 4294967295) (newWebParticipant\<lparr>mWsTournament := Some ''cup''\<rparr>))"
  using browser_requests_understood[of "newWebParticipant\<lparr>mWsTournament := Some ''cup''\<rparr>" "''cup''" "''open''" 0 4294967295 1 2]
  by (simp add: webNameChar_def allowedChar_def less_eq_char_def)

text \<open>A request fails only where the null pointer is not tested: a subscription to a tatami before any tournament.\<close>

lemma parseMessage_fails_only_for_tatami:
  "parseMessage now m p = Inl e \<Longrightarrow> e = UndefinedBehaviour \<and> mWsTournament p = None \<and> splitSpaces m ! 0 = ''subscribeTatami''"
  by (auto simp: parseMessage_def ws_subscribeTatami_def Let_def split: if_splits sum.splits option.splits)

lemma tatami_without_tournament_crashes:
  "mWsTournament p = None \<Longrightarrow> parseMessage now ''subscribeTatami 0'' p = Inl UndefinedBehaviour"
  by (simp add: parseMessage_def validateMessage_def allowedChar_def less_eq_char_def ws_subscribeTatami_def stoul_def isSpace_def isDigit_def
    digitsValue_def Let_def)

end
