(* ===== verification/Web_Server.thy ===== *)
theory Web_Server
  imports Tcp_Participant Web_Participant
begin

section \<open>The web server\<close>

text \<open>
  Models \<^verbatim>\<open>src/web/web_server.hpp\<close> and \<^verbatim>\<open>web_server.cpp\<close>, and puts the parts of the web server together: the applications that
  own tournaments (\<open>Tcp_Participant\<close>), the browsers that watch them (\<open>Web_Participant\<close>), the tournaments (\<open>Loaded_Tournament\<close>) and
  the database (\<open>Web_Database\<close>).

  Every object runs its handlers on a strand, so a step of the server is one handler of one object. What a handler posts to
  another object is a pending call: \<open>mServerCalls\<close> and \<open>mWsCalls\<close> of the participants, executed in order, the call
  an application waits for (\<open>mAwaiting\<close>), and the stages of \<^verbatim>\<open>getTournament\<close> in \<open>mFetches\<close>. Participants are numbers; the objects
  stay in \<open>mTcpObjects\<close> and \<open>mWsObjects\<close> after they have left the sets of the server, because handlers that are under way keep them
  alive. A tournament is never removed from \<open>mLoadedTournaments\<close>, so its web name stands for the pointer to it.
\<close>

text \<open>A fetch of a tournament for a browser: before the look-up, before the query of the database, before and after loading.\<close>

datatype 'a Fetch =
    FetchLookup nat string
  | FetchStatus nat string
  | FetchLoad nat string
  | FetchLoaded nat string bool "'a LoadedTournament"

datatype Callback = CloseWebParticipants | SaveTournaments

record 'a WebServer =
  mDatabase :: Database
  mLoadedTournaments :: "string \<rightharpoonup> 'a LoadedTournament"
  mTcpObjects :: "nat \<rightharpoonup> 'a TCPParticipant"
  mParticipantSet :: "nat set"
  mWsObjects :: "nat \<rightharpoonup> WebParticipant"
  mWebParticipantSet :: "nat set"
  mFetches :: "'a Fetch list"
  mListings :: "nat list"
  mCallbacks :: "Callback list"
  mTcpCloseRequests :: "nat list"
  mWsCloseRequests :: "nat list"
  mSaves :: "(string \<times> string) list"
  mDataDirectory :: "string \<rightharpoonup> string"
  mAccepting :: bool

definition newWebServer :: "Database \<Rightarrow> (string \<rightharpoonup> string) \<Rightarrow> 'a WebServer" where
  "newWebServer db disk = \<lparr>mDatabase = db, mLoadedTournaments = Map.empty, mTcpObjects = Map.empty, mParticipantSet = {}, mWsObjects = Map.empty,
     mWebParticipantSet = {}, mFetches = [], mListings = [], mCallbacks = [], mTcpCloseRequests = [], mWsCloseRequests = [], mSaves = [], mDataDirectory = disk,
     mAccepting = True\<rparr>"

definition putTcp :: "nat \<Rightarrow> 'a TCPParticipant \<Rightarrow> 'a WebServer \<Rightarrow> 'a WebServer" where
  "putTcp n p s = s\<lparr>mTcpObjects := (mTcpObjects s)(n \<mapsto> p)\<rparr>"

definition putWs :: "nat \<Rightarrow> WebParticipant \<Rightarrow> 'a WebServer \<Rightarrow> 'a WebServer" where
  "putWs n p s = s\<lparr>mWsObjects := (mWsObjects s)(n \<mapsto> p)\<rparr>"

subsection \<open>Joining and leaving\<close>

definition tcpAccept :: "nat \<Rightarrow> 'a WebServer \<Rightarrow> 'a WebServer result" where
  "tcpAccept n s =
     (if \<not> mAccepting s then Inr s
      else bindE (asyncAuth newTCPParticipant) (\<lambda>p. Inr ((putTcp n p s)\<lparr>mParticipantSet := insert n (mParticipantSet s)\<rparr>)))"

definition webAccept :: "nat \<Rightarrow> 'a WebServer \<Rightarrow> 'a WebServer result" where
  "webAccept n s =
     (if \<not> mAccepting s then Inr s
      else bindE (ws_listen newWebParticipant) (\<lambda>p. Inr ((putWs n p s)\<lparr>mWebParticipantSet := insert n (mWebParticipantSet s)\<rparr>)))"

definition postCallback :: "bool \<Rightarrow> Callback \<Rightarrow> 'a WebServer \<Rightarrow> 'a WebServer" where
  "postCallback wanted c s = (if wanted then s\<lparr>mCallbacks := mCallbacks s @ [c]\<rparr> else s)"

definition leave_tcp :: "nat \<Rightarrow> bool \<Rightarrow> 'a WebServer \<Rightarrow> 'a WebServer" where
  "leave_tcp n callback s = postCallback callback CloseWebParticipants (s\<lparr>mParticipantSet := mParticipantSet s - {n}\<rparr>)"

definition leave_web :: "nat \<Rightarrow> bool \<Rightarrow> 'a WebServer \<Rightarrow> 'a WebServer" where
  "leave_web n callback s = postCallback callback SaveTournaments (s\<lparr>mWebParticipantSet := mWebParticipantSet s - {n}\<rparr>)"

subsection \<open>Tournaments\<close>

text \<open>Messages of a tournament to browsers are posted to the participants.\<close>

definition distribute :: "string \<Rightarrow> 'a LoadedTournament \<Rightarrow> 'a WebServer \<Rightarrow> 'a WebServer" where
  "distribute webName l s =
     fold (\<lambda>(n, m) s. case mWsObjects s n of None \<Rightarrow> s | Some p \<Rightarrow> putWs n (ws_deliver m p) s) (mDelivered l)
       (s\<lparr>mLoadedTournaments := (mLoadedTournaments s)(webName \<mapsto> l\<lparr>mDelivered := []\<rparr>)\<rparr>)"

definition onTournamentOf :: "string \<Rightarrow> ('a LoadedTournament \<Rightarrow> 'a LoadedTournament result) \<Rightarrow> 'a WebServer \<Rightarrow> 'a WebServer result" where
  "onTournamentOf webName f s =
     (case mLoadedTournaments s webName of
        None \<Rightarrow> Inr s
      | Some l \<Rightarrow> bindE (f l) (\<lambda>l'. Inr (distribute webName l' s)))"

definition acquireTournament :: "string \<Rightarrow> 'a WebServer \<Rightarrow> 'a WebServer" where
  "acquireTournament webName s =
     (case mLoadedTournaments s webName of
        Some l \<Rightarrow> s
      | None \<Rightarrow> s\<lparr>mLoadedTournaments := (mLoadedTournaments s)(webName \<mapsto> newLoadedTournament webName (mDataDirectory s webName))\<rparr>)"

definition found :: "nat \<Rightarrow> string option \<Rightarrow> 'a WebServer \<Rightarrow> 'a WebServer" where
  "found n result s = (case mWsObjects s n of None \<Rightarrow> s | Some p \<Rightarrow> putWs n (onTournamentFound result p) s)"

fun getTournament :: "Codec \<Rightarrow> (nat \<Rightarrow> bool) \<Rightarrow> int \<Rightarrow> 'a Fetch \<Rightarrow> 'a WebServer \<Rightarrow> 'a WebServer result" where
  "getTournament C ok now (FetchLookup n webName) s =
     (case mLoadedTournaments s webName of
        Some l \<Rightarrow> Inr (found n (Some webName) s)
      | None \<Rightarrow> Inr (s\<lparr>mFetches := mFetches s @ [FetchStatus n webName]\<rparr>))"
| "getTournament C ok now (FetchStatus n webName) s =
     (if \<not> getSaveStatus ok webName (mDatabase s) then Inr (found n None s)
      else Inr (s\<lparr>mFetches := mFetches s @ [FetchLoad n webName]\<rparr>))"
| "getTournament C ok now (FetchLoad n webName) s =
     bindE (lt_load C now (newLoadedTournament webName (mDataDirectory s webName))) (\<lambda>(success, l).
       Inr (s\<lparr>mFetches := mFetches s @ [FetchLoaded n webName success l]\<rparr>))"
| "getTournament C ok now (FetchLoaded n webName success l) s =
     (case mLoadedTournaments s webName of
        Some l' \<Rightarrow> Inr (found n (Some webName) s)
      | None \<Rightarrow>
          if success then Inr (found n (Some webName) (s\<lparr>mLoadedTournaments := (mLoadedTournaments s)(webName \<mapsto> l)\<rparr>))
          else Inr (found n None s))"

subsection \<open>Shutting down\<close>

definition saveTournaments :: "Codec \<Rightarrow> string list \<Rightarrow> 'a WebServer \<Rightarrow> 'a WebServer result" where
  "saveTournaments C names s =
     (if mParticipantSet s \<noteq> {} then Inr s
      else if mWebParticipantSet s \<noteq> {} then Inr s
      else foldE (\<lambda>webName s.
             case mLoadedTournaments s webName of
               None \<Rightarrow> Inr s
             | Some l \<Rightarrow> bindE (lt_saveIfNeccesary C l) (\<lambda>(u, l').
                 let s1 = s\<lparr>mLoadedTournaments := (mLoadedTournaments s)(webName \<mapsto> l')\<rparr>
                 in Inr (case u of None \<Rightarrow> s1 | Some uncompressed \<Rightarrow> s1\<lparr>mSaves := mSaves s1 @ [(webName, uncompressed)]\<rparr>))) names s)"

definition closeWebParticipants :: "'a WebServer \<Rightarrow> 'a WebServer" where
  "closeWebParticipants s =
     (if mParticipantSet s \<noteq> {} then s
      else if mWebParticipantSet s \<noteq> {}
           then s\<lparr>mWsCloseRequests := mWsCloseRequests s @ sorted_list_of_set (mWebParticipantSet s)\<rparr>
           else s\<lparr>mCallbacks := mCallbacks s @ [SaveTournaments]\<rparr>)"

definition quit :: "'a WebServer \<Rightarrow> 'a WebServer" where
  "quit s =
     (let s1 = s\<lparr>mAccepting := False\<rparr> in
      if mParticipantSet s1 \<noteq> {}
      then s1\<lparr>mTcpCloseRequests := mTcpCloseRequests s1 @ sorted_list_of_set (mParticipantSet s1)\<rparr>
      else s1\<lparr>mCallbacks := mCallbacks s1 @ [CloseWebParticipants]\<rparr>)"

text \<open>A callback that was posted; \<open>names\<close> is the order in which the map of tournaments is traversed.\<close>

definition runCallback :: "Codec \<Rightarrow> string list \<Rightarrow> Callback \<Rightarrow> 'a WebServer \<Rightarrow> 'a WebServer result" where
  "runCallback C names c s =
     (case c of
        CloseWebParticipants \<Rightarrow> Inr (closeWebParticipants s)
      | SaveTournaments \<Rightarrow> saveTournaments C names s)"

subsection \<open>The calls of participants\<close>

definition serverCall_exec :: "(nat \<Rightarrow> bool) \<Rightarrow> nat \<Rightarrow> ServerCall \<Rightarrow> 'a WebServer \<Rightarrow> 'a WebServer result" where
  "serverCall_exec ok n c s =
     (case c of
        SetOwner webName \<Rightarrow> onTournamentOf webName (\<lambda>l. Inr (setOwner n l)) s
      | ClearOwner webName \<Rightarrow> onTournamentOf webName (\<lambda>l. Inr (clearOwner l)) s
      | SetSynced webName \<Rightarrow> Inr (s\<lparr>mDatabase := snd (setSynced ok webName (mDatabase s))\<rparr>)
      | Leave callback \<Rightarrow> Inr (leave_tcp n callback s))"

definition wsCall_exec :: "nat \<Rightarrow> WsCall \<Rightarrow> 'a WebServer \<Rightarrow> 'a WebServer result" where
  "wsCall_exec n c s =
     (case c of
        GetTournament webName \<Rightarrow> Inr (s\<lparr>mFetches := mFetches s @ [FetchLookup n webName]\<rparr>)
      | ListTournaments \<Rightarrow> Inr (s\<lparr>mListings := mListings s @ [n]\<rparr>)
      | AddParticipant webName \<Rightarrow> onTournamentOf webName (addParticipant n) s
      | EraseParticipant webName \<Rightarrow> onTournamentOf webName (\<lambda>l. Inr (eraseParticipant n l)) s
      | SubscribeCategory webName i \<Rightarrow> onTournamentOf webName (subscribeCategory n i) s
      | SubscribePlayer webName i \<Rightarrow> onTournamentOf webName (subscribePlayer n i) s
      | SubscribeTatami webName i \<Rightarrow> onTournamentOf webName (subscribeTatami n i) s
      | WsLeave callback \<Rightarrow> Inr (leave_web n callback s))"

text \<open>The tournament does what its owner waits for, and the owner gets the result.\<close>

definition tournamentCall ::
  "string \<Rightarrow> ('a LoadedTournament \<Rightarrow> (bool \<times> 'a LoadedTournament) result) \<Rightarrow> (bool \<Rightarrow> 'a TCPParticipant result) \<Rightarrow> nat \<Rightarrow>
   'a WebServer \<Rightarrow> 'a WebServer result" where
  "tournamentCall webName f handler n s =
     (case mLoadedTournaments s webName of
        None \<Rightarrow> Inl UndefinedBehaviour
      | Some l \<Rightarrow>
          bindE (f l) (\<lambda>(success, l').
          bindE (handler success) (\<lambda>p'. Inr (putTcp n p' (distribute webName l' s)))))"

text \<open>
  The answer to the call that an application waits for. \<open>ok\<close> tells which transactions go through, \<open>now\<close> is the time and \<open>token\<close> the
  token that is generated.
\<close>

definition answer ::
  "('a, WebTournamentStore) ActionInterface \<Rightarrow> (string \<Rightarrow> string \<Rightarrow> bool) \<Rightarrow> (nat \<Rightarrow> bool) \<Rightarrow> int \<Rightarrow> WebToken \<Rightarrow> nat \<Rightarrow> 'a TCPParticipant \<Rightarrow>
   'a WebServer \<Rightarrow> 'a WebServer result" where
  "answer J check_bcrypt ok now token n p s =
     (let q = idle p; db = mDatabase s in
      case mAwaiting p of
        WebTokenCall email password \<Rightarrow>
          (case requestWebToken check_bcrypt ok now token email password db of
             ((response, token', userId), db') \<Rightarrow>
               bindE (onWebToken response token' userId q) (\<lambda>p'. Inr (putTcp n p' (s\<lparr>mDatabase := db'\<rparr>))))
      | ValidationCall email token' \<Rightarrow>
          (case validateWebToken ok now email token' db of
             (response, userId) \<Rightarrow> bindE (onValidation response userId q) (\<lambda>p'. Inr (putTcp n p' s)))
      | RegistrationCall userId i webName \<Rightarrow>
          (case registerWebName ok userId i webName db of
             (response, db') \<Rightarrow> bindE (onRegistration now webName response q) (\<lambda>p'. Inr (putTcp n p' (s\<lparr>mDatabase := db'\<rparr>))))
      | CheckCall userId i webName \<Rightarrow>
          bindE (onCheck (checkWebName ok userId i webName db) q) (\<lambda>p'. Inr (putTcp n p' s))
      | AcquireCall t xs \<Rightarrow> bindE (onAcquired t xs q) (\<lambda>p'. Inr (putTcp n p' (acquireTournament (mTcpWebName p) s)))
      | FirstSyncCall t xs diff \<Rightarrow> tournamentCall (mTcpWebName p) (lt_sync now t xs diff) (\<lambda>success. onFirstSync success q) n s
      | UndoCall i \<Rightarrow> tournamentCall (mTcpWebName p) (lt_undo J now i) (\<lambda>success. onTournamentReply success q) n s
      | DispatchCall i a \<Rightarrow> tournamentCall (mTcpWebName p) (lt_dispatch J now i a) (\<lambda>success. onTournamentReply success q) n s
      | SyncCall t xs diff \<Rightarrow> tournamentCall (mTcpWebName p) (lt_sync now t xs diff) (\<lambda>success. onTournamentReply success q) n s
      | _ \<Rightarrow> Inr s)"

subsection \<open>Runs\<close>

definition putTournament :: "string \<Rightarrow> 'a LoadedTournament \<Rightarrow> 'a WebServer \<Rightarrow> 'a WebServer" where
  "putTournament webName l s = s\<lparr>mLoadedTournaments := (mLoadedTournaments s)(webName \<mapsto> l)\<rparr>"

definition writeFile :: "Codec \<Rightarrow> bool \<Rightarrow> int \<Rightarrow> string \<Rightarrow> 'a LoadedTournament \<Rightarrow> 'a LoadedTournament result" where
  "writeFile C canOpen now u l = bindE (lt_write C canOpen u l) (\<lambda>(success, l'). Inr (if success then snd (lt_saved now l') else l'))"

datatype Actor = TcpActor nat | WsActor nat | ServerActor

inductive server_step ::
  "('a, WebTournamentStore) ActionInterface \<Rightarrow> Codec \<Rightarrow> (string \<Rightarrow> string \<Rightarrow> bool) \<Rightarrow> Actor \<Rightarrow> 'a WebServer \<Rightarrow> 'a WebServer result \<Rightarrow> bool"
  for J C check_bcrypt where
  accept_tcp: "n \<notin> dom (mTcpObjects s) \<Longrightarrow> server_step J C check_bcrypt ServerActor s (tcpAccept n s)"
| accept_web: "n \<notin> dom (mWsObjects s) \<Longrightarrow> server_step J C check_bcrypt ServerActor s (webAccept n s)"
| tcp_handler: "mTcpObjects s n = Some p \<Longrightarrow> tcp_local J p r \<Longrightarrow>
    server_step J C check_bcrypt (TcpActor n) s (bindE r (\<lambda>p'. Inr (putTcp n p' s)))"
| tcp_answer: "mTcpObjects s n = Some p \<Longrightarrow> server_step J C check_bcrypt (TcpActor n) s (answer J check_bcrypt ok now token n p s)"
| tcp_call: "mTcpObjects s n = Some p \<Longrightarrow> mServerCalls p = c # cs \<Longrightarrow>
    server_step J C check_bcrypt (TcpActor n) s (serverCall_exec ok n c (putTcp n (p\<lparr>mServerCalls := cs\<rparr>) s))"
| tcp_closing: "mTcpCloseRequests s = n # ns \<Longrightarrow> mTcpObjects s n = Some p \<Longrightarrow>
    server_step J C check_bcrypt ServerActor s (Inr (putTcp n (tcp_asyncClose p) (s\<lparr>mTcpCloseRequests := ns\<rparr>)))"
| ws_message: "mWsObjects s n = Some q \<Longrightarrow> mWsListening q \<Longrightarrow>
    server_step J C check_bcrypt (WsActor n) s (bindE (ws_read now m q) (\<lambda>q'. Inr (putWs n q' s)))"
| ws_wrote: "mWsObjects s n = Some q \<Longrightarrow> mWsWriting q \<Longrightarrow>
    server_step J C check_bcrypt (WsActor n) s (bindE (ws_written ec q) (\<lambda>q'. Inr (putWs n q' s)))"
| ws_posted: "mWsObjects s n = Some q \<Longrightarrow> mWsPosted q = d # ds \<Longrightarrow>
    server_step J C check_bcrypt (WsActor n) s (bindE (ws_deliverPosted d (q\<lparr>mWsPosted := ds\<rparr>)) (\<lambda>q'. Inr (putWs n q' s)))"
| ws_call: "mWsObjects s n = Some q \<Longrightarrow> mWsCalls q = wc # wcs \<Longrightarrow>
    server_step J C check_bcrypt (WsActor n) s (wsCall_exec n wc (putWs n (q\<lparr>mWsCalls := wcs\<rparr>) s))"
| ws_closing: "mWsCloseRequests s = n # ns \<Longrightarrow> mWsObjects s n = Some q \<Longrightarrow>
    server_step J C check_bcrypt ServerActor s (bindE (ws_asyncClose q) (\<lambda>q'. Inr (putWs n q' (s\<lparr>mWsCloseRequests := ns\<rparr>))))"
| ws_close_sent: "mWsObjects s n = Some q \<Longrightarrow> mWsClosePosted q \<Longrightarrow> server_step J C check_bcrypt (WsActor n) s (Inr (putWs n (ws_closed q) s))"
| fetch: "mFetches s = fs1 @ f # fs2 \<Longrightarrow> server_step J C check_bcrypt ServerActor s (getTournament C ok now f (s\<lparr>mFetches := fs1 @ fs2\<rparr>))"
| listing: "mListings s = n # ns \<Longrightarrow> mWsObjects s n = Some q \<Longrightarrow>
    server_step J C check_bcrypt ServerActor s
      (Inr (putWs n (onListing (listTournaments showDate ok today (mDatabase s)) q) (s\<lparr>mListings := ns\<rparr>)))"
| quitting: "server_step J C check_bcrypt ServerActor s (Inr (quit s))"
| callback: "mCallbacks s = cb # cbs \<Longrightarrow> set names = dom (mLoadedTournaments s) \<Longrightarrow> distinct names \<Longrightarrow>
    server_step J C check_bcrypt ServerActor s (runCallback C names cb (s\<lparr>mCallbacks := cbs\<rparr>))"
| writing: "mSaves s = (w, u) # rest \<Longrightarrow> mLoadedTournaments s w = Some l \<Longrightarrow>
    server_step J C check_bcrypt ServerActor s (bindE (writeFile C canOpen now u l) (\<lambda>l'. Inr (putTournament w l' (s\<lparr>mSaves := rest\<rparr>))))"
| updating: "mLoadedTournaments s w = Some l \<Longrightarrow> mDatabaseUpdates l = (webName, name, location, date) # us \<Longrightarrow>
    server_step J C check_bcrypt ServerActor s (Inr (putTournament w (l\<lparr>mDatabaseUpdates := us\<rparr>)
      (s\<lparr>mDatabase := snd (updateTournament parseDate ok webName name location date (mDatabase s))\<rparr>)))"
| save_time: "mLoadedTournaments s w = Some l \<Longrightarrow> mSaveTimes l = time # later \<Longrightarrow>
    server_step J C check_bcrypt ServerActor s (Inr (putTournament w (l\<lparr>mSaveTimes := later\<rparr>)
      (s\<lparr>mDatabase := snd (setSaveTime ok (mLoadedName l) time (mDatabase s))\<rparr>)))"
| new_user: "server_step J C check_bcrypt ServerActor s (Inr (s\<lparr>mDatabase := snd (registerUser ok now token passwordHash email (mDatabase s))\<rparr>))"

inductive server_reachable :: "('a, WebTournamentStore) ActionInterface \<Rightarrow> Codec \<Rightarrow> (string \<Rightarrow> string \<Rightarrow> bool) \<Rightarrow> 'a WebServer \<Rightarrow> bool"
  for J C check_bcrypt where
  launched: "db_step\<^sup>*\<^sup>* newDatabase db \<Longrightarrow> server_reachable J C check_bcrypt (newWebServer db disk)"
| served: "server_reachable J C check_bcrypt s \<Longrightarrow> server_step J C check_bcrypt actor s (Inr s') \<Longrightarrow> server_reachable J C check_bcrypt s'"

subsection \<open>Who may change a tournament\<close>

definition storeOf :: "'a WebServer \<Rightarrow> string \<Rightarrow> WebTournamentStore option" where
  "storeOf s w = (case mLoadedTournaments s w of None \<Rightarrow> None | Some l \<Rightarrow> mLoadedStore l)"

definition entitled :: "Database \<Rightarrow> 'a TCPParticipant \<Rightarrow> bool" where
  "entitled db p \<longleftrightarrow> mTcpState p \<in> {TOURNAMENT_SELECTED, CLOCK_SYNCED} \<longrightarrow>
     (\<exists>u. mUserId p = Some u \<and> ownerOf (mTcpWebName p) db = Some u)"

definition server_inv :: "'a WebServer \<Rightarrow> bool" where
  "server_inv s \<longleftrightarrow> (\<forall>n p. mTcpObjects s n = Some p \<longrightarrow> tcp_inv p \<and> entitled (mDatabase s) p)"

lemma entitled_db_step: "db_step db db' \<Longrightarrow> entitled db p \<Longrightarrow> entitled db' p"
  by (auto simp: entitled_def dest: db_step_ownerOf)

lemma server_inv_db_step: "server_inv s \<Longrightarrow> db_step (mDatabase s) db' \<Longrightarrow> mTcpObjects s' = mTcpObjects s \<Longrightarrow> mDatabase s' = db' \<Longrightarrow> server_inv s'"
  by (auto simp: server_inv_def intro: entitled_db_step)

lemma server_inv_same: "server_inv s \<Longrightarrow> mTcpObjects s' = mTcpObjects s \<Longrightarrow> mDatabase s' = mDatabase s \<Longrightarrow> server_inv s'"
  by (simp add: server_inv_def)

lemma server_inv_putTcp: "server_inv s \<Longrightarrow> tcp_inv p \<Longrightarrow> entitled (mDatabase s) p \<Longrightarrow> server_inv (putTcp n p s)"
  by (simp add: server_inv_def putTcp_def)

text \<open>Who the participant is: only the answers of the database change it.\<close>

definition identity :: "'a TCPParticipant \<Rightarrow> TcpState \<times> int option \<times> string" where
  "identity p = (mTcpState p, mUserId p, mTcpWebName p)"

lemma identity_simps [simp]:
  "identity (tcp_close p) = identity p" "identity (serverCall c p) = identity p" "identity (tcp_deliver m p) = identity p"
  "identity (idle p) = identity p" "identity (tcp_asyncClose p) = identity p" "identity (p\<lparr>mAwaiting := h\<rparr>) = identity p"
  "identity (p\<lparr>mServerCalls := cs\<rparr>) = identity p" "identity (p\<lparr>mPostedMessages := ms\<rparr>) = identity p"
  by (auto simp: identity_def tcp_close_def tcp_asyncClose_def releaseConnection_def serverCall_def tcp_deliver_def idle_def)

lemma entitled_identity: "identity p' = identity p \<Longrightarrow> entitled db p \<Longrightarrow> entitled db p'"
  by (auto simp: entitled_def identity_def)

lemma asyncRead_identity: "asyncRead h p = Inr p' \<Longrightarrow> identity p' = identity p"
  by (auto simp: asyncRead_def split: if_splits)

lemma reads_identity:
  "onAuthRead r p = Inr p' \<Longrightarrow> identity p' = identity p" "onRegisterRead r p = Inr p' \<Longrightarrow> identity p' = identity p"
  by (auto simp: onAuthRead_def onRegisterRead_def split: if_splits WebRead.splits WebMessage.splits option.splits)

lemma onSyncRead_identity: "onSyncRead J r p = Inr p' \<Longrightarrow> identity p' = identity p"
  by (auto simp: onSyncRead_def split: if_splits WebRead.splits WebMessage.splits NetworkMessage.splits)

lemma onListenRead_identity: "onListenRead r p = Inr p' \<Longrightarrow> identity p' = identity p"
  unfolding onListenRead_def asyncTournamentListen_def onTournament_def
  by (auto elim!: asyncRead_identity split: if_splits WebRead.splits WebMessage.splits NetworkMessage.splits)

lemma queue_identity:
  "tcp_written ec p = Inr p' \<Longrightarrow> identity p' = identity p" "tcp_deliverPosted m p = Inr p' \<Longrightarrow> identity p' = identity p"
proof -
  show "tcp_written ec p = Inr p' \<Longrightarrow> identity p' = identity p"
    by (auto simp: tcp_written_def tcp_write_def Let_def split: if_splits) (auto simp: identity_def)
  show "tcp_deliverPosted m p = Inr p' \<Longrightarrow> identity p' = identity p"
    by (auto simp: tcp_deliverPosted_def tcp_write_def identity_def Let_def split: if_splits)
qed

lemma replies_identity:
  "onCheck response p = Inr p' \<Longrightarrow> identity p' = identity p" "onFirstSync b p = Inr p' \<Longrightarrow> identity p' = identity p"
  "onTournamentReply b p = Inr p' \<Longrightarrow> identity p' = identity p"
proof -
  show "onCheck response p = Inr p' \<Longrightarrow> identity p' = identity p"
    unfolding onCheck_def asyncTournamentRegister_def by (auto dest: asyncRead_identity split: if_splits)
  show "onFirstSync b p = Inr p' \<Longrightarrow> identity p' = identity p" "onTournamentReply b p = Inr p' \<Longrightarrow> identity p' = identity p"
    unfolding onFirstSync_def onTournamentReply_def asyncTournamentListen_def by (auto dest: asyncRead_identity split: if_splits)
qed

lemma onAcquired_identity: "onAcquired t xs p = Inr p' \<Longrightarrow> identity p' = identity p"
  by (auto simp: onAcquired_def split: if_splits) (simp add: identity_def)

lemma onClockRead_entitled:
  "onClockRead t1 t2 r p = Inr p' \<Longrightarrow> mTcpState p = TOURNAMENT_SELECTED \<Longrightarrow> entitled db p \<Longrightarrow> entitled db p'"
  unfolding onClockRead_def asyncTournamentSync_def
  by (auto dest!: asyncRead_identity intro: entitled_identity split: if_splits WebRead.splits WebMessage.splits NetworkMessage.splits)
    (auto simp: entitled_def identity_def)

lemma tcp_local_entitled:
  assumes "tcp_local J p (Inr p')" and "tcp_inv p" and "entitled db p"
  shows "entitled db p'"
  using assms(1)
proof cases
  case (clock_read t1 t2 r)
  then show ?thesis using onClockRead_entitled[of t1 t2 r "idle p" p' db] tcp_inv_awaiting(1)[OF assms(2)] entitled_identity[of "idle p" p] assms(3) by simp
next
  case (message_posted m ms)
  then show ?thesis using queue_identity(2)[of m "p\<lparr>mPostedMessages := ms\<rparr>" p'] entitled_identity[OF _ assms(3)] by simp
qed (drule sym, rule entitled_identity[OF _ assms(3)], erule trans[OF reads_identity(1)] trans[OF reads_identity(2)] trans[OF onSyncRead_identity]
  trans[OF onListenRead_identity] queue_identity; simp)+

text \<open>Logging in makes a user, registering a name makes an owner.\<close>

lemma authenticated_entitled: "authenticated b userId p = Inr p' \<Longrightarrow> mTcpState p = NOT_AUTHENTICATED \<Longrightarrow> entitled db p'"
  by (auto simp: authenticated_def asyncTournamentRegister_def asyncAuth_def dest!: asyncRead_identity split: if_splits)
    (auto simp: identity_def entitled_def)

lemma login_entitled:
  "onWebToken response token userId p = Inr p' \<Longrightarrow> entitled db p \<Longrightarrow> entitled db p'"
  "onValidation response' userId p = Inr p' \<Longrightarrow> entitled db p \<Longrightarrow> entitled db p'"
  by (auto simp: onWebToken_def onValidation_def intro: authenticated_entitled split: if_splits)

lemma onRegistration_entitled:
  assumes "onRegistration now webName response p = Inr p'" and "mUserId p = Some userId" and "entitled db p"
    and "response = NAME_SUCCESSFUL \<Longrightarrow> ownerOf webName db = Some userId"
  shows "entitled db p'"
  using assms unfolding onRegistration_def asyncClockSync_def asyncTournamentRegister_def Let_def
  by (auto dest!: asyncRead_identity split: if_splits) (auto simp: identity_def entitled_def)

lemma distribute_keeps [simp]:
  "mTcpObjects (distribute w l s) = mTcpObjects s" "mDatabase (distribute w l s) = mDatabase s"
  "mLoadedTournaments (distribute w l s) = (mLoadedTournaments s)(w \<mapsto> l\<lparr>mDelivered := []\<rparr>)"
proof -
  let ?f = "\<lambda>(n, m) s. case mWsObjects s n of None \<Rightarrow> s | Some p \<Rightarrow> putWs n (ws_deliver m p) s"
  have "mTcpObjects (fold ?f ds t) = mTcpObjects t \<and> mDatabase (fold ?f ds t) = mDatabase t \<and> mLoadedTournaments (fold ?f ds t) = mLoadedTournaments t"
    for ds and t :: "'a WebServer"
    by (induction ds arbitrary: t) (auto simp: putWs_def split: option.split)
  then show "mTcpObjects (distribute w l s) = mTcpObjects s" "mDatabase (distribute w l s) = mDatabase s"
      "mLoadedTournaments (distribute w l s) = (mLoadedTournaments s)(w \<mapsto> l\<lparr>mDelivered := []\<rparr>)"
    by (simp_all add: distribute_def)
qed

lemma put_keeps [simp]:
  "mDatabase (putTcp n p s) = mDatabase s" "mLoadedTournaments (putTcp n p s) = mLoadedTournaments s" "mTcpObjects (putTcp n p s) = (mTcpObjects s)(n \<mapsto> p)"
  "mDatabase (putWs n q s) = mDatabase s" "mLoadedTournaments (putWs n q s) = mLoadedTournaments s" "mTcpObjects (putWs n q s) = mTcpObjects s"
  "mDatabase (putTournament w l s) = mDatabase s" "mTcpObjects (putTournament w l s) = mTcpObjects s"
  by (simp_all add: putTcp_def putWs_def putTournament_def)

lemma found_keeps [simp]:
  "mTcpObjects (found n r s) = mTcpObjects s" "mDatabase (found n r s) = mDatabase s" "mLoadedTournaments (found n r s) = mLoadedTournaments s"
  by (auto simp: found_def split: option.split)

lemma acquire_keeps [simp]:
  "mTcpObjects (acquireTournament w s) = mTcpObjects s" "mDatabase (acquireTournament w s) = mDatabase s"
  by (auto simp: acquireTournament_def split: option.split)

lemma storeOf_acquire [simp]: "storeOf (acquireTournament w s) v = storeOf s v"
  by (auto simp: storeOf_def acquireTournament_def newLoadedTournament_def split: option.split)

lemma storeOf_put [simp]: "storeOf (putTcp n p s) w = storeOf s w" "storeOf (putWs n q s) w = storeOf s w" "storeOf (found n r s) w = storeOf s w"
  by (simp_all add: storeOf_def)

lemma storeOf_distribute: "storeOf (distribute w l s) v = (if v = w then mLoadedStore l else storeOf s v)"
  by (simp add: storeOf_def)

lemma storeOf_cong: "mLoadedTournaments s' = mLoadedTournaments s \<Longrightarrow> storeOf s' = storeOf s"
  by (simp add: storeOf_def fun_eq_iff)

text \<open>Operations on a tournament that leave its store alone.\<close>

lemma onTournamentOf_keeps:
  assumes "onTournamentOf w f s = Inr s'" and "\<And>l l'. f l = Inr l' \<Longrightarrow> mLoadedStore l' = mLoadedStore l"
  shows "mTcpObjects s' = mTcpObjects s \<and> mDatabase s' = mDatabase s \<and> storeOf s' v = storeOf s v"
proof (cases "mLoadedTournaments s w")
  case None
  then show ?thesis using assms(1) by (simp add: onTournamentOf_def)
next
  case (Some l)
  then obtain l' where "f l = Inr l'" "s' = distribute w l' s" using assms(1) by (auto simp: onTournamentOf_def)
  then show ?thesis using assms(2)[of l l'] Some by (simp add: storeOf_distribute) (simp add: storeOf_def)
qed

lemma wsCall_exec_keeps: "wsCall_exec n c s = Inr s' \<Longrightarrow> mTcpObjects s' = mTcpObjects s \<and> mDatabase s' = mDatabase s \<and> storeOf s' v = storeOf s v"
  unfolding wsCall_exec_def
  by (cases c) (auto simp: leave_web_def postCallback_def storeOf_def eraseParticipant_def dest!: onTournamentOf_keeps[where v = v] dest: participants_keep split: if_splits)

lemma serverCall_exec_keeps:
  "serverCall_exec ok n c s = Inr s' \<Longrightarrow> mTcpObjects s' = mTcpObjects s \<and> storeOf s' v = storeOf s v \<and> (mDatabase s' = mDatabase s \<or> db_step (mDatabase s) (mDatabase s'))"
  unfolding serverCall_exec_def
  by (cases c) (auto simp: leave_tcp_def postCallback_def storeOf_def setOwner_def clearOwner_def intro: step_setSynced dest!: onTournamentOf_keeps[where v = v] split: if_splits)

lemma getTournament_keeps:
  "getTournament C ok now f s = Inr s' \<Longrightarrow>
   mTcpObjects s' = mTcpObjects s \<and> mDatabase s' = mDatabase s \<and> (mLoadedTournaments s v \<noteq> None \<longrightarrow> storeOf s' v = storeOf s v)"
  by (induction C ok now f s rule: getTournament.induct) (auto simp: storeOf_def split: option.splits if_splits)

lemma saveTournaments_keeps:
  assumes "saveTournaments C names s = Inr s'"
  shows "mTcpObjects s' = mTcpObjects s \<and> mDatabase s' = mDatabase s \<and> storeOf s' = storeOf s"
proof -
  let ?f = "\<lambda>webName s. case mLoadedTournaments s webName of
               None \<Rightarrow> Inr s
             | Some l \<Rightarrow> bindE (lt_saveIfNeccesary C l) (\<lambda>(u, l').
                 let s1 = s\<lparr>mLoadedTournaments := (mLoadedTournaments s)(webName \<mapsto> l')\<rparr>
                 in Inr (case u of None \<Rightarrow> s1 | Some uncompressed \<Rightarrow> s1\<lparr>mSaves := mSaves s1 @ [(webName, uncompressed)]\<rparr>))"
  have step: "mTcpObjects t' = mTcpObjects t \<and> mDatabase t' = mDatabase t \<and> storeOf t' = storeOf t" if "?f w t = Inr t'" for w and t t' :: "'a WebServer"
    using that by (auto simp: storeOf_def fun_eq_iff Let_def split: option.splits if_splits dest: saving_keeps(1))
  have "foldE ?f ws t = Inr t' \<Longrightarrow> mTcpObjects t' = mTcpObjects t \<and> mDatabase t' = mDatabase t \<and> storeOf t' = storeOf t"
    for ws and t t' :: "'a WebServer"
    by (induction ws arbitrary: t) (auto dest: step)
  then show ?thesis using assms by (auto simp: saveTournaments_def split: if_splits)
qed

lemma runCallback_keeps: "runCallback C names c s = Inr s' \<Longrightarrow> mTcpObjects s' = mTcpObjects s \<and> mDatabase s' = mDatabase s \<and> storeOf s' = storeOf s"
  by (cases c) (auto simp: runCallback_def closeWebParticipants_def storeOf_def dest: saveTournaments_keeps split: if_splits)

lemma writeFile_keeps: "writeFile C canOpen now u l = Inr l' \<Longrightarrow> mLoadedStore l' = mLoadedStore l"
  by (auto simp: writeFile_def lt_saved_def dest: saving_keeps(2))

text \<open>The answer to an application: its identity is the one the database gives it, and only its own tournament changes.\<close>

lemma tournamentCall_effect:
  assumes "tournamentCall w f handler n s = Inr s'"
  shows "\<exists>b p'. handler b = Inr p' \<and> mDatabase s' = mDatabase s \<and> mTcpObjects s' = (mTcpObjects s)(n \<mapsto> p') \<and> (\<forall>v. v \<noteq> w \<longrightarrow> storeOf s' v = storeOf s v)"
proof -
  obtain l b l' p' where "handler b = Inr p'" "s' = putTcp n p' (distribute w l' s)"
    using assms by (auto simp: tournamentCall_def split: option.splits)
  then show ?thesis by (intro exI[of _ b] exI[of _ p']) (simp add: storeOf_distribute)
qed

lemma server_inv_answered:
  assumes "server_inv s" and "mDatabase s' = mDatabase s" and "mTcpObjects s' = (mTcpObjects s)(n \<mapsto> p')" and "tcp_inv p'" and "entitled (mDatabase s) p'"
  shows "server_inv s'"
  using assms by (simp add: server_inv_def)

text \<open>The facts about the participant that the answers use.\<close>

lemma server_inv_participant:
  assumes "server_inv s" and "mTcpObjects s n = Some p"
  shows "tcp_inv p" and "entitled (mDatabase s) p" and "tcp_inv (idle p)" and "entitled (mDatabase s) (idle p)"
proof -
  show inv: "tcp_inv p" and ent: "entitled (mDatabase s) p" using assms by (auto simp: server_inv_def)
  show "tcp_inv (idle p)" and "entitled (mDatabase s) (idle p)" using idle_inv[OF inv] entitled_identity[OF _ ent, of "idle p"] by auto
qed

lemma webToken_inv:
  assumes "server_inv s" and "mTcpObjects s n = Some p"
    and r: "requestWebToken check_bcrypt ok now token email password (mDatabase s) = ((response, token', userId), db')"
    and p': "onWebToken response token' userId (idle p) = Inr p'"
  shows "server_inv (putTcp n p' (s\<lparr>mDatabase := db'\<rparr>))"
proof -
  note p = server_inv_participant[OF assms(1,2)]
  have "response = TOKEN_SUCCESSFUL \<longrightarrow> userId \<noteq> None" using r by (auto simp: requestWebToken_def Let_def split: if_splits)
  then have "tcp_inv p'" using onLogin_inv(1)[OF p' p(3)] by simp
  moreover have "db_step (mDatabase s) db'" using step_requestWebToken[of "mDatabase s" check_bcrypt ok now token email password] r by simp
  moreover have "entitled (mDatabase s) p'" by (rule login_entitled(1)[OF p' p(4)])
  ultimately show ?thesis
    by (intro server_inv_putTcp server_inv_db_step[OF assms(1)]) (auto intro: entitled_db_step)
qed

lemma validation_inv:
  assumes "server_inv s" and "mTcpObjects s n = Some p"
    and r: "validateWebToken ok now email token (mDatabase s) = (response, userId)"
    and p': "onValidation response userId (idle p) = Inr p'"
  shows "server_inv (putTcp n p' s)"
proof -
  note p = server_inv_participant[OF assms(1,2)]
  have "response = VALIDATION_SUCCESSFUL \<longrightarrow> userId \<noteq> None" using r by (auto simp: validateWebToken_def split: if_splits list.splits option.splits)
  then show ?thesis using onLogin_inv(2)[OF p' p(3)] login_entitled(2)[OF p' p(4)] server_inv_putTcp[OF assms(1)] by simp
qed

lemma registration_inv:
  assumes "server_inv s" and "mTcpObjects s n = Some p" and a: "mAwaiting p = RegistrationCall userId i webName"
    and r: "registerWebName ok userId i webName (mDatabase s) = (response, db')"
    and p': "onRegistration now webName response (idle p) = Inr p'"
  shows "server_inv (putTcp n p' (s\<lparr>mDatabase := db'\<rparr>))"
proof -
  note p = server_inv_participant[OF assms(1,2)]
  have step: "db_step (mDatabase s) db'" using step_registerWebName[of "mDatabase s" ok userId i webName] r by simp
  have "mUserId (idle p) = Some userId" using p(1) a by (simp add: tcp_inv_def)
  moreover have "ownerOf webName db' = Some userId" if "response = NAME_SUCCESSFUL"
    using registerWebName_owner[of ok userId i webName "mDatabase s"] r that by simp
  ultimately have "entitled db' p'" using onRegistration_entitled[OF p'] entitled_db_step[OF step p(4)] by blast
  then show ?thesis using onRegistration_inv[OF p' p(3)]
    by (intro server_inv_putTcp server_inv_db_step[OF assms(1) step]) auto
qed

lemma acquire_inv:
  assumes "server_inv s" and "mTcpObjects s n = Some p" and "mAwaiting p = AcquireCall t xs" and p': "onAcquired t xs (idle p) = Inr p'"
  shows "server_inv (putTcp n p' (acquireTournament w s))"
proof -
  note p = server_inv_participant[OF assms(1,2)]
  have "tcp_inv p'" using onAcquired_inv[OF p' p(3)] tcp_inv_awaiting(2)[OF p(1) assms(3)] by simp
  then show ?thesis using entitled_identity[OF onAcquired_identity[OF p'] p(4)]
    by (intro server_inv_putTcp server_inv_same[OF assms(1)]) auto
qed

lemma tournamentCall_inv:
  assumes "tournamentCall w f handler n s = Inr s'" and "server_inv s" and "mTcpObjects s n = Some p" and "onOwnTournament (mAwaiting p)"
    and "handler \<in> {\<lambda>b. onFirstSync b (idle p), \<lambda>b. onTournamentReply b (idle p)}"
  shows "server_inv s'"
proof -
  note p = server_inv_participant[OF assms(2,3)]
  obtain b p' where p': "handler b = Inr p'" and s': "mDatabase s' = mDatabase s" "mTcpObjects s' = (mTcpObjects s)(n \<mapsto> p')"
    using tournamentCall_effect[OF assms(1)] by blast
  have "tcp_inv p' \<and> identity p' = identity p"
    using assms(5) p' p(3) tcp_inv_awaiting(3)[OF p(1) assms(4)]
    by (auto dest: onFirstSync_inv onTournamentReply_inv replies_identity)
  then show ?thesis using entitled_identity[of p' p] p(2) by (intro server_inv_answered[OF assms(2) s']) auto
qed

lemma answer_inv:
  assumes "answer J check_bcrypt ok now token n p s = Inr s'" and "server_inv s" and p: "mTcpObjects s n = Some p"
  shows "server_inv s'"
proof (cases "mAwaiting p")
  case (WebTokenCall email password)
  then show ?thesis using assms(1) by (auto simp: answer_def intro: webToken_inv[OF assms(2,3)] split: prod.splits)
next
  case (ValidationCall email token')
  then show ?thesis using assms(1) by (auto simp: answer_def intro: validation_inv[OF assms(2,3)] split: prod.splits)
next
  case (RegistrationCall userId i webName)
  then show ?thesis using assms(1) by (auto simp: answer_def intro: registration_inv[OF assms(2,3)] split: prod.splits)
next
  case (CheckCall userId i webName)
  then obtain response p' where p': "onCheck response (idle p) = Inr p'" and s': "s' = putTcp n p' s"
    using assms(1) by (auto simp: answer_def)
  note q = server_inv_participant[OF assms(2,3)]
  show ?thesis using onCheck_inv[OF p' q(3)] entitled_identity[OF replies_identity(1)[OF p'] q(4)] server_inv_putTcp[OF assms(2)] unfolding s' by simp
next
  case (AcquireCall t xs)
  then show ?thesis using assms(1) by (auto simp: answer_def intro: acquire_inv[OF assms(2,3)])
qed (use assms(1,2) in \<open>auto simp: answer_def elim!: tournamentCall_inv[OF _ assms(2,3)]\<close>)

lemma answer_storeOf:
  assumes "answer J check_bcrypt ok now token n p s = Inr s'" and "storeOf s' w \<noteq> storeOf s w"
  shows "onOwnTournament (mAwaiting p) \<and> w = mTcpWebName p"
proof (cases "onOwnTournament (mAwaiting p)")
  case True
  have "\<exists>f handler. tournamentCall (mTcpWebName p) f handler n s = Inr s' \<or> s' = s"
    using True assms(1) by (cases "mAwaiting p") (auto simp: answer_def)
  then show ?thesis using True assms(2) by (auto dest: tournamentCall_effect)
next
  case False
  then show ?thesis using assms
    by (cases "mAwaiting p") (auto simp: answer_def storeOf_def[of "mDatabase_update _ _"] simp flip: storeOf_def split: prod.splits)
qed

lemma Inr_eq_bindE: "Inr y = bindE r f \<longleftrightarrow> (\<exists>x. r = Inr x \<and> f x = Inr y)"
  by (auto simp: bindE_def split: sum.splits)

lemma server_step_inv:
  assumes "server_step J C check_bcrypt actor s (Inr s')" and "server_inv s"
  shows "server_inv s'"
  using assms(1)
proof cases
  case (accept_tcp n)
  then obtain p where "asyncAuth newTCPParticipant = Inr p" "s' = (putTcp n p s)\<lparr>mParticipantSet := insert n (mParticipantSet s)\<rparr> \<or> s' = s"
    by (auto simp: tcpAccept_def asyncAuth_def asyncRead_def newTCPParticipant_def split: if_splits)
  then show ?thesis using assms(2) tcp_reachable_inv[OF started]
    by (auto simp: server_inv_def asyncAuth_def asyncRead_def newTCPParticipant_def entitled_def split: if_splits)
next
  case (tcp_handler n p r)
  then obtain p' where "r = Inr p'" "s' = putTcp n p' s" by (cases r) auto
  moreover have "tcp_inv p'" "entitled (mDatabase s) p'"
    using tcp_handler(4) \<open>r = Inr p'\<close> server_inv_participant[OF assms(2) tcp_handler(3)] by (auto dest: tcp_local_inv tcp_local_entitled)
  ultimately show ?thesis using server_inv_putTcp[OF assms(2)] by simp
next
  case (tcp_answer n p ok now token)
  then show ?thesis using answer_inv assms(2) by metis
next
  case (tcp_call n p c cs ok)
  let ?s = "putTcp n (p\<lparr>mServerCalls := cs\<rparr>) s"
  have "server_inv ?s" using tcp_call server_inv_participant[OF assms(2) tcp_call(3)] entitled_identity[of "p\<lparr>mServerCalls := cs\<rparr>" p]
    by (intro server_inv_putTcp assms(2)) (auto simp: tcp_inv_def)
  then show ?thesis using serverCall_exec_keeps[of ok n c ?s s'] tcp_call(2) server_inv_same server_inv_db_step by metis
next
  case (tcp_closing n ns p)
  then show ?thesis using server_inv_participant[OF assms(2) tcp_closing(4)] tcp_asyncClose_inv entitled_identity[of "tcp_asyncClose p" p] assms(2)
    by (intro server_inv_answered[OF assms(2), of _ n "tcp_asyncClose p"]) auto
next
  case (updating w l webName name location date us parseDate ok)
  then show ?thesis by (auto intro!: server_inv_db_step[OF assms(2)] step_updateTournament)
next
  case (save_time w l time later ok)
  then show ?thesis by (auto intro!: server_inv_db_step[OF assms(2)] step_setSaveTime)
next
  case (new_user ok now token passwordHash email)
  then show ?thesis by (auto intro!: server_inv_db_step[OF assms(2)] step_registerUser)
next
  case (ws_call n q wc wcs)
  then show ?thesis using wsCall_exec_keeps[of n wc "putWs n (q\<lparr>mWsCalls := wcs\<rparr>) s" s'] by (intro server_inv_same[OF assms(2)]) auto
next
  case (fetch fs1 f fs2 ok now)
  then show ?thesis using getTournament_keeps[of C ok now f "s\<lparr>mFetches := fs1 @ fs2\<rparr>" s'] by (intro server_inv_same[OF assms(2)]) auto
next
  case (callback cb cbs names)
  then show ?thesis using runCallback_keeps[of C names cb "s\<lparr>mCallbacks := cbs\<rparr>" s'] by (intro server_inv_same[OF assms(2)]) auto
qed (use assms(2) in \<open>auto simp: webAccept_def quit_def Let_def server_inv_def Inr_eq_bindE split: if_splits\<close>)

lemma server_reachable_inv: "server_reachable J C check_bcrypt s \<Longrightarrow> server_inv s"
proof (induction rule: server_reachable.induct)
  case (launched db disk)
  then show ?case by (simp add: server_inv_def newWebServer_def)
next
  case (served s actor s')
  then show ?case using server_step_inv by blast
qed

lemma server_step_storeOf:
  assumes "server_step J C check_bcrypt actor s (Inr s')" and "storeOf s w = Some st" and "storeOf s' w \<noteq> Some st"
  shows "\<exists>n p. actor = TcpActor n \<and> mTcpObjects s n = Some p \<and> onOwnTournament (mAwaiting p) \<and> mTcpWebName p = w"
  using assms(1)
proof cases
  case (tcp_answer n p ok now token)
  then show ?thesis using answer_storeOf[of J check_bcrypt ok now token n p s s' w] assms(2,3) by auto
next
  case (tcp_call n p c cs ok)
  then show ?thesis using serverCall_exec_keeps[of ok n c "putTcp n (p\<lparr>mServerCalls := cs\<rparr>) s" s' w] assms(2,3) by auto
next
  case (ws_call n q wc wcs)
  then show ?thesis using wsCall_exec_keeps[of n wc "putWs n (q\<lparr>mWsCalls := wcs\<rparr>) s" s' w] assms(2,3) by auto
next
  case (fetch fs1 f fs2 ok now)
  have "mLoadedTournaments s w \<noteq> None" using assms(2) by (auto simp: storeOf_def split: option.splits)
  then show ?thesis using fetch getTournament_keeps[of C ok now f "s\<lparr>mFetches := fs1 @ fs2\<rparr>" s' w] assms(2,3)
      storeOf_cong[of "s\<lparr>mFetches := fs1 @ fs2\<rparr>" s] by auto
next
  case (callback cb cbs names)
  then show ?thesis using runCallback_keeps[of C names cb "s\<lparr>mCallbacks := cbs\<rparr>" s'] assms(2,3) storeOf_cong[of "s\<lparr>mCallbacks := cbs\<rparr>" s] by auto
next
  case (writing v u rest l canOpen now)
  then obtain l' where "writeFile C canOpen now u l = Inr l'" "s' = putTournament v l' (s\<lparr>mSaves := rest\<rparr>)" by (auto dest: sym)
  then show ?thesis using assms(2,3) writing(4) by (auto simp: storeOf_def putTournament_def dest!: writeFile_keeps split: if_splits)
qed (use assms(2,3) in \<open>auto simp: tcpAccept_def webAccept_def quit_def putTournament_def storeOf_def Let_def Inr_eq_bindE split: if_splits\<close>)

subsection \<open>An example run\<close>

text \<open>An application logs in with the token of the example user, registers a name, uploads an empty tournament and renames it.\<close>

definition exampleServer :: "FieldChange TCPParticipant \<Rightarrow> Database \<Rightarrow> (string \<rightharpoonup> FieldChange LoadedTournament) \<Rightarrow> FieldChange WebServer" where
  "exampleServer p db ts = (newWebServer db Map.empty)\<lparr>mTcpObjects := [0 \<mapsto> p], mParticipantSet := {0}, mLoadedTournaments := ts\<rparr>"

abbreviation exampleReachable :: "FieldChange WebServer \<Rightarrow> bool" where
  "exampleReachable \<equiv> server_reachable webFieldChanges exampleCodec (\<lambda>_ _. True)"

definition exampleOwners :: Database where
  "exampleOwners = snd (registerWebName (\<lambda>_. True) 1 7 ''cup'' exampleDatabase)"

lemma exampleServer_simps:
  "mTcpObjects (exampleServer p db ts) = [0 \<mapsto> p]" "mDatabase (exampleServer p db ts) = db" "mLoadedTournaments (exampleServer p db ts) = ts"
  "putTcp 0 p' (exampleServer p db ts) = exampleServer p' db ts" "(exampleServer p db ts)\<lparr>mDatabase := db'\<rparr> = exampleServer p db' ts"
  by (auto simp: exampleServer_def newWebServer_def putTcp_def)

lemma served_by:
  "server_reachable J C check_bcrypt s \<Longrightarrow> server_step J C check_bcrypt actor s r \<Longrightarrow> r = Inr s' \<Longrightarrow> server_reachable J C check_bcrypt s'"
  using served by blast

lemma example_handler:
  "exampleReachable (exampleServer p db ts) \<Longrightarrow> tcp_local webFieldChanges p r \<Longrightarrow> r = Inr p' \<Longrightarrow> exampleReachable (exampleServer p' db ts)"
  by (rule served_by[OF _ tcp_handler[where n = 0 and p = p and r = r]]) (assumption | simp add: exampleServer_simps)+

lemma example_answer:
  "exampleReachable (exampleServer p db ts) \<Longrightarrow>
   answer webFieldChanges (\<lambda>_ _. True) (\<lambda>_. True) 0 [] 0 p (exampleServer p db ts) = Inr s' \<Longrightarrow> exampleReachable s'"
  by (rule served_by[OF _ tcp_answer[where n = 0 and p = p and ok = "\<lambda>_. True" and now = 0 and token = "[]"]]) (simp_all add: exampleServer_simps)

definition exampleOwner :: "FieldChange WebMessage list \<Rightarrow> FieldChange TCPParticipant" where
  "exampleOwner ms = newTCPParticipant\<lparr>mTcpState := CLOCK_SYNCED, mUserId := Some 1, mTcpWebName := ''cup'', mPostedMessages := ms\<rparr>"

definition exampleUploaded :: "FieldChange LoadedTournament" where
  "exampleUploaded = (newLoadedTournament ''cup'' None)\<lparr>mLoadedStore := Some (newWebTournamentStore\<lparr>mResettingTatamis := False\<rparr>),
     mDatabaseUpdates := [(''cup'', '''', '''', '''')]\<rparr>"

lemma example_login:
  "\<exists>ms. exampleReachable (exampleServer (newTCPParticipant\<lparr>mTcpState := AUTHENTICATED, mUserId := Some 1, mPostedMessages := ms, mAwaiting := RegisterRead\<rparr>) exampleDatabase Map.empty)"
proof -
  let ?p = "newTCPParticipant :: FieldChange TCPParticipant"
  have s0: "exampleReachable (newWebServer exampleDatabase Map.empty)" by (rule launched[OF exampleDatabase_reachable])
  have "exampleReachable (exampleServer (?p\<lparr>mAwaiting := AuthRead\<rparr>) exampleDatabase Map.empty)"
    by (rule served_by[OF s0 accept_tcp[where n = 0]])
      (simp_all add: tcpAccept_def asyncAuth_def asyncRead_def newWebServer_def newTCPParticipant_def putTcp_def exampleServer_def)
  then have "exampleReachable (exampleServer (?p\<lparr>mAwaiting := ValidationCall ''a'' [1]\<rparr>) exampleDatabase Map.empty)"
    by (rule example_handler[OF _ auth_read[where r = "Decoded (VALIDATE_WEB_TOKEN ''a'' [1])"]])
      (simp_all add: onAuthRead_def idle_def newTCPParticipant_def)
  from example_answer[OF this] show ?thesis
    by (auto simp: answer_def exampleServer_simps validateWebToken_def usersNamed_def exampleDatabase_def registerUser_def newDatabase_def hasUser_def
      validateWebTokenExpiration_def generateWebTokenExpiration_def TOKEN_DURATION_def onValidation_def authenticated_def asyncTournamentRegister_def
      asyncRead_def tcp_deliver_def idle_def newTCPParticipant_def)
qed

lemma example_registration:
  "\<exists>ms. exampleReachable (exampleServer (newTCPParticipant\<lparr>mTcpState := TOURNAMENT_SELECTED, mUserId := Some 1, mTcpWebName := ''cup'',
     mPostedMessages := ms, mAwaiting := ClockRead 0\<rparr>) exampleOwners Map.empty)"
proof -
  let ?p = "newTCPParticipant :: FieldChange TCPParticipant"
  obtain ms where "exampleReachable (exampleServer (?p\<lparr>mTcpState := AUTHENTICATED, mUserId := Some 1, mPostedMessages := ms, mAwaiting := RegisterRead\<rparr>)
      exampleDatabase Map.empty)" using example_login by blast
  then have "exampleReachable (exampleServer (?p\<lparr>mTcpState := AUTHENTICATED, mUserId := Some 1, mPostedMessages := ms, mAwaiting := RegistrationCall 1 7 ''cup''\<rparr>)
      exampleDatabase Map.empty)"
    by (rule example_handler[OF _ register_read[where r = "Decoded (REGISTER_WEB_NAME 7 ''cup'')"]])
      (simp_all add: onRegisterRead_def idle_def newTCPParticipant_def)
  moreover have "registerWebName (\<lambda>_. True) 1 7 ''cup'' exampleDatabase = (NAME_SUCCESSFUL, exampleOwners)"
    unfolding exampleOwners_def by (rule exampleRegistration)
  ultimately show ?thesis using example_answer
    by (fastforce simp: answer_def exampleServer_simps onRegistration_def asyncClockSync_def asyncRead_def tcp_deliver_def idle_def
      newTCPParticipant_def Let_def)
qed

lemma example_upload:
  "\<exists>ms cs. exampleReachable (exampleServer ((exampleOwner ms)\<lparr>mTcpTournament := True, mServerCalls := cs, mAwaiting := ListenRead\<rparr>)
     exampleOwners [''cup'' \<mapsto> exampleUploaded])"
proof -
  obtain ms where "exampleReachable (exampleServer (newTCPParticipant\<lparr>mTcpState := TOURNAMENT_SELECTED, mUserId := Some 1, mTcpWebName := ''cup'',
     mPostedMessages := ms, mAwaiting := ClockRead 0\<rparr>) exampleOwners Map.empty)" using example_registration by blast
  then have "exampleReachable (exampleServer ((exampleOwner ms)\<lparr>mAwaiting := SyncRead\<rparr>) exampleOwners Map.empty)"
    by (rule example_handler[OF _ clock_read[of _ 0 _ 0 "Decoded (BASIC (CLOCK_SYNC 0))"]])
      (simp_all add: onClockRead_def asyncTournamentSync_def asyncRead_def clockDiff_def exampleOwner_def idle_def newTCPParticipant_def)
  then have "exampleReachable (exampleServer ((exampleOwner ms)\<lparr>mAwaiting := AcquireCall newWebTournamentStore []\<rparr>) exampleOwners Map.empty)"
    by (rule example_handler[OF _ sync_read[where r = "Decoded (BASIC (SYNC (newTournamentStore 0) []))"]])
      (simp_all add: onSyncRead_def decodedStore_def newWebTournamentStore_def exampleOwner_def idle_def newTCPParticipant_def)
  from example_answer[OF this, of "exampleServer ((exampleOwner ms)\<lparr>mTcpTournament := True, mServerCalls := [SetOwner ''cup''],
      mAwaiting := FirstSyncCall newWebTournamentStore [] 0\<rparr>) exampleOwners [''cup'' \<mapsto> newLoadedTournament ''cup'' None]"]
  have "exampleReachable (exampleServer ((exampleOwner ms)\<lparr>mTcpTournament := True, mServerCalls := [SetOwner ''cup''],
      mAwaiting := FirstSyncCall newWebTournamentStore [] 0\<rparr>) exampleOwners [''cup'' \<mapsto> newLoadedTournament ''cup'' None])"
    by (simp add: answer_def acquireTournament_def onAcquired_def serverCall_def exampleServer_def newWebServer_def putTcp_def exampleOwner_def
      idle_def newTCPParticipant_def)
  note r = example_answer[OF this]
  have "lt_sync 0 newWebTournamentStore [] 0 (newLoadedTournament ''cup'' None) = Inr (True, exampleUploaded)"
    by (simp add: lt_sync_def deliverSync_def exampleUploaded_def loaded_defs getName_def getLocation_def getDate_def)
  then have "answer webFieldChanges (\<lambda>_ _. True) (\<lambda>_. True) 0 [] 0 ((exampleOwner ms)\<lparr>mTcpTournament := True, mServerCalls := [SetOwner ''cup''],
      mAwaiting := FirstSyncCall newWebTournamentStore [] 0\<rparr>) (exampleServer ((exampleOwner ms)\<lparr>mTcpTournament := True, mServerCalls := [SetOwner ''cup''],
      mAwaiting := FirstSyncCall newWebTournamentStore [] 0\<rparr>) exampleOwners [''cup'' \<mapsto> newLoadedTournament ''cup'' None]) =
    Inr (exampleServer ((exampleOwner ms)\<lparr>mTcpTournament := True, mServerCalls := [SetOwner ''cup'', SetSynced ''cup''], mAwaiting := ListenRead\<rparr>)
      exampleOwners [''cup'' \<mapsto> exampleUploaded])"
    by (simp add: answer_def tournamentCall_def exampleServer_def newWebServer_def putTcp_def distribute_def onFirstSync_def asyncTournamentListen_def
      asyncRead_def serverCall_def exampleOwner_def idle_def newTCPParticipant_def exampleUploaded_def newLoadedTournament_def)
  then show ?thesis using r by blast
qed

subsection \<open>Where browsers stop the server\<close>

text \<open>A tournament can be found between its creation for an owner and the first upload, when it has no store to show.\<close>

lemma unsynced_tournament_crashes_browser:
  "mLoadedTournaments s webName = None \<Longrightarrow> wsCall_exec n (AddParticipant webName) (acquireTournament webName s) = Inl UndefinedBehaviour"
  by (simp add: wsCall_exec_def onTournamentOf_def acquireTournament_def addParticipant_def theStore_def newLoadedTournament_def)

text \<open>
  A browser that asks for a second tournament stays a participant of the first one, and leaves only the second one when its connection
  breaks; the next message of the first tournament is then written through a null pointer.
\<close>

lemma second_subscription_crashes:
  assumes "\<not> mWsClosePosted p" and "mWsWriteQueue p = []" and "mWsTournament p = None" and "mWsCalls p = []" and "a \<noteq> b"
  shows "let q = forceClose (onTournamentFound (Some b) (onTournamentFound (Some a) p)) in
    mWsCalls q = [AddParticipant a, AddParticipant b, EraseParticipant b, WsLeave False] \<and> ws_deliverPosted m q = Inl UndefinedBehaviour"
  using assms by (simp add: onTournamentFound_def forceClose_def leaveTournament_def wsCall_def ws_deliverPosted_def ws_write_def Let_def)

subsection \<open>Properties\<close>

text \<open>
  C5. Only its owner changes a tournament of the web server. Whatever sequence of messages applications and browsers send, in whatever
  order the handlers run: when a step changes a tournament that is shown under a web name, it is the step of an application that has
  synchronised under this name, whose user logged in, and the database names that user as the owner of the web name.
\<close>

theorem only_owner_changes_tournament:
  assumes "server_reachable J C check_bcrypt s" and "server_step J C check_bcrypt actor s (Inr s')"
    and "storeOf s webName = Some store" and "storeOf s' webName \<noteq> Some store"
  shows "\<exists>n p user. actor = TcpActor n \<and> mTcpObjects s n = Some p \<and> mTcpState p = CLOCK_SYNCED \<and> mTcpWebName p = webName \<and>
    mUserId p = Some user \<and> ownerOf webName (mDatabase s) = Some user"
proof -
  obtain n p where p: "actor = TcpActor n" "mTcpObjects s n = Some p" "onOwnTournament (mAwaiting p)" "mTcpWebName p = webName"
    using server_step_storeOf[OF assms(2-4)] by blast
  note q = server_inv_participant[OF server_reachable_inv[OF assms(1)] p(2)]
  have "mTcpState p = CLOCK_SYNCED" using tcp_inv_awaiting(3)[OF q(1) p(3)] by simp
  then show ?thesis using p q(2) by (auto simp: entitled_def)
qed

theorem only_owner_changes_tournament_witness:
  "\<exists>p s'. exampleReachable (exampleServer p exampleOwners [''cup'' \<mapsto> exampleUploaded]) \<and>
     server_step webFieldChanges exampleCodec (\<lambda>_ _. True) (TcpActor 0) (exampleServer p exampleOwners [''cup'' \<mapsto> exampleUploaded]) (Inr s') \<and>
     storeOf s' ''cup'' \<noteq> storeOf (exampleServer p exampleOwners [''cup'' \<mapsto> exampleUploaded]) ''cup'' \<and>
     mUserId p = Some 1 \<and> ownerOf ''cup'' exampleOwners = Some 1"
proof -
  obtain ms cs where r: "exampleReachable (exampleServer ((exampleOwner ms)\<lparr>mTcpTournament := True, mServerCalls := cs, mAwaiting := ListenRead\<rparr>)
     exampleOwners [''cup'' \<mapsto> exampleUploaded])" using example_upload by blast
  define p where "p = (exampleOwner ms)\<lparr>mTcpTournament := True, mServerCalls := cs, mAwaiting := DispatchCall (ClientActionId 1 5) (renaming ''Open'')\<rparr>"
  let ?s = "exampleServer p exampleOwners [''cup'' \<mapsto> exampleUploaded]"
  have s: "exampleReachable ?s"
    by (rule example_handler[OF r listen_read[where r = "Decoded (BASIC (ACTION (ClientActionId 1 5) (renaming ''Open'')))"]])
      (simp_all add: onListenRead_def onTournament_def p_def exampleOwner_def idle_def newTCPParticipant_def)
  obtain l where l: "lt_dispatch webFieldChanges 0 (ClientActionId 1 5) (renaming ''Open'') exampleUploaded = Inr (True, l)"
      and changed: "mLoadedStore l \<noteq> mLoadedStore exampleUploaded"
    by (simp add: lt_dispatch_def webFieldChanges_def onWeb_def lt_trim_def exampleUploaded_def loaded_defs renaming_simps Let_def)
  obtain s' where s': "answer webFieldChanges (\<lambda>_ _. True) (\<lambda>_. True) 0 [] 0 p ?s = Inr s'" and store: "storeOf s' ''cup'' = mLoadedStore l"
    using l by (simp add: answer_def tournamentCall_def exampleServer_simps p_def exampleOwner_def onTournamentReply_def asyncTournamentListen_def
      asyncRead_def idle_def newTCPParticipant_def storeOf_distribute)
  have step: "server_step webFieldChanges exampleCodec (\<lambda>_ _. True) (TcpActor 0) ?s (Inr s')"
    using tcp_answer[of ?s 0 p webFieldChanges exampleCodec "\<lambda>_ _. True" "\<lambda>_. True" 0 "[]"] s' by (simp add: exampleServer_simps)
  have before: "storeOf ?s ''cup'' = mLoadedStore exampleUploaded" by (simp add: storeOf_def exampleServer_simps)
  then obtain st where st: "storeOf ?s ''cup'' = Some st" by (simp add: exampleUploaded_def)
  have new: "storeOf s' ''cup'' \<noteq> Some st" using changed store before st by simp
  have "mUserId p = Some 1 \<and> ownerOf ''cup'' exampleOwners = Some 1"
    using only_owner_changes_tournament[OF s step st new] by (auto simp: exampleServer_simps p_def exampleOwner_def newTCPParticipant_def)
  then show ?thesis using s step st new by (intro exI[of _ p] exI[of _ s']) simp
qed

end
