(* ===== verification/Web_Client.thy ===== *)
theory Web_Client
  imports Tcp_Participant
begin

section \<open>The connection of the application to the web server\<close>

text \<open>
  Models \<^verbatim>\<open>src/ui/web/web_client.hpp\<close> and \<^verbatim>\<open>web_client.cpp\<close>: the other end of the protocol of the theory \<open>Tcp_Participant\<close>.

  Every handler runs on the thread of the network, so a handler is a step. \<open>mWebCalls\<close> are the asynchronous calls whose handlers
  have not run yet, with what they captured. Unlike the participants of the web server, this class can have several of them, and
  they stay when the connection is killed. \<open>mWebConnection\<close> and \<open>mWebSocket\<close> tell whether the pointers are not null; a call through a
  null pointer is undefined behaviour. A message is its decoded content; the body of \<open>Garbled m\<close> does not decode, and the handlers, which do
  not look at the result of decoding, then read an uninitialised answer. \<open>mSignals\<close> are the signals to the user interface,
  \<open>mSent\<close> the messages of the queue whose writing has ended on this connection. The tournament and the actions of the server are arguments.
\<close>

datatype WebClientState = WEB_NOT_CONNECTED | WEB_CONNECTING | WEB_CONNECTED | WEB_CONFIGURING | WEB_CONFIGURED | WEB_DISCONNECTING

datatype WebCall =
    ConnectCall string string
  | JoinCall string string
  | LoginWrite
  | LoginRead
  | RegisterWrite string
  | RegisterReply string
  | ClockRequestRead
  | QuietRead
  | QueueWrite

datatype WebSignal =
    StateChanged WebClientState
  | LoginSucceeded WebToken
  | LoginFailed WebTokenRequestResponse
  | RegistrationSucceeded string
  | RegistrationFailed WebNameRegistrationResponse

record 'a WebClient =
  mWebState :: WebClientState
  mWebSocket :: bool
  mWebConnection :: bool
  mDisconnecting :: bool
  mWebQueue :: "'a WebMessage list"
  mWebCalls :: "WebCall list"
  mSignals :: "WebSignal list"
  mSent :: "'a WebMessage list"

definition newWebClient :: "'a WebClient" where
  "newWebClient = \<lparr>mWebState = WEB_NOT_CONNECTED, mWebSocket = False, mWebConnection = False, mDisconnecting = False, mWebQueue = [],
     mWebCalls = [], mSignals = [], mSent = []\<rparr>"

definition web_emit :: "WebSignal \<Rightarrow> 'a WebClient \<Rightarrow> 'a WebClient" where
  "web_emit s c = c\<lparr>mSignals := mSignals c @ [s]\<rparr>"

definition web_setState :: "WebClientState \<Rightarrow> 'a WebClient \<Rightarrow> 'a WebClient" where
  "web_setState s c = web_emit (StateChanged s) (c\<lparr>mWebState := s\<rparr>)"

definition web_killConnection :: "'a WebClient \<Rightarrow> 'a WebClient" where
  "web_killConnection c = web_setState WEB_NOT_CONNECTED (c\<lparr>mWebConnection := False, mWebSocket := False, mDisconnecting := False, mWebQueue := []\<rparr>)"

text \<open>A read or write through \<^verbatim>\<open>mConnection\<close>.\<close>

definition web_async :: "WebCall \<Rightarrow> 'a WebClient \<Rightarrow> 'a WebClient result" where
  "web_async h c = (if mWebConnection c then Inr (c\<lparr>mWebCalls := mWebCalls c @ [h]\<rparr>) else Inl UndefinedBehaviour)"

subsection \<open>Logging in\<close>

definition createConnection :: "string \<Rightarrow> string \<Rightarrow> 'a WebClient \<Rightarrow> 'a WebClient result" where
  "createConnection email password c =
     assertE (mWebState c = WEB_NOT_CONNECTED)
       (let c1 = web_setState WEB_CONNECTING (c\<lparr>mDisconnecting := False\<rparr>)
        in Inr (c1\<lparr>mWebSocket := True, mSent := [], mWebCalls := mWebCalls c1 @ [ConnectCall email password]\<rparr>))"

text \<open>The handler that \<^verbatim>\<open>loginUser\<close> passes to \<^verbatim>\<open>createConnection\<close>.\<close>

definition loginHandler :: "bool \<Rightarrow> string \<Rightarrow> string \<Rightarrow> 'a WebClient \<Rightarrow> 'a WebClient result" where
  "loginHandler ec email password c =
     (if ec then Inr (web_emit (LoginFailed TOKEN_SERVER_ERROR) (web_killConnection c))
      else if mDisconnecting c then Inr (web_killConnection c)
      else web_async LoginWrite c)"

definition onConnected :: "string \<Rightarrow> string \<Rightarrow> bool \<Rightarrow> 'a WebClient \<Rightarrow> 'a WebClient result" where
  "onConnected email password ec c =
     (if ec \<or> mDisconnecting c then loginHandler True email password (web_killConnection c)
      else if \<not> mWebSocket c then Inl UndefinedBehaviour
      else web_async (JoinCall email password) (c\<lparr>mWebConnection := True, mWebSocket := False\<rparr>))"

definition onJoined :: "string \<Rightarrow> string \<Rightarrow> bool \<Rightarrow> 'a WebClient \<Rightarrow> 'a WebClient result" where
  "onJoined email password ec c =
     (if ec \<or> mDisconnecting c then loginHandler True email password (web_killConnection c)
      else loginHandler False email password c)"

definition loginUser :: "string \<Rightarrow> string \<Rightarrow> 'a WebClient \<Rightarrow> 'a WebClient result" where
  "loginUser email password c = createConnection email password c"

definition failLogin :: "WebTokenRequestResponse \<Rightarrow> 'a WebClient \<Rightarrow> 'a WebClient" where
  "failLogin response c = web_emit (LoginFailed response) (web_killConnection c)"

definition onLoginWritten :: "bool \<Rightarrow> 'a WebClient \<Rightarrow> 'a WebClient result" where
  "onLoginWritten ec c =
     (if ec then Inr (failLogin TOKEN_SERVER_ERROR c)
      else if mDisconnecting c then Inr (web_killConnection c)
      else web_async LoginRead c)"

definition onLoginRead :: "'a WebRead \<Rightarrow> 'a WebClient \<Rightarrow> 'a WebClient result" where
  "onLoginRead r c =
     (if r = ReadFailed then Inr (failLogin TOKEN_SERVER_ERROR c)
      else if mDisconnecting c then Inr (web_killConnection c)
      else case r of
          Decoded (REQUEST_WEB_TOKEN_RESPONSE response token) \<Rightarrow>
            if response \<noteq> TOKEN_SUCCESSFUL then Inr (failLogin response c)
            else bindE (valueE token) (\<lambda>t.
              Inr (web_emit (StateChanged WEB_CONNECTED) (web_emit (LoginSucceeded t) (c\<lparr>mWebState := WEB_CONNECTED\<rparr>))))
        | Garbled (REQUEST_WEB_TOKEN_RESPONSE response token) \<Rightarrow> Inl UndefinedBehaviour
        | _ \<Rightarrow> Inr (failLogin TOKEN_SERVER_ERROR c))"

subsection \<open>Sending messages\<close>

definition web_writeMessage :: "'a WebClient \<Rightarrow> 'a WebClient result" where
  "web_writeMessage c = web_async QueueWrite c"

definition web_deliver :: "'a WebMessage \<Rightarrow> 'a WebClient \<Rightarrow> 'a WebClient result" where
  "web_deliver m c =
     (if mWebState c \<noteq> WEB_CONFIGURED \<or> mDisconnecting c then Inr c
      else let c1 = c\<lparr>mWebQueue := mWebQueue c @ [m]\<rparr>
           in if mWebQueue c = [] then web_writeMessage c1 else Inr c1)"

definition onQueueWritten :: "bool \<Rightarrow> 'a WebClient \<Rightarrow> 'a WebClient result" where
  "onQueueWritten ec c =
     (if ec then Inr (web_killConnection c)
      else case mWebQueue c of
          [] \<Rightarrow> Inl UndefinedBehaviour
        | m # ms \<Rightarrow>
            let c1 = c\<lparr>mWebQueue := ms, mSent := mSent c @ [m]\<rparr>
            in if ms \<noteq> [] then web_writeMessage c1
               else if mDisconnecting c1 then Inr (web_killConnection c1)
               else Inr c1)"

definition web_disconnect :: "'a WebClient \<Rightarrow> 'a WebClient" where
  "web_disconnect c =
     (if mWebState c = WEB_NOT_CONNECTED then c
      else let c1 = c\<lparr>mDisconnecting := True\<rparr>
           in if mWebState c1 = WEB_CONFIGURED \<and> mWebQueue c1 = [] then web_killConnection c1 else c1)"

definition web_stop :: "'a WebClient \<Rightarrow> 'a WebClient" where
  "web_stop c = web_disconnect c"

subsection \<open>Registering the web name and the upload\<close>

definition client_registerWebName :: "string \<Rightarrow> 'a WebClient \<Rightarrow> 'a WebClient result" where
  "client_registerWebName webName c =
     assertE (mWebState c = WEB_CONNECTED)
       (let c1 = web_setState WEB_CONFIGURING c
        in if mDisconnecting c1 then Inr (web_killConnection c1) else web_async (RegisterWrite webName) c1)"

definition failRegistration :: "WebNameRegistrationResponse \<Rightarrow> 'a WebClient \<Rightarrow> 'a WebClient" where
  "failRegistration response c = web_emit (RegistrationFailed response) (web_killConnection c)"

definition onRegisterWritten :: "string \<Rightarrow> bool \<Rightarrow> 'a WebClient \<Rightarrow> 'a WebClient result" where
  "onRegisterWritten webName ec c =
     (if ec then Inr (failRegistration NAME_SERVER_ERROR c)
      else if mDisconnecting c then Inr (web_killConnection c)
      else web_async (RegisterReply webName) c)"

definition enterClockSync :: "'a WebClient \<Rightarrow> 'a WebClient result" where
  "enterClockSync c = web_async ClockRequestRead c"

definition onRegisterReply :: "string \<Rightarrow> 'a WebRead \<Rightarrow> 'a WebClient \<Rightarrow> 'a WebClient result" where
  "onRegisterReply webName r c =
     (if r = ReadFailed then Inr (failRegistration NAME_SERVER_ERROR c)
      else if mDisconnecting c then Inr (web_killConnection c)
      else case r of
          Decoded (REGISTER_WEB_NAME_RESPONSE response) \<Rightarrow>
            if response \<noteq> NAME_SUCCESSFUL then Inr (failRegistration response c)
            else enterClockSync (web_setState WEB_CONFIGURED (web_emit (RegistrationSucceeded webName) c))
        | Garbled (REGISTER_WEB_NAME_RESPONSE response) \<Rightarrow> Inl UndefinedBehaviour
        | _ \<Rightarrow> Inr (failRegistration NAME_SERVER_ERROR c))"

definition enterConfigured :: "TournamentStore \<Rightarrow> 'a ActionList \<Rightarrow> 'a WebClient \<Rightarrow> 'a WebClient result" where
  "enterConfigured t stack c = bindE (web_deliver (BASIC (SYNC t stack)) c) (web_async QuietRead)"

definition onClockRequest :: "int \<Rightarrow> TournamentStore \<Rightarrow> 'a ActionList \<Rightarrow> 'a WebRead \<Rightarrow> 'a WebClient \<Rightarrow> 'a WebClient result" where
  "onClockRequest p1 t stack r c =
     (if mDisconnecting c \<or> r = ReadFailed then Inr (web_killConnection c)
      else if r = Decoded (BASIC CLOCK_SYNC_REQUEST) \<or> r = Garbled (BASIC CLOCK_SYNC_REQUEST)
      then bindE (web_deliver (BASIC (CLOCK_SYNC p1)) c) (enterConfigured t stack)
      else Inr (web_killConnection c))"

definition onQuietRead :: "'a WebRead \<Rightarrow> 'a WebClient \<Rightarrow> 'a WebClient result" where
  "onQuietRead r c = Inr (web_killConnection c)"

subsection \<open>Runs\<close>

text \<open>
  The user interface logs in when the client is not connected and registers a name when it is connected. A login comes after the
  handlers of the calls of an earlier connection: closing a socket queues them at once.
\<close>

definition finishCall :: "WebCall \<Rightarrow> 'a WebClient \<Rightarrow> 'a WebClient" where
  "finishCall h c = c\<lparr>mWebCalls := remove1 h (mWebCalls c)\<rparr>"

inductive web_step :: "'a WebClient \<Rightarrow> 'a WebClient result \<Rightarrow> bool" where
  login: "mWebState c = WEB_NOT_CONNECTED \<Longrightarrow> mWebCalls c = [] \<Longrightarrow> web_step c (loginUser email password c)"
| register: "mWebState c = WEB_CONNECTED \<Longrightarrow> web_step c (client_registerWebName webName c)"
| disconnect: "web_step c (Inr (web_disconnect c))"
| delivery: "web_step c (web_deliver m c)"
| connected: "ConnectCall email password \<in> set (mWebCalls c) \<Longrightarrow>
    web_step c (onConnected email password ec (finishCall (ConnectCall email password) c))"
| joined: "JoinCall email password \<in> set (mWebCalls c) \<Longrightarrow> web_step c (onJoined email password ec (finishCall (JoinCall email password) c))"
| login_written: "LoginWrite \<in> set (mWebCalls c) \<Longrightarrow> web_step c (onLoginWritten ec (finishCall LoginWrite c))"
| login_read: "LoginRead \<in> set (mWebCalls c) \<Longrightarrow> web_step c (onLoginRead r (finishCall LoginRead c))"
| register_written: "RegisterWrite webName \<in> set (mWebCalls c) \<Longrightarrow>
    web_step c (onRegisterWritten webName ec (finishCall (RegisterWrite webName) c))"
| register_reply: "RegisterReply webName \<in> set (mWebCalls c) \<Longrightarrow> web_step c (onRegisterReply webName r (finishCall (RegisterReply webName) c))"
| clock_request: "ClockRequestRead \<in> set (mWebCalls c) \<Longrightarrow> web_step c (onClockRequest p1 t stack r (finishCall ClockRequestRead c))"
| quiet_read: "QuietRead \<in> set (mWebCalls c) \<Longrightarrow> web_step c (onQuietRead r (finishCall QuietRead c))"
| queue_written: "QueueWrite \<in> set (mWebCalls c) \<Longrightarrow> web_step c (onQueueWritten ec (finishCall QueueWrite c))"

inductive webClient_reachable :: "'a WebClient \<Rightarrow> bool" where
  web_started: "webClient_reachable newWebClient"
| web_stepped: "webClient_reachable c \<Longrightarrow> web_step c (Inr c') \<Longrightarrow> webClient_reachable c'"

subsection \<open>The calls that are under way fit the state\<close>

definition chainCalls :: "WebCall set" where
  "chainCalls = {ClockRequestRead, QuietRead}"

fun callsFit :: "WebClientState \<Rightarrow> 'a WebClient \<Rightarrow> bool" where
  "callsFit WEB_NOT_CONNECTED c \<longleftrightarrow> \<not> mWebConnection c \<and> mWebQueue c = [] \<and> set (mWebCalls c) \<subseteq> insert QueueWrite chainCalls"
| "callsFit WEB_CONNECTING c \<longleftrightarrow> mWebQueue c = [] \<and>
     ((\<exists>e p. mWebCalls c = [ConnectCall e p]) \<and> mWebSocket c \<or>
      ((\<exists>e p. mWebCalls c = [JoinCall e p]) \<or> mWebCalls c = [LoginWrite] \<or> mWebCalls c = [LoginRead]) \<and> mWebConnection c)"
| "callsFit WEB_CONNECTED c \<longleftrightarrow> mWebQueue c = [] \<and> mWebCalls c = [] \<and> mWebConnection c"
| "callsFit WEB_CONFIGURING c \<longleftrightarrow> mWebQueue c = [] \<and> (\<exists>w. mWebCalls c = [RegisterWrite w] \<or> mWebCalls c = [RegisterReply w]) \<and> mWebConnection c"
| "callsFit WEB_CONFIGURED c \<longleftrightarrow> mWebConnection c \<and>
     (\<exists>h \<in> chainCalls. mset (mWebCalls c) = (if mWebQueue c = [] then {#h#} else {#h, QueueWrite#}))"
| "callsFit WEB_DISCONNECTING c \<longleftrightarrow> False"

definition web_inv :: "'a WebClient \<Rightarrow> bool" where
  "web_inv c \<longleftrightarrow> callsFit (mWebState c) c"

lemmas web_defs = web_emit_def web_setState_def web_killConnection_def web_async_def failLogin_def failRegistration_def

lemma kill_simps [simp]:
  "mWebState (web_killConnection c) = WEB_NOT_CONNECTED" "mWebQueue (web_killConnection c) = []" "mWebCalls (web_killConnection c) = mWebCalls c"
  "\<not> mWebConnection (web_killConnection c)"
  by (simp_all add: web_defs)

lemma emit_simps [simp]:
  "mWebState (web_emit s c) = mWebState c" "mWebQueue (web_emit s c) = mWebQueue c" "mWebCalls (web_emit s c) = mWebCalls c"
  "mWebConnection (web_emit s c) = mWebConnection c" "mWebSocket (web_emit s c) = mWebSocket c" "mDisconnecting (web_emit s c) = mDisconnecting c"
  "mSent (web_emit s c) = mSent c"
  by (simp_all add: web_emit_def)

lemma web_inv_emit [simp]: "web_inv (web_emit s c) = web_inv c"
  by (cases "mWebState c") (simp_all add: web_inv_def)

lemma web_inv_kill: "set (mWebCalls c) \<subseteq> insert QueueWrite chainCalls \<Longrightarrow> web_inv (web_killConnection c)"
  by (simp add: web_inv_def)

lemma web_inv_fails [simp]: "mWebCalls c = [] \<Longrightarrow> web_inv (failLogin r c)" "mWebCalls c = [] \<Longrightarrow> web_inv (failRegistration r' c)"
  by (simp_all add: failLogin_def failRegistration_def web_inv_kill)

lemma configured_set: "callsFit WEB_CONFIGURED c \<Longrightarrow> set (mWebCalls c) \<subseteq> insert QueueWrite chainCalls"
proof -
  assume "callsFit WEB_CONFIGURED c"
  then obtain h where "h \<in> chainCalls" and calls: "mset (mWebCalls c) = (if mWebQueue c = [] then {#h#} else {#h, QueueWrite#})" by auto
  then have "set_mset (mset (mWebCalls c)) \<subseteq> insert QueueWrite chainCalls" unfolding calls by auto
  then show ?thesis by simp
qed

lemma web_deliver_inv:
  assumes "web_inv c"
  obtains c' where "web_deliver m c = Inr c'" and "web_inv c'" and "mWebState c' = mWebState c" and "mDisconnecting c' = mDisconnecting c"
    and "mSent c' @ mWebQueue c' = mSent c @ mWebQueue c @ (if mWebState c = WEB_CONFIGURED \<and> \<not> mDisconnecting c then [m] else [])"
proof -
  consider "\<not> (mWebState c = WEB_CONFIGURED \<and> \<not> mDisconnecting c)" | "mWebState c = WEB_CONFIGURED" "\<not> mDisconnecting c" "mWebQueue c = []"
    | "mWebState c = WEB_CONFIGURED" "\<not> mDisconnecting c" "mWebQueue c \<noteq> []" by blast
  then show thesis
  proof cases
    case 1
    with assms show ?thesis by (intro that[of c]) (auto simp: web_deliver_def)
  next
    case 2
    with assms show ?thesis
      by (intro that[of "c\<lparr>mWebQueue := [m], mWebCalls := mWebCalls c @ [QueueWrite]\<rparr>"])
        (auto simp: web_inv_def web_deliver_def web_writeMessage_def web_async_def)
  next
    case 3
    with assms show ?thesis by (intro that[of "c\<lparr>mWebQueue := mWebQueue c @ [m]\<rparr>"]) (auto simp: web_inv_def web_deliver_def)
  qed
qed

lemma finishCall_simps [simp]:
  "mWebState (finishCall h c) = mWebState c" "mWebQueue (finishCall h c) = mWebQueue c" "mWebConnection (finishCall h c) = mWebConnection c"
  "mWebSocket (finishCall h c) = mWebSocket c" "mDisconnecting (finishCall h c) = mDisconnecting c" "mSent (finishCall h c) = mSent c"
  "mWebCalls (finishCall h c) = remove1 h (mWebCalls c)"
  by (simp_all add: finishCall_def)

text \<open>Which states a call can be under way in.\<close>

lemma web_inv_call:
  assumes "web_inv c" and "h \<in> set (mWebCalls c)"
  shows "h = ConnectCall e p \<Longrightarrow> mWebState c = WEB_CONNECTING \<and> mWebCalls c = [h] \<and> mWebSocket c \<and> mWebQueue c = []"
    and "h = JoinCall e p \<Longrightarrow> mWebState c = WEB_CONNECTING \<and> mWebCalls c = [h] \<and> mWebConnection c \<and> mWebQueue c = []"
    and "h = LoginWrite \<Longrightarrow> mWebState c = WEB_CONNECTING \<and> mWebCalls c = [h] \<and> mWebConnection c \<and> mWebQueue c = []"
    and "h = LoginRead \<Longrightarrow> mWebState c = WEB_CONNECTING \<and> mWebCalls c = [h] \<and> mWebConnection c \<and> mWebQueue c = []"
    and "h = RegisterWrite w \<Longrightarrow> mWebState c = WEB_CONFIGURING \<and> mWebCalls c = [h] \<and> mWebConnection c \<and> mWebQueue c = []"
    and "h = RegisterReply w \<Longrightarrow> mWebState c = WEB_CONFIGURING \<and> mWebCalls c = [h] \<and> mWebConnection c \<and> mWebQueue c = []"
  using assms configured_set[of c] by (cases "mWebState c"; auto simp: web_inv_def chainCalls_def)+

lemma web_inv_chain:
  assumes "web_inv c" and "h \<in> set (mWebCalls c)" and "h \<in> insert QueueWrite chainCalls"
  obtains "mWebState c = WEB_NOT_CONNECTED" and "\<not> mWebConnection c" and "mWebQueue c = []"
      and "set (mWebCalls c) \<subseteq> insert QueueWrite chainCalls"
    | "mWebState c = WEB_CONFIGURED" and "mWebConnection c" and "h \<in> chainCalls" and "mset (mWebCalls c) = (if mWebQueue c = [] then {#h#} else {#h, QueueWrite#})"
    | h' where "mWebState c = WEB_CONFIGURED" and "mWebConnection c" and "h = QueueWrite" and "mWebQueue c \<noteq> []" and "h' \<in> chainCalls"
      and "mset (mWebCalls c) = {#h', QueueWrite#}"
proof (cases "mWebState c = WEB_CONFIGURED")
  case True
  with assms(1) obtain h' where h': "h' \<in> chainCalls" "mset (mWebCalls c) = (if mWebQueue c = [] then {#h'#} else {#h', QueueWrite#})"
    and conn: "mWebConnection c" by (auto simp: web_inv_def)
  have "h \<in> set_mset (mset (mWebCalls c))" using assms(2) by simp
  then have "h = h' \<or> h = QueueWrite \<and> mWebQueue c \<noteq> []" unfolding h'(2) by (auto split: if_splits)
  then show thesis using that(2,3) h' True conn by (auto simp: chainCalls_def)
next
  case False
  with assms that(1) show thesis by (cases "mWebState c") (auto simp: web_inv_def chainCalls_def)
qed

lemma remove1_chain:
  "mset (mWebCalls c) = (if mWebQueue c = [] then {#h#} else {#h, QueueWrite#}) \<Longrightarrow>
   mWebCalls (finishCall h c) = (if mWebQueue c = [] then [] else [QueueWrite])"
proof -
  assume "mset (mWebCalls c) = (if mWebQueue c = [] then {#h#} else {#h, QueueWrite#})"
  then have "mset (remove1 h (mWebCalls c)) = (if mWebQueue c = [] then {#} else {#QueueWrite#})" by simp
  then show ?thesis by (auto simp del: mset_remove1 split: if_splits)
qed

lemma remove1_queue:
  assumes "mset (mWebCalls c) = {#h', QueueWrite#}"
  shows "mWebCalls (finishCall QueueWrite c) = [h']"
proof -
  have "mset (remove1 QueueWrite (mWebCalls c)) = {#h'#}" using assms by (simp add: add_mset_commute)
  then show ?thesis by (simp del: mset_remove1)
qed

text \<open>The clock request of an open connection: the queue grows by the clock and the tournament.\<close>

lemma clock_request_open:
  assumes "mWebState c = WEB_CONFIGURED" and "mWebConnection c" and "\<not> mDisconnecting c"
    and "mWebCalls c = (if mWebQueue c = [] then [] else [QueueWrite])"
    and "r = Decoded (BASIC CLOCK_SYNC_REQUEST) \<or> r = Garbled (BASIC CLOCK_SYNC_REQUEST)"
  shows "onClockRequest p1 t stack r c = Inr (c\<lparr>mWebQueue := mWebQueue c @ [BASIC (CLOCK_SYNC p1), BASIC (SYNC t stack)],
    mWebCalls := [QueueWrite, QuietRead]\<rparr>)"
  using assms by (cases "mWebQueue c = []")
    (auto simp: onClockRequest_def enterConfigured_def web_deliver_def web_writeMessage_def web_async_def Let_def)

lemma onClockRequest_inv:
  assumes "web_inv c" and "ClockRequestRead \<in> set (mWebCalls c)"
  shows "mWebState c \<noteq> WEB_NOT_CONNECTED \<Longrightarrow> \<exists>c'. onClockRequest p1 t stack r (finishCall ClockRequestRead c) = Inr c'"
    and "onClockRequest p1 t stack r (finishCall ClockRequestRead c) = Inr c' \<Longrightarrow> web_inv c'"
proof -
  let ?c = "finishCall ClockRequestRead c"
  have kill: "web_inv (web_killConnection ?c)" if "set (mWebCalls c) \<subseteq> insert QueueWrite chainCalls"
    using that set_remove1_subset[of ClockRequestRead "mWebCalls c"] by (intro web_inv_kill) auto
  have "(mWebState c \<noteq> WEB_NOT_CONNECTED \<longrightarrow> (\<exists>c'. onClockRequest p1 t stack r ?c = Inr c')) \<and>
    (\<forall>c'. onClockRequest p1 t stack r ?c = Inr c' \<longrightarrow> web_inv c')"
  proof (cases "mDisconnecting c \<or> r \<noteq> Decoded (BASIC CLOCK_SYNC_REQUEST) \<and> r \<noteq> Garbled (BASIC CLOCK_SYNC_REQUEST)")
    case True
    then have "onClockRequest p1 t stack r ?c = Inr (web_killConnection ?c)" by (auto simp: onClockRequest_def)
    moreover have "set (mWebCalls c) \<subseteq> insert QueueWrite chainCalls"
      using web_inv_chain[OF assms] configured_set[of c] assms(1) by (auto simp: chainCalls_def web_inv_def)
    ultimately show ?thesis using kill by simp
  next
    case False
    from assms show ?thesis
    proof (rule web_inv_chain)
      assume "mWebState c = WEB_NOT_CONNECTED" "\<not> mWebConnection c"
      then show ?thesis using False by (auto simp: onClockRequest_def enterConfigured_def web_deliver_def web_async_def)
    next
      assume "mWebState c = WEB_CONFIGURED" "mWebConnection c"
        and "mset (mWebCalls c) = (if mWebQueue c = [] then {#ClockRequestRead#} else {#ClockRequestRead, QueueWrite#})"
      then show ?thesis using False clock_request_open[of ?c r p1 t stack] remove1_chain[of c ClockRequestRead]
        by (auto simp: web_inv_def chainCalls_def add_mset_commute simp del: finishCall_simps(7))
    qed (simp_all add: chainCalls_def)
  qed
  then show "mWebState c \<noteq> WEB_NOT_CONNECTED \<Longrightarrow> \<exists>c'. onClockRequest p1 t stack r ?c = Inr c'"
    and "onClockRequest p1 t stack r ?c = Inr c' \<Longrightarrow> web_inv c'" by blast+
qed

lemma onQueueWritten_inv:
  assumes "web_inv c" and "QueueWrite \<in> set (mWebCalls c)"
  shows "(mWebState c \<noteq> WEB_NOT_CONNECTED \<longrightarrow> (\<exists>c'. onQueueWritten ec (finishCall QueueWrite c) = Inr c')) \<and>
    (\<forall>c'. onQueueWritten ec (finishCall QueueWrite c) = Inr c' \<longrightarrow> web_inv c' \<and>
      (mWebState c' = WEB_CONFIGURED \<longrightarrow> mSent c' @ mWebQueue c' = mSent c @ mWebQueue c))"
  using assms
proof (rule web_inv_chain)
  assume closed: "mWebState c = WEB_NOT_CONNECTED" "\<not> mWebConnection c" "mWebQueue c = []" "set (mWebCalls c) \<subseteq> insert QueueWrite chainCalls"
  then have "web_inv (web_killConnection (finishCall QueueWrite c))"
    using set_remove1_subset[of QueueWrite "mWebCalls c"] by (intro web_inv_kill) auto
  then show ?thesis using closed by (auto simp: onQueueWritten_def)
next
  fix h'
  assume conn: "mWebState c = WEB_CONFIGURED" "mWebConnection c" "mWebQueue c \<noteq> []" "h' \<in> chainCalls" "mset (mWebCalls c) = {#h', QueueWrite#}"
  note calls = remove1_queue[OF conn(5)]
  have "web_inv (web_killConnection (finishCall QueueWrite c))" and "web_inv (web_killConnection ((finishCall QueueWrite c)\<lparr>mWebQueue := ms, mSent := ns\<rparr>))" for ms ns
    using calls conn(4) by (auto intro!: web_inv_kill)
  then show ?thesis using conn calls
    by (auto simp: onQueueWritten_def web_writeMessage_def web_async_def web_inv_def chainCalls_def Let_def simp del: finishCall_simps(7)
        split: list.split if_splits)
qed (simp_all add: chainCalls_def)

text \<open>The handlers before the upload start from a state without any other call.\<close>

lemma login_chain:
  assumes "mWebCalls c = []" and "mWebQueue c = []" and "mWebState c = WEB_CONNECTING"
  shows "mWebSocket c \<Longrightarrow> \<exists>c'. onConnected e p ec c = Inr c' \<and> web_inv c'"
    and "mWebConnection c \<Longrightarrow> \<exists>c'. onJoined e p ec c = Inr c' \<and> web_inv c'"
    and "mWebConnection c \<Longrightarrow> \<exists>c'. onLoginWritten ec c = Inr c' \<and> web_inv c'"
  using assms by (auto simp: onConnected_def onJoined_def onLoginWritten_def loginHandler_def web_async_def intro!: web_inv_kill)
    (auto simp: web_inv_def)

lemma onLoginRead_inv:
  assumes "mWebCalls c = []" and "mWebQueue c = []" and "mWebConnection c" and "onLoginRead r c = Inr c'"
  shows "web_inv c'"
  using assms
  by (auto simp: onLoginRead_def intro!: web_inv_kill split: if_splits WebRead.splits WebMessage.splits) (auto simp: web_inv_def)

lemma register_chain:
  assumes "mWebCalls c = []" and "mWebQueue c = []" and "mWebConnection c"
  shows "mWebState c = WEB_CONNECTED \<Longrightarrow> \<exists>c'. client_registerWebName w c = Inr c' \<and> web_inv c'"
    and "mWebState c = WEB_CONFIGURING \<Longrightarrow> \<exists>c'. onRegisterWritten w ec c = Inr c' \<and> web_inv c'"
  using assms by (auto simp: client_registerWebName_def onRegisterWritten_def web_async_def web_setState_def Let_def intro!: web_inv_kill)
    (auto simp: web_inv_def)

lemma onRegisterReply_inv:
  assumes "mWebCalls c = []" and "mWebQueue c = []" and "mWebConnection c" and "onRegisterReply w r c = Inr c'"
  shows "web_inv c'"
  using assms
  by (auto simp: onRegisterReply_def enterClockSync_def web_async_def web_setState_def intro!: web_inv_kill
      split: if_splits WebRead.splits WebMessage.splits) (auto simp: web_inv_def chainCalls_def)

lemma web_disconnect_inv: "web_inv c \<Longrightarrow> web_inv (web_disconnect c)"
  using configured_set[of c] by (cases "mWebState c") (auto simp: web_disconnect_def Let_def web_inv_def intro!: web_inv_kill[unfolded web_inv_def])

lemma loginUser_inv: "web_inv c \<Longrightarrow> mWebState c = WEB_NOT_CONNECTED \<Longrightarrow> mWebCalls c = [] \<Longrightarrow> \<exists>c'. loginUser e p c = Inr c' \<and> web_inv c'"
  by (simp add: loginUser_def createConnection_def web_setState_def Let_def) (simp add: web_inv_def)

lemma quiet_inv: "web_inv c \<Longrightarrow> QuietRead \<in> set (mWebCalls c) \<Longrightarrow> \<exists>c'. onQuietRead r (finishCall QuietRead c) = Inr c' \<and> web_inv c'"
  using configured_set[of c] set_remove1_subset[of QuietRead "mWebCalls c"]
  by (cases "mWebState c") (auto simp: onQuietRead_def web_inv_def chainCalls_def)

text \<open>
  A handler that gets an answer it cannot use: to the login one that does not decode, or that grants it without a token, and to the
  registration of the web name one that does not decode.
\<close>

definition uselessAnswer :: "'a WebClient \<Rightarrow> 'a WebClient result \<Rightarrow> bool" where
  "uselessAnswer c r \<longleftrightarrow>
     LoginRead \<in> set (mWebCalls c) \<and>
       (\<exists>m. r = onLoginRead m (finishCall LoginRead c) \<and>
          (m = Decoded (REQUEST_WEB_TOKEN_RESPONSE TOKEN_SUCCESSFUL None) \<or> (\<exists>x t. m = Garbled (REQUEST_WEB_TOKEN_RESPONSE x t)))) \<or>
     (\<exists>w x. RegisterReply w \<in> set (mWebCalls c) \<and>
        r = onRegisterReply w (Garbled (REGISTER_WEB_NAME_RESPONSE x)) (finishCall (RegisterReply w) c))"

lemma onLoginRead_fails:
  "onLoginRead m c = Inl e \<Longrightarrow> m = Decoded (REQUEST_WEB_TOKEN_RESPONSE TOKEN_SUCCESSFUL None) \<or> (\<exists>x t. m = Garbled (REQUEST_WEB_TOKEN_RESPONSE x t))"
  by (auto simp: onLoginRead_def valueE_def split: if_splits WebRead.splits WebMessage.splits option.splits)

lemma onRegisterReply_fails: "onRegisterReply w m c = Inl e \<Longrightarrow> mWebConnection c \<Longrightarrow> \<exists>x. m = Garbled (REGISTER_WEB_NAME_RESPONSE x)"
  by (auto simp: onRegisterReply_def enterClockSync_def web_async_def web_setState_def split: if_splits WebRead.splits WebMessage.splits)

lemma web_step_result:
  assumes "web_step c r" and "web_inv c"
  shows "(\<exists>c'. r = Inr c' \<and> web_inv c') \<or> (\<exists>e. r = Inl e) \<and> (mWebState c = WEB_NOT_CONNECTED \<or> uselessAnswer c r)"
  using assms(1)
proof cases
  case (login email password)
  then show ?thesis using loginUser_inv[OF assms(2)] by blast
next
  case (register webName)
  then show ?thesis using register_chain(1)[of c webName] assms(2) by (simp add: web_inv_def)
next
  case disconnect
  then show ?thesis using web_disconnect_inv[OF assms(2)] by blast
next
  case (delivery m)
  then show ?thesis using web_deliver_inv[OF assms(2), of m] by metis
next
  case (connected e p ec)
  then show ?thesis using web_inv_call(1)[OF assms(2), of _ e p] login_chain(1)[of "finishCall (ConnectCall e p) c" e p ec] by force
next
  case (joined e p ec)
  then show ?thesis using web_inv_call(2)[OF assms(2), of _ e p] login_chain(2)[of "finishCall (JoinCall e p) c" e p ec] by force
next
  case (login_written ec)
  then show ?thesis using web_inv_call(3)[OF assms(2)] login_chain(3)[of "finishCall LoginWrite c" ec] by force
next
  case (login_read m)
  then show ?thesis using web_inv_call(4)[OF assms(2)] onLoginRead_inv[of "finishCall LoginRead c" m] onLoginRead_fails[of m "finishCall LoginRead c"]
    by (cases r) (force simp: uselessAnswer_def)+
next
  case (register_written w ec)
  then show ?thesis using web_inv_call(5)[OF assms(2), of _ w] register_chain(2)[of "finishCall (RegisterWrite w) c" w ec] by force
next
  case (register_reply w m)
  then have c: "mWebCalls c = [RegisterReply w]" "mWebQueue c = []" "mWebConnection c" using web_inv_call(6)[OF assms(2), of _ w] by simp_all
  show ?thesis
  proof (cases r)
    case (Inl e)
    with register_reply c obtain x where "m = Garbled (REGISTER_WEB_NAME_RESPONSE x)"
      using onRegisterReply_fails[of w m "finishCall (RegisterReply w) c" e] by auto
    with register_reply have "uselessAnswer c r" by (auto simp: uselessAnswer_def)
    with Inl show ?thesis by simp
  next
    case (Inr c')
    with register_reply c have "web_inv c'" using onRegisterReply_inv[of "finishCall (RegisterReply w) c" w m c'] by simp
    with Inr show ?thesis by simp
  qed
next
  case (clock_request p1 t stack m)
  then show ?thesis using onClockRequest_inv[OF assms(2), of p1 t stack m]
    by (cases "onClockRequest p1 t stack m (finishCall ClockRequestRead c)") auto
next
  case (quiet_read m)
  then show ?thesis using quiet_inv[OF assms(2), of m] by auto
next
  case (queue_written ec)
  then show ?thesis using onQueueWritten_inv[OF assms(2), of ec]
    by (cases "onQueueWritten ec (finishCall QueueWrite c)") auto
qed

lemma webClient_reachable_inv: "webClient_reachable c \<Longrightarrow> web_inv c"
proof (induction rule: webClient_reachable.induct)
  case web_started
  show ?case by (simp add: web_inv_def newWebClient_def)
next
  case (web_stepped c c')
  then show ?case using web_step_result[of c "Inr c'"] by auto
qed

text \<open>
  C26. While an application is connected to the web server, its handlers violate no assertion, never call through a null pointer and never take
  a message from an empty queue, whatever the user does and whatever arrives; only the two handlers that decode an answer of the web
  server can fail, on an answer that does not decode or grants a login without a token. A write is under way exactly while the queue holds messages.
\<close>
theorem web_client_handlers_succeed_while_connected:
  assumes "webClient_reachable c" and "mWebState c \<noteq> WEB_NOT_CONNECTED"
  shows "(web_step c (Inl e) \<longrightarrow> uselessAnswer c (Inl e)) \<and>
    (mWebState c = WEB_CONFIGURED \<longrightarrow> mWebConnection c \<and> count_list (mWebCalls c) QueueWrite = (if mWebQueue c = [] then 0 else 1))"
proof -
  have inv: "web_inv c" by (rule webClient_reachable_inv[OF assms(1)])
  have "count_list (mWebCalls c) QueueWrite = (if mWebQueue c = [] then 0 else 1)" and "mWebConnection c" if "mWebState c = WEB_CONFIGURED"
  proof -
    from inv that obtain h where "h \<in> chainCalls" and calls: "mset (mWebCalls c) = (if mWebQueue c = [] then {#h#} else {#h, QueueWrite#})"
      and "mWebConnection c" by (auto simp: web_inv_def)
    then show "count_list (mWebCalls c) QueueWrite = (if mWebQueue c = [] then 0 else 1)" and "mWebConnection c"
      unfolding count_mset[symmetric] calls by (auto simp: chainCalls_def)
  qed
  then show ?thesis using web_step_result[OF _ inv, of "Inl e"] assms(2) by auto
qed

text \<open>The client of the user a that has registered the web name cup, before the clock request arrives.\<close>

definition exampleConfigured :: "'a WebClient" where
  "exampleConfigured = \<lparr>mWebState = WEB_CONFIGURED, mWebSocket = False, mWebConnection = True, mDisconnecting = False, mWebQueue = [],
     mWebCalls = [ClockRequestRead],
     mSignals = [StateChanged WEB_CONNECTING, LoginSucceeded [2], StateChanged WEB_CONNECTED, StateChanged WEB_CONFIGURING,
       RegistrationSucceeded ''cup'', StateChanged WEB_CONFIGURED], mSent = []\<rparr>"

lemma web_step_to: "webClient_reachable c \<Longrightarrow> web_step c r \<Longrightarrow> r = Inr c' \<Longrightarrow> webClient_reachable c'"
  using web_stepped by blast

lemma exampleConfigured_reachable: "webClient_reachable (exampleConfigured :: 'a WebClient)"
proof -
  note defs = newWebClient_def finishCall_def web_async_def web_emit_def web_setState_def loginUser_def createConnection_def onConnected_def
    onJoined_def loginHandler_def onLoginWritten_def onLoginRead_def client_registerWebName_def onRegisterWritten_def onRegisterReply_def
    enterClockSync_def Let_def
  let ?new = "newWebClient\<lparr>mSignals := [StateChanged WEB_CONNECTING]\<rparr> :: 'a WebClient"
  let ?open = "?new\<lparr>mWebState := WEB_CONNECTING, mWebConnection := True\<rparr>"
  let ?in = "?open\<lparr>mWebState := WEB_CONNECTED, mSignals := [StateChanged WEB_CONNECTING, LoginSucceeded [2], StateChanged WEB_CONNECTED]\<rparr>"
  let ?reg = "?in\<lparr>mWebState := WEB_CONFIGURING, mSignals := mSignals ?in @ [StateChanged WEB_CONFIGURING]\<rparr>"
  have "webClient_reachable (?new\<lparr>mWebState := WEB_CONNECTING, mWebSocket := True, mWebCalls := [ConnectCall ''a'' ''p'']\<rparr>)"
    by (rule web_step_to[OF web_started login[where email = "''a''" and password = "''p''"]]) (simp_all add: defs)
  then have "webClient_reachable (?open\<lparr>mWebCalls := [JoinCall ''a'' ''p'']\<rparr>)"
    by (rule web_step_to[OF _ connected[where ec = False and email = "''a''" and password = "''p''"]]) (simp_all add: defs)
  then have "webClient_reachable (?open\<lparr>mWebCalls := [LoginWrite]\<rparr>)"
    by (rule web_step_to[OF _ joined[where ec = False and email = "''a''" and password = "''p''"]]) (simp_all add: defs)
  then have "webClient_reachable (?open\<lparr>mWebCalls := [LoginRead]\<rparr>)"
    by (rule web_step_to[OF _ login_written[where ec = False]]) (simp_all add: defs)
  then have "webClient_reachable ?in"
    by (rule web_step_to[OF _ login_read[where r = "Decoded (REQUEST_WEB_TOKEN_RESPONSE TOKEN_SUCCESSFUL (Some [2]))"]]) (simp_all add: defs)
  then have "webClient_reachable (?reg\<lparr>mWebCalls := [RegisterWrite ''cup'']\<rparr>)"
    by (rule web_step_to[OF _ register[where webName = "''cup''"]]) (simp_all add: defs)
  then have "webClient_reachable (?reg\<lparr>mWebCalls := [RegisterReply ''cup'']\<rparr>)"
    by (rule web_step_to[OF _ register_written[where ec = False and webName = "''cup''"]]) (simp_all add: defs)
  then show ?thesis
    by (rule web_step_to[OF _ register_reply[where r = "Decoded (REGISTER_WEB_NAME_RESPONSE NAME_SUCCESSFUL)" and webName = "''cup''"]])
      (simp_all add: defs exampleConfigured_def)
qed

theorem web_client_handlers_succeed_while_connected_witness:
  "\<not> web_step (exampleConfigured :: FieldChange WebClient) (Inl UndefinedBehaviour) \<and> mWebConnection (exampleConfigured :: FieldChange WebClient)"
  using web_client_handlers_succeed_while_connected[OF exampleConfigured_reachable, of UndefinedBehaviour]
  by (auto simp: exampleConfigured_def uselessAnswer_def)

subsection \<open>The order of the upload\<close>

text \<open>The messages that are delivered, and written, while the connection stays.\<close>

inductive web_upload :: "'a WebClient \<Rightarrow> 'a WebMessage list \<Rightarrow> 'a WebClient \<Rightarrow> bool" for c where
  upload_start: "web_upload c [] c"
| upload_delivered: "web_upload c ms d \<Longrightarrow> mWebState d = WEB_CONFIGURED \<Longrightarrow> \<not> mDisconnecting d \<Longrightarrow> web_deliver m d = Inr d' \<Longrightarrow> web_upload c (ms @ [m]) d'"
| upload_written: "web_upload c ms d \<Longrightarrow> QueueWrite \<in> set (mWebCalls d) \<Longrightarrow> onQueueWritten ec (finishCall QueueWrite d) = Inr d' \<Longrightarrow>
    mWebState d' = WEB_CONFIGURED \<Longrightarrow> web_upload c ms d'"

lemma web_upload_order: "web_upload c ms d \<Longrightarrow> web_inv c \<Longrightarrow> web_inv d \<and> mSent d @ mWebQueue d = mSent c @ mWebQueue c @ ms"
proof (induction rule: web_upload.induct)
  case (upload_delivered ms d m d')
  then have d: "web_inv d" "mSent d @ mWebQueue d = mSent c @ mWebQueue c @ ms" by simp_all
  obtain c' where "web_deliver m d = Inr c'" "web_inv c'" "mSent c' @ mWebQueue c' = mSent d @ mWebQueue d @ [m]"
    by (rule web_deliver_inv[OF d(1), of m]) (use upload_delivered.hyps(2,3) in simp)
  then show ?case using upload_delivered.hyps(4) d(2) by simp
next
  case (upload_written ms d ec d')
  then show ?case using onQueueWritten_inv[of d ec] by simp
qed simp

text \<open>
  C33. The messages that an application sends after the registration of its web name are, in this order: those delivered before the clock
  request of the web server was handled, the answer with its clock, the tournament with its actions, and what is delivered after that.
  The web server, which waits for the clock, accepts the upload exactly when nothing was delivered early: if the first message is an
  action, an undo or a tournament, it closes the connection.
\<close>
theorem upload_order:
  assumes "webClient_reachable c" and "mWebState c = WEB_CONFIGURED" and "mSent c = []" and "mWebQueue c = []"
    and "web_upload c early d" and "ClockRequestRead \<in> set (mWebCalls d)" and "mWebState d = WEB_CONFIGURED" and "\<not> mDisconnecting d"
    and "onClockRequest p1 t stack (Decoded (BASIC CLOCK_SYNC_REQUEST)) (finishCall ClockRequestRead d) = Inr d1" and "web_upload d1 later d2"
    and "\<forall>m \<in> set early. \<forall>p. m \<noteq> BASIC (CLOCK_SYNC p)" and "mAwaiting q = ClockRead t1" and "\<not> mClosePosted q"
  shows "mSent d2 @ mWebQueue d2 = early @ [BASIC (CLOCK_SYNC p1), BASIC (SYNC t stack)] @ later \<and>
    onClockRead t1 t2 (Decoded (hd (mSent d2 @ mWebQueue d2))) (idle q) =
      (if early = [] then asyncTournamentSync ((idle q)\<lparr>mTcpClockDiff := clockDiff p1 t1 t2, mTcpState := CLOCK_SYNCED\<rparr>)
       else Inr (tcp_close (idle q)))"
proof -
  have d: "web_inv d" "mSent d @ mWebQueue d = early"
    using web_upload_order[OF assms(5) webClient_reachable_inv[OF assms(1)]] assms(3,4) by simp_all
  have "mWebConnection d \<and> mset (mWebCalls d) = (if mWebQueue d = [] then {#ClockRequestRead#} else {#ClockRequestRead, QueueWrite#})"
    by (rule web_inv_chain[OF d(1) assms(6)]) (use assms(7) in \<open>simp_all add: chainCalls_def\<close>)
  note calls = this[THEN conjunct1] this[THEN conjunct2]
  have "d1 = (finishCall ClockRequestRead d)\<lparr>mWebQueue := mWebQueue d @ [BASIC (CLOCK_SYNC p1), BASIC (SYNC t stack)], mWebCalls := [QueueWrite, QuietRead]\<rparr>"
    using clock_request_open[of "finishCall ClockRequestRead d" "Decoded (BASIC CLOCK_SYNC_REQUEST)" p1 t stack] assms(7-9) calls(1)
      remove1_chain[OF calls(2)] by simp
  then have "mSent d1 @ mWebQueue d1 = early @ [BASIC (CLOCK_SYNC p1), BASIC (SYNC t stack)]" using d(2) by simp
  moreover have "web_inv d1" using onClockRequest_inv(2)[OF d(1) assms(6,9)] .
  ultimately have sent: "mSent d2 @ mWebQueue d2 = early @ [BASIC (CLOCK_SYNC p1), BASIC (SYNC t stack)] @ later"
    using web_upload_order[OF assms(10)] by simp
  show ?thesis
  proof (cases early)
    case Nil
    with sent assms(13) show ?thesis by (simp add: onClockRead_def)
  next
    case (Cons m ms)
    then have "onClockRead t1 t2 (Decoded m) (idle q) = Inr (tcp_close (idle q))"
      using assms(11,13) by (auto simp: onClockRead_def split: WebMessage.split NetworkMessage.split)
    with Cons sent show ?thesis by simp
  qed
qed

definition exampleEarly :: "FieldChange WebMessage" where
  "exampleEarly = BASIC (ACTION (ClientActionId 1 2) (renaming ''Open''))"

definition exampleDelivered :: "FieldChange WebClient" where
  "exampleDelivered = exampleConfigured\<lparr>mWebQueue := [exampleEarly], mWebCalls := [ClockRequestRead, QueueWrite]\<rparr>"

theorem upload_order_witness:
  "\<exists>d1. onClockRequest 5 (newTournamentStore 0) [] (Decoded (BASIC CLOCK_SYNC_REQUEST)) (finishCall ClockRequestRead exampleDelivered) = Inr d1 \<and>
     mSent d1 @ mWebQueue d1 = [exampleEarly, BASIC (CLOCK_SYNC 5), BASIC (SYNC (newTournamentStore 0) [])] \<and>
     onClockRead 0 9 (Decoded exampleEarly) (idle exampleRegistered) = Inr (tcp_close (idle exampleRegistered))"
proof -
  let ?d1 = "(finishCall ClockRequestRead exampleDelivered)\<lparr>mWebQueue := [exampleEarly, BASIC (CLOCK_SYNC 5), BASIC (SYNC (newTournamentStore 0) [])],
    mWebCalls := [QueueWrite, QuietRead]\<rparr>"
  have "web_upload exampleConfigured ([] @ [exampleEarly]) exampleDelivered"
    by (rule upload_delivered[OF upload_start])
      (simp_all add: exampleConfigured_def exampleDelivered_def web_deliver_def web_writeMessage_def web_async_def)
  moreover have step: "onClockRequest 5 (newTournamentStore 0) [] (Decoded (BASIC CLOCK_SYNC_REQUEST)) (finishCall ClockRequestRead exampleDelivered) = Inr ?d1"
    by (subst clock_request_open) (simp_all add: exampleDelivered_def exampleConfigured_def)
  moreover have "mAwaiting exampleRegistered = ClockRead 0" "\<not> mClosePosted exampleRegistered"
    by (simp_all add: exampleRegistered_def newTCPParticipant_def)
  ultimately have "mSent ?d1 @ mWebQueue ?d1 = [exampleEarly] @ [BASIC (CLOCK_SYNC 5), BASIC (SYNC (newTournamentStore 0) [])] @ [] \<and>
    onClockRead 0 9 (Decoded (hd (mSent ?d1 @ mWebQueue ?d1))) (idle exampleRegistered) =
      (if [exampleEarly] = [] then asyncTournamentSync ((idle exampleRegistered)\<lparr>mTcpClockDiff := clockDiff 5 0 9, mTcpState := CLOCK_SYNCED\<rparr>)
       else Inr (tcp_close (idle exampleRegistered)))"
    by (intro upload_order[OF exampleConfigured_reachable, where d = exampleDelivered and ?d1.0 = ?d1])
      (simp_all add: exampleConfigured_def exampleDelivered_def exampleEarly_def upload_start)
  with step show ?thesis by (intro exI[of _ ?d1]) (simp add: exampleDelivered_def exampleConfigured_def)
qed

text \<open>
  A handler of a connection that was killed in the meantime can run with a result from before: a user who disconnects at the moment when the
  clock request has arrived makes the handler of the request read through the null pointer.
\<close>

lemma late_handler_crashes:
  "\<exists>c :: 'a WebClient. webClient_reachable c \<and> mWebState c = WEB_NOT_CONNECTED \<and> web_step c (Inl UndefinedBehaviour)"
proof -
  let ?c = "web_disconnect exampleConfigured :: 'a WebClient"
  have "webClient_reachable ?c" by (rule web_stepped[OF exampleConfigured_reachable disconnect])
  moreover have "mWebState ?c = WEB_NOT_CONNECTED" by (simp add: web_disconnect_def exampleConfigured_def)
  moreover have "web_step ?c (Inl UndefinedBehaviour)"
    using clock_request[of ?c 0 "newTournamentStore 0" "[]" "Decoded (BASIC CLOCK_SYNC_REQUEST)"]
    by (simp add: web_disconnect_def exampleConfigured_def web_killConnection_def web_setState_def web_emit_def onClockRequest_def
        enterConfigured_def web_deliver_def web_async_def)
  ultimately show ?thesis by blast
qed

end
