(* ===== verification/Master_Store_Manager.thy ===== *)
theory Master_Store_Manager
  imports Web_Client Web_Participant
begin

section \<open>The store manager of the server application\<close>

text \<open>
  Models \<^verbatim>\<open>src/ui/store_managers/master_store_manager.hpp\<close> and \<^verbatim>\<open>master_store_manager.cpp\<close>: the subclass of \<^verbatim>\<open>StoreManager\<close> in the
  application that runs the tournament. It saves the tournament to a file with backups of older versions, loads it again, knows
  whether there are unsaved changes, and starts and stops the server.

  The files of the disk are a map from paths to contents. The record \<open>Platform\<close> is what the code takes from the operating system, from
  boost and from the libraries for archives: the extension of a path, whether a file can be opened for writing or renamed, what the disk
  stores of the bytes written, whether a buffer can be allocated, and the archive of a tournament; compression and the header of the file
  are those of the record \<open>Codec\<close>.
\<close>

type_synonym Files = "string \<rightharpoonup> string"

record Platform =
  path_extension :: "string \<Rightarrow> string"
  canWrite :: "string \<Rightarrow> bool"
  canRename :: "string \<Rightarrow> string \<Rightarrow> bool"
  stored :: "string \<Rightarrow> string"
  canAllocate :: "nat \<Rightarrow> bool"
  archiveWrite :: "TournamentStore \<Rightarrow> string option"
  archiveRead :: "string \<Rightarrow> TournamentStore option"
  archiveCodec :: Codec

record 'a MasterStoreManager =
  mManager :: "('a, TournamentStore) StoreManager"
  mDirty :: bool
  mMasterServerState :: NetworkServerState
  mMasterWebState :: WebClientState

subsection \<open>Creating tournaments\<close>

definition addFirstTatami :: "TournamentStore \<Rightarrow> mt19937 \<Rightarrow> (TournamentStore \<times> mt19937) result" where
  "addFirstTatami t eng =
     bindE (list_generateLocation 0 (mTatamiList t) eng) (\<lambda>(location, eng').
       Inr (t\<lparr>mTatamiList := snd (list_subscript (tatami_handle location) (mTatamiList t))\<rparr>, eng'))"

definition newMasterStoreManager :: "ClientId \<Rightarrow> TournamentId \<Rightarrow> string \<Rightarrow> mt19937 \<Rightarrow> ('a MasterStoreManager \<times> mt19937) result" where
  "newMasterStoreManager client i today eng =
     bindE (addFirstTatami (newTournamentStore i) eng) (\<lambda>(t, eng').
       Inr (\<lparr>mManager = newStoreManager client (setDate today t), mDirty = False, mMasterServerState = STOPPED,
             mMasterWebState = WEB_NOT_CONNECTED\<rparr>, eng'))"

text \<open>The tatami is added to \<^verbatim>\<open>getTournament()\<close>, which is still the old tournament.\<close>

definition resetTournament :: "TournamentId \<Rightarrow> mt19937 \<Rightarrow> 'a MasterStoreManager \<Rightarrow> ('a MasterStoreManager \<times> mt19937) result" where
  "resetTournament i eng m =
     bindE (addFirstTatami (mTournament (mManager m)) eng) (\<lambda>(old, eng').
       Inr (m\<lparr>mManager := sm_sync (newTournamentStore i) ((mManager m)\<lparr>mTournament := old\<rparr>), mDirty := False\<rparr>, eng'))"

subsection \<open>Changes\<close>

definition master_dispatch ::
  "('a, TournamentStore) ActionInterface \<Rightarrow> 'a Action \<Rightarrow> mt19937 \<Rightarrow> 'a MasterStoreManager \<Rightarrow> (mt19937 \<times> 'a MasterStoreManager) result" where
  "master_dispatch I action eng m =
     bindE (sm_dispatch I action eng (mManager m)) (\<lambda>(eng', s). Inr (eng', m\<lparr>mDirty := True, mManager := s\<rparr>))"

definition master_undo :: "('a, TournamentStore) ActionInterface \<Rightarrow> 'a MasterStoreManager \<Rightarrow> 'a MasterStoreManager result" where
  "master_undo I m = bindE (sm_undo I (mManager m)) (\<lambda>s. Inr (m\<lparr>mDirty := True, mManager := s\<rparr>))"

definition master_redo ::
  "('a, TournamentStore) ActionInterface \<Rightarrow> mt19937 \<Rightarrow> 'a MasterStoreManager \<Rightarrow> (mt19937 \<times> 'a MasterStoreManager) result" where
  "master_redo I eng m = bindE (sm_redo I eng (mManager m)) (\<lambda>(eng', s). Inr (eng', m\<lparr>mDirty := True, mManager := s\<rparr>))"

definition isDirty :: "'a MasterStoreManager \<Rightarrow> bool" where
  "isDirty m = mDirty m"

text \<open>The signals of the server and of the web client. A request to start is passed on only while the server is stopped.\<close>

definition startServer :: "'a MasterStoreManager \<Rightarrow> bool" where
  "startServer m \<longleftrightarrow> mMasterServerState m = STOPPED"

definition changeNetworkServerState :: "NetworkServerState \<Rightarrow> 'a MasterStoreManager \<Rightarrow> 'a MasterStoreManager" where
  "changeNetworkServerState s m =
     (let m1 = m\<lparr>mMasterServerState := s\<rparr>
      in if s = STARTED then m1\<lparr>mManager := sm_sync (mTournament (mManager m1)) (mManager m1)\<rparr> else m1)"

definition changeWebClientState :: "WebClientState \<Rightarrow> 'a MasterStoreManager \<Rightarrow> 'a MasterStoreManager" where
  "changeWebClientState s m = m\<lparr>mMasterWebState := s\<rparr>"

subsection \<open>Files\<close>

text \<open>Buffers are allocated outside of the \<^verbatim>\<open>try\<close> blocks.\<close>

definition master_read :: "Platform \<Rightarrow> Files \<Rightarrow> string \<Rightarrow> 'a MasterStoreManager \<Rightarrow> (bool \<times> 'a MasterStoreManager) result" where
  "master_read P disk path m =
     (case disk path of
        None \<Rightarrow> Inr (False, m)
      | Some content \<Rightarrow>
          (case decodeHeader (archiveCodec P) (readBytes FILE_HEADER_SIZE content) of
             None \<Rightarrow> Inr (False, m)
           | Some (compressedSize, uncompressedSize) \<Rightarrow>
               if \<not> canAllocate P compressedSize \<or> \<not> canAllocate P uncompressedSize then Inl (RuntimeError ''std::bad_alloc'')
               else (case decompress (archiveCodec P) uncompressedSize (readBytes compressedSize (drop FILE_HEADER_SIZE content)) of
                       None \<Rightarrow> Inr (False, m)
                     | Some uncompressed \<Rightarrow>
                         (case archiveRead P uncompressed of
                            None \<Rightarrow> Inr (False, m)
                          | Some tournament \<Rightarrow> Inr (True, m\<lparr>mManager := sm_sync tournament (mManager m), mDirty := False\<rparr>)))))"

definition backupName :: "string \<Rightarrow> nat \<Rightarrow> string \<Rightarrow> string" where
  "backupName base n extension = (if n = 0 then base @ extension else base @ ''_backup-'' @ to_string n @ extension)"

definition rename :: "string \<Rightarrow> string \<Rightarrow> Files \<Rightarrow> Files" where
  "rename old new disk = (disk(new := disk old))(old := None)"

text \<open>The counters are \<^verbatim>\<open>unsigned int\<close>. The result of the recursive call is not looked at.\<close>

function moveBackup :: "Platform \<Rightarrow> string \<Rightarrow> u32 \<Rightarrow> string \<Rightarrow> u32 \<Rightarrow> Files \<Rightarrow> bool \<times> Files" where
  "moveBackup P base n extension backupCount disk =
     (if n = backupCount then (True, disk)
      else let name = backupName base (unat n) extension
           in if disk name = None then (True, disk)
              else let newName = base @ ''_backup-'' @ to_string (unat (n + 1)) @ extension;
                       disk1 = snd (moveBackup P base (n + 1) extension backupCount disk)
                   in if canRename P name newName then (True, rename name newName disk1) else (False, disk1))"
  by pat_completeness auto
termination
proof (relation "measure (\<lambda>(P, base, n, extension, backupCount, disk). unat (backupCount - n))", goal_cases)
  case (2 P base n extension backupCount disk)
  then have "backupCount - n \<noteq> 0" by simp
  then have "unat (backupCount - n - 1) < unat (backupCount - n)" using unat_eq_0[of "backupCount - n"] by (simp add: unat_minus_one)
  then show ?case by (simp add: diff_diff_eq)
qed simp

declare moveBackup.simps [simp del] to_string.simps [simp del]

definition master_write ::
  "Platform \<Rightarrow> string \<Rightarrow> u32 \<Rightarrow> Files \<Rightarrow> 'a MasterStoreManager \<Rightarrow> (bool \<times> Files \<times> 'a MasterStoreManager) result" where
  "master_write P path backupCount disk m =
     (let extension = path_extension P path;
          base = take (length path - length extension) path;
          disk1 = snd (moveBackup P base 0 extension backupCount disk)
      in if \<not> canWrite P path then Inr (False, disk1, m)
         else let disk2 = disk1(path \<mapsto> []) in
           case archiveWrite P (mTournament (mManager m)) of
             None \<Rightarrow> Inr (False, disk2, m)
           | Some uncompressed \<Rightarrow>
               (case compress (archiveCodec P) uncompressed of
                  None \<Rightarrow> Inr (False, disk2, m)
                | Some compressed \<Rightarrow>
                    (case encodeHeader (archiveCodec P) (length compressed, length uncompressed) of
                       None \<Rightarrow> Inr (False, disk2, m)
                     | Some header \<Rightarrow> assertE (length header = FILE_HEADER_SIZE)
                         (Inr (True, disk2(path \<mapsto> stored P (header @ compressed)), m\<lparr>mDirty := False\<rparr>)))))"

subsection \<open>Backups\<close>

lemma to_string_inj: "to_string m = to_string n \<Longrightarrow> m = n"
  by (metis to_string_digits)

lemma backupName_inj [simp]: "backupName base m extension = backupName base n extension \<longleftrightarrow> m = n"
  by (auto simp: backupName_def dest: to_string_inj)

definition canAlwaysRename :: "Platform \<Rightarrow> bool" where
  "canAlwaysRename P \<longleftrightarrow> (\<forall>old new. canRename P old new)"

text \<open>What the recursion does from number \<open>n\<close> on: backups without a gap before them move on by one, nothing else changes.\<close>

definition rotated :: "string \<Rightarrow> string \<Rightarrow> nat \<Rightarrow> nat \<Rightarrow> Files \<Rightarrow> nat \<Rightarrow> string option" where
  "rotated base extension n k disk j =
     (if n < j \<and> j \<le> k \<and> (\<forall>i \<in> {n..<j}. disk (backupName base i extension) \<noteq> None) then disk (backupName base (j - 1) extension)
      else if j = n \<and> n < k then None
      else disk (backupName base j extension))"

lemma rotated_step:
  assumes "disk (backupName base n extension) \<noteq> None" and "n < k"
  shows "rotated base extension n k disk j =
    (if j = n then None else if j = Suc n then disk (backupName base n extension) else rotated base extension (Suc n) k disk j)"
proof -
  have "(\<forall>i \<in> {n..<j}. disk (backupName base i extension) \<noteq> None) \<longleftrightarrow> (\<forall>i \<in> {Suc n..<j}. disk (backupName base i extension) \<noteq> None)"
    using assms(1) by (auto simp: Suc_le_eq le_less)
  then show ?thesis using assms by (auto simp: rotated_def)
qed

lemma moveBackup_rotates:
  assumes "canAlwaysRename P" and "k < 2 ^ 32" and "n \<le> k"
  shows "snd (moveBackup P base (of_nat n) extension (of_nat k) disk) (backupName base j extension) = rotated base extension n k disk j \<and>
    (f \<notin> range (\<lambda>i. backupName base i extension) \<longrightarrow> snd (moveBackup P base (of_nat n) extension (of_nat k) disk) f = disk f)"
  using assms(3)
proof (induction "k - n" arbitrary: n j f)
  case 0
  then show ?case by (subst (1 2) moveBackup.simps) (auto simp: rotated_def)
next
  case (Suc d)
  then have "n < k" and names: "unat (of_nat n :: u32) = n" "unat (of_nat n + 1 :: u32) = Suc n" "unat (of_nat k :: u32) = k"
    using assms(2) by (simp_all add: of_nat_inverse unat_word_ariths)
  then have nk: "n < k" "(of_nat n :: u32) \<noteq> of_nat k" by (auto simp del: word_of_nat_eq_iff)
  let ?old = "backupName base n extension" and ?new = "backupName base (Suc n) extension"
  let ?disk = "snd (moveBackup P base (of_nat (Suc n)) extension (of_nat k) disk)"
  have result: "moveBackup P base (of_nat n) extension (of_nat k) disk =
    (if disk ?old = None then (True, disk) else (True, rename ?old ?new ?disk))"
    using assms(1) nk names by (subst moveBackup.simps) (simp add: Let_def canAlwaysRename_def backupName_def[of base "Suc n"] add.commute)
  have IH: "?disk (backupName base j extension) = rotated base extension (Suc n) k disk j"
    "f \<notin> range (\<lambda>i. backupName base i extension) \<Longrightarrow> ?disk f = disk f" for j f
    using Suc.hyps(1)[of "Suc n"] Suc.hyps(2) nk(1) by auto
  show ?case
  proof (cases "disk ?old = None")
    case True
    then have "\<not> (n < j \<and> (\<forall>i \<in> {n..<j}. disk (backupName base i extension) \<noteq> None))" by auto
    then show ?thesis using nk(1) True by (auto simp: result rotated_def)
  next
    case False
    have "?disk ?old = disk ?old" using IH(1)[of n] by (simp add: rotated_def)
    then have "rename ?old ?new ?disk (backupName base j extension) = rotated base extension n k disk j"
      unfolding rotated_step[where disk = disk, OF False nk(1)] by (simp add: rename_def IH(1) del: of_nat_Suc)
    moreover have "rename ?old ?new ?disk f = disk f" if "f \<notin> range (\<lambda>i. backupName base i extension)"
      using that IH(2)[OF that] by (auto simp: rename_def)
    ultimately show ?thesis unfolding result using False by (auto simp del: of_nat_Suc)
  qed
qed

text \<open>
  C28. Saving with backups keeps the older versions: when files can be renamed, the content that the file had is that of the first backup
  afterwards, every backup below the limit that has no gap before it moves on by one, the oldest one is overwritten, and no other file than the
  saved one changes. The recursion ends for every limit.
\<close>
theorem saving_rotates_backups:
  assumes "canAlwaysRename P" and "path = base @ extension" and "path_extension P path = extension" and "k < 2 ^ 32" and "0 < k"
    and "master_write P path (of_nat k) disk m = Inr (b, disk', m')" and "disk path = Some content"
  shows "disk' (backupName base 1 extension) = Some content \<and>
    (\<forall>j. 0 < j \<and> j < k \<and> (\<forall>i \<in> {1..j}. disk (backupName base i extension) \<noteq> None) \<longrightarrow>
       disk' (backupName base (j + 1) extension) = disk (backupName base j extension)) \<and>
    (\<forall>j > k. disk' (backupName base j extension) = disk (backupName base j extension)) \<and>
    (\<forall>f. f \<notin> range (\<lambda>i. backupName base i extension) \<longrightarrow> disk' f = disk f)"
proof -
  let ?disk = "snd (moveBackup P base 0 extension (of_nat k) disk)"
  have path: "path = backupName base 0 extension" by (simp add: assms(2) backupName_def)
  have base: "take (length path - length extension) path = base" by (simp add: assms(2))
  have other: "disk' f = ?disk f" if "f \<noteq> path" for f
    using assms(6) that by (auto simp: master_write_def assms(3) base Let_def split: if_splits option.splits)
  have at: "disk' (backupName base j extension) = rotated base extension 0 k disk j" if "0 < j" for j
    using moveBackup_rotates[OF assms(1,4), of 0 base extension disk j] other[of "backupName base j extension"] that by (simp add: path)
  have "disk' f = disk f" if "f \<notin> range (\<lambda>i. backupName base i extension)" for f
    using moveBackup_rotates[OF assms(1,4), of 0 base extension disk _ f] other[of f] that path by auto
  moreover have "\<exists>c. disk (backupName base i extension) = Some c" if "i < Suc j" "\<forall>i \<in> {1..j}. disk (backupName base i extension) \<noteq> None" for i j
    using that assms(7) path by (cases "i = 0") auto
  ultimately show ?thesis using assms(5,7) path by (auto simp: at rotated_def)
qed

text \<open>What is assumed of the archives: reading back what was written.\<close>

definition platform_ok :: "Platform \<Rightarrow> bool" where
  "platform_ok P \<longleftrightarrow> codec_ok (archiveCodec P) \<and> (\<forall>t s. archiveWrite P t = Some s \<longrightarrow> archiveRead P s = Some t)"

text \<open>
  C27. A saved tournament is loaded as it was: when a save has succeeded and the disk has stored what was written, an application that loads the
  file has the same tournament, no actions to undo or redo, no unsaved changes, and sends the tournament to its server.
\<close>
theorem saved_file_loads:
  assumes "platform_ok P" and "master_write P path k disk m = Inr (True, disk', m')" and "\<And>s. stored P s = s" and "\<And>n. canAllocate P n"
  shows "\<not> isDirty m' \<and> mTournament (mManager m') = mTournament (mManager m) \<and>
    (\<exists>a'. master_read P disk' path a = Inr (True, a') \<and> mTournament (mManager a') = mTournament (mManager m) \<and> \<not> isDirty a' \<and>
      mConfirmedActionList (mManager a') = [] \<and> mUnconfirmedActionList (mManager a') = [] \<and> mRedoList (mManager a') = [] \<and>
      mPosted (mManager a') = mPosted (mManager a) @ [PostSync (mTournament (mManager m))])"
proof -
  obtain u c h where u: "archiveWrite P (mTournament (mManager m)) = Some u" and c: "compress (archiveCodec P) u = Some c"
    and h: "encodeHeader (archiveCodec P) (length c, length u) = Some h" "length h = FILE_HEADER_SIZE"
    and content: "disk' path = Some (h @ c)" and m': "m' = m\<lparr>mDirty := False\<rparr>"
    using assms(2,3) by (auto simp: master_write_def Let_def split: if_splits option.splits)
  have "readBytes FILE_HEADER_SIZE (h @ c) = h" "readBytes (length c) (drop FILE_HEADER_SIZE (h @ c)) = c"
    using h(2) by (simp_all add: readBytes_def)
  moreover have "decodeHeader (archiveCodec P) h = Some (length c, length u)" "decompress (archiveCodec P) (length u) c = Some u"
    "archiveRead P u = Some (mTournament (mManager m))"
    using assms(1) u c h(1) by (auto simp: platform_ok_def codec_ok_def)
  ultimately show ?thesis using content assms(4) by (simp add: master_read_def m' isDirty_def sm_sync_def)
qed

text \<open>A platform for the examples: paths end in .t, archives hold the empty tournament.\<close>

definition examplePlatform :: Platform where
  "examplePlatform = \<lparr>path_extension = (\<lambda>path. ''.t''), canWrite = (\<lambda>path. True), canRename = (\<lambda>old new. True), stored = (\<lambda>s. s),
     canAllocate = (\<lambda>n. True), archiveWrite = (\<lambda>t. if t = newTournamentStore 0 then Some ''empty'' else None),
     archiveRead = (\<lambda>s. if s = ''empty'' then Some (newTournamentStore 0) else None), archiveCodec = exampleCodec\<rparr>"

definition exampleMaster :: "FieldChange MasterStoreManager" where
  "exampleMaster = \<lparr>mManager = newStoreManager 1 (newTournamentStore 0), mDirty = True, mMasterServerState = STOPPED,
     mMasterWebState = WEB_NOT_CONNECTED\<rparr>"

lemma examplePlatform_ok: "platform_ok examplePlatform" "canAlwaysRename examplePlatform"
  using exampleCodec_ok by (auto simp: platform_ok_def canAlwaysRename_def examplePlatform_def split: if_splits)

lemma exampleMaster_write:
  "\<exists>disk'. master_write examplePlatform ''a.t'' k disk exampleMaster = Inr (True, disk', exampleMaster\<lparr>mDirty := False\<rparr>)"
  by (simp add: master_write_def examplePlatform_def exampleMaster_def newStoreManager_def exampleCodec_def FILE_HEADER_SIZE_def Let_def)

theorem saving_rotates_backups_witness:
  "\<exists>disk'. master_write examplePlatform ''a.t'' 2 [''a.t'' \<mapsto> ''new'', ''a_backup-1.t'' \<mapsto> ''old''] exampleMaster =
       Inr (True, disk', exampleMaster\<lparr>mDirty := False\<rparr>) \<and>
     disk' (backupName ''a'' 1 ''.t'') = Some ''new'' \<and> disk' (backupName ''a'' 2 ''.t'') = Some ''old''"
proof -
  let ?disk = "[''a.t'' \<mapsto> ''new'', ''a_backup-1.t'' \<mapsto> ''old'']"
  obtain disk' where w: "master_write examplePlatform ''a.t'' (of_nat 2) ?disk exampleMaster = Inr (True, disk', exampleMaster\<lparr>mDirty := False\<rparr>)"
    using exampleMaster_write[of 2 ?disk] by auto
  have one: "backupName ''a'' 1 ''.t'' = ''a_backup-1.t''" by (simp add: backupName_def to_string.simps char_of_def bit_0)
  have at: "\<And>j. 0 < j \<and> j < 2 \<and> (\<forall>i \<in> {1..j}. ?disk (backupName ''a'' i ''.t'') \<noteq> None) \<Longrightarrow>
      disk' (backupName ''a'' (j + 1) ''.t'') = ?disk (backupName ''a'' j ''.t'')" "disk' (backupName ''a'' 1 ''.t'') = Some ''new''"
    using saving_rotates_backups[OF examplePlatform_ok(2) _ _ _ _ w, of "''a''" "''.t''" "''new''"] by (auto simp: examplePlatform_def)
  from at(1)[of 1] at(2) w show ?thesis by (intro exI[of _ disk']) (simp add: one[unfolded One_nat_def] numeral_2_eq_2)
qed

theorem saved_file_loads_witness:
  "\<exists>disk' m' a'. master_write examplePlatform ''a.t'' 0 Map.empty exampleMaster = Inr (True, disk', m') \<and>
     master_read examplePlatform disk' ''a.t'' exampleMaster = Inr (True, a') \<and> mTournament (mManager a') = newTournamentStore 0 \<and> \<not> isDirty a'"
proof -
  obtain disk' where w: "master_write examplePlatform ''a.t'' 0 Map.empty exampleMaster = Inr (True, disk', exampleMaster\<lparr>mDirty := False\<rparr>)"
    using exampleMaster_write by blast
  have "mTournament (mManager exampleMaster) = newTournamentStore 0" by (simp add: exampleMaster_def newStoreManager_def)
  with w show ?thesis using saved_file_loads[OF examplePlatform_ok(1) w, of exampleMaster] by (auto simp: examplePlatform_def)
qed

subsection \<open>Errors\<close>

text \<open>A save without backups that fails after the file was opened leaves an empty file in place of the tournament.\<close>

lemma failed_save_empties_file:
  "canWrite P path \<Longrightarrow> archiveWrite P (mTournament (mManager m)) = None \<Longrightarrow>
   \<exists>disk'. master_write P path 0 disk m = Inr (False, disk', m) \<and> disk' path = Some []"
  by (simp add: master_write_def moveBackup.simps Let_def)

text \<open>The write of a full disk is not noticed: the save succeeds whatever is stored.\<close>

lemma lost_bytes_not_noticed:
  "master_write P path k disk m = Inr (True, disk', m') \<Longrightarrow> \<exists>s. disk' path = Some (stored P s) \<and> \<not> isDirty m'"
  by (auto simp: master_write_def isDirty_def Let_def split: if_splits option.splits)

text \<open>A file whose header names a size that cannot be allocated ends the application.\<close>

lemma huge_header_ends_application:
  "disk path = Some content \<Longrightarrow> decodeHeader (archiveCodec P) (readBytes FILE_HEADER_SIZE content) = Some (n, k) \<Longrightarrow> \<not> canAllocate P n \<Longrightarrow>
   master_read P disk path m = Inl (RuntimeError ''std::bad_alloc'')"
  by (simp add: master_read_def)

text \<open>A new application starts with one tatami, a tournament that was reset has none.\<close>

lemma reset_tournament_without_tatami:
  "newMasterStoreManager client i today eng = Inr (m0 :: 'a MasterStoreManager, eng1) \<Longrightarrow> tatamiCount (mTatamiList (mTournament (mManager m0))) = 1"
  "resetTournament j eng m = Inr (m', eng2) \<Longrightarrow> tatamiCount (mTatamiList (mTournament (mManager m'))) = 0"
  by (auto simp: newMasterStoreManager_def resetTournament_def addFirstTatami_def list_generateLocation_def list_subscript_def newTournamentStore_def
      newStoreManager_def newTatamiList_def tatamiCount_def pm_subscript_def pm_insert_def pm_size_def pm_new_def insert_at_def sm_sync_def setDate_def Let_def split: option.splits)

text \<open>
  Actions that arrive from other applications change the tournament without marking it as changed: a manager that has just saved its
  tournament receives an action, and neither the automatic save nor the question before closing notices.
\<close>

lemma received_action_not_dirty:
  "\<exists>s. receiveAction fieldChanges (ClientActionId 2 5) (renaming ''Open'') (mManager exampleMaster) = Inr s \<and>
     \<not> isDirty (exampleMaster\<lparr>mDirty := False, mManager := s\<rparr>) \<and> mTournament s \<noteq> mTournament (mManager exampleMaster)"
  using receive_renaming by (simp add: exampleMaster_def isDirty_def exampleManager_def newStoreManager_def newTournamentStore_def)

end
