(* ===== verification/Name_Order.thy ===== *)
theory Name_Order
  imports Player_Import
begin

section \<open>The order of names\<close>

text \<open>
  Models \<^verbatim>\<open>src/ui/misc/numerical_string_comparator.cpp\<close> and \<^verbatim>\<open>category_name_comparator.cpp\<close>: names are ordered with the numbers in them
  compared as numbers. The comparators are given to \<^verbatim>\<open>std::sort\<close> and \<^verbatim>\<open>std::set\<close>, which need a strict weak ordering. Texts are ASCII
  here: other decimal digits of Unicode, which \<^verbatim>\<open>QChar::isDigit\<close> knows and \<^verbatim>\<open>QString::toInt\<close> does not read, are left out.

  The reference definition is the lexicographic order of the keys of the parts of a name, \<open>nameKey\<close>.
\<close>

subsection \<open>The comparators\<close>

function split_string :: "QString \<Rightarrow> (bool \<times> QString) list" where
  "split_string [] = []"
| "split_string (c # s) =
     (if isDigitChar c then (True, c # takeWhile isDigitChar s) # split_string (dropWhile isDigitChar s)
      else (False, [c]) # split_string s)"
  by pat_completeness auto
termination by (relation "measure length") (auto simp: le_imp_less_Suc length_dropWhile_le)

text \<open>\<^verbatim>\<open>QString::toInt\<close> of a text of digits: 0 when the number is out of range.\<close>

definition toInt :: "QString \<Rightarrow> int" where
  "toInt s = (let n = foldl (\<lambda>n c. 10 * n + (int (of_char c) - 48)) 0 s in if n < 2 ^ 31 then n else 0)"

fun compareParts :: "(bool \<times> QString) list \<Rightarrow> (bool \<times> QString) list \<Rightarrow> bool" where
  "compareParts ((numA, partA) # as) ((numB, partB) # bs) =
     (if partA = partB then compareParts as bs
      else if numA \<and> numB then
        (if toInt partA \<noteq> toInt partB then toInt partA < toInt partB else compareParts as bs)
      else ord_class.lexordp partA partB)"
| "compareParts [] (b # bs) = True"
| "compareParts as [] = False"

definition numerical_less :: "QString \<Rightarrow> QString \<Rightarrow> bool" where
  "numerical_less a b = compareParts (split_string a) (split_string b)"

definition categoryName_less :: "TournamentStore \<Rightarrow> CategoryId \<Rightarrow> CategoryId \<Rightarrow> bool result" where
  "categoryName_less t a b =
     bindE (getCategory a t) (\<lambda>first. bindE (getCategory b t) (\<lambda>second.
       Inr (numerical_less (category_getName first) (category_getName second))))"

subsection \<open>Keys\<close>

text \<open>A number is its value; the characters below the digits come before all numbers, those above them after all numbers.\<close>

definition partKey :: "bool \<times> QString \<Rightarrow> int" where
  "partKey p = (if fst p then toInt (snd p)
     else if hd (snd p) < CHR ''0'' then int (of_char (hd (snd p))) - 256 else 2 ^ 31 + int (of_char (hd (snd p))))"

definition nameKey :: "QString \<Rightarrow> int list" where
  "nameKey s = map partKey (split_string s)"

definition part_ok :: "bool \<times> QString \<Rightarrow> bool" where
  "part_ok p \<longleftrightarrow> (if fst p then snd p \<noteq> [] \<and> (\<forall>c \<in> set (snd p). isDigitChar c) else \<exists>c. snd p = [c] \<and> \<not> isDigitChar c)"

lemma split_string_ok: "p \<in> set (split_string s) \<Longrightarrow> part_ok p"
proof (induction s rule: split_string.induct)
  case (2 c s)
  have "part_ok (True, c # takeWhile isDigitChar s)" if "isDigitChar c"
    using that by (simp add: part_ok_def) (metis set_takeWhileD)
  with 2 show ?case by (cases "isDigitChar c") (auto simp: part_ok_def[of "(False, [c])"])
qed simp

lemma char_codes:
  "(c :: char) < d \<longleftrightarrow> int (of_char c) < int (of_char d)" "isDigitChar c \<longleftrightarrow> 48 \<le> int (of_char c) \<and> int (of_char c) \<le> 57"
  "0 \<le> int (of_char c)" "int (of_char c) < 256"
  using nat_of_char_less_256[of c] by (auto simp: less_char_def less_eq_char_def isDigitChar_def)

lemma toInt_bounds: "\<forall>c \<in> set s. isDigitChar c \<Longrightarrow> 0 \<le> toInt s \<and> toInt s < 2 ^ 31"
proof -
  assume digits: "\<forall>c \<in> set s. isDigitChar c"
  have "0 \<le> (n :: int) \<Longrightarrow> 0 \<le> foldl (\<lambda>n c. 10 * n + (int (of_char c) - 48)) n s" for n
    using digits
  proof (induction s arbitrary: n)
    case (Cons c s)
    then have "48 \<le> int (of_char c)" using char_codes(2)[of c] by simp
    with Cons show ?case by simp
  qed simp
  from this[of 0] show ?thesis by (auto simp: toInt_def Let_def)
qed

text \<open>Two parts of which one is no number are compared by their first characters, and so by their keys.\<close>

lemma part_less_key:
  assumes "part_ok (numA, partA)" and "part_ok (numB, partB)" and "\<not> (numA \<and> numB)" and "partA \<noteq> partB"
  shows "(ord_class.lexordp partA partB \<longleftrightarrow> partKey (numA, partA) < partKey (numB, partB)) \<and> partKey (numA, partA) \<noteq> partKey (numB, partB)"
proof -
  obtain a as where a: "partA = a # as" using assms(1) by (cases partA) (auto simp: part_ok_def split: if_splits)
  obtain b bs where b: "partB = b # bs" using assms(2) by (cases partB) (auto simp: part_ok_def split: if_splits)
  have digits: "isDigitChar a \<longleftrightarrow> numA" "isDigitChar b \<longleftrightarrow> numB" using assms(1,2) a b by (auto simp: part_ok_def split: if_splits)
  have ab: "a \<noteq> b" using assms a b digits by (auto simp: part_ok_def split: if_splits)
  then have first: "ord_class.lexordp partA partB \<longleftrightarrow> a < b" using a b by auto
  have "int (of_char a) \<noteq> int (of_char b)" using ab by (metis of_char_eq_iff of_nat_eq_iff)
  moreover have "numA \<Longrightarrow> 0 \<le> toInt partA \<and> toInt partA < 2 ^ 31" "numB \<Longrightarrow> 0 \<le> toInt partB \<and> toInt partB < 2 ^ 31"
    using assms(1,2) toInt_bounds by (auto simp: part_ok_def)
  ultimately show ?thesis
    using assms(3) digits char_codes(3,4)[of a] char_codes(3,4)[of b] unfolding first
    by (cases numA; cases numB) (auto simp: partKey_def a b char_codes(1,2))
qed

text \<open>The loop over the parts is the lexicographic order of their keys.\<close>

lemma compareParts_keys:
  assumes "\<forall>p \<in> set as. part_ok p" and "\<forall>p \<in> set bs. part_ok p"
  shows "compareParts as bs \<longleftrightarrow> ord_class.lexordp (map partKey as) (map partKey bs)"
  using assms
proof (induction as bs rule: compareParts.induct)
  case (1 numA partA as numB partB bs)
  consider "partA = partB" | "partA \<noteq> partB" "numA" "numB" | "partA \<noteq> partB" "\<not> (numA \<and> numB)" by blast
  then show ?case
  proof cases
    case 1
    then have "numA = numB" using "1.prems" by (cases partA) (auto simp: part_ok_def split: if_splits)
    with 1 "1.IH"(1) "1.prems" show ?thesis by simp
  next
    case 2
    with "1.IH"(2) "1.prems" show ?thesis by (auto simp: partKey_def)
  next
    case 3
    with part_less_key[of numA partA numB partB] "1.prems" show ?thesis by auto
  qed
qed auto

lemma numerical_less_keys: "numerical_less a b \<longleftrightarrow> ord_class.lexordp (nameKey a) (nameKey b)"
  unfolding numerical_less_def nameKey_def by (rule compareParts_keys) (auto intro: split_string_ok)

text \<open>
  The comparator of names is the lexicographic order of their keys, in which numbers count by their value. It is a strict weak
  ordering, as sorting and ordered sets need it: irreflexive and transitive, and two names are equivalent exactly when they have the same key.
\<close>
theorem names_ordered_by_key:
  "(numerical_less a b \<longleftrightarrow> ord_class.lexordp (nameKey a) (nameKey b)) \<and> irreflp numerical_less \<and> transp numerical_less \<and>
   (\<not> numerical_less a b \<and> \<not> numerical_less b a \<longleftrightarrow> nameKey a = nameKey b)"
  using lexordp_linear[of "nameKey a" "nameKey b"]
  by (auto simp: numerical_less_keys irreflp_def transp_def lexordp_irreflexive' intro: lexordp_trans)

text \<open>Leading zeros do not count, and a number that is out of the range of \<^verbatim>\<open>int\<close> counts as 0.\<close>

lemma equivalent_names:
  "nameKey ''U1'' = nameKey ''U01''" "numerical_less ''U99999999999'' ''U1''" "numerical_less ''U9'' ''U12''" "\<not> numerical_less ''U12'' ''U9''"
  by code_simp+

end
