(* ===== verification/Unallocated_Blocks.thy ===== *)
theory Unallocated_Blocks
  imports Name_Order Import_Correctness
begin

section \<open>The blocks without a tatami\<close>

text \<open>
  Models \<^verbatim>\<open>src/ui/widgets/unallocated_blocks_widget.cpp\<close>: the blocks of matches that are not on a tatami, in an ordered set. A
  \<^verbatim>\<open>std::set\<close> with a comparator is the list of its elements in order; \<open>stdset_insert\<close> tells whether it inserted the element, which it
  does not when an equivalent one is there. The items of the scene, \<^verbatim>\<open>mBlockItems\<close>, are those of the blocks in the set; their positions
  follow from the order.
\<close>

fun stdset_insert :: "('x \<Rightarrow> 'x \<Rightarrow> bool) \<Rightarrow> 'x \<Rightarrow> 'x list \<Rightarrow> bool \<times> 'x list" where
  "stdset_insert lt x [] = (True, [x])"
| "stdset_insert lt x (y # ys) =
     (if lt x y then (True, x # y # ys)
      else if lt y x then (case stdset_insert lt x ys of (inserted, zs) \<Rightarrow> (inserted, y # zs))
      else (False, y # ys))"

fun stdset_erase :: "('x \<Rightarrow> 'x \<Rightarrow> bool) \<Rightarrow> 'x \<Rightarrow> 'x list \<Rightarrow> bool \<times> 'x list" where
  "stdset_erase lt x [] = (False, [])"
| "stdset_erase lt x (y # ys) =
     (if lt x y then (False, y # ys)
      else if lt y x then (case stdset_erase lt x ys of (erased, zs) \<Rightarrow> (erased, y # zs))
      else (True, ys))"

subsection \<open>The order of blocks\<close>

definition getBlockName :: "Qt \<Rightarrow> CategoryStore \<Rightarrow> MatchType \<Rightarrow> QString" where
  "getBlockName Q c ty = category_getName c @
     (if hasFinalBlock (mDrawSystem c) then '' '' @ tr Q (if ty = ELIMINATION then ''(Elimination)'' else ''(Final)'') else '''')"

definition matchType_toInt :: "MatchType \<Rightarrow> nat" where
  "matchType_toInt ty = (case ty of ELIMINATION \<Rightarrow> 0 | FINAL \<Rightarrow> 1)"

text \<open>
  A search in the set calls \<^verbatim>\<open>getCategory\<close> for some of its blocks, which asserts that the category exists. Which blocks these are is not
  specified; the model asks for the categories of all of them (\<open>allKnown\<close>), and \<open>categoryOf\<close> is the category of a block that is known.
\<close>

type_synonym BlockId = "CategoryId \<times> MatchType"

definition categoryOf :: "TournamentStore \<Rightarrow> CategoryId \<Rightarrow> CategoryStore" where
  "categoryOf t i = (case mCategories t i of Some c \<Rightarrow> c | None \<Rightarrow> newCategoryStore i '''' TWENTY_EIGHTEEN (PoolSystem (newPoolDrawSystem False)))"

definition block_less :: "Qt \<Rightarrow> TournamentStore \<Rightarrow> BlockId \<Rightarrow> BlockId \<Rightarrow> bool" where
  "block_less Q t first second =
     (let firstName = getBlockName Q (categoryOf t (fst first)) (snd first);
          secondName = getBlockName Q (categoryOf t (fst second)) (snd second)
      in if firstName \<noteq> secondName then numerical_less firstName secondName
         else fst first < fst second \<or> fst first = fst second \<and> matchType_toInt (snd first) < matchType_toInt (snd second))"

definition allKnown :: "TournamentStore \<Rightarrow> BlockId list \<Rightarrow> bool" where
  "allKnown t bs \<longleftrightarrow> (\<forall>b \<in> set bs. containsCategory (fst b) t)"

subsection \<open>The widget\<close>

record UnallocatedBlocks =
  mUnallocated :: "BlockId list"
  mBlockItems :: "BlockId \<rightharpoonup> nat" \<comment> \<open>the height at which the item of a block is drawn\<close>

definition PADDING :: nat where
  "PADDING = 5"

definition ITEM_MARGIN :: nat where
  "ITEM_MARGIN = 3"

text \<open>\<open>itemHeight\<close> is \<^verbatim>\<open>UnallocatedBlockGraphicsItem::HEIGHT\<close>. A new item is at the height 0.\<close>

definition itemHeight :: nat where
  "itemHeight = 80"

definition itemPosition :: "nat \<Rightarrow> nat" where
  "itemPosition k = PADDING + k * (itemHeight + ITEM_MARGIN)"

text \<open>The loop that gives the blocks of the set their places. \<open>shiftBlocks\<close> moves the items that exist; a missing one would be a null pointer.\<close>

definition placeBlocks :: "UnallocatedBlocks \<Rightarrow> UnallocatedBlocks" where
  "placeBlocks w = w\<lparr>mBlockItems := fold (\<lambda>(b, k) items. items(b \<mapsto> itemPosition k)) (zip (mUnallocated w) [0..<length (mUnallocated w)]) (mBlockItems w)\<rparr>"

definition shiftBlocks :: "UnallocatedBlocks \<Rightarrow> UnallocatedBlocks result" where
  "shiftBlocks w = (if \<forall>b \<in> set (mUnallocated w). mBlockItems w b \<noteq> None then Inr (placeBlocks w) else Inl UndefinedBehaviour)"

text \<open>The elements of a \<^verbatim>\<open>std::set\<close> must be in order whenever it is searched, also when the tournament has changed what the comparator reads.\<close>

definition blocks_insertBlock :: "Qt \<Rightarrow> TournamentStore \<Rightarrow> CategoryStore \<Rightarrow> MatchType \<Rightarrow> UnallocatedBlocks \<Rightarrow> (bool \<times> UnallocatedBlocks) result" where
  "blocks_insertBlock Q t c ty w =
     (let block = (mCategoryId c, ty) in
      assertE (allKnown t (block # mUnallocated w))
        (if \<not> sorted_wrt (block_less Q t) (mUnallocated w) then Inl UndefinedBehaviour
         else case stdset_insert (block_less Q t) block (mUnallocated w) of
           (inserted, bs) \<Rightarrow> Inr (inserted, if inserted then w\<lparr>mUnallocated := bs, mBlockItems := (mBlockItems w)(block \<mapsto> 0)\<rparr> else w)))"

text \<open>The item of the block that is erased is removed from the scene; without one the iterator is the end.\<close>

definition blocks_eraseBlock :: "Qt \<Rightarrow> TournamentStore \<Rightarrow> CategoryId \<Rightarrow> MatchType \<Rightarrow> UnallocatedBlocks \<Rightarrow> (bool \<times> UnallocatedBlocks) result" where
  "blocks_eraseBlock Q t i ty w =
     (let block = (i, ty) in
      assertE (allKnown t (block # mUnallocated w))
        (if \<not> sorted_wrt (block_less Q t) (mUnallocated w) then Inl UndefinedBehaviour
         else case stdset_erase (block_less Q t) block (mUnallocated w) of
           (erased, bs) \<Rightarrow>
             if \<not> erased then Inr (False, w)
             else if mBlockItems w block = None then Inl UndefinedBehaviour
             else Inr (True, w\<lparr>mUnallocated := bs, mBlockItems := (mBlockItems w)(block := None)\<rparr>)))"

definition orShift ::
  "(UnallocatedBlocks \<Rightarrow> (bool \<times> UnallocatedBlocks) result) \<Rightarrow> bool \<times> UnallocatedBlocks \<Rightarrow> (bool \<times> UnallocatedBlocks) result" where
  "orShift f = (\<lambda>(shouldShift, w). bindE (f w) (\<lambda>(changed, w'). Inr (shouldShift \<or> changed, w')))"

definition shiftIf :: "(bool \<times> UnallocatedBlocks) result \<Rightarrow> UnallocatedBlocks result" where
  "shiftIf r = bindE r (\<lambda>(shouldShift, w). if shouldShift then shiftBlocks w else Inr w)"

definition blocks_endAddCategories :: "Qt \<Rightarrow> TournamentStore \<Rightarrow> CategoryId list \<Rightarrow> UnallocatedBlocks \<Rightarrow> UnallocatedBlocks result" where
  "blocks_endAddCategories Q t categoryIds w = shiftIf (foldE (\<lambda>i s.
     bindE (getCategory i t) (\<lambda>c.
     bindE (if category_getLocation c ELIMINATION = None then orShift (blocks_insertBlock Q t c ELIMINATION) s else Inr s) (\<lambda>s1.
       if hasFinalBlock (mDrawSystem c) \<and> category_getLocation c FINAL = None then orShift (blocks_insertBlock Q t c FINAL) s1 else Inr s1)))
     categoryIds (False, w))"

definition blocks_changeCategories :: "Qt \<Rightarrow> TournamentStore \<Rightarrow> CategoryId list \<Rightarrow> UnallocatedBlocks \<Rightarrow> UnallocatedBlocks result" where
  "blocks_changeCategories Q t categoryIds w = shiftIf (foldE (\<lambda>i s.
     bindE (getCategory i t) (\<lambda>c.
     bindE (orShift (if category_getLocation c ELIMINATION = None then blocks_insertBlock Q t c ELIMINATION else blocks_eraseBlock Q t (mCategoryId c) ELIMINATION) s) (\<lambda>s1.
       orShift (if hasFinalBlock (mDrawSystem c) \<and> category_getLocation c FINAL = None then blocks_insertBlock Q t c FINAL
                else blocks_eraseBlock Q t (mCategoryId c) FINAL) s1)))
     categoryIds (False, w))"

definition blocks_beginEraseCategories :: "Qt \<Rightarrow> TournamentStore \<Rightarrow> CategoryId list \<Rightarrow> UnallocatedBlocks \<Rightarrow> UnallocatedBlocks result" where
  "blocks_beginEraseCategories Q t categoryIds w = shiftIf (foldE (\<lambda>i s.
     bindE (orShift (blocks_eraseBlock Q t i ELIMINATION) s) (orShift (blocks_eraseBlock Q t i FINAL)))
     categoryIds (False, w))"

text \<open>\<open>order\<close> is the order in which the hash map of categories is traversed.\<close>

definition reloadBlocks :: "Qt \<Rightarrow> TournamentStore \<Rightarrow> CategoryId list \<Rightarrow> UnallocatedBlocks \<Rightarrow> UnallocatedBlocks result" where
  "reloadBlocks Q t order w =
     bindE (foldE (\<lambda>i bs.
       bindE (getCategory i t) (\<lambda>c.
         let bs1 = (if category_getLocation c ELIMINATION = None then snd (stdset_insert (block_less Q t) (mCategoryId c, ELIMINATION) bs) else bs)
         in Inr (if hasFinalBlock (mDrawSystem c) \<and> category_getLocation c FINAL = None
                 then snd (stdset_insert (block_less Q t) (mCategoryId c, FINAL) bs1) else bs1)))
       order []) (\<lambda>bs.
     Inr (placeBlocks \<lparr>mUnallocated = bs, mBlockItems = Map.empty\<rparr>))"

definition blocks_beginTournamentReset :: "UnallocatedBlocks \<Rightarrow> UnallocatedBlocks" where
  "blocks_beginTournamentReset w = w\<lparr>mUnallocated := []\<rparr>"

text \<open>A block that is dropped on the widget loses its place on a tatami: the argument of the \<^verbatim>\<open>SetTatamiLocationAction\<close> that is dispatched, if any.\<close>

definition blocks_dropEvent :: "TournamentStore \<Rightarrow> BlockId \<Rightarrow> (BlockId \<times> BlockLocation option) option result" where
  "blocks_dropEvent t block = bindE (getCategory (fst block) t) (\<lambda>c.
     Inr (if category_getLocation c (snd block) = None then None else Some (block, None)))"

subsection \<open>Ordered sets\<close>

definition ordered_on :: "('x \<Rightarrow> 'x \<Rightarrow> bool) \<Rightarrow> 'x set \<Rightarrow> bool" where
  "ordered_on lt A \<longleftrightarrow> (\<forall>x \<in> A. \<not> lt x x) \<and> (\<forall>x \<in> A. \<forall>y \<in> A. \<forall>z \<in> A. lt x y \<longrightarrow> lt y z \<longrightarrow> lt x z) \<and>
     (\<forall>x \<in> A. \<forall>y \<in> A. x \<noteq> y \<longrightarrow> lt x y \<or> lt y x)"

lemma ordered_onD:
  "ordered_on lt A \<Longrightarrow> x \<in> A \<Longrightarrow> \<not> lt x x"
  "ordered_on lt A \<Longrightarrow> x \<in> A \<Longrightarrow> y \<in> A \<Longrightarrow> z \<in> A \<Longrightarrow> lt x y \<Longrightarrow> lt y z \<Longrightarrow> lt x z"
  "ordered_on lt A \<Longrightarrow> x \<in> A \<Longrightarrow> y \<in> A \<Longrightarrow> \<not> lt x y \<Longrightarrow> \<not> lt y x \<Longrightarrow> x = y"
  unfolding ordered_on_def by blast+

lemma stdset_insert_correct:
  assumes "ordered_on lt A" and "sorted_wrt lt xs" and "set xs \<subseteq> A" and "x \<in> A"
  shows "\<exists>ys. stdset_insert lt x xs = (x \<notin> set xs, ys) \<and> sorted_wrt lt ys \<and> set ys = insert x (set xs)"
  using assms(2,3)
proof (induction xs)
  case (Cons y ys)
  note ord = ordered_onD[OF assms(1)]
  have A: "y \<in> A" "set ys \<subseteq> A" "\<forall>z \<in> set ys. lt y z" using Cons.prems by auto
  consider "lt x y" | "\<not> lt x y" "lt y x" | "\<not> lt x y" "\<not> lt y x" by blast
  then show ?case
  proof cases
    case 1
    then have "\<forall>z \<in> set ys. lt x z" using A assms(4) ord(2)[of x y] by blast
    with 1 show ?thesis using ord(1)[OF assms(4)] ord(1)[OF A(1)] Cons.prems(1) by auto
  next
    case 2
    from Cons A obtain zs where zs: "stdset_insert lt x ys = (x \<notin> set ys, zs)" "sorted_wrt lt zs" "set zs = insert x (set ys)" by auto
    have "x \<noteq> y" using 2 by auto
    with zs 2 A(3) show ?thesis by auto
  next
    case 3
    then have "x = y" using ord(3) A(1) assms(4) by blast
    with 3 Cons.prems show ?thesis by auto
  qed
qed simp

lemma stdset_erase_correct:
  assumes "ordered_on lt A" and "sorted_wrt lt xs" and "set xs \<subseteq> A" and "x \<in> A"
  shows "\<exists>ys. stdset_erase lt x xs = (x \<in> set xs, ys) \<and> sorted_wrt lt ys \<and> set ys = set xs - {x}"
  using assms(2,3)
proof (induction xs)
  case (Cons y ys)
  note ord = ordered_onD[OF assms(1)]
  have A: "y \<in> A" "set ys \<subseteq> A" "\<forall>z \<in> set ys. lt y z" using Cons.prems by auto
  consider "lt x y" | "\<not> lt x y" "lt y x" | "\<not> lt x y" "\<not> lt y x" by blast
  then show ?case
  proof cases
    case 1
    then have "\<forall>z \<in> set ys. lt x z" using A assms(4) ord(2)[of x y] by blast
    with 1 show ?thesis using ord(1)[OF assms(4)] ord(1)[OF A(1)] Cons.prems(1) by auto
  next
    case 2
    from Cons A obtain zs where zs: "stdset_erase lt x ys = (x \<in> set ys, zs)" "sorted_wrt lt zs" "set zs = set ys - {x}" by auto
    have "x \<noteq> y" using 2 by auto
    with zs 2 A(3) show ?thesis by auto
  next
    case 3
    then have "x = y" using ord(3) A(1) assms(4) by blast
    moreover have "y \<notin> set ys" using A(3) ord(1)[OF A(1)] by blast
    ultimately show ?thesis using 3 Cons.prems by auto
  qed
qed simp

subsection \<open>The blocks of a tournament\<close>

definition unallocated :: "TournamentStore \<Rightarrow> BlockId set" where
  "unallocated t = {(i, ty). \<exists>c. mCategories t i = Some c \<and> category_getLocation c ty = None \<and> (ty = ELIMINATION \<or> hasFinalBlock (mDrawSystem c))}"

definition knownBlocks :: "TournamentStore \<Rightarrow> BlockId set" where
  "knownBlocks t = {b. mCategories t (fst b) \<noteq> None}"

definition blockName :: "Qt \<Rightarrow> TournamentStore \<Rightarrow> BlockId \<Rightarrow> QString" where
  "blockName Q t b = getBlockName Q (categoryOf t (fst b)) (snd b)"

text \<open>Categories are stored under their identifiers, and names that count as the same are the same.\<close>

definition names_ok :: "Qt \<Rightarrow> TournamentStore \<Rightarrow> bool" where
  "names_ok Q t \<longleftrightarrow> (\<forall>i c. mCategories t i = Some c \<longrightarrow> mCategoryId c = i) \<and>
     (\<forall>a \<in> knownBlocks t. \<forall>b \<in> knownBlocks t. nameKey (blockName Q t a) = nameKey (blockName Q t b) \<longrightarrow> blockName Q t a = blockName Q t b)"

lemma blocks_ordered: "names_ok Q t \<Longrightarrow> ordered_on (block_less Q t) (knownBlocks t)"
proof -
  assume ok: "names_ok Q t"
  have less: "block_less Q t a b \<longleftrightarrow> ord_class.lexordp (nameKey (blockName Q t a)) (nameKey (blockName Q t b)) \<or>
      nameKey (blockName Q t a) = nameKey (blockName Q t b) \<and> (fst a < fst b \<or> fst a = fst b \<and> matchType_toInt (snd a) < matchType_toInt (snd b))"
    if "a \<in> knownBlocks t" "b \<in> knownBlocks t" for a b
    using ok that lexordp_irreflexive'[of "nameKey (blockName Q t a)"]
    by (auto simp: block_less_def Let_def names_ok_def numerical_less_keys simp flip: blockName_def)
  have types: "matchType_toInt x = matchType_toInt y \<longleftrightarrow> x = y" for x y
    by (cases x; cases y) (simp_all add: matchType_toInt_def)
  show ?thesis
    unfolding ordered_on_def
  proof (intro conjI ballI impI)
    fix x y z assume "x \<in> knownBlocks t" "y \<in> knownBlocks t" "z \<in> knownBlocks t" "block_less Q t x y" "block_less Q t y z"
    then show "block_less Q t x z" by (auto simp: less intro: lexordp_trans)
  next
    fix x y assume xy: "x \<in> knownBlocks t" "y \<in> knownBlocks t" "x \<noteq> y"
    then show "block_less Q t x y \<or> block_less Q t y x"
      using lexordp_linear[of "nameKey (blockName Q t x)" "nameKey (blockName Q t y)"] types[of "snd x" "snd y"]
      by (auto simp: less prod_eq_iff)
  qed (simp add: less lexordp_irreflexive')
qed

subsection \<open>The handlers\<close>

text \<open>The widget while a handler runs that found the widget \<open>w0\<close>: it holds the blocks \<open>S\<close>, and is \<open>w0\<close> still unless it has to be shifted.\<close>

definition holds :: "Qt \<Rightarrow> TournamentStore \<Rightarrow> UnallocatedBlocks \<Rightarrow> bool \<times> UnallocatedBlocks \<Rightarrow> BlockId set \<Rightarrow> bool" where
  "holds Q t w0 s S \<longleftrightarrow> sorted_wrt (block_less Q t) (mUnallocated (snd s)) \<and> set (mUnallocated (snd s)) = S \<and> dom (mBlockItems (snd s)) = S \<and>
     S \<subseteq> knownBlocks t \<and> (\<not> fst s \<longrightarrow> snd s = w0)"

lemma allKnown_iff: "allKnown t bs \<longleftrightarrow> set bs \<subseteq> knownBlocks t"
  by (auto simp: allKnown_def knownBlocks_def containsCategory_def)

lemma insertBlock_holds:
  assumes "names_ok Q t" and "mCategories t i = Some c" and "holds Q t w0 s S"
  shows "\<exists>s'. orShift (blocks_insertBlock Q t c ty) s = Inr s' \<and> holds Q t w0 s' (insert (i, ty) S)"
proof -
  obtain sh w where s: "s = (sh, w)" by (cases s)
  have c: "mCategoryId c = i" "(i, ty) \<in> knownBlocks t" using assms(1,2) by (auto simp: names_ok_def knownBlocks_def)
  have w: "sorted_wrt (block_less Q t) (mUnallocated w)" "set (mUnallocated w) = S" "S \<subseteq> knownBlocks t" using assms(3) s by (auto simp: holds_def)
  then obtain ys where "stdset_insert (block_less Q t) (i, ty) (mUnallocated w) = ((i, ty) \<notin> S, ys)" "sorted_wrt (block_less Q t) ys" "set ys = insert (i, ty) S"
    using stdset_insert_correct[OF blocks_ordered[OF assms(1)], of "mUnallocated w" "(i, ty)"] c(2) by auto
  moreover have "allKnown t ((i, ty) # mUnallocated w)" using w c by (simp add: allKnown_iff)
  ultimately show ?thesis
    using assms(3) c s by (cases "(i, ty) \<in> S") (auto simp: orShift_def blocks_insertBlock_def holds_def Let_def insert_absorb)
qed

lemma eraseBlock_holds:
  assumes "names_ok Q t" and "mCategories t i = Some c" and "holds Q t w0 s S"
  shows "\<exists>s'. orShift (blocks_eraseBlock Q t i ty) s = Inr s' \<and> holds Q t w0 s' (S - {(i, ty)})"
proof -
  obtain sh w where s: "s = (sh, w)" by (cases s)
  have c: "(i, ty) \<in> knownBlocks t" using assms(1,2) by (auto simp: knownBlocks_def)
  have w: "sorted_wrt (block_less Q t) (mUnallocated w)" "set (mUnallocated w) = S" "S \<subseteq> knownBlocks t" "dom (mBlockItems w) = S"
    using assms(3) s by (auto simp: holds_def)
  then obtain ys where "stdset_erase (block_less Q t) (i, ty) (mUnallocated w) = ((i, ty) \<in> S, ys)" "sorted_wrt (block_less Q t) ys" "set ys = S - {(i, ty)}"
    using stdset_erase_correct[OF blocks_ordered[OF assms(1)], of "mUnallocated w" "(i, ty)"] c by auto
  moreover have "allKnown t ((i, ty) # mUnallocated w)" using w c by (simp add: allKnown_iff)
  moreover have "(i, ty) \<in> S \<Longrightarrow> mBlockItems w (i, ty) \<noteq> None" using w(4) by auto
  ultimately show ?thesis
    using assms(3) s by (cases "(i, ty) \<in> S") (auto simp: orShift_def blocks_eraseBlock_def holds_def Let_def)
qed

definition shown :: "UnallocatedBlocks \<Rightarrow> bool" where
  "shown w \<longleftrightarrow> dom (mBlockItems w) = set (mUnallocated w) \<and> (\<forall>k < length (mUnallocated w). mBlockItems w (mUnallocated w ! k) = Some (itemPosition k))"

lemma shift_fold:
  "distinct bs \<Longrightarrow> (\<forall>k < length bs. fold (\<lambda>(b, k) items. items(b \<mapsto> itemPosition k)) (zip bs [n..<n + length bs]) items (bs ! k) = Some (itemPosition (n + k))) \<and>
   (\<forall>b. b \<notin> set bs \<longrightarrow> fold (\<lambda>(b, k) items. items(b \<mapsto> itemPosition k)) (zip bs [n..<n + length bs]) items b = items b)"
proof (induction bs arbitrary: n items)
  case (Cons b bs)
  have up: "[n..<n + length (b # bs)] = n # [Suc n..<Suc n + length bs]" using upt_conv_Cons[of n "n + length (b # bs)"] by simp
  show ?case unfolding up using Cons.IH[of "Suc n" "items(b \<mapsto> itemPosition n)"] Cons.prems by (auto simp: nth_Cons split: nat.splits)
qed simp

lemma placeBlocks_shown:
  assumes "distinct (mUnallocated w)" and "dom (mBlockItems w) \<subseteq> set (mUnallocated w)"
  shows "shown (placeBlocks w) \<and> mUnallocated (placeBlocks w) = mUnallocated w"
proof -
  let ?items = "fold (\<lambda>(b, k) items. items(b \<mapsto> itemPosition k)) (zip (mUnallocated w) [0..<length (mUnallocated w)]) (mBlockItems w)"
  have at: "\<forall>k < length (mUnallocated w). ?items (mUnallocated w ! k) = Some (itemPosition k)" and other: "\<forall>b. b \<notin> set (mUnallocated w) \<longrightarrow> ?items b = mBlockItems w b"
    using shift_fold[OF assms(1), of 0 "mBlockItems w"] by simp_all
  have "?items b \<noteq> None \<longleftrightarrow> b \<in> set (mUnallocated w)" for b
  proof (cases "b \<in> set (mUnallocated w)")
    case True
    then obtain k where "k < length (mUnallocated w)" "mUnallocated w ! k = b" by (auto simp: in_set_conv_nth)
    with at True show ?thesis by auto
  next
    case False
    then have "?items b = mBlockItems w b" "mBlockItems w b = None" using other assms(2) by blast+
    with False show ?thesis by simp
  qed
  then have "dom ?items = set (mUnallocated w)" by blast
  with at show ?thesis by (simp add: shown_def placeBlocks_def)
qed

lemma sorted_distinct: "ordered_on lt A \<Longrightarrow> set xs \<subseteq> A \<Longrightarrow> sorted_wrt lt xs \<Longrightarrow> distinct xs"
  by (induction xs) (auto dest: ordered_onD(1))

definition blocks_inv :: "Qt \<Rightarrow> TournamentStore \<Rightarrow> UnallocatedBlocks \<Rightarrow> bool" where
  "blocks_inv Q t w \<longleftrightarrow> sorted_wrt (block_less Q t) (mUnallocated w) \<and> set (mUnallocated w) = unallocated t \<and> shown w"

lemma unallocated_known: "unallocated t \<subseteq> knownBlocks t"
  by (auto simp: unallocated_def knownBlocks_def)

lemma shiftIf_holds:
  assumes "names_ok Q t" and "holds Q t w0 s S" and "shown w0"
  shows "\<exists>w'. shiftIf (Inr s) = Inr w' \<and> sorted_wrt (block_less Q t) (mUnallocated w') \<and> set (mUnallocated w') = S \<and> shown w'"
proof -
  obtain sh w where s: "s = (sh, w)" by (cases s)
  have "distinct (mUnallocated w)"
    using assms(2) s sorted_distinct[OF blocks_ordered[OF assms(1)], of "mUnallocated w"] by (auto simp: holds_def)
  moreover have "\<forall>b \<in> set (mUnallocated w). mBlockItems w b \<noteq> None" using assms(2) s by (auto simp: holds_def)
  ultimately show ?thesis using assms s placeBlocks_shown[of w] by (auto simp: shiftIf_def shiftBlocks_def holds_def)
qed

lemma foldE_sets:
  assumes "\<And>i s S. i \<in> set ids \<Longrightarrow> P s S \<Longrightarrow> \<exists>s'. f i s = Inr s' \<and> P s' (g i S)" and "P s S"
  shows "\<exists>s'. foldE f ids s = Inr s' \<and> P s' (fold g ids S)"
  using assms
proof (induction ids arbitrary: s S)
  case (Cons i ids)
  from Cons.prems obtain s1 where "f i s = Inr s1" "P s1 (g i S)" by force
  with Cons show ?case by simp
qed simp

definition blocksOf :: "CategoryId \<Rightarrow> BlockId set" where
  "blocksOf i = {(i, ELIMINATION), (i, FINAL)}"

definition wanted :: "TournamentStore \<Rightarrow> CategoryId \<Rightarrow> BlockId set" where
  "wanted t i = unallocated t \<inter> blocksOf i"

lemma blocksOf_iff: "b \<in> blocksOf i \<longleftrightarrow> fst b = i"
  by (cases b; cases "snd b") (auto simp: blocksOf_def)

lemma wanted_eq:
  "mCategories t i = Some c \<Longrightarrow> wanted t i =
     (if category_getLocation c ELIMINATION = None then {(i, ELIMINATION)} else {}) \<union>
     (if hasFinalBlock (mDrawSystem c) \<and> category_getLocation c FINAL = None then {(i, FINAL)} else {})"
  by (auto simp: wanted_def unallocated_def blocksOf_def)

lemma fold_wanted:
  "fold (\<lambda>i S. S \<union> wanted t i) ids S = S \<union> {b \<in> unallocated t. fst b \<in> set ids}"
  "fold (\<lambda>i S. (S - blocksOf i) \<union> wanted t i) ids S = {b \<in> S. fst b \<notin> set ids} \<union> {b \<in> unallocated t. fst b \<in> set ids}"
  "fold (\<lambda>i S. S - blocksOf i) ids S = {b \<in> S. fst b \<notin> set ids}"
  by (induction ids arbitrary: S) (auto simp: wanted_def blocksOf_iff)

text \<open>Each handler leaves what its loop over the categories makes of the blocks.\<close>

lemma endAdd_correct:
  assumes "names_ok Q t" and "\<forall>i \<in> set ids. mCategories t i \<noteq> None" and "holds Q t w (False, w) S" and "shown w"
    and "S \<union> {b \<in> unallocated t. fst b \<in> set ids} = unallocated t"
  shows "\<exists>w'. blocks_endAddCategories Q t ids w = Inr w' \<and> blocks_inv Q t w'"
proof -
  let ?f = "\<lambda>i s. bindE (getCategory i t) (\<lambda>c.
     bindE (if category_getLocation c ELIMINATION = None then orShift (blocks_insertBlock Q t c ELIMINATION) s else Inr s) (\<lambda>s1.
       if hasFinalBlock (mDrawSystem c) \<and> category_getLocation c FINAL = None then orShift (blocks_insertBlock Q t c FINAL) s1 else Inr s1))"
  have step: "\<exists>s'. ?f i s = Inr s' \<and> holds Q t w s' (S \<union> wanted t i)" if i: "i \<in> set ids" and held: "holds Q t w s S" for i s S
  proof -
    from i assms(2) obtain c where c: "mCategories t i = Some c" by auto
    let ?S1 = "S \<union> (if category_getLocation c ELIMINATION = None then {(i, ELIMINATION)} else {})"
    obtain s1 where s1: "(if category_getLocation c ELIMINATION = None then orShift (blocks_insertBlock Q t c ELIMINATION) s else Inr s) = Inr s1" "holds Q t w s1 ?S1"
      using insertBlock_holds[OF assms(1) c held, of ELIMINATION] held by (cases "category_getLocation c ELIMINATION = None") auto
    obtain s2 where "(if hasFinalBlock (mDrawSystem c) \<and> category_getLocation c FINAL = None then orShift (blocks_insertBlock Q t c FINAL) s1 else Inr s1) = Inr s2"
      "holds Q t w s2 (S \<union> wanted t i)"
      using insertBlock_holds[OF assms(1) c s1(2), of FINAL] s1(2) unfolding wanted_eq[OF c]
      by (cases "hasFinalBlock (mDrawSystem c) \<and> category_getLocation c FINAL = None") (auto simp: Un_assoc insert_commute)
    with s1 c show ?thesis by (simp add: getCategory_def categories_get_def)
  qed
  from foldE_sets[of ids "holds Q t w" ?f "\<lambda>i S. S \<union> wanted t i", OF step assms(3)] obtain s'
    where "foldE ?f ids (False, w) = Inr s'" "holds Q t w s' (unallocated t)" by (auto simp: fold_wanted assms(5))
  then show ?thesis using shiftIf_holds[OF assms(1) _ assms(4)] by (simp add: blocks_endAddCategories_def blocks_inv_def)
qed

lemma change_correct:
  assumes "names_ok Q t" and "\<forall>i \<in> set ids. mCategories t i \<noteq> None" and "holds Q t w (False, w) S" and "shown w"
    and "{b \<in> S. fst b \<notin> set ids} \<union> {b \<in> unallocated t. fst b \<in> set ids} = unallocated t"
  shows "\<exists>w'. blocks_changeCategories Q t ids w = Inr w' \<and> blocks_inv Q t w'"
proof -
  let ?elim = "\<lambda>c. if category_getLocation c ELIMINATION = None then blocks_insertBlock Q t c ELIMINATION else blocks_eraseBlock Q t (mCategoryId c) ELIMINATION"
  let ?final = "\<lambda>c. if hasFinalBlock (mDrawSystem c) \<and> category_getLocation c FINAL = None then blocks_insertBlock Q t c FINAL
    else blocks_eraseBlock Q t (mCategoryId c) FINAL"
  let ?f = "\<lambda>i s. bindE (getCategory i t) (\<lambda>c. bindE (orShift (?elim c) s) (\<lambda>s1. orShift (?final c) s1))"
  have step: "\<exists>s'. ?f i s = Inr s' \<and> holds Q t w s' (S - blocksOf i \<union> wanted t i)" if i: "i \<in> set ids" and held: "holds Q t w s S" for i s S
  proof -
    from i assms(2) obtain c where c: "mCategories t i = Some c" by auto
    then have cid: "mCategoryId c = i" using assms(1) by (simp add: names_ok_def)
    let ?S1 = "if category_getLocation c ELIMINATION = None then insert (i, ELIMINATION) S else S - {(i, ELIMINATION)}"
    obtain s1 where s1: "orShift (?elim c) s = Inr s1" "holds Q t w s1 ?S1"
      using insertBlock_holds[OF assms(1) c held, of ELIMINATION] eraseBlock_holds[OF assms(1) c held, of ELIMINATION] cid
      by (cases "category_getLocation c ELIMINATION = None") auto
    let ?has = "hasFinalBlock (mDrawSystem c) \<and> category_getLocation c FINAL = None"
    have S2: "(if ?has then insert (i, FINAL) ?S1 else ?S1 - {(i, FINAL)}) = S - blocksOf i \<union> wanted t i"
      unfolding wanted_eq[OF c] by (auto simp: blocksOf_def)
    obtain s2 where "orShift (?final c) s1 = Inr s2" "holds Q t w s2 (if ?has then insert (i, FINAL) ?S1 else ?S1 - {(i, FINAL)})"
      using insertBlock_holds[OF assms(1) c s1(2), of FINAL] eraseBlock_holds[OF assms(1) c s1(2), of FINAL] cid by (cases ?has) auto
    with s1(1) c show ?thesis unfolding S2 by (simp add: getCategory_def categories_get_def)
  qed
  from foldE_sets[of ids "holds Q t w" ?f "\<lambda>i S. S - blocksOf i \<union> wanted t i", OF step assms(3)] obtain s'
    where "foldE ?f ids (False, w) = Inr s'" "holds Q t w s' (unallocated t)" by (auto simp: fold_wanted assms(5))
  then show ?thesis using shiftIf_holds[OF assms(1) _ assms(4)] by (simp add: blocks_changeCategories_def blocks_inv_def)
qed

lemma beginErase_correct:
  assumes "names_ok Q t" and "\<forall>i \<in> set ids. mCategories t i \<noteq> None" and "holds Q t w (False, w) S" and "shown w"
  shows "\<exists>w'. blocks_beginEraseCategories Q t ids w = Inr w' \<and> sorted_wrt (block_less Q t) (mUnallocated w') \<and>
    set (mUnallocated w') = {b \<in> S. fst b \<notin> set ids} \<and> shown w'"
proof -
  let ?f = "\<lambda>i s. bindE (orShift (blocks_eraseBlock Q t i ELIMINATION) s) (orShift (blocks_eraseBlock Q t i FINAL))"
  have step: "\<exists>s'. ?f i s = Inr s' \<and> holds Q t w s' (S - blocksOf i)" if i: "i \<in> set ids" and held: "holds Q t w s S" for i s S
  proof -
    from i assms(2) obtain c where c: "mCategories t i = Some c" by auto
    obtain s1 where s1: "orShift (blocks_eraseBlock Q t i ELIMINATION) s = Inr s1" "holds Q t w s1 (S - {(i, ELIMINATION)})"
      using eraseBlock_holds[OF assms(1) c held] by blast
    have "S - {(i, ELIMINATION)} - {(i, FINAL)} = S - blocksOf i" by (auto simp: blocksOf_def)
    with eraseBlock_holds[OF assms(1) c s1(2), of FINAL] s1(1) show ?thesis by auto
  qed
  from foldE_sets[of ids "holds Q t w" ?f "\<lambda>i S. S - blocksOf i", OF step assms(3)] obtain s'
    where "foldE ?f ids (False, w) = Inr s'" "holds Q t w s' {b \<in> S. fst b \<notin> set ids}" by (auto simp: fold_wanted)
  then show ?thesis using shiftIf_holds[OF assms(1) _ assms(4)] by (simp add: blocks_beginEraseCategories_def)
qed

lemma reload_correct:
  assumes "names_ok Q t" and "set order = dom (mCategories t)"
  shows "\<exists>w'. reloadBlocks Q t order w = Inr w' \<and> blocks_inv Q t w'"
proof -
  let ?lt = "block_less Q t"
  let ?f = "\<lambda>i bs. bindE (getCategory i t) (\<lambda>c.
         let bs1 = (if category_getLocation c ELIMINATION = None then snd (stdset_insert ?lt (mCategoryId c, ELIMINATION) bs) else bs)
         in Inr (if hasFinalBlock (mDrawSystem c) \<and> category_getLocation c FINAL = None
                 then snd (stdset_insert ?lt (mCategoryId c, FINAL) bs1) else bs1))"
  let ?P = "\<lambda>bs S. sorted_wrt ?lt bs \<and> set bs = S \<and> S \<subseteq> knownBlocks t"
  have insert: "?P (snd (stdset_insert ?lt b bs)) (insert b S)" if "?P bs S" and "b \<in> knownBlocks t" for b bs S
    using stdset_insert_correct[OF blocks_ordered[OF assms(1)], of bs b] that by auto
  have step: "\<exists>bs'. ?f i bs = Inr bs' \<and> ?P bs' (S \<union> wanted t i)" if i: "i \<in> set order" and P: "?P bs S" for i bs S
  proof -
    from i assms(2) obtain c where c: "mCategories t i = Some c" by auto
    then have known: "(i, ty) \<in> knownBlocks t" "mCategoryId c = i" for ty using assms(1) by (auto simp: knownBlocks_def names_ok_def)
    define bs1 where "bs1 = (if category_getLocation c ELIMINATION = None then snd (stdset_insert ?lt (i, ELIMINATION) bs) else bs)"
    have bs1: "?P bs1 (S \<union> (if category_getLocation c ELIMINATION = None then {(i, ELIMINATION)} else {}))"
      using insert[OF P known(1), of ELIMINATION] P by (simp add: bs1_def)
    have "?f i bs = Inr (if hasFinalBlock (mDrawSystem c) \<and> category_getLocation c FINAL = None then snd (stdset_insert ?lt (i, FINAL) bs1) else bs1)"
      using c known(2) by (simp add: getCategory_def categories_get_def bs1_def Let_def)
    then show ?thesis using insert[OF bs1 known(1), of FINAL] bs1 unfolding wanted_eq[OF c] by (auto simp: Un_assoc insert_commute)
  qed
  have "{b \<in> unallocated t. fst b \<in> set order} = unallocated t" using assms(2) by (auto simp: unallocated_def)
  with foldE_sets[of order ?P ?f "\<lambda>i S. S \<union> wanted t i" "[]" "{}", OF step] obtain bs
    where bs: "foldE ?f order [] = Inr bs" "?P bs (unallocated t)" by (auto simp: fold_wanted)
  then have "distinct bs" using sorted_distinct[OF blocks_ordered[OF assms(1)]] by auto
  with bs placeBlocks_shown[of "\<lparr>mUnallocated = bs, mBlockItems = Map.empty\<rparr>"] show ?thesis
    by (auto simp: reloadBlocks_def blocks_inv_def)
qed

subsection \<open>The widget over the changes of a tournament\<close>

text \<open>
  The widget is told of categories after they are added or changed and before they are erased. Categories that change keep the names of
  their blocks here: a new name, or a draw system with a final block for one without, changes what the set of blocks is ordered by
  (\<open>renaming_breaks_order\<close> below).
\<close>

definition addedCategories :: "CategoryId list \<Rightarrow> TournamentStore \<Rightarrow> TournamentStore \<Rightarrow> bool" where
  "addedCategories ids t t' \<longleftrightarrow> set ids \<inter> dom (mCategories t) = {} \<and> dom (mCategories t') = dom (mCategories t) \<union> set ids \<and>
     (\<forall>i. i \<notin> set ids \<longrightarrow> mCategories t' i = mCategories t i)"

definition changedCategories :: "Qt \<Rightarrow> CategoryId list \<Rightarrow> TournamentStore \<Rightarrow> TournamentStore \<Rightarrow> bool" where
  "changedCategories Q ids t t' \<longleftrightarrow> set ids \<subseteq> dom (mCategories t) \<and> dom (mCategories t') = dom (mCategories t) \<and>
     (\<forall>i. i \<notin> set ids \<longrightarrow> mCategories t' i = mCategories t i) \<and> (\<forall>b \<in> knownBlocks t. blockName Q t' b = blockName Q t b)"

inductive blocks_reachable :: "Qt \<Rightarrow> TournamentStore \<Rightarrow> UnallocatedBlocks \<Rightarrow> bool" for Q where
  loaded: "names_ok Q t \<Longrightarrow> set order = dom (mCategories t) \<Longrightarrow> reloadBlocks Q t order w = Inr w' \<Longrightarrow> blocks_reachable Q t w'"
| added: "blocks_reachable Q t w \<Longrightarrow> addedCategories ids t t' \<Longrightarrow> names_ok Q t' \<Longrightarrow> blocks_endAddCategories Q t' ids w = Inr w' \<Longrightarrow>
    blocks_reachable Q t' w'"
| changed: "blocks_reachable Q t w \<Longrightarrow> changedCategories Q ids t t' \<Longrightarrow> names_ok Q t' \<Longrightarrow> blocks_changeCategories Q t' ids w = Inr w' \<Longrightarrow>
    blocks_reachable Q t' w'"
| erased: "blocks_reachable Q t w \<Longrightarrow> set ids \<subseteq> dom (mCategories t) \<Longrightarrow> blocks_beginEraseCategories Q t ids w = Inr w' \<Longrightarrow>
    mCategories t' = mCategories t |` (- set ids) \<Longrightarrow> blocks_reachable Q t' w'"
| elsewhere: "blocks_reachable Q t w \<Longrightarrow> mCategories t' = mCategories t \<Longrightarrow> blocks_reachable Q t' w"

lemma block_less_same: "blockName Q t' a = blockName Q t a \<Longrightarrow> blockName Q t' b = blockName Q t b \<Longrightarrow> block_less Q t' a b = block_less Q t a b"
  by (simp add: block_less_def Let_def flip: blockName_def)

lemma blockName_same: "mCategories t' (fst b) = mCategories t (fst b) \<Longrightarrow> blockName Q t' b = blockName Q t b"
  by (simp add: blockName_def categoryOf_def)

lemma sorted_same:
  assumes "sorted_wrt (block_less Q t) bs" and "\<And>b. b \<in> set bs \<Longrightarrow> blockName Q t' b = blockName Q t b"
  shows "sorted_wrt (block_less Q t') bs"
  using assms(1) by (rule sorted_wrt_mono_rel[rotated]) (use assms(2) block_less_same in metis)

lemma names_ok_same:
  assumes "names_ok Q t" and "\<And>i. mCategories t' i \<noteq> None \<Longrightarrow> mCategories t' i = mCategories t i"
  shows "names_ok Q t'"
proof -
  have known: "b \<in> knownBlocks t \<and> blockName Q t' b = blockName Q t b" if "b \<in> knownBlocks t'" for b
    using that assms(2)[of "fst b"] blockName_same[of t' b t Q] by (auto simp: knownBlocks_def)
  have "mCategoryId c = i" if "mCategories t' i = Some c" for i c using that assms(1) assms(2)[of i] by (auto simp: names_ok_def)
  moreover have "blockName Q t' a = blockName Q t' b"
    if "a \<in> knownBlocks t'" "b \<in> knownBlocks t'" "nameKey (blockName Q t' a) = nameKey (blockName Q t' b)" for a b
    using known[OF that(1)] known[OF that(2)] that(3) assms(1) by (simp add: names_ok_def)
  ultimately show ?thesis unfolding names_ok_def by blast
qed

lemma holds_same:
  assumes "blocks_inv Q t w" and "\<And>b. b \<in> unallocated t \<Longrightarrow> b \<in> knownBlocks t' \<and> blockName Q t' b = blockName Q t b"
  shows "holds Q t' w (False, w) (unallocated t)"
proof -
  have "sorted_wrt (block_less Q t') (mUnallocated w)"
    by (rule sorted_same[of Q t]) (use assms in \<open>auto simp: blocks_inv_def\<close>)
  with assms show ?thesis by (auto simp: holds_def blocks_inv_def shown_def)
qed

lemma endAdd_step:
  assumes "blocks_inv Q t w" and "addedCategories ids t t'" and "names_ok Q t'"
  shows "\<exists>w'. blocks_endAddCategories Q t' ids w = Inr w' \<and> blocks_inv Q t' w'"
proof (rule endAdd_correct[OF assms(3)])
  have at: "mCategories t' i = mCategories t i" if "mCategories t i \<noteq> None" for i
    using assms(2) that by (cases "i \<in> set ids") (auto simp: addedCategories_def)
  show "\<forall>i \<in> set ids. mCategories t' i \<noteq> None" using assms(2) by (auto simp: addedCategories_def)
  have "b \<in> knownBlocks t' \<and> blockName Q t' b = blockName Q t b" if "b \<in> unallocated t" for b
    using that at[of "fst b"] blockName_same[of t' b t Q] by (auto simp: unallocated_def knownBlocks_def)
  then show "holds Q t' w (False, w) (unallocated t)" by (rule holds_same[OF assms(1)])
  show "shown w" using assms(1) by (simp add: blocks_inv_def)
  show "unallocated t \<union> {b \<in> unallocated t'. fst b \<in> set ids} = unallocated t'"
    using assms(2) at by (auto simp: unallocated_def addedCategories_def)
qed

lemma change_step:
  assumes "blocks_inv Q t w" and "changedCategories Q ids t t'" and "names_ok Q t'"
  shows "\<exists>w'. blocks_changeCategories Q t' ids w = Inr w' \<and> blocks_inv Q t' w'"
proof (rule change_correct[OF assms(3)])
  show "\<forall>i \<in> set ids. mCategories t' i \<noteq> None" using assms(2) by (auto simp: changedCategories_def)
  have "b \<in> knownBlocks t' \<and> blockName Q t' b = blockName Q t b" if "b \<in> unallocated t" for b
    using that assms(2) unallocated_known[of t] unfolding changedCategories_def knownBlocks_def by blast
  then show "holds Q t' w (False, w) (unallocated t)" by (rule holds_same[OF assms(1)])
  show "shown w" using assms(1) by (simp add: blocks_inv_def)
  show "{b \<in> unallocated t. fst b \<notin> set ids} \<union> {b \<in> unallocated t'. fst b \<in> set ids} = unallocated t'"
    using assms(2) by (auto simp: unallocated_def changedCategories_def)
qed

lemma erase_step:
  assumes "blocks_inv Q t w" and "names_ok Q t" and "set ids \<subseteq> dom (mCategories t)" and "mCategories t' = mCategories t |` (- set ids)"
  shows "\<exists>w'. blocks_beginEraseCategories Q t ids w = Inr w' \<and> blocks_inv Q t' w'"
proof -
  have "holds Q t w (False, w) (unallocated t)" using unallocated_known[of t] by (intro holds_same[OF assms(1)]) auto
  then obtain w' where w': "blocks_beginEraseCategories Q t ids w = Inr w'" "sorted_wrt (block_less Q t) (mUnallocated w')"
    "set (mUnallocated w') = {b \<in> unallocated t. fst b \<notin> set ids}" "shown w'"
    using beginErase_correct[OF assms(2), of ids w "unallocated t"] assms(1,3) by (auto simp: blocks_inv_def)
  have un: "{b \<in> unallocated t. fst b \<notin> set ids} = unallocated t'" using assms(4) by (auto simp: unallocated_def restrict_map_def split: if_splits)
  have "sorted_wrt (block_less Q t') (mUnallocated w')"
    by (rule sorted_same[of Q t]) (use w'(2,3) assms(4) in \<open>auto intro: blockName_same\<close>)
  with w' un show ?thesis by (auto simp: blocks_inv_def)
qed

lemma reachable_inv: "blocks_reachable Q t w \<Longrightarrow> names_ok Q t \<and> blocks_inv Q t w"
proof (induction rule: blocks_reachable.induct)
  case (loaded t order w w')
  then show ?case using reload_correct[OF loaded(1,2), of w] by auto
next
  case (added t w ids t' w')
  then show ?case using endAdd_step[of Q t w ids t'] by auto
next
  case (changed t w ids t' w')
  then show ?case using change_step[of Q t w ids t'] by auto
next
  case (erased t w ids w' t')
  then have "names_ok Q t'" by (intro names_ok_same[of Q t t']) (simp_all add: restrict_map_def split: if_splits)
  with erased show ?case using erase_step[of Q t w ids t'] by auto
next
  case (elsewhere t w t')
  then have "names_ok Q t'" "unallocated t' = unallocated t" by (auto intro: names_ok_same simp: unallocated_def)
  moreover have "block_less Q t' = block_less Q t" using elsewhere by (intro ext block_less_same blockName_same) simp_all
  ultimately show ?case using elsewhere by (simp add: blocks_inv_def)
qed

text \<open>
  C21. The widget of blocks without a tatami shows exactly these: after any signals of the tournament it holds every block of an existing
  category that has no place, once and in order, with the items stacked without gaps, and no handler fails on the next addition, change or
  removal of categories. This holds for tournaments in which no two different names of categories count as the same in the order of the names (\<open>names_ok\<close>;
  the order compares the digits of a name as a number, so that U1 and U01 count as the same) and in which changes keep the names of blocks.
\<close>
theorem unallocated_blocks_shown:
  assumes "blocks_reachable Q t w"
  shows "set (mUnallocated w) = unallocated t \<and> distinct (mUnallocated w) \<and> sorted_wrt (block_less Q t) (mUnallocated w) \<and>
    dom (mBlockItems w) = unallocated t \<and>
    (\<forall>k < length (mUnallocated w). mBlockItems w (mUnallocated w ! k) = Some (5 + k * 83)) \<and>
    (\<forall>ids t'. addedCategories ids t t' \<and> names_ok Q t' \<longrightarrow> (\<exists>w'. blocks_endAddCategories Q t' ids w = Inr w')) \<and>
    (\<forall>ids t'. changedCategories Q ids t t' \<and> names_ok Q t' \<longrightarrow> (\<exists>w'. blocks_changeCategories Q t' ids w = Inr w')) \<and>
    (\<forall>ids. set ids \<subseteq> dom (mCategories t) \<longrightarrow> (\<exists>w'. blocks_beginEraseCategories Q t ids w = Inr w'))"
proof -
  from reachable_inv[OF assms] have ok: "names_ok Q t" and inv: "blocks_inv Q t w" by auto
  have "distinct (mUnallocated w)" using inv unallocated_known sorted_distinct[OF blocks_ordered[OF ok]] by (auto simp: blocks_inv_def)
  moreover have "\<exists>w'. blocks_beginEraseCategories Q t ids w = Inr w'" if "set ids \<subseteq> dom (mCategories t)" for ids
    using erase_step[OF inv ok that, of "t\<lparr>mCategories := mCategories t |` (- set ids)\<rparr>"] by auto
  moreover have "\<exists>w'. blocks_endAddCategories Q t' ids w = Inr w'" if "addedCategories ids t t'" "names_ok Q t'" for ids t'
    using endAdd_step[OF inv that] by blast
  moreover have "\<exists>w'. blocks_changeCategories Q t' ids w = Inr w'" if "changedCategories Q ids t t'" "names_ok Q t'" for ids t'
    using change_step[OF inv that] by blast
  ultimately show ?thesis
    using inv by (simp add: blocks_inv_def shown_def itemPosition_def PADDING_def ITEM_MARGIN_def itemHeight_def)
qed

definition exampleCategories :: "QString \<Rightarrow> QString \<Rightarrow> DrawSystem \<Rightarrow> TournamentStore" where
  "exampleCategories a b d = (newTournamentStore 0)\<lparr>mCategories := [
     1 \<mapsto> newCategoryStore 1 a TWENTY_EIGHTEEN (PoolSystem (newPoolDrawSystem False)), 2 \<mapsto> newCategoryStore 2 b TWENTY_EIGHTEEN d]\<rparr>"

definition exampleBlocks :: "QString \<Rightarrow> QString \<Rightarrow> DrawSystem \<Rightarrow> UnallocatedBlocks result" where
  "exampleBlocks a b d = reloadBlocks exampleQt (exampleCategories a b d) [1, 2] \<lparr>mUnallocated = [], mBlockItems = Map.empty\<rparr>"

lemma example_names: "names_ok exampleQt (exampleCategories ''U12'' ''U9'' (DoublePoolSystem newDoublePoolDrawSystem))"
proof -
  let ?t = "exampleCategories ''U12'' ''U9'' (DoublePoolSystem newDoublePoolDrawSystem)"
  let ?bs = "[(1, ELIMINATION), (1, FINAL), (2, ELIMINATION), (2, FINAL)]"
  have known: "knownBlocks ?t = set ?bs"
    by (auto simp: knownBlocks_def exampleCategories_def split: if_splits) (metis MatchType.exhaust)+
  have "mCategoryId c = i" if "mCategories ?t i = Some c" for i c
    using that by (auto simp: exampleCategories_def newCategoryStore_def split: if_splits)
  moreover have "\<forall>a \<in> set ?bs. \<forall>b \<in> set ?bs. nameKey (blockName exampleQt ?t a) = nameKey (blockName exampleQt ?t b) \<longrightarrow>
      blockName exampleQt ?t a = blockName exampleQt ?t b" by code_simp
  ultimately show ?thesis unfolding names_ok_def known by blast
qed

theorem unallocated_blocks_shown_witness:
  "\<exists>w. exampleBlocks ''U12'' ''U9'' (DoublePoolSystem newDoublePoolDrawSystem) = Inr w \<and>
     mUnallocated w = [(2, ELIMINATION), (2, FINAL), (1, ELIMINATION)] \<and> mBlockItems w (1, ELIMINATION) = Some 171"
proof -
  let ?d = "DoublePoolSystem newDoublePoolDrawSystem"
  have "map_sum id mUnallocated (exampleBlocks ''U12'' ''U9'' ?d) = Inr [(2, ELIMINATION), (2, FINAL), (1, ELIMINATION)]" by code_simp
  then obtain w where w: "exampleBlocks ''U12'' ''U9'' ?d = Inr w" "mUnallocated w = [(2, ELIMINATION), (2, FINAL), (1, ELIMINATION)]"
    by (cases "exampleBlocks ''U12'' ''U9'' ?d") auto
  have "set [1, 2] = dom (mCategories (exampleCategories ''U12'' ''U9'' ?d))" by (auto simp: exampleCategories_def)
  then have "blocks_reachable exampleQt (exampleCategories ''U12'' ''U9'' ?d) w"
    by (rule blocks_reachable.loaded[OF example_names _ w(1)[unfolded exampleBlocks_def]])
  from unallocated_blocks_shown[OF this] have "\<forall>k < length (mUnallocated w). mBlockItems w (mUnallocated w ! k) = Some (5 + k * 83)" by blast
  then have "mBlockItems w (mUnallocated w ! 2) = Some (5 + 2 * 83)" unfolding w(2) by (metis One_nat_def Suc_1 length_Cons lessI list.size(3))
  with w show ?thesis by simp
qed

text \<open>
  Of two categories that are named \<^verbatim>\<open>U1\<close> and \<^verbatim>\<open>U01\<close> only the first is shown, since their names count as the same number and \<^verbatim>\<open>BlockComparator\<close> compares the
  identifiers only for equal names.
\<close>

lemma equivalent_name_not_shown:
  "map_sum id mUnallocated (exampleBlocks ''U1'' ''U01'' (PoolSystem (newPoolDrawSystem False))) = Inr [(1, ELIMINATION)]"
  by code_simp

text \<open>A category that gets a name in another place of the order makes the elements of the \<^verbatim>\<open>std::set\<close> unordered before \<^verbatim>\<open>changeCategories\<close> searches it.\<close>

lemma renaming_breaks_order:
  "map_sum id mUnallocated (bindE (exampleBlocks ''A'' ''B'' (PoolSystem (newPoolDrawSystem False)))
     (blocks_changeCategories exampleQt (exampleCategories ''C'' ''B'' (PoolSystem (newPoolDrawSystem False))) [1])) = Inl UndefinedBehaviour"
  by code_simp

end
