(* ===== verification/Score_Operator.thy ===== *)
theory Score_Operator
  imports Match_Correctness Draw_Updates
begin

section \<open>The scoreboard of the score operator\<close>

text \<open>
  Models \<^verbatim>\<open>src/ui/widgets/score_operator_widget.cpp\<close> and \<^verbatim>\<open>score_display_widget.cpp\<close>: which action a click on the scoreboard dispatches, what the timer
  of the operator does to a running match, and what the display shows. Where the fields of the scoreboard are is up to the painter; a click is
  modelled by the field it hits. A dispatched action is executed on the tournament at once, as \<open>Store_Manager\<close> has it; of the dispatch only
  this effect is modelled here. References to the category and the match stay valid while handlers run: the handlers look the match up again.
\<close>

subsection \<open>Clicks\<close>

datatype MouseButton = LeftButton | RightButton | OtherButton

datatype ScoreboardField =
    DurationRect
  | OsaekomiRect PlayerIndex
  | IpponRect PlayerIndex
  | WazariRect PlayerIndex
  | ShidoRect PlayerIndex
  | HansokuRect PlayerIndex

text \<open>The match that is operated on, when it can be: the common start of the handlers.\<close>

definition operator_getParams :: "CombinedId option \<Rightarrow> TournamentStore \<Rightarrow> (CategoryStore \<times> MatchStore) option result" where
  "operator_getParams combinedId t =
     (case combinedId of
        None \<Rightarrow> Inr None
      | Some i \<Rightarrow> bindE (findMatch i t) (\<lambda>found.
          case found of
            None \<Rightarrow> Inr None
          | Some (category, match) \<Rightarrow>
              (case (getWhitePlayer match, getBluePlayer match) of
                 (Some white, Some blue) \<Rightarrow>
                   bindE (tournament_getPlayer white t) (\<lambda>_. bindE (tournament_getPlayer blue t) (\<lambda>_. Inr (Some (category, match))))
               | _ \<Rightarrow> Inr None)))"

text \<open>The handlers of the fields: the action that is dispatched, if any.\<close>

definition durationClick :: "Ruleset \<Rightarrow> MatchStore \<Rightarrow> int \<Rightarrow> MatchCommand option" where
  "durationClick r m masterTime =
     (if getStatus m = UNPAUSED then (if \<not> canPause r m masterTime then None else Some PauseMatch)
      else if \<not> canResume r m masterTime then None else Some ResumeMatch)"

definition osaekomiClick :: "Ruleset \<Rightarrow> MatchStore \<Rightarrow> int \<Rightarrow> PlayerIndex \<Rightarrow> MatchCommand option" where
  "osaekomiClick r m masterTime p =
     (if getOsaekomi m = None \<or> fst (the (getOsaekomi m)) \<noteq> p
      then (if \<not> canStartOsaekomi r m p then None else Some (StartOsaekomi p))
      else if \<not> canStopOsaekomi r m masterTime then None else Some StopOsaekomi)"

definition operator_awardIppon :: "Ruleset \<Rightarrow> MatchStore \<Rightarrow> PlayerIndex \<Rightarrow> MatchCommand option" where
  "operator_awardIppon r m p = (if \<not> canAwardIppon r m p then None else Some (AwardIppon p False))"

definition operator_awardWazari :: "Ruleset \<Rightarrow> MatchStore \<Rightarrow> PlayerIndex \<Rightarrow> MatchCommand option" where
  "operator_awardWazari r m p = (if \<not> canAwardWazari r m p then None else Some (AwardWazari p False))"

definition operator_awardShido :: "Ruleset \<Rightarrow> MatchStore \<Rightarrow> PlayerIndex \<Rightarrow> MatchCommand option" where
  "operator_awardShido r m p = (if \<not> canAwardShido r m p then None else Some (AwardShido p))"

text \<open>\<open>reply\<close> is the answer to the question whether a direct hansoku-make is meant; no events are handled before it is given.\<close>

definition operator_awardHansokuMake :: "bool \<Rightarrow> Ruleset \<Rightarrow> MatchStore \<Rightarrow> PlayerIndex \<Rightarrow> MatchCommand option" where
  "operator_awardHansokuMake reply r m p = (if \<not> canAwardHansokuMake r m p then None else if \<not> reply then None else Some (AwardHansokuMake p))"

definition operator_cancelIppon :: "Ruleset \<Rightarrow> MatchStore \<Rightarrow> PlayerIndex \<Rightarrow> MatchCommand option" where
  "operator_cancelIppon r m p = (if \<not> canCancelIppon r m p then None else Some (CancelIppon p))"

definition operator_cancelWazari :: "Ruleset \<Rightarrow> MatchStore \<Rightarrow> PlayerIndex \<Rightarrow> MatchCommand option" where
  "operator_cancelWazari r m p = (if \<not> canCancelWazari r m p then None else Some (CancelWazari p))"

definition operator_cancelShido :: "Ruleset \<Rightarrow> MatchStore \<Rightarrow> PlayerIndex \<Rightarrow> MatchCommand option" where
  "operator_cancelShido r m p = (if \<not> canCancelShido r m p then None else Some (CancelShido p))"

definition operator_cancelHansokuMake :: "Ruleset \<Rightarrow> MatchStore \<Rightarrow> PlayerIndex \<Rightarrow> MatchCommand option" where
  "operator_cancelHansokuMake r m p = (if \<not> canCancelHansokuMake r m p then None else Some (CancelHansokuMake p))"

definition clickedField :: "bool \<Rightarrow> bool \<Rightarrow> Ruleset \<Rightarrow> MatchStore \<Rightarrow> int \<Rightarrow> ScoreboardField \<Rightarrow> MatchCommand option" where
  "clickedField cancelModifier reply r m masterTime field =
     (case field of
        DurationRect \<Rightarrow> durationClick r m masterTime
      | OsaekomiRect p \<Rightarrow> osaekomiClick r m masterTime p
      | IpponRect p \<Rightarrow> if \<not> cancelModifier then operator_awardIppon r m p else operator_cancelIppon r m p
      | WazariRect p \<Rightarrow> if \<not> cancelModifier then operator_awardWazari r m p else operator_cancelWazari r m p
      | ShidoRect p \<Rightarrow> if \<not> cancelModifier then operator_awardShido r m p else operator_cancelShido r m p
      | HansokuRect p \<Rightarrow> if \<not> cancelModifier then operator_awardHansokuMake reply r m p else operator_cancelHansokuMake r m p)"

text \<open>The action that a handler dispatches: the match it names and what it does.\<close>

definition mouseReleaseEvent ::
  "MouseButton \<Rightarrow> bool \<Rightarrow> ScoreboardField option \<Rightarrow> bool \<Rightarrow> int \<Rightarrow> CombinedId option \<Rightarrow> TournamentStore \<Rightarrow> (CombinedId \<times> MatchCommand) option result" where
  "mouseReleaseEvent button shift field reply masterTime combinedId t =
     (if button \<noteq> LeftButton \<and> button \<noteq> RightButton then Inr None
      else bindE (operator_getParams combinedId t) (\<lambda>params.
        case (params, field) of
          (Some (category, match), Some f) \<Rightarrow>
            Inr (map_option (Pair (mCombinedId match)) (clickedField (shift \<or> button = RightButton) reply (mRuleset category) match masterTime f))
        | _ \<Rightarrow> Inr None))"

definition durationShortcut :: "int \<Rightarrow> CombinedId option \<Rightarrow> TournamentStore \<Rightarrow> (CombinedId \<times> MatchCommand) option result" where
  "durationShortcut masterTime combinedId t = bindE (operator_getParams combinedId t) (\<lambda>params.
     case params of
       None \<Rightarrow> Inr None
     | Some (category, match) \<Rightarrow> Inr (map_option (Pair (mCombinedId match)) (durationClick (mRuleset category) match masterTime)))"

text \<open>\<^verbatim>\<open>whiteOsaekomiShortcut\<close> and \<^verbatim>\<open>blueOsaekomiShortcut\<close>.\<close>

definition osaekomiShortcut :: "PlayerIndex \<Rightarrow> int \<Rightarrow> CombinedId option \<Rightarrow> TournamentStore \<Rightarrow> (CombinedId \<times> MatchCommand) option result" where
  "osaekomiShortcut p masterTime combinedId t = bindE (operator_getParams combinedId t) (\<lambda>params.
     case params of
       None \<Rightarrow> Inr None
     | Some (category, match) \<Rightarrow> Inr (map_option (Pair (mCombinedId match)) (osaekomiClick (mRuleset category) match masterTime p)))"

subsection \<open>The timer\<close>

text \<open>The effect of dispatching a command, and the player of the osaekomi; without one the pointer is null.\<close>

definition dispatchCommand :: "MatchCommand \<Rightarrow> CombinedId \<Rightarrow> int \<Rightarrow> TournamentStore \<Rightarrow> TournamentStore result" where
  "dispatchCommand c i masterTime t = bindE (matchCommand_redo c i masterTime t) (\<lambda>(u, t'). Inr t')"

definition osaekomiPlayer :: "MatchStore \<Rightarrow> PlayerIndex result" where
  "osaekomiPlayer m = (case getOsaekomi m of None \<Rightarrow> Inl UndefinedBehaviour | Some (p, _) \<Rightarrow> Inr p)"

text \<open>The four statements of \<^verbatim>\<open>pausingTimerHit\<close>, each a condition on the match and the command for it.\<close>

definition osaekomiWazariDue :: "int \<Rightarrow> Ruleset \<Rightarrow> MatchStore \<Rightarrow> MatchCommand option result" where
  "osaekomiWazariDue masterTime r m = bindE (shouldAwardOsaekomiWazari r m masterTime) (\<lambda>due.
     if due then bindE (osaekomiPlayer m) (\<lambda>p. Inr (Some (AwardWazari p True))) else Inr None)"

definition osaekomiIpponDue :: "int \<Rightarrow> Ruleset \<Rightarrow> MatchStore \<Rightarrow> MatchCommand option result" where
  "osaekomiIpponDue masterTime r m = bindE (shouldAwardOsaekomiIppon r m masterTime) (\<lambda>due.
     if due then bindE (osaekomiPlayer m) (\<lambda>p. Inr (Some (AwardIppon p True))) else Inr None)"

definition stopOsaekomiDue :: "int \<Rightarrow> Ruleset \<Rightarrow> MatchStore \<Rightarrow> MatchCommand option result" where
  "stopOsaekomiDue masterTime r m = Inr (if shouldStopOsaekomi r m masterTime then Some StopOsaekomi else None)"

definition pauseDue :: "int \<Rightarrow> Ruleset \<Rightarrow> MatchStore \<Rightarrow> MatchCommand option result" where
  "pauseDue masterTime r m = Inr (if shouldPause r m masterTime then Some PauseMatch else None)"

definition timerChecks :: "int \<Rightarrow> (Ruleset \<Rightarrow> MatchStore \<Rightarrow> MatchCommand option result) list" where
  "timerChecks masterTime = [osaekomiWazariDue masterTime, osaekomiIpponDue masterTime, stopOsaekomiDue masterTime, pauseDue masterTime]"

definition timerCheck ::
  "CombinedId \<Rightarrow> int \<Rightarrow> (Ruleset \<Rightarrow> MatchStore \<Rightarrow> MatchCommand option result) \<Rightarrow> TournamentStore \<Rightarrow> TournamentStore result" where
  "timerCheck i masterTime check t =
     bindE (getCategory (getCategoryId i) t) (\<lambda>category.
     bindE (getMatch (getMatchId i) category) (\<lambda>match.
     bindE (check (mRuleset category) match) (\<lambda>command.
       case command of None \<Rightarrow> Inr t | Some c \<Rightarrow> dispatchCommand c i masterTime t)))"

definition pausingTimerHit :: "int \<Rightarrow> CombinedId option \<Rightarrow> TournamentStore \<Rightarrow> TournamentStore result" where
  "pausingTimerHit masterTime combinedId t = bindE (operator_getParams combinedId t) (\<lambda>params.
     case params of
       None \<Rightarrow> Inr t
     | Some (category, match) \<Rightarrow> foldE (timerCheck (mCombinedId match) masterTime) (timerChecks masterTime) t)"

subsection \<open>The display\<close>

datatype ScoreDisplayState = INTRODUCTION | DISPLAY_NORMAL | DISPLAY_WINNER

record ScoreDisplay =
  mDisplayMatch :: "CombinedId option"
  mDisplayState :: ScoreDisplayState
  mIntroTimer :: bool \<comment> \<open>the timer is running\<close>
  mWinnerTimer :: bool

definition newScoreDisplay :: ScoreDisplay where
  "newScoreDisplay = \<lparr>mDisplayMatch = None, mDisplayState = INTRODUCTION, mIntroTimer = False, mWinnerTimer = False\<rparr>"

definition display_setMatch :: "CombinedId option \<Rightarrow> bool \<Rightarrow> ScoreDisplay \<Rightarrow> ScoreDisplay" where
  "display_setMatch combinedId showIntro d =
     (if showIntro then d\<lparr>mDisplayMatch := combinedId, mDisplayState := INTRODUCTION, mIntroTimer := True\<rparr>
      else d\<lparr>mDisplayMatch := combinedId, mDisplayState := DISPLAY_NORMAL\<rparr>)"

definition display_setState :: "ScoreDisplayState \<Rightarrow> ScoreDisplay \<Rightarrow> ScoreDisplay" where
  "display_setState s d = d\<lparr>mDisplayState := s\<rparr>"

definition display_changeMatches :: "CategoryId \<Rightarrow> MatchId list \<Rightarrow> ScoreDisplay \<Rightarrow> ScoreDisplay" where
  "display_changeMatches categoryId matchIds d =
     (case mDisplayMatch d of
        None \<Rightarrow> d
      | Some i \<Rightarrow>
          if getCategoryId i \<noteq> categoryId \<or> getMatchId i \<notin> set matchIds then d
          else if mDisplayState d = INTRODUCTION then d\<lparr>mDisplayState := DISPLAY_NORMAL\<rparr> else d)"

text \<open>The timers are single-shot: when one fires it stops.\<close>

definition introTimer_timeout :: "ScoreDisplay \<Rightarrow> ScoreDisplay" where
  "introTimer_timeout d = display_setState DISPLAY_NORMAL (d\<lparr>mIntroTimer := False\<rparr>)"

definition winnerTimer_timeout :: "ScoreDisplay \<Rightarrow> ScoreDisplay" where
  "winnerTimer_timeout d = display_setState DISPLAY_WINNER (d\<lparr>mWinnerTimer := False\<rparr>)"

inductive display_reachable :: "ScoreDisplay \<Rightarrow> bool" where
  new: "display_reachable newScoreDisplay"
| match: "display_reachable d \<Longrightarrow> display_reachable (display_setMatch i intro d)"
| changed: "display_reachable d \<Longrightarrow> display_reachable (display_changeMatches c ids d)"
| introduced: "display_reachable d \<Longrightarrow> mIntroTimer d \<Longrightarrow> display_reachable (introTimer_timeout d)"
| winner: "display_reachable d \<Longrightarrow> mWinnerTimer d \<Longrightarrow> display_reachable (winnerTimer_timeout d)"

text \<open>The winner of a match is never shown: nothing starts the timer that shows it. An introduction ends by itself.\<close>

lemma winner_never_shown: "display_reachable d \<Longrightarrow> mDisplayState d \<noteq> DISPLAY_WINNER \<and> \<not> mWinnerTimer d"
  by (induction rule: display_reachable.induct)
    (auto simp: newScoreDisplay_def display_setMatch_def display_changeMatches_def introTimer_timeout_def display_setState_def split: option.split)

lemma introduction_ends: "display_reachable d \<Longrightarrow> mDisplayMatch d \<noteq> None \<Longrightarrow> mDisplayState d = INTRODUCTION \<Longrightarrow> mIntroTimer d"
  by (induction rule: display_reachable.induct)
    (auto simp: newScoreDisplay_def display_setMatch_def display_changeMatches_def introTimer_timeout_def winnerTimer_timeout_def
      display_setState_def split: option.splits if_splits)

subsection \<open>What clicks can do\<close>

text \<open>
  The commands that the operator may give by hand: those that the ruleset allows, without the awards of an osaekomi, which the timer gives, and
  without a second start of the osaekomi of the same player.
\<close>

definition byHand :: "MatchStore \<Rightarrow> MatchCommand \<Rightarrow> bool" where
  "byHand m c = (case c of
     AwardIppon p osae \<Rightarrow> \<not> osae
   | AwardWazari p osae \<Rightarrow> \<not> osae
   | StartOsaekomi p \<Rightarrow> (case getOsaekomi m of None \<Rightarrow> True | Some (q, _) \<Rightarrow> q \<noteq> p)
   | _ \<Rightarrow> True)"

text \<open>The field and the modifier for a command.\<close>

fun fieldFor :: "MatchStore \<Rightarrow> MatchCommand \<Rightarrow> bool \<times> ScoreboardField" where
  "fieldFor m (AwardIppon p osae) = (False, IpponRect p)"
| "fieldFor m (AwardWazari p osae) = (False, WazariRect p)"
| "fieldFor m (AwardShido p) = (False, ShidoRect p)"
| "fieldFor m (AwardHansokuMake p) = (False, HansokuRect p)"
| "fieldFor m (CancelIppon p) = (True, IpponRect p)"
| "fieldFor m (CancelWazari p) = (True, WazariRect p)"
| "fieldFor m (CancelShido p) = (True, ShidoRect p)"
| "fieldFor m (CancelHansokuMake p) = (True, HansokuRect p)"
| "fieldFor m PauseMatch = (False, DurationRect)"
| "fieldFor m ResumeMatch = (False, DurationRect)"
| "fieldFor m (StartOsaekomi p) = (False, OsaekomiRect p)"
| "fieldFor m StopOsaekomi = (False, OsaekomiRect (fst (the (getOsaekomi m))))"

lemmas operator_defs = durationClick_def osaekomiClick_def operator_awardIppon_def operator_awardWazari_def operator_awardShido_def
  operator_awardHansokuMake_def operator_cancelIppon_def operator_cancelWazari_def operator_cancelShido_def operator_cancelHansokuMake_def

lemma clickedField_enabled:
  "clickedField cancel reply r m time f = Some c \<Longrightarrow> commandGuard r c time m \<and> byHand m c"
  by (cases f) (auto simp: clickedField_def operator_defs byHand_def split: if_splits option.splits)

lemma fieldFor_clicked:
  "commandGuard r c time m \<Longrightarrow> byHand m c \<Longrightarrow> clickedField (fst (fieldFor m c)) True r m time (snd (fieldFor m c)) = Some c"
  by (cases c) (auto simp: clickedField_def operator_defs byHand_def canPause_def canResume_def canStopOsaekomi_def split: if_splits option.splits)

text \<open>
  C20. On the scoreboard of a match with both players the operator can give exactly the commands that the ruleset allows (and that are
  given by hand): every click that dispatches an action has its guard satisfied, so that it is not ignored and no assertion of the ruleset
  is violated, and for every such command there is a click that dispatches it for the match shown.
\<close>
theorem clicks_give_allowed_commands:
  assumes "operator_getParams (Some i) t = Inr (Some (category, m))"
  shows "(\<exists>button shift field reply. mouseReleaseEvent button shift field reply time (Some i) t = Inr (Some (mCombinedId m, c))) \<longleftrightarrow>
    commandGuard (mRuleset category) c time m \<and> byHand m c"
proof
  assume "\<exists>button shift field reply. mouseReleaseEvent button shift field reply time (Some i) t = Inr (Some (mCombinedId m, c))"
  then show "commandGuard (mRuleset category) c time m \<and> byHand m c"
    using assms by (auto simp: mouseReleaseEvent_def dest!: clickedField_enabled split: if_splits option.splits)
next
  assume "commandGuard (mRuleset category) c time m \<and> byHand m c"
  then have "mouseReleaseEvent LeftButton (fst (fieldFor m c)) (Some (snd (fieldFor m c))) True time (Some i) t = Inr (Some (mCombinedId m, c))"
    using assms fieldFor_clicked[of "mRuleset category" c time m] by (simp add: mouseReleaseEvent_def)
  then show "\<exists>button shift field reply. mouseReleaseEvent button shift field reply time (Some i) t = Inr (Some (mCombinedId m, c))" by blast
qed

subsection \<open>What the timer does to a match\<close>

text \<open>The effect of the timer on the match alone: \<open>perform\<close> is the part of an action that concerns the match.\<close>

definition perform :: "Ruleset \<Rightarrow> int \<Rightarrow> MatchCommand \<Rightarrow> MatchStore \<Rightarrow> MatchStore result" where
  "perform r time c m = (if commandGuard r c time m then commandBody r c time m else Inr m)"

definition matchCheck :: "Ruleset \<Rightarrow> int \<Rightarrow> (Ruleset \<Rightarrow> MatchStore \<Rightarrow> MatchCommand option result) \<Rightarrow> MatchStore \<Rightarrow> MatchStore result" where
  "matchCheck r time check m = bindE (check r m) (\<lambda>command. case command of None \<Rightarrow> Inr m | Some c \<Rightarrow> perform r time c m)"

definition tick :: "Ruleset \<Rightarrow> int \<Rightarrow> MatchStore \<Rightarrow> MatchStore result" where
  "tick r time m = foldE (matchCheck r time) (timerChecks time) m"

text \<open>Something is due: a score of the osaekomi, its end, or the end of the regular time.\<close>

definition overdue :: "Ruleset \<Rightarrow> int \<Rightarrow> MatchStore \<Rightarrow> bool" where
  "overdue r time m \<longleftrightarrow> (\<exists>check \<in> set (timerChecks time). check r m \<noteq> Inr None)"

definition held :: "int \<Rightarrow> MatchStore \<Rightarrow> int" where
  "held time m = (case getOsaekomi m of None \<Rightarrow> 0 | Some (p, start) \<Rightarrow> time - start)"

definition anyIppon :: "MatchStore \<Rightarrow> bool" where
  "anyIppon m \<longleftrightarrow> ippon (getWhiteScore m) \<or> ippon (getBlueScore m)"

lemma due_simps:
  "osaekomiWazariDue time r m = Inr (if 10000 < held time m \<and> \<not> isOsaekomiWazari m then Some (AwardWazari (fst (the (getOsaekomi m))) True) else None)"
  "osaekomiIpponDue time r m = Inr (if 20000 < held time m then Some (AwardIppon (fst (the (getOsaekomi m))) True) else None)"
  "stopOsaekomiDue time r m = Inr (if getOsaekomi m \<noteq> None \<and> anyIppon m then Some StopOsaekomi else None)"
  "pauseDue time r m = Inr (if shouldPause r m time then Some PauseMatch else None)"
  by (cases "getOsaekomi m"; force simp: osaekomiWazariDue_def osaekomiIpponDue_def stopOsaekomiDue_def pauseDue_def held_def anyIppon_def
      shouldAwardOsaekomiWazari_def shouldAwardOsaekomiIppon_def shouldStopOsaekomi_def getOsaekomiWazariTime_def getOsaekomiIpponTime_def
      currentOsaekomiTime_def getOsaekomi_def osaekomiPlayer_def)+

lemma overdue_iff:
  "overdue r time m \<longleftrightarrow> 10000 < held time m \<and> \<not> isOsaekomiWazari m \<or> 20000 < held time m \<or> getOsaekomi m \<noteq> None \<and> anyIppon m \<or> shouldPause r m time"
  by (auto simp: overdue_def timerChecks_def due_simps)

text \<open>The clock and the log leave the osaekomi and the scores alone.\<close>

definition sameBoard :: "MatchStore \<Rightarrow> MatchStore \<Rightarrow> bool" where
  "sameBoard m m' \<longleftrightarrow> scores (mState m') = scores (mState m) \<and> osaekomi (mState m') = osaekomi (mState m) \<and> osaekomiWazari (mState m') = osaekomiWazari (mState m)"

lemma pause_sameBoard: "pause r m time = Inr m' \<Longrightarrow> sameBoard m m' \<and> getStatus m' \<noteq> UNPAUSED"
  by (erule pause_InrE) (auto simp: sameBoard_def store_simps)

lemma logAndPause_sameBoard: "logAndPause r ty p time m = Inr m' \<Longrightarrow> sameBoard m m'"
  by (auto simp: logAndPause_def pauseIfNeeded_def sameBoard_def store_simps dest!: pause_sameBoard split: if_splits)

lemma awardWazari_board:
  assumes "AwardWazariAction_body r p True time m = Inr m'"
  shows "osaekomi (mState m') = osaekomi (mState m) \<and> osaekomiWazari (mState m')"
  using assms by (auto simp: AwardWazariAction_body_def awardWazari_def sameBoard_def store_simps dest!: logAndPause_sameBoard)

lemma awardIppon_board:
  assumes "AwardIpponAction_body r p True time m = Inr m'"
  shows "osaekomi (mState m') = osaekomi (mState m) \<and> anyIppon m'"
  using assms
  by (cases p) (auto simp: AwardIpponAction_body_def awardIppon_def cancelWazari_def sameBoard_def anyIppon_def store_simps
      dest!: logAndPause_sameBoard split: if_splits)

lemma stopOsaekomi_board: "StopOsaekomiAction_body r time m = Inr m' \<Longrightarrow> osaekomi (mState m') = None"
  by (auto simp: StopOsaekomiAction_body_def stopOsaekomi_def pauseIfNeeded_def sameBoard_def store_simps Let_def dest!: pause_sameBoard split: if_splits)

text \<open>What each command of the timer leaves on the board.\<close>

lemma perform_wazari:
  "\<exists>m'. perform r time (AwardWazari p True) m = Inr m' \<and> getOsaekomi m' = getOsaekomi m \<and> (anyIppon m \<and> m' = m \<or> isOsaekomiWazari m')"
proof (cases "commandGuard r (AwardWazari p True) time m")
  case True
  then obtain m' where "AwardWazariAction_body r p True time m = Inr m'"
    using logAndPause_total[of r WAZARI_OSAEKOMI p time] by (auto simp: AwardWazariAction_body_def awardWazari_def)
  with True awardWazari_board[OF this] show ?thesis by (simp add: perform_def store_simps)
next
  case False
  then have "isOsaekomiWazari m \<or> anyIppon m" by (cases p) (auto simp: canAwardWazari_def anyIppon_def store_simps)
  with False show ?thesis by (auto simp: perform_def)
qed

lemma perform_ippon: "\<exists>m'. perform r time (AwardIppon p True) m = Inr m' \<and> getOsaekomi m' = getOsaekomi m \<and> anyIppon m'"
proof (cases "canAwardIppon r m p")
  case True
  have "\<exists>m1. (if isOsaekomiWazari m \<and> canCancelWazari r m p then cancelWazari r m p time else Inr m) = Inr m1 \<and> canAwardIppon r m1 p"
    using True canAwardIppon_after_cancelWazari[of r m p time] by (auto simp: cancelWazari_def)
  then obtain m' where "AwardIpponAction_body r p True time m = Inr m'"
    using logAndPause_total by (fastforce simp: AwardIpponAction_body_def awardIppon_def)
  with True awardIppon_board[OF this] show ?thesis by (simp add: perform_def store_simps)
next
  case False
  then have "anyIppon m" by (cases p) (auto simp: canAwardIppon_def anyIppon_def store_simps)
  with False show ?thesis by (simp add: perform_def)
qed

lemma perform_stop: "\<exists>m'. perform r time StopOsaekomi m = Inr m' \<and> getOsaekomi m' = None"
  using pauseIfNeeded_total[of r time "stopOsaekomi r m time"] stopOsaekomi_board[of r time m]
  by (cases "getOsaekomi m") (auto simp: perform_def StopOsaekomiAction_body_def canStopOsaekomi_def store_simps)

lemma perform_pause: "\<exists>m'. perform r time PauseMatch m = Inr m' \<and> sameBoard m m' \<and> getStatus m' \<noteq> UNPAUSED"
proof (cases "canPause r m time")
  case True
  then obtain m' where "pause r m time = Inr m'" by (simp add: pause_def)
  with True pause_sameBoard[OF this] show ?thesis by (simp add: perform_def)
qed (simp add: perform_def canPause_def sameBoard_def)

lemma perform_reachable: "match_reachable r m \<Longrightarrow> perform r time c m = Inr m' \<Longrightarrow> match_reachable r m'"
  by (auto simp: perform_def intro: match_reachable_step match_step.command split: if_splits)

lemma matchCheck_reachable: "match_reachable r m \<Longrightarrow> matchCheck r time check m = Inr m' \<Longrightarrow> match_reachable r m'"
  by (auto simp: matchCheck_def intro: perform_reachable elim!: bindE_Inr_E split: option.splits)

lemma tick_reachable: "match_reachable r m \<Longrightarrow> tick r time m = Inr m' \<Longrightarrow> match_reachable r m'"
  unfolding tick_def timerChecks_def by (auto, meson matchCheck_reachable)

lemma tick_settles: "\<exists>m'. tick r time m = Inr m' \<and> \<not> overdue r time m'"
proof -
  have "\<exists>m1. matchCheck r time (osaekomiWazariDue time) m = Inr m1 \<and> getOsaekomi m1 = getOsaekomi m \<and>
      (10000 < held time m \<longrightarrow> anyIppon m1 \<or> isOsaekomiWazari m1)"
    using perform_wazari[of r time "fst (the (getOsaekomi m))" m]
    by (cases "10000 < held time m \<and> \<not> isOsaekomiWazari m") (auto simp: matchCheck_def due_simps)
  then obtain m1 where m1: "matchCheck r time (osaekomiWazariDue time) m = Inr m1" "getOsaekomi m1 = getOsaekomi m"
    "10000 < held time m \<longrightarrow> anyIppon m1 \<or> isOsaekomiWazari m1" by blast
  have "held time m1 = held time m" using m1(2) by (simp add: held_def)
  then have "\<exists>m2. matchCheck r time (osaekomiIpponDue time) m1 = Inr m2 \<and> getOsaekomi m2 = getOsaekomi m \<and>
      (10000 < held time m \<longrightarrow> anyIppon m2 \<or> isOsaekomiWazari m2) \<and> (20000 < held time m \<longrightarrow> anyIppon m2)"
    using perform_ippon[of r time "fst (the (getOsaekomi m1))" m1] m1(2,3)
    by (cases "20000 < held time m") (auto simp: matchCheck_def due_simps)
  then obtain m2 where m2: "matchCheck r time (osaekomiIpponDue time) m1 = Inr m2" "getOsaekomi m2 = getOsaekomi m"
    "10000 < held time m \<longrightarrow> anyIppon m2 \<or> isOsaekomiWazari m2" "20000 < held time m \<longrightarrow> anyIppon m2" by blast
  have "\<exists>m3. matchCheck r time (stopOsaekomiDue time) m2 = Inr m3 \<and> (getOsaekomi m3 = None \<or> m3 = m2 \<and> \<not> anyIppon m2)"
    using perform_stop[of r time m2] by (cases "getOsaekomi m2 \<noteq> None \<and> anyIppon m2") (auto simp: matchCheck_def due_simps)
  then obtain m3 where m3: "matchCheck r time (stopOsaekomiDue time) m2 = Inr m3" "getOsaekomi m3 = None \<or> m3 = m2 \<and> \<not> anyIppon m2" by blast
  have "\<exists>m4. matchCheck r time (pauseDue time) m3 = Inr m4 \<and> sameBoard m3 m4 \<and> \<not> shouldPause r m4 time"
    using perform_pause[of r time m3] by (cases "shouldPause r m3 time") (auto simp: matchCheck_def due_simps shouldPause_def sameBoard_def)
  then obtain m4 where m4: "matchCheck r time (pauseDue time) m3 = Inr m4" "sameBoard m3 m4" "\<not> shouldPause r m4 time" by blast
  have board: "getOsaekomi m4 = getOsaekomi m3" "isOsaekomiWazari m4 = isOsaekomiWazari m3" "anyIppon m4 = anyIppon m3"
    using m4(2) by (simp_all add: sameBoard_def anyIppon_def store_simps)
  have "held time m2 = held time m" using m2(2) by (simp add: held_def)
  then have "\<not> overdue r time m4" using m2(3,4) m3(2) m4(3) board by (auto simp: overdue_iff held_def)
  with m1(1) m2(1) m3(1) m4(1) show ?thesis by (simp add: tick_def timerChecks_def)
qed

subsection \<open>The timer on a tournament\<close>

text \<open>
  A match of a pool and its ruleset. In a pool no other match follows from the matches, so that an action changes one match only. The
  counters of the category count the match, and the block of the match, if it is on a tatami, is in a group that exists.
\<close>

definition counted :: "MatchStatus \<Rightarrow> CategoryStatus \<Rightarrow> nat" where
  "counted st x = (case st of NOT_STARTED \<Rightarrow> notStartedMatches x | FINISHED \<Rightarrow> finishedMatches x | _ \<Rightarrow> startedMatches x)"

definition located :: "TatamiList \<Rightarrow> BlockLocation option \<Rightarrow> bool" where
  "located l loc = (case loc of None \<Rightarrow> True | Some x \<Rightarrow> (case list_atConcurrent (concurrentGroup (sequentialGroup x)) l of Inr g \<Rightarrow> True | Inl e \<Rightarrow> False))"

definition poolMatch :: "TournamentStore \<Rightarrow> CombinedId \<Rightarrow> Ruleset \<Rightarrow> MatchStore \<Rightarrow> bool" where
  "poolMatch t i r m \<longleftrightarrow> (\<exists>c s. mCategories t (getCategoryId i) = Some c \<and> mDrawSystem c = PoolSystem s \<and> mRuleset c = r \<and>
     draw_wf (getCategoryId i) c \<and> getMatch (getMatchId i) c = Inr m \<and>
     0 < counted (getStatus m) (category_getStatus c (mType m)) \<and> located (mTatamiList t) (category_getLocation c (mType m)))"

lemma poolMatch_found: "poolMatch t i r m \<Longrightarrow> \<exists>c s. findMatch i t = Inr (Some (c, m)) \<and> mRuleset c = r \<and> mDrawSystem c = PoolSystem s \<and>
    mCategories t (getCategoryId i) = Some c \<and> draw_wf (getCategoryId i) c \<and> getMatch (getMatchId i) c = Inr m \<and> mCombinedId m = i \<and>
    0 < counted (getStatus m) (category_getStatus c (mType m)) \<and> located (mTatamiList t) (category_getLocation c (mType m))"
proof -
  assume "poolMatch t i r m"
  then obtain c s where c: "mCategories t (getCategoryId i) = Some c" "mDrawSystem c = PoolSystem s" "mRuleset c = r" "draw_wf (getCategoryId i) c"
    "getMatch (getMatchId i) c = Inr m" "0 < counted (getStatus m) (category_getStatus c (mType m))"
    "located (mTatamiList t) (category_getLocation c (mType m))" unfolding poolMatch_def by blast
  have inv: "matches_inv c" using c(4) by (simp add: draw_wf_def)
  have m: "m \<in> set (mMatches c)" "match_getId m = getMatchId i" using c(5) getMatch_eq_Inr[OF inv] by blast+
  then have "mCombinedId m = i" using c(4) by (cases i; cases "mCombinedId m") (auto simp: draw_wf_def match_getId_def)
  moreover have "findMatch i t = Inr (Some (c, m))"
    using c by (cases "mMatchMap c (getMatchId i)") (simp_all add: findMatch_def containsCategory_def containsMatch_def getMatch_def getCategory_def
      categories_get_def nthE_def)
  ultimately show ?thesis using c by blast
qed

lemma moveStatus_counted:
  assumes "0 < counted prev (category_getStatus c ty)"
  shows "\<exists>x. moveStatus ty prev st c = Inr (c\<lparr>mStatus := x\<rparr>) \<and> 0 < counted st (x ty)"
proof -
  obtain y where "decrStatus prev (category_getStatus c ty) = Inr y"
    using assms by (cases prev) (simp_all add: decrStatus_def counted_def)
  moreover have "0 < counted st (incrStatus st y)" by (cases st) (simp_all add: incrStatus_def counted_def)
  ultimately show ?thesis
    by (auto simp: moveStatus_def category_setStatus_def intro!: exI[of _ "(mStatus c)(ty := incrStatus st y)"])
qed

lemma updateConcurrent_located:
  assumes "list_atConcurrent loc l = Inr g"
  shows "\<exists>l'. updateConcurrent loc (\<lambda>g. Inr (f g)) l = Inr l' \<and> list_atConcurrent loc l' = Inr (f g)"
proof -
  from assms obtain ta where "pm_at (tatami_handle (loc_tatami loc)) (mTatamis l) = Inr ta"
    "pm_at (concurrent_handle loc) (mConcurrentGroups ta) = Inr g"
    by (auto simp: list_atConcurrent_def list_at_def tatami_at_def simp del: pm_at_eq_Inr)
  then show ?thesis
    by (simp add: updateConcurrent_def updateTatami_def list_atConcurrent_def list_at_def tatami_at_def list_put_def tatami_put_def pm_put_def pm_at_def
        del: pm_at_eq_Inr split: option.splits)
qed

lemma updateTatamiStatus_located:
  assumes "located (mTatamiList t) loc"
  shows "\<exists>l. updateTatamiStatus m loc t = Inr (t\<lparr>mTatamiList := l\<rparr>) \<and> located l loc"
proof (cases loc)
  case None
  then show ?thesis by (auto simp: updateTatamiStatus_def located_def intro: exI[of _ "mTatamiList t"])
next
  case (Some x)
  with assms obtain g where "list_atConcurrent (concurrentGroup (sequentialGroup x)) (mTatamiList t) = Inr g"
    by (auto simp: located_def split: sum.splits)
  from updateConcurrent_located[OF this, of "concurrent_updateStatus m"] Some show ?thesis
    by (auto simp: updateTatamiStatus_def updateTatamis_def located_def)
qed

text \<open>The counters of the category and the tatami group follow a change of a match that is counted and located; the assertions hold.\<close>

lemma changeCounters_succeeds:
  assumes "mCategories t (getCategoryId (mCombinedId m)) = Some c" and "0 < counted prev (category_getStatus c (mType m))"
    and "located (mTatamiList t) (category_getLocation c (mType m))"
  shows "\<exists>t1 x. changeCounters prev m t = Inr t1 \<and> mCategories t1 (getCategoryId (mCombinedId m)) = Some (c\<lparr>mStatus := x\<rparr>) \<and>
    0 < counted (getStatus m) (x (mType m)) \<and> located (mTatamiList t1) (category_getLocation c (mType m))"
proof (cases "crossesBoundary prev (getStatus m)")
  case True
  obtain x where x: "moveStatus (mType m) prev (getStatus m) c = Inr (c\<lparr>mStatus := x\<rparr>)" "0 < counted (getStatus m) (x (mType m))"
    using moveStatus_counted[OF assms(2)] by blast
  let ?t = "t\<lparr>mCategories := (mCategories t)(getCategoryId (mCombinedId m) \<mapsto> c\<lparr>mStatus := x\<rparr>)\<rparr>"
  obtain l where "updateTatamiStatus m (category_getLocation c (mType m)) ?t = Inr (?t\<lparr>mTatamiList := l\<rparr>)" "located l (category_getLocation c (mType m))"
    using updateTatamiStatus_located[of ?t "category_getLocation c (mType m)" m] assms(3) by auto
  with True x assms(1) show ?thesis
    by (auto simp: changeCounters_def modifyCategory_def putCategory_def containsCategory_def getCategory_def categories_get_def category_getLocation_def)
next
  case False
  then have "counted (getStatus m) (category_getStatus c (mType m)) = counted prev (category_getStatus c (mType m))"
    by (cases prev; cases "getStatus m") (auto simp: crossesBoundary_def counted_def)
  with False assms show ?thesis
    by (auto simp: changeCounters_def category_getStatus_def intro!: exI[of _ "mStatus c"])
qed

lemma dispatch_pool:
  assumes "poolMatch t i r m" and "perform r time c m = Inr m'"
  shows "\<exists>t'. dispatchCommand c i time t = Inr t' \<and> poolMatch t' i r m'"
proof -
  from poolMatch_found[OF assms(1)] obtain cat s where found: "findMatch i t = Inr (Some (cat, m))" "mRuleset cat = r" "mDrawSystem cat = PoolSystem s"
    "mCategories t (getCategoryId i) = Some cat" "draw_wf (getCategoryId i) cat" "getMatch (getMatchId i) cat = Inr m" "mCombinedId m = i"
    "0 < counted (getStatus m) (category_getStatus cat (mType m))" "located (mTatamiList t) (category_getLocation cat (mType m))" by blast
  show ?thesis
  proof (cases "commandGuard r c time m")
    case False
    with assms found(1,2) show ?thesis by (simp add: perform_def dispatchCommand_def matchCommand_redo_eq matchEvent_redo_def)
  next
    case True
    with assms(2) have body: "commandBody r c time m = Inr m'" by (simp add: perform_def)
    have id: "sameIdentity m m'" by (rule commandBody_identity[OF body])
    obtain cat' where cat': "putMatch (getMatchId i) m' cat = Inr cat'"
      using found(6) by (auto simp: getMatch_def putMatch_def nthE_def split: option.splits if_splits)
    let ?t1 = "t\<lparr>mCategories := (mCategories t)(getCategoryId i \<mapsto> cat')\<rparr>"
    have put: "putMatchOf i m' t = Inr ?t1"
      using cat' found(4) by (simp add: putMatchOf_def modifyCategory_def putCategory_def containsCategory_def getCategory_def categories_get_def)
    have wf: "draw_wf (getCategoryId i) cat'" by (rule draw_wf_put[OF found(5,6) cat' id])
    have new: "getMatch (getMatchId i) cat' = Inr m'" "mDrawSystem cat' = PoolSystem s" "mRuleset cat' = r" "mStatus cat' = mStatus cat" "mLocation cat' = mLocation cat"
      using cat' found(2,3) by (auto simp: putMatch_eq_Inr getMatch_def nthE_def)
    have at: "getCategoryId (mCombinedId m') = getCategoryId i" "mType m' = mType m" using id found(7) by (simp_all add: sameIdentity_def)
    obtain t2 x where counters: "changeCounters (getStatus m) m' ?t1 = Inr t2" "mCategories t2 (getCategoryId i) = Some (cat'\<lparr>mStatus := x\<rparr>)"
      "0 < counted (getStatus m') (x (mType m'))" "located (mTatamiList t2) (category_getLocation cat' (mType m'))"
      using changeCounters_succeeds[of ?t1 m' cat' "getStatus m"] at new(4,5) found(8,9)
      by (auto simp: category_getStatus_def category_getLocation_def)
    then have "notify (execDraw notifyDepth) (getStatus m) m' ?t1 = Inr ([], t2)"
      using at new(2) by (simp add: notify_def getCategory_def categories_get_def)
    then have "dispatchCommand c i time t = Inr t2"
      using True body put found(1,2) by (simp add: dispatchCommand_def matchCommand_redo_eq matchEvent_redo_def)
    moreover have "poolMatch t2 i r m'"
      using counters new wf by (auto simp: poolMatch_def category_getStatus_def category_getLocation_def)
    ultimately show ?thesis by blast
  qed
qed

lemma timer_pool:
  assumes "poolMatch t i r m" and "foldE (matchCheck r time) checks m = Inr m'"
  shows "\<exists>t'. foldE (timerCheck i time) checks t = Inr t' \<and> poolMatch t' i r m'"
  using assms
proof (induction checks arbitrary: t m)
  case (Cons check checks)
  from poolMatch_found[OF Cons.prems(1)] obtain cat where cat: "mCategories t (getCategoryId i) = Some cat" "mRuleset cat = r"
    "getMatch (getMatchId i) cat = Inr m" by blast
  from Cons.prems(2) obtain m1 where m1: "matchCheck r time check m = Inr m1" "foldE (matchCheck r time) checks m1 = Inr m'" by auto
  then obtain command where command: "check r m = Inr command" "(case command of None \<Rightarrow> Inr m | Some c \<Rightarrow> perform r time c m) = Inr m1"
    by (auto simp: matchCheck_def)
  have "\<exists>t1. timerCheck i time check t = Inr t1 \<and> poolMatch t1 i r m1"
    using command dispatch_pool[OF Cons.prems(1)] Cons.prems(1) cat
    by (cases command) (auto simp: timerCheck_def getCategory_def categories_get_def)
  then obtain t1 where "timerCheck i time check t = Inr t1" "poolMatch t1 i r m1" by blast
  with Cons.IH[OF this(2) m1(2)] show ?case by auto
qed simp

text \<open>
  C19. The timer of the score operator leaves nothing overdue. A hit of the timer on a reachable match always succeeds and keeps it reachable;
  afterwards an osaekomi has lasted 20 seconds at most, its wazari is awarded after 10 seconds, it has ended if anyone has an ippon, and the match is
  not running when it is decided or the regular time is over. For a category with the pool draw system, whose counters count the match and whose blocks
  are on tatami groups that exist, the handler \<^verbatim>\<open>pausingTimerHit\<close> of the widget succeeds on the whole tournament when the match is shown, does this to the
  match and keeps these conditions.
\<close>
theorem timer_leaves_nothing_overdue:
  assumes "poolMatch t i r m" and "match_reachable r m"
  shows "\<exists>m'. tick r time m = Inr m' \<and> match_reachable r m' \<and> held time m' \<le> 20000 \<and> (10000 < held time m' \<longrightarrow> isOsaekomiWazari m') \<and>
    (getOsaekomi m' \<noteq> None \<longrightarrow> \<not> anyIppon m') \<and> \<not> shouldPause r m' time \<and>
    (\<forall>params. operator_getParams (Some i) t = Inr (Some params) \<longrightarrow> (\<exists>t'. pausingTimerHit time (Some i) t = Inr t' \<and> poolMatch t' i r m'))"
proof -
  obtain m' where m': "tick r time m = Inr m'" "\<not> overdue r time m'" using tick_settles by blast
  obtain t' where t': "foldE (timerCheck i time) (timerChecks time) t = Inr t'" "poolMatch t' i r m'"
    using timer_pool[OF assms(1)] m'(1) unfolding tick_def by blast
  have "pausingTimerHit time (Some i) t = Inr t'" if params: "operator_getParams (Some i) t = Inr (Some params)" for params
  proof -
    obtain cat where "findMatch i t = Inr (Some (cat, m))" and id: "mCombinedId m = i" using poolMatch_found[OF assms(1)] by blast
    with params have "snd params = m" by (auto simp: operator_getParams_def split: option.splits)
    with params id t'(1) show ?thesis by (cases params) (simp add: pausingTimerHit_def)
  qed
  with m' t'(2) tick_reachable[OF assms(2) m'(1)] show ?thesis by (auto simp: overdue_iff)
qed

text \<open>A match of a pool with an osaekomi of white since the time 0, and what the timer does after 25 seconds.\<close>

definition heldMatch :: MatchStore where
  "heldMatch = setStatus UNPAUSED (setResumeTime 0 (setOsaekomiWazari False (setOsaekomi (Some (WHITE, 0)) exampleMatch)))"

definition exampleBoard :: TournamentStore where
  "exampleBoard = (newTournamentStore 0)\<lparr>
     mPlayers := (\<lambda>i. if i = 10 \<or> i = 11 then Some (newPlayerStore i \<lparr>firstName = ''Jigoro'', lastName = ''Kano'', age = None, rank = None,
       club = ''Kodokan'', weight = None, country = None, sex = None, blueJudogiHint = False\<rparr>) else None),
     mCategories := [1 \<mapsto> (newCategoryStore 1 ''U18'' TWENTY_EIGHTEEN (PoolSystem (newPoolDrawSystem False)))
       \<lparr>mMatches := [heldMatch], mMatchMap := [2 \<mapsto> 0], mMatchCount := (\<lambda>ty. countMatches ty [heldMatch]),
        mStatus := (\<lambda>ty. \<lparr>notStartedMatches = 0, startedMatches = 1, finishedMatches = 0\<rparr>)\<rparr>]\<rparr>"

lemma heldMatch_reachable: "match_reachable TWENTY_EIGHTEEN heldMatch"
proof (rule match_reachable_step[OF exampleMatch_reachable match_step.command])
  show "commandGuard TWENTY_EIGHTEEN (StartOsaekomi WHITE) 0 exampleMatch" by code_simp
  show "commandBody TWENTY_EIGHTEEN (StartOsaekomi WHITE) 0 exampleMatch = Inr heldMatch"
    by (simp add: StartOsaekomiAction_body_def startOsaekomi_def canStartOsaekomi_def resume_def canResume_def isFinished_def heldMatch_def
        exampleMatch_def newMatchStore_def newState_def newScore_def store_simps)
qed

lemma heldMatch_id: "mCombinedId heldMatch = CombinedId 1 2"
  by (simp add: heldMatch_def exampleMatch_def newMatchStore_def store_simps)

lemma exampleBoard_match: "poolMatch exampleBoard (CombinedId 1 2) TWENTY_EIGHTEEN heldMatch"
  using heldMatch_id
  by (auto simp: poolMatch_def exampleBoard_def newCategoryStore_def draw_wf_def matches_inv_def match_getId_def getMatch_def nthE_def
      located_def counted_def category_getStatus_def category_getLocation_def heldMatch_def store_simps)

lemma exampleBoard_params:
  "\<exists>category. operator_getParams (Some (CombinedId 1 2)) exampleBoard = Inr (Some (category, heldMatch)) \<and> mRuleset category = TWENTY_EIGHTEEN"
proof -
  have players: "getWhitePlayer heldMatch = Some 10" "getBluePlayer heldMatch = Some 11"
    by (simp_all add: heldMatch_def exampleMatch_def newMatchStore_def store_simps)
  from poolMatch_found[OF exampleBoard_match] players show ?thesis
    by (auto simp: operator_getParams_def tournament_getPlayer_def players_get_def exampleBoard_def)
qed

theorem timer_leaves_nothing_overdue_witness:
  "\<exists>m' t'. tick TWENTY_EIGHTEEN 25000 heldMatch = Inr m' \<and> held 25000 m' \<le> 20000 \<and> \<not> shouldPause TWENTY_EIGHTEEN m' 25000 \<and>
     pausingTimerHit 25000 (Some (CombinedId 1 2)) exampleBoard = Inr t' \<and> poolMatch t' (CombinedId 1 2) TWENTY_EIGHTEEN m'"
  using timer_leaves_nothing_overdue[OF exampleBoard_match heldMatch_reachable, of 25000] exampleBoard_params by blast

theorem clicks_give_allowed_commands_witness:
  "\<exists>button shift field reply. mouseReleaseEvent button shift field reply 5000 (Some (CombinedId 1 2)) exampleBoard =
     Inr (Some (CombinedId 1 2, StopOsaekomi))"
proof -
  obtain category where "operator_getParams (Some (CombinedId 1 2)) exampleBoard = Inr (Some (category, heldMatch))" "mRuleset category = TWENTY_EIGHTEEN"
    using exampleBoard_params by blast
  moreover have "commandGuard TWENTY_EIGHTEEN StopOsaekomi 5000 heldMatch \<and> byHand heldMatch StopOsaekomi"
    by (simp add: canStopOsaekomi_def byHand_def heldMatch_def store_simps)
  ultimately show ?thesis using clicks_give_allowed_commands[of "CombinedId 1 2" exampleBoard category heldMatch 5000 StopOsaekomi] by (simp add: heldMatch_id)
qed

text \<open>The hit of the timer: white has won by the ippon of the osaekomi, and the match is finished.\<close>

lemma exampleBoard_timer:
  "map_sum id (\<lambda>t'. map_option (map (\<lambda>m. (getStatus m, ippon (getWhiteScore m), getOsaekomi m)) \<circ> mMatches) (mCategories t' 1))
     (pausingTimerHit 25000 (Some (CombinedId 1 2)) exampleBoard) = Inr (Some [(FINISHED, True, None)])"
  by code_simp

end
