(* ===== verification/Operator_Window.thy ===== *)
theory Operator_Window
  imports Score_Operator Web_Tatami_Model
begin

section \<open>The window of the score operator\<close>

text \<open>
  Models \<^verbatim>\<open>src/ui/widgets/score_operator_window.cpp\<close>: the operator chooses a tatami, is offered the next match of it and moves on from match to
  match. The menus, the layout and the connection to the hub are left out. The answer to a question is an argument, and no events are handled
  before it is given.

  The box in which a tatami is chosen is a \<^verbatim>\<open>QComboBox\<close>: its items, the current index and the signal of a change of the index, which calls
  \<^verbatim>\<open>setTatami\<close>. Whether an item that is inserted into an empty box becomes the current one is up to the library: the parameter \<open>selectsFirst\<close>.
\<close>

record OperatorWindow =
  mOperatorTatami :: "TatamiLocation option"
  mCurrentMatch :: "CombinedId option"
  mNextMatch :: "CombinedId option"
  mNextButton :: bool \<comment> \<open>enabled\<close>
  mResetButton :: bool
  mOperatorBoard :: ScoreDisplay
  mAudienceBoard :: ScoreDisplay
  mSelectCount :: nat
  mSelectIndex :: int
  mSelectEnabled :: bool

subsection \<open>The next match\<close>

definition updateNextButton :: "TournamentStore \<Rightarrow> OperatorWindow \<Rightarrow> OperatorWindow result" where
  "updateNextButton t w =
     (case mNextMatch w of
        None \<Rightarrow> Inr (w\<lparr>mNextButton := False\<rparr>)
      | Some i \<Rightarrow> bindE (matchOf i t) (\<lambda>match. Inr (w\<lparr>mNextButton := getWhitePlayer match \<noteq> None \<and> getBluePlayer match \<noteq> None\<rparr>)))"

text \<open>The loops of \<^verbatim>\<open>findNextMatch\<close>, over the matches of a group and over the groups of the tatami.\<close>

fun findOpenMatch :: "TournamentStore \<Rightarrow> CombinedId option \<Rightarrow> CombinedId list \<Rightarrow> CombinedId option result" where
  "findOpenMatch t current [] = Inr None"
| "findOpenMatch t current (i # is) =
     (if current = Some i then findOpenMatch t current is
      else bindE (matchOf i t) (\<lambda>match.
        if isBye match then findOpenMatch t current is
        else if getStatus match \<noteq> FINISHED then Inr (Some i)
        else findOpenMatch t current is))"

fun findOpenGroup :: "TournamentStore \<Rightarrow> CombinedId option \<Rightarrow> TatamiStore \<Rightarrow> nat list \<Rightarrow> CombinedId option result" where
  "findOpenGroup t current tatami [] = Inr None"
| "findOpenGroup t current tatami (k # ks) =
     bindE (tatami_atIndex k tatami) (\<lambda>group.
       if mGroupStatus group = GROUP_FINISHED then findOpenGroup t current tatami ks
       else bindE (findOpenMatch t current (mGroupMatches group)) (\<lambda>found.
         case found of Some i \<Rightarrow> Inr (Some i) | None \<Rightarrow> findOpenGroup t current tatami ks))"

definition findNextMatch :: "TournamentStore \<Rightarrow> OperatorWindow \<Rightarrow> OperatorWindow result" where
  "findNextMatch t w =
     bindE (case mOperatorTatami w of
        None \<Rightarrow> Inr None
      | Some l \<Rightarrow>
          if \<not> containsTatami l (mTatamiList t) then Inr None
          else bindE (list_at (tatami_handle l) (mTatamiList t)) (\<lambda>tatami.
            findOpenGroup t (mCurrentMatch w) tatami [0..<tatami_groupCount tatami])) (\<lambda>next_match.
     updateNextButton t (w\<lparr>mNextMatch := next_match\<rparr>))"

subsection \<open>The buttons\<close>

definition disableControlButtons :: "OperatorWindow \<Rightarrow> OperatorWindow" where
  "disableControlButtons w = w\<lparr>mResetButton := False\<rparr>"

definition updateControlButtons :: "OperatorWindow \<Rightarrow> OperatorWindow" where
  "updateControlButtons w = (if mCurrentMatch w = None then disableControlButtons w else w\<lparr>mResetButton := True\<rparr>)"

text \<open>Whether the operator is asked before the current match is left.\<close>

definition currentUnfinished :: "TournamentStore \<Rightarrow> CombinedId option \<Rightarrow> bool result" where
  "currentUnfinished t current =
     (case current of
        None \<Rightarrow> Inr False
      | Some i \<Rightarrow> bindE (findMatch i t) (\<lambda>found. Inr (case found of None \<Rightarrow> False | Some (category, match) \<Rightarrow> getStatus match \<noteq> FINISHED)))"

definition goNextMatch :: "TournamentStore \<Rightarrow> bool \<Rightarrow> OperatorWindow \<Rightarrow> OperatorWindow result" where
  "goNextMatch t reply w =
     (case mNextMatch w of
        None \<Rightarrow> Inr w
      | Some i \<Rightarrow> bindE (matchOf i t) (\<lambda>nextMatch.
          if getWhitePlayer nextMatch = None \<or> getBluePlayer nextMatch = None then Inr w
          else bindE (currentUnfinished t (mCurrentMatch w)) (\<lambda>unfinished.
            if unfinished \<and> \<not> reply then Inr w
            else bindE (findNextMatch t (w\<lparr>mCurrentMatch := Some i, mOperatorBoard := display_setMatch (Some i) True (mOperatorBoard w),
                     mAudienceBoard := display_setMatch (Some i) True (mAudienceBoard w)\<rparr>)) (\<lambda>w'.
              Inr (updateControlButtons w')))))"

text \<open>The match that the \<^verbatim>\<open>ResetMatchesAction\<close> resets which is dispatched, if any.\<close>

definition resetButtonClick :: "bool \<Rightarrow> OperatorWindow \<Rightarrow> CombinedId option" where
  "resetButtonClick reply w = (if \<not> reply then None else mCurrentMatch w)"

subsection \<open>The choice of a tatami\<close>

definition sameLocation :: "TatamiLocation option \<Rightarrow> TatamiLocation option \<Rightarrow> bool" where
  "sameLocation a b = (case (a, b) of (None, None) \<Rightarrow> True | (Some l, Some k) \<Rightarrow> TatamiLocation_eq l k | _ \<Rightarrow> False)"

definition setTatami :: "TournamentStore \<Rightarrow> int \<Rightarrow> OperatorWindow \<Rightarrow> OperatorWindow result" where
  "setTatami t index w =
     (if index = -1 \<or> nat index > tatamiCount (mTatamiList t) then Inr w
      else bindE (if index > 0 then bindE (list_getHandle (nat index - 1) (mTatamiList t)) (\<lambda>h. Inr (Some (TatamiLocation h))) else Inr None) (\<lambda>location.
        if sameLocation location (mOperatorTatami w) then Inr w
        else findNextMatch t (w\<lparr>mOperatorTatami := location\<rparr>)))"

text \<open>The box: \<^verbatim>\<open>clear\<close>, \<^verbatim>\<open>addItem\<close> and \<^verbatim>\<open>setCurrentIndex\<close>. The signal of a cleared box has the index -1, which \<^verbatim>\<open>setTatami\<close> ignores.\<close>

definition select_setCurrentIndex :: "TournamentStore \<Rightarrow> int \<Rightarrow> OperatorWindow \<Rightarrow> OperatorWindow result" where
  "select_setCurrentIndex t index w = (if index = mSelectIndex w then Inr w else setTatami t index (w\<lparr>mSelectIndex := index\<rparr>))"

definition select_addItem :: "bool \<Rightarrow> TournamentStore \<Rightarrow> OperatorWindow \<Rightarrow> OperatorWindow result" where
  "select_addItem selectsFirst t w =
     (let w1 = w\<lparr>mSelectCount := Suc (mSelectCount w)\<rparr>
      in if selectsFirst \<and> mSelectCount w = 0 then select_setCurrentIndex t 0 w1 else Inr w1)"

definition clearTatamiSelect :: "OperatorWindow \<Rightarrow> OperatorWindow" where
  "clearTatamiSelect w = w\<lparr>mSelectCount := 0, mSelectIndex := -1, mSelectEnabled := False\<rparr>"

definition addTatamiItem :: "bool \<Rightarrow> TournamentStore \<Rightarrow> nat \<Rightarrow> OperatorWindow \<Rightarrow> OperatorWindow result" where
  "addTatamiItem selectsFirst t i w =
     bindE (select_addItem selectsFirst t w) (\<lambda>w1.
     bindE (list_getHandle i (mTatamiList t)) (\<lambda>h.
       if mOperatorTatami w1 \<noteq> None \<and> sameLocation (Some (TatamiLocation h)) (mOperatorTatami w1)
       then select_setCurrentIndex t (int i + 1) w1 else Inr w1))"

definition populateTatamiSelect :: "bool \<Rightarrow> TournamentStore \<Rightarrow> OperatorWindow \<Rightarrow> OperatorWindow result" where
  "populateTatamiSelect selectsFirst t w =
     (if tatamiCount (mTatamiList t) = 0 then Inr (w\<lparr>mSelectEnabled := False\<rparr>)
      else bindE (select_addItem selectsFirst t (w\<lparr>mSelectEnabled := True\<rparr>)) (\<lambda>w1.
        foldE (addTatamiItem selectsFirst t) [0..<tatamiCount (mTatamiList t)] w1))"

subsection \<open>The window and the signals of the tournament\<close>

definition newOperatorWindow :: "bool \<Rightarrow> TournamentStore \<Rightarrow> OperatorWindow result" where
  "newOperatorWindow selectsFirst t =
     bindE (findNextMatch t \<lparr>mOperatorTatami = None, mCurrentMatch = None, mNextMatch = None, mNextButton = True, mResetButton = True,
       mOperatorBoard = newScoreDisplay, mAudienceBoard = newScoreDisplay, mSelectCount = 0, mSelectIndex = -1, mSelectEnabled = True\<rparr>) (\<lambda>w.
     populateTatamiSelect selectsFirst t (disableControlButtons w))"

definition window_endResetTournament :: "bool \<Rightarrow> TournamentStore \<Rightarrow> OperatorWindow \<Rightarrow> OperatorWindow result" where
  "window_endResetTournament selectsFirst t w =
     bindE (populateTatamiSelect selectsFirst t (clearTatamiSelect w)) (\<lambda>w1.
     bindE (findNextMatch t w1) (\<lambda>w2. Inr (updateControlButtons w2)))"

definition window_changeTatamis :: "TournamentStore \<Rightarrow> BlockLocation list \<Rightarrow> OperatorWindow \<Rightarrow> OperatorWindow result" where
  "window_changeTatamis t locations w =
     (case mOperatorTatami w of
        None \<Rightarrow> Inr w
      | Some l \<Rightarrow> if list_ex (\<lambda>location. handle_eq (getTatamiHandle location) (tatami_handle l)) locations then findNextMatch t w else Inr w)"

text \<open>The boards are told of changed matches, too.\<close>

definition window_changeMatches :: "TournamentStore \<Rightarrow> CategoryId \<Rightarrow> MatchId list \<Rightarrow> OperatorWindow \<Rightarrow> OperatorWindow result" where
  "window_changeMatches t categoryId matchIds w =
     (let next_changed = (case mNextMatch w of None \<Rightarrow> False | Some i \<Rightarrow> getCategoryId i = categoryId \<and> getMatchId i \<in> set matchIds);
          current_changed = (case mCurrentMatch w of None \<Rightarrow> False | Some i \<Rightarrow> getCategoryId i = categoryId);
          w1 = (if current_changed then updateControlButtons w else w);
          w2 = w1\<lparr>mOperatorBoard := display_changeMatches categoryId matchIds (mOperatorBoard w1),
                  mAudienceBoard := display_changeMatches categoryId matchIds (mAudienceBoard w1)\<rparr>
      in if next_changed \<or> current_changed then updateNextButton t w2 else Inr w2)"

definition window_beginResetMatches :: "CategoryId list \<Rightarrow> OperatorWindow \<Rightarrow> OperatorWindow" where
  "window_beginResetMatches categoryIds w =
     (case mCurrentMatch w of
        None \<Rightarrow> w
      | Some i \<Rightarrow> if getCategoryId i \<in> set categoryIds then disableControlButtons w else w)"

definition window_endResetMatches :: "OperatorWindow \<Rightarrow> OperatorWindow" where
  "window_endResetMatches w = updateControlButtons w"

subsection \<open>What is to be offered\<close>

definition isOpen :: "TournamentStore \<Rightarrow> CombinedId \<Rightarrow> bool" where
  "isOpen t i = (case storedMatch t i of None \<Rightarrow> False | Some match \<Rightarrow> \<not> isBye match \<and> getStatus match \<noteq> FINISHED)"

definition isReady :: "TournamentStore \<Rightarrow> CombinedId \<Rightarrow> bool" where
  "isReady t i = (case storedMatch t i of None \<Rightarrow> False | Some match \<Rightarrow> bothPlayers match)"

text \<open>The first match of the tatami, in the order of its schedule, that is neither finished nor a bye nor the current one.\<close>

definition nextOpen :: "TournamentStore \<Rightarrow> TatamiLocation option \<Rightarrow> CombinedId option \<Rightarrow> CombinedId option" where
  "nextOpen t l current =
     (case Option.bind l (tatamiOf t) of
        None \<Rightarrow> None
      | Some tatami \<Rightarrow> find (\<lambda>i. current \<noteq> Some i \<and> isOpen t i) (wholeQueue tatami))"

definition offers :: "TournamentStore \<Rightarrow> OperatorWindow \<Rightarrow> bool" where
  "offers t w \<longleftrightarrow> mNextMatch w = nextOpen t (mOperatorTatami w) (mCurrentMatch w) \<and>
     (mNextButton w \<longleftrightarrow> (case mNextMatch w of None \<Rightarrow> False | Some i \<Rightarrow> isReady t i))"

text \<open>The matches of all tatamis exist, the groups that count as finished have finished matches only, and categories find their matches.\<close>

definition hall_wf :: "TournamentStore \<Rightarrow> bool" where
  "hall_wf t \<longleftrightarrow> (\<forall>i c j k. mCategories t i = Some c \<and> mMatchMap c j = Some k \<longrightarrow> k < length (mMatches c)) \<and> (\<forall>l tatami. tatamiOf t l = Some tatami \<longrightarrow> tatami_wf t tatami \<and>
     (\<forall>k g. mElements (mConcurrentGroups tatami) k = Some g \<and> mGroupStatus g = GROUP_FINISHED \<longrightarrow> (\<forall>i \<in> set (mGroupMatches g). matchFinished t i)))"

subsection \<open>Finding the next match\<close>

lemma matchOf_stored: "storedMatch t i = Some match \<Longrightarrow> matchOf i t = Inr match"
  by (auto simp: storedMatch_def matchOf_def getCategory_def categories_get_def split: option.splits sum.splits)

lemma find_append_case: "find P (xs @ ys) = (case find P xs of None \<Rightarrow> find P ys | Some x \<Rightarrow> Some x)"
  by (induction xs) auto

lemma findOpenMatch_eq:
  "\<forall>i \<in> set is. storedMatch t i \<noteq> None \<Longrightarrow> findOpenMatch t current is = Inr (find (\<lambda>i. current \<noteq> Some i \<and> isOpen t i) is)"
  by (induction "is") (auto simp: isOpen_def matchOf_stored)

lemma findOpenGroup_eq:
  assumes "tatami_wf t tatami" and "\<And>k g i. mElements (mConcurrentGroups tatami) k = Some g \<Longrightarrow> mGroupStatus g = GROUP_FINISHED \<Longrightarrow>
      i \<in> set (mGroupMatches g) \<Longrightarrow> matchFinished t i" and "\<forall>k \<in> set ks. k < tatami_groupCount tatami"
  shows "findOpenGroup t current tatami ks =
    Inr (find (\<lambda>i. current \<noteq> Some i \<and> isOpen t i) (concat (map (\<lambda>k. mGroupMatches (snd (entries (mConcurrentGroups tatami) ! k))) ks)))"
  using assms(3)
proof (induction ks)
  case (Cons k ks)
  let ?es = "entries (mConcurrentGroups tatami)" and ?P = "\<lambda>i. current \<noteq> Some i \<and> isOpen t i"
  let ?g = "snd (?es ! k)"
  have inv: "pm_inv (mConcurrentGroups tatami)" using assms(1) by (simp add: tatami_wf_def)
  have k: "k < length ?es" using Cons.prems by (simp add: tatami_groupCount_def pm_size_def entries_def)
  then have at: "tatami_atIndex k tatami = Inr ?g" by (simp add: tatami_atIndex_def pm_atIndex_entries[OF inv])
  have "mIds (mConcurrentGroups tatami) ! k \<in> dom (mElements (mConcurrentGroups tatami))" using inv k by (metis entries_def length_map nth_mem pm_inv_def)
  then have elem: "mElements (mConcurrentGroups tatami) (mIds (mConcurrentGroups tatami) ! k) = Some ?g" using k by (auto simp: entries_def)
  have "set (mGroupMatches ?g) \<subseteq> set (wholeQueue tatami)"
    using k by (force simp: wholeQueue_def queue_def tatami_groupCount_def pm_size_def entries_def)
  then have stored: "\<forall>i \<in> set (mGroupMatches ?g). storedMatch t i \<noteq> None" using assms(1) by (auto simp: tatami_wf_def)
  have rest: "findOpenGroup t current tatami ks = Inr (find ?P (concat (map (\<lambda>k. mGroupMatches (snd (?es ! k))) ks)))" using Cons by simp
  have closed: "\<not> isOpen t i" if "matchFinished t i" for i using that by (simp add: matchFinished_def isOpen_def split: option.splits)
  have "find ?P (mGroupMatches ?g) = None" if "mGroupStatus ?g = GROUP_FINISHED"
    using assms(2)[OF elem that] closed by (auto simp: find_None_iff)
  then show ?case by (auto simp: at rest findOpenMatch_eq[OF stored] find_append_case split: option.split)
qed simp

lemma wholeQueue_indices: "wholeQueue tatami = concat (map (\<lambda>k. mGroupMatches (snd (entries (mConcurrentGroups tatami) ! k))) [0..<tatami_groupCount tatami])"
proof -
  let ?es = "entries (mConcurrentGroups tatami)"
  have "tatami_groupCount tatami = length ?es" by (simp add: tatami_groupCount_def pm_size_def entries_def)
  moreover have "map (\<lambda>k. mGroupMatches (snd (?es ! k))) [0..<length ?es] = map (\<lambda>(i, g). mGroupMatches g) ?es"
    by (rule nth_equalityI) (simp_all add: split_def)
  ultimately show ?thesis by (simp add: wholeQueue_def queue_def)
qed

lemma nextOpen_stored: "hall_wf t \<Longrightarrow> nextOpen t l current = Some i \<Longrightarrow> \<exists>match. storedMatch t i = Some match"
  by (auto simp: nextOpen_def find_Some_iff isOpen_def split: option.splits)

lemma updateNextButton_eq:
  "mNextMatch w = None \<or> (\<exists>i match. mNextMatch w = Some i \<and> storedMatch t i = Some match) \<Longrightarrow>
   updateNextButton t w = Inr (w\<lparr>mNextButton := (case mNextMatch w of None \<Rightarrow> False | Some i \<Rightarrow> isReady t i)\<rparr>)"
  by (auto simp: updateNextButton_def matchOf_stored isReady_def bothPlayers_def)

text \<open>\<^verbatim>\<open>findNextMatch\<close> succeeds and offers what is to be offered; nothing else changes.\<close>

lemma findNextMatch_eq:
  assumes "hall_wf t"
  shows "findNextMatch t w = Inr (w\<lparr>mNextMatch := nextOpen t (mOperatorTatami w) (mCurrentMatch w),
    mNextButton := (case nextOpen t (mOperatorTatami w) (mCurrentMatch w) of None \<Rightarrow> False | Some i \<Rightarrow> isReady t i)\<rparr>)"
proof -
  let ?found = "case mOperatorTatami w of None \<Rightarrow> Inr None | Some l \<Rightarrow>
      if \<not> containsTatami l (mTatamiList t) then Inr None
      else bindE (list_at (tatami_handle l) (mTatamiList t)) (\<lambda>tatami. findOpenGroup t (mCurrentMatch w) tatami [0..<tatami_groupCount tatami])"
  have "?found = Inr (nextOpen t (mOperatorTatami w) (mCurrentMatch w))"
  proof (cases "Option.bind (mOperatorTatami w) (tatamiOf t)")
    case None
    then show ?thesis by (cases "mOperatorTatami w") (auto simp: nextOpen_def containsTatami_def pm_containsHandle_def pm_contains_def tatamiOf_def)
  next
    case (Some tatami)
    then obtain l where l: "mOperatorTatami w = Some l" "tatamiOf t l = Some tatami" by (cases "mOperatorTatami w") auto
    with assms have wf: "tatami_wf t tatami" "\<And>k g i. mElements (mConcurrentGroups tatami) k = Some g \<Longrightarrow> mGroupStatus g = GROUP_FINISHED \<Longrightarrow>
      i \<in> set (mGroupMatches g) \<Longrightarrow> matchFinished t i" unfolding hall_wf_def by blast+
    have "findOpenGroup t (mCurrentMatch w) tatami [0..<tatami_groupCount tatami] =
        Inr (find (\<lambda>i. mCurrentMatch w \<noteq> Some i \<and> isOpen t i) (wholeQueue tatami))"
      unfolding wholeQueue_indices by (rule findOpenGroup_eq[OF wf(1)]) (use wf(2) in auto)
    with l show ?thesis by (simp add: nextOpen_def containsTatami_def pm_containsHandle_def pm_contains_def tatamiOf_def list_at_def pm_at_def)
  qed
  moreover have "updateNextButton t (w\<lparr>mNextMatch := nextOpen t (mOperatorTatami w) (mCurrentMatch w)\<rparr>) =
      Inr (w\<lparr>mNextMatch := nextOpen t (mOperatorTatami w) (mCurrentMatch w),
        mNextButton := (case nextOpen t (mOperatorTatami w) (mCurrentMatch w) of None \<Rightarrow> False | Some i \<Rightarrow> isReady t i)\<rparr>)"
    using nextOpen_stored[OF assms, of "mOperatorTatami w" "mCurrentMatch w"]
    by (cases "nextOpen t (mOperatorTatami w) (mCurrentMatch w)") (simp_all add: updateNextButton_eq)
  ultimately show ?thesis by (simp add: findNextMatch_def)
qed

subsection \<open>The box of tatamis\<close>

definition keepsOffer :: "TournamentStore \<Rightarrow> OperatorWindow \<Rightarrow> OperatorWindow \<Rightarrow> bool" where
  "keepsOffer t w w' \<longleftrightarrow> mCurrentMatch w' = mCurrentMatch w \<and> (offers t w \<longrightarrow> offers t w')"

definition keepsOffers :: "TournamentStore \<Rightarrow> (OperatorWindow \<Rightarrow> OperatorWindow result) \<Rightarrow> bool" where
  "keepsOffers t f \<longleftrightarrow> (\<forall>w. \<exists>w'. f w = Inr w' \<and> keepsOffer t w w')"

lemma offers_cong:
  "mOperatorTatami w' = mOperatorTatami w \<Longrightarrow> mCurrentMatch w' = mCurrentMatch w \<Longrightarrow> mNextMatch w' = mNextMatch w \<Longrightarrow> mNextButton w' = mNextButton w \<Longrightarrow>
   offers t w' = offers t w"
  by (simp add: offers_def)

lemma findNextMatch_offers:
  assumes "hall_wf t"
  shows "\<exists>w'. findNextMatch t w = Inr w' \<and> offers t w' \<and> mCurrentMatch w' = mCurrentMatch w \<and> mOperatorTatami w' = mOperatorTatami w \<and>
    mSelectCount w' = mSelectCount w \<and> mSelectIndex w' = mSelectIndex w"
  by (simp add: findNextMatch_eq[OF assms] offers_def)

lemma setTatami_keeps: "hall_wf t \<Longrightarrow> keepsOffers t (setTatami t index)"
proof -
  assume wf: "hall_wf t"
  have "\<exists>w'. setTatami t index w = Inr w' \<and> keepsOffer t w w'" for w
  proof (cases "index = -1 \<or> nat index > tatamiCount (mTatamiList t)")
    case True
    then show ?thesis by (simp add: setTatami_def keepsOffer_def)
  next
    case False
    have "\<exists>location. (if index > 0 then bindE (list_getHandle (nat index - 1) (mTatamiList t)) (\<lambda>h. Inr (Some (TatamiLocation h))) else Inr None) = Inr location"
      using False by (cases "index > 0") (auto simp: list_getHandle_def pm_getHandle_def tatamiCount_def pm_size_def nthE_def)
    then obtain location where location: "(if index > 0 then bindE (list_getHandle (nat index - 1) (mTatamiList t)) (\<lambda>h. Inr (Some (TatamiLocation h))) else Inr None) = Inr location"
      by blast
    obtain w' where "findNextMatch t (w\<lparr>mOperatorTatami := location\<rparr>) = Inr w'" "offers t w'" "mCurrentMatch w' = mCurrentMatch w"
      using findNextMatch_offers[OF wf, of "w\<lparr>mOperatorTatami := location\<rparr>"] by auto
    with False location show ?thesis by (simp add: setTatami_def keepsOffer_def)
  qed
  then show ?thesis by (simp add: keepsOffers_def)
qed

lemma keepsOffer_refl: "mOperatorTatami w' = mOperatorTatami w \<Longrightarrow> mCurrentMatch w' = mCurrentMatch w \<Longrightarrow> mNextMatch w' = mNextMatch w \<Longrightarrow>
    mNextButton w' = mNextButton w \<Longrightarrow> keepsOffer t w w'"
  using offers_cong[of w' w t] by (simp add: keepsOffer_def)

lemma offers_none: "offers t w \<Longrightarrow> mOperatorTatami w = None \<Longrightarrow> offers t' w"
  by (simp add: offers_def nextOpen_def)

lemma keepsOffer_trans: "keepsOffer t a b \<Longrightarrow> keepsOffer t b c \<Longrightarrow> keepsOffer t a c"
  unfolding keepsOffer_def by auto

lemma keepsOffers_bind: "keepsOffers t f \<Longrightarrow> keepsOffers t g \<Longrightarrow> keepsOffers t (\<lambda>w. bindE (f w) g)"
  unfolding keepsOffers_def by (metis bindE_simps(2) keepsOffer_trans)

lemma keepsOffers_foldE: "(\<And>x. x \<in> set xs \<Longrightarrow> keepsOffers t (f x)) \<Longrightarrow> keepsOffers t (foldE f xs)"
proof (induction xs)
  case Nil
  show ?case by (simp add: keepsOffers_def keepsOffer_refl)
next
  case (Cons x xs)
  have "keepsOffers t (\<lambda>w. bindE (f x w) (foldE f xs))" using Cons by (intro keepsOffers_bind) auto
  then show ?case by (simp add: keepsOffers_def)
qed

lemma setCurrentIndex_keeps: "hall_wf t \<Longrightarrow> keepsOffers t (select_setCurrentIndex t index)"
proof -
  assume wf: "hall_wf t"
  have "\<exists>w'. select_setCurrentIndex t index w = Inr w' \<and> keepsOffer t w w'" for w
  proof (cases "index = mSelectIndex w")
    case False
    obtain w' where w': "setTatami t index (w\<lparr>mSelectIndex := index\<rparr>) = Inr w'" "keepsOffer t (w\<lparr>mSelectIndex := index\<rparr>) w'"
      using setTatami_keeps[OF wf, of index] by (auto simp: keepsOffers_def)
    have "keepsOffer t w (w\<lparr>mSelectIndex := index\<rparr>)" by (rule keepsOffer_refl) simp_all
    with w' False show ?thesis by (auto simp: select_setCurrentIndex_def intro: keepsOffer_trans)
  qed (simp add: select_setCurrentIndex_def keepsOffer_refl)
  then show ?thesis by (simp add: keepsOffers_def)
qed

lemma addItem_keeps: "hall_wf t \<Longrightarrow> keepsOffers t (select_addItem selectsFirst t)"
proof -
  assume wf: "hall_wf t"
  have "\<exists>w'. select_addItem selectsFirst t w = Inr w' \<and> keepsOffer t w w'" for w
  proof -
    let ?w = "w\<lparr>mSelectCount := Suc (mSelectCount w)\<rparr>"
    have first: "keepsOffer t w ?w" by (rule keepsOffer_refl) simp_all
    obtain w' where "select_setCurrentIndex t 0 ?w = Inr w'" "keepsOffer t ?w w'" using setCurrentIndex_keeps[OF wf, of 0] by (auto simp: keepsOffers_def)
    with first show ?thesis by (auto simp: select_addItem_def Let_def intro: keepsOffer_trans)
  qed
  then show ?thesis by (simp add: keepsOffers_def)
qed

lemma addTatamiItem_keeps: "hall_wf t \<Longrightarrow> i < tatamiCount (mTatamiList t) \<Longrightarrow> keepsOffers t (addTatamiItem selectsFirst t i)"
proof -
  assume wf: "hall_wf t" and i: "i < tatamiCount (mTatamiList t)"
  then obtain h where h: "list_getHandle i (mTatamiList t) = Inr h"
    by (auto simp: list_getHandle_def pm_getHandle_def tatamiCount_def pm_size_def nthE_def)
  have "keepsOffers t (\<lambda>w1. if mOperatorTatami w1 \<noteq> None \<and> sameLocation (Some (TatamiLocation h)) (mOperatorTatami w1)
       then select_setCurrentIndex t (int i + 1) w1 else Inr w1)"
    using setCurrentIndex_keeps[OF wf, of "int i + 1"] by (simp add: keepsOffers_def keepsOffer_refl)
  from keepsOffers_bind[OF addItem_keeps[OF wf] this] show ?thesis by (simp add: keepsOffers_def addTatamiItem_def h)
qed

lemma populate_keeps:
  assumes "hall_wf t"
  shows "\<exists>w'. populateTatamiSelect selectsFirst t w = Inr w' \<and> keepsOffer t w w'"
proof (cases "tatamiCount (mTatamiList t) = 0")
  case True
  have "keepsOffer t w (w\<lparr>mSelectEnabled := False\<rparr>)" by (rule keepsOffer_refl) simp_all
  with True show ?thesis by (simp add: populateTatamiSelect_def)
next
  case False
  have "keepsOffers t (\<lambda>w. bindE (select_addItem selectsFirst t w) (foldE (addTatamiItem selectsFirst t) [0..<tatamiCount (mTatamiList t)]))"
    by (intro keepsOffers_bind addItem_keeps[OF assms] keepsOffers_foldE addTatamiItem_keeps[OF assms]) simp
  from this[unfolded keepsOffers_def, rule_format, of "w\<lparr>mSelectEnabled := True\<rparr>"] obtain w' where "bindE (select_addItem selectsFirst t (w\<lparr>mSelectEnabled := True\<rparr>)) (foldE (addTatamiItem selectsFirst t) [0..<tatamiCount (mTatamiList t)]) = Inr w'"
    "keepsOffer t (w\<lparr>mSelectEnabled := True\<rparr>) w'" by metis
  moreover have "keepsOffer t w (w\<lparr>mSelectEnabled := True\<rparr>)" by (rule keepsOffer_refl) simp_all
  ultimately show ?thesis using False by (auto simp: populateTatamiSelect_def intro: keepsOffer_trans)
qed

text \<open>
  When the first item of an empty box becomes the current one, the box forgets the tatami that was chosen as soon as it is filled again: the
  item is the placeholder, and \<^verbatim>\<open>setTatami\<close> takes it for a choice.
\<close>

lemma addItem_forgets:
  assumes "hall_wf t" and "mSelectCount w = 0" and "mSelectIndex w = -1"
  shows "\<exists>w'. select_addItem True t w = Inr w' \<and> mOperatorTatami w' = None \<and> mCurrentMatch w' = mCurrentMatch w \<and> mSelectCount w' = 1 \<and>
    (offers t w' \<or> mOperatorTatami w = None \<and> mNextMatch w' = mNextMatch w \<and> mNextButton w' = mNextButton w)"
proof -
  let ?w = "w\<lparr>mSelectCount := 1, mSelectIndex := 0\<rparr>"
  have "select_addItem True t w = setTatami t 0 ?w"
    using assms(2,3) by (simp add: select_addItem_def select_setCurrentIndex_def Let_def)
  moreover have "setTatami t 0 ?w = (if mOperatorTatami w = None then Inr ?w else findNextMatch t (?w\<lparr>mOperatorTatami := None\<rparr>))"
    by (simp add: setTatami_def sameLocation_def split: option.split)
  moreover obtain w' where "findNextMatch t (?w\<lparr>mOperatorTatami := None\<rparr>) = Inr w'" "offers t w'" "mCurrentMatch w' = mCurrentMatch w"
    "mOperatorTatami w' = None" "mSelectCount w' = 1"
    using findNextMatch_offers[OF assms(1), of "?w\<lparr>mOperatorTatami := None\<rparr>"] by auto
  ultimately show ?thesis by auto
qed

subsection \<open>The window over the changes of a tournament\<close>

text \<open>
  Nothing the window shows of a tatami has changed; and what a signal of changed matches is about: the schedule stays, no match starts or ceases to
  be open, and only the named matches get or lose players. Matches that end are signalled as changes of their tatami.
\<close>

definition sameView :: "TournamentStore \<Rightarrow> TournamentStore \<Rightarrow> TatamiLocation \<Rightarrow> bool" where
  "sameView t t' l \<longleftrightarrow> tatamiOf t' l = tatamiOf t l \<and> (\<forall>tatami. tatamiOf t l = Some tatami \<longrightarrow> (\<forall>i \<in> set (wholeQueue tatami). storedMatch t' i = storedMatch t i))"

definition matchesView :: "CategoryId \<Rightarrow> MatchId list \<Rightarrow> TournamentStore \<Rightarrow> TournamentStore \<Rightarrow> TatamiLocation \<Rightarrow> bool" where
  "matchesView c ids t t' l \<longleftrightarrow> tatamiOf t' l = tatamiOf t l \<and> (\<forall>tatami. tatamiOf t l = Some tatami \<longrightarrow>
     (\<forall>i \<in> set (wholeQueue tatami). isOpen t' i = isOpen t i \<and> (i \<in> CombinedId c ` set ids \<or> isReady t' i = isReady t i)))"

definition watched :: "OperatorWindow \<Rightarrow> (TatamiLocation \<Rightarrow> bool) \<Rightarrow> bool" where
  "watched w P \<longleftrightarrow> (\<forall>l. mOperatorTatami w = Some l \<longrightarrow> P l)"

text \<open>
  What happens to the window of a tournament: the handler that runs, the tournament after the event, and the result of the handler, which may be a
  failure. The signals name what they are about. Not among the events: the last tatami is erased while it is chosen (\<open>counted\<close> asks for a remaining tatami
  and a box that makes its first item the current one, as \<^verbatim>\<open>QComboBox\<close> does, or for an unchanged view), and a signal arrives while a question is shown, which the event loop of the dialog would deliver in the middle of
  \<^verbatim>\<open>goNextMatch\<close>.
\<close>

inductive window_event :: "bool \<Rightarrow> TournamentStore \<Rightarrow> OperatorWindow \<Rightarrow> TournamentStore \<Rightarrow> OperatorWindow result \<Rightarrow> bool" for selectsFirst t w where
  loaded: "hall_wf t' \<Longrightarrow> window_event selectsFirst t w t' (window_endResetTournament selectsFirst t' w)"
| chosen: "window_event selectsFirst t w t (select_setCurrentIndex t index w)"
| went: "window_event selectsFirst t w t (goNextMatch t reply w)"
| tatamis: "hall_wf t' \<Longrightarrow>
    watched w (\<lambda>l. (\<exists>location \<in> set locations. handle_eq (getTatamiHandle location) (tatami_handle l)) \<or> sameView t t' l) \<Longrightarrow>
    window_event selectsFirst t w t' (window_changeTatamis t' locations w)"
| matches: "hall_wf t' \<Longrightarrow> watched w (matchesView c ids t t') \<Longrightarrow> window_event selectsFirst t w t' (window_changeMatches t' c ids w)"
| counted: "hall_wf t' \<Longrightarrow> watched w (\<lambda>l. sameView t t' l \<or> selectsFirst \<and> 0 < tatamiCount (mTatamiList t')) \<Longrightarrow>
    window_event selectsFirst t w t' (populateTatamiSelect selectsFirst t' (clearTatamiSelect w))"
| resetting: "window_event selectsFirst t w t (Inr (window_beginResetMatches ids w))"
| reset: "window_event selectsFirst t w t (Inr (window_endResetMatches w))"
| elsewhere: "hall_wf t' \<Longrightarrow> watched w (sameView t t') \<Longrightarrow> window_event selectsFirst t w t' (Inr w)"

inductive window_reachable :: "bool \<Rightarrow> TournamentStore \<Rightarrow> OperatorWindow \<Rightarrow> bool" for selectsFirst where
  opened: "hall_wf t \<Longrightarrow> newOperatorWindow selectsFirst t = Inr w \<Longrightarrow> window_reachable selectsFirst t w"
| event: "window_reachable selectsFirst t w \<Longrightarrow> window_event selectsFirst t w t' (Inr w') \<Longrightarrow> window_reachable selectsFirst t' w'"

lemma find_same: "(\<And>i. i \<in> set xs \<Longrightarrow> P i = Q i) \<Longrightarrow> find P xs = find Q xs"
  by (rule find_cong) auto

lemma sameView_matches: "sameView t t' l \<Longrightarrow> matchesView c [] t t' l"
  by (auto simp: sameView_def matchesView_def isOpen_def isReady_def)

text \<open>The offer after matches have changed: the next match is the same one, and the button is right unless the match was named.\<close>

lemma offers_matches:
  assumes "offers t w" and "watched w (matchesView c ids t t')"
  shows "mNextMatch w = nextOpen t' (mOperatorTatami w) (mCurrentMatch w)"
    and "mNextMatch w = Some i \<Longrightarrow> i \<in> CombinedId c ` set ids \<or> mNextButton w = isReady t' i"
proof -
  consider "Option.bind (mOperatorTatami w) (tatamiOf t) = None" | l tatami where "mOperatorTatami w = Some l" "tatamiOf t l = Some tatami"
    by (cases "mOperatorTatami w") auto
  then have "mNextMatch w = nextOpen t' (mOperatorTatami w) (mCurrentMatch w) \<and>
    (\<forall>i. mNextMatch w = Some i \<longrightarrow> i \<in> CombinedId c ` set ids \<or> mNextButton w = isReady t' i)"
  proof cases
    case 1
    then have "Option.bind (mOperatorTatami w) (tatamiOf t') = None"
      using assms(2) by (cases "mOperatorTatami w") (auto simp: watched_def matchesView_def)
    with 1 assms(1) show ?thesis by (simp add: offers_def nextOpen_def)
  next
    case 2
    then have v: "tatamiOf t' l = Some tatami" "\<forall>i \<in> set (wholeQueue tatami). isOpen t' i = isOpen t i \<and> (i \<in> CombinedId c ` set ids \<or> isReady t' i = isReady t i)"
      using assms(2) by (auto simp: watched_def matchesView_def)
    have "find (\<lambda>i. mCurrentMatch w \<noteq> Some i \<and> isOpen t i) (wholeQueue tatami) = find (\<lambda>i. mCurrentMatch w \<noteq> Some i \<and> isOpen t' i) (wholeQueue tatami)"
      by (rule find_same) (use v(2) in simp)
    with 2 v(1) assms(1) have "mNextMatch w = nextOpen t' (mOperatorTatami w) (mCurrentMatch w)" by (simp add: offers_def nextOpen_def)
    moreover have "i \<in> set (wholeQueue tatami)" if "mNextMatch w = Some i" for i
    proof -
      have "find (\<lambda>i. mCurrentMatch w \<noteq> Some i \<and> isOpen t i) (wholeQueue tatami) = Some i" using that 2 assms(1) by (simp add: offers_def nextOpen_def)
      then show ?thesis by (auto simp: find_Some_iff)
    qed
    ultimately show ?thesis using v(2) assms(1) by (auto simp: offers_def)
  qed
  then show "mNextMatch w = nextOpen t' (mOperatorTatami w) (mCurrentMatch w)"
    and "mNextMatch w = Some i \<Longrightarrow> i \<in> CombinedId c ` set ids \<or> mNextButton w = isReady t' i" by blast+
qed

lemma offers_same: "offers t w \<Longrightarrow> watched w (sameView t t') \<Longrightarrow> offers t' w"
proof -
  assume "offers t w" and same: "watched w (sameView t t')"
  from same have "watched w (matchesView c [] t t')" for c by (auto simp: watched_def intro: sameView_matches)
  from offers_matches[OF \<open>offers t w\<close> this] \<open>offers t w\<close> show ?thesis by (auto simp: offers_def split: option.splits)
qed

lemma changeMatches_offers:
  assumes "offers t w" and "watched w (matchesView c ids t t')" and "hall_wf t'"
  shows "\<exists>w'. window_changeMatches t' c ids w = Inr w' \<and> offers t' w'"
proof -
  note o = offers_matches[OF assms(1,2)]
  have stored: "mNextMatch w = None \<or> (\<exists>i match. mNextMatch w = Some i \<and> storedMatch t' i = Some match)"
    using o(1) nextOpen_stored[OF assms(3)] by (cases "mNextMatch w") auto
  let ?named = "case mNextMatch w of None \<Rightarrow> False | Some i \<Rightarrow> getCategoryId i = c \<and> getMatchId i \<in> set ids"
  have button: "\<not> ?named \<Longrightarrow> mNextButton w = (case mNextMatch w of None \<Rightarrow> False | Some i \<Rightarrow> isReady t' i)"
  proof (cases "mNextMatch w")
    case None
    then show ?thesis using assms(1) unfolding offers_def by simp
  next
    case (Some i)
    assume "\<not> ?named"
    with Some have "i \<notin> CombinedId c ` set ids" by auto
    with o(2)[OF Some] Some show ?thesis by simp
  qed
  let ?current = "case mCurrentMatch w of None \<Rightarrow> False | Some i \<Rightarrow> getCategoryId i = c"
  define w1 where "w1 = (if ?current then updateControlButtons w else w)"
  define w2 where "w2 = w1\<lparr>mOperatorBoard := display_changeMatches c ids (mOperatorBoard w1), mAudienceBoard := display_changeMatches c ids (mAudienceBoard w1)\<rparr>"
  have w2: "mNextMatch w2 = mNextMatch w" "mNextButton w2 = mNextButton w" "mOperatorTatami w2 = mOperatorTatami w" "mCurrentMatch w2 = mCurrentMatch w"
    by (simp_all add: w2_def w1_def updateControlButtons_def disableControlButtons_def)
  have changed: "window_changeMatches t' c ids w = (if ?named \<or> ?current then updateNextButton t' w2 else Inr w2)"
    unfolding window_changeMatches_def Let_def w2_def w1_def by (rule refl)
  have updated: "updateNextButton t' w2 = Inr (w2\<lparr>mNextButton := (case mNextMatch w of None \<Rightarrow> False | Some i \<Rightarrow> isReady t' i)\<rparr>)"
    by (subst updateNextButton_eq) (use stored w2(1) in simp_all)
  show ?thesis
  proof (cases "?named \<or> ?current")
    case True
    with changed updated o(1) w2 show ?thesis by (simp add: offers_def)
  next
    case False
    with button have "offers t' w2" unfolding offers_def w2 using o(1) by blast
    with False changed show ?thesis by simp
  qed
qed

text \<open>The other handlers.\<close>

lemma changeTatamis_offers:
  assumes "offers t w" and "hall_wf t'"
    and "watched w (\<lambda>l. (\<exists>location \<in> set locations. handle_eq (getTatamiHandle location) (tatami_handle l)) \<or> sameView t t' l)"
  shows "\<exists>w'. window_changeTatamis t' locations w = Inr w' \<and> offers t' w'"
proof (cases "\<exists>l. mOperatorTatami w = Some l \<and> list_ex (\<lambda>location. handle_eq (getTatamiHandle location) (tatami_handle l)) locations")
  case True
  then show ?thesis using findNextMatch_offers[OF assms(2), of w] by (auto simp: window_changeTatamis_def)
next
  case False
  then have "watched w (sameView t t')" using assms(3) by (auto simp: watched_def list_ex_iff)
  then have "offers t' w" by (rule offers_same[OF assms(1)])
  with False show ?thesis by (auto simp: window_changeTatamis_def split: option.splits)
qed

lemma populate_offers:
  assumes "offers t w" and "hall_wf t'" and "watched w (\<lambda>l. sameView t t' l \<or> selectsFirst \<and> 0 < tatamiCount (mTatamiList t'))"
  shows "\<exists>w'. populateTatamiSelect selectsFirst t' (clearTatamiSelect w) = Inr w' \<and> offers t' w'"
proof (cases "watched w (sameView t t')")
  case True
  then have "offers t' w" by (rule offers_same[OF assms(1)])
  then have "offers t' (clearTatamiSelect w)" by (simp add: offers_def clearTatamiSelect_def)
  then show ?thesis using populate_keeps[OF assms(2), of selectsFirst "clearTatamiSelect w"] by (auto simp: keepsOffer_def)
next
  case False
  then have first: "selectsFirst" "0 < tatamiCount (mTatamiList t')" "mOperatorTatami w \<noteq> None" using assms(3) by (auto simp: watched_def)
  let ?w = "(clearTatamiSelect w)\<lparr>mSelectEnabled := True\<rparr>"
  have "\<exists>w1. select_addItem True t' ?w = Inr w1 \<and> offers t' w1"
    using addItem_forgets[OF assms(2), of ?w] first(3) by (auto simp: clearTatamiSelect_def)
  then obtain w1 where w1: "select_addItem True t' ?w = Inr w1" "offers t' w1" by blast
  have "keepsOffers t' (foldE (addTatamiItem True t') [0..<tatamiCount (mTatamiList t')])"
    by (intro keepsOffers_foldE addTatamiItem_keeps[OF assms(2)]) simp
  then obtain w2 where "foldE (addTatamiItem True t') [0..<tatamiCount (mTatamiList t')] w1 = Inr w2" "keepsOffer t' w1 w2" by (auto simp: keepsOffers_def)
  with w1 first(1,2) show ?thesis by (simp add: populateTatamiSelect_def keepsOffer_def)
qed

lemma currentUnfinished_total: "hall_wf t \<Longrightarrow> \<exists>b. currentUnfinished t current = Inr b"
  by (auto simp: currentUnfinished_def findMatch_def containsCategory_def getCategory_def categories_get_def containsMatch_def getMatch_def nthE_def
      hall_wf_def split: option.splits)

lemma goNextMatch_offers:
  assumes "offers t w" and "hall_wf t"
  shows "\<exists>w'. goNextMatch t reply w = Inr w' \<and> offers t w' \<and> (mNextButton w \<and> (reply \<or> currentUnfinished t (mCurrentMatch w) = Inr False) \<longrightarrow>
    mCurrentMatch w' = mNextMatch w \<and> mDisplayMatch (mOperatorBoard w') = mNextMatch w \<and> mDisplayMatch (mAudienceBoard w') = mNextMatch w \<and> mResetButton w')"
proof (cases "mNextMatch w")
  case None
  with assms(1) show ?thesis by (auto simp: goNextMatch_def offers_def)
next
  case (Some i)
  then obtain match where match: "storedMatch t i = Some match" using assms nextOpen_stored[OF assms(2)] by (metis offers_def)
  have ready: "mNextButton w \<longleftrightarrow> bothPlayers match" using assms(1) Some match by (simp add: offers_def isReady_def)
  obtain b where b: "currentUnfinished t (mCurrentMatch w) = Inr b" using currentUnfinished_total[OF assms(2)] by blast
  let ?w = "w\<lparr>mCurrentMatch := Some i, mOperatorBoard := display_setMatch (Some i) True (mOperatorBoard w),
      mAudienceBoard := display_setMatch (Some i) True (mAudienceBoard w)\<rparr>"
  have "\<exists>w'. findNextMatch t ?w = Inr w' \<and> offers t w' \<and> mCurrentMatch w' = Some i \<and> mOperatorBoard w' = mOperatorBoard ?w \<and> mAudienceBoard w' = mAudienceBoard ?w"
    by (simp add: findNextMatch_eq[OF assms(2)] offers_def)
  then obtain w' where w': "findNextMatch t ?w = Inr w'" "offers t w'" "mCurrentMatch w' = Some i" "mOperatorBoard w' = mOperatorBoard ?w" "mAudienceBoard w' = mAudienceBoard ?w"
    by blast
  have go: "goNextMatch t reply w = (if \<not> bothPlayers match \<or> b \<and> \<not> reply then Inr w else Inr (updateControlButtons w'))"
    using Some b w'(1) by (simp add: goNextMatch_def matchOf_stored[OF match] bothPlayers_def)
  have "offers t (updateControlButtons w')" using w'(2) by (simp add: updateControlButtons_def disableControlButtons_def offers_def)
  with go ready b w' Some assms(1) show ?thesis by (auto simp: updateControlButtons_def display_setMatch_def)
qed

lemma newOperatorWindow_offers:
  assumes "hall_wf t"
  shows "\<exists>w. newOperatorWindow selectsFirst t = Inr w \<and> offers t w"
proof -
  have "\<exists>w1. findNextMatch t w0 = Inr w1 \<and> offers t (disableControlButtons w1)" for w0
    using findNextMatch_offers[OF assms, of w0] by (auto simp: offers_def disableControlButtons_def)
  moreover have "\<exists>w. populateTatamiSelect selectsFirst t w1 = Inr w \<and> (offers t w1 \<longrightarrow> offers t w)" for w1
    using populate_keeps[OF assms, of selectsFirst w1] by (auto simp: keepsOffer_def)
  ultimately show ?thesis unfolding newOperatorWindow_def by (metis bindE_simps(2))
qed

lemma endResetTournament_offers:
  assumes "hall_wf t'"
  shows "\<exists>w'. window_endResetTournament selectsFirst t' w = Inr w' \<and> offers t' w'"
proof -
  have "\<exists>w2. findNextMatch t' w1 = Inr w2 \<and> offers t' (updateControlButtons w2)" for w1
    using findNextMatch_offers[OF assms, of w1] by (auto simp: updateControlButtons_def disableControlButtons_def offers_def)
  moreover have "\<exists>w1. populateTatamiSelect selectsFirst t' w0 = Inr w1" for w0 using populate_keeps[OF assms] by blast
  ultimately show ?thesis unfolding window_endResetTournament_def by (metis bindE_simps(2))
qed

text \<open>No handler fails, and each leaves the right match on offer.\<close>

lemma window_event_offers:
  assumes "window_event selectsFirst t w t' result" and "offers t w" and "hall_wf t"
  shows "hall_wf t' \<and> (\<exists>w'. result = Inr w' \<and> offers t' w')"
  using assms(1)
proof cases
  case loaded
  then show ?thesis using endResetTournament_offers by blast
next
  case (chosen index)
  then show ?thesis using assms(2,3) setCurrentIndex_keeps[OF assms(3), of index] by (auto simp: keepsOffers_def keepsOffer_def dest!: spec[of _ w])
next
  case (went reply)
  then show ?thesis using assms(3) goNextMatch_offers[OF assms(2,3), of reply] by auto
next
  case (tatamis locations)
  then show ?thesis using changeTatamis_offers[OF assms(2)] by blast
next
  case (matches c ids)
  then show ?thesis using changeMatches_offers[OF assms(2)] by blast
next
  case counted
  then show ?thesis using populate_offers[OF assms(2)] by blast
next
  case (resetting ids)
  then show ?thesis using assms(2,3) by (auto simp: window_beginResetMatches_def disableControlButtons_def offers_def split: option.splits)
next
  case reset
  then show ?thesis using assms(2,3) by (auto simp: window_endResetMatches_def updateControlButtons_def disableControlButtons_def offers_def)
next
  case elsewhere
  then show ?thesis using assms(2) offers_same by blast
qed

lemma window_reachable_offers: "window_reachable selectsFirst t w \<Longrightarrow> hall_wf t \<and> offers t w"
proof (induction rule: window_reachable.induct)
  case (opened t w)
  then show ?case using newOperatorWindow_offers[of t selectsFirst] by auto
next
  case (event t w t' w')
  then show ?case using window_event_offers[of selectsFirst t w t' "Inr w'"] by auto
qed

text \<open>
  C18. The score operator is always offered the right match. After the window has been opened on a tournament with a consistent schedule, and after any
  sequence of the events of \<open>window_event\<close> (a tournament is loaded, a tatami is chosen, the next match is shown, the signals of changed tatamis, matches,
  tatami counts and resets, which name what has changed; excluded are erasing the last tatami while one is chosen and signals while a question is shown), the next match is the first match
  of the chosen tatami, in the order of its schedule, that is neither finished nor a bye nor the current match, and the button to go there is
  enabled exactly when both players of it are known. Pressing it shows that match on both boards, unless the operator declines to leave
  an unfinished match. None of the handlers of these events fails, and neither does opening the window.
\<close>
theorem next_match_offered:
  assumes "window_reachable selectsFirst t w"
  shows "mNextMatch w = nextOpen t (mOperatorTatami w) (mCurrentMatch w) \<and>
    (mNextButton w \<longleftrightarrow> (\<exists>i. mNextMatch w = Some i \<and> isReady t i)) \<and>
    (\<exists>w'. goNextMatch t reply w = Inr w' \<and> (mNextButton w \<and> (reply \<or> currentUnfinished t (mCurrentMatch w) = Inr False) \<longrightarrow>
      mCurrentMatch w' = mNextMatch w \<and> mDisplayMatch (mOperatorBoard w') = mNextMatch w \<and> mDisplayMatch (mAudienceBoard w') = mNextMatch w \<and>
      mNextMatch w' = nextOpen t (mOperatorTatami w') (mNextMatch w))) \<and>
    (\<forall>t' result. window_event selectsFirst t w t' result \<longrightarrow> (\<exists>w'. result = Inr w')) \<and>
    (\<forall>t'. hall_wf t' \<longrightarrow> (\<exists>w'. newOperatorWindow selectsFirst t' = Inr w'))"
proof -
  from window_reachable_offers[OF assms] have wf: "hall_wf t" and o: "offers t w" by auto
  obtain w' where w': "goNextMatch t reply w = Inr w'" "offers t w'" "mNextButton w \<and> (reply \<or> currentUnfinished t (mCurrentMatch w) = Inr False) \<longrightarrow>
      mCurrentMatch w' = mNextMatch w \<and> mDisplayMatch (mOperatorBoard w') = mNextMatch w \<and> mDisplayMatch (mAudienceBoard w') = mNextMatch w"
    using goNextMatch_offers[OF o wf, of reply] by blast
  have "mNextMatch w' = nextOpen t (mOperatorTatami w') (mCurrentMatch w')" using w'(2) by (simp add: offers_def)
  moreover have "mNextButton w \<longleftrightarrow> (\<exists>i. mNextMatch w = Some i \<and> isReady t i)" using o by (simp add: offers_def split: option.splits)
  moreover have "mNextMatch w = nextOpen t (mOperatorTatami w) (mCurrentMatch w)" using o by (simp add: offers_def)
  moreover have "\<forall>t' result. window_event selectsFirst t w t' result \<longrightarrow> (\<exists>w'. result = Inr w')"
    using window_event_offers[OF _ o wf] by metis
  moreover have "\<forall>t'. hall_wf t' \<longrightarrow> (\<exists>w'. newOperatorWindow selectsFirst t' = Inr w')"
    using newOperatorWindow_offers by metis
  ultimately show ?thesis using w'(1,3) by auto
qed

lemma exampleTournament_hall: "hall_wf (exampleTournament b)"
proof -
  let ?t = "exampleTournament b"
  have "tatamiOf ?t l = Some tatami \<Longrightarrow> tatami = exampleTatami" for l tatami
    by (simp add: tatamiOf_def exampleTournament_def split: if_splits)
  moreover have "tatami_wf ?t exampleTatami"
    using exampleTournament_storedMatch[of b] by (simp add: tatami_wf_def exampleTatami_queue) (auto simp: exampleTatami_def pm_inv_def)
  moreover have "mGroupStatus g \<noteq> GROUP_FINISHED" if "mElements (mConcurrentGroups exampleTatami) k = Some g" for k g
    using that by (auto simp: exampleTatami_def Web_Tatami_Model.exampleGroup_def newConcurrentBlockGroup_def split: if_splits)
  moreover have "k < length (mMatches c)" if "mCategories ?t i = Some c" "mMatchMap c j = Some k" for i c j k
    using that by (auto simp: exampleTournament_def split: if_splits)
  ultimately show ?thesis unfolding hall_wf_def by blast
qed

text \<open>The operator opens the window and chooses the only tatami; the first of its matches is finished, and the second one is offered.\<close>

lemma exampleTournament_next:
  "nextOpen (exampleTournament True) None current = None"
  "handle_id (tatami_handle l) = 5 \<Longrightarrow> nextOpen (exampleTournament True) (Some l) None = Some (CombinedId 7 12)"
proof -
  assume "handle_id (tatami_handle l) = 5"
  then have "tatamiOf (exampleTournament True) l = Some exampleTatami" using exampleTatami_of[of True] by (simp add: tatamiOf_def)
  moreover have "\<not> isOpen (exampleTournament True) (CombinedId 7 11)" "isOpen (exampleTournament True) (CombinedId 7 12)"
    using exampleTournament_storedMatch[of True]
    by (simp_all add: isOpen_def Web_Tatami_Model.exampleMatch_def newMatchStore_def newState_def store_simps)
  ultimately show "nextOpen (exampleTournament True) (Some l) None = Some (CombinedId 7 12)" by (simp add: nextOpen_def exampleTatami_queue)
qed (simp add: nextOpen_def)

lemmas window_eval = newOperatorWindow_def findNextMatch_eq[OF exampleTournament_hall] exampleTournament_next populateTatamiSelect_def select_addItem_def
  select_setCurrentIndex_def addTatamiItem_def setTatami_def sameLocation_def disableControlButtons_def clearTatamiSelect_def
  tatamiCount_def pm_size_def list_getHandle_def pm_getHandle_def nthE_def TatamiLocation_eq_def handle_eq_def

lemma exampleTatamis: "mTatamiList (exampleTournament b) = \<lparr>mTatamis = \<lparr>mIds = [5], mElements = [5 \<mapsto> exampleTatami]\<rparr>\<rparr>"
  by (simp add: exampleTournament_def)

lemma exampleWindow:
  "map_sum id (\<lambda>w. (mNextMatch w, mSelectIndex w, mSelectCount w)) (bindE (newOperatorWindow True (exampleTournament True)) (select_setCurrentIndex (exampleTournament True) 1)) =
   Inr (Some (CombinedId 7 12), 1, 2)"
  by (simp add: window_eval exampleTatamis)

theorem next_match_offered_witness:
  "\<exists>w w'. window_reachable True (exampleTournament True) w \<and> mNextMatch w = Some (CombinedId 7 12) \<and> mNextButton w \<and>
     goNextMatch (exampleTournament True) True w = Inr w' \<and> mCurrentMatch w' = Some (CombinedId 7 12)"
proof -
  let ?t = "exampleTournament True"
  have "\<exists>w. bindE (newOperatorWindow True ?t) (select_setCurrentIndex ?t 1) = Inr w \<and> mNextMatch w = Some (CombinedId 7 12)"
    using exampleWindow by (cases "bindE (newOperatorWindow True ?t) (select_setCurrentIndex ?t 1)") auto
  then obtain w0 w where w: "newOperatorWindow True ?t = Inr w0" "select_setCurrentIndex ?t 1 w0 = Inr w" "mNextMatch w = Some (CombinedId 7 12)" by auto
  then have reach: "window_reachable True ?t w" using window_reachable.event[OF window_reachable.opened[OF exampleTournament_hall w(1)]] window_event.chosen[of True ?t w0 1] by simp
  have "isReady ?t (CombinedId 7 12)"
    using exampleTournament_storedMatch(2)[of True] by (simp add: isReady_def bothPlayers_def Web_Tatami_Model.exampleMatch_def newMatchStore_def store_simps)
  with next_match_offered[OF reach, of True] reach w(3) show ?thesis by auto
qed

text \<open>
  The choice of the operator is lost whenever tatamis are added or erased, in a box that makes its first item the current one: filling it again
  with its placeholder chooses no tatami.
\<close>

lemma addTatamiItem_nothing_chosen:
  assumes "mOperatorTatami w = None" and "0 < mSelectCount w" and "i < tatamiCount (mTatamiList t)"
  shows "addTatamiItem selectsFirst t i w = Inr (w\<lparr>mSelectCount := Suc (mSelectCount w)\<rparr>)"
proof -
  obtain h where "list_getHandle i (mTatamiList t) = Inr h"
    using assms(3) by (auto simp: list_getHandle_def pm_getHandle_def tatamiCount_def pm_size_def nthE_def)
  with assms(1,2) show ?thesis by (simp add: addTatamiItem_def select_addItem_def Let_def)
qed

lemma chosen_tatami_is_forgotten:
  assumes "hall_wf t" and "0 < tatamiCount (mTatamiList t)"
  shows "\<exists>w'. populateTatamiSelect True t (clearTatamiSelect w) = Inr w' \<and> mOperatorTatami w' = None"
proof -
  obtain w1 where w1: "select_addItem True t ((clearTatamiSelect w)\<lparr>mSelectEnabled := True\<rparr>) = Inr w1" "mOperatorTatami w1 = None" "0 < mSelectCount w1"
    using addItem_forgets[OF assms(1), of "(clearTatamiSelect w)\<lparr>mSelectEnabled := True\<rparr>"] by (auto simp: clearTatamiSelect_def)
  have "\<exists>w'. foldE (addTatamiItem True t) is w1 = Inr w' \<and> mOperatorTatami w' = None" if "\<forall>i \<in> set is. i < tatamiCount (mTatamiList t)" for "is"
    using that w1(2,3) by (induction "is" arbitrary: w1) (simp_all add: addTatamiItem_nothing_chosen)
  from this[of "[0..<tatamiCount (mTatamiList t)]"] w1(1) assms(2) show ?thesis by (simp add: populateTatamiSelect_def)
qed

end
