(* ===== verification/Spec2Isabelle.thy ===== *)
theory Spec2Isabelle
  imports Match_Correctness Draw_Correctness Draw_Updates Pool_Results Tatami_Moves Auto_Categories Import_Correctness Network_System
    Network_Message Web_Server Master_Store_Manager Unallocated_Blocks Operator_Window
begin

text \<open>
  JudoAssistant runs judo tournaments: a desktop application keeps the tournament and serves it to further applications in the
  hall (score operators, displays), every change is an action that can be undone, and a web server shows the tournament to
  browsers. This development models the program from its data up to the composed systems and proves the properties that make
  the parts correct. File names are relative to the directory \<^verbatim>\<open>src\<close> of the repository.

  \<^bold>\<open>How the parts interact.\<close> A tournament (\<open>Tournament_Store\<close>) holds players, categories and the list of tatamis. A category holds its
  matches and a draw system, which creates the matches of a draw and fills in later ones as earlier ones finish. Tatamis hold groups of
  blocks of matches and cache their schedule. Actions change the tournament; a store manager keeps the lists of actions that make
  undo and redo possible and lets the network put actions of others before its own. A server orders the actions of all clients.
  The web client of the server uploads the tournament and all actions to the web server, which keeps a copy per tournament, logs what
  changed and sends it to the browsers that watch it.

  \<^bold>\<open>Data of a tournament.\<close>
  \<^item> \<open>Prelude\<close>: errors as values, sequencing of fallible operations, vectors, shared lemmas and the locale \<open>keyed_store\<close>. \<open>Random_Engine\<close>:
    \<^verbatim>\<open>std::mt19937\<close> and \<^verbatim>\<open>core/shuffle.hpp\<close>. \<open>Ids\<close>: \<^verbatim>\<open>core/id.hpp\<close> with the generation of fresh identifiers. \<open>Position_Manager\<close>: lists with
    stable handles, shown to refine lists.
  \<^item> \<open>Match_Store\<close>, \<open>Rulesets\<close>, \<open>Match_Events\<close>, \<open>Match_Correctness\<close>: \<^verbatim>\<open>core/stores/match_store\<close>, \<^verbatim>\<open>core/rulesets\<close> and the bodies of the twelve
    commands on a match. In every run of commands, resets and undos a match has consistent scores and clocks, and it is finished only when it is a bye or decided, but
    for the undo of a change of the bye flag; guarded commands do not violate the assertions of the rulesets; cancelling undoes awarding.
  \<^item> \<open>Player_Store\<close>, \<open>Category_Store\<close>, \<open>Preferences_Store\<close>: \<^verbatim>\<open>core/stores\<close> of players, categories and preferences, with the actions on preferences.
  \<^item> \<open>Draw_Order\<close>, \<open>Draw_Systems\<close>, \<open>Pool_Results\<close>, \<open>Draw_Correctness\<close>: \<^verbatim>\<open>core/draw_systems\<close>. Schedules of even pools meet every pair once, merged pools
    keep every match and its order, rankings list every player once, and draws of even pools create one match per pair.
  \<^item> \<open>Tatami_Groups\<close>, \<open>Tatami_Schedule\<close>, \<open>Tatami_List\<close>, \<open>Tatami_Moves\<close>: \<^verbatim>\<open>core/stores/tatami\<close>. Recomputing a group gives the rotation of its sequential
    groups, the incremental update equals it, and moving blocks refines moving entries between lists.
  \<^item> \<open>Tournament_Store\<close>: \<^verbatim>\<open>core/stores/tournament_store\<close>.

  \<^bold>\<open>Actions\<close> (\<^verbatim>\<open>core/actions\<close>).
  \<^item> \<open>Match_Actions\<close>: the actions on matches with the counters and draw updates they trigger; \<open>Draw_Updates\<close> shows that these updates settle.
  \<^item> \<open>Field_Actions\<close>, \<open>Tatami_Actions\<close>, \<open>Draw_Actions\<close>, \<open>Membership_Actions\<close>: the actions on fields, tatamis, draws, players and categories. Field actions
    are instances of one locale and are undone exactly.
  \<^item> \<open>Auto_Categories\<close>: the dynamic program that splits players by weight finds a split that is best in the lexicographic order of the fifty smallest sizes.
  \<^item> \<open>Player_Import\<close>, \<open>Import_Correctness\<close>: \<^verbatim>\<open>ui/import_helpers\<close> and the texts of fields in \<^verbatim>\<open>ui/stores/qplayer_*.cpp\<close>. Tables of plain cells are read back as they were
    written, and every row of a table becomes one player of an import (executed for imports without categories).

  \<^bold>\<open>Replication.\<close>
  \<^item> \<open>Store_Manager\<close>, \<open>Store_Protocol\<close>, \<open>Dispatched_Actions\<close>: \<^verbatim>\<open>ui/store_managers/store_manager.cpp\<close>. The locale \<open>revertible_actions\<close> is what managers rely on
    from actions, interpreted for the field actions; the properties of managers, of the network and of undo at the web server are about these actions, since
    several others are not undone exactly. Undoing such an action is as if it had never been executed; received actions take effect
    before the unconfirmed ones.
  \<^item> \<open>Network_Server\<close>, \<open>Network_Client\<close>, \<open>Network_System\<close>: \<^verbatim>\<open>ui/network\<close>. In the system of a server, an observed client and any others, while a connection lasts, the client converges
    to the tournament of the server, can always do so, and no handler fails. Connecting is one step of that system; what a dispatch in the middle of it
    does is shown on the handlers themselves.
  \<^item> \<open>Network_Message\<close>: \<^verbatim>\<open>core/network/network_message.cpp\<close>, \<^verbatim>\<open>network_connection.cpp\<close> and \<^verbatim>\<open>core/version.cpp\<close>. Messages arrive as they were sent, with what an archive
    keeps of the actions in them, which is why the other theories speak of decoded messages; the handshake accepts exactly compatible versions.
  \<^item> \<open>Master_Store_Manager\<close>: \<^verbatim>\<open>ui/store_managers/master_store_manager.cpp\<close>. Saved tournaments load as they were, and saving rotates the backups.

  \<^bold>\<open>The web.\<close>
  \<^item> \<open>Web_Client\<close>: \<^verbatim>\<open>ui/web/web_client.cpp\<close>, the end of the application. Its handlers do not fail while it is connected, and the upload is
    accepted exactly when nothing was sent before the clock request was answered.
  \<^item> \<open>Tcp_Participant\<close>, \<open>Web_Participant\<close>, \<open>Web_Database\<close>, \<open>Web_Server\<close>: \<^verbatim>\<open>web/tcp_participant.cpp\<close>, \<^verbatim>\<open>web_participant.cpp\<close>, \<^verbatim>\<open>database.cpp\<close>, \<^verbatim>\<open>web_server.cpp\<close>.
    Handlers of connected applications do not fail but for the two cases named there, requests of browsers are understood, and only the
    owner of a web name changes the tournament shown under it.
  \<^item> \<open>Web_Tatami_Model\<close>, \<open>Web_Tournament_Store\<close>, \<open>Json_Encoder\<close>, \<open>Json_Messages\<close>, \<open>Loaded_Tournament\<close>, \<open>Loaded_Actions\<close>: \<^verbatim>\<open>web/web_tatami_model.cpp\<close>,
    \<^verbatim>\<open>web_tournament_store.cpp\<close>, \<^verbatim>\<open>json_encoder.cpp\<close>, \<^verbatim>\<open>loaded_tournament.cpp\<close>. A tatami shows the next five matches, the logs of players and categories describe the difference since
    the last delivery, a browser that applies change messages has what a new subscription would give, and saved tournaments load as they were.

  \<^bold>\<open>The user interface\<close> (\<^verbatim>\<open>ui/widgets\<close>, \<^verbatim>\<open>ui/misc\<close>).
  \<^item> \<open>Score_Operator\<close>: \<^verbatim>\<open>score_operator_widget.cpp\<close>, \<^verbatim>\<open>score_display_widget.cpp\<close>. Clicks on the scoreboard give exactly the commands that the ruleset allows,
    and the timer leaves nothing overdue, on the whole tournament for matches of pools; what the commands do is in \<open>Match_Actions\<close>.
  \<^item> \<open>Operator_Window\<close>: \<^verbatim>\<open>score_operator_window.cpp\<close>. The match that is offered next is the first open match of the tatami's schedule, and the handlers succeed.
  \<^item> \<open>Name_Order\<close>, \<open>Unallocated_Blocks\<close>: \<^verbatim>\<open>numerical_string_comparator.cpp\<close>, \<^verbatim>\<open>category_name_comparator.cpp\<close>, \<^verbatim>\<open>unallocated_blocks_widget.cpp\<close>. The comparator of names is
    the lexicographic order of their keys; the blocks without a tatami are shown in order, each once.

  \<^bold>\<open>Conventions.\<close> A class is a record, an enumeration a datatype, a method a function that takes the object and returns it changed.
  Assertions are compiled in, so a failed assertion is an error, like an exception (\<open>exec_error\<close>); what C++ leaves undefined is the
  error \<open>UndefinedBehaviour\<close>. Identifiers and counters that can wrap around are words; times are integers of milliseconds. Handlers of asynchronous
  calls are functions, and the calls under way are part of the state, so every interleaving of handlers is a sequence of steps.
  Libraries (cereal, zstd, bcrypt, PostgreSQL, Qt, the file system, the allocator, the random device) are parameters; what is assumed of them is a
  named hypothesis with an instance.

  \<^bold>\<open>Loops and bounds.\<close> Loops over containers are structural. The search for a fresh identifier may never end (\<open>generate\<close>) and is a partial
  function; so is the loading loop of \<open>Web_Tatami_Model\<close>, which is shown to end in every reachable state. Three definitions carry fuel: the merge of
  match iterators (\<open>mergeFuel\<close>, enough by the theorem on recomputing a group in \<open>Tatami_Schedule\<close>), the reading of groups (enough by the
  optimality theorem of \<open>Auto_Categories\<close>) and the nesting of draw updates (\<open>notifyDepth\<close>, never reached by the theorem of \<open>Draw_Updates\<close>).
  \<open>MAX_ACTION_STACK_SIZE\<close> and the like are the constants of the source.

  \<^bold>\<open>Not modelled.\<close> The other widgets, the painters, item models and validators of \<^verbatim>\<open>ui\<close> and the Qt signals of \<^verbatim>\<open>ui/stores\<close> (they show the
  stores and call the actions; what they keep is the view); sockets, TLS and the worker thread (calls of boost and OpenSSL); logging,
  configuration, entry points and the migrations of the database. Descriptions of actions and the serialisation methods are
  left out, too: they are texts, and lists of fields for cereal.
\<close>

end
